(* ===== verification/Js_Prelude.thy ===== *)
theory Js_Prelude
  imports Complex_Main "HOL-Library.Char_ord" "HOL-Library.List_Lexorder"
begin

text \<open>
  The shared ground of the development: the JavaScript values the modules of
  \<open>src/lib\<close> exchange, the conversions of the language they use, results of calls that may
  throw, and the list and string lemmas the components share.

  A value is what \<open>JSON.parse\<close> can produce, plus \<open>undefined\<close>: finite numbers are exact
  rationals, a string is the list of its code units (Latin-1 range), an object is the list of its
  own properties in enumeration order.  What the ECMAScript standard leaves to the implementation
  (the reading of dates, collation, the digits of a fraction) is a field of the record
  \<open>js_env\<close> and an argument of the definitions that use it.
\<close>

section \<open>Collections of rules\<close>

named_theorems js_simps \<open>evaluation of the language primitives\<close>
named_theorems gate_simps \<open>unfolding of the decision functions of the components\<close>

section \<open>Results of calls that may throw\<close>

text \<open>\<open>Inl e\<close> is a thrown error (or a refusal), \<open>Inr x\<close> a normal return.\<close>

definition bind_result :: "'e + 'a \<Rightarrow> ('a \<Rightarrow> 'e + 'b) \<Rightarrow> 'e + 'b" where
  "bind_result r f = (case r of Inl e \<Rightarrow> Inl e | Inr x \<Rightarrow> f x)"

lemma bind_result_simps [simp]:
  "bind_result (Inl e) f = Inl e"
  "bind_result (Inr x) f = f x"
  by (simp_all add: bind_result_def)

lemma bind_result_eq_Inr:
  "bind_result r f = Inr y \<longleftrightarrow> (\<exists>x. r = Inr x \<and> f x = Inr y)"
  by (cases r) auto

lemma bind_result_InrE [elim!]:
  assumes "bind_result r f = Inr y"
  obtains x where "r = Inr x" and "f x = Inr y"
  using assms by (auto simp: bind_result_eq_Inr)

text \<open>\<open>guard_result c e\<close> is the statement \<open>if (!c) throw e\<close>.\<close>

definition guard_result :: "bool \<Rightarrow> 'e \<Rightarrow> 'e + unit" where
  "guard_result c e = (if c then Inr () else Inl e)"

lemma guard_result_simps [simp]:
  "guard_result True e = Inr ()"
  "guard_result False e = Inl e"
  by (simp_all add: guard_result_def)

lemma guard_result_eq_Inr [simp]: "guard_result c e = Inr u \<longleftrightarrow> c"
  by (simp add: guard_result_def)

text \<open>\<open>map_result f xs\<close> is \<open>xs.map(f)\<close> with an \<open>f\<close> that may throw.\<close>

fun map_result :: "('a \<Rightarrow> 'e + 'b) \<Rightarrow> 'a list \<Rightarrow> 'e + 'b list" where
  "map_result f [] = Inr []"
| "map_result f (x # xs) =
     bind_result (f x) (\<lambda>y. bind_result (map_result f xs) (\<lambda>ys. Inr (y # ys)))"

lemma map_result_length: "map_result f xs = Inr ys \<Longrightarrow> length ys = length xs"
  by (induction xs arbitrary: ys) auto

lemma map_result_all:
  "map_result f xs = Inr ys \<Longrightarrow> (\<And>x y. f x = Inr y \<Longrightarrow> P y) \<Longrightarrow> y \<in> set ys \<Longrightarrow> P y"
  by (induction xs arbitrary: ys) auto

section \<open>Values\<close>

datatype jsval =
    JUndefined
  | JNull
  | JBool bool
  | JNum rat
  | JStr string
  | JArr "jsval list"
  | JObj "(string \<times> jsval) list"

type_synonym jsfields = "(string \<times> jsval) list"

record js_env =
  date_parse :: "string \<Rightarrow> int option"
  iso_at :: "int \<Rightarrow> string"
  locale_compare :: "string \<Rightarrow> string \<Rightarrow> int"
  number_of_string :: "string \<Rightarrow> rat option"
  string_of_fraction :: "rat \<Rightarrow> string"
  sha256_hex :: "string \<Rightarrow> string"

fun truthy :: "jsval \<Rightarrow> bool" where
  "truthy JUndefined = False"
| "truthy JNull = False"
| "truthy (JBool b) = b"
| "truthy (JNum r) = (r \<noteq> 0)"
| "truthy (JStr s) = (s \<noteq> [])"
| "truthy (JArr xs) = True"
| "truthy (JObj fs) = True"

text \<open>\<open>typeof v === 'object' && v !== null\<close>: arrays are objects too.\<close>

fun is_object :: "jsval \<Rightarrow> bool" where
  "is_object (JArr xs) = True"
| "is_object (JObj fs) = True"
| "is_object _ = False"

text \<open>A record: an object that is not an array (\<open>lib/is-plain-object.js\<close>).\<close>

fun isPlainObject :: "jsval \<Rightarrow> bool" where
  "isPlainObject (JObj fs) = True"
| "isPlainObject _ = False"

fun is_nullish :: "jsval \<Rightarrow> bool" where
  "is_nullish JUndefined = True"
| "is_nullish JNull = True"
| "is_nullish _ = False"

fun is_string :: "jsval \<Rightarrow> bool" where
  "is_string (JStr s) = True"
| "is_string _ = False"

text \<open>\<open>Number.isInteger\<close>, and the number of a value that is one.\<close>

fun is_integer :: "jsval \<Rightarrow> bool" where
  "is_integer (JNum r) = (r = of_int \<lfloor>r\<rfloor>)"
| "is_integer _ = False"

fun num_of :: "jsval \<Rightarrow> rat" where
  "num_of (JNum r) = r"
| "num_of _ = 0"

section \<open>Properties of objects\<close>

definition field :: "jsfields \<Rightarrow> string \<Rightarrow> jsval" where
  "field fs k = (case map_of fs k of Some v \<Rightarrow> v | None \<Rightarrow> JUndefined)"

fun jget :: "jsval \<Rightarrow> string \<Rightarrow> jsval" where
  "jget (JObj fs) k = field fs k"
| "jget _ k = JUndefined"

text \<open>Assignment keeps the place of an existing property and appends a new one.\<close>

fun put_field :: "string \<Rightarrow> jsval \<Rightarrow> jsfields \<Rightarrow> jsfields" where
  "put_field k v [] = [(k, v)]"
| "put_field k v ((l, w) # fs) = (if l = k then (k, v) # fs else (l, w) # put_field k v fs)"

definition drop_field :: "string \<Rightarrow> jsfields \<Rightarrow> jsfields" where
  "drop_field k fs = filter (\<lambda>p. fst p \<noteq> k) fs"

lemma map_of_put_field: "map_of (put_field k v fs) = (map_of fs)(k \<mapsto> v)"
  by (induction fs) (auto simp: fun_upd_twist)

lemma field_put_field [simp]:
  "field (put_field k v fs) l = (if l = k then v else field fs l)"
  by (simp add: field_def map_of_put_field)

lemma field_Nil [simp]: "field [] k = JUndefined"
  by (simp add: field_def)

lemma field_Cons [simp]: "field ((l, w) # fs) k = (if k = l then w else field fs k)"
  by (simp add: field_def)

lemma fst_set_put_field: "fst ` set (put_field k v fs) = insert k (fst ` set fs)"
  by (induction k v fs rule: put_field.induct) (simp_all add: insert_commute)

lemma distinct_put_field:
  "distinct (map fst fs) \<Longrightarrow> distinct (map fst (put_field k v fs))"
  by (induction k v fs rule: put_field.induct) (auto simp: fst_set_put_field)

lemma drop_field_fresh: "k \<notin> fst ` set fs \<Longrightarrow> drop_field k fs = fs"
  by (induction fs) (auto simp: drop_field_def)

lemma put_field_fresh: "k \<notin> fst ` set fs \<Longrightarrow> put_field k v fs = fs @ [(k, v)]"
  by (induction fs) auto

lemma drop_put_field:
  "k \<notin> fst ` set fs \<Longrightarrow> drop_field k (put_field k v fs) = fs"
  using drop_field_fresh [of k fs] by (simp add: put_field_fresh drop_field_def)

lemma put_drop_field_same_set:
  assumes "distinct (map fst fs)" and "(k, v) \<in> set fs"
  shows "set (put_field k v (drop_field k fs)) = set fs"
proof -
  have fresh: "k \<notin> fst ` set (drop_field k fs)"
    by (auto simp: drop_field_def)
  have uniq: "w = v" if "(k, w) \<in> set fs" for w
    using eq_key_imp_eq_value [OF assms(1) assms(2) that] by simp
  have "set fs = insert (k, v) {p \<in> set fs. fst p \<noteq> k}"
  proof (intro equalityI subsetI)
    fix p assume p: "p \<in> set fs"
    show "p \<in> insert (k, v) {p \<in> set fs. fst p \<noteq> k}"
      using p uniq [of "snd p"] by (cases "fst p = k") (auto simp: prod_eq_iff)
  next
    fix p assume "p \<in> insert (k, v) {p \<in> set fs. fst p \<noteq> k}"
    then show "p \<in> set fs" using assms(2) by blast
  qed
  with fresh show ?thesis
    by (simp add: put_field_fresh) (auto simp: drop_field_def)
qed

section \<open>Strings\<close>

text \<open>White space and line terminators of the language within the Latin-1 range.\<close>

definition is_space :: "char \<Rightarrow> bool" where
  "is_space c = (of_char c \<in> {9, 10, 11, 12, 13, 32, 160 :: nat})"

definition trim :: "string \<Rightarrow> string" where
  "trim s = rev (dropWhile is_space (rev (dropWhile is_space s)))"

definition lower_char :: "char \<Rightarrow> char" where
  "lower_char c = (let n = of_char c :: nat in
     if (65 \<le> n \<and> n \<le> 90) \<or> (192 \<le> n \<and> n \<le> 222 \<and> n \<noteq> 215) then char_of (n + 32) else c)"

definition to_lower :: "string \<Rightarrow> string" where
  "to_lower s = map lower_char s"

definition starts_with :: "string \<Rightarrow> string \<Rightarrow> bool" where
  "starts_with s p = (take (length p) s = p)"

fun contains :: "string \<Rightarrow> string \<Rightarrow> bool" where
  "contains [] p = (p = [])"
| "contains (c # s) p = (take (length p) (c # s) = p \<or> contains s p)"

lemma starts_with_append [simp]: "starts_with (p @ s) p"
  by (simp add: starts_with_def)

lemma starts_with_iff: "starts_with s p \<longleftrightarrow> (\<exists>r. s = p @ r)"
  by (auto simp: starts_with_def) (metis append_take_drop_id)

lemma dropWhile_hd: "dropWhile P xs \<noteq> [] \<Longrightarrow> \<not> P (hd (dropWhile P xs))"
  by (induction xs) auto

lemma dropWhile_id: "xs = [] \<or> \<not> P (hd xs) \<Longrightarrow> dropWhile P xs = xs"
  by (cases xs) auto

lemma length_trim_le: "length (trim s) \<le> length s"
  using length_dropWhile_le [of is_space "rev (dropWhile is_space s)"]
    length_dropWhile_le [of is_space s]
  by (simp add: trim_def)

lemma dropWhile_suffix_last:
  "dropWhile P xs \<noteq> [] \<Longrightarrow> last (dropWhile P xs) = last xs"
  by (induction xs) auto

lemma trim_idem [simp]: "trim (trim s) = trim s"
proof (cases "trim s = []")
  case True
  moreover have "trim [] = []" by (simp add: trim_def)
  ultimately show ?thesis by simp
next
  case False
  let ?a = "dropWhile is_space s" and ?b = "dropWhile is_space (rev (dropWhile is_space s))"
  from False have b: "?b \<noteq> []" by (simp add: trim_def)
  have a: "?a \<noteq> []"
  proof
    assume "?a = []"
    with b show False by (simp only: rev.simps dropWhile.simps simp_thms)
  qed
  have "hd (rev ?b) = last ?b" by (rule hd_rev)
  also have "\<dots> = last (rev ?a)" using b by (rule dropWhile_suffix_last)
  also have "\<dots> = hd ?a" by (rule last_rev)
  finally have e: "hd (rev ?b) = hd ?a" .
  have h: "\<not> is_space (hd (rev ?b))" unfolding e using a by (rule dropWhile_hd)
  have l: "\<not> is_space (hd ?b)" using b by (rule dropWhile_hd)
  have 1: "dropWhile is_space (rev ?b) = rev ?b" using h by (intro dropWhile_id) blast
  have 2: "dropWhile is_space ?b = ?b" using l by (intro dropWhile_id) blast
  show ?thesis unfolding trim_def 1 rev_rev_ident 2 ..
qed

lemma trim_Nil [simp]: "trim [] = []"
  by (simp add: trim_def)

section \<open>Sorting with a comparator\<close>

text \<open>
  \<open>Array.prototype.sort(cmp)\<close> is stable.  For a consistent comparator the stable sorted
  permutation is unique, and insertion computes it.
\<close>

fun insert_by :: "('a \<Rightarrow> 'a \<Rightarrow> int) \<Rightarrow> 'a \<Rightarrow> 'a list \<Rightarrow> 'a list" where
  "insert_by cmp x [] = [x]"
| "insert_by cmp x (y # ys) = (if cmp x y \<le> 0 then x # y # ys else y # insert_by cmp x ys)"

definition sort_by :: "('a \<Rightarrow> 'a \<Rightarrow> int) \<Rightarrow> 'a list \<Rightarrow> 'a list" where
  "sort_by cmp xs = foldr (insert_by cmp) xs []"

lemma set_insert_by [simp]: "set (insert_by cmp x ys) = insert x (set ys)"
  by (induction ys) auto

lemma length_insert_by [simp]: "length (insert_by cmp x ys) = Suc (length ys)"
  by (induction ys) auto

lemma set_sort_by [simp]: "set (sort_by cmp xs) = set xs"
  by (induction xs) (auto simp: sort_by_def)

lemma length_sort_by [simp]: "length (sort_by cmp xs) = length xs"
  by (induction xs) (auto simp: sort_by_def)

section \<open>Association lists as maps of the code\<close>

text \<open>\<open>map.set(k, v)\<close>: the place of an existing key is kept.\<close>

fun alist_put :: "'k \<Rightarrow> 'v \<Rightarrow> ('k \<times> 'v) list \<Rightarrow> ('k \<times> 'v) list" where
  "alist_put k v [] = [(k, v)]"
| "alist_put k v ((l, w) # m) = (if l = k then (k, v) # m else (l, w) # alist_put k v m)"

lemma map_of_alist_put [simp]: "map_of (alist_put k v m) = (map_of m)(k \<mapsto> v)"
  by (induction m) (auto simp: fun_upd_twist)

lemma fst_set_alist_put: "fst ` set (alist_put k v m) = insert k (fst ` set m)"
  by (induction k v m rule: alist_put.induct) (simp_all add: insert_commute)

lemma distinct_alist_put:
  "distinct (map fst m) \<Longrightarrow> distinct (map fst (alist_put k v m))"
  by (induction k v m rule: alist_put.induct) (auto simp: fst_set_alist_put)

lemma alist_put_fresh: "k \<notin> fst ` set m \<Longrightarrow> alist_put k v m = m @ [(k, v)]"
  by (induction m) auto

end
