(* ===== verification/Linked_Log.thy ===== *)
theory Linked_Log
  imports Js_Prelude
begin

text \<open>
  The contract shared by the hash-linked logs of the program: the receipt chain and the checkpoint
  lineage (both over \<open>src/lib/hash-chain.js\<close>) and the emergency stop ledger
  (\<open>src/lib/emergency-stop-chain.js\<close>).  An entry stores its own hash and the hash of its
  predecessor; \<open>entry_ok\<close> says that the stored hash is the recomputed one.  The locale
  \<open>hash_linked\<close> fixes those operations; its one law says that two sound entries with the same hash
  have the same content and predecessor, unless the digest collides.
\<close>

section \<open>Logs\<close>

fun linked :: "('a \<Rightarrow> bool) \<Rightarrow> ('a \<Rightarrow> 'h) \<Rightarrow> ('a \<Rightarrow> 'h) \<Rightarrow> 'h \<Rightarrow> 'a list \<Rightarrow> bool" where
  "linked entry_ok prev_of hash_of g [] = True"
| "linked entry_ok prev_of hash_of g (x # xs) =
     (entry_ok x \<and> prev_of x = g \<and> linked entry_ok prev_of hash_of (hash_of x) xs)"

definition head_hash :: "('a \<Rightarrow> 'h) \<Rightarrow> 'h \<Rightarrow> 'a list \<Rightarrow> 'h" where
  "head_hash hash_of g xs = (if xs = [] then g else hash_of (last xs))"

lemma head_hash_simps [simp]:
  "head_hash hash_of g [] = g"
  "head_hash hash_of g (xs @ [x]) = hash_of x"
  by (simp_all add: head_hash_def)

lemma head_hash_Cons [simp]: "head_hash hash_of g (x # xs) = head_hash hash_of (hash_of x) xs"
  by (simp add: head_hash_def)

lemma linked_append:
  "linked ok pv hs g (xs @ ys) \<longleftrightarrow> linked ok pv hs g xs \<and> linked ok pv hs (head_hash hs g xs) ys"
  by (induction xs arbitrary: g) auto

lemma linked_entries_ok: "linked ok pv hs g xs \<Longrightarrow> x \<in> set xs \<Longrightarrow> ok x"
  by (induction xs arbitrary: g) auto

lemma linked_genesis:
  "xs \<noteq> [] \<Longrightarrow> linked ok pv hs g xs \<Longrightarrow> linked ok pv hs g' xs \<Longrightarrow> g = g'"
  by (cases xs) auto

section \<open>The interface\<close>

locale hash_linked =
  fixes collision_free :: bool
    and entry_ok :: "'a \<Rightarrow> bool"
    and prev_of :: "'a \<Rightarrow> 'h"
    and hash_of :: "'a \<Rightarrow> 'h"
    and same_content :: "'a \<Rightarrow> 'a \<Rightarrow> bool"
  assumes commits: "collision_free \<Longrightarrow> entry_ok x \<Longrightarrow> entry_ok y \<Longrightarrow> hash_of x = hash_of y \<Longrightarrow>
      same_content x y \<and> prev_of x = prev_of y"
begin

abbreviation chained :: "'h \<Rightarrow> 'a list \<Rightarrow> bool" where
  "chained \<equiv> linked entry_ok prev_of hash_of"

lemma chained_snoc:
  "chained g (xs @ [x]) \<longleftrightarrow> chained g xs \<and> entry_ok x \<and> prev_of x = head_hash hash_of g xs"
  by (simp add: linked_append)

text \<open>The hash of the last entry determines the whole log.\<close>

lemma head_determines_history:
  assumes cf: "collision_free"
    and fresh: "\<And>x. entry_ok x \<Longrightarrow> hash_of x \<noteq> g"
    and "chained g xs" and "chained g ys"
    and "head_hash hash_of g xs = head_hash hash_of g ys"
  shows "list_all2 same_content xs ys"
  using assms(3-)
proof (induction xs arbitrary: ys rule: rev_induct)
  case Nil
  show ?case
  proof (cases ys rule: rev_cases)
    case Nil
    then show ?thesis by simp
  next
    case (snoc zs z)
    with Nil.prems have "entry_ok z" "hash_of z = g" by (auto simp: linked_append)
    with fresh show ?thesis by blast
  qed
next
  case (snoc x xs)
  show ?case
  proof (cases ys rule: rev_cases)
    case Nil
    with snoc.prems have "entry_ok x" "hash_of x = g" by (auto simp: linked_append)
    with fresh show ?thesis by blast
  next
    case ys: (snoc zs z)
    with snoc.prems have ok: "entry_ok x" "entry_ok z" "hash_of x = hash_of z"
      and ch: "chained g xs" "chained g zs"
      and pv: "prev_of x = head_hash hash_of g xs" "prev_of z = head_hash hash_of g zs"
      by (auto simp: linked_append)
    from commits [OF cf ok] have s: "same_content x z" and "prev_of x = prev_of z" by auto
    with pv ch snoc.IH [of zs] have "list_all2 same_content xs zs" by simp
    with s ys show ?thesis by (simp add: list_all2_appendI)
  qed
qed

text \<open>
  Replacing one entry by another with the same recomputed hash and position leaves the content
  alone: an edit of an entry shows in its hash, and so in every later link.
\<close>

lemma edit_breaks_link:
  assumes cf: "collision_free"
    and "chained g (xs @ x # ys)" and "ys \<noteq> []" and "\<not> same_content x y"
  shows "\<not> chained g (xs @ y # ys)"
proof
  assume "chained g (xs @ y # ys)"
  with assms(2) have "entry_ok x" "entry_ok y"
    and l: "chained (hash_of x) ys" "chained (hash_of y) ys"
    by (auto simp: linked_append)
  moreover from linked_genesis [OF assms(3) l] have "hash_of x = hash_of y" .
  ultimately show False using commits [OF cf] assms(4) by blast
qed

end

end
