(* ===== verification/Json_Injective.thy ===== *)
theory Json_Injective
  imports Canonical_Json
begin

text \<open>
  The canonical text determines the data.  First the tokens (numbers, quoted strings) are shown to
  be prefix codes, then whole values; the last section compares canonical texts of objects whose
  keys come in different orders.
\<close>

section \<open>Numbers\<close>

lemma of_char_digit [simp]: "n < 10 \<Longrightarrow> (of_char (digit n) :: nat) = 48 + n"
  by (simp add: digit_def)

lemma is_digit_digit [simp]: "n < 10 \<Longrightarrow> is_digit (digit n)"
  by (simp add: is_digit_def)

lemma show_nat_digits: "list_all is_digit (show_nat n)"
proof (induction n rule: show_nat.induct)
  case (1 n)
  then show ?case by (subst show_nat.simps) auto
qed

lemma show_nat_nonempty: "show_nat n \<noteq> []"
  by (subst show_nat.simps) simp

lemma read_nat_snoc: "read_nat (s @ [c]) = 10 * read_nat s + (of_char c - 48)"
  by (simp add: read_nat_def)

lemma read_show_nat [simp]: "read_nat (show_nat n) = n"
proof (induction n rule: show_nat.induct)
  case (1 n)
  show ?case
  proof (cases "n < 10")
    case True
    then show ?thesis by (subst show_nat.simps) (simp add: read_nat_def)
  next
    case False
    with "1.IH" have "read_nat (show_nat (n div 10)) = n div 10" by simp
    with False show ?thesis by (subst show_nat.simps) (simp add: read_nat_snoc)
  qed
qed

lemma show_nat_inject: "show_nat m = show_nat n \<Longrightarrow> m = n"
  by (metis read_show_nat)

text \<open>What follows a value inside a text never continues a number.\<close>

definition stops :: "string \<Rightarrow> bool" where
  "stops s = (s = [] \<or> hd s \<in> {CHR '','', CHR '']'', CHR ''}''})"

lemma stops_simps [simp]:
  "stops []" "stops (CHR '','' # s)" "stops (CHR '']'' # s)" "stops (CHR ''}'' # s)"
  by (simp_all add: stops_def)

lemma stops_no_digit: "stops s \<Longrightarrow> s = [] \<or> \<not> is_digit (hd s)"
  by (auto simp: stops_def is_digit_def)

lemma takeWhile_digits:
  assumes "list_all is_digit ds" and "stops s"
  shows "takeWhile is_digit (ds @ s) = ds"
proof -
  have "takeWhile is_digit s = []"
    using stops_no_digit [OF assms(2)] by (cases s) auto
  with assms(1) show ?thesis
    by (simp add: takeWhile_append list_all_iff takeWhile_eq_all_conv)
qed

lemma show_nat_prefix:
  assumes "show_nat m @ xs = show_nat n @ ys" and "stops xs" and "stops ys"
  shows "m = n \<and> xs = ys"
proof -
  have "show_nat m = takeWhile is_digit (show_nat m @ xs)"
    using takeWhile_digits [OF show_nat_digits assms(2)] by simp
  also have "\<dots> = show_nat n"
    unfolding assms(1) using takeWhile_digits [OF show_nat_digits assms(3)] by simp
  finally have eq: "show_nat m = show_nat n" .
  with assms(1) show ?thesis by (auto dest: show_nat_inject)
qed

lemma hd_show_nat: "is_digit (hd (show_nat n @ s))"
  using show_nat_digits [of n] show_nat_nonempty [of n] by (cases "show_nat n") auto

lemma show_int_prefix:
  assumes eq: "show_int i @ xs = show_int j @ ys" and st: "stops xs" "stops ys"
  shows "i = j \<and> xs = ys"
proof -
  have neg: "show_int k @ zs = CHR ''-'' # show_nat (nat (- k)) @ zs" if "k < 0" for k zs
    using that by (simp add: show_int_def)
  have pos: "show_int k @ zs = show_nat (nat k) @ zs" if "\<not> k < 0" for k zs
    using that by (simp add: show_int_def)
  have minus: "\<not> is_digit (CHR ''-'')" by (simp add: is_digit_def)
  have no: "CHR ''-'' # s \<noteq> show_nat n @ zs" for s n zs
    using hd_show_nat [of n zs] minus by (metis list.sel(1))
  show ?thesis
  proof (cases "i < 0")
    case i: True
    show ?thesis
    proof (cases "j < 0")
      case True
      with i eq have "show_nat (nat (- i)) @ xs = show_nat (nat (- j)) @ ys" by (simp add: neg)
      from show_nat_prefix [OF this st] i True show ?thesis by auto
    next
      case False
      with i eq no [of _ "nat j" ys] show ?thesis by (auto simp: neg pos)
    qed
  next
    case i: False
    show ?thesis
    proof (cases "j < 0")
      case True
      with i eq no [of _ "nat i" xs] show ?thesis by (auto simp: neg pos dest: sym)
    next
      case False
      with i eq have "show_nat (nat i) @ xs = show_nat (nat j) @ ys" by (simp add: pos)
      from show_nat_prefix [OF this st] i False show ?thesis by auto
    qed
  qed
qed

lemma hd_show_int: "is_digit (hd (show_int i @ s)) \<or> hd (show_int i @ s) = CHR ''-''"
  using hd_show_nat [of "nat i" s] by (auto simp: show_int_def)

lemma show_int_nonempty [simp]: "show_int i \<noteq> []"
  by (simp add: show_int_def show_nat_nonempty)

section \<open>Quoted strings\<close>

definition hex_value :: "char \<Rightarrow> nat" where
  "hex_value c = (let n = of_char c in if n < 58 then n - 48 else n - 87)"

lemma hex_value_digit [simp]: "n < 16 \<Longrightarrow> hex_value (hex_digit n) = n"
  by (simp add: hex_value_def hex_digit_def)

fun unescape :: "string \<Rightarrow> (char \<times> string) option" where
  "unescape [] = None"
| "unescape (c # s) =
     (if c \<noteq> CHR 0x5C then Some (c, s)
      else case s of
        [] \<Rightarrow> None
      | d # t \<Rightarrow>
          if d = CHR ''b'' then Some (char_of (8::nat), t)
          else if d = CHR ''t'' then Some (char_of (9::nat), t)
          else if d = CHR ''n'' then Some (char_of (10::nat), t)
          else if d = CHR ''f'' then Some (char_of (12::nat), t)
          else if d = CHR ''r'' then Some (char_of (13::nat), t)
          else if d = CHR ''u'' then
            (case t of _ # _ # h # l # r \<Rightarrow> Some (char_of (16 * hex_value h + hex_value l), r)
             | _ \<Rightarrow> None)
          else Some (d, t))"

lemma char_eq_of_nat: "(of_char c :: nat) = n \<Longrightarrow> c = char_of n"
  using char_of_char [of c] by (metis)

lemma char_of_special: "char_of (34::nat) = CHR 0x22" "char_of (92::nat) = CHR 0x5C"
  by code_simp+

lemma unescape_escape: "unescape (escape_char c @ s) = Some (c, s)"
proof -
  let ?n = "of_char c :: nat"
  consider "?n = 34" | "?n = 92" | "?n = 8" | "?n = 9" | "?n = 10" | "?n = 12" | "?n = 13"
    | "?n < 32" "?n \<notin> {8, 9, 10, 12, 13}" | "?n \<ge> 32" "?n \<noteq> 34" "?n \<noteq> 92"
    by fastforce
  then show ?thesis
  proof cases
    case 8
    have "16 * (?n div 16) + ?n mod 16 = ?n" by simp
    moreover from 8 have "?n div 16 < 16" "?n mod 16 < 16" by auto
    ultimately show ?thesis using 8 by (simp add: escape_char_def Let_def)
  next
    case 9
    then have "c \<noteq> CHR 0x5C" by auto
    with 9 show ?thesis by (simp add: escape_char_def Let_def)
  qed (auto simp: escape_char_def Let_def char_of_special dest!: char_eq_of_nat)
qed

lemma escape_prefix: "escape_char c @ s = escape_char d @ t \<Longrightarrow> c = d \<and> s = t"
proof -
  assume eq: "escape_char c @ s = escape_char d @ t"
  have "Some (c, s) = unescape (escape_char c @ s)" by (simp only: unescape_escape)
  also have "\<dots> = Some (d, t)" by (simp only: eq unescape_escape)
  finally show ?thesis by simp
qed

lemma escape_not_quote: "escape_char c @ s \<noteq> CHR 0x22 # t"
proof
  assume eq: "escape_char c @ s = CHR 0x22 # t"
  then have "c = CHR 0x22" using unescape_escape [of c s] by simp
  with eq show False by (simp add: escape_char_def)
qed

lemma escape_nonempty: "escape_char c \<noteq> []"
  by (simp add: escape_char_def Let_def)

lemma quoted_body_prefix:
  "concat (map escape_char s) @ CHR 0x22 # xs = concat (map escape_char t) @ CHR 0x22 # ys
     \<Longrightarrow> s = t \<and> xs = ys"
proof (induction s arbitrary: t)
  case Nil
  then show ?case
    using escape_not_quote by (cases t) (auto simp: eq_commute [of "CHR 0x22 # _"])
next
  case (Cons c s)
  show ?case
  proof (cases t)
    case Nil
    with Cons.prems escape_not_quote show ?thesis by auto
  next
    case (Cons d t')
    with Cons.prems have
      "escape_char c @ (concat (map escape_char s) @ CHR 0x22 # xs) =
       escape_char d @ (concat (map escape_char t') @ CHR 0x22 # ys)" by simp
    then have "c = d" and "concat (map escape_char s) @ CHR 0x22 # xs =
        concat (map escape_char t') @ CHR 0x22 # ys"
      by (auto dest: escape_prefix)
    with Cons.IH [of t'] Cons show ?thesis by simp
  qed
qed

lemma quote_prefix: "quote s @ xs = quote t @ ys \<Longrightarrow> s = t \<and> xs = ys"
  by (auto simp: quote_def dest: quoted_body_prefix)

lemma hd_quote [simp]: "hd (quote s @ xs) = CHR 0x22" "quote s \<noteq> []"
  by (simp_all add: quote_def)

section \<open>Values\<close>

text \<open>
  The data JSON can carry: no \<open>undefined\<close>, integers below the exponent notation, distinct keys.
\<close>

fun json_data :: "jsval \<Rightarrow> bool" where
  "json_data JUndefined = False"
| "json_data (JNum r) = is_small_int r"
| "json_data (JArr xs) = list_all json_data xs"
| "json_data (JObj fs) = (distinct (map fst fs) \<and> list_all (\<lambda>p. json_data (snd p)) fs)"
| "json_data _ = True"

definition text_of :: "js_env \<Rightarrow> jsval \<Rightarrow> string" where
  "text_of env v = the (stringify env v)"

definition member_text :: "js_env \<Rightarrow> string \<times> jsval \<Rightarrow> string" where
  "member_text env p = quote (fst p) @ '':'' @ text_of env (snd p)"

lemma stringify_data: "json_data v \<Longrightarrow> stringify env v = Some (text_of env v)"
  by (cases v) (auto simp: text_of_def)

lemma elem_texts_data: "list_all json_data xs \<Longrightarrow> elem_texts env xs = map (text_of env) xs"
  by (induction xs) (auto simp: stringify_data)

lemma member_texts_data:
  "list_all (\<lambda>p. json_data (snd p)) fs \<Longrightarrow> member_texts env fs = map (member_text env) fs"
  by (induction fs) (auto simp: stringify_data member_text_def)

lemma text_of_simps:
  "text_of env JNull = ''null''"
  "text_of env (JBool b) = (if b then ''true'' else ''false'')"
  "is_small_int r \<Longrightarrow> text_of env (JNum r) = show_int \<lfloor>r\<rfloor>"
  "text_of env (JStr s) = quote s"
  "list_all json_data xs \<Longrightarrow>
     text_of env (JArr xs) = CHR ''['' # join '','' (map (text_of env) xs) @ '']''"
  "list_all (\<lambda>p. json_data (snd p)) fs \<Longrightarrow>
     text_of env (JObj fs) = CHR ''{'' # join '','' (map (member_text env) fs) @ ''}''"
  by (simp_all add: text_of_def show_num_def elem_texts_data member_texts_data)

lemma join_Cons: "join sep (s # ss) = s @ concat (map (\<lambda>t. sep @ t) ss)"
  by (induction ss arbitrary: s) auto

definition closes :: "char \<Rightarrow> bool" where
  "closes c = (c = CHR '']'' \<or> c = CHR ''}'')"

lemma join_tail_prefix:
  assumes code: "\<And>a b xs ys. a \<in> set as \<Longrightarrow> b \<in> set bs \<Longrightarrow> f a @ xs = f b @ ys \<Longrightarrow>
      stops xs \<Longrightarrow> stops ys \<Longrightarrow> a = b \<and> xs = ys"
    and c: "closes c"
    and eq: "concat (map (\<lambda>a. '','' @ f a) as) @ c # r = concat (map (\<lambda>b. '','' @ f b) bs) @ c # r'"
  shows "as = bs \<and> r = r'"
  using code eq
proof (induction as arbitrary: bs)
  case Nil
  with c show ?case by (cases bs) (auto simp: closes_def)
next
  case (Cons a as)
  show ?case
  proof (cases bs)
    case Nil
    with Cons.prems(2) c show ?thesis by (auto simp: closes_def)
  next
    case (Cons b bs')
    let ?ta = "concat (map (\<lambda>a. '','' @ f a) as) @ c # r"
    let ?tb = "concat (map (\<lambda>b. '','' @ f b) bs') @ c # r'"
    have "stops ?ta" using c by (cases as) (auto simp: closes_def stops_def)
    moreover have "stops ?tb" using c by (cases bs') (auto simp: closes_def stops_def)
    moreover have "f a @ ?ta = f b @ ?tb" using Cons.prems(2) Cons by simp
    ultimately have ab: "a = b" and tails: "?ta = ?tb"
      using Cons.prems(1) [of a b ?ta ?tb] Cons by auto
    have "as = bs' \<and> r = r'"
    proof (rule Cons.IH)
      fix x y xs ys
      assume "x \<in> set as" and "y \<in> set bs'" and "f x @ xs = f y @ ys" "stops xs" "stops ys"
      then show "x = y \<and> xs = ys"
        using Cons.prems(1) [of x y xs ys] Cons by simp
    next
      show "?ta = ?tb" by (rule tails)
    qed
    with ab Cons show ?thesis by simp
  qed
qed

lemma join_prefix:
  assumes code: "\<And>a b xs ys. a \<in> set as \<Longrightarrow> b \<in> set bs \<Longrightarrow> f a @ xs = f b @ ys \<Longrightarrow>
      stops xs \<Longrightarrow> stops ys \<Longrightarrow> a = b \<and> xs = ys"
    and opens: "\<And>a. a \<in> set as \<union> set bs \<Longrightarrow> \<not> closes (hd (f a)) \<and> f a \<noteq> []"
    and c: "closes c"
    and eq: "join '','' (map f as) @ c # r = join '','' (map f bs) @ c # r'"
  shows "as = bs \<and> r = r'"
proof (cases as)
  case Nil
  show ?thesis
  proof (cases bs)
    case Nil
    with eq \<open>as = []\<close> show ?thesis by simp
  next
    case (Cons b bs')
    then have "c # r = f b @ concat (map (\<lambda>t. '','' @ t) (map f bs')) @ c # r'"
      using eq \<open>as = []\<close> by (simp add: join_Cons)
    with opens [of b] c Cons show ?thesis by (cases "f b") auto
  qed
next
  case (Cons a as')
  note as = Cons
  show ?thesis
  proof (cases bs)
    case Nil
    then have "f a @ concat (map (\<lambda>t. '','' @ t) (map f as')) @ c # r = c # r'"
      using eq as by (simp add: join_Cons)
    with opens [of a] c as show ?thesis by (cases "f a") auto
  next
    case (Cons b bs')
    have "concat (map (\<lambda>a. '','' @ f a) as) @ c # r = concat (map (\<lambda>b. '','' @ f b) bs) @ c # r'"
      using eq as Cons by (simp add: join_Cons comp_def)
    with code c show ?thesis by (rule join_tail_prefix)
  qed
qed

lemma hd_text_of:
  assumes "json_data v"
  shows "\<not> closes (hd (text_of env v)) \<and> text_of env v \<noteq> []"
proof (cases v)
  case (JNum r)
  with assms hd_show_int [of "\<lfloor>r\<rfloor>" "[]"] show ?thesis
    by (auto simp: text_of_simps closes_def is_digit_def)
next
  case (JStr s)
  then show ?thesis by (simp add: text_of_simps closes_def quote_def)
qed (use assms in \<open>auto simp: text_of_simps closes_def\<close>)

lemma hd_member_text: "\<not> closes (hd (member_text env p)) \<and> member_text env p \<noteq> []"
  by (simp add: member_text_def closes_def quote_def)

text \<open>The first character tells the kinds of value apart.\<close>

datatype json_kind = KNull | KBool bool | KNum | KStr | KArr | KObj

definition kind_of_char :: "char \<Rightarrow> json_kind" where
  "kind_of_char c = (if c = CHR ''n'' then KNull else if c = CHR ''t'' then KBool True
     else if c = CHR ''f'' then KBool False else if c = CHR 0x22 then KStr
     else if c = CHR ''['' then KArr else if c = CHR ''{'' then KObj else KNum)"

fun kind_of :: "jsval \<Rightarrow> json_kind" where
  "kind_of (JBool b) = KBool b"
| "kind_of (JNum r) = KNum"
| "kind_of (JStr s) = KStr"
| "kind_of (JArr xs) = KArr"
| "kind_of (JObj fs) = KObj"
| "kind_of _ = KNull"

lemma kind_of_text:
  assumes "json_data v"
  shows "kind_of_char (hd (text_of env v @ s)) = kind_of v"
proof (cases v)
  case (JNum r)
  with assms hd_show_int [of "\<lfloor>r\<rfloor>" s] show ?thesis
    by (auto simp: text_of_simps kind_of_char_def is_digit_def)
next
  case (JStr s)
  then show ?thesis by (simp add: text_of_simps kind_of_char_def quote_def)
qed (use assms in \<open>auto simp: text_of_simps kind_of_char_def\<close>)

lemma small_int_eq:
  assumes "is_small_int r" and "is_small_int q" and "\<lfloor>r\<rfloor> = \<lfloor>q\<rfloor>"
  shows "r = q"
  using assms unfolding is_small_int_def by metis

theorem text_prefix:
  assumes "json_data v" and "json_data w"
    and "text_of env v @ xs = text_of env w @ ys" and "stops xs" and "stops ys"
  shows "v = w \<and> xs = ys"
  using assms
proof (induction v arbitrary: w xs ys)
  case JUndefined
  then show ?case by simp
next
  case JNull
  then have "kind_of w = KNull" using kind_of_text [of w env ys] kind_of_text [of JNull env xs] by simp
  with JNull show ?case by (cases w) (auto simp: text_of_simps)
next
  case (JBool b)
  then have "kind_of w = KBool b"
    using kind_of_text [of w env ys] kind_of_text [of "JBool b" env xs] by simp
  with JBool show ?case by (cases w) (auto simp: text_of_simps)
next
  case (JNum r)
  then have "kind_of w = KNum" using kind_of_text [of w env ys] kind_of_text [of "JNum r" env xs] by simp
  then obtain q where w: "w = JNum q" by (cases w) auto
  with JNum have "\<lfloor>r\<rfloor> = \<lfloor>q\<rfloor> \<and> xs = ys" by (intro show_int_prefix) (auto simp: text_of_simps)
  with JNum.prems w show ?case by (auto intro: small_int_eq)
next
  case (JStr s)
  then have "kind_of w = KStr" using kind_of_text [of w env ys] kind_of_text [of "JStr s" env xs] by simp
  then obtain t where w: "w = JStr t" by (cases w) auto
  with JStr have "s = t \<and> xs = ys" by (intro quote_prefix) (auto simp: text_of_simps)
  with w show ?case by simp
next
  case (JArr vs)
  then have "kind_of w = KArr" using kind_of_text [of w env ys] kind_of_text [of "JArr vs" env xs] by simp
  then obtain ws where w: "w = JArr ws" by (cases w) auto
  have "vs = ws \<and> xs = ys"
  proof (rule join_prefix [where f = "text_of env" and c = "CHR '']''"])
    fix a b us vs' assume "a \<in> set vs" "b \<in> set ws" "text_of env a @ us = text_of env b @ vs'"
      "stops us" "stops vs'"
    then show "a = b \<and> us = vs'"
      using JArr.IH JArr.prems(1,2) w by (auto simp: list_all_iff)
  next
    fix a assume "a \<in> set vs \<union> set ws"
    then show "\<not> closes (hd (text_of env a)) \<and> text_of env a \<noteq> []"
      using JArr.prems(1,2) w by (intro hd_text_of) (auto simp: list_all_iff)
  next
    show "join '','' (map (text_of env) vs) @ CHR '']'' # xs =
        join '','' (map (text_of env) ws) @ CHR '']'' # ys"
      using JArr.prems w by (simp add: text_of_simps)
  qed (simp add: closes_def)
  with w show ?case by simp
next
  case (JObj fs)
  then have "kind_of w = KObj" using kind_of_text [of w env ys] kind_of_text [of "JObj fs" env xs] by simp
  then obtain gs where w: "w = JObj gs" by (cases w) auto
  have "fs = gs \<and> xs = ys"
  proof (rule join_prefix [where f = "member_text env" and c = "CHR ''}''"])
    fix p q us vs' assume pq: "p \<in> set fs" "q \<in> set gs" "stops us" "stops vs'"
      and eq: "member_text env p @ us = member_text env q @ vs'"
    have "quote (fst p) @ (CHR '':'' # text_of env (snd p) @ us) =
        quote (fst q) @ (CHR '':'' # text_of env (snd q) @ vs')"
      using eq by (simp add: member_text_def)
    from quote_prefix [OF this] have k: "fst p = fst q"
      and t: "text_of env (snd p) @ us = text_of env (snd q) @ vs'" by auto
    have "json_data (snd p)" "json_data (snd q)"
      using pq JObj.prems(1,2) w by (auto simp: list_all_iff)
    moreover have "snd p \<in> Basic_BNFs.snds p" by (cases p) auto
    ultimately have "snd p = snd q \<and> us = vs'"
      using JObj.IH [of p "snd p" "snd q" us vs'] pq t by simp
    with k show "p = q \<and> us = vs'" by (simp add: prod_eq_iff)
  next
    fix a assume "a \<in> set fs \<union> set gs"
    then show "\<not> closes (hd (member_text env a)) \<and> member_text env a \<noteq> []"
      by (simp add: hd_member_text)
  next
    show "join '','' (map (member_text env) fs) @ CHR ''}'' # xs =
        join '','' (map (member_text env) gs) @ CHR ''}'' # ys"
      using JObj.prems w by (simp add: text_of_simps)
  qed (simp add: closes_def)
  with w show ?case by simp
qed

corollary stringify_inject:
  assumes "json_data v" and "json_data w" and "stringify env v = stringify env w"
  shows "v = w"
proof -
  have "text_of env v @ [] = text_of env w @ []" using assms(3) by (simp add: text_of_def)
  from text_prefix [OF assms(1,2) this] show ?thesis by simp
qed

section \<open>Data up to the order of keys\<close>

text \<open>
  The specification: arrays agree element by element, objects agree as finite maps, whatever the
  order of their properties.
\<close>

inductive data_eq :: "jsval \<Rightarrow> jsval \<Rightarrow> bool" where
  atom: "\<not> is_object v \<Longrightarrow> data_eq v v"
| arr: "list_all2 data_eq xs ys \<Longrightarrow> data_eq (JArr xs) (JArr ys)"
| obj: "(\<And>k. rel_option data_eq (map_of fs k) (map_of gs k)) \<Longrightarrow> data_eq (JObj fs) (JObj gs)"

inductive_simps data_eq_arr: "data_eq (JArr xs) w"
inductive_simps data_eq_obj: "data_eq (JObj fs) w"
inductive_simps data_eq_atoms:
  "data_eq JUndefined w" "data_eq JNull w" "data_eq (JBool b) w" "data_eq (JNum r) w" "data_eq (JStr s) w"

lemma set_own_order [simp]: "set (own_order fs) = set fs"
  by (auto simp: own_order_def)

lemma distinct_fst_set_eq_mset:
  assumes "distinct (map fst fs)" and "distinct (map fst gs)" and "set fs = set gs"
  shows "mset fs = mset gs"
proof -
  have "distinct fs" "distinct gs" using assms(1,2) by (auto simp: distinct_map)
  with assms(3) show ?thesis by (simp add: set_eq_iff_mset_eq_distinct)
qed

lemma sort_key_fst_unique:
  assumes "distinct (map fst fs)" and "distinct (map fst gs)" and "set fs = set gs"
  shows "sort_key fst fs = sort_key fst gs"
proof (rule sort_key_inj_key_eq)
  show "mset fs = mset (sort_key fst gs)"
    using distinct_fst_set_eq_mset [OF assms] by simp
  show "inj_on fst (set fs)" using assms(1) by (simp add: distinct_map)
  show "sorted (map fst (sort_key fst gs))" by simp
qed

lemma canonical_order_iff:
  assumes "distinct (map fst fs)" and "distinct (map fst gs)"
  shows "own_order (sort_key fst fs) = own_order (sort_key fst gs) \<longleftrightarrow> map_of fs = map_of gs"
proof
  assume "own_order (sort_key fst fs) = own_order (sort_key fst gs)"
  then have "set fs = set gs" by (metis set_own_order set_sort)
  with assms show "map_of fs = map_of gs" by (simp add: map_of_inject_set)
next
  assume "map_of fs = map_of gs"
  with assms have "set fs = set gs" by (simp add: map_of_inject_set)
  from sort_key_fst_unique [OF assms this]
  show "own_order (sort_key fst fs) = own_order (sort_key fst gs)" by simp
qed

lemma map_of_apsnd: "map_of (map (apsnd f) fs) k = map_option f (map_of fs k)"
  by (induction fs) auto

lemma map_fst_apsnd [simp]: "map fst (map (apsnd f) fs) = map fst fs"
  by (induction fs) auto

lemma distinct_keys_sort: "distinct (map fst (fs :: jsfields)) \<Longrightarrow> distinct (map fst (sort_key fst fs))"
  by (simp add: distinct_map)

lemma sort_preserves_data: "json_data v \<Longrightarrow> json_data (sortForStableStringify v)"
proof (induction v)
  case (JArr xs)
  then show ?case by (auto simp: list_all_iff)
next
  case (JObj fs)
  let ?gs = "map (apsnd sortForStableStringify) fs"
  have d: "distinct (map fst ?gs)" using JObj.prems by (simp only: map_fst_apsnd) simp
  have "\<forall>p \<in> set ?gs. json_data (snd p)"
    using JObj by (force simp: list_all_iff)
  moreover have "distinct (map fst (own_order (sort_key fst ?gs)))"
  proof -
    have s: "distinct (map fst (sort_key fst ?gs))" using d by (rule distinct_keys_sort)
    let ?I = "\<lambda>p. is_index_key (fst p)"
    have "distinct (map fst (filter ?I (sort_key fst ?gs)))" "distinct (map fst (filter (\<lambda>p. \<not> ?I p) (sort_key fst ?gs)))"
      using s by (simp_all add: distinct_map_filter)
    then show ?thesis by (auto simp: own_order_def distinct_map)
  qed
  ultimately show ?case by (simp add: list_all_iff)
qed auto

theorem canonical_form_iff:
  assumes "json_data v" and "json_data w"
  shows "sortForStableStringify v = sortForStableStringify w \<longleftrightarrow> data_eq v w"
  using assms
proof (induction v arbitrary: w)
  case (JArr xs)
  show ?case
  proof (cases w)
    case (JArr ys)
    have "map sortForStableStringify xs = map sortForStableStringify ys \<longleftrightarrow> list_all2 data_eq xs ys"
      using JArr.IH JArr.prems JArr
    proof (induction xs arbitrary: ys w)
      case Nil
      then show ?case by auto
    next
      case (Cons x xs)
      then show ?case by (cases ys) auto
    qed
    with JArr show ?thesis by (simp add: data_eq_arr)
  qed (auto simp: data_eq_arr)
next
  case (JObj fs)
  show ?case
  proof (cases w)
    case w: (JObj gs)
    let ?F = "map (apsnd sortForStableStringify) fs" and ?G = "map (apsnd sortForStableStringify) gs"
    have "distinct (map fst ?F)" "distinct (map fst ?G)"
      using JObj.prems w by (simp_all only: map_fst_apsnd) simp_all
    then have "sortForStableStringify (JObj fs) = sortForStableStringify w \<longleftrightarrow> map_of ?F = map_of ?G"
      by (simp add: w canonical_order_iff)
    also have "\<dots> \<longleftrightarrow> (\<forall>k. map_option sortForStableStringify (map_of fs k) =
        map_option sortForStableStringify (map_of gs k))"
      by (simp add: fun_eq_iff map_of_apsnd)
    also have "\<dots> \<longleftrightarrow> (\<forall>k. rel_option data_eq (map_of fs k) (map_of gs k))"
    proof (intro all_cong1)
      fix k
      have "sortForStableStringify a = sortForStableStringify b \<longleftrightarrow> data_eq a b"
        if "map_of fs k = Some a" "map_of gs k = Some b" for a b
      proof -
        have m: "(k, a) \<in> set fs" "(k, b) \<in> set gs" using that by (auto dest: map_of_SomeD)
        have "json_data a" "json_data b"
          using JObj.prems w m by (force simp: list_all_iff)+
        then show ?thesis using JObj.IH [OF m(1), of a b] by simp
      qed
      then show "map_option sortForStableStringify (map_of fs k) =
          map_option sortForStableStringify (map_of gs k) \<longleftrightarrow>
          rel_option data_eq (map_of fs k) (map_of gs k)"
        by (cases "map_of fs k"; cases "map_of gs k") auto
    qed
    finally show ?thesis by (simp add: w data_eq_obj)
  qed (auto simp: data_eq_obj)
qed (case_tac w; auto simp: data_eq_atoms)+

theorem stableStringify_iff:
  assumes "json_data v" and "json_data w"
  shows "stableStringify env v = stableStringify env w \<longleftrightarrow> data_eq v w"
  using stringify_inject [OF sort_preserves_data [OF assms(1)] sort_preserves_data [OF assms(2)]]
    canonical_form_iff [OF assms]
  by (auto simp: stableStringify_def)

end
