(* ===== verification/Hash_Chain.thy ===== *)
theory Hash_Chain
  imports Linked_Log Json_Injective
begin

text \<open>
  Hash chains: \<open>src/lib/hash-chain.js\<close> (append and validate), \<open>src/lib/receipt/receipt-chain.js\<close>
  (the receipt chain and its genesis marker), \<open>src/lib/receipt-rule-identity.js\<close> (the rule version
  bound across a chain) and \<open>src/lib/storage/checkpoint-lineage.js\<close> (the checkpoint chain).
  Records are values, so the checks of the code on shape and truthiness are written out.
\<close>

section \<open>Appending\<close>

text \<open>The own properties a spread copies: those of an object, the indices of an array.\<close>

fun own_fields :: "jsval \<Rightarrow> jsfields" where
  "own_fields (JObj fs) = fs"
| "own_fields (JArr xs) = zip (map show_nat [0..<length xs]) xs"
| "own_fields _ = []"

definition appendToChain :: "js_env \<Rightarrow> bool \<Rightarrow> jsval \<Rightarrow> jsval \<Rightarrow> chain_error + jsval" where
  "appendToChain env requirePreviousHash canonicalPayload previousHash =
     (if \<not> is_object canonicalPayload then Inl Payload_required
      else if requirePreviousHash \<and> \<not> truthy previousHash then Inl Previous_hash_required
      else let hashableRecord = put_field ''previousReceiptHash'' previousHash (own_fields canonicalPayload)
        in bind_result (hashCanonicalPayload env (JObj hashableRecord)) (\<lambda>receiptHash.
             Inr (JObj (put_field ''receiptHash'' (JStr receiptHash) hashableRecord))))"

section \<open>Validating\<close>

datatype chain_reason =
    Genesis_mismatch
  | Content_tampered
  | Chain_link_broken
  | Missing_rule_identity
  | Rule_version_changed

record chain_verdict =
  cv_valid :: bool
  cv_brokenAt :: "nat option"
  cv_reason :: "chain_reason option"

definition chain_valid :: chain_verdict where
  "chain_valid = \<lparr>cv_valid = True, cv_brokenAt = None, cv_reason = None\<rparr>"

definition broken :: "nat \<Rightarrow> chain_reason \<Rightarrow> chain_verdict" where
  "broken i r = \<lparr>cv_valid = False, cv_brokenAt = Some i, cv_reason = Some r\<rparr>"

text \<open>\<open>===\<close> on two values read from different places: objects are compared by identity.\<close>

definition strict_eq :: "jsval \<Rightarrow> jsval \<Rightarrow> bool" where
  "strict_eq v w = (\<not> is_object v \<and> v = w)"

definition withoutHash :: "jsval \<Rightarrow> jsval" where
  "withoutHash record = JObj (drop_field ''receiptHash'' (own_fields record))"

text \<open>
  The loop of \<open>validateChain\<close>: record \<open>i\<close>, the identity test its predecessor hash must pass, and
  the records from \<open>i\<close> on.
\<close>

fun validate_from :: "js_env \<Rightarrow> nat \<Rightarrow> (jsval \<Rightarrow> bool) \<Rightarrow> jsval list \<Rightarrow> chain_error + chain_verdict" where
  "validate_from env i expected [] = Inr chain_valid"
| "validate_from env i expected (record # rest) =
     (if \<not> is_object record \<or> \<not> truthy (jget record ''receiptHash'')
         \<or> \<not> truthy (jget record ''previousReceiptHash'')
      then Inr (broken i Content_tampered)
      else bind_result (hashCanonicalPayload env (withoutHash record)) (\<lambda>recomputed.
        if \<not> strict_eq (JStr recomputed) (jget record ''receiptHash'')
        then Inr (broken i Content_tampered)
        else if \<not> expected (jget record ''previousReceiptHash'')
        then Inr (broken i (if i = 0 then Genesis_mismatch else Chain_link_broken))
        else validate_from env (Suc i) (strict_eq (jget record ''receiptHash'')) rest))"

definition validateChain :: "js_env \<Rightarrow> jsval \<Rightarrow> (jsval \<Rightarrow> bool) \<Rightarrow> chain_error + chain_verdict" where
  "validateChain env chainedRecords is_genesis =
     (case chainedRecords of
        JArr records \<Rightarrow> validate_from env 0 is_genesis records
      | _ \<Rightarrow> Inl Not_an_array)"

section \<open>The rule identity of a chain\<close>

record rule_identity =
  ri_policyVersion :: string
  ri_ruleId :: string
  ri_instanceId :: string

definition RECEIPT_RULE_IDENTITY_LIMIT :: nat where
  "RECEIPT_RULE_IDENTITY_LIMIT = 128"

fun ruleIdentityText :: "jsval \<Rightarrow> string" where
  "ruleIdentityText (JStr s) = take RECEIPT_RULE_IDENTITY_LIMIT (trim s)"
| "ruleIdentityText _ = []"

definition receiptRuleIdentity :: "jsval \<Rightarrow> rule_identity" where
  "receiptRuleIdentity input =
     \<lparr>ri_policyVersion = ruleIdentityText (jget input ''policyVersion''),
      ri_ruleId = ruleIdentityText (jget input ''ruleId''),
      ri_instanceId = ruleIdentityText (jget input ''instanceId'')\<rparr>"

definition hasRuleIdentity :: "jsval \<Rightarrow> bool" where
  "hasRuleIdentity identity = (let n = receiptRuleIdentity identity in
     ri_policyVersion n \<noteq> [] \<and> ri_ruleId n \<noteq> [])"

definition readReceiptRuleIdentity :: "jsval \<Rightarrow> rule_identity option" where
  "readReceiptRuleIdentity record =
     (if \<not> is_object record then None
      else let metadata = jget record ''metadata''; identity = jget metadata ''ruleIdentity'' in
        if is_object metadata \<and> is_object identity then Some (receiptRuleIdentity identity)
        else Some (receiptRuleIdentity record))"

fun validate_identity_from :: "nat \<Rightarrow> string option \<Rightarrow> jsval list \<Rightarrow> chain_verdict" where
  "validate_identity_from i chainPolicyVersion [] = chain_valid"
| "validate_identity_from i chainPolicyVersion (record # rest) =
     (let identity = (case readReceiptRuleIdentity record of
          Some r \<Rightarrow> r | None \<Rightarrow> receiptRuleIdentity (JObj []))
      in if ri_policyVersion identity = [] \<or> ri_ruleId identity = []
         then broken i Missing_rule_identity
         else (case chainPolicyVersion of
             None \<Rightarrow> validate_identity_from (Suc i) (Some (ri_policyVersion identity)) rest
           | Some v \<Rightarrow>
               if v \<noteq> ri_policyVersion identity then broken i Rule_version_changed
               else validate_identity_from (Suc i) (Some v) rest))"

definition validateRuleIdentityChain :: "jsval \<Rightarrow> chain_error + chain_verdict" where
  "validateRuleIdentityChain records =
     (case records of
        JArr rs \<Rightarrow> Inr (validate_identity_from 0 None rs)
      | _ \<Rightarrow> Inl Not_an_array)"

section \<open>The receipt chain\<close>

definition GENESIS_PREVIOUS_HASH :: jsval where
  "GENESIS_PREVIOUS_HASH = JStr ''genesis:v4-receipt-chain''"

definition or_else :: "jsval \<Rightarrow> jsval \<Rightarrow> jsval" where
  "or_else v d = (if truthy v then v else d)"

definition appendReceiptToChain :: "js_env \<Rightarrow> jsval \<Rightarrow> jsval \<Rightarrow> chain_error + jsval" where
  "appendReceiptToChain env canonicalPayload previousReceiptHash =
     (if \<not> is_object canonicalPayload then Inl Payload_required
      else appendToChain env True canonicalPayload (or_else previousReceiptHash GENESIS_PREVIOUS_HASH))"

definition validateReceiptChain ::
    "js_env \<Rightarrow> jsval \<Rightarrow> (jsval \<Rightarrow> bool) \<Rightarrow> bool \<Rightarrow> chain_error + chain_verdict" where
  "validateReceiptChain env chainedReceipts is_genesis requireRuleIdentity =
     bind_result (validateChain env chainedReceipts is_genesis) (\<lambda>generic.
       if \<not> cv_valid generic \<or> \<not> requireRuleIdentity then Inr generic
       else bind_result (validateRuleIdentityChain chainedReceipts) (\<lambda>identity.
         Inr (if cv_valid identity then generic else identity)))"

section \<open>The checkpoint lineage\<close>

definition CHECKPOINT_GENESIS :: jsval where
  "CHECKPOINT_GENESIS = JStr ''genesis:checkpoint-lineage''"

definition CHECKPOINT_HASH_FIELDS :: "string list" where
  "CHECKPOINT_HASH_FIELDS = [''id'', ''goal_key'', ''goal'', ''workspace_id'', ''status'',
     ''iteration'', ''budget_remaining'', ''last_action'', ''state_json'', ''evidence_json'']"

text \<open>\<open>String(v)\<close>; inside an array a nullish element is empty.\<close>

fun js_string :: "js_env \<Rightarrow> jsval \<Rightarrow> string"
and js_element_strings :: "js_env \<Rightarrow> jsval list \<Rightarrow> string list" where
  "js_string env JUndefined = ''undefined''"
| "js_string env JNull = ''null''"
| "js_string env (JBool b) = (if b then ''true'' else ''false'')"
| "js_string env (JNum r) = show_num env r"
| "js_string env (JStr s) = s"
| "js_string env (JArr xs) = join '','' (js_element_strings env xs)"
| "js_string env (JObj fs) = ''[object Object]''"
| "js_element_strings env [] = []"
| "js_element_strings env (x # xs) =
     (if is_nullish x then [] else js_string env x) # js_element_strings env xs"

definition checkpointCanonicalPayload :: "js_env \<Rightarrow> jsval \<Rightarrow> chain_error + jsval" where
  "checkpointCanonicalPayload env row =
     (if \<not> is_object row then Inl Payload_required
      else Inr (JObj (map (\<lambda>f. let value = jget row f in
             (f, JStr (if is_nullish value then [] else js_string env value)))
           CHECKPOINT_HASH_FIELDS)))"

definition appendCheckpointToChain :: "js_env \<Rightarrow> jsval \<Rightarrow> jsval \<Rightarrow> chain_error + jsval" where
  "appendCheckpointToChain env row previousCheckpointHash =
     bind_result (checkpointCanonicalPayload env row) (\<lambda>payload.
       appendToChain env True payload (or_else previousCheckpointHash CHECKPOINT_GENESIS))"

definition validateCheckpointChain :: "js_env \<Rightarrow> jsval \<Rightarrow> jsval \<Rightarrow> chain_error + chain_verdict" where
  "validateCheckpointChain env records genesisPreviousHash =
     validateChain env records (strict_eq (or_else genesisPreviousHash CHECKPOINT_GENESIS))"

end
