(* ===== verification/Hash_Chain_Facts.thy ===== *)
theory Hash_Chain_Facts
  imports Hash_Chain
begin

text \<open>
  What the hash chains guarantee: validation accepts exactly the linked logs, appending extends a
  valid chain, the hash of the last record determines the content of all of them, and the two
  genesis markers keep receipts and checkpoints apart.
\<close>

section \<open>Validation is linkage\<close>

definition record_ok :: "js_env \<Rightarrow> jsval \<Rightarrow> bool" where
  "record_ok env r = (is_object r \<and> truthy (jget r ''receiptHash'')
     \<and> truthy (jget r ''previousReceiptHash'') \<and> \<not> is_object (jget r ''previousReceiptHash'')
     \<and> jget r ''receiptHash'' = JStr (sha256_hex env (the (stableStringify env (withoutHash r)))))"

abbreviation receipt_hash :: "jsval \<Rightarrow> jsval" where
  "receipt_hash r \<equiv> jget r ''receiptHash''"

abbreviation previous_hash :: "jsval \<Rightarrow> jsval" where
  "previous_hash r \<equiv> jget r ''previousReceiptHash''"

abbreviation chain_linked :: "js_env \<Rightarrow> jsval \<Rightarrow> jsval list \<Rightarrow> bool" where
  "chain_linked env \<equiv> linked (record_ok env) previous_hash receipt_hash"

lemma is_object_withoutHash [simp]: "is_object (withoutHash r)"
  by (simp add: withoutHash_def)

lemma chain_verdict_valid [simp]:
  "cv_valid chain_valid" "\<not> cv_valid (broken i r)"
  by (simp_all add: chain_valid_def broken_def)

lemma validate_from_total: "\<exists>v. validate_from env i e rs = Inr v"
  by (induction rs arbitrary: i e) (auto simp: hashCanonicalPayload_object)

lemma validate_from_linked:
  "validate_from env i (strict_eq g) rs = Inr v \<Longrightarrow> cv_valid v \<longleftrightarrow> chain_linked env g rs"
proof (induction rs arbitrary: i g)
  case Nil
  then show ?case by auto
next
  case (Cons r rs)
  let ?h = "sha256_hex env (the (stableStringify env (withoutHash r)))"
  show ?case
  proof (cases "is_object r \<and> truthy (receipt_hash r) \<and> truthy (previous_hash r)
      \<and> receipt_hash r = JStr ?h \<and> strict_eq g (previous_hash r)")
    case True
    with Cons.prems have "validate_from env (Suc i) (strict_eq (receipt_hash r)) rs = Inr v"
      by (simp add: hashCanonicalPayload_object strict_eq_def split: if_splits)
    from Cons.IH [OF this] True show ?thesis by (auto simp: record_ok_def strict_eq_def)
  next
    case False
    with Cons.prems have "\<not> cv_valid v"
      by (auto simp: hashCanonicalPayload_object strict_eq_def split: if_splits
          dest: arg_cong [where f = truthy])
    moreover from False have "\<not> chain_linked env g (r # rs)"
      by (auto simp: record_ok_def strict_eq_def)
    ultimately show ?thesis by simp
  qed
qed

lemma validateChain_linked:
  "(\<exists>v. validateChain env (JArr rs) (strict_eq g) = Inr v \<and> cv_valid v) \<longleftrightarrow> chain_linked env g rs"
  using validate_from_linked [of env 0 g rs] validate_from_total [of env 0 "strict_eq g" rs]
  by (auto simp: validateChain_def)

text \<open>A chain as the receipt store reads it: an array, from the receipt genesis.\<close>

definition receipt_chain_valid :: "js_env \<Rightarrow> jsval list \<Rightarrow> bool" where
  "receipt_chain_valid env rs = (case validateReceiptChain env (JArr rs) (strict_eq GENESIS_PREVIOUS_HASH) False of
     Inl e \<Rightarrow> False | Inr v \<Rightarrow> cv_valid v)"

lemma receipt_chain_valid_iff:
  "receipt_chain_valid env rs \<longleftrightarrow> chain_linked env GENESIS_PREVIOUS_HASH rs"
  using validateChain_linked [of env rs GENESIS_PREVIOUS_HASH]
  by (auto simp: receipt_chain_valid_def validateReceiptChain_def split: sum.splits)

section \<open>Appending extends a valid chain\<close>

definition digest_text_ok :: "js_env \<Rightarrow> bool" where
  "digest_text_ok env = (\<forall>s. sha256_hex env s \<noteq> [] \<and> CHR '':'' \<notin> set (sha256_hex env s))"

lemma append_record_ok:
  assumes app: "appendToChain env True (JObj fs) (JStr p) = Inr r"
    and fresh: "''receiptHash'' \<notin> fst ` set fs" and dg: "digest_text_ok env"
  shows "record_ok env r \<and> previous_hash r = JStr p"
proof -
  let ?gs = "put_field ''previousReceiptHash'' (JStr p) fs"
  have p: "p \<noteq> []" using app by (auto simp: appendToChain_def split: if_splits)
  have r: "r = JObj (put_field ''receiptHash''
      (JStr (sha256_hex env (the (stableStringify env (JObj ?gs))))) ?gs)"
    using app p by (simp add: appendToChain_def hashCanonicalPayload_object Let_def)
  have "''receiptHash'' \<notin> fst ` set ?gs" using fresh by (simp add: fst_set_put_field)
  then have "withoutHash r = JObj ?gs" by (simp add: r withoutHash_def drop_put_field)
  with p dg show ?thesis by (simp add: record_ok_def r digest_text_ok_def)
qed

definition chain_tip :: "jsval list \<Rightarrow> jsval" where
  "chain_tip rs = (if rs = [] then JNull else receipt_hash (last rs))"

lemma append_extends:
  assumes "receipt_chain_valid env rs"
    and app: "appendReceiptToChain env (JObj fs) (chain_tip rs) = Inr r"
    and fresh: "''receiptHash'' \<notin> fst ` set fs" and dg: "digest_text_ok env"
  shows "receipt_chain_valid env (rs @ [r])"
proof -
  let ?head = "head_hash receipt_hash GENESIS_PREVIOUS_HASH rs"
  have linked: "chain_linked env GENESIS_PREVIOUS_HASH rs"
    using assms(1) by (simp add: receipt_chain_valid_iff)
  have "or_else (chain_tip rs) GENESIS_PREVIOUS_HASH = ?head \<and> (\<exists>p. ?head = JStr p)"
  proof (cases rs rule: rev_cases)
    case Nil
    then show ?thesis by (simp add: chain_tip_def or_else_def GENESIS_PREVIOUS_HASH_def)
  next
    case (snoc qs q)
    with linked have "record_ok env q" by (simp add: linked_append)
    then have "truthy (receipt_hash q)" "\<exists>p. receipt_hash q = JStr p" by (auto simp: record_ok_def)
    with snoc show ?thesis by (simp add: chain_tip_def or_else_def)
  qed
  then obtain p where p: "?head = JStr p"
    and app': "appendToChain env True (JObj fs) (JStr p) = Inr r"
    using app by (auto simp: appendReceiptToChain_def)
  from append_record_ok [OF app' fresh dg] p linked show ?thesis
    by (simp add: receipt_chain_valid_iff linked_append)
qed

section \<open>The hash commits to the content\<close>

definition canonical_text :: "js_env \<Rightarrow> jsval \<Rightarrow> string" where
  "canonical_text env r = the (stableStringify env (withoutHash r))"

definition data_record :: "js_env \<Rightarrow> string set \<Rightarrow> jsval \<Rightarrow> bool" where
  "data_record env T r = (record_ok env r \<and> json_data r \<and> canonical_text env r \<in> T)"

lemma json_data_withoutHash: "json_data (JObj fs) \<Longrightarrow> json_data (withoutHash (JObj fs))"
  by (auto simp: withoutHash_def drop_field_def list_all_iff distinct_map_filter)

lemma map_of_drop_field: "l \<noteq> k \<Longrightarrow> map_of (drop_field k fs) l = map_of fs l"
  by (induction fs) (auto simp: drop_field_def)

lemma data_eq_field:
  assumes "data_eq (JObj fs) (JObj gs)" and "\<not> is_object (field fs k)" and "\<not> is_object (field gs k)"
  shows "field fs k = field gs k"
proof -
  have "rel_option data_eq (map_of fs k) (map_of gs k)" using assms(1) by (auto simp: data_eq_obj)
  then show ?thesis
  proof cases
    case None
    then show ?thesis by (simp add: field_def)
  next
    case (Some v w)
    with assms(2,3) have "\<not> is_object v" by (simp add: field_def)
    with Some have "v = w" by (cases v) (auto simp: data_eq_atoms)
    with Some show ?thesis by (simp add: field_def)
  qed
qed

lemma record_ok_object: "record_ok env r \<Longrightarrow> \<exists>fs. r = JObj fs"
  by (cases r) (auto simp: record_ok_def)

lemma same_hash_same_data:
  assumes inj: "inj_on (sha256_hex env) T" and ok: "data_record env T x" "data_record env T y"
    and eq: "receipt_hash x = receipt_hash y"
  shows "data_eq (withoutHash x) (withoutHash y) \<and> previous_hash x = previous_hash y"
proof -
  from ok obtain fs gs where x: "x = JObj fs" and y: "y = JObj gs"
    by (metis data_record_def record_ok_object)
  have "sha256_hex env (canonical_text env x) = sha256_hex env (canonical_text env y)"
    using ok eq by (simp add: data_record_def record_ok_def canonical_text_def)
  with inj ok have "canonical_text env x = canonical_text env y"
    by (auto simp: data_record_def dest: inj_onD)
  then have txt_eq: "stableStringify env (withoutHash x) = stableStringify env (withoutHash y)"
    using stableStringify_object [of "withoutHash x" env] stableStringify_object [of "withoutHash y" env]
    by (auto simp: canonical_text_def)
  have "json_data (withoutHash x)" "json_data (withoutHash y)"
    using ok x y by (auto simp: data_record_def intro: json_data_withoutHash)
  with txt_eq have de: "data_eq (withoutHash x) (withoutHash y)" by (simp add: stableStringify_iff)
  have f: "field (drop_field ''receiptHash'' hs) ''previousReceiptHash'' = field hs ''previousReceiptHash''" for hs
    by (simp add: field_def map_of_drop_field)
  have "previous_hash x = previous_hash y"
    using data_eq_field [of "drop_field ''receiptHash'' fs" "drop_field ''receiptHash'' gs" "''previousReceiptHash''"]
      de ok by (simp add: x y withoutHash_def f data_record_def record_ok_def)
  with de show ?thesis by simp
qed

interpretation receipts: hash_linked "inj_on (sha256_hex env) T" "data_record env T"
  "previous_hash" "receipt_hash" "\<lambda>x y. data_eq (withoutHash x) (withoutHash y)" for env T
  by unfold_locales (rule same_hash_same_data)

definition chain_texts :: "js_env \<Rightarrow> jsval list \<Rightarrow> string set" where
  "chain_texts env rs = canonical_text env ` set rs"

lemma linked_data_record:
  assumes "chain_linked env g rs" and "list_all json_data rs" and "chain_texts env rs \<subseteq> T"
  shows "linked (data_record env T) previous_hash receipt_hash g rs"
  using assms by (induction rs arbitrary: g) (auto simp: data_record_def chain_texts_def)

lemma hash_not_genesis:
  assumes "digest_text_ok env" and "record_ok env r"
  shows "receipt_hash r \<noteq> GENESIS_PREVIOUS_HASH" and "receipt_hash r \<noteq> CHECKPOINT_GENESIS"
  using assms by (auto simp: record_ok_def GENESIS_PREVIOUS_HASH_def CHECKPOINT_GENESIS_def digest_text_ok_def)
    (metis list.set_intros)+

lemma head_commits_to_history:
  assumes dg: "digest_text_ok env"
    and inj: "inj_on (sha256_hex env) (chain_texts env rs \<union> chain_texts env qs)"
    and data: "list_all json_data rs" "list_all json_data qs"
    and ok: "receipt_chain_valid env rs" "receipt_chain_valid env qs"
    and tip: "chain_tip rs = chain_tip qs"
  shows "list_all2 (\<lambda>x y. data_eq (withoutHash x) (withoutHash y)) rs qs"
proof (rule receipts.head_determines_history [OF inj])
  show "linked (data_record env (chain_texts env rs \<union> chain_texts env qs)) previous_hash receipt_hash
      GENESIS_PREVIOUS_HASH rs"
    using ok(1) data(1) by (auto simp: receipt_chain_valid_iff intro!: linked_data_record)
  show "linked (data_record env (chain_texts env rs \<union> chain_texts env qs)) previous_hash receipt_hash
      GENESIS_PREVIOUS_HASH qs"
    using ok(2) data(2) by (auto simp: receipt_chain_valid_iff intro!: linked_data_record)
  show "receipt_hash x \<noteq> GENESIS_PREVIOUS_HASH"
    if "data_record env (chain_texts env rs \<union> chain_texts env qs) x" for x
    using that hash_not_genesis(1) [OF dg] by (auto simp: data_record_def)
  have "xs \<noteq> [] \<Longrightarrow> receipt_chain_valid env xs \<Longrightarrow> chain_tip xs \<noteq> JNull" for xs
    by (cases xs rule: rev_cases) (auto simp: receipt_chain_valid_iff linked_append chain_tip_def record_ok_def)
  with ok tip have "rs = [] \<longleftrightarrow> qs = []"
    by (metis chain_tip_def)
  with tip show "head_hash receipt_hash GENESIS_PREVIOUS_HASH rs = head_hash receipt_hash GENESIS_PREVIOUS_HASH qs"
    by (auto simp: head_hash_def chain_tip_def)
qed

end
