(* ===== verification/Once_Store.thy ===== *)
theory Once_Store
  imports Js_Prelude
begin

text \<open>
  The contract of a store with once-semantics: an operation carries a key, and the first operation
  that commits under a key is the only one that ever does.  The mutation journal provides it
  (\<open>Mutation_Journal\<close>); the approval runtime relies on it for the single use of an approval
  (\<open>Oversight_Execution\<close>).
\<close>

section \<open>The interface\<close>

fun fresh_commits :: "('o \<Rightarrow> 's \<Rightarrow> 's) \<Rightarrow> ('o \<Rightarrow> 's \<Rightarrow> bool) \<Rightarrow> ('o \<Rightarrow> 'k) \<Rightarrow> 'k \<Rightarrow> 's \<Rightarrow> 'o list \<Rightarrow> nat" where
  "fresh_commits run fresh key k s [] = 0"
| "fresh_commits run fresh key k s (x # xs) =
     (if fresh x s \<and> key x = k then 1 else 0) + fresh_commits run fresh key k (run x s) xs"

locale once_store =
  fixes find :: "'s \<Rightarrow> 'k \<Rightarrow> 'v option"
    and run :: "'o \<Rightarrow> 's \<Rightarrow> 's"
    and fresh :: "'o \<Rightarrow> 's \<Rightarrow> bool"
    and key :: "'o \<Rightarrow> 'k"
  assumes keeps: "find s k = Some v \<Longrightarrow> find (run x s) k = Some v"
    and fresh_absent: "fresh x s \<Longrightarrow> find s (key x) = None"
    and fresh_stored: "fresh x s \<Longrightarrow> \<exists>v. find (run x s) (key x) = Some v"
begin

lemma keeps_all: "find s k = Some v \<Longrightarrow> find (fold run xs s) k = Some v"
  by (induction xs arbitrary: s) (auto intro: keeps)

lemma committed_no_more:
  "find s k = Some v \<Longrightarrow> fresh_commits run fresh key k s xs = 0"
proof (induction xs arbitrary: s)
  case Nil
  then show ?case by simp
next
  case (Cons x xs)
  have "\<not> (fresh x s \<and> key x = k)" using fresh_absent [of x s] Cons.prems by auto
  with Cons.IH [of "run x s"] keeps [OF Cons.prems] show ?case by simp
qed

lemma at_most_once: "fresh_commits run fresh key k s xs \<le> 1"
proof (induction xs arbitrary: s)
  case Nil
  then show ?case by simp
next
  case (Cons x xs)
  show ?case
  proof (cases "fresh x s \<and> key x = k")
    case True
    then obtain v where "find (run x s) k = Some v" using fresh_stored by blast
    with True committed_no_more show ?thesis by simp
  next
    case False
    with Cons.IH [of "run x s"] show ?thesis by auto
  qed
qed

end

end
