(* ===== verification/Mutation_Journal.thy ===== *)
theory Mutation_Journal
  imports Hash_Chain_Facts Once_Store
begin

text \<open>
  The durable mutation journal of the JSON backend: reading and validating the journal file
  (\<open>src/lib/mutation-journal.js\<close>) and running a mutation once
  (\<open>src/lib/graph-mutation-runtime.js\<close>, with the receipt rows of
  \<open>src/lib/graph-mutation-receipt-read.js\<close> and the family test of
  \<open>src/lib/receipt/v4-receipt-family.js\<close>).  The SQLite backend is not modelled.  The payload of an
  operation is a type parameter \<open>'r\<close>, the in-memory graph a type parameter \<open>'g\<close>; the readings of the
  clock and the fate of the commit are arguments.
\<close>

section \<open>Reading the journal file\<close>

datatype journal_error =
    Journal_corrupt string
  | Not_writable
  | Operation_id_required
  | Mutate_failed string
  | Receipt_payload_invalid
  | V4_write_not_enabled
  | Receipt_chain_error chain_error
  | Seal_not_produced
  | Commit_failed

datatype journal_file = Absent | Unreadable | Not_json | Parsed jsval

record raw_journal =
  rj_operations :: jsfields
  rj_receipts :: jsfields
  rj_chainTips :: jsfields
  rj_receiptsById :: jsfields
  rj_seals :: jsfields

definition corrupt :: "string \<Rightarrow> journal_error + 'a" where
  "corrupt message = Inl (Journal_corrupt message)"

definition emptyMutationJournal :: raw_journal where
  "emptyMutationJournal = \<lparr>rj_operations = [], rj_receipts = [], rj_chainTips = [],
     rj_receiptsById = [], rj_seals = []\<rparr>"

definition is_lower_hex :: "char \<Rightarrow> bool" where
  "is_lower_hex c = (is_digit c \<or> c \<in> set ''abcdef'')"

definition SHA256_HEX :: "string \<Rightarrow> bool" where
  "SHA256_HEX s = (length s = 64 \<and> list_all is_lower_hex s)"

fun nonempty_string :: "jsval \<Rightarrow> bool" where
  "nonempty_string (JStr s) = (s \<noteq> [])"
| "nonempty_string _ = False"

fun each_entry :: "(string \<Rightarrow> jsval \<Rightarrow> journal_error + unit) \<Rightarrow> jsfields \<Rightarrow> journal_error + unit" where
  "each_entry f [] = Inr ()"
| "each_entry f ((k, v) # fs) = bind_result (f k v) (\<lambda>_. each_entry f fs)"

definition require_journal :: "bool \<Rightarrow> string \<Rightarrow> journal_error + unit" where
  "require_journal c message = guard_result c (Journal_corrupt message)"

definition validateOperations :: "jsfields \<Rightarrow> journal_error + unit" where
  "validateOperations = each_entry (\<lambda>operationId row.
     bind_result (require_journal (isPlainObject row) (''operation '' @ operationId @ '' is not an object''))
       (\<lambda>_. bind_result (require_journal (nonempty_string (jget row ''status''))
         (''operation '' @ operationId @ '' has no status''))
       (\<lambda>_. require_journal (is_nullish (jget row ''receiptId'') \<or> is_string (jget row ''receiptId''))
         (''operation '' @ operationId @ '' has a non-string receiptId''))))"

fun require_fields :: "string \<Rightarrow> jsval \<Rightarrow> string list \<Rightarrow> journal_error + unit" where
  "require_fields what row [] = Inr ()"
| "require_fields what row (f # fs) =
     bind_result (require_journal (nonempty_string (jget row f)) (what @ '' has no '' @ f))
       (\<lambda>_. require_fields what row fs)"

definition validateReceipts :: "jsfields \<Rightarrow> journal_error + unit" where
  "validateReceipts = each_entry (\<lambda>operationId row.
     bind_result (require_journal (isPlainObject row) (''receipt for '' @ operationId @ '' is not an object''))
       (\<lambda>_. bind_result (require_fields (''receipt for '' @ operationId) row
           [''receiptId'', ''workspaceId'', ''receiptHash''])
       (\<lambda>_. require_journal (isPlainObject (jget row ''canonicalPayload''))
         (''receipt for '' @ operationId @ '' has no canonical payload''))))"

fun is_chain_tip :: "jsval \<Rightarrow> bool" where
  "is_chain_tip (JStr s) = SHA256_HEX s"
| "is_chain_tip _ = False"

definition validateChainTips :: "jsfields \<Rightarrow> journal_error + unit" where
  "validateChainTips = each_entry (\<lambda>chainKey tip.
     require_journal (is_chain_tip tip) (''chain tip for '' @ chainKey @ '' is not a receipt hash''))"

definition validateReceiptsById :: "jsfields \<Rightarrow> journal_error + unit" where
  "validateReceiptsById = each_entry (\<lambda>receiptId operationId.
     require_journal (nonempty_string operationId)
       (''receipt index entry '' @ receiptId @ '' does not name an operation''))"

definition validateSeals :: "jsfields \<Rightarrow> journal_error + unit" where
  "validateSeals = each_entry (\<lambda>receiptHash seal.
     bind_result (require_journal (isPlainObject seal) (''seal for '' @ receiptHash @ '' is not an object''))
       (\<lambda>_. bind_result (require_journal (jget seal ''receiptHash'' = JStr receiptHash)
         (''seal for '' @ receiptHash @ '' names a different receipt hash''))
       (\<lambda>_. require_fields (''seal for '' @ receiptHash) seal
         [''receiptId'', ''workspaceId'', ''keyId'', ''signature'', ''issuedAt''])))"

definition read_section :: "jsval \<Rightarrow> string \<Rightarrow> journal_error + jsfields" where
  "read_section parsed section_name = (let s = jget parsed section_name in
     if is_nullish s then Inr []
     else (case s of JObj fs \<Rightarrow> Inr fs | _ \<Rightarrow> corrupt (section_name @ '' is not an object'')))"

definition validate_journal :: "raw_journal \<Rightarrow> journal_error + raw_journal" where
  "validate_journal j =
     bind_result (validateOperations (rj_operations j)) (\<lambda>_.
     bind_result (validateReceipts (rj_receipts j)) (\<lambda>_.
     bind_result (validateChainTips (rj_chainTips j)) (\<lambda>_.
     bind_result (validateReceiptsById (rj_receiptsById j)) (\<lambda>_.
     bind_result (validateSeals (rj_seals j)) (\<lambda>_. Inr j)))))"

definition readMutationJournal :: "journal_file \<Rightarrow> journal_error + raw_journal" where
  "readMutationJournal file = (case file of
       Absent \<Rightarrow> Inr emptyMutationJournal
     | Unreadable \<Rightarrow> corrupt ''existing journal could not be read''
     | Not_json \<Rightarrow> corrupt ''existing journal is not valid JSON''
     | Parsed parsed \<Rightarrow>
         if \<not> isPlainObject parsed then corrupt ''existing journal is not an object''
         else
           bind_result (read_section parsed ''operations'') (\<lambda>operations.
           bind_result (read_section parsed ''receipts'') (\<lambda>receipts.
           bind_result (read_section parsed ''chainTips'') (\<lambda>chainTips.
           bind_result (read_section parsed ''receiptsById'') (\<lambda>receiptsById.
           bind_result (read_section parsed ''seals'') (\<lambda>seals.
             validate_journal \<lparr>rj_operations = operations, rj_receipts = receipts,
               rj_chainTips = chainTips, rj_receiptsById = receiptsById, rj_seals = seals\<rparr>))))))"

section \<open>The journal the runtime works on\<close>

record 'r op_row =
  or_status :: string
  or_result :: 'r
  or_receiptId :: "jsval option"
  or_committedAt :: string

record receipt_row =
  rr_operationId :: string
  rr_receiptId :: jsval
  rr_workspaceId :: jsval
  rr_family :: string
  rr_canonicalPayload :: jsval
  rr_previousReceiptHash :: jsval
  rr_receiptHash :: jsval
  rr_committedAt :: string

record 'r journal =
  j_operations :: "(string \<times> 'r op_row) list"
  j_receipts :: "(string \<times> receipt_row) list"
  j_chainTips :: "(string \<times> jsval) list"
  j_receiptsById :: "(string \<times> string) list"
  j_seals :: "(string \<times> jsval) list"

record 'r once_result =
  oc_replayed :: bool
  oc_result :: 'r
  oc_receipt :: "receipt_row option"

text \<open>
  What the runtime is wired with: the issuer's sealing function (\<open>None\<close> when no key is configured;
  the function itself may fail) and the source-owned authorization of version 2 receipts.
\<close>

record receipt_deps =
  rd_seal :: "(jsval \<Rightarrow> string \<Rightarrow> jsval option) option"
  rd_v2_authorized :: "jsval \<Rightarrow> string \<Rightarrow> bool"

definition completed :: "'r journal \<Rightarrow> string \<Rightarrow> 'r op_row option" where
  "completed j operationId = (case map_of (j_operations j) operationId of
       None \<Rightarrow> None
     | Some row \<Rightarrow> if or_status row = ''completed'' then Some row else None)"

definition readMutationReceiptFromJsonJournal :: "'r journal \<Rightarrow> string \<Rightarrow> receipt_row option" where
  "readMutationReceiptFromJsonJournal j operationId = map_of (j_receipts j) operationId"

definition readCommittedMutationResult ::
    "journal_error + 'r journal \<Rightarrow> string \<Rightarrow> journal_error + ('r op_row \<times> receipt_row option) option" where
  "readCommittedMutationResult store operationId = (let opId = trim operationId in
     if opId = [] then Inr None
     else bind_result store (\<lambda>j. Inr (case completed j opId of
         None \<Rightarrow> None
       | Some row \<Rightarrow> Some (row, readMutationReceiptFromJsonJournal j opId))))"

definition readCommittedMutationResultsByPrefix ::
    "js_env \<Rightarrow> journal_error + 'r journal \<Rightarrow> string \<Rightarrow> journal_error + (string \<times> 'r op_row) list" where
  "readCommittedMutationResultsByPrefix env store prefix =
     (if prefix = [] \<or> 512 < length prefix then Inr []
      else bind_result store (\<lambda>j. Inr (sort_by (\<lambda>l r.
          let c = locale_compare env (or_committedAt (snd l)) (or_committedAt (snd r))
          in if c = 0 then locale_compare env (fst l) (fst r) else c)
        (filter (\<lambda>p. starts_with (fst p) prefix \<and> or_status (snd p) = ''completed'')
          (j_operations j)))))"

definition getCommittedMutationReceiptById ::
    "journal_error + 'r journal \<Rightarrow> string \<Rightarrow> journal_error + receipt_row option" where
  "getCommittedMutationReceiptById store receiptId = bind_result store (\<lambda>j.
     Inr (case map_of (j_receiptsById j) receiptId of
         None \<Rightarrow> None
       | Some operationId \<Rightarrow>
           if operationId = [] then None else readMutationReceiptFromJsonJournal j operationId))"

definition getMutationReceiptSeal ::
    "journal_error + 'r journal \<Rightarrow> jsval \<Rightarrow> journal_error + jsval option" where
  "getMutationReceiptSeal store receiptHash =
     (case receiptHash of
        JStr h \<Rightarrow> (let hash = trim h in
          if hash = [] then Inr None
          else bind_result store (\<lambda>j. Inr (case map_of (j_seals j) hash of
              None \<Rightarrow> None | Some seal \<Rightarrow> if truthy seal then Some seal else None)))
      | _ \<Rightarrow> Inr None)"

section \<open>Writing a receipt\<close>

definition isV4CanonicalReceipt :: "jsval \<Rightarrow> bool" where
  "isV4CanonicalReceipt payload = (is_object payload \<and> (case jget payload ''schemaVersion'' of
       JStr s \<Rightarrow> starts_with s ''v4-receipt-v'' | _ \<Rightarrow> False))"

definition classifyReceiptFamily :: "jsval \<Rightarrow> string" where
  "classifyReceiptFamily payload = (if isV4CanonicalReceipt payload then ''v4'' else ''non-v4'')"

definition assertDurableV4WriteAllowed ::
    "receipt_deps \<Rightarrow> jsval \<Rightarrow> string \<Rightarrow> journal_error + unit" where
  "assertDurableV4WriteAllowed deps payload operationId =
     (if classifyReceiptFamily payload \<noteq> ''v4'' then Inr ()
      else if jget payload ''schemaVersion'' = JStr ''v4-receipt-v1'' then Inr ()
      else if jget payload ''schemaVersion'' = JStr ''v4-receipt-v2''
              \<and> rd_v2_authorized deps payload operationId then Inr ()
      else Inl V4_write_not_enabled)"

definition assertChainTipUsable :: "(string \<times> jsval) list \<Rightarrow> string \<Rightarrow> journal_error + jsval" where
  "assertChainTipUsable chainTips chainKey = (case map_of chainTips chainKey of
       None \<Rightarrow> Inr JNull
     | Some tip \<Rightarrow>
         if is_nullish tip then Inr JNull
         else if \<not> is_chain_tip tip
           then corrupt (''chain tip for '' @ chainKey @ '' is not a receipt hash'')
         else Inr tip)"

definition sealChainedReceipt ::
    "receipt_deps \<Rightarrow> jsval \<Rightarrow> string \<Rightarrow> journal_error + jsval option" where
  "sealChainedReceipt deps chained issuedAt = (case rd_seal deps of
       None \<Rightarrow> Inr None
     | Some sign \<Rightarrow> (case sign chained issuedAt of
         None \<Rightarrow> Inl Seal_not_produced | Some seal \<Rightarrow> Inr (Some seal)))"

definition chain_key :: "js_env \<Rightarrow> jsval \<Rightarrow> string" where
  "chain_key env payload =
     js_string env (jget payload ''workspaceId'') @ ''::'' @ classifyReceiptFamily payload"

definition write_receipt ::
    "js_env \<Rightarrow> receipt_deps \<Rightarrow> string \<Rightarrow> jsval \<Rightarrow> string \<Rightarrow> 'r journal \<Rightarrow> journal_error + 'r journal" where
  "write_receipt env deps opId payload committedAt j =
     (if \<not> is_object payload \<or> \<not> truthy (jget payload ''receiptId'')
         \<or> \<not> truthy (jget payload ''workspaceId'')
      then Inl Receipt_payload_invalid
      else
        bind_result (assertDurableV4WriteAllowed deps payload opId) (\<lambda>_.
        bind_result (assertChainTipUsable (j_chainTips j) (chain_key env payload)) (\<lambda>previousReceiptHash.
        bind_result (case appendReceiptToChain env payload previousReceiptHash of
            Inl e \<Rightarrow> Inl (Receipt_chain_error e) | Inr chained \<Rightarrow> Inr chained) (\<lambda>chained.
        bind_result (sealChainedReceipt deps chained committedAt) (\<lambda>seal.
          let row = \<lparr>rr_operationId = opId, rr_receiptId = jget chained ''receiptId'',
                rr_workspaceId = jget payload ''workspaceId'', rr_family = classifyReceiptFamily payload,
                rr_canonicalPayload = payload,
                rr_previousReceiptHash = jget chained ''previousReceiptHash'',
                rr_receiptHash = jget chained ''receiptHash'', rr_committedAt = committedAt\<rparr>
          in Inr (j\<lparr>j_receipts := alist_put opId row (j_receipts j),
               j_receiptsById := alist_put (js_string env (jget chained ''receiptId'')) opId (j_receiptsById j),
               j_chainTips := alist_put (chain_key env payload) (jget chained ''receiptHash'') (j_chainTips j),
               j_seals := (case seal of None \<Rightarrow> j_seals j
                 | Some s \<Rightarrow> alist_put (js_string env (jget s ''receiptHash'')) s (j_seals j))\<rparr>))))))"

section \<open>Running a mutation once\<close>

text \<open>
  The fate of \<open>commitJsonTransaction\<close>: done; failed with the old journal in place; or failed after
  the new journal was published (see \<open>Json_Transaction\<close>).
\<close>

datatype commit_fate = Commit_done | Commit_failed_before | Commit_failed_after

record ('g, 'r) mutation_request =
  mr_operationId :: string
  mr_mutate :: "'g \<Rightarrow> string + ('r \<times> 'g)"
  mr_buildCanonicalReceipt :: "('r \<Rightarrow> string + jsval) option"
  mr_receiptAt :: string
  mr_committedAt :: string
  mr_fate :: commit_fate

record ('g, 'r) graph_state =
  gs_writable :: bool
  gs_graph :: 'g
  gs_journal :: "journal_error + 'r journal"

definition replay_result :: "'r journal \<Rightarrow> string \<Rightarrow> 'r op_row \<Rightarrow> 'r once_result" where
  "replay_result j opId row = \<lparr>oc_replayed = True, oc_result = or_result row,
     oc_receipt = readMutationReceiptFromJsonJournal j opId\<rparr>"

definition receipt_of_result ::
    "js_env \<Rightarrow> receipt_deps \<Rightarrow> ('g, 'r) mutation_request \<Rightarrow> string \<Rightarrow> 'r \<Rightarrow> 'r journal
       \<Rightarrow> journal_error + ('r journal \<times> receipt_row option)" where
  "receipt_of_result env deps req opId result j = (case mr_buildCanonicalReceipt req of
       None \<Rightarrow> Inr (j, None)
     | Some build \<Rightarrow> (case build result of
         Inl message \<Rightarrow> Inl (Mutate_failed message)
       | Inr payload \<Rightarrow>
           if is_nullish payload then Inr (j, None)
           else bind_result (write_receipt env deps opId payload (mr_receiptAt req) j) (\<lambda>j'.
             Inr (j', readMutationReceiptFromJsonJournal j' opId))))"

definition record_operation ::
    "string \<Rightarrow> 'r \<Rightarrow> receipt_row option \<Rightarrow> string \<Rightarrow> 'r journal \<Rightarrow> 'r journal" where
  "record_operation opId result receipt committedAt j =
     j\<lparr>j_operations := alist_put opId \<lparr>or_status = ''completed'', or_result = result,
        or_receiptId = map_option rr_receiptId receipt, or_committedAt = committedAt\<rparr>
        (j_operations j)\<rparr>"

definition runMutationOnceJsonLocked ::
    "js_env \<Rightarrow> receipt_deps \<Rightarrow> ('g, 'r) mutation_request \<Rightarrow> string \<Rightarrow> ('g, 'r) graph_state
       \<Rightarrow> (journal_error + 'r once_result) \<times> ('g, 'r) graph_state" where
  "runMutationOnceJsonLocked env deps req opId s = (case gs_journal s of
       Inl e \<Rightarrow> (Inl e, s)
     | Inr j \<Rightarrow> (case completed j opId of
         Some row \<Rightarrow> (Inr (replay_result j opId row), s)
       | None \<Rightarrow> (case mr_mutate req (gs_graph s) of
           Inl message \<Rightarrow> (Inl (Mutate_failed message), s)
         | Inr (result, g') \<Rightarrow> (case receipt_of_result env deps req opId result j of
             Inl e \<Rightarrow> (Inl e, s)
           | Inr (j', receipt) \<Rightarrow>
               let j'' = record_operation opId result receipt (mr_committedAt req) j' in
               (case mr_fate req of
                  Commit_done \<Rightarrow>
                    (Inr \<lparr>oc_replayed = False, oc_result = result, oc_receipt = receipt\<rparr>,
                     s\<lparr>gs_graph := g', gs_journal := Inr j''\<rparr>)
                | Commit_failed_before \<Rightarrow> (Inl Commit_failed, s)
                | Commit_failed_after \<Rightarrow>
                    (Inr \<lparr>oc_replayed = True, oc_result = result,
                       oc_receipt = readMutationReceiptFromJsonJournal j'' opId\<rparr>,
                     s\<lparr>gs_journal := Inr j''\<rparr>))))))"

definition runMutationOnce ::
    "js_env \<Rightarrow> receipt_deps \<Rightarrow> ('g, 'r) mutation_request \<Rightarrow> ('g, 'r) graph_state
       \<Rightarrow> (journal_error + 'r once_result) \<times> ('g, 'r) graph_state" where
  "runMutationOnce env deps req s =
     (if \<not> gs_writable s then (Inl Not_writable, s)
      else let opId = trim (mr_operationId req) in
        if opId = [] then (Inl Operation_id_required, s)
        else runMutationOnceJsonLocked env deps req opId s)"

end
