(* ===== verification/Mutation_Journal_Facts.thy ===== *)
theory Mutation_Journal_Facts
  imports Mutation_Journal
begin

text \<open>
  What the journal guarantees: damage is never read as an empty history, an operation id commits at
  most once whatever requests are run, an error leaves graph and journal alone, and the receipts of
  every workspace and family form one linked chain that ends at the recorded tip.
\<close>

section \<open>Reading\<close>

lemma each_entry_ok:
  "each_entry f fs = Inr u \<Longrightarrow> (k, v) \<in> set fs \<Longrightarrow> f k v = Inr ()"
  by (induction fs) auto

lemma validate_journal_ok:
  "validate_journal j = Inr j' \<longleftrightarrow> j' = j
     \<and> validateOperations (rj_operations j) = Inr () \<and> validateReceipts (rj_receipts j) = Inr ()
     \<and> validateChainTips (rj_chainTips j) = Inr () \<and> validateReceiptsById (rj_receiptsById j) = Inr ()
     \<and> validateSeals (rj_seals j) = Inr ()"
  by (auto simp: validate_journal_def bind_result_eq_Inr)

lemma read_section_ok:
  "read_section parsed s = Inr fs \<Longrightarrow> is_nullish (jget parsed s) \<and> fs = [] \<or> jget parsed s = JObj fs"
  by (auto simp: read_section_def corrupt_def Let_def split: if_splits jsval.splits)

lemma read_chain_tips_hex:
  assumes "readMutationJournal f = Inr j" and "(k, tip) \<in> set (rj_chainTips j)"
  shows "\<exists>s. tip = JStr s \<and> SHA256_HEX s"
proof -
  have "validateChainTips (rj_chainTips j) = Inr ()"
    using assms(1) by (cases f)
      (auto simp: readMutationJournal_def corrupt_def validate_journal_ok emptyMutationJournal_def
        validateChainTips_def split: if_splits)
  then have "is_chain_tip tip"
    using each_entry_ok [OF _ assms(2)] unfolding validateChainTips_def
    by (force simp: require_journal_def)
  then show ?thesis by (cases tip) auto
qed

section \<open>Running once\<close>

definition committed_row :: "('g, 'r) graph_state \<Rightarrow> string \<Rightarrow> 'r op_row option" where
  "committed_row s k = (case gs_journal s of Inl e \<Rightarrow> None | Inr j \<Rightarrow> completed j k)"

definition journal_step :: "js_env \<Rightarrow> receipt_deps \<Rightarrow> ('g, 'r) mutation_request \<Rightarrow> ('g, 'r) graph_state
    \<Rightarrow> ('g, 'r) graph_state" where
  "journal_step env deps req s = snd (runMutationOnce env deps req s)"

definition commits_fresh :: "js_env \<Rightarrow> receipt_deps \<Rightarrow> ('g, 'r) mutation_request \<Rightarrow> ('g, 'r) graph_state
    \<Rightarrow> bool" where
  "commits_fresh env deps req s = (case fst (runMutationOnce env deps req s) of
     Inl e \<Rightarrow> False | Inr r \<Rightarrow> \<not> oc_replayed r)"

definition request_key :: "('g, 'r) mutation_request \<Rightarrow> string" where
  "request_key req = trim (mr_operationId req)"

lemmas run_once_defs = runMutationOnce_def runMutationOnceJsonLocked_def Let_def

lemma write_receipt_operations:
  "write_receipt env deps i p c j = Inr j' \<Longrightarrow> j_operations j' = j_operations j"
  by (auto simp: write_receipt_def Let_def split: if_splits)

lemma receipt_of_result_operations:
  "receipt_of_result env deps req i r j = Inr (j', rc) \<Longrightarrow> j_operations j' = j_operations j"
  by (auto simp: receipt_of_result_def split: option.splits sum.splits if_splits
      dest: write_receipt_operations)

lemma completed_record_operation:
  "completed (record_operation i r rc c j) k =
     (if k = i then Some \<lparr>or_status = ''completed'', or_result = r,
        or_receiptId = map_option rr_receiptId rc, or_committedAt = c\<rparr> else completed j k)"
  by (simp add: completed_def record_operation_def)

lemma completed_same_operations:
  "j_operations j' = j_operations j \<Longrightarrow> completed j' k = completed j k"
  by (simp add: completed_def)

text \<open>The cases of a run: nothing changes, or one new row under an id that had none.\<close>

lemma run_once_cases:
  obtains (same) "snd (runMutationOnce env deps req s) = s"
      and "\<not> commits_fresh env deps req s"
    | (commit) j j' result g' receipt where "gs_journal s = Inr j"
      and "completed j (request_key req) = None"
      and "mr_mutate req (gs_graph s) = Inr (result, g')"
      and "receipt_of_result env deps req (request_key req) result j = Inr (j', receipt)"
      and "gs_journal (snd (runMutationOnce env deps req s)) =
        Inr (record_operation (request_key req) result receipt (mr_committedAt req) j')"
proof -
  show thesis
  proof (cases "snd (runMutationOnce env deps req s) = s \<and> \<not> commits_fresh env deps req s")
    case True
    then show thesis using same by blast
  next
    case False
    then have "gs_writable s" "request_key req \<noteq> []"
      by (auto simp: run_once_defs commits_fresh_def request_key_def split: if_splits)
    then show thesis
      using False commit
      by (auto simp: run_once_defs commits_fresh_def request_key_def replay_result_def
          split: sum.splits option.splits commit_fate.splits)
  qed
qed

lemma run_once_committed_row:
  assumes "committed_row s k = Some row"
  shows "committed_row (journal_step env deps req s) k = Some row"
proof (rule run_once_cases [of env deps req s])
  assume "snd (runMutationOnce env deps req s) = s"
  with assms show ?thesis by (simp add: journal_step_def)
next
  fix j j' result g' receipt
  assume c: "gs_journal s = Inr j" "completed j (request_key req) = None"
    "receipt_of_result env deps req (request_key req) result j = Inr (j', receipt)"
    "gs_journal (snd (runMutationOnce env deps req s)) =
       Inr (record_operation (request_key req) result receipt (mr_committedAt req) j')"
  have "completed j' k = completed j k"
    using receipt_of_result_operations [OF c(3)] by (rule completed_same_operations)
  with c assms show ?thesis
    by (auto simp: committed_row_def journal_step_def completed_record_operation)
qed

lemma fresh_commit_absent:
  assumes "commits_fresh env deps req s"
  shows "committed_row s (request_key req) = None"
    and "\<exists>row. committed_row (journal_step env deps req s) (request_key req) = Some row"
proof -
  have "committed_row s (request_key req) = None \<and>
      (\<exists>row. committed_row (journal_step env deps req s) (request_key req) = Some row)"
    using assms
    by (rule_tac run_once_cases [of env deps req s])
      (auto simp: committed_row_def journal_step_def completed_record_operation)
  then show "committed_row s (request_key req) = None"
    and "\<exists>row. committed_row (journal_step env deps req s) (request_key req) = Some row" by auto
qed

interpretation journal: once_store "committed_row :: ('g, 'r) graph_state \<Rightarrow> string \<Rightarrow> 'r op_row option"
  "journal_step env deps" "commits_fresh env deps" request_key for env deps
  by unfold_locales (auto intro: run_once_committed_row fresh_commit_absent)

lemma run_once_error_unchanged:
  assumes "fst (runMutationOnce env deps req s) = Inl e"
  shows "snd (runMutationOnce env deps req s) = s"
  using assms
  by (auto simp: run_once_defs split: if_splits sum.splits option.splits commit_fate.splits)

section \<open>The receipt chains\<close>

text \<open>The chain record of a stored row, as the ledger rebuilds it.\<close>

definition row_record :: "receipt_row \<Rightarrow> jsval" where
  "row_record r = JObj (put_field ''receiptHash'' (rr_receiptHash r)
     (put_field ''previousReceiptHash'' (rr_previousReceiptHash r) (own_fields (rr_canonicalPayload r))))"

definition chain_rows :: "js_env \<Rightarrow> string \<Rightarrow> 'r journal \<Rightarrow> receipt_row list" where
  "chain_rows env k j = filter (\<lambda>r. chain_key env (rr_canonicalPayload r) = k) (map snd (j_receipts j))"

definition tip_of_rows :: "receipt_row list \<Rightarrow> jsval option" where
  "tip_of_rows rows = (if rows = [] then None else Some (rr_receiptHash (last rows)))"

definition journal_chained :: "js_env \<Rightarrow> 'r journal \<Rightarrow> bool" where
  "journal_chained env j = ((\<forall>k. chain_linked env GENESIS_PREVIOUS_HASH (map row_record (chain_rows env k j))
       \<and> map_of (j_chainTips j) k = tip_of_rows (chain_rows env k j))
     \<and> (\<forall>i \<in> fst ` set (j_receipts j). completed j i \<noteq> None))"

definition payload_ok :: "jsval \<Rightarrow> bool" where
  "payload_ok p = (\<forall>fs. p = JObj fs \<longrightarrow> ''receiptHash'' \<notin> fst ` set fs)"

lemma append_JObj:
  assumes "appendReceiptToChain env (JObj fs) prev = Inr r"
  shows "r = JObj (put_field ''receiptHash'' (receipt_hash r)
      (put_field ''previousReceiptHash'' (previous_hash r) fs))"
    and "previous_hash r = or_else prev GENESIS_PREVIOUS_HASH"
  using assms by (auto simp: appendReceiptToChain_def appendToChain_def Let_def split: if_splits)

lemma write_receipt_chained:
  assumes inv: "journal_chained env j" and new: "completed j i = None"
    and w: "write_receipt env deps i p c j = Inr j'"
    and p: "payload_ok p" and dg: "digest_text_ok env"
  shows "journal_chained env (record_operation i r rc c' j')"
proof -
  from w obtain fs where pf: "p = JObj fs"
    by (cases p) (auto simp: write_receipt_def split: if_splits)
  let ?k = "chain_key env p"
  from w obtain prev chained seal where
    tip: "assertChainTipUsable (j_chainTips j) ?k = Inr prev"
    and app: "appendReceiptToChain env p prev = Inr chained"
    and j': "j' = j\<lparr>j_receipts := alist_put i \<lparr>rr_operationId = i, rr_receiptId = jget chained ''receiptId'',
                rr_workspaceId = jget p ''workspaceId'', rr_family = classifyReceiptFamily p,
                rr_canonicalPayload = p, rr_previousReceiptHash = previous_hash chained,
                rr_receiptHash = receipt_hash chained, rr_committedAt = c\<rparr> (j_receipts j),
               j_receiptsById := alist_put (js_string env (jget chained ''receiptId'')) i (j_receiptsById j),
               j_chainTips := alist_put ?k (receipt_hash chained) (j_chainTips j),
               j_seals := seal\<rparr>"
    by (auto simp: write_receipt_def Let_def split: if_splits sum.splits)
  define row where "row = \<lparr>rr_operationId = i, rr_receiptId = jget chained ''receiptId'',
      rr_workspaceId = jget p ''workspaceId'', rr_family = classifyReceiptFamily p,
      rr_canonicalPayload = p, rr_previousReceiptHash = previous_hash chained,
      rr_receiptHash = receipt_hash chained, rr_committedAt = c\<rparr>"
  have rec: "row_record row = chained"
    using append_JObj(1) [of env fs prev chained] app pf by (simp add: row_record_def row_def)
  have "i \<notin> fst ` set (j_receipts j)" using inv new by (auto simp: journal_chained_def)
  then have recs: "j_receipts j' = j_receipts j @ [(i, row)]"
    by (simp add: j' row_def alist_put_fresh)
  have rows: "chain_rows env k j' = chain_rows env k j @ (if k = ?k then [row] else [])" for k
    by (simp add: chain_rows_def recs row_def)
  let ?old = "map row_record (chain_rows env ?k j)"
  have old: "chain_linked env GENESIS_PREVIOUS_HASH ?old"
    and tipk: "map_of (j_chainTips j) ?k = tip_of_rows (chain_rows env ?k j)"
    using inv by (auto simp: journal_chained_def)
  have rh: "receipt_hash (row_record r) = rr_receiptHash r" for r by (simp add: row_record_def)
  have "prev = chain_tip ?old"
  proof (cases "chain_rows env ?k j" rule: rev_cases)
    case Nil
    with tip tipk show ?thesis
      by (auto simp: assertChainTipUsable_def tip_of_rows_def chain_tip_def)
  next
    case (snoc rs r)
    with old have "record_ok env (row_record r)" by (simp add: linked_append)
    then obtain h where "rr_receiptHash r = JStr h" by (auto simp: record_ok_def rh)
    with snoc tip tipk rh show ?thesis
      by (auto simp: assertChainTipUsable_def tip_of_rows_def chain_tip_def corrupt_def split: if_splits)
  qed
  with app pf have "appendReceiptToChain env (JObj fs) (chain_tip ?old) = Inr chained" by simp
  with old p pf dg have new_linked: "chain_linked env GENESIS_PREVIOUS_HASH (?old @ [chained])"
    using append_extends [of env ?old fs chained] by (simp add: receipt_chain_valid_iff payload_ok_def)
  have linked: "chain_linked env GENESIS_PREVIOUS_HASH (map row_record (chain_rows env k j'))" for k
    using new_linked inv rec by (cases "k = ?k") (auto simp: rows journal_chained_def)
  have tips': "j_chainTips j' = alist_put ?k (receipt_hash chained) (j_chainTips j)" by (simp add: j')
  have tips: "map_of (j_chainTips j') k = tip_of_rows (chain_rows env k j')" for k
    using inv by (cases "k = ?k") (auto simp: rows journal_chained_def tip_of_rows_def tips' row_def)
  have ops: "j_operations j' = j_operations j" by (simp add: j')
  let ?J = "record_operation i r rc c' j'"
  have "chain_rows env k ?J = chain_rows env k j'" "j_chainTips ?J = j_chainTips j'"
    "j_receipts ?J = j_receipts j'" for k
    by (simp_all add: chain_rows_def record_operation_def)
  moreover have "completed ?J k \<noteq> None" if "k \<in> fst ` set (j_receipts j')" for k
    using that inv completed_same_operations [OF ops, of k]
    by (auto simp: completed_record_operation recs journal_chained_def)
  ultimately show ?thesis using linked tips by (auto simp: journal_chained_def)
qed

lemma record_operation_chained:
  assumes "journal_chained env j"
  shows "journal_chained env (record_operation i r rc c j)"
proof -
  let ?J = "record_operation i r rc c j"
  have "chain_rows env k ?J = chain_rows env k j" "j_chainTips ?J = j_chainTips j"
    "j_receipts ?J = j_receipts j" for k
    by (simp_all add: chain_rows_def record_operation_def)
  then show ?thesis using assms by (auto simp: journal_chained_def completed_record_operation)
qed

definition builds_ok :: "('g, 'r) mutation_request \<Rightarrow> bool" where
  "builds_ok req = (case mr_buildCanonicalReceipt req of None \<Rightarrow> True
     | Some build \<Rightarrow> \<forall>r p. build r = Inr p \<longrightarrow> payload_ok p)"

lemma run_once_chained:
  assumes inv: "gs_journal s = Inr j" "journal_chained env j"
    and ok: "builds_ok req" "digest_text_ok env"
  shows "\<exists>j'. gs_journal (journal_step env deps req s) = Inr j' \<and> journal_chained env j'"
proof (rule run_once_cases [of env deps req s])
  assume "snd (runMutationOnce env deps req s) = s"
  with inv show ?thesis by (simp add: journal_step_def)
next
  fix k j' result g' receipt
  assume c: "gs_journal s = Inr k" "completed k (request_key req) = None"
    "receipt_of_result env deps req (request_key req) result k = Inr (j', receipt)"
    "gs_journal (snd (runMutationOnce env deps req s)) =
       Inr (record_operation (request_key req) result receipt (mr_committedAt req) j')"
  from c inv have kj: "k = j" by simp
  have "journal_chained env (record_operation (request_key req) result receipt (mr_committedAt req) j')"
    using c(2,3) inv(2) ok unfolding kj
    by (auto simp: receipt_of_result_def builds_ok_def split: option.splits sum.splits if_splits
        intro: record_operation_chained write_receipt_chained)
  with c(4) show ?thesis by (simp add: journal_step_def)
qed

end
