(* ===== verification/Trust_Ledger.thy ===== *)
theory Trust_Ledger
  imports Mutation_Journal_Facts
begin

text \<open>
  The trust evidence ledger (\<open>src/lib/trust-evidence-ledger.js\<close>): an event of bounded, named
  fields becomes a canonical receipt payload, the payload is appended to the receipt chain by the
  mutation journal, and the stored row is verified before it is handed out.  A thrown \<open>TypeError\<close>
  is its message.  A metadata value is what survives \<open>JSON.parse(JSON.stringify(v))\<close>.
\<close>

section \<open>Limits and names\<close>

definition TRUST_EVIDENCE_SCHEMA_VERSION :: string where
  "TRUST_EVIDENCE_SCHEMA_VERSION = ''huqan-trust-evidence-v1''"

definition TRUST_EVIDENCE_RECEIPT_KIND :: string where
  "TRUST_EVIDENCE_RECEIPT_KIND = ''trust_evidence''"

definition JUSTIFICATION_VERSION :: string where
  "JUSTIFICATION_VERSION = ''huqan-decision-justification-v1''"

definition MAX_REFERENCE_LENGTH :: nat where "MAX_REFERENCE_LENGTH = 512"
definition MAX_REASON_LENGTH :: nat where "MAX_REASON_LENGTH = 1024"
definition MAX_METADATA_BYTES :: nat where "MAX_METADATA_BYTES = 4096"
definition MAX_REFS :: nat where "MAX_REFS = 32"
definition MAX_DIMENSIONS :: nat where "MAX_DIMENSIONS = 16"
definition MAX_THRESHOLDS :: nat where "MAX_THRESHOLDS = 16"
definition MAX_JUSTIFICATION_UNKNOWN_LENGTH :: nat where "MAX_JUSTIFICATION_UNKNOWN_LENGTH = 256"
definition MAX_THRESHOLD_KEY_LENGTH :: nat where "MAX_THRESHOLD_KEY_LENGTH = 64"

definition CANONICAL_VERDICTS :: "string list" where
  "CANONICAL_VERDICTS = [''allow'', ''review'', ''block'', ''dry_run_only'', ''quarantine'', ''disabled'']"

definition ALLOWED_EVENT_FIELDS :: "string list" where
  "ALLOWED_EVENT_FIELDS = [''workspaceId'', ''operationId'', ''decision'', ''reason'',
     ''actionFingerprint'', ''identityRef'', ''identityHash'', ''authorityRef'', ''delegationRef'',
     ''policyVersion'', ''firewallVersion'', ''connectorRef'', ''resourceRef'', ''approvalRef'',
     ''executionOutcome'', ''sourceRefs'', ''provenanceRefs'', ''createdAt'', ''justification'',
     ''metadata'']"

definition FORBIDDEN_EVENT_KEYS :: "string list" where
  "FORBIDDEN_EVENT_KEYS = [''prompt'', ''input'', ''rawInput'', ''content'', ''requestBody'', ''token'',
     ''accessToken'', ''secret'', ''credential'', ''password'', ''privateKey'']"

section \<open>Bounded values\<close>

type_synonym type_error = string

definition assertPlainObject :: "jsval \<Rightarrow> string \<Rightarrow> type_error + unit" where
  "assertPlainObject v name = guard_result (isPlainObject v) (name @ '' must be a plain object'')"

text \<open>\<open>boundedString\<close>, and \<open>boundedText\<close> of the approval runtime: the same text, the same checks.\<close>

definition boundedString :: "jsval \<Rightarrow> string \<Rightarrow> bool \<Rightarrow> nat \<Rightarrow> type_error + string" where
  "boundedString v fld required mx = (case v of
       JStr s \<Rightarrow> let normalized = trim s in
         if required \<and> normalized = [] then Inl (fld @ '' is required'')
         else if length normalized > mx then Inl (fld @ '' exceeds bounded length'')
         else Inr normalized
     | _ \<Rightarrow> if is_nullish v then (if required then Inl (fld @ '' is required'') else Inr [])
            else Inl (fld @ '' must be a string''))"

definition index_path :: "string \<Rightarrow> nat \<Rightarrow> string" where
  "index_path fld i = fld @ ''['' @ show_nat i @ '']''"

definition boundedRefs :: "jsval \<Rightarrow> string \<Rightarrow> type_error + string list" where
  "boundedRefs v fld = (case v of
       JArr xs \<Rightarrow>
         if length xs > MAX_REFS then Inl (fld @ '' must be a bounded array'')
         else map_result (\<lambda>(i, x). boundedString x (index_path fld i) False MAX_REFERENCE_LENGTH)
           (enumerate 0 xs)
     | _ \<Rightarrow> if is_nullish v then Inr [] else Inl (fld @ '' must be a bounded array''))"

definition boundedScalar :: "jsval \<Rightarrow> string \<Rightarrow> type_error + jsval" where
  "boundedScalar v fld = (case v of
       JUndefined \<Rightarrow> Inr JNull
     | JNull \<Rightarrow> Inr JNull
     | JStr s \<Rightarrow> if length (trim s) > MAX_REFERENCE_LENGTH then Inl (fld @ '' exceeds bounded length'')
         else Inr (JStr (trim s))
     | JNum r \<Rightarrow> Inr v
     | JBool b \<Rightarrow> Inr v
     | _ \<Rightarrow> Inl (fld @ '' must be a bounded scalar''))"

text \<open>What a value is after being written as JSON and read back.\<close>

fun json_clone :: "jsval \<Rightarrow> jsval"
and clone_elems :: "jsval list \<Rightarrow> jsval list"
and clone_members :: "jsfields \<Rightarrow> jsfields" where
  "json_clone (JArr xs) = JArr (clone_elems xs)"
| "json_clone (JObj fs) = JObj (clone_members fs)"
| "json_clone v = v"
| "clone_elems [] = []"
| "clone_elems (x # xs) = (if x = JUndefined then JNull else json_clone x) # clone_elems xs"
| "clone_members [] = []"
| "clone_members ((k, v) # fs) =
     (if v = JUndefined then clone_members fs else (k, json_clone v) # clone_members fs)"

definition cloneJson :: "jsval \<Rightarrow> string \<Rightarrow> type_error + jsval" where
  "cloneJson v fld = (if v = JUndefined then Inl (fld @ '' must be JSON-serializable'')
     else Inr (json_clone v))"

definition utf8_length :: "string \<Rightarrow> nat" where
  "utf8_length s = sum_list (map (\<lambda>c. if of_char c < (128 :: nat) then 1 else 2) s)"

definition stable_bytes :: "js_env \<Rightarrow> jsval \<Rightarrow> nat" where
  "stable_bytes env v = (case stableStringify env v of None \<Rightarrow> 0 | Some t \<Rightarrow> utf8_length t)"

section \<open>The justification of a decision\<close>

definition justification_dimension :: "nat \<Rightarrow> jsval \<Rightarrow> type_error + jsval" where
  "justification_dimension i e = (let path = index_path ''justification.dimensions'' i in
     bind_result (assertPlainObject e path) (\<lambda>_.
     bind_result (boundedString (jget e ''dimension'') (path @ ''.dimension'') True MAX_THRESHOLD_KEY_LENGTH) (\<lambda>d.
     bind_result (boundedScalar (jget e ''value'') (path @ ''.value'')) (\<lambda>v.
     bind_result (boundedString (jget e ''source'') (path @ ''.source'') False MAX_REFERENCE_LENGTH) (\<lambda>s.
       Inr (JObj [(''dimension'', JStr d), (''value'', v), (''source'', JStr s)]))))))"

fun justification_thresholds :: "jsfields \<Rightarrow> jsfields \<Rightarrow> type_error + jsfields" where
  "justification_thresholds [] acc = Inr acc"
| "justification_thresholds ((k, v) # fs) acc =
     (if trim k = [] \<or> length k > MAX_THRESHOLD_KEY_LENGTH
        then Inl ''justification threshold names must be bounded''
      else if k \<in> set FORBIDDEN_EVENT_KEYS
        then Inl (''forbidden trust evidence field: justification.thresholds.'' @ k)
      else bind_result (boundedScalar v (''justification.thresholds.'' @ k)) (\<lambda>s.
        justification_thresholds fs (put_field k s acc)))"

definition normalizeJustification :: "jsval \<Rightarrow> type_error + jsval option" where
  "normalizeJustification value = (if is_nullish value then Inr None else
     bind_result (assertPlainObject value ''justification'') (\<lambda>_.
     bind_result (guard_result (jget value ''version'' = JUndefined
         \<or> jget value ''version'' = JStr JUSTIFICATION_VERSION)
       (''justification version must be '' @ JUSTIFICATION_VERSION)) (\<lambda>_.
     let s = jget value ''score''; scored = \<not> is_nullish s in
     bind_result (guard_result (\<not> scored \<or> (case s of JNum r \<Rightarrow> 0 \<le> r \<and> r \<le> 100 | _ \<Rightarrow> False))
       ''justification score must be a number between 0 and 100, or null when unknown'') (\<lambda>_.
     bind_result (boundedString (jget value ''unknown'') ''justification.unknown'' False
       MAX_JUSTIFICATION_UNKNOWN_LENGTH) (\<lambda>unknown.
     bind_result (guard_result (scored \<or> unknown \<noteq> [])
       ''justification without a score requires an unknown reason'') (\<lambda>_.
     bind_result (guard_result (\<not> (scored \<and> unknown \<noteq> []))
       ''justification unknown must be empty when scored'') (\<lambda>_.
     bind_result (case jget value ''dimensions'' of
         JUndefined \<Rightarrow> Inr []
       | JArr xs \<Rightarrow> if length xs > MAX_DIMENSIONS then Inl ''justification dimensions must be a bounded array''
           else map_result (\<lambda>(i, e). justification_dimension i e) (enumerate 0 xs)
       | _ \<Rightarrow> Inl ''justification dimensions must be a bounded array'') (\<lambda>dimensions.
     bind_result (case jget value ''thresholds'' of
         JUndefined \<Rightarrow> Inr []
       | JObj fs \<Rightarrow> if length fs > MAX_THRESHOLDS then Inl ''justification thresholds must be bounded''
           else justification_thresholds fs []
       | _ \<Rightarrow> Inl ''justification.thresholds must be a plain object'') (\<lambda>thresholds.
       Inr (Some (JObj [(''version'', JStr JUSTIFICATION_VERSION), (''score'', if scored then s else JNull),
         (''unknown'', JStr unknown), (''dimensions'', JArr dimensions),
         (''thresholds'', JObj thresholds)])))))))))))"

section \<open>Refused fields\<close>

fun assertNoForbiddenFields :: "jsfields \<Rightarrow> type_error + unit" where
  "assertNoForbiddenFields [] = Inr ()"
| "assertNoForbiddenFields ((k, v) # fs) =
     (if k \<in> set FORBIDDEN_EVENT_KEYS then Inl (''forbidden trust evidence field: '' @ k)
      else if k \<notin> set ALLOWED_EVENT_FIELDS then Inl (''unknown trust evidence field: '' @ k)
      else assertNoForbiddenFields fs)"

fun assertSafeMetadata :: "jsval \<Rightarrow> string \<Rightarrow> nat \<Rightarrow> type_error + unit"
and safe_elems :: "jsval list \<Rightarrow> string \<Rightarrow> nat \<Rightarrow> nat \<Rightarrow> type_error + unit"
and safe_members :: "jsfields \<Rightarrow> string \<Rightarrow> nat \<Rightarrow> type_error + unit" where
  "assertSafeMetadata value path depth =
     (if depth > 4 then Inl (path @ '' exceeds nested depth'')
      else case value of
          JArr xs \<Rightarrow> if length xs > MAX_REFS then Inl (path @ '' exceeds bounded array length'')
            else safe_elems xs path 0 depth
        | JObj fs \<Rightarrow> safe_members fs path depth
        | _ \<Rightarrow> Inr ())"
| "safe_elems [] path i depth = Inr ()"
| "safe_elems (x # xs) path i depth =
     bind_result (assertSafeMetadata x (index_path path i) (Suc depth)) (\<lambda>_.
       safe_elems xs path (Suc i) depth)"
| "safe_members [] path depth = Inr ()"
| "safe_members ((k, v) # fs) path depth =
     (if k \<in> set FORBIDDEN_EVENT_KEYS then Inl (''forbidden trust evidence field: '' @ path @ ''.'' @ k)
      else bind_result (assertSafeMetadata v (path @ ''.'' @ k) (Suc depth)) (\<lambda>_.
        safe_members fs path depth))"

section \<open>The payload of an event\<close>

fun event_texts :: "jsval \<Rightarrow> string list \<Rightarrow> type_error + jsfields" where
  "event_texts event [] = Inr []"
| "event_texts event (k # ks) =
     bind_result (boundedString (jget event k) k False MAX_REFERENCE_LENGTH) (\<lambda>s.
     bind_result (event_texts event ks) (\<lambda>fs. Inr ((k, JStr s) # fs)))"

definition REFERENCE_FIELDS :: "string list" where
  "REFERENCE_FIELDS = [''identityRef'', ''identityHash'', ''authorityRef'', ''delegationRef'',
     ''policyVersion'', ''firewallVersion'', ''connectorRef'', ''resourceRef'', ''approvalRef'',
     ''executionOutcome'']"

definition event_metadata :: "js_env \<Rightarrow> jsval \<Rightarrow> type_error + jsval" where
  "event_metadata env event =
     bind_result (if jget event ''metadata'' = JUndefined then Inr (JObj [])
       else cloneJson (jget event ''metadata'') ''metadata'') (\<lambda>metadata.
     bind_result (guard_result (isPlainObject metadata) ''metadata must be a JSON object'') (\<lambda>_.
     bind_result (assertSafeMetadata metadata ''metadata'' 0) (\<lambda>_.
     bind_result (guard_result (stable_bytes env metadata \<le> MAX_METADATA_BYTES)
       ''metadata exceeds bounded size'') (\<lambda>_. Inr metadata))))"

definition event_digest :: "js_env \<Rightarrow> jsfields \<Rightarrow> string" where
  "event_digest env payload = sha256_hex env (the (stableStringify env
     (JObj (put_field ''eventId'' (JStr []) (put_field ''receiptId'' (JStr []) payload)))))"

definition buildTrustEvidencePayload :: "js_env \<Rightarrow> jsval \<Rightarrow> type_error + jsval" where
  "buildTrustEvidencePayload env event =
     bind_result (assertPlainObject event ''trust evidence event'') (\<lambda>_.
     bind_result (assertNoForbiddenFields (own_fields event)) (\<lambda>_.
     bind_result (boundedString (jget event ''workspaceId'') ''workspaceId'' True MAX_REFERENCE_LENGTH) (\<lambda>workspaceId.
     bind_result (boundedString (jget event ''operationId'') ''operationId'' True MAX_REFERENCE_LENGTH) (\<lambda>operationId.
     bind_result (boundedString (jget event ''decision'') ''decision'' True MAX_REFERENCE_LENGTH) (\<lambda>decision.
     bind_result (guard_result (decision \<in> set CANONICAL_VERDICTS)
       (''decision must be a canonical verdict: '' @ decision)) (\<lambda>_.
     bind_result (boundedString (jget event ''reason'') ''reason'' False MAX_REASON_LENGTH) (\<lambda>reason.
     bind_result (boundedString (jget event ''actionFingerprint'') ''actionFingerprint'' True MAX_REFERENCE_LENGTH) (\<lambda>actionFingerprint.
     bind_result (boundedString (jget event ''createdAt'') ''createdAt'' True MAX_REFERENCE_LENGTH) (\<lambda>createdAt.
     bind_result (normalizeJustification (jget event ''justification'')) (\<lambda>justification.
     bind_result (event_metadata env event) (\<lambda>metadata.
     bind_result (event_texts event REFERENCE_FIELDS) (\<lambda>references.
     bind_result (boundedRefs (jget event ''sourceRefs'') ''sourceRefs'') (\<lambda>sourceRefs.
     bind_result (boundedRefs (jget event ''provenanceRefs'') ''provenanceRefs'') (\<lambda>provenanceRefs.
       let payload =
           [(''schemaVersion'', JStr TRUST_EVIDENCE_SCHEMA_VERSION),
            (''receiptKind'', JStr TRUST_EVIDENCE_RECEIPT_KIND), (''receiptId'', JStr []),
            (''eventId'', JStr []), (''workspaceId'', JStr workspaceId),
            (''operationId'', JStr operationId), (''decision'', JStr decision),
            (''verdict'', JStr decision), (''reason'', JStr reason),
            (''actionFingerprint'', JStr actionFingerprint)]
           @ references
           @ [(''sourceRefs'', JArr (map JStr sourceRefs)),
            (''provenanceRefs'', JArr (map JStr provenanceRefs)), (''createdAt'', JStr createdAt)]
           @ (case justification of None \<Rightarrow> [] | Some j \<Rightarrow> [(''justification'', j)])
           @ [(''metadata'', metadata)];
         digest = event_digest env payload
       in Inr (JObj (put_field ''receiptId'' (JStr (''trust-receipt:'' @ digest))
            (put_field ''eventId'' (JStr (''trust-event:'' @ digest)) payload)))))))))))))))))"

section \<open>Verifying a stored receipt\<close>

record trust_verdict =
  tv_valid :: bool
  tv_reason :: "string option"
  tv_selfIntegrity :: bool
  tv_chainLinkage :: bool

definition trust_invalid :: "string \<Rightarrow> trust_verdict" where
  "trust_invalid r = \<lparr>tv_valid = False, tv_reason = Some r, tv_selfIntegrity = False, tv_chainLinkage = False\<rparr>"

fun chain_reason_text :: "chain_reason option \<Rightarrow> string" where
  "chain_reason_text (Some Genesis_mismatch) = ''genesis_mismatch''"
| "chain_reason_text (Some Content_tampered) = ''content_tampered''"
| "chain_reason_text (Some Chain_link_broken) = ''chain_link_broken''"
| "chain_reason_text (Some Missing_rule_identity) = ''missing_rule_identity''"
| "chain_reason_text (Some Rule_version_changed) = ''rule_version_changed''"
| "chain_reason_text None = []"

definition toChainRecord :: "receipt_row option \<Rightarrow> jsval option" where
  "toChainRecord stored = (case stored of
       None \<Rightarrow> None
     | Some row \<Rightarrow> if \<not> is_object (rr_canonicalPayload row) then None else Some (row_record row))"

text \<open>
  The record is validated as a chain of one: its own predecessor hash is given as the genesis, the
  very same reference, so the link always passes and only the content is tested.
\<close>

definition verifyTrustEvidenceReceipt ::
    "js_env \<Rightarrow> receipt_row option \<Rightarrow> jsval \<Rightarrow> chain_error + trust_verdict" where
  "verifyTrustEvidenceReceipt env stored expectedPrevious = (case toChainRecord stored of
       None \<Rightarrow> Inr (trust_invalid ''receipt_structure_invalid'')
     | Some record \<Rightarrow>
         if \<not> truthy (jget record ''receiptHash'') \<or> \<not> truthy (jget record ''previousReceiptHash'')
           then Inr (trust_invalid ''receipt_structure_invalid'')
         else if truthy expectedPrevious \<and> \<not> strict_eq expectedPrevious (jget record ''previousReceiptHash'')
           then Inr (trust_invalid ''chain_link_broken'')
         else bind_result (validateReceiptChain env (JArr [record]) (\<lambda>_. True) False) (\<lambda>self.
           if \<not> cv_valid self then Inr (trust_invalid (chain_reason_text (cv_reason self)))
           else Inr \<lparr>tv_valid = True, tv_reason = None, tv_selfIntegrity = True,
             tv_chainLinkage = truthy expectedPrevious
               \<or> jget record ''previousReceiptHash'' = GENESIS_PREVIOUS_HASH\<rparr>))"

section \<open>The ledger over the journal\<close>

datatype ledger_error =
    Event_error type_error
  | Journal_error journal_error
  | Chain_error chain_error
  | Verification_failed string

record 'r ledger_entry =
  le_replayed :: bool
  le_result :: 'r
  le_receipt :: "receipt_row option"
  le_verification :: trust_verdict

text \<open>The readings of the clock during one run, and the fate of its commit.\<close>

record run_conditions =
  rc_receiptAt :: string
  rc_committedAt :: string
  rc_fate :: commit_fate

definition ledger_request ::
    "string \<Rightarrow> ('g \<Rightarrow> string + ('r \<times> 'g)) \<Rightarrow> jsval \<Rightarrow> run_conditions \<Rightarrow> ('g, 'r) mutation_request" where
  "ledger_request operationId mutate payload rc = \<lparr>mr_operationId = operationId, mr_mutate = mutate,
     mr_buildCanonicalReceipt = Some (\<lambda>_. Inr payload), mr_receiptAt = rc_receiptAt rc,
     mr_committedAt = rc_committedAt rc, mr_fate = rc_fate rc\<rparr>"

definition ledger_append ::
    "js_env \<Rightarrow> receipt_deps \<Rightarrow> string \<Rightarrow> jsval \<Rightarrow> ('g \<Rightarrow> string + ('r \<times> 'g)) \<Rightarrow> run_conditions
       \<Rightarrow> ('g, 'r) graph_state \<Rightarrow> (ledger_error + 'r ledger_entry) \<times> ('g, 'r) graph_state" where
  "ledger_append env deps operationId event mutate rc s =
     (case buildTrustEvidencePayload env
         (JObj (put_field ''operationId'' (JStr operationId) (own_fields event))) of
        Inl e \<Rightarrow> (Inl (Event_error e), s)
      | Inr payload \<Rightarrow>
          (case runMutationOnce env deps (ledger_request operationId mutate payload rc) s of
             (Inl e, s') \<Rightarrow> (Inl (Journal_error e), s')
           | (Inr result, s') \<Rightarrow>
               (case verifyTrustEvidenceReceipt env (oc_receipt result) JUndefined of
                  Inl e \<Rightarrow> (Inl (Chain_error e), s')
                | Inr verified \<Rightarrow>
                    if \<not> tv_valid verified
                      then (Inl (Verification_failed (case tv_reason verified of Some r \<Rightarrow> r | None \<Rightarrow> [])), s')
                    else (Inr \<lparr>le_replayed = oc_replayed result, le_result = oc_result result,
                       le_receipt = oc_receipt result, le_verification = verified\<rparr>, s'))))"

definition ledger_read ::
    "js_env \<Rightarrow> receipt_row option \<Rightarrow> chain_error + (receipt_row \<times> trust_verdict) option" where
  "ledger_read env receipt = (case receipt of
       None \<Rightarrow> Inr None
     | Some row \<Rightarrow> bind_result (verifyTrustEvidenceReceipt env (Some row) JUndefined) (\<lambda>v. Inr (Some (row, v))))"

definition readByOperation :: "js_env \<Rightarrow> journal_error + 'r journal \<Rightarrow> string
    \<Rightarrow> ledger_error + (receipt_row \<times> trust_verdict) option" where
  "readByOperation env store operationId = (case store of
       Inl e \<Rightarrow> Inl (Journal_error e)
     | Inr j \<Rightarrow> (case ledger_read env (readMutationReceiptFromJsonJournal j operationId) of
           Inl e \<Rightarrow> Inl (Chain_error e) | Inr r \<Rightarrow> Inr r))"

definition readByReceiptId :: "js_env \<Rightarrow> journal_error + 'r journal \<Rightarrow> string
    \<Rightarrow> ledger_error + (receipt_row \<times> trust_verdict) option" where
  "readByReceiptId env store receiptId = (case getCommittedMutationReceiptById store receiptId of
       Inl e \<Rightarrow> Inl (Journal_error e)
     | Inr receipt \<Rightarrow> (case ledger_read env receipt of
           Inl e \<Rightarrow> Inl (Chain_error e) | Inr r \<Rightarrow> Inr r))"

end
