(* ===== verification/Example_Env.thy ===== *)
theory Example_Env
  imports Json_Injective
begin

text \<open>
  A concrete environment, used where a property is applied to an example.  The digest of a text
  spells its length, padded to 64 hexadecimal digits: on texts of different lengths it has no
  collision, which is all an example needs of a hash function.  Dates are read as plain numbers.
\<close>

definition example_digest :: "string \<Rightarrow> string" where
  "example_digest s = (let n = show_nat (length s) in
     if 64 < length n then replicate 64 CHR ''b'' else replicate (64 - length n) CHR ''a'' @ n)"

fun example_date :: "string \<Rightarrow> int option" where
  "example_date s = (if s \<noteq> [] \<and> list_all is_digit s then Some (int (read_nat s)) else None)"

definition example_env :: js_env where
  "example_env = \<lparr>date_parse = example_date, iso_at = show_int,
     locale_compare = (\<lambda>s t. if s = t then 0 else if s < t then - 1 else 1),
     number_of_string = (\<lambda>_. None), string_of_fraction = (\<lambda>_. []), sha256_hex = example_digest\<rparr>"

lemma example_digest_text:
  "length (example_digest s) = 64" "list_all (\<lambda>c. is_digit c \<or> c \<in> set ''ab'') (example_digest s)"
  using show_nat_digits [of "length s"]
  by (auto simp: example_digest_def Let_def list_all_iff)

lemma example_digest_dropWhile:
  assumes "length (show_nat (length s)) \<le> 64"
  shows "dropWhile (\<lambda>c. c = CHR ''a'') (example_digest s) = show_nat (length s)"
proof -
  have "is_digit (hd (show_nat (length s)))"
    using show_nat_digits [of "length s"] show_nat_nonempty [of "length s"]
    by (cases "show_nat (length s)") auto
  then have "hd (show_nat (length s)) \<noteq> CHR ''a''" by (auto simp: is_digit_def)
  then have "dropWhile (\<lambda>c. c = CHR ''a'') (show_nat (length s)) = show_nat (length s)"
    by (intro dropWhile_id) simp
  moreover have "dropWhile P (replicate k x @ xs) = dropWhile P xs" if "P x" for P x k and xs :: string
    using that by (induction k) auto
  ultimately show ?thesis using assms by (simp add: example_digest_def Let_def)
qed

lemma example_digest_inj:
  assumes "inj_on length T" and "\<And>s. s \<in> T \<Longrightarrow> length (show_nat (length s)) \<le> 64"
  shows "inj_on (sha256_hex example_env) T"
proof (rule inj_onI)
  fix s t assume st: "s \<in> T" "t \<in> T" "sha256_hex example_env s = sha256_hex example_env t"
  then have "show_nat (length s) = show_nat (length t)"
    using example_digest_dropWhile [OF assms(2)] by (simp add: example_env_def) metis
  then have "length s = length t" by (metis read_show_nat)
  with assms(1) st show "s = t" by (auto dest: inj_onD)
qed

lemma show_nat_small: "n < 10000 \<Longrightarrow> length (show_nat n) \<le> 4"
  by (subst show_nat.simps, simp, subst show_nat.simps, simp, subst show_nat.simps, simp,
      subst show_nat.simps, simp)

lemma example_inj_small:
  assumes "inj_on length T" and "\<And>s. s \<in> T \<Longrightarrow> length s < 10000"
  shows "inj_on (sha256_hex example_env) T"
  using assms(2) show_nat_small by (intro example_digest_inj [OF assms(1)]) force

end
