(* ===== verification/Trust_Ledger_Facts.thy ===== *)
theory Trust_Ledger_Facts
  imports Trust_Ledger Example_Env
begin

text \<open>
  What the ledger guarantees: no forbidden key reaches a stored payload at any depth, the receipts
  it appends verify and extend the chain of their workspace, an operation id is recorded once, and
  a stored row verifies exactly when its hash is the hash of its content.
\<close>

section \<open>What reaches a payload\<close>

fun clean_at :: "nat \<Rightarrow> jsval \<Rightarrow> bool" where
  "clean_at d (JObj fs) = (d \<le> 4
     \<and> list_all (\<lambda>p. fst p \<notin> set FORBIDDEN_EVENT_KEYS \<and> clean_at (Suc d) (snd p)) fs)"
| "clean_at d (JArr xs) = (d \<le> 4 \<and> length xs \<le> MAX_REFS \<and> list_all (clean_at (Suc d)) xs)"
| "clean_at d _ = (d \<le> 4)"

lemma safe_metadata_clean:
  "assertSafeMetadata v path depth = Inr u \<Longrightarrow> clean_at depth v"
  "safe_elems xs path i depth = Inr u \<Longrightarrow> list_all (clean_at (Suc depth)) xs"
  "safe_members fs path depth = Inr u \<Longrightarrow>
     list_all (\<lambda>p. fst p \<notin> set FORBIDDEN_EVENT_KEYS \<and> clean_at (Suc depth) (snd p)) fs"
proof (induction v path depth and xs path i depth and fs path depth
    arbitrary: u and u and u rule: assertSafeMetadata_safe_elems_safe_members.induct)
  case (1 v path depth)
  then show ?case by (cases v) (auto split: if_splits)
qed (auto split: if_splits)

declare assertSafeMetadata.simps [simp del]

lemma event_metadata_clean:
  "event_metadata env event = Inr m \<Longrightarrow>
     isPlainObject m \<and> clean_at 0 m \<and> stable_bytes env m \<le> MAX_METADATA_BYTES"
  by (auto simp: event_metadata_def dest: safe_metadata_clean split: if_splits)

lemma event_texts_keys: "event_texts event ks = Inr fs \<Longrightarrow> map fst fs = ks"
  by (induction ks arbitrary: fs) auto

lemma boundedString_bounded:
  "boundedString v fld required mx = Inr s \<Longrightarrow> length s \<le> mx \<and> (required \<longrightarrow> s \<noteq> [])"
  by (auto simp: boundedString_def Let_def split: jsval.splits if_splits)

text \<open>The shape of every payload the ledger builds.\<close>

lemma payload_shape:
  assumes "buildTrustEvidencePayload env event = Inr p"
  obtains refs just meta w opid v r fp ts sr pr dg where
    "p = JObj ([(''schemaVersion'', JStr TRUST_EVIDENCE_SCHEMA_VERSION),
            (''receiptKind'', JStr TRUST_EVIDENCE_RECEIPT_KIND),
            (''receiptId'', JStr (''trust-receipt:'' @ dg)), (''eventId'', JStr (''trust-event:'' @ dg)),
            (''workspaceId'', JStr w), (''operationId'', JStr opid), (''decision'', JStr v),
            (''verdict'', JStr v), (''reason'', JStr r), (''actionFingerprint'', JStr fp)] @ refs
           @ [(''sourceRefs'', JArr (map JStr sr)), (''provenanceRefs'', JArr (map JStr pr)),
            (''createdAt'', JStr ts)]
           @ (case just of None \<Rightarrow> [] | Some j \<Rightarrow> [(''justification'', j)]) @ [(''metadata'', meta)])"
    and "map fst refs = REFERENCE_FIELDS" and "event_metadata env event = Inr meta"
    and "w \<noteq> []" and "length w \<le> MAX_REFERENCE_LENGTH" and "v \<in> set CANONICAL_VERDICTS"
    and "length r \<le> MAX_REASON_LENGTH"
    and "boundedString (jget event ''operationId'') ''operationId'' True MAX_REFERENCE_LENGTH = Inr opid"
proof -
  from assms obtain w opid v r fp ts just meta refs sr pr where
    parts: "event_texts event REFERENCE_FIELDS = Inr refs" "event_metadata env event = Inr meta"
      "boundedString (jget event ''workspaceId'') ''workspaceId'' True MAX_REFERENCE_LENGTH = Inr w"
      "boundedString (jget event ''operationId'') ''operationId'' True MAX_REFERENCE_LENGTH = Inr opid"
      "boundedString (jget event ''reason'') ''reason'' False MAX_REASON_LENGTH = Inr r"
      "v \<in> set CANONICAL_VERDICTS"
    and p: "\<exists>dg. p = JObj ([(''schemaVersion'', JStr TRUST_EVIDENCE_SCHEMA_VERSION),
            (''receiptKind'', JStr TRUST_EVIDENCE_RECEIPT_KIND),
            (''receiptId'', JStr (''trust-receipt:'' @ dg)), (''eventId'', JStr (''trust-event:'' @ dg)),
            (''workspaceId'', JStr w), (''operationId'', JStr opid), (''decision'', JStr v),
            (''verdict'', JStr v), (''reason'', JStr r), (''actionFingerprint'', JStr fp)] @ refs
           @ [(''sourceRefs'', JArr (map JStr sr)), (''provenanceRefs'', JArr (map JStr pr)),
            (''createdAt'', JStr ts)]
           @ (case just of None \<Rightarrow> [] | Some j \<Rightarrow> [(''justification'', j)]) @ [(''metadata'', meta)])"
    by (auto simp: buildTrustEvidencePayload_def Let_def)
  from p obtain dg where "p = JObj ([(''schemaVersion'', JStr TRUST_EVIDENCE_SCHEMA_VERSION),
            (''receiptKind'', JStr TRUST_EVIDENCE_RECEIPT_KIND),
            (''receiptId'', JStr (''trust-receipt:'' @ dg)), (''eventId'', JStr (''trust-event:'' @ dg)),
            (''workspaceId'', JStr w), (''operationId'', JStr opid), (''decision'', JStr v),
            (''verdict'', JStr v), (''reason'', JStr r), (''actionFingerprint'', JStr fp)] @ refs
           @ [(''sourceRefs'', JArr (map JStr sr)), (''provenanceRefs'', JArr (map JStr pr)),
            (''createdAt'', JStr ts)]
           @ (case just of None \<Rightarrow> [] | Some j \<Rightarrow> [(''justification'', j)]) @ [(''metadata'', meta)])" ..
  from that [OF this event_texts_keys [OF parts(1)] parts(2) _ _ parts(6) _ parts(4)]
    boundedString_bounded [OF parts(3)] boundedString_bounded [OF parts(5)]
  show thesis by simp
qed

lemma payload_payload_ok: "buildTrustEvidencePayload env event = Inr p \<Longrightarrow> payload_ok p"
proof (rule payload_shape)
  fix refs just meta w opid v r fp ts sr pr dg
  assume p: "p = JObj ([(''schemaVersion'', JStr TRUST_EVIDENCE_SCHEMA_VERSION),
            (''receiptKind'', JStr TRUST_EVIDENCE_RECEIPT_KIND),
            (''receiptId'', JStr (''trust-receipt:'' @ dg)), (''eventId'', JStr (''trust-event:'' @ dg)),
            (''workspaceId'', JStr w), (''operationId'', JStr opid), (''decision'', JStr v),
            (''verdict'', JStr v), (''reason'', JStr r), (''actionFingerprint'', JStr fp)] @ refs
           @ [(''sourceRefs'', JArr (map JStr sr)), (''provenanceRefs'', JArr (map JStr pr)),
            (''createdAt'', JStr ts)]
           @ (case just of None \<Rightarrow> [] | Some j \<Rightarrow> [(''justification'', j)]) @ [(''metadata'', meta)])"
    and r: "map fst refs = REFERENCE_FIELDS"
  from r have "fst ` set refs = set REFERENCE_FIELDS" by (metis set_map)
  then have "''receiptHash'' \<notin> fst ` set refs" by (simp add: REFERENCE_FIELDS_def)
  then show "payload_ok p"
    by (auto simp: payload_ok_def p split: option.splits)
qed

lemma field_append: "k \<notin> fst ` set xs \<Longrightarrow> field (xs @ ys) k = field ys k"
  by (induction xs) auto

lemma payload_metadata:
  assumes "buildTrustEvidencePayload env event = Inr p"
  shows "event_metadata env event = Inr (jget p ''metadata'')"
  using assms
proof (rule payload_shape)
  fix refs just meta w opid v r fp ts sr pr dg
  assume p: "p = JObj ([(''schemaVersion'', JStr TRUST_EVIDENCE_SCHEMA_VERSION),
            (''receiptKind'', JStr TRUST_EVIDENCE_RECEIPT_KIND),
            (''receiptId'', JStr (''trust-receipt:'' @ dg)), (''eventId'', JStr (''trust-event:'' @ dg)),
            (''workspaceId'', JStr w), (''operationId'', JStr opid), (''decision'', JStr v),
            (''verdict'', JStr v), (''reason'', JStr r), (''actionFingerprint'', JStr fp)] @ refs
           @ [(''sourceRefs'', JArr (map JStr sr)), (''provenanceRefs'', JArr (map JStr pr)),
            (''createdAt'', JStr ts)]
           @ (case just of None \<Rightarrow> [] | Some j \<Rightarrow> [(''justification'', j)]) @ [(''metadata'', meta)])"
    and r: "map fst refs = REFERENCE_FIELDS" and m: "event_metadata env event = Inr meta"
  from r have "fst ` set refs = set REFERENCE_FIELDS" by (metis set_map)
  then have "''metadata'' \<notin> fst ` set refs" by (simp add: REFERENCE_FIELDS_def)
  with m show "event_metadata env event = Inr (jget p ''metadata'')"
    by (auto simp: p field_append split: option.splits)
qed

lemma payload_verdict:
  "buildTrustEvidencePayload env event = Inr p \<Longrightarrow>
     \<exists>v. jget p ''verdict'' = JStr v \<and> v \<in> set CANONICAL_VERDICTS"
  by (erule payload_shape) simp

section \<open>Verification\<close>

lemma verify_single:
  "(\<exists>v. verifyTrustEvidenceReceipt env (Some row) JUndefined = Inr v \<and> tv_valid v)
     \<longleftrightarrow> is_object (rr_canonicalPayload row) \<and> truthy (receipt_hash (row_record row))
       \<and> truthy (previous_hash (row_record row))
       \<and> receipt_hash (row_record row)
         = JStr (sha256_hex env (the (stableStringify env (withoutHash (row_record row)))))"
proof -
  have o: "is_object (row_record row)" by (simp add: row_record_def)
  show ?thesis
    using o by (auto simp: verifyTrustEvidenceReceipt_def toChainRecord_def trust_invalid_def
        validateReceiptChain_def validateChain_def hashCanonicalPayload_object strict_eq_def
        split: if_splits)
qed

lemma ledger_append_cases:
  assumes "ledger_append env deps i event m rc s = (Inr e, s')"
  obtains payload result where
    "buildTrustEvidencePayload env (JObj (put_field ''operationId'' (JStr i) (own_fields event))) = Inr payload"
    and "runMutationOnce env deps (ledger_request i m payload rc) s = (Inr result, s')"
    and "le_replayed e = oc_replayed result" and "le_result e = oc_result result"
    and "le_receipt e = oc_receipt result"
    and "verifyTrustEvidenceReceipt env (le_receipt e) JUndefined = Inr (le_verification e)"
    and "tv_valid (le_verification e)"
  using assms that by (auto simp: ledger_append_def split: sum.splits prod.splits if_splits)

lemma verify_None [simp]:
  "verifyTrustEvidenceReceipt env None x = Inr (trust_invalid ''receipt_structure_invalid'')"
  by (simp add: verifyTrustEvidenceReceipt_def toChainRecord_def)

section \<open>Appending\<close>

lemma write_receipt_row:
  assumes "write_receipt env deps i p c j = Inr j'"
  shows "\<exists>row. map_of (j_receipts j') i = Some row \<and> rr_canonicalPayload row = p"
  using assms by (auto simp: write_receipt_def Let_def split: if_splits)

lemma ledger_append_fresh:
  assumes run: "ledger_append env deps i event m rc s = (Inr e, s')" and fresh: "\<not> le_replayed e"
  obtains payload row j where
    "buildTrustEvidencePayload env (JObj (put_field ''operationId'' (JStr i) (own_fields event))) = Inr payload"
    and "le_receipt e = Some row" and "rr_canonicalPayload row = payload"
    and "gs_journal s' = Inr j" and "readMutationReceiptFromJsonJournal j (trim i) = Some row"
    and "committed_row s' (trim i) \<noteq> None" and "committed_row s (trim i) = None"
proof -
  from run obtain payload result where
    p: "buildTrustEvidencePayload env (JObj (put_field ''operationId'' (JStr i) (own_fields event))) = Inr payload"
    and r: "runMutationOnce env deps (ledger_request i m payload rc) s = (Inr result, s')"
    and eq: "le_replayed e = oc_replayed result" "le_receipt e = oc_receipt result"
    by (rule ledger_append_cases)
  have "isPlainObject payload" using p by (rule payload_shape) simp
  then have nn: "\<not> is_nullish payload" by (cases payload) auto
  from r fresh eq obtain j j' receipt res g where
    c: "gs_journal s = Inr j" "completed j (trim i) = None"
      "receipt_of_result env deps (ledger_request i m payload rc) (trim i) res j = Inr (j', receipt)"
      "oc_receipt result = receipt"
      "s' = s\<lparr>gs_graph := g, gs_journal := Inr (record_operation (trim i) res receipt (rc_committedAt rc) j')\<rparr>"
    by (auto simp: runMutationOnce_def runMutationOnceJsonLocked_def ledger_request_def replay_result_def Let_def
        split: if_splits sum.splits option.splits commit_fate.splits)
  from c(3) nn have w: "write_receipt env deps (trim i) payload (rc_receiptAt rc) j = Inr j'"
    and rc: "receipt = readMutationReceiptFromJsonJournal j' (trim i)"
    by (auto simp: receipt_of_result_def ledger_request_def)
  from write_receipt_row [OF w] obtain row where
    row: "map_of (j_receipts j') (trim i) = Some row" "rr_canonicalPayload row = payload" by auto
  show thesis
  proof (rule that [OF p _ row(2)])
    show "le_receipt e = Some row"
      using eq(2) c(4) rc row(1) by (simp add: readMutationReceiptFromJsonJournal_def)
    show "gs_journal s' = Inr (record_operation (trim i) res receipt (rc_committedAt rc) j')"
      by (simp add: c(5))
    show "readMutationReceiptFromJsonJournal (record_operation (trim i) res receipt (rc_committedAt rc) j') (trim i)
        = Some row"
      using row(1) by (simp add: readMutationReceiptFromJsonJournal_def record_operation_def)
    show "committed_row s' (trim i) \<noteq> None"
      by (simp add: committed_row_def c(5) completed_record_operation)
    show "committed_row s (trim i) = None" using c(1,2) by (simp add: committed_row_def)
  qed
qed

lemma ledger_append_state:
  assumes "ledger_append env deps i event m rc s = (r, s')"
  shows "s' = s \<or> (\<exists>payload. payload_ok payload
    \<and> s' = journal_step env deps (ledger_request i m payload rc) s)"
  using assms payload_payload_ok
  by (auto simp: ledger_append_def journal_step_def split: sum.splits prod.splits if_splits)
    (metis payload_payload_ok snd_conv)+

lemma ledger_append_chained:
  assumes "ledger_append env deps i event m rc s = (r, s')" and "digest_text_ok env"
    and "gs_journal s = Inr j" and "journal_chained env j"
  shows "\<exists>j'. gs_journal s' = Inr j' \<and> journal_chained env j'"
  using ledger_append_state [OF assms(1)] assms run_once_chained [of s j env]
  by (auto simp: builds_ok_def ledger_request_def)

section \<open>A healthy store records\<close>

text \<open>Nothing stands in the way of recording under an operation id: no row, no receipt chain yet.\<close>

definition healthy :: "receipt_deps \<Rightarrow> string \<Rightarrow> ('g, 'r) graph_state \<Rightarrow> bool" where
  "healthy deps i s = (gs_writable s \<and> trim i \<noteq> [] \<and> rd_seal deps = None
     \<and> (case gs_journal s of Inl e \<Rightarrow> False
        | Inr j \<Rightarrow> completed j (trim i) = None \<and> j_chainTips j = []))"

lemma payload_fields:
  assumes "buildTrustEvidencePayload env event = Inr p"
  shows "\<exists>fs. p = JObj fs" and "truthy (jget p ''receiptId'')" and "truthy (jget p ''workspaceId'')"
    and "classifyReceiptFamily p = ''non-v4''"
proof -
  have "(\<exists>fs. p = JObj fs) \<and> truthy (jget p ''receiptId'') \<and> truthy (jget p ''workspaceId'')
      \<and> classifyReceiptFamily p = ''non-v4''"
    using assms by (rule payload_shape)
      (simp add: classifyReceiptFamily_def isV4CanonicalReceipt_def TRUST_EVIDENCE_SCHEMA_VERSION_def
        starts_with_def)
  then show "\<exists>fs. p = JObj fs" and "truthy (jget p ''receiptId'')" and "truthy (jget p ''workspaceId'')"
    and "classifyReceiptFamily p = ''non-v4''" by auto
qed

lemma ledger_append_succeeds:
  assumes p: "buildTrustEvidencePayload env (JObj (put_field ''operationId'' (JStr i) (own_fields event))) = Inr payload"
    and h: "healthy deps i s" and m: "m (gs_graph s) = Inr (r, g)" and f: "rc_fate rc = Commit_done"
    and dg: "digest_text_ok env"
  shows "\<exists>e s'. ledger_append env deps i event m rc s = (Inr e, s') \<and> \<not> le_replayed e \<and> le_result e = r"
proof -
  from h obtain j where j: "gs_journal s = Inr j" "completed j (trim i) = None" "j_chainTips j = []"
    and w: "gs_writable s" "trim i \<noteq> []" "rd_seal deps = None"
    by (auto simp: healthy_def split: sum.splits)
  from payload_fields(1) [OF p] obtain fs where fs: "payload = JObj fs" by blast
  let ?prev = "GENESIS_PREVIOUS_HASH"
  obtain chained where c: "appendToChain env True payload ?prev = Inr chained"
    by (auto simp: fs appendToChain_def Let_def hashCanonicalPayload_object GENESIS_PREVIOUS_HASH_def)
  then have app: "appendReceiptToChain env payload JNull = Inr chained"
    by (simp add: appendReceiptToChain_def fs or_else_def)
  let ?row = "\<lparr>rr_operationId = trim i, rr_receiptId = jget chained ''receiptId'',
      rr_workspaceId = jget payload ''workspaceId'', rr_family = classifyReceiptFamily payload,
      rr_canonicalPayload = payload, rr_previousReceiptHash = previous_hash chained,
      rr_receiptHash = receipt_hash chained, rr_committedAt = rc_receiptAt rc\<rparr>"
  have "\<exists>j'. write_receipt env deps (trim i) payload (rc_receiptAt rc) j = Inr j'
      \<and> map_of (j_receipts j') (trim i) = Some ?row"
    using payload_fields [OF p] app w(3)
    by (simp add: write_receipt_def fs assertDurableV4WriteAllowed_def assertChainTipUsable_def j
        sealChainedReceipt_def Let_def)
  then obtain j' where j': "write_receipt env deps (trim i) payload (rc_receiptAt rc) j = Inr j'"
    "map_of (j_receipts j') (trim i) = Some ?row" by blast
  have run: "runMutationOnce env deps (ledger_request i m payload rc) s =
      (Inr \<lparr>oc_replayed = False, oc_result = r, oc_receipt = Some ?row\<rparr>,
       s\<lparr>gs_graph := g, gs_journal := Inr (record_operation (trim i) r (Some ?row) (rc_committedAt rc) j')\<rparr>)"
    using w j m f j' fs
    by (simp add: run_once_defs ledger_request_def receipt_of_result_def readMutationReceiptFromJsonJournal_def)
  have ok: "record_ok env chained \<and> previous_hash chained = ?prev"
    using append_record_ok [of env fs "''genesis:v4-receipt-chain''" chained] c payload_payload_ok [OF p] dg
    by (simp add: fs GENESIS_PREVIOUS_HASH_def payload_ok_def)
  have "row_record ?row = chained"
    using append_JObj(1) [of env fs JNull chained] app by (simp add: row_record_def fs)
  with ok have "\<exists>v. verifyTrustEvidenceReceipt env (Some ?row) JUndefined = Inr v \<and> tv_valid v"
    using dg
    by (subst verify_single) (simp add: record_ok_def fs digest_text_ok_def GENESIS_PREVIOUS_HASH_def)
  then obtain v where v: "verifyTrustEvidenceReceipt env (Some ?row) JUndefined = Inr v" "tv_valid v" by blast
  then show ?thesis by (simp add: ledger_append_def p run)
qed
end
