(* ===== verification/Oversight_Types.thy ===== *)
theory Oversight_Types
  imports Trust_Ledger_Facts
begin

text \<open>
  The values of the human oversight runtime:
  \<open>src/lib/human-oversight-approval-runtime-primitives-values.js\<close> (limits, statuses, bounded text),
  \<open>...-primitives-normalize.js\<close> (the identity, action and policy a case opens with) and
  \<open>...-primitives.js\<close> (operation ids, the ledger event).  Reasons, statuses and kinds are
  datatypes; requests stay JavaScript values until they are normalized.
\<close>

section \<open>Vocabulary\<close>

datatype decision_type = Approve | Reject | Expire | Cancel | Escalate | Override

datatype case_status =
    Pending | Escalated | Approved | Executing | Rejected | Expired | Cancelled | Blocked | Executed
  | Reconciliation_required

datatype execution_outcome = Not_attempted | Dry_run_only | Succeeded | Failed | Unknown

datatype firewall_decision = FW_allow | FW_review | FW_dry_run_only | FW_block

datatype runtime_reason =
    DURABILITY_UNAVAILABLE | CASE_NOT_FOUND | CASE_IMMUTABLE_MISMATCH | MALFORMED_CASE
  | MALFORMED_DECISION | DECISION_REASON_REQUIRED | APPROVER_IDENTITY_REQUIRED
  | REQUESTER_IDENTITY_REQUIRED | IDENTITY_REJECTED | SELF_APPROVAL_REJECTED | SCOPE_MISMATCH
  | POLICY_MISMATCH | FIREWALL_MISMATCH | ACTION_MISMATCH | CASE_EXPIRED | CASE_NOT_PENDING
  | DUPLICATE_OR_AMBIGUOUS_DECISION | OVERRIDE_NOT_AUTHORIZED | BLOCKED_BY_FIREWALL
  | DRY_RUN_EXECUTOR_BLOCKED | APPROVAL_REQUIRED | EXECUTION_RECORDED_AS_UNKNOWN
  | EXECUTION_RECONCILIATION_REQUIRED | EXECUTION_ALREADY_RESERVED | ARGS_DIGEST_MISMATCH
  | APPROVAL_ALREADY_CONSUMED | RESOLVER_FAILED | FIREWALL_EVALUATION_FAILED
  | APPROVAL_COOLDOWN_ACTIVE | QUORUM_DISTINCT_APPROVER_REQUIRED

text \<open>A refusal is the frozen \<open>fail(reason)\<close> of the code; \<open>Threw\<close> is an error the caller sees.\<close>

datatype refusal = Fail runtime_reason | Threw string

fun decision_type_name :: "decision_type \<Rightarrow> string" where
  "decision_type_name Approve = ''approve''"
| "decision_type_name Reject = ''reject''"
| "decision_type_name Expire = ''expire''"
| "decision_type_name Cancel = ''cancel''"
| "decision_type_name Escalate = ''escalate''"
| "decision_type_name Override = ''override''"

definition DECISION_TYPES :: "decision_type list" where
  "DECISION_TYPES = [Approve, Reject, Expire, Cancel, Escalate, Override]"

definition decision_type_of :: "string \<Rightarrow> decision_type option" where
  "decision_type_of s = find (\<lambda>t. decision_type_name t = s) DECISION_TYPES"

fun outcome_name :: "execution_outcome \<Rightarrow> string" where
  "outcome_name Not_attempted = ''not_attempted''"
| "outcome_name Dry_run_only = ''dry_run_only''"
| "outcome_name Succeeded = ''succeeded''"
| "outcome_name Failed = ''failed''"
| "outcome_name Unknown = ''unknown''"

definition EXECUTION_OUTCOMES :: "execution_outcome list" where
  "EXECUTION_OUTCOMES = [Not_attempted, Dry_run_only, Succeeded, Failed, Unknown]"

definition outcome_of :: "jsval \<Rightarrow> execution_outcome option" where
  "outcome_of v = (case v of JStr s \<Rightarrow> find (\<lambda>o'. outcome_name o' = s) EXECUTION_OUTCOMES | _ \<Rightarrow> None)"

fun firewall_name :: "firewall_decision \<Rightarrow> string" where
  "firewall_name FW_allow = ''allow''"
| "firewall_name FW_review = ''review''"
| "firewall_name FW_dry_run_only = ''dry_run_only''"
| "firewall_name FW_block = ''block''"

definition firewall_of :: "string \<Rightarrow> firewall_decision option" where
  "firewall_of s = find (\<lambda>d. firewall_name d = s) [FW_allow, FW_review, FW_dry_run_only, FW_block]"

definition MAX_TEXT :: nat where "MAX_TEXT = 512"
definition MAX_REASON :: nat where "MAX_REASON = 1024"
definition MAX_HISTORY :: nat where "MAX_HISTORY = 128"
definition DEFAULT_CASE_LIFETIME_MS :: int where "DEFAULT_CASE_LIFETIME_MS = 15 * 60 * 1000"
definition MAX_CASE_LIFETIME_MS :: int where "MAX_CASE_LIFETIME_MS = 24 * 60 * 60 * 1000"

section \<open>Bounded text and metadata\<close>

definition boundedText :: "jsval \<Rightarrow> string \<Rightarrow> bool \<Rightarrow> nat \<Rightarrow> type_error + string" where
  "boundedText v fld required mx =
     (if is_nullish v then (if required then Inl (fld @ '' is required'') else Inr [])
      else case v of
          JStr s \<Rightarrow> let normalized = trim s in
            if required \<and> normalized = [] then Inl (fld @ '' is required'')
            else if length normalized > mx then Inl (fld @ '' exceeds bounded length'')
            else Inr normalized
        | _ \<Rightarrow> Inl (fld @ '' must be a string''))"

definition caseRefs :: "jsval \<Rightarrow> string \<Rightarrow> type_error + string list" where
  "caseRefs v fld =
     (if is_nullish v then Inr []
      else case v of
          JArr xs \<Rightarrow> if length xs > MAX_REFS then Inl (fld @ '' must be a bounded array'')
            else map_result (\<lambda>(i, x). boundedText x (index_path fld i) False MAX_TEXT) (enumerate 0 xs)
        | _ \<Rightarrow> Inl (fld @ '' must be a bounded array''))"

text \<open>\<open>/private.?key/\<close>: the dot matches any character but a line terminator.\<close>

fun private_key_at :: "string \<Rightarrow> bool" where
  "private_key_at s = (starts_with s ''private'' \<and> (let r = drop 7 s in
     starts_with r ''key'' \<or> (case r of c # r' \<Rightarrow> c \<noteq> CHR 0x0A \<and> c \<noteq> CHR 0x0D \<and> starts_with r' ''key'' | [] \<Rightarrow> False)))"

fun has_private_key :: "string \<Rightarrow> bool" where
  "has_private_key [] = False"
| "has_private_key (c # s) = (private_key_at (c # s) \<or> has_private_key s)"

definition forbidden_metadata_key :: "string \<Rightarrow> bool" where
  "forbidden_metadata_key k = (let l = to_lower k in
     list_ex (contains l) [''prompt'', ''input'', ''content'', ''token'', ''secret'', ''credential'',
       ''password''] \<or> has_private_key l)"

fun visit_metadata :: "jsval \<Rightarrow> nat \<Rightarrow> string \<Rightarrow> type_error + unit"
and visit_elems :: "jsval list \<Rightarrow> nat \<Rightarrow> nat \<Rightarrow> string \<Rightarrow> type_error + unit"
and visit_members :: "jsfields \<Rightarrow> nat \<Rightarrow> string \<Rightarrow> type_error + unit" where
  "visit_metadata node depth path =
     (if depth > 4 then Inl (path @ '' exceeds nested depth'')
      else case node of
          JArr xs \<Rightarrow> if length xs > MAX_REFS then Inl (path @ '' exceeds bounded array length'')
            else visit_elems xs 0 depth path
        | JObj fs \<Rightarrow> visit_members fs depth path
        | _ \<Rightarrow> Inr ())"
| "visit_elems [] i depth path = Inr ()"
| "visit_elems (x # xs) i depth path =
     bind_result (visit_metadata x (Suc depth) (index_path path i)) (\<lambda>_.
       visit_elems xs (Suc i) depth path)"
| "visit_members [] depth path = Inr ()"
| "visit_members ((k, v) # fs) depth path =
     (if forbidden_metadata_key k then Inl (''forbidden metadata field: '' @ path @ ''.'' @ k)
      else bind_result (visit_metadata v (Suc depth) (path @ ''.'' @ k)) (\<lambda>_.
        visit_members fs depth path))"

definition safeMetadata :: "js_env \<Rightarrow> jsval \<Rightarrow> type_error + jsval" where
  "safeMetadata env value =
     (let metadata = (if value = JUndefined then JObj [] else json_clone value) in
      bind_result (guard_result (isPlainObject metadata) ''metadata must be an object'') (\<lambda>_.
      bind_result (visit_metadata metadata 0 ''metadata'') (\<lambda>_.
      bind_result (guard_result (stable_bytes env metadata \<le> MAX_METADATA_BYTES)
        ''metadata exceeds bounded size'') (\<lambda>_. Inr metadata))))"

section \<open>Numbers, instants and ids\<close>

text \<open>\<open>Number(v)\<close>, \<open>None\<close> when the result is not finite.\<close>

definition string_number :: "js_env \<Rightarrow> string \<Rightarrow> rat option" where
  "string_number env s = (if trim s = [] then Some 0 else number_of_string env (trim s))"

fun to_number :: "js_env \<Rightarrow> jsval \<Rightarrow> rat option" where
  "to_number env JUndefined = None"
| "to_number env JNull = Some 0"
| "to_number env (JBool b) = Some (if b then 1 else 0)"
| "to_number env (JNum r) = Some r"
| "to_number env (JStr s) = string_number env s"
| "to_number env v = string_number env (js_string env v)"

record instant =
  in_text :: string
  in_time :: int

definition parseInstant :: "js_env \<Rightarrow> jsval \<Rightarrow> string \<Rightarrow> type_error + instant" where
  "parseInstant env v fld = bind_result (boundedText v fld True MAX_TEXT) (\<lambda>t.
     case date_parse env t of
       None \<Rightarrow> Inl (fld @ '' must be a timestamp'')
     | Some time \<Rightarrow> Inr \<lparr>in_text = t, in_time = time\<rparr>)"

definition hashObject :: "js_env \<Rightarrow> jsfields \<Rightarrow> string" where
  "hashObject env fs = sha256_hex env (the (stableStringify env (JObj fs)))"

definition makeId :: "js_env \<Rightarrow> string \<Rightarrow> jsfields \<Rightarrow> string" where
  "makeId env kind fs = kind @ '':'' @ take 32 (hashObject env fs)"

section \<open>Identity, action and policy\<close>

datatype role = Requester | Approver

fun role_name :: "role \<Rightarrow> string" where
  "role_name Requester = ''requester''"
| "role_name Approver = ''approver''"

record identity =
  id_identityRef :: string
  id_identityHash :: string
  id_workspaceId :: string
  id_agentId :: string
  id_ownerActorId :: string
  id_authorityRef :: string

definition normalizeIdentity :: "jsval \<Rightarrow> role \<Rightarrow> string \<Rightarrow> runtime_reason + identity" where
  "normalizeIdentity identityResult role workspaceId =
     (let identity = jget identityResult ''identity'';
          txt = (\<lambda>k required. boundedText (jget identity k) (role_name role @ ''.'' @ k) required MAX_TEXT);
          missing = (if role = Approver then APPROVER_IDENTITY_REQUIRED else REQUESTER_IDENTITY_REQUIRED)
      in if jget identityResult ''decision'' \<noteq> JStr ''allow'' \<or> \<not> truthy identity
           then Inl IDENTITY_REJECTED
         else case bind_result (txt ''identityRef'' True) (\<lambda>ref.
             bind_result (txt ''identityHash'' True) (\<lambda>hash.
             bind_result (txt ''workspaceId'' True) (\<lambda>ws.
               if ws \<noteq> workspaceId then Inr None
               else bind_result (txt ''agentId'' False) (\<lambda>agent.
                 bind_result (txt ''ownerActorId'' False) (\<lambda>owner.
                 bind_result (txt ''authorityRef'' False) (\<lambda>authority.
                   Inr (Some \<lparr>id_identityRef = ref, id_identityHash = hash, id_workspaceId = ws,
                     id_agentId = agent, id_ownerActorId = owner, id_authorityRef = authority\<rparr>)))))))
           of Inl e \<Rightarrow> Inl missing
            | Inr None \<Rightarrow> Inl SCOPE_MISMATCH
            | Inr (Some i) \<Rightarrow> Inr i)"

record action =
  ac_argsDigest :: string
  ac_actionFingerprint :: string
  ac_workspaceId :: string
  ac_connectorRef :: string
  ac_resourceRef :: string
  ac_policyVersion :: string
  ac_firewallVersion :: string
  ac_requestedVerdict :: firewall_decision
  ac_requestedEffect :: string
  ac_actionType :: string
  ac_toolName :: string
  ac_target :: string
  ac_agentId :: string
  ac_evidenceRefs :: "string list"
  ac_provenanceRefs :: "string list"
  ac_evidenceDigest :: string
  ac_riskScore :: rat

definition normalizeArgsDigest :: "js_env \<Rightarrow> jsval \<Rightarrow> type_error + string" where
  "normalizeArgsDigest env action =
     (let args = jget action ''args''; digest = jget action ''argsDigest'';
          hasArgs = (\<not> is_nullish args); hasDigest = (\<not> is_nullish digest \<and> digest \<noteq> JStr [])
      in if \<not> hasArgs \<and> \<not> hasDigest then Inr []
         else bind_result (guard_result (hasArgs \<longrightarrow> is_object args) ''args must be a JSON object or array'') (\<lambda>_.
           let computed = (if hasArgs then sha256_hex env (the (stableStringify env args)) else []) in
           if \<not> hasDigest then Inr computed
           else bind_result (boundedText digest ''argsDigest'' False MAX_TEXT) (\<lambda>supplied.
             bind_result (guard_result (SHA256_HEX supplied) ''argsDigest must be a sha256 hex digest'') (\<lambda>_.
             bind_result (guard_result (computed = [] \<or> computed = supplied) ''argsDigest does not match args'') (\<lambda>_.
               Inr supplied)))))"

definition refs_json :: "string list \<Rightarrow> jsval" where
  "refs_json xs = JArr (map JStr xs)"

definition normalizeAction :: "js_env \<Rightarrow> jsval \<Rightarrow> type_error + action" where
  "normalizeAction env action =
     (let txt = (\<lambda>k required. boundedText (jget action k) k required MAX_TEXT) in
      bind_result (guard_result (isPlainObject action) ''action must be an object'') (\<lambda>_.
      bind_result (normalizeArgsDigest env action) (\<lambda>argsDigest.
      bind_result (txt ''actionFingerprint'' True) (\<lambda>actionFingerprint.
      bind_result (txt ''workspaceId'' True) (\<lambda>workspaceId.
      bind_result (txt ''connectorRef'' False) (\<lambda>connectorRef.
      bind_result (txt ''resourceRef'' False) (\<lambda>resourceRef.
      bind_result (txt ''policyVersion'' True) (\<lambda>policyVersion.
      bind_result (txt ''firewallVersion'' True) (\<lambda>firewallVersion.
      bind_result (txt ''requestedVerdict'' True) (\<lambda>requestedVerdict.
      bind_result (boundedText (jget action ''requestedEffect'') ''requestedEffect'' True MAX_REASON) (\<lambda>requestedEffect.
      bind_result (txt ''actionType'' False) (\<lambda>actionType.
      bind_result (txt ''toolName'' False) (\<lambda>toolName.
      bind_result (txt ''target'' False) (\<lambda>target.
      bind_result (txt ''agentId'' False) (\<lambda>agentId.
      bind_result (caseRefs (jget action ''evidenceRefs'') ''evidenceRefs'') (\<lambda>evidenceRefs.
      bind_result (caseRefs (jget action ''provenanceRefs'') ''provenanceRefs'') (\<lambda>provenanceRefs.
      bind_result (txt ''evidenceDigest'' False) (\<lambda>evidenceDigest.
      let riskScore = (if is_nullish (jget action ''riskScore'') then Some 0
            else to_number env (jget action ''riskScore'')) in
      case firewall_of requestedVerdict of
          None \<Rightarrow> Inl ''requestedVerdict must be a canonical firewall decision''
        | Some verdict \<Rightarrow>
      (case riskScore of
          None \<Rightarrow> Inl ''riskScore must be a number between 0 and 100''
        | Some risk \<Rightarrow>
            if risk < 0 \<or> risk > 100 then Inl ''riskScore must be a number between 0 and 100''
            else if verdict = FW_allow then Inl ''review case requires review, dry_run_only, or block''
            else Inr \<lparr>ac_argsDigest = argsDigest, ac_actionFingerprint = actionFingerprint,
              ac_workspaceId = workspaceId, ac_connectorRef = connectorRef, ac_resourceRef = resourceRef,
              ac_policyVersion = policyVersion, ac_firewallVersion = firewallVersion,
              ac_requestedVerdict = verdict, ac_requestedEffect = requestedEffect,
              ac_actionType = actionType, ac_toolName = toolName, ac_target = target,
              ac_agentId = agentId, ac_evidenceRefs = evidenceRefs, ac_provenanceRefs = provenanceRefs,
              ac_evidenceDigest = (if evidenceDigest = []
                then hashObject env [(''evidenceRefs'', refs_json evidenceRefs),
                  (''provenanceRefs'', refs_json provenanceRefs)] else evidenceDigest),
              ac_riskScore = risk\<rparr>)))))))))))))))))))"

record policy =
  po_requireApproverDistinct :: bool
  po_allowSelfApproval :: bool
  po_allowOverride :: bool
  po_approvalRequired :: bool
  po_approvalCooldownMs :: rat
  po_criticalRiskScore :: rat
  po_requiredApprovers :: rat
  po_policyBasisRef :: string

definition normalizePolicy :: "js_env \<Rightarrow> jsval \<Rightarrow> type_error + policy" where
  "normalizePolicy env source =
     (let cooldown = jget source ''approvalCooldownMs''; required = jget source ''requiredApprovers'' in
      bind_result (boundedText (jget source ''policyBasisRef'') ''policyBasisRef'' False MAX_TEXT) (\<lambda>basis.
        Inr \<lparr>po_requireApproverDistinct = (jget source ''requireApproverDistinct'' \<noteq> JBool False),
          po_allowSelfApproval = (jget source ''allowSelfApproval'' = JBool True),
          po_allowOverride = (jget source ''allowOverride'' = JBool True),
          po_approvalRequired = (jget source ''approvalRequired'' \<noteq> JBool False),
          po_approvalCooldownMs = (if is_integer cooldown \<and> num_of cooldown \<ge> 0
            then min (num_of cooldown) (24 * 60 * 60 * 1000) else 30000),
          po_criticalRiskScore = (case to_number env (jget source ''criticalRiskScore'') of
              Some r \<Rightarrow> max 0 (min 100 r) | None \<Rightarrow> 80),
          po_requiredApprovers = (if is_integer required \<and> num_of required \<ge> 1
            then min (num_of required) 8 else 2),
          po_policyBasisRef = basis\<rparr>))"

end
