(* ===== verification/Oversight_State.thy ===== *)
theory Oversight_State
  imports Oversight_Types
begin

text \<open>
  The durable state of the human oversight runtime: the review case, the decision and the execution
  as records, the operation ids and the ledger event of
  \<open>src/lib/human-oversight-approval-runtime-primitives.js\<close>, and reading and appending state
  (\<open>src/lib/human-oversight-approval-runtime-state.js\<close>).  A transition is stored as the result of
  a journalled mutation; results of other subsystems share the journal (\<open>Other\<close>).
\<close>

section \<open>Records\<close>

record requester =
  rq_identityRef :: string
  rq_identityHash :: string
  rq_agentId :: string
  rq_ownerActorId :: string
  rq_authorityRef :: string
  rq_delegationRef :: string

record review_case =
  cs_caseId :: string
  cs_workspaceId :: string
  cs_requester :: requester
  cs_connectorRef :: string
  cs_resourceRef :: string
  cs_actionFingerprint :: string
  cs_argsDigest :: string
  cs_actionType :: string
  cs_toolName :: string
  cs_target :: string
  cs_requestedVerdict :: firewall_decision
  cs_firewallDecision :: firewall_decision
  cs_policyVersion :: string
  cs_firewallVersion :: string
  cs_requestedEffect :: string
  cs_riskScore :: rat
  cs_evidenceRefs :: "string list"
  cs_provenanceRefs :: "string list"
  cs_evidenceDigest :: string
  cs_policy :: policy
  cs_createdAt :: string
  cs_expiresAt :: string
  cs_status :: case_status
  cs_latestDecisionId :: string
  cs_latestDecisionType :: "decision_type option"
  cs_creationReceiptId :: string
  cs_latestReceiptId :: string
  cs_executionOutcome :: execution_outcome
  cs_expiryEffective :: bool
  cs_consumedAt :: string
  cs_consumptionNonce :: string

record decision =
  dc_decisionId :: string
  dc_decisionType :: decision_type
  dc_caseId :: string
  dc_workspaceId :: string
  dc_approverRef :: string
  dc_approverHash :: string
  dc_ownerActorId :: string
  dc_authorityRef :: string
  dc_requesterIdentityRef :: string
  dc_actionFingerprint :: string
  dc_argsDigest :: string
  dc_connectorRef :: string
  dc_resourceRef :: string
  dc_policyVersion :: string
  dc_firewallVersion :: string
  dc_evidenceDigest :: string
  dc_reason :: string
  dc_validFrom :: string
  dc_validUntil :: string
  dc_decidedAt :: string
  dc_selfApprovalException :: bool
  dc_metadata :: jsval
  dc_receiptId :: string

record execution =
  ex_caseId :: string
  ex_outcomeId :: string
  ex_outcome :: execution_outcome
  ex_reason :: string
  ex_observedAt :: string
  ex_metadata :: jsval
  ex_receiptId :: string

datatype event_type =
    Review_case_created
  | Approval_event decision_type
  | Execution_reserved
  | Execution_outcome

fun event_type_name :: "event_type \<Rightarrow> string" where
  "event_type_name Review_case_created = ''review_case_created''"
| "event_type_name (Approval_event Approve) = ''approval_approved''"
| "event_type_name (Approval_event Reject) = ''approval_rejected''"
| "event_type_name (Approval_event Expire) = ''approval_expired''"
| "event_type_name (Approval_event Cancel) = ''approval_cancelled''"
| "event_type_name (Approval_event Escalate) = ''approval_escalated''"
| "event_type_name (Approval_event Override) = ''approval_override''"
| "event_type_name Execution_reserved = ''execution_reserved''"
| "event_type_name Execution_outcome = ''execution_outcome''"

record state_event =
  se_eventType :: event_type
  se_decisionType :: string
  se_caseId :: string
  se_createdAt :: string
  se_reason :: string

record oversight_state =
  st_event :: state_event
  st_case :: review_case
  st_decision :: "decision option"
  st_execution :: "execution option"

datatype journal_value = Oversight oversight_state | Other jsval

type_synonym 'g store = "('g, journal_value) graph_state"

section \<open>Operation ids\<close>

definition caseOperationId :: "string \<Rightarrow> string" where
  "caseOperationId caseId = ''human-oversight:review-case:create:'' @ caseId"

definition decisionOperationPrefix :: "string \<Rightarrow> string" where
  "decisionOperationPrefix caseId = ''human-oversight:approval-decision:'' @ caseId @ '':''"

definition decisionOperationId :: "string \<Rightarrow> string \<Rightarrow> string" where
  "decisionOperationId caseId decisionId = decisionOperationPrefix caseId @ decisionId"

definition outcomeOperationPrefix :: "string \<Rightarrow> string" where
  "outcomeOperationPrefix caseId = ''human-oversight:execution-outcome:'' @ caseId @ '':''"

definition outcomeOperationId :: "string \<Rightarrow> string \<Rightarrow> string" where
  "outcomeOperationId caseId outcomeId = outcomeOperationPrefix caseId @ outcomeId"

definition executionReservationPrefix :: "string \<Rightarrow> string" where
  "executionReservationPrefix caseId = ''human-oversight:execution-reservation:'' @ caseId @ '':''"

definition executionReservationOperationId :: "string \<Rightarrow> string" where
  "executionReservationOperationId caseId = executionReservationPrefix caseId @ ''claim''"

section \<open>The ledger event\<close>

definition verdictForEvent :: "event_type \<Rightarrow> string \<Rightarrow> string" where
  "verdictForEvent eventType decisionType =
     (if eventType = Review_case_created then decisionType
      else if decisionType = ''approve'' \<or> decisionType = ''override'' then ''allow''
      else if decisionType = ''escalate'' then ''review''
      else ''block'')"

definition runtime_metadata :: "event_type \<Rightarrow> string \<Rightarrow> review_case \<Rightarrow> jsfields" where
  "runtime_metadata eventType decisionType c =
     [(''runtimeVersion'', JStr ''human-oversight-approval-runtime-v1''),
      (''schemaVersion'', JStr TRUST_EVIDENCE_SCHEMA_VERSION),
      (''eventType'', JStr (event_type_name eventType)), (''decisionType'', JStr decisionType),
      (''reviewCaseId'', JStr (cs_caseId c)),
      (''requestedVerdict'', JStr (firewall_name (cs_requestedVerdict c)))]"

definition spread :: "jsfields \<Rightarrow> jsfields \<Rightarrow> jsfields" where
  "spread base extra = fold (\<lambda>(k, v) fs. put_field k v fs) extra base"

record ledger_event =
  ev_operationId :: string
  ev_eventType :: event_type
  ev_decisionType :: string
  ev_reason :: string
  ev_createdAt :: string
  ev_fields :: jsfields

definition buildLedgerEvent :: "js_env \<Rightarrow> string \<Rightarrow> review_case \<Rightarrow> event_type \<Rightarrow> string \<Rightarrow> string \<Rightarrow> string
    \<Rightarrow> jsfields \<Rightarrow> execution_outcome \<Rightarrow> type_error + ledger_event" where
  "buildLedgerEvent env operationId c eventType decisionType reason createdAt metadata executionOutcome =
     bind_result (boundedText (JStr reason) ''reason'' False MAX_REASON) (\<lambda>reason.
     bind_result (safeMetadata env (JObj (spread (runtime_metadata eventType decisionType c) metadata))) (\<lambda>meta.
       Inr \<lparr>ev_operationId = operationId, ev_eventType = eventType, ev_decisionType = decisionType,
         ev_reason = reason, ev_createdAt = createdAt,
         ev_fields = [(''workspaceId'', JStr (cs_workspaceId c)), (''operationId'', JStr operationId),
           (''decision'', JStr (verdictForEvent eventType decisionType)), (''reason'', JStr reason),
           (''actionFingerprint'', JStr (cs_actionFingerprint c)),
           (''identityRef'', JStr (rq_identityRef (cs_requester c))),
           (''identityHash'', JStr (rq_identityHash (cs_requester c))),
           (''authorityRef'', JStr (rq_authorityRef (cs_requester c))),
           (''delegationRef'', JStr (rq_delegationRef (cs_requester c))),
           (''policyVersion'', JStr (cs_policyVersion c)), (''firewallVersion'', JStr (cs_firewallVersion c)),
           (''connectorRef'', JStr (cs_connectorRef c)), (''resourceRef'', JStr (cs_resourceRef c)),
           (''approvalRef'', JStr (cs_caseId c)), (''executionOutcome'', JStr (outcome_name executionOutcome)),
           (''sourceRefs'', refs_json (cs_evidenceRefs c)),
           (''provenanceRefs'', refs_json (cs_provenanceRefs c)), (''createdAt'', JStr createdAt),
           (''metadata'', meta)]\<rparr>))"

section \<open>Reading\<close>

text \<open>A read that fails is no result.\<close>

definition readResult :: "'g store \<Rightarrow> string \<Rightarrow> (journal_value \<times> receipt_row option) option" where
  "readResult s operationId = (case readCommittedMutationResult (gs_journal s) operationId of
       Inl e \<Rightarrow> None
     | Inr None \<Rightarrow> None
     | Inr (Some (row, receipt)) \<Rightarrow> Some (or_result row, receipt))"

record case_read =
  cr_case :: review_case
  cr_history :: "state_event list"
  cr_base :: oversight_state

text \<open>The committed states of one prefix that belong to the case, with the time of their commit.\<close>

definition case_rows :: "string \<Rightarrow> (string \<times> journal_value op_row) list \<Rightarrow> (string \<times> oversight_state) list" where
  "case_rows caseId rows = List.map_filter (\<lambda>(k, row). case or_result row of
       Oversight st \<Rightarrow> if cs_caseId (st_case st) = caseId then Some (or_committedAt row, st) else None
     | Other v \<Rightarrow> None) rows"

definition case_history :: "js_env \<Rightarrow> 'g store \<Rightarrow> string \<Rightarrow> journal_error + (string \<times> oversight_state) list" where
  "case_history env s caseId =
     bind_result (map_result (readCommittedMutationResultsByPrefix env (gs_journal s))
       [decisionOperationPrefix caseId, executionReservationPrefix caseId, outcomeOperationPrefix caseId])
       (\<lambda>rows. Inr (sort_by (\<lambda>l r. locale_compare env (fst l) (fst r))
          (case_rows caseId (concat rows))))"

text \<open>\<open>Date.parse(t) <= now\<close>: false for a text that is no date.\<close>

definition time_le :: "js_env \<Rightarrow> string \<Rightarrow> int \<Rightarrow> bool" where
  "time_le env t now = (case date_parse env t of None \<Rightarrow> False | Some x \<Rightarrow> x \<le> now)"

definition effective_case :: "js_env \<Rightarrow> int \<Rightarrow> review_case \<Rightarrow> review_case" where
  "effective_case env now c =
     (if cs_status c \<in> {Pending, Escalated} \<and> time_le env (cs_expiresAt c) now
      then c\<lparr>cs_status := Expired, cs_expiryEffective := True\<rparr> else c)"

definition readCase :: "js_env \<Rightarrow> int option \<Rightarrow> 'g store \<Rightarrow> jsval \<Rightarrow> refusal + case_read" where
  "readCase env clock s caseId = (case boundedText caseId ''caseId'' True MAX_TEXT of
       Inl e \<Rightarrow> Inl (Fail MALFORMED_CASE)
     | Inr cid \<Rightarrow> (case readResult s (caseOperationId cid) of
         Some (Oversight base, _) \<Rightarrow> (case case_history env s cid of
             Inl e \<Rightarrow> Inl (Fail DURABILITY_UNAVAILABLE)
           | Inr events \<Rightarrow>
               if length events > MAX_HISTORY then Inl (Fail DURABILITY_UNAVAILABLE)
               else (case clock of
                   None \<Rightarrow> Inl (Fail DURABILITY_UNAVAILABLE)
                 | Some now \<Rightarrow>
                     let current = (if events = [] then st_case base else st_case (snd (last events))) in
                     Inr \<lparr>cr_case = effective_case env now current,
                       cr_history = map (st_event \<circ> snd) events, cr_base = base\<rparr>))
       | _ \<Rightarrow> Inl (Fail CASE_NOT_FOUND)))"

section \<open>Identities\<close>

text \<open>
  The receiver's resolver: a role, the authenticated context and the action to an identity result,
  \<open>None\<close> when it throws.
\<close>

type_synonym resolver = "role \<Rightarrow> jsval \<Rightarrow> action \<Rightarrow> jsval option"

definition resolveRoleIdentity :: "resolver \<Rightarrow> role \<Rightarrow> jsval \<Rightarrow> action \<Rightarrow> runtime_reason + identity" where
  "resolveRoleIdentity resolve role context action = (case resolve role context action of
       None \<Rightarrow> Inl RESOLVER_FAILED
     | Some result \<Rightarrow> normalizeIdentity result role (ac_workspaceId action))"

section \<open>Appending\<close>

definition stamp_receipt :: "event_type \<Rightarrow> string \<Rightarrow> oversight_state \<Rightarrow> oversight_state" where
  "stamp_receipt eventType receiptId st =
     (if eventType = Review_case_created
        then st\<lparr>st_case := (st_case st)\<lparr>cs_creationReceiptId := receiptId\<rparr>\<rparr>
      else case st_decision st of
          Some d \<Rightarrow> st\<lparr>st_decision := Some (d\<lparr>dc_receiptId := receiptId\<rparr>),
            st_case := (st_case st)\<lparr>cs_latestReceiptId := receiptId\<rparr>\<rparr>
        | None \<Rightarrow> (case st_execution st of
            Some x \<Rightarrow> st\<lparr>st_execution := Some (x\<lparr>ex_receiptId := receiptId\<rparr>),
              st_case := (st_case st)\<lparr>cs_latestReceiptId := receiptId\<rparr>\<rparr>
          | None \<Rightarrow> st))"

fun js_text :: "jsval \<Rightarrow> string" where
  "js_text (JStr s) = s"
| "js_text _ = []"

record appended =
  ap_replayed :: bool
  ap_state :: journal_value
  ap_receipt :: "receipt_row option"
  ap_verification :: trust_verdict

definition appendState :: "js_env \<Rightarrow> receipt_deps \<Rightarrow> run_conditions \<Rightarrow> ledger_event \<Rightarrow> review_case
    \<Rightarrow> decision option \<Rightarrow> execution option \<Rightarrow> 'g store \<Rightarrow> (string + appended) \<times> 'g store" where
  "appendState env deps rc event nextCase decision execution s =
     (case buildTrustEvidencePayload env (JObj (ev_fields event)) of
        Inl e \<Rightarrow> (Inl e, s)
      | Inr payload \<Rightarrow>
          let state = stamp_receipt (ev_eventType event) (js_text (jget payload ''receiptId''))
                \<lparr>st_event = \<lparr>se_eventType = ev_eventType event, se_decisionType = ev_decisionType event,
                    se_caseId = cs_caseId nextCase, se_createdAt = ev_createdAt event,
                    se_reason = ev_reason event\<rparr>,
                  st_case = nextCase, st_decision = decision, st_execution = execution\<rparr>
          in (case ledger_append env deps (ev_operationId event) (JObj (ev_fields event))
                     (\<lambda>g. Inr (Oversight state, g)) rc s of
               (Inl e, s') \<Rightarrow> (Inl ''append failed'', s')
             | (Inr entry, s') \<Rightarrow> (Inr \<lparr>ap_replayed = le_replayed entry, ap_state = le_result entry,
                 ap_receipt = le_receipt entry, ap_verification = le_verification entry\<rparr>, s')))"

end
