(* ===== verification/Oversight_Cases.thy ===== *)
theory Oversight_Cases
  imports Oversight_State
begin

text \<open>
  Opening a review case and viewing its evidence
  (\<open>src/lib/human-oversight-approval-runtime-cases.js\<close>).
\<close>

section \<open>Opening a case\<close>

record case_request =
  cq_action :: jsval
  cq_firewallDecision :: jsval
  cq_requesterContext :: jsval
  cq_policy :: jsval
  cq_expiresAt :: jsval
  cq_caseId :: jsval
  cq_metadata :: jsval

record case_reply =
  cy_replayed :: bool
  cy_case :: review_case
  cy_receipt :: "receipt_row option"
  cy_verification :: "trust_verdict option"

definition malformed :: "runtime_reason \<Rightarrow> type_error + 'a \<Rightarrow> refusal + 'a" where
  "malformed reason r = (case r of Inl e \<Rightarrow> Inl (Fail reason) | Inr x \<Rightarrow> Inr x)"

definition uncaught :: "type_error + 'a \<Rightarrow> refusal + 'a" where
  "uncaught r = (case r of Inl e \<Rightarrow> Inl (Threw e) | Inr x \<Rightarrow> Inr x)"

lemma malformed_Inr [simp]: "malformed q r = Inr x \<longleftrightarrow> r = Inr x"
  by (cases r) (auto simp: malformed_def)

lemma uncaught_Inr [simp]: "uncaught r = Inr x \<longleftrightarrow> r = Inr x"
  by (cases r) (auto simp: uncaught_def)

text \<open>The action of a request, with the verdict it leaves out taken from elsewhere.\<close>

definition action_with_verdict :: "jsval \<Rightarrow> jsval \<Rightarrow> jsval" where
  "action_with_verdict action verdict = JObj (put_field ''requestedVerdict''
     (or_else (jget action ''requestedVerdict'') verdict) (own_fields action))"

definition case_action :: "js_env \<Rightarrow> case_request \<Rightarrow> type_error + action" where
  "case_action env q =
     bind_result (normalizeAction env (action_with_verdict (cq_action q) (cq_firewallDecision q))) (\<lambda>a.
     bind_result (guard_result (JStr (firewall_name (ac_requestedVerdict a)) = cq_firewallDecision q)
       ''firewall decision mismatch'') (\<lambda>_. Inr a))"

definition case_expiry :: "js_env \<Rightarrow> int \<Rightarrow> int \<Rightarrow> jsval \<Rightarrow> type_error + instant" where
  "case_expiry env lifetime now expiresAt =
     (if is_nullish expiresAt \<or> expiresAt = JStr []
      then Inr \<lparr>in_text = iso_at env (now + lifetime), in_time = now + lifetime\<rparr>
      else parseInstant env expiresAt ''expiresAt'')"

definition derived_case_id :: "js_env \<Rightarrow> action \<Rightarrow> identity \<Rightarrow> string" where
  "derived_case_id env a i = makeId env ''review-case''
     ([(''workspaceId'', JStr (ac_workspaceId a)),
       (''requesterIdentityRef'', JStr (id_identityRef i)),
       (''requesterIdentityHash'', JStr (id_identityHash i)),
       (''actionFingerprint'', JStr (ac_actionFingerprint a))]
      @ (if ac_argsDigest a \<noteq> [] then [(''argsDigest'', JStr (ac_argsDigest a))] else [])
      @ [(''connectorRef'', JStr (ac_connectorRef a)), (''resourceRef'', JStr (ac_resourceRef a)),
       (''policyVersion'', JStr (ac_policyVersion a)), (''firewallVersion'', JStr (ac_firewallVersion a))])"

definition immutableMatch :: "review_case \<Rightarrow> action \<Rightarrow> identity \<Rightarrow> bool" where
  "immutableMatch c a i = (cs_actionFingerprint c = ac_actionFingerprint a
     \<and> cs_argsDigest c = ac_argsDigest a \<and> cs_workspaceId c = ac_workspaceId a
     \<and> rq_identityRef (cs_requester c) = id_identityRef i
     \<and> rq_identityHash (cs_requester c) = id_identityHash i
     \<and> cs_connectorRef c = ac_connectorRef a \<and> cs_resourceRef c = ac_resourceRef a
     \<and> cs_policyVersion c = ac_policyVersion a \<and> cs_firewallVersion c = ac_firewallVersion a
     \<and> cs_requestedVerdict c = ac_requestedVerdict a \<and> cs_requestedEffect c = ac_requestedEffect a
     \<and> cs_riskScore c = ac_riskScore a \<and> cs_evidenceDigest c = ac_evidenceDigest a)"

definition new_case :: "js_env \<Rightarrow> string \<Rightarrow> action \<Rightarrow> identity \<Rightarrow> string \<Rightarrow> policy \<Rightarrow> int \<Rightarrow> string \<Rightarrow> review_case" where
  "new_case env cid a i delegationRef pol now expiresAt = \<lparr>
     cs_caseId = cid, cs_workspaceId = ac_workspaceId a,
     cs_requester = \<lparr>rq_identityRef = id_identityRef i, rq_identityHash = id_identityHash i,
       rq_agentId = (if id_agentId i \<noteq> [] then id_agentId i else ac_agentId a),
       rq_ownerActorId = id_ownerActorId i, rq_authorityRef = id_authorityRef i,
       rq_delegationRef = delegationRef\<rparr>,
     cs_connectorRef = ac_connectorRef a, cs_resourceRef = ac_resourceRef a,
     cs_actionFingerprint = ac_actionFingerprint a, cs_argsDigest = ac_argsDigest a,
     cs_actionType = ac_actionType a, cs_toolName = ac_toolName a, cs_target = ac_target a,
     cs_requestedVerdict = ac_requestedVerdict a, cs_firewallDecision = ac_requestedVerdict a,
     cs_policyVersion = ac_policyVersion a, cs_firewallVersion = ac_firewallVersion a,
     cs_requestedEffect = ac_requestedEffect a, cs_riskScore = ac_riskScore a,
     cs_evidenceRefs = ac_evidenceRefs a, cs_provenanceRefs = ac_provenanceRefs a,
     cs_evidenceDigest = ac_evidenceDigest a, cs_policy = pol, cs_createdAt = iso_at env now,
     cs_expiresAt = expiresAt,
     cs_status = (if ac_requestedVerdict a = FW_block then Blocked else Pending),
     cs_latestDecisionId = [], cs_latestDecisionType = None, cs_creationReceiptId = [],
     cs_latestReceiptId = [], cs_executionOutcome = Not_attempted, cs_expiryEffective = False,
     cs_consumedAt = [], cs_consumptionNonce = []\<rparr>"

text \<open>Everything a request is checked for before the journal is consulted.\<close>

record case_plan =
  cp_caseId :: string
  cp_action :: action
  cp_requester :: identity
  cp_policy :: policy
  cp_expiry :: instant
  cp_now :: int

definition plan_case :: "js_env \<Rightarrow> resolver \<Rightarrow> int \<Rightarrow> int option \<Rightarrow> case_request \<Rightarrow> refusal + case_plan" where
  "plan_case env resolve lifetime clock q =
     bind_result (malformed MALFORMED_CASE (case_action env q)) (\<lambda>a. (case clock of
         None \<Rightarrow> Inl (Fail DURABILITY_UNAVAILABLE)
       | Some now \<Rightarrow>
           bind_result (malformed MALFORMED_CASE (case_expiry env lifetime now (cq_expiresAt q))) (\<lambda>expiry.
           bind_result (guard_result (\<not> (in_time expiry \<le> now \<or> in_time expiry - now > MAX_CASE_LIFETIME_MS))
             (Fail MALFORMED_CASE)) (\<lambda>_.
           bind_result (uncaught (normalizePolicy env (cq_policy q))) (\<lambda>pol.
             (case resolveRoleIdentity resolve Requester (cq_requesterContext q) a of
                 Inl reason \<Rightarrow> Inl (Fail reason)
               | Inr i \<Rightarrow>
                   bind_result (uncaught (boundedText (cq_caseId q) ''caseId'' False MAX_TEXT)) (\<lambda>cid.
                     Inr \<lparr>cp_caseId = (if cid \<noteq> [] then cid else derived_case_id env a i),
                       cp_action = a, cp_requester = i, cp_policy = pol, cp_expiry = expiry,
                       cp_now = now\<rparr>)))))))"

definition case_metadata :: "action \<Rightarrow> jsval \<Rightarrow> jsfields" where
  "case_metadata a metadata = [(''evidenceDigest'', JStr (ac_evidenceDigest a)),
     (''verifiedFields'', refs_json [''workspaceId'', ''actionFingerprint'', ''policyVersion'', ''firewallVersion'']),
     (''requestedFields'', refs_json [''requestedEffect'']),
     (''unverifiedFields'', refs_json [''model_risk_claims'']),
     (''metadata'', if metadata = JUndefined then JObj [] else metadata)]"

definition createReviewCase :: "js_env \<Rightarrow> receipt_deps \<Rightarrow> resolver \<Rightarrow> int \<Rightarrow> int option \<Rightarrow> run_conditions
    \<Rightarrow> case_request \<Rightarrow> 'g store \<Rightarrow> (refusal + case_reply) \<times> 'g store" where
  "createReviewCase env deps resolve lifetime clock rc q s = (case plan_case env resolve lifetime clock q of
       Inl r \<Rightarrow> (Inl r, s)
     | Inr p \<Rightarrow>
         let operationId = caseOperationId (cp_caseId p); a = cp_action p; i = cp_requester p in
         (case readResult s operationId of
            Some (Oversight stored, receipt) \<Rightarrow>
              if \<not> immutableMatch (st_case stored) a i then (Inl (Fail CASE_IMMUTABLE_MISMATCH), s)
              else (Inr \<lparr>cy_replayed = True, cy_case = st_case stored, cy_receipt = receipt,
                cy_verification = None\<rparr>, s)
          | _ \<Rightarrow>
              (case uncaught (boundedText (jget (cq_requesterContext q) ''delegationRef'')
                    ''delegationRef'' False MAX_TEXT) of
                 Inl r \<Rightarrow> (Inl r, s)
               | Inr delegationRef \<Rightarrow>
                   let c = new_case env (cp_caseId p) a i delegationRef (cp_policy p) (cp_now p)
                         (in_text (cp_expiry p)) in
                   (case uncaught (buildLedgerEvent env operationId c Review_case_created
                         (firewall_name (cs_firewallDecision c))
                         (if cs_firewallDecision c = FW_block then ''firewall_blocked_review_case_recorded''
                          else ''human_review_required'')
                         (cs_createdAt c) (case_metadata a (cq_metadata q)) Not_attempted) of
                      Inl r \<Rightarrow> (Inl r, s)
                    | Inr event \<Rightarrow> (case appendState env deps rc event c None None s of
                          (Inr ap, s') \<Rightarrow> (case ap_state ap of
                              Oversight st \<Rightarrow> (Inr \<lparr>cy_replayed = ap_replayed ap, cy_case = st_case st,
                                cy_receipt = ap_receipt ap, cy_verification = Some (ap_verification ap)\<rparr>, s')
                            | Other v \<Rightarrow> (Inl (Fail DURABILITY_UNAVAILABLE), s'))
                        | (Inl e, s') \<Rightarrow> (Inl (Fail DURABILITY_UNAVAILABLE), s'))))))"

section \<open>The evidence view\<close>

record evidence_view =
  vw_caseId :: string
  vw_requested :: "string \<times> firewall_decision"
  vw_verified :: "(string \<times> string) list"
  vw_firewallDecision :: firewall_decision
  vw_status :: case_status
  vw_expiresAt :: string
  vw_latestReceiptId :: string
  vw_provenanceRefs :: "string list"
  vw_evidenceRefs :: "string list"
  vw_unverified :: "string list"

definition buildEvidenceView :: "refusal + case_read \<Rightarrow> refusal + evidence_view" where
  "buildEvidenceView r = bind_result r (\<lambda>cr. let c = cr_case cr in Inr \<lparr>vw_caseId = cs_caseId c,
     vw_requested = (cs_requestedEffect c, cs_requestedVerdict c),
     vw_verified = [(''workspaceId'', cs_workspaceId c), (''actionFingerprint'', cs_actionFingerprint c),
       (''argsDigest'', cs_argsDigest c), (''connectorRef'', cs_connectorRef c),
       (''resourceRef'', cs_resourceRef c), (''policyVersion'', cs_policyVersion c),
       (''firewallVersion'', cs_firewallVersion c), (''evidenceDigest'', cs_evidenceDigest c)],
     vw_firewallDecision = cs_firewallDecision c, vw_status = cs_status c, vw_expiresAt = cs_expiresAt c,
     vw_latestReceiptId = cs_latestReceiptId c, vw_provenanceRefs = cs_provenanceRefs c,
     vw_evidenceRefs = cs_evidenceRefs c, vw_unverified = [''model_risk_claims'']\<rparr>)"

end
