(* ===== verification/Oversight_Decide.thy ===== *)
theory Oversight_Decide
  imports Oversight_Cases
begin

text \<open>
  An approver's decision on a review case
  (\<open>src/lib/human-oversight-approval-runtime-decide.js\<close>).  The clock is read twice, once while the
  case is read and once for the decision; each reading is an argument.
\<close>

section \<open>The request\<close>

record decision_request =
  dq_caseId :: jsval
  dq_decisionType :: jsval
  dq_approverContext :: jsval
  dq_reason :: jsval
  dq_validFrom :: jsval
  dq_validUntil :: jsval
  dq_evidenceDigest :: jsval
  dq_decisionId :: jsval
  dq_metadata :: jsval

record decision_input =
  di_caseId :: string
  di_decisionType :: decision_type
  di_reason :: string

definition decision_input :: "decision_request \<Rightarrow> type_error + decision_input" where
  "decision_input q =
     bind_result (boundedText (dq_caseId q) ''caseId'' True MAX_TEXT) (\<lambda>cid.
     bind_result (boundedText (dq_decisionType q) ''decisionType'' True MAX_TEXT) (\<lambda>kind.
     let dt = to_lower kind in
     bind_result (boundedText (dq_reason q) ''reason''
       (dt \<noteq> ''approve'' \<and> dt \<noteq> ''expire'' \<and> dt \<noteq> ''override'') MAX_REASON) (\<lambda>reason.
     case decision_type_of dt of
         None \<Rightarrow> Inl ''unsupported decisionType''
       | Some t \<Rightarrow> Inr \<lparr>di_caseId = cid, di_decisionType = t, di_reason = reason\<rparr>)))"

section \<open>Gates\<close>

definition is_critical :: "review_case \<Rightarrow> bool" where
  "is_critical c = (cs_riskScore c \<ge> po_criticalRiskScore (cs_policy c))"

definition reasonRequired :: "decision_type \<Rightarrow> review_case \<Rightarrow> bool" where
  "reasonRequired t c = ((t = Override \<and> cs_firewallDecision c = FW_block) \<or> (t = Approve \<and> is_critical c))"

definition decisionScopeAction :: "review_case \<Rightarrow> action" where
  "decisionScopeAction c = \<lparr>ac_argsDigest = cs_argsDigest c, ac_actionFingerprint = cs_actionFingerprint c,
     ac_workspaceId = cs_workspaceId c, ac_connectorRef = cs_connectorRef c,
     ac_resourceRef = cs_resourceRef c, ac_policyVersion = cs_policyVersion c,
     ac_firewallVersion = cs_firewallVersion c, ac_requestedVerdict = cs_requestedVerdict c,
     ac_requestedEffect = cs_requestedEffect c, ac_actionType = cs_actionType c,
     ac_toolName = cs_toolName c, ac_target = cs_target c, ac_agentId = rq_agentId (cs_requester c),
     ac_evidenceRefs = cs_evidenceRefs c, ac_provenanceRefs = cs_provenanceRefs c,
     ac_evidenceDigest = cs_evidenceDigest c, ac_riskScore = cs_riskScore c\<rparr>"

definition sameRequester :: "review_case \<Rightarrow> identity \<Rightarrow> bool" where
  "sameRequester c i = (id_identityRef i = rq_identityRef (cs_requester c)
     \<or> id_identityHash i = rq_identityHash (cs_requester c))"

definition selfApprovalException :: "review_case \<Rightarrow> identity \<Rightarrow> bool" where
  "selfApprovalException c i = (sameRequester c i \<and> po_allowSelfApproval (cs_policy c))"

definition decision_gates :: "review_case \<Rightarrow> identity \<Rightarrow> decision_type \<Rightarrow> runtime_reason + unit" where
  "decision_gates c i t =
     (if sameRequester c i \<and> po_requireApproverDistinct (cs_policy c) \<and> \<not> selfApprovalException c i
        then Inl SELF_APPROVAL_REJECTED
      else if t = Override \<and> (\<not> po_allowOverride (cs_policy c) \<or> cs_firewallDecision c \<noteq> FW_block)
        then Inl OVERRIDE_NOT_AUTHORIZED
      else if t = Approve \<and> cs_firewallDecision c = FW_block then Inl BLOCKED_BY_FIREWALL
      else if cs_status c \<notin> {Pending, Escalated, Blocked} \<or> (cs_status c = Blocked \<and> t \<noteq> Override)
        then Inl DUPLICATE_OR_AMBIGUOUS_DECISION
      else Inr ())"

section \<open>The quorum of a critical approval\<close>

definition approverKey :: "string \<Rightarrow> string \<Rightarrow> string" where
  "approverKey ref hash = ref @ '':'' @ hash"

definition decision_key :: "decision \<Rightarrow> string" where
  "decision_key d = approverKey (dc_approverRef d) (dc_approverHash d)"

definition prior_decisions :: "js_env \<Rightarrow> 'g store \<Rightarrow> string \<Rightarrow> journal_error + decision list" where
  "prior_decisions env s workspaceId =
     bind_result (readCommittedMutationResultsByPrefix env (gs_journal s) ''human-oversight:approval-decision:'')
       (\<lambda>rows. Inr (filter (\<lambda>d. dc_workspaceId d = workspaceId)
          (List.map_filter (\<lambda>(k, row). case or_result row of
               Oversight st \<Rightarrow> st_decision st | Other v \<Rightarrow> None) rows)))"

definition caseApprovers :: "string \<Rightarrow> decision list \<Rightarrow> string list" where
  "caseApprovers caseId prior = remdups (map decision_key
     (filter (\<lambda>d. dc_caseId d = caseId \<and> dc_decisionType d \<in> {Approve, Escalate}) prior))"

definition later_first :: "js_env \<Rightarrow> decision \<Rightarrow> decision \<Rightarrow> int" where
  "later_first env l r = (case (date_parse env (dc_decidedAt l), date_parse env (dc_decidedAt r)) of
       (Some x, Some y) \<Rightarrow> y - x | _ \<Rightarrow> 0)"

definition in_cooldown :: "js_env \<Rightarrow> decision list \<Rightarrow> string \<Rightarrow> int \<Rightarrow> rat \<Rightarrow> bool" where
  "in_cooldown env prior key now cooldown =
     (case sort_by (later_first env)
        (filter (\<lambda>d. dc_decisionType d \<in> {Approve, Escalate} \<and> decision_key d = key) prior) of
        [] \<Rightarrow> False
      | previous # _ \<Rightarrow> (case date_parse env (dc_decidedAt previous) of
          None \<Rightarrow> False | Some t \<Rightarrow> of_int (now - t) < cooldown))"

definition quorum_decision :: "js_env \<Rightarrow> 'g store \<Rightarrow> string \<Rightarrow> review_case \<Rightarrow> identity \<Rightarrow> int
    \<Rightarrow> decision_type \<Rightarrow> runtime_reason + decision_type" where
  "quorum_decision env s caseId c i now t =
     (if \<not> (t = Approve \<and> is_critical c) then Inr t
      else case prior_decisions env s (cs_workspaceId c) of
          Inl e \<Rightarrow> Inl DURABILITY_UNAVAILABLE
        | Inr prior \<Rightarrow>
            let key = approverKey (id_identityRef i) (id_identityHash i);
                approvers = caseApprovers caseId prior
            in if key \<in> set approvers then Inl QUORUM_DISTINCT_APPROVER_REQUIRED
               else if in_cooldown env prior key now (po_approvalCooldownMs (cs_policy c))
                 then Inl APPROVAL_COOLDOWN_ACTIVE
               else if of_nat (length (approvers @ [key])) < po_requiredApprovers (cs_policy c)
                 then Inr Escalate
               else Inr t)"

section \<open>The interval of validity\<close>

definition dates :: "js_env \<Rightarrow> (int \<Rightarrow> int \<Rightarrow> bool) \<Rightarrow> string \<Rightarrow> string \<Rightarrow> bool" where
  "dates env P s t = (case (date_parse env s, date_parse env t) of (Some x, Some y) \<Rightarrow> P x y | _ \<Rightarrow> False)"

definition time_less :: "js_env \<Rightarrow> string \<Rightarrow> int \<Rightarrow> bool" where
  "time_less env t now = (case date_parse env t of None \<Rightarrow> False | Some x \<Rightarrow> x < now)"

definition instant_or :: "js_env \<Rightarrow> jsval \<Rightarrow> string \<Rightarrow> string \<Rightarrow> type_error + string" where
  "instant_or env v fld dflt = (if truthy v
     then bind_result (parseInstant env v fld) (\<lambda>i. Inr (in_text i)) else Inr dflt)"

definition decision_interval :: "js_env \<Rightarrow> decision_request \<Rightarrow> review_case \<Rightarrow> int
    \<Rightarrow> refusal + (string \<times> string)" where
  "decision_interval env q c now =
     bind_result (malformed MALFORMED_DECISION
       (instant_or env (dq_validFrom q) ''validFrom'' (iso_at env now))) (\<lambda>vf.
     bind_result (malformed MALFORMED_DECISION
       (instant_or env (dq_validUntil q) ''validUntil'' (cs_expiresAt c))) (\<lambda>vu.
       if time_less env vf now \<or> time_le env vu now \<or> dates env (\<ge>) vf vu \<or> dates env (>) vu (cs_expiresAt c)
         then Inl (Fail SCOPE_MISMATCH)
       else Inr (vf, vu)))"

section \<open>The decision\<close>

definition next_status :: "decision_type \<Rightarrow> case_status" where
  "next_status t = (case t of Approve \<Rightarrow> Approved | Override \<Rightarrow> Approved | Reject \<Rightarrow> Rejected
     | Expire \<Rightarrow> Expired | Cancel \<Rightarrow> Cancelled | Escalate \<Rightarrow> Escalated)"

definition derived_decision_id :: "js_env \<Rightarrow> string \<Rightarrow> decision_type \<Rightarrow> identity \<Rightarrow> string \<Rightarrow> string
    \<Rightarrow> string \<Rightarrow> string \<Rightarrow> string" where
  "derived_decision_id env caseId t i reason vf vu digest = makeId env ''approval-decision''
     [(''caseId'', JStr caseId), (''decisionType'', JStr (decision_type_name t)),
      (''approverIdentityRef'', JStr (id_identityRef i)),
      (''approverIdentityHash'', JStr (id_identityHash i)), (''reason'', JStr reason),
      (''validFrom'', JStr vf), (''validUntil'', JStr vu), (''evidenceDigest'', JStr digest)]"

text \<open>Everything a decision is checked for before the journal is consulted for a replay.\<close>

record decision_plan =
  dp_case :: review_case
  dp_caseId :: string
  dp_type :: decision_type
  dp_reason :: string
  dp_approver :: identity
  dp_interval :: "string \<times> string"
  dp_digest :: string
  dp_decisionId :: string
  dp_now :: int

definition plan_decision :: "js_env \<Rightarrow> resolver \<Rightarrow> int option \<Rightarrow> int option \<Rightarrow> decision_request
    \<Rightarrow> 'g store \<Rightarrow> refusal + decision_plan" where
  "plan_decision env resolve clock1 clock2 q s =
     bind_result (malformed MALFORMED_DECISION (decision_input q)) (\<lambda>inp.
     bind_result (readCase env clock1 s (JStr (di_caseId inp))) (\<lambda>cr.
     let c = cr_case cr in
     bind_result (guard_result (\<not> (reasonRequired (di_decisionType inp) c \<and> di_reason inp = []))
       (Fail DECISION_REASON_REQUIRED)) (\<lambda>_. (case clock2 of
         None \<Rightarrow> Inl (Fail DURABILITY_UNAVAILABLE)
       | Some now \<Rightarrow>
         bind_result (guard_result (\<not> (cs_expiryEffective c \<or> time_le env (cs_expiresAt c) now))
           (Fail CASE_EXPIRED)) (\<lambda>_.
         (case resolveRoleIdentity resolve Approver (dq_approverContext q) (decisionScopeAction c) of
            Inl reason \<Rightarrow> Inl (Fail reason)
          | Inr i \<Rightarrow> (case decision_gates c i (di_decisionType inp) of
              Inl reason \<Rightarrow> Inl (Fail reason)
            | Inr _ \<Rightarrow> (case quorum_decision env s (di_caseId inp) c i now (di_decisionType inp) of
                Inl reason \<Rightarrow> Inl (Fail reason)
              | Inr t \<Rightarrow>
                  bind_result (decision_interval env q c now) (\<lambda>iv.
                  bind_result (uncaught (boundedText (or_else (dq_evidenceDigest q) (JStr (cs_evidenceDigest c)))
                    ''evidenceDigest'' True MAX_TEXT)) (\<lambda>digest.
                  bind_result (guard_result (digest = cs_evidenceDigest c) (Fail SCOPE_MISMATCH)) (\<lambda>_.
                  bind_result (uncaught (boundedText (dq_decisionId q) ''decisionId'' False MAX_TEXT)) (\<lambda>did.
                    Inr \<lparr>dp_case = c, dp_caseId = di_caseId inp, dp_type = t, dp_reason = di_reason inp,
                      dp_approver = i, dp_interval = iv, dp_digest = digest,
                      dp_decisionId = (if did \<noteq> [] then did else derived_decision_id env (di_caseId inp) t i
                        (di_reason inp) (fst iv) (snd iv) digest),
                      dp_now = now\<rparr>))))))))))))"

definition new_decision :: "js_env \<Rightarrow> decision_plan \<Rightarrow> jsval \<Rightarrow> decision" where
  "new_decision env p metadata = (let c = dp_case p; i = dp_approver p in
     \<lparr>dc_decisionId = dp_decisionId p, dc_decisionType = dp_type p, dc_caseId = dp_caseId p,
      dc_workspaceId = cs_workspaceId c, dc_approverRef = id_identityRef i,
      dc_approverHash = id_identityHash i, dc_ownerActorId = id_ownerActorId i,
      dc_authorityRef = id_authorityRef i, dc_requesterIdentityRef = rq_identityRef (cs_requester c),
      dc_actionFingerprint = cs_actionFingerprint c, dc_argsDigest = cs_argsDigest c,
      dc_connectorRef = cs_connectorRef c, dc_resourceRef = cs_resourceRef c,
      dc_policyVersion = cs_policyVersion c, dc_firewallVersion = cs_firewallVersion c,
      dc_evidenceDigest = dp_digest p, dc_reason = dp_reason p, dc_validFrom = fst (dp_interval p),
      dc_validUntil = snd (dp_interval p), dc_decidedAt = iso_at env (dp_now p),
      dc_selfApprovalException = selfApprovalException c i, dc_metadata = metadata, dc_receiptId = []\<rparr>)"

definition decided_case :: "decision_plan \<Rightarrow> review_case" where
  "decided_case p = (let c = dp_case p; st = next_status (dp_type p) in
     c\<lparr>cs_status := st, cs_latestDecisionId := dp_decisionId p,
       cs_latestDecisionType := Some (dp_type p),
       cs_executionOutcome := (if st = Approved then Not_attempted else cs_executionOutcome c),
       cs_expiryEffective := False\<rparr>)"

definition decision_metadata :: "decision_plan \<Rightarrow> jsfields" where
  "decision_metadata p = (let c = dp_case p; i = dp_approver p in
     [(''decisionId'', JStr (dp_decisionId p)), (''evidenceDigest'', JStr (dp_digest p)),
      (''verifiedFields'', refs_json [''caseId'', ''actionFingerprint'', ''argsDigest'', ''workspaceId'',
         ''connectorRef'', ''resourceRef'', ''policyVersion'', ''firewallVersion'', ''evidenceDigest'']),
      (''requestedFields'', refs_json [''reason'']), (''unverifiedFields'', refs_json []),
      (''selfApprovalException'', JBool (selfApprovalException c i)),
      (''approverIdentityRef'', JStr (id_identityRef i)),
      (''approverIdentityHash'', JStr (id_identityHash i)),
      (''approverAuthorityRef'', JStr (id_authorityRef i)),
      (''requesterIdentityRef'', JStr (rq_identityRef (cs_requester c))),
      (''requesterIdentityHash'', JStr (rq_identityHash (cs_requester c)))])"

record decision_reply =
  dy_replayed :: bool
  dy_case :: review_case
  dy_decision :: "decision option"
  dy_receipt :: "receipt_row option"
  dy_verification :: "trust_verdict option"

definition decide :: "js_env \<Rightarrow> receipt_deps \<Rightarrow> resolver \<Rightarrow> int option \<Rightarrow> int option \<Rightarrow> run_conditions
    \<Rightarrow> decision_request \<Rightarrow> 'g store \<Rightarrow> (refusal + decision_reply) \<times> 'g store" where
  "decide env deps resolve clock1 clock2 rc q s = (case plan_decision env resolve clock1 clock2 q s of
       Inl r \<Rightarrow> (Inl r, s)
     | Inr p \<Rightarrow>
         let operationId = decisionOperationId (dp_caseId p) (dp_decisionId p);
             fresh = (case uncaught (safeMetadata env (dq_metadata q)) of
                 Inl r \<Rightarrow> (Inl r, s)
               | Inr metadata \<Rightarrow> (case uncaught (buildLedgerEvent env operationId (dp_case p)
                       (Approval_event (dp_type p)) (decision_type_name (dp_type p)) (dp_reason p)
                       (iso_at env (dp_now p)) (decision_metadata p) Not_attempted) of
                     Inl r \<Rightarrow> (Inl r, s)
                   | Inr event \<Rightarrow> (case appendState env deps rc event (decided_case p)
                           (Some (new_decision env p metadata)) None s of
                         (Inr ap, s') \<Rightarrow> (case ap_state ap of
                             Oversight st \<Rightarrow> (Inr \<lparr>dy_replayed = ap_replayed ap, dy_case = st_case st,
                               dy_decision = st_decision st, dy_receipt = ap_receipt ap,
                               dy_verification = Some (ap_verification ap)\<rparr>, s')
                           | Other v \<Rightarrow> (Inl (Fail DURABILITY_UNAVAILABLE), s'))
                       | (Inl e, s') \<Rightarrow> (Inl (Fail DURABILITY_UNAVAILABLE), s'))))
         in (case readResult s operationId of
               Some (Oversight stored, receipt) \<Rightarrow> (case st_decision stored of
                   Some d \<Rightarrow> (Inr \<lparr>dy_replayed = True, dy_case = st_case stored, dy_decision = Some d,
                     dy_receipt = receipt, dy_verification = None\<rparr>, s)
                 | None \<Rightarrow> fresh)
             | _ \<Rightarrow> fresh))"

end
