(* ===== verification/Oversight_Execution.thy ===== *)
theory Oversight_Execution
  imports Oversight_Decide
begin

text \<open>
  Acting on an approved case: authorization, the single-use reservation and the recorded outcome
  (\<open>src/lib/human-oversight-approval-runtime-execution.js\<close>), composed as in
  \<open>src/lib/human-oversight-approval-runtime.js\<close>.  The firewall evaluator is a parameter; what the
  executor does is an argument (\<open>executor_outcome\<close>).
\<close>

section \<open>Authorization\<close>

record blocked_receipt =
  br_caseId :: string
  br_decisionId :: string
  br_workspaceId :: string
  br_actionFingerprint :: string
  br_argsDigest :: string
  br_reason :: runtime_reason
  br_consumedAt :: string
  br_consumptionNonce :: string
  br_createdAt :: string

datatype execution_refusal = Refused refusal | Consumed_refusal blocked_receipt

definition buildConsumptionBlockedReceipt :: "js_env \<Rightarrow> review_case \<Rightarrow> runtime_reason \<Rightarrow> int \<Rightarrow> blocked_receipt" where
  "buildConsumptionBlockedReceipt env c reason now = \<lparr>br_caseId = cs_caseId c,
     br_decisionId = cs_latestDecisionId c, br_workspaceId = cs_workspaceId c,
     br_actionFingerprint = cs_actionFingerprint c, br_argsDigest = cs_argsDigest c,
     br_reason = reason, br_consumedAt = cs_consumedAt c, br_consumptionNonce = cs_consumptionNonce c,
     br_createdAt = iso_at env now\<rparr>"

definition consumedRefusal :: "js_env \<Rightarrow> review_case \<Rightarrow> runtime_reason \<Rightarrow> int \<Rightarrow> execution_refusal" where
  "consumedRefusal env c reason now = (if cs_consumedAt c = [] then Refused (Fail reason)
     else Consumed_refusal (buildConsumptionBlockedReceipt env c reason now))"

record execution_request =
  xq_caseId :: jsval
  xq_action :: jsval
  xq_requesterContext :: jsval
  xq_firewallRequest :: jsval
  xq_allowDryRun :: bool

record authorization =
  au_case :: review_case
  au_approval :: decision
  au_firewall :: jsval
  au_requester :: identity

text \<open>The fields of the requested action that must be those of the case.\<close>

definition same_scope :: "review_case \<Rightarrow> action \<Rightarrow> bool" where
  "same_scope c a = (ac_workspaceId a = cs_workspaceId c \<and> ac_connectorRef a = cs_connectorRef c
     \<and> ac_resourceRef a = cs_resourceRef c \<and> ac_actionFingerprint a = cs_actionFingerprint c
     \<and> ac_policyVersion a = cs_policyVersion c \<and> ac_firewallVersion a = cs_firewallVersion c
     \<and> ac_requestedVerdict a = cs_requestedVerdict c \<and> ac_riskScore a = cs_riskScore c)"

definition approval_matches :: "decision \<Rightarrow> review_case \<Rightarrow> bool" where
  "approval_matches d c = (dc_decisionType d \<in> {Approve, Override} \<and> dc_caseId d = cs_caseId c
     \<and> dc_actionFingerprint d = cs_actionFingerprint c \<and> dc_workspaceId d = cs_workspaceId c
     \<and> dc_connectorRef d = cs_connectorRef c \<and> dc_resourceRef d = cs_resourceRef c
     \<and> dc_policyVersion d = cs_policyVersion c \<and> dc_firewallVersion d = cs_firewallVersion c
     \<and> dc_evidenceDigest d = cs_evidenceDigest c)"

definition latest_approval :: "'g store \<Rightarrow> review_case \<Rightarrow> decision option" where
  "latest_approval s c = (if cs_latestDecisionId c = [] then None
     else case readResult s (decisionOperationId (cs_caseId c) (cs_latestDecisionId c)) of
         Some (Oversight st, _) \<Rightarrow> st_decision st
       | _ \<Rightarrow> None)"

definition approval_in_force :: "js_env \<Rightarrow> decision \<Rightarrow> review_case \<Rightarrow> int \<Rightarrow> bool" where
  "approval_in_force env d c now = (case (date_parse env (dc_validFrom d), date_parse env (dc_validUntil d)) of
       (Some vf, Some vu) \<Rightarrow> vf \<le> now \<and> now < vu
         \<and> (case date_parse env (cs_expiresAt c) of None \<Rightarrow> True | Some x \<Rightarrow> vu \<le> x)
     | _ \<Rightarrow> False)"

definition or_text :: "string \<Rightarrow> string \<Rightarrow> string" where
  "or_text s t = (if s \<noteq> [] then s else t)"

definition execution_firewall_request :: "review_case \<Rightarrow> action \<Rightarrow> jsval \<Rightarrow> jsval" where
  "execution_firewall_request c a request = JObj (spread (own_fields (json_clone request))
     [(''surface'', JStr ''human-oversight-execution''), (''tool'', JStr (ac_toolName a)),
      (''action'', JStr (ac_actionType a)),
      (''input'', JObj [(''action'', JStr (ac_actionType a)), (''operationType'', JStr (ac_actionType a)),
         (''target'', JStr (or_text (ac_target a) (ac_resourceRef a)))]),
      (''context'', JObj (spread (if isPlainObject (jget request ''context'') then own_fields (jget request ''context'')
           else [])
         [(''workspaceId'', JStr (cs_workspaceId c)),
          (''actor'', JStr (''agent:'' @ or_text (rq_agentId (cs_requester c)) (rq_identityRef (cs_requester c))))])),
      (''approval'', JObj [(''explicit'', JBool True), (''approved'', JBool True), (''reviewed'', JBool True),
         (''reviewedBy'', JStr (cs_latestDecisionId c))])])"

type_synonym firewall = "jsval \<Rightarrow> jsval option"

definition firewall_gate :: "firewall \<Rightarrow> review_case \<Rightarrow> action \<Rightarrow> jsval \<Rightarrow> runtime_reason + jsval" where
  "firewall_gate firewall c a firewallRequest =
     (let request = (if firewallRequest = JUndefined then JObj [] else firewallRequest) in
      case (if request = JNull then None else firewall (execution_firewall_request c a request)) of
        None \<Rightarrow> Inl FIREWALL_EVALUATION_FAILED
      | Some verdict \<Rightarrow>
          if jget verdict ''decision'' \<noteq> JStr ''allow''
            then Inl (if jget verdict ''decision'' = JStr ''block'' then BLOCKED_BY_FIREWALL else FIREWALL_MISMATCH)
          else let v = jget (jget verdict ''metadata'') ''firewallVersion'' in
            if truthy v \<and> v \<noteq> JStr (cs_firewallVersion c) then Inl FIREWALL_MISMATCH
            else Inr verdict)"

text \<open>The gates on the state of the case.\<close>

definition case_gate :: "js_env \<Rightarrow> review_case \<Rightarrow> int \<Rightarrow> execution_refusal + unit" where
  "case_gate env c now =
     (if cs_expiryEffective c \<or> time_le env (cs_expiresAt c) now then Inl (Refused (Fail CASE_EXPIRED))
      else if cs_status c \<noteq> Approved then
        (if cs_consumedAt c \<noteq> [] \<and> cs_status c \<in> {Executed, Reconciliation_required}
           then Inl (consumedRefusal env c APPROVAL_ALREADY_CONSUMED now)
         else Inl (Refused (Fail APPROVAL_REQUIRED)))
      else if cs_latestDecisionType c \<notin> {Some Approve, Some Override}
        then Inl (Refused (Fail APPROVAL_REQUIRED))
      else Inr ())"

definition refused :: "refusal + 'a \<Rightarrow> execution_refusal + 'a" where
  "refused r = (case r of Inl e \<Rightarrow> Inl (Refused e) | Inr x \<Rightarrow> Inr x)"

definition failing :: "runtime_reason + 'a \<Rightarrow> execution_refusal + 'a" where
  "failing r = (case r of Inl e \<Rightarrow> Inl (Refused (Fail e)) | Inr x \<Rightarrow> Inr x)"

lemma refused_Inr [simp]: "refused r = Inr x \<longleftrightarrow> r = Inr x"
  by (cases r) (auto simp: refused_def)

lemma failing_Inr [simp]: "failing r = Inr x \<longleftrightarrow> r = Inr x"
  by (cases r) (auto simp: failing_def)

definition authorizeExecution :: "js_env \<Rightarrow> resolver \<Rightarrow> firewall \<Rightarrow> int option \<Rightarrow> int option
    \<Rightarrow> execution_request \<Rightarrow> 'g store \<Rightarrow> execution_refusal + authorization" where
  "authorizeExecution env resolve firewall clock1 clock2 q s =
     bind_result (refused (readCase env clock1 s (xq_caseId q))) (\<lambda>cr. let c = cr_case cr in
     (case clock2 of
        None \<Rightarrow> Inl (Refused (Fail DURABILITY_UNAVAILABLE))
      | Some now \<Rightarrow>
          bind_result (case_gate env c now) (\<lambda>_.
          bind_result (refused (malformed ACTION_MISMATCH (normalizeAction env
            (action_with_verdict (xq_action q) (JStr (firewall_name (cs_requestedVerdict c))))))) (\<lambda>a.
          bind_result (failing (guard_result (same_scope c a) SCOPE_MISMATCH)) (\<lambda>_.
          bind_result (failing (guard_result (cs_argsDigest c = [] \<or> ac_argsDigest a = cs_argsDigest c)
            ARGS_DIGEST_MISMATCH)) (\<lambda>_.
          bind_result (failing (resolveRoleIdentity resolve Requester (xq_requesterContext q) a)) (\<lambda>i.
          bind_result (failing (guard_result (id_identityRef i = rq_identityRef (cs_requester c)
              \<and> id_identityHash i = rq_identityHash (cs_requester c)) REQUESTER_IDENTITY_REQUIRED)) (\<lambda>_.
          bind_result (failing (guard_result (\<not> (cs_requestedVerdict c = FW_dry_run_only \<and> \<not> xq_allowDryRun q))
            DRY_RUN_EXECUTOR_BLOCKED)) (\<lambda>_.
          (case latest_approval s c of
             None \<Rightarrow> Inl (Refused (Fail APPROVAL_REQUIRED))
           | Some d \<Rightarrow>
               bind_result (failing (guard_result (approval_matches d c) APPROVAL_REQUIRED)) (\<lambda>_.
               bind_result (failing (guard_result (approval_in_force env d c now) CASE_EXPIRED)) (\<lambda>_.
               bind_result (failing (firewall_gate firewall c a (xq_firewallRequest q))) (\<lambda>verdict.
                 Inr \<lparr>au_case = c, au_approval = d, au_firewall = verdict, au_requester = i\<rparr>)))))))))))))"

section \<open>The reservation\<close>

definition reserved_case :: "js_env \<Rightarrow> string \<Rightarrow> int \<Rightarrow> review_case \<Rightarrow> review_case" where
  "reserved_case env operationId now c =
     c\<lparr>cs_status := Executing, cs_consumedAt := iso_at env now, cs_consumptionNonce := operationId\<rparr>"

text \<open>The operation id is made from the case id of the request, as it was given.\<close>

definition reserveExecution :: "js_env \<Rightarrow> receipt_deps \<Rightarrow> int option \<Rightarrow> run_conditions \<Rightarrow> string
    \<Rightarrow> review_case \<Rightarrow> 'g store \<Rightarrow> (execution_refusal + review_case) \<times> 'g store" where
  "reserveExecution env deps clock rc caseId c s = (case clock of
       None \<Rightarrow> (Inl (Refused (Fail DURABILITY_UNAVAILABLE)), s)
     | Some now \<Rightarrow>
         let operationId = executionReservationOperationId caseId in
         (case refused (uncaught (buildLedgerEvent env operationId c Execution_reserved ''approve''
               ''execution_claim_reserved'' (iso_at env now)
               [(''reservation'', JStr ''execution_claim'')] Not_attempted)) of
            Inl r \<Rightarrow> (Inl r, s)
          | Inr event \<Rightarrow> (case appendState env deps rc event (reserved_case env operationId now c) None None s of
                (Inl e, s') \<Rightarrow> (Inl (Refused (Fail DURABILITY_UNAVAILABLE)), s')
              | (Inr ap, s') \<Rightarrow>
                  if ap_replayed ap then (Inl (Refused (Fail EXECUTION_ALREADY_RESERVED)), s')
                  else (case ap_state ap of
                      Oversight st \<Rightarrow> (Inr (st_case st), s')
                    | Other v \<Rightarrow> (Inl (Refused (Threw ''case'')), s')))))"

record execution_conditions =
  xc_clock1 :: "int option"
  xc_clock2 :: "int option"
  xc_clock3 :: "int option"
  xc_run :: run_conditions

text \<open>The executor runs exactly when this returns \<open>Inr\<close>.\<close>

definition prepareExecution :: "js_env \<Rightarrow> receipt_deps \<Rightarrow> resolver \<Rightarrow> firewall \<Rightarrow> execution_conditions
    \<Rightarrow> bool \<Rightarrow> execution_request \<Rightarrow> 'g store \<Rightarrow> (execution_refusal + unit) \<times> 'g store" where
  "prepareExecution env deps resolve firewall xc executorIsFunction q s =
     (if \<not> executorIsFunction then (Inl (Refused (Fail APPROVAL_REQUIRED)), s)
      else case authorizeExecution env resolve firewall (xc_clock1 xc) (xc_clock2 xc)
             (q\<lparr>xq_allowDryRun := False\<rparr>) s of
          Inl r \<Rightarrow> (Inl r, s)
        | Inr authorization \<Rightarrow>
            (case reserveExecution env deps (xc_clock3 xc) (xc_run xc) (js_text (xq_caseId q))
                   (au_case authorization) s of
               (Inl r, s') \<Rightarrow> (Inl r, s')
             | (Inr c, s') \<Rightarrow> (Inr (), s')))"

section \<open>The outcome\<close>

record outcome_request =
  oq_caseId :: jsval
  oq_outcomeId :: jsval
  oq_outcome :: jsval
  oq_reason :: jsval
  oq_metadata :: jsval

record outcome_reply =
  oy_replayed :: bool
  oy_case :: review_case
  oy_execution :: "execution option"
  oy_receipt :: "receipt_row option"
  oy_verification :: "trust_verdict option"

definition outcome_status :: "execution_outcome \<Rightarrow> case_status" where
  "outcome_status o' = (if o' = Succeeded then Executed else if o' = Unknown then Reconciliation_required
     else Approved)"

record outcome_plan =
  op_case :: review_case
  op_outcome :: execution_outcome
  op_outcomeId :: string
  op_caseId :: string
  op_now :: int

definition plan_outcome :: "js_env \<Rightarrow> int option \<Rightarrow> int option \<Rightarrow> outcome_request \<Rightarrow> 'g store
    \<Rightarrow> refusal + outcome_plan" where
  "plan_outcome env clock1 clock2 q s =
     bind_result (readCase env clock1 s (oq_caseId q)) (\<lambda>cr. let c = cr_case cr in
     (case clock2 of
        None \<Rightarrow> Inl (Fail DURABILITY_UNAVAILABLE)
      | Some now \<Rightarrow>
          bind_result (guard_result (cs_status c \<in> {Approved, Executing, Executed, Reconciliation_required})
            (Fail APPROVAL_REQUIRED)) (\<lambda>_.
          (case outcome_of (oq_outcome q) of
             None \<Rightarrow> Inl (Fail MALFORMED_DECISION)
           | Some o' \<Rightarrow>
               bind_result (uncaught (boundedText (oq_outcomeId q) ''outcomeId'' False MAX_TEXT)) (\<lambda>oid.
                 Inr \<lparr>op_case = c, op_outcome = o',
                   op_outcomeId = (if oid \<noteq> [] then oid else makeId env ''execution-outcome''
                     [(''caseId'', oq_caseId q), (''outcome'', oq_outcome q),
                      (''reason'', if oq_reason q = JUndefined then JStr [] else oq_reason q)]),
                   op_caseId = js_text (oq_caseId q), op_now = now\<rparr>)))))"

definition recordExecutionOutcome :: "js_env \<Rightarrow> receipt_deps \<Rightarrow> int option \<Rightarrow> int option \<Rightarrow> run_conditions
    \<Rightarrow> outcome_request \<Rightarrow> 'g store \<Rightarrow> (refusal + outcome_reply) \<times> 'g store" where
  "recordExecutionOutcome env deps clock1 clock2 rc q s = (case plan_outcome env clock1 clock2 q s of
       Inl r \<Rightarrow> (Inl r, s)
     | Inr p \<Rightarrow>
         let operationId = outcomeOperationId (op_caseId p) (op_outcomeId p); c = op_case p;
             fresh = (case bind_result (uncaught (boundedText (oq_reason q) ''reason'' False MAX_REASON)) (\<lambda>reason.
                 bind_result (uncaught (safeMetadata env (oq_metadata q))) (\<lambda>metadata.
                 bind_result (uncaught (buildLedgerEvent env operationId c Execution_outcome ''approve'' reason
                     (iso_at env (op_now p))
                     [(''outcomeId'', JStr (op_outcomeId p)),
                      (''verifiedFields'', refs_json [''caseId'', ''actionFingerprint'', ''workspaceId'', ''latestDecisionId'']),
                      (''requestedFields'', refs_json []),
                      (''unverifiedFields'', refs_json (if op_outcome p = Unknown then [''executor outcome''] else []))]
                     (op_outcome p))) (\<lambda>event.
                   Inr (event, \<lparr>ex_caseId = cs_caseId c, ex_outcomeId = op_outcomeId p, ex_outcome = op_outcome p,
                     ex_reason = reason, ex_observedAt = iso_at env (op_now p), ex_metadata = metadata,
                     ex_receiptId = []\<rparr>)))) of
                 Inl r \<Rightarrow> (Inl r, s)
               | Inr (event, execution) \<Rightarrow> (case appendState env deps rc event
                       (c\<lparr>cs_status := outcome_status (op_outcome p), cs_executionOutcome := op_outcome p,
                          cs_latestReceiptId := []\<rparr>) None (Some execution) s of
                     (Inr ap, s') \<Rightarrow> (case ap_state ap of
                         Oversight st \<Rightarrow> (Inr \<lparr>oy_replayed = ap_replayed ap, oy_case = st_case st,
                           oy_execution = st_execution st, oy_receipt = ap_receipt ap,
                           oy_verification = Some (ap_verification ap)\<rparr>, s')
                       | Other v \<Rightarrow> (Inl (Fail DURABILITY_UNAVAILABLE), s'))
                   | (Inl e, s') \<Rightarrow> (Inl (Fail DURABILITY_UNAVAILABLE), s')))
         in (case readResult s operationId of
               Some (Oversight stored, receipt) \<Rightarrow> (case st_execution stored of
                   Some x \<Rightarrow> (Inr \<lparr>oy_replayed = True, oy_case = st_case stored, oy_execution = Some x,
                     oy_receipt = receipt, oy_verification = None\<rparr>, s)
                 | None \<Rightarrow> fresh)
             | _ \<Rightarrow> fresh))"

section \<open>Execution\<close>

datatype executor_outcome = Executor_threw | Executor_promise | Executor_returned jsval

datatype execution_reply =
    Not_run execution_refusal
  | Ran_unknown "refusal + outcome_reply"
  | Ran_unrecorded jsval refusal
  | Ran_recorded bool jsval outcome_reply
  | Ran_then_threw outcome_reply

definition outcome_request_for :: "jsval \<Rightarrow> string \<Rightarrow> string \<Rightarrow> outcome_request" where
  "outcome_request_for caseId outcome reason = \<lparr>oq_caseId = caseId, oq_outcomeId = JUndefined,
     oq_outcome = JStr outcome, oq_reason = JStr reason, oq_metadata = JUndefined\<rparr>"

definition unknownExecution :: "js_env \<Rightarrow> receipt_deps \<Rightarrow> int option \<Rightarrow> int option \<Rightarrow> run_conditions
    \<Rightarrow> jsval \<Rightarrow> 'g store \<Rightarrow> execution_reply \<times> 'g store" where
  "unknownExecution env deps clock1 clock2 rc caseId s =
     (case recordExecutionOutcome env deps clock1 clock2 rc
        (outcome_request_for caseId ''unknown'' ''approval.execution_outcome_unknown'') s of
        (recorded, s') \<Rightarrow> (Ran_unknown recorded, s'))"

text \<open>Nothing that is returned cannot be cloned into the answer: the outcome is recorded and the call throws.\<close>

definition completeExecution :: "js_env \<Rightarrow> receipt_deps \<Rightarrow> int option \<Rightarrow> int option \<Rightarrow> run_conditions
    \<Rightarrow> jsval \<Rightarrow> jsval \<Rightarrow> 'g store \<Rightarrow> execution_reply \<times> 'g store" where
  "completeExecution env deps clock1 clock2 rc caseId result s =
     (let failed = (jget result ''ok'' = JBool False) in
      case recordExecutionOutcome env deps clock1 clock2 rc (outcome_request_for caseId
          (if failed then ''failed'' else ''succeeded'')
          (if failed then ''executor_returned_failure'' else ''executor_completed'')) s of
        (Inl r, s') \<Rightarrow> (Ran_unrecorded result r, s')
      | (Inr y, s') \<Rightarrow> (if result = JUndefined then Ran_then_threw y
          else Ran_recorded (\<not> failed) (json_clone result) y, s'))"

definition after_executor :: "js_env \<Rightarrow> receipt_deps \<Rightarrow> int option \<Rightarrow> int option \<Rightarrow> run_conditions
    \<Rightarrow> jsval \<Rightarrow> executor_outcome \<Rightarrow> 'g store \<Rightarrow> execution_reply \<times> 'g store" where
  "after_executor env deps clock1 clock2 rc caseId outcome s = (case outcome of
       Executor_returned result \<Rightarrow> completeExecution env deps clock1 clock2 rc caseId result s
     | _ \<Rightarrow> unknownExecution env deps clock1 clock2 rc caseId s)"

definition executeApprovedSync :: "js_env \<Rightarrow> receipt_deps \<Rightarrow> resolver \<Rightarrow> firewall \<Rightarrow> execution_conditions
    \<Rightarrow> int option \<Rightarrow> int option \<Rightarrow> run_conditions \<Rightarrow> execution_request \<Rightarrow> executor_outcome option
    \<Rightarrow> 'g store \<Rightarrow> execution_reply \<times> 'g store" where
  "executeApprovedSync env deps resolve firewall xc clock4 clock5 rc q executor s =
     (case prepareExecution env deps resolve firewall xc (executor \<noteq> None) q s of
        (Inl r, s') \<Rightarrow> (Not_run r, s')
      | (Inr _, s') \<Rightarrow> after_executor env deps clock4 clock5 rc (xq_caseId q) (the executor) s')"

text \<open>
  The asynchronous variant awaits the executor; \<open>meanwhile\<close> is what happens to the store until the
  awaited promise settles.
\<close>

definition executeApproved :: "js_env \<Rightarrow> receipt_deps \<Rightarrow> resolver \<Rightarrow> firewall \<Rightarrow> execution_conditions
    \<Rightarrow> int option \<Rightarrow> int option \<Rightarrow> run_conditions \<Rightarrow> execution_request \<Rightarrow> executor_outcome option
    \<Rightarrow> ('g store \<Rightarrow> 'g store) \<Rightarrow> 'g store \<Rightarrow> execution_reply \<times> 'g store" where
  "executeApproved env deps resolve firewall xc clock4 clock5 rc q executor meanwhile s =
     (case prepareExecution env deps resolve firewall xc (executor \<noteq> None) q s of
        (Inl r, s') \<Rightarrow> (Not_run r, s')
      | (Inr _, s') \<Rightarrow> after_executor env deps clock4 clock5 rc (xq_caseId q) (the executor) (meanwhile s'))"

end
