(* ===== verification/Oversight_Facts.thy ===== *)
theory Oversight_Facts
  imports Oversight_Execution
begin

text \<open>
  What the oversight runtime guarantees: every operation is at most one journalled mutation, an
  approval is used at most once, a requester cannot approve its own request, a critical request
  needs its quorum, and nothing is executed without a matching approval in force.
\<close>

section \<open>Every operation is at most one mutation\<close>

definition one_mutation :: "js_env \<Rightarrow> receipt_deps \<Rightarrow> 'g store \<Rightarrow> 'g store \<Rightarrow> bool" where
  "one_mutation env deps s s' = (s' = s \<or> (\<exists>req. builds_ok req \<and> s' = journal_step env deps req s))"

lemma one_mutation_same [simp]: "one_mutation env deps s s"
  by (simp add: one_mutation_def)

lemma one_mutation_keeps:
  "one_mutation env deps s s' \<Longrightarrow> committed_row s k = Some v \<Longrightarrow> committed_row s' k = Some v"
  by (auto simp: one_mutation_def dest: run_once_committed_row)

lemma one_mutation_chained:
  assumes "one_mutation env deps s s'" "digest_text_ok env" "gs_journal s = Inr j" "journal_chained env j"
  shows "\<exists>j'. gs_journal s' = Inr j' \<and> journal_chained env j'"
  using assms run_once_chained [OF assms(3,4) _ assms(2)] by (auto simp: one_mutation_def)

lemma builds_ok_ledger_request: "payload_ok p \<Longrightarrow> builds_ok (ledger_request i m p rc)"
  by (simp add: builds_ok_def ledger_request_def)

lemma ledger_append_one:
  "ledger_append env deps i event m rc s = (r, s') \<Longrightarrow> one_mutation env deps s s'"
  using ledger_append_state builds_ok_ledger_request unfolding one_mutation_def by metis

lemma appendState_one:
  assumes "appendState env deps rc event c d x s = (r, s')"
  shows "one_mutation env deps s s'"
proof (cases "buildTrustEvidencePayload env (JObj (ev_fields event))")
  case (Inl e)
  with assms show ?thesis by (simp add: appendState_def)
next
  case (Inr payload)
  let ?st = "stamp_receipt (ev_eventType event) (js_text (jget payload ''receiptId''))
      \<lparr>st_event = \<lparr>se_eventType = ev_eventType event, se_decisionType = ev_decisionType event,
          se_caseId = cs_caseId c, se_createdAt = ev_createdAt event, se_reason = ev_reason event\<rparr>,
        st_case = c, st_decision = d, st_execution = x\<rparr>"
  obtain r' s'' where l: "ledger_append env deps (ev_operationId event) (JObj (ev_fields event))
      (\<lambda>g. Inr (Oversight ?st, g)) rc s = (r', s'')" by fastforce
  with Inr assms have "s' = s''" by (auto simp: appendState_def Let_def split: sum.splits)
  moreover from l have "one_mutation env deps s s''" by (rule ledger_append_one)
  ultimately show ?thesis by simp
qed

lemma appendState_fresh:
  assumes run: "appendState env deps rc event c d x s = (Inr ap, s')" and fresh: "\<not> ap_replayed ap"
  shows "\<exists>rid. ap_state ap = Oversight (stamp_receipt (ev_eventType event) rid
      \<lparr>st_event = \<lparr>se_eventType = ev_eventType event, se_decisionType = ev_decisionType event,
          se_caseId = cs_caseId c, se_createdAt = ev_createdAt event, se_reason = ev_reason event\<rparr>,
        st_case = c, st_decision = d, st_execution = x\<rparr>)"
    and "committed_row s (trim (ev_operationId event)) = None"
    and "committed_row s' (trim (ev_operationId event)) \<noteq> None"
proof -
  from run obtain payload where p: "buildTrustEvidencePayload env (JObj (ev_fields event)) = Inr payload"
    by (auto simp: appendState_def split: sum.splits)
  let ?st = "stamp_receipt (ev_eventType event) (js_text (jget payload ''receiptId''))
      \<lparr>st_event = \<lparr>se_eventType = ev_eventType event, se_decisionType = ev_decisionType event,
          se_caseId = cs_caseId c, se_createdAt = ev_createdAt event, se_reason = ev_reason event\<rparr>,
        st_case = c, st_decision = d, st_execution = x\<rparr>"
  from run p obtain e where l: "ledger_append env deps (ev_operationId event) (JObj (ev_fields event))
      (\<lambda>g. Inr (Oversight ?st, g)) rc s = (Inr e, s')"
    and e: "ap_replayed ap = le_replayed e" "ap_state ap = le_result e"
    by (auto simp: appendState_def Let_def split: sum.splits prod.splits)
  from l e fresh have "le_result e = Oversight ?st"
    by (elim ledger_append_cases)
      (auto simp: run_once_defs ledger_request_def replay_result_def
        split: if_splits sum.splits option.splits commit_fate.splits)
  with e show "\<exists>rid. ap_state ap = Oversight (stamp_receipt (ev_eventType event) rid
      \<lparr>st_event = \<lparr>se_eventType = ev_eventType event, se_decisionType = ev_decisionType event,
          se_caseId = cs_caseId c, se_createdAt = ev_createdAt event, se_reason = ev_reason event\<rparr>,
        st_case = c, st_decision = d, st_execution = x\<rparr>)" by auto
  from l have "\<not> le_replayed e" using e fresh by simp
  from ledger_append_fresh [OF l this]
  show "committed_row s (trim (ev_operationId event)) = None"
    and "committed_row s' (trim (ev_operationId event)) \<noteq> None" by blast+
qed

lemma buildLedgerEvent_id:
  "buildLedgerEvent env i c et dt r t m eo = Inr ev \<Longrightarrow> ev_operationId ev = i \<and> ev_eventType ev = et"
  by (auto simp: buildLedgerEvent_def)

lemma createReviewCase_one:
  "createReviewCase env deps resolve lifetime clock rc q s = (r, s') \<Longrightarrow> one_mutation env deps s s'"
  by (auto simp: createReviewCase_def Let_def split: sum.splits option.splits journal_value.splits
      prod.splits if_splits dest: appendState_one)

lemma decide_one:
  "decide env deps resolve c1 c2 rc q s = (r, s') \<Longrightarrow> one_mutation env deps s s'"
  by (auto simp: decide_def Let_def split: sum.splits option.splits journal_value.splits
      prod.splits if_splits dest: appendState_one)

lemma recordExecutionOutcome_one:
  "recordExecutionOutcome env deps c1 c2 rc q s = (r, s') \<Longrightarrow> one_mutation env deps s s'"
  by (auto simp: recordExecutionOutcome_def Let_def split: sum.splits option.splits journal_value.splits
      prod.splits if_splits dest: appendState_one)

lemma reserveExecution_one:
  "reserveExecution env deps clock rc cid c s = (r, s') \<Longrightarrow> one_mutation env deps s s'"
  by (auto simp: reserveExecution_def Let_def split: sum.splits option.splits journal_value.splits
      prod.splits if_splits dest: appendState_one)

lemma prepareExecution_one:
  "prepareExecution env deps resolve fw xc f q s = (r, s') \<Longrightarrow> one_mutation env deps s s'"
  by (auto simp: prepareExecution_def split: sum.splits prod.splits if_splits dest: reserveExecution_one)

section \<open>The runtime as a store with once-semantics\<close>

text \<open>
  The calls that reach the journal of a runtime, its own and those of other subsystems.  The parts of
  one \<open>executeApproved\<close> call are separate steps, so every interleaving is a list of steps.
\<close>

datatype 'g oversight_step =
    Create_case int "int option" run_conditions case_request
  | Decide "int option" "int option" run_conditions decision_request
  | Prepare execution_conditions bool execution_request
  | Record_outcome "int option" "int option" run_conditions outcome_request
  | Other_mutation "('g, journal_value) mutation_request"

fun oversight_run :: "js_env \<Rightarrow> receipt_deps \<Rightarrow> resolver \<Rightarrow> firewall \<Rightarrow> 'g oversight_step \<Rightarrow> 'g store \<Rightarrow> 'g store" where
  "oversight_run env deps resolve fw (Create_case lt c rc q) s = snd (createReviewCase env deps resolve lt c rc q s)"
| "oversight_run env deps resolve fw (Decide c1 c2 rc q) s = snd (decide env deps resolve c1 c2 rc q s)"
| "oversight_run env deps resolve fw (Prepare xc f q) s = snd (prepareExecution env deps resolve fw xc f q s)"
| "oversight_run env deps resolve fw (Record_outcome c1 c2 rc q) s = snd (recordExecutionOutcome env deps c1 c2 rc q s)"
| "oversight_run env deps resolve fw (Other_mutation req) s = journal_step env deps req s"

text \<open>The executor of the step runs.\<close>

fun executes :: "js_env \<Rightarrow> receipt_deps \<Rightarrow> resolver \<Rightarrow> firewall \<Rightarrow> 'g oversight_step \<Rightarrow> 'g store \<Rightarrow> bool" where
  "executes env deps resolve fw (Prepare xc f q) s = (fst (prepareExecution env deps resolve fw xc f q s) = Inr ())"
| "executes env deps resolve fw _ s = False"

fun executed_case :: "'g oversight_step \<Rightarrow> string" where
  "executed_case (Prepare xc f q) = js_text (xq_caseId q)"
| "executed_case _ = []"

definition reservation :: "'g store \<Rightarrow> string \<Rightarrow> journal_value op_row option" where
  "reservation s caseId = committed_row s (executionReservationOperationId caseId)"

lemma reservation_id_trimmed [simp]:
  "trim (executionReservationOperationId caseId) = executionReservationOperationId caseId"
  by (simp add: trim_def executionReservationOperationId_def executionReservationPrefix_def is_space_def)

lemma runs_one:
  "one_mutation env deps s (snd (createReviewCase env deps resolve lt c rc q1 s))"
  "one_mutation env deps s (snd (decide env deps resolve c1 c2 rc q2 s))"
  "one_mutation env deps s (snd (prepareExecution env deps resolve fw xc f q3 s))"
  "one_mutation env deps s (snd (recordExecutionOutcome env deps c1 c2 rc q4 s))"
  by (rule createReviewCase_one [OF prod.collapse [symmetric]] decide_one [OF prod.collapse [symmetric]]
      prepareExecution_one [OF prod.collapse [symmetric]]
      recordExecutionOutcome_one [OF prod.collapse [symmetric]])+

lemma oversight_run_keeps:
  "committed_row s k = Some v \<Longrightarrow> committed_row (oversight_run env deps resolve fw x s) k = Some v"
  by (cases x) (simp_all only: oversight_run.simps one_mutation_keeps [OF runs_one(1)]
      one_mutation_keeps [OF runs_one(2)] one_mutation_keeps [OF runs_one(3)]
      one_mutation_keeps [OF runs_one(4)] run_once_committed_row)

lemma reserve_fresh:
  assumes "reserveExecution env deps clock rc caseId c s = (Inr c', s')"
  shows "reservation s caseId = None" and "reservation s' caseId \<noteq> None"
proof -
  from assms obtain event ap where
    "ev_operationId event = executionReservationOperationId caseId"
    and a: "appendState env deps rc event (reserved_case env (executionReservationOperationId caseId)
        (the clock) c) None None s = (Inr ap, s')" "\<not> ap_replayed ap"
    by (auto simp: reserveExecution_def Let_def split: option.splits sum.splits prod.splits if_splits
        journal_value.splits dest: buildLedgerEvent_id)
  with appendState_fresh [OF a] show "reservation s caseId = None" "reservation s' caseId \<noteq> None"
    by (auto simp: reservation_def)
qed

lemma prepare_fresh:
  assumes "executes env deps resolve fw x s"
  shows "reservation s (executed_case x) = None"
    and "\<exists>v. reservation (oversight_run env deps resolve fw x s) (executed_case x) = Some v"
proof -
  from assms obtain xc f q where x: "x = Prepare xc f q"
    and p: "fst (prepareExecution env deps resolve fw xc f q s) = Inr ()" by (cases x) auto
  then obtain s' where p': "prepareExecution env deps resolve fw xc f q s = (Inr (), s')"
    by (metis prod.collapse)
  from p' obtain c c' where "reserveExecution env deps (xc_clock3 xc) (xc_run xc) (js_text (xq_caseId q)) c s
      = (Inr c', s')"
    by (auto simp: prepareExecution_def split: if_splits sum.splits prod.splits)
  from reserve_fresh [OF this] p' x
  show "reservation s (executed_case x) = None"
    and "\<exists>v. reservation (oversight_run env deps resolve fw x s) (executed_case x) = Some v" by auto
qed

interpretation executions: once_store "reservation :: 'g store \<Rightarrow> string \<Rightarrow> journal_value op_row option"
  "oversight_run env deps resolve fw" "executes env deps resolve fw" executed_case for env deps resolve fw
  by unfold_locales (auto simp: reservation_def intro: oversight_run_keeps
      dest: prepare_fresh [unfolded reservation_def])

section \<open>A decision that passes the gates is recorded\<close>

lemma put_operationId:
  "buildLedgerEvent env i c et dt r t m eo = Inr ev \<Longrightarrow>
     JObj (put_field ''operationId'' (JStr i) (own_fields (JObj (ev_fields ev)))) = JObj (ev_fields ev)"
  by (auto simp: buildLedgerEvent_def)

lemma appendState_succeeds:
  assumes ev: "buildLedgerEvent env i c et dt r t m eo = Inr ev"
    and p: "buildTrustEvidencePayload env (JObj (ev_fields ev)) = Inr payload"
    and h: "healthy deps i s" and f: "rc_fate rc = Commit_done" and dg: "digest_text_ok env"
  shows "\<exists>ap s'. appendState env deps rc ev c' d x s = (Inr ap, s') \<and> \<not> ap_replayed ap"
proof -
  let ?st = "stamp_receipt (ev_eventType ev) (js_text (jget payload ''receiptId''))
      \<lparr>st_event = \<lparr>se_eventType = ev_eventType ev, se_decisionType = ev_decisionType ev,
          se_caseId = cs_caseId c', se_createdAt = ev_createdAt ev, se_reason = ev_reason ev\<rparr>,
        st_case = c', st_decision = d, st_execution = x\<rparr>"
  have i: "ev_operationId ev = i" using buildLedgerEvent_id [OF ev] by simp
  have "\<exists>e s'. ledger_append env deps i (JObj (ev_fields ev)) (\<lambda>g. Inr (Oversight ?st, g)) rc s = (Inr e, s')
      \<and> \<not> le_replayed e \<and> le_result e = Oversight ?st"
    using ledger_append_succeeds [OF _ h _ f dg, where event = "JObj (ev_fields ev)" and payload = payload]
      p put_operationId [OF ev] by simp
  then show ?thesis using p i by (auto simp: appendState_def Let_def)
qed

lemma decide_records:
  assumes plan: "plan_decision env resolve c1 c2 q s = Inr p"
    and meta: "safeMetadata env (dq_metadata q) = Inr metadata"
    and ev: "buildLedgerEvent env (decisionOperationId (dp_caseId p) (dp_decisionId p)) (dp_case p)
        (Approval_event (dp_type p)) (decision_type_name (dp_type p)) (dp_reason p)
        (iso_at env (dp_now p)) (decision_metadata p) Not_attempted = Inr ev"
    and pl: "buildTrustEvidencePayload env (JObj (ev_fields ev)) = Inr payload"
    and h: "healthy deps (decisionOperationId (dp_caseId p) (dp_decisionId p)) s"
    and f: "rc_fate rc = Commit_done" and dg: "digest_text_ok env"
  shows "\<exists>y s'. decide env deps resolve c1 c2 rc q s = (Inr y, s') \<and> \<not> dy_replayed y"
proof -
  let ?i = "decisionOperationId (dp_caseId p) (dp_decisionId p)"
  obtain ap s' where ap: "appendState env deps rc ev (decided_case p) (Some (new_decision env p metadata)) None s
      = (Inr ap, s')" "\<not> ap_replayed ap"
    using appendState_succeeds [OF ev pl h f dg] by blast
  from appendState_fresh(1) [OF ap] obtain st where st: "ap_state ap = Oversight st" by blast
  from h have "readResult s ?i = None"
    by (auto simp: healthy_def readResult_def readCommittedMutationResult_def Let_def split: sum.splits)
  then show ?thesis
    by (simp add: decide_def plan Let_def uncaught_def meta ev ap st)
qed

lemma decide_fresh:
  assumes run: "decide env deps resolve c1 c2 rc q s = (Inr y, s')" and fresh: "\<not> dy_replayed y"
  obtains p metadata rid where "plan_decision env resolve c1 c2 q s = Inr p"
    and "dy_decision y = Some ((new_decision env p metadata)\<lparr>dc_receiptId := rid\<rparr>)"
    and "dy_case y = (decided_case p)\<lparr>cs_latestReceiptId := rid\<rparr>"
proof -
  from run obtain p where p: "plan_decision env resolve c1 c2 q s = Inr p"
    by (auto simp: decide_def split: sum.splits)
  from run p fresh obtain metadata event ap st where
    ev: "buildLedgerEvent env (decisionOperationId (dp_caseId p) (dp_decisionId p)) (dp_case p)
        (Approval_event (dp_type p)) (decision_type_name (dp_type p)) (dp_reason p)
        (iso_at env (dp_now p)) (decision_metadata p) Not_attempted = Inr event"
    and ap: "appendState env deps rc event (decided_case p) (Some (new_decision env p metadata)) None s
        = (Inr ap, s')"
    and st: "ap_state ap = Oversight st" "dy_decision y = st_decision st" "dy_case y = st_case st"
      "\<not> ap_replayed ap"
    by (auto simp: decide_def Let_def split: sum.splits option.splits journal_value.splits prod.splits)
  from appendState_fresh(1) [OF ap st(4)] st buildLedgerEvent_id [OF ev] that [OF p] show thesis
    by (auto simp: stamp_receipt_def)
qed

end
