(* ===== verification/Evaluation.thy ===== *)
theory Evaluation
  imports Trust_Ledger "HOL-Library.Code_Target_Nat"
begin

text \<open>
  Code equations for the character tests of the language primitives, on the bits of a character:
  with them the examples evaluate in the kernel in seconds.
\<close>

lemma is_digit_code [code]:
  "is_digit (Char b0 b1 b2 b3 b4 b5 b6 b7) = (b4 \<and> b5 \<and> \<not> b6 \<and> \<not> b7 \<and> (\<not> b3 \<or> (\<not> b1 \<and> \<not> b2)))"
  by (cases b0; cases b1; cases b2; cases b3; cases b4; cases b5; cases b6; cases b7; simp add: is_digit_def)

lemma is_space_bits:
  "is_space (Char b0 b1 b2 b3 b4 b5 b6 b7) = (Char b0 b1 b2 b3 b4 b5 b6 b7 \<in>
     {CHR 0x20, CHR 0x0A, CHR 0x0D, CHR 0x09, CHR 0x0B, CHR 0x0C, CHR 0xA0})"
  by (cases b0; cases b1; cases b2; cases b3; cases b4; cases b5; cases b6; cases b7; simp add: is_space_def)

lemma is_space_code [code]:
  "is_space c = (c = CHR 0x20 \<or> c = CHR 0x0A \<or> c = CHR 0x0D \<or> c = CHR 0x09 \<or> c = CHR 0x0B
     \<or> c = CHR 0x0C \<or> c = CHR 0xA0)"
  by (cases c) (simp only: is_space_bits insert_iff empty_iff disj_assoc simp_thms)

lemma lower_char_code [code]:
  "lower_char (Char b0 b1 b2 b3 b4 b5 b6 b7) =
     (let c = Char b0 b1 b2 b3 b4 b5 b6 b7 in
      if b6 \<and> \<not> b5 \<and> (if b7 then c \<noteq> CHR 0xD7 \<and> c \<noteq> CHR 0xDF
         else c \<noteq> CHR 0x40 \<and> c \<noteq> CHR 0x5B \<and> c \<noteq> CHR 0x5C \<and> c \<noteq> CHR 0x5D \<and> c \<noteq> CHR 0x5E \<and> c \<noteq> CHR 0x5F)
      then Char b0 b1 b2 b3 b4 True b6 b7 else c)"
  by (cases b0; cases b1; cases b2; cases b3; cases b4; cases b5; cases b6; cases b7;
      simp add: lower_char_def String.char_of_def bit_0 bit_Suc_0_iff)

lemma escape_char_code [code]:
  "escape_char (Char b0 b1 b2 b3 b4 b5 b6 b7) =
     (let c = Char b0 b1 b2 b3 b4 b5 b6 b7 in
      if \<not> b5 \<and> \<not> b6 \<and> \<not> b7 then
        (if c = CHR 0x08 then [CHR 0x5C, CHR ''b''] else if c = CHR 0x09 then [CHR 0x5C, CHR ''t'']
         else if c = CHR 0x0A then [CHR 0x5C, CHR ''n''] else if c = CHR 0x0C then [CHR 0x5C, CHR ''f'']
         else if c = CHR 0x0D then [CHR 0x5C, CHR ''r'']
         else [CHR 0x5C, CHR ''u'', CHR ''0'', CHR ''0'', hex_digit (of_char c div 16), hex_digit (of_char c mod 16)])
      else if c = CHR 0x22 then [CHR 0x5C, CHR 0x22] else if c = CHR 0x5C then [CHR 0x5C, CHR 0x5C]
      else [c])"
  by (cases b0; cases b1; cases b2; cases b3; cases b4; cases b5; cases b6; cases b7;
      simp add: escape_char_def Let_def)

lemma ascii_code [code_unfold]: "(of_char c < (128 :: nat)) = (\<not> digit7 c)"
proof (cases c)
  case (Char b0 b1 b2 b3 b4 b5 b6 b7)
  then show ?thesis
    by (cases b0; cases b1; cases b2; cases b3; cases b4; cases b5; cases b6; cases b7; simp)
qed

end
