(* ===== verification/Oversight_Example.thy ===== *)
theory Oversight_Example
  imports Oversight_Facts Evaluation
begin

text \<open>
  A run of the oversight runtime on concrete values, to which the properties are applied: a store with
  an empty journal, a resolver that reads the identity off the context, a case that asks for review.
\<close>

text \<open>The clock of the example knows a few instants by name.\<close>

definition instants :: "(int \<times> string) list" where
  "instants = [(1000, ''t1''), (2000, ''t2''), (3000, ''t3''), (4000, ''t4''), (5000, ''t5''), (60000, ''t60'')]"

definition clock_env :: js_env where
  "clock_env = \<lparr>date_parse = (\<lambda>t. map_option fst (find (\<lambda>p. snd p = t) instants)),
     iso_at = (\<lambda>i. case find (\<lambda>p. fst p = i) instants of Some p \<Rightarrow> snd p | None \<Rightarrow> ''later''),
     locale_compare = (\<lambda>s t. if s = t then 0 else if s < t then - 1 else 1),
     number_of_string = (\<lambda>_. None), string_of_fraction = (\<lambda>_. []), sha256_hex = (\<lambda>_. replicate 64 CHR ''a'')\<rparr>"

definition example_deps :: receipt_deps where
  "example_deps = \<lparr>rd_seal = None, rd_v2_authorized = (\<lambda>_ _. False)\<rparr>"

definition example_resolver :: resolver where
  "example_resolver r context a = Some (JObj [(''decision'', JStr ''allow''),
     (''identity'', JObj [(''identityRef'', context), (''identityHash'', JStr (''h-'' @ js_text context)),
        (''workspaceId'', JStr (ac_workspaceId a))])])"

definition example_firewall :: firewall where
  "example_firewall request = Some (JObj [(''decision'', JStr ''allow'')])"

definition example_action :: jsval where
  "example_action = JObj [(''actionFingerprint'', JStr ''f''), (''workspaceId'', JStr ''w''),
     (''policyVersion'', JStr ''1''), (''firewallVersion'', JStr ''1''), (''requestedVerdict'', JStr ''review''),
     (''requestedEffect'', JStr ''e''), (''evidenceDigest'', JStr ''d''), (''riskScore'', JNum 90)]"

definition example_policy :: policy where
  "example_policy = \<lparr>po_requireApproverDistinct = True, po_allowSelfApproval = False,
     po_allowOverride = True, po_approvalRequired = True, po_approvalCooldownMs = 0,
     po_criticalRiskScore = 80, po_requiredApprovers = 1, po_policyBasisRef = []\<rparr>"

text \<open>A case on file: pending when the firewall asked for review, blocked when it blocked.\<close>

definition example_case :: "firewall_decision \<Rightarrow> review_case" where
  "example_case v = new_case clock_env ''c'' \<lparr>ac_argsDigest = [], ac_actionFingerprint = ''f'',
       ac_workspaceId = ''w'', ac_connectorRef = [], ac_resourceRef = [], ac_policyVersion = ''1'',
       ac_firewallVersion = ''1'', ac_requestedVerdict = v, ac_requestedEffect = ''e'', ac_actionType = [],
       ac_toolName = [], ac_target = [], ac_agentId = [], ac_evidenceRefs = [], ac_provenanceRefs = [],
       ac_evidenceDigest = ''d'', ac_riskScore = 90\<rparr>
     \<lparr>id_identityRef = ''ann'', id_identityHash = ''h-ann'', id_workspaceId = ''w'', id_agentId = [],
       id_ownerActorId = [], id_authorityRef = []\<rparr> [] example_policy 1000 ''t60''"

definition state_of_case :: "event_type \<Rightarrow> review_case \<Rightarrow> decision option \<Rightarrow> oversight_state" where
  "state_of_case et c d = \<lparr>st_event = \<lparr>se_eventType = et, se_decisionType = [], se_caseId = cs_caseId c,
       se_createdAt = [], se_reason = []\<rparr>, st_case = c, st_decision = d, st_execution = None\<rparr>"

definition stored_row :: "string \<Rightarrow> oversight_state \<Rightarrow> journal_value op_row" where
  "stored_row t st = \<lparr>or_status = ''completed'', or_result = Oversight st, or_receiptId = None,
     or_committedAt = t\<rparr>"

definition store_with :: "(string \<times> journal_value op_row) list \<Rightarrow> unit store" where
  "store_with rows = \<lparr>gs_writable = True, gs_graph = (), gs_journal = Inr \<lparr>j_operations = rows,
     j_receipts = [], j_chainTips = [], j_receiptsById = [], j_seals = []\<rparr>\<rparr>"

definition example_store :: "firewall_decision \<Rightarrow> unit store" where
  "example_store v = store_with [(caseOperationId ''c'',
     stored_row ''t1'' (state_of_case Review_case_created (example_case v) None))]"

definition at_time :: "string \<Rightarrow> run_conditions" where
  "at_time t = \<lparr>rc_receiptAt = t, rc_committedAt = t, rc_fate = Commit_done\<rparr>"

definition example_decision_request :: "string \<Rightarrow> decision_request" where
  "example_decision_request kind = \<lparr>dq_caseId = JStr ''c'', dq_decisionType = JStr kind,
     dq_approverContext = JStr ''bob'', dq_reason = JStr ''ok'', dq_validFrom = JUndefined,
     dq_validUntil = JUndefined, dq_evidenceDigest = JUndefined, dq_decisionId = JStr ''x'',
     dq_metadata = JUndefined\<rparr>"

definition approved :: "(refusal + decision_reply) \<times> unit store" where
  "approved = decide clock_env example_deps example_resolver (Some 2000) (Some 2000) (at_time ''t2'')
     (example_decision_request ''approve'') (example_store FW_review)"

definition overridden :: "(refusal + decision_reply) \<times> unit store" where
  "overridden = decide clock_env example_deps example_resolver (Some 2000) (Some 2000) (at_time ''t2'')
     (example_decision_request ''override'') (example_store FW_block)"

text \<open>The decision builds its receipt, under the verdict it was asked for.\<close>

definition decision_builds :: "decision_type \<Rightarrow> decision_request \<Rightarrow> unit store \<Rightarrow> bool" where
  "decision_builds t q s = (case plan_decision clock_env example_resolver (Some 2000) (Some 2000) q s of
       Inl e \<Rightarrow> False
     | Inr p \<Rightarrow> dp_type p = t \<and> cs_policy (dp_case p) = example_policy \<and> cs_riskScore (dp_case p) = 90
         \<and> cs_firewallDecision (dp_case p) = (if t = Override then FW_block else FW_review)
         \<and> dp_caseId p = ''c'' \<and> dp_decisionId p = ''x'' \<and>
         (case buildLedgerEvent clock_env (decisionOperationId (dp_caseId p) (dp_decisionId p)) (dp_case p)
            (Approval_event (dp_type p)) (decision_type_name (dp_type p)) (dp_reason p)
            (iso_at clock_env (dp_now p)) (decision_metadata p) Not_attempted of
            Inl e \<Rightarrow> False
          | Inr ev \<Rightarrow> (case buildTrustEvidencePayload clock_env (JObj (ev_fields ev)) of
              Inl e \<Rightarrow> False | Inr payload \<Rightarrow> True)))"

lemma approval_builds: "decision_builds Approve (example_decision_request ''approve'') (example_store FW_review)"
  by code_simp

lemma override_builds: "decision_builds Override (example_decision_request ''override'') (example_store FW_block)"
  by code_simp

lemma clock_env_digest: "digest_text_ok clock_env"
  by (simp add: digest_text_ok_def clock_env_def)

lemma store_healthy: "healthy example_deps (decisionOperationId ''c'' ''x'') (example_store v)"
  by (simp add: healthy_def example_store_def store_with_def example_deps_def decisionOperationId_def
      decisionOperationPrefix_def caseOperationId_def completed_def trim_def is_space_def)

lemma no_metadata: "safeMetadata clock_env JUndefined = Inr (JObj [])"
  by code_simp

lemma example_decided:
  assumes "decision_builds t (example_decision_request k) (example_store v)"
  shows "\<exists>y s'. decide clock_env example_deps example_resolver (Some 2000) (Some 2000) (at_time ''t2'')
      (example_decision_request k) (example_store v) = (Inr y, s') \<and> \<not> dy_replayed y
    \<and> cs_policy (dy_case y) = example_policy \<and> cs_riskScore (dy_case y) = 90
    \<and> cs_status (dy_case y) = next_status t
    \<and> cs_firewallDecision (dy_case y) = (if t = Override then FW_block else FW_review)
    \<and> (\<exists>d. dy_decision y = Some d \<and> dc_decisionType d = t)"
proof -
  from assms obtain p ev payload where
    p: "plan_decision clock_env example_resolver (Some 2000) (Some 2000) (example_decision_request k)
        (example_store v) = Inr p" "dp_type p = t" "cs_policy (dp_case p) = example_policy"
      "cs_riskScore (dp_case p) = 90"
      "cs_firewallDecision (dp_case p) = (if t = Override then FW_block else FW_review)" "dp_caseId p = ''c''" "dp_decisionId p = ''x''"
    and ev: "buildLedgerEvent clock_env (decisionOperationId (dp_caseId p) (dp_decisionId p)) (dp_case p)
        (Approval_event (dp_type p)) (decision_type_name (dp_type p)) (dp_reason p)
        (iso_at clock_env (dp_now p)) (decision_metadata p) Not_attempted = Inr ev"
    and pl: "buildTrustEvidencePayload clock_env (JObj (ev_fields ev)) = Inr payload"
    by (auto simp: decision_builds_def split: sum.splits)
  have m: "safeMetadata clock_env (dq_metadata (example_decision_request k)) = Inr (JObj [])"
    by (simp add: example_decision_request_def no_metadata)
  have h: "healthy example_deps (decisionOperationId (dp_caseId p) (dp_decisionId p)) (example_store v)"
    using store_healthy p(6,7) by simp
  have "rc_fate (at_time ''t2'') = Commit_done" by (simp add: at_time_def)
  from decide_records [OF p(1) m ev pl h this clock_env_digest] obtain y s' where
    run: "decide clock_env example_deps example_resolver (Some 2000) (Some 2000) (at_time ''t2'')
      (example_decision_request k) (example_store v) = (Inr y, s')" and fresh: "\<not> dy_replayed y" by blast
  from run fresh show ?thesis
    by (rule decide_fresh) (use run fresh p in \<open>auto simp: decided_case_def Let_def new_decision_def\<close>)
qed

end
