(* ===== verification/Oversight_Properties.thy ===== *)
theory Oversight_Properties
  imports Oversight_Example
begin

text \<open>
  The rules of human oversight as theorems on the operations: what a recorded decision implies, what
  an authorized execution implies, and what stays of a case once it is opened.
\<close>

section \<open>A decision that is recorded\<close>

lemma plan_decision_cases:
  assumes "plan_decision env resolve c1 c2 q s = Inr p"
  obtains inp cr now where "decision_input q = Inr inp"
    and "readCase env c1 s (JStr (di_caseId inp)) = Inr cr" and "c2 = Some now"
    and "dp_case p = cr_case cr" and "dp_caseId p = di_caseId inp" and "dp_now p = now"
    and "dp_reason p = di_reason inp"
    and "\<not> (reasonRequired (di_decisionType inp) (dp_case p) \<and> di_reason inp = [])"
    and "\<not> (cs_expiryEffective (dp_case p) \<or> time_le env (cs_expiresAt (dp_case p)) now)"
    and "resolveRoleIdentity resolve Approver (dq_approverContext q) (decisionScopeAction (dp_case p))
      = Inr (dp_approver p)"
    and "decision_gates (dp_case p) (dp_approver p) (di_decisionType inp) = Inr ()"
    and "quorum_decision env s (di_caseId inp) (dp_case p) (dp_approver p) now (di_decisionType inp)
      = Inr (dp_type p)"
    and "decision_interval env q (dp_case p) now = Inr (dp_interval p)"
    and "dp_digest p = cs_evidenceDigest (dp_case p)"
  using assms
  by (auto simp: plan_decision_def Let_def split: option.splits sum.splits)

lemma quorum_decision_type:
  "quorum_decision env s cid c i now t = Inr t' \<Longrightarrow> t' = t \<or> t = Approve \<and> t' = Escalate"
  by (auto simp: quorum_decision_def Let_def split: if_splits sum.splits)

text \<open>The decision is one a human with the given identity was allowed to take on the case.\<close>

lemma decision_gates_ok:
  "decision_gates c i t = Inr u \<Longrightarrow>
     (sameRequester c i \<longrightarrow> \<not> po_requireApproverDistinct (cs_policy c) \<or> po_allowSelfApproval (cs_policy c))
     \<and> (t = Override \<longrightarrow> po_allowOverride (cs_policy c) \<and> cs_firewallDecision c = FW_block)
     \<and> (t = Approve \<longrightarrow> cs_firewallDecision c \<noteq> FW_block)
     \<and> cs_status c \<in> {Pending, Escalated, Blocked} \<and> (cs_status c = Blocked \<longrightarrow> t = Override)"
  by (auto simp: decision_gates_def selfApprovalException_def split: if_splits)

text \<open>
  C30: a requester does not approve its own request.  When a decision is recorded on a case whose policy
  requires a distinct approver and grants no self-approval, the approver's reference and hash both
  differ from those of the requester.
\<close>

theorem no_self_approval:
  assumes "decide env deps resolve c1 c2 rc q s = (Inr y, s')" and "\<not> dy_replayed y"
    and "po_requireApproverDistinct (cs_policy (dy_case y))"
    and "\<not> po_allowSelfApproval (cs_policy (dy_case y))"
  shows "\<exists>d. dy_decision y = Some d \<and> dc_approverRef d \<noteq> rq_identityRef (cs_requester (dy_case y))
    \<and> dc_approverHash d \<noteq> rq_identityHash (cs_requester (dy_case y))"
proof (rule decide_fresh [OF assms(1,2)])
  fix p metadata rid
  assume p: "plan_decision env resolve c1 c2 q s = Inr p"
    and d: "dy_decision y = Some ((new_decision env p metadata)\<lparr>dc_receiptId := rid\<rparr>)"
    and c: "dy_case y = (decided_case p)\<lparr>cs_latestReceiptId := rid\<rparr>"
  from p obtain t where "decision_gates (dp_case p) (dp_approver p) t = Inr ()"
    by (rule plan_decision_cases) blast
  with assms(3,4) c have "\<not> sameRequester (dp_case p) (dp_approver p)"
    by (auto dest!: decision_gates_ok simp: decided_case_def Let_def)
  with c d show ?thesis
    by (auto simp: new_decision_def decided_case_def Let_def sameRequester_def)
qed

theorem no_self_approval_witness:
  "\<exists>y d. fst approved = Inr y \<and> dy_decision y = Some d \<and> dc_decisionType d = Approve
    \<and> dc_approverRef d \<noteq> rq_identityRef (cs_requester (dy_case y))
    \<and> dc_approverHash d \<noteq> rq_identityHash (cs_requester (dy_case y))"
proof -
  from example_decided [OF approval_builds] obtain y s' d where
    y: "approved = (Inr y, s')" "\<not> dy_replayed y" "cs_policy (dy_case y) = example_policy"
      "dy_decision y = Some d" "dc_decisionType d = Approve"
    by (auto simp: approved_def)
  moreover from y(1) have "fst approved = Inr y" by (metis fst_conv)
  ultimately show ?thesis
    using no_self_approval [OF y(1) [unfolded approved_def] y(2)] by (force simp: example_policy_def)
qed

text \<open>
  C32: what the firewall blocked is approved only by an authorized override.  A recorded approval never
  concerns a case the firewall blocked, and a recorded override concerns only such a case, under a
  policy that allows it and with a reason.
\<close>

theorem blocked_needs_override:
  assumes "decide env deps resolve c1 c2 rc q s = (Inr y, s')" and "\<not> dy_replayed y"
    and "cs_status (dy_case y) = Approved" and "cs_firewallDecision (dy_case y) = FW_block"
  shows "\<exists>d. dy_decision y = Some d \<and> dc_decisionType d = Override \<and> dc_reason d \<noteq> []
    \<and> po_allowOverride (cs_policy (dy_case y))"
proof (rule decide_fresh [OF assms(1,2)])
  fix p metadata rid
  assume p: "plan_decision env resolve c1 c2 q s = Inr p"
    and d: "dy_decision y = Some ((new_decision env p metadata)\<lparr>dc_receiptId := rid\<rparr>)"
    and c: "dy_case y = (decided_case p)\<lparr>cs_latestReceiptId := rid\<rparr>"
  have st: "dp_type p \<in> {Approve, Override}" "cs_firewallDecision (dp_case p) = FW_block"
    using assms(3,4) c by (auto simp: decided_case_def Let_def next_status_def split: decision_type.splits)
  from p show ?thesis
  proof (rule plan_decision_cases)
    fix inp cr now
    assume g: "decision_gates (dp_case p) (dp_approver p) (di_decisionType inp) = Inr ()"
      and q: "quorum_decision env s (di_caseId inp) (dp_case p) (dp_approver p) now (di_decisionType inp)
        = Inr (dp_type p)"
      and r: "\<not> (reasonRequired (di_decisionType inp) (dp_case p) \<and> di_reason inp = [])"
        "dp_reason p = di_reason inp"
    from decision_gates_ok [OF g] quorum_decision_type [OF q] st
    have t: "dp_type p = Override" "di_decisionType inp = Override" "po_allowOverride (cs_policy (dp_case p))"
      by auto
    with r st have "dp_reason p \<noteq> []" by (simp add: reasonRequired_def)
    with c d t show ?thesis by (auto simp: new_decision_def decided_case_def Let_def)
  qed
qed

theorem blocked_needs_override_witness:
  "\<exists>y d. fst overridden = Inr y \<and> cs_firewallDecision (dy_case y) = FW_block
    \<and> dy_decision y = Some d \<and> dc_decisionType d = Override \<and> dc_reason d \<noteq> []"
proof -
  from example_decided [OF override_builds] obtain y s' where
    y: "overridden = (Inr y, s')" "\<not> dy_replayed y" "cs_status (dy_case y) = Approved"
      "cs_firewallDecision (dy_case y) = FW_block"
    by (auto simp: overridden_def next_status_def)
  from y(1) have "fst overridden = Inr y" by (metis fst_conv)
  with blocked_needs_override [OF y(1) [unfolded overridden_def] y(2,3,4)] y(4) show ?thesis by blast
qed

text \<open>The distinct keys of those who voted for a case in the journal.\<close>

definition voters :: "js_env \<Rightarrow> 'g store \<Rightarrow> string \<Rightarrow> string \<Rightarrow> string set" where
  "voters env s workspaceId caseId = (case prior_decisions env s workspaceId of
       Inl e \<Rightarrow> {} | Inr prior \<Rightarrow> set (caseApprovers caseId prior))"

text \<open>
  C33: a critical request needs its quorum.  When an approval of a case at or above its critical risk is
  recorded, the approver had not voted on the case before, and the earlier voters of the journal
  together with this one are at least as many as the policy requires.
\<close>

theorem critical_approval_has_quorum:
  assumes "decide env deps resolve c1 c2 rc q s = (Inr y, s')" and "\<not> dy_replayed y"
    and "dy_decision y = Some d" and "dc_decisionType d = Approve" and "is_critical (dy_case y)"
  shows "decision_key d \<notin> voters env s (dc_workspaceId d) (dc_caseId d)
    \<and> of_nat (card (insert (decision_key d) (voters env s (dc_workspaceId d) (dc_caseId d))))
        \<ge> po_requiredApprovers (cs_policy (dy_case y))"
proof (rule decide_fresh [OF assms(1,2)])
  fix p metadata rid
  assume p: "plan_decision env resolve c1 c2 q s = Inr p"
    and d: "dy_decision y = Some ((new_decision env p metadata)\<lparr>dc_receiptId := rid\<rparr>)"
    and c: "dy_case y = (decided_case p)\<lparr>cs_latestReceiptId := rid\<rparr>"
  from p show ?thesis
  proof (rule plan_decision_cases)
    fix inp cr now
    assume q: "quorum_decision env s (di_caseId inp) (dp_case p) (dp_approver p) now (di_decisionType inp)
        = Inr (dp_type p)" and i: "dp_caseId p = di_caseId inp"
    have d': "d = (new_decision env p metadata)\<lparr>dc_receiptId := rid\<rparr>" using assms(3) d by simp
    have t: "dp_type p = Approve" "is_critical (dp_case p)"
      using assms(4,5) c by (simp_all add: d' new_decision_def is_critical_def decided_case_def Let_def)
    with quorum_decision_type [OF q] have "di_decisionType inp = Approve" by auto
    with q t obtain prior where prior: "prior_decisions env s (cs_workspaceId (dp_case p)) = Inr prior"
      and n: "decision_key d \<notin> set (caseApprovers (di_caseId inp) prior)"
        "of_nat (length (caseApprovers (di_caseId inp) prior @ [decision_key d]))
          \<ge> po_requiredApprovers (cs_policy (dp_case p))"
      by (auto simp: quorum_decision_def Let_def d' new_decision_def decision_key_def not_less
          split: sum.splits if_splits)
    let ?v = "caseApprovers (di_caseId inp) prior"
    have v: "voters env s (dc_workspaceId d) (dc_caseId d) = set ?v"
      by (simp add: voters_def d' new_decision_def Let_def prior i)
    have "card (set ?v) = length ?v" unfolding caseApprovers_def by (rule distinct_card) simp
    with n v c show ?thesis by (simp add: decided_case_def Let_def)
  qed
qed

theorem critical_approval_has_quorum_witness:
  "\<exists>y d. fst approved = Inr y \<and> is_critical (dy_case y) \<and> dy_decision y = Some d
    \<and> of_nat (card (insert (decision_key d) (voters clock_env (example_store FW_review)
        (dc_workspaceId d) (dc_caseId d)))) \<ge> po_requiredApprovers (cs_policy (dy_case y))"
proof -
  from example_decided [OF approval_builds] obtain y s' d where
    y: "approved = (Inr y, s')" "\<not> dy_replayed y" "dy_decision y = Some d" "dc_decisionType d = Approve"
      "is_critical (dy_case y)"
    by (auto simp: approved_def is_critical_def example_policy_def)
  from y(1) have "fst approved = Inr y" by (metis fst_conv)
  with critical_approval_has_quorum [OF y(1) [unfolded approved_def] y(2-5)] y(3,5) show ?thesis by blast
qed

text \<open>
  C2: an approval is used at most once.  In any sequence of operations of the runtime and of other
  writers of the journal, in any interleaving, an executor runs at most once under a case id as it is
  given to the runtime.
\<close>

theorem execution_at_most_once:
  "fresh_commits (oversight_run env deps resolve fw) (executes env deps resolve fw) executed_case caseId s steps \<le> 1"
  by (rule executions.at_most_once)

section \<open>What an execution rests on\<close>

lemma authorize_matches:
  assumes "authorizeExecution env resolve fw clock1 clock2 q s = Inr au"
  obtains cr c now a d where "readCase env clock1 s (xq_caseId q) = Inr cr" and "c = cr_case cr" and "au_case au = c"
    and "clock2 = Some now" and "case_gate env c now = Inr ()"
    and "normalizeAction env (action_with_verdict (xq_action q) (JStr (firewall_name (cs_requestedVerdict c)))) = Inr a"
    and "same_scope c a" and "cs_argsDigest c = [] \<or> ac_argsDigest a = cs_argsDigest c"
    and "resolveRoleIdentity resolve Requester (xq_requesterContext q) a = Inr (au_requester au)"
    and "id_identityRef (au_requester au) = rq_identityRef (cs_requester c)"
    and "id_identityHash (au_requester au) = rq_identityHash (cs_requester c)"
    and "cs_requestedVerdict c \<noteq> FW_dry_run_only \<or> xq_allowDryRun q"
    and "latest_approval s c = Some d" and "approval_matches d c" and "approval_in_force env d c now"
    and "firewall_gate fw c a (xq_firewallRequest q) = Inr (au_firewall au)"
proof -
  from assms obtain cr where cr: "readCase env clock1 s (xq_caseId q) = Inr cr"
    by (auto simp: authorizeExecution_def)
  let ?c = "cr_case cr"
  obtain now where now: "clock2 = Some now" using assms cr by (auto simp: authorizeExecution_def Let_def split: option.splits)
  obtain a where a: "normalizeAction env (action_with_verdict (xq_action q) (JStr (firewall_name (cs_requestedVerdict ?c)))) = Inr a"
    using assms cr by (auto simp: authorizeExecution_def Let_def split: option.splits)
  obtain d where d: "latest_approval s ?c = Some d"
    using assms cr by (auto simp: authorizeExecution_def Let_def split: option.splits)
  show thesis
    by (rule that [OF cr refl _ now _ a _ _ _ _ _ _ d])
      (use assms cr now a d in \<open>auto simp: authorizeExecution_def Let_def\<close>)
qed

lemma latest_approval_stored:
  "latest_approval s c = Some d \<longleftrightarrow> cs_latestDecisionId c \<noteq> [] \<and>
     (\<exists>st r. readResult s (decisionOperationId (cs_caseId c) (cs_latestDecisionId c)) = Some (Oversight st, r) \<and> st_decision st = Some d)"
  by (auto simp: latest_approval_def split: option.splits prod.splits journal_value.splits)

text \<open>
  C1: nothing is executed without an approval in force.  Whenever the executor of a request runs, the
  case read from the journal is approved, by an approval or an override, and not expired at the time of
  the clock; the journal holds the decision this case names as its latest, which is an approval or
  override of this very case, with its action, workspace, connector, resource, policy version, firewall
  version and evidence digest, and the time lies in its interval, which does not outlast the case; the
  requested action is the one of the case in workspace, connector, resource, fingerprint, policy
  version, firewall version, verdict, risk score and, where the case has one, argument digest, and is no
  dry run; the caller resolves to the requester of the case; the firewall, asked about this action
  again, allows it in the version of the case; and the case was never reserved before and is reserved
  now.
\<close>

theorem execution_needs_approval:
  assumes "prepareExecution env deps resolve fw xc executorIsFunction q s = (Inr (), s')"
  shows "\<exists>cr c now st r d vf vu a i verdict. readCase env (xc_clock1 xc) s (xq_caseId q) = Inr cr \<and> c = cr_case cr
    \<and> xc_clock2 xc = Some now \<and> cs_status c = Approved \<and> cs_latestDecisionType c \<in> {Some Approve, Some Override}
    \<and> \<not> cs_expiryEffective c \<and> (\<forall>x. date_parse env (cs_expiresAt c) = Some x \<longrightarrow> now < x \<and> vu \<le> x)
    \<and> readResult s (decisionOperationId (cs_caseId c) (cs_latestDecisionId c)) = Some (Oversight st, r)
    \<and> st_decision st = Some d \<and> dc_decisionType d \<in> {Approve, Override} \<and> dc_caseId d = cs_caseId c
    \<and> dc_actionFingerprint d = cs_actionFingerprint c \<and> dc_workspaceId d = cs_workspaceId c
    \<and> dc_connectorRef d = cs_connectorRef c \<and> dc_resourceRef d = cs_resourceRef c
    \<and> dc_policyVersion d = cs_policyVersion c \<and> dc_firewallVersion d = cs_firewallVersion c
    \<and> dc_evidenceDigest d = cs_evidenceDigest c
    \<and> date_parse env (dc_validFrom d) = Some vf \<and> date_parse env (dc_validUntil d) = Some vu \<and> vf \<le> now \<and> now < vu
    \<and> normalizeAction env (action_with_verdict (xq_action q) (JStr (firewall_name (cs_requestedVerdict c)))) = Inr a
    \<and> ac_workspaceId a = cs_workspaceId c \<and> ac_connectorRef a = cs_connectorRef c
    \<and> ac_resourceRef a = cs_resourceRef c \<and> ac_actionFingerprint a = cs_actionFingerprint c
    \<and> ac_policyVersion a = cs_policyVersion c \<and> ac_firewallVersion a = cs_firewallVersion c
    \<and> ac_requestedVerdict a = cs_requestedVerdict c \<and> ac_riskScore a = cs_riskScore c
    \<and> (cs_argsDigest c \<noteq> [] \<longrightarrow> ac_argsDigest a = cs_argsDigest c) \<and> cs_requestedVerdict c \<noteq> FW_dry_run_only
    \<and> resolveRoleIdentity resolve Requester (xq_requesterContext q) a = Inr i
    \<and> id_identityRef i = rq_identityRef (cs_requester c) \<and> id_identityHash i = rq_identityHash (cs_requester c)
    \<and> fw (execution_firewall_request c a
          (if xq_firewallRequest q = JUndefined then JObj [] else xq_firewallRequest q)) = Some verdict
    \<and> jget verdict ''decision'' = JStr ''allow''
    \<and> (truthy (jget (jget verdict ''metadata'') ''firewallVersion'') \<longrightarrow>
          jget (jget verdict ''metadata'') ''firewallVersion'' = JStr (cs_firewallVersion c))
    \<and> reservation s (js_text (xq_caseId q)) = None \<and> reservation s' (js_text (xq_caseId q)) \<noteq> None"
proof -
  let ?q = "q\<lparr>xq_allowDryRun := False\<rparr>"
  from assms obtain au where au: "authorizeExecution env resolve fw (xc_clock1 xc) (xc_clock2 xc) ?q s = Inr au"
    by (auto simp: prepareExecution_def split: if_splits sum.splits)
  from assms have run: "executes env deps resolve fw (Prepare xc executorIsFunction q) s" by simp
  from au show ?thesis
  proof (rule authorize_matches)
    fix cr c now a d
    assume c: "readCase env (xc_clock1 xc) s (xq_caseId ?q) = Inr cr" "c = cr_case cr" "xc_clock2 xc = Some now"
        "case_gate env c now = Inr ()"
      and a: "normalizeAction env (action_with_verdict (xq_action ?q) (JStr (firewall_name (cs_requestedVerdict c)))) = Inr a"
        "same_scope c a" "cs_argsDigest c = [] \<or> ac_argsDigest a = cs_argsDigest c"
        "cs_requestedVerdict c \<noteq> FW_dry_run_only \<or> xq_allowDryRun ?q"
      and i: "resolveRoleIdentity resolve Requester (xq_requesterContext ?q) a = Inr (au_requester au)"
        "id_identityRef (au_requester au) = rq_identityRef (cs_requester c)"
        "id_identityHash (au_requester au) = rq_identityHash (cs_requester c)"
      and d: "latest_approval s c = Some d" "approval_matches d c" "approval_in_force env d c now"
      and v: "firewall_gate fw c a (xq_firewallRequest ?q) = Inr (au_firewall au)"
    from d(1) obtain st r where st: "st_decision st = Some d"
        "readResult s (decisionOperationId (cs_caseId c) (cs_latestDecisionId c)) = Some (Oversight st, r)"
      by (auto simp: latest_approval_stored)
    from d(3) obtain vf vu where interval: "date_parse env (dc_validFrom d) = Some vf"
        "date_parse env (dc_validUntil d) = Some vu" "vf \<le> now" "now < vu"
        "\<forall>x. date_parse env (cs_expiresAt c) = Some x \<longrightarrow> vu \<le> x"
      by (auto simp: approval_in_force_def split: option.splits)
    have gate: "cs_status c = Approved \<and> cs_latestDecisionType c \<in> {Some Approve, Some Override} \<and> \<not> cs_expiryEffective c
        \<and> (\<forall>x. date_parse env (cs_expiresAt c) = Some x \<longrightarrow> now < x)"
      using c(4) by (auto simp: case_gate_def time_le_def split: if_splits)
    have firewall: "fw (execution_firewall_request c a
          (if xq_firewallRequest q = JUndefined then JObj [] else xq_firewallRequest q)) = Some (au_firewall au)
        \<and> jget (au_firewall au) ''decision'' = JStr ''allow''
        \<and> (truthy (jget (jget (au_firewall au) ''metadata'') ''firewallVersion'') \<longrightarrow>
            jget (jget (au_firewall au) ''metadata'') ''firewallVersion'' = JStr (cs_firewallVersion c))"
      using v by (auto simp: firewall_gate_def Let_def split: option.splits if_splits)
    have digest: "cs_argsDigest c \<noteq> [] \<longrightarrow> ac_argsDigest a = cs_argsDigest c" using a(3) by blast
    have reserved: "reservation s (js_text (xq_caseId q)) = None \<and> reservation s' (js_text (xq_caseId q)) \<noteq> None"
      using prepare_fresh [OF run] assms by auto
    show ?thesis
      by (rule exI [of _ cr], rule exI [of _ c], rule exI [of _ now], rule exI [of _ st], rule exI [of _ r],
          rule exI [of _ d], rule exI [of _ vf], rule exI [of _ vu], rule exI [of _ a],
          rule exI [of _ "au_requester au"], rule exI [of _ "au_firewall au"], intro conjI)
        (use c(1-3) a(1,2,4) digest i d(2) st interval gate firewall reserved in
          \<open>simp_all add: approval_matches_def same_scope_def\<close>)
  qed
qed

definition approved_store :: "unit store" where
  "approved_store = store_with
     [(caseOperationId ''c'', stored_row ''t1'' (state_of_case Review_case_created (example_case FW_review) None)),
      (decisionOperationId ''c'' ''x'', stored_row ''t2'' (state_of_case (Approval_event Approve)
         ((example_case FW_review)\<lparr>cs_status := Approved, cs_latestDecisionId := ''x'',
            cs_latestDecisionType := Some Approve\<rparr>)
         (Some \<lparr>dc_decisionId = ''x'', dc_decisionType = Approve, dc_caseId = ''c'', dc_workspaceId = ''w'',
            dc_approverRef = ''bob'', dc_approverHash = ''h-bob'', dc_ownerActorId = [], dc_authorityRef = [],
            dc_requesterIdentityRef = ''ann'', dc_actionFingerprint = ''f'', dc_argsDigest = [],
            dc_connectorRef = [], dc_resourceRef = [], dc_policyVersion = ''1'', dc_firewallVersion = ''1'',
            dc_evidenceDigest = ''d'', dc_reason = ''ok'', dc_validFrom = ''t2'', dc_validUntil = ''t60'',
            dc_decidedAt = ''t2'', dc_selfApprovalException = False, dc_metadata = JObj [],
            dc_receiptId = []\<rparr>)))]"

definition example_execution_request :: execution_request where
  "example_execution_request = \<lparr>xq_caseId = JStr ''c'', xq_action = example_action,
     xq_requesterContext = JStr ''ann'', xq_firewallRequest = JUndefined, xq_allowDryRun = False\<rparr>"

definition example_conditions :: execution_conditions where
  "example_conditions = \<lparr>xc_clock1 = Some 3000, xc_clock2 = Some 3000, xc_clock3 = Some 3000, xc_run = at_time ''t3''\<rparr>"

text \<open>The reservation builds its receipt.\<close>

definition execution_builds :: bool where
  "execution_builds = (case authorizeExecution clock_env example_resolver example_firewall (Some 3000) (Some 3000)
       example_execution_request approved_store of
     Inl e \<Rightarrow> False
   | Inr au \<Rightarrow> (case buildLedgerEvent clock_env (executionReservationOperationId ''c'') (au_case au) Execution_reserved
        ''approve'' ''execution_claim_reserved'' (iso_at clock_env 3000) [(''reservation'', JStr ''execution_claim'')]
        Not_attempted of
       Inl e \<Rightarrow> False
     | Inr ev \<Rightarrow> (case buildTrustEvidencePayload clock_env (JObj (ev_fields ev)) of
         Inl e \<Rightarrow> False | Inr payload \<Rightarrow> True)))"

lemma example_builds: execution_builds
  by code_simp

lemma approved_healthy: "healthy example_deps (executionReservationOperationId ''c'') approved_store"
  by (simp add: healthy_def approved_store_def store_with_def example_deps_def executionReservationOperationId_def
      executionReservationPrefix_def decisionOperationId_def decisionOperationPrefix_def caseOperationId_def completed_def
      trim_def is_space_def)

lemma example_prepared: "\<exists>s'. prepareExecution clock_env example_deps example_resolver example_firewall
    example_conditions True example_execution_request approved_store = (Inr (), s')"
proof -
  from example_builds obtain au ev payload where
    au: "authorizeExecution clock_env example_resolver example_firewall (Some 3000) (Some 3000)
      example_execution_request approved_store = Inr au"
    and ev: "buildLedgerEvent clock_env (executionReservationOperationId ''c'') (au_case au) Execution_reserved
        ''approve'' ''execution_claim_reserved'' (iso_at clock_env 3000) [(''reservation'', JStr ''execution_claim'')]
        Not_attempted = Inr ev"
    and payload: "buildTrustEvidencePayload clock_env (JObj (ev_fields ev)) = Inr payload"
    by (auto simp: execution_builds_def split: sum.splits)
  have "rc_fate (at_time ''t3'') = Commit_done" by (simp add: at_time_def)
  from appendState_succeeds [OF ev payload approved_healthy this clock_env_digest] obtain ap s' where
    ap: "appendState clock_env example_deps (at_time ''t3'') ev (reserved_case clock_env
        (executionReservationOperationId ''c'') 3000 (au_case au)) None None approved_store = (Inr ap, s')" "\<not> ap_replayed ap"
    by blast
  from appendState_fresh(1) [OF ap] obtain st where "ap_state ap = Oversight st" by blast
  moreover have "example_execution_request\<lparr>xq_allowDryRun := False\<rparr> = example_execution_request"
      "xq_caseId example_execution_request = JStr ''c''"
    by (simp_all add: example_execution_request_def)
  ultimately show ?thesis using au ev ap
    by (simp add: prepareExecution_def reserveExecution_def example_conditions_def uncaught_def refused_def)
qed

theorem execution_needs_approval_witness:
  "\<exists>cr st r d. readCase clock_env (Some 3000) approved_store (JStr ''c'') = Inr cr \<and> cs_status (cr_case cr) = Approved
    \<and> readResult approved_store (decisionOperationId (cs_caseId (cr_case cr)) (cs_latestDecisionId (cr_case cr)))
        = Some (Oversight st, r)
    \<and> st_decision st = Some d \<and> dc_decisionType d \<in> {Approve, Override}
    \<and> dc_evidenceDigest d = cs_evidenceDigest (cr_case cr)"
proof -
  from example_prepared obtain s' where run: "prepareExecution clock_env example_deps example_resolver example_firewall
    example_conditions True example_execution_request approved_store = (Inr (), s')" by blast
  have fields: "xc_clock1 example_conditions = Some 3000" "xq_caseId example_execution_request = JStr ''c''"
    by (simp_all add: example_conditions_def example_execution_request_def)
  from execution_needs_approval [OF run, unfolded fields] show ?thesis
    by (elim exE conjE) (hypsubst, intro exI conjI; assumption)
qed

end
