(* ===== verification/Emergency_Stop.thy ===== *)
theory Emergency_Stop
  imports Mutation_Journal_Facts
begin

text \<open>
  The emergency stop: the hash-chained ledger file (\<open>src/lib/emergency-stop-chain.js\<close>), the policy
  over it (\<open>src/lib/emergency-stop.js\<close>), the workspace names (\<open>src/lib/workspace-id.js\<close>) and the
  guard of the approval authority that a lift needs (\<open>src/lib/authority/operational-guard.js\<close>).  The
  directory holds the ledger, one record file per stopped scope and the receipts; a ledger is its
  non-blank lines, each ended by a newline.  Writing succeeds unless the file exists already and the
  write is exclusive; \<open>clk i\<close> is the reading number \<open>i\<close> of the clock.
\<close>

section \<open>The directory\<close>

datatype ledger_line = Corrupt_line | Json_line jsval
datatype ledger_file = Ledger_absent | Ledger_unreadable | Ledger "ledger_line list"
datatype stop_file = Unreadable_file | Not_json_file | Record_file jsval
datatype dir_listing = Dir_present | Dir_absent | Dir_unreadable

record stop_dir =
  sd_ledger :: ledger_file
  sd_files :: "(string \<times> stop_file) list"
  sd_listing :: dir_listing
  sd_receipts :: "jsval list"

datatype stop_error =
    Property_of_null
  | Workspace_id_invalid
  | Unknown_scope
  | Agent_id_required
  | Operator_required

section \<open>Names\<close>

definition normalizeWorkspaceId :: "jsval \<Rightarrow> stop_error + string" where
  "normalizeWorkspaceId value = (case value of
       JStr s \<Rightarrow> if trim s = [] then Inr ''default''
         else if length (trim s) > 128 then Inl Workspace_id_invalid else Inr (trim s)
     | _ \<Rightarrow> if is_nullish value then Inr ''default'' else Inl Workspace_id_invalid)"

definition isRecordInWorkspace :: "jsval \<Rightarrow> string \<Rightarrow> bool" where
  "isRecordInWorkspace recordWorkspaceId workspaceId =
     (normalizeWorkspaceId recordWorkspaceId = Inr workspaceId)"

fun stop_text :: "jsval \<Rightarrow> string" where
  "stop_text (JStr s) = take 256 (trim s)"
| "stop_text _ = []"

fun argText :: "jsval \<Rightarrow> string" where
  "argText (JStr s) = trim s"
| "argText _ = []"

definition checkArguments :: "jsval \<Rightarrow> jsval \<Rightarrow> string \<times> string" where
  "checkArguments workspaceId agentId =
     (if argText workspaceId = [] then ''default'' else argText workspaceId, argText agentId)"

definition scopeKey :: "js_env \<Rightarrow> jsval \<Rightarrow> jsval \<Rightarrow> jsval \<Rightarrow> string" where
  "scopeKey env scope workspaceId agentId = sha256_hex env
     (if scope = JStr ''workspace'' then ''workspace'' @ [CHR 0x0A] @ js_string env workspaceId
      else ''agent'' @ [CHR 0x0A] @ js_string env workspaceId @ [CHR 0x0A] @ js_string env agentId)"

datatype stop_scope = Agent_scope | Workspace_scope

fun scope_name :: "stop_scope \<Rightarrow> string" where
  "scope_name Agent_scope = ''agent''"
| "scope_name Workspace_scope = ''workspace''"

record stop_target =
  tg_scope :: stop_scope
  tg_workspaceId :: string
  tg_agentId :: "string option"

fun json_option :: "string option \<Rightarrow> jsval" where
  "json_option None = JNull"
| "json_option (Some s) = JStr s"

definition target_key :: "js_env \<Rightarrow> stop_target \<Rightarrow> string" where
  "target_key env t = scopeKey env (JStr (scope_name (tg_scope t))) (JStr (tg_workspaceId t)) (json_option (tg_agentId t))"

definition normalizeTarget :: "jsval \<Rightarrow> jsval \<Rightarrow> jsval \<Rightarrow> stop_error + stop_target" where
  "normalizeTarget scope workspaceId agentId =
     (if scope \<noteq> JStr ''agent'' \<and> scope \<noteq> JStr ''workspace'' then Inl Unknown_scope
      else bind_result (normalizeWorkspaceId workspaceId) (\<lambda>workspace.
        let agent = stop_text agentId in
        if scope = JStr ''agent'' \<and> agent = [] then Inl Agent_id_required
        else Inr (if scope = JStr ''agent''
          then \<lparr>tg_scope = Agent_scope, tg_workspaceId = workspace, tg_agentId = Some agent\<rparr>
          else \<lparr>tg_scope = Workspace_scope, tg_workspaceId = workspace, tg_agentId = None\<rparr>)))"

section \<open>The chain\<close>

definition computeEntryHash :: "js_env \<Rightarrow> jsfields \<Rightarrow> jsval \<Rightarrow> string" where
  "computeEntryHash env payload prevHash = sha256_hex env
     (the (stableStringify env (JObj (put_field ''prevHash'' prevHash payload))))"

fun ledger_entry_of :: "ledger_line \<Rightarrow> jsval" where
  "ledger_entry_of Corrupt_line = JObj [(''__corrupt'', JBool True)]"
| "ledger_entry_of (Json_line v) = v"

definition readLedgerEntries :: "stop_dir \<Rightarrow> jsval list" where
  "readLedgerEntries d = (case sd_ledger d of
       Ledger_absent \<Rightarrow> []
     | Ledger_unreadable \<Rightarrow> [JObj [(''__unreadable'', JBool True)]]
     | Ledger lines \<Rightarrow> map ledger_entry_of lines)"

definition is_damaged :: "jsval \<Rightarrow> bool" where
  "is_damaged e = (truthy (jget e ''__unreadable'') \<or> truthy (jget e ''__corrupt''))"

definition nullish_to_null :: "jsval \<Rightarrow> jsval" where
  "nullish_to_null v = (if is_nullish v then JNull else v)"

datatype ledger_reason =
    Unreadable_or_corrupt | Seq_gap | Prevhash_mismatch | Hash_mismatch | Invalid_action

definition entry_payload :: "jsval \<Rightarrow> jsfields" where
  "entry_payload e = drop_field ''prevHash'' (drop_field ''seq'' (drop_field ''hash'' (own_fields e)))"

text \<open>The loop over the entries: \<open>Some (reason, index)\<close> where the chain breaks.\<close>

fun verify_entries_from :: "js_env \<Rightarrow> nat \<Rightarrow> jsval \<Rightarrow> jsval list \<Rightarrow> (ledger_reason \<times> nat) option" where
  "verify_entries_from env i prevHash [] = None"
| "verify_entries_from env i prevHash (e # es) =
     (if jget e ''seq'' \<noteq> JNum (of_nat i) then Some (Seq_gap, i)
      else if nullish_to_null (jget e ''prevHash'') \<noteq> prevHash then Some (Prevhash_mismatch, i)
      else if jget e ''hash'' \<noteq> JStr (computeEntryHash env (entry_payload e) prevHash)
        then Some (Hash_mismatch, i)
      else if jget e ''action'' \<notin> {JStr ''stop'', JStr ''lift'', JStr ''integrity_violation''}
        then Some (Invalid_action, i)
      else verify_entries_from env (Suc i) (jget e ''hash'') es)"

text \<open>
  Reading a property of \<open>null\<close> throws: a ledger line that is \<open>null\<close> before any damaged line.
\<close>

fun damaged_entry :: "jsval list \<Rightarrow> stop_error + bool" where
  "damaged_entry [] = Inr False"
| "damaged_entry (e # es) = (if is_nullish e then Inl Property_of_null
     else if is_damaged e then Inr True else damaged_entry es)"

definition verifyLedgerEntries :: "js_env \<Rightarrow> jsval list \<Rightarrow> stop_error + (ledger_reason \<times> nat option) option" where
  "verifyLedgerEntries env entries = bind_result (damaged_entry entries) (\<lambda>damaged.
     if damaged then Inr (Some (Unreadable_or_corrupt, None))
     else Inr (map_option (map_prod id Some) (verify_entries_from env 0 JNull entries)))"

record stop_state =
  ss_stopped :: bool
  ss_record :: jsval
  ss_lastStopActor :: jsval
  ss_lastStopOperatorIdentity :: jsval

definition SCHEMA :: jsval where
  "SCHEMA = JStr ''huqan.emergency-stop.v1''"

definition replay_entry :: "js_env \<Rightarrow> jsval \<Rightarrow> (string \<times> stop_state) list \<Rightarrow> (string \<times> stop_state) list" where
  "replay_entry env e state =
     (let key = scopeKey env (jget e ''scope'') (jget e ''workspaceId'') (nullish_to_null (jget e ''agentId'')) in
      if jget e ''action'' = JStr ''stop'' then alist_put key
        \<lparr>ss_stopped = True,
         ss_record = JObj [(''schemaVersion'', or_else (jget e ''schemaVersion'') SCHEMA),
           (''scope'', jget e ''scope''), (''workspaceId'', jget e ''workspaceId''),
           (''agentId'', nullish_to_null (jget e ''agentId'')), (''actor'', jget e ''actor''),
           (''operatorIdentity'', nullish_to_null (jget e ''operatorIdentity'')),
           (''stoppedAt'', jget e ''createdAt''), (''reason'', jget e ''reason'')],
         ss_lastStopActor = jget e ''actor'',
         ss_lastStopOperatorIdentity = nullish_to_null (jget e ''operatorIdentity'')\<rparr> state
      else if jget e ''action'' = JStr ''lift'' then alist_put key
        \<lparr>ss_stopped = False, ss_record = JNull, ss_lastStopActor = JNull,
         ss_lastStopOperatorIdentity = JNull\<rparr> state
      else if jget e ''action'' = JStr ''integrity_violation'' then alist_put key
        \<lparr>ss_stopped = True, ss_record = JNull, ss_lastStopActor = JStr ''system:integrity-violation'',
         ss_lastStopOperatorIdentity = JUndefined\<rparr> state
      else state)"

definition replayLedgerState :: "js_env \<Rightarrow> jsval list \<Rightarrow> (string \<times> stop_state) list" where
  "replayLedgerState env entries = fold (replay_entry env) entries []"

record file_state =
  fs_unreadable :: bool
  fs_record :: jsval

definition scan_file :: "js_env \<Rightarrow> string \<times> stop_file \<Rightarrow> (string \<times> file_state) list \<Rightarrow> (string \<times> file_state) list" where
  "scan_file env p state = (let bad = alist_put (fst p) \<lparr>fs_unreadable = True, fs_record = JNull\<rparr> state in
     case snd p of
       Record_file r \<Rightarrow>
         if \<not> truthy r \<or> jget r ''schemaVersion'' \<noteq> SCHEMA \<or> \<not> truthy (jget r ''scope'')
            \<or> \<not> truthy (jget r ''workspaceId'') then bad
         else alist_put (scopeKey env (jget r ''scope'') (jget r ''workspaceId'') (nullish_to_null (jget r ''agentId'')))
           \<lparr>fs_unreadable = False, fs_record = r\<rparr> state
     | _ \<Rightarrow> bad)"

definition scanFileState :: "js_env \<Rightarrow> stop_dir \<Rightarrow> (string \<times> file_state) list \<times> bool" where
  "scanFileState env d = (case sd_listing d of
       Dir_absent \<Rightarrow> ([], False)
     | Dir_unreadable \<Rightarrow> ([], True)
     | Dir_present \<Rightarrow> (fold (scan_file env) (sd_files d) [], False))"

section \<open>Integrity\<close>

record integrity =
  ig_ok :: bool
  ig_ledgerReason :: string
  ig_scopeKey :: "string option"

definition intact :: integrity where
  "intact = \<lparr>ig_ok = True, ig_ledgerReason = [], ig_scopeKey = None\<rparr>"

definition violated :: "string \<Rightarrow> string option \<Rightarrow> integrity" where
  "violated r k = \<lparr>ig_ok = False, ig_ledgerReason = r, ig_scopeKey = k\<rparr>"

fun ledger_reason_name :: "ledger_reason \<Rightarrow> string" where
  "ledger_reason_name Unreadable_or_corrupt = ''ledger_unreadable_or_corrupt''"
| "ledger_reason_name Seq_gap = ''ledger_seq_gap''"
| "ledger_reason_name Prevhash_mismatch = ''ledger_prevhash_mismatch''"
| "ledger_reason_name Hash_mismatch = ''ledger_hash_mismatch''"
| "ledger_reason_name Invalid_action = ''ledger_invalid_action''"

fun compare_ledger :: "(string \<times> file_state) list \<Rightarrow> (string \<times> stop_state) list \<Rightarrow> integrity" where
  "compare_ledger files [] = intact"
| "compare_ledger files ((k, st) # rest) = (case map_of files k of
       None \<Rightarrow> if ss_stopped st then violated ''ledger_stopped_but_file_missing'' (Some k)
         else compare_ledger files rest
     | Some f \<Rightarrow> if \<not> ss_stopped st then violated ''ledger_not_stopped_but_file_present'' (Some k)
         else if fs_unreadable f then violated ''stop_record_unreadable'' (Some k)
         else compare_ledger files rest)"

definition verifyIntegrity :: "js_env \<Rightarrow> stop_dir \<Rightarrow> stop_error + integrity" where
  "verifyIntegrity env d = (let entries = readLedgerEntries d in
     bind_result (verifyLedgerEntries env entries) (\<lambda>verified. case verified of
         Some (r, i) \<Rightarrow> Inr (violated (ledger_reason_name r) None)
       | None \<Rightarrow> (case scanFileState env d of (files, unreadable) \<Rightarrow>
           if unreadable then Inr (violated ''stop_record_unreadable'' None)
           else if entries \<noteq> [] then
             (let ledgerState = replayLedgerState env entries; compared = compare_ledger files ledgerState in
              if \<not> ig_ok compared then Inr compared
              else case find (\<lambda>p. map_of ledgerState (fst p) = None) files of
                  Some p \<Rightarrow> Inr (violated ''file_without_ledger_entry'' (Some (fst p)))
                | None \<Rightarrow> Inr intact)
           else if list_ex (\<lambda>p. fs_unreadable (snd p)) files
             then Inr (violated ''stop_record_unreadable'' None)
           else Inr intact)))"

section \<open>Writing\<close>

type_synonym clock = "nat \<Rightarrow> string"

record stop_note =
  sn_action :: string
  sn_scope :: stop_scope
  sn_workspaceId :: string
  sn_agentId :: "string option"
  sn_actor :: jsval
  sn_operatorIdentity :: jsval
  sn_reason :: jsval

definition operatorIdentityOf :: "jsval \<Rightarrow> jsval" where
  "operatorIdentityOf v = (if stop_text v = [] then JNull else JStr (stop_text v))"

definition note_payload :: "stop_note \<Rightarrow> string \<Rightarrow> jsfields" where
  "note_payload n createdAt = [(''schemaVersion'', SCHEMA), (''action'', JStr (sn_action n)),
     (''scope'', JStr (scope_name (sn_scope n))), (''workspaceId'', JStr (sn_workspaceId n)),
     (''agentId'', json_option (sn_agentId n)), (''actor'', JStr (stop_text (sn_actor n))),
     (''operatorIdentity'', operatorIdentityOf (sn_operatorIdentity n)),
     (''reason'', JStr (stop_text (sn_reason n))), (''createdAt'', JStr createdAt)]"

definition appendReceipt :: "js_env \<Rightarrow> stop_note \<Rightarrow> string \<Rightarrow> stop_dir \<Rightarrow> jsval \<times> stop_dir" where
  "appendReceipt env n createdAt d =
     (let payload = (''receiptKind'', JStr ''emergency_stop_receipt'') # note_payload n createdAt;
          receipt = JObj (payload @ [(''receiptHash'',
            JStr (sha256_hex env (the (stableStringify env (JObj payload)))))])
      in (receipt, d\<lparr>sd_receipts := sd_receipts d @ [receipt]\<rparr>))"

text \<open>\<open>fs.mkdirSync(root, {recursive: true})\<close>\<close>

definition make_dir :: "stop_dir \<Rightarrow> stop_dir" where
  "make_dir d = (if sd_listing d = Dir_absent then d\<lparr>sd_listing := Dir_present\<rparr> else d)"

definition append_line :: "jsval \<Rightarrow> stop_dir \<Rightarrow> stop_dir" where
  "append_line v d = (make_dir d)\<lparr>sd_ledger := (case sd_ledger d of
       Ledger lines \<Rightarrow> Ledger (lines @ [Json_line v])
     | Ledger_absent \<Rightarrow> Ledger [Json_line v]
     | Ledger_unreadable \<Rightarrow> Ledger_unreadable)\<rparr>"

definition ledger_tip :: "jsval list \<Rightarrow> jsval \<times> nat" where
  "ledger_tip entries = (if entries = [] \<or> is_damaged (hd entries) then (JNull, 0)
     else (if is_string (jget (last entries) ''hash'') then jget (last entries) ''hash'' else JNull, length entries))"

definition appendLedgerEntry :: "js_env \<Rightarrow> stop_note \<Rightarrow> string \<Rightarrow> stop_dir \<Rightarrow> stop_error + (jsval \<times> stop_dir)" where
  "appendLedgerEntry env n createdAt d = (let entries = readLedgerEntries d in
     if entries \<noteq> [] \<and> is_nullish (hd entries) then Inl Property_of_null
     else case ledger_tip entries of (prevHash, seq) \<Rightarrow>
       let payload = note_payload n createdAt;
           e = JObj ([(''seq'', JNum (of_nat seq)), (''prevHash'', prevHash),
                 (''hash'', JStr (computeEntryHash env payload prevHash))] @ payload)
       in Inr (e, append_line e d))"

datatype read_record = No_record | Unreadable_record | Stop_record jsval

definition readRecord :: "js_env \<Rightarrow> stop_target \<Rightarrow> stop_dir \<Rightarrow> read_record" where
  "readRecord env t d = (case map_of (sd_files d) (target_key env t) of
       None \<Rightarrow> No_record
     | Some (Record_file r) \<Rightarrow>
         if truthy r \<and> jget r ''schemaVersion'' = SCHEMA \<and> jget r ''scope'' = JStr (scope_name (tg_scope t))
            \<and> jget r ''workspaceId'' = JStr (tg_workspaceId t)
            \<and> nullish_to_null (jget r ''agentId'') = json_option (tg_agentId t)
         then Stop_record r else Unreadable_record
     | Some _ \<Rightarrow> Unreadable_record)"

text \<open>The exclusive write of a record file: \<open>None\<close> when there is a file already.\<close>

definition write_record :: "js_env \<Rightarrow> stop_target \<Rightarrow> jsval \<Rightarrow> stop_dir \<Rightarrow> stop_dir option" where
  "write_record env t r d = (if map_of (sd_files d) (target_key env t) \<noteq> None then None
     else Some ((make_dir d)\<lparr>sd_files := sd_files d @ [(target_key env t, Record_file r)]\<rparr>))"

text \<open>
  The scope that is contained when the integrity check fails: the agent id is shaped once more.
\<close>

definition violation_target :: "string \<Rightarrow> string option \<Rightarrow> stop_target" where
  "violation_target workspace agent = (case agent of
       Some a \<Rightarrow> if stop_text (JStr a) \<noteq> []
         then \<lparr>tg_scope = Agent_scope, tg_workspaceId = workspace, tg_agentId = Some (stop_text (JStr a))\<rparr>
         else \<lparr>tg_scope = Workspace_scope, tg_workspaceId = workspace, tg_agentId = None\<rparr>
     | None \<Rightarrow> \<lparr>tg_scope = Workspace_scope, tg_workspaceId = workspace, tg_agentId = None\<rparr>)"

definition violation_note :: "stop_target \<Rightarrow> string \<Rightarrow> stop_note" where
  "violation_note t violationReason = \<lparr>sn_action = ''integrity_violation'', sn_scope = tg_scope t,
     sn_workspaceId = tg_workspaceId t, sn_agentId = tg_agentId t,
     sn_actor = JStr ''system:integrity-violation'', sn_operatorIdentity = JUndefined,
     sn_reason = JStr violationReason\<rparr>"

text \<open>Both writes are attempted; a failure of either is swallowed.\<close>

definition handleIntegrityViolation :: "js_env \<Rightarrow> string \<Rightarrow> string option \<Rightarrow> string \<Rightarrow> clock \<Rightarrow> stop_dir \<Rightarrow> stop_dir" where
  "handleIntegrityViolation env workspace agent violationReason clk d =
     (let t = violation_target workspace agent;
          d1 = (case appendLedgerEntry env (violation_note t violationReason) (clk 0) d of
             Inl e \<Rightarrow> d | Inr (e, d') \<Rightarrow> d');
          r = JObj [(''schemaVersion'', SCHEMA), (''scope'', JStr (scope_name (tg_scope t))),
            (''workspaceId'', JStr workspace), (''agentId'', json_option (tg_agentId t)),
            (''reason'', JStr ''emergency_stop_integrity_violation''),
            (''actor'', JStr ''system:integrity-violation''), (''stoppedAt'', JStr (clk 1))]
      in case write_record env t r d1 of None \<Rightarrow> make_dir d1 | Some d2 \<Rightarrow> d2)"

section \<open>Stopping\<close>

record stop_request =
  sq_scope :: jsval
  sq_workspaceId :: jsval
  sq_agentId :: jsval
  sq_reason :: jsval
  sq_actor :: jsval
  sq_operatorIdentity :: jsval

record stop_reply =
  sr_created :: bool
  sr_record :: jsval
  sr_receipt :: "jsval option"
  sr_ledgerEntry :: "jsval option"
  sr_integrityViolation :: bool

definition note_of :: "string \<Rightarrow> stop_target \<Rightarrow> stop_request \<Rightarrow> stop_note" where
  "note_of action t q = \<lparr>sn_action = action, sn_scope = tg_scope t, sn_workspaceId = tg_workspaceId t,
     sn_agentId = tg_agentId t, sn_actor = sq_actor q, sn_operatorIdentity = sq_operatorIdentity q,
     sn_reason = sq_reason q\<rparr>"

definition stop_record :: "stop_target \<Rightarrow> stop_request \<Rightarrow> string \<Rightarrow> jsval" where
  "stop_record t q stoppedAt = JObj [(''schemaVersion'', SCHEMA), (''scope'', JStr (scope_name (tg_scope t))),
     (''workspaceId'', JStr (tg_workspaceId t)), (''agentId'', json_option (tg_agentId t)),
     (''reason'', JStr (stop_text (sq_reason q))), (''actor'', JStr (stop_text (sq_actor q))),
     (''operatorIdentity'', operatorIdentityOf (sq_operatorIdentity q)), (''stoppedAt'', JStr stoppedAt)]"

text \<open>\<open>entries.filter(entry => !entry.__unreadable && !entry.__corrupt)\<close>\<close>

definition undamaged :: "jsval list \<Rightarrow> stop_error + jsval list" where
  "undamaged entries = (if list_ex is_nullish entries then Inl Property_of_null
     else Inr (filter (\<lambda>e. \<not> is_damaged e) entries))"

definition is_stopped :: "(string \<times> stop_state) list \<Rightarrow> string \<Rightarrow> bool" where
  "is_stopped state k = (case map_of state k of None \<Rightarrow> False | Some st \<Rightarrow> ss_stopped st)"

definition read_value :: "read_record \<Rightarrow> jsval" where
  "read_value r = (case r of Stop_record v \<Rightarrow> v | _ \<Rightarrow> JNull)"

definition record_stop :: "js_env \<Rightarrow> clock \<Rightarrow> stop_target \<Rightarrow> stop_request \<Rightarrow> bool \<Rightarrow> stop_dir
    \<Rightarrow> (stop_error + stop_reply) \<times> stop_dir" where
  "record_stop env clk t q violation d =
     (case appendLedgerEntry env (note_of ''stop'' t q) (clk 3) d of
        Inl e \<Rightarrow> (Inl e, d)
      | Inr (e, d1) \<Rightarrow> (case appendReceipt env (note_of ''stop'' t q) (clk 4) d1 of
          (receipt, d2) \<Rightarrow> (Inr \<lparr>sr_created = True, sr_record = stop_record t q (clk 2),
            sr_receipt = Some receipt, sr_ledgerEntry = Some e, sr_integrityViolation = violation\<rparr>, d2)))"

text \<open>The directory a stop writes its record to: the one it found, or with the violation recorded.\<close>

definition after_integrity :: "js_env \<Rightarrow> integrity \<Rightarrow> stop_target \<Rightarrow> clock \<Rightarrow> stop_dir \<Rightarrow> stop_dir" where
  "after_integrity env ig t clk d = (if ig_ok ig then d
     else handleIntegrityViolation env (tg_workspaceId t) (tg_agentId t) (ig_ledgerReason ig) clk d)"

definition stop :: "js_env \<Rightarrow> clock \<Rightarrow> stop_request \<Rightarrow> stop_dir \<Rightarrow> (stop_error + stop_reply) \<times> stop_dir" where
  "stop env clk q d = (case normalizeTarget (sq_scope q) (sq_workspaceId q) (sq_agentId q) of
       Inl e \<Rightarrow> (Inl e, d)
     | Inr t \<Rightarrow>
         if stop_text (sq_actor q) = [] then (Inl Operator_required, d)
         else (case verifyIntegrity env d of
             Inl e \<Rightarrow> (Inl e, d)
           | Inr ig \<Rightarrow>
               let violation = (\<not> ig_ok ig);
                   d1 = after_integrity env ig t clk d
               in (case write_record env t (stop_record t q (clk 2)) d1 of
                     Some d2 \<Rightarrow> record_stop env clk t q violation d2
                   | None \<Rightarrow> (case undamaged (readLedgerEntries d1) of
                       Inl e \<Rightarrow> (Inl e, d1)
                     | Inr entries \<Rightarrow>
                         if is_stopped (replayLedgerState env entries) (target_key env t)
                         then (Inr \<lparr>sr_created = False, sr_record = read_value (readRecord env t d1),
                           sr_receipt = None, sr_ledgerEntry = None, sr_integrityViolation = violation\<rparr>, d1)
                         else record_stop env clk t q violation d1))))"

section \<open>The guard of the approval authority\<close>

datatype authority_mode = Legacy | Service | Other_mode string

definition shellSingleQuote :: "string \<Rightarrow> string" where
  "shellSingleQuote s = [CHR 0x27] @ concat (map (\<lambda>c. if c = CHR 0x27
     then [CHR 0x27, CHR 0x5C, CHR 0x27, CHR 0x27] else [c]) s) @ [CHR 0x27]"

record operation =
  on_tool :: string
  on_workspaceId :: string
  on_args :: jsval

definition operationalRequestCommand :: "js_env \<Rightarrow> operation \<Rightarrow> string" where
  "operationalRequestCommand env b = ''huqan-authority request '' @ on_tool b @ '' --workspace ''
     @ shellSingleQuote (on_workspaceId b) @ '' --args ''
     @ shellSingleQuote (case stringify env (on_args b) of Some t \<Rightarrow> t | None \<Rightarrow> ''undefined'')"

record guard_refusal =
  gr_code :: string
  gr_request :: string

text \<open>
  \<open>guard mode binding approvalId\<close> is \<open>requireAuthorityDecision\<close>: \<open>None\<close> when it throws, a code when it
  refuses.
\<close>

type_synonym decision_guard = "authority_mode \<Rightarrow> operation \<Rightarrow> jsval \<Rightarrow> (string + unit) option"

definition requireOperationalDecision :: "js_env \<Rightarrow> decision_guard \<Rightarrow> authority_mode \<Rightarrow> operation
    \<Rightarrow> jsval \<Rightarrow> bool \<Rightarrow> guard_refusal + unit" where
  "requireOperationalDecision env guard mode b approvalId requireDecision =
     (let refuse = (\<lambda>code. Inl \<lparr>gr_code = code, gr_request = operationalRequestCommand env b\<rparr>) in
      if mode = Legacy then (if \<not> requireDecision then Inr () else refuse ''AUTHORITY_DECISION_REQUIRED'')
      else if mode = Service \<and> \<not> nonempty_string approvalId then refuse ''AUTHORITY_DECISION_REQUIRED''
      else (case guard mode b approvalId of
          None \<Rightarrow> refuse ''AUTHORITY_DECISION_INVALID''
        | Some (Inl code) \<Rightarrow> refuse code
        | Some (Inr _) \<Rightarrow> Inr ()))"

section \<open>Lifting\<close>

datatype lift_reply =
    Lift_refused guard_refusal
  | Lift_violation integrity
  | Not_stopped
  | Lifted jsval jsval

definition lift_operation :: "stop_target \<Rightarrow> stop_request \<Rightarrow> operation" where
  "lift_operation t q = \<lparr>on_tool = ''huqan.emergency_stop'', on_workspaceId = tg_workspaceId t,
     on_args = JObj [(''action'', JStr ''lift''), (''scope'', JStr (scope_name (tg_scope t))),
       (''workspaceId'', JStr (tg_workspaceId t)),
       (''agentId'', JStr (case tg_agentId t of Some a \<Rightarrow> a | None \<Rightarrow> [])),
       (''reason'', JStr (stop_text (sq_reason q)))]\<rparr>"

definition without_record :: "js_env \<Rightarrow> stop_target \<Rightarrow> stop_dir \<Rightarrow> stop_dir" where
  "without_record env t d = d\<lparr>sd_files := filter (\<lambda>p. fst p \<noteq> target_key env t) (sd_files d)\<rparr>"

definition lift :: "js_env \<Rightarrow> decision_guard \<Rightarrow> authority_mode \<Rightarrow> jsval \<Rightarrow> clock \<Rightarrow> stop_request \<Rightarrow> stop_dir
    \<Rightarrow> (stop_error + lift_reply) \<times> stop_dir" where
  "lift env guard mode approvalId clk q d = (case normalizeTarget (sq_scope q) (sq_workspaceId q) (sq_agentId q) of
       Inl e \<Rightarrow> (Inl e, d)
     | Inr t \<Rightarrow>
         if stop_text (sq_actor q) = [] then (Inl Operator_required, d)
         else (case requireOperationalDecision env guard mode (lift_operation t q) approvalId True of
             Inl r \<Rightarrow> (Inr (Lift_refused r), d)
           | Inr _ \<Rightarrow> (case verifyIntegrity env d of
               Inl e \<Rightarrow> (Inl e, d)
             | Inr ig \<Rightarrow>
                 if \<not> ig_ok ig then (Inr (Lift_violation ig), handleIntegrityViolation env (tg_workspaceId t)
                   (tg_agentId t) (ig_ledgerReason ig) clk d)
                 else if map_of (sd_files d) (target_key env t) = None then (Inr Not_stopped, d)
                 else (case appendLedgerEntry env (note_of ''lift'' t q) (clk 3) (without_record env t d) of
                      Inl e \<Rightarrow> (Inl e, without_record env t d)
                    | Inr (e, d2) \<Rightarrow> (case appendReceipt env (note_of ''lift'' t q) (clk 4) d2 of
                        (receipt, d3) \<Rightarrow> (Inr (Lifted receipt e), d3))))))"

section \<open>Checking\<close>

record check_reply =
  ck_stopped :: bool
  ck_scope :: "stop_scope option"
  ck_reason :: string
  ck_record :: jsval
  ck_integrityViolation :: bool

definition check_stopped :: "stop_scope \<Rightarrow> string \<Rightarrow> jsval \<Rightarrow> check_reply" where
  "check_stopped sc r v = \<lparr>ck_stopped = True, ck_scope = Some sc, ck_reason = r, ck_record = v,
     ck_integrityViolation = False\<rparr>"

definition check_clear :: check_reply where
  "check_clear = \<lparr>ck_stopped = False, ck_scope = None, ck_reason = [], ck_record = JNull,
     ck_integrityViolation = False\<rparr>"

definition targets_of :: "string \<Rightarrow> string \<Rightarrow> stop_target list" where
  "targets_of workspace agent = \<lparr>tg_scope = Workspace_scope, tg_workspaceId = workspace, tg_agentId = None\<rparr> #
     (if agent = [] then [] else [\<lparr>tg_scope = Agent_scope, tg_workspaceId = workspace, tg_agentId = Some agent\<rparr>])"

fun check_ledger :: "js_env \<Rightarrow> (string \<times> stop_state) list \<Rightarrow> stop_target list \<Rightarrow> check_reply" where
  "check_ledger env state [] = check_clear"
| "check_ledger env state (t # ts) = (case map_of state (target_key env t) of
       Some st \<Rightarrow> if ss_stopped st then check_stopped (tg_scope t) ''agent_emergency_stopped'' (ss_record st)
         else check_ledger env state ts
     | None \<Rightarrow> check_ledger env state ts)"

fun check_files :: "js_env \<Rightarrow> stop_dir \<Rightarrow> stop_target list \<Rightarrow> check_reply" where
  "check_files env d [] = check_clear"
| "check_files env d (t # ts) = (case readRecord env t d of
       No_record \<Rightarrow> check_files env d ts
     | Unreadable_record \<Rightarrow> check_stopped (tg_scope t) ''emergency_stop_record_unreadable'' JNull
     | Stop_record r \<Rightarrow> check_stopped (tg_scope t) ''agent_emergency_stopped'' r)"

definition check :: "js_env \<Rightarrow> clock \<Rightarrow> jsval \<Rightarrow> jsval \<Rightarrow> stop_dir \<Rightarrow> (stop_error + check_reply) \<times> stop_dir" where
  "check env clk workspaceId agentId d = (case normalizeWorkspaceId workspaceId of
       Inl e \<Rightarrow> (Inl e, d)
     | Inr workspace \<Rightarrow> (let agent = stop_text agentId in case verifyIntegrity env d of
         Inl e \<Rightarrow> (Inl e, d)
       | Inr ig \<Rightarrow>
           if \<not> ig_ok ig then
             (Inr \<lparr>ck_stopped = True, ck_scope = (if ig_scopeKey ig \<noteq> None then None
                 else Some (if agent \<noteq> [] then Agent_scope else Workspace_scope)),
               ck_reason = ''emergency_stop_integrity_violation'', ck_record = JNull,
               ck_integrityViolation = True\<rparr>,
              handleIntegrityViolation env workspace (if agent = [] then None else Some agent)
                (ig_ledgerReason ig) clk d)
           else (case undamaged (readLedgerEntries d) of
               Inl e \<Rightarrow> (Inl e, d)
             | Inr entries \<Rightarrow>
                 if entries \<noteq> [] then
                   (Inr (check_ledger env (replayLedgerState env entries) (targets_of workspace agent)), d)
                 else (Inr (check_files env d (targets_of workspace agent)), d))))"

definition listIntegrityViolations :: "js_env \<Rightarrow> stop_dir \<Rightarrow> stop_error + jsval list" where
  "listIntegrityViolations env d = (let entries = readLedgerEntries d in
     bind_result (verifyLedgerEntries env entries) (\<lambda>v. case v of
         Some r \<Rightarrow> Inr []
       | None \<Rightarrow> Inr (map (\<lambda>e. JObj (map (\<lambda>k. (k, if k = ''agentId'' then nullish_to_null (jget e k) else jget e k))
           [''seq'', ''hash'', ''scope'', ''workspaceId'', ''agentId'', ''actor'', ''reason'', ''createdAt'']))
           (filter (\<lambda>e. jget e ''action'' = JStr ''integrity_violation'') entries))))"

definition approvalStopAgentId :: "jsval \<Rightarrow> string option" where
  "approvalStopAgentId approvalId = (if stop_text approvalId = [] then None
     else Some (''approval:'' @ stop_text approvalId))"

end
