(* ===== verification/Emergency_Stop_Facts.thy ===== *)
theory Emergency_Stop_Facts
  imports Emergency_Stop
begin

text \<open>
  What the emergency stop guarantees: the ledger is one more hash-linked log, appending keeps it
  verified, and a stop that has returned holds, whatever else happens to the directory, until a lift
  of the same scope is recorded.
\<close>

section \<open>One entry\<close>

definition note_key :: "js_env \<Rightarrow> stop_note \<Rightarrow> string" where
  "note_key env n = scopeKey env (JStr (scope_name (sn_scope n))) (JStr (sn_workspaceId n)) (json_option (sn_agentId n))"

lemma note_key_note_of [simp]: "note_key env (note_of a t q) = target_key env t"
  by (simp add: note_key_def note_of_def target_key_def)

lemma note_key_violation [simp]: "note_key env (violation_note t r) = target_key env t"
  by (simp add: note_key_def violation_note_def target_key_def)

lemma sn_action_simps [simp]:
  "sn_action (note_of a t q) = a" "sn_action (violation_note t r) = ''integrity_violation''"
  by (simp_all add: note_of_def violation_note_def)

lemma nullish_json_option [simp]: "nullish_to_null (json_option a) = json_option a"
  by (cases a) (simp_all add: nullish_to_null_def)

text \<open>The entry that is appended.\<close>

definition new_entry :: "js_env \<Rightarrow> stop_note \<Rightarrow> string \<Rightarrow> jsval list \<Rightarrow> jsval" where
  "new_entry env n createdAt entries = JObj ([(''seq'', JNum (of_nat (snd (ledger_tip entries)))),
       (''prevHash'', fst (ledger_tip entries)),
       (''hash'', JStr (computeEntryHash env (note_payload n createdAt) (fst (ledger_tip entries))))]
     @ note_payload n createdAt)"

lemma appendLedgerEntry_cases:
  "appendLedgerEntry env n c d = (if readLedgerEntries d \<noteq> [] \<and> is_nullish (hd (readLedgerEntries d))
     then Inl Property_of_null
     else Inr (new_entry env n c (readLedgerEntries d), append_line (new_entry env n c (readLedgerEntries d)) d))"
  by (simp add: appendLedgerEntry_def new_entry_def Let_def split: prod.splits)

lemma new_entry_fields [simp]:
  "jget (new_entry env n c es) ''action'' = JStr (sn_action n)"
  "jget (new_entry env n c es) ''scope'' = JStr (scope_name (sn_scope n))"
  "jget (new_entry env n c es) ''workspaceId'' = JStr (sn_workspaceId n)"
  "jget (new_entry env n c es) ''agentId'' = json_option (sn_agentId n)"
  "jget (new_entry env n c es) ''seq'' = JNum (of_nat (snd (ledger_tip es)))"
  "jget (new_entry env n c es) ''prevHash'' = fst (ledger_tip es)"
  "jget (new_entry env n c es) ''hash'' = JStr (computeEntryHash env (note_payload n c) (fst (ledger_tip es)))"
  by (simp_all add: new_entry_def note_payload_def)

lemma new_entry_sound [simp]:
  "\<not> is_damaged (new_entry env n c es)" "\<not> is_nullish (new_entry env n c es)"
  by (simp_all add: is_damaged_def new_entry_def note_payload_def)

lemma replay_new_entry:
  "is_stopped (replay_entry env (new_entry env n c es) st) k =
     (if note_key env n = k \<and> sn_action n \<in> {''stop'', ''lift'', ''integrity_violation''}
      then sn_action n \<noteq> ''lift'' else is_stopped st k)"
  by (auto simp: replay_entry_def Let_def is_stopped_def note_key_def)

lemma replay_snoc:
  "replayLedgerState env (es @ [e]) = replay_entry env e (replayLedgerState env es)"
  by (simp add: replayLedgerState_def)

section \<open>Damage\<close>

lemma damaged_entry_False:
  "damaged_entry es = Inr False \<longleftrightarrow> (\<forall>e\<in>set es. \<not> is_nullish e \<and> \<not> is_damaged e)"
  by (induction es) auto

lemma damaged_entry_snoc:
  "damaged_entry es = Inr b \<Longrightarrow> \<not> is_nullish e \<Longrightarrow> \<exists>b'. damaged_entry (es @ [e]) = Inr b'"
  by (induction es arbitrary: b) (auto split: if_splits)

lemma damaged_entry_hd: "damaged_entry es = Inr b \<Longrightarrow> es \<noteq> [] \<Longrightarrow> \<not> is_nullish (hd es)"
  by (cases es) (auto split: if_splits)

lemma verifyLedgerEntries_None:
  "verifyLedgerEntries env es = Inr None \<longleftrightarrow>
     damaged_entry es = Inr False \<and> verify_entries_from env 0 JNull es = None"
  by (cases "damaged_entry es") (auto simp: verifyLedgerEntries_def)

lemma verifyLedgerEntries_total:
  "(\<exists>v. verifyLedgerEntries env es = Inr v) \<longleftrightarrow> (\<exists>b. damaged_entry es = Inr b)"
  by (cases "damaged_entry es") (auto simp: verifyLedgerEntries_def)

lemma undamaged_sound:
  "damaged_entry es = Inr False \<Longrightarrow> undamaged es = Inr es"
  by (auto simp: undamaged_def damaged_entry_False list_ex_iff filter_id_conv)

lemma undamaged_filter: "undamaged es = Inr ls \<Longrightarrow> ls = filter (\<lambda>e. \<not> is_damaged e) es"
  by (auto simp: undamaged_def split: if_splits)

section \<open>The ledger under the operations\<close>

lemma ledger_make_dir [simp]: "sd_ledger (make_dir d) = sd_ledger d"
  by (simp add: make_dir_def)

lemma ledger_write_record: "write_record env t r d = Some d' \<Longrightarrow> sd_ledger d' = sd_ledger d"
  by (auto simp: write_record_def split: if_splits)

lemma ledger_appendReceipt: "appendReceipt env n c d = (r, d') \<Longrightarrow> sd_ledger d' = sd_ledger d"
  by (auto simp: appendReceipt_def Let_def)

lemma entries_ledger: "sd_ledger d' = sd_ledger d \<Longrightarrow> readLedgerEntries d' = readLedgerEntries d"
  by (simp add: readLedgerEntries_def)

lemma sd_ledger_append_line: "sd_ledger (append_line e d) = (case sd_ledger d of
       Ledger lines \<Rightarrow> Ledger (lines @ [Json_line e])
     | Ledger_absent \<Rightarrow> Ledger [Json_line e]
     | Ledger_unreadable \<Rightarrow> Ledger_unreadable)"
  by (simp add: append_line_def)

lemma entries_append_line:
  "readLedgerEntries (append_line e d) = (if sd_ledger d = Ledger_unreadable then readLedgerEntries d
     else readLedgerEntries d @ [e])"
  unfolding readLedgerEntries_def sd_ledger_append_line by (cases "sd_ledger d") simp_all

lemma ledger_append_line [simp]:
  "sd_ledger (append_line e d) = Ledger_unreadable \<longleftrightarrow> sd_ledger d = Ledger_unreadable"
  unfolding sd_ledger_append_line by (cases "sd_ledger d") simp_all

section \<open>A scope that is held\<close>

definition live_entries :: "stop_dir \<Rightarrow> jsval list" where
  "live_entries d = filter (\<lambda>e. \<not> is_damaged e) (readLedgerEntries d)"

definition readable :: "stop_dir \<Rightarrow> bool" where
  "readable d = (\<exists>b. damaged_entry (readLedgerEntries d) = Inr b)"

definition held :: "js_env \<Rightarrow> stop_target \<Rightarrow> stop_dir \<Rightarrow> bool" where
  "held env t d = (readable d \<and> (sd_ledger d = Ledger_unreadable
     \<or> is_stopped (replayLedgerState env (live_entries d)) (target_key env t)))"

lemma held_ledger: "sd_ledger d' = sd_ledger d \<Longrightarrow> held env t d' = held env t d"
  using entries_ledger [of d' d] by (simp add: held_def readable_def live_entries_def)

lemma readable_ledger: "sd_ledger d' = sd_ledger d \<Longrightarrow> readable d' = readable d"
  using entries_ledger [of d' d] by (simp add: readable_def)

lemma readable_append:
  "readable d \<Longrightarrow> \<not> is_nullish e \<Longrightarrow> readable (append_line e d)"
  by (auto simp: readable_def entries_append_line intro: damaged_entry_snoc)

lemma appendLedgerEntry_held:
  assumes "appendLedgerEntry env n c d = Inr (e, d')" and "readable d"
    and "(note_key env n = target_key env t \<and> sn_action n \<in> {''stop'', ''integrity_violation''})
      \<or> (held env t d \<and> (sn_action n = ''lift'' \<longrightarrow> note_key env n \<noteq> target_key env t))"
  shows "held env t d'"
proof -
  have d': "d' = append_line (new_entry env n c (readLedgerEntries d)) d"
    using assms(1) by (auto simp: appendLedgerEntry_cases split: if_splits)
  have "readable d'" using assms(2) by (simp add: d' readable_append)
  moreover have "is_stopped (replayLedgerState env (live_entries d')) (target_key env t)"
    if "sd_ledger d' \<noteq> Ledger_unreadable"
  proof -
    from that d' have u: "sd_ledger d \<noteq> Ledger_unreadable" by simp
    then have l: "live_entries d' = live_entries d @ [new_entry env n c (readLedgerEntries d)]"
      by (simp add: d' live_entries_def entries_append_line)
    show ?thesis using assms(3) that
      unfolding l replay_snoc replay_new_entry using u by (auto simp: held_def)
  qed
  ultimately show ?thesis by (auto simp: held_def)
qed

lemma handleIntegrityViolation_ledger:
  "sd_ledger (handleIntegrityViolation env w a r clk d) =
     (case appendLedgerEntry env (violation_note (violation_target w a) r) (clk 0) d of
        Inl e \<Rightarrow> sd_ledger d | Inr (e, d') \<Rightarrow> sd_ledger d')"
  by (auto simp: handleIntegrityViolation_def Let_def ledger_write_record split: sum.splits option.splits)

lemma violation_held:
  assumes "readable d"
  shows "held env (violation_target w a) (handleIntegrityViolation env w a r clk d)"
    and "held env t d \<Longrightarrow> held env t (handleIntegrityViolation env w a r clk d)"
    and "readable (handleIntegrityViolation env w a r clk d)"
proof -
  have "\<not> (readLedgerEntries d \<noteq> [] \<and> is_nullish (hd (readLedgerEntries d)))"
    using assms damaged_entry_hd by (auto simp: readable_def)
  then obtain e d' where
    app: "appendLedgerEntry env (violation_note (violation_target w a) r) (clk 0) d = Inr (e, d')"
    by (auto simp: appendLedgerEntry_cases split: if_splits)
  then have l: "sd_ledger (handleIntegrityViolation env w a r clk d) = sd_ledger d'"
    by (simp add: handleIntegrityViolation_ledger)
  show "held env (violation_target w a) (handleIntegrityViolation env w a r clk d)"
    using appendLedgerEntry_held [OF app assms, of "violation_target w a"] by (simp add: held_ledger [OF l])
  show "held env t (handleIntegrityViolation env w a r clk d)" if "held env t d"
    using appendLedgerEntry_held [OF app assms, of t] that by (simp add: held_ledger [OF l])
  show "readable (handleIntegrityViolation env w a r clk d)"
    using appendLedgerEntry_held [OF app assms, of "violation_target w a"]
    by (simp add: readable_ledger [OF l] held_def)
qed

lemma verifyIntegrity_readable: "(\<exists>ig. verifyIntegrity env d = Inr ig) \<longleftrightarrow> readable d"
proof -
  have "(\<exists>ig. verifyIntegrity env d = Inr ig) \<longleftrightarrow> (\<exists>v. verifyLedgerEntries env (readLedgerEntries d) = Inr v)"
    by (cases "verifyLedgerEntries env (readLedgerEntries d)")
      (auto simp: verifyIntegrity_def Let_def split: option.splits prod.splits)
  then show ?thesis by (simp add: verifyLedgerEntries_total readable_def)
qed

lemma verifyIntegrity_ok:
  "verifyIntegrity env d = Inr ig \<Longrightarrow> ig_ok ig \<Longrightarrow>
     verifyLedgerEntries env (readLedgerEntries d) = Inr None"
  by (cases "verifyLedgerEntries env (readLedgerEntries d)")
    (auto simp: verifyIntegrity_def Let_def violated_def split: option.splits prod.splits)

lemma unreadable_entries: "sd_ledger d = Ledger_unreadable \<Longrightarrow> damaged_entry (readLedgerEntries d) = Inr True"
  by (simp add: readLedgerEntries_def is_damaged_def)

lemma check_ledger_stops:
  "t \<in> set ts \<Longrightarrow> is_stopped st (target_key env t) \<Longrightarrow> ck_stopped (check_ledger env st ts)"
  by (induction ts) (auto simp: is_stopped_def check_stopped_def split: option.splits)

text \<open>A check of a held scope reports a stop, by the ledger or because the ledger is damaged.\<close>

lemma check_held:
  assumes "held env t d" and "normalizeWorkspaceId w = Inr ws" and "t \<in> set (targets_of ws (stop_text a))"
  shows "\<exists>r d'. check env clk w a d = (Inr r, d') \<and> ck_stopped r"
proof -
  obtain ig where ig: "verifyIntegrity env d = Inr ig"
    using assms(1) verifyIntegrity_readable [of env d] by (auto simp: held_def)
  show ?thesis
  proof (cases "ig_ok ig")
    case False
    then show ?thesis by (simp add: check_def assms(2) ig Let_def)
  next
    case True
    with verifyIntegrity_ok [OF ig] have dm: "damaged_entry (readLedgerEntries d) = Inr False"
      by (simp add: verifyLedgerEntries_None)
    then have live: "live_entries d = readLedgerEntries d"
      by (auto simp: live_entries_def damaged_entry_False filter_id_conv)
    have st: "is_stopped (replayLedgerState env (readLedgerEntries d)) (target_key env t)"
      using assms(1) dm unreadable_entries [of d] by (auto simp: held_def live)
    then have "readLedgerEntries d \<noteq> []" by (auto simp: replayLedgerState_def is_stopped_def)
    with check_ledger_stops [OF assms(3) st] True show ?thesis
      by (simp add: check_def assms(2) ig Let_def undamaged_sound [OF dm])
  qed
qed

section \<open>Operations on a held scope\<close>

lemma append_readable:
  "appendLedgerEntry env n c d = Inr (e, d') \<Longrightarrow> readable d \<Longrightarrow> readable d'"
  by (auto simp: appendLedgerEntry_cases readable_append split: if_splits)

lemma record_stop_held:
  assumes "record_stop env clk t q v d = (r, d')" and "readable d"
  shows "(\<exists>y. r = Inr y) \<Longrightarrow> held env t d'" and "held env t' d \<Longrightarrow> held env t' d'"
proof -
  have "held env t d'" if r: "r = Inr y" for y
  proof -
    from assms(1) r obtain e d1 rc where a: "appendLedgerEntry env (note_of ''stop'' t q) (clk 3) d = Inr (e, d1)"
      and rc: "appendReceipt env (note_of ''stop'' t q) (clk 4) d1 = (rc, d')"
      by (auto simp: record_stop_def split: sum.splits prod.splits)
    from appendLedgerEntry_held [OF a assms(2), of t] show ?thesis
      by (simp add: held_ledger [OF ledger_appendReceipt [OF rc]])
  qed
  then show "(\<exists>y. r = Inr y) \<Longrightarrow> held env t d'" by blast
  show "held env t' d'" if h: "held env t' d"
  proof (cases "appendLedgerEntry env (note_of ''stop'' t q) (clk 3) d")
    case (Inl e)
    with assms(1) h show ?thesis by (simp add: record_stop_def)
  next
    case (Inr p)
    obtain e d1 where p: "p = (e, d1)" by (cases p)
    from Inr p assms(1) obtain rc where rc: "appendReceipt env (note_of ''stop'' t q) (clk 4) d1 = (rc, d')"
      by (auto simp: record_stop_def split: prod.splits)
    from appendLedgerEntry_held [OF Inr [unfolded p] assms(2), of t'] h show ?thesis
      by (simp add: held_ledger [OF ledger_appendReceipt [OF rc]])
  qed
qed

lemma after_integrity_held:
  "readable d \<Longrightarrow> readable (after_integrity env ig t clk d)"
  "readable d \<Longrightarrow> held env t' d \<Longrightarrow> held env t' (after_integrity env ig t clk d)"
  by (simp_all add: after_integrity_def violation_held)

lemma stop_cases:
  assumes "stop env clk q d = (r, d')"
  obtains (refused) e where "r = Inl e" and "d' = d"
  | (failed) t ig e where "readable d" and "r = Inl e" and "d' = after_integrity env ig t clk d"
  | (again) t ig y where "readable d" and "r = Inr y" and "d' = after_integrity env ig t clk d"
      and "normalizeTarget (sq_scope q) (sq_workspaceId q) (sq_agentId q) = Inr t"
      and "is_stopped (replayLedgerState env (live_entries d')) (target_key env t)"
  | (recorded) t ig v d2 where "readable d" and "sd_ledger d2 = sd_ledger (after_integrity env ig t clk d)"
      and "normalizeTarget (sq_scope q) (sq_workspaceId q) (sq_agentId q) = Inr t"
      and "record_stop env clk t q v d2 = (r, d')"
proof (cases "normalizeTarget (sq_scope q) (sq_workspaceId q) (sq_agentId q)")
  case (Inl e)
  with assms show ?thesis by (intro refused [of e]) (auto simp: stop_def)
next
  case t: (Inr t)
  show ?thesis
  proof (cases "stop_text (sq_actor q) = [] \<or> (\<exists>e. verifyIntegrity env d = Inl e)")
    case True
    with assms t show ?thesis by (auto simp: stop_def intro: refused split: if_splits)
  next
    case False
    then obtain ig where ig: "verifyIntegrity env d = Inr ig" and actor: "stop_text (sq_actor q) \<noteq> []"
      by (cases "verifyIntegrity env d") auto
    have rd: "readable d" using ig verifyIntegrity_readable [of env d] by blast
    let ?d1 = "after_integrity env ig t clk d"
    let ?v = "\<not> ig_ok ig"
    have s: "(r, d') = (case write_record env t (stop_record t q (clk 2)) ?d1 of
        Some d2 \<Rightarrow> record_stop env clk t q ?v d2
      | None \<Rightarrow> (case undamaged (readLedgerEntries ?d1) of
          Inl e \<Rightarrow> (Inl e, ?d1)
        | Inr entries \<Rightarrow>
            if is_stopped (replayLedgerState env entries) (target_key env t)
            then (Inr \<lparr>sr_created = False, sr_record = read_value (readRecord env t ?d1),
              sr_receipt = None, sr_ledgerEntry = None, sr_integrityViolation = ?v\<rparr>, ?d1)
            else record_stop env clk t q ?v ?d1))"
      using assms by (simp add: stop_def t ig actor Let_def)
    show ?thesis
    proof (cases "write_record env t (stop_record t q (clk 2)) ?d1")
      case (Some d2)
      with s have "record_stop env clk t q ?v d2 = (r, d')" by simp
      with Some t rd show ?thesis by (intro recorded) (auto simp: ledger_write_record)
    next
      case None
      show ?thesis
      proof (cases "undamaged (readLedgerEntries ?d1)")
        case (Inl e)
        with s None rd show ?thesis by (intro failed [of e ig t]) auto
      next
        case (Inr es)
        then have es: "es = live_entries ?d1" by (simp add: undamaged_filter live_entries_def)
        show ?thesis
        proof (cases "is_stopped (replayLedgerState env es) (target_key env t)")
          case True
          with s None Inr have "d' = ?d1" "\<exists>y. r = Inr y" by auto
          with True t rd es show ?thesis by (auto intro: again)
        next
          case False
          with s None Inr have "record_stop env clk t q ?v ?d1 = (r, d')" by simp
          with t rd show ?thesis by (intro recorded) auto
        qed
      qed
    qed
  qed
qed

lemma stop_holds:
  assumes "stop env clk q d = (Inr y, d')"
    and "normalizeTarget (sq_scope q) (sq_workspaceId q) (sq_agentId q) = Inr t"
  shows "held env t d'"
  using assms(1)
proof (cases rule: stop_cases)
  case (again t' ig y')
  with assms(2) show ?thesis by (simp add: held_def after_integrity_held)
next
  case (recorded t' ig v d2)
  have "readable d2" using recorded(1) by (simp add: readable_ledger [OF recorded(2)] after_integrity_held)
  with record_stop_held(1) [OF recorded(4)] recorded(3) assms(2) show ?thesis by simp
qed simp_all

lemma stop_keeps_held:
  assumes "stop env clk q d = (r, d')" and "held env t d"
  shows "held env t d'"
  using assms(1)
proof (cases rule: stop_cases)
  case (refused e)
  with assms(2) show ?thesis by simp
next
  case (failed t' ig e)
  with assms(2) show ?thesis by (simp add: after_integrity_held)
next
  case (again t' ig y)
  with assms(2) show ?thesis by (simp add: after_integrity_held)
next
  case (recorded t' ig v d2)
  have "readable d2" "held env t d2" using recorded(1) assms(2)
    by (simp_all add: readable_ledger [OF recorded(2)] held_ledger [OF recorded(2)] after_integrity_held)
  with record_stop_held(2) [OF recorded(4)] show ?thesis by simp
qed

lemma held_readable: "held env t d \<Longrightarrow> readable d"
  by (simp add: held_def)

lemma check_keeps_held:
  assumes "check env clk w a d = (r, d')" and "held env t d"
  shows "held env t d'"
  using assms violation_held(2) [OF held_readable [OF assms(2)]]
  by (auto simp: check_def Let_def split: sum.splits if_splits)

lemma ledger_without_record [simp]: "sd_ledger (without_record env t d) = sd_ledger d"
  by (simp add: without_record_def)

lemma lift_cases:
  assumes "lift env guard mode i clk q d = (r, d')"
  obtains (unchanged) "d' = d" and "\<forall>receipt e. r \<noteq> Inr (Lifted receipt e)"
  | (violation) t :: stop_target and ig where "r = Inr (Lift_violation ig)"
      and "d' = handleIntegrityViolation env (tg_workspaceId t) (tg_agentId t) (ig_ledgerReason ig) clk d"
  | (unrecorded) t e where "r = Inl e" and "d' = without_record env t d"
  | (lifted) t receipt e d2 ig where "r = Inr (Lifted receipt e)"
      and "normalizeTarget (sq_scope q) (sq_workspaceId q) (sq_agentId q) = Inr t"
      and "requireOperationalDecision env guard mode (lift_operation t q) i True = Inr ()"
      and "verifyIntegrity env d = Inr ig" and "ig_ok ig"
      and "map_of (sd_files d) (target_key env t) \<noteq> None"
      and "appendLedgerEntry env (note_of ''lift'' t q) (clk 3) (without_record env t d) = Inr (e, d2)"
      and "appendReceipt env (note_of ''lift'' t q) (clk 4) d2 = (receipt, d')"
proof (cases "normalizeTarget (sq_scope q) (sq_workspaceId q) (sq_agentId q)")
  case (Inl e)
  with assms show ?thesis by (intro unchanged) (auto simp: lift_def)
next
  case t: (Inr t)
  show ?thesis
  proof (cases "stop_text (sq_actor q) \<noteq> [] \<and> (\<exists>u. requireOperationalDecision env guard mode (lift_operation t q) i True = Inr u)
      \<and> (\<exists>ig. verifyIntegrity env d = Inr ig)")
    case False
    with assms t show ?thesis by (intro unchanged) (auto simp: lift_def split: sum.splits if_splits)
  next
    case True
    then obtain ig where dec: "requireOperationalDecision env guard mode (lift_operation t q) i True = Inr ()"
      and ig: "verifyIntegrity env d = Inr ig" and actor: "stop_text (sq_actor q) \<noteq> []" by auto
    have l: "(r, d') = (if \<not> ig_ok ig then (Inr (Lift_violation ig), handleIntegrityViolation env
          (tg_workspaceId t) (tg_agentId t) (ig_ledgerReason ig) clk d)
        else if map_of (sd_files d) (target_key env t) = None then (Inr Not_stopped, d)
        else (case appendLedgerEntry env (note_of ''lift'' t q) (clk 3) (without_record env t d) of
            Inl e \<Rightarrow> (Inl e, without_record env t d)
          | Inr (e, d2) \<Rightarrow> (case appendReceipt env (note_of ''lift'' t q) (clk 4) d2 of
              (receipt, d3) \<Rightarrow> (Inr (Lifted receipt e), d3))))"
      using assms by (simp add: lift_def t dec ig actor)
    show ?thesis
    proof (cases "ig_ok ig \<and> map_of (sd_files d) (target_key env t) \<noteq> None")
      case False
      with l show ?thesis by (cases "ig_ok ig") (auto intro: unchanged violation)
    next
      case True
      show ?thesis
      proof (cases "appendLedgerEntry env (note_of ''lift'' t q) (clk 3) (without_record env t d)")
        case (Inl e)
        with l True show ?thesis by (intro unrecorded [of e t]) auto
      next
        case (Inr p)
        obtain e d2 where p: "p = (e, d2)" by (cases p)
        obtain receipt d3 where rc: "appendReceipt env (note_of ''lift'' t q) (clk 4) d2 = (receipt, d3)"
          by (cases "appendReceipt env (note_of ''lift'' t q) (clk 4) d2")
        from l True Inr p rc have "r = Inr (Lifted receipt e)" "d' = d3" by auto
        with t dec ig True Inr p rc show ?thesis by (intro lifted [of receipt e t ig d2]) auto
      qed
    qed
  qed
qed

lemma lift_keeps_held:
  assumes "lift env guard mode i clk q d = (r, d')" and "held env t d"
    and other: "\<And>t'. normalizeTarget (sq_scope q) (sq_workspaceId q) (sq_agentId q) = Inr t' \<Longrightarrow>
      target_key env t' \<noteq> target_key env t"
  shows "held env t d'"
  using assms(1)
proof (cases rule: lift_cases)
  case unchanged
  with assms(2) show ?thesis by simp
next
  case (violation t' ig)
  with violation_held(2) [OF held_readable [OF assms(2)] assms(2)] show ?thesis by simp
next
  case (unrecorded t' e)
  with assms(2) show ?thesis by (simp add: held_ledger [of "without_record env t' d" d])
next
  case (lifted t' receipt e d2 ig)
  have h: "held env t (without_record env t' d)"
    using assms(2) by (simp add: held_ledger [of "without_record env t' d" d])
  from appendLedgerEntry_held [OF lifted(7) held_readable [OF h], of t] h other [OF lifted(2)]
  have "held env t d2" by simp
  then show ?thesis by (simp add: held_ledger [OF ledger_appendReceipt [OF lifted(8)]])
qed

end
