(* ===== verification/Emergency_Stop_Chain.thy ===== *)
theory Emergency_Stop_Chain
  imports Emergency_Stop_Facts
begin

text \<open>
  The ledger of the emergency stop as a hash-linked log: the verification of the code accepts exactly
  the linked, consecutively numbered ledgers, appending keeps a ledger verified, and the hash of the
  last entry determines the content of all of them.
\<close>

section \<open>Verification is linkage\<close>

abbreviation entry_hash :: "jsval \<Rightarrow> jsval" where
  "entry_hash e \<equiv> jget e ''hash''"

definition entry_prev :: "jsval \<Rightarrow> jsval" where
  "entry_prev e = nullish_to_null (jget e ''prevHash'')"

definition entry_content :: "jsval \<Rightarrow> jsval" where
  "entry_content e = JObj (put_field ''prevHash'' (entry_prev e) (entry_payload e))"

definition entry_text :: "js_env \<Rightarrow> jsval \<Rightarrow> string" where
  "entry_text env e = the (stableStringify env (entry_content e))"

definition entry_ok :: "js_env \<Rightarrow> jsval \<Rightarrow> bool" where
  "entry_ok env e = (entry_hash e = JStr (sha256_hex env (entry_text env e)))"

lemma computeEntryHash_content:
  "entry_prev e = p \<Longrightarrow> computeEntryHash env (entry_payload e) p = sha256_hex env (entry_text env e)"
  by (simp add: computeEntryHash_def entry_text_def entry_content_def)

definition actions_ok :: "jsval list \<Rightarrow> bool" where
  "actions_ok es = (\<forall>e\<in>set es. jget e ''action'' \<in> {JStr ''stop'', JStr ''lift'', JStr ''integrity_violation''})"

definition numbered_from :: "nat \<Rightarrow> jsval list \<Rightarrow> bool" where
  "numbered_from i es = (map (\<lambda>e. jget e ''seq'') es = map (\<lambda>j. JNum (of_nat j)) [i..<i + length es])"

lemma numbered_from_Cons:
  "numbered_from i (e # es) \<longleftrightarrow> jget e ''seq'' = JNum (of_nat i) \<and> numbered_from (Suc i) es"
proof -
  have "[i..<i + length (e # es)] = i # [Suc i..<Suc i + length es]" by (simp add: upt_conv_Cons del: upt_Suc)
  then show ?thesis unfolding numbered_from_def by (simp del: upt_Suc)
qed

lemma verify_entries_linked:
  "verify_entries_from env i p es = None \<longleftrightarrow>
     linked (entry_ok env) entry_prev entry_hash p es \<and> numbered_from i es \<and> actions_ok es"
proof (induction es arbitrary: i p)
  case Nil
  show ?case by (simp add: numbered_from_def actions_ok_def)
next
  case (Cons e es)
  show ?case
    by (auto simp: Cons.IH numbered_from_Cons actions_ok_def entry_ok_def entry_prev_def [symmetric]
        computeEntryHash_content)
qed

definition ledger_valid :: "js_env \<Rightarrow> jsval list \<Rightarrow> bool" where
  "ledger_valid env es = (verifyLedgerEntries env es = Inr None)"

lemma ledger_valid_iff:
  "ledger_valid env es \<longleftrightarrow> (\<forall>e\<in>set es. \<not> is_nullish e \<and> \<not> is_damaged e)
     \<and> linked (entry_ok env) entry_prev entry_hash JNull es \<and> numbered_from 0 es \<and> actions_ok es"
  by (simp add: ledger_valid_def verifyLedgerEntries_None damaged_entry_False verify_entries_linked)

section \<open>Appending\<close>

lemma ledger_tip_valid:
  assumes "ledger_valid env es"
  shows "ledger_tip es = (head_hash entry_hash JNull es, length es)"
proof (cases es rule: rev_cases)
  case Nil
  then show ?thesis by (simp add: ledger_tip_def)
next
  case (snoc fs e)
  have "\<not> is_damaged (hd es)" using assms by (simp add: ledger_valid_iff snoc hd_append)
  moreover have "entry_ok env e" using assms by (simp add: ledger_valid_iff snoc linked_append)
  ultimately show ?thesis by (simp add: ledger_tip_def snoc entry_ok_def)
qed

lemma new_entry_payload [simp]: "entry_payload (new_entry env n c es) = note_payload n c"
  by (simp add: new_entry_def entry_payload_def drop_field_def note_payload_def)

lemma head_hash_nullish: "ledger_valid env es \<Longrightarrow> nullish_to_null (head_hash entry_hash JNull es) = head_hash entry_hash JNull es"
  by (cases es rule: rev_cases)
    (auto simp: ledger_valid_iff linked_append entry_ok_def nullish_to_null_def)

lemma append_keeps_valid:
  assumes "ledger_valid env (readLedgerEntries d)" and "appendLedgerEntry env n c d = Inr (e, d')"
    and "sn_action n \<in> {''stop'', ''lift'', ''integrity_violation''}"
  shows "ledger_valid env (readLedgerEntries d')"
    and "readLedgerEntries d' = readLedgerEntries d @ [e]"
proof -
  let ?es = "readLedgerEntries d"
  let ?e = "new_entry env n c ?es"
  have "sd_ledger d \<noteq> Ledger_unreadable"
    using assms(1) unreadable_entries [of d] by (auto simp: ledger_valid_def verifyLedgerEntries_None)
  moreover have e: "e = ?e" "d' = append_line ?e d"
    using assms(2) by (auto simp: appendLedgerEntry_cases split: if_splits)
  ultimately show d': "readLedgerEntries d' = readLedgerEntries d @ [e]" by (simp add: entries_append_line)
  have tip: "ledger_tip ?es = (head_hash entry_hash JNull ?es, length ?es)"
    using assms(1) by (rule ledger_tip_valid)
  have p: "entry_prev ?e = head_hash entry_hash JNull ?es"
    using head_hash_nullish [OF assms(1)] by (simp add: entry_prev_def tip)
  have ok: "entry_ok env ?e"
    using computeEntryHash_content [OF p, of env] by (simp add: entry_ok_def tip)
  have "numbered_from 0 (?es @ [?e])"
    using assms(1) by (simp add: numbered_from_def ledger_valid_iff tip)
  with assms(1,3) ok p show "ledger_valid env (readLedgerEntries d')"
    unfolding d' e(1) by (auto simp: ledger_valid_iff linked_append actions_ok_def)
qed

section \<open>The hash commits to the content\<close>

definition data_entry :: "js_env \<Rightarrow> string set \<Rightarrow> jsval \<Rightarrow> bool" where
  "data_entry env T e = (entry_ok env e \<and> json_data e \<and> \<not> is_object (entry_prev e) \<and> entry_text env e \<in> T)"

lemma json_data_put_field:
  "json_data (JObj fs) \<Longrightarrow> json_data v \<Longrightarrow> json_data (JObj (put_field k v fs))"
  by (induction k v fs rule: put_field.induct) (auto simp: fst_set_put_field image_iff list_all_iff)

lemma json_data_drop_field: "json_data (JObj fs) \<Longrightarrow> json_data (JObj (drop_field k fs))"
  by (auto simp: drop_field_def list_all_iff distinct_map_filter)

lemma json_data_jget: "json_data e \<Longrightarrow> jget e k \<noteq> JUndefined \<Longrightarrow> json_data (jget e k)"
  by (cases e) (auto simp: field_def list_all_iff dest!: map_of_SomeD split: option.splits)

lemma json_data_content:
  assumes "json_data e" and "\<exists>s. entry_hash e = JStr s"
  shows "json_data (entry_content e)"
proof -
  from assms(2) obtain fs where e: "e = JObj fs" by (cases e) auto
  have "json_data (JObj (entry_payload e))"
    using assms(1) unfolding entry_payload_def e own_fields.simps by (intro json_data_drop_field)
  moreover have "json_data (entry_prev e)"
    using json_data_jget [OF assms(1), of "''prevHash''"]
    by (cases "jget e ''prevHash''") (auto simp: entry_prev_def nullish_to_null_def)
  ultimately show ?thesis unfolding entry_content_def by (rule json_data_put_field)
qed

lemma same_entry_hash:
  assumes inj: "inj_on (sha256_hex env) T" and ok: "data_entry env T x" "data_entry env T y"
    and eq: "entry_hash x = entry_hash y"
  shows "data_eq (entry_content x) (entry_content y) \<and> entry_prev x = entry_prev y"
proof -
  have "entry_text env x = entry_text env y"
    using inj ok eq by (auto simp: data_entry_def entry_ok_def dest: inj_onD)
  then have "stableStringify env (entry_content x) = stableStringify env (entry_content y)"
    using stableStringify_object [of "entry_content x" env] stableStringify_object [of "entry_content y" env]
    by (auto simp: entry_text_def entry_content_def)
  moreover have "json_data (entry_content x)" "json_data (entry_content y)"
    using ok by (auto simp: data_entry_def entry_ok_def intro: json_data_content)
  ultimately have de: "data_eq (entry_content x) (entry_content y)" by (simp add: stableStringify_iff)
  from data_eq_field [OF de [unfolded entry_content_def], of "''prevHash''"] ok
  have "entry_prev x = entry_prev y" by (simp add: data_entry_def)
  with de show ?thesis by simp
qed

interpretation stop_ledger: hash_linked "inj_on (sha256_hex env) T" "data_entry env T"
  "entry_prev" "entry_hash" "\<lambda>x y. data_eq (entry_content x) (entry_content y)" for env T
  by unfold_locales (rule same_entry_hash)

lemma linked_data_entry:
  assumes "linked (entry_ok env) entry_prev entry_hash g es" and "list_all json_data es"
    and "entry_text env ` set es \<subseteq> T" and "\<not> is_object g"
  shows "linked (data_entry env T) entry_prev entry_hash g es"
  using assms
proof (induction es arbitrary: g)
  case Nil
  then show ?case by simp
next
  case (Cons e es)
  then have "\<not> is_object (entry_hash e)" by (simp add: entry_ok_def)
  with Cons show ?case by (simp add: data_entry_def)
qed

lemma ledger_head_commits:
  assumes "inj_on (sha256_hex env) (entry_text env ` set (es @ fs))"
    and "list_all json_data (es @ fs)" and "ledger_valid env es" and "ledger_valid env fs"
    and "head_hash entry_hash JNull es = head_hash entry_hash JNull fs"
  shows "list_all2 (\<lambda>x y. data_eq (entry_content x) (entry_content y)) es fs"
proof (rule stop_ledger.head_determines_history [OF assms(1)])
  show "linked (data_entry env (entry_text env ` set (es @ fs))) entry_prev entry_hash JNull es"
    using assms(2,3) by (intro linked_data_entry) (auto simp: ledger_valid_iff)
  show "linked (data_entry env (entry_text env ` set (es @ fs))) entry_prev entry_hash JNull fs"
    using assms(2,4) by (intro linked_data_entry) (auto simp: ledger_valid_iff)
  show "head_hash entry_hash JNull es = head_hash entry_hash JNull fs" by (rule assms(5))
  show "entry_hash x \<noteq> JNull" if "data_entry env (entry_text env ` set (es @ fs)) x" for x
    using that by (simp add: data_entry_def entry_ok_def)
qed

lemma ledger_edit_detected:
  assumes "inj_on (sha256_hex env) (entry_text env ` set (es @ [e, e'] @ fs))"
    and "list_all json_data (es @ [e, e'] @ fs)" and "ledger_valid env (es @ e # fs)" and "fs \<noteq> []"
    and "\<not> data_eq (entry_content e) (entry_content e')"
  shows "\<not> ledger_valid env (es @ e' # fs)"
proof
  assume v: "ledger_valid env (es @ e' # fs)"
  let ?T = "entry_text env ` set (es @ [e, e'] @ fs)"
  have "linked (data_entry env ?T) entry_prev entry_hash JNull (es @ e # fs)"
    using assms(2,3) by (intro linked_data_entry) (auto simp: ledger_valid_iff)
  from stop_ledger.edit_breaks_link [OF assms(1) this assms(4,5)]
  have "\<not> linked (data_entry env ?T) entry_prev entry_hash JNull (es @ e' # fs)" .
  moreover have "linked (data_entry env ?T) entry_prev entry_hash JNull (es @ e' # fs)"
    using assms(2) v by (intro linked_data_entry) (auto simp: ledger_valid_iff)
  ultimately show False ..
qed

end
