(* ===== verification/Emergency_Stop_Properties.thy ===== *)
theory Emergency_Stop_Properties
  imports Emergency_Stop_Chain Evaluation Oversight_Example
begin

text \<open>
  The promises of the emergency stop as theorems on its operations: a stop holds until it is lifted, a
  check that lets an action through has seen an intact ledger, only a decision of the approval authority
  lifts, and an edit of the ledger does not pass the check.
\<close>

section \<open>Histories\<close>

text \<open>
  What happens to the directory between two checks: operations of the ledger by anyone, and changes of
  the record files, the receipts and the listing from outside.
\<close>

datatype stop_step =
    Stop_step clock stop_request
  | Lift_step authority_mode jsval clock stop_request
  | Check_step clock jsval jsval
  | Outside_step "(string \<times> stop_file) list" dir_listing "jsval list"

fun stop_run_step :: "js_env \<Rightarrow> decision_guard \<Rightarrow> stop_step \<Rightarrow> stop_dir \<Rightarrow> stop_dir" where
  "stop_run_step env guard (Stop_step clk q) d = snd (stop env clk q d)"
| "stop_run_step env guard (Lift_step mode i clk q) d = snd (lift env guard mode i clk q d)"
| "stop_run_step env guard (Check_step clk w a) d = snd (check env clk w a d)"
| "stop_run_step env guard (Outside_step fs l rs) d = d\<lparr>sd_files := fs, sd_listing := l, sd_receipts := rs\<rparr>"

definition stop_run :: "js_env \<Rightarrow> decision_guard \<Rightarrow> stop_step list \<Rightarrow> stop_dir \<Rightarrow> stop_dir" where
  "stop_run env guard steps d = fold (stop_run_step env guard) steps d"

definition request_target :: "stop_request \<Rightarrow> stop_error + stop_target" where
  "request_target q = normalizeTarget (sq_scope q) (sq_workspaceId q) (sq_agentId q)"

fun lifts :: "js_env \<Rightarrow> stop_target \<Rightarrow> stop_step \<Rightarrow> bool" where
  "lifts env t (Lift_step mode i clk q) = (case request_target q of
     Inl e \<Rightarrow> False | Inr t' \<Rightarrow> target_key env t' = target_key env t)"
| "lifts env t _ = False"

text \<open>The scope \<open>t\<close> is one of those a call in workspace \<open>w\<close> by agent \<open>a\<close> is checked against.\<close>

definition covers :: "stop_target \<Rightarrow> jsval \<Rightarrow> jsval \<Rightarrow> bool" where
  "covers t w a = (case normalizeWorkspaceId w of
     Inl e \<Rightarrow> False | Inr ws \<Rightarrow> t \<in> set (targets_of ws (stop_text a)))"

lemma step_keeps_held:
  assumes "held env t d" and "\<not> lifts env t s"
  shows "held env t (stop_run_step env guard s d)"
proof (cases s)
  case (Stop_step clk q)
  with stop_keeps_held [OF _ assms(1), of clk q] show ?thesis
    by (cases "stop env clk q d") auto
next
  case (Lift_step mode i clk q)
  with lift_keeps_held [OF _ assms(1), of guard mode i clk q] assms(2) show ?thesis
    by (cases "lift env guard mode i clk q d") (auto simp: request_target_def split: sum.splits)
next
  case (Check_step clk w a)
  with check_keeps_held [OF _ assms(1), of clk w a] show ?thesis
    by (cases "check env clk w a d") auto
next
  case (Outside_step fs l rs)
  with assms(1) show ?thesis
    using held_ledger [of "d\<lparr>sd_files := fs, sd_listing := l, sd_receipts := rs\<rparr>" d] by simp
qed

lemma run_keeps_held:
  "held env t d \<Longrightarrow> \<forall>s\<in>set steps. \<not> lifts env t s \<Longrightarrow> held env t (stop_run env guard steps d)"
  by (induction steps arbitrary: d) (auto simp: stop_run_def intro: step_keeps_held)

text \<open>
  C7: a stop holds until it is lifted.  Once a stop has returned, a check of any call the stopped
  scope covers reports a stop, whatever state the ledger was in, and after any sequence of stops, checks,
  lifts of other scopes and changes to the record files, the receipts and the listing.  A stop of a
  workspace covers every agent in it.
\<close>

theorem stop_holds_until_lifted:
  assumes "stop env clk q d = (Inr y, d')" and "request_target q = Inr t"
    and "\<forall>s\<in>set steps. \<not> lifts env t s" and "covers t w a"
  shows "\<exists>r d''. check env clk' w a (stop_run env guard steps d') = (Inr r, d'') \<and> ck_stopped r"
proof -
  from assms(4) obtain ws where "normalizeWorkspaceId w = Inr ws" "t \<in> set (targets_of ws (stop_text a))"
    by (auto simp: covers_def split: sum.splits)
  with check_held [OF run_keeps_held [OF stop_holds [OF assms(1)] assms(3)]] assms(2)
  show ?thesis by (simp add: request_target_def)
qed

text \<open>An example: a ledger with a corrupt line, a stop of a workspace, then the files are deleted.\<close>

definition bad_dir :: stop_dir where
  "bad_dir = \<lparr>sd_ledger = Ledger [Corrupt_line], sd_files = [], sd_listing = Dir_present, sd_receipts = []\<rparr>"

definition workspace_stop :: stop_request where
  "workspace_stop = \<lparr>sq_scope = JStr ''workspace'', sq_workspaceId = JStr ''w'', sq_agentId = JUndefined,
     sq_reason = JStr ''r'', sq_actor = JStr ''o'', sq_operatorIdentity = JUndefined\<rparr>"

definition workspace_target :: stop_target where
  "workspace_target = \<lparr>tg_scope = Workspace_scope, tg_workspaceId = ''w'', tg_agentId = None\<rparr>"

definition still_clock :: clock where
  "still_clock = (\<lambda>i. ''t1'')"

lemma workspace_stop_target: "request_target workspace_stop = Inr workspace_target"
  by code_simp

lemma workspace_stop_covers: "covers workspace_target (JStr ''w'') (JStr ''any agent'')"
  by code_simp

lemma workspace_stop_returns:
  "case stop clock_env still_clock workspace_stop bad_dir of (Inl e, d) \<Rightarrow> False | (Inr y, d) \<Rightarrow> sr_integrityViolation y"
  by code_simp

theorem stop_holds_until_lifted_witness:
  "\<exists>r d''. check clock_env still_clock (JStr ''w'') (JStr ''any agent'') (stop_run clock_env (\<lambda>_ _ _. None)
      [Outside_step [] Dir_absent []] (snd (stop clock_env still_clock workspace_stop bad_dir))) = (Inr r, d'')
    \<and> ck_stopped r"
proof -
  from workspace_stop_returns obtain y d' where
    s: "stop clock_env still_clock workspace_stop bad_dir = (Inr y, d')"
    by (auto split: prod.splits sum.splits)
  from stop_holds_until_lifted [OF s workspace_stop_target _ workspace_stop_covers, of "[Outside_step [] Dir_absent []]"]
  show ?thesis by (simp add: s)
qed

section \<open>Checking is fail-closed\<close>

lemma compare_ledger_ok:
  "ig_ok (compare_ledger files st) \<Longrightarrow> (k, x) \<in> set st \<Longrightarrow> ss_stopped x = (map_of files k \<noteq> None)"
  by (induction files st rule: compare_ledger.induct)
    (auto simp: violated_def split: option.splits if_splits)

lemma check_ledger_clear:
  "\<not> ck_stopped (check_ledger env st ts) \<Longrightarrow> t \<in> set ts \<Longrightarrow> \<not> is_stopped st (target_key env t)"
  using check_ledger_stops by blast

lemma check_files_clear:
  "\<not> ck_stopped (check_files env d ts) \<Longrightarrow> t \<in> set ts \<Longrightarrow> readRecord env t d = No_record"
  by (induction env d ts rule: check_files.induct) (auto simp: check_stopped_def split: read_record.splits)

text \<open>
  C35: a call is let through only over an intact ledger.  When a check reports no stop, it wrote
  nothing, the ledger is a verified chain, every scope the ledger has entries of is stopped exactly when
  its record file exists, and no scope that covers the call is stopped by the ledger or, without a
  ledger, by a record file.
\<close>

theorem clear_check_means_intact:
  assumes "check env clk w a d = (Inr r, d')" and "\<not> ck_stopped r"
  shows "d' = d \<and> ledger_valid env (readLedgerEntries d)
    \<and> (\<forall>(k, x) \<in> set (replayLedgerState env (readLedgerEntries d)).
         ss_stopped x = (map_of (fst (scanFileState env d)) k \<noteq> None))
    \<and> (\<forall>t. covers t w a \<longrightarrow>
         \<not> is_stopped (replayLedgerState env (readLedgerEntries d)) (target_key env t)
         \<and> (readLedgerEntries d = [] \<longrightarrow> readRecord env t d = No_record))"
proof -
  from assms obtain ws ig where ws: "normalizeWorkspaceId w = Inr ws"
    and ig: "verifyIntegrity env d = Inr ig" "ig_ok ig"
    by (auto simp: check_def Let_def split: sum.splits if_splits)
  have v: "verifyLedgerEntries env (readLedgerEntries d) = Inr None" by (rule verifyIntegrity_ok [OF ig])
  then have dm: "damaged_entry (readLedgerEntries d) = Inr False" by (simp add: verifyLedgerEntries_None)
  let ?es = "readLedgerEntries d" and ?ts = "targets_of ws (stop_text a)"
  have r: "d' = d" "r = (if ?es \<noteq> [] then check_ledger env (replayLedgerState env ?es) ?ts else check_files env d ?ts)"
    using assms(1) by (auto simp: check_def ws ig Let_def undamaged_sound [OF dm] split: if_splits)
  have "ig_ok (compare_ledger (fst (scanFileState env d)) (replayLedgerState env ?es))" if "?es \<noteq> []"
    using ig that by (auto simp: verifyIntegrity_def v Let_def violated_def split: prod.splits if_splits)
  then have c: "\<forall>(k, x) \<in> set (replayLedgerState env ?es). ss_stopped x = (map_of (fst (scanFileState env d)) k \<noteq> None)"
    using compare_ledger_ok by (cases "?es = []") (fastforce simp: replayLedgerState_def)+
  have "\<not> is_stopped (replayLedgerState env ?es) (target_key env t) \<and> (?es = [] \<longrightarrow> readRecord env t d = No_record)"
    if "covers t w a" for t
  proof -
    have t: "t \<in> set ?ts" using that by (simp add: covers_def ws)
    show ?thesis
    proof (cases "?es = []")
      case True
      with r assms(2) check_files_clear [OF _ t] show ?thesis
        by (simp add: replayLedgerState_def is_stopped_def)
    next
      case False
      with r assms(2) check_ledger_clear [OF _ t] show ?thesis by simp
    qed
  qed
  with r v c show ?thesis by (simp add: ledger_valid_def)
qed

definition empty_dir :: stop_dir where
  "empty_dir = \<lparr>sd_ledger = Ledger_absent, sd_files = [], sd_listing = Dir_absent, sd_receipts = []\<rparr>"

lemma empty_dir_clear:
  "case check clock_env still_clock (JStr ''w'') (JStr ''a'') empty_dir of
     (Inl e, d) \<Rightarrow> False | (Inr r, d) \<Rightarrow> \<not> ck_stopped r"
  by code_simp

theorem clear_check_means_intact_witness:
  "\<exists>r. check clock_env still_clock (JStr ''w'') (JStr ''a'') empty_dir = (Inr r, empty_dir) \<and> \<not> ck_stopped r"
proof -
  from empty_dir_clear obtain r d' where
    c: "check clock_env still_clock (JStr ''w'') (JStr ''a'') empty_dir = (Inr r, d')" "\<not> ck_stopped r"
    by (auto split: prod.splits sum.splits)
  with clear_check_means_intact [OF c] show ?thesis by simp
qed

section \<open>Lifting\<close>

lemma decision_required:
  "requireOperationalDecision env guard mode b i True = Inr u \<Longrightarrow>
     mode \<noteq> Legacy \<and> guard mode b i = Some (Inr ()) \<and> (mode = Service \<longrightarrow> nonempty_string i)"
  by (auto simp: requireOperationalDecision_def Let_def split: if_splits option.splits sum.splits)

text \<open>
  C34: only a decision of the approval authority lifts a stop, and only the stop it names.  When a lift
  is recorded, an authority is installed and confirmed exactly this operation (scope, workspace, agent
  and reason), the ledger was intact and stays so, the scope is not stopped any more and every other
  scope is stopped as it was before.  A lift that is not recorded releases nothing.
\<close>

theorem lift_needs_decision:
  assumes "lift env guard mode i clk q d = (r, d')"
  shows "((\<exists>receipt e. r = Inr (Lifted receipt e)) \<longrightarrow> (\<exists>t. request_target q = Inr t \<and> mode \<noteq> Legacy
      \<and> guard mode (lift_operation t q) i = Some (Inr ()) \<and> (mode = Service \<longrightarrow> nonempty_string i)
      \<and> ledger_valid env (readLedgerEntries d) \<and> ledger_valid env (readLedgerEntries d')
      \<and> (\<forall>k. is_stopped (replayLedgerState env (readLedgerEntries d')) k =
            (k \<noteq> target_key env t \<and> is_stopped (replayLedgerState env (readLedgerEntries d)) k))))
    \<and> ((\<forall>receipt e. r \<noteq> Inr (Lifted receipt e)) \<longrightarrow> (\<forall>t. held env t d \<longrightarrow> held env t d'))"
  using assms
proof (cases rule: lift_cases)
  case (lifted t receipt e d2 ig)
  let ?d = "without_record env t d"
  have re: "readLedgerEntries ?d = readLedgerEntries d" by (rule entries_ledger) simp
  have v: "ledger_valid env (readLedgerEntries d)"
    using verifyIntegrity_ok [OF lifted(4,5)] by (simp add: ledger_valid_def)
  from append_keeps_valid [OF _ lifted(7)] v re have v2: "ledger_valid env (readLedgerEntries d2)"
    and es: "readLedgerEntries d2 = readLedgerEntries d @ [e]" by simp_all
  have d': "readLedgerEntries d' = readLedgerEntries d2"
    by (rule entries_ledger [OF ledger_appendReceipt [OF lifted(8)]])
  have e: "e = new_entry env (note_of ''lift'' t q) (clk 3) (readLedgerEntries d)"
    using lifted(7) by (auto simp: appendLedgerEntry_cases re split: if_splits)
  have st: "is_stopped (replayLedgerState env (readLedgerEntries d')) k =
      (k \<noteq> target_key env t \<and> is_stopped (replayLedgerState env (readLedgerEntries d)) k)" for k
    by (simp add: d' es replay_snoc e replay_new_entry)
  from decision_required [OF lifted(3)] lifted(1,2) v v2 st show ?thesis
    by (simp add: request_target_def d')
next
  case (violation t ig)
  then show ?thesis by (simp add: violation_held held_readable)
next
  case (unrecorded t e)
  then show ?thesis using held_ledger [of "without_record env t d" d] by simp
qed simp

definition stopped_dir :: stop_dir where
  "stopped_dir = snd (stop example_env still_clock workspace_stop empty_dir)"

definition agreeing_guard :: decision_guard where
  "agreeing_guard mode b i = (if mode = Service \<and> i = JStr ''d1'' then Some (Inr ()) else None)"

lemma stopped_dir_lifts:
  "case lift example_env agreeing_guard Service (JStr ''d1'') still_clock workspace_stop stopped_dir of
     (Inr (Lifted receipt e), d) \<Rightarrow> True | _ \<Rightarrow> False"
  by code_simp

theorem lift_needs_decision_witness:
  "\<exists>r d' t. lift example_env agreeing_guard Service (JStr ''d1'') still_clock workspace_stop stopped_dir = (r, d')
    \<and> request_target workspace_stop = Inr t
    \<and> \<not> is_stopped (replayLedgerState example_env (readLedgerEntries d')) (target_key example_env t)"
proof -
  from stopped_dir_lifts obtain receipt e d' where
    l: "lift example_env agreeing_guard Service (JStr ''d1'') still_clock workspace_stop stopped_dir
      = (Inr (Lifted receipt e), d')"
    by (auto split: prod.splits sum.splits lift_reply.splits)
  from lift_needs_decision [OF l] l show ?thesis by blast
qed

section \<open>The ledger\<close>

text \<open>
  An appended entry extends the chain.  Appending a stop, a lift or a violation to a verified
  ledger gives a verified ledger with the entry at its end.
\<close>

theorem append_extends_ledger:
  assumes "ledger_valid env (readLedgerEntries d)" and "appendLedgerEntry env n c d = Inr (e, d')"
    and "sn_action n \<in> {''stop'', ''lift'', ''integrity_violation''}"
  shows "ledger_valid env (readLedgerEntries d') \<and> readLedgerEntries d' = readLedgerEntries d @ [e]"
  using append_keeps_valid [OF assms] by simp

theorem append_extends_ledger_witness:
  "\<exists>e d'. appendLedgerEntry example_env (note_of ''stop'' workspace_target workspace_stop) ''t1'' empty_dir = Inr (e, d')
    \<and> ledger_valid example_env (readLedgerEntries d') \<and> readLedgerEntries d' = [e]"
proof -
  have e: "readLedgerEntries empty_dir = []" by (simp add: empty_dir_def readLedgerEntries_def)
  then obtain e d' where
    a: "appendLedgerEntry example_env (note_of ''stop'' workspace_target workspace_stop) ''t1'' empty_dir = Inr (e, d')"
    by (auto simp: appendLedgerEntry_cases)
  have "ledger_valid example_env (readLedgerEntries empty_dir)"
    by (simp add: e ledger_valid_iff numbered_from_def actions_ok_def)
  from append_extends_ledger [OF this a] a e show ?thesis by auto
qed

text \<open>
  An edit of the ledger is detected.  If the digest does not collide on the texts involved, changing
  the content of an entry that has a successor gives a ledger that the verification rejects.
\<close>

theorem edited_ledger_rejected:
  assumes "inj_on (sha256_hex env) (entry_text env ` set (es @ [e, e'] @ fs))"
    and "list_all json_data (es @ [e, e'] @ fs)" and "ledger_valid env (es @ e # fs)" and "fs \<noteq> []"
    and "\<not> data_eq (entry_content e) (entry_content e')"
  shows "\<not> ledger_valid env (es @ e' # fs)"
  using assms by (rule ledger_edit_detected)

text \<open>A ledger of two entries, and its first entry with another actor.\<close>

definition first_entry :: "string \<Rightarrow> jsval" where
  "first_entry actor = new_entry example_env
     \<lparr>sn_action = ''stop'', sn_scope = Workspace_scope, sn_workspaceId = ''w'', sn_agentId = None,
      sn_actor = JStr actor, sn_operatorIdentity = JUndefined, sn_reason = JStr []\<rparr> ''t1'' []"

definition second_entry :: jsval where
  "second_entry = new_entry example_env
     \<lparr>sn_action = ''lift'', sn_scope = Workspace_scope, sn_workspaceId = ''w'', sn_agentId = None,
      sn_actor = JStr ''bo'', sn_operatorIdentity = JUndefined, sn_reason = JStr []\<rparr> ''t2'' [first_entry ''ann'']"

lemma example_entry_lengths:
  "map (\<lambda>e. length (entry_text example_env e)) [first_entry ''ann'', first_entry ''mallory'', second_entry]
     = [195, 199, 256]"
  by code_simp

lemma example_ledger_data:
  "list_all json_data [first_entry ''ann'', first_entry ''mallory'', second_entry]"
  by code_simp

lemma example_ledger_valid: "ledger_valid example_env [first_entry ''ann'', second_entry]"
  by code_simp

theorem edited_ledger_rejected_witness:
  "\<not> ledger_valid example_env [first_entry ''mallory'', second_entry]"
proof -
  let ?es = "[first_entry ''ann'', first_entry ''mallory'', second_entry]"
  have "inj_on (sha256_hex example_env) (entry_text example_env ` set ?es)"
    using example_entry_lengths by (intro example_inj_small) (auto simp: inj_on_def)
  moreover have "\<not> data_eq (entry_content (first_entry ''ann'')) (entry_content (first_entry ''mallory''))"
  proof -
    have "json_data (entry_content (first_entry a))" if "json_data (first_entry a)" for a
      using that by (rule json_data_content) (simp add: first_entry_def)
    then show ?thesis
      using example_ledger_data example_entry_lengths
      by (auto simp: stableStringify_iff [of _ _ example_env, symmetric] entry_text_def)
  qed
  ultimately show ?thesis
    using edited_ledger_rejected [of example_env "[]" "first_entry ''ann''" "first_entry ''mallory''" "[second_entry]"]
      example_ledger_data example_ledger_valid by simp
qed

text \<open>
  The hash of the last entry pins the whole ledger.  Two verified ledgers whose last entries have
  the same hash have the same number of entries, with the same content at each position, if the digest
  does not collide on their texts.
\<close>

theorem last_hash_pins_ledger:
  assumes "inj_on (sha256_hex env) (entry_text env ` set (es @ fs))"
    and "list_all json_data (es @ fs)" and "ledger_valid env es" and "ledger_valid env fs"
    and "head_hash entry_hash JNull es = head_hash entry_hash JNull fs"
  shows "length es = length fs \<and> list_all2 (\<lambda>x y. data_eq (entry_content x) (entry_content y)) es fs"
  using ledger_head_commits [OF assms] by (simp add: list_all2_lengthD)

definition reordered :: "jsval \<Rightarrow> jsval" where
  "reordered e = JObj (rev (own_fields e))"

lemma reordered_ledger:
  "ledger_valid example_env [reordered (first_entry ''ann''), reordered second_entry]"
  "list_all json_data [reordered (first_entry ''ann''), reordered second_entry]"
  "map (entry_text example_env) [reordered (first_entry ''ann''), reordered second_entry]
     = map (entry_text example_env) [first_entry ''ann'', second_entry]"
  "entry_hash (reordered second_entry) = entry_hash second_entry"
  by code_simp+

theorem last_hash_pins_ledger_witness:
  "list_all2 (\<lambda>x y. data_eq (entry_content x) (entry_content y)) [first_entry ''ann'', second_entry]
     [reordered (first_entry ''ann''), reordered second_entry]"
proof -
  let ?es = "[first_entry ''ann'', second_entry]"
  let ?fs = "[reordered (first_entry ''ann''), reordered second_entry]"
  have "inj_on (sha256_hex example_env) (entry_text example_env ` set (?es @ ?fs))"
    using example_entry_lengths reordered_ledger(3) by (intro example_inj_small) (auto simp: inj_on_def)
  moreover have "list_all json_data (?es @ ?fs)"
    using example_ledger_data reordered_ledger(2) by simp
  moreover have "head_hash entry_hash JNull ?es = head_hash entry_hash JNull ?fs"
    using reordered_ledger(4) by simp
  ultimately show ?thesis
    using last_hash_pins_ledger [OF _ _ example_ledger_valid reordered_ledger(1)] by blast
qed

end
