(* ===== verification/Base64.thy ===== *)
theory Base64
  imports Js_Prelude
begin

text \<open>
  Base64 as the redo log uses it: \<open>buffer.toString('base64')\<close> and
  \<open>Buffer.from(text, 'base64')\<close>.  Bytes are the characters of a string.  The decoder skips
  every character outside the alphabet, padding included, as the one of the platform does.
\<close>

section \<open>Digits\<close>

definition base64_digit :: "nat \<Rightarrow> char" where
  "base64_digit n = (if n < 26 then char_of (65 + n) else if n < 52 then char_of (71 + n)
     else if n < 62 then char_of (n - 4) else if n = 62 then CHR ''+'' else CHR ''/'')"

definition sextet :: "char \<Rightarrow> nat option" where
  "sextet c = (let n = of_char c in
     if 65 \<le> n \<and> n \<le> 90 then Some (n - 65) else if 97 \<le> n \<and> n \<le> 122 then Some (n - 71)
     else if 48 \<le> n \<and> n \<le> 57 then Some (n + 4)
     else if c = CHR ''+'' \<or> c = CHR ''-'' then Some 62
     else if c = CHR ''/'' \<or> c = CHR ''_'' then Some 63 else None)"

section \<open>Encoding and decoding\<close>

abbreviation byte :: "char \<Rightarrow> nat" where
  "byte c \<equiv> of_char c"

fun sextets :: "string \<Rightarrow> nat list" where
  "sextets (a # b # c # s) = (byte a div 4) # (byte a mod 4 * 16 + byte b div 16)
     # (byte b mod 16 * 4 + byte c div 64) # (byte c mod 64) # sextets s"
| "sextets [a, b] = [byte a div 4, byte a mod 4 * 16 + byte b div 16, byte b mod 16 * 4]"
| "sextets [a] = [byte a div 4, byte a mod 4 * 16]"
| "sextets [] = []"

definition base64_padding :: "nat \<Rightarrow> string" where
  "base64_padding n = (if n mod 3 = 1 then ''=='' else if n mod 3 = 2 then ''='' else [])"

definition to_base64 :: "string \<Rightarrow> string" where
  "to_base64 s = map base64_digit (sextets s) @ base64_padding (length s)"

fun bytes_of_sextets :: "nat list \<Rightarrow> string" where
  "bytes_of_sextets (a # b # c # d # r) = char_of (a * 4 + b div 16)
     # char_of (b mod 16 * 16 + c div 4) # char_of (c mod 4 * 64 + d) # bytes_of_sextets r"
| "bytes_of_sextets [a, b, c] = [char_of (a * 4 + b div 16), char_of (b mod 16 * 16 + c div 4)]"
| "bytes_of_sextets [a, b] = [char_of (a * 4 + b div 16)]"
| "bytes_of_sextets _ = []"

definition from_base64 :: "string \<Rightarrow> string" where
  "from_base64 t = bytes_of_sextets (List.map_filter sextet t)"

section \<open>Decoding inverts encoding\<close>

lemma byte_less [simp]: "byte c < 256"
  by (cases c) (simp add: String.char_of_def)

lemma sextet_digit [simp]: "n < 64 \<Longrightarrow> sextet (base64_digit n) = Some n"
  by (auto simp: base64_digit_def sextet_def Let_def of_char_of)

lemma map_filter_digits:
  "list_all (\<lambda>n. n < 64) ns \<Longrightarrow> List.map_filter sextet (map base64_digit ns @ t) = ns @ List.map_filter sextet t"
  by (induction ns) (simp_all add: List.map_filter_def)

lemma padding_skipped [simp]: "List.map_filter sextet (base64_padding n) = []"
  by (simp add: base64_padding_def List.map_filter_def sextet_def)

lemma high_six: "a < 256 \<Longrightarrow> a div 4 < (64 :: nat)"
  by (simp add: less_mult_imp_div_less)

lemma middle_six: "b < 256 \<Longrightarrow> a mod 4 * 16 + b div 16 < (64 :: nat)"
  using less_mult_imp_div_less [of b 16 16] mod_less_divisor [of 4 a] by linarith

lemma low_six: "c < 256 \<Longrightarrow> b mod 16 * 4 + c div 64 < (64 :: nat)"
  using less_mult_imp_div_less [of c 4 64] mod_less_divisor [of 16 b] by linarith

lemma last_six: "b mod 16 * 4 < (64 :: nat)" "a mod 4 * 16 < (64 :: nat)"
  using mod_less_divisor [of 16 b] mod_less_divisor [of 4 a] by linarith+

lemma sextets_bound: "list_all (\<lambda>n. n < 64) (sextets s)"
  by (induction s rule: sextets.induct) (simp_all add: high_six middle_six low_six last_six)

lemma carry_div: "n < k \<Longrightarrow> (m * k + n) div k = (m :: nat)"
  by simp

lemma carry_mod: "n < k \<Longrightarrow> (m * k + n) mod k = (n :: nat)"
  by simp

lemma div_16: "b < 256 \<Longrightarrow> b div 16 < (16 :: nat)"
  by (simp add: less_mult_imp_div_less)

lemma div_64: "c < 256 \<Longrightarrow> c div 64 < (4 :: nat)"
  by (simp add: less_mult_imp_div_less)

lemma regroup_first: "b < 256 \<Longrightarrow> a div 4 * 4 + (a mod 4 * 16 + b div 16) div 16 = (a :: nat)"
  unfolding carry_div [OF div_16] by (rule div_mult_mod_eq)

lemma regroup_second:
  "b < 256 \<Longrightarrow> c < 256 \<Longrightarrow>
     (a mod 4 * 16 + b div 16) mod 16 * 16 + (b mod 16 * 4 + c div 64) div 4 = (b :: nat)"
  unfolding carry_mod [OF div_16] carry_div [OF div_64] by (rule div_mult_mod_eq)

lemma regroup_third: "c < 256 \<Longrightarrow> (b mod 16 * 4 + c div 64) mod 4 * 64 + c mod 64 = (c :: nat)"
  unfolding carry_mod [OF div_64] by (rule div_mult_mod_eq)

lemma regroup_end:
  "b < 256 \<Longrightarrow> (a mod 4 * 16 + b div 16) mod 16 * 16 + (b mod 16 * 4) div 4 = (b :: nat)"
  "a div 4 * 4 + (a mod 4 * 16) div 16 = (a :: nat)"
  unfolding carry_mod [OF div_16] by simp_all

lemma bytes_of_sextets_sextets: "bytes_of_sextets (sextets s) = s"
  by (induction s rule: sextets.induct)
    (simp_all only: sextets.simps bytes_of_sextets.simps regroup_first regroup_second
      regroup_third regroup_end byte_less char_of_char)

lemma from_to_base64 [simp]: "from_base64 (to_base64 s) = s"
  using map_filter_digits [OF sextets_bound, of s "base64_padding (length s)"]
  by (simp add: from_base64_def to_base64_def bytes_of_sextets_sextets)

end
