(* ===== verification/Json_Transaction.thy ===== *)
theory Json_Transaction
  imports Mutation_Journal Base64
begin

text \<open>
  The redo log of the JSON store (\<open>src/lib/graph-json-transaction.js\<close>): the graph, its
  embedding sidecar and the mutation journal are three files that have to change together.  A disk
  maps paths to files and has one place for the redo record; writing a file is atomic (a private
  sibling is renamed over the target), so a write or an unlink happens or does not.  Each of them has
  a fate, an argument of the operation: it is done, it fails with nothing changed, or it is done and the
  process stops there (or the call throws after the change); a stop between two writes is one of these.
  The hook of the fault injection is a predicate on the names of the points where it throws.
\<close>

section \<open>The disk\<close>

datatype file_slot = No_file | Read_error | Bytes string

record disk =
  dk_file :: "string \<Rightarrow> file_slot"
  dk_redo :: journal_file

datatype redo_error =
    Recovery_failed string
  | Recovery_conflict string
  | Io_error
  | Fault string

type_synonym 'a disk_run = "(redo_error + 'a) \<times> disk"

definition and_then :: "'a disk_run \<Rightarrow> ('a \<Rightarrow> disk \<Rightarrow> 'b disk_run) \<Rightarrow> 'b disk_run" where
  "and_then m f = (case m of (Inl e, d) \<Rightarrow> (Inl e, d) | (Inr x, d) \<Rightarrow> f x d)"

lemma and_then_simps [simp]:
  "and_then (Inl e, d) f = (Inl e, d)"
  "and_then (Inr x, d) f = f x d"
  by (simp_all add: and_then_def)

datatype disk_write = Write_redo | Write_memory | Write_embeddings | Write_journal | Unlink_redo

datatype write_fate = Write_done | Write_failed | Write_then_stopped

type_synonym write_fates = "disk_write \<Rightarrow> write_fate"

definition change :: "write_fate \<Rightarrow> disk \<Rightarrow> disk \<Rightarrow> unit disk_run" where
  "change fate after before = (case fate of
       Write_done \<Rightarrow> (Inr (), after)
     | Write_failed \<Rightarrow> (Inl Io_error, before)
     | Write_then_stopped \<Rightarrow> (Inl Io_error, after))"

fun readOptional :: "file_slot \<Rightarrow> redo_error + string option" where
  "readOptional No_file = Inr None"
| "readOptional Read_error = Inl Io_error"
| "readOptional (Bytes b) = Inr (Some b)"

fun hash_bytes :: "js_env \<Rightarrow> string option \<Rightarrow> jsval" where
  "hash_bytes env None = JNull"
| "hash_bytes env (Some b) = JStr (sha256_hex env b)"

section \<open>The redo record\<close>

record redo_entry =
  re_path :: string
  re_beforeHash :: jsval
  re_afterHash :: string
  re_after :: string

record redo_files =
  tx_memory :: redo_entry
  tx_embeddings :: redo_entry
  tx_journal :: redo_entry

definition canonicalBase64 :: "jsval \<Rightarrow> redo_error + string" where
  "canonicalBase64 v = (case v of
       JStr t \<Rightarrow> let bytes = from_base64 t in
         if to_base64 bytes \<noteq> t
           then Inl (Recovery_failed ''JSON recovery after-image is not canonical base64'')
         else Inr bytes
     | _ \<Rightarrow> Inl (Recovery_failed ''JSON recovery after-image is invalid''))"

fun object_keys :: "jsval \<Rightarrow> string list" where
  "object_keys (JObj fs) = map fst fs"
| "object_keys (JArr xs) = map show_nat [0..<length xs]"
| "object_keys _ = []"

definition keys_text :: "jsval \<Rightarrow> string" where
  "keys_text v = join '','' (sort (object_keys v))"

definition validate_entry :: "js_env \<Rightarrow> string \<Rightarrow> jsval \<Rightarrow> redo_error + redo_entry" where
  "validate_entry env name e = (case jget e ''path'' of
       JStr path \<Rightarrow>
         if is_object e \<and> keys_text e = ''after,afterHash,beforeHash,path'' \<and> path \<noteq> []
            \<and> (jget e ''beforeHash'' = JNull \<or> SHA256_HEX (js_string env (jget e ''beforeHash'')))
            \<and> SHA256_HEX (js_string env (jget e ''afterHash''))
         then bind_result (canonicalBase64 (jget e ''after'')) (\<lambda>after.
           if JStr (sha256_hex env after) \<noteq> jget e ''afterHash''
             then Inl (Recovery_failed (''JSON recovery '' @ name @ '' after-image hash mismatch''))
           else Inr \<lparr>re_path = path, re_beforeHash = jget e ''beforeHash'',
             re_afterHash = sha256_hex env after, re_after = after\<rparr>)
         else Inl (Recovery_failed (''JSON recovery '' @ name @ '' entry is invalid''))
     | _ \<Rightarrow> Inl (Recovery_failed (''JSON recovery '' @ name @ '' entry is invalid'')))"

definition validateRedo :: "js_env \<Rightarrow> jsval \<Rightarrow> redo_error + redo_files" where
  "validateRedo env r = (let files = jget r ''files'' in
     if \<not> (isPlainObject r \<and> jget r ''version'' = JNum 1 \<and> nonempty_string (jget r ''operationId'')
            \<and> is_string (jget r ''createdAt'') \<and> is_object files)
       then Inl (Recovery_failed ''JSON recovery record has an invalid envelope'')
     else if \<not> (keys_text r = ''createdAt,files,operationId,version''
            \<and> keys_text files = ''embeddings,journal,memory'')
       then Inl (Recovery_failed ''JSON recovery record has unknown or missing fields'')
     else
       bind_result (validate_entry env ''memory'' (jget files ''memory'')) (\<lambda>memory.
       bind_result (validate_entry env ''embeddings'' (jget files ''embeddings'')) (\<lambda>embeddings.
       bind_result (validate_entry env ''journal'' (jget files ''journal'')) (\<lambda>journal.
         Inr \<lparr>tx_memory = memory, tx_embeddings = embeddings, tx_journal = journal\<rparr>))))"

definition readRedo :: "js_env \<Rightarrow> disk \<Rightarrow> redo_error + redo_files option" where
  "readRedo env d = (case dk_redo d of
       Absent \<Rightarrow> Inr None
     | Unreadable \<Rightarrow> Inl Io_error
     | Not_json \<Rightarrow> Inl (Recovery_failed ''JSON recovery record is not valid JSON'')
     | Parsed r \<Rightarrow> bind_result (validateRedo env r) (\<lambda>files. Inr (Some files)))"

section \<open>Publishing and recovery\<close>

definition fault :: "(string \<Rightarrow> bool) \<Rightarrow> string \<Rightarrow> disk \<Rightarrow> unit disk_run" where
  "fault hook point d = (if hook point then (Inl (Fault point), d) else (Inr (), d))"

record graph_paths =
  gp_memory :: string
  gp_embeddings :: string
  gp_journal :: string

definition assertRedoPaths :: "graph_paths \<Rightarrow> redo_files \<Rightarrow> redo_error + unit" where
  "assertRedoPaths g tx =
     bind_result (guard_result (re_path (tx_memory tx) = gp_memory g)
       (Recovery_conflict ''JSON recovery memory path does not match this store'')) (\<lambda>_.
     bind_result (guard_result (re_path (tx_embeddings tx) = gp_embeddings g)
       (Recovery_conflict ''JSON recovery embeddings path does not match this store'')) (\<lambda>_.
     guard_result (re_path (tx_journal tx) = gp_journal g)
       (Recovery_conflict ''JSON recovery journal path does not match this store'')))"

definition write_bytes :: "string \<Rightarrow> string \<Rightarrow> disk \<Rightarrow> disk" where
  "write_bytes path b d = d\<lparr>dk_file := (dk_file d)(path := Bytes b)\<rparr>"

definition publish :: "js_env \<Rightarrow> write_fate \<Rightarrow> redo_entry \<Rightarrow> disk \<Rightarrow> unit disk_run" where
  "publish env fate e d = (case readOptional (dk_file d (re_path e)) of
       Inl err \<Rightarrow> (Inl err, d)
     | Inr current \<Rightarrow>
         let currentHash = hash_bytes env current in
         if currentHash = JStr (re_afterHash e) then (Inr (), d)
         else if currentHash \<noteq> re_beforeHash e
           then (Inl (Recovery_conflict ''JSON recovery found an unexpected current-file hash''), d)
         else change fate (write_bytes (re_path e) (re_after e) d) d)"

definition unlink_redo :: "disk \<Rightarrow> disk" where
  "unlink_redo d = d\<lparr>dk_redo := Absent\<rparr>"

definition recoverJsonTransaction ::
    "js_env \<Rightarrow> graph_paths \<Rightarrow> (string \<Rightarrow> bool) \<Rightarrow> write_fates \<Rightarrow> disk \<Rightarrow> bool disk_run" where
  "recoverJsonTransaction env g hook io d = (case readRedo env d of
       Inl err \<Rightarrow> (Inl err, d)
     | Inr None \<Rightarrow> (Inr False, d)
     | Inr (Some tx) \<Rightarrow>
         (case assertRedoPaths g tx of
            Inl err \<Rightarrow> (Inl err, d)
          | Inr _ \<Rightarrow>
              and_then (publish env (io Write_memory) (tx_memory tx) d) (\<lambda>_ d.
              and_then (publish env (io Write_embeddings) (tx_embeddings tx) d) (\<lambda>_ d.
              and_then (publish env (io Write_journal) (tx_journal tx) d) (\<lambda>_ d.
              and_then (fault hook ''before-recovery-cleanup'' d) (\<lambda>_ d.
              and_then (change (io Unlink_redo) (unlink_redo d) d) (\<lambda>_ d.
                (Inr True, d))))))))"

section \<open>Committing\<close>

text \<open>The bytes of the three files a commit wants on the disk.\<close>

record store_image =
  si_memory :: string
  si_embeddings :: string
  si_journal :: string

definition entry :: "js_env \<Rightarrow> string \<Rightarrow> string option \<Rightarrow> string \<Rightarrow> jsval" where
  "entry env path before after = JObj [(''path'', JStr path), (''beforeHash'', hash_bytes env before),
     (''afterHash'', hash_bytes env (Some after)), (''after'', JStr (to_base64 after))]"

definition redo_record :: "string \<Rightarrow> string \<Rightarrow> jsval \<Rightarrow> jsval \<Rightarrow> jsval \<Rightarrow> jsval" where
  "redo_record operationId createdAt memory embeddings journal = JObj
     [(''version'', JNum 1), (''operationId'', JStr operationId), (''createdAt'', JStr createdAt),
      (''files'', JObj [(''memory'', memory), (''embeddings'', embeddings), (''journal'', journal)])]"

definition publish_from_record ::
    "js_env \<Rightarrow> write_fate \<Rightarrow> jsval \<Rightarrow> (redo_files \<Rightarrow> redo_entry) \<Rightarrow> disk \<Rightarrow> unit disk_run" where
  "publish_from_record env fate r pick d = (case validateRedo env r of
       Inl err \<Rightarrow> (Inl err, d)
     | Inr tx \<Rightarrow> publish env fate (pick tx) d)"

definition commitJsonTransaction :: "js_env \<Rightarrow> graph_paths \<Rightarrow> string \<Rightarrow> string \<Rightarrow> store_image
    \<Rightarrow> (string \<Rightarrow> bool) \<Rightarrow> write_fates \<Rightarrow> disk \<Rightarrow> unit disk_run" where
  "commitJsonTransaction env g operationId createdAt img hook io d =
     (if dk_redo d \<noteq> Absent
        then (Inl (Recovery_failed ''pending JSON recovery must be completed before commit''), d)
      else case readOptional (dk_file d (gp_memory g)) of Inl err \<Rightarrow> (Inl err, d) | Inr memory \<Rightarrow>
      (case readOptional (dk_file d (gp_embeddings g)) of Inl err \<Rightarrow> (Inl err, d) | Inr embeddings \<Rightarrow>
      (case readOptional (dk_file d (gp_journal g)) of Inl err \<Rightarrow> (Inl err, d) | Inr journal \<Rightarrow>
        let r = redo_record operationId createdAt
              (entry env (gp_memory g) memory (si_memory img))
              (entry env (gp_embeddings g) embeddings (si_embeddings img))
              (entry env (gp_journal g) journal (si_journal img)) in
        and_then (fault hook ''before-prepared'' d) (\<lambda>_ d.
        and_then (change (io Write_redo) (d\<lparr>dk_redo := Parsed r\<rparr>) d) (\<lambda>_ d.
        and_then (fault hook ''after-prepared'' d) (\<lambda>_ d.
        and_then (publish_from_record env (io Write_memory) r tx_memory d) (\<lambda>_ d.
        and_then (fault hook ''after-graph-publish'' d) (\<lambda>_ d.
        and_then (publish_from_record env (io Write_embeddings) r tx_embeddings d) (\<lambda>_ d.
        and_then (fault hook ''after-embedding-publish'' d) (\<lambda>_ d.
        and_then (publish_from_record env (io Write_journal) r tx_journal d) (\<lambda>_ d.
        and_then (fault hook ''after-journal-publish'' d) (\<lambda>_ d.
          change (io Unlink_redo) (unlink_redo d) d))))))))))))"

end
