(* ===== verification/Json_Transaction_Facts.thy ===== *)
theory Json_Transaction_Facts
  imports Json_Transaction Example_Env
begin

text \<open>
  A commit of the JSON store is all or nothing: whatever write the process stops at, and however
  often recovery stops too, at whichever of its own writes, the next completed recovery leaves either the three files of before or
  the three files of the commit, and never overwrites a file some other writer has changed.
\<close>

section \<open>The record of a commit is accepted\<close>

definition digest_hex :: "js_env \<Rightarrow> bool" where
  "digest_hex env = (\<forall>s. SHA256_HEX (sha256_hex env s))"

lemma canonicalBase64_iff: "canonicalBase64 v = Inr b \<longleftrightarrow> v = JStr (to_base64 b)"
  by (auto simp: canonicalBase64_def Let_def split: jsval.splits if_splits)

lemma entry_keys [simp]: "keys_text (entry env p b a) = ''after,afterHash,beforeHash,path''"
proof -
  have "sort [''path'', ''beforeHash'', ''afterHash'', ''after'']
      = [''after'', ''afterHash'', ''beforeHash'', ''path'']" by code_simp
  then show ?thesis by (simp add: keys_text_def entry_def)
qed

lemma validate_entry_entry:
  assumes "digest_hex env" and "p \<noteq> []"
  shows "validate_entry env n (entry env p b a) =
    Inr \<lparr>re_path = p, re_beforeHash = hash_bytes env b, re_afterHash = sha256_hex env a, re_after = a\<rparr>"
proof -
  have c: "canonicalBase64 (JStr (to_base64 a)) = Inr a" by (simp add: canonicalBase64_iff)
  have h: "SHA256_HEX (sha256_hex env x)" for x using assms(1) by (simp add: digest_hex_def)
  have k: "keys_text (entry env p b a) = ''after,afterHash,beforeHash,path''" by simp
  show ?thesis
    using k assms(2) by (cases b) (simp_all add: validate_entry_def entry_def c h)
qed

definition commit_files :: "js_env \<Rightarrow> graph_paths \<Rightarrow> string option \<Rightarrow> string option \<Rightarrow> string option
    \<Rightarrow> store_image \<Rightarrow> redo_files" where
  "commit_files env g m e j img = \<lparr>
     tx_memory = \<lparr>re_path = gp_memory g, re_beforeHash = hash_bytes env m,
       re_afterHash = sha256_hex env (si_memory img), re_after = si_memory img\<rparr>,
     tx_embeddings = \<lparr>re_path = gp_embeddings g, re_beforeHash = hash_bytes env e,
       re_afterHash = sha256_hex env (si_embeddings img), re_after = si_embeddings img\<rparr>,
     tx_journal = \<lparr>re_path = gp_journal g, re_beforeHash = hash_bytes env j,
       re_afterHash = sha256_hex env (si_journal img), re_after = si_journal img\<rparr>\<rparr>"

definition commit_record :: "js_env \<Rightarrow> graph_paths \<Rightarrow> string \<Rightarrow> string \<Rightarrow> string option \<Rightarrow> string option
    \<Rightarrow> string option \<Rightarrow> store_image \<Rightarrow> jsval" where
  "commit_record env g operationId createdAt m e j img = redo_record operationId createdAt
     (entry env (gp_memory g) m (si_memory img)) (entry env (gp_embeddings g) e (si_embeddings img))
     (entry env (gp_journal g) j (si_journal img))"

definition paths_ok :: "graph_paths \<Rightarrow> bool" where
  "paths_ok g = (distinct [gp_memory g, gp_embeddings g, gp_journal g]
     \<and> gp_memory g \<noteq> [] \<and> gp_embeddings g \<noteq> [] \<and> gp_journal g \<noteq> [])"

lemma paths_distinct:
  assumes "paths_ok g"
  shows "gp_embeddings g \<noteq> gp_memory g" "gp_memory g \<noteq> gp_embeddings g"
    "gp_journal g \<noteq> gp_memory g" "gp_memory g \<noteq> gp_journal g"
    "gp_journal g \<noteq> gp_embeddings g" "gp_embeddings g \<noteq> gp_journal g"
  using assms by (auto simp: paths_ok_def)

lemma validateRedo_commit_record:
  assumes "digest_hex env" and "paths_ok g" and "operationId \<noteq> []"
  shows "validateRedo env (commit_record env g operationId createdAt m e j img)
     = Inr (commit_files env g m e j img)"
proof -
  have "sort [''version'', ''operationId'', ''createdAt'', ''files'']
      = [''createdAt'', ''files'', ''operationId'', ''version'']" by code_simp
  moreover have "sort [''memory'', ''embeddings'', ''journal''] = [''embeddings'', ''journal'', ''memory'']"
    by code_simp
  ultimately show ?thesis
    using assms
    by (simp add: validateRedo_def commit_record_def redo_record_def keys_text_def Let_def
        validate_entry_entry paths_ok_def commit_files_def)
qed

section \<open>Runs\<close>

lemma and_then_cases:
  assumes "and_then m f = (r, d')"
  obtains (left) err where "m = (Inl err, d')" and "r = Inl err"
    | (right) x d1 where "m = (Inr x, d1)" and "f x d1 = (r, d')"
  using assms by (cases m rule: prod.exhaust; cases "fst m") (auto simp: and_then_def)

lemma fault_same: "fault hook point d = (r, d') \<Longrightarrow> d' = d \<and> (r = Inr () \<longleftrightarrow> \<not> hook point)"
  by (auto simp: fault_def split: if_splits)

lemma change_cases:
  "change fate a b = (r, d') \<Longrightarrow> (r = Inr () \<longleftrightarrow> fate = Write_done) \<and> (d' = a \<or> d' = b \<and> fate = Write_failed)"
  by (auto simp: change_def split: write_fate.splits)

section \<open>Publishing a file that holds one of the two images\<close>

text \<open>What a write can leave: the new text, or the old file and an error.\<close>

definition written_or_not :: "write_fate \<Rightarrow> string \<Rightarrow> string \<Rightarrow> disk \<Rightarrow> redo_error + unit \<Rightarrow> disk \<Rightarrow> bool" where
  "written_or_not fate path b d r d' = ((d' = write_bytes path b d \<or> d' = d \<and> r \<noteq> Inr ())
     \<and> (fate = Write_done \<longrightarrow> r = Inr ()))"

lemma write_same: "dk_file d p = Bytes b \<Longrightarrow> write_bytes p b d = d"
  by (cases d) (auto simp: write_bytes_def)

lemma publish_between:
  assumes slot: "readOptional (dk_file d (re_path e)) = Inr cur" "cur = before \<or> cur = Some (re_after e)"
    and e: "re_beforeHash e = hash_bytes env before" "re_afterHash e = sha256_hex env (re_after e)"
    and inj: "inj_on (sha256_hex env) (insert (re_after e) (set_option before))"
    and run: "publish env fate e d = (r, d')"
  shows "written_or_not fate (re_path e) (re_after e) d r d'"
proof (cases "hash_bytes env cur = JStr (re_afterHash e)")
  case True
  then obtain b where b: "cur = Some b" by (cases cur) auto
  have "b = re_after e"
    using slot(2) True b e(2) inj by (auto dest: inj_onD)
  with slot b have "dk_file d (re_path e) = Bytes (re_after e)"
    by (cases "dk_file d (re_path e)") auto
  with slot True run show ?thesis by (auto simp: publish_def write_same written_or_not_def)
next
  case False
  with slot e have "cur = before" by (cases cur) auto
  with slot e False run show ?thesis
    by (auto simp: publish_def written_or_not_def dest: change_cases)
qed

text \<open>Each of the three files holds what it held before, or what the commit wants there.\<close>

definition slot_between :: "string option \<Rightarrow> string \<Rightarrow> file_slot \<Rightarrow> bool" where
  "slot_between before after s = (readOptional s = Inr before \<or> s = Bytes after)"

definition between :: "graph_paths \<Rightarrow> string option \<Rightarrow> string option \<Rightarrow> string option \<Rightarrow> store_image
    \<Rightarrow> disk \<Rightarrow> bool" where
  "between g m e j img d = (slot_between m (si_memory img) (dk_file d (gp_memory g))
     \<and> slot_between e (si_embeddings img) (dk_file d (gp_embeddings g))
     \<and> slot_between j (si_journal img) (dk_file d (gp_journal g)))"

definition image_texts :: "string option \<Rightarrow> string option \<Rightarrow> string option \<Rightarrow> store_image \<Rightarrow> string set" where
  "image_texts m e j img = {si_memory img, si_embeddings img, si_journal img}
     \<union> set_option m \<union> set_option e \<union> set_option j"

definition put_image :: "graph_paths \<Rightarrow> store_image \<Rightarrow> disk \<Rightarrow> disk" where
  "put_image g img d = write_bytes (gp_journal g) (si_journal img)
     (write_bytes (gp_embeddings g) (si_embeddings img) (write_bytes (gp_memory g) (si_memory img) d))"

lemma write_bytes_simps [simp]:
  "dk_file (write_bytes p b d) q = (if q = p then Bytes b else dk_file d q)"
  "dk_redo (write_bytes p b d) = dk_redo d"
  by (simp_all add: write_bytes_def)

lemma slot_between_after [simp]: "slot_between before after (Bytes after)"
  by (simp add: slot_between_def)

lemma publish_slot_between:
  assumes "slot_between before (re_after e) (dk_file d (re_path e))"
    and "re_beforeHash e = hash_bytes env before" "re_afterHash e = sha256_hex env (re_after e)"
    and "inj_on (sha256_hex env) T" "insert (re_after e) (set_option before) \<subseteq> T"
    and "publish env fate e d = (r, d')"
  shows "written_or_not fate (re_path e) (re_after e) d r d'"
proof -
  have inj: "inj_on (sha256_hex env) (insert (re_after e) (set_option before))"
    using assms(4,5) by (rule inj_on_subset)
  show ?thesis
    using assms(1) publish_between [OF _ _ assms(2,3) inj assms(6), of before]
      publish_between [OF _ _ assms(2,3) inj assms(6), of "Some (re_after e)"]
    by (auto simp: slot_between_def)
qed

lemma image_texts_parts:
  "si_memory img \<in> image_texts m e j img" "set_option m \<subseteq> image_texts m e j img"
  "si_embeddings img \<in> image_texts m e j img" "set_option e \<subseteq> image_texts m e j img"
  "si_journal img \<in> image_texts m e j img" "set_option j \<subseteq> image_texts m e j img"
  by (auto simp: image_texts_def)

lemma assertRedoPaths_commit: "assertRedoPaths g (commit_files env g m e j img) = Inr ()"
  by (simp add: assertRedoPaths_def commit_files_def)

section \<open>Commit, crash, recover\<close>

text \<open>The bytes the three files of a disk hold now.\<close>

definition slot_bytes :: "file_slot \<Rightarrow> string option" where
  "slot_bytes s = (case s of Bytes b \<Rightarrow> Some b | _ \<Rightarrow> None)"

definition readable :: "graph_paths \<Rightarrow> disk \<Rightarrow> bool" where
  "readable g d = (dk_redo d = Absent \<and> dk_file d (gp_memory g) \<noteq> Read_error
     \<and> dk_file d (gp_embeddings g) \<noteq> Read_error \<and> dk_file d (gp_journal g) \<noteq> Read_error)"

lemma readOptional_readable: "s \<noteq> Read_error \<Longrightarrow> readOptional s = Inr (slot_bytes s)"
  by (cases s) (auto simp: slot_bytes_def)

definition held_texts :: "graph_paths \<Rightarrow> store_image \<Rightarrow> disk \<Rightarrow> string set" where
  "held_texts g img d = image_texts (slot_bytes (dk_file d (gp_memory g)))
     (slot_bytes (dk_file d (gp_embeddings g))) (slot_bytes (dk_file d (gp_journal g))) img"

text \<open>A disk in the middle of the commit of an image over \<open>d0\<close>.\<close>

definition in_commit :: "js_env \<Rightarrow> graph_paths \<Rightarrow> string \<Rightarrow> string \<Rightarrow> store_image \<Rightarrow> disk \<Rightarrow> disk \<Rightarrow> bool" where
  "in_commit env g operationId createdAt img d0 d =
     (let m = slot_bytes (dk_file d0 (gp_memory g)); e = slot_bytes (dk_file d0 (gp_embeddings g));
          j = slot_bytes (dk_file d0 (gp_journal g)) in
      dk_redo d = Parsed (commit_record env g operationId createdAt m e j img)
      \<and> between g m e j img d
      \<and> (\<forall>p. p \<notin> {gp_memory g, gp_embeddings g, gp_journal g} \<longrightarrow> dk_file d p = dk_file d0 p))"

definition committed :: "graph_paths \<Rightarrow> store_image \<Rightarrow> disk \<Rightarrow> disk" where
  "committed g img d0 = unlink_redo (put_image g img d0)"

abbreviation files_of :: "js_env \<Rightarrow> graph_paths \<Rightarrow> store_image \<Rightarrow> disk \<Rightarrow> redo_files" where
  "files_of env g img d0 \<equiv> commit_files env g (slot_bytes (dk_file d0 (gp_memory g)))
     (slot_bytes (dk_file d0 (gp_embeddings g))) (slot_bytes (dk_file d0 (gp_journal g))) img"

text \<open>Writing one of the three files stays in the middle of the commit.\<close>

lemma publish_in_commit:
  assumes ok: "paths_ok g" and inj: "inj_on (sha256_hex env) (held_texts g img d0)"
    and e: "e = tx_memory (files_of env g img d0) \<or> e = tx_embeddings (files_of env g img d0)
      \<or> e = tx_journal (files_of env g img d0)"
    and mid: "in_commit env g operationId createdAt img d0 d" and run: "publish env fate e d = (r, d')"
  shows "in_commit env g operationId createdAt img d0 d'" and "r = Inr () \<Longrightarrow> dk_file d' (re_path e) = Bytes (re_after e)"
    and "q \<noteq> re_path e \<Longrightarrow> dk_file d' q = dk_file d q" and "fate = Write_done \<Longrightarrow> r = Inr ()"
proof -
  let ?F = "files_of env g img d0"
  note entry = publish_slot_between [OF _ _ _ inj [unfolded held_texts_def] _ run]
  have w: "written_or_not fate (re_path e) (re_after e) d r d'"
    using e
  proof (elim disjE)
    assume "e = tx_memory ?F"
    then show ?thesis using mid
      by (intro entry [of "slot_bytes (dk_file d0 (gp_memory g))"])
        (auto simp: commit_files_def in_commit_def Let_def between_def image_texts_def)
  next
    assume "e = tx_embeddings ?F"
    then show ?thesis using mid
      by (intro entry [of "slot_bytes (dk_file d0 (gp_embeddings g))"])
        (auto simp: commit_files_def in_commit_def Let_def between_def image_texts_def)
  next
    assume "e = tx_journal ?F"
    then show ?thesis using mid
      by (intro entry [of "slot_bytes (dk_file d0 (gp_journal g))"])
        (auto simp: commit_files_def in_commit_def Let_def between_def image_texts_def)
  qed
  have "in_commit env g operationId createdAt img d0 (write_bytes (re_path e) (re_after e) d)"
    using mid e paths_distinct [OF ok]
    by (elim disjE) (simp_all add: in_commit_def Let_def between_def commit_files_def)
  then show "in_commit env g operationId createdAt img d0 d'"
    using w mid by (auto simp: written_or_not_def)
  show "r = Inr () \<Longrightarrow> dk_file d' (re_path e) = Bytes (re_after e)"
    and "q \<noteq> re_path e \<Longrightarrow> dk_file d' q = dk_file d q" and "fate = Write_done \<Longrightarrow> r = Inr ()"
    using w by (auto simp: written_or_not_def)
qed

text \<open>All three files are written: only the redo record is left to remove.\<close>

definition all_written :: "graph_paths \<Rightarrow> store_image \<Rightarrow> disk \<Rightarrow> bool" where
  "all_written g img d = (dk_file d (gp_memory g) = Bytes (si_memory img)
     \<and> dk_file d (gp_embeddings g) = Bytes (si_embeddings img) \<and> dk_file d (gp_journal g) = Bytes (si_journal img))"

lemma unlink_committed:
  assumes "paths_ok g" and "in_commit env g operationId createdAt img d0 d" and "all_written g img d"
  shows "unlink_redo d = committed g img d0"
proof -
  have "dk_file d p = dk_file (put_image g img d0) p" for p
    using assms paths_distinct [OF assms(1)] by (auto simp: all_written_def in_commit_def Let_def put_image_def)
  then have "dk_file d = dk_file (put_image g img d0)" by blast
  then show ?thesis
    unfolding committed_def by (cases d; cases "put_image g img d0") (simp add: unlink_redo_def)
qed

lemma publish_all:
  assumes ok: "paths_ok g" and inj: "inj_on (sha256_hex env) (held_texts g img d0)"
    and mid: "in_commit env g operationId createdAt img d0 d"
    and runs: "publish env f1 (tx_memory (files_of env g img d0)) d = (Inr (), d1)"
      "publish env f2 (tx_embeddings (files_of env g img d0)) d1 = (Inr (), d2)"
      "publish env f3 (tx_journal (files_of env g img d0)) d2 = (Inr (), d3)"
  shows "in_commit env g operationId createdAt img d0 d3" and "all_written g img d3"
proof -
  note part = publish_in_commit [OF ok inj]
  have mids: "in_commit env g operationId createdAt img d0 d1" "in_commit env g operationId createdAt img d0 d2"
    using part(1) [OF _ mid runs(1)] part(1) [OF _ _ runs(2)] by blast+
  then show "in_commit env g operationId createdAt img d0 d3" using part(1) [OF _ _ runs(3)] by blast
  have m: "dk_file d1 (gp_memory g) = Bytes (si_memory img)"
    using part(2) [OF _ mid runs(1)] by (simp add: commit_files_def)
  have e: "dk_file d2 (gp_embeddings g) = Bytes (si_embeddings img)" "dk_file d2 (gp_memory g) = dk_file d1 (gp_memory g)"
    using part(2) [OF _ mids(1) runs(2)] part(3) [OF _ mids(1) runs(2), of "gp_memory g"] paths_distinct [OF ok]
    by (simp_all add: commit_files_def)
  have j: "dk_file d3 (gp_journal g) = Bytes (si_journal img)" "dk_file d3 (gp_memory g) = dk_file d2 (gp_memory g)"
      "dk_file d3 (gp_embeddings g) = dk_file d2 (gp_embeddings g)"
    using part(2) [OF _ mids(2) runs(3)] part(3) [OF _ mids(2) runs(3), of "gp_memory g"]
      part(3) [OF _ mids(2) runs(3), of "gp_embeddings g"] paths_distinct [OF ok]
    by (simp_all add: commit_files_def)
  show "all_written g img d3" using m e j by (simp add: all_written_def)
qed

text \<open>The end of a commit or recovery: the record is removed, or kept with the files as they are.\<close>

lemma cleanup_cases:
  assumes "paths_ok g" and "in_commit env g operationId createdAt img d0 d" and "all_written g img d"
    and "change fate (unlink_redo d) d = (r, d')"
  shows "(r = Inr () \<longleftrightarrow> fate = Write_done) \<and>
    (d' = committed g img d0 \<or> r \<noteq> Inr () \<and> in_commit env g operationId createdAt img d0 d')"
  using change_cases [OF assms(4)] unlink_committed [OF assms(1-3)] assms(2) by auto

lemma recover_in_commit:
  assumes ok: "digest_hex env" "paths_ok g" "operationId \<noteq> []"
    and inj: "inj_on (sha256_hex env) (held_texts g img d0)"
    and mid: "in_commit env g operationId createdAt img d0 d"
    and run: "recoverJsonTransaction env g hook io d = (r, d')"
  shows "d' = committed g img d0 \<or> (\<forall>b. r \<noteq> Inr b) \<and> in_commit env g operationId createdAt img d0 d'"
    and "(\<And>p. \<not> hook p) \<Longrightarrow> (\<And>w. io w = Write_done) \<Longrightarrow> r = Inr True"
proof -
  let ?F = "files_of env g img d0" and ?mid = "in_commit env g operationId createdAt img d0"
  let ?good = "(\<forall>p. \<not> hook p) \<and> (\<forall>w. io w = Write_done)"
  have redo: "readRedo env d = Inr (Some ?F)"
    using mid validateRedo_commit_record [OF ok] by (simp add: readRedo_def in_commit_def Let_def)
  have "(d' = committed g img d0 \<or> (\<forall>b. r \<noteq> Inr b) \<and> ?mid d') \<and> (?good \<longrightarrow> r = Inr True)"
    using run unfolding recoverJsonTransaction_def redo sum.case option.case assertRedoPaths_commit
  proof (cases rule: and_then_cases)
    case (left err)
    then show ?thesis using publish_in_commit [OF ok(2) inj _ mid left(1)] by auto
  next
    case (right x d1)
    have 1: "publish env (io Write_memory) (tx_memory ?F) d = (Inr (), d1)" using right(1) by simp
    have m1: "?mid d1" using publish_in_commit(1) [OF ok(2) inj _ mid 1] by blast
    from right(2) show ?thesis
    proof (cases rule: and_then_cases)
      case (left err)
      then show ?thesis using publish_in_commit [OF ok(2) inj _ m1 left(1)] by auto
    next
      case (right x d2)
      have 2: "publish env (io Write_embeddings) (tx_embeddings ?F) d1 = (Inr (), d2)" using right(1) by simp
      have m2: "?mid d2" using publish_in_commit(1) [OF ok(2) inj _ m1 2] by blast
      from right(2) show ?thesis
      proof (cases rule: and_then_cases)
        case (left err)
        then show ?thesis using publish_in_commit [OF ok(2) inj _ m2 left(1)] by auto
      next
        case (right x d3)
        have 3: "publish env (io Write_journal) (tx_journal ?F) d2 = (Inr (), d3)" using right(1) by simp
        note done3 = publish_all [OF ok(2) inj mid 1 2 3]
        obtain r4 d4 where 4: "change (io Unlink_redo) (unlink_redo d3) d3 = (r4, d4)" by (rule prod.exhaust)
        from cleanup_cases [OF ok(2) done3 4] right(2) done3(1) 4 show ?thesis
          by (cases r4) (auto simp: fault_def split: if_splits)
      qed
    qed
  qed
  then show "d' = committed g img d0 \<or> (\<forall>b. r \<noteq> Inr b) \<and> ?mid d'"
    and "(\<And>p. \<not> hook p) \<Longrightarrow> (\<And>w. io w = Write_done) \<Longrightarrow> r = Inr True" by blast+
qed

lemma fault_step:
  assumes "and_then (fault hook p d) f = (r, d')"
  obtains (stopped) "r = Inl (Fault p)" "d' = d" "hook p" | (on) "f () d = (r, d')"
  using assms by (cases "hook p") (auto simp: fault_def)

lemma publish_step:
  assumes run: "and_then (publish env fate e d) f = (r, d')"
    and commit: "paths_ok g" "inj_on (sha256_hex env) (held_texts g img d0)"
      "e = tx_memory (files_of env g img d0) \<or> e = tx_embeddings (files_of env g img d0)
        \<or> e = tx_journal (files_of env g img d0)"
      "in_commit env g operationId createdAt img d0 d"
  obtains (stopped) "r \<noteq> Inr ()" and "in_commit env g operationId createdAt img d0 d'"
    | (on) d1 where "publish env fate e d = (Inr (), d1)" and "in_commit env g operationId createdAt img d0 d1"
      and "f () d1 = (r, d')"
  using run
proof (cases rule: and_then_cases)
  case (left err)
  then show thesis using publish_in_commit(1) [OF commit left(1)] stopped by simp
next
  case (right x d1)
  then show thesis using publish_in_commit(1) [OF commit right(1)] on by simp
qed

lemma prepared_cases:
  assumes ok: "paths_ok g" and inj: "inj_on (sha256_hex env) (held_texts g img d0)"
    and mid: "in_commit env g operationId createdAt img d0 d"
    and run: "and_then (fault hook h1 d) (\<lambda>_ d.
      and_then (publish env f1 (tx_memory (files_of env g img d0)) d) (\<lambda>_ d.
      and_then (fault hook h2 d) (\<lambda>_ d.
      and_then (publish env f2 (tx_embeddings (files_of env g img d0)) d) (\<lambda>_ d.
      and_then (fault hook h3 d) (\<lambda>_ d.
      and_then (publish env f3 (tx_journal (files_of env g img d0)) d) (\<lambda>_ d.
      and_then (fault hook h4 d) (\<lambda>_ d. change fate (unlink_redo d) d))))))) = (r, d')"
  shows "d' = committed g img d0 \<or> r \<noteq> Inr () \<and> in_commit env g operationId createdAt img d0 d'"
  using run
proof (cases rule: fault_step)
  case on
  show ?thesis
  using on ok inj disjI1 [OF refl] mid
  proof (cases rule: publish_step)
    case (on d1)
    note 1 = on(1,2)
    from on(3) show ?thesis
    proof (cases rule: fault_step)
      case on
      show ?thesis
      using on ok inj disjI2 [OF disjI1 [OF refl]] 1(2)
      proof (cases rule: publish_step)
        case (on d2)
        note 2 = on(1,2)
        from on(3) show ?thesis
        proof (cases rule: fault_step)
          case on
          show ?thesis
          using on ok inj disjI2 [OF disjI2 [OF refl]] 2(2)
          proof (cases rule: publish_step)
            case (on d3)
            note done3 = publish_all [OF ok inj mid 1(1) 2(1) on(1)]
            from on(3) show ?thesis
            proof (cases rule: fault_step)
              case on
              from cleanup_cases [OF ok done3 on] show ?thesis by blast
            qed (use done3 in simp)
          qed simp_all
        qed (use 2(2) in simp)
      qed simp_all
    qed (use 1(2) in simp)
  qed simp_all
qed (use mid in simp)

lemma commit_cases:
  assumes ok: "digest_hex env" "paths_ok g" "operationId \<noteq> []"
    and inj: "inj_on (sha256_hex env) (held_texts g img d0)"
    and start: "readable g d0"
    and run: "commitJsonTransaction env g operationId createdAt img hook io d0 = (r, d)"
  shows "r \<noteq> Inr () \<and> d = d0 \<and> (hook ''before-prepared'' \<or> io Write_redo = Write_failed)
    \<or> d = committed g img d0
    \<or> r \<noteq> Inr () \<and> in_commit env g operationId createdAt img d0 d"
proof -
  let ?m = "slot_bytes (dk_file d0 (gp_memory g))" and ?e = "slot_bytes (dk_file d0 (gp_embeddings g))"
    and ?j = "slot_bytes (dk_file d0 (gp_journal g))"
  let ?r = "commit_record env g operationId createdAt ?m ?e ?j img"
  let ?d = "d0\<lparr>dk_redo := Parsed ?r\<rparr>"
  have reads: "readOptional (dk_file d0 (gp_memory g)) = Inr ?m"
    "readOptional (dk_file d0 (gp_embeddings g)) = Inr ?e" "readOptional (dk_file d0 (gp_journal g)) = Inr ?j"
    using start by (simp_all add: readable_def readOptional_readable)
  have mid: "in_commit env g operationId createdAt img d0 ?d"
    using reads by (simp add: in_commit_def Let_def between_def slot_between_def)
  have "and_then (fault hook ''before-prepared'' d0) (\<lambda>_ d.
      and_then (change (io Write_redo) (d\<lparr>dk_redo := Parsed ?r\<rparr>) d) (\<lambda>_ d.
      and_then (fault hook ''after-prepared'' d) (\<lambda>_ d.
      and_then (publish env (io Write_memory) (tx_memory (files_of env g img d0)) d) (\<lambda>_ d.
      and_then (fault hook ''after-graph-publish'' d) (\<lambda>_ d.
      and_then (publish env (io Write_embeddings) (tx_embeddings (files_of env g img d0)) d) (\<lambda>_ d.
      and_then (fault hook ''after-embedding-publish'' d) (\<lambda>_ d.
      and_then (publish env (io Write_journal) (tx_journal (files_of env g img d0)) d) (\<lambda>_ d.
      and_then (fault hook ''after-journal-publish'' d) (\<lambda>_ d.
        change (io Unlink_redo) (unlink_redo d) d))))))))) = (r, d)"
    using run start
    by (simp add: commitJsonTransaction_def readable_def reads commit_record_def [symmetric] Let_def
        publish_from_record_def validateRedo_commit_record [OF ok])
  then show ?thesis
  proof (cases rule: fault_step)
    case on
    then show ?thesis
    proof (cases rule: and_then_cases)
      case (left err)
      from change_cases [OF left(1)] left(2) mid show ?thesis by auto
    next
      case (right x d1)
      then have "d1 = ?d" using change_cases [OF right(1)] by auto
      with prepared_cases [OF ok(2) inj mid] right(2) show ?thesis by blast
    qed
  qed simp_all
qed

text \<open>Recovery is tried, each time with faults and fates of its own.\<close>

definition recoveries :: "js_env \<Rightarrow> graph_paths \<Rightarrow> ((string \<Rightarrow> bool) \<times> write_fates) list \<Rightarrow> disk \<Rightarrow> disk" where
  "recoveries env g attempts d = fold (\<lambda>(hook, io) d. snd (recoverJsonTransaction env g hook io d)) attempts d"

lemma recover_without_redo:
  "dk_redo d = Absent \<Longrightarrow> recoverJsonTransaction env g hook io d = (Inr False, d)"
  by (simp add: recoverJsonTransaction_def readRedo_def)

lemma recoveries_without_redo: "dk_redo d = Absent \<Longrightarrow> recoveries env g attempts d = d"
  by (induction attempts) (auto simp: recoveries_def recover_without_redo)

lemma committed_no_redo [simp]: "dk_redo (committed g img d0) = Absent"
  by (simp add: committed_def unlink_redo_def)

lemma recoveries_in_commit:
  assumes "digest_hex env" "paths_ok g" "operationId \<noteq> []"
    and "inj_on (sha256_hex env) (held_texts g img d0)"
    and "in_commit env g operationId createdAt img d0 d"
  shows "recoveries env g attempts d = committed g img d0
    \<or> in_commit env g operationId createdAt img d0 (recoveries env g attempts d)"
  using assms(5)
proof (induction attempts arbitrary: d)
  case Nil
  then show ?case by (simp add: recoveries_def)
next
  case (Cons a attempts)
  obtain hook io where a: "a = (hook, io)" by (cases a)
  obtain r d' where run: "recoverJsonTransaction env g hook io d = (r, d')" by (rule prod.exhaust)
  have step: "recoveries env g (a # attempts) d = recoveries env g attempts d'"
    by (simp add: recoveries_def a run)
  from recover_in_commit(1) [OF assms(1-4) Cons.prems run] Cons.IH [of d'] show ?case
    by (auto simp: step recoveries_without_redo)
qed

section \<open>An example\<close>

definition example_paths :: graph_paths where
  "example_paths = \<lparr>gp_memory = ''memory'', gp_embeddings = ''embeddings'', gp_journal = ''journal''\<rparr>"

definition example_image :: store_image where
  "example_image = \<lparr>si_memory = ''a'', si_embeddings = ''bc'', si_journal = ''def''\<rparr>"

definition empty_disk :: disk where
  "empty_disk = \<lparr>dk_file = (\<lambda>_. No_file), dk_redo = Absent\<rparr>"

section \<open>Foreign content\<close>

lemma publish_other: "publish env fate e d = (r, d') \<Longrightarrow> q \<noteq> re_path e \<Longrightarrow> dk_file d' q = dk_file d q"
  by (auto simp: publish_def Let_def split: sum.splits if_splits dest: change_cases)

definition foreign :: "js_env \<Rightarrow> redo_entry \<Rightarrow> disk \<Rightarrow> bool" where
  "foreign env e d = (\<exists>b. dk_file d (re_path e) = Bytes b \<and> sha256_hex env b \<noteq> re_afterHash e
     \<and> JStr (sha256_hex env b) \<noteq> re_beforeHash e)"

lemma publish_foreign: "foreign env e d \<Longrightarrow> \<exists>err. publish env fate e d = (Inl err, d)"
  by (auto simp: foreign_def publish_def)

lemma foreign_cong: "dk_file d' (re_path e) = dk_file d (re_path e) \<Longrightarrow> foreign env e d' = foreign env e d"
  by (simp add: foreign_def)

lemma assertRedoPaths_ok:
  "assertRedoPaths g tx = Inr u \<Longrightarrow> re_path (tx_memory tx) = gp_memory g
     \<and> re_path (tx_embeddings tx) = gp_embeddings g \<and> re_path (tx_journal tx) = gp_journal g"
  by (auto simp: assertRedoPaths_def)

section \<open>Properties\<close>

text \<open>
  C8: a commit is all or nothing.  Let a commit be stopped, or fail, at any of its writes or faults, let
  recovery then be tried any number of times and be stopped at any of its own writes or faults each
  time, and let one recovery run undisturbed.  That one returns, and the disk is then exactly that of
  before with the three files of the commit, or exactly what it was before the commit; the latter only
  when the redo record was never written, and never when the commit returned.
\<close>

theorem commit_all_or_nothing:
  assumes "digest_hex env" "paths_ok g" "operationId \<noteq> []" "readable g d0"
    and "inj_on (sha256_hex env) (held_texts g img d0)"
    and "commitJsonTransaction env g operationId createdAt img hook io d0 = (r, d)"
    and "recoverJsonTransaction env g (\<lambda>_. False) (\<lambda>_. Write_done) (recoveries env g attempts d) = (r', d')"
  shows "(d' = committed g img d0
      \<or> d' = d0 \<and> r \<noteq> Inr () \<and> (hook ''before-prepared'' \<or> io Write_redo = Write_failed))
    \<and> (\<exists>b. r' = Inr b)"
proof -
  have none: "dk_redo d0 = Absent" using assms(4) by (simp add: readable_def)
  consider (nothing) "r \<noteq> Inr ()" "d = d0" "hook ''before-prepared'' \<or> io Write_redo = Write_failed"
    | (finished) "d = committed g img d0" | (middle) "in_commit env g operationId createdAt img d0 d"
    using commit_cases [OF assms(1-3,5,4,6)] by blast
  then show ?thesis
  proof cases
    case finished
    with assms(7) show ?thesis by (auto simp: recoveries_without_redo recover_without_redo)
  next
    case nothing
    with assms(7) none show ?thesis by (auto simp: recoveries_without_redo recover_without_redo)
  next
    case middle
    from recoveries_in_commit [OF assms(1-3,5) middle, of attempts] show ?thesis
    proof
      assume "recoveries env g attempts d = committed g img d0"
      with assms(7) show ?thesis by (auto simp: recover_without_redo)
    next
      assume mid: "in_commit env g operationId createdAt img d0 (recoveries env g attempts d)"
      note final = recover_in_commit [OF assms(1-3,5) mid assms(7)]
      from final(2) have "r' = Inr True" by simp
      with final(1) show ?thesis by auto
    qed
  qed
qed

lemma example_digest_hex: "digest_hex example_env"
  using example_digest_text
  by (auto simp: digest_hex_def example_env_def SHA256_HEX_def is_lower_hex_def list_all_iff)

lemma example_inj: "inj_on (sha256_hex example_env) (held_texts example_paths example_image empty_disk)"
  by (rule example_inj_small)
    (auto simp: held_texts_def image_texts_def empty_disk_def slot_bytes_def example_image_def)

lemma example_ok: "paths_ok example_paths" "readable example_paths empty_disk"
  by (simp_all add: paths_ok_def example_paths_def readable_def empty_disk_def)

text \<open>The commit stops after its first file; a first recovery stops between its second and third.\<close>

definition example_crash :: "unit disk_run" where
  "example_crash = commitJsonTransaction example_env example_paths ''op'' ''now'' example_image
     (\<lambda>p. p = ''after-graph-publish'') (\<lambda>_. Write_done) empty_disk"

definition example_attempts :: "((string \<Rightarrow> bool) \<times> write_fates) list" where
  "example_attempts = [(\<lambda>_. False, \<lambda>w. if w = Write_embeddings then Write_then_stopped else Write_done)]"

definition example_recovery :: "bool disk_run" where
  "example_recovery = recoverJsonTransaction example_env example_paths (\<lambda>_. False) (\<lambda>_. Write_done)
     (recoveries example_env example_paths example_attempts (snd example_crash))"

theorem commit_all_or_nothing_witness:
  "snd example_recovery = committed example_paths example_image empty_disk \<and> (\<exists>b. fst example_recovery = Inr b)"
proof -
  have "commitJsonTransaction example_env example_paths ''op'' ''now'' example_image
     (\<lambda>p. p = ''after-graph-publish'') (\<lambda>_. Write_done) empty_disk = (fst example_crash, snd example_crash)"
    by (simp add: example_crash_def)
  moreover have "recoverJsonTransaction example_env example_paths (\<lambda>_. False) (\<lambda>_. Write_done)
     (recoveries example_env example_paths example_attempts (snd example_crash)) = (fst example_recovery, snd example_recovery)"
    by (simp add: example_recovery_def)
  moreover have "''op'' \<noteq> ([] :: string)" by simp
  ultimately have "snd example_recovery = committed example_paths example_image empty_disk
      \<or> snd example_recovery = empty_disk \<and> fst example_crash \<noteq> Inr ()
        \<and> (''before-prepared'' = ''after-graph-publish'' \<or> Write_done = Write_failed)"
    and "\<exists>b. fst example_recovery = Inr b"
    by (blast dest: commit_all_or_nothing [OF example_digest_hex example_ok(1) _ example_ok(2) example_inj])+
  then show ?thesis by simp
qed

text \<open>
  Recovery never destroys what another writer put there.  When one of the three files holds
  content whose hash is neither the recorded hash of before nor that of after, recovery fails and
  that file is left as it is.
\<close>

theorem recovery_spares_foreign_file:
  assumes "paths_ok g" and "readRedo env d = Inr (Some tx)"
    and e: "e = tx_memory tx \<or> e = tx_embeddings tx \<or> e = tx_journal tx"
    and b: "dk_file d (re_path e) = Bytes b" "sha256_hex env b \<noteq> re_afterHash e"
      "JStr (sha256_hex env b) \<noteq> re_beforeHash e"
    and run: "recoverJsonTransaction env g hook io d = (r, d')"
  shows "(\<exists>err. r = Inl err) \<and> dk_file d' (re_path e) = Bytes b"
proof -
  have f: "foreign env e d" using b by (auto simp: foreign_def)
  have "(\<exists>err. r = Inl err) \<and> dk_file d' (re_path e) = dk_file d (re_path e)"
  proof (cases "assertRedoPaths g tx")
    case (Inl err)
    with run assms(2) show ?thesis by (auto simp: recoverJsonTransaction_def)
  next
    case (Inr u)
    note p = assertRedoPaths_ok [OF Inr] and neq = paths_distinct [OF assms(1)]
    obtain r1 d1 where 1: "publish env (io Write_memory) (tx_memory tx) d = (r1, d1)" by fastforce
    obtain r2 d2 where 2: "publish env (io Write_embeddings) (tx_embeddings tx) d1 = (r2, d2)" by fastforce
    obtain r3 d3 where 3: "publish env (io Write_journal) (tx_journal tx) d2 = (r3, d3)" by fastforce
    have parts: "and_then (r1, d1) (\<lambda>_ d. and_then (publish env (io Write_embeddings) (tx_embeddings tx) d)
        (\<lambda>_ d. and_then (publish env (io Write_journal) (tx_journal tx) d)
        (\<lambda>_ d. and_then (fault hook ''before-recovery-cleanup'' d)
        (\<lambda>_ d. and_then (change (io Unlink_redo) (unlink_redo d) d) (\<lambda>_ d. (Inr True, d)))))) = (r, d')"
      using run by (simp add: recoverJsonTransaction_def assms(2) Inr 1)
    from e consider (m) "e = tx_memory tx" | (s) "e = tx_embeddings tx" | (j) "e = tx_journal tx" by blast
    then show ?thesis
    proof cases
      case m
      with f obtain err where "publish env (io Write_memory) e d = (Inl err, d)" using publish_foreign by blast
      with m 1 parts show ?thesis by auto
    next
      case s
      with p neq publish_other [OF 1] have eq: "dk_file d1 (re_path e) = dk_file d (re_path e)" by simp
      with f have "foreign env e d1" using foreign_cong by blast
      then obtain err where "publish env (io Write_embeddings) e d1 = (Inl err, d1)" using publish_foreign by blast
      with s 2 parts eq show ?thesis by (cases r1) auto
    next
      case j
      with p neq publish_other [OF 1] have eq: "dk_file d1 (re_path e) = dk_file d (re_path e)" by simp
      from j p neq publish_other [OF 2] eq have eq2: "dk_file d2 (re_path e) = dk_file d (re_path e)" by simp
      with f have "foreign env e d2" using foreign_cong by blast
      then obtain err where "publish env (io Write_journal) e d2 = (Inl err, d2)" using publish_foreign by blast
      with j 2 parts eq eq2 show ?thesis by (cases r1; cases r2) auto
    qed
  qed
  with b(1) show ?thesis by simp
qed

definition foreign_disk :: disk where
  "foreign_disk = empty_disk\<lparr>dk_file := (\<lambda>_. No_file)(''journal'' := Bytes ''edited''),
     dk_redo := Parsed (commit_record example_env example_paths ''op'' ''now'' None None None example_image)\<rparr>"

theorem recovery_spares_foreign_file_witness:
  "(\<exists>err. fst (recoverJsonTransaction example_env example_paths (\<lambda>_. False) (\<lambda>_. Write_done) foreign_disk) = Inl err)
    \<and> dk_file (snd (recoverJsonTransaction example_env example_paths (\<lambda>_. False) (\<lambda>_. Write_done) foreign_disk)) ''journal''
      = Bytes ''edited''"
proof -
  let ?tx = "commit_files example_env example_paths None None None example_image"
  have "validateRedo example_env (commit_record example_env example_paths ''op'' ''now'' None None None
      example_image) = Inr ?tx"
    by (rule validateRedo_commit_record) (simp_all add: example_digest_hex example_ok)
  then have redo: "readRedo example_env foreign_disk = Inr (Some ?tx)"
    by (simp add: readRedo_def foreign_disk_def)
  have hash: "sha256_hex example_env ''edited'' \<noteq> sha256_hex example_env ''def''"
  proof
    assume "sha256_hex example_env ''edited'' = sha256_hex example_env ''def''"
    moreover have "inj_on (sha256_hex example_env) {''edited'', ''def''}"
      by (rule example_inj_small) (auto simp: inj_on_def)
    ultimately show False by (auto dest: inj_onD)
  qed
  have e: "re_path (tx_journal ?tx) = ''journal''" "re_afterHash (tx_journal ?tx) = sha256_hex example_env ''def''"
    "re_beforeHash (tx_journal ?tx) = JNull"
    by (simp_all add: commit_files_def example_paths_def example_image_def)
  show ?thesis
    using recovery_spares_foreign_file [OF example_ok(1) redo, of "tx_journal ?tx" "''edited''" "\<lambda>_. False" "\<lambda>_. Write_done"
        "fst (recoverJsonTransaction example_env example_paths (\<lambda>_. False) (\<lambda>_. Write_done) foreign_disk)"
        "snd (recoverJsonTransaction example_env example_paths (\<lambda>_. False) (\<lambda>_. Write_done) foreign_disk)"] hash
    by (simp add: e foreign_disk_def)
qed

end
