(* ===== verification/Approval_Rbac.thy ===== *)
theory Approval_Rbac
  imports Mutation_Journal Base64
begin

text \<open>
  Roles and quorums of the approval authority (\<open>src/lib/approval-rbac.js\<close>): the validation of the
  policy document, the authorization of an operator, the check of an operator's API key and the quorum
  a tool needs.  \<open>scrypt\<close>, the key derivation of the platform, is an argument that yields bytes.
  A name of the policy is taken to be no property of \<open>Object.prototype\<close>, except \<open>__proto__\<close>, whose
  assignment creates no property.
\<close>

section \<open>Patterns\<close>

definition is_base64url :: "char \<Rightarrow> bool" where
  "is_base64url c = (is_digit c \<or> c \<in> set ''ABCDEFGHIJKLMNOPQRSTUVWXYZabcdefghijklmnopqrstuvwxyz_-'')"

definition API_KEY :: "string \<Rightarrow> bool" where
  "API_KEY s = (32 \<le> length s \<and> length s \<le> 256 \<and> list_all is_base64url s)"

definition API_KEY_SALT :: "string \<Rightarrow> bool" where
  "API_KEY_SALT s = (length s = 22 \<and> list_all is_base64url s)"

definition API_KEY_VERIFIER :: "string \<Rightarrow> bool" where
  "API_KEY_VERIFIER s = (length s = 43 \<and> list_all is_base64url s)"

definition OPERATOR_ID :: "string \<Rightarrow> bool" where
  "OPERATOR_ID s = (1 \<le> length s \<and> length s \<le> 128
     \<and> list_all (\<lambda>c. is_base64url c \<or> c \<in> set ''.:@'') s)"

definition TOOL_NAME :: "string \<Rightarrow> bool" where
  "TOOL_NAME s = (s \<noteq> [] \<and> length s \<le> 128 \<and> hd s \<in> set ''abcdefghijklmnopqrstuvwxyz''
     \<and> list_all (\<lambda>c. is_digit c \<or> c \<in> set ''abcdefghijklmnopqrstuvwxyz._-'') s)"

definition MAX_QUORUM :: nat where
  "MAX_QUORUM = 16"

definition ALLOWED_PERMISSIONS :: "string list" where
  "ALLOWED_PERMISSIONS = [''approvals.view'', ''approvals.decide'', ''approvals.manage'']"

definition DECIDE :: string where
  "DECIDE = ''approvals.decide''"

section \<open>API keys\<close>

type_synonym scrypt = "string \<Rightarrow> string \<Rightarrow> string"

fun string_matches :: "(string \<Rightarrow> bool) \<Rightarrow> jsval \<Rightarrow> bool" where
  "string_matches f (JStr s) = f s"
| "string_matches f _ = False"

fun text_of_json :: "jsval \<Rightarrow> string" where
  "text_of_json (JStr s) = s"
| "text_of_json _ = []"

definition verifyOperatorApiKey :: "scrypt \<Rightarrow> jsval \<Rightarrow> jsval \<Rightarrow> jsval \<Rightarrow> bool" where
  "verifyOperatorApiKey scrypt apiKey salt verifier =
     (if \<not> string_matches API_KEY apiKey \<or> \<not> string_matches API_KEY_SALT salt
        \<or> \<not> string_matches API_KEY_VERIFIER verifier then False
      else let saltBytes = from_base64 (text_of_json salt); expected = from_base64 (text_of_json verifier) in
        if length saltBytes \<noteq> 16 \<or> length expected \<noteq> 32 then False
        else scrypt (text_of_json apiKey) saltBytes = expected)"

section \<open>The policy document\<close>

datatype policy_reason =
    Not_an_object
  | Unknown_fields
  | Bad_version
  | Bad_roles
  | Bad_operators
  | Bad_role_name
  | Role_without_list string
  | Unknown_permission string
  | Repeated_permission string
  | Bad_operator_id string
  | Unknown_role string
  | Bad_separation
  | Bad_verifiers
  | Bad_salt
  | Unknown_verifier_operator string
  | Verifier_without_decide string
  | Bad_verifier string
  | Repeated_verifier
  | Bad_quorum
  | Bad_default_quorum
  | Bad_quorum_tools
  | Bad_tool_name string
  | Bad_tool_quorum string
  | Too_few_verifiers

record rbac_policy =
  rp_roles :: "(string \<times> string list) list"
  rp_operators :: "(string \<times> jsval) list"
  rp_separationOfDuties :: bool
  rp_salt :: jsval
  rp_verifiers :: "(string \<times> string) list"
  rp_defaultQuorum :: nat
  rp_byTool :: "(string \<times> nat) list"
  rp_hash :: string

datatype rbac = Rbac_unconfigured | Rbac_invalid policy_reason | Rbac rbac_policy

type_synonym 'a validated = "policy_reason + 'a"

text \<open>\<open>object[key] = value\<close> on a fresh object.\<close>

definition put_own :: "string \<Rightarrow> 'v \<Rightarrow> (string \<times> 'v) list \<Rightarrow> (string \<times> 'v) list" where
  "put_own k v m = (if k = ''__proto__'' then m else alist_put k v m)"

fun permission_texts :: "jsval list \<Rightarrow> string list option" where
  "permission_texts [] = Some []"
| "permission_texts (JStr s # xs) =
     (if s \<in> set ALLOWED_PERMISSIONS then map_option ((#) s) (permission_texts xs) else None)"
| "permission_texts _ = None"

fun validate_roles :: "(string \<times> string list) list \<Rightarrow> jsfields \<Rightarrow> (string \<times> string list) list validated" where
  "validate_roles roles [] = Inr roles"
| "validate_roles roles ((role, permissions) # rest) =
     (if role = [] \<or> length role > 64 then Inl Bad_role_name
      else case permissions of
          JArr xs \<Rightarrow> (case permission_texts xs of
              None \<Rightarrow> Inl (Unknown_permission role)
            | Some ps \<Rightarrow> if \<not> distinct ps then Inl (Repeated_permission role)
                else validate_roles (put_own role ps roles) rest)
        | _ \<Rightarrow> Inl (Role_without_list role))"

fun validate_operators :: "js_env \<Rightarrow> (string \<times> string list) list \<Rightarrow> (string \<times> jsval) list \<Rightarrow> jsfields
    \<Rightarrow> (string \<times> jsval) list validated" where
  "validate_operators env roles operators [] = Inr operators"
| "validate_operators env roles operators ((operatorId, role) # rest) =
     (if \<not> OPERATOR_ID operatorId then Inl (Bad_operator_id operatorId)
      else if map_of roles (js_string env role) = None then Inl (Unknown_role operatorId)
      else validate_operators env roles (put_own operatorId role operators) rest)"

text \<open>The role an operator of a validated policy has: the property key its value converts to.\<close>

definition role_permissions :: "js_env \<Rightarrow> (string \<times> string list) list \<Rightarrow> jsval \<Rightarrow> string list" where
  "role_permissions env roles role = (case map_of roles (js_string env role) of Some ps \<Rightarrow> ps | None \<Rightarrow> [])"

fun validate_verifiers :: "js_env \<Rightarrow> (string \<times> string list) list \<Rightarrow> (string \<times> jsval) list
    \<Rightarrow> (string \<times> string) list \<Rightarrow> jsfields \<Rightarrow> (string \<times> string) list validated" where
  "validate_verifiers env roles operators verifiers [] = Inr verifiers"
| "validate_verifiers env roles operators verifiers ((operatorId, verifier) # rest) =
     (case map_of operators operatorId of
        None \<Rightarrow> Inl (Unknown_verifier_operator operatorId)
      | Some role \<Rightarrow>
          if DECIDE \<notin> set (role_permissions env roles role) then Inl (Verifier_without_decide operatorId)
          else if \<not> string_matches API_KEY_VERIFIER verifier \<or> length (from_base64 (text_of_json verifier)) \<noteq> 32
            then Inl (Bad_verifier operatorId)
          else if text_of_json verifier \<in> snd ` set verifiers then Inl Repeated_verifier
          else validate_verifiers env roles operators (put_own operatorId (text_of_json verifier) verifiers) rest)"

definition good_salt :: "jsval \<Rightarrow> bool" where
  "good_salt v = (string_matches API_KEY_SALT v \<and> length (from_base64 (text_of_json v)) = 16)"

definition good_threshold :: "jsval \<Rightarrow> bool" where
  "good_threshold v = (is_integer v \<and> 1 \<le> num_of v \<and> num_of v \<le> of_nat MAX_QUORUM)"

definition threshold_of :: "jsval \<Rightarrow> nat" where
  "threshold_of v = nat \<lfloor>num_of v\<rfloor>"

fun validate_tools :: "(string \<times> nat) list \<Rightarrow> jsfields \<Rightarrow> (string \<times> nat) list validated" where
  "validate_tools byTool [] = Inr byTool"
| "validate_tools byTool ((tool, threshold) # rest) =
     (if \<not> TOOL_NAME tool then Inl (Bad_tool_name tool)
      else if \<not> good_threshold threshold then Inl (Bad_tool_quorum tool)
      else validate_tools (put_own tool (threshold_of threshold) byTool) rest)"

definition validate_quorum :: "jsval \<Rightarrow> (nat \<times> (string \<times> nat) list) validated" where
  "validate_quorum quorum =
     (let q = (if quorum = JUndefined then JObj [] else quorum) in
      if \<not> isPlainObject q \<or> \<not> set (map fst (own_fields q)) \<subseteq> {''default'', ''byTool''} then Inl Bad_quorum
      else let d = (if jget q ''default'' = JUndefined then JNum 1 else jget q ''default'');
               tools = jget q ''byTool'' in
        if \<not> good_threshold d then Inl Bad_default_quorum
        else if tools \<noteq> JUndefined \<and> \<not> isPlainObject tools then Inl Bad_quorum_tools
        else bind_result (validate_tools [] (own_fields tools)) (\<lambda>byTool. Inr (threshold_of d, byTool)))"

section \<open>Validation\<close>

definition POLICY_FIELDS :: "string list" where
  "POLICY_FIELDS = [''version'', ''roles'', ''operators'', ''separationOfDuties'', ''operatorApiKeySalt'',
     ''operatorApiKeyVerifiers'', ''quorum'']"

definition policy_json :: "rbac_policy \<Rightarrow> jsval" where
  "policy_json p = JObj [(''version'', JNum 1),
     (''roles'', JObj (map (\<lambda>(r, ps). (r, JArr (map JStr ps))) (rp_roles p))),
     (''operators'', JObj (rp_operators p)), (''separationOfDuties'', JBool (rp_separationOfDuties p)),
     (''operatorApiKeySalt'', rp_salt p),
     (''operatorApiKeyVerifiers'', JObj (map (apsnd JStr) (rp_verifiers p))),
     (''quorum'', JObj [(''default'', JNum (of_nat (rp_defaultQuorum p))),
        (''byTool'', JObj (map (apsnd (\<lambda>n. JNum (of_nat n))) (rp_byTool p)))])]"

definition policyHashFor :: "js_env \<Rightarrow> rbac_policy \<Rightarrow> string" where
  "policyHashFor env p = sha256_hex env (the (stableStringify env (policy_json p)))"

definition max_threshold :: "nat \<Rightarrow> (string \<times> nat) list \<Rightarrow> nat" where
  "max_threshold d byTool = fold max (map snd byTool) d"

definition validatePolicy :: "js_env \<Rightarrow> jsval \<Rightarrow> rbac_policy validated" where
  "validatePolicy env doc =
     (if \<not> isPlainObject doc then Inl Not_an_object
      else if \<not> set (map fst (own_fields doc)) \<subseteq> set POLICY_FIELDS then Inl Unknown_fields
      else if jget doc ''version'' \<noteq> JNum 1 then Inl Bad_version
      else if \<not> isPlainObject (jget doc ''roles'') then Inl Bad_roles
      else if \<not> isPlainObject (jget doc ''operators'') then Inl Bad_operators
      else
        bind_result (validate_roles [] (own_fields (jget doc ''roles''))) (\<lambda>roles.
        bind_result (validate_operators env roles [] (own_fields (jget doc ''operators''))) (\<lambda>operators.
        let sep = jget doc ''separationOfDuties''; raw = jget doc ''operatorApiKeyVerifiers'';
            salt = jget doc ''operatorApiKeySalt'' in
        if sep \<notin> {JUndefined, JBool True, JBool False} then Inl Bad_separation
        else if raw \<noteq> JUndefined \<and> \<not> isPlainObject raw then Inl Bad_verifiers
        else if own_fields raw \<noteq> [] \<and> \<not> good_salt salt then Inl Bad_salt
        else if salt \<noteq> JUndefined \<and> \<not> good_salt salt then Inl Bad_salt
        else
          bind_result (validate_verifiers env roles operators [] (own_fields raw)) (\<lambda>verifiers.
          bind_result (validate_quorum (jget doc ''quorum'')) (\<lambda>(d, byTool).
            if max_threshold d byTool > 1 \<and> length verifiers < max_threshold d byTool then Inl Too_few_verifiers
            else let p = \<lparr>rp_roles = roles, rp_operators = operators, rp_separationOfDuties = (sep = JBool True),
                   rp_salt = (if salt = JUndefined then JNull else salt), rp_verifiers = verifiers,
                   rp_defaultQuorum = d, rp_byTool = byTool, rp_hash = []\<rparr>
              in Inr (p\<lparr>rp_hash := policyHashFor env p\<rparr>))))))"

text \<open>\<open>None\<close> when the file cannot be read or is not JSON.\<close>

definition loadApprovalRbacPolicy :: "js_env \<Rightarrow> jsval \<Rightarrow> (string \<Rightarrow> jsval option) \<Rightarrow> rbac" where
  "loadApprovalRbacPolicy env file readFile =
     (if is_nullish file \<or> file = JStr [] then Rbac_unconfigured
      else case readFile (js_string env file) of
          None \<Rightarrow> Rbac_invalid Not_an_object
        | Some doc \<Rightarrow> (case validatePolicy env doc of Inl r \<Rightarrow> Rbac_invalid r | Inr p \<Rightarrow> Rbac p))"

section \<open>Authorization\<close>

datatype rbac_code =
    RBAC_POLICY_INVALID
  | RBAC_OPERATOR_REQUIRED
  | RBAC_OPERATOR_UNKNOWN
  | RBAC_PERMISSION_DENIED
  | RBAC_SEPARATION_OF_DUTIES
  | RBAC_API_KEY_REQUIRED
  | RBAC_API_KEY_INVALID

fun rbac_code_name :: "rbac_code \<Rightarrow> string" where
  "rbac_code_name RBAC_POLICY_INVALID = ''APPROVAL_RBAC_POLICY_INVALID''"
| "rbac_code_name RBAC_OPERATOR_REQUIRED = ''APPROVAL_RBAC_OPERATOR_REQUIRED''"
| "rbac_code_name RBAC_OPERATOR_UNKNOWN = ''APPROVAL_RBAC_OPERATOR_UNKNOWN''"
| "rbac_code_name RBAC_PERMISSION_DENIED = ''APPROVAL_RBAC_PERMISSION_DENIED''"
| "rbac_code_name RBAC_SEPARATION_OF_DUTIES = ''APPROVAL_RBAC_SEPARATION_OF_DUTIES''"
| "rbac_code_name RBAC_API_KEY_REQUIRED = ''APPROVAL_RBAC_API_KEY_REQUIRED''"
| "rbac_code_name RBAC_API_KEY_INVALID = ''APPROVAL_RBAC_API_KEY_INVALID''"

text \<open>\<open>Inr None\<close>: no policy governs; \<open>Inr (Some (operator, role))\<close>: authorized under the policy.\<close>

definition authorizeApproval :: "js_env \<Rightarrow> rbac \<Rightarrow> jsval \<Rightarrow> jsval \<Rightarrow> string
    \<Rightarrow> rbac_code + (string \<times> jsval) option" where
  "authorizeApproval env policy operatorId requesterId permission = (case policy of
       Rbac_unconfigured \<Rightarrow> Inr None
     | Rbac_invalid r \<Rightarrow> Inl RBAC_POLICY_INVALID
     | Rbac p \<Rightarrow>
         if \<not> string_matches OPERATOR_ID operatorId then Inl RBAC_OPERATOR_REQUIRED
         else let i = text_of_json operatorId in
           (case map_of (rp_operators p) i of
              None \<Rightarrow> Inl RBAC_OPERATOR_UNKNOWN
            | Some role \<Rightarrow>
                if \<not> truthy role then Inl RBAC_OPERATOR_UNKNOWN
                else if permission \<notin> set (role_permissions env (rp_roles p) role) then Inl RBAC_PERMISSION_DENIED
                else if permission = DECIDE \<and> rp_separationOfDuties p \<and> requesterId = JStr i
                  then Inl RBAC_SEPARATION_OF_DUTIES
                else Inr (Some (i, role))))"

datatype identity_source = Legacy_totp | Api_key

record approval_operator =
  op_operatorId :: "string option"
  op_source :: identity_source

definition operator_or_none :: "jsval \<Rightarrow> string option" where
  "operator_or_none v = (if nonempty_string v then Some (text_of_json v) else None)"

definition resolveApprovalOperator :: "js_env \<Rightarrow> scrypt \<Rightarrow> rbac \<Rightarrow> jsval \<Rightarrow> jsval \<Rightarrow> jsval \<Rightarrow> jsval
    \<Rightarrow> rbac_code + approval_operator" where
  "resolveApprovalOperator env scrypt policy apiKey operatorIdHint fallbackOperatorId requesterId = (case policy of
       Rbac_unconfigured \<Rightarrow> Inr \<lparr>op_operatorId = operator_or_none fallbackOperatorId, op_source = Legacy_totp\<rparr>
     | Rbac_invalid r \<Rightarrow> Inl RBAC_POLICY_INVALID
     | Rbac p \<Rightarrow>
         if rp_verifiers p = [] then
           bind_result (authorizeApproval env policy fallbackOperatorId requesterId DECIDE) (\<lambda>_.
             Inr \<lparr>op_operatorId = operator_or_none fallbackOperatorId, op_source = Legacy_totp\<rparr>)
         else if \<not> string_matches API_KEY apiKey then Inl RBAC_API_KEY_REQUIRED
         else if \<not> string_matches OPERATOR_ID operatorIdHint then Inl RBAC_OPERATOR_REQUIRED
         else (case map_of (rp_verifiers p) (text_of_json operatorIdHint) of
             None \<Rightarrow> Inl RBAC_API_KEY_INVALID
           | Some verifier \<Rightarrow>
               if \<not> verifyOperatorApiKey scrypt apiKey (rp_salt p) (JStr verifier) then Inl RBAC_API_KEY_INVALID
               else bind_result (authorizeApproval env policy operatorIdHint requesterId DECIDE) (\<lambda>_.
                 Inr \<lparr>op_operatorId = Some (text_of_json operatorIdHint), op_source = Api_key\<rparr>)))"

section \<open>Quorums\<close>

definition quorumRequiredFor :: "rbac \<Rightarrow> string \<Rightarrow> nat" where
  "quorumRequiredFor policy tool = (case policy of
       Rbac p \<Rightarrow> (case map_of (rp_byTool p) tool of Some n \<Rightarrow> n | None \<Rightarrow> rp_defaultQuorum p)
     | _ \<Rightarrow> 1)"

definition policyFingerprint :: "rbac \<Rightarrow> (int \<times> string) option" where
  "policyFingerprint policy = (case policy of Rbac p \<Rightarrow> Some (1, rp_hash p) | _ \<Rightarrow> None)"

definition eligibleVotersRemaining :: "rbac \<Rightarrow> string list \<Rightarrow> string list \<Rightarrow> string list option" where
  "eligibleVotersRemaining policy eligible voted = (case policy of
       Rbac p \<Rightarrow> Some (filter (\<lambda>i. i \<notin> set voted) eligible)
     | _ \<Rightarrow> None)"

end
