(* ===== verification/Authority_Envelope.thy ===== *)
theory Authority_Envelope
  imports Approval_Rbac Trust_Ledger
begin

text \<open>
  What the approval authority signs and what the runtime accepts: decisions and outcome attestations
  (\<open>src/lib/authority/decision-envelope.js\<close>), consumptions (\<open>consumption-envelope.js\<close>), the hash of an
  action (\<open>src/lib/mcp-operator-capability.js\<close>), the names of the tools (\<open>src/lib/mcp-tool-names.js\<close>)
  and the guard in front of every execution (\<open>decision-guard.js\<close>).  Payloads are values, since the
  runtime gets them from outside; Ed25519 is a pair of arguments, a signing and a verifying key.
\<close>

section \<open>Tool names\<close>

definition MCP_TOOL_SUFFIXES :: "string list" where
  "MCP_TOOL_SUFFIXES = [''learn'', ''ask'', ''verify'', ''plan'', ''agent'', ''agent_resume'',
     ''emergency_stop'', ''policy'', ''approvals'', ''approve'', ''reason'', ''derive'', ''prove'',
     ''compare'', ''dream'', ''advocate'', ''search'', ''web_research'', ''trust_receipt'',
     ''trust_receipt_detail'', ''experience_read'', ''experience_learn'', ''memory_query'',
     ''approval_detail'', ''status'', ''audit'', ''ingest_preview'', ''ingest_execute'',
     ''ingest_status'', ''fractal-learn'', ''self-evolve'']"

definition isCanonicalMcpToolName :: "jsval \<Rightarrow> bool" where
  "isCanonicalMcpToolName v = string_matches (\<lambda>n. n \<in> (@) ''huqan.'' ` set MCP_TOOL_SUFFIXES) v"

definition isLegacyMcpToolName :: "jsval \<Rightarrow> bool" where
  "isLegacyMcpToolName v = string_matches (\<lambda>n. n \<in> (@) ''axiom.'' ` set MCP_TOOL_SUFFIXES) v"

definition canonicalMcpToolName :: "jsval \<Rightarrow> jsval" where
  "canonicalMcpToolName v = (if isCanonicalMcpToolName v then v
     else if isLegacyMcpToolName v then JStr (''huqan.'' @ drop 6 (text_of_json v)) else v)"

definition legacyMcpToolName :: "jsval \<Rightarrow> jsval" where
  "legacyMcpToolName v = (if \<not> isCanonicalMcpToolName v then JNull
     else JStr (''axiom.'' @ drop 6 (text_of_json v)))"

section \<open>The hash of an action\<close>

definition binding_text :: "jsval \<Rightarrow> bool" where
  "binding_text v = string_matches (\<lambda>s. s \<noteq> [] \<and> trim s = s \<and> utf8_length s \<le> 256) v"

definition nullable_text :: "jsval \<Rightarrow> bool" where
  "nullable_text v = (v = JNull \<or> string_matches (\<lambda>s. length s \<le> 256 \<and> trim s = s) v)"

definition action_json :: "jsval \<Rightarrow> jsval \<Rightarrow> jsval \<Rightarrow> jsval \<Rightarrow> jsval" where
  "action_json tool workspaceId approvalId args = JObj [(''tool'', tool), (''workspaceId'', workspaceId),
     (''approvalId'', approvalId), (''runId'', JNull), (''arguments'', args)]"

text \<open>\<open>None\<close>: the binding throws.  A missing id is \<open>null\<close>, missing arguments are an empty object.\<close>

definition canonicalActionHash :: "js_env \<Rightarrow> jsval \<Rightarrow> jsval \<Rightarrow> jsval \<Rightarrow> jsval \<Rightarrow> string option" where
  "canonicalActionHash env tool workspaceId approvalId args =
     (let i = (if approvalId = JUndefined then JNull else approvalId);
          a = (if args = JUndefined then JObj [] else args) in
      if \<not> binding_text tool \<or> \<not> binding_text workspaceId \<or> \<not> nullable_text i then None
      else Some (sha256_hex env (the (stableStringify env (action_json tool workspaceId i a)))))"

section \<open>Keys\<close>

record signing_key =
  sk_keyId :: string
  sk_sign :: "string \<Rightarrow> string"

record verifying_key =
  vk_keyId :: string
  vk_verify :: "string \<Rightarrow> string \<Rightarrow> bool"

definition SIGNATURE :: "string \<Rightarrow> bool" where
  "SIGNATURE s = (length s = 86 \<and> list_all is_base64url (butlast s) \<and> last s \<in> set ''AQgw'')"

definition signed_text :: "js_env \<Rightarrow> string \<Rightarrow> jsval \<Rightarrow> string" where
  "signed_text env domain v = domain @ the (stableStringify env v)"

definition signDomain :: "js_env \<Rightarrow> string \<Rightarrow> jsval \<Rightarrow> signing_key \<Rightarrow> string" where
  "signDomain env domain v k = sk_sign k (signed_text env domain v)"

definition verifyDomain :: "js_env \<Rightarrow> string \<Rightarrow> jsval \<Rightarrow> jsval \<Rightarrow> verifying_key \<Rightarrow> bool" where
  "verifyDomain env domain v sig k =
     (string_matches SIGNATURE sig \<and> vk_verify k (signed_text env domain v) (text_of_json sig))"

definition envelope :: "signing_key \<Rightarrow> string \<Rightarrow> jsval \<Rightarrow> jsval" where
  "envelope k sig payload = JObj [(''alg'', JStr ''Ed25519''), (''keyId'', JStr (sk_keyId k)),
     (''sig'', JStr sig), (''payload'', payload)]"

section \<open>Decisions\<close>

definition newline :: string where
  "newline = [CHR 0x0A]"

definition DECISION_VERSION :: string where
  "DECISION_VERSION = ''huqan.authority.decision.v1''"

definition DECISION_DOMAIN :: string where
  "DECISION_DOMAIN = DECISION_VERSION @ newline"

definition PAYLOAD_FIELDS :: "string list" where
  "PAYLOAD_FIELDS = [''v'', ''approvalId'', ''workspaceId'', ''tool'', ''actionHash'', ''decision'', ''reason'',
     ''decidedAt'', ''validUntil'', ''ledgerSeq'', ''ledgerHash'', ''operator'']"

definition OPTIONAL_PAYLOAD_FIELDS :: "string list" where
  "OPTIONAL_PAYLOAD_FIELDS = [''operatorId'', ''approverIds'', ''quorumRequired'', ''policyVersion'', ''policyHash'']"

definition hex64_test :: "js_env \<Rightarrow> jsval \<Rightarrow> bool" where
  "hex64_test env v = SHA256_HEX (js_string env v)"

fun digits_at :: "string \<Rightarrow> string \<Rightarrow> bool" where
  "digits_at [] [] = True"
| "digits_at (p # ps) (c # cs) = ((if p = CHR ''d'' then is_digit c else c = p) \<and> digits_at ps cs)"
| "digits_at _ _ = False"

definition ISO_INSTANT :: "string \<Rightarrow> bool" where
  "ISO_INSTANT s = (digits_at ''dddd-dd-ddTdd:dd:ddZ'' s \<or> digits_at ''dddd-dd-ddTdd:dd:dd.dddZ'' s)"

definition iso_instant :: "js_env \<Rightarrow> jsval \<Rightarrow> int option" where
  "iso_instant env v = (if string_matches ISO_INSTANT v then date_parse env (text_of_json v) else None)"

definition bounded_text :: "bool \<Rightarrow> jsval \<Rightarrow> bool" where
  "bounded_text allowEmpty v = string_matches (\<lambda>s. (allowEmpty \<or> s \<noteq> []) \<and> length s \<le> 512) v"

definition integer_between :: "nat \<Rightarrow> nat \<Rightarrow> jsval \<Rightarrow> bool" where
  "integer_between lo hi v = (is_integer v \<and> of_nat lo \<le> num_of v \<and> num_of v \<le> of_nat hi)"

definition natural_number :: "jsval \<Rightarrow> bool" where
  "natural_number v = (is_integer v \<and> 0 \<le> num_of v)"

fun array_elements :: "jsval \<Rightarrow> jsval list" where
  "array_elements (JArr xs) = xs"
| "array_elements _ = []"

fun is_array :: "jsval \<Rightarrow> bool" where
  "is_array (JArr xs) = True"
| "is_array _ = False"

definition approver_list :: "jsval \<Rightarrow> bool" where
  "approver_list v = (is_array v \<and> 1 \<le> length (array_elements v) \<and> length (array_elements v) \<le> 16
     \<and> list_all (string_matches OPERATOR_ID) (array_elements v) \<and> distinct (array_elements v))"

datatype payload_error =
    Payload_not_an_object
  | Payload_fields_differ
  | Unsupported_version
  | Unbounded_text string
  | Bad_approverIds
  | Bad_quorumRequired
  | Approvers_without_quorum
  | Policy_without_hash
  | Bad_policyVersion
  | Bad_policyHash
  | Quorum_without_policy
  | Too_few_approvers
  | Operator_not_approver
  | Bad_decision
  | Bad_hash
  | Bad_ledgerSeq
  | Bad_instant
  | Bad_validity_window

definition MAX_DECISION_TTL_MS :: int where
  "MAX_DECISION_TTL_MS = 60 * 60 * 1000"

definition above_one :: "jsval \<Rightarrow> bool" where
  "above_one v = (is_integer v \<and> num_of v > 1)"

definition assert_binding :: "js_env \<Rightarrow> jsval \<Rightarrow> payload_error + unit" where
  "assert_binding env p = (let op = jget p ''operatorId''; ids = jget p ''approverIds'';
       q = jget p ''quorumRequired''; pv = jget p ''policyVersion''; ph = jget p ''policyHash'' in
     bind_result (guard_result (op = JUndefined \<or> bounded_text False op) (Unbounded_text ''operatorId'')) (\<lambda>_.
     bind_result (guard_result (ids = JUndefined \<or> approver_list ids) Bad_approverIds) (\<lambda>_.
     bind_result (guard_result (q = JUndefined \<or> integer_between 1 16 q) Bad_quorumRequired) (\<lambda>_.
     bind_result (guard_result ((ids = JUndefined) = (q = JUndefined)) Approvers_without_quorum) (\<lambda>_.
     bind_result (guard_result ((pv = JUndefined) = (ph = JUndefined)) Policy_without_hash) (\<lambda>_.
     bind_result (guard_result (pv = JUndefined \<or> integer_between 1 1000 pv) Bad_policyVersion) (\<lambda>_.
     bind_result (guard_result (ph = JUndefined \<or> hex64_test env ph) Bad_policyHash) (\<lambda>_.
     bind_result (guard_result (\<not> (above_one q \<and> ph = JUndefined)) Quorum_without_policy) (\<lambda>_.
     bind_result (guard_result (\<not> (above_one q \<and> jget p ''decision'' = JStr ''approved''
         \<and> of_nat (length (array_elements ids)) < num_of q)) Too_few_approvers) (\<lambda>_.
       guard_result (\<not> (ids \<noteq> JUndefined \<and> truthy op \<and> op \<notin> set (array_elements ids)))
         Operator_not_approver))))))))))"

definition assertPayload :: "js_env \<Rightarrow> jsval \<Rightarrow> payload_error + unit" where
  "assertPayload env p = (if \<not> isPlainObject p then Inl Payload_not_an_object
     else let keys = map fst (own_fields p) in
     bind_result (guard_result (set keys \<subseteq> set PAYLOAD_FIELDS \<union> set OPTIONAL_PAYLOAD_FIELDS
       \<and> set PAYLOAD_FIELDS \<subseteq> set keys) Payload_fields_differ) (\<lambda>_.
     bind_result (guard_result (jget p ''v'' = JStr DECISION_VERSION) Unsupported_version) (\<lambda>_.
     bind_result (guard_result (list_all (\<lambda>f. bounded_text False (jget p f)) [''approvalId'', ''workspaceId'', ''tool'', ''operator''])
       (Unbounded_text ''approvalId'')) (\<lambda>_.
     bind_result (assert_binding env p) (\<lambda>_.
     bind_result (guard_result (bounded_text True (jget p ''reason'')) (Unbounded_text ''reason'')) (\<lambda>_.
     bind_result (guard_result (jget p ''decision'' \<in> {JStr ''approved'', JStr ''rejected''}) Bad_decision) (\<lambda>_.
     bind_result (guard_result (hex64_test env (jget p ''actionHash'') \<and> hex64_test env (jget p ''ledgerHash'')) Bad_hash) (\<lambda>_.
     bind_result (guard_result (natural_number (jget p ''ledgerSeq'')) Bad_ledgerSeq) (\<lambda>_.
       (case (iso_instant env (jget p ''decidedAt''), iso_instant env (jget p ''validUntil'')) of
          (Some decidedAt, Some validUntil) \<Rightarrow>
            guard_result (decidedAt < validUntil \<and> validUntil - decidedAt \<le> MAX_DECISION_TTL_MS) Bad_validity_window
        | _ \<Rightarrow> Inl Bad_instant))))))))))"

definition signDecision :: "js_env \<Rightarrow> jsval \<Rightarrow> signing_key \<Rightarrow> payload_error + jsval" where
  "signDecision env p k = bind_result (assertPayload env p) (\<lambda>_.
     Inr (envelope k (signDomain env DECISION_DOMAIN p k) p))"

definition isDemoDecisionEnvelope :: "jsval \<Rightarrow> bool" where
  "isDemoDecisionEnvelope e = (isPlainObject e \<and> is_object (jget e ''payload'')
     \<and> jget (jget e ''payload'') ''v'' = JStr ''huqan.authority.demo.v1'')"

datatype verify_code = Malformed | Key_mismatch | Signature_invalid | Binding_mismatch | Decision_expired

definition BINDING_FIELDS :: "string list" where
  "BINDING_FIELDS = [''approvalId'', ''workspaceId'', ''tool'', ''actionHash'', ''decision'']"

text \<open>\<open>expected\<close> is the object with the fields the caller binds the envelope to.\<close>

definition differs :: "jsval \<Rightarrow> jsval \<Rightarrow> string \<Rightarrow> bool" where
  "differs p expected f = (\<not> strict_eq (jget p f) (jget expected f))"

definition verifyDecision :: "js_env \<Rightarrow> verifying_key \<Rightarrow> jsval \<Rightarrow> jsval \<Rightarrow> int \<Rightarrow> verify_code + jsval" where
  "verifyDecision env k e expected now = (let p = jget e ''payload'' in
     if \<not> is_object e \<or> jget e ''alg'' \<noteq> JStr ''Ed25519'' \<or> \<not> is_string (jget e ''keyId'') then Inl Malformed
     else case assertPayload env p of
         Inl err \<Rightarrow> Inl Malformed
       | Inr _ \<Rightarrow>
           if jget e ''keyId'' \<noteq> JStr (vk_keyId k) then Inl Key_mismatch
           else if \<not> verifyDomain env DECISION_DOMAIN p (jget e ''sig'') k then Inl Signature_invalid
           else if list_ex (differs p expected) BINDING_FIELDS then Inl Binding_mismatch
           else (case iso_instant env (jget p ''validUntil'') of
               Some t \<Rightarrow> if now < t then Inr p else Inl Decision_expired
             | None \<Rightarrow> Inl Decision_expired))"

section \<open>Consumptions\<close>

definition CONSUMPTION_VERSION :: string where
  "CONSUMPTION_VERSION = ''huqan.authority.consumed.v1''"

definition CONSUMPTION_DOMAIN :: string where
  "CONSUMPTION_DOMAIN = CONSUMPTION_VERSION @ newline"

definition CONSUMPTION_FIELDS :: "string list" where
  "CONSUMPTION_FIELDS = [''v'', ''approvalId'', ''workspaceId'', ''tool'', ''actionHash'', ''ledgerSeq'',
     ''ledgerHash'', ''consumedAt'']"

definition consumption_well_formed :: "js_env \<Rightarrow> jsval \<Rightarrow> bool" where
  "consumption_well_formed env p = (is_object p \<and> set (map fst (own_fields p)) = set CONSUMPTION_FIELDS
     \<and> jget p ''v'' = JStr CONSUMPTION_VERSION
     \<and> list_all (\<lambda>f. nonempty_string (jget p f)) [''approvalId'', ''workspaceId'', ''tool'', ''consumedAt'']
     \<and> hex64_test env (jget p ''actionHash'') \<and> hex64_test env (jget p ''ledgerHash'')
     \<and> natural_number (jget p ''ledgerSeq''))"

definition signConsumption :: "js_env \<Rightarrow> jsfields \<Rightarrow> signing_key \<Rightarrow> jsval option" where
  "signConsumption env fs k = (let p = JObj ((''v'', JStr CONSUMPTION_VERSION) # fs) in
     if \<not> consumption_well_formed env p then None
     else Some (envelope k (signDomain env CONSUMPTION_DOMAIN p k) p))"

definition verifyConsumption :: "js_env \<Rightarrow> verifying_key \<Rightarrow> jsval \<Rightarrow> jsval \<Rightarrow> verify_code + jsval" where
  "verifyConsumption env k e expected = (let p = jget e ''payload'' in
     if \<not> truthy e \<or> jget e ''alg'' \<noteq> JStr ''Ed25519'' \<or> \<not> consumption_well_formed env p
        \<or> \<not> string_matches SIGNATURE (jget e ''sig'') then Inl Malformed
     else if jget e ''keyId'' \<noteq> JStr (vk_keyId k) then Inl Key_mismatch
     else if \<not> vk_verify k (signed_text env CONSUMPTION_DOMAIN p) (text_of_json (jget e ''sig'')) then Inl Signature_invalid
     else if list_ex (differs p expected) [''approvalId'', ''workspaceId'', ''tool'', ''actionHash''] then Inl Binding_mismatch
     else Inr p)"

section \<open>Outcomes\<close>

definition OUTCOME_VERSION :: string where
  "OUTCOME_VERSION = ''huqan.authority.outcome.v1''"

definition OUTCOME_DOMAIN :: string where
  "OUTCOME_DOMAIN = OUTCOME_VERSION @ newline"

definition OUTCOME_FIELDS :: "string list" where
  "OUTCOME_FIELDS = [''v'', ''approvalId'', ''workspaceId'', ''tool'', ''actionHash'', ''decision'',
     ''operatorId'', ''decisionEnvelopeHash'', ''status'', ''receiptId'', ''receiptHash'', ''recordedAt'',
     ''ledgerSeq'', ''ledgerHash'']"

text \<open>\<open>HEX64.test(value || '')\<close>\<close>

definition hex64_or_empty :: "js_env \<Rightarrow> jsval \<Rightarrow> bool" where
  "hex64_or_empty env v = (truthy v \<and> hex64_test env v)"

definition outcome_payload_ok :: "js_env \<Rightarrow> jsval \<Rightarrow> bool" where
  "outcome_payload_ok env p = (isPlainObject p \<and> length (own_fields p) = length OUTCOME_FIELDS
     \<and> set (map fst (own_fields p)) = set OUTCOME_FIELDS \<and> jget p ''v'' = JStr OUTCOME_VERSION
     \<and> list_all (\<lambda>f. bounded_text False (jget p f)) [''approvalId'', ''workspaceId'', ''tool'']
     \<and> list_all (\<lambda>f. hex64_or_empty env (jget p f)) [''actionHash'', ''decisionEnvelopeHash'', ''ledgerHash'']
     \<and> jget p ''decision'' \<in> {JStr ''approved'', JStr ''rejected''}
     \<and> (jget p ''operatorId'' = JNull \<or> bounded_text False (jget p ''operatorId''))
     \<and> jget p ''status'' \<in> {JStr ''executed'', JStr ''failed''} \<and> bounded_text False (jget p ''receiptId'')
     \<and> (jget p ''receiptHash'' = JNull \<or> hex64_or_empty env (jget p ''receiptHash''))
     \<and> iso_instant env (jget p ''recordedAt'') \<noteq> None \<and> natural_number (jget p ''ledgerSeq''))"

definition signOutcomeAttestation :: "js_env \<Rightarrow> jsval \<Rightarrow> signing_key \<Rightarrow> jsval option" where
  "signOutcomeAttestation env p k = (if \<not> outcome_payload_ok env p then None
     else Some (envelope k (signDomain env OUTCOME_DOMAIN p k) p))"

definition verifyOutcomeAttestation :: "js_env \<Rightarrow> verifying_key \<Rightarrow> jsval \<Rightarrow> jsfields \<Rightarrow> verify_code + jsval" where
  "verifyOutcomeAttestation env k e expected = (let p = jget e ''payload'' in
     if \<not> isPlainObject e \<or> jget e ''alg'' \<noteq> JStr ''Ed25519'' \<or> \<not> is_string (jget e ''keyId'')
        \<or> \<not> is_string (jget e ''sig'') then Inl Malformed
     else if \<not> outcome_payload_ok env p then Inl Malformed
     else if jget e ''keyId'' \<noteq> JStr (vk_keyId k) then Inl Key_mismatch
     else if \<not> verifyDomain env OUTCOME_DOMAIN p (jget e ''sig'') k then Inl Signature_invalid
     else if list_ex (\<lambda>f. f \<in> set (map fst expected) \<and> differs p (JObj expected) f) OUTCOME_FIELDS
       then Inl Binding_mismatch
     else Inr p)"

section \<open>The guard of the runtime\<close>

datatype guard_mode = Guard_legacy | Guard_service "verifying_key option" | Guard_unusable

datatype guard_code =
    DEMO_AUTHORITY_REFUSED
  | AUTHORITY_UNAVAILABLE
  | AUTHORITY_DECISION_REQUIRED
  | AUTHORITY_DECISION_INVALID
  | AUTHORITY_CONSUMPTION_REQUIRED

record guard_input =
  gi_tool :: jsval
  gi_approvalId :: jsval
  gi_workspaceId :: jsval
  gi_decision :: string
  gi_storedArgs :: jsval
  gi_envelope :: jsval
  gi_consumption :: jsval
  gi_checkConsumption :: bool

definition expected_binding :: "guard_input \<Rightarrow> jsval \<Rightarrow> string \<Rightarrow> jsval" where
  "expected_binding g tool actionHash = JObj [(''approvalId'', gi_approvalId g), (''workspaceId'', gi_workspaceId g),
     (''tool'', tool), (''actionHash'', JStr actionHash), (''decision'', JStr (gi_decision g))]"

text \<open>
  The key of the pin is \<open>None\<close> when it cannot be read, which throws inside the verification.
  \<open>Inr None\<close>: passed in legacy mode; \<open>Inr (Some payload)\<close>: a verified decision.
\<close>

definition requireAuthorityDecision :: "js_env \<Rightarrow> guard_mode \<Rightarrow> int \<Rightarrow> guard_input \<Rightarrow> guard_code + jsval option" where
  "requireAuthorityDecision env mode now g =
     (if isDemoDecisionEnvelope (gi_envelope g) then Inl DEMO_AUTHORITY_REFUSED
      else case mode of
          Guard_legacy \<Rightarrow> Inr None
        | Guard_unusable \<Rightarrow> Inl AUTHORITY_UNAVAILABLE
        | Guard_service key \<Rightarrow>
            if is_nullish (gi_envelope g) then Inl AUTHORITY_DECISION_REQUIRED
            else let tool = canonicalMcpToolName (gi_tool g) in
              (case canonicalActionHash env tool (gi_workspaceId g) (gi_approvalId g) (gi_storedArgs g) of
                 None \<Rightarrow> Inl AUTHORITY_DECISION_INVALID
               | Some actionHash \<Rightarrow> (case key of
                     None \<Rightarrow> Inl AUTHORITY_DECISION_INVALID
                   | Some k \<Rightarrow> let expected = expected_binding g tool actionHash in
                       (case verifyDecision env k (gi_envelope g) expected now of
                          Inl c \<Rightarrow> Inl AUTHORITY_DECISION_INVALID
                        | Inr payload \<Rightarrow>
                            if gi_decision g = ''approved'' \<and> gi_checkConsumption g
                               \<and> isl (verifyConsumption env k (gi_consumption g) expected)
                            then Inl AUTHORITY_CONSUMPTION_REQUIRED
                            else Inr (Some payload)))))"

end
