(* ===== verification/Authority_Totp.thy ===== *)
theory Authority_Totp
  imports Approval_Rbac "HOL-Library.Word"
begin

text \<open>
  The operator's one-time codes (\<open>src/lib/authority/totp.js\<close>, \<open>src/lib/authority/operator-check.js\<close>):
  the base32 form of the secret, the code of a time step, the check of a code with its replay floor,
  and the failure limit over it.  Bytes and the shift registers are machine words; HMAC-SHA1, of the
  platform, is an argument.
\<close>

unbundle bit_operations_syntax

type_synonym bytes = "8 word list"

section \<open>Base32\<close>

definition BASE32_ALPHABET :: string where
  "BASE32_ALPHABET = ''ABCDEFGHIJKLMNOPQRSTUVWXYZ234567''"

definition base32_digit :: "32 word \<Rightarrow> char" where
  "base32_digit w = BASE32_ALPHABET ! unat (w AND 31)"

text \<open>The inner loop: the digits that are complete, and the number of bits that remain.\<close>

fun emit_digits :: "nat \<Rightarrow> 32 word \<Rightarrow> string \<times> nat" where
  "emit_digits bits v = (if bits < 5 then ([], bits)
     else case emit_digits (bits - 5) v of (out, r) \<Rightarrow> (base32_digit (drop_bit (bits - 5) v) # out, r))"

declare emit_digits.simps [simp del]

fun encode_from :: "nat \<Rightarrow> 32 word \<Rightarrow> bytes \<Rightarrow> string" where
  "encode_from bits v [] = (if bits > 0 then [base32_digit (push_bit (5 - bits) v)] else [])"
| "encode_from bits v (b # bs) = (let v' = push_bit 8 v OR ucast b in
     case emit_digits (bits + 8) v' of (out, bits') \<Rightarrow> out @ encode_from bits' v' bs)"

definition base32Encode :: "bytes \<Rightarrow> string" where
  "base32Encode buffer = encode_from 0 0 buffer"

text \<open>
  \<open>toUpperCase\<close> in the Latin-1 range; a letter whose upper case leaves the range stays, and is no
  digit either way.
\<close>

definition upper_char :: "char \<Rightarrow> string" where
  "upper_char c = (let n = of_char c :: nat in
     if (97 \<le> n \<and> n \<le> 122) \<or> (224 \<le> n \<and> n \<le> 254 \<and> n \<noteq> 247) then [char_of (n - 32)]
     else if n = 223 then ''SS'' else [c])"

definition to_upper :: "string \<Rightarrow> string" where
  "to_upper s = concat (map upper_char s)"

definition strip_padding :: "string \<Rightarrow> string" where
  "strip_padding s = rev (dropWhile (\<lambda>c. c = CHR ''='') (rev s))"

fun index_in :: "'a list \<Rightarrow> 'a \<Rightarrow> nat option" where
  "index_in [] c = None"
| "index_in (a # as) c = (if a = c then Some 0 else map_option Suc (index_in as c))"

datatype base32_error = Not_whole_bytes | Not_a_digit char | Trailing_bits

fun decode_from :: "nat \<Rightarrow> 32 word \<Rightarrow> string \<Rightarrow> base32_error + bytes" where
  "decode_from bits v [] = (if v AND (push_bit bits 1 - 1) \<noteq> 0 then Inl Trailing_bits else Inr [])"
| "decode_from bits v (c # cs) = (case index_in BASE32_ALPHABET c of
     None \<Rightarrow> Inl (Not_a_digit c)
   | Some i \<Rightarrow> let v' = push_bit 5 v OR of_nat i in
       if bits + 5 \<ge> 8 then bind_result (decode_from (bits + 5 - 8) v' cs)
         (\<lambda>bs. Inr (ucast (drop_bit (bits + 5 - 8) v' AND 255) # bs))
       else decode_from (bits + 5) v' cs)"

definition base32Decode :: "string \<Rightarrow> base32_error + bytes" where
  "base32Decode t = (let normalized = strip_padding (to_upper t) in
     if normalized = [] \<or> length normalized mod 8 \<in> {1, 3, 6} then Inl Not_whole_bytes
     else decode_from 0 0 normalized)"

section \<open>The code of a time step\<close>

definition be64 :: "nat \<Rightarrow> bytes" where
  "be64 n = map (\<lambda>i. word_of_nat (n div 2 ^ (8 * i))) (rev [0..<8])"

definition read_be32 :: "bytes \<Rightarrow> nat \<Rightarrow> nat option" where
  "read_be32 bs i = (if i + 4 \<le> length bs
     then Some (unat (bs ! i) * 2 ^ 24 + unat (bs ! (i + 1)) * 2 ^ 16 + unat (bs ! (i + 2)) * 2 ^ 8 + unat (bs ! (i + 3)))
     else None)"

definition pad_start :: "nat \<Rightarrow> string \<Rightarrow> string" where
  "pad_start n s = replicate (n - length s) CHR ''0'' @ s"

type_synonym hmac = "bytes \<Rightarrow> bytes \<Rightarrow> bytes"

text \<open>\<open>None\<close> where a read past the digest or a counter past 64 bits throws.\<close>

definition totpAt :: "hmac \<Rightarrow> bytes \<Rightarrow> nat \<Rightarrow> nat \<Rightarrow> string option" where
  "totpAt hmac secret counter digits =
     (if counter \<ge> 2 ^ 64 then None
      else let digest = hmac secret (be64 counter) in
        if digest = [] then None
        else map_option (\<lambda>n. pad_start digits (show_nat (n mod 2 ^ 31 mod 10 ^ digits)))
          (read_be32 digest (unat (last digest AND 15))))"

datatype totp_failure = Totp_malformed | Totp_invalid | Totp_replayed

definition CODE_PATTERN :: "string \<Rightarrow> bool" where
  "CODE_PATTERN s = (length s = 6 \<and> list_all is_digit s)"

text \<open>
  The step of a counter is accepted when its code is the given one.  A counter past 64 bits, which no time of a
  \<open>Date\<close> gives, throws in the code and counts as a step that does not match here.
\<close>

definition step_matches :: "hmac \<Rightarrow> bytes \<Rightarrow> string \<Rightarrow> int \<Rightarrow> bool" where
  "step_matches hmac secret code counter =
     (0 \<le> counter \<and> totpAt hmac secret (nat counter) 6 = Some code)"

text \<open>\<open>window\<close> is 1: the candidates are the current step and its neighbours, the earliest first.\<close>

definition verifyTotp :: "hmac \<Rightarrow> bytes \<Rightarrow> jsval \<Rightarrow> int \<Rightarrow> int \<Rightarrow> totp_failure + int" where
  "verifyTotp hmac secret code now lastCounter =
     (if length secret < 16 \<or> \<not> string_matches CODE_PATTERN code then Inl Totp_malformed
      else let current = now div 30000 in
        case find (step_matches hmac secret (text_of_json code)) [current - 1, current, current + 1] of
          None \<Rightarrow> Inl Totp_invalid
        | Some matched \<Rightarrow> if matched \<le> lastCounter then Inl Totp_replayed else Inr matched)"

section \<open>The failure limit\<close>

record totp_progress =
  tp_lastCounter :: int
  tp_failures :: "int list"
  tp_lockedUntil :: "int option"

definition INITIAL_PROGRESS :: totp_progress where
  "INITIAL_PROGRESS = \<lparr>tp_lastCounter = -1, tp_failures = [], tp_lockedUntil = None\<rparr>"

definition MAX_FAILURES :: nat where
  "MAX_FAILURES = 5"

definition FAILURE_WINDOW_MS :: int where
  "FAILURE_WINDOW_MS = 5 * 60 * 1000"

definition LOCKOUT_MS :: int where
  "LOCKOUT_MS = 15 * 60 * 1000"

datatype check_code = LOCKED | TOTP_INVALID | TOTP_REPLAYED

record operator_check =
  oc_result :: "check_code + int"
  oc_progress :: totp_progress
  oc_lockedNow :: bool

definition locked_at :: "totp_progress \<Rightarrow> int \<Rightarrow> bool" where
  "locked_at progress now = (case tp_lockedUntil progress of Some t \<Rightarrow> now < t | None \<Rightarrow> False)"

definition checkOperatorCode :: "hmac \<Rightarrow> bytes \<Rightarrow> jsval \<Rightarrow> int \<Rightarrow> totp_progress \<Rightarrow> operator_check" where
  "checkOperatorCode hmac secret code now progress =
     (if locked_at progress now
      then \<lparr>oc_result = Inl LOCKED, oc_progress = progress, oc_lockedNow = False\<rparr>
      else case verifyTotp hmac secret code now (tp_lastCounter progress) of
          Inr counter \<Rightarrow> \<lparr>oc_result = Inr counter,
            oc_progress = \<lparr>tp_lastCounter = counter, tp_failures = [], tp_lockedUntil = None\<rparr>, oc_lockedNow = False\<rparr>
        | Inl reason \<Rightarrow>
            let failures = filter (\<lambda>t. now - t \<le> FAILURE_WINDOW_MS) (tp_failures progress) @ [now];
                lockedNow = (length failures \<ge> MAX_FAILURES)
            in \<lparr>oc_result = Inl (if lockedNow then LOCKED else if reason = Totp_replayed then TOTP_REPLAYED else TOTP_INVALID),
                oc_progress = \<lparr>tp_lastCounter = tp_lastCounter progress, tp_failures = failures,
                  tp_lockedUntil = (if lockedNow then Some (now + LOCKOUT_MS) else None)\<rparr>,
                oc_lockedNow = lockedNow\<rparr>)"

end
