(* ===== verification/Authority_Ledger.thy ===== *)
theory Authority_Ledger
  imports Authority_Envelope Authority_Totp
begin

text \<open>
  The ledger of the approval authority and the view derived from it: the events
  (\<open>src/lib/authority/authority-service.js\<close>, calls of \<open>record\<close>), the append-only file
  (\<open>ledger-store.js\<close>), the approvals folded from it (\<open>approval-view.js\<close>), quorum progress
  (\<open>quorum-progress.js\<close>) and the validation of a registration (\<open>approval-registration.js\<close>).  The
  bodies of the events are records; \<open>event_json\<close> is their form on disk, which the hash covers.
\<close>

section \<open>Events\<close>

datatype authority_decision = Decision_approved | Decision_rejected

fun decision_name :: "authority_decision \<Rightarrow> string" where
  "decision_name Decision_approved = ''approved''"
| "decision_name Decision_rejected = ''rejected''"

record registration =
  rg_approvalId :: string
  rg_workspaceId :: string
  rg_tool :: string
  rg_arguments :: jsval
  rg_actionHash :: string
  rg_consumeProofHash :: string
  rg_summary :: string
  rg_expiresAt :: string
  rg_requesterId :: "string option"
  rg_eligible :: "jsval list option"

record vote =
  vt_workspaceId :: string
  vt_tool :: string
  vt_actionHash :: string
  vt_operatorId :: string
  vt_decision :: authority_decision
  vt_reason :: string
  vt_votedAt :: string
  vt_quorumRequired :: nat
  vt_authMethod :: identity_source
  vt_fingerprint :: "(int \<times> string) option"

record decided =
  dd_actionHash :: string
  dd_decision :: authority_decision
  dd_reason :: string
  dd_operator :: string
  dd_operatorId :: "string option"
  dd_approverIds :: "string list option"
  dd_quorumRequired :: "nat option"
  dd_fingerprint :: "(int \<times> string) option"
  dd_decidedAt :: string
  dd_validUntil :: string

record withdrawal =
  wd_actionHash :: string
  wd_reason :: string
  wd_operator :: string
  wd_operatorId :: "string option"
  wd_withdrawnAt :: string

record outcome =
  ot_status :: string
  ot_receiptId :: string
  ot_receiptHash :: jsval

datatype authority_event =
    Registered registration
  | Voted string vote
  | Decided string decided
  | Withdrawn string withdrawal
  | Consumed string string
  | Outcome string outcome
  | Vote_denied string jsfields
  | Totp_failed string string
  | Totp_lockout string
  | Stopped jsfields

fun identity_source_name :: "identity_source \<Rightarrow> string" where
  "identity_source_name Legacy_totp = ''legacy_totp''"
| "identity_source_name Api_key = ''api_key''"

definition optional_field :: "string \<Rightarrow> jsval option \<Rightarrow> jsfields" where
  "optional_field k v = (case v of Some x \<Rightarrow> [(k, x)] | None \<Rightarrow> [])"

definition fingerprint_fields :: "(int \<times> string) option \<Rightarrow> jsfields" where
  "fingerprint_fields f = (case f of
     Some (v, h) \<Rightarrow> [(''policyVersion'', JNum (of_int v)), (''policyHash'', JStr h)] | None \<Rightarrow> [])"

definition registration_fields :: "registration \<Rightarrow> jsfields" where
  "registration_fields r = [(''approvalId'', JStr (rg_approvalId r)), (''workspaceId'', JStr (rg_workspaceId r)),
     (''tool'', JStr (rg_tool r)), (''arguments'', rg_arguments r), (''actionHash'', JStr (rg_actionHash r)),
     (''consumeProofHash'', JStr (rg_consumeProofHash r)), (''summary'', JStr (rg_summary r)),
     (''expiresAt'', JStr (rg_expiresAt r))]
     @ optional_field ''requesterId'' (map_option JStr (rg_requesterId r))
     @ optional_field ''eligibleApprovers'' (map_option JArr (rg_eligible r))"

definition vote_fields :: "string \<Rightarrow> vote \<Rightarrow> jsfields" where
  "vote_fields i v = [(''approvalId'', JStr i), (''workspaceId'', JStr (vt_workspaceId v)), (''tool'', JStr (vt_tool v)),
     (''actionHash'', JStr (vt_actionHash v)), (''operatorId'', JStr (vt_operatorId v)),
     (''decision'', JStr (decision_name (vt_decision v))), (''reason'', JStr (vt_reason v)),
     (''votedAt'', JStr (vt_votedAt v)), (''quorumRequired'', JNum (of_nat (vt_quorumRequired v))),
     (''authMethod'', JStr (identity_source_name (vt_authMethod v)))] @ fingerprint_fields (vt_fingerprint v)"

definition decided_fields :: "string \<Rightarrow> decided \<Rightarrow> jsfields" where
  "decided_fields i d = [(''approvalId'', JStr i), (''actionHash'', JStr (dd_actionHash d)),
     (''decision'', JStr (decision_name (dd_decision d))), (''reason'', JStr (dd_reason d)),
     (''operator'', JStr (dd_operator d)), (''decidedAt'', JStr (dd_decidedAt d)), (''validUntil'', JStr (dd_validUntil d))]
     @ optional_field ''operatorId'' (map_option JStr (dd_operatorId d))
     @ optional_field ''approverIds'' (map_option (\<lambda>ids. JArr (map JStr ids)) (dd_approverIds d))
     @ optional_field ''quorumRequired'' (map_option (\<lambda>n. JNum (of_nat n)) (dd_quorumRequired d))
     @ fingerprint_fields (dd_fingerprint d)"

definition withdrawal_fields :: "string \<Rightarrow> withdrawal \<Rightarrow> jsfields" where
  "withdrawal_fields i x = [(''approvalId'', JStr i), (''actionHash'', JStr (wd_actionHash x)),
     (''reason'', JStr (wd_reason x)), (''operator'', JStr (wd_operator x))]
     @ optional_field ''operatorId'' (map_option JStr (wd_operatorId x)) @ [(''withdrawnAt'', JStr (wd_withdrawnAt x))]"

definition outcome_fields :: "string \<Rightarrow> outcome \<Rightarrow> jsfields" where
  "outcome_fields i x = [(''approvalId'', JStr i), (''status'', JStr (ot_status x)),
     (''receiptId'', JStr (ot_receiptId x)), (''receiptHash'', ot_receiptHash x)]"

fun event_json :: "authority_event \<Rightarrow> string \<times> jsval" where
  "event_json (Registered r) = (''approval.registered'', JObj (registration_fields r))"
| "event_json (Voted i v) = (''approval.vote'', JObj (vote_fields i v))"
| "event_json (Decided i d) = (''approval.decided'', JObj (decided_fields i d))"
| "event_json (Withdrawn i x) = (''approval.withdrawn'', JObj (withdrawal_fields i x))"
| "event_json (Consumed i h) = (''approval.consumed'', JObj [(''approvalId'', JStr i), (''actionHash'', JStr h)])"
| "event_json (Outcome i x) = (''approval.outcome'', JObj (outcome_fields i x))"
| "event_json (Vote_denied i fs) = (''approval.vote_denied'', JObj ((''approvalId'', JStr i) # fs))"
| "event_json (Totp_failed i code) = (''totp.failed'', JObj [(''approvalId'', JStr i), (''code'', JStr code)])"
| "event_json (Totp_lockout t) = (''totp.lockout'', JObj [(''lockedUntil'', JStr t)])"
| "event_json (Stopped fs) = (''emergency.stopped'', JObj fs)"

section \<open>The ledger file\<close>

definition LEDGER_GENESIS :: string where
  "LEDGER_GENESIS = ''huqan.authority.ledger.v1''"

definition MAX_PAGE :: int where
  "MAX_PAGE = 500"

record authority_entry =
  ae_seq :: nat
  ae_at :: string
  ae_event :: authority_event
  ae_previous :: string
  ae_hash :: string

definition entry_head :: "nat \<Rightarrow> string \<Rightarrow> authority_event \<Rightarrow> jsval" where
  "entry_head n t ev = JObj [(''seq'', JNum (of_nat n)), (''type'', JStr (fst (event_json ev))),
     (''at'', JStr t), (''body'', snd (event_json ev))]"

definition authority_entry_json :: "authority_entry \<Rightarrow> jsval" where
  "authority_entry_json e = JObj (own_fields (entry_head (ae_seq e) (ae_at e) (ae_event e))
     @ [(''previousReceiptHash'', JStr (ae_previous e)), (''receiptHash'', JStr (ae_hash e))])"

datatype ledger_fault = Unparseable_line | Chain_fault "chain_reason option" | Sequence_gap | Append_failed

text \<open>
  The lines on disk (\<open>None\<close>: one that does not parse), whether the last of them is a whole entry that
  still lacks its newline, the entries in memory, and the fault.
\<close>

record authority_ledger =
  al_lines :: "authority_entry option list"
  al_unended :: bool
  al_records :: "authority_entry list"
  al_corrupt :: "(nat \<times> ledger_fault) option"

fun parsed_lines :: "nat \<Rightarrow> authority_entry option list \<Rightarrow> authority_entry list \<times> (nat \<times> ledger_fault) option" where
  "parsed_lines i [] = ([], None)"
| "parsed_lines i (None # ls) = ([], Some (i, Unparseable_line))"
| "parsed_lines i (Some e # ls) = (case parsed_lines (Suc i) ls of (es, c) \<Rightarrow> (e # es, c))"

fun misnumbered :: "nat \<Rightarrow> authority_entry list \<Rightarrow> nat option" where
  "misnumbered i [] = None"
| "misnumbered i (e # es) = (if ae_seq e \<noteq> i then Some i else misnumbered (Suc i) es)"

definition readLines :: "js_env \<Rightarrow> authority_entry option list
    \<Rightarrow> authority_entry list \<times> (nat \<times> ledger_fault) option" where
  "readLines env ls = (case parsed_lines 0 ls of
       (es, Some c) \<Rightarrow> (es, Some c)
     | (es, None) \<Rightarrow> (case validateChain env (JArr (map authority_entry_json es)) (strict_eq (JStr LEDGER_GENESIS)) of
           Inl err \<Rightarrow> (es, Some (0, Chain_fault None))
         | Inr v \<Rightarrow>
             if \<not> cv_valid v then (es, Some (case cv_brokenAt v of Some n \<Rightarrow> n | None \<Rightarrow> 0, Chain_fault (cv_reason v)))
             else (es, map_option (\<lambda>n. (n, Sequence_gap)) (misnumbered 0 es))))"

text \<open>A missing newline goes unnoticed: the split of the file gives the same lines with it and without.\<close>

definition openLedgerStore :: "js_env \<Rightarrow> authority_entry option list \<Rightarrow> bool \<Rightarrow> authority_ledger" where
  "openLedgerStore env ls unended = (case readLines env ls of
     (es, c) \<Rightarrow> \<lparr>al_lines = ls, al_unended = unended, al_records = es, al_corrupt = c\<rparr>)"

definition ledger_head :: "authority_ledger \<Rightarrow> int \<times> string" where
  "ledger_head l = (if al_records l = [] then (-1, LEDGER_GENESIS)
     else (int (ae_seq (last (al_records l))), ae_hash (last (al_records l))))"

text \<open>
  What a failing append leaves on disk: nothing, part of the entry, the whole entry without the newline
  that ends its line, or the whole line when only the \<open>fsync\<close> failed.
\<close>

datatype append_outcome = Append_durable | Append_lost | Append_torn | Append_unended | Append_unconfirmed

text \<open>
  The lines after some bytes were written: a line of their own, or more of the last line where that one
  has no newline, and two entries on one line do not parse.
\<close>

definition written_line :: "authority_entry option \<Rightarrow> authority_ledger \<Rightarrow> authority_entry option list" where
  "written_line x l = (if al_unended l then butlast (al_lines l) @ [None] else al_lines l @ [x])"

definition next_entry :: "js_env \<Rightarrow> authority_event \<Rightarrow> string \<Rightarrow> authority_ledger \<Rightarrow> authority_entry" where
  "next_entry env ev t l = (let (n, hash) = ledger_head l; k = nat (n + 1) in
     \<lparr>ae_seq = k, ae_at = t, ae_event = ev, ae_previous = hash,
      ae_hash = (case appendToChain env True (entry_head k t ev) (JStr hash) of
        Inl err \<Rightarrow> [] | Inr r \<Rightarrow> text_of_json (jget r ''receiptHash''))\<rparr>)"

definition ledger_append_event :: "js_env \<Rightarrow> authority_event \<Rightarrow> string \<Rightarrow> append_outcome \<Rightarrow> authority_ledger
    \<Rightarrow> authority_entry option \<times> authority_ledger" where
  "ledger_append_event env ev t result l =
     (if al_corrupt l \<noteq> None then (None, l)
      else let e = next_entry env ev t l;
               bad = l\<lparr>al_corrupt := Some (ae_seq e, Append_failed)\<rparr> in
        case result of
          Append_durable \<Rightarrow> (Some e, l\<lparr>al_lines := written_line (Some e) l, al_unended := False,
             al_records := al_records l @ [e]\<rparr>)
        | Append_lost \<Rightarrow> (None, bad)
        | Append_torn \<Rightarrow> (None, bad\<lparr>al_lines := written_line None l, al_unended := False\<rparr>)
        | Append_unended \<Rightarrow> (None, bad\<lparr>al_lines := written_line (Some e) l, al_unended := \<not> al_unended l\<rparr>)
        | Append_unconfirmed \<Rightarrow> (None, bad\<lparr>al_lines := written_line (Some e) l, al_unended := False\<rparr>))"

definition integer_or :: "int \<Rightarrow> jsval \<Rightarrow> int" where
  "integer_or n v = (if is_integer v then \<lfloor>num_of v\<rfloor> else n)"

definition ledger_page :: "jsval \<Rightarrow> jsval \<Rightarrow> authority_ledger \<Rightarrow> authority_entry list" where
  "ledger_page fromSeq limit l = (let start = max 0 (integer_or 0 fromSeq);
       size = min MAX_PAGE (max 1 (integer_or MAX_PAGE limit)) in
     take (nat size) (drop (nat start) (al_records l)))"

section \<open>The view\<close>

datatype approval_status = Approval_pending | Approval_approved | Approval_rejected | Approval_withdrawn

fun status_of_decision :: "authority_decision \<Rightarrow> approval_status" where
  "status_of_decision Decision_approved = Approval_approved"
| "status_of_decision Decision_rejected = Approval_rejected"

type_synonym ledger_ref = "nat \<times> string"

record approval =
  ap_reg :: registration
  ap_registeredAt :: string
  ap_status :: approval_status
  ap_decision :: "(decided \<times> ledger_ref) option"
  ap_votes :: "(vote \<times> ledger_ref) list"
  ap_withdrawn :: "(withdrawal \<times> ledger_ref) option"
  ap_consumed :: "(string \<times> ledger_ref) option"
  ap_outcome :: "(outcome \<times> string) option"

type_synonym approvals = "(string \<times> approval) list"

definition registered :: "registration \<Rightarrow> string \<Rightarrow> approval" where
  "registered r t = \<lparr>ap_reg = r, ap_registeredAt = t, ap_status = Approval_pending, ap_decision = None,
     ap_votes = [], ap_withdrawn = None, ap_consumed = None, ap_outcome = None\<rparr>"

definition entry_ref :: "authority_entry \<Rightarrow> ledger_ref" where
  "entry_ref e = (ae_seq e, ae_hash e)"

text \<open>Entries that name no known approval change nothing; a registration never replaces one.\<close>

definition update_approval :: "string \<Rightarrow> (approval \<Rightarrow> approval) \<Rightarrow> approvals \<Rightarrow> approvals" where
  "update_approval i f v = (case map_of v i of Some a \<Rightarrow> alist_put i (f a) v | None \<Rightarrow> v)"

definition apply_entry :: "approvals \<Rightarrow> authority_entry \<Rightarrow> approvals" where
  "apply_entry v e = (case ae_event e of
       Registered r \<Rightarrow> if map_of v (rg_approvalId r) \<noteq> None then v
         else alist_put (rg_approvalId r) (registered r (ae_at e)) v
     | Voted i x \<Rightarrow> update_approval i (\<lambda>a. a\<lparr>ap_votes := ap_votes a @ [(x, entry_ref e)]\<rparr>) v
     | Decided i d \<Rightarrow> update_approval i (\<lambda>a. a\<lparr>ap_status := status_of_decision (dd_decision d),
         ap_decision := Some (d, entry_ref e)\<rparr>) v
     | Withdrawn i x \<Rightarrow> update_approval i (\<lambda>a. a\<lparr>ap_status := Approval_withdrawn,
         ap_withdrawn := Some (x, entry_ref e)\<rparr>) v
     | Consumed i h \<Rightarrow> update_approval i (\<lambda>a. a\<lparr>ap_consumed := Some (ae_at e, entry_ref e)\<rparr>) v
     | Outcome i x \<Rightarrow> update_approval i (\<lambda>a. a\<lparr>ap_outcome := Some (x, ae_at e)\<rparr>) v
     | _ \<Rightarrow> v)"

definition createApprovalView :: "authority_entry list \<Rightarrow> approvals" where
  "createApprovalView es = foldl apply_entry [] es"

section \<open>Quorum progress\<close>

definition first_occurrences :: "'a list \<Rightarrow> 'a list" where
  "first_occurrences xs = rev (remdups (rev xs))"

definition approved_voters :: "vote list \<Rightarrow> string list" where
  "approved_voters votes = first_occurrences (map vt_operatorId (filter (\<lambda>v. vt_decision v = Decision_approved) votes))"

definition quorumProgress :: "vote list \<Rightarrow> jsval list option \<Rightarrow> string list" where
  "quorumProgress votes eligible = (case eligible of
       None \<Rightarrow> approved_voters votes
     | Some ids \<Rightarrow> map text_of_json (filter (\<lambda>i. i \<in> JStr ` set (approved_voters votes)) ids))"

record completed_quorum =
  cq_decision :: authority_decision
  cq_finalVote :: vote
  cq_approverIds :: "string list"

definition completedQuorum :: "vote list \<Rightarrow> nat \<Rightarrow> jsval list option \<Rightarrow> completed_quorum option" where
  "completedQuorum votes quorumRequired eligible =
     (if (case eligible of Some ids \<Rightarrow> ids \<noteq> [] \<and> length ids < quorumRequired | None \<Rightarrow> False) then None
      else let veto = find (\<lambda>v. vt_decision v = Decision_rejected) (rev votes);
               ids = quorumProgress votes eligible in
        case veto of
          Some v \<Rightarrow> Some \<lparr>cq_decision = Decision_rejected, cq_finalVote = v, cq_approverIds = ids\<rparr>
        | None \<Rightarrow> if length ids < quorumRequired then None
            else map_option (\<lambda>v. \<lparr>cq_decision = Decision_approved, cq_finalVote = v, cq_approverIds = ids\<rparr>)
              (find (\<lambda>v. vt_decision v = Decision_approved) (rev votes)))"

definition voteFingerprint :: "vote \<Rightarrow> (int \<times> string) option \<Rightarrow> (int \<times> string) option" where
  "voteFingerprint v fallback = (case vt_fingerprint v of Some f \<Rightarrow> Some f | None \<Rightarrow> fallback)"

definition plain_votes :: "approval \<Rightarrow> vote list" where
  "plain_votes a = map fst (ap_votes a)"

definition quorumExtra :: "rbac \<Rightarrow> approval \<Rightarrow> jsfields" where
  "quorumExtra policy a = (let required = quorumRequiredFor policy (rg_tool (ap_reg a)) in
     if required \<le> 1 then []
     else let ids = quorumProgress (plain_votes a) (rg_eligible (ap_reg a)) in
       (''quorum'', JObj [(''required'', JNum (of_nat required)), (''received'', JNum (of_nat (length ids))),
          (''approverIds'', JArr (map JStr ids))])
       # (case rg_eligible (ap_reg a) of
            None \<Rightarrow> []
          | Some el \<Rightarrow> (case eligibleVotersRemaining policy (map text_of_json (filter is_string el)) ids of
                None \<Rightarrow> []
              | Some rest \<Rightarrow> [(''eligibleVotersRemaining'', JNum (of_nat (length rest)))])))"

section \<open>Registrations\<close>

definition APPROVAL_ID :: "string \<Rightarrow> bool" where
  "APPROVAL_ID s = (1 \<le> length s \<and> length s \<le> 128 \<and> list_all (\<lambda>c. is_base64url c \<or> c \<in> set ''.:'') s)"

datatype registration_refusal = Reg_invalid string | Reg_expired | Reg_hash_mismatch

definition MAX_APPROVAL_LIFETIME_MS :: int where
  "MAX_APPROVAL_LIFETIME_MS = 30 * 24 * 60 * 60 * 1000"

definition MIN_APPROVAL_LIFETIME_MS :: int where
  "MIN_APPROVAL_LIFETIME_MS = 5 * 60 * 1000"

fun repeats_element :: "jsval list \<Rightarrow> bool" where
  "repeats_element [] = False"
| "repeats_element (x # xs) = (list_ex (strict_eq x) xs \<or> repeats_element xs)"

definition eligible_ok :: "js_env \<Rightarrow> jsval \<Rightarrow> bool" where
  "eligible_ok env v = (is_array v \<and> 1 \<le> length (array_elements v) \<and> length (array_elements v) \<le> MAX_QUORUM
     \<and> list_all (\<lambda>i. OPERATOR_ID (js_string env i)) (array_elements v) \<and> \<not> repeats_element (array_elements v))"

definition registration_of :: "jsval \<Rightarrow> registration" where
  "registration_of input = \<lparr>rg_approvalId = text_of_json (jget input ''approvalId''),
     rg_workspaceId = text_of_json (jget input ''workspaceId''), rg_tool = text_of_json (jget input ''tool''),
     rg_arguments = jget input ''arguments'', rg_actionHash = text_of_json (jget input ''actionHash''),
     rg_consumeProofHash = text_of_json (jget input ''consumeProofHash''),
     rg_summary = text_of_json (jget input ''summary''), rg_expiresAt = text_of_json (jget input ''expiresAt''),
     rg_requesterId = operator_or_none (jget input ''requesterId''),
     rg_eligible = (if jget input ''eligibleApprovers'' = JUndefined then None
       else Some (array_elements (jget input ''eligibleApprovers'')))\<rparr>"

definition validateRegistration :: "js_env \<Rightarrow> jsval \<Rightarrow> int \<Rightarrow> registration_refusal + registration" where
  "validateRegistration env input now = (let f = jget input; ok = (\<lambda>b r. guard_result b (Reg_invalid r)) in
     bind_result (ok (string_matches APPROVAL_ID (f ''approvalId'')) ''approvalId'') (\<lambda>_.
     bind_result (ok (bounded_text False (f ''workspaceId'')) ''workspaceId'') (\<lambda>_.
     bind_result (ok (bounded_text False (f ''tool'')) ''tool'') (\<lambda>_.
     bind_result (ok (f ''requesterId'' = JUndefined \<or> bounded_text False (f ''requesterId'')) ''requesterId'') (\<lambda>_.
     bind_result (ok (bounded_text True (f ''summary'')) ''summary'') (\<lambda>_.
     bind_result (ok (string_matches SHA256_HEX (f ''consumeProofHash'')) ''consumeProofHash'') (\<lambda>_.
     bind_result (ok (isPlainObject (f ''arguments'')) ''arguments'') (\<lambda>_.
     bind_result (ok (utf8_length (the (stringify env (f ''arguments''))) \<le> 16 * 1024) ''arguments too large'') (\<lambda>_.
       (case iso_instant env (f ''expiresAt'') of
          None \<Rightarrow> Inl (Reg_invalid ''expiresAt'')
        | Some expiry \<Rightarrow>
            if expiry \<le> now then Inl Reg_expired
            else if expiry - now > MAX_APPROVAL_LIFETIME_MS then Inl (Reg_invalid ''expiresAt too far'')
            else if expiry - now < MIN_APPROVAL_LIFETIME_MS then Inl (Reg_invalid ''expiresAt too soon'')
            else if f ''eligibleApprovers'' \<noteq> JUndefined \<and> \<not> eligible_ok env (f ''eligibleApprovers'')
              then Inl (Reg_invalid ''eligibleApprovers'')
            else (case canonicalActionHash env (f ''tool'') (f ''workspaceId'') (f ''approvalId'') (f ''arguments'') of
                None \<Rightarrow> Inl (Reg_invalid ''action binding'')
              | Some hash \<Rightarrow> if f ''actionHash'' \<noteq> JStr hash then Inl Reg_hash_mismatch
                  else Inr (registration_of input))))))))))))"

end
