(* ===== verification/Authority_Service.thy ===== *)
theory Authority_Service
  imports Authority_Ledger
begin

text \<open>
  The approval authority service (\<open>src/lib/authority/authority-service.js\<close>) with the requests the operator
  seals for it (\<open>sealed-request.js\<close>), its input checks (\<open>authority-inputs.js\<close>) and the anchor of its
  ledger (\<open>anchor-statement.js\<close>).

  A request is a step on a session: the service, the clock readings still to come, the outcomes of the
  appends still to come, and whether the progress of the one-time codes can be saved.  A step may leave
  early with an answer, or throw; what it did to the service before stays.  A crash in the middle of a
  request is a failing append or a failing save followed by a restart, since nothing else is durable.
  Human-readable messages are left out of the answers.
\<close>

section \<open>Sealed requests\<close>

definition SEALED_REQUEST_VERSION :: string where
  "SEALED_REQUEST_VERSION = ''huqan.authority.sealed.v1''"

record operator_request =
  oq_approvalId :: string
  oq_actionHash :: jsval
  oq_decision :: string
  oq_reason :: string
  oq_totp :: jsval

definition assertRequest :: "js_env \<Rightarrow> jsval \<Rightarrow> bool \<Rightarrow> operator_request option" where
  "assertRequest env r requireTotp = (let f = jget r in
     if \<not> string_matches (\<lambda>s. s \<noteq> [] \<and> length s \<le> 512) (f ''approvalId'') then None
     else if \<not> hex64_or_empty env (f ''actionHash'') then None
     else if \<not> string_matches (\<lambda>s. s \<in> {''approved'', ''rejected'', ''withdrawn''}) (f ''decision'') then None
     else if \<not> string_matches (\<lambda>s. length s \<le> 512) (f ''reason'') then None
     else if \<not> (string_matches CODE_PATTERN (f ''totp'') \<or> \<not> requireTotp \<and> f ''totp'' = JNull) then None
     else Some \<lparr>oq_approvalId = text_of_json (f ''approvalId''), oq_actionHash = f ''actionHash'',
       oq_decision = text_of_json (f ''decision''), oq_reason = text_of_json (f ''reason''), oq_totp = f ''totp''\<rparr>)"

definition decodes_to :: "nat \<Rightarrow> jsval \<Rightarrow> bool" where
  "decodes_to n v = string_matches (\<lambda>s. s \<noteq> [] \<and> list_all is_base64url s \<and> length (from_base64 s) = n) v"

definition decodes_to_some :: "jsval \<Rightarrow> bool" where
  "decodes_to_some v = string_matches (\<lambda>s. s \<noteq> [] \<and> list_all is_base64url s \<and> from_base64 s \<noteq> []) v"

definition sealed_well_formed :: "jsval \<Rightarrow> bool" where
  "sealed_well_formed x = (is_object x \<and> jget x ''v'' = JStr SEALED_REQUEST_VERSION \<and> is_string (jget x ''approvalId'')
     \<and> decodes_to 32 (jget x ''epk'') \<and> decodes_to 12 (jget x ''nonce'') \<and> decodes_to 16 (jget x ''tag'')
     \<and> decodes_to_some (jget x ''ct''))"

datatype open_code = Open_malformed | Open_binding_mismatch | Open_unsealable

text \<open>
  \<open>unseal\<close> is the key agreement and decryption of the platform followed by \<open>JSON.parse\<close>; \<open>None\<close> where
  either throws.
\<close>

definition openDecisionRequest :: "js_env \<Rightarrow> (jsval \<Rightarrow> jsval option) \<Rightarrow> jsval \<Rightarrow> string \<Rightarrow> bool
    \<Rightarrow> open_code + operator_request" where
  "openDecisionRequest env unseal x approvalId requireTotp =
     (if \<not> sealed_well_formed x then Inl Open_malformed
      else if jget x ''approvalId'' \<noteq> JStr approvalId then Inl Open_binding_mismatch
      else case unseal x of
          None \<Rightarrow> Inl Open_unsealable
        | Some plain \<Rightarrow> (case assertRequest env plain requireTotp of
              None \<Rightarrow> Inl Open_unsealable
            | Some r \<Rightarrow> if oq_approvalId r \<noteq> approvalId then Inl Open_binding_mismatch else Inr r))"

section \<open>Inputs\<close>

definition proves :: "js_env \<Rightarrow> jsval \<Rightarrow> string \<Rightarrow> bool" where
  "proves env proof hash = (string_matches (\<lambda>s. 32 \<le> length s \<and> length s \<le> 256) proof \<and> SHA256_HEX hash
     \<and> sha256_hex env (text_of_json proof) = hash)"

definition is_control :: "char \<Rightarrow> bool" where
  "is_control c = (let n = of_char c :: nat in n < 32 \<or> n = 127)"

definition bounded_input :: "jsval \<Rightarrow> nat \<Rightarrow> bool \<Rightarrow> bool" where
  "bounded_input v m required = string_matches (\<lambda>s. length s \<le> m \<and> \<not> list_ex is_control s \<and> (\<not> required \<or> trim s \<noteq> [])) v"

definition STOP_FIELDS :: "string list" where
  "STOP_FIELDS = [''workspaceId'', ''scope'', ''agentId'', ''reason'', ''actor'', ''localSeq'', ''localHash'', ''stoppedAt'']"

definition validateStop :: "js_env \<Rightarrow> jsval \<Rightarrow> jsfields option" where
  "validateStop env input = (let f = jget input in
     if bounded_input (f ''workspaceId'') 128 True \<and> f ''scope'' \<in> {JStr ''agent'', JStr ''workspace''}
        \<and> (if f ''scope'' = JStr ''agent'' then bounded_input (f ''agentId'') 256 True else f ''agentId'' = JNull)
        \<and> bounded_input (f ''reason'') 256 False \<and> bounded_input (f ''actor'') 64 True
        \<and> natural_number (f ''localSeq'') \<and> hex64_or_empty env (f ''localHash'')
        \<and> bounded_input (f ''stoppedAt'') 40 True \<and> date_parse env (text_of_json (f ''stoppedAt'')) \<noteq> None
     then Some (map (\<lambda>k. (k, f k)) STOP_FIELDS) else None)"

section \<open>The anchor of the ledger\<close>

definition anchorStatement :: "int \<times> string \<Rightarrow> string option" where
  "anchorStatement h = (if fst h < 0 \<or> \<not> SHA256_HEX (snd h) then None
     else Some (''{\"v\":\"huqan.authority.anchor.v1\",\"seq\":'' @ show_nat (nat (fst h)) @ '',\"hash\":\"'' @ snd h @ ''\"}''))"

definition signAnchor :: "js_env \<Rightarrow> int \<times> string \<Rightarrow> (string \<Rightarrow> string) \<Rightarrow> jsval option" where
  "signAnchor env h sign = map_option (\<lambda>s. JObj [(''seq'', JNum (of_int (fst h))), (''hash'', JStr (snd h)),
     (''statement'', JStr s), (''digest'', JStr (sha256_hex env s)), (''signature'', JStr (sign s))]) (anchorStatement h)"

section \<open>The service\<close>

definition DECISION_TTL_MS :: int where
  "DECISION_TTL_MS = 10 * 60 * 1000"

definition MAX_PENDING :: nat where
  "MAX_PENDING = 500"

definition MAX_ATTEMPTS_PER_MINUTE :: nat where
  "MAX_ATTEMPTS_PER_MINUTE = 60"

definition MAX_REGISTRATIONS_PER_DAY :: nat where
  "MAX_REGISTRATIONS_PER_DAY = 1000"

definition MINUTE_MS :: int where
  "MINUTE_MS = 60 * 1000"

definition DAY_MS :: int where
  "DAY_MS = 24 * 60 * MINUTE_MS"

definition OPERATOR :: string where
  "OPERATOR = ''totp:primary''"

text \<open>The keys, the policy and the platform; \<open>cf_anchor\<close> is \<open>None\<close> in a state without an anchor key.\<close>

record service_config =
  cf_env :: js_env
  cf_hmac :: hmac
  cf_scrypt :: scrypt
  cf_unseal :: "jsval \<Rightarrow> jsval option"
  cf_rbac :: rbac
  cf_operatorId :: jsval
  cf_secret :: bytes
  cf_key :: signing_key
  cf_sealing :: string
  cf_anchor :: "(string \<Rightarrow> string) option"

record service =
  sv_ledger :: authority_ledger
  sv_view :: approvals
  sv_attempts :: "int list"
  sv_operatorAttempts :: "int list"
  sv_stopAttempts :: "int list"
  sv_registeredTimes :: "int list"
  sv_stops :: "(jsval \<times> authority_entry) list"
  sv_totp :: totp_progress

record session =
  sn_service :: service
  sn_clock :: "nat \<Rightarrow> int"
  sn_appends :: "nat \<Rightarrow> append_outcome"
  sn_saves :: bool

fun stop_entry :: "authority_entry \<Rightarrow> (jsval \<times> authority_entry) list" where
  "stop_entry e = (case ae_event e of Stopped fs \<Rightarrow> [(field fs ''localHash'', e)] | _ \<Rightarrow> [])"

text \<open>The start, on the lines of the ledger file and the stored progress of the one-time codes.\<close>

definition createAuthorityService :: "js_env \<Rightarrow> authority_entry option list \<Rightarrow> bool \<Rightarrow> totp_progress \<Rightarrow> service" where
  "createAuthorityService env ls unended progress = (let l = openLedgerStore env ls unended; v = createApprovalView (al_records l) in
     \<lparr>sv_ledger = l, sv_view = v, sv_attempts = [], sv_operatorAttempts = [], sv_stopAttempts = [],
      sv_registeredTimes = sort (List.map_filter (\<lambda>a. date_parse env (ap_registeredAt (snd a))) v),
      sv_stops = foldl (\<lambda>m p. alist_put (fst p) (snd p) m) [] (concat (map stop_entry (al_records l))),
      sv_totp = progress\<rparr>)"

section \<open>Steps of a request\<close>

datatype exit = Answered nat jsval | Thrown

type_synonym 'a request_step = "session \<Rightarrow> (exit + 'a) \<times> session"

definition return :: "'a \<Rightarrow> 'a request_step" where
  "return x = (\<lambda>s. (Inr x, s))"

definition leave :: "exit \<Rightarrow> 'a request_step" where
  "leave e = (\<lambda>s. (Inl e, s))"

definition andThen :: "'a request_step \<Rightarrow> ('a \<Rightarrow> 'b request_step) \<Rightarrow> 'b request_step" where
  "andThen m f = (\<lambda>s. case m s of (Inl e, s') \<Rightarrow> (Inl e, s') | (Inr x, s') \<Rightarrow> f x s')"

definition reading :: "(service \<Rightarrow> 'a) \<Rightarrow> 'a request_step" where
  "reading g = (\<lambda>s. (Inr (g (sn_service s)), s))"

definition changing :: "(service \<Rightarrow> service) \<Rightarrow> unit request_step" where
  "changing g = (\<lambda>s. (Inr (), s\<lparr>sn_service := g (sn_service s)\<rparr>))"

definition now :: "int request_step" where
  "now = (\<lambda>s. (Inr (sn_clock s 0), s\<lparr>sn_clock := (\<lambda>n. sn_clock s (Suc n))\<rparr>))"

definition reply :: "nat \<Rightarrow> jsfields \<Rightarrow> exit" where
  "reply status body = Answered status (JObj body)"

definition refuse :: "nat \<Rightarrow> string \<Rightarrow> jsfields \<Rightarrow> 'a request_step" where
  "refuse status code extra = leave (reply status ((''code'', JStr code) # extra))"

definition or_throw :: "'a option \<Rightarrow> 'a request_step" where
  "or_throw x = (case x of Some y \<Rightarrow> return y | None \<Rightarrow> leave Thrown)"

definition append_step :: "js_env \<Rightarrow> authority_event \<Rightarrow> string \<Rightarrow> authority_entry request_step" where
  "append_step env ev t = (\<lambda>s. let v = sn_service s in
     case ledger_append_event env ev t (sn_appends s 0) (sv_ledger v) of
       (r, l) \<Rightarrow> (case r of Some e \<Rightarrow> Inr e | None \<Rightarrow> Inl Thrown,
         s\<lparr>sn_service := v\<lparr>sv_ledger := l\<rparr>, sn_appends := (\<lambda>n. sn_appends s (Suc n))\<rparr>))"

definition record_event :: "service_config \<Rightarrow> authority_event \<Rightarrow> authority_entry request_step" where
  "record_event cf ev =
     andThen now (\<lambda>t.
     andThen (append_step (cf_env cf) ev (iso_at (cf_env cf) t)) (\<lambda>e.
     andThen (changing (\<lambda>v. v\<lparr>sv_view := apply_entry (sv_view v) e\<rparr>)) (\<lambda>_. return e)))"

text \<open>The end of a request: its answer, and the service after it.\<close>

definition served :: "exit request_step \<Rightarrow> session \<Rightarrow> exit \<times> service" where
  "served m s = (case m s of (Inl e, s') \<Rightarrow> (e, sn_service s') | (Inr e, s') \<Rightarrow> (e, sn_service s'))"

section \<open>Answers\<close>

fun approval_status_name :: "approval_status \<Rightarrow> string" where
  "approval_status_name Approval_pending = ''pending''"
| "approval_status_name Approval_approved = ''approved''"
| "approval_status_name Approval_rejected = ''rejected''"
| "approval_status_name Approval_withdrawn = ''withdrawn''"

definition ref_fields :: "ledger_ref \<Rightarrow> jsfields" where
  "ref_fields r = [(''ledgerSeq'', JNum (of_nat (fst r))), (''ledgerHash'', JStr (snd r))]"

definition ap_id :: "approval \<Rightarrow> string" where
  "ap_id a = rg_approvalId (ap_reg a)"

definition ref_object :: "jsfields \<times> ledger_ref \<Rightarrow> jsval" where
  "ref_object p = JObj (fst p @ ref_fields (snd p))"

definition approval_fields :: "approval \<Rightarrow> jsfields" where
  "approval_fields a = registration_fields (ap_reg a)
     @ [(''registeredAt'', JStr (ap_registeredAt a)), (''status'', JStr (approval_status_name (ap_status a))),
        (''decision'', case ap_decision a of None \<Rightarrow> JNull | Some (d, r) \<Rightarrow> ref_object (decided_fields (ap_id a) d, r)),
        (''votes'', JArr (map (\<lambda>(v, r). ref_object (vote_fields (ap_id a) v, r)) (ap_votes a))),
        (''consumed'', case ap_consumed a of None \<Rightarrow> JNull | Some (t, r) \<Rightarrow> ref_object ([(''at'', JStr t)], r)),
        (''outcome'', case ap_outcome a of None \<Rightarrow> JNull
           | Some (x, t) \<Rightarrow> JObj (outcome_fields (ap_id a) x @ [(''at'', JStr t)]))]
     @ (case ap_withdrawn a of None \<Rightarrow> []
          | Some (x, r) \<Rightarrow> [(''withdrawn'', ref_object (withdrawal_fields (ap_id a) x, r))])"

definition summarize :: "approval \<Rightarrow> jsfields" where
  "summarize a = drop_field ''consumeProofHash'' (drop_field ''arguments'' (approval_fields a))"

definition queueSummary :: "rbac \<Rightarrow> approval \<Rightarrow> jsfields" where
  "queueSummary policy a = summarize a @ quorumExtra policy a"

definition decisionBindings :: "decided \<Rightarrow> jsfields" where
  "decisionBindings d = optional_field ''operatorId'' (case dd_operatorId d of
       Some i \<Rightarrow> if i \<noteq> [] then Some (JStr i) else None | None \<Rightarrow> None)
     @ optional_field ''approverIds'' (map_option (\<lambda>ids. JArr (map JStr ids)) (dd_approverIds d))
     @ optional_field ''quorumRequired'' (map_option (\<lambda>n. JNum (of_nat n)) (dd_quorumRequired d))
     @ (case dd_fingerprint d of None \<Rightarrow> [] | Some (v, h) \<Rightarrow> (''policyVersion'', JNum (of_int v))
          # (if SHA256_HEX h then [(''policyHash'', JStr h)] else []))"

definition decision_payload :: "approval \<Rightarrow> decided \<Rightarrow> ledger_ref \<Rightarrow> jsval" where
  "decision_payload a d r = JObj ([(''v'', JStr DECISION_VERSION), (''approvalId'', JStr (ap_id a)),
     (''workspaceId'', JStr (rg_workspaceId (ap_reg a))), (''tool'', JStr (rg_tool (ap_reg a))),
     (''actionHash'', JStr (rg_actionHash (ap_reg a))), (''decision'', JStr (decision_name (dd_decision d))),
     (''reason'', JStr (dd_reason d)), (''decidedAt'', JStr (dd_decidedAt d)), (''validUntil'', JStr (dd_validUntil d))]
     @ ref_fields r @ [(''operator'', JStr (dd_operator d))] @ decisionBindings d)"

text \<open>\<open>None\<close>: there is no decision, or the signing throws.\<close>

definition envelopeFor :: "service_config \<Rightarrow> approval \<Rightarrow> jsval option" where
  "envelopeFor cf a = (case ap_decision a of None \<Rightarrow> None
     | Some (d, r) \<Rightarrow> (case signDecision (cf_env cf) (decision_payload a d r) (cf_key cf) of
           Inl err \<Rightarrow> None | Inr e \<Rightarrow> Some e))"

definition consumptionFor :: "service_config \<Rightarrow> approval \<Rightarrow> jsval option" where
  "consumptionFor cf a = (case ap_consumed a of None \<Rightarrow> None
     | Some (t, r) \<Rightarrow> signConsumption (cf_env cf) ([(''approvalId'', JStr (ap_id a)),
         (''workspaceId'', JStr (rg_workspaceId (ap_reg a))), (''tool'', JStr (rg_tool (ap_reg a))),
         (''actionHash'', JStr (rg_actionHash (ap_reg a)))] @ ref_fields r @ [(''consumedAt'', JStr t)]) (cf_key cf))"

definition view_get :: "string \<Rightarrow> service \<Rightarrow> approval option" where
  "view_get i s = map_of (sv_view s) i"

definition ledger_intact :: "service \<Rightarrow> bool" where
  "ledger_intact s = (al_corrupt (sv_ledger s) = None)"

definition unless_corrupt :: "unit request_step" where
  "unless_corrupt = andThen (reading ledger_intact) (\<lambda>ok. if ok then return () else refuse 503 ''LEDGER_CORRUPT'' [])"

definition the_approval :: "string \<Rightarrow> approval request_step" where
  "the_approval i = andThen (reading (view_get i)) (\<lambda>r. case r of
     Some a \<Rightarrow> return a | None \<Rightarrow> refuse 404 ''NOT_FOUND'' [])"

definition check_that :: "bool \<Rightarrow> nat \<Rightarrow> string \<Rightarrow> unit request_step" where
  "check_that b status code = (if b then return () else refuse status code [])"

section \<open>Registering\<close>

definition trimBefore :: "int list \<Rightarrow> int \<Rightarrow> int list" where
  "trimBefore ts limit = dropWhile (\<lambda>t. t \<le> limit) ts"

definition expires_after :: "js_env \<Rightarrow> approval \<Rightarrow> int \<Rightarrow> bool" where
  "expires_after env a t = (case date_parse env (rg_expiresAt (ap_reg a)) of Some e \<Rightarrow> e > t | None \<Rightarrow> False)"

text \<open>The clock is read for every pending approval.\<close>

fun pending_count :: "js_env \<Rightarrow> approval list \<Rightarrow> nat request_step" where
  "pending_count env [] = return 0"
| "pending_count env (a # as) = (if ap_status a \<noteq> Approval_pending then pending_count env as
     else andThen now (\<lambda>t. andThen (pending_count env as) (\<lambda>n. return (if expires_after env a t then Suc n else n))))"

definition overLimit :: "service_config \<Rightarrow> bool request_step" where
  "overLimit cf =
     andThen now (\<lambda>t1.
     andThen (changing (\<lambda>v. v\<lparr>sv_attempts := trimBefore (sv_attempts v) (t1 - MINUTE_MS)\<rparr>)) (\<lambda>_.
     andThen now (\<lambda>t2.
     andThen (changing (\<lambda>v. v\<lparr>sv_registeredTimes := trimBefore (sv_registeredTimes v) (t2 - DAY_MS)\<rparr>)) (\<lambda>_.
     andThen now (\<lambda>t3.
     andThen (changing (\<lambda>v. v\<lparr>sv_attempts := sv_attempts v @ [t3]\<rparr>)) (\<lambda>_.
     andThen (reading sv_view) (\<lambda>v.
     andThen (pending_count (cf_env cf) (map snd v)) (\<lambda>pending.
     andThen (reading (\<lambda>s. length (sv_attempts s))) (\<lambda>tries.
     andThen (reading (\<lambda>s. length (sv_registeredTimes s))) (\<lambda>regs.
       return (tries > MAX_ATTEMPTS_PER_MINUTE \<or> regs \<ge> MAX_REGISTRATIONS_PER_DAY \<or> pending \<ge> MAX_PENDING)))))))))))"

fun refuse_registration :: "registration_refusal \<Rightarrow> 'a request_step" where
  "refuse_registration (Reg_invalid r) = refuse 400 ''INVALID'' [(''reason'', JStr r)]"
| "refuse_registration Reg_expired = refuse 409 ''EXPIRED'' []"
| "refuse_registration Reg_hash_mismatch = refuse 409 ''HASH_MISMATCH'' []"

definition register_again :: "approval \<Rightarrow> jsval \<Rightarrow> exit request_step" where
  "register_again existing input =
     (if jget input ''actionHash'' = JStr (rg_actionHash (ap_reg existing))
         \<and> jget input ''consumeProofHash'' = JStr (rg_consumeProofHash (ap_reg existing))
      then return (reply 200 [(''approval'', JObj (summarize existing))]) else refuse 409 ''CONFLICT'' [])"

definition register_new :: "service_config \<Rightarrow> jsval \<Rightarrow> exit request_step" where
  "register_new cf input =
     andThen now (\<lambda>t. case validateRegistration (cf_env cf) input t of
         Inl err \<Rightarrow> refuse_registration err
       | Inr r \<Rightarrow>
           andThen now (\<lambda>t'.
           andThen (changing (\<lambda>v. v\<lparr>sv_registeredTimes := sv_registeredTimes v @ [t']\<rparr>)) (\<lambda>_.
           andThen (record_event cf (Registered r)) (\<lambda>e.
           andThen (the_approval (rg_approvalId r)) (\<lambda>a.
             return (reply 201 [(''approval'', JObj (summarize a))]))))))"

definition registered_under :: "jsval \<Rightarrow> service \<Rightarrow> approval option" where
  "registered_under input s = (case jget input ''approvalId'' of JStr i \<Rightarrow> view_get i s | _ \<Rightarrow> None)"

definition register :: "service_config \<Rightarrow> jsval \<Rightarrow> exit request_step" where
  "register cf input =
     andThen unless_corrupt (\<lambda>_.
     andThen (overLimit cf) (\<lambda>over. if over then refuse 429 ''RATE_LIMITED'' []
       else andThen (reading (registered_under input)) (\<lambda>existing. case existing of
           Some a \<Rightarrow> register_again a input
         | None \<Rightarrow> register_new cf input)))"

section \<open>Reading\<close>

definition list_approvals :: "service_config \<Rightarrow> jsval \<Rightarrow> jsval \<Rightarrow> exit request_step" where
  "list_approvals cf status workspaceId = andThen (reading sv_view) (\<lambda>v.
     return (reply 200 [(''approvals'', JArr (map (\<lambda>a. JObj (queueSummary (cf_rbac cf) a))
       (filter (\<lambda>a. (\<not> truthy status \<or> JStr (approval_status_name (ap_status a)) = status)
          \<and> (\<not> truthy workspaceId \<or> JStr (rg_workspaceId (ap_reg a)) = workspaceId)) (map snd v))))]))"

definition show_approval :: "service_config \<Rightarrow> string \<Rightarrow> exit request_step" where
  "show_approval cf i = andThen (the_approval i) (\<lambda>a.
     return (reply 200 [(''approval'', JObj (put_field ''consumeProofHash'' JUndefined (approval_fields a)
       @ quorumExtra (cf_rbac cf) a))]))"

definition getDecision :: "service_config \<Rightarrow> string \<Rightarrow> exit request_step" where
  "getDecision cf i = andThen (the_approval i) (\<lambda>a.
     if ap_decision a = None
     then return (reply 200 ((''status'', JStr ''pending'') # quorumExtra (cf_rbac cf) a))
     else andThen (or_throw (envelopeFor cf a)) (\<lambda>e.
       case ap_withdrawn a of
         Some (x, r) \<Rightarrow> return (reply 200 [(''envelope'', e), (''withdrawal'', ref_object (withdrawal_fields i x, r))])
       | None \<Rightarrow> if ap_consumed a = None then return (reply 200 [(''envelope'', e)])
           else andThen (or_throw (consumptionFor cf a)) (\<lambda>c.
             return (reply 200 [(''envelope'', e), (''consumption'', c)]))))"

definition identity_answer :: "service_config \<Rightarrow> exit" where
  "identity_answer cf = reply 200 [(''keyId'', JStr (sk_keyId (cf_key cf))), (''version'', JStr DECISION_VERSION),
     (''sealingKey'', JStr (cf_sealing cf))]"

definition head_fields :: "int \<times> string \<Rightarrow> jsfields" where
  "head_fields h = [(''seq'', JNum (of_int (fst h))), (''hash'', JStr (snd h))]"

definition ledgerHead :: "exit request_step" where
  "ledgerHead = andThen (reading (\<lambda>s. ledger_head (sv_ledger s))) (\<lambda>h. return (reply 200 (head_fields h)))"

fun fault_name :: "ledger_fault \<Rightarrow> jsval" where
  "fault_name Unparseable_line = JStr ''unparseable_line''"
| "fault_name (Chain_fault r) = (if r = None then JNull else JStr (chain_reason_text r))"
| "fault_name Sequence_gap = JStr ''sequence_gap''"
| "fault_name Append_failed = JStr ''append_failed''"

definition ledgerEntries :: "jsval \<Rightarrow> jsval \<Rightarrow> exit request_step" where
  "ledgerEntries fromSeq limit = andThen (reading sv_ledger) (\<lambda>l.
     return (reply 200 [(''entries'', JArr (map authority_entry_json (ledger_page fromSeq limit l))),
       (''corrupt'', case al_corrupt l of None \<Rightarrow> JNull
          | Some (n, f) \<Rightarrow> JObj [(''brokenAt'', JNum (of_nat n)), (''reason'', fault_name f)])]))"

definition ledgerAnchor :: "service_config \<Rightarrow> exit request_step" where
  "ledgerAnchor cf = (case cf_anchor cf of
       None \<Rightarrow> refuse 503 ''ANCHOR_KEY_MISSING'' []
     | Some sign \<Rightarrow> andThen unless_corrupt (\<lambda>_.
         andThen (reading (\<lambda>s. ledger_head (sv_ledger s))) (\<lambda>h.
           if fst h < 0 then refuse 409 ''LEDGER_EMPTY'' []
           else andThen (or_throw (signAnchor (cf_env cf) h sign)) (\<lambda>x. return (reply 200 [(''anchor'', x)])))))"

end
