(* ===== verification/Authority_Decide.thy ===== *)
theory Authority_Decide
  imports Authority_Service
begin

text \<open>
  The requests of the approval authority that change an approval: deciding it with one operator or a
  quorum, withdrawing it, consuming it, recording its outcome, and recording a stop
  (\<open>src/lib/authority/authority-service.js\<close>).  The last section has every request as a value, and the
  states a service reaches by requests and restarts.
\<close>

section \<open>Operators\<close>

definition operatorWindowFull :: "int \<Rightarrow> bool request_step" where
  "operatorWindowFull t =
     andThen (changing (\<lambda>v. v\<lparr>sv_operatorAttempts := trimBefore (sv_operatorAttempts v) (t - MINUTE_MS)\<rparr>)) (\<lambda>_.
       reading (\<lambda>s. length (sv_operatorAttempts s) \<ge> MAX_ATTEMPTS_PER_MINUTE))"

definition denyOperatorAttempt :: "service_config \<Rightarrow> string \<Rightarrow> string \<Rightarrow> nat \<Rightarrow> string option
    \<Rightarrow> jsfields \<Rightarrow> jsfields \<Rightarrow> 'a request_step" where
  "denyOperatorAttempt cf approvalId code status operatorId details audit =
     andThen now (\<lambda>t.
     andThen (operatorWindowFull t) (\<lambda>full. if full then refuse 429 ''RATE_LIMITED'' []
       else andThen (changing (\<lambda>v. v\<lparr>sv_operatorAttempts := sv_operatorAttempts v @ [t]\<rparr>)) (\<lambda>_.
         andThen (record_event cf (Vote_denied approvalId ([(''code'', JStr code),
             (''attemptedAt'', JStr (iso_at (cf_env cf) t))]
             @ optional_field ''operatorId'' (map_option JStr operatorId) @ audit))) (\<lambda>_.
           refuse status code details))))"

definition denial_status :: "rbac_code \<Rightarrow> nat" where
  "denial_status c = (if c \<in> {RBAC_API_KEY_REQUIRED, RBAC_API_KEY_INVALID} then 401 else 403)"

definition resolveOperator :: "service_config \<Rightarrow> string \<Rightarrow> jsval \<Rightarrow> jsval \<Rightarrow> jsval \<Rightarrow> approval_operator request_step" where
  "resolveOperator cf approvalId apiKey operatorIdHint requesterId =
     andThen now (\<lambda>t.
     andThen (operatorWindowFull t) (\<lambda>full. if full then refuse 429 ''RATE_LIMITED'' []
       else case resolveApprovalOperator (cf_env cf) (cf_scrypt cf) (cf_rbac cf) apiKey operatorIdHint
           (cf_operatorId cf) requesterId of
         Inr identity \<Rightarrow> return identity
       | Inl c \<Rightarrow> denyOperatorAttempt cf approvalId (rbac_code_name c) (denial_status c) None [] []))"

fun check_code_name :: "check_code \<Rightarrow> string" where
  "check_code_name LOCKED = ''LOCKED''"
| "check_code_name TOTP_INVALID = ''TOTP_INVALID''"
| "check_code_name TOTP_REPLAYED = ''TOTP_REPLAYED''"

text \<open>The progress is saved before anything else; a save that fails throws and leaves the old one.\<close>

definition save_progress :: "totp_progress \<Rightarrow> unit request_step" where
  "save_progress p = (\<lambda>s. if sn_saves s then (Inr (), s\<lparr>sn_service := (sn_service s)\<lparr>sv_totp := p\<rparr>\<rparr>)
     else (Inl Thrown, s))"

definition refused_code :: "service_config \<Rightarrow> string \<Rightarrow> operator_check \<Rightarrow> check_code \<Rightarrow> 'a request_step" where
  "refused_code cf approvalId check code =
     andThen (if code \<noteq> LOCKED \<or> oc_lockedNow check
       then andThen (record_event cf (Totp_failed approvalId (check_code_name code))) (\<lambda>_. return ())
       else return ()) (\<lambda>_.
     andThen (case (oc_lockedNow check, tp_lockedUntil (oc_progress check)) of
         (True, Some t) \<Rightarrow> andThen (record_event cf (Totp_lockout (iso_at (cf_env cf) t))) (\<lambda>_. return ())
       | _ \<Rightarrow> return ()) (\<lambda>_.
       refuse (if code = LOCKED then 423 else 401) (check_code_name code) []))"

definition spend_code :: "service_config \<Rightarrow> string \<Rightarrow> jsval \<Rightarrow> unit request_step" where
  "spend_code cf approvalId code =
     andThen (reading sv_totp) (\<lambda>progress.
     andThen now (\<lambda>t. let check = checkOperatorCode (cf_hmac cf) (cf_secret cf) code t progress in
       andThen (if locked_at progress t then return () else save_progress (oc_progress check)) (\<lambda>_.
       case oc_result check of
         Inr counter \<Rightarrow> return ()
       | Inl c \<Rightarrow> refused_code cf approvalId check c)))"

text \<open>The opened request, once its action is the approval's and its code is spent.\<close>

definition openOperatorRequest :: "service_config \<Rightarrow> string \<Rightarrow> approval \<Rightarrow> jsval \<Rightarrow> string list
    \<Rightarrow> approval_operator \<Rightarrow> operator_request request_step" where
  "openOperatorRequest cf approvalId a x allowed identity =
     (let requireTotp = (op_source identity \<noteq> Api_key) in
      case openDecisionRequest (cf_env cf) (cf_unseal cf) x approvalId requireTotp of
        Inl err \<Rightarrow> refuse 400 ''SEALED_REQUEST_INVALID'' []
      | Inr r \<Rightarrow>
          andThen (check_that (oq_decision r \<in> set allowed) 400 ''SEALED_REQUEST_INVALID'') (\<lambda>_.
          andThen (check_that (oq_actionHash r = JStr (rg_actionHash (ap_reg a))) 409 ''HASH_MISMATCH'') (\<lambda>_.
          if \<not> requireTotp then andThen (check_that (oq_totp r = JNull) 400 ''SEALED_REQUEST_INVALID'') (\<lambda>_. return r)
          else andThen (spend_code cf approvalId (oq_totp r)) (\<lambda>_. return r))))"

section \<open>Deciding\<close>

definition operator_text :: "approval_operator \<Rightarrow> string" where
  "operator_text identity = (case op_operatorId identity of Some i \<Rightarrow> i | None \<Rightarrow> [])"

definition operator_label :: "approval_operator \<Rightarrow> string" where
  "operator_label identity = (case op_operatorId identity of Some i \<Rightarrow> ''operator:'' @ i | None \<Rightarrow> OPERATOR)"

definition decision_of :: "string \<Rightarrow> authority_decision" where
  "decision_of s = (if s = ''approved'' then Decision_approved else Decision_rejected)"

text \<open>\<open>None\<close>: an instant that is not a date, whose rendering throws.\<close>

definition valid_until :: "js_env \<Rightarrow> approval \<Rightarrow> int \<Rightarrow> int option" where
  "valid_until env a decidedAt = map_option (min (decidedAt + DECISION_TTL_MS)) (date_parse env (rg_expiresAt (ap_reg a)))"

definition record_decision :: "service_config \<Rightarrow> string \<Rightarrow> decided \<Rightarrow> jsfields \<Rightarrow> exit request_step" where
  "record_decision cf approvalId d extra =
     andThen (record_event cf (Decided approvalId d)) (\<lambda>_.
     andThen (the_approval approvalId) (\<lambda>a.
     andThen (or_throw (envelopeFor cf a)) (\<lambda>e. return (reply 200 ((''envelope'', e) # extra)))))"

definition recovered_decision :: "service_config \<Rightarrow> approval \<Rightarrow> nat \<Rightarrow> completed_quorum \<Rightarrow> decided option" where
  "recovered_decision cf a quorumRequired c = (let v = cq_finalVote c; env = cf_env cf in
     case date_parse env (vt_votedAt v) of
       None \<Rightarrow> None
     | Some decidedAt \<Rightarrow> map_option (\<lambda>until.
         \<lparr>dd_actionHash = rg_actionHash (ap_reg a), dd_decision = cq_decision c, dd_reason = vt_reason v,
          dd_operator = ''operator:'' @ vt_operatorId v, dd_operatorId = Some (vt_operatorId v),
          dd_approverIds = Some (if cq_decision c = Decision_rejected then [vt_operatorId v] else cq_approverIds c),
          dd_quorumRequired = Some quorumRequired,
          dd_fingerprint = voteFingerprint v (policyFingerprint (cf_rbac cf)),
          dd_decidedAt = iso_at env decidedAt, dd_validUntil = iso_at env until\<rparr>) (valid_until env a decidedAt))"

definition recover_quorum :: "service_config \<Rightarrow> string \<Rightarrow> approval \<Rightarrow> nat \<Rightarrow> completed_quorum \<Rightarrow> exit request_step" where
  "recover_quorum cf approvalId a quorumRequired c =
     andThen (or_throw (recovered_decision cf a quorumRequired c)) (\<lambda>d.
       record_decision cf approvalId d [(''recovered'', JBool True)])"

definition quorumVote :: "service_config \<Rightarrow> approval \<Rightarrow> approval_operator \<Rightarrow> operator_request \<Rightarrow> nat \<Rightarrow> int \<Rightarrow> vote" where
  "quorumVote cf a identity r quorumRequired votedAt =
     \<lparr>vt_workspaceId = rg_workspaceId (ap_reg a), vt_tool = rg_tool (ap_reg a),
      vt_actionHash = rg_actionHash (ap_reg a), vt_operatorId = operator_text identity,
      vt_decision = decision_of (oq_decision r), vt_reason = oq_reason r,
      vt_votedAt = iso_at (cf_env cf) votedAt, vt_quorumRequired = quorumRequired,
      vt_authMethod = op_source identity, vt_fingerprint = policyFingerprint (cf_rbac cf)\<rparr>"

datatype repeat = Idempotent | Conflict

definition repeatVote :: "vote \<Rightarrow> string \<Rightarrow> repeat" where
  "repeatVote v decision = (if decision_name (vt_decision v) = decision then Idempotent else Conflict)"

definition decision_by :: "service_config \<Rightarrow> approval \<Rightarrow> approval_operator \<Rightarrow> operator_request
    \<Rightarrow> string list option \<Rightarrow> nat option \<Rightarrow> int \<Rightarrow> int \<Rightarrow> decided" where
  "decision_by cf a identity r approverIds quorumRequired decidedAt until =
     \<lparr>dd_actionHash = rg_actionHash (ap_reg a), dd_decision = decision_of (oq_decision r), dd_reason = oq_reason r,
      dd_operator = operator_label identity, dd_operatorId = op_operatorId identity, dd_approverIds = approverIds,
      dd_quorumRequired = quorumRequired, dd_fingerprint = policyFingerprint (cf_rbac cf),
      dd_decidedAt = iso_at (cf_env cf) decidedAt, dd_validUntil = iso_at (cf_env cf) until\<rparr>"

definition pending_answer :: "service_config \<Rightarrow> string \<Rightarrow> approval \<Rightarrow> jsfields \<Rightarrow> exit" where
  "pending_answer cf approvalId a extra = reply 202 ([(''approvalId'', JStr approvalId), (''status'', JStr ''pending'')]
     @ extra @ quorumExtra (cf_rbac cf) a)"

text \<open>
  The vote is recorded first; when it is a rejection or completes the quorum, the decision follows.
  \<open>until\<close> is \<open>None\<close> where its rendering throws.
\<close>

definition cast_vote :: "service_config \<Rightarrow> string \<Rightarrow> approval \<Rightarrow> approval_operator \<Rightarrow> operator_request
    \<Rightarrow> nat \<Rightarrow> int \<Rightarrow> int option \<Rightarrow> exit request_step" where
  "cast_vote cf approvalId a identity r quorumRequired decidedAt until =
     andThen (record_event cf (Voted approvalId (quorumVote cf a identity r quorumRequired decidedAt))) (\<lambda>_.
     andThen (the_approval approvalId) (\<lambda>voted.
       let approverIds = quorumProgress (plain_votes voted) (rg_eligible (ap_reg voted)) in
       if oq_decision r = ''approved'' \<and> length approverIds < quorumRequired
       then return (pending_answer cf approvalId voted [])
       else andThen (or_throw until) (\<lambda>until.
         record_decision cf approvalId (decision_by cf a identity r
           (Some (if oq_decision r = ''approved'' then approverIds else [operator_text identity]))
           (Some quorumRequired) decidedAt until) [])))"

definition quorum_decide :: "service_config \<Rightarrow> string \<Rightarrow> approval \<Rightarrow> approval_operator \<Rightarrow> operator_request
    \<Rightarrow> nat \<Rightarrow> int \<Rightarrow> int option \<Rightarrow> exit request_step" where
  "quorum_decide cf approvalId a identity r quorumRequired decidedAt until =
     (case find (\<lambda>v. vt_operatorId v = operator_text identity) (plain_votes a) of
        Some prior \<Rightarrow> (case repeatVote prior (oq_decision r) of
            Idempotent \<Rightarrow> return (pending_answer cf approvalId a [(''idempotent'', JBool True)])
          | Conflict \<Rightarrow> denyOperatorAttempt cf approvalId ''DUPLICATE_APPROVER'' 409 (op_operatorId identity)
              [(''quorumRequired'', JNum (of_nat quorumRequired)),
               (''votesReceived'', JNum (of_nat (length (quorumProgress (plain_votes a) (rg_eligible (ap_reg a))))))]
              [(''priorDecision'', JStr (decision_name (vt_decision prior))), (''attemptedDecision'', JStr (oq_decision r))])
      | None \<Rightarrow> cast_vote cf approvalId a identity r quorumRequired decidedAt until)"

text \<open>The operator may take part in a decision that needs a quorum.\<close>

definition quorum_member :: "service_config \<Rightarrow> string \<Rightarrow> approval \<Rightarrow> approval_operator \<Rightarrow> nat \<Rightarrow> unit request_step" where
  "quorum_member cf approvalId a identity quorumRequired =
     (if quorumRequired > 1 \<and> op_source identity \<noteq> Api_key
      then denyOperatorAttempt cf approvalId ''QUORUM_REQUIRES_OPERATOR_API_KEYS'' 403 (op_operatorId identity) [] []
      else case rg_eligible (ap_reg a) of
          None \<Rightarrow> return ()
        | Some ids \<Rightarrow>
            if quorumRequired > 1 \<and> JStr (operator_text identity) \<notin> set ids
            then denyOperatorAttempt cf approvalId ''INELIGIBLE_APPROVER'' 403 (op_operatorId identity)
              [(''quorumRequired'', JNum (of_nat quorumRequired)), (''eligibleApprovers'', JArr ids)] []
            else return ())"

definition decide_with :: "service_config \<Rightarrow> string \<Rightarrow> approval \<Rightarrow> nat \<Rightarrow> jsval \<Rightarrow> approval_operator \<Rightarrow> exit request_step" where
  "decide_with cf approvalId a quorumRequired x identity =
     andThen (quorum_member cf approvalId a identity quorumRequired) (\<lambda>_.
     andThen (openOperatorRequest cf approvalId a x [''approved'', ''rejected''] identity) (\<lambda>r.
     andThen now (\<lambda>decidedAt. let until = valid_until (cf_env cf) a decidedAt in
       if quorumRequired > 1 then quorum_decide cf approvalId a identity r quorumRequired decidedAt until
       else andThen (or_throw until) (\<lambda>until.
         record_decision cf approvalId (decision_by cf a identity r None None decidedAt until) []))))"

definition requester_json :: "approval \<Rightarrow> jsval" where
  "requester_json a = (case rg_requesterId (ap_reg a) of Some r \<Rightarrow> JStr r | None \<Rightarrow> JUndefined)"

definition still_open :: "js_env \<Rightarrow> approval \<Rightarrow> int \<Rightarrow> bool" where
  "still_open env a t = (case date_parse env (rg_expiresAt (ap_reg a)) of Some e \<Rightarrow> t < e | None \<Rightarrow> True)"

definition decide_approval :: "service_config \<Rightarrow> string \<Rightarrow> jsval \<Rightarrow> jsval \<Rightarrow> jsval \<Rightarrow> exit request_step" where
  "decide_approval cf approvalId x apiKey operatorIdHint =
     andThen unless_corrupt (\<lambda>_.
     andThen (the_approval approvalId) (\<lambda>a.
     andThen (check_that (ap_status a = Approval_pending) 409 ''ALREADY_DECIDED'') (\<lambda>_.
     andThen now (\<lambda>t.
     andThen (check_that (still_open (cf_env cf) a t) 409 ''EXPIRED'') (\<lambda>_.
       let quorumRequired = quorumRequiredFor (cf_rbac cf) (rg_tool (ap_reg a)) in
       case (if quorumRequired > 1 then completedQuorum (plain_votes a) quorumRequired (rg_eligible (ap_reg a)) else None) of
         Some c \<Rightarrow> recover_quorum cf approvalId a quorumRequired c
       | None \<Rightarrow> andThen (resolveOperator cf approvalId apiKey operatorIdHint (requester_json a)) (\<lambda>identity.
           decide_with cf approvalId a quorumRequired x identity))))))"

section \<open>Withdrawing and consuming\<close>

definition withdraw_approval :: "service_config \<Rightarrow> string \<Rightarrow> jsval \<Rightarrow> jsval \<Rightarrow> jsval \<Rightarrow> exit request_step" where
  "withdraw_approval cf approvalId x apiKey operatorIdHint =
     andThen unless_corrupt (\<lambda>_.
     andThen (the_approval approvalId) (\<lambda>a.
     andThen (check_that (ap_consumed a = None) 409 ''ALREADY_CONSUMED'') (\<lambda>_.
     andThen (check_that (ap_status a \<noteq> Approval_withdrawn) 409 ''ALREADY_WITHDRAWN'') (\<lambda>_.
     andThen (check_that (ap_status a = Approval_approved) 409 ''NOT_APPROVED'') (\<lambda>_.
     andThen (resolveOperator cf approvalId apiKey operatorIdHint JUndefined) (\<lambda>identity.
     andThen (openOperatorRequest cf approvalId a x [''withdrawn''] identity) (\<lambda>r.
     andThen now (\<lambda>t.
     andThen (record_event cf (Withdrawn approvalId
       \<lparr>wd_actionHash = rg_actionHash (ap_reg a), wd_reason = oq_reason r, wd_operator = operator_label identity,
        wd_operatorId = op_operatorId identity, wd_withdrawnAt = iso_at (cf_env cf) t\<rparr>)) (\<lambda>e.
       return (reply 200 [(''withdrawn'', JObj (ref_fields (entry_ref e)))]))))))))))"

definition provenApproval :: "service_config \<Rightarrow> string \<Rightarrow> jsval \<Rightarrow> approval request_step" where
  "provenApproval cf approvalId proof =
     andThen unless_corrupt (\<lambda>_.
     andThen (the_approval approvalId) (\<lambda>a.
     andThen (check_that (proves (cf_env cf) proof (rg_consumeProofHash (ap_reg a))) 403 ''PROOF_REQUIRED'') (\<lambda>_.
       return a)))"

definition still_valid :: "js_env \<Rightarrow> approval \<Rightarrow> int \<Rightarrow> bool" where
  "still_valid env a t = (case ap_decision a of None \<Rightarrow> False
     | Some (d, r) \<Rightarrow> (case date_parse env (dd_validUntil d) of Some u \<Rightarrow> t < u | None \<Rightarrow> True))"

definition consume_approval :: "service_config \<Rightarrow> string \<Rightarrow> jsval \<Rightarrow> jsval \<Rightarrow> exit request_step" where
  "consume_approval cf approvalId actionHash consumeProof =
     andThen (provenApproval cf approvalId consumeProof) (\<lambda>a.
     andThen (check_that (ap_status a \<noteq> Approval_withdrawn) 409 ''WITHDRAWN'') (\<lambda>_.
     andThen (check_that (ap_status a = Approval_approved) 409 ''NOT_APPROVED'') (\<lambda>_.
     andThen (check_that (ap_consumed a = None) 409 ''ALREADY_CONSUMED'') (\<lambda>_.
     andThen (check_that (actionHash = JStr (rg_actionHash (ap_reg a))) 409 ''HASH_MISMATCH'') (\<lambda>_.
     andThen now (\<lambda>t.
     andThen (check_that (still_valid (cf_env cf) a t) 409 ''DECISION_EXPIRED'') (\<lambda>_.
     andThen (record_event cf (Consumed approvalId (rg_actionHash (ap_reg a)))) (\<lambda>e.
     andThen (the_approval approvalId) (\<lambda>a'.
     andThen (or_throw (consumptionFor cf a')) (\<lambda>c.
       return (reply 200 [(''consumed'', JObj (ref_fields (entry_ref e))), (''consumption'', c)])))))))))))"

section \<open>Outcomes\<close>

definition signRecordedOutcome :: "service_config \<Rightarrow> approval \<Rightarrow> authority_entry \<Rightarrow> outcome \<Rightarrow> jsval option" where
  "signRecordedOutcome cf a e x = (case (envelopeFor cf a, ap_decision a) of
       (Some v, Some (d, r)) \<Rightarrow> signOutcomeAttestation (cf_env cf) (JObj [(''v'', JStr OUTCOME_VERSION),
         (''approvalId'', JStr (ap_id a)), (''workspaceId'', JStr (rg_workspaceId (ap_reg a))),
         (''tool'', JStr (rg_tool (ap_reg a))), (''actionHash'', JStr (rg_actionHash (ap_reg a))),
         (''decision'', JStr (decision_name (dd_decision d))),
         (''operatorId'', case dd_operatorId d of Some i \<Rightarrow> if i \<noteq> [] then JStr i else JNull | None \<Rightarrow> JNull),
         (''decisionEnvelopeHash'', JStr (sha256_hex (cf_env cf) (the (stableStringify (cf_env cf) v)))),
         (''status'', JStr (ot_status x)), (''receiptId'', JStr (ot_receiptId x)), (''receiptHash'', ot_receiptHash x),
         (''recordedAt'', JStr (ae_at e)), (''ledgerSeq'', JNum (of_nat (ae_seq e))), (''ledgerHash'', JStr (ae_hash e))])
         (cf_key cf)
     | _ \<Rightarrow> None)"

fun outcome_entry :: "string \<Rightarrow> authority_entry list \<Rightarrow> (authority_entry \<times> outcome) option" where
  "outcome_entry i [] = None"
| "outcome_entry i (e # es) = (case ae_event e of
     Outcome j x \<Rightarrow> if j = i then Some (e, x) else outcome_entry i es
   | _ \<Rightarrow> outcome_entry i es)"

definition outcome_well_formed :: "js_env \<Rightarrow> jsval \<Rightarrow> jsval \<Rightarrow> jsval \<Rightarrow> bool" where
  "outcome_well_formed env status receiptId receiptHash = (status \<in> {JStr ''executed'', JStr ''failed''}
     \<and> string_matches (\<lambda>s. s \<noteq> [] \<and> length s \<le> 256) receiptId
     \<and> (receiptHash = JNull \<or> hex64_or_empty env receiptHash))"

definition outcome_answer :: "service_config \<Rightarrow> approval \<Rightarrow> authority_entry \<Rightarrow> outcome \<Rightarrow> jsfields \<Rightarrow> exit request_step" where
  "outcome_answer cf a e x extra = andThen (or_throw (signRecordedOutcome cf a e x)) (\<lambda>s.
     return (reply 200 ([(''outcome'', JObj (ref_fields (entry_ref e))), (''attestation'', s)] @ extra)))"

definition same_outcome :: "outcome \<Rightarrow> jsval \<Rightarrow> jsval \<Rightarrow> jsval \<Rightarrow> bool" where
  "same_outcome x status receiptId receiptHash = (JStr (ot_status x) = status \<and> JStr (ot_receiptId x) = receiptId
     \<and> strict_eq (ot_receiptHash x) receiptHash)"

definition recordOutcome :: "service_config \<Rightarrow> string \<Rightarrow> jsval \<Rightarrow> jsval \<Rightarrow> jsval \<Rightarrow> jsval \<Rightarrow> exit request_step" where
  "recordOutcome cf approvalId status receiptId receiptHash consumeProof =
     andThen (provenApproval cf approvalId consumeProof) (\<lambda>a.
     andThen (check_that (outcome_well_formed (cf_env cf) status receiptId receiptHash) 400 ''INVALID'') (\<lambda>_.
     andThen (check_that (ap_consumed a \<noteq> None) 409 ''NOT_CONSUMED'') (\<lambda>_.
     if ap_outcome a \<noteq> None then
       andThen (reading (\<lambda>s. outcome_entry approvalId (al_records (sv_ledger s)))) (\<lambda>found. case found of
           None \<Rightarrow> refuse 503 ''OUTCOME_ATTESTATION_UNAVAILABLE'' []
         | Some (e, x) \<Rightarrow> andThen (check_that (same_outcome x status receiptId receiptHash) 409 ''OUTCOME_RECORDED'') (\<lambda>_.
             outcome_answer cf a e x [(''duplicate'', JBool True)]))
     else let x = \<lparr>ot_status = text_of_json status, ot_receiptId = text_of_json receiptId, ot_receiptHash = receiptHash\<rparr> in
       andThen (record_event cf (Outcome approvalId x)) (\<lambda>e. outcome_answer cf a e x []))))"

section \<open>Stops\<close>

definition stop_known :: "jsval \<Rightarrow> service \<Rightarrow> authority_entry option" where
  "stop_known h s = (if is_object h then None else map_of (sv_stops s) h)"

fun stop_body :: "authority_entry \<Rightarrow> jsval" where
  "stop_body e = (case ae_event e of Stopped fs \<Rightarrow> JObj fs | _ \<Rightarrow> JUndefined)"

definition recordStop :: "service_config \<Rightarrow> jsval \<Rightarrow> exit request_step" where
  "recordStop cf input =
     andThen unless_corrupt (\<lambda>_. case validateStop (cf_env cf) input of
       None \<Rightarrow> refuse 400 ''INVALID'' []
     | Some stop \<Rightarrow> let h = field stop ''localHash'' in
         andThen (reading (stop_known h)) (\<lambda>known. case known of
           Some e \<Rightarrow>
             if list_all (\<lambda>k. strict_eq (jget (stop_body e) k) (field stop k)) STOP_FIELDS
             then return (reply 200 [(''stop'', JObj (ref_fields (entry_ref e))), (''duplicate'', JBool True)])
             else refuse 409 ''CONFLICT'' []
         | None \<Rightarrow>
             andThen now (\<lambda>t.
             andThen (changing (\<lambda>v. v\<lparr>sv_stopAttempts := trimBefore (sv_stopAttempts v) (t - MINUTE_MS)\<rparr>)) (\<lambda>_.
             andThen (reading (\<lambda>s. length (sv_stopAttempts s))) (\<lambda>n.
             andThen (check_that (n < MAX_ATTEMPTS_PER_MINUTE) 429 ''RATE_LIMITED'') (\<lambda>_.
             andThen now (\<lambda>t'.
             andThen (changing (\<lambda>v. v\<lparr>sv_stopAttempts := sv_stopAttempts v @ [t']\<rparr>)) (\<lambda>_.
             andThen (record_event cf (Stopped stop)) (\<lambda>e.
             andThen (changing (\<lambda>v. v\<lparr>sv_stops := alist_put h e (sv_stops v)\<rparr>)) (\<lambda>_.
               return (reply 201 [(''stop'', JObj (ref_fields (entry_ref e)))])))))))))))"

section \<open>Requests\<close>

datatype authority_request =
    Identity
  | Register jsval
  | List_approvals jsval jsval
  | Show_approval string
  | Decide_approval string jsval jsval jsval
  | Get_decision string
  | Withdraw_approval string jsval jsval jsval
  | Consume_approval string jsval jsval
  | Record_outcome string jsval jsval jsval jsval
  | Record_stop jsval
  | Ledger_head
  | Ledger_anchor
  | Ledger_entries jsval jsval

fun request_step_of :: "service_config \<Rightarrow> authority_request \<Rightarrow> exit request_step" where
  "request_step_of cf Identity = return (identity_answer cf)"
| "request_step_of cf (Register v) = register cf v"
| "request_step_of cf (List_approvals s w) = list_approvals cf s w"
| "request_step_of cf (Show_approval i) = show_approval cf i"
| "request_step_of cf (Decide_approval i x k h) = decide_approval cf i x k h"
| "request_step_of cf (Get_decision i) = getDecision cf i"
| "request_step_of cf (Withdraw_approval i x k h) = withdraw_approval cf i x k h"
| "request_step_of cf (Consume_approval i h p) = consume_approval cf i h p"
| "request_step_of cf (Record_outcome i s r h p) = recordOutcome cf i s r h p"
| "request_step_of cf (Record_stop v) = recordStop cf v"
| "request_step_of cf Ledger_head = ledgerHead"
| "request_step_of cf Ledger_anchor = ledgerAnchor cf"
| "request_step_of cf (Ledger_entries f l) = ledgerEntries f l"

text \<open>
  A request with what the clock and the disk do during it; a restart reads the files again, perhaps
  with another policy and another operator id in the configuration.
\<close>

datatype service_event =
    Served authority_request "nat \<Rightarrow> int" "nat \<Rightarrow> append_outcome" bool
  | Restarted rbac jsval

definition session_of :: "service \<Rightarrow> (nat \<Rightarrow> int) \<Rightarrow> (nat \<Rightarrow> append_outcome) \<Rightarrow> bool \<Rightarrow> session" where
  "session_of s clk outs saves = \<lparr>sn_service = s, sn_clock = clk, sn_appends = outs, sn_saves = saves\<rparr>"

type_synonym deployment = "service_config \<times> service"

fun deployment_step :: "service_event \<Rightarrow> deployment \<Rightarrow> deployment" where
  "deployment_step (Served q clk outs saves) (cf, s) = (cf, snd (served (request_step_of cf q) (session_of s clk outs saves)))"
| "deployment_step (Restarted policy i) (cf, s) = (cf\<lparr>cf_rbac := policy, cf_operatorId := i\<rparr>,
     createAuthorityService (cf_env cf) (al_lines (sv_ledger s)) (al_unended (sv_ledger s)) (sv_totp s))"

definition first_start :: "service_config \<Rightarrow> deployment" where
  "first_start cf = (cf, createAuthorityService (cf_env cf) [] False INITIAL_PROGRESS)"

definition deployment_run :: "service_config \<Rightarrow> service_event list \<Rightarrow> deployment" where
  "deployment_run cf evs = fold deployment_step evs (first_start cf)"

end
