(* ===== verification/Authority_Protocol.thy ===== *)
theory Authority_Protocol
  imports Authority_Decide
begin

text \<open>
  What the ledger of the approval authority promises, as a protocol over its events: which event may
  follow a history, under the policy in force.  The service is shown to keep to it in
  \<open>Authority_Requests\<close>; here are the consequences for the life of an approval.
\<close>

section \<open>The protocol\<close>

definition entitled :: "js_env \<Rightarrow> rbac \<Rightarrow> jsval \<Rightarrow> string option \<Rightarrow> bool" where
  "entitled env policy requester op = (case policy of
       Rbac_unconfigured \<Rightarrow> True
     | Rbac_invalid r \<Rightarrow> False
     | Rbac p \<Rightarrow> (\<exists>i role. op = Some i \<and> map_of (rp_operators p) i = Some role
         \<and> DECIDE \<in> set (role_permissions env (rp_roles p) role)
         \<and> \<not> (rp_separationOfDuties p \<and> requester = JStr i)))"

definition eligible_distinct :: "jsval list option \<Rightarrow> bool" where
  "eligible_distinct el = (case el of None \<Rightarrow> True | Some ids \<Rightarrow> distinct (filter is_string ids))"

definition registration_lawful :: "js_env \<Rightarrow> registration \<Rightarrow> bool" where
  "registration_lawful env r = (canonicalActionHash env (JStr (rg_tool r)) (JStr (rg_workspaceId r))
       (JStr (rg_approvalId r)) (rg_arguments r) = Some (rg_actionHash r) \<and> eligible_distinct (rg_eligible r))"

definition required :: "rbac \<Rightarrow> approval \<Rightarrow> nat" where
  "required policy a = quorumRequiredFor policy (rg_tool (ap_reg a))"

definition vote_lawful :: "js_env \<Rightarrow> rbac \<Rightarrow> approval \<Rightarrow> vote \<Rightarrow> bool" where
  "vote_lawful env policy a v = (required policy a > 1 \<and> vt_quorumRequired v = required policy a
     \<and> vt_authMethod v = Api_key \<and> vt_workspaceId v = rg_workspaceId (ap_reg a) \<and> vt_tool v = rg_tool (ap_reg a)
     \<and> vt_actionHash v = rg_actionHash (ap_reg a) \<and> vt_operatorId v \<notin> vt_operatorId ` set (plain_votes a)
     \<and> entitled env policy (requester_json a) (Some (vt_operatorId v))
     \<and> (\<forall>ids. rg_eligible (ap_reg a) = Some ids \<longrightarrow> JStr (vt_operatorId v) \<in> set ids))"

definition voters_for :: "approval \<Rightarrow> authority_decision \<Rightarrow> string set" where
  "voters_for a x = vt_operatorId ` {v \<in> set (plain_votes a). vt_decision v = x}"

text \<open>What a decision writes of the operator who made it.\<close>

definition written_operator :: "string option \<Rightarrow> string" where
  "written_operator op = (case op of Some i \<Rightarrow> ''operator:'' @ i | None \<Rightarrow> OPERATOR)"

definition decision_lawful :: "js_env \<Rightarrow> rbac \<Rightarrow> approval \<Rightarrow> decided \<Rightarrow> bool" where
  "decision_lawful env policy a d = (dd_actionHash d = rg_actionHash (ap_reg a)
     \<and> dd_operator d = written_operator (dd_operatorId d) \<and>
     (if required policy a \<le> 1
      then dd_quorumRequired d = None \<and> dd_approverIds d = None
         \<and> entitled env policy (requester_json a) (dd_operatorId d)
      else dd_quorumRequired d = Some (required policy a) \<and> dd_operatorId d \<in> Some ` voters_for a (dd_decision d)
         \<and> (\<exists>ids. dd_approverIds d = Some ids
         \<and> (dd_decision d = Decision_approved \<longrightarrow> distinct ids \<and> required policy a \<le> length ids
              \<and> set ids \<subseteq> voters_for a Decision_approved \<and> voters_for a Decision_rejected = {})
         \<and> (dd_decision d = Decision_rejected \<longrightarrow> (\<exists>i \<in> voters_for a Decision_rejected. ids = [i])))))"

definition same_stop :: "jsfields \<Rightarrow> authority_entry \<Rightarrow> bool" where
  "same_stop fs e = (\<exists>gs. ae_event e = Stopped gs \<and> strict_eq (field gs ''localHash'') (field fs ''localHash''))"

definition approval_at :: "authority_entry list \<Rightarrow> string \<Rightarrow> approval option" where
  "approval_at es i = map_of (createApprovalView es) i"

definition event_lawful :: "js_env \<Rightarrow> rbac \<Rightarrow> authority_entry list \<Rightarrow> authority_event \<Rightarrow> bool" where
  "event_lawful env policy es ev = (case ev of
       Registered r \<Rightarrow> approval_at es (rg_approvalId r) = None \<and> registration_lawful env r
     | Voted i v \<Rightarrow> (\<exists>a. approval_at es i = Some a \<and> ap_status a = Approval_pending \<and> vote_lawful env policy a v)
     | Decided i d \<Rightarrow> (\<exists>a. approval_at es i = Some a \<and> ap_status a = Approval_pending \<and> decision_lawful env policy a d)
     | Withdrawn i x \<Rightarrow> (\<exists>a. approval_at es i = Some a \<and> ap_status a = Approval_approved \<and> ap_consumed a = None
         \<and> wd_actionHash x = rg_actionHash (ap_reg a) \<and> entitled env policy JUndefined (wd_operatorId x))
     | Consumed i h \<Rightarrow> (\<exists>a. approval_at es i = Some a \<and> ap_status a = Approval_approved \<and> ap_consumed a = None
         \<and> h = rg_actionHash (ap_reg a))
     | Outcome i x \<Rightarrow> (\<exists>a. approval_at es i = Some a \<and> ap_consumed a \<noteq> None \<and> ap_outcome a = None)
     | Stopped fs \<Rightarrow> \<not> list_ex (same_stop fs) es
     | _ \<Rightarrow> True)"

text \<open>A history every event of which was lawful under one of the policies.\<close>

inductive lawful :: "js_env \<Rightarrow> rbac set \<Rightarrow> authority_entry list \<Rightarrow> bool" for env P where
  lawful_start: "lawful env P []"
| lawful_append: "lawful env P es \<Longrightarrow> policy \<in> P \<Longrightarrow> event_lawful env policy es (ae_event e) \<Longrightarrow> lawful env P (es @ [e])"

inductive_cases lawful_appendE: "lawful env P (es @ [e])"

lemma lawful_mono: "lawful env P es \<Longrightarrow> P \<subseteq> Q \<Longrightarrow> lawful env Q es"
  by (induction rule: lawful.induct) (auto intro: lawful.intros)

lemma lawful_prefix: "lawful env P (xs @ ys) \<Longrightarrow> lawful env P xs"
proof (induction ys rule: rev_induct)
  case (snoc y ys)
  from snoc.prems have "lawful env P ((xs @ ys) @ [y])" by simp
  then show ?case using snoc.IH by (cases rule: lawful.cases) auto
qed simp

lemma lawful_at:
  assumes "lawful env P (xs @ e # ys)"
  shows "\<exists>policy \<in> P. event_lawful env policy xs (ae_event e)"
proof -
  have "lawful env P (xs @ [e])" using lawful_prefix [of env P "xs @ [e]" ys] assms by simp
  then show ?thesis by (cases rule: lawful.cases) auto
qed

section \<open>The life of one approval\<close>

text \<open>What an entry does to the approval with one id.\<close>

definition own_step :: "string \<Rightarrow> authority_entry \<Rightarrow> approval option \<Rightarrow> approval option" where
  "own_step i e r = (case ae_event e of
       Registered x \<Rightarrow> if rg_approvalId x = i \<and> r = None then Some (registered x (ae_at e)) else r
     | Voted j x \<Rightarrow> if j = i then map_option (\<lambda>a. a\<lparr>ap_votes := ap_votes a @ [(x, entry_ref e)]\<rparr>) r else r
     | Decided j d \<Rightarrow> if j = i then map_option (\<lambda>a. a\<lparr>ap_status := status_of_decision (dd_decision d),
         ap_decision := Some (d, entry_ref e)\<rparr>) r else r
     | Withdrawn j x \<Rightarrow> if j = i then map_option (\<lambda>a. a\<lparr>ap_status := Approval_withdrawn,
         ap_withdrawn := Some (x, entry_ref e)\<rparr>) r else r
     | Consumed j h \<Rightarrow> if j = i then map_option (\<lambda>a. a\<lparr>ap_consumed := Some (ae_at e, entry_ref e)\<rparr>) r else r
     | Outcome j x \<Rightarrow> if j = i then map_option (\<lambda>a. a\<lparr>ap_outcome := Some (x, ae_at e)\<rparr>) r else r
     | _ \<Rightarrow> r)"

lemma update_approval_map: "map_of (update_approval j f v) i = (if j = i then map_option f (map_of v i) else map_of v i)"
  by (auto simp: update_approval_def split: option.splits)

lemma apply_entry_map: "map_of (apply_entry v e) i = own_step i e (map_of v i)"
  by (cases "ae_event e") (auto simp: apply_entry_def own_step_def update_approval_map)

lemma approval_at_Nil [simp]: "approval_at [] i = None"
  by (simp add: approval_at_def createApprovalView_def)

lemma approval_at_snoc: "approval_at (es @ [e]) i = own_step i e (approval_at es i)"
  by (simp add: approval_at_def createApprovalView_def apply_entry_map)

definition events :: "authority_entry list \<Rightarrow> authority_event set" where
  "events es = ae_event ` set es"

lemma events_simps [simp]: "events [] = {}" "events (es @ fs) = events es \<union> events fs"
    "events (e # es) = insert (ae_event e) (events es)"
  by (auto simp: events_def)

definition votes_for :: "string \<Rightarrow> authority_event \<Rightarrow> vote list" where
  "votes_for i ev = (case ev of Voted j v \<Rightarrow> if j = i then [v] else [] | _ \<Rightarrow> [])"

definition recorded_votes :: "string \<Rightarrow> authority_entry list \<Rightarrow> vote list" where
  "recorded_votes i es = concat (map (votes_for i \<circ> ae_event) es)"

lemma recorded_votes_simps [simp]: "recorded_votes i [] = []"
    "recorded_votes i (es @ [e]) = recorded_votes i es @ votes_for i (ae_event e)"
  by (simp_all add: recorded_votes_def)

lemma votes_for_other: "votes_for i ev \<noteq> [] \<Longrightarrow> \<exists>v. ev = Voted i v"
  by (cases ev) (auto simp: votes_for_def split: if_splits)

lemma in_recorded_votes: "v \<in> set (recorded_votes i es) \<longleftrightarrow> Voted i v \<in> events es"
  by (induction es rule: rev_induct) (auto simp: votes_for_def split: authority_event.splits if_splits)

fun names :: "authority_event \<Rightarrow> string option" where
  "names (Registered r) = Some (rg_approvalId r)"
| "names (Voted i v) = Some i"
| "names (Decided i d) = Some i"
| "names (Withdrawn i x) = Some i"
| "names (Consumed i h) = Some i"
| "names (Outcome i x) = Some i"
| "names _ = None"

lemma no_recorded_votes: "\<forall>ev \<in> events es. names ev \<noteq> Some i \<Longrightarrow> recorded_votes i es = []"
  using in_recorded_votes [of _ i es] by (cases "recorded_votes i es") force+

text \<open>The record of an approval tells which events of the history name it.\<close>

definition tells :: "js_env \<Rightarrow> authority_entry list \<Rightarrow> string \<Rightarrow> approval \<Rightarrow> bool" where
  "tells env es i a = (rg_approvalId (ap_reg a) = i \<and> Registered (ap_reg a) \<in> events es
     \<and> registration_lawful env (ap_reg a)
     \<and> plain_votes a = recorded_votes i es
     \<and> (ap_status a = Approval_pending \<longleftrightarrow> (\<forall>d. Decided i d \<notin> events es))
     \<and> (case ap_decision a of None \<Rightarrow> ap_status a = Approval_pending
          | Some (d, r) \<Rightarrow> Decided i d \<in> events es \<and> ap_status a \<in> {status_of_decision (dd_decision d), Approval_withdrawn})
     \<and> (ap_status a = Approval_withdrawn \<longleftrightarrow> (\<exists>x. Withdrawn i x \<in> events es))
     \<and> (ap_consumed a = None \<longleftrightarrow> (\<forall>h. Consumed i h \<notin> events es))
     \<and> (ap_consumed a \<noteq> None \<longrightarrow> ap_status a = Approval_approved)
     \<and> (ap_outcome a = None \<longleftrightarrow> (\<forall>x. Outcome i x \<notin> events es)))"

definition told :: "js_env \<Rightarrow> authority_entry list \<Rightarrow> string \<Rightarrow> bool" where
  "told env es i = (case approval_at es i of
     None \<Rightarrow> (\<forall>ev \<in> events es. names ev \<noteq> Some i) | Some a \<Rightarrow> tells env es i a)"

lemma status_of_decision_cases [simp]:
  "status_of_decision d \<noteq> Approval_pending" "status_of_decision d \<noteq> Approval_withdrawn"
  by (cases d; simp)+

lemma told_step:
  assumes "told env es i" and "event_lawful env policy es (ae_event e)"
  shows "told env (es @ [e]) i"
proof (cases "names (ae_event e) = Some i")
  case False
  then have "own_step i e r = r" and "votes_for i (ae_event e) = []" for r
    by (cases "ae_event e"; auto simp: own_step_def votes_for_def)+
  with False assms(1) show ?thesis
    by (cases "ae_event e"; cases "approval_at es i"; simp add: told_def tells_def approval_at_snoc split: option.splits prod.splits; blast?)
next
  case True
  with assms show ?thesis
    by (cases "ae_event e"; cases "approval_at es i")
      (auto simp: told_def tells_def approval_at_snoc own_step_def event_lawful_def votes_for_def
         registered_def plain_votes_def no_recorded_votes split: option.splits prod.splits if_splits)
qed

lemma lawful_told: "lawful env P es \<Longrightarrow> told env es i"
proof (induction rule: lawful.induct)
  case lawful_start
  then show ?case by (simp add: told_def)
next
  case (lawful_append es policy e)
  from lawful_append.IH lawful_append.hyps(3) show ?case by (rule told_step)
qed

lemma lawful_tells:
  assumes "lawful env P es" and "approval_at es i = Some a"
  shows "tells env es i a"
  using lawful_told [OF assms(1), of i] assms(2) by (simp add: told_def)

section \<open>Consequences\<close>

lemma decided_at:
  assumes "lawful env P (xs @ e # ys)" and "ae_event e = Decided i d"
  shows "\<exists>policy \<in> P. \<exists>a. approval_at xs i = Some a \<and> tells env xs i a \<and> ap_status a = Approval_pending
      \<and> decision_lawful env policy a d"
  using lawful_at [OF assms(1)] lawful_tells [OF lawful_prefix [OF assms(1)], of i] assms(2)
  by (auto simp: event_lawful_def)

lemma consumed_at:
  assumes "lawful env P (xs @ e # ys)" and "ae_event e = Consumed i h"
  shows "\<exists>a. approval_at xs i = Some a \<and> tells env xs i a \<and> ap_status a = Approval_approved
      \<and> ap_consumed a = None \<and> h = rg_actionHash (ap_reg a)"
  using lawful_at [OF assms(1)] lawful_tells [OF lawful_prefix [OF assms(1)], of i] assms(2)
  by (auto simp: event_lawful_def)

lemma undecided_before:
  assumes "lawful env P (xs @ e # ys)" and "ae_event e = Decided i d"
  shows "Decided i d' \<notin> events xs"
  using decided_at [OF assms] by (auto simp: tells_def)

lemma approved_means_decided:
  assumes "tells env xs i a" and "ap_status a = Approval_approved"
  shows "(\<exists>d. Decided i d \<in> events xs \<and> dd_decision d = Decision_approved) \<and> (\<forall>x. Withdrawn i x \<notin> events xs)"
proof -
  have "\<exists>d r. ap_decision a = Some (d, r) \<and> Decided i d \<in> events xs \<and> ap_status a = status_of_decision (dd_decision d)"
    using assms by (auto simp: tells_def split: option.splits prod.splits)
  then obtain d where d: "Decided i d \<in> events xs" "status_of_decision (dd_decision d) = Approval_approved"
    using assms(2) by auto
  then have "dd_decision d = Decision_approved" by (cases "dd_decision d") auto
  then show ?thesis using d(1) assms by (auto simp: tells_def)
qed

end
