(* ===== verification/Authority_Steps.thy ===== *)
theory Authority_Steps
  imports Authority_Protocol "HOL-Library.Sublist"
begin

text \<open>
  Reasoning about the requests of the approval authority: triples with a second postcondition for an
  early exit, and what the operator checks and the quorum rules give for the protocol.
\<close>

section \<open>Triples\<close>

definition keeps :: "(service \<Rightarrow> bool) \<Rightarrow> 'a request_step \<Rightarrow> ('a \<Rightarrow> service \<Rightarrow> bool) \<Rightarrow> (service \<Rightarrow> bool) \<Rightarrow> bool" where
  "keeps A m B R \<longleftrightarrow> (\<forall>s. A (sn_service s) \<longrightarrow>
     (\<forall>e t. m s = (Inl e, t) \<longrightarrow> R (sn_service t)) \<and> (\<forall>x t. m s = (Inr x, t) \<longrightarrow> B x (sn_service t)))"

lemma keepsI:
  assumes "\<And>s e t. A (sn_service s) \<Longrightarrow> m s = (Inl e, t) \<Longrightarrow> R (sn_service t)"
    and "\<And>s x t. A (sn_service s) \<Longrightarrow> m s = (Inr x, t) \<Longrightarrow> B x (sn_service t)"
  shows "keeps A m B R"
  using assms by (auto simp: keeps_def)

lemma keeps_left: "keeps A m B R \<Longrightarrow> A (sn_service s) \<Longrightarrow> m s = (Inl e, t) \<Longrightarrow> R (sn_service t)"
  by (auto simp: keeps_def)

lemma keeps_right: "keeps A m B R \<Longrightarrow> A (sn_service s) \<Longrightarrow> m s = (Inr x, t) \<Longrightarrow> B x (sn_service t)"
  by (auto simp: keeps_def)

lemma keeps_andThen:
  assumes "keeps A m C R" and "\<And>x. keeps (C x) (f x) B R"
  shows "keeps A (andThen m f) B R"
proof (rule keepsI)
  fix s e t assume s: "A (sn_service s)" "andThen m f s = (Inl e, t)"
  show "R (sn_service t)"
  proof (cases "m s")
    case (Pair r u)
    with s keeps_left [OF assms(1) s(1)] keeps_right [OF assms(1) s(1)] keeps_left [OF assms(2)]
    show ?thesis by (cases r) (auto simp: andThen_def)
  qed
next
  fix s x t assume s: "A (sn_service s)" "andThen m f s = (Inr x, t)"
  show "B x (sn_service t)"
  proof (cases "m s")
    case (Pair r u)
    with s keeps_right [OF assms(1) s(1)] keeps_right [OF assms(2)]
    show ?thesis by (cases r) (auto simp: andThen_def)
  qed
qed

lemma keeps_pre: "keeps A m B R \<Longrightarrow> (\<And>s. A' s \<Longrightarrow> A s) \<Longrightarrow> keeps A' m B R"
  unfolding keeps_def by blast

lemma keeps_post: "keeps A m B R \<Longrightarrow> (\<And>x s. B x s \<Longrightarrow> B' x s) \<Longrightarrow> keeps A m B' R"
  by (simp add: keeps_def)

lemma keeps_pure: "(\<phi> \<Longrightarrow> keeps A m B R) \<Longrightarrow> keeps (\<lambda>s. A s \<and> \<phi>) m B R"
  by (auto simp: keeps_def)

lemma keeps_ex: "(\<And>y. keeps (A y) m B R) \<Longrightarrow> keeps (\<lambda>s. \<exists>y. A y s) m B R"
  unfolding keeps_def by blast

lemma keeps_return: "(\<And>s. A s \<Longrightarrow> B x s) \<Longrightarrow> keeps A (return x) B R"
  by (simp add: keeps_def return_def)

lemma keeps_refuse: "(\<And>s. A s \<Longrightarrow> R s) \<Longrightarrow> keeps A (refuse n c fs) B R"
  by (simp add: keeps_def refuse_def leave_def)

lemma then_now: "(\<And>t. keeps A (f t) B R) \<Longrightarrow> keeps A (andThen now f) B R"
  by (rule keeps_andThen [where C = "\<lambda>t. A"]) (auto simp: keeps_def now_def)

lemma then_reading: "(\<And>x. keeps (\<lambda>s. A s \<and> g s = x) (f x) B R) \<Longrightarrow> keeps A (andThen (reading g) f) B R"
  by (rule keeps_andThen [where C = "\<lambda>x s. A s \<and> g s = x"]) (auto simp: keeps_def reading_def)

lemma then_return: "keeps A (f x) B R \<Longrightarrow> keeps A (andThen (return x) f) B R"
  by (simp add: keeps_def andThen_def return_def)

lemma then_changing:
  "keeps A' (f ()) B R \<Longrightarrow> (\<And>s. A s \<Longrightarrow> A' (g s)) \<Longrightarrow> keeps A (andThen (changing g) f) B R"
  by (rule keeps_andThen [where C = "\<lambda>_. A'"]) (auto simp: keeps_def changing_def)

lemma then_check:
  "(b \<Longrightarrow> keeps A (f ()) B R) \<Longrightarrow> (\<And>s. A s \<Longrightarrow> R s) \<Longrightarrow> keeps A (andThen (check_that b n c) f) B R"
  by (cases b) (auto simp: check_that_def keeps_def andThen_def return_def refuse_def leave_def)

lemma then_throw:
  "(\<And>y. x = Some y \<Longrightarrow> keeps A (f y) B R) \<Longrightarrow> (\<And>s. A s \<Longrightarrow> R s) \<Longrightarrow> keeps A (andThen (or_throw x) f) B R"
  by (cases x) (auto simp: or_throw_def keeps_def andThen_def return_def leave_def)

lemma then_intact:
  "keeps (\<lambda>s. A s \<and> ledger_intact s) (f ()) B R \<Longrightarrow> (\<And>s. A s \<Longrightarrow> R s) \<Longrightarrow> keeps A (andThen unless_corrupt f) B R"
  by (rule keeps_andThen [where C = "\<lambda>_ s. A s \<and> ledger_intact s"])
    (auto simp: unless_corrupt_def keeps_def andThen_def return_def refuse_def leave_def reading_def)

lemma then_approval:
  assumes "\<And>a. keeps (\<lambda>s. A s \<and> view_get i s = Some a) (f a) B R" and "\<And>s. A s \<Longrightarrow> R s"
  shows "keeps A (andThen (the_approval i) f) B R"
proof (rule keeps_andThen [where C = "\<lambda>a s. A s \<and> view_get i s = Some a"])
  show "keeps A (the_approval i) (\<lambda>a s. A s \<and> view_get i s = Some a) R"
    using assms(2) by (auto simp: the_approval_def keeps_def andThen_def reading_def return_def refuse_def leave_def
      split: option.splits)
qed (rule assms(1))

lemma keeps_served:
  assumes "keeps A m (\<lambda>_. R) R" and "A s"
  shows "R (snd (served m (session_of s clk outs saves)))"
proof -
  have "A (sn_service (session_of s clk outs saves))" using assms(2) by (simp add: session_of_def)
  from keeps_left [OF assms(1) this] keeps_right [OF assms(1) this] show ?thesis
    by (auto simp: served_def split: prod.splits sum.splits)
qed

section \<open>Operators\<close>

lemma authorize_entitles:
  assumes "authorizeApproval env policy (JStr i) requester DECIDE = Inr r"
  shows "entitled env policy requester (Some i)"
  using assms by (auto simp: authorizeApproval_def entitled_def Let_def split: rbac.splits option.splits if_splits)

lemma authorize_operator:
  assumes "authorizeApproval env (Rbac p) v requester DECIDE = Inr r"
  shows "\<exists>i. v = JStr i \<and> i \<noteq> []"
  using assms by (cases v) (auto simp: authorizeApproval_def OPERATOR_ID_def split: if_splits)

lemma resolve_entitles:
  assumes "resolveApprovalOperator env scrypt policy k h fallback requester = Inr identity"
  shows "entitled env policy requester (op_operatorId identity)"
proof (cases policy)
  case (Rbac p)
  show ?thesis
  proof (cases "rp_verifiers p = []")
    case True
    with assms Rbac obtain r where r: "authorizeApproval env policy fallback requester DECIDE = Inr r"
        and identity: "op_operatorId identity = operator_or_none fallback"
      by (auto simp: resolveApprovalOperator_def)
    from r Rbac authorize_operator obtain i where "fallback = JStr i" "i \<noteq> []" by metis
    then show ?thesis using r identity by (simp add: operator_or_none_def authorize_entitles)
  next
    case False
    with assms Rbac obtain r where "authorizeApproval env policy h requester DECIDE = Inr r"
        and "op_operatorId identity = Some (text_of_json h)" and "\<exists>i. h = JStr i"
      by (cases h) (auto simp: resolveApprovalOperator_def split: if_splits option.splits)
    then show ?thesis by (auto simp: authorize_entitles)
  qed
qed (use assms in \<open>auto simp: resolveApprovalOperator_def entitled_def\<close>)

lemma api_key_operator:
  assumes "resolveApprovalOperator env scrypt policy k h fallback requester = Inr identity"
    and "op_source identity = Api_key"
  shows "op_operatorId identity = Some (operator_text identity)"
  using assms by (auto simp: resolveApprovalOperator_def operator_text_def split: rbac.splits if_splits option.splits)

section \<open>Quorums\<close>

lemma set_first_occurrences [simp]: "set (first_occurrences xs) = set xs"
  by (simp add: first_occurrences_def)

lemma distinct_first_occurrences [simp]: "distinct (first_occurrences xs)"
  by (simp add: first_occurrences_def)

lemma approved_voters_set: "set (approved_voters (plain_votes a)) = voters_for a Decision_approved"
  by (auto simp: approved_voters_def voters_for_def)

lemma distinct_texts:
  "distinct (filter is_string ids) \<Longrightarrow> distinct (map text_of_json (filter (\<lambda>i. i \<in> JStr ` S) ids))"
  by (induction ids) (auto split: if_splits)

lemma quorum_progress:
  assumes "eligible_distinct el"
  shows "distinct (quorumProgress (plain_votes a) el)"
    and "set (quorumProgress (plain_votes a) el) \<subseteq> voters_for a Decision_approved"
    and "el = Some ids \<Longrightarrow> length (quorumProgress (plain_votes a) el) \<le> length ids"
  using assms by (auto simp: quorumProgress_def eligible_distinct_def approved_voters_set distinct_texts
    distinct_first_occurrences approved_voters_def simp del: approved_voters_set split: option.splits)
    (auto simp: approved_voters_def voters_for_def)

lemma find_rev_in: "find Q (rev xs) = Some x \<Longrightarrow> x \<in> set xs \<and> Q x"
  by (auto simp: find_Some_iff in_set_conv_nth rev_nth) (metis diff_Suc_less less_nat_zero_code not_gr_zero)

lemma completed_quorum:
  assumes "completedQuorum (plain_votes a) n el = Some c"
  shows "vt_operatorId (cq_finalVote c) \<in> voters_for a (cq_decision c)"
    and "cq_decision c = Decision_approved \<Longrightarrow> voters_for a Decision_rejected = {}
      \<and> n \<le> length (cq_approverIds c) \<and> cq_approverIds c = quorumProgress (plain_votes a) el"
proof -
  let ?veto = "find (\<lambda>v. vt_decision v = Decision_rejected) (rev (plain_votes a))"
  have "vt_operatorId (cq_finalVote c) \<in> voters_for a (cq_decision c) \<and> (cq_decision c = Decision_approved \<longrightarrow>
      voters_for a Decision_rejected = {} \<and> n \<le> length (cq_approverIds c)
      \<and> cq_approverIds c = quorumProgress (plain_votes a) el)"
  proof (cases ?veto)
    case None
    then have "voters_for a Decision_rejected = {}" by (auto simp: find_None_iff voters_for_def)
    with None assms show ?thesis
      by (auto simp: completedQuorum_def Let_def voters_for_def split: if_splits dest!: find_rev_in)
  next
    case (Some v)
    with assms find_rev_in [OF Some] show ?thesis
      by (auto simp: completedQuorum_def Let_def voters_for_def split: if_splits)
  qed
  then show "vt_operatorId (cq_finalVote c) \<in> voters_for a (cq_decision c)"
    and "cq_decision c = Decision_approved \<Longrightarrow> voters_for a Decision_rejected = {}
      \<and> n \<le> length (cq_approverIds c) \<and> cq_approverIds c = quorumProgress (plain_votes a) el"
    by blast+
qed

text \<open>Without a completed quorum a veto can only stand beside a threshold that cannot be met.\<close>

lemma no_completed_quorum:
  assumes "completedQuorum (plain_votes a) n el = None" and "voters_for a Decision_rejected \<noteq> {}"
  shows "\<exists>ids. el = Some ids \<and> length ids < n"
proof -
  have "find (\<lambda>v. vt_decision v = Decision_rejected) (rev (plain_votes a)) \<noteq> None"
    using assms(2) by (auto simp: find_None_iff voters_for_def)
  then show ?thesis
    using assms(1) by (auto simp: completedQuorum_def Let_def split: if_splits option.splits)
qed

end
