(* ===== verification/Authority_Invariants.thy ===== *)
theory Authority_Invariants
  imports Authority_Steps
begin

text \<open>
  Every request of the approval authority keeps its ledger within the protocol.  The locale
  \<open>request_invariant\<close> is the contract of a further invariant of the service, stated on the three
  durable changes a request can make (an append that succeeds, one that fails, a saved progress); the
  proof that all requests keep it is done once, inside.
\<close>

section \<open>Appends\<close>

lemma next_entry_event [simp]: "ae_event (next_entry env ev t l) = ev"
  by (simp add: next_entry_def Let_def split: prod.splits)

lemma append_succeeds:
  assumes "ledger_append_event env ev t out l = (Some e, l')"
  shows "al_corrupt l = None" and "al_corrupt l' = None" and "ae_event e = ev" and "e = next_entry env ev t l"
    and "al_records l' = al_records l @ [e]" and "al_lines l' = written_line (Some e) l" and "\<not> al_unended l'" and "out = Append_durable"
  using assms by (cases "al_corrupt l"; auto simp: ledger_append_event_def Let_def split: append_outcome.splits)+

lemma append_fails:
  assumes "ledger_append_event env ev t out l = (None, l')"
  shows "al_records l' = al_records l" and "al_corrupt l' \<noteq> None"
    and "l' = l \<or> al_corrupt l = None \<and> al_lines l' \<in> {al_lines l, written_line None l, written_line (Some (next_entry env ev t l)) l}"
  using assms by (cases "al_corrupt l"; auto simp: ledger_append_event_def Let_def split: append_outcome.splits)+

lemma view_snoc: "createApprovalView (es @ [e]) = apply_entry (createApprovalView es) e"
  by (simp add: createApprovalView_def)

section \<open>The invariant of the service\<close>

definition stops_known :: "service \<Rightarrow> bool" where
  "stops_known s = (\<forall>e \<in> set (al_records (sv_ledger s)). \<forall>fs. ae_event e = Stopped fs \<longrightarrow>
     \<not> is_object (field fs ''localHash'') \<longrightarrow> map_of (sv_stops s) (field fs ''localHash'') \<noteq> None)"

definition service_lawful :: "service_config \<Rightarrow> rbac set \<Rightarrow> service \<Rightarrow> bool" where
  "service_lawful cf P s = (sv_view s = createApprovalView (al_records (sv_ledger s))
     \<and> lawful (cf_env cf) P (al_records (sv_ledger s)) \<and> stops_known s)"

definition same_durable :: "service \<Rightarrow> service \<Rightarrow> bool" where
  "same_durable s s' = (sv_ledger s' = sv_ledger s \<and> sv_view s' = sv_view s \<and> sv_totp s' = sv_totp s)"

definition is_stop :: "authority_event \<Rightarrow> bool" where
  "is_stop ev = (case ev of Stopped fs \<Rightarrow> True | _ \<Rightarrow> False)"

lemma service_lawful_view: "service_lawful cf P s \<Longrightarrow> view_get i s = approval_at (al_records (sv_ledger s)) i"
  by (simp add: service_lawful_def view_get_def approval_at_def)

lemma service_lawful_tells:
  "service_lawful cf P s \<Longrightarrow> view_get i s = Some a \<Longrightarrow> tells (cf_env cf) (al_records (sv_ledger s)) i a"
  using lawful_tells service_lawful_view unfolding service_lawful_def by metis

lemma service_lawful_durable:
  "service_lawful cf P s \<Longrightarrow> same_durable s s' \<Longrightarrow> sv_stops s' = sv_stops s \<Longrightarrow> service_lawful cf P s'"
  by (simp add: service_lawful_def same_durable_def stops_known_def)

lemma service_lawful_append:
  assumes "service_lawful cf P s" and "event_lawful (cf_env cf) (cf_rbac cf) (al_records (sv_ledger s)) ev"
    and "cf_rbac cf \<in> P" and "ledger_append_event (cf_env cf) ev t out (sv_ledger s) = (Some e, l)"
  shows "\<not> is_stop ev \<Longrightarrow> service_lawful cf P (s\<lparr>sv_ledger := l, sv_view := apply_entry (sv_view s) e\<rparr>)"
    and "ev = Stopped fs \<Longrightarrow> service_lawful cf P (s\<lparr>sv_ledger := l, sv_view := apply_entry (sv_view s) e,
      sv_stops := alist_put (field fs ''localHash'') e (sv_stops s)\<rparr>)"
  using assms append_succeeds [OF assms(4)] lawful_append [of "cf_env cf" P _ "cf_rbac cf" e]
  by (auto simp: service_lawful_def stops_known_def view_snoc is_stop_def split: authority_event.splits)

lemma service_lawful_failed:
  assumes "service_lawful cf P s" and "ledger_append_event (cf_env cf) ev t out (sv_ledger s) = (None, l)"
  shows "service_lawful cf P (s\<lparr>sv_ledger := l\<rparr>)"
  using assms append_fails(1) [OF assms(2)] by (simp add: service_lawful_def stops_known_def)

lemma service_lawful_saved: "service_lawful cf P s \<Longrightarrow> service_lawful cf P (s\<lparr>sv_totp := p\<rparr>)"
  by (simp add: service_lawful_def stops_known_def)

definition holding :: "service_config \<Rightarrow> rbac set \<Rightarrow> (service \<Rightarrow> bool) \<Rightarrow> service \<Rightarrow> bool" where
  "holding cf P I s = (service_lawful cf P s \<and> I s)"

section \<open>The contract\<close>

locale request_invariant =
  fixes cf :: service_config and P :: "rbac set" and I :: "service \<Rightarrow> bool"
  assumes policy: "cf_rbac cf \<in> P"
    and memory: "I s \<Longrightarrow> same_durable s s' \<Longrightarrow> I s'"
    and appended: "service_lawful cf P s \<Longrightarrow> I s \<Longrightarrow>
      event_lawful (cf_env cf) (cf_rbac cf) (al_records (sv_ledger s)) ev \<Longrightarrow>
      ledger_append_event (cf_env cf) ev t out (sv_ledger s) = (Some e, l) \<Longrightarrow>
      I (s\<lparr>sv_ledger := l, sv_view := apply_entry (sv_view s) e\<rparr>)"
    and failed: "service_lawful cf P s \<Longrightarrow> I s \<Longrightarrow>
      event_lawful (cf_env cf) (cf_rbac cf) (al_records (sv_ledger s)) ev \<Longrightarrow>
      ledger_append_event (cf_env cf) ev t out (sv_ledger s) = (None, l) \<Longrightarrow> I (s\<lparr>sv_ledger := l\<rparr>)"
    and saved: "I s \<Longrightarrow> \<not> locked_at (sv_totp s) n \<Longrightarrow>
      I (s\<lparr>sv_totp := oc_progress (checkOperatorCode (cf_hmac cf) (cf_secret cf) code n (sv_totp s))\<rparr>)"
begin

lemma holding_memory:
  assumes "holding cf P I s"
  shows "holding cf P I (s\<lparr>sv_attempts := x\<rparr>)" "holding cf P I (s\<lparr>sv_operatorAttempts := x\<rparr>)"
    "holding cf P I (s\<lparr>sv_stopAttempts := x\<rparr>)" "holding cf P I (s\<lparr>sv_registeredTimes := x\<rparr>)"
  using assms memory [of s] service_lawful_durable [of cf P s] by (simp_all add: holding_def same_durable_def)

lemma record_keeps:
  assumes "\<And>s. A s \<Longrightarrow> holding cf P I s"
    and "\<And>s. A s \<Longrightarrow> event_lawful (cf_env cf) (cf_rbac cf) (al_records (sv_ledger s)) ev"
  shows "keeps A (record_event cf ev) (\<lambda>e s. ae_event e = ev \<and> (\<exists>s0. A s0 \<and> sv_view s = apply_entry (sv_view s0) e)
      \<and> (\<not> is_stop ev \<longrightarrow> holding cf P I s)
      \<and> (\<forall>fs. ev = Stopped fs \<longrightarrow> holding cf P I (s\<lparr>sv_stops := alist_put (field fs ''localHash'') e (sv_stops s)\<rparr>)))
    (holding cf P I)"
proof (rule keepsI)
  fix s x t assume A: "A (sn_service s)" and run: "record_event cf ev s = (Inl x, t)"
  let ?v = "sn_service s"
  obtain tm l where "ledger_append_event (cf_env cf) ev tm (sn_appends s 0) (sv_ledger ?v) = (None, l)"
      and t: "sn_service t = ?v\<lparr>sv_ledger := l\<rparr>"
    using run by (auto simp: record_event_def andThen_def now_def append_step_def changing_def return_def Let_def
      split: prod.splits sum.splits option.splits)
  then show "holding cf P I (sn_service t)"
    using assms [OF A] failed service_lawful_failed by (auto simp: holding_def)
next
  fix s e t assume A: "A (sn_service s)" and run: "record_event cf ev s = (Inr e, t)"
  let ?v = "sn_service s"
  obtain tm l where app: "ledger_append_event (cf_env cf) ev tm (sn_appends s 0) (sv_ledger ?v) = (Some e, l)"
      and t: "sn_service t = ?v\<lparr>sv_ledger := l, sv_view := apply_entry (sv_view ?v) e\<rparr>"
    using run by (auto simp: record_event_def andThen_def now_def append_step_def changing_def return_def Let_def
      split: prod.splits sum.splits option.splits)
  have I: "I (sn_service t)" using assms [OF A] appended app unfolding t by (auto simp: holding_def)
  have "\<not> is_stop ev \<longrightarrow> holding cf P I (sn_service t)"
    using service_lawful_append(1) [OF _ assms(2) [OF A] policy app] assms(1) [OF A] I
    unfolding t by (auto simp: holding_def)
  moreover have "\<forall>fs. ev = Stopped fs \<longrightarrow>
      holding cf P I ((sn_service t)\<lparr>sv_stops := alist_put (field fs ''localHash'') e (sv_stops (sn_service t))\<rparr>)"
    using service_lawful_append(2) [OF _ assms(2) [OF A] policy app] assms(1) [OF A] memory [OF I]
    unfolding t by (auto simp: holding_def same_durable_def)
  moreover have "\<exists>s0. A s0 \<and> sv_view (sn_service t) = apply_entry (sv_view s0) e"
    using A unfolding t by auto
  ultimately show "ae_event e = ev \<and> (\<exists>s0. A s0 \<and> sv_view (sn_service t) = apply_entry (sv_view s0) e)
      \<and> (\<not> is_stop ev \<longrightarrow> holding cf P I (sn_service t))
      \<and> (\<forall>fs. ev = Stopped fs \<longrightarrow>
           holding cf P I ((sn_service t)\<lparr>sv_stops := alist_put (field fs ''localHash'') e (sv_stops (sn_service t))\<rparr>))"
    using append_succeeds(3) [OF app] by blast
qed

text \<open>The record of an event and what follows, where the event is no stop.\<close>

lemma then_record:
  assumes "\<And>s. A s \<Longrightarrow> holding cf P I s"
    and "\<And>s. A s \<Longrightarrow> event_lawful (cf_env cf) (cf_rbac cf) (al_records (sv_ledger s)) ev"
    and "\<not> is_stop ev"
    and "\<And>e. ae_event e = ev \<Longrightarrow>
      keeps (\<lambda>s. holding cf P I s \<and> (\<exists>s0. A s0 \<and> sv_view s = apply_entry (sv_view s0) e)) (f e) B (holding cf P I)"
  shows "keeps A (andThen (record_event cf ev) f) B (holding cf P I)"
proof (rule keeps_andThen [OF record_keeps [OF assms(1,2)]])
  fix e
  show "keeps (\<lambda>s. ae_event e = ev \<and> (\<exists>s0. A s0 \<and> sv_view s = apply_entry (sv_view s0) e)
      \<and> (\<not> is_stop ev \<longrightarrow> holding cf P I s)
      \<and> (\<forall>fs. ev = Stopped fs \<longrightarrow> holding cf P I (s\<lparr>sv_stops := alist_put (field fs ''localHash'') e (sv_stops s)\<rparr>)))
    (f e) B (holding cf P I)"
    using assms(3) assms(4) [of e] unfolding keeps_def by blast
qed auto

text \<open>Events that concern no approval may always be recorded.\<close>

definition free_event :: "authority_event \<Rightarrow> bool" where
  "free_event ev = (case ev of Vote_denied i fs \<Rightarrow> True | Totp_failed i c \<Rightarrow> True | Totp_lockout t \<Rightarrow> True | _ \<Rightarrow> False)"

lemma then_free:
  assumes "free_event ev" and "\<And>s. A s \<Longrightarrow> holding cf P I s" and "\<And>e. keeps (holding cf P I) (f e) B (holding cf P I)"
  shows "keeps A (andThen (record_event cf ev) f) B (holding cf P I)"
proof (rule then_record)
  show "holding cf P I s" if "A s" for s using assms(2) that .
  show "event_lawful (cf_env cf) (cf_rbac cf) (al_records (sv_ledger s)) ev" for s
    using assms(1) by (auto simp: free_event_def event_lawful_def split: authority_event.splits)
  show "\<not> is_stop ev" using assms(1) by (auto simp: free_event_def is_stop_def split: authority_event.splits)
  show "keeps (\<lambda>s. holding cf P I s \<and> (\<exists>s0. A s0 \<and> sv_view s = apply_entry (sv_view s0) e)) (f e) B (holding cf P I)" for e
    by (rule keeps_pre [OF assms(3)]) simp
qed

end

end
