(* ===== verification/Authority_Requests.thy ===== *)
theory Authority_Requests
  imports Authority_Invariants
begin

text \<open>
  Inside the contract \<open>request_invariant\<close>: each request of the approval authority keeps the protocol
  and the further invariant, first the steps requests share, then the requests.
\<close>

lemma decision_of_name: "x \<in> {''approved'', ''rejected''} \<Longrightarrow> decision_name (decision_of x) = x"
  by (auto simp: decision_of_def)

lemma decision_of_approved [simp]: "decision_of x = Decision_approved \<longleftrightarrow> x = ''approved''"
  by (simp add: decision_of_def)

lemma decision_of_rejected [simp]: "decision_of x = Decision_rejected \<longleftrightarrow> x \<noteq> ''approved''"
  by (simp add: decision_of_def)

lemma plain_votes_voted [simp]: "plain_votes (a\<lparr>ap_votes := ap_votes a @ [(v, r)]\<rparr>) = plain_votes a @ [v]"
  by (simp add: plain_votes_def)

lemma voters_for_voted:
  "voters_for (a\<lparr>ap_votes := ap_votes a @ [(v, r)]\<rparr>) x =
     (if vt_decision v = x then insert (vt_operatorId v) (voters_for a x) else voters_for a x)"
  by (auto simp: voters_for_def)

lemma status_step [simp]: "ap_status (a\<lparr>ap_votes := vs\<rparr>) = ap_status a"
  by simp

lemma view_get_voted:
  assumes "view_get i s0 = Some a" and "sv_view s = apply_entry (sv_view s0) e" and "ae_event e = Voted i v"
  shows "view_get i s = Some (a\<lparr>ap_votes := ap_votes a @ [(v, entry_ref e)]\<rparr>)"
  using assms by (simp add: view_get_def apply_entry_map own_step_def)

section \<open>The decisions a request records\<close>

lemma quorumVote_decision [simp]: "vt_decision (quorumVote cf a identity r n t) = decision_of (oq_decision r)"
  and quorumVote_operator [simp]: "vt_operatorId (quorumVote cf a identity r n t) = operator_text identity"
  by (simp_all add: quorumVote_def)

lemma quorum_vote_lawful:
  assumes "required (cf_rbac cf) a = n" "n > 1" and "op_source identity = Api_key"
    and "entitled (cf_env cf) (cf_rbac cf) (requester_json a) (Some (operator_text identity))"
    and "\<And>ids. rg_eligible (ap_reg a) = Some ids \<Longrightarrow> JStr (operator_text identity) \<in> set ids"
    and "find (\<lambda>v. vt_operatorId v = operator_text identity) (plain_votes a) = None"
  shows "vote_lawful (cf_env cf) (cf_rbac cf) a (quorumVote cf a identity r n t)"
  using assms by (auto simp: vote_lawful_def quorumVote_def find_None_iff)

lemma operator_label_written: "operator_label identity = written_operator (op_operatorId identity)"
  by (simp add: operator_label_def written_operator_def)

lemma quorum_decision_lawful:
  fixes a r identity cf n t ref
  defines "b \<equiv> a\<lparr>ap_votes := ap_votes a @ [(quorumVote cf a identity r n t, ref)]\<rparr>"
  defines "ids \<equiv> quorumProgress (plain_votes b) (rg_eligible (ap_reg b))"
  assumes n: "required (cf_rbac cf) a = n" "n > 1" and el: "eligible_distinct (rg_eligible (ap_reg a))"
    and who: "op_operatorId identity = Some (operator_text identity)"
    and open_quorum: "completedQuorum (plain_votes a) n (rg_eligible (ap_reg a)) = None"
    and x: "oq_decision r \<in> {''approved'', ''rejected''}" "\<not> (oq_decision r = ''approved'' \<and> length ids < n)"
  shows "decision_lawful (cf_env cf) (cf_rbac cf) b (decision_by cf a identity r
    (Some (if oq_decision r = ''approved'' then ids else [operator_text identity])) (Some n) t u)"
proof -
  have b: "ap_reg b = ap_reg a" by (simp add: b_def)
  have req: "required (cf_rbac cf) b = n" using n by (simp add: required_def b)
  have voted: "operator_text identity \<in> voters_for b (decision_of (oq_decision r))"
    by (simp add: b_def voters_for_voted)
  note progress = quorum_progress [OF el, where a = b, folded b, folded ids_def]
  show ?thesis
  proof (cases "oq_decision r = ''approved''")
    case True
    have "voters_for b Decision_rejected = voters_for a Decision_rejected"
      using True by (simp add: b_def voters_for_voted)
    moreover have "voters_for a Decision_rejected = {}"
    proof (rule ccontr)
      assume "voters_for a Decision_rejected \<noteq> {}"
      from no_completed_quorum [OF open_quorum this] progress(3) True x(2) show False by (auto simp: b)
    qed
    ultimately show ?thesis
      using True n x progress(1,2) voted
      by (auto simp: decision_lawful_def decision_by_def req b who operator_label_written)
  next
    case False
    with voted have "operator_text identity \<in> voters_for b Decision_rejected" by (simp add: decision_of_def)
    then show ?thesis using False n voted
      by (auto simp: decision_lawful_def decision_by_def req b who operator_label_written decision_of_def)
  qed
qed

lemma single_decision_lawful:
  assumes "required (cf_rbac cf) a \<le> 1" and "entitled (cf_env cf) (cf_rbac cf) (requester_json a) (op_operatorId identity)"
  shows "decision_lawful (cf_env cf) (cf_rbac cf) a (decision_by cf a identity r None None t u)"
  using assms by (simp add: decision_lawful_def decision_by_def operator_label_written)

lemma recovered_decision_lawful:
  assumes "completedQuorum (plain_votes a) n (rg_eligible (ap_reg a)) = Some c"
    and "required (cf_rbac cf) a = n" "n > 1" and "eligible_distinct (rg_eligible (ap_reg a))"
    and "recovered_decision cf a n c = Some d"
  shows "decision_lawful (cf_env cf) (cf_rbac cf) a d"
proof -
  note c = completed_quorum [OF assms(1)]
  have d: "dd_actionHash d = rg_actionHash (ap_reg a)" "dd_decision d = cq_decision c" "dd_quorumRequired d = Some n"
      "dd_operatorId d = Some (vt_operatorId (cq_finalVote c))" "dd_operator d = written_operator (dd_operatorId d)"
      "dd_approverIds d = Some (if cq_decision c = Decision_rejected then [vt_operatorId (cq_finalVote c)] else cq_approverIds c)"
    using assms(5) by (auto simp: recovered_decision_def Let_def written_operator_def split: option.splits)
  show ?thesis
  proof (cases "cq_decision c")
    case Decision_approved
    then show ?thesis
      using c d assms(2,3) quorum_progress(1,2) [OF assms(4), of a] by (auto simp: decision_lawful_def)
  next
    case Decision_rejected
    then show ?thesis using c(1) d assms(2,3) by (auto simp: decision_lawful_def)
  qed
qed

lemma distinct_when_no_repeats: "\<not> repeats_element ids \<Longrightarrow> distinct (filter is_string ids)"
proof (induction ids)
  case (Cons x xs)
  then have "\<not> list_ex (strict_eq x) xs" and IH: "distinct (filter is_string xs)" by simp_all
  then have "is_string x \<Longrightarrow> x \<notin> set xs" by (cases x) (auto simp: list_ex_iff strict_eq_def)
  with IH show ?case by simp
qed simp

lemma string_matches_text: "string_matches f v \<Longrightarrow> JStr (text_of_json v) = v"
  by (cases v) simp_all

lemma validated_registration:
  assumes "validateRegistration env input t = Inr r"
  shows "jget input ''approvalId'' = JStr (rg_approvalId r)" and "registration_lawful env r"
proof -
  let ?f = "jget input"
  have ok: "string_matches APPROVAL_ID (?f ''approvalId'')" "bounded_text False (?f ''workspaceId'')"
      "bounded_text False (?f ''tool'')" "r = registration_of input"
      "?f ''eligibleApprovers'' = JUndefined \<or> eligible_ok env (?f ''eligibleApprovers'')"
    and hash: "\<exists>h. canonicalActionHash env (?f ''tool'') (?f ''workspaceId'') (?f ''approvalId'') (?f ''arguments'') = Some h
        \<and> ?f ''actionHash'' = JStr h"
    using assms by (auto simp: validateRegistration_def Let_def split: option.splits if_splits)
  note texts = string_matches_text [OF ok(1)] string_matches_text [OF ok(2) [unfolded bounded_text_def]]
    string_matches_text [OF ok(3) [unfolded bounded_text_def]]
  show "?f ''approvalId'' = JStr (rg_approvalId r)" by (simp add: ok(4) registration_of_def texts)
  have "eligible_distinct (rg_eligible r)"
    using ok(4,5) by (auto simp: registration_of_def eligible_distinct_def eligible_ok_def distinct_when_no_repeats)
  then show "registration_lawful env r" using hash ok(4) by (auto simp: registration_lawful_def registration_of_def texts)
qed

section \<open>Steps\<close>

context request_invariant
begin

abbreviation (input) shape :: "(approvals \<Rightarrow> bool) \<Rightarrow> service \<Rightarrow> bool" where
  "shape \<Phi> s \<equiv> holding cf P I s \<and> \<Phi> (sv_view s)"

lemma holding_at:
  assumes "shape (\<lambda>v. map_of v i = Some a) s"
  shows "approval_at (al_records (sv_ledger s)) i = Some a"
  using assms service_lawful_view [of cf P s i] by (simp add: holding_def view_get_def)

lemma window_keeps: "keeps (shape \<Phi>) (operatorWindowFull t) (\<lambda>_. shape \<Phi>) R"
  unfolding operatorWindowFull_def
  by (rule then_changing [where A' = "shape \<Phi>"]) (auto simp: keeps_def reading_def holding_memory)

lemma deny_keeps: "keeps (shape \<Phi>) (denyOperatorAttempt cf i c n op d au) B (holding cf P I)"
  unfolding denyOperatorAttempt_def
proof (rule then_now, rule keeps_andThen [OF window_keeps])
  fix t full
  show "keeps (shape \<Phi>) (if full then refuse 429 ''RATE_LIMITED'' []
      else andThen (changing (\<lambda>v. v\<lparr>sv_operatorAttempts := sv_operatorAttempts v @ [t]\<rparr>)) (\<lambda>_.
        andThen (record_event cf (Vote_denied i ([(''code'', JStr c), (''attemptedAt'', JStr (iso_at (cf_env cf) t))]
          @ optional_field ''operatorId'' (map_option JStr op) @ au))) (\<lambda>_. refuse n c d))) B (holding cf P I)"
    by (cases full) (auto intro!: keeps_refuse then_changing [where A' = "holding cf P I"] then_free
      simp: free_event_def holding_memory)
qed

lemma resolve_keeps:
  "keeps (shape \<Phi>) (resolveOperator cf i k h r) (\<lambda>identity s. shape \<Phi> s
     \<and> resolveApprovalOperator (cf_env cf) (cf_scrypt cf) (cf_rbac cf) k h (cf_operatorId cf) r = Inr identity) (holding cf P I)"
  unfolding resolveOperator_def
  by (rule then_now, rule keeps_andThen [OF window_keeps])
    (auto intro!: keeps_refuse keeps_return deny_keeps split: sum.splits)

lemma refused_code_keeps: "keeps (holding cf P I) (refused_code cf i check code) B (holding cf P I)"
proof -
  have 1: "keeps (holding cf P I) (if b then andThen (record_event cf (Totp_failed i c)) (\<lambda>_. return ()) else return ())
      (\<lambda>_. holding cf P I) (holding cf P I)" for b c
    by (auto intro!: then_free keeps_return simp: free_event_def)
  have 2: "keeps (holding cf P I) (case (b, x) of (True, Some t) \<Rightarrow>
      andThen (record_event cf (Totp_lockout (iso_at (cf_env cf) t))) (\<lambda>_. return ()) | _ \<Rightarrow> return ())
      (\<lambda>_. holding cf P I) (holding cf P I)" for b x
    by (auto intro!: then_free keeps_return simp: free_event_def split: bool.splits option.splits)
  show ?thesis unfolding refused_code_def
    by (rule keeps_andThen [OF 1], rule keeps_andThen [OF 2], rule keeps_refuse)
qed

lemma holding_saved:
  assumes "holding cf P I s" and "\<not> locked_at (sv_totp s) t"
  shows "holding cf P I (s\<lparr>sv_totp := oc_progress (checkOperatorCode (cf_hmac cf) (cf_secret cf) c t (sv_totp s))\<rparr>)"
  using assms saved service_lawful_saved by (simp add: holding_def)

lemma spend_keeps: "keeps (shape \<Phi>) (spend_code cf i c) (\<lambda>_. shape \<Phi>) (holding cf P I)"
  unfolding spend_code_def Let_def
proof (rule then_reading, rule then_now)
  fix p t
  let ?check = "checkOperatorCode (cf_hmac cf) (cf_secret cf) c t p"
  have save: "keeps (\<lambda>s. shape \<Phi> s \<and> sv_totp s = p)
      (if locked_at p t then return () else save_progress (oc_progress ?check)) (\<lambda>_. shape \<Phi>) (holding cf P I)"
    by (auto simp: keeps_def return_def save_progress_def holding_saved)
  show "keeps (\<lambda>s. shape \<Phi> s \<and> sv_totp s = p)
      (andThen (if locked_at p t then return () else save_progress (oc_progress ?check)) (\<lambda>_.
        case oc_result ?check of Inr counter \<Rightarrow> return () | Inl c \<Rightarrow> refused_code cf i ?check c))
      (\<lambda>_. shape \<Phi>) (holding cf P I)"
  proof (rule keeps_andThen [OF save])
    fix u
    show "keeps (shape \<Phi>) (case oc_result ?check of Inr counter \<Rightarrow> return () | Inl c \<Rightarrow> refused_code cf i ?check c)
        (\<lambda>_. shape \<Phi>) (holding cf P I)"
      by (cases "oc_result ?check") (auto intro: keeps_return keeps_pre [OF refused_code_keeps])
  qed
qed

lemma open_keeps:
  "keeps (shape \<Phi>) (openOperatorRequest cf i a x allowed identity) (\<lambda>r s. shape \<Phi> s \<and> oq_decision r \<in> set allowed)
     (holding cf P I)"
proof (cases "openDecisionRequest (cf_env cf) (cf_unseal cf) x i (op_source identity \<noteq> Api_key)")
  case (Inl c)
  show ?thesis unfolding openOperatorRequest_def Let_def Inl sum.case by (rule keeps_refuse) simp
next
  case (Inr r)
  show ?thesis unfolding openOperatorRequest_def Let_def Inr sum.case
    by (intro then_check) (auto intro!: then_check keeps_return keeps_andThen [OF spend_keeps])
qed

lemma decision_keeps:
  assumes "\<And>s. A s \<Longrightarrow> holding cf P I s"
    and "\<And>s. A s \<Longrightarrow> \<exists>a. view_get i s = Some a \<and> ap_status a = Approval_pending \<and> decision_lawful (cf_env cf) (cf_rbac cf) a d"
  shows "keeps A (record_decision cf i d extra) (\<lambda>_. holding cf P I) (holding cf P I)"
  unfolding record_decision_def
proof (rule then_record [OF assms(1)])
  fix s assume "A s"
  from assms(2) [OF this] assms(1) [OF this]
  show "event_lawful (cf_env cf) (cf_rbac cf) (al_records (sv_ledger s)) (Decided i d)"
    using service_lawful_view [of cf P s] by (simp add: event_lawful_def holding_def)
next
  fix e
  show "keeps (\<lambda>s. holding cf P I s \<and> (\<exists>s0. A s0 \<and> sv_view s = apply_entry (sv_view s0) e))
     (andThen (the_approval i) (\<lambda>a. andThen (or_throw (envelopeFor cf a)) (\<lambda>v. return (reply 200 ((''envelope'', v) # extra)))))
     (\<lambda>_. holding cf P I) (holding cf P I)"
    by (intro then_approval then_throw keeps_return) auto
qed (auto simp: is_stop_def)

lemma cast_vote_keeps:
  assumes "ap_status a = Approval_pending" and n: "required (cf_rbac cf) a = n" "n > 1"
    and voter: "op_source identity = Api_key"
      "entitled (cf_env cf) (cf_rbac cf) (requester_json a) (Some (operator_text identity))"
      "\<And>ids. rg_eligible (ap_reg a) = Some ids \<Longrightarrow> JStr (operator_text identity) \<in> set ids"
      "find (\<lambda>v. vt_operatorId v = operator_text identity) (plain_votes a) = None"
    and who: "op_operatorId identity = Some (operator_text identity)"
    and open_quorum: "completedQuorum (plain_votes a) n (rg_eligible (ap_reg a)) = None"
    and x: "oq_decision r \<in> {''approved'', ''rejected''}"
  shows "keeps (shape (\<lambda>v. map_of v i = Some a)) (cast_vote cf i a identity r n t until) (\<lambda>_. holding cf P I) (holding cf P I)"
  unfolding cast_vote_def Let_def
proof (rule then_record)
  fix s assume s: "shape (\<lambda>v. map_of v i = Some a) s"
  then have "approval_at (al_records (sv_ledger s)) i = Some a" by (rule holding_at)
  then show "event_lawful (cf_env cf) (cf_rbac cf) (al_records (sv_ledger s)) (Voted i (quorumVote cf a identity r n t))"
    using quorum_vote_lawful [OF n voter] assms(1) by (simp add: event_lawful_def)
next
  fix e :: authority_entry assume e: "ae_event e = Voted i (quorumVote cf a identity r n t)"
  let ?b = "a\<lparr>ap_votes := ap_votes a @ [(quorumVote cf a identity r n t, entry_ref e)]\<rparr>"
  let ?A = "\<lambda>s. holding cf P I s \<and> (\<exists>s0. shape (\<lambda>v. map_of v i = Some a) s0 \<and> sv_view s = apply_entry (sv_view s0) e)"
  have seen: "view_get i s = Some ?b \<and> eligible_distinct (rg_eligible (ap_reg a))" if "?A s" for s
  proof -
    from that obtain s0 where "shape (\<lambda>v. map_of v i = Some a) s0" "sv_view s = apply_entry (sv_view s0) e" by blast
    then have "view_get i s = Some ?b" using view_get_voted [OF _ _ e, of s0 a s] by (simp add: view_get_def)
    with that service_lawful_tells [of cf P s i] show ?thesis
      by (auto simp: holding_def tells_def registration_lawful_def)
  qed
  show "keeps ?A (andThen (the_approval i) (\<lambda>voted.
      if oq_decision r = ''approved'' \<and> length (quorumProgress (plain_votes voted) (rg_eligible (ap_reg voted))) < n
      then return (pending_answer cf i voted [])
      else andThen (or_throw until) (\<lambda>until. record_decision cf i (decision_by cf a identity r
        (Some (if oq_decision r = ''approved'' then quorumProgress (plain_votes voted) (rg_eligible (ap_reg voted))
           else [operator_text identity])) (Some n) t until) [])))
      (\<lambda>_. holding cf P I) (holding cf P I)"
  proof (rule then_approval)
    fix voted
    show "keeps (\<lambda>s. ?A s \<and> view_get i s = Some voted) (if oq_decision r = ''approved''
        \<and> length (quorumProgress (plain_votes voted) (rg_eligible (ap_reg voted))) < n
      then return (pending_answer cf i voted [])
      else andThen (or_throw until) (\<lambda>until. record_decision cf i (decision_by cf a identity r
        (Some (if oq_decision r = ''approved'' then quorumProgress (plain_votes voted) (rg_eligible (ap_reg voted))
           else [operator_text identity])) (Some n) t until) []))
      (\<lambda>_. holding cf P I) (holding cf P I)"
    proof (cases "oq_decision r = ''approved''
        \<and> length (quorumProgress (plain_votes voted) (rg_eligible (ap_reg voted))) < n")
      case True
      show ?thesis unfolding if_P [OF True] by (rule keeps_return) simp
    next
      case False
      show ?thesis unfolding if_not_P [OF False]
      proof (rule then_throw, rule decision_keeps)
        fix u s assume s: "?A s \<and> view_get i s = Some voted"
        then have "voted = ?b" using seen [of s] by simp
        with s seen [of s] False assms(1) quorum_decision_lawful [OF n _ who open_quorum x, of t "entry_ref e" u]
        show "\<exists>a'. view_get i s = Some a' \<and> ap_status a' = Approval_pending
          \<and> decision_lawful (cf_env cf) (cf_rbac cf) a' (decision_by cf a identity r
            (Some (if oq_decision r = ''approved'' then quorumProgress (plain_votes voted) (rg_eligible (ap_reg voted))
               else [operator_text identity])) (Some n) t u)"
          by auto
      qed auto
    qed
  qed auto
qed (auto simp: is_stop_def)

lemma quorum_decide_keeps:
  assumes "ap_status a = Approval_pending" and n: "required (cf_rbac cf) a = n" "n > 1"
    and voter: "op_source identity = Api_key"
      "entitled (cf_env cf) (cf_rbac cf) (requester_json a) (Some (operator_text identity))"
      "\<And>ids. rg_eligible (ap_reg a) = Some ids \<Longrightarrow> JStr (operator_text identity) \<in> set ids"
    and who: "op_operatorId identity = Some (operator_text identity)"
    and open_quorum: "completedQuorum (plain_votes a) n (rg_eligible (ap_reg a)) = None"
    and x: "oq_decision r \<in> {''approved'', ''rejected''}"
  shows "keeps (shape (\<lambda>v. map_of v i = Some a)) (quorum_decide cf i a identity r n t until) (\<lambda>_. holding cf P I) (holding cf P I)"
proof (cases "find (\<lambda>v. vt_operatorId v = operator_text identity) (plain_votes a)")
  case None
  show ?thesis unfolding quorum_decide_def None option.case
    by (rule cast_vote_keeps [OF assms(1) n voter None who open_quorum x])
next
  case (Some prior)
  then show ?thesis
    by (cases "repeatVote prior (oq_decision r)") (auto simp: quorum_decide_def intro: keeps_return deny_keeps)
qed

lemma quorum_member_keeps:
  "keeps (shape \<Phi>) (quorum_member cf i a identity n) (\<lambda>_ s. shape \<Phi> s \<and> (n > 1 \<longrightarrow> op_source identity = Api_key
     \<and> (\<forall>ids. rg_eligible (ap_reg a) = Some ids \<longrightarrow> JStr (operator_text identity) \<in> set ids))) (holding cf P I)"
proof (cases "n > 1 \<and> op_source identity \<noteq> Api_key")
  case True
  show ?thesis unfolding quorum_member_def if_P [OF True] by (rule deny_keeps)
next
  case False
  show ?thesis unfolding quorum_member_def if_not_P [OF False]
    using False by (auto intro!: keeps_return deny_keeps split: option.splits)
qed

lemma decide_with_keeps:
  assumes "ap_status a = Approval_pending" and n: "required (cf_rbac cf) a = n"
    and identity: "resolveApprovalOperator (cf_env cf) (cf_scrypt cf) (cf_rbac cf) k h (cf_operatorId cf) (requester_json a) = Inr identity"
    and open_quorum: "n > 1 \<Longrightarrow> completedQuorum (plain_votes a) n (rg_eligible (ap_reg a)) = None"
  shows "keeps (shape (\<lambda>v. map_of v i = Some a)) (decide_with cf i a n x identity) (\<lambda>_. holding cf P I) (holding cf P I)"
  unfolding decide_with_def Let_def
proof (rule keeps_andThen [OF quorum_member_keeps], rule keeps_pure, rule keeps_andThen [OF open_keeps], rule keeps_pure, rule then_now)
  fix u t and r :: operator_request
  assume member: "n > 1 \<longrightarrow> op_source identity = Api_key
      \<and> (\<forall>ids. rg_eligible (ap_reg a) = Some ids \<longrightarrow> JStr (operator_text identity) \<in> set ids)"
    and x: "oq_decision r \<in> set [''approved'', ''rejected'']"
  note entitled = resolve_entitles [OF identity]
  show "keeps (shape (\<lambda>v. map_of v i = Some a)) (if 1 < n
      then quorum_decide cf i a identity r n t (valid_until (cf_env cf) a t)
      else andThen (or_throw (valid_until (cf_env cf) a t)) (\<lambda>until.
        record_decision cf i (decision_by cf a identity r None None t until) []))
      (\<lambda>_. holding cf P I) (holding cf P I)"
  proof (cases "1 < n")
    case True
    with member have m: "op_source identity = Api_key"
        "\<And>ids. rg_eligible (ap_reg a) = Some ids \<Longrightarrow> JStr (operator_text identity) \<in> set ids" by blast+
    from api_key_operator [OF identity m(1)] entitled
    have "entitled (cf_env cf) (cf_rbac cf) (requester_json a) (Some (operator_text identity))" by simp
    from quorum_decide_keeps [OF assms(1) n True m(1) this m(2) api_key_operator [OF identity m(1)] open_quorum [OF True]] x
    show ?thesis unfolding if_P [OF True] by simp
  next
    case False
    then have le: "required (cf_rbac cf) a \<le> 1" using n by simp
    show ?thesis unfolding if_not_P [OF False]
      using single_decision_lawful [OF le entitled] assms(1)
      by (intro then_throw decision_keeps) (auto simp: view_get_def)
  qed
qed

lemma then_known:
  assumes "\<And>a. keeps (shape (\<lambda>v. map_of v i = Some a)) (f a) B (holding cf P I)"
  shows "keeps (holding cf P I) (andThen (the_approval i) f) B (holding cf P I)"
  by (rule then_approval) (auto intro: keeps_pre [OF assms] simp: view_get_def)

lemma holding_eligible:
  assumes "shape (\<lambda>v. map_of v i = Some a) s"
  shows "eligible_distinct (rg_eligible (ap_reg a))"
  using service_lawful_tells [of cf P s i a] assms
  by (simp add: holding_def view_get_def tells_def registration_lawful_def)

lemma recover_keeps:
  assumes "completedQuorum (plain_votes a) n (rg_eligible (ap_reg a)) = Some c" and "required (cf_rbac cf) a = n" "n > 1"
    and "ap_status a = Approval_pending"
  shows "keeps (shape (\<lambda>v. map_of v i = Some a)) (recover_quorum cf i a n c) (\<lambda>_. holding cf P I) (holding cf P I)"
  unfolding recover_quorum_def
proof (rule then_throw, rule decision_keeps)
  fix d s assume d: "recovered_decision cf a n c = Some d" and s: "shape (\<lambda>v. map_of v i = Some a) s"
  show "\<exists>a. view_get i s = Some a \<and> ap_status a = Approval_pending \<and> decision_lawful (cf_env cf) (cf_rbac cf) a d"
    using recovered_decision_lawful [OF assms(1-3) holding_eligible [OF s] d] s assms(4) by (simp add: view_get_def)
qed auto

lemma decide_keeps: "keeps (holding cf P I) (decide_approval cf i x k h) (\<lambda>_. holding cf P I) (holding cf P I)"
  unfolding decide_approval_def Let_def
proof (rule then_intact [OF keeps_pre], rule then_known, rule then_check, rule then_now, rule then_check)
  fix a :: approval
  assume pending: "ap_status a = Approval_pending"
  let ?n = "quorumRequiredFor (cf_rbac cf) (rg_tool (ap_reg a))"
  let ?c = "if 1 < ?n then completedQuorum (plain_votes a) ?n (rg_eligible (ap_reg a)) else None"
  have n: "required (cf_rbac cf) a = ?n" by (simp add: required_def)
  show "keeps (shape (\<lambda>v. map_of v i = Some a)) (case ?c of Some c \<Rightarrow> recover_quorum cf i a ?n c
      | None \<Rightarrow> andThen (resolveOperator cf i k h (requester_json a)) (decide_with cf i a ?n x))
      (\<lambda>_. holding cf P I) (holding cf P I)"
  proof (cases ?c)
    case (Some c)
    then have "completedQuorum (plain_votes a) ?n (rg_eligible (ap_reg a)) = Some c" "1 < ?n"
      by (simp_all split: if_splits)
    then show ?thesis unfolding Some option.case by (intro recover_keeps n pending)
  next
    case None
    then have open_quorum: "1 < ?n \<Longrightarrow> completedQuorum (plain_votes a) ?n (rg_eligible (ap_reg a)) = None" by simp
    show ?thesis unfolding None option.case
      by (rule keeps_andThen [OF resolve_keeps], rule keeps_pure) (rule decide_with_keeps [OF pending n _ open_quorum])
  qed
qed auto

section \<open>The other requests\<close>

lemma withdraw_keeps: "keeps (holding cf P I) (withdraw_approval cf i x k h) (\<lambda>_. holding cf P I) (holding cf P I)"
  unfolding withdraw_approval_def
proof (rule then_intact [OF keeps_pre], rule then_known, intro then_check, rule keeps_andThen [OF resolve_keeps],
    rule keeps_pure, rule keeps_andThen [OF open_keeps], rule keeps_pure, rule then_now, rule then_record)
  fix a :: approval and identity t s and r :: operator_request
  assume a: "ap_consumed a = None" "ap_status a = Approval_approved"
    and identity: "resolveApprovalOperator (cf_env cf) (cf_scrypt cf) (cf_rbac cf) k h (cf_operatorId cf) JUndefined = Inr identity"
    and s: "shape (\<lambda>v. map_of v i = Some a) s"
  then show "event_lawful (cf_env cf) (cf_rbac cf) (al_records (sv_ledger s)) (Withdrawn i
      \<lparr>wd_actionHash = rg_actionHash (ap_reg a), wd_reason = oq_reason r, wd_operator = operator_label identity,
       wd_operatorId = op_operatorId identity, wd_withdrawnAt = iso_at (cf_env cf) t\<rparr>)"
    using holding_at [OF s] resolve_entitles [OF identity] by (simp add: event_lawful_def)
qed (auto simp: is_stop_def intro: keeps_return)

lemma proven_keeps:
  "keeps (holding cf P I) (provenApproval cf i proof) (\<lambda>a. shape (\<lambda>v. map_of v i = Some a)) (holding cf P I)"
  unfolding provenApproval_def
  by (rule then_intact [OF keeps_pre], rule then_known, intro then_check) (auto intro: keeps_return)

lemma consume_keeps: "keeps (holding cf P I) (consume_approval cf i h proof) (\<lambda>_. holding cf P I) (holding cf P I)"
  unfolding consume_approval_def
proof (rule keeps_andThen [OF proven_keeps], intro then_check then_now, rule then_record)
  fix a :: approval and s
  assume "ap_status a = Approval_approved" "ap_consumed a = None" and s: "shape (\<lambda>v. map_of v i = Some a) s"
  with holding_at [OF s] show "event_lawful (cf_env cf) (cf_rbac cf) (al_records (sv_ledger s)) (Consumed i (rg_actionHash (ap_reg a)))"
    by (simp add: event_lawful_def)
next
  fix a :: approval and e
  show "keeps (\<lambda>s. holding cf P I s \<and> (\<exists>s0. shape (\<lambda>v. map_of v i = Some a) s0 \<and> sv_view s = apply_entry (sv_view s0) e))
     (andThen (the_approval i) (\<lambda>a'. andThen (or_throw (consumptionFor cf a')) (\<lambda>c.
        return (reply 200 [(''consumed'', JObj (ref_fields (entry_ref e))), (''consumption'', c)]))))
     (\<lambda>_. holding cf P I) (holding cf P I)"
    by (intro then_approval then_throw keeps_return) auto
qed (auto simp: is_stop_def)

lemma outcome_answer_keeps:
  "(\<And>s. A s \<Longrightarrow> holding cf P I s) \<Longrightarrow> keeps A (outcome_answer cf a e x extra) (\<lambda>_. holding cf P I) (holding cf P I)"
  unfolding outcome_answer_def by (intro then_throw keeps_return) auto

lemma outcome_keeps: "keeps (holding cf P I) (recordOutcome cf i st rid rh proof) (\<lambda>_. holding cf P I) (holding cf P I)"
  unfolding recordOutcome_def Let_def
proof (rule keeps_andThen [OF proven_keeps], intro then_check)
  fix a :: approval
  assume consumed: "ap_consumed a \<noteq> None"
  let ?x = "\<lparr>ot_status = text_of_json st, ot_receiptId = text_of_json rid, ot_receiptHash = rh\<rparr>"
  show "keeps (shape (\<lambda>v. map_of v i = Some a)) (if ap_outcome a \<noteq> None then
       andThen (reading (\<lambda>s. outcome_entry i (al_records (sv_ledger s)))) (\<lambda>found. case found of
           None \<Rightarrow> refuse 503 ''OUTCOME_ATTESTATION_UNAVAILABLE'' []
         | Some (e, x) \<Rightarrow> andThen (check_that (same_outcome x st rid rh) 409 ''OUTCOME_RECORDED'') (\<lambda>_.
             outcome_answer cf a e x [(''duplicate'', JBool True)]))
     else andThen (record_event cf (Outcome i ?x)) (\<lambda>e. outcome_answer cf a e ?x []))
     (\<lambda>_. holding cf P I) (holding cf P I)"
  proof (cases "ap_outcome a = None")
    case True
    have "keeps (shape (\<lambda>v. map_of v i = Some a)) (andThen (record_event cf (Outcome i ?x)) (\<lambda>e. outcome_answer cf a e ?x []))
      (\<lambda>_. holding cf P I) (holding cf P I)"
    proof (rule then_record)
      fix s assume "shape (\<lambda>v. map_of v i = Some a) s"
      then show "event_lawful (cf_env cf) (cf_rbac cf) (al_records (sv_ledger s)) (Outcome i ?x)"
        using holding_at [of s i a] consumed True by (simp add: event_lawful_def)
    qed (auto simp: is_stop_def intro: outcome_answer_keeps)
    then show ?thesis by (simp add: True)
  next
    case False
    then show ?thesis
      by (auto intro!: then_reading keeps_refuse then_check outcome_answer_keeps split: option.splits)
  qed
qed auto

lemma pending_count_keeps: "keeps A (pending_count env as) (\<lambda>_. A) R"
proof (induction as)
  case (Cons a as)
  have "keeps A (andThen now (\<lambda>t. andThen (pending_count env as) (\<lambda>n. return (if expires_after env a t then Suc n else n)))) (\<lambda>_. A) R"
    by (rule then_now, rule keeps_andThen [OF Cons]) (rule keeps_return)
  with Cons show ?case by simp
qed (simp add: keeps_return)

lemma over_limit_keeps: "keeps (holding cf P I) (overLimit cf) (\<lambda>_. holding cf P I) R"
proof -
  have "keeps (holding cf P I) (andThen (reading sv_view) (\<lambda>v. andThen (pending_count (cf_env cf) (map snd v)) (\<lambda>pending.
     andThen (reading (\<lambda>s. length (sv_attempts s))) (\<lambda>tries. andThen (reading (\<lambda>s. length (sv_registeredTimes s))) (\<lambda>regs.
       return (tries > MAX_ATTEMPTS_PER_MINUTE \<or> regs \<ge> MAX_REGISTRATIONS_PER_DAY \<or> pending \<ge> MAX_PENDING))))))
     (\<lambda>_. holding cf P I) R"
    by (rule then_reading, rule keeps_andThen [OF pending_count_keeps], rule then_reading, rule then_reading, rule keeps_return) simp
  then show ?thesis unfolding overLimit_def
    by (intro then_now then_changing [where A' = "holding cf P I"]) (simp_all add: holding_memory)
qed

lemma register_new_keeps:
  "keeps (\<lambda>s. holding cf P I s \<and> registered_under input s = None) (register_new cf input) (\<lambda>_. holding cf P I) (holding cf P I)"
  unfolding register_new_def
proof (rule then_now)
  fix t
  show "keeps (\<lambda>s. holding cf P I s \<and> registered_under input s = None)
     (case validateRegistration (cf_env cf) input t of Inl err \<Rightarrow> refuse_registration err
       | Inr r \<Rightarrow> andThen now (\<lambda>t'. andThen (changing (\<lambda>v. v\<lparr>sv_registeredTimes := sv_registeredTimes v @ [t']\<rparr>)) (\<lambda>_.
           andThen (record_event cf (Registered r)) (\<lambda>e. andThen (the_approval (rg_approvalId r)) (\<lambda>a.
             return (reply 201 [(''approval'', JObj (summarize a))]))))))
     (\<lambda>_. holding cf P I) (holding cf P I)"
  proof (cases "validateRegistration (cf_env cf) input t")
    case (Inl err)
    then show ?thesis by (cases err) (auto intro: keeps_refuse)
  next
    case (Inr r)
    note r = validated_registration [OF Inr]
    show ?thesis unfolding Inr sum.case
    proof (rule then_now, rule then_changing, rule then_record)
      fix s assume "shape (\<lambda>v. map_of v (rg_approvalId r) = None) s"
      then show "event_lawful (cf_env cf) (cf_rbac cf) (al_records (sv_ledger s)) (Registered r)"
        using service_lawful_view [of cf P s "rg_approvalId r"] r(2)
        by (simp add: event_lawful_def holding_def view_get_def)
    next
      fix e
      show "keeps (\<lambda>s. holding cf P I s \<and> (\<exists>s0. shape (\<lambda>v. map_of v (rg_approvalId r) = None) s0
          \<and> sv_view s = apply_entry (sv_view s0) e))
        (andThen (the_approval (rg_approvalId r)) (\<lambda>a. return (reply 201 [(''approval'', JObj (summarize a))])))
        (\<lambda>_. holding cf P I) (holding cf P I)"
        by (intro then_approval keeps_return) auto
    qed (auto simp: is_stop_def r(1) registered_under_def view_get_def holding_memory)
  qed
qed

lemma register_keeps: "keeps (holding cf P I) (register cf input) (\<lambda>_. holding cf P I) (holding cf P I)"
  unfolding register_def
proof (rule then_intact [OF keeps_pre], rule keeps_andThen [OF over_limit_keeps])
  fix over
  show "keeps (holding cf P I) (if over then refuse 429 ''RATE_LIMITED'' []
       else andThen (reading (registered_under input)) (\<lambda>existing. case existing of
           Some a \<Rightarrow> register_again a input | None \<Rightarrow> register_new cf input)) (\<lambda>_. holding cf P I) (holding cf P I)"
    by (auto intro!: keeps_refuse then_reading keeps_return register_new_keeps simp: register_again_def split: option.splits)
qed auto

lemma stop_keeps: "keeps (holding cf P I) (recordStop cf input) (\<lambda>_. holding cf P I) (holding cf P I)"
proof (cases "validateStop (cf_env cf) input")
  case None
  show ?thesis unfolding recordStop_def None option.case
    by (rule then_intact [OF keeps_refuse]) auto
next
  case (Some stop)
  let ?h = "field stop ''localHash''"
  let ?A = "\<lambda>s. holding cf P I s \<and> stop_known ?h s = None"
  have rec: "keeps ?A (andThen (record_event cf (Stopped stop)) (\<lambda>e.
      andThen (changing (\<lambda>v. v\<lparr>sv_stops := alist_put ?h e (sv_stops v)\<rparr>)) (\<lambda>_.
        return (reply 201 [(''stop'', JObj (ref_fields (entry_ref e)))])))) (\<lambda>_. holding cf P I) (holding cf P I)"
  proof (rule keeps_andThen, rule record_keeps)
    fix s assume s: "?A s"
    then show "event_lawful (cf_env cf) (cf_rbac cf) (al_records (sv_ledger s)) (Stopped stop)"
      by (auto simp: event_lawful_def list_ex_iff same_stop_def strict_eq_def holding_def service_lawful_def
        stops_known_def stop_known_def split: if_splits)
  next
    fix e
    show "keeps (\<lambda>s. ae_event e = Stopped stop \<and> (\<exists>s0. ?A s0 \<and> sv_view s = apply_entry (sv_view s0) e)
        \<and> (\<not> is_stop (Stopped stop) \<longrightarrow> holding cf P I s) \<and> (\<forall>fs. Stopped stop = Stopped fs \<longrightarrow>
          holding cf P I (s\<lparr>sv_stops := alist_put (field fs ''localHash'') e (sv_stops s)\<rparr>)))
      (andThen (changing (\<lambda>v. v\<lparr>sv_stops := alist_put ?h e (sv_stops v)\<rparr>)) (\<lambda>_.
        return (reply 201 [(''stop'', JObj (ref_fields (entry_ref e)))]))) (\<lambda>_. holding cf P I) (holding cf P I)"
      by (rule then_changing [where A' = "holding cf P I"]) (auto intro: keeps_return)
  qed auto
  have known: "stop_known ?h (s\<lparr>sv_stopAttempts := x\<rparr>) = stop_known ?h s" for s x by (simp add: stop_known_def)
  show ?thesis unfolding recordStop_def Some option.case Let_def
  proof (rule then_intact [OF keeps_pre], rule then_reading)
    fix r
    show "keeps (\<lambda>s. holding cf P I s \<and> stop_known ?h s = r) (case r of
         Some e \<Rightarrow> if list_all (\<lambda>k. strict_eq (jget (stop_body e) k) (field stop k)) STOP_FIELDS
             then return (reply 200 [(''stop'', JObj (ref_fields (entry_ref e))), (''duplicate'', JBool True)])
             else refuse 409 ''CONFLICT'' []
       | None \<Rightarrow> andThen now (\<lambda>t.
             andThen (changing (\<lambda>v. v\<lparr>sv_stopAttempts := trimBefore (sv_stopAttempts v) (t - MINUTE_MS)\<rparr>)) (\<lambda>_.
             andThen (reading (\<lambda>s. length (sv_stopAttempts s))) (\<lambda>n.
             andThen (check_that (n < MAX_ATTEMPTS_PER_MINUTE) 429 ''RATE_LIMITED'') (\<lambda>_.
             andThen now (\<lambda>t'.
             andThen (changing (\<lambda>v. v\<lparr>sv_stopAttempts := sv_stopAttempts v @ [t']\<rparr>)) (\<lambda>_.
             andThen (record_event cf (Stopped stop)) (\<lambda>e.
             andThen (changing (\<lambda>v. v\<lparr>sv_stops := alist_put ?h e (sv_stops v)\<rparr>)) (\<lambda>_.
               return (reply 201 [(''stop'', JObj (ref_fields (entry_ref e)))]))))))))))
      (\<lambda>_. holding cf P I) (holding cf P I)"
    proof (cases r)
      case None
      show ?thesis unfolding None option.case
        by (intro then_now then_changing [where A' = ?A] then_reading then_check keeps_pre [OF rec])
          (auto simp: holding_memory known)
    qed (auto intro: keeps_return keeps_refuse)
  qed auto
qed

lemma reading_keeps:
  "keeps (holding cf P I) (list_approvals cf u w) (\<lambda>_. holding cf P I) (holding cf P I)"
  "keeps (holding cf P I) (show_approval cf i) (\<lambda>_. holding cf P I) (holding cf P I)"
  "keeps (holding cf P I) ledgerHead (\<lambda>_. holding cf P I) (holding cf P I)"
  "keeps (holding cf P I) (ledgerEntries u w) (\<lambda>_. holding cf P I) (holding cf P I)"
  unfolding list_approvals_def show_approval_def ledgerHead_def ledgerEntries_def
  by (auto intro!: then_reading then_approval keeps_return)

lemma get_decision_keeps: "keeps (holding cf P I) (getDecision cf i) (\<lambda>_. holding cf P I) (holding cf P I)"
  unfolding getDecision_def
  by (rule then_approval) (auto intro!: keeps_return then_throw split: option.splits)

lemma anchor_keeps: "keeps (holding cf P I) (ledgerAnchor cf) (\<lambda>_. holding cf P I) (holding cf P I)"
  unfolding ledgerAnchor_def
  by (cases "cf_anchor cf") (auto intro!: keeps_refuse then_intact then_reading keeps_return then_throw)

theorem requests_keep: "keeps (holding cf P I) (request_step_of cf q) (\<lambda>_. holding cf P I) (holding cf P I)"
  by (cases q) (simp_all add: keeps_return register_keeps decide_keeps withdraw_keeps consume_keeps outcome_keeps
    stop_keeps reading_keeps get_decision_keeps anchor_keeps)

lemma served_keeps:
  "service_lawful cf P s \<Longrightarrow> I s \<Longrightarrow>
     service_lawful cf P (snd (served (request_step_of cf q) (session_of s clk outs saves)))
     \<and> I (snd (served (request_step_of cf q) (session_of s clk outs saves)))"
  using keeps_served [OF requests_keep, of s q clk outs saves] by (simp add: holding_def)

end

end
