(* ===== verification/Authority_Durable.thy ===== *)
theory Authority_Durable
  imports Authority_Requests Hash_Chain_Facts
begin

text \<open>
  What the approval authority keeps on disk through requests, failing appends and restarts: a ledger
  whose entries are lawful, numbered and linked, and a replay floor that never falls; and the entries
  themselves, unless a restart reopens a file whose last entry lacks its newline.  The interpretations
  of \<open>request_invariant\<close> on these invariants carry them through every request; the start of the service
  carries them through a restart.
\<close>

section \<open>The ledger file\<close>

abbreviation parsed :: "authority_entry option list \<Rightarrow> authority_entry list" where
  "parsed ls \<equiv> fst (parsed_lines 0 ls)"

lemma parsed_Some [simp]: "parsed_lines i (map Some es) = (es, None)"
  by (induction es arbitrary: i) simp_all

lemma parsed_torn [simp]: "fst (parsed_lines i (map Some es @ [None])) = es"
  by (induction es arbitrary: i) (simp_all split: prod.splits add: prod_eq_iff)

lemma parsed_stuck: "None \<in> set ls \<Longrightarrow> fst (parsed_lines i (ls @ xs)) = fst (parsed_lines i ls)"
proof (induction ls arbitrary: i)
  case (Cons l ls)
  then show ?case by (cases l) (auto split: prod.splits simp: prod_eq_iff)
qed simp

lemma parsed_first [simp]: "fst (parsed_lines i (Some e # ls)) = e # fst (parsed_lines (Suc i) ls)"
  by (simp split: prod.splits)

lemma parsed_merged: "prefix (fst (parsed_lines i (butlast ls @ [None]))) (fst (parsed_lines i ls))"
proof (induction ls arbitrary: i)
  case (Cons l ls)
  then show ?case by (cases l; cases "ls = []") (simp_all del: parsed_lines.simps(3))
qed simp

lemma parsed_none: "None \<notin> set ls \<Longrightarrow> ls = map Some (fst (parsed_lines i ls))"
proof (induction ls arbitrary: i)
  case (Cons l ls)
  then show ?case by (cases l) (auto split: prod.splits simp: prod_eq_iff)
qed simp

lemma parsed_complete: "parsed_lines i ls = (es, None) \<Longrightarrow> ls = map Some es"
proof (induction ls arbitrary: i es)
  case (Cons l ls)
  then show ?case by (cases l) (auto split: prod.splits)
qed simp

lemma misnumbered_snoc:
  "misnumbered i (es @ [e]) = None \<longleftrightarrow> misnumbered i es = None \<and> ae_seq e = i + length es"
  by (induction es arbitrary: i) auto

definition entries_linked :: "js_env \<Rightarrow> authority_entry list \<Rightarrow> bool" where
  "entries_linked env es = chain_linked env (JStr LEDGER_GENESIS) (map authority_entry_json es)"

definition entries_sound :: "js_env \<Rightarrow> authority_entry list \<Rightarrow> bool" where
  "entries_sound env es = (misnumbered 0 es = None \<and> (digest_text_ok env \<longrightarrow> entries_linked env es))"

lemma misnumbered_prefix: "prefix xs es \<Longrightarrow> misnumbered i es = None \<Longrightarrow> misnumbered i xs = None"
proof (induction xs arbitrary: i es)
  case (Cons x xs)
  then show ?case by (cases es) (auto split: if_splits)
qed simp

lemma entries_sound_prefix: "prefix xs es \<Longrightarrow> entries_sound env es \<Longrightarrow> entries_sound env xs"
  using misnumbered_prefix [of xs es 0]
  by (auto simp: entries_sound_def entries_linked_def linked_append elim!: prefixE)

lemma entry_json_hashes [simp]:
  "receipt_hash (authority_entry_json e) = JStr (ae_hash e)"
  "previous_hash (authority_entry_json e) = JStr (ae_previous e)"
  by (simp_all add: authority_entry_json_def entry_head_def)

lemma ledger_head_hash:
  "head_hash receipt_hash (JStr LEDGER_GENESIS) (map authority_entry_json (al_records l)) = JStr (snd (ledger_head l))"
  by (cases "al_records l" rule: rev_cases) (auto simp: ledger_head_def)

lemma ledger_head_number:
  "misnumbered 0 (al_records l) = None \<Longrightarrow> fst (ledger_head l) = int (length (al_records l)) - 1"
  by (cases "al_records l" rule: rev_cases) (auto simp: ledger_head_def misnumbered_snoc)

lemma entry_head_append:
  assumes "p \<noteq> []"
  shows "appendToChain env True (entry_head k t ev) (JStr p) = (let fs = own_fields (entry_head k t ev)
      @ [(''previousReceiptHash'', JStr p)] in
    Inr (JObj (fs @ [(''receiptHash'', JStr (sha256_hex env (the (stableStringify env (JObj fs)))))])))"
  using assms by (simp add: appendToChain_def entry_head_def hashCanonicalPayload_object Let_def)

lemma linked_head_nonempty:
  assumes "entries_linked env (al_records l)"
  shows "snd (ledger_head l) \<noteq> []"
proof (cases "al_records l" rule: rev_cases)
  case (snoc es e)
  with assms have "record_ok env (authority_entry_json e)" by (simp add: entries_linked_def linked_append)
  with snoc show ?thesis by (auto simp: record_ok_def ledger_head_def)
qed (simp add: ledger_head_def LEDGER_GENESIS_def)

lemma next_entry_sound:
  assumes "entries_sound env (al_records l)"
  shows "entries_sound env (al_records l @ [next_entry env ev t l])"
proof -
  let ?e = "next_entry env ev t l" and ?p = "snd (ledger_head l)"
  have seq: "ae_seq ?e = length (al_records l)"
    using ledger_head_number [of l] assms by (cases "ledger_head l") (simp add: entries_sound_def next_entry_def Let_def)
  have "entries_linked env (al_records l @ [?e])" if dg: "digest_text_ok env"
  proof -
    have linked: "entries_linked env (al_records l)" using assms dg by (simp add: entries_sound_def)
    obtain r where r: "appendToChain env True (entry_head (ae_seq ?e) t ev) (JStr ?p) = Inr r"
        and e: "authority_entry_json ?e = r"
      using entry_head_append [OF linked_head_nonempty [OF linked], of env "ae_seq ?e" t ev]
      by (auto simp: next_entry_def Let_def authority_entry_json_def entry_head_def split: prod.splits)
    have "record_ok env r \<and> previous_hash r = JStr ?p"
      by (rule append_record_ok [OF r [unfolded entry_head_def] _ dg]) simp
    then show ?thesis using linked by (simp add: entries_linked_def linked_append e ledger_head_hash)
  qed
  then show ?thesis using assms seq by (simp add: entries_sound_def misnumbered_snoc)
qed

section \<open>The durable state\<close>

text \<open>
  Either the lines are those of the entries in memory, perhaps one more; or a line does not parse, and
  what is before it reads back.
\<close>

definition durable :: "js_env \<Rightarrow> rbac set \<Rightarrow> authority_ledger \<Rightarrow> bool" where
  "durable env P l = (lawful env P (parsed (al_lines l)) \<and> entries_sound env (parsed (al_lines l))
     \<and> (al_corrupt l = None \<longrightarrow>
       al_lines l = map Some (al_records l) \<or> None \<in> set (al_lines l) \<and> \<not> al_unended l))"

text \<open>No entry in memory is missing on disk, and none that lacks its newline is followed by another.\<close>

definition tidy :: "authority_ledger \<Rightarrow> bool" where
  "tidy l = (prefix (al_records l) (parsed (al_lines l))
     \<and> (al_corrupt l = None \<longrightarrow> al_lines l = map Some (al_records l) \<and> \<not> al_unended l))"

definition floored :: "service_config \<Rightarrow> rbac set \<Rightarrow> int \<Rightarrow> service \<Rightarrow> bool" where
  "floored cf P n s = (durable (cf_env cf) P (sv_ledger s) \<and> n \<le> tp_lastCounter (sv_totp s))"

definition history :: "authority_entry list \<Rightarrow> service \<Rightarrow> bool" where
  "history h s = (tidy (sv_ledger s) \<and> prefix h (al_records (sv_ledger s)))"

lemma floor_rises: "\<not> locked_at p t \<Longrightarrow>
    tp_lastCounter p \<le> tp_lastCounter (oc_progress (checkOperatorCode hmac secret code t p))"
  by (auto simp: checkOperatorCode_def verifyTotp_def Let_def split: sum.splits option.splits if_splits)

lemma durable_merged:
  assumes "lawful env P (parsed ls)" and "entries_sound env (parsed ls)"
  shows "lawful env P (parsed (butlast ls @ [None]))" and "entries_sound env (parsed (butlast ls @ [None]))"
  using parsed_merged [of 0 ls] assms lawful_prefix entries_sound_prefix by (auto elim!: prefixE)

lemma durable_append:
  assumes "durable env P l" and "event_lawful env policy (al_records l) ev" and "policy \<in> P"
    and "ledger_append_event env ev t out l = (r, l')"
  shows "durable env P l'"
proof (cases "al_corrupt l")
  case (Some c)
  then show ?thesis using assms(1,4) by (simp add: ledger_append_event_def)
next
  case None
  let ?e = "next_entry env ev t l" and ?ls = "al_lines l"
  have written: "lawful env P (parsed (written_line x l)) \<and> entries_sound env (parsed (written_line x l))
      \<and> (None \<in> set (written_line x l) \<or> ?ls = map Some (al_records l) \<and> x \<noteq> None \<and> \<not> al_unended l)"
    if x: "x \<in> {None, Some ?e}" for x
  proof (cases "al_unended l \<or> None \<in> set ?ls")
    case True
    then show ?thesis using assms(1) durable_merged [of env P ?ls] parsed_stuck [of ?ls 0 "[x]"]
      by (auto simp: durable_def written_line_def)
  next
    case False
    then have lines: "?ls = map Some (al_records l)" using None assms(1) by (auto simp: durable_def)
    with assms(1) have "lawful env P (al_records l @ [?e])" "entries_sound env (al_records l @ [?e])"
      using lawful_append [of env P _ policy ?e] assms(2,3) next_entry_sound by (simp_all add: durable_def)
    moreover have "parsed (map Some (al_records l) @ [Some ?e]) = al_records l @ [?e]"
      using parsed_Some [of 0 "al_records l @ [?e]"] by simp
    ultimately show ?thesis using x assms(1) False lines by (auto simp: durable_def written_line_def)
  qed
  show ?thesis
    using assms(1,4) None written [of None] written [of "Some ?e"]
    by (cases out) (auto simp: durable_def ledger_append_event_def Let_def written_line_def)
qed

lemma tidy_append:
  assumes "tidy l" and "ledger_append_event env ev t out l = (r, l')"
  shows "tidy l'" and "prefix (al_records l) (al_records l')"
proof -
  have "tidy l' \<and> prefix (al_records l) (al_records l')"
  proof (cases "al_corrupt l")
    case None
    have "parsed (map Some (al_records l) @ [Some e]) = al_records l @ [e]" for e
      using parsed_Some [of 0 "al_records l @ [e]"] by simp
    then show ?thesis using assms None
      by (cases out) (auto simp: tidy_def ledger_append_event_def Let_def written_line_def)
  qed (use assms in \<open>simp add: ledger_append_event_def\<close>)
  then show "tidy l'" and "prefix (al_records l) (al_records l')" by blast+
qed

interpretation kept: request_invariant cf "insert (cf_rbac cf) P" "floored cf (insert (cf_rbac cf) P) n"
  for cf P n
proof unfold_locales
  show "cf_rbac cf \<in> insert (cf_rbac cf) P" by simp
next
  fix s s' assume "floored cf (insert (cf_rbac cf) P) n s" "same_durable s s'"
  then show "floored cf (insert (cf_rbac cf) P) n s'" by (simp add: floored_def same_durable_def)
next
  fix s ev t out e l
  assume h: "floored cf (insert (cf_rbac cf) P) n s"
    and ev: "event_lawful (cf_env cf) (cf_rbac cf) (al_records (sv_ledger s)) ev"
    and app: "ledger_append_event (cf_env cf) ev t out (sv_ledger s) = (Some e, l)"
  show "floored cf (insert (cf_rbac cf) P) n (s\<lparr>sv_ledger := l, sv_view := apply_entry (sv_view s) e\<rparr>)"
    using h durable_append [OF _ ev _ app] by (auto simp: floored_def)
next
  fix s ev t out l
  assume h: "floored cf (insert (cf_rbac cf) P) n s"
    and ev: "event_lawful (cf_env cf) (cf_rbac cf) (al_records (sv_ledger s)) ev"
    and app: "ledger_append_event (cf_env cf) ev t out (sv_ledger s) = (None, l)"
  show "floored cf (insert (cf_rbac cf) P) n (s\<lparr>sv_ledger := l\<rparr>)"
    using h durable_append [OF _ ev _ app] by (auto simp: floored_def)
next
  fix s t code
  assume "floored cf (insert (cf_rbac cf) P) n s" "\<not> locked_at (sv_totp s) t"
  then show "floored cf (insert (cf_rbac cf) P) n
      (s\<lparr>sv_totp := oc_progress (checkOperatorCode (cf_hmac cf) (cf_secret cf) code t (sv_totp s))\<rparr>)"
    using floor_rises [of "sv_totp s" t "cf_hmac cf" "cf_secret cf" code] by (simp add: floored_def)
qed

interpretation grown: request_invariant cf "insert (cf_rbac cf) P" "history h" for cf P h
proof unfold_locales
  fix s ev t out e l
  assume "history h s" and app: "ledger_append_event (cf_env cf) ev t out (sv_ledger s) = (Some e, l)"
  then show "history h (s\<lparr>sv_ledger := l, sv_view := apply_entry (sv_view s) e\<rparr>)"
    using tidy_append [OF _ app] by (auto simp: history_def intro: prefix_order.trans)
next
  fix s ev t out l
  assume "history h s" and app: "ledger_append_event (cf_env cf) ev t out (sv_ledger s) = (None, l)"
  then show "history h (s\<lparr>sv_ledger := l\<rparr>)"
    using tidy_append [OF _ app] by (auto simp: history_def intro: prefix_order.trans)
qed (simp_all add: history_def same_durable_def)

section \<open>Restarts\<close>

lemma open_records: "al_records (openLedgerStore env ls u) = parsed ls"
  by (auto simp: openLedgerStore_def readLines_def Let_def split: prod.splits option.splits sum.splits)

lemma open_lines [simp]: "al_lines (openLedgerStore env ls u) = ls" "al_unended (openLedgerStore env ls u) = u"
  by (simp_all add: openLedgerStore_def split: prod.splits)

lemma open_intact: "al_corrupt (openLedgerStore env ls u) = None \<Longrightarrow> ls = map Some (parsed ls)"
  by (auto simp: openLedgerStore_def readLines_def split: prod.splits option.splits dest!: parsed_complete)

lemma open_durable:
  "lawful env P (parsed ls) \<Longrightarrow> entries_sound env (parsed ls) \<Longrightarrow> durable env P (openLedgerStore env ls u)"
  using open_intact [of env ls u] by (auto simp: durable_def open_records)

lemma stops_from_entries:
  assumes "e \<in> set es" and "ae_event e = Stopped fs"
  shows "map_of (foldl (\<lambda>m p. alist_put (fst p) (snd p) m) m (concat (map stop_entry es))) (field fs ''localHash'') \<noteq> None"
proof -
  have dom: "map_of m k \<noteq> None \<or> k \<in> fst ` set ps \<Longrightarrow>
      map_of (foldl (\<lambda>m p. alist_put (fst p) (snd p) m) m ps) k \<noteq> None" for ps m k
    by (induction ps arbitrary: m) auto
  have "(field fs ''localHash'', e) \<in> set (stop_entry e)" using assms(2) by simp
  then have "(field fs ''localHash'', e) \<in> set (concat (map stop_entry es))" using assms(1) by (auto simp del: stop_entry.simps)
  then have "field fs ''localHash'' \<in> fst ` set (concat (map stop_entry es))" by (rule image_eqI [rotated]) simp
  then show ?thesis by (intro dom disjI2)
qed

lemma started_lawful:
  assumes "lawful (cf_env cf) P (parsed ls)"
  shows "service_lawful cf P (createAuthorityService (cf_env cf) ls u p)"
  using assms stops_from_entries
  by (auto simp: service_lawful_def stops_known_def createAuthorityService_def Let_def open_records)

lemma started_fields [simp]:
  "sv_ledger (createAuthorityService env ls u p) = openLedgerStore env ls u"
  "sv_totp (createAuthorityService env ls u p) = p"
  by (simp_all add: createAuthorityService_def Let_def)

section \<open>Runs\<close>

definition policies :: "service_config \<Rightarrow> service_event list \<Rightarrow> rbac set" where
  "policies cf evs = insert (cf_rbac cf) {p. \<exists>i. Restarted p i \<in> set evs}"

definition running :: "js_env \<Rightarrow> rbac set \<Rightarrow> int \<Rightarrow> deployment \<Rightarrow> bool" where
  "running env P n d = (cf_env (fst d) = env \<and> cf_rbac (fst d) \<in> P
     \<and> service_lawful (fst d) P (snd d) \<and> floored (fst d) P n (snd d))"

lemma deployment_step_running:
  assumes "running env P n d" and "\<And>p i. ev = Restarted p i \<Longrightarrow> p \<in> P"
  shows "running env P n (deployment_step ev d)"
proof (cases ev)
  case (Served q clk outs saves)
  obtain cf s where d: "d = (cf, s)" by (cases d)
  have P: "insert (cf_rbac cf) P = P" using assms(1) by (auto simp: running_def d)
  from assms(1) kept.served_keeps [of cf P s n q clk outs saves] show ?thesis
    by (auto simp: Served d running_def P)
next
  case (Restarted p i)
  obtain cf s where d: "d = (cf, s)" by (cases d)
  let ?cf = "cf\<lparr>cf_rbac := p, cf_operatorId := i\<rparr>" and ?l = "sv_ledger s"
  have dur: "durable env P ?l" and env: "cf_env cf = env" and n: "n \<le> tp_lastCounter (sv_totp s)"
    using assms(1) by (auto simp: running_def d floored_def)
  then have "durable env P (openLedgerStore env (al_lines ?l) (al_unended ?l))"
    by (auto simp: durable_def [of env P "sv_ledger s"] intro: open_durable)
  moreover have "service_lawful ?cf P (createAuthorityService env (al_lines ?l) (al_unended ?l) (sv_totp s))"
    using started_lawful [of ?cf P "al_lines ?l" "al_unended ?l" "sv_totp s"] dur by (simp add: env durable_def)
  ultimately show ?thesis using assms(2) [OF Restarted] n by (simp add: Restarted d running_def env floored_def)
qed

lemma deployment_steps_running:
  "running env P n d \<Longrightarrow> (\<And>p i. Restarted p i \<in> set evs \<Longrightarrow> p \<in> P) \<Longrightarrow> running env P n (fold deployment_step evs d)"
proof (induction evs arbitrary: d)
  case (Cons ev evs)
  from Cons.prems(2) have "running env P n (deployment_step ev d)"
    by (intro deployment_step_running Cons.prems(1)) auto
  moreover have "p \<in> P" if "Restarted p i \<in> set evs" for p i using Cons.prems(2) [of p i] that by simp
  ultimately show ?case using Cons.IH by simp
qed simp

lemma first_start_running: "cf_rbac cf \<in> P \<Longrightarrow> running (cf_env cf) P (-1) (first_start cf)"
  using started_lawful [of cf P "[]" False INITIAL_PROGRESS] open_durable [of "cf_env cf" P "[]" False]
  by (simp add: running_def first_start_def floored_def lawful.lawful_start entries_sound_def entries_linked_def
    INITIAL_PROGRESS_def)

lemma deployment_run_running: "running (cf_env cf) (policies cf evs) (-1) (deployment_run cf evs)"
  unfolding deployment_run_def
  by (intro deployment_steps_running first_start_running) (auto simp: policies_def)

lemma deployment_run_append: "deployment_run cf (evs @ evs') = fold deployment_step evs' (deployment_run cf evs)"
  by (simp add: deployment_run_def)

section \<open>Clean restarts\<close>

text \<open>No restart of a run opens a ledger file whose last entry lacks its newline.\<close>

fun restarts_clean :: "service_event list \<Rightarrow> deployment \<Rightarrow> bool" where
  "restarts_clean [] d = True"
| "restarts_clean (Served q clk outs saves # evs) d = restarts_clean evs (deployment_step (Served q clk outs saves) d)"
| "restarts_clean (Restarted p i # evs) d = (\<not> al_unended (sv_ledger (snd d))
     \<and> restarts_clean evs (deployment_step (Restarted p i) d))"

lemma restarts_clean_append:
  "restarts_clean (evs @ evs') d \<longleftrightarrow> restarts_clean evs d \<and> restarts_clean evs' (fold deployment_step evs d)"
  by (induction evs d rule: restarts_clean.induct) auto

lemma open_tidy: "\<not> u \<Longrightarrow> tidy (openLedgerStore env ls u)"
  using open_intact [of env ls u] by (auto simp: tidy_def open_records)

lemma clean_steps_grow:
  assumes "running env P n d" and "\<And>p i. Restarted p i \<in> set evs \<Longrightarrow> p \<in> P"
    and "history h (snd d)" and "restarts_clean evs d"
  shows "history h (snd (fold deployment_step evs d))"
  using assms
proof (induction evs d rule: restarts_clean.induct)
  case (2 q clk outs saves evs d)
  obtain cf s where d: "d = (cf, s)" by (cases d)
  have P: "insert (cf_rbac cf) P = P" using 2(2) by (auto simp: running_def d)
  let ?ev = "Served q clk outs saves"
  have "history h (snd (deployment_step ?ev d))"
    using 2(2,4) grown.served_keeps [of cf P s h q clk outs saves] by (auto simp: d running_def P)
  moreover have "running env P n (deployment_step ?ev d)" using 2(2) by (intro deployment_step_running) auto
  ultimately show ?case using 2(1,3,5) by simp
next
  case (3 p i evs d)
  obtain cf s where d: "d = (cf, s)" by (cases d)
  let ?ev = "Restarted p i" and ?l = "sv_ledger s"
  have "prefix h (parsed (al_lines ?l))" using 3(4) by (auto simp: d history_def tidy_def intro: prefix_order.trans)
  then have "history h (snd (deployment_step ?ev d))" using 3(5) by (auto simp: d history_def open_records intro: open_tidy)
  moreover have "running env P n (deployment_step ?ev d)" using 3(2,3) by (intro deployment_step_running) auto
  moreover have "p' \<in> P" if "Restarted p' i' \<in> set evs" for p' i' using 3(3) [of p' i'] that by simp
  ultimately show ?case using 3(1,5) by simp
qed simp

lemma first_start_tidy: "history [] (snd (first_start cf))"
  by (simp add: history_def first_start_def open_tidy)

end
