(* ===== verification/Approval_Rbac_Facts.thy ===== *)
theory Approval_Rbac_Facts
  imports Approval_Rbac Example_Env Evaluation
begin

text \<open>
  What a validated policy guarantees, and what an authorization and an operator resolved under it rest
  on.  The last section shows a gap: the test that API-key verifiers are distinct compares their texts,
  while keys are compared by the bytes the texts decode to.
\<close>

section \<open>Validated policies\<close>

lemma map_of_put_own: "map_of (put_own k v m) = (if k = ''__proto__'' then map_of m else (map_of m)(k \<mapsto> v))"
  by (simp add: put_own_def)

lemma set_put_own: "set (put_own k v m) \<subseteq> insert (k, v) (set m)"
proof -
  have "set (alist_put k v m) \<subseteq> insert (k, v) (set m)"
    by (induction k v m rule: alist_put.induct) auto
  then show ?thesis by (auto simp: put_own_def)
qed

lemma fst_put_own: "distinct (map fst m) \<Longrightarrow> distinct (map fst (put_own k v m))"
  by (simp add: put_own_def distinct_alist_put)

lemma validate_operators_roles:
  "validate_operators env roles ops fs = Inr ops' \<Longrightarrow>
     (\<forall>(i, r) \<in> set ops. OPERATOR_ID i \<and> map_of roles (js_string env r) \<noteq> None) \<Longrightarrow>
     (\<forall>(i, r) \<in> set ops'. OPERATOR_ID i \<and> map_of roles (js_string env r) \<noteq> None)"
proof (induction env roles ops fs rule: validate_operators.induct)
  case (2 env roles operators operatorId role rest)
  have "\<forall>(i, r) \<in> set (put_own operatorId role operators). OPERATOR_ID i \<and> map_of roles (js_string env r) \<noteq> None"
    using 2(2,3) set_put_own [of operatorId role operators] by (auto split: if_splits)
  with 2 show ?case by (auto split: if_splits)
qed simp

definition verifiers_ok :: "js_env \<Rightarrow> (string \<times> string list) list \<Rightarrow> (string \<times> jsval) list
    \<Rightarrow> (string \<times> string) list \<Rightarrow> bool" where
  "verifiers_ok env roles ops vs = (distinct (map fst vs) \<and> inj_on snd (set vs) \<and>
     (\<forall>(i, v) \<in> set vs. API_KEY_VERIFIER v \<and>
        (\<exists>r. map_of ops i = Some r \<and> DECIDE \<in> set (role_permissions env roles r))))"

lemma inj_on_snd_put_own:
  assumes "inj_on snd (set m)" and "v \<notin> snd ` set m"
  shows "inj_on snd (set (put_own k v m))"
proof -
  have "inj_on snd (insert (k, v) (set m))" using assms by (auto simp: inj_on_def image_iff)
  with set_put_own show ?thesis by (rule inj_on_subset [rotated])
qed

lemma validate_verifiers_ok:
  "validate_verifiers env roles ops vs fs = Inr vs' \<Longrightarrow> verifiers_ok env roles ops vs \<Longrightarrow>
     verifiers_ok env roles ops vs'"
proof (induction env roles ops vs fs rule: validate_verifiers.induct)
  case (2 env roles ops vs i v rest)
  from "2.prems"(1) obtain r where r: "map_of ops i = Some r"
    and c: "DECIDE \<in> set (role_permissions env roles r)" "string_matches API_KEY_VERIFIER v"
      "length (from_base64 (text_of_json v)) = 32" "text_of_json v \<notin> snd ` set vs"
    and rest: "validate_verifiers env roles ops (put_own i (text_of_json v) vs) rest = Inr vs'"
    by (auto split: option.splits if_splits)
  have k: "API_KEY_VERIFIER (text_of_json v)" using c(2) by (cases v) auto
  have "verifiers_ok env roles ops (put_own i (text_of_json v) vs)"
    using "2.prems"(2) r c(1,4) k set_put_own [of i "text_of_json v" vs]
    by (auto simp: verifiers_ok_def fst_put_own intro: inj_on_snd_put_own)
  from "2.IH" [OF r _ _ _ rest this] c show ?case by simp
qed simp

lemma good_threshold_bounds:
  assumes "good_threshold v"
  shows "1 \<le> threshold_of v \<and> threshold_of v \<le> MAX_QUORUM"
proof -
  from assms obtain r where v: "v = JNum r" and z: "r = of_int \<lfloor>r\<rfloor>" and b: "1 \<le> r" "r \<le> 16"
    by (cases v) (auto simp: good_threshold_def MAX_QUORUM_def)
  from b have "1 \<le> \<lfloor>r\<rfloor>" "\<lfloor>r\<rfloor> \<le> 16" using z by linarith+
  then have "1 \<le> nat \<lfloor>r\<rfloor>" "nat \<lfloor>r\<rfloor> \<le> 16" by linarith+
  then show ?thesis unfolding v threshold_of_def MAX_QUORUM_def num_of.simps by blast
qed

definition thresholds_ok :: "(string \<times> nat) list \<Rightarrow> bool" where
  "thresholds_ok ts = (\<forall>n \<in> snd ` set ts. 1 \<le> n \<and> n \<le> MAX_QUORUM)"

lemma thresholds_ok_put_own:
  "thresholds_ok ts \<Longrightarrow> 1 \<le> n \<Longrightarrow> n \<le> MAX_QUORUM \<Longrightarrow> thresholds_ok (put_own k n ts)"
  using set_put_own [of k n ts] unfolding thresholds_ok_def by auto

lemma validate_tools_bounds:
  "validate_tools ts fs = Inr ts' \<Longrightarrow> thresholds_ok ts \<Longrightarrow> thresholds_ok ts'"
proof (induction ts fs rule: validate_tools.induct)
  case (2 byTool tool threshold rest)
  then have "good_threshold threshold" by (simp split: if_splits)
  from good_threshold_bounds [OF this] 2 show ?case by (simp add: thresholds_ok_put_own split: if_splits)
qed simp

lemma fold_max_ge: "(d :: nat) \<le> fold max ns d \<and> (\<forall>n \<in> set ns. n \<le> fold max ns d)"
proof (induction ns arbitrary: d)
  case (Cons n ns)
  from Cons.IH [of "max n d"] show ?case by simp
qed simp

lemma max_threshold_ge: "d \<le> max_threshold d ts" "map_of ts tool = Some n \<Longrightarrow> n \<le> max_threshold d ts"
  using fold_max_ge [of d "map snd ts"] by (force simp: max_threshold_def dest!: map_of_SomeD)+

lemma validate_quorum_bounds:
  "validate_quorum q = Inr (d, ts) \<Longrightarrow>
     1 \<le> d \<and> d \<le> MAX_QUORUM \<and> thresholds_ok ts"
  using validate_tools_bounds [of "[]"] good_threshold_bounds
  by (auto simp: validate_quorum_def Let_def thresholds_ok_def split: if_splits)

lemma validatePolicy_cases:
  assumes "validatePolicy env doc = Inr p"
  obtains roles ops vs d ts where "validate_operators env roles [] (own_fields (jget doc ''operators'')) = Inr ops"
    and "validate_verifiers env roles ops [] (own_fields (jget doc ''operatorApiKeyVerifiers'')) = Inr vs"
    and "validate_quorum (jget doc ''quorum'') = Inr (d, ts)"
    and "\<not> (max_threshold d ts > 1 \<and> length vs < max_threshold d ts)"
    and "rp_roles p = roles" and "rp_operators p = ops" and "rp_verifiers p = vs"
    and "rp_defaultQuorum p = d" and "rp_byTool p = ts"
    and "rp_hash p = policyHashFor env (p\<lparr>rp_hash := []\<rparr>)"
  using assms
  by (auto simp: validatePolicy_def Let_def split: if_splits prod.splits)

section \<open>Properties\<close>

text \<open>
  C39: a validated policy is coherent.  Every operator it lists has a bounded id and a role of the
  policy; every API-key verifier belongs to a listed operator whose role may decide, one per operator
  and with distinct texts; and the quorum of every tool is between 1 and 16 and, above 1, at most the
  number of operators with a verifier.
\<close>

theorem validated_policy_coherent:
  assumes "validatePolicy env doc = Inr p"
  shows "(\<forall>(i, r) \<in> set (rp_operators p). OPERATOR_ID i \<and> map_of (rp_roles p) (js_string env r) \<noteq> None)
    \<and> verifiers_ok env (rp_roles p) (rp_operators p) (rp_verifiers p)
    \<and> (\<forall>tool. 1 \<le> quorumRequiredFor (Rbac p) tool \<and> quorumRequiredFor (Rbac p) tool \<le> 16
        \<and> (1 < quorumRequiredFor (Rbac p) tool \<longrightarrow> quorumRequiredFor (Rbac p) tool \<le> length (rp_verifiers p)))"
  using assms
proof (rule validatePolicy_cases)
  fix roles ops vs d ts
  assume o: "validate_operators env roles [] (own_fields (jget doc ''operators'')) = Inr ops"
    and v: "validate_verifiers env roles ops [] (own_fields (jget doc ''operatorApiKeyVerifiers'')) = Inr vs"
    and q: "validate_quorum (jget doc ''quorum'') = Inr (d, ts)"
    and m: "\<not> (max_threshold d ts > 1 \<and> length vs < max_threshold d ts)"
    and p: "rp_roles p = roles" "rp_operators p = ops" "rp_verifiers p = vs" "rp_defaultQuorum p = d" "rp_byTool p = ts"
  have b: "1 \<le> n \<and> n \<le> 16 \<and> (1 < n \<longrightarrow> n \<le> length vs)" if "n = quorumRequiredFor (Rbac p) tool" for n tool
  proof (cases "map_of ts tool")
    case None
    with that p validate_quorum_bounds [OF q] m max_threshold_ge(1) [of d ts] show ?thesis
      by (auto simp: quorumRequiredFor_def MAX_QUORUM_def not_less)
  next
    case (Some k)
    then have "k \<in> snd ` set ts" by (force dest: map_of_SomeD)
    with that p Some validate_quorum_bounds [OF q] m max_threshold_ge(2) [OF Some, of d] show ?thesis
      by (auto simp: quorumRequiredFor_def MAX_QUORUM_def not_less thresholds_ok_def)
  qed
  have "verifiers_ok env roles ops vs"
    by (rule validate_verifiers_ok [OF v]) (simp add: verifiers_ok_def)
  with b validate_operators_roles [OF o] p show ?thesis by simp
qed

text \<open>
  Nobody is authorized without a role that grants it.  Under a configured policy an authorization
  names an operator the policy lists, whose role grants the permission; with separation of duties an
  operator never decides its own request; a policy that is not valid authorizes nothing.
\<close>

theorem authorization_needs_role:
  assumes "authorizeApproval env policy operatorId requesterId permission = Inr r"
  shows "(\<forall>reason. policy \<noteq> Rbac_invalid reason) \<and> (\<forall>p. policy = Rbac p \<longrightarrow>
      (\<exists>i role. operatorId = JStr i \<and> r = Some (i, role) \<and> map_of (rp_operators p) i = Some role
        \<and> permission \<in> set (role_permissions env (rp_roles p) role)
        \<and> (permission = DECIDE \<and> rp_separationOfDuties p \<longrightarrow> requesterId \<noteq> JStr i)))"
  using assms
  by (cases operatorId) (auto simp: authorizeApproval_def Let_def split: rbac.splits if_splits option.splits)

text \<open>
  An operator known by its API key holds that key.  When the resolution answers with the source
  \<open>api_key\<close>, the presented key derives, under the policy's salt, the bytes of the verifier of the
  operator it answers with, and the policy lists that operator with a role that may decide.
\<close>

theorem api_key_operator_verified:
  assumes "resolveApprovalOperator env scrypt policy apiKey hint fallback requesterId = Inr op"
    and "op_source op = Api_key"
  shows "\<exists>p i v key salt. policy = Rbac p \<and> op_operatorId op = Some i \<and> hint = JStr i
    \<and> map_of (rp_verifiers p) i = Some v \<and> apiKey = JStr key \<and> rp_salt p = JStr salt
    \<and> scrypt key (from_base64 salt) = from_base64 v
    \<and> (\<exists>role. map_of (rp_operators p) i = Some role \<and> DECIDE \<in> set (role_permissions env (rp_roles p) role))
    \<and> (rp_separationOfDuties p \<longrightarrow> requesterId \<noteq> JStr i)"
proof -
  from assms obtain p where p: "policy = Rbac p"
    by (auto simp: resolveApprovalOperator_def split: rbac.splits)
  with assms obtain v a where h: "string_matches OPERATOR_ID hint"
    and v: "map_of (rp_verifiers p) (text_of_json hint) = Some v"
    and k: "verifyOperatorApiKey scrypt apiKey (rp_salt p) (JStr v)"
    and a: "authorizeApproval env (Rbac p) hint requesterId DECIDE = Inr a"
    and op: "op = \<lparr>op_operatorId = Some (text_of_json hint), op_source = Api_key\<rparr>"
    by (auto simp: resolveApprovalOperator_def split: if_splits option.splits)
  from h obtain i where i: "hint = JStr i" by (cases hint) auto
  from k obtain key salt where "apiKey = JStr key" "rp_salt p = JStr salt" "scrypt key (from_base64 salt) = from_base64 v"
    by (cases apiKey; cases "rp_salt p") (auto simp: verifyOperatorApiKey_def Let_def split: if_splits)
  moreover from a i obtain role where "map_of (rp_operators p) i = Some role"
    "DECIDE \<in> set (role_permissions env (rp_roles p) role)" "rp_separationOfDuties p \<longrightarrow> requesterId \<noteq> JStr i"
    by (auto simp: authorizeApproval_def Let_def split: if_splits option.splits)
  ultimately show ?thesis using p v op i by auto
qed

section \<open>An example, and a gap\<close>

text \<open>Two approvers, and verifiers whose texts differ in the two bits that are not part of the bytes.\<close>

definition key_text :: "char \<Rightarrow> string" where
  "key_text c = replicate 42 CHR ''A'' @ [c]"

definition two_voters :: jsval where
  "two_voters = JObj [(''version'', JNum 1),
     (''roles'', JObj [(''approver'', JArr [JStr ''approvals.view'', JStr ''approvals.decide''])]),
     (''operators'', JObj [(''ann'', JStr ''approver''), (''bob'', JStr ''approver'')]),
     (''separationOfDuties'', JBool True), (''operatorApiKeySalt'', JStr (replicate 22 CHR ''A'')),
     (''operatorApiKeyVerifiers'', JObj [(''ann'', JStr (key_text CHR ''A'')), (''bob'', JStr (key_text CHR ''B''))]),
     (''quorum'', JObj [(''default'', JNum 2)])]"

lemma two_voters_valid: "case validatePolicy example_env two_voters of Inl r \<Rightarrow> False
   | Inr p \<Rightarrow> rp_verifiers p = [(''ann'', key_text CHR ''A''), (''bob'', key_text CHR ''B'')]
       \<and> rp_operators p = [(''ann'', JStr ''approver''), (''bob'', JStr ''approver'')]
       \<and> rp_roles p = [(''approver'', [''approvals.view'', ''approvals.decide''])]
       \<and> rp_salt p = JStr (replicate 22 CHR ''A'') \<and> rp_separationOfDuties p
       \<and> rp_defaultQuorum p = 2 \<and> rp_byTool p = []"
  by code_simp

definition two_voters_policy :: rbac_policy where
  "two_voters_policy = (case validatePolicy example_env two_voters of Inr p \<Rightarrow> p)"

lemma two_voters_policy: "validatePolicy example_env two_voters = Inr two_voters_policy"
  using two_voters_valid by (auto simp: two_voters_policy_def split: sum.splits)

lemma two_voters_fields:
  "rp_verifiers two_voters_policy = [(''ann'', key_text CHR ''A''), (''bob'', key_text CHR ''B'')]"
  "rp_operators two_voters_policy = [(''ann'', JStr ''approver''), (''bob'', JStr ''approver'')]"
  "rp_roles two_voters_policy = [(''approver'', [''approvals.view'', ''approvals.decide''])]"
  "rp_salt two_voters_policy = JStr (replicate 22 CHR ''A'')" "rp_separationOfDuties two_voters_policy"
  "rp_defaultQuorum two_voters_policy = 2" "rp_byTool two_voters_policy = []"
  using two_voters_valid two_voters_policy by auto

theorem validated_policy_coherent_witness:
  "verifiers_ok example_env (rp_roles two_voters_policy) (rp_operators two_voters_policy) (rp_verifiers two_voters_policy)
    \<and> quorumRequiredFor (Rbac two_voters_policy) ''t'' = 2 \<and> length (rp_verifiers two_voters_policy) = 2"
  using validated_policy_coherent [OF two_voters_policy]
  by (simp add: quorumRequiredFor_def two_voters_fields)

lemma two_voters_authorize:
  "authorizeApproval example_env (Rbac two_voters_policy) (JStr ''ann'') (JStr ''bob'') DECIDE
     = Inr (Some (''ann'', JStr ''approver''))"
proof -
  have "OPERATOR_ID ''ann''" by code_simp
  then show ?thesis
    by (simp add: authorizeApproval_def two_voters_fields role_permissions_def DECIDE_def)
qed

theorem authorization_needs_role_witness:
  "DECIDE \<in> set (role_permissions example_env (rp_roles two_voters_policy) (JStr ''approver''))"
  using authorization_needs_role [OF two_voters_authorize] by simp

definition zero_scrypt :: scrypt where
  "zero_scrypt key salt = replicate 32 (char_of (0 :: nat))"

definition voter_key :: jsval where
  "voter_key = JStr (replicate 32 CHR ''k'')"

lemma same_bytes: "from_base64 (key_text CHR ''A'') = replicate 32 (char_of (0 :: nat))"
  "from_base64 (key_text CHR ''B'') = replicate 32 (char_of (0 :: nat))"
  by code_simp+

lemma voter_patterns: "string_matches API_KEY voter_key" "OPERATOR_ID ''ann''" "OPERATOR_ID ''bob''"
  "API_KEY_SALT (replicate 22 CHR ''A'')" "length (from_base64 (replicate 22 CHR ''A'')) = 16"
  "API_KEY_VERIFIER (key_text CHR ''A'')" "API_KEY_VERIFIER (key_text CHR ''B'')"
  by code_simp+

lemma two_voters_verify:
  "verifyOperatorApiKey scrypt apiKey (rp_salt two_voters_policy) (JStr (key_text CHR ''A'')) =
     verifyOperatorApiKey scrypt apiKey (rp_salt two_voters_policy) (JStr (key_text CHR ''B''))"
  by (simp add: verifyOperatorApiKey_def voter_patterns same_bytes two_voters_fields)

lemma two_voters_resolve:
  "i = ''ann'' \<and> v = key_text CHR ''A'' \<or> i = ''bob'' \<and> v = key_text CHR ''B'' \<Longrightarrow>
   resolveApprovalOperator example_env scrypt (Rbac two_voters_policy) apiKey (JStr i) fallback JUndefined =
     (if \<not> string_matches API_KEY apiKey then Inl RBAC_API_KEY_REQUIRED
      else if \<not> verifyOperatorApiKey scrypt apiKey (rp_salt two_voters_policy) (JStr v) then Inl RBAC_API_KEY_INVALID
      else Inr \<lparr>op_operatorId = Some i, op_source = Api_key\<rparr>)"
  by (auto simp: resolveApprovalOperator_def authorizeApproval_def two_voters_fields voter_patterns
      role_permissions_def DECIDE_def)

lemma voter_key_resolves:
  "resolveApprovalOperator example_env zero_scrypt (Rbac two_voters_policy) voter_key (JStr ''ann'') JNull JUndefined
     = Inr \<lparr>op_operatorId = Some ''ann'', op_source = Api_key\<rparr>"
  by (simp add: two_voters_resolve [of "''ann''" "key_text CHR ''A''"] voter_patterns)
    (simp add: verifyOperatorApiKey_def voter_key_def zero_scrypt_def same_bytes voter_patterns two_voters_fields
      voter_patterns(1) [unfolded voter_key_def, simplified])

theorem api_key_operator_verified_witness:
  "\<exists>p v salt. Rbac two_voters_policy = Rbac p \<and> map_of (rp_verifiers p) ''ann'' = Some v \<and> rp_salt p = JStr salt
    \<and> zero_scrypt (replicate 32 CHR ''k'') (from_base64 salt) = from_base64 v"
  using api_key_operator_verified [OF voter_key_resolves] by (auto simp: voter_key_def)

text \<open>
  Distinct verifiers need not be distinct keys.  There is a policy that passes the validation,
  with a quorum of two and verifiers of two operators, under which every API key, whatever the key
  derivation, is accepted for the one operator exactly when it is accepted for the other: one person with one key
  makes up the quorum.
\<close>

theorem one_key_makes_a_quorum:
  "\<exists>doc p. validatePolicy example_env doc = Inr p \<and> quorumRequiredFor (Rbac p) ''t'' = 2
    \<and> (\<forall>scrypt apiKey.
        (resolveApprovalOperator example_env scrypt (Rbac p) apiKey (JStr ''ann'') JNull JUndefined
           = Inr \<lparr>op_operatorId = Some ''ann'', op_source = Api_key\<rparr>) =
        (resolveApprovalOperator example_env scrypt (Rbac p) apiKey (JStr ''bob'') JNull JUndefined
           = Inr \<lparr>op_operatorId = Some ''bob'', op_source = Api_key\<rparr>))
    \<and> (\<exists>scrypt apiKey. resolveApprovalOperator example_env scrypt (Rbac p) apiKey (JStr ''ann'') JNull JUndefined
           = Inr \<lparr>op_operatorId = Some ''ann'', op_source = Api_key\<rparr>)"
proof (intro exI conjI allI)
  show "validatePolicy example_env two_voters = Inr two_voters_policy" by (rule two_voters_policy)
  show "quorumRequiredFor (Rbac two_voters_policy) ''t'' = 2"
    by (simp add: quorumRequiredFor_def two_voters_fields)
  show "resolveApprovalOperator example_env zero_scrypt (Rbac two_voters_policy) voter_key (JStr ''ann'') JNull JUndefined
     = Inr \<lparr>op_operatorId = Some ''ann'', op_source = Api_key\<rparr>" by (rule voter_key_resolves)
  fix scrypt apiKey
  show "(resolveApprovalOperator example_env scrypt (Rbac two_voters_policy) apiKey (JStr ''ann'') JNull JUndefined
           = Inr \<lparr>op_operatorId = Some ''ann'', op_source = Api_key\<rparr>) =
        (resolveApprovalOperator example_env scrypt (Rbac two_voters_policy) apiKey (JStr ''bob'') JNull JUndefined
           = Inr \<lparr>op_operatorId = Some ''bob'', op_source = Api_key\<rparr>)"
    by (simp add: two_voters_resolve [of "''ann''" "key_text CHR ''A''"]
        two_voters_resolve [of "''bob''" "key_text CHR ''B''"] two_voters_verify)
qed

end
