(* ===== verification/Authority_Example.thy ===== *)
theory Authority_Example
  imports Authority_Durable Evaluation Approval_Rbac_Facts
begin

text \<open>
  A concrete approval authority, to which the properties are applied: one operator with one-time codes,
  and two voters with API keys.
\<close>

definition iso_instants :: "(int \<times> string) list" where
  "iso_instants = [(0, ''1970-01-01T00:00:00Z''), (60000, ''1970-01-01T00:01:00Z''),
     (660000, ''1970-01-01T00:11:00Z''), (3600000, ''1970-01-01T01:00:00Z'')]"

definition iso_env :: js_env where
  "iso_env = \<lparr>date_parse = (\<lambda>t. map_option fst (find (\<lambda>p. snd p = t) iso_instants)),
     iso_at = (\<lambda>i. case find (\<lambda>p. fst p = i) iso_instants of Some p \<Rightarrow> snd p | None \<Rightarrow> ''later''),
     locale_compare = (\<lambda>s t. if s = t then 0 else if s < t then - 1 else 1),
     number_of_string = (\<lambda>_. None), string_of_fraction = (\<lambda>_. []), sha256_hex = (\<lambda>_. replicate 64 CHR ''a'')\<rparr>"

definition example_signing_key :: signing_key where
  "example_signing_key = \<lparr>sk_keyId = ''key'', sk_sign = (\<lambda>_. replicate 86 CHR ''A'')\<rparr>"

definition example_config :: "rbac \<Rightarrow> service_config" where
  "example_config policy = \<lparr>cf_env = iso_env, cf_hmac = (\<lambda>_ _. replicate 20 0), cf_scrypt = zero_scrypt,
     cf_unseal = (\<lambda>x. Some (jget x ''plain'')), cf_rbac = policy, cf_operatorId = JStr ''ann'',
     cf_secret = replicate 16 0, cf_key = example_signing_key, cf_sealing = ''pem'', cf_anchor = None\<rparr>"

definition hash64 :: string where
  "hash64 = replicate 64 CHR ''a''"

definition example_registration :: "string \<Rightarrow> jsval" where
  "example_registration requester = JObj [(''approvalId'', JStr ''a1''), (''workspaceId'', JStr ''w''),
     (''tool'', JStr ''t''), (''arguments'', JObj []), (''actionHash'', JStr hash64),
     (''consumeProofHash'', JStr hash64), (''summary'', JStr ''''), (''expiresAt'', JStr ''1970-01-01T01:00:00Z''),
     (''requesterId'', JStr requester)]"

definition example_sealed :: "string \<Rightarrow> jsval \<Rightarrow> jsval" where
  "example_sealed decision totp = JObj [(''v'', JStr SEALED_REQUEST_VERSION), (''approvalId'', JStr ''a1''),
     (''epk'', JStr (replicate 43 CHR ''A'')), (''nonce'', JStr (replicate 16 CHR ''A'')),
     (''tag'', JStr (replicate 22 CHR ''A'')), (''ct'', JStr ''AA''),
     (''plain'', JObj [(''approvalId'', JStr ''a1''), (''actionHash'', JStr hash64), (''decision'', JStr decision),
        (''reason'', JStr ''''), (''totp'', totp)])]"

definition example_proof :: jsval where
  "example_proof = JStr (replicate 32 CHR ''p'')"

definition at_minute :: "authority_request \<Rightarrow> service_event" where
  "at_minute q = Served q (\<lambda>_. 60000) (\<lambda>_. Append_durable) True"

definition register_example :: "string \<Rightarrow> service_event" where
  "register_example requester = Served (Register (example_registration requester)) (\<lambda>_. 0) (\<lambda>_. Append_durable) True"

definition decide_example :: "string \<Rightarrow> service_event" where
  "decide_example d = at_minute (Decide_approval ''a1'' (example_sealed d (JStr ''000000'')) JUndefined JUndefined)"

definition vote_example :: "string \<Rightarrow> string \<Rightarrow> service_event" where
  "vote_example op d = at_minute (Decide_approval ''a1'' (example_sealed d JNull) voter_key (JStr op))"

definition consume_example :: service_event where
  "consume_example = at_minute (Consume_approval ''a1'' (JStr hash64) example_proof)"

definition outcome_example :: service_event where
  "outcome_example = at_minute (Record_outcome ''a1'' (JStr ''executed'') (JStr ''r'') JNull example_proof)"

definition single_run :: "service_event list" where
  "single_run = [register_example ''carol'', decide_example ''approved'', consume_example, outcome_example]"

definition ledger_of :: "service_config \<Rightarrow> service_event list \<Rightarrow> authority_entry list" where
  "ledger_of cf evs = al_records (sv_ledger (snd (deployment_run cf evs)))"

definition quorum_run :: "service_event list" where
  "quorum_run = [register_example ''carol'', vote_example ''ann'' ''approved'', vote_example ''bob'' ''approved'', consume_example]"

abbreviation single_config :: service_config where
  "single_config \<equiv> example_config Rbac_unconfigured"

abbreviation quorum_config :: service_config where
  "quorum_config \<equiv> example_config (Rbac two_voters_policy)"

definition is_registration :: "(registration \<Rightarrow> bool) \<Rightarrow> authority_entry \<Rightarrow> bool" where
  "is_registration Q e = (case ae_event e of Registered r \<Rightarrow> Q r | _ \<Rightarrow> False)"

definition is_vote :: "(vote \<Rightarrow> bool) \<Rightarrow> authority_entry \<Rightarrow> bool" where
  "is_vote Q e = (case ae_event e of Voted i v \<Rightarrow> i = ''a1'' \<and> Q v | _ \<Rightarrow> False)"

definition is_decision :: "(decided \<Rightarrow> bool) \<Rightarrow> authority_entry \<Rightarrow> bool" where
  "is_decision Q e = (case ae_event e of Decided i d \<Rightarrow> i = ''a1'' \<and> Q d | _ \<Rightarrow> False)"

definition is_consumption :: "authority_entry \<Rightarrow> bool" where
  "is_consumption e = (case ae_event e of Consumed i h \<Rightarrow> i = ''a1'' \<and> h = hash64 | _ \<Rightarrow> False)"

definition is_outcome :: "authority_entry \<Rightarrow> bool" where
  "is_outcome e = (case ae_event e of Outcome i x \<Rightarrow> i = ''a1'' | _ \<Rightarrow> False)"

lemmas event_tests = is_registration_def is_vote_def is_decision_def is_consumption_def is_outcome_def

lemma single_events: "list_all2 (\<lambda>Q e. Q e)
   [is_registration (\<lambda>r. rg_approvalId r = ''a1'' \<and> rg_requesterId r = Some ''carol''),
    is_decision (\<lambda>d. dd_decision d = Decision_approved \<and> dd_operatorId d = Some ''ann'' \<and> dd_quorumRequired d = None),
    is_consumption, is_outcome] (ledger_of single_config single_run)"
  by code_simp

lemma quorum_events: "list_all2 (\<lambda>Q e. Q e)
   [is_registration (\<lambda>r. rg_approvalId r = ''a1'' \<and> rg_requesterId r = Some ''carol'' \<and> rg_tool r = ''t''),
    is_vote (\<lambda>v. vt_operatorId v = ''ann''), is_vote (\<lambda>v. vt_operatorId v = ''bob''),
    is_decision (\<lambda>d. dd_decision d = Decision_approved \<and> dd_quorumRequired d = Some 2),
    is_consumption] (ledger_of quorum_config quorum_run)"
  by code_simp

lemma single_run_entries:
  obtains w x y z r d oc where "ledger_of single_config single_run = [w, x, y, z]"
    and "ae_event w = Registered r" "rg_approvalId r = ''a1''" "rg_requesterId r = Some ''carol''"
    and "ae_event x = Decided ''a1'' d" "dd_decision d = Decision_approved" "dd_operatorId d = Some ''ann''" "dd_quorumRequired d = None"
    and "ae_event y = Consumed ''a1'' hash64" and "ae_event z = Outcome ''a1'' oc"
proof -
  from single_events obtain w x y z where L: "ledger_of single_config single_run = [w, x, y, z]"
    by (auto simp: list_all2_Cons1)
  with single_events that [OF L] show thesis
    by (simp add: event_tests split: authority_event.splits)
qed

lemma quorum_run_entries:
  obtains u w x y z r v v' d where "ledger_of quorum_config quorum_run = [u, w, x, y, z]"
    and "ae_event u = Registered r" "rg_approvalId r = ''a1''" "rg_requesterId r = Some ''carol''" "rg_tool r = ''t''"
    and "ae_event w = Voted ''a1'' v" "vt_operatorId v = ''ann''" "ae_event x = Voted ''a1'' v'" "vt_operatorId v' = ''bob''"
    and "ae_event y = Decided ''a1'' d" "dd_decision d = Decision_approved" "dd_quorumRequired d = Some 2"
    and "ae_event z = Consumed ''a1'' hash64"
proof -
  from quorum_events obtain u w x y z where L: "ledger_of quorum_config quorum_run = [u, w, x, y, z]"
    by (auto simp: list_all2_Cons1)
  with quorum_events that [OF L] show thesis
    by (simp add: event_tests split: authority_event.splits)
qed

end
