(* ===== verification/Authority_Properties.thy ===== *)
theory Authority_Properties
  imports Authority_Example
begin

text \<open>
  What the ledger of the approval authority shows in every run: any sequence of requests, with any
  readings of the clock, any outcome of the appends and saves, and restarts with any policies between
  them.
\<close>

section \<open>Lemmas\<close>

lemma ledger_of_lawful: "lawful (cf_env cf) (policies cf evs) (ledger_of cf evs)"
  using deployment_run_running [of cf evs] by (auto simp: running_def service_lawful_def ledger_of_def)

lemma event_split:
  assumes "ev \<in> events es"
  obtains xs e ys where "es = xs @ e # ys" and "ae_event e = ev"
  using assms by (auto simp: events_def) (metis split_list)

definition counts :: "(authority_event \<Rightarrow> bool) \<Rightarrow> authority_entry list \<Rightarrow> nat" where
  "counts Q es = length (filter (\<lambda>e. Q (ae_event e)) es)"

lemma counts_zero: "counts Q es = 0 \<longleftrightarrow> (\<forall>ev \<in> events es. \<not> Q ev)"
  by (auto simp: counts_def events_def filter_empty_conv)

lemma counts_snoc [simp]: "counts Q (es @ [e]) = counts Q es + (if Q (ae_event e) then 1 else 0)" "counts Q [] = 0"
  by (simp_all add: counts_def)

text \<open>An event that is lawful only when no such event has occurred happens at most once.\<close>

lemma lawful_once:
  assumes "lawful env P es"
    and "\<And>xs policy ev. lawful env P xs \<Longrightarrow> event_lawful env policy xs ev \<Longrightarrow> Q ev \<Longrightarrow> \<forall>ev' \<in> events xs. \<not> Q ev'"
  shows "counts Q es \<le> 1"
  using assms(1)
proof (induction rule: lawful.induct)
  case (lawful_append es policy e)
  then show ?case using assms(2) [OF lawful_append.hyps(1,3)] counts_zero [of Q es] by auto
qed simp

lemma at_told:
  assumes "lawful env P es" and "approval_at es i = None" and "ev \<in> events es"
  shows "names ev \<noteq> Some i"
  using lawful_told [OF assms(1), of i] assms(2,3) by (simp add: told_def)

lemma registration_first:
  assumes "lawful env P xs" and "event_lawful env policy xs (Registered r)" and "ev \<in> events xs"
  shows "names ev \<noteq> Some (rg_approvalId r)"
  using at_told [OF assms(1) _ assms(3)] assms(2) by (simp add: event_lawful_def)

lemma registered_before:
  assumes "lawful env P es" and "approval_at es i = Some a"
  shows "Registered (ap_reg a) \<in> events es" and "rg_approvalId (ap_reg a) = i" and "registration_lawful env (ap_reg a)"
  using lawful_tells [OF assms] by (simp_all add: tells_def)

lemma one_registration:
  assumes "lawful env P es" and "approval_at es i = Some a" and "Registered r \<in> events es" "rg_approvalId r = i"
  shows "ap_reg a = r"
  using assms
proof (induction arbitrary: a rule: lawful.induct)
  case (lawful_append es policy e)
  show ?case
  proof (cases "approval_at es i")
    case None
    then have "ae_event e = Registered r"
      using at_told [OF lawful_append.hyps(1) None, of "Registered r"] lawful_append.prems by auto
    then show ?thesis using None lawful_append.prems by (auto simp: approval_at_snoc own_step_def registered_def)
  next
    case (Some b)
    then have "\<not> (\<exists>x. ae_event e = Registered x \<and> rg_approvalId x = i)"
      using lawful_append.hyps(3) by (auto simp: event_lawful_def)
    then have "Registered r \<noteq> ae_event e" using lawful_append.prems(3) by metis
    then have "Registered r \<in> events es" using lawful_append.prems(2) by simp
    then have "ap_reg b = r" using lawful_append.IH [OF Some] lawful_append.prems by simp
    moreover have "ap_reg a = ap_reg b"
      using Some lawful_append.prems(1)
      by (auto simp: approval_at_snoc own_step_def split: authority_event.splits if_splits)
    ultimately show ?thesis by simp
  qed
qed simp

section \<open>The life of an approval\<close>

text \<open>
  C3: the service refines the protocol.  In every run the ledger is a lawful history of events under the
  policies that were in force, and the approvals the service answers from are the fold of that ledger.
\<close>

theorem authority_refines_protocol:
  "lawful (cf_env cf) (policies cf evs) (ledger_of cf evs)
    \<and> sv_view (snd (deployment_run cf evs)) = createApprovalView (ledger_of cf evs)"
  using deployment_run_running [of cf evs] by (auto simp: running_def service_lawful_def ledger_of_def)

definition registers :: "string \<Rightarrow> authority_event \<Rightarrow> bool" where
  "registers i ev = (case ev of Registered r \<Rightarrow> rg_approvalId r = i | _ \<Rightarrow> False)"

definition decides :: "string \<Rightarrow> authority_event \<Rightarrow> bool" where
  "decides i ev = (case ev of Decided j d \<Rightarrow> j = i | _ \<Rightarrow> False)"

definition withdraws :: "string \<Rightarrow> authority_event \<Rightarrow> bool" where
  "withdraws i ev = (case ev of Withdrawn j x \<Rightarrow> j = i | _ \<Rightarrow> False)"

definition consumes :: "string \<Rightarrow> authority_event \<Rightarrow> bool" where
  "consumes i ev = (case ev of Consumed j h \<Rightarrow> j = i | _ \<Rightarrow> False)"

definition concludes :: "string \<Rightarrow> authority_event \<Rightarrow> bool" where
  "concludes i ev = (case ev of Outcome j x \<Rightarrow> j = i | _ \<Rightarrow> False)"

lemmas event_kinds = registers_def decides_def withdraws_def consumes_def concludes_def

text \<open>
  C5: nothing about an approval happens twice.  In every run an approval is registered, decided,
  withdrawn, consumed and concluded at most once each, and it is never both withdrawn and consumed.
\<close>

theorem each_step_once:
  "counts (registers i) (ledger_of cf evs) \<le> 1 \<and> counts (decides i) (ledger_of cf evs) \<le> 1
    \<and> counts (\<lambda>ev. withdraws i ev \<or> consumes i ev) (ledger_of cf evs) \<le> 1
    \<and> counts (concludes i) (ledger_of cf evs) \<le> 1"
proof (intro conjI; rule lawful_once [OF ledger_of_lawful])
  fix xs policy ev
  assume L: "lawful (cf_env cf) (policies cf evs) xs" and ev: "event_lawful (cf_env cf) policy xs ev"
  {
    assume "registers i ev"
    then obtain r where r: "ev = Registered r" "rg_approvalId r = i" by (auto simp: registers_def split: authority_event.splits)
    show "\<forall>ev' \<in> events xs. \<not> registers i ev'"
      using registration_first [OF L ev [unfolded r(1)]] r(2)
      by (force simp: registers_def split: authority_event.splits)
  next
    assume "decides i ev"
    then show "\<forall>ev' \<in> events xs. \<not> decides i ev'"
      using ev lawful_tells [OF L, of i] by (auto simp: decides_def event_lawful_def tells_def split: authority_event.splits)
  next
    assume "withdraws i ev \<or> consumes i ev"
    then show "\<forall>ev' \<in> events xs. \<not> (withdraws i ev' \<or> consumes i ev')"
      using ev lawful_tells [OF L, of i]
      by (auto simp: withdraws_def consumes_def event_lawful_def tells_def split: authority_event.splits)
  next
    assume "concludes i ev"
    then show "\<forall>ev' \<in> events xs. \<not> concludes i ev'"
      using ev lawful_tells [OF L, of i] by (auto simp: concludes_def event_lawful_def tells_def split: authority_event.splits)
  }
qed

text \<open>
  C4: an execution was approved.  Where the ledger of a run has a consumption of an approval, it has before
  it one registration of that approval whose action hash is the consumed one and is the hash of the
  registered tool, workspace, approval id and arguments, and a decision that approved this hash; and no
  withdrawal of the approval before or after.
\<close>

theorem consumption_was_approved:
  assumes "ledger_of cf evs = xs @ e # ys" and "ae_event e = Consumed i h"
  shows "(\<exists>r. Registered r \<in> events xs \<and> rg_approvalId r = i \<and> rg_actionHash r = h
        \<and> canonicalActionHash (cf_env cf) (JStr (rg_tool r)) (JStr (rg_workspaceId r)) (JStr i) (rg_arguments r) = Some h)
    \<and> (\<exists>d. Decided i d \<in> events xs \<and> dd_decision d = Decision_approved \<and> dd_actionHash d = h)
    \<and> (\<forall>x. Withdrawn i x \<notin> events (xs @ ys))"
proof -
  have L: "lawful (cf_env cf) (policies cf evs) (xs @ e # ys)" using ledger_of_lawful [of cf evs] assms(1) by simp
  obtain a where a: "approval_at xs i = Some a" "tells (cf_env cf) xs i a" "ap_status a = Approval_approved"
      "ap_consumed a = None" "h = rg_actionHash (ap_reg a)"
    using consumed_at [OF L assms(2)] by blast
  obtain d where d: "Decided i d \<in> events xs" "dd_decision d = Decision_approved"
    using approved_means_decided [OF a(2,3)] by blast
  then obtain us f vs where f: "xs = us @ f # vs" "ae_event f = Decided i d"
    using event_split by blast
  have Lx: "lawful (cf_env cf) (policies cf evs) (us @ f # vs)" using lawful_prefix [OF L] f(1) by simp
  obtain policy b where b: "approval_at us i = Some b" "decision_lawful (cf_env cf) policy b d"
    using decided_at [OF Lx f(2)] by blast
  have "ap_reg a = ap_reg b"
    using one_registration [OF Lx, of i a "ap_reg b"] a(1) registered_before [OF lawful_prefix [OF Lx] b(1)] f(1) by simp
  then have hash: "dd_actionHash d = h" using b(2) a(5) by (simp add: decision_lawful_def)
  have "Withdrawn i x \<notin> events ys" for x
  proof
    assume "Withdrawn i x \<in> events ys"
    then obtain us g vs where g: "ys = us @ g # vs" "ae_event g = Withdrawn i x"
      using event_split by blast
    have Lg: "lawful (cf_env cf) (policies cf evs) ((xs @ e # us) @ g # vs)" using L g(1) by simp
    obtain b where "approval_at (xs @ e # us) i = Some b" "ap_consumed b = None"
      using lawful_at [OF Lg] g(2) by (auto simp: event_lawful_def)
    with lawful_tells [OF lawful_prefix [OF Lg]] assms(2) show False by (auto simp: tells_def)
  qed
  then show ?thesis
    using registered_before [OF lawful_prefix [OF L] a(1)] a(2,5) d hash approved_means_decided [OF a(2,3)]
    by (auto simp: registration_lawful_def)
qed

theorem consumption_was_approved_witness:
  "\<exists>xs d. Decided ''a1'' d \<in> events xs \<and> dd_decision d = Decision_approved \<and> dd_actionHash d = hash64
    \<and> prefix xs (ledger_of single_config single_run)"
proof -
  obtain w x y z where L: "ledger_of single_config single_run = [w, x, y, z]" and y: "ae_event y = Consumed ''a1'' hash64"
    by (rule single_run_entries)
  have "ledger_of single_config single_run = [w, x] @ y # [z]" using L by simp
  from consumption_was_approved [OF this y] L show ?thesis by (intro exI [of _ "[w, x]"]) auto
qed

text \<open>
  C6: a decision that carries a quorum was voted.  Where a run records an approval with a required number of
  approvers, it names at least that many distinct operators, each of whom has an earlier recorded vote
  for this very action, cast with an operator's own API key, and nobody has a recorded vote against it.
\<close>

theorem quorum_decision_has_votes:
  assumes "ledger_of cf evs = xs @ e # ys" and "ae_event e = Decided i d"
    and "dd_decision d = Decision_approved" and "dd_quorumRequired d = Some n"
  shows "\<exists>ids. dd_approverIds d = Some ids \<and> distinct ids \<and> n \<le> length ids \<and> n > 1
    \<and> (\<forall>j \<in> set ids. \<exists>v. Voted i v \<in> events xs \<and> vt_operatorId v = j \<and> vt_decision v = Decision_approved
        \<and> vt_actionHash v = dd_actionHash d \<and> vt_authMethod v = Api_key)
    \<and> (\<forall>v. Voted i v \<in> events xs \<longrightarrow> vt_decision v = Decision_approved)"
proof -
  have L: "lawful (cf_env cf) (policies cf evs) (xs @ e # ys)" using ledger_of_lawful [of cf evs] assms(1) by simp
  obtain policy a where a: "approval_at xs i = Some a" "tells (cf_env cf) xs i a" "decision_lawful (cf_env cf) policy a d"
    using decided_at [OF L assms(2)] by blast
  have votes: "v \<in> set (plain_votes a) \<longleftrightarrow> Voted i v \<in> events xs" for v
    using a(2) by (simp add: tells_def in_recorded_votes)
  have vote: "vt_actionHash v = dd_actionHash d \<and> vt_authMethod v = Api_key" if v: "Voted i v \<in> events xs" for v
  proof -
    obtain us f vs where f: "xs = us @ f # vs" "ae_event f = Voted i v" using event_split [OF v] by blast
    have Lx: "lawful (cf_env cf) (policies cf evs) (us @ f # vs)" using lawful_prefix [OF L] f(1) by simp
    obtain policy' b where b: "approval_at us i = Some b" "vote_lawful (cf_env cf) policy' b v"
      using lawful_at [OF Lx] f(2) by (auto simp: event_lawful_def)
    have "ap_reg a = ap_reg b"
      using one_registration [OF Lx, of i a "ap_reg b"] a(1) registered_before [OF lawful_prefix [OF Lx] b(1)] f(1) by simp
    then show ?thesis using a(3) b(2) by (simp add: decision_lawful_def vote_lawful_def)
  qed
  obtain ids where ids: "dd_approverIds d = Some ids" "distinct ids" "n \<le> length ids" "n > 1"
      "set ids \<subseteq> voters_for a Decision_approved" "voters_for a Decision_rejected = {}"
    using a(3) assms(3,4) by (auto simp: decision_lawful_def split: if_splits)
  have "\<forall>j \<in> set ids. \<exists>v. Voted i v \<in> events xs \<and> vt_operatorId v = j \<and> vt_decision v = Decision_approved"
    using ids(5) votes by (auto simp: voters_for_def)
  moreover have "vt_decision v = Decision_approved" if "Voted i v \<in> events xs" for v
    using ids(6) votes [of v] that by (cases "vt_decision v") (auto simp: voters_for_def)
  ultimately show ?thesis using ids(1-4) vote by metis
qed

theorem quorum_decision_has_votes_witness:
  "\<exists>e d ids. e \<in> set (ledger_of quorum_config quorum_run) \<and> ae_event e = Decided ''a1'' d
    \<and> dd_approverIds d = Some ids \<and> distinct ids \<and> 2 \<le> length ids"
proof -
  obtain u w x y z d where L: "ledger_of quorum_config quorum_run = [u, w, x, y, z]"
      and y: "ae_event y = Decided ''a1'' d" "dd_decision d = Decision_approved" "dd_quorumRequired d = Some 2"
    by (rule quorum_run_entries)
  have "ledger_of quorum_config quorum_run = [u, w, x] @ y # [z]" using L by simp
  from quorum_decision_has_votes [OF this y] L y show ?thesis by (intro exI [of _ y]) auto
qed

text \<open>
  A threshold cannot be skipped.  Where every policy in force asks for more than one approver of a
  tool, each decision a run records on an approval of that tool carries the number one of these policies
  asks for (and, if it approves, the votes of the property above).
\<close>

theorem threshold_not_skipped:
  assumes "ledger_of cf evs = xs @ e # ys" and "ae_event e = Decided (rg_approvalId r) d"
    and "Registered r \<in> events xs" and "\<And>p. p \<in> policies cf evs \<Longrightarrow> quorumRequiredFor p (rg_tool r) > 1"
  shows "\<exists>p \<in> policies cf evs. dd_quorumRequired d = Some (quorumRequiredFor p (rg_tool r))"
proof -
  have L: "lawful (cf_env cf) (policies cf evs) (xs @ e # ys)" using ledger_of_lawful [of cf evs] assms(1) by simp
  obtain p a where a: "p \<in> policies cf evs" "approval_at xs (rg_approvalId r) = Some a" "decision_lawful (cf_env cf) p a d"
    using decided_at [OF L assms(2)] by blast
  have "ap_reg a = r" by (rule one_registration [OF lawful_prefix [OF L] a(2) assms(3)]) simp
  then show ?thesis using a(1,3) assms(4) [OF a(1)] by (auto simp: decision_lawful_def required_def)
qed

lemma quorum_run_policies: "policies quorum_config quorum_run = {Rbac two_voters_policy}"
  by (auto simp: policies_def quorum_run_def register_example_def vote_example_def consume_example_def at_minute_def
    example_config_def)

theorem threshold_not_skipped_witness:
  "\<exists>e d. e \<in> set (ledger_of quorum_config quorum_run) \<and> ae_event e = Decided ''a1'' d \<and> dd_quorumRequired d = Some 2"
proof -
  obtain u w x y z r d where L: "ledger_of quorum_config quorum_run = [u, w, x, y, z]"
      and y: "ae_event y = Decided ''a1'' d" and u: "ae_event u = Registered r" "rg_approvalId r = ''a1''" "rg_tool r = ''t''"
    by (rule quorum_run_entries)
  have 1: "ledger_of quorum_config quorum_run = [u, w, x] @ y # [z]" and 2: "ae_event y = Decided (rg_approvalId r) d"
    and 3: "Registered r \<in> events [u, w, x]" using L y u by auto
  have two: "quorumRequiredFor p (rg_tool r) = 2" if "p \<in> policies quorum_config quorum_run" for p
    using that by (simp add: quorum_run_policies quorumRequiredFor_def two_voters_fields)
  from threshold_not_skipped [OF 1 2 3] two y L show ?thesis by (intro exI [of _ y] exI [of _ d]) auto
qed

text \<open>
  C31: whoever asks for an action takes no part in deciding it.  Where every policy in force separates
  duties, no vote of a run on an approval is by the operator who requested it; and every decision names
  an operator other than that one, as its id and in its label, and other approvers where it names any.
\<close>

theorem requester_takes_no_part:
  assumes "\<And>p. p \<in> policies cf evs \<Longrightarrow> \<exists>q. p = Rbac q \<and> rp_separationOfDuties q"
    and "Registered r \<in> events (ledger_of cf evs)" and "rg_requesterId r = Some q"
  shows "(\<forall>v. Voted (rg_approvalId r) v \<in> events (ledger_of cf evs) \<longrightarrow> vt_operatorId v \<noteq> q)
    \<and> (\<forall>d. Decided (rg_approvalId r) d \<in> events (ledger_of cf evs) \<longrightarrow>
         (\<exists>i. dd_operatorId d = Some i \<and> i \<noteq> q \<and> dd_operator d = ''operator:'' @ i)
         \<and> (\<forall>ids. dd_approverIds d = Some ids \<longrightarrow> q \<notin> set ids))"
proof -
  let ?i = "rg_approvalId r" and ?L = "ledger_of cf evs" and ?P = "policies cf evs"
  have reg: "ap_reg a = r" if "?L = xs @ e # ys" "approval_at xs ?i = Some a" for xs e ys a
  proof -
    note L = ledger_of_lawful [of cf evs, unfolded that(1)]
    have "Registered (ap_reg a) \<in> events ?L" "rg_approvalId (ap_reg a) = ?i"
      using registered_before [OF lawful_prefix [OF L] that(2)] that(1) by simp_all
    moreover obtain b where "approval_at ?L ?i = Some b"
      using at_told [OF ledger_of_lawful, of cf evs ?i "Registered r"] assms(2) by fastforce
    ultimately show ?thesis
      using one_registration [OF ledger_of_lawful, of cf evs ?i b] assms(2) by metis
  qed
  have apart: "\<exists>i. op = Some i \<and> i \<noteq> q"
    if "entitled (cf_env cf) p (requester_json a) op" "p \<in> ?P" "ap_reg a = r" for p op and a :: approval
    using assms(1) [OF that(2)] assms(3) that(1,3) by (auto simp: entitled_def requester_json_def)
  have vote: "vt_operatorId v \<noteq> q" if "Voted ?i v \<in> events ?L" for v
  proof -
    from that obtain xs e ys where e: "?L = xs @ e # ys" "ae_event e = Voted ?i v" by (rule event_split)
    obtain p a where "p \<in> ?P" "approval_at xs ?i = Some a" "vote_lawful (cf_env cf) p a v"
      using lawful_at [OF ledger_of_lawful [of cf evs, unfolded e(1)]] e(2) by (auto simp: event_lawful_def)
    then show ?thesis using apart [OF _ _ reg [OF e(1)]] by (fastforce simp: vote_lawful_def)
  qed
  moreover have "(\<exists>i. dd_operatorId d = Some i \<and> i \<noteq> q \<and> dd_operator d = ''operator:'' @ i)
      \<and> (\<forall>ids. dd_approverIds d = Some ids \<longrightarrow> q \<notin> set ids)" if "Decided ?i d \<in> events ?L" for d
  proof -
    from that obtain xs e ys where e: "?L = xs @ e # ys" "ae_event e = Decided ?i d" by (rule event_split)
    obtain p a where a: "p \<in> ?P" "approval_at xs ?i = Some a" "tells (cf_env cf) xs ?i a" "decision_lawful (cf_env cf) p a d"
      using decided_at [OF ledger_of_lawful [of cf evs, unfolded e(1)] e(2)] by blast
    have voters: "q \<notin> voters_for a x" for x
    proof
      assume "q \<in> voters_for a x"
      then obtain v where v: "v \<in> set (plain_votes a)" "vt_operatorId v = q" by (auto simp: voters_for_def)
      from v(1) a(3) have "Voted ?i v \<in> events xs" by (simp add: tells_def in_recorded_votes)
      then have "Voted ?i v \<in> events ?L" by (simp add: e(1))
      with vote v(2) show False by blast
    qed
    have "\<exists>i. dd_operatorId d = Some i \<and> i \<noteq> q"
    proof (cases "required p a \<le> 1")
      case True
      with a(4) show ?thesis by (intro apart [OF _ a(1) reg [OF e(1) a(2)]]) (simp add: decision_lawful_def)
    next
      case False
      with a(4) voters show ?thesis by (auto simp: decision_lawful_def)
    qed
    moreover have "dd_operator d = written_operator (dd_operatorId d)" using a(4) by (simp add: decision_lawful_def)
    moreover have "q \<notin> set ids" if "dd_approverIds d = Some ids" for ids
      using a(4) voters that by (cases "dd_decision d") (auto simp: decision_lawful_def split: if_splits)
    ultimately show ?thesis by (auto simp: written_operator_def)
  qed
  ultimately show ?thesis by blast
qed

theorem requester_takes_no_part_witness:
  "\<exists>r v d i. Registered r \<in> events (ledger_of quorum_config quorum_run)
    \<and> Voted (rg_approvalId r) v \<in> events (ledger_of quorum_config quorum_run)
    \<and> Decided (rg_approvalId r) d \<in> events (ledger_of quorum_config quorum_run)
    \<and> rg_requesterId r = Some ''carol'' \<and> vt_operatorId v \<noteq> ''carol''
    \<and> dd_operatorId d = Some i \<and> i \<noteq> ''carol'' \<and> dd_operator d = ''operator:'' @ i"
proof -
  obtain u w x y z r v d where L: "ledger_of quorum_config quorum_run = [u, w, x, y, z]"
      and u: "ae_event u = Registered r" "rg_approvalId r = ''a1''" "rg_requesterId r = Some ''carol''"
      and w: "ae_event w = Voted ''a1'' v" and y: "ae_event y = Decided ''a1'' d"
    by (rule quorum_run_entries)
  have pol: "p \<in> policies quorum_config quorum_run \<Longrightarrow> \<exists>q. p = Rbac q \<and> rp_separationOfDuties q" for p
    by (simp add: quorum_run_policies two_voters_fields)
  have "Registered r \<in> events (ledger_of quorum_config quorum_run)" using L u by simp
  note part = requester_takes_no_part [OF pol this u(3)]
  have "Voted (rg_approvalId r) v \<in> events (ledger_of quorum_config quorum_run)"
      "Decided (rg_approvalId r) d \<in> events (ledger_of quorum_config quorum_run)" using L u(2) w y by simp_all
  with part have "vt_operatorId v \<noteq> ''carol''"
      "\<exists>i. dd_operatorId d = Some i \<and> i \<noteq> ''carol'' \<and> dd_operator d = ''operator:'' @ i" by blast+
  with L u w y show ?thesis by (intro exI [of _ r] exI [of _ v] exI [of _ d]) auto
qed

section \<open>Durability\<close>

text \<open>
  C36: what is recorded stays recorded.  Whatever requests, failing appends and restarts follow, the replay
  floor of the one-time codes never falls; and they only add entries to the ledger of a run, provided no
  restart of the run opens a ledger file whose last entry lacks the newline that ends its line.
\<close>

theorem history_only_grows:
  "tp_lastCounter (sv_totp (snd (deployment_run cf evs))) \<le> tp_lastCounter (sv_totp (snd (deployment_run cf (evs @ evs'))))
    \<and> (restarts_clean (evs @ evs') (first_start cf) \<longrightarrow> prefix (ledger_of cf evs) (ledger_of cf (evs @ evs')))"
proof -
  let ?d = "deployment_run cf evs" and ?P = "policies cf (evs @ evs')"
  let ?n = "tp_lastCounter (sv_totp (snd ?d))"
  have start: "running (cf_env cf) ?P (-1) (first_start cf)" by (rule first_start_running) (simp add: policies_def)
  then have "running (cf_env cf) ?P (-1) ?d"
    unfolding deployment_run_def by (rule deployment_steps_running) (auto simp: policies_def)
  then have now_running: "running (cf_env cf) ?P ?n ?d" by (auto simp: running_def floored_def)
  then have "running (cf_env cf) ?P ?n (fold deployment_step evs' ?d)"
    by (rule deployment_steps_running) (auto simp: policies_def)
  then have "?n \<le> tp_lastCounter (sv_totp (snd (deployment_run cf (evs @ evs'))))"
    by (simp add: running_def floored_def deployment_run_append)
  moreover have "prefix (ledger_of cf evs) (ledger_of cf (evs @ evs'))"
    if clean: "restarts_clean (evs @ evs') (first_start cf)"
  proof -
    have "history [] (snd ?d)" unfolding deployment_run_def
      by (rule clean_steps_grow [OF start]) (use clean first_start_tidy in \<open>auto simp: policies_def restarts_clean_append\<close>)
    then have "history (ledger_of cf evs) (snd ?d)" by (simp add: history_def ledger_of_def)
    then have "history (ledger_of cf evs) (snd (fold deployment_step evs' ?d))"
      by (rule clean_steps_grow [OF now_running, rotated 1])
        (use clean in \<open>auto simp: policies_def restarts_clean_append deployment_run_def\<close>)
    then show ?thesis by (simp add: history_def ledger_of_def deployment_run_append)
  qed
  ultimately show ?thesis by blast
qed

definition restart_example :: service_event where
  "restart_example = Restarted Rbac_unconfigured (JStr ''ann'')"

lemma single_run_restarts: "restarts_clean ([register_example ''carol''] @ [restart_example, decide_example ''approved''])
    (first_start single_config)"
  by code_simp

theorem history_only_grows_witness:
  "prefix (ledger_of single_config [register_example ''carol''])
     (ledger_of single_config [register_example ''carol'', restart_example, decide_example ''approved''])"
  using history_only_grows [of single_config "[register_example ''carol'']" "[restart_example, decide_example ''approved'']"]
    single_run_restarts by simp

text \<open>
  C37: the ledger file reads back.  While the service of a run has seen no failing append, reopening the
  file gives the same entries and no fault: every line parses, the chain validates and the numbers have
  no gap; provided no restart of the run opened a file whose last entry lacked its newline.
\<close>

theorem ledger_reads_back:
  assumes "deployment_run cf evs = (cf', s)" and "al_corrupt (sv_ledger s) = None" and "digest_text_ok (cf_env cf)"
    and "restarts_clean evs (first_start cf)"
  shows "openLedgerStore (cf_env cf) (al_lines (sv_ledger s)) (al_unended (sv_ledger s)) = sv_ledger s"
proof -
  let ?l = "sv_ledger s" and ?env = "cf_env cf"
  have dur: "durable ?env (policies cf evs) ?l"
    using deployment_run_running [of cf evs] assms(1) by (auto simp: running_def floored_def)
  have "history [] (snd (fold deployment_step evs (first_start cf)))"
    by (rule clean_steps_grow [OF first_start_running [of cf "policies cf evs"]])
      (use assms(4) first_start_tidy in \<open>auto simp: policies_def\<close>)
  then have "tidy ?l" using assms(1) by (simp add: history_def deployment_run_def)
  then have lines: "al_lines ?l = map Some (al_records ?l)" using assms(2) by (simp add: tidy_def)
  with dur have "misnumbered 0 (al_records ?l) = None" and linked: "entries_linked ?env (al_records ?l)"
    using assms(3) by (simp_all add: durable_def entries_sound_def)
  moreover from linked obtain v where
    "validateChain ?env (JArr (map authority_entry_json (al_records ?l))) (strict_eq (JStr LEDGER_GENESIS)) = Inr v" "cv_valid v"
    unfolding entries_linked_def validateChain_linked [symmetric] by blast
  ultimately show ?thesis using assms(2) lines by (simp add: openLedgerStore_def readLines_def)
qed

lemma iso_digest_ok: "digest_text_ok iso_env"
  by (simp add: digest_text_ok_def iso_env_def)

lemma single_run_intact:
  "al_corrupt (sv_ledger (snd (deployment_run single_config [register_example ''carol'', restart_example]))) = None
    \<and> restarts_clean [register_example ''carol'', restart_example] (first_start single_config)"
  by code_simp

theorem ledger_reads_back_witness:
  "\<exists>cf s. deployment_run single_config [register_example ''carol'', restart_example] = (cf, s)
    \<and> openLedgerStore iso_env (al_lines (sv_ledger s)) (al_unended (sv_ledger s)) = sv_ledger s"
proof -
  let ?run = "deployment_run single_config [register_example ''carol'', restart_example]"
  obtain cf s where run: "?run = (cf, s)" by (cases ?run)
  have "digest_text_ok (cf_env single_config)" by (simp add: example_config_def iso_digest_ok)
  from ledger_reads_back [OF run _ this] single_run_intact run show ?thesis by (simp add: example_config_def)
qed

section \<open>The missing newline\<close>

text \<open>
  A confirmed entry can be lost.  Where an append wrote a whole entry without its newline and the
  service was started again, the ledger counts as intact; the next append succeeds and is
  confirmed, but its entry is written onto the unfinished line, so that reopening the file finds a line
  that does not parse and drops both that entry and the one before it.
\<close>

lemma confirmed_entry_can_be_lost:
  assumes "deployment_run cf evs = (cf', s)" and "al_corrupt (sv_ledger s) = None" and "al_unended (sv_ledger s)"
  shows "\<exists>e l. ledger_append_event (cf_env cf) ev t Append_durable (sv_ledger s) = (Some e, l)
    \<and> al_records l = al_records (sv_ledger s) @ [e] \<and> al_corrupt l = None
    \<and> al_records (openLedgerStore (cf_env cf) (al_lines l) (al_unended l)) = butlast (al_records (sv_ledger s))
    \<and> al_corrupt (openLedgerStore (cf_env cf) (al_lines l) (al_unended l))
        = Some (length (al_records (sv_ledger s)) - 1, Unparseable_line)"
proof -
  let ?l = "sv_ledger s"
  have "durable (cf_env cf) (policies cf evs) ?l"
    using deployment_run_running [of cf evs] assms(1) by (auto simp: running_def floored_def)
  then have lines: "butlast (al_lines ?l) = map Some (butlast (al_records ?l))"
    using assms(2,3) by (simp add: durable_def map_butlast)
  have "parsed_lines i (map Some es @ [None]) = (es, Some (i + length es, Unparseable_line))" for i es
    by (induction es arbitrary: i) simp_all
  from this [of 0 "butlast (al_records ?l)"] assms(2,3) lines show ?thesis
    by (simp add: ledger_append_event_def Let_def written_line_def openLedgerStore_def readLines_def)
qed

definition unended_example :: "service_event list" where
  "unended_example = [Served (Register (example_registration ''carol'')) (\<lambda>_. 0) (\<lambda>_. Append_unended) True, restart_example]"

lemma unended_state:
  "let l = sv_ledger (snd (deployment_run single_config unended_example)) in
     al_corrupt l = None \<and> al_unended l \<and> length (al_records l) = 1"
  by code_simp

lemma unended_entries_lost:
  "\<exists>s e l. deployment_run single_config unended_example = (single_config, s) \<and> length (al_records (sv_ledger s)) = 1
    \<and> ledger_append_event iso_env (Totp_lockout []) [] Append_durable (sv_ledger s) = (Some e, l)
    \<and> length (al_records l) = 2 \<and> al_records (openLedgerStore iso_env (al_lines l) (al_unended l)) = []"
proof -
  obtain cf s where run: "deployment_run single_config unended_example = (cf, s)"
    by (cases "deployment_run single_config unended_example")
  have cf: "cf = single_config" using run
    by (auto simp: deployment_run_def unended_example_def first_start_def restart_example_def example_config_def)
  have s: "al_corrupt (sv_ledger s) = None" "al_unended (sv_ledger s)" "length (al_records (sv_ledger s)) = 1"
    using unended_state run by (simp_all add: Let_def)
  from s(3) obtain e0 where "al_records (sv_ledger s) = [e0]" by (auto simp: length_Suc_conv)
  with confirmed_entry_can_be_lost [OF run s(1,2), of "Totp_lockout []" "[]"] run cf s(3) show ?thesis
    by (auto simp: example_config_def)
qed

end
