(* ===== verification/Authority_Totp_Facts.thy ===== *)
theory Authority_Totp_Facts
  imports Authority_Totp Evaluation
begin

text \<open>
  The base32 loops against a reference on lists of bits, from which the round trip follows, and what
  the check of a code guarantees: no step is accepted twice, and guessing is bounded.
\<close>

section \<open>Bits\<close>

definition low_bits :: "nat \<Rightarrow> 'a :: len word \<Rightarrow> bool list" where
  "low_bits n w = map (bit w) (rev [0..<n])"

definition number_of_bits :: "bool list \<Rightarrow> nat" where
  "number_of_bits bs = horner_sum of_bool 2 (rev bs)"

lemma length_low_bits [simp]: "length (low_bits n w) = n"
  by (simp add: low_bits_def)

lemma nth_low_bits: "i < n \<Longrightarrow> low_bits n w ! i = bit w (n - 1 - i)"
  by (simp add: low_bits_def rev_nth)

lemma low_bits_split:
  "k \<le> n \<Longrightarrow> low_bits n w = low_bits (n - k) (drop_bit k w) @ low_bits k w"
  by (rule nth_equalityI) (auto simp: nth_append nth_low_bits bit_simps)

lemma low_bits_zero [simp]: "low_bits 0 w = []"
  by (simp add: low_bits_def)

lemma low_bits_or:
  assumes "n + k \<le> LENGTH('a)" and "\<And>i. bit y i \<Longrightarrow> i < k"
  shows "low_bits (n + k) (push_bit k x OR y) = low_bits n x @ low_bits k (y :: 'a :: len word)"
proof (rule nth_equalityI)
  fix i assume "i < length (low_bits (n + k) (push_bit k x OR y))"
  then have i: "i < n + k" by simp
  show "low_bits (n + k) (push_bit k x OR y) ! i = (low_bits n x @ low_bits k y) ! i"
  proof (cases "i < n")
    case True
    then have "n + k - 1 - i - k = n - 1 - i" "k \<le> n + k - 1 - i" by simp_all
    moreover from this have "\<not> bit y (n + k - 1 - i)" using assms(2) by fastforce
    ultimately show ?thesis
      using True i assms(1) by (auto simp: nth_append nth_low_bits bit_simps)
  next
    case False
    with i have "n + k - 1 - i = k - 1 - (i - n)" "n + k - 1 - i < k" by simp_all
    then show ?thesis
      using False i assms(1) by (simp add: nth_append nth_low_bits bit_simps)
  qed
qed simp

lemma number_low_bits: "number_of_bits (low_bits n w) = take_bit n (unat w)"
proof -
  have "rev (low_bits n w) = map (bit w) [0..<n]" by (simp add: low_bits_def rev_map)
  also have "\<dots> = map (bit (unat w)) [0..<n]" by (simp add: bit_simps)
  finally show ?thesis by (simp add: number_of_bits_def horner_sum_bit_eq_take_bit)
qed

lemma mask_low:
  "unat (w AND 31 :: 32 word) = number_of_bits (low_bits 5 w)"
  "unat (w AND 255 :: 32 word) = number_of_bits (low_bits 8 w)"
proof -
  have "w AND mask n = take_bit n w" for n by (simp add: take_bit_eq_mask)
  from this [of 5] this [of 8] show "unat (w AND 31) = number_of_bits (low_bits 5 w)"
    "unat (w AND 255) = number_of_bits (low_bits 8 w)"
    by (simp_all add: number_low_bits unsigned_take_bit_eq mask_numeral)
qed

section \<open>The reference\<close>

definition digit_of :: "bool list \<Rightarrow> char" where
  "digit_of bs = BASE32_ALPHABET ! number_of_bits bs"

fun encode_bits :: "bool list \<Rightarrow> string" where
  "encode_bits (a # b # c # d # e # bs) = digit_of [a, b, c, d, e] # encode_bits bs"
| "encode_bits [] = []"
| "encode_bits bs = [digit_of (bs @ replicate (5 - length bs) False)]"

lemma encode_bits_five: "length x = 5 \<Longrightarrow> encode_bits (x @ bs) = digit_of x # encode_bits bs"
  by (auto simp: length_Suc_conv numeral_eq_Suc)

lemma encode_bits_short:
  "0 < length bs \<Longrightarrow> length bs < 5 \<Longrightarrow> encode_bits bs = [digit_of (bs @ replicate (5 - length bs) False)]"
  by (cases bs rule: encode_bits.cases) auto

lemma base32_digit_bits: "base32_digit w = digit_of (low_bits 5 w)"
  by (simp add: base32_digit_def digit_of_def mask_low)

lemma emit_digits_bits:
  "emit_digits n v = (out, r) \<Longrightarrow>
     r < 5 \<and> r \<le> n \<and> encode_bits (low_bits n v @ bs) = out @ encode_bits (low_bits r v @ bs)"
proof (induction n v arbitrary: out r rule: emit_digits.induct)
  case (1 n v)
  show ?case
  proof (cases "n < 5")
    case True
    with "1.prems" show ?thesis by (simp add: emit_digits.simps)
  next
    case False
    then obtain out' where e: "emit_digits (n - 5) v = (out', r)"
      and o: "out = base32_digit (drop_bit (n - 5) v) # out'"
      using "1.prems" by (subst (asm) emit_digits.simps) (auto split: prod.splits)
    from False have "low_bits n v = low_bits 5 (drop_bit (n - 5) v) @ low_bits (n - 5) v"
      using low_bits_split [of "n - 5" n v] by simp
    then show ?thesis
      using "1.IH" [OF False e] by (auto simp: o encode_bits_five base32_digit_bits)
  qed
qed

lemma encode_from_bits:
  "n < 5 \<Longrightarrow> encode_from n v bs = encode_bits (low_bits n v @ concat (map (low_bits 8) bs))"
proof (induction bs arbitrary: n v)
  case Nil
  show ?case
  proof (cases "n = 0")
    case False
    have "low_bits 5 (push_bit (5 - n) v) = low_bits n v @ replicate (5 - n) False"
      using Nil by (intro nth_equalityI) (auto simp: nth_append nth_low_bits bit_simps)
    with False Nil show ?thesis by (simp add: encode_bits_short base32_digit_bits)
  qed simp
next
  case (Cons b bs)
  let ?v = "push_bit 8 v OR ucast b :: 32 word"
  obtain out r where e: "emit_digits (n + 8) ?v = (out, r)" by (cases "emit_digits (n + 8) ?v")
  have "low_bits (n + 8) ?v = low_bits n v @ low_bits 8 (ucast b :: 32 word)"
    using Cons.prems by (intro low_bits_or) (auto simp: bit_simps dest: bit_imp_le_length)
  moreover have "low_bits 8 (ucast b :: 32 word) = low_bits 8 b"
    by (intro nth_equalityI) (auto simp: nth_low_bits bit_simps)
  ultimately show ?case
    using emit_digits_bits [OF e, of "concat (map (low_bits 8) bs)"] Cons.IH [of r ?v]
    by (simp add: e Let_def)
qed

section \<open>Decoding\<close>

lemma index_in_alphabet: "i < 32 \<Longrightarrow> index_in BASE32_ALPHABET (BASE32_ALPHABET ! i) = Some i"
proof -
  have "\<forall>i \<in> set [0..<32]. index_in BASE32_ALPHABET (BASE32_ALPHABET ! i) = Some i" by code_simp
  then show "i < 32 \<Longrightarrow> ?thesis" by simp
qed

lemma number_of_bits_less: "number_of_bits bs < 2 ^ length bs"
proof -
  have "horner_sum of_bool 2 xs < (2 :: nat) ^ length xs" for xs
    by (induction xs) auto
  from this [of "rev bs"] show ?thesis by (simp add: number_of_bits_def)
qed

lemma index_digit_of:
  assumes "length x = 5"
  shows "index_in BASE32_ALPHABET (digit_of x) = Some (number_of_bits x)"
  using number_of_bits_less [of x] assms by (simp add: digit_of_def index_in_alphabet)

lemma low_bits_number:
  assumes "length x \<le> 32"
  shows "low_bits (length x) (of_nat (number_of_bits x) :: 32 word) = x"
proof (rule nth_equalityI)
  fix i assume "i < length (low_bits (length x) (of_nat (number_of_bits x) :: 32 word))"
  then have i: "i < length x" by simp
  have "bit (number_of_bits x) (length x - 1 - i) = rev x ! (length x - 1 - i)"
    using i by (auto simp: number_of_bits_def bit_horner_sum_bit_iff)
  then show "low_bits (length x) (of_nat (number_of_bits x) :: 32 word) ! i = x ! i"
    using i assms by (auto simp: nth_low_bits bit_simps rev_nth)
qed simp

text \<open>Decoding on bits: bytes off the front while there are eight, and what remains is zero.\<close>

fun decode_bits :: "bool list \<Rightarrow> bytes option" where
  "decode_bits (a # b # c # d # e # f # g # h # bs) =
     map_option ((#) (of_nat (number_of_bits [a, b, c, d, e, f, g, h]))) (decode_bits bs)"
| "decode_bits bs = (if True \<in> set bs then None else Some [])"

lemma decode_bits_eight:
  "length x = 8 \<Longrightarrow> decode_bits (x @ bs) = map_option ((#) (of_nat (number_of_bits x))) (decode_bits bs)"
  by (auto simp: length_Suc_conv numeral_eq_Suc)

lemma decode_bits_short: "length bs < 8 \<Longrightarrow> decode_bits bs = (if True \<in> set bs then None else Some [])"
  by (cases bs rule: decode_bits.cases) auto

lemma trailing_bits:
  "(v AND (push_bit n 1 - 1 :: 32 word) \<noteq> 0) = (True \<in> set (low_bits n v))"
proof -
  have "push_bit n 1 - 1 = (mask n :: 32 word)" by (simp add: mask_eq_decr_exp push_bit_eq_mult)
  moreover have "v AND mask n = take_bit n v" by (simp add: take_bit_eq_mask)
  moreover have "take_bit n v \<noteq> 0 \<longleftrightarrow> (\<exists>i<n. bit v i)"
    using bit_imp_le_length [of v] by (auto simp: bit_eq_iff bit_simps)
  moreover have "True \<in> set (low_bits n v) \<longleftrightarrow> (\<exists>i<n. bit v i)" by (auto simp: low_bits_def)
  ultimately show ?thesis by (simp only:)
qed

fun all_digits :: "bool list list \<Rightarrow> string" where
  "all_digits [] = []"
| "all_digits (x # xs) = digit_of x # all_digits xs"

lemma decode_from_bits:
  "n < 8 \<Longrightarrow> \<forall>x \<in> set xs. length x = 5 \<Longrightarrow>
     decode_from n v (all_digits xs) = (case decode_bits (low_bits n v @ concat xs) of
        None \<Rightarrow> Inl Trailing_bits | Some bs \<Rightarrow> Inr bs)"
proof (induction xs arbitrary: n v)
  case Nil
  then show ?case using trailing_bits [of v n] by (auto simp: decode_bits_short)
next
  case (Cons x xs)
  define w :: "32 word" where "w = push_bit 5 v OR of_nat (number_of_bits x)"
  have x: "length x = 5" using Cons.prems by simp
  have "bit (of_nat (number_of_bits x) :: 32 word) i \<Longrightarrow> i < 5" for i
    using x by (simp add: bit_simps number_of_bits_def bit_horner_sum_bit_iff)
  then have lv: "low_bits (n + 5) w = low_bits n v @ x"
    using Cons.prems low_bits_or [of n 5 "of_nat (number_of_bits x)" v] low_bits_number [of x]
    by (simp add: x w_def)
  show ?case
  proof (cases "n + 5 \<ge> 8")
    case True
    define d where "d = drop_bit (n + 5 - 8) w"
    have sp: "low_bits (n + 5) w = low_bits 8 d @ low_bits (n + 5 - 8) w"
      using low_bits_split [of "n + 5 - 8" "n + 5" w] True by (simp add: d_def)
    have "(ucast (d AND 255) :: 8 word) = of_nat (unat (d AND 255))" by simp
    then have b: "(ucast (d AND 255) :: 8 word) = of_nat (number_of_bits (low_bits 8 d))"
      by (simp only: mask_low)
    have "decode_from n v (all_digits (x # xs)) =
        bind_result (decode_from (n + 5 - 8) w (all_digits xs)) (\<lambda>bs. Inr (ucast (d AND 255) # bs))"
      using True unfolding all_digits.simps decode_from.simps index_digit_of [OF x] option.case Let_def
        w_def [symmetric] d_def [symmetric] by simp
    also have "\<dots> = (case decode_bits (low_bits (n + 5) w @ concat xs) of None \<Rightarrow> Inl Trailing_bits | Some bs \<Rightarrow> Inr bs)"
      using Cons.IH [of "n + 5 - 8" w] Cons.prems True
      by (simp add: sp decode_bits_eight b split: option.splits)
    finally show ?thesis by (simp add: lv)
  next
    case False
    with Cons.IH [of "n + 5" w] Cons.prems show ?thesis
      by (simp add: index_digit_of [OF x] Let_def lv w_def [symmetric])
  qed
qed

section \<open>The round trip\<close>

text \<open>The groups of five, the last one padded with zeros.\<close>

fun groups :: "bool list \<Rightarrow> bool list list" where
  "groups (a # b # c # d # e # bs) = [a, b, c, d, e] # groups bs"
| "groups [] = []"
| "groups bs = [bs @ replicate (5 - length bs) False]"

lemma encode_bits_groups: "encode_bits bs = all_digits (groups bs)"
  by (induction bs rule: groups.induct) simp_all

lemma groups_five: "\<forall>x \<in> set (groups bs). length x = 5"
  by (induction bs rule: groups.induct) auto

lemma concat_groups: "concat (groups bs) = bs @ replicate ((5 - length bs mod 5) mod 5) False"
  by (induction bs rule: groups.induct) simp_all

lemma length_groups: "length (groups bs) = (length bs + 4) div 5"
  by (induction bs rule: groups.induct) simp_all

lemma decode_bits_bytes:
  "n < 8 \<Longrightarrow> decode_bits (concat (map (low_bits 8) bs) @ replicate n False) = Some bs"
proof (induction bs)
  case Nil
  then show ?case by (simp add: decode_bits_short)
next
  case (Cons b bs)
  have "unat b < 2 ^ LENGTH(8)" by (rule unsigned_less)
  then have "take_bit 8 (unat b) = unat b" by (simp add: take_bit_nat_eq_self)
  then show ?case
    using Cons by (simp add: decode_bits_eight number_low_bits)
qed

lemma all_digits_map: "all_digits xs = map digit_of xs"
  by (induction xs) simp_all

lemma alphabet_fixed:
  assumes "c \<in> set BASE32_ALPHABET"
  shows "upper_char c = [c]" and "c \<noteq> CHR ''=''"
proof -
  have "list_all (\<lambda>c. upper_char c = [c] \<and> c \<noteq> CHR ''='') BASE32_ALPHABET" by code_simp
  with assms show "upper_char c = [c]" and "c \<noteq> CHR ''=''" by (auto simp: list_all_iff)
qed

lemma digit_of_alphabet: "length x = 5 \<Longrightarrow> digit_of x \<in> set BASE32_ALPHABET"
proof -
  assume "length x = 5"
  then have "number_of_bits x < length BASE32_ALPHABET"
    using number_of_bits_less [of x] by (simp add: BASE32_ALPHABET_def)
  then show ?thesis by (simp add: digit_of_def)
qed

lemma alphabet_text_fixed:
  assumes "set s \<subseteq> set BASE32_ALPHABET"
  shows "strip_padding (to_upper s) = s"
proof -
  have "to_upper s = s" using assms by (induction s) (auto simp: to_upper_def alphabet_fixed)
  moreover have "dropWhile (\<lambda>c. c = CHR ''='') (rev s) = rev s"
    using assms alphabet_fixed(2) by (cases s rule: rev_cases) auto
  ultimately show ?thesis by (simp add: strip_padding_def)
qed

lemma encoded_groups: "base32Encode bs = map digit_of (groups (concat (map (low_bits 8) bs)))"
  by (simp add: base32Encode_def encode_from_bits encode_bits_groups all_digits_map)

lemma length_bits: "length (concat (map (low_bits 8) bs)) = 8 * length bs"
  by (induction bs) simp_all

text \<open>
  Base32 decoding inverts encoding.  Every nonempty secret, encoded and read back, is the same
  secret: the decoder accepts the length, finds no foreign character and no trailing bits.
\<close>

theorem base32_round_trip:
  assumes "secret \<noteq> []"
  shows "base32Decode (base32Encode secret) = Inr secret"
proof -
  let ?bits = "concat (map (low_bits 8) secret)"
  have e: "base32Encode secret = all_digits (groups ?bits)" by (simp add: encoded_groups all_digits_map)
  have "set (base32Encode secret) \<subseteq> set BASE32_ALPHABET"
    using groups_five [of ?bits] by (auto simp: encoded_groups intro: digit_of_alphabet)
  then have n: "strip_padding (to_upper (base32Encode secret)) = base32Encode secret" by (rule alphabet_text_fixed)
  have l: "length (base32Encode secret) = (8 * length secret + 4) div 5"
    by (simp add: encoded_groups length_groups length_bits)
  define k where "k = length secret"
  have "8 * k + 4 = 4 + 8 * (k mod 5) + 5 * (8 * (k div 5))"
    using div_mult_mod_eq [of k 5] by linarith
  then have "(8 * k + 4) div 5 = (4 + 8 * (k mod 5) + 5 * (8 * (k div 5))) div 5" by (simp only:)
  also have "\<dots> = (4 + 8 * (k mod 5)) div 5 + 8 * (k div 5)" by simp
  finally have "(8 * k + 4) div 5 mod 8 = (4 + 8 * (k mod 5)) div 5 mod 8" by simp
  moreover have "k mod 5 \<in> {0, 1, 2, 3, 4}" using mod_less_divisor [of 5 k] by auto
  ultimately have "(8 * k + 4) div 5 mod 8 \<notin> {1, 3, 6}" by auto
  with l have v: "length (base32Encode secret) mod 8 \<notin> {1, 3, 6}" by (simp add: k_def)
  have "base32Encode secret \<noteq> []" using l assms by (cases secret) auto
  with v n have "base32Decode (base32Encode secret) = decode_from 0 0 (all_digits (groups ?bits))"
    by (simp add: base32Decode_def Let_def e [symmetric])
  also have "\<dots> = Inr secret"
    by (simp add: decode_from_bits groups_five concat_groups decode_bits_bytes)
  finally show ?thesis .
qed

theorem base32_round_trip_witness: "base32Decode (base32Encode [0, 255, 18]) = Inr [0, 255, 18]"
  using base32_round_trip [of "[0, 255, 18]"] by simp

text \<open>
  The loop of the encoder computes the bits in groups of five.  The shift register of the code, a
  32-bit word whose high bits are never cleared, yields for every buffer the digits of the groups of five
  bits of its bytes, most significant first, the last group padded with zeros.
\<close>

theorem base32_is_groups_of_five:
  "base32Encode bs = map digit_of (groups (concat (map (low_bits 8) bs)))"
  by (rule encoded_groups)

section \<open>Replay and guessing\<close>

lemma verifyTotp_accepts:
  assumes "verifyTotp hmac secret code now lastCounter = Inr c"
  shows "lastCounter < c \<and> \<bar>c - now div 30000\<bar> \<le> 1 \<and> 16 \<le> length secret
    \<and> (\<exists>t. code = JStr t \<and> CODE_PATTERN t \<and> totpAt hmac secret (nat c) 6 = Some t)"
  using assms
  by (cases code) (auto simp: verifyTotp_def Let_def step_matches_def split: if_splits option.splits)

lemma check_accepts:
  assumes "oc_result (checkOperatorCode hmac secret code now p) = Inr c"
  shows "\<not> locked_at p now \<and> verifyTotp hmac secret code now (tp_lastCounter p) = Inr c
    \<and> oc_progress (checkOperatorCode hmac secret code now p)
        = \<lparr>tp_lastCounter = c, tp_failures = [], tp_lockedUntil = None\<rparr>"
  using assms by (auto simp: checkOperatorCode_def Let_def split: if_splits sum.splits)

lemma check_refuses:
  "oc_result (checkOperatorCode hmac secret code now p) = Inl e \<Longrightarrow>
     tp_lastCounter (oc_progress (checkOperatorCode hmac secret code now p)) = tp_lastCounter p"
  by (auto simp: checkOperatorCode_def Let_def split: if_splits sum.splits)

text \<open>A sequence of checks, each with its code and the reading of the clock.\<close>

fun check_run :: "hmac \<Rightarrow> bytes \<Rightarrow> (jsval \<times> int) list \<Rightarrow> totp_progress \<Rightarrow> (check_code + int) list" where
  "check_run hmac secret [] p = []"
| "check_run hmac secret ((code, now) # xs) p = (let c = checkOperatorCode hmac secret code now p in
     oc_result c # check_run hmac secret xs (oc_progress c))"

definition accepted_steps :: "('e + int) list \<Rightarrow> int list" where
  "accepted_steps rs = List.map_filter (\<lambda>r. case r of Inl e \<Rightarrow> None | Inr c \<Rightarrow> Some c) rs"

lemma accepted_steps_simps [simp]:
  "accepted_steps [] = []" "accepted_steps (Inl e # rs) = accepted_steps rs"
  "accepted_steps (Inr c # rs) = c # accepted_steps rs"
  by (simp_all add: accepted_steps_def List.map_filter_def)

text \<open>
  C38: a code is accepted once.  In every sequence of checks, whatever the codes and the readings of the
  clock, the accepted time steps strictly increase from the stored counter on: no step is accepted
  twice, and none at or before the stored one.
\<close>

theorem totp_step_accepted_once:
  "sorted_wrt (<) (tp_lastCounter p # accepted_steps (check_run hmac secret xs p))"
proof (induction xs arbitrary: p)
  case Nil
  show ?case by simp
next
  case (Cons x xs)
  obtain code now where x: "x = (code, now)" by (cases x)
  let ?c = "checkOperatorCode hmac secret code now p"
  show ?case
  proof (cases "oc_result ?c")
    case (Inl e)
    with Cons.IH [of "oc_progress ?c"] check_refuses [OF Inl] show ?thesis by (simp add: x Let_def)
  next
    case (Inr c)
    with check_accepts [OF Inr] verifyTotp_accepts [of hmac secret code now "tp_lastCounter p" c]
      Cons.IH [of "oc_progress ?c"]
    show ?thesis by (auto simp: x Let_def)
  qed
qed

text \<open>How many checks of a run looked at the code at all.\<close>

fun looked_at :: "hmac \<Rightarrow> bytes \<Rightarrow> (jsval \<times> int) list \<Rightarrow> totp_progress \<Rightarrow> nat" where
  "looked_at hmac secret [] p = 0"
| "looked_at hmac secret ((code, now) # xs) p = (if locked_at p now then 0 else 1)
     + looked_at hmac secret xs (oc_progress (checkOperatorCode hmac secret code now p))"

definition progress_ok :: "totp_progress \<Rightarrow> bool" where
  "progress_ok p = (sorted (tp_failures p) \<and> (length (tp_failures p) \<ge> MAX_FAILURES \<longrightarrow>
     (\<exists>u. tp_lockedUntil p = Some u \<and> last (tp_failures p) + LOCKOUT_MS \<le> u)))"

lemma sorted_last_ge: "sorted (ts :: int list) \<Longrightarrow> t \<in> set ts \<Longrightarrow> t \<le> last ts"
  by (induction ts) (auto split: if_splits)

lemma check_keeps_ok:
  assumes "progress_ok p" and "\<forall>t \<in> set (tp_failures p). t \<le> now"
  shows "progress_ok (oc_progress (checkOperatorCode hmac secret code now p))"
    and "\<forall>t \<in> set (tp_failures (oc_progress (checkOperatorCode hmac secret code now p))). t \<le> now"
  using assms
  by (auto simp: checkOperatorCode_def Let_def progress_ok_def sorted_append sorted_wrt_filter MAX_FAILURES_def
      split: sum.splits)

definition remaining :: "int \<Rightarrow> totp_progress \<Rightarrow> nat" where
  "remaining a p = (if \<exists>u. tp_lockedUntil p = Some u \<and> a + FAILURE_WINDOW_MS < u then 0
     else MAX_FAILURES - length (filter (\<lambda>t. a \<le> t) (tp_failures p)))"

lemma failing_check_spends:
  assumes ok: "progress_ok p" and win: "a \<le> now" "now \<le> a + FAILURE_WINDOW_MS"
    and free: "\<not> locked_at p now"
    and fails: "oc_result (checkOperatorCode hmac secret code now p) = Inl e"
  shows "Suc (remaining a (oc_progress (checkOperatorCode hmac secret code now p))) \<le> remaining a p"
proof -
  let ?f = "filter (\<lambda>t. now - t \<le> FAILURE_WINDOW_MS) (tp_failures p) @ [now]"
  let ?n = "length (filter (\<lambda>t. a \<le> t) (tp_failures p))"
  have p': "tp_failures (oc_progress (checkOperatorCode hmac secret code now p)) = ?f"
    "tp_lockedUntil (oc_progress (checkOperatorCode hmac secret code now p)) =
       (if length ?f \<ge> MAX_FAILURES then Some (now + LOCKOUT_MS) else None)"
    using fails free by (auto simp: checkOperatorCode_def Let_def split: sum.splits)
  have nl: "\<not> (\<exists>u. tp_lockedUntil p = Some u \<and> a + FAILURE_WINDOW_MS < u)"
    using free win(2) by (auto simp: locked_at_def)
  have few: "?n < MAX_FAILURES"
  proof (rule ccontr)
    assume "\<not> ?n < MAX_FAILURES"
    then have five: "MAX_FAILURES \<le> ?n" by simp
    then have "filter (\<lambda>t. a \<le> t) (tp_failures p) \<noteq> []" by (auto simp: MAX_FAILURES_def)
    then obtain t where "t \<in> set (tp_failures p)" "a \<le> t" by (auto simp: filter_empty_conv)
    with ok sorted_last_ge have "a \<le> last (tp_failures p)" by (fastforce simp: progress_ok_def)
    moreover have "MAX_FAILURES \<le> length (tp_failures p)"
      using five length_filter_le [of "\<lambda>t. a \<le> t" "tp_failures p"] by linarith
    ultimately show False using ok nl by (auto simp: progress_ok_def LOCKOUT_MS_def FAILURE_WINDOW_MS_def)
  qed
  have "filter (\<lambda>t. a \<le> t) (filter (\<lambda>t. now - t \<le> FAILURE_WINDOW_MS) (tp_failures p)) =
      filter (\<lambda>t. a \<le> t) (tp_failures p)"
    unfolding filter_filter using win(2) by (intro filter_cong) auto
  then have "length (filter (\<lambda>t. a \<le> t) ?f) = Suc ?n" using win(1) by simp
  with nl few p' show ?thesis by (auto simp: remaining_def)
qed

lemma locked_check_keeps:
  "locked_at p now \<Longrightarrow> oc_progress (checkOperatorCode hmac secret code now p) = p"
  by (simp add: checkOperatorCode_def)

lemma looked_at_remaining:
  "progress_ok p \<Longrightarrow> sorted (map snd xs) \<Longrightarrow> \<forall>t \<in> set (tp_failures p). \<forall>x \<in> set xs. t \<le> snd x \<Longrightarrow>
     \<forall>x \<in> set xs. a \<le> snd x \<and> snd x \<le> a + FAILURE_WINDOW_MS \<Longrightarrow>
     accepted_steps (check_run hmac secret xs p) = [] \<Longrightarrow>
     looked_at hmac secret xs p \<le> remaining a p"
proof (induction xs arbitrary: p)
  case Nil
  then show ?case by simp
next
  case (Cons x xs)
  obtain code now where x: "x = (code, now)" by (cases x)
  let ?c = "checkOperatorCode hmac secret code now p"
  from Cons.prems(5) obtain e where e: "oc_result ?c = Inl e"
    by (cases "oc_result ?c") (auto simp: x Let_def)
  have le: "\<forall>t \<in> set (tp_failures p). t \<le> now" using Cons.prems(3) by (simp add: x)
  have "\<forall>t \<in> set (tp_failures (oc_progress ?c)). \<forall>y \<in> set xs. t \<le> snd y"
    using check_keeps_ok(2) [OF Cons.prems(1) le, of hmac secret code] Cons.prems(2)
    by (fastforce simp: x)
  with Cons.IH [OF check_keeps_ok(1) [OF Cons.prems(1) le]] Cons.prems e
  have ih: "looked_at hmac secret xs (oc_progress ?c) \<le> remaining a (oc_progress ?c)"
    by (simp add: x Let_def)
  show ?case
  proof (cases "locked_at p now")
    case True
    with ih show ?thesis by (simp add: x locked_check_keeps)
  next
    case False
    have "Suc (remaining a (oc_progress ?c)) \<le> remaining a p"
      using Cons.prems(4) e by (intro failing_check_spends [OF Cons.prems(1) _ _ False]) (simp_all add: x)
    with ih False show ?thesis by (simp add: x)
  qed
qed

text \<open>
  Guessing is bounded.  Of all checks within five minutes that accept no code, with a clock that
  does not run backwards, at most five look at the code; the others are refused by the lockout.
\<close>

theorem guesses_bounded:
  assumes "progress_ok p" and "sorted (map snd xs)"
    and "\<forall>t \<in> set (tp_failures p). \<forall>x \<in> set xs. t \<le> snd x"
    and "\<forall>x \<in> set xs. a \<le> snd x \<and> snd x \<le> a + 5 * 60 * 1000"
    and "accepted_steps (check_run hmac secret xs p) = []"
  shows "looked_at hmac secret xs p \<le> 5"
proof -
  have "looked_at hmac secret xs p \<le> remaining a p"
    using assms by (intro looked_at_remaining) (simp_all add: FAILURE_WINDOW_MS_def)
  also have "\<dots> \<le> 5" by (simp add: remaining_def MAX_FAILURES_def)
  finally show ?thesis .
qed

definition bad_guesses :: "(jsval \<times> int) list" where
  "bad_guesses = [(JNull, 10), (JStr ''x'', 20), (JNull, 30), (JNull, 40), (JNull, 50), (JNull, 60), (JNull, 70)]"

theorem guesses_bounded_witness:
  "looked_at (\<lambda>k m. replicate 20 0) (replicate 20 7) bad_guesses INITIAL_PROGRESS \<le> 5
    \<and> looked_at (\<lambda>k m. replicate 20 0) (replicate 20 7) bad_guesses INITIAL_PROGRESS = 5"
proof -
  have e: "looked_at (\<lambda>k m. replicate 20 0) (replicate 20 7) bad_guesses INITIAL_PROGRESS = 5" by code_simp
  have a: "accepted_steps (check_run (\<lambda>k m. replicate 20 0) (replicate 20 7) bad_guesses INITIAL_PROGRESS) = []"
    by code_simp
  have "looked_at (\<lambda>k m. replicate 20 0) (replicate 20 7) bad_guesses INITIAL_PROGRESS \<le> 5"
    by (rule guesses_bounded [where a = 0, OF _ _ _ _ a])
      (simp_all add: progress_ok_def INITIAL_PROGRESS_def MAX_FAILURES_def bad_guesses_def)
  with e show ?thesis by simp
qed

end
