(* ===== verification/Json_Parse.thy ===== *)
theory Json_Parse
  imports Json_Injective
begin

text \<open>
  \<open>JSON.parse\<close> of the standard library on texts in the Latin-1 range, and its round trip with
  \<open>JSON.stringify\<close>.  \<open>json_value\<close> reads one value and returns the rest of the text; \<open>JSON_parse\<close> reads
  a whole text, \<open>None\<close> being the \<open>SyntaxError\<close>.  Numbers are read exactly; an escape above
  \<open>U+00FF\<close> has no character in the model and is not read.
\<close>

section \<open>Characters and strings\<close>

definition is_json_space :: "char \<Rightarrow> bool" where
  "is_json_space c = (c = CHR 0x20 \<or> c = CHR 0x09 \<or> c = CHR 0x0A \<or> c = CHR 0x0D)"

definition skip_ws :: "string \<Rightarrow> string" where
  "skip_ws s = dropWhile is_json_space s"

definition hex_digit_value :: "char \<Rightarrow> nat option" where
  "hex_digit_value c = (let n = of_char c :: nat in
     if 48 \<le> n \<and> n \<le> 57 then Some (n - 48)
     else if 97 \<le> n \<and> n \<le> 102 then Some (n - 87)
     else if 65 \<le> n \<and> n \<le> 70 then Some (n - 55)
     else None)"

definition json_unicode :: "char \<Rightarrow> char \<Rightarrow> char \<Rightarrow> char \<Rightarrow> char option" where
  "json_unicode a b h l =
     (if a = CHR ''0'' \<and> b = CHR ''0'' then
        (case (hex_digit_value h, hex_digit_value l) of
           (Some m, Some n) \<Rightarrow> Some (char_of (16 * m + n))
         | _ \<Rightarrow> None)
      else None)"

fun json_escape :: "string \<Rightarrow> (char \<times> string) option" where
  "json_escape [] = None"
| "json_escape (d # t) =
     (if d = CHR 0x22 \<or> d = CHR 0x5C \<or> d = CHR ''/'' then Some (d, t)
      else if d = CHR ''b'' then Some (CHR 0x08, t)
      else if d = CHR ''t'' then Some (CHR 0x09, t)
      else if d = CHR ''n'' then Some (CHR 0x0A, t)
      else if d = CHR ''f'' then Some (CHR 0x0C, t)
      else if d = CHR ''r'' then Some (CHR 0x0D, t)
      else if d = CHR ''u'' then
        (case t of
           a # b # h # l # r \<Rightarrow> map_option (\<lambda>c. (c, r)) (json_unicode a b h l)
         | _ \<Rightarrow> None)
      else None)"

fun json_char :: "string \<Rightarrow> (char \<times> string) option" where
  "json_char [] = None"
| "json_char (c # s) =
     (if c = CHR 0x5C then json_escape s
      else if c = CHR 0x22 \<or> (of_char c :: nat) < 32 then None
      else Some (c, s))"

lemma json_escape_shorter: "json_escape s = Some (c, r) \<Longrightarrow> length r < length s"
  by (cases s) (auto split: if_splits list.splits)

lemma json_char_shorter: "json_char s = Some (c, r) \<Longrightarrow> length r < length s"
  by (cases s) (auto split: if_splits dest: json_escape_shorter)

text \<open>The characters of a string, after its opening quote.\<close>

function json_string :: "string \<Rightarrow> (string \<times> string) option" where
  "json_string s =
     (case s of
        [] \<Rightarrow> None
      | c # t \<Rightarrow>
          if c = CHR 0x22 then Some ([], t)
          else case json_char s of
            None \<Rightarrow> None
          | Some (d, r) \<Rightarrow> map_option (apfst ((#) d)) (json_string r))"
  by auto
termination
  by (relation "measure length") (auto simp del: json_char.simps dest: json_char_shorter)

declare json_string.simps [simp del]

lemma json_string_shorter: "json_string s = Some (w, r) \<Longrightarrow> length r < length s"
proof (induction s arbitrary: w rule: json_string.induct)
  case (1 s)
  show ?case
  proof (cases s)
    case Nil
    with "1.prems" show ?thesis by (simp add: json_string.simps)
  next
    case (Cons c t)
    show ?thesis
    proof (cases "c = CHR 0x22")
      case True
      with "1.prems" Cons show ?thesis by (simp add: json_string.simps)
    next
      case False
      with "1.prems" Cons obtain d q u where q: "json_char s = Some (d, q)" "json_string q = Some (u, r)"
        by (subst (asm) json_string.simps) (auto simp del: json_char.simps split: option.splits)
      have "length r < length q" using Cons False q by (intro "1.IH") auto
      also have "\<dots> < length s" using q(1) by (rule json_char_shorter)
      finally show ?thesis .
    qed
  qed
qed

section \<open>Numbers\<close>

fun json_fraction :: "string \<Rightarrow> (string \<times> string) option" where
  "json_fraction (c # t) =
     (if c = CHR ''.'' then
        (let fs = takeWhile is_digit t in if fs = [] then None else Some (fs, dropWhile is_digit t))
      else Some ([], c # t))"
| "json_fraction [] = Some ([], [])"

fun json_sign :: "string \<Rightarrow> bool \<times> string" where
  "json_sign (c # t) =
     (if c = CHR ''-'' then (True, t) else if c = CHR ''+'' then (False, t) else (False, c # t))"
| "json_sign [] = (False, [])"

fun json_exponent :: "string \<Rightarrow> (int \<times> string) option" where
  "json_exponent (c # t) =
     (if c = CHR ''e'' \<or> c = CHR ''E'' then
        (let (neg, u) = json_sign t; es = takeWhile is_digit u in
         if es = [] then None
         else Some ((if neg then - int (read_nat es) else int (read_nat es)), dropWhile is_digit u))
      else Some (0, c # t))"
| "json_exponent [] = Some (0, [])"

definition scaled :: "nat \<Rightarrow> int \<Rightarrow> rat" where
  "scaled m e = (if e < 0 then of_nat m / 10 ^ nat (- e) else of_nat m * 10 ^ nat e)"

definition json_unsigned :: "string \<Rightarrow> (rat \<times> string) option" where
  "json_unsigned s = (let ds = takeWhile is_digit s in
     if ds = [] \<or> (hd ds = CHR ''0'' \<and> ds \<noteq> [CHR ''0'']) then None
     else case json_fraction (dropWhile is_digit s) of
       None \<Rightarrow> None
     | Some (fs, r) \<Rightarrow>
         map_option (apfst (\<lambda>e. scaled (read_nat (ds @ fs)) (e - int (length fs)))) (json_exponent r))"

definition json_number :: "string \<Rightarrow> (rat \<times> string) option" where
  "json_number s =
     (if s \<noteq> [] \<and> hd s = CHR ''-'' then map_option (apfst uminus) (json_unsigned (tl s))
      else json_unsigned s)"

lemma json_fraction_le: "json_fraction s = Some (fs, r) \<Longrightarrow> length r \<le> length s"
  using length_dropWhile_le [of is_digit "tl s"]
  by (cases s) (auto simp: Let_def split: if_splits)

lemma json_sign_le: "length (snd (json_sign s)) \<le> length s"
  by (cases s) auto

lemma json_exponent_le: "json_exponent s = Some (e, r) \<Longrightarrow> length r \<le> length s"
proof (cases s)
  case (Cons c t)
  assume "json_exponent s = Some (e, r)"
  with Cons show ?thesis
    using length_dropWhile_le [of is_digit "snd (json_sign t)"] json_sign_le [of t]
    by (auto simp: Let_def split: if_splits prod.splits)
qed auto

lemma json_unsigned_shorter: "json_unsigned s = Some (x, r) \<Longrightarrow> length r < length s"
proof -
  assume s: "json_unsigned s = Some (x, r)"
  then have "takeWhile is_digit s \<noteq> []" by (auto simp: json_unsigned_def Let_def)
  then have "length (dropWhile is_digit s) < length s"
    by (metis length_append length_greater_0_conv less_add_same_cancel2 takeWhile_dropWhile_id)
  with s show ?thesis
    by (auto simp: json_unsigned_def Let_def split: if_splits option.splits
        dest!: json_fraction_le json_exponent_le)
qed

lemma json_number_shorter: "json_number s = Some (x, r) \<Longrightarrow> length r < length s"
  by (cases s) (auto simp: json_number_def split: if_splits dest!: json_unsigned_shorter)

section \<open>Values\<close>

lemma skip_ws_Cons_shorter: "skip_ws s = c # t \<Longrightarrow> length t < length s"
  using length_dropWhile_le [of is_json_space s] by (simp add: skip_ws_def)

text \<open>
  The rest of a text after a value is shorter than the text, so the guards on lengths in the
  elements and the members, which make the termination plain, never fail (\<open>json_value_shorter\<close>).
\<close>

function (sequential) json_value :: "string \<Rightarrow> (jsval \<times> string) option"
and json_elems :: "string \<Rightarrow> (jsval list \<times> string) option"
and json_members :: "jsfields \<Rightarrow> string \<Rightarrow> (jsfields \<times> string) option" where
  "json_value s =
     (case skip_ws s of
        [] \<Rightarrow> None
      | c # t \<Rightarrow>
          if c = CHR 0x22 then map_option (apfst JStr) (json_string t)
          else if c = CHR ''['' then
            (if starts_with (skip_ws t) '']'' then Some (JArr [], tl (skip_ws t))
             else map_option (apfst JArr) (json_elems t))
          else if c = CHR ''{'' then
            (if starts_with (skip_ws t) ''}'' then Some (JObj [], tl (skip_ws t))
             else map_option (apfst (\<lambda>fs. JObj (own_order fs))) (json_members [] t))
          else if starts_with (c # t) ''null'' then Some (JNull, drop 4 (c # t))
          else if starts_with (c # t) ''true'' then Some (JBool True, drop 4 (c # t))
          else if starts_with (c # t) ''false'' then Some (JBool False, drop 5 (c # t))
          else map_option (apfst JNum) (json_number (c # t)))"
| "json_elems s =
     (case json_value s of
        None \<Rightarrow> None
      | Some (v, r) \<Rightarrow>
          if length r < length s then
            (case skip_ws r of
               [] \<Rightarrow> None
             | c # q \<Rightarrow>
                 if c = CHR '','' then map_option (apfst ((#) v)) (json_elems q)
                 else if c = CHR '']'' then Some ([v], q)
                 else None)
          else None)"
| "json_members fs s =
     (case skip_ws s of
        [] \<Rightarrow> None
      | c # t \<Rightarrow>
          if c \<noteq> CHR 0x22 then None
          else case json_string t of
            None \<Rightarrow> None
          | Some (k, u) \<Rightarrow>
              (case skip_ws u of
                 [] \<Rightarrow> None
               | d # p \<Rightarrow>
                   if d \<noteq> CHR '':'' then None
                   else case json_value p of
                     None \<Rightarrow> None
                   | Some (v, r) \<Rightarrow>
                       if length r < length s then
                         (case skip_ws r of
                            [] \<Rightarrow> None
                          | e # q \<Rightarrow>
                              if e = CHR '','' then json_members (put_field k v fs) q
                              else if e = CHR ''}'' then Some (put_field k v fs, q)
                              else None)
                       else None))"
  by pat_completeness auto

termination
  by (relation "inv_image (less_than <*lex*> less_than)
       (\<lambda>x. case x of Inl s \<Rightarrow> (length s, 0 :: nat)
         | Inr (Inl s) \<Rightarrow> (length s, 1)
         | Inr (Inr (fs, s)) \<Rightarrow> (length s, 1))")
    (force dest!: skip_ws_Cons_shorter json_string_shorter)+

declare json_value.simps [simp del] json_elems.simps [simp del] json_members.simps [simp del]

definition JSON_parse :: "string \<Rightarrow> jsval option" where
  "JSON_parse s =
     (case json_value s of
        None \<Rightarrow> None
      | Some (v, r) \<Rightarrow> if skip_ws r = [] then Some v else None)"

lemma tl_skip_ws_shorter: "skip_ws t = c # r \<Longrightarrow> length (tl (skip_ws t)) < length t"
  using skip_ws_Cons_shorter [of t c r] by simp

lemma starts_with_single: "starts_with s [c] \<longleftrightarrow> (\<exists>r. s = c # r)"
  by (cases s) (auto simp: starts_with_def)

lemma json_value_shorter:
  "json_value s = Some (v, r) \<Longrightarrow> length r < length s"
  "json_elems s = Some (vs, r') \<Longrightarrow> length r' < length s"
  "json_members fs s = Some (gs, r'') \<Longrightarrow> length r'' < length s"
proof (induction s and s and fs s arbitrary: v r and vs r' and gs r''
    rule: json_value_json_elems_json_members.induct)
  case (1 s)
  show ?case
  proof (cases "skip_ws s")
    case Nil
    with "1.prems" show ?thesis by (simp add: json_value.simps)
  next
    case (Cons c t)
    note short = skip_ws_Cons_shorter [OF Cons]
    have elems: "length q < length s" if "json_elems t = Some (xs, q)" "c = CHR ''[''"
      "\<not> starts_with (skip_ws t) '']''" for xs q
      using "1.IH"(1) [OF Cons _ that(2) that(3)] that short by fastforce
    have members: "length q < length s" if "json_members [] t = Some (xs, q)" "c = CHR ''{''"
      "\<not> starts_with (skip_ws t) ''}''" for xs q
      using "1.IH"(2) [OF Cons _ _ that(2) that(3)] that short by fastforce
    have closed: "length (tl (skip_ws t)) < length s" if "starts_with (skip_ws t) [d]" for d
      using that short tl_skip_ws_shorter [of t] by (auto simp: starts_with_single)
    have word: "length (drop n (c # t)) < length s" if "0 < n" for n
      using that short by auto
    have number: "length q < length s" if "json_number (c # t) = Some (x, q)" for x q
      using json_number_shorter [OF that] short by simp
    have "json_string t = Some (w, q) \<Longrightarrow> length q < length s" for w q
      using json_string_shorter short by fastforce
    with "1.prems" Cons elems members closed word [of 4] word [of 5] number show ?thesis
      by (subst (asm) json_value.simps) (auto split: if_splits)
  qed
next
  case (2 s)
  show ?case
  proof (cases "json_value s")
    case None
    with "2.prems" show ?thesis by (simp add: json_elems.simps)
  next
    case (Some p)
    then obtain u q where p: "json_value s = Some (u, q)" "p = (u, q)" by (cases p) auto
    have q: "length q < length s" using "2.IH"(1) p by blast
    have next_one: "length z < length s" if "skip_ws q = c # y" "c = CHR '',''" "json_elems y = Some (xs, z)" for c y xs z
      using "2.IH"(2) [OF Some p(2) [symmetric] q that(1) that(2)] that(3) q skip_ws_Cons_shorter [OF that(1)]
      by fastforce
    have last_one: "length y < length s" if "skip_ws q = c # y" for c y
      using q skip_ws_Cons_shorter [OF that] by simp
    from "2.prems" p(1) q next_one last_one show ?thesis
      by (subst (asm) json_elems.simps) (auto split: list.splits if_splits)
  qed
next
  case (3 fs s)
  show ?case
  proof (cases "\<exists>t k u p v q. skip_ws s = CHR 0x22 # t \<and> json_string t = Some (k, u)
      \<and> skip_ws u = CHR '':'' # p \<and> json_value p = Some (v, q)")
    case False
    with "3.prems" show ?thesis
      by (subst (asm) json_members.simps) (auto split: list.splits if_splits option.splits)
  next
    case True
    then obtain t k u p v q where m: "skip_ws s = CHR 0x22 # t" "json_string t = Some (k, u)"
      "skip_ws u = CHR '':'' # p" "json_value p = Some (v, q)" by blast
    have q: "length q < length p" using "3.IH"(1) [OF m(1) _ m(2) _ m(3)] m(4) by simp
    have qs: "length q < length s"
      using q skip_ws_Cons_shorter [OF m(1)] json_string_shorter [OF m(2)] skip_ws_Cons_shorter [OF m(3)]
      by simp
    have next_one: "length z < length s"
      if "skip_ws q = c # y" "c = CHR '',''" "json_members (put_field k v fs) y = Some (gs, z)" for c y gs z
      using "3.IH"(2) [OF m(1) _ m(2) _ m(3) _ m(4) _ qs that(1) that(2)] that(3) qs
        skip_ws_Cons_shorter [OF that(1)] by fastforce
    have last_one: "length y < length s" if "skip_ws q = c # y" for c y
      using qs skip_ws_Cons_shorter [OF that] by simp
    from "3.prems" m qs next_one last_one show ?thesis
      by (subst (asm) json_members.simps) (auto split: list.splits if_splits)
  qed
qed

section \<open>Reading back a written text\<close>

text \<open>
  Values that survive \<open>JSON.stringify\<close> and \<open>JSON.parse\<close> unchanged: data whose objects enumerate
  their keys in the order they have.
\<close>

fun json_stable :: "jsval \<Rightarrow> bool" where
  "json_stable JUndefined = False"
| "json_stable (JNum r) = is_small_int r"
| "json_stable (JArr xs) = list_all json_stable xs"
| "json_stable (JObj fs) =
     (distinct (map fst fs) \<and> own_order fs = fs \<and> list_all (\<lambda>p. json_stable (snd p)) fs)"
| "json_stable _ = True"

lemma json_stable_data: "json_stable v \<Longrightarrow> json_data v"
  by (induction v rule: json_stable.induct) (auto simp: list_all_iff)

lemma hex_digit_value_digit: "n < 16 \<Longrightarrow> hex_digit_value (hex_digit n) = Some n"
  by (simp add: hex_digit_value_def hex_digit_def Let_def)

lemma json_unicode_control:
  assumes "n < 32"
  shows "json_unicode CHR ''0'' CHR ''0'' (hex_digit (n div 16)) (hex_digit (n mod 16)) = Some (char_of n)"
proof -
  have "16 * (n div 16) + n mod 16 = n" by simp
  then show ?thesis using assms by (simp add: json_unicode_def hex_digit_value_digit)
qed

lemma char_of_control:
  "char_of (8::nat) = CHR 0x08" "char_of (9::nat) = CHR 0x09" "char_of (10::nat) = CHR 0x0A"
  "char_of (12::nat) = CHR 0x0C" "char_of (13::nat) = CHR 0x0D"
  by code_simp+

lemma json_char_escape: "json_char (escape_char c @ s) = Some (c, s)"
proof -
  let ?n = "of_char c :: nat"
  consider "?n = 34" | "?n = 92" | "?n = 8" | "?n = 9" | "?n = 10" | "?n = 12" | "?n = 13"
    | "?n < 32" "?n \<notin> {8, 9, 10, 12, 13}" | "?n \<ge> 32" "?n \<noteq> 34" "?n \<noteq> 92"
    by fastforce
  then show ?thesis
  proof cases
    case 8
    then show ?thesis using json_unicode_control [of ?n] by (simp add: escape_char_def Let_def)
  next
    case 9
    then have "c \<noteq> CHR 0x5C" "c \<noteq> CHR 0x22" by auto
    with 9 show ?thesis by (simp add: escape_char_def Let_def)
  qed (auto simp: escape_char_def Let_def char_of_special char_of_control dest!: char_eq_of_nat)
qed

lemma json_string_quote: "json_string (concat (map escape_char w) @ CHR 0x22 # s) = Some (w, s)"
proof (induction w)
  case Nil
  then show ?case by (simp add: json_string.simps)
next
  case (Cons c w)
  obtain d t where e: "escape_char c = d # t" using escape_nonempty by (cases "escape_char c") auto
  have "d \<noteq> CHR 0x22" using escape_not_quote [of c] e by (metis append_Cons)
  moreover have "json_char (escape_char c @ concat (map escape_char w) @ CHR 0x22 # s)
      = Some (c, concat (map escape_char w) @ CHR 0x22 # s)"
    by (rule json_char_escape)
  ultimately show ?case using e Cons.IH
    by (subst json_string.simps) (simp del: json_char.simps)
qed

lemma hd_show_nat_0: "hd (show_nat n) = CHR ''0'' \<Longrightarrow> n = 0"
proof (induction n rule: show_nat.induct)
  case (1 n)
  show ?case
  proof (cases "n < 10")
    case True
    then have "hd (show_nat n) = digit n" by (subst show_nat.simps) simp
    with "1.prems" have "(of_char (digit n) :: nat) = of_char CHR ''0''" by simp
    with True show ?thesis by simp
  next
    case False
    then have "hd (show_nat n) = hd (show_nat (n div 10))"
      using show_nat_nonempty [of "n div 10"] by (subst show_nat.simps) simp
    with "1.IH" "1.prems" False show ?thesis by simp
  qed
qed

lemma stops_plain:
  assumes "stops s"
  shows "json_fraction s = Some ([], s)" "json_exponent s = Some (0, s)" "dropWhile is_digit (show_nat n @ s) = s"
proof -
  show "json_fraction s = Some ([], s)" "json_exponent s = Some (0, s)"
    using assms by (cases s; auto simp: stops_def)+
  have "dropWhile is_digit s = s" using stops_no_digit [OF assms] by (cases s) auto
  then show "dropWhile is_digit (show_nat n @ s) = s"
    using show_nat_digits [of n] by (simp add: dropWhile_append list_all_iff)
qed

lemma json_unsigned_show:
  assumes "stops s"
  shows "json_unsigned (show_nat n @ s) = Some (of_nat n, s)"
proof -
  have "hd (show_nat n) = CHR ''0'' \<Longrightarrow> show_nat n = [CHR ''0'']"
    using hd_show_nat_0 [of n] by (simp add: show_nat.simps [of 0] digit_def)
  then show ?thesis
    using takeWhile_digits [OF show_nat_digits assms] show_nat_nonempty [of n]
    by (auto simp: json_unsigned_def Let_def stops_plain [OF assms] scaled_def)
qed

lemma json_number_show:
  assumes "stops s"
  shows "json_number (show_int i @ s) = Some (of_int i, s)"
proof (cases "i < 0")
  case True
  then show ?thesis
    using json_unsigned_show [OF assms, of "nat (- i)"] by (simp add: show_int_def json_number_def)
next
  case False
  have "hd (show_nat (nat i) @ s) \<noteq> CHR ''-''"
    using hd_show_nat [of "nat i" s] by (auto simp: is_digit_def)
  with False show ?thesis
    using json_unsigned_show [OF assms, of "nat i"] by (simp add: show_int_def json_number_def)
qed

lemma skip_ws_text:
  assumes "json_data v"
  shows "skip_ws (text_of env v @ s) = text_of env v @ s"
proof -
  obtain c t where t: "text_of env v = c # t" using hd_text_of [OF assms] by (cases "text_of env v") auto
  have "\<not> is_json_space c"
  proof (cases v)
    case (JNum r)
    with assms t hd_show_int [of "\<lfloor>r\<rfloor>" "[]"] show ?thesis
      by (auto simp: text_of_simps is_digit_def is_json_space_def)
  qed (use assms t in \<open>auto simp: text_of_simps is_json_space_def quote_def split: if_splits\<close>)
  with t show ?thesis by (simp add: skip_ws_def)
qed

lemma skip_ws_stop [simp]:
  "skip_ws (CHR '','' # s) = CHR '','' # s" "skip_ws (CHR '']'' # s) = CHR '']'' # s"
  "skip_ws (CHR ''}'' # s) = CHR ''}'' # s" "skip_ws (CHR '':'' # s) = CHR '':'' # s"
  "skip_ws (CHR 0x22 # s) = CHR 0x22 # s" "skip_ws [] = []"
  by (simp_all add: skip_ws_def is_json_space_def)

lemma json_elems_join:
  assumes elems_read: "\<And>x s. x \<in> set xs \<Longrightarrow> stops s \<Longrightarrow> json_value (text_of env x @ s) = Some (x, s)"
    and data: "list_all json_data xs" and "xs \<noteq> []"
  shows "json_elems (join '','' (map (text_of env) xs) @ CHR '']'' # s) = Some (xs, s)"
  using assms
proof (induction xs)
  case (Cons x xs)
  show ?case
  proof (cases xs)
    case Nil
    with Cons.prems(1) [of x "CHR '']'' # s"] hd_text_of [of x env] Cons.prems(2) show ?thesis
      by (subst json_elems.simps) simp
  next
    case (Cons y ys)
    let ?r = "CHR '','' # join '','' (map (text_of env) xs) @ CHR '']'' # s"
    have "json_value (text_of env x @ ?r) = Some (x, ?r)" using Cons.prems(1) by simp
    moreover have "json_elems (join '','' (map (text_of env) xs) @ CHR '']'' # s) = Some (xs, s)"
      using Cons.IH Cons.prems Cons by auto
    ultimately show ?thesis
      using hd_text_of [of x env] Cons.prems(2) Cons by (subst json_elems.simps) simp
  qed
qed simp

lemma json_members_join:
  assumes elems_read: "\<And>p s. p \<in> set fs \<Longrightarrow> stops s \<Longrightarrow>
      json_value (text_of env (snd p) @ s) = Some (snd p, s)"
    and "fs \<noteq> []" and "distinct (map fst (gs @ fs))"
  shows "json_members gs (join '','' (map (member_text env) fs) @ CHR ''}'' # s) = Some (gs @ fs, s)"
  using assms
proof (induction fs arbitrary: gs)
  case (Cons p fs)
  obtain k v where p: "p = (k, v)" by (cases p)
  have fresh: "put_field k v gs = gs @ [p]"
    using Cons.prems(3) p by (intro put_field_fresh [THEN trans]) auto
  have key: "member_text env (k, v) @ r = CHR 0x22 # concat (map escape_char k) @ CHR 0x22 # CHR '':'' # text_of env v @ r"
    for r by (simp add: member_text_def quote_def)
  have read: "json_string (concat (map escape_char k) @ CHR 0x22 # r) = Some (k, r)" for r
    by (rule json_string_quote)
  show ?case
  proof (cases fs)
    case Nil
    with Cons.prems(1) [of p "CHR ''}'' # s"] show ?thesis
      by (subst json_members.simps) (simp add: key read p fresh)
  next
    case (Cons q qs)
    let ?r = "CHR '','' # join '','' (map (member_text env) fs) @ CHR ''}'' # s"
    have "json_value (text_of env v @ ?r) = Some (v, ?r)" using Cons.prems(1) [of p ?r] p by simp
    moreover have "json_members (gs @ [p]) (join '','' (map (member_text env) fs) @ CHR ''}'' # s)
        = Some ((gs @ [p]) @ fs, s)"
      using Cons.prems Cons by (intro Cons.IH) auto
    moreover have "join '','' (map (member_text env) (p # fs)) @ CHR ''}'' # s = member_text env p @ ?r"
      using Cons by simp
    ultimately show ?thesis
      by (subst json_members.simps) (simp add: key read fresh p)
  qed
qed simp

lemma json_value_text:
  assumes "json_stable v" and "stops s"
  shows "json_value (text_of env v @ s) = Some (v, s)"
  using assms
proof (induction v arbitrary: s)
  case (JNum r)
  then have r: "is_small_int r" "r = of_int \<lfloor>r\<rfloor>" by (simp_all add: is_small_int_def)
  obtain c t where c: "show_int \<lfloor>r\<rfloor> @ s = c # t" "is_digit c \<or> c = CHR ''-''"
    using hd_show_int [of "\<lfloor>r\<rfloor>" s] by (cases "show_int \<lfloor>r\<rfloor> @ s") auto
  have "c \<notin> {CHR 0x22, CHR ''['', CHR ''{'', CHR ''n'', CHR ''t'', CHR ''f''}"
    using c(2) by (auto simp: is_digit_def)
  with c r json_number_show [OF JNum.prems(2), of "\<lfloor>r\<rfloor>"] skip_ws_text [of "JNum r" env s]
  show ?case
    by (subst json_value.simps) (simp add: text_of_simps starts_with_def)
next
  case (JStr w)
  then show ?case
    by (subst json_value.simps) (simp add: text_of_simps quote_def json_string_quote)
next
  case (JArr xs)
  have data: "list_all json_data xs" using JArr.prems(1) json_stable_data by (auto simp: list_all_iff)
  show ?case
  proof (cases xs)
    case Nil
    then show ?thesis
      using skip_ws_text [of "JArr []" env s]
      by (subst json_value.simps) (simp add: text_of_simps starts_with_def)
  next
    case (Cons x ys)
    have "json_elems (join '','' (map (text_of env) xs) @ CHR '']'' # s) = Some (xs, s)"
      using JArr Cons data by (intro json_elems_join) (auto simp: list_all_iff)
    moreover have "\<not> starts_with (skip_ws (join '','' (map (text_of env) xs) @ CHR '']'' # s)) '']''"
    proof -
      have x: "json_data x" using data Cons by simp
      have "skip_ws (join '','' (map (text_of env) xs) @ CHR '']'' # s)
          = join '','' (map (text_of env) xs) @ CHR '']'' # s"
        using skip_ws_text [OF x, of env "concat (map (\<lambda>t. '','' @ t) (map (text_of env) ys)) @ CHR '']'' # s"] Cons
        by (simp add: join_Cons comp_def)
      with hd_text_of [OF x, of env] Cons show ?thesis
        by (cases "text_of env x") (auto simp: starts_with_def join_Cons closes_def)
    qed
    ultimately show ?thesis
      using skip_ws_text [of "JArr xs" env s] data
      by (subst json_value.simps) (simp add: text_of_simps)
  qed
next
  case (JObj fs)
  have data: "list_all (\<lambda>p. json_data (snd p)) fs"
    using JObj.prems(1) json_stable_data by (auto simp: list_all_iff)
  have whole: "skip_ws (text_of env (JObj fs) @ s) = text_of env (JObj fs) @ s"
    using JObj.prems(1) json_stable_data by (intro skip_ws_text) blast
  show ?case
  proof (cases fs)
    case Nil
    then show ?thesis
      using whole by (subst json_value.simps) (simp add: text_of_simps starts_with_def)
  next
    case (Cons p gs)
    have "json_value (text_of env (snd q) @ r) = Some (snd q, r)" if "q \<in> set fs" "stops r" for q r
      using JObj.IH [OF that(1), of "snd q" r] JObj.prems(1) that by (cases q) (auto simp: list_all_iff)
    then have "json_members [] (join '','' (map (member_text env) fs) @ CHR ''}'' # s) = Some ([] @ fs, s)"
      using JObj.prems(1) Cons by (intro json_members_join) auto
    moreover have "\<not> starts_with (skip_ws (join '','' (map (member_text env) fs) @ CHR ''}'' # s)) ''}''"
      using Cons by (simp add: join_Cons member_text_def quote_def starts_with_def)
    ultimately show ?thesis
      using whole data JObj.prems(1)
      by (subst json_value.simps) (simp add: text_of_simps)
  qed
next
  case JNull
  then show ?case
    using skip_ws_text [of JNull env s]
    by (subst json_value.simps) (simp add: text_of_simps starts_with_def)
next
  case (JBool b)
  then show ?case
    using skip_ws_text [of "JBool b" env s]
    by (subst json_value.simps) (simp add: text_of_simps starts_with_def)
qed simp

theorem parse_stringify:
  assumes "json_stable v"
  shows "JSON_parse (the (stringify env v)) = Some v"
  using json_value_text [OF assms, of "[]" env] by (simp add: JSON_parse_def text_of_def)

end
