(* ===== verification/Rule_Ir.thy ===== *)
theory Rule_Ir
  imports Json_Parse
begin

text \<open>
  The rule language of the inference engine (\<open>src/lib/inference-rule-ir.js\<close>): terms, atoms and
  rules as data that comes from outside, checked and copied field by field, with the code of the first
  rule that is broken; their JSON text and the way back.  A checked object is a value of
  \<open>rule_term\<close>, \<open>rule_atom\<close> or \<open>rule\<close>; \<open>term_json\<close>, \<open>atom_json\<close> and \<open>rule_json\<close> are the frozen objects
  the code builds, with their fields in the order of the literals.
\<close>

section \<open>Errors, terms, atoms, rules\<close>

datatype rule_error =
    Rule_shape_invalid | Rule_id_invalid | Schema_version_unsupported | Body_required | Body_too_large
  | Constraints_too_large | Atom_shape_invalid | Predicate_invalid | Arguments_invalid
  | Term_shape_invalid | Variable_name_invalid | Constant_value_invalid | Parse_invalid_json

datatype rule_term = Variable string | Constant string

record rule_atom =
  ra_predicate :: string
  ra_args :: "rule_term list"

record rule =
  ru_id :: string
  ru_head :: rule_atom
  ru_body :: "rule_atom list"
  ru_constraints :: "rule_atom list"

definition RULE_IR_SCHEMA_VERSION :: string where
  "RULE_IR_SCHEMA_VERSION = ''huqan.rule-ir.v1''"

definition MAX_RULE_ID_LENGTH :: nat where "MAX_RULE_ID_LENGTH = 256"
definition MAX_PREDICATE_LENGTH :: nat where "MAX_PREDICATE_LENGTH = 128"
definition MAX_ARGUMENTS :: nat where "MAX_ARGUMENTS = 8"
definition MAX_BODY_ATOMS :: nat where "MAX_BODY_ATOMS = 64"
definition MAX_CONSTRAINT_ATOMS :: nat where "MAX_CONSTRAINT_ATOMS = 32"

fun term_json :: "rule_term \<Rightarrow> jsval" where
  "term_json (Variable x) = JObj [(''kind'', JStr ''variable''), (''name'', JStr x)]"
| "term_json (Constant c) = JObj [(''kind'', JStr ''constant''), (''value'', JStr c)]"

definition atom_json :: "rule_atom \<Rightarrow> jsval" where
  "atom_json a = JObj [(''predicate'', JStr (ra_predicate a)), (''args'', JArr (map term_json (ra_args a)))]"

definition rule_json :: "rule \<Rightarrow> jsval" where
  "rule_json r = JObj [(''schemaVersion'', JStr RULE_IR_SCHEMA_VERSION), (''id'', JStr (ru_id r)),
     (''head'', atom_json (ru_head r)), (''body'', JArr (map atom_json (ru_body r))),
     (''constraints'', JArr (map atom_json (ru_constraints r)))]"

section \<open>Keys and texts\<close>

fun exactKeys :: "jsval \<Rightarrow> string list \<Rightarrow> bool" where
  "exactKeys (JObj fs) keys = (sort (map fst fs) = sort keys)"
| "exactKeys _ keys = False"

fun optionalExactKeys :: "jsval \<Rightarrow> string list \<Rightarrow> string list \<Rightarrow> bool" where
  "optionalExactKeys (JObj fs) required optional =
     (list_all (\<lambda>k. k \<in> set (map fst fs)) required
      \<and> list_all (\<lambda>k. k \<in> set required \<or> k \<in> set optional) (map fst fs))"
| "optionalExactKeys _ required optional = False"

definition is_control_code_point :: "char \<Rightarrow> bool" where
  "is_control_code_point c = ((of_char c :: nat) \<le> 31 \<or> (of_char c :: nat) = 127)"

fun assertText :: "jsval \<Rightarrow> rule_error \<Rightarrow> nat \<Rightarrow> bool \<Rightarrow> rule_error + string" where
  "assertText (JStr s) code maxLength allowWhitespace =
     (if s = [] \<or> trim s = [] then Inl code
      else if length s > maxLength then Inl code
      else if list_ex is_control_code_point s then Inl code
      else if \<not> allowWhitespace \<and> list_ex is_space s then Inl code
      else Inr s)"
| "assertText _ code maxLength allowWhitespace = Inl code"

text \<open>The pattern of variable names.\<close>

definition is_name_start :: "char \<Rightarrow> bool" where
  "is_name_start c = (let n = of_char c :: nat in
     (65 \<le> n \<and> n \<le> 90) \<or> (97 \<le> n \<and> n \<le> 122) \<or> n = 95)"

fun VARIABLE_NAME :: "string \<Rightarrow> bool" where
  "VARIABLE_NAME [] = False"
| "VARIABLE_NAME (c # s) = (is_name_start c \<and> list_all (\<lambda>d. is_name_start d \<or> is_digit d) s)"

section \<open>Checking a term, an atom, a rule\<close>

definition normalizeVariable :: "jsval \<Rightarrow> rule_error + rule_term" where
  "normalizeVariable v =
     (if \<not> exactKeys v [''kind'', ''name''] \<or> jget v ''kind'' \<noteq> JStr ''variable'' then Inl Term_shape_invalid
      else bind_result (assertText (jget v ''name'') Variable_name_invalid 128 False) (\<lambda>name.
        if \<not> VARIABLE_NAME name then Inl Variable_name_invalid else Inr (Variable name)))"

definition normalizeConstant :: "jsval \<Rightarrow> rule_error + rule_term" where
  "normalizeConstant v =
     (if \<not> exactKeys v [''kind'', ''value''] \<or> jget v ''kind'' \<noteq> JStr ''constant'' then Inl Term_shape_invalid
      else bind_result (assertText (jget v ''value'') Constant_value_invalid 2048 True) (\<lambda>c.
        Inr (Constant c)))"

definition normalizeTerm :: "jsval \<Rightarrow> rule_error + rule_term" where
  "normalizeTerm v =
     (if \<not> isPlainObject v then Inl Term_shape_invalid
      else if jget v ''kind'' = JStr ''variable'' then normalizeVariable v
      else if jget v ''kind'' = JStr ''constant'' then normalizeConstant v
      else Inl Term_shape_invalid)"

definition normalizeAtom :: "jsval \<Rightarrow> rule_error + rule_atom" where
  "normalizeAtom v =
     (if \<not> exactKeys v [''predicate'', ''args''] then Inl Atom_shape_invalid
      else bind_result (assertText (jget v ''predicate'') Predicate_invalid MAX_PREDICATE_LENGTH False) (\<lambda>p.
        case jget v ''args'' of
          JArr xs \<Rightarrow>
            if length xs < 1 \<or> length xs > MAX_ARGUMENTS then Inl Arguments_invalid
            else bind_result (map_result normalizeTerm xs) (\<lambda>ts.
              Inr \<lparr>ra_predicate = p, ra_args = ts\<rparr>)
        | _ \<Rightarrow> Inl Arguments_invalid))"

definition normalizeAtomList :: "jsval \<Rightarrow> bool \<Rightarrow> nat \<Rightarrow> rule_error \<Rightarrow> rule_error + rule_atom list" where
  "normalizeAtomList v required maxLength errorCode =
     (case v of
        JArr xs \<Rightarrow>
          if required \<and> xs = [] then Inl errorCode
          else if length xs > maxLength then Inl errorCode
          else map_result normalizeAtom xs
      | _ \<Rightarrow> Inl errorCode)"

text \<open>
  The number of a value in a comparison, \<open>None\<close> for \<open>NaN\<close>.  An array converts through its text, so
  only an empty or a singleton array can be a number; an object without its own conversion is not.
\<close>

fun comparison_number :: "js_env \<Rightarrow> jsval \<Rightarrow> rat option" where
  "comparison_number env JNull = Some 0"
| "comparison_number env (JBool b) = Some (if b then 1 else 0)"
| "comparison_number env (JNum r) = Some r"
| "comparison_number env (JStr s) = (if trim s = [] then Some 0 else number_of_string env (trim s))"
| "comparison_number env (JArr []) = Some 0"
| "comparison_number env (JArr [JUndefined]) = Some 0"
| "comparison_number env (JArr [JBool b]) = None"
| "comparison_number env (JArr [v]) = comparison_number env v"
| "comparison_number env _ = None"

text \<open>\<open>input.body && input.body.length > n\<close> for a body of any kind.\<close>

fun longer_than :: "js_env \<Rightarrow> jsval \<Rightarrow> nat \<Rightarrow> bool" where
  "longer_than env (JStr s) n = (length s > n)"
| "longer_than env (JArr xs) n = (length xs > n)"
| "longer_than env (JObj fs) n =
     (case comparison_number env (field fs ''length'') of None \<Rightarrow> False | Some r \<Rightarrow> r > of_nat n)"
| "longer_than env _ n = False"

definition rule_fields :: "js_env \<Rightarrow> jsval \<Rightarrow> rule_error + rule" where
  "rule_fields env v =
     bind_result (assertText (jget v ''id'') Rule_id_invalid MAX_RULE_ID_LENGTH True) (\<lambda>i.
     bind_result (normalizeAtom (jget v ''head'')) (\<lambda>head.
     bind_result (normalizeAtomList (jget v ''body'') True MAX_BODY_ATOMS
       (if longer_than env (jget v ''body'') MAX_BODY_ATOMS then Body_too_large else Body_required)) (\<lambda>body.
     bind_result (normalizeAtomList
       (if truthy (jget v ''constraints'') then jget v ''constraints'' else JArr [])
       False MAX_CONSTRAINT_ATOMS Constraints_too_large) (\<lambda>constraints.
     Inr \<lparr>ru_id = i, ru_head = head, ru_body = body, ru_constraints = constraints\<rparr>))))"

fun has_own :: "jsval \<Rightarrow> string \<Rightarrow> bool" where
  "has_own (JObj fs) k = (k \<in> set (map fst fs))"
| "has_own _ k = False"

definition normalizeRule :: "js_env \<Rightarrow> jsval \<Rightarrow> bool \<Rightarrow> rule_error + rule" where
  "normalizeRule env v requireSchemaVersion =
     (if \<not> optionalExactKeys v [''id'', ''head'', ''body''] [''schemaVersion'', ''constraints'']
      then Inl Rule_shape_invalid
      else if requireSchemaVersion \<and> jget v ''schemaVersion'' \<noteq> JStr RULE_IR_SCHEMA_VERSION
      then Inl Schema_version_unsupported
      else if has_own v ''schemaVersion'' \<and> jget v ''schemaVersion'' \<noteq> JStr RULE_IR_SCHEMA_VERSION
      then Inl Schema_version_unsupported
      else rule_fields env v)"

section \<open>The exported functions\<close>

definition variable_term :: "jsval \<Rightarrow> rule_error + rule_term" where
  "variable_term name = normalizeVariable (JObj [(''kind'', JStr ''variable''), (''name'', name)])"

definition constant_term :: "jsval \<Rightarrow> rule_error + rule_term" where
  "constant_term c = normalizeConstant (JObj [(''kind'', JStr ''constant''), (''value'', c)])"

definition rule_atom_of :: "jsval \<Rightarrow> jsval \<Rightarrow> rule_error + rule_atom" where
  "rule_atom_of p args = normalizeAtom (JObj [(''predicate'', p), (''args'', args)])"

definition createRule :: "js_env \<Rightarrow> jsval \<Rightarrow> rule_error + rule" where
  "createRule env v = normalizeRule env v False"

definition serializeRule :: "js_env \<Rightarrow> jsval \<Rightarrow> rule_error + string" where
  "serializeRule env v =
     bind_result (normalizeRule env v True) (\<lambda>r. Inr (the (stringify env (rule_json r))))"

definition parseRule :: "js_env \<Rightarrow> jsval \<Rightarrow> rule_error + rule" where
  "parseRule env v =
     (case v of
        JStr s \<Rightarrow>
          (case JSON_parse s of
             None \<Rightarrow> Inl Parse_invalid_json
           | Some w \<Rightarrow> normalizeRule env w True)
      | _ \<Rightarrow> normalizeRule env v True)"

end
