(* ===== verification/Unification.thy ===== *)
theory Unification
  imports Rule_Ir
begin

text \<open>
  Matching of an atom of a rule with a ground fact (\<open>src/lib/inference-unification.js\<close>): one-way
  unification with initial bindings, a budget of operations and constraints that a callback decides.
  Every failure is an answer with a status and a reason; the exceptions of the checks are caught.  The
  callback \<open>constraintEvaluator\<close> is an argument, a function of the ground atom that may throw.
\<close>

section \<open>Answers\<close>

datatype unification_status = Match | No_match | Unknown | Invalid | Stopped

datatype unification_reason =
    Matched | Predicate_mismatch | Arity_mismatch | Constant_mismatch | Repeated_variable_conflict
  | Initial_bindings_invalid | Invalid_pattern | Invalid_fact | Invalid_rule | Invalid_body_index
  | Constraint_evaluator_missing | Constraint_evaluator_invalid | Constraint_evaluator_error
  | Constraint_unresolved | Constraint_rejected | Constraint_unknown
  | Operation_budget_exhausted | Invalid_options

type_synonym bindings = "(string \<times> string) list"

record unification =
  un_status :: unification_status
  un_reason :: unification_reason
  un_bindings :: bindings
  un_operations :: nat

type_synonym evaluator = "rule_atom \<Rightarrow> unit + jsval"

record unify_options =
  uo_maxOperations :: jsval
  uo_bindings :: jsval
  uo_constraints :: jsval
  uo_constraintEvaluator :: "evaluator option"

definition DEFAULT_MAX_OPERATIONS :: nat where "DEFAULT_MAX_OPERATIONS = 128"

definition no_options :: unify_options where
  "no_options = \<lparr>uo_maxOperations = JUndefined, uo_bindings = JUndefined, uo_constraints = JUndefined,
     uo_constraintEvaluator = None\<rparr>"

definition freezeBindings :: "js_env \<Rightarrow> bindings \<Rightarrow> bindings" where
  "freezeBindings env b = sort_by (\<lambda>p q. locale_compare env (fst p) (fst q)) b"

definition unification_result ::
  "js_env \<Rightarrow> unification_status \<Rightarrow> unification_reason \<Rightarrow> bindings \<Rightarrow> nat \<Rightarrow> unification" where
  "unification_result env status reason b operations =
     \<lparr>un_status = status, un_reason = reason, un_bindings = freezeBindings env b, un_operations = operations\<rparr>"

definition normalizeMaxOperations :: "jsval \<Rightarrow> nat option" where
  "normalizeMaxOperations v =
     (if v = JUndefined then Some DEFAULT_MAX_OPERATIONS
      else if \<not> is_integer v \<or> num_of v < 0 then None
      else Some (nat \<lfloor>num_of v\<rfloor>))"

section \<open>Checking the inputs\<close>

datatype unify_error = Type_error | Rule_error rule_error

definition of_rule :: "rule_error + 'a \<Rightarrow> unify_error + 'a" where
  "of_rule r = (case r of Inl e \<Rightarrow> Inl (Rule_error e) | Inr x \<Rightarrow> Inr x)"

definition unify_term :: "jsval \<Rightarrow> unify_error + rule_term" where
  "unify_term v =
     (if \<not> isPlainObject v then Inl Type_error
      else if jget v ''kind'' = JStr ''variable'' then of_rule (variable_term (jget v ''name''))
      else if jget v ''kind'' = JStr ''constant'' then of_rule (constant_term (jget v ''value''))
      else Inl Type_error)"

definition unify_atom :: "jsval \<Rightarrow> unify_error + rule_atom" where
  "unify_atom v =
     (case (v, jget v ''args'') of
        (JObj _, JArr xs) \<Rightarrow>
          bind_result (map_result unify_term xs) (\<lambda>ts.
            of_rule (rule_atom_of (jget v ''predicate'') (JArr (map term_json ts))))
      | _ \<Rightarrow> Inl Type_error)"

fun is_constant :: "rule_term \<Rightarrow> bool" where
  "is_constant (Constant c) = True"
| "is_constant (Variable x) = False"

text \<open>\<open>term.value\<close>; only read of constants.\<close>

fun term_value :: "rule_term \<Rightarrow> string" where
  "term_value (Constant c) = c"
| "term_value (Variable x) = []"

definition unify_ground_fact :: "jsval \<Rightarrow> unify_error + rule_atom" where
  "unify_ground_fact v =
     bind_result (unify_atom v) (\<lambda>a.
       if list_ex (\<lambda>t. \<not> is_constant t) (ra_args a) then Inl Type_error else Inr a)"

fun binding_entries :: "bindings \<Rightarrow> jsval list \<Rightarrow> unify_error + bindings" where
  "binding_entries b [] = Inr b"
| "binding_entries b (e # es) =
     (if \<not> isPlainObject e \<or> \<not> is_string (jget e ''variable'') \<or> \<not> is_string (jget e ''value'')
      then Inl Type_error
      else case of_rule (variable_term (jget e ''variable'')) of
        Inr (Variable name) \<Rightarrow>
          (case of_rule (constant_term (jget e ''value'')) of
             Inr (Constant c) \<Rightarrow>
               if map_of b name \<noteq> None \<and> map_of b name \<noteq> Some c then Inl Type_error
               else binding_entries (alist_put name c b) es
           | Inr (Variable _) \<Rightarrow> Inl Type_error
           | Inl err \<Rightarrow> Inl err)
      | Inr (Constant _) \<Rightarrow> Inl Type_error
      | Inl err \<Rightarrow> Inl err)"

definition normalizeInitialBindings :: "jsval \<Rightarrow> unify_error + bindings" where
  "normalizeInitialBindings v =
     (case v of
        JUndefined \<Rightarrow> Inr []
      | JArr es \<Rightarrow> binding_entries [] es
      | _ \<Rightarrow> Inl Type_error)"

section \<open>Constraints\<close>

fun resolve_args :: "bindings \<Rightarrow> rule_term list \<Rightarrow> rule_term list \<Rightarrow> unify_error + rule_term list option" where
  "resolve_args b args [] = Inr (Some args)"
| "resolve_args b args (Constant c # ts) = resolve_args b (args @ [Constant c]) ts"
| "resolve_args b args (Variable x # ts) =
     (case map_of b x of
        None \<Rightarrow> Inr None
      | Some c \<Rightarrow>
          bind_result (of_rule (constant_term (JStr c))) (\<lambda>t. resolve_args b (args @ [t]) ts))"

definition resolveAtom :: "jsval \<Rightarrow> bindings \<Rightarrow> unify_error + rule_atom option" where
  "resolveAtom v b =
     bind_result (unify_atom v) (\<lambda>a.
     bind_result (resolve_args b [] (ra_args a)) (\<lambda>resolved.
       case resolved of
         None \<Rightarrow> Inr None
       | Some args \<Rightarrow>
           bind_result (of_rule (rule_atom_of (JStr (ra_predicate a)) (JArr (map term_json args)))) (\<lambda>g.
             Inr (Some g))))"

text \<open>\<open>Inl\<close> is the answer the code returns at once, \<open>Inr n\<close> the operations counted when all hold.\<close>

fun decide_constraints ::
  "js_env \<Rightarrow> evaluator \<Rightarrow> nat \<Rightarrow> bindings \<Rightarrow> jsval list \<Rightarrow> nat \<Rightarrow> unification + nat" where
  "decide_constraints env ev maxOps b [] n = Inr n"
| "decide_constraints env ev maxOps b (c # cs) n =
     (if n \<ge> maxOps then Inl (unification_result env Stopped Operation_budget_exhausted b n)
      else let n = n + 1 in
        case resolveAtom c b of
          Inl _ \<Rightarrow> Inl (unification_result env Invalid Constraint_evaluator_invalid b n)
        | Inr None \<Rightarrow> Inl (unification_result env Unknown Constraint_unresolved b n)
        | Inr (Some ground) \<Rightarrow>
            (case ev ground of
               Inl _ \<Rightarrow> Inl (unification_result env Unknown Constraint_evaluator_error b n)
             | Inr verdict \<Rightarrow>
                 if verdict = JBool False then Inl (unification_result env No_match Constraint_rejected b n)
                 else if verdict = JStr ''unknown''
                 then Inl (unification_result env Unknown Constraint_unknown b n)
                 else if verdict \<noteq> JBool True
                 then Inl (unification_result env Invalid Constraint_evaluator_invalid b n)
                 else decide_constraints env ev maxOps b cs n))"

definition evaluateConstraints ::
  "js_env \<Rightarrow> evaluator option \<Rightarrow> nat \<Rightarrow> bindings \<Rightarrow> jsval list \<Rightarrow> nat \<Rightarrow> unification + nat" where
  "evaluateConstraints env evaluator maxOps b constraints n =
     (if constraints = [] then Inr n
      else case evaluator of
        None \<Rightarrow> Inl (unification_result env Unknown Constraint_evaluator_missing b n)
      | Some ev \<Rightarrow> decide_constraints env ev maxOps b constraints n)"

section \<open>Matching\<close>

text \<open>
  The loop over the arguments; the lists have the same length.  \<open>Inr (b, n)\<close> are the bindings and
  the operations counted after the last argument.
\<close>

fun match_args ::
  "js_env \<Rightarrow> nat \<Rightarrow> rule_term list \<Rightarrow> rule_term list \<Rightarrow> bindings \<Rightarrow> nat \<Rightarrow> unification + bindings \<times> nat" where
  "match_args env maxOps (p # ps) (f # fs) b n =
     (if n \<ge> maxOps then Inl (unification_result env Stopped Operation_budget_exhausted b n)
      else let n = n + 1; factValue = term_value f in
        case p of
          Constant c \<Rightarrow>
            if c \<noteq> factValue then Inl (unification_result env No_match Constant_mismatch b n)
            else match_args env maxOps ps fs b n
        | Variable x \<Rightarrow>
            (case map_of b x of
               Some c \<Rightarrow>
                 if c \<noteq> factValue
                 then Inl (unification_result env No_match Repeated_variable_conflict b n)
                 else match_args env maxOps ps fs b n
             | None \<Rightarrow> match_args env maxOps ps fs (alist_put x factValue b) n))"
| "match_args env maxOps _ _ b n = Inr (b, n)"

text \<open>What follows the checks of the inputs.\<close>

definition match_atoms ::
  "js_env \<Rightarrow> unify_options \<Rightarrow> nat \<Rightarrow> rule_atom \<Rightarrow> rule_atom \<Rightarrow> bindings \<Rightarrow> unification" where
  "match_atoms env opts maxOps pattern datum b =
     (if ra_predicate pattern \<noteq> ra_predicate datum
      then unification_result env No_match Predicate_mismatch b 0
      else if length (ra_args pattern) \<noteq> length (ra_args datum)
      then unification_result env No_match Arity_mismatch b 0
      else case match_args env maxOps (ra_args pattern) (ra_args datum) b 0 of
        Inl answer \<Rightarrow> answer
      | Inr (b, n) \<Rightarrow>
          (let decided = (case uo_constraints opts of
               JUndefined \<Rightarrow> evaluateConstraints env (uo_constraintEvaluator opts) maxOps b [] n
             | JArr cs \<Rightarrow> evaluateConstraints env (uo_constraintEvaluator opts) maxOps b cs n
             | _ \<Rightarrow> Inl (unification_result env Invalid Invalid_options b n))
           in case decided of
             Inl answer \<Rightarrow> answer
           | Inr n \<Rightarrow> unification_result env Match Matched b n))"

definition unifyAtom :: "js_env \<Rightarrow> jsval \<Rightarrow> jsval \<Rightarrow> unify_options \<Rightarrow> unification" where
  "unifyAtom env patternInput factInput opts =
     (case normalizeMaxOperations (uo_maxOperations opts) of
        None \<Rightarrow> unification_result env Invalid Invalid_options [] 0
      | Some maxOps \<Rightarrow>
          (case unify_atom patternInput of
             Inl _ \<Rightarrow> unification_result env Invalid Invalid_pattern [] 0
           | Inr pattern \<Rightarrow>
               (case unify_ground_fact factInput of
                  Inl _ \<Rightarrow> unification_result env Invalid Invalid_fact [] 0
                | Inr datum \<Rightarrow>
                    (case normalizeInitialBindings (uo_bindings opts) of
                       Inl _ \<Rightarrow> unification_result env Invalid Initial_bindings_invalid [] 0
                     | Inr b \<Rightarrow> match_atoms env opts maxOps pattern datum b))))"

definition unifyRuleAtom :: "js_env \<Rightarrow> jsval \<Rightarrow> jsval \<Rightarrow> jsval \<Rightarrow> unify_options \<Rightarrow> unification" where
  "unifyRuleAtom env ruleInput bodyIndex factInput opts =
     (case bind_result (serializeRule env ruleInput) (\<lambda>s. parseRule env (JStr s)) of
        Inl _ \<Rightarrow> unification_result env Invalid Invalid_rule [] 0
      | Inr r \<Rightarrow>
          if \<not> is_integer bodyIndex \<or> num_of bodyIndex < 0
            \<or> num_of bodyIndex \<ge> of_nat (length (ru_body r))
          then unification_result env Invalid Invalid_body_index [] 0
          else unifyAtom env (atom_json (ru_body r ! nat \<lfloor>num_of bodyIndex\<rfloor>)) factInput
            (opts\<lparr>uo_constraints := JArr (map atom_json (ru_constraints r))\<rparr>))"

section \<open>Bindings as an option\<close>

text \<open>The option \<open>{ bindings }\<close>, in the form in which an answer carries bindings.\<close>

definition bindings_json :: "bindings \<Rightarrow> jsval" where
  "bindings_json b = JArr (map (\<lambda>(x, c). JObj [(''variable'', JStr x), (''value'', JStr c)]) b)"

definition engine_options :: "bindings \<Rightarrow> unify_options" where
  "engine_options b = no_options\<lparr>uo_bindings := bindings_json b\<rparr>"

end
