(* ===== verification/Semi_Naive.thy ===== *)
theory Semi_Naive
  imports Unification
begin

text \<open>
  The bottom-up evaluation of rules over facts (\<open>src/lib/inference-semi-naive.js\<close> and its two parts
  \<open>inference-semi-naive-values.js\<close> and \<open>inference-semi-naive-join.js\<close>): in every round each body atom of each
  rule in turn is matched with the facts that were new in the round before, the other body atoms with
  all facts, and the heads that are not known yet are the new facts of the next round.  Budgets of
  operations, rounds, derived facts and time can stop the evaluation anywhere.

  The clock is a function of the number of readings taken.  The mutable \<open>state\<close> of the code is the record
  \<open>eval_state\<close>; what never changes during an evaluation (the limits, the clock, the time of the start and
  the constraint callback) is the record \<open>eval_context\<close>.  A loop that may leave early returns a sum whose
  left side is the reason.  \<open>Thrown\<close> stands for an exception that nothing catches.
\<close>

section \<open>Limits and results\<close>

datatype evaluation_status = Evaluation_complete | Evaluation_stopped | Evaluation_invalid

datatype evaluation_stop =
    Fixpoint | Max_operations | Max_rounds | Max_derived_facts | Timeout | Invalid_input | Unsafe_rule

record eval_options =
  eo_maxOperations :: jsval
  eo_maxRounds :: jsval
  eo_maxDerivedFacts :: jsval
  eo_timeoutMs :: jsval
  eo_constraintEvaluator :: "evaluator option"

record eval_limits =
  li_maxOperations :: nat
  li_maxRounds :: nat
  li_maxDerivedFacts :: nat
  li_timeoutMs :: rat

record raw_candidate =
  rc_fact :: rule_atom
  rc_ruleId :: string
  rc_bindings :: bindings
  rc_supports :: "rule_atom list"

record candidate =
  ca_fact :: rule_atom
  ca_ruleId :: string
  ca_round :: nat
  ca_bindings :: bindings
  ca_supports :: "rule_atom list"

record eval_stats =
  es_operations :: nat
  es_matchAttempts :: nat
  es_driverFactVisits :: nat
  es_duplicateSuppressed :: nat
  es_constraintUnknowns :: nat
  es_constraintRejections :: nat
  es_deltaFactCounts :: "nat list"
  es_factCountsByRoundStart :: "nat list"

record eval_state =
  ev_round :: nat
  ev_candidates :: "(string \<times> candidate) list"
  ev_stats :: eval_stats
  ev_readings :: nat

record eval_context =
  cx_env :: js_env
  cx_limits :: eval_limits
  cx_now :: "nat \<Rightarrow> rat"
  cx_startedAt :: rat
  cx_evaluator :: "evaluator option"

record evaluation =
  er_status :: evaluation_status
  er_stoppedReason :: evaluation_stop
  er_rounds :: nat
  er_derivedCandidates :: "candidate list"
  er_stats :: eval_stats
  er_unsafe :: "(string \<times> string) option"

definition normalizePositiveInteger :: "jsval \<Rightarrow> nat \<Rightarrow> nat option" where
  "normalizePositiveInteger v fallback =
     (if v = JUndefined then Some fallback
      else if is_integer v \<and> num_of v > 0 then Some (nat \<lfloor>num_of v\<rfloor>)
      else None)"

definition normalizeTimeout :: "jsval \<Rightarrow> rat option" where
  "normalizeTimeout v =
     (case v of
        JUndefined \<Rightarrow> Some 100
      | JNum r \<Rightarrow> if r > 0 then Some r else None
      | _ \<Rightarrow> None)"

definition normalizeLimits :: "eval_options \<Rightarrow> eval_limits option" where
  "normalizeLimits opts =
     (case (normalizePositiveInteger (eo_maxOperations opts) 100000,
            normalizePositiveInteger (eo_maxRounds opts) 64,
            normalizePositiveInteger (eo_maxDerivedFacts opts) 10000,
            normalizeTimeout (eo_timeoutMs opts)) of
        (Some ops, Some rs, Some facts, Some t) \<Rightarrow>
          Some \<lparr>li_maxOperations = ops, li_maxRounds = rs, li_maxDerivedFacts = facts, li_timeoutMs = t\<rparr>
      | _ \<Rightarrow> None)"

section \<open>Rules and facts\<close>

definition factKey :: "js_env \<Rightarrow> rule_atom \<Rightarrow> string" where
  "factKey env f =
     the (stringify env (JArr (JStr (ra_predicate f) # map (\<lambda>t. JStr (term_value t)) (ra_args f))))"

definition key_compare :: "js_env \<Rightarrow> string \<times> 'a \<Rightarrow> string \<times> 'a \<Rightarrow> int" where
  "key_compare env p q = locale_compare env (fst p) (fst q)"

definition eval_term :: "jsval \<Rightarrow> unify_error + rule_term" where
  "eval_term t =
     (if jget t ''kind'' \<noteq> JStr ''constant'' then Inl Type_error
      else of_rule (constant_term (jget t ''value'')))"

definition eval_ground_fact :: "jsval \<Rightarrow> unify_error + rule_atom" where
  "eval_ground_fact v =
     (case (v, jget v ''args'') of
        (JObj _, JArr xs) \<Rightarrow>
          bind_result (map_result eval_term xs) (\<lambda>ts.
            of_rule (rule_atom_of (jget v ''predicate'') (JArr (map term_json ts))))
      | _ \<Rightarrow> Inl Type_error)"

definition rule_text :: "js_env \<Rightarrow> rule \<Rightarrow> string" where
  "rule_text env r = the (stringify env (rule_json r))"

definition rule_compare :: "js_env \<Rightarrow> rule \<Rightarrow> rule \<Rightarrow> int" where
  "rule_compare env r q =
     (let byId = locale_compare env (ru_id r) (ru_id q) in
      if byId \<noteq> 0 then byId else locale_compare env (rule_text env r) (rule_text env q))"

definition normalizeRules :: "js_env \<Rightarrow> jsval \<Rightarrow> unify_error + rule list" where
  "normalizeRules env v =
     (case v of
        JArr xs \<Rightarrow>
          bind_result (map_result (\<lambda>x. of_rule (bind_result (serializeRule env x) (\<lambda>s. parseRule env (JStr s)))) xs)
            (\<lambda>rs. Inr (sort_by (rule_compare env) rs))
      | _ \<Rightarrow> Inl Type_error)"

definition by_key :: "js_env \<Rightarrow> rule_atom list \<Rightarrow> (string \<times> rule_atom) list" where
  "by_key env fs = foldl (\<lambda>m f. alist_put (factKey env f) f m) [] fs"

definition normalizeFacts :: "js_env \<Rightarrow> jsval \<Rightarrow> unify_error + rule_atom list" where
  "normalizeFacts env v =
     (case v of
        JArr xs \<Rightarrow>
          bind_result (map_result eval_ground_fact xs) (\<lambda>fs.
            Inr (map snd (sort_by (key_compare env) (by_key env fs))))
      | _ \<Rightarrow> Inl Type_error)"

fun term_names :: "rule_term \<Rightarrow> string list" where
  "term_names (Variable x) = [x]"
| "term_names (Constant c) = []"

text \<open>The first head variable that no body atom has; the code returns an empty text for none.\<close>

definition unsafeHeadVariable :: "rule \<Rightarrow> string option" where
  "unsafeHeadVariable r =
     find (\<lambda>x. x \<notin> set (concat (map (\<lambda>a. concat (map term_names (ra_args a))) (ru_body r))))
       (concat (map term_names (ra_args (ru_head r))))"

type_synonym fact_index = "(string \<times> rule_atom list) list"

definition index_get :: "fact_index \<Rightarrow> string \<Rightarrow> rule_atom list" where
  "index_get ix p = (case map_of ix p of None \<Rightarrow> [] | Some fs \<Rightarrow> fs)"

definition sort_facts :: "js_env \<Rightarrow> rule_atom list \<Rightarrow> rule_atom list" where
  "sort_facts env fs = sort_by (\<lambda>f g. locale_compare env (factKey env f) (factKey env g)) fs"

definition addFactToPredicateIndex :: "js_env \<Rightarrow> fact_index \<Rightarrow> rule_atom \<Rightarrow> fact_index" where
  "addFactToPredicateIndex env ix f =
     alist_put (ra_predicate f) (sort_facts env (index_get ix (ra_predicate f) @ [f])) ix"

definition buildPredicateIndex :: "js_env \<Rightarrow> rule_atom list \<Rightarrow> fact_index" where
  "buildPredicateIndex env fs =
     map (apsnd (sort_facts env))
       (foldl (\<lambda>ix f. alist_put (ra_predicate f) (index_get ix (ra_predicate f) @ [f]) ix) [] fs)"

text \<open>\<open>new Map(entries)\<close>: a later entry replaces an earlier one.\<close>

definition bindingsMap :: "bindings \<Rightarrow> string \<Rightarrow> string option" where
  "bindingsMap b = map_of (rev b)"

fun instantiate_term :: "bindings \<Rightarrow> rule_term \<Rightarrow> rule_error + rule_term option" where
  "instantiate_term b (Constant c) = Inr (Some (Constant c))"
| "instantiate_term b (Variable x) =
     (case bindingsMap b x of
        None \<Rightarrow> Inr None
      | Some c \<Rightarrow> bind_result (constant_term (JStr c)) (\<lambda>t. Inr (Some t)))"

definition instantiateAtom :: "rule_atom \<Rightarrow> bindings \<Rightarrow> rule_error + rule_atom option" where
  "instantiateAtom a b =
     bind_result (map_result (instantiate_term b) (ra_args a)) (\<lambda>ts.
       if None \<in> set ts then Inr None
       else bind_result (rule_atom_of (JStr (ra_predicate a)) (JArr (map (\<lambda>t. term_json (the t)) ts)))
         (\<lambda>g. Inr (Some g)))"

definition freezeCandidate :: "js_env \<Rightarrow> raw_candidate \<Rightarrow> nat \<Rightarrow> candidate" where
  "freezeCandidate env c r =
     \<lparr>ca_fact = rc_fact c, ca_ruleId = rc_ruleId c, ca_round = r, ca_bindings = rc_bindings c,
      ca_supports = map snd (sort_by (key_compare env) (by_key env (rc_supports c)))\<rparr>"

section \<open>State and budget\<close>

definition emptyStats :: eval_stats where
  "emptyStats = \<lparr>es_operations = 0, es_matchAttempts = 0, es_driverFactVisits = 0,
     es_duplicateSuppressed = 0, es_constraintUnknowns = 0, es_constraintRejections = 0,
     es_deltaFactCounts = [], es_factCountsByRoundStart = []\<rparr>"

definition emptyState :: eval_state where
  "emptyState = \<lparr>ev_round = 0, ev_candidates = [], ev_stats = emptyStats, ev_readings = 0\<rparr>"

definition createContext ::
  "js_env \<Rightarrow> eval_limits \<Rightarrow> (nat \<Rightarrow> rat) \<Rightarrow> evaluator option \<Rightarrow> eval_context" where
  "createContext env limits now ev =
     \<lparr>cx_env = env, cx_limits = limits, cx_now = now, cx_startedAt = now 0, cx_evaluator = ev\<rparr>"

definition createState :: eval_state where
  "createState = emptyState\<lparr>ev_readings := 1\<rparr>"

definition buildResult ::
  "js_env \<Rightarrow> eval_state \<Rightarrow> evaluation_status \<Rightarrow> evaluation_stop \<Rightarrow> (string \<times> string) option \<Rightarrow> evaluation" where
  "buildResult env st status reason unsafe =
     \<lparr>er_status = status, er_stoppedReason = reason, er_rounds = ev_round st,
      er_derivedCandidates =
        sort_by (\<lambda>c d. locale_compare env (factKey env (ca_fact c)) (factKey env (ca_fact d)))
          (map snd (ev_candidates st)),
      er_stats = ev_stats st, er_unsafe = unsafe\<rparr>"

definition on_stats :: "(eval_stats \<Rightarrow> eval_stats) \<Rightarrow> eval_state \<Rightarrow> eval_state" where
  "on_stats f st = st\<lparr>ev_stats := f (ev_stats st)\<rparr>"

definition checkBudget :: "eval_context \<Rightarrow> eval_state \<Rightarrow> evaluation_stop option \<times> eval_state" where
  "checkBudget cx st =
     (if es_operations (ev_stats st) \<ge> li_maxOperations (cx_limits cx) then (Some Max_operations, st)
      else (if cx_now cx (ev_readings st) - cx_startedAt cx > li_timeoutMs (cx_limits cx)
            then Some Timeout else None,
            st\<lparr>ev_readings := ev_readings st + 1\<rparr>))"

definition noteOperation :: "eval_context \<Rightarrow> eval_state \<Rightarrow> evaluation_stop option \<times> eval_state" where
  "noteOperation cx st =
     (case checkBudget cx st of
        (Some reason, st) \<Rightarrow> (Some reason, st)
      | (None, st) \<Rightarrow> (None, on_stats (\<lambda>s. s\<lparr>es_operations := es_operations s + 1\<rparr>) st))"

section \<open>Joins\<close>

datatype early_stop = Stop evaluation_stop | Thrown rule_error

record partial_match =
  pa_bindings :: bindings
  pa_supports :: "rule_atom list"

definition count_unknown :: "eval_state \<Rightarrow> eval_state" where
  "count_unknown = on_stats (\<lambda>s. s\<lparr>es_constraintUnknowns := es_constraintUnknowns s + 1\<rparr>)"

definition count_rejection :: "eval_state \<Rightarrow> eval_state" where
  "count_rejection = on_stats (\<lambda>s. s\<lparr>es_constraintRejections := es_constraintRejections s + 1\<rparr>)"

definition count_attempt :: "eval_state \<Rightarrow> eval_state" where
  "count_attempt = on_stats (\<lambda>s. s\<lparr>es_matchAttempts := es_matchAttempts s + 1\<rparr>)"

definition count_visit :: "eval_state \<Rightarrow> eval_state" where
  "count_visit = on_stats (\<lambda>s. s\<lparr>es_driverFactVisits := es_driverFactVisits s + 1\<rparr>)"

definition count_duplicate :: "eval_state \<Rightarrow> eval_state" where
  "count_duplicate = on_stats (\<lambda>s. s\<lparr>es_duplicateSuppressed := es_duplicateSuppressed s + 1\<rparr>)"

fun allow_constraints ::
  "eval_context \<Rightarrow> evaluator \<Rightarrow> bindings \<Rightarrow> rule_atom list \<Rightarrow> eval_state \<Rightarrow> (early_stop + bool) \<times> eval_state" where
  "allow_constraints cx ev b [] st = (Inr True, st)"
| "allow_constraints cx ev b (c # cs) st =
     (case noteOperation cx st of
        (Some reason, st) \<Rightarrow> (Inl (Stop reason), st)
      | (None, st) \<Rightarrow>
          (case instantiateAtom c b of
             Inl e \<Rightarrow> (Inl (Thrown e), st)
           | Inr None \<Rightarrow> (Inr False, count_unknown st)
           | Inr (Some ground) \<Rightarrow>
               (let verdict = (case ev ground of Inl _ \<Rightarrow> JStr ''unknown'' | Inr v \<Rightarrow> v) in
                if verdict = JBool False then (Inr False, count_rejection st)
                else if verdict \<noteq> JBool True then (Inr False, count_unknown st)
                else allow_constraints cx ev b cs st)))"

definition rule_constraints ::
  "eval_context \<Rightarrow> rule \<Rightarrow> bindings \<Rightarrow> eval_state \<Rightarrow> (early_stop + bool) \<times> eval_state" where
  "rule_constraints cx r b st =
     (if ru_constraints r = [] then (Inr True, st)
      else case cx_evaluator cx of
        None \<Rightarrow> (Inr False, count_unknown st)
      | Some ev \<Rightarrow> allow_constraints cx ev b (ru_constraints r) st)"

fun match_pool ::
  "eval_context \<Rightarrow> rule_atom \<Rightarrow> partial_match \<Rightarrow> rule_atom list \<Rightarrow> partial_match list \<Rightarrow> eval_state
     \<Rightarrow> (early_stop + partial_match list) \<times> eval_state" where
  "match_pool cx pattern p [] nexts st = (Inr nexts, st)"
| "match_pool cx pattern p (f # fs) nexts st =
     (case noteOperation cx st of
        (Some reason, st) \<Rightarrow> (Inl (Stop reason), st)
      | (None, st) \<Rightarrow>
          (let m = unifyAtom (cx_env cx) (atom_json pattern) (atom_json f) (engine_options (pa_bindings p)) in
           match_pool cx pattern p fs
             (if un_status m = Match
              then nexts @ [\<lparr>pa_bindings = un_bindings m, pa_supports = pa_supports p @ [f]\<rparr>]
              else nexts)
             (count_attempt st)))"

fun match_partials ::
  "eval_context \<Rightarrow> rule_atom \<Rightarrow> rule_atom list \<Rightarrow> partial_match list \<Rightarrow> partial_match list \<Rightarrow> eval_state
     \<Rightarrow> (early_stop + partial_match list) \<times> eval_state" where
  "match_partials cx pattern pool [] nexts st = (Inr nexts, st)"
| "match_partials cx pattern pool (p # ps) nexts st =
     (case match_pool cx pattern p pool nexts st of
        (Inl stop, st) \<Rightarrow> (Inl stop, st)
      | (Inr nexts, st) \<Rightarrow> match_partials cx pattern pool ps nexts st)"

fun join_body ::
  "eval_context \<Rightarrow> fact_index \<Rightarrow> nat \<Rightarrow> nat \<Rightarrow> rule_atom list \<Rightarrow> partial_match list \<Rightarrow> eval_state
     \<Rightarrow> (early_stop + partial_match list) \<times> eval_state" where
  "join_body cx allIndex driverIndex bodyIndex [] partials st = (Inr partials, st)"
| "join_body cx allIndex driverIndex bodyIndex (pattern # patterns) partials st =
     (if bodyIndex = driverIndex
      then join_body cx allIndex driverIndex (bodyIndex + 1) patterns partials st
      else case match_partials cx pattern (index_get allIndex (ra_predicate pattern)) partials [] st of
        (Inl stop, st) \<Rightarrow> (Inl stop, st)
      | (Inr nexts, st) \<Rightarrow>
          if nexts = [] then (Inr [], st)
          else join_body cx allIndex driverIndex (bodyIndex + 1) patterns nexts st)"

fun complete_partials ::
  "eval_context \<Rightarrow> rule \<Rightarrow> partial_match list \<Rightarrow> raw_candidate list \<Rightarrow> eval_state
     \<Rightarrow> raw_candidate list \<times> early_stop option \<times> eval_state" where
  "complete_partials cx r [] completed st = (completed, None, st)"
| "complete_partials cx r (p # ps) completed st =
     (case rule_constraints cx r (pa_bindings p) st of
        (Inl stop, st) \<Rightarrow> (completed, Some stop, st)
      | (Inr False, st) \<Rightarrow> complete_partials cx r ps completed st
      | (Inr True, st) \<Rightarrow>
          (case instantiateAtom (ru_head r) (pa_bindings p) of
             Inl e \<Rightarrow> (completed, Some (Thrown e), st)
           | Inr None \<Rightarrow> (completed, Some (Stop Unsafe_rule), st)
           | Inr (Some h) \<Rightarrow>
               complete_partials cx r ps
                 (completed @ [\<lparr>rc_fact = h, rc_ruleId = ru_id r, rc_bindings = pa_bindings p,
                    rc_supports = pa_supports p\<rparr>]) st))"

fun drive ::
  "eval_context \<Rightarrow> fact_index \<Rightarrow> rule \<Rightarrow> nat \<Rightarrow> rule_atom list \<Rightarrow> raw_candidate list \<Rightarrow> eval_state
     \<Rightarrow> raw_candidate list \<times> early_stop option \<times> eval_state" where
  "drive cx allIndex r driverIndex [] completed st = (completed, None, st)"
| "drive cx allIndex r driverIndex (f # fs) completed st =
     (case noteOperation cx (count_visit st) of
        (Some reason, st) \<Rightarrow> (completed, Some (Stop reason), st)
      | (None, st) \<Rightarrow>
          (let st = count_attempt st;
               m = unifyAtom (cx_env cx) (atom_json (ru_body r ! driverIndex)) (atom_json f) no_options in
           if un_status m \<noteq> Match then drive cx allIndex r driverIndex fs completed st
           else case join_body cx allIndex driverIndex 0 (ru_body r)
               [\<lparr>pa_bindings = un_bindings m, pa_supports = [f]\<rparr>] st of
             (Inl stop, st) \<Rightarrow> (completed, Some stop, st)
           | (Inr partials, st) \<Rightarrow>
               (case complete_partials cx r partials completed st of
                  (completed, Some stop, st) \<Rightarrow> (completed, Some stop, st)
                | (completed, None, st) \<Rightarrow> drive cx allIndex r driverIndex fs completed st)))"

definition joinRuleFromDeltaPosition ::
  "eval_context \<Rightarrow> rule \<Rightarrow> nat \<Rightarrow> fact_index \<Rightarrow> fact_index \<Rightarrow> eval_state
     \<Rightarrow> raw_candidate list \<times> early_stop option \<times> eval_state" where
  "joinRuleFromDeltaPosition cx r driverIndex deltaIndex allIndex st =
     drive cx allIndex r driverIndex (index_get deltaIndex (ra_predicate (ru_body r ! driverIndex))) [] st"

section \<open>Rounds\<close>

text \<open>
  The candidates of one join: a fact that is known already, or new in this round already, is counted and
  skipped; \<open>True\<close> says that the limit of derived facts was reached.
\<close>

fun admit ::
  "eval_context \<Rightarrow> (string \<times> rule_atom) list \<Rightarrow> raw_candidate list \<Rightarrow> (string \<times> rule_atom) list \<Rightarrow> eval_state
     \<Rightarrow> (string \<times> rule_atom) list \<times> bool \<times> eval_state" where
  "admit cx allFacts [] fresh st = (fresh, False, st)"
| "admit cx allFacts (c # cs) fresh st =
     (let key = factKey (cx_env cx) (rc_fact c) in
      if map_of allFacts key \<noteq> None \<or> map_of fresh key \<noteq> None
      then admit cx allFacts cs fresh (count_duplicate st)
      else if length (ev_candidates st) \<ge> li_maxDerivedFacts (cx_limits cx) then (fresh, True, st)
      else admit cx allFacts cs (alist_put key (rc_fact c) fresh)
        (st\<lparr>ev_candidates :=
           alist_put key (freezeCandidate (cx_env cx) c (ev_round st)) (ev_candidates st)\<rparr>))"

text \<open>The two nested loops over the rules and their body positions, as one list of jobs.\<close>

definition jobs_of :: "rule list \<Rightarrow> (rule \<times> nat) list" where
  "jobs_of rs = concat (map (\<lambda>r. map (\<lambda>i. (r, i)) [0..<length (ru_body r)]) rs)"

fun run_jobs ::
  "eval_context \<Rightarrow> (string \<times> rule_atom) list \<Rightarrow> fact_index \<Rightarrow> fact_index \<Rightarrow> (rule \<times> nat) list
     \<Rightarrow> (string \<times> rule_atom) list \<Rightarrow> eval_state \<Rightarrow> (early_stop + (string \<times> rule_atom) list) \<times> eval_state" where
  "run_jobs cx allFacts deltaIndex allIndex [] fresh st = (Inr fresh, st)"
| "run_jobs cx allFacts deltaIndex allIndex ((r, i) # jobs) fresh st =
     (case joinRuleFromDeltaPosition cx r i deltaIndex allIndex st of
        (candidates, stop, st) \<Rightarrow>
          (case admit cx allFacts candidates fresh st of
             (fresh, True, st) \<Rightarrow> (Inl (Stop Max_derived_facts), st)
           | (fresh, False, st) \<Rightarrow>
               (case stop of
                  Some reason \<Rightarrow> (Inl reason, st)
                | None \<Rightarrow> run_jobs cx allFacts deltaIndex allIndex jobs fresh st)))"

definition start_round :: "nat \<Rightarrow> nat \<Rightarrow> eval_state \<Rightarrow> eval_state" where
  "start_round newFacts knownFacts st =
     on_stats (\<lambda>s. s\<lparr>es_deltaFactCounts := es_deltaFactCounts s @ [newFacts],
        es_factCountsByRoundStart := es_factCountsByRoundStart s @ [knownFacts]\<rparr>)
       (st\<lparr>ev_round := ev_round st + 1\<rparr>)"

text \<open>A step of a join leaves the round and the candidates as they are.\<close>

definition quiet :: "eval_state \<Rightarrow> eval_state \<Rightarrow> bool" where
  "quiet st st' = (ev_round st' = ev_round st \<and> ev_candidates st' = ev_candidates st)"

lemma quiet_refl [simp]: "quiet st st"
  by (simp add: quiet_def)

lemma quiet_trans [trans]: "quiet st st' \<Longrightarrow> quiet st' st'' \<Longrightarrow> quiet st st''"
  by (simp add: quiet_def)

lemma quiet_on_stats [simp]:
  "quiet st (on_stats f st')  = quiet st st'" "quiet (on_stats f st) st' = quiet st st'"
  by (simp_all add: quiet_def on_stats_def)

lemma quiet_counts [simp]:
  "quiet st (count_unknown st') = quiet st st'" "quiet st (count_rejection st') = quiet st st'"
  "quiet st (count_attempt st') = quiet st st'" "quiet (count_attempt st) st' = quiet st st'"
  "quiet (count_visit st) st' = quiet st st'"
  by (simp_all add: count_unknown_def count_rejection_def count_attempt_def count_visit_def)

lemma noteOperation_quiet: "noteOperation cx st = (x, st') \<Longrightarrow> quiet st st'"
  by (auto simp: noteOperation_def checkBudget_def quiet_def on_stats_def split: if_splits)

lemma allow_constraints_quiet: "allow_constraints cx ev b cs st = (x, st') \<Longrightarrow> quiet st st'"
proof (induction cx ev b cs st rule: allow_constraints.induct)
  case (2 cx ev b c cs st)
  then show ?case
    by (auto simp: Let_def split: prod.splits option.splits sum.splits if_splits
        dest!: noteOperation_quiet intro: quiet_trans)
qed simp

lemma rule_constraints_quiet: "rule_constraints cx r b st = (x, st') \<Longrightarrow> quiet st st'"
  by (auto simp: rule_constraints_def split: if_splits option.splits dest: allow_constraints_quiet)

lemma match_pool_quiet: "match_pool cx pattern p fs nexts st = (x, st') \<Longrightarrow> quiet st st'"
proof (induction cx pattern p fs nexts st rule: match_pool.induct)
  case (2 cx pattern p f fs nexts st)
  then show ?case
    by (auto simp: Let_def split: prod.splits option.splits dest!: noteOperation_quiet intro: quiet_trans)
qed simp

lemma match_partials_quiet: "match_partials cx pattern pool ps nexts st = (x, st') \<Longrightarrow> quiet st st'"
proof (induction cx pattern pool ps nexts st rule: match_partials.induct)
  case (2 cx pattern pool p ps nexts st)
  then show ?case
    by (auto split: prod.splits sum.splits dest!: match_pool_quiet intro: quiet_trans)
qed simp

lemma join_body_quiet: "join_body cx allIndex d i as ps st = (x, st') \<Longrightarrow> quiet st st'"
proof (induction cx allIndex d i as ps st rule: join_body.induct)
  case (2 cx allIndex d i a as ps st)
  then show ?case
    by (auto split: prod.splits sum.splits if_splits dest!: match_partials_quiet intro: quiet_trans)
qed simp

lemma complete_partials_quiet: "complete_partials cx r ps completed st = (x, y, st') \<Longrightarrow> quiet st st'"
proof (induction cx r ps completed st rule: complete_partials.induct)
  case (2 cx r p ps completed st)
  then show ?case
    by (auto split: prod.splits sum.splits option.splits bool.splits dest!: rule_constraints_quiet
        intro: quiet_trans)
qed simp

lemma drive_quiet: "drive cx allIndex r i fs completed st = (x, y, st') \<Longrightarrow> quiet st st'"
proof (induction cx allIndex r i fs completed st rule: drive.induct)
  case (2 cx allIndex r i f fs completed st)
  then show ?case
    by (auto simp: Let_def split: prod.splits sum.splits option.splits if_splits
        dest!: noteOperation_quiet join_body_quiet complete_partials_quiet; meson quiet_trans)
qed simp

lemma join_quiet: "joinRuleFromDeltaPosition cx r i deltaIndex allIndex st = (x, y, st') \<Longrightarrow> quiet st st'"
  unfolding joinRuleFromDeltaPosition_def by (rule drive_quiet)

lemma admit_round: "admit cx allFacts cs fresh st = (x, y, st') \<Longrightarrow> ev_round st' = ev_round st"
  by (induction cx allFacts cs fresh st rule: admit.induct)
    (auto simp: Let_def count_duplicate_def on_stats_def split: if_splits)

lemma run_jobs_round:
  "run_jobs cx allFacts deltaIndex allIndex jobs fresh st = (x, st') \<Longrightarrow> ev_round st' = ev_round st"
proof (induction cx allFacts deltaIndex allIndex jobs fresh st rule: run_jobs.induct)
  case (2 cx allFacts deltaIndex allIndex r i jobs fresh st)
  then show ?case
    by (auto split: prod.splits option.splits bool.splits dest!: join_quiet admit_round simp: quiet_def)
qed simp

lemma checkBudget_round: "checkBudget cx st = (x, st') \<Longrightarrow> quiet st st'"
  by (auto simp: checkBudget_def quiet_def split: if_splits)

text \<open>
  The loop over the rounds; it ends because the rounds are limited.  \<open>Inl\<close> is an exception that leaves the
  evaluation.
\<close>

function eval_rounds ::
  "eval_context \<Rightarrow> rule list \<Rightarrow> (string \<times> rule_atom) list \<Rightarrow> fact_index \<Rightarrow> rule_atom list \<Rightarrow> eval_state
     \<Rightarrow> rule_error + evaluation" where
  "eval_rounds cx rules allFacts allIndex delta st =
     (if delta = [] then Inr (buildResult (cx_env cx) st Evaluation_complete Fixpoint None)
      else if ev_round st \<ge> li_maxRounds (cx_limits cx)
      then Inr (buildResult (cx_env cx) st Evaluation_stopped Max_rounds None)
      else case checkBudget cx st of
        (Some reason, st) \<Rightarrow> Inr (buildResult (cx_env cx) st Evaluation_stopped reason None)
      | (None, st) \<Rightarrow>
          (case run_jobs cx allFacts (buildPredicateIndex (cx_env cx) delta) allIndex (jobs_of rules) []
              (start_round (length delta) (length allFacts) st) of
             (Inl (Thrown e), st) \<Rightarrow> Inl e
           | (Inl (Stop reason), st) \<Rightarrow>
               Inr (buildResult (cx_env cx) st
                 (if reason = Unsafe_rule then Evaluation_invalid else Evaluation_stopped) reason None)
           | (Inr fresh, st) \<Rightarrow>
               if fresh = [] then Inr (buildResult (cx_env cx) st Evaluation_complete Fixpoint None)
               else
                 (let delta = map snd (sort_by (key_compare (cx_env cx)) fresh) in
                  eval_rounds cx rules
                    (foldl (\<lambda>m f. alist_put (factKey (cx_env cx) f) f m) allFacts delta)
                    (foldl (addFactToPredicateIndex (cx_env cx)) allIndex delta)
                    delta st)))"
  by auto
termination
  by (relation "measure (\<lambda>(cx, rules, allFacts, allIndex, delta, st). li_maxRounds (cx_limits cx) - ev_round st)")
    (auto dest!: checkBudget_round [OF sym] run_jobs_round [OF sym] simp: quiet_def start_round_def on_stats_def)

declare eval_rounds.simps [simp del]

definition evaluateSemiNaive ::
  "js_env \<Rightarrow> jsval \<Rightarrow> jsval \<Rightarrow> eval_options \<Rightarrow> (nat \<Rightarrow> rat) \<Rightarrow> rule_error + evaluation" where
  "evaluateSemiNaive env rulesInput factsInput opts now =
     (case normalizeLimits opts of
        None \<Rightarrow> Inr (buildResult env emptyState Evaluation_invalid Invalid_input None)
      | Some limits \<Rightarrow>
          (case bind_result (normalizeRules env rulesInput) (\<lambda>rules.
              bind_result (normalizeFacts env factsInput) (\<lambda>facts. Inr (rules, facts))) of
             Inl _ \<Rightarrow> Inr (buildResult env emptyState Evaluation_invalid Invalid_input None)
           | Inr (rules, facts) \<Rightarrow>
               (case find (\<lambda>r. unsafeHeadVariable r \<noteq> None) rules of
                  Some r \<Rightarrow>
                    Inr (buildResult env emptyState Evaluation_invalid Unsafe_rule
                      (Some (ru_id r, the (unsafeHeadVariable r))))
                | None \<Rightarrow>
                    eval_rounds (createContext env limits now (eo_constraintEvaluator opts)) rules
                      (by_key env facts) (buildPredicateIndex env facts) facts createState)))"

end
