(* ===== verification/Backward.thy ===== *)
theory Backward
  imports Semi_Naive
begin

text \<open>
  The proof search for one ground atom (\<open>src/lib/inference-backward.js\<close>, \<open>inference-backward-values.js\<close>): facts
  first, then the rules whose head has the goal's predicate, with fresh variables for every use of a rule.

  The three functions of the code call each other with a growing depth and stop beyond \<open>maxDepth\<close>.  Here
  \<open>enumerateGoal\<close> recurses over the levels that are left, \<open>maxDepth + 1\<close> at the start; \<open>solveSequence\<close> and
  \<open>ruleBranch\<close> take the enumeration of the next level as an argument.  The stack of open goals, which the
  code copies for every extension, is a list of their keys.  \<open>Inl\<close> of an outer result is an exception that
  leaves the search; a failure that the search goes on with is a pair of status and reason.
\<close>

section \<open>Results and limits\<close>

datatype backward_status = Proven | Not_proven | Unknown_proof | Stopped_proof | Invalid_proof

datatype backward_reason =
    By_fact | By_rule | No_proof | Cycle | Non_ground_rule_goal | Constraint_unknown | Constraint_rejected
  | Proof_max_operations | Max_depth | Proof_timeout | Proof_invalid_input

datatype proof_trace =
    Fact_proof rule_atom
  | Rule_proof (pt_rule: string) (pt_goal: rule_atom) (pt_bindings: bindings) (pt_premises: "proof_trace list")

record backward_options =
  bo_maxOperations :: jsval
  bo_maxDepth :: jsval
  bo_timeoutMs :: jsval
  bo_constraintEvaluator :: "evaluator option"

record backward_limits =
  bl_maxOperations :: nat
  bl_maxDepth :: nat
  bl_timeoutMs :: rat

record backward_state =
  bs_operations :: nat
  bs_scopeCounter :: nat
  bs_readings :: nat

record backward_context =
  bc_env :: js_env
  bc_limits :: backward_limits
  bc_now :: "nat \<Rightarrow> rat"
  bc_startedAt :: rat
  bc_evaluator :: "evaluator option"
  bc_rules :: "rule list"
  bc_factIndex :: fact_index

record backward_result =
  br_status :: backward_status
  br_reason :: backward_reason
  br_operations :: nat
  br_proof :: "proof_trace option"

type_synonym proof_failure = "backward_status \<times> backward_reason"

type_synonym proof_branch = "bindings \<times> proof_trace"

type_synonym proof_solution = "bindings \<times> proof_trace list"

section \<open>Values\<close>

definition key_term :: "rule_term \<Rightarrow> jsval" where
  "key_term t =
     (case t of
        Constant c \<Rightarrow> JArr [JStr ''c'', JStr c]
      | Variable x \<Rightarrow> JArr [JStr ''v'', JStr x])"

definition atomKey :: "js_env \<Rightarrow> rule_atom \<Rightarrow> string" where
  "atomKey env a = the (stringify env (JArr (JStr (ra_predicate a) # map key_term (ra_args a))))"

definition ground_term :: "jsval \<Rightarrow> unify_error + rule_term" where
  "ground_term t =
     (if jget t ''kind'' \<noteq> JStr ''constant'' then Inl Type_error
      else of_rule (constant_term (jget t ''value'')))"

definition groundFact :: "jsval \<Rightarrow> unify_error + rule_atom" where
  "groundFact v =
     (case (v, jget v ''args'') of
        (JObj _, JArr xs) \<Rightarrow>
          bind_result (map_result ground_term xs) (\<lambda>ts.
            of_rule (rule_atom_of (jget v ''predicate'') (JArr (map term_json ts))))
      | _ \<Rightarrow> Inl Type_error)"

definition backwardFacts :: "js_env \<Rightarrow> jsval \<Rightarrow> unify_error + rule_atom list" where
  "backwardFacts env v =
     (case v of
        JArr xs \<Rightarrow>
          bind_result (map_result groundFact xs) (\<lambda>fs.
            Inr (map snd (sort_by (key_compare env) (foldl (\<lambda>m f. alist_put (atomKey env f) f m) [] fs))))
      | _ \<Rightarrow> Inl Type_error)"

definition backwardRules :: "js_env \<Rightarrow> jsval \<Rightarrow> unify_error + rule list" where
  "backwardRules env v =
     (case v of
        JArr xs \<Rightarrow>
          bind_result (map_result (\<lambda>x. of_rule (bind_result (serializeRule env x) (\<lambda>s. parseRule env (JStr s)))) xs)
            (\<lambda>rs. Inr (sort_by (rule_compare env) rs))
      | _ \<Rightarrow> Inl Type_error)"

definition normalizeGroundQuery :: "jsval \<Rightarrow> unify_error + rule_atom" where
  "normalizeGroundQuery v = groundFact v"

definition buildFactIndex :: "js_env \<Rightarrow> rule_atom list \<Rightarrow> fact_index" where
  "buildFactIndex env fs =
     map (apsnd (sort_by (\<lambda>f g. locale_compare env (atomKey env f) (atomKey env g))))
       (foldl (\<lambda>ix f. alist_put (ra_predicate f) (index_get ix (ra_predicate f) @ [f]) ix) [] fs)"

definition apply_term :: "bindings \<Rightarrow> rule_term \<Rightarrow> rule_error + rule_term" where
  "apply_term b t =
     (case t of
        Constant c \<Rightarrow> Inr (Constant c)
      | Variable x \<Rightarrow>
          (case bindingsMap b x of Some c \<Rightarrow> constant_term (JStr c) | None \<Rightarrow> variable_term (JStr x)))"

definition applyBindings :: "rule_atom \<Rightarrow> bindings \<Rightarrow> rule_error + rule_atom" where
  "applyBindings a b =
     bind_result (map_result (apply_term b) (ra_args a)) (\<lambda>ts.
       rule_atom_of (JStr (ra_predicate a)) (JArr (map term_json ts)))"

definition isGround :: "rule_atom \<Rightarrow> bool" where
  "isGround a = list_all is_constant (ra_args a)"

text \<open>
  \<open>names\<close> maps the variables of a rule to fresh ones, in the order of their first use; its length is the
  counter \<open>next\<close>, and its converse the map \<open>reverse\<close>.
\<close>

type_synonym renaming = "(string \<times> string) list"

definition fresh_name :: "nat \<Rightarrow> nat \<Rightarrow> string" where
  "fresh_name scopeId i = ''V'' @ show_nat scopeId @ ''_'' @ show_nat i"

fun fresh_term :: "nat \<Rightarrow> renaming \<Rightarrow> rule_term \<Rightarrow> rule_error + rule_term \<times> renaming" where
  "fresh_term scopeId names (Constant c) = Inr (Constant c, names)"
| "fresh_term scopeId names (Variable x) =
     (let names = (case map_of names x of
          None \<Rightarrow> names @ [(x, fresh_name scopeId (length names))] | Some _ \<Rightarrow> names) in
      bind_result (variable_term (JStr (the (map_of names x)))) (\<lambda>t. Inr (t, names)))"

fun fresh_list :: "(renaming \<Rightarrow> 'a \<Rightarrow> rule_error + 'a \<times> renaming) \<Rightarrow> renaming \<Rightarrow> 'a list \<Rightarrow> rule_error + 'a list \<times> renaming" where
  "fresh_list f names [] = Inr ([], names)"
| "fresh_list f names (x # xs) =
     bind_result (f names x) (\<lambda>(y, names).
     bind_result (fresh_list f names xs) (\<lambda>(ys, names). Inr (y # ys, names)))"

definition fresh_atom :: "nat \<Rightarrow> renaming \<Rightarrow> rule_atom \<Rightarrow> rule_error + rule_atom \<times> renaming" where
  "fresh_atom scopeId names a =
     bind_result (fresh_list (fresh_term scopeId) names (ra_args a)) (\<lambda>(ts, names).
     bind_result (rule_atom_of (JStr (ra_predicate a)) (JArr (map term_json ts))) (\<lambda>b. Inr (b, names)))"

definition freshenRule :: "js_env \<Rightarrow> rule \<Rightarrow> nat \<Rightarrow> rule_error + rule \<times> renaming" where
  "freshenRule env r scopeId =
     bind_result (fresh_atom scopeId [] (ru_head r)) (\<lambda>(h, names).
     bind_result (fresh_list (fresh_atom scopeId) names (ru_body r)) (\<lambda>(body, names).
     bind_result (fresh_list (fresh_atom scopeId) names (ru_constraints r)) (\<lambda>(cs, names).
     bind_result (createRule env (JObj [(''id'', JStr (ru_id r)), (''head'', atom_json h),
         (''body'', JArr (map atom_json body)), (''constraints'', JArr (map atom_json cs))])) (\<lambda>q.
     Inr (q, map (\<lambda>(x, y). (y, x)) names)))))"

definition originalRuleBindings :: "js_env \<Rightarrow> bindings \<Rightarrow> renaming \<Rightarrow> bindings" where
  "originalRuleBindings env b reverse =
     sort_by (\<lambda>p q. locale_compare env (fst p) (fst q))
       (List.map_filter (\<lambda>(x, c). map_option (\<lambda>y. (y, c)) (map_of reverse x)) b)"

definition backward_limit :: "jsval \<Rightarrow> nat \<Rightarrow> nat \<Rightarrow> nat option" where
  "backward_limit v fallback least =
     (if v = JUndefined then Some fallback
      else if is_integer v \<and> num_of v \<ge> of_nat least then Some (nat \<lfloor>num_of v\<rfloor>)
      else None)"

definition backwardLimits :: "backward_options \<Rightarrow> backward_limits option" where
  "backwardLimits opts =
     (case (backward_limit (bo_maxOperations opts) 50000 1, backward_limit (bo_maxDepth opts) 32 0,
            normalizeTimeout (bo_timeoutMs opts)) of
        (Some ops, Some depth, Some t) \<Rightarrow>
          Some \<lparr>bl_maxOperations = ops, bl_maxDepth = depth, bl_timeoutMs = t\<rparr>
      | _ \<Rightarrow> None)"

definition backwardBudget :: "backward_context \<Rightarrow> backward_state \<Rightarrow> backward_reason option \<times> backward_state" where
  "backwardBudget cx st =
     (if bs_operations st \<ge> bl_maxOperations (bc_limits cx) then (Some Proof_max_operations, st)
      else (if bc_now cx (bs_readings st) - bc_startedAt cx > bl_timeoutMs (bc_limits cx)
            then Some Proof_timeout else None,
            st\<lparr>bs_readings := bs_readings st + 1\<rparr>))"

definition backwardOperation :: "backward_context \<Rightarrow> backward_state \<Rightarrow> backward_reason option \<times> backward_state" where
  "backwardOperation cx st =
     (case backwardBudget cx st of
        (Some reason, st) \<Rightarrow> (Some reason, st)
      | (None, st) \<Rightarrow> (None, st\<lparr>bs_operations := bs_operations st + 1\<rparr>))"

fun failureRank :: "backward_status \<Rightarrow> nat" where
  "failureRank Stopped_proof = 3"
| "failureRank Unknown_proof = 2"
| "failureRank Not_proven = 1"
| "failureRank _ = 0"

definition strongestFailure :: "proof_failure list \<Rightarrow> proof_failure" where
  "strongestFailure items =
     foldl (\<lambda>best item. if failureRank (fst item) > failureRank (fst best) then item else best)
       (Not_proven, No_proof) items"

section \<open>Constraints\<close>

fun check_constraints ::
  "backward_context \<Rightarrow> evaluator \<Rightarrow> bindings \<Rightarrow> rule_atom list \<Rightarrow> backward_state
     \<Rightarrow> rule_error + proof_failure option \<times> backward_state" where
  "check_constraints cx ev b [] st = Inr (None, st)"
| "check_constraints cx ev b (c # cs) st =
     (case backwardOperation cx st of
        (Some reason, st) \<Rightarrow> Inr (Some (Stopped_proof, reason), st)
      | (None, st) \<Rightarrow>
          bind_result (applyBindings c b) (\<lambda>ground.
            if \<not> isGround ground then Inr (Some (Unknown_proof, Constraint_unknown), st)
            else
              (let verdict = (case ev ground of Inl _ \<Rightarrow> JStr ''unknown'' | Inr v \<Rightarrow> v) in
               if verdict = JBool False then Inr (Some (Not_proven, Constraint_rejected), st)
               else if verdict \<noteq> JBool True then Inr (Some (Unknown_proof, Constraint_unknown), st)
               else check_constraints cx ev b cs st)))"

definition evaluateConstraintSet ::
  "backward_context \<Rightarrow> rule \<Rightarrow> bindings \<Rightarrow> backward_state \<Rightarrow> rule_error + proof_failure option \<times> backward_state" where
  "evaluateConstraintSet cx r b st =
     (if ru_constraints r = [] then Inr (None, st)
      else case bc_evaluator cx of
        None \<Rightarrow> Inr (Some (Unknown_proof, Constraint_unknown), st)
      | Some ev \<Rightarrow> check_constraints cx ev b (ru_constraints r) st)"

section \<open>The search\<close>

type_synonym enumeration =
  "rule_atom \<Rightarrow> bindings \<Rightarrow> backward_state \<Rightarrow> rule_error + (proof_branch list \<times> proof_failure list) \<times> backward_state"

text \<open>The loop over the branches of a goal; \<open>next\<close> solves the rest of the sequence.\<close>

fun try_branches ::
  "(proof_branch \<Rightarrow> backward_state \<Rightarrow> rule_error + (proof_failure + proof_solution) \<times> backward_state)
     \<Rightarrow> proof_branch list \<Rightarrow> proof_failure list \<Rightarrow> backward_state
     \<Rightarrow> rule_error + (proof_failure + proof_solution) \<times> backward_state" where
  "try_branches solve [] failures st = Inr (Inl (strongestFailure failures), st)"
| "try_branches solve (branch # branches) failures st =
     bind_result (solve branch st) (\<lambda>(x, st).
       case x of
         Inr solution \<Rightarrow> Inr (Inr solution, st)
       | Inl f \<Rightarrow>
           if fst f = Stopped_proof then Inr (Inl (strongestFailure (failures @ [f])), st)
           else try_branches solve branches (failures @ [f]) st)"

primrec solveSequence ::
  "enumeration \<Rightarrow> rule_atom list \<Rightarrow> bindings \<Rightarrow> proof_trace list \<Rightarrow> backward_state
     \<Rightarrow> rule_error + (proof_failure + proof_solution) \<times> backward_state" where
  "solveSequence enum [] = (\<lambda>b traces st. Inr (Inr (b, traces), st))"
| "solveSequence enum (goal # goals) = (\<lambda>b traces st.
     bind_result (enum goal b st) (\<lambda>((branches, failures), st).
       try_branches (\<lambda>(b, trace). solveSequence enum goals b (traces @ [trace])) branches failures st))"

definition ruleBranch ::
  "backward_context \<Rightarrow> enumeration \<Rightarrow> rule \<Rightarrow> rule_atom \<Rightarrow> bindings \<Rightarrow> backward_state
     \<Rightarrow> rule_error + (proof_failure + proof_branch) \<times> backward_state" where
  "ruleBranch cx enum r groundGoal outerBindings st =
     (let scopeId = bs_scopeCounter st; st = st\<lparr>bs_scopeCounter := bs_scopeCounter st + 1\<rparr> in
      bind_result (freshenRule (bc_env cx) r scopeId) (\<lambda>(fresh, reverse).
        case backwardOperation cx st of
          (Some reason, st) \<Rightarrow> Inr (Inl (Stopped_proof, reason), st)
        | (None, st) \<Rightarrow>
            (let m = unifyAtom (bc_env cx) (atom_json (ru_head fresh)) (atom_json groundGoal) no_options in
             if un_status m \<noteq> Match then Inr (Inl (Not_proven, No_proof), st)
             else bind_result (solveSequence enum (ru_body fresh) (un_bindings m) [] st) (\<lambda>(body, st).
               case body of
                 Inl f \<Rightarrow> Inr (Inl f, st)
               | Inr (b, premises) \<Rightarrow>
                   bind_result (evaluateConstraintSet cx fresh b st) (\<lambda>(failed, st).
                     case failed of
                       Some f \<Rightarrow> Inr (Inl f, st)
                     | None \<Rightarrow>
                         Inr (Inr (outerBindings,
                           Rule_proof (ru_id r) groundGoal (originalRuleBindings (bc_env cx) b reverse) premises), st))))))"

text \<open>The facts of the goal's predicate; the second component is the reason of an early end.\<close>

fun match_facts ::
  "backward_context \<Rightarrow> rule_atom \<Rightarrow> bindings \<Rightarrow> rule_atom list \<Rightarrow> proof_branch list \<Rightarrow> backward_state
     \<Rightarrow> proof_branch list \<times> backward_reason option \<times> backward_state" where
  "match_facts cx goal b [] branches st = (branches, None, st)"
| "match_facts cx goal b (f # fs) branches st =
     (case backwardOperation cx st of
        (Some reason, st) \<Rightarrow> (branches, Some reason, st)
      | (None, st) \<Rightarrow>
          (let m = unifyAtom (bc_env cx) (atom_json goal) (atom_json f) (engine_options b) in
           match_facts cx goal b fs
             (if un_status m = Match then branches @ [(un_bindings m, Fact_proof f)] else branches) st))"

fun try_rules ::
  "(rule \<Rightarrow> backward_state \<Rightarrow> rule_error + (proof_failure + proof_branch) \<times> backward_state)
     \<Rightarrow> string \<Rightarrow> rule list \<Rightarrow> proof_branch list \<Rightarrow> proof_failure list \<Rightarrow> backward_state
     \<Rightarrow> rule_error + (proof_branch list \<times> proof_failure list) \<times> backward_state" where
  "try_rules use predicate [] branches failures st = Inr ((branches, failures), st)"
| "try_rules use predicate (r # rs) branches failures st =
     (if ra_predicate (ru_head r) \<noteq> predicate then try_rules use predicate rs branches failures st
      else bind_result (use r st) (\<lambda>(x, st).
        case x of
          Inr branch \<Rightarrow> try_rules use predicate rs (branches @ [branch]) failures st
        | Inl f \<Rightarrow>
            if fst f = Stopped_proof then Inr ((branches, failures @ [f]), st)
            else try_rules use predicate rs branches (failures @ [f]) st))"

primrec enumerateGoal :: "backward_context \<Rightarrow> nat \<Rightarrow> string list \<Rightarrow> enumeration" where
  "enumerateGoal cx 0 = (\<lambda>stack goalInput b st. Inr (([], [(Stopped_proof, Max_depth)]), st))"
| "enumerateGoal cx (Suc levels) = (\<lambda>stack goalInput b st.
     case backwardBudget cx st of
       (Some reason, st) \<Rightarrow> Inr (([], [(Stopped_proof, reason)]), st)
     | (None, st) \<Rightarrow>
         bind_result (applyBindings goalInput b) (\<lambda>goal.
           case match_facts cx goal b (index_get (bc_factIndex cx) (ra_predicate goal)) [] st of
             (branches, Some reason, st) \<Rightarrow> Inr ((branches, [(Stopped_proof, reason)]), st)
           | (branches, None, st) \<Rightarrow>
               if branches \<noteq> [] then Inr ((branches, []), st)
               else if \<not> isGround goal
               then Inr (([], [if list_ex (\<lambda>r. ra_predicate (ru_head r) = ra_predicate goal) (bc_rules cx)
                               then (Unknown_proof, Non_ground_rule_goal) else (Not_proven, No_proof)]), st)
               else let key = atomKey (bc_env cx) goal in
                 if key \<in> set stack then Inr (([], [(Unknown_proof, Cycle)]), st)
                 else bind_result
                   (try_rules (\<lambda>r st. ruleBranch cx (enumerateGoal cx levels (key # stack)) r goal b st)
                     (ra_predicate goal) (bc_rules cx) [] [] st) (\<lambda>((branches, failures), st).
                   Inr ((branches,
                     if branches = [] \<and> failures = [] then [(Not_proven, No_proof)] else failures), st))))"

definition backward_failure :: "nat \<Rightarrow> proof_failure \<Rightarrow> backward_result" where
  "backward_failure operations f =
     \<lparr>br_status = fst f, br_reason = snd f, br_operations = operations, br_proof = None\<rparr>"

fun trace_reason :: "proof_trace \<Rightarrow> backward_reason" where
  "trace_reason (Fact_proof f) = By_fact"
| "trace_reason (Rule_proof i g b ps) = By_rule"

definition proveBackward ::
  "js_env \<Rightarrow> jsval \<Rightarrow> jsval \<Rightarrow> jsval \<Rightarrow> backward_options \<Rightarrow> (nat \<Rightarrow> rat) \<Rightarrow> rule_error + backward_result" where
  "proveBackward env queryInput rulesInput factsInput opts now =
     (case backwardLimits opts of
        None \<Rightarrow> Inr (backward_failure 0 (Invalid_proof, Proof_invalid_input))
      | Some limits \<Rightarrow>
          (case bind_result (normalizeGroundQuery queryInput) (\<lambda>query.
              bind_result (backwardRules env rulesInput) (\<lambda>rules.
              bind_result (backwardFacts env factsInput) (\<lambda>facts. Inr (query, rules, facts)))) of
             Inl _ \<Rightarrow> Inr (backward_failure 0 (Invalid_proof, Proof_invalid_input))
           | Inr (query, rules, facts) \<Rightarrow>
               (let cx = \<lparr>bc_env = env, bc_limits = limits, bc_now = now, bc_startedAt = now 0,
                      bc_evaluator = bo_constraintEvaluator opts, bc_rules = rules,
                      bc_factIndex = buildFactIndex env facts\<rparr>;
                    st = \<lparr>bs_operations = 0, bs_scopeCounter = 0, bs_readings = 1\<rparr> in
                bind_result (enumerateGoal cx (bl_maxDepth limits + 1) [] query [] st)
                  (\<lambda>((branches, failures), st). Inr
                     (case branches of
                        (b, trace) # _ \<Rightarrow>
                          \<lparr>br_status = Proven, br_reason = trace_reason trace,
                           br_operations = bs_operations st, br_proof = Some trace\<rparr>
                      | [] \<Rightarrow> backward_failure (bs_operations st) (strongestFailure failures))))))"

end
