(* ===== verification/Rule_Ir_Facts.thy ===== *)
theory Rule_Ir_Facts
  imports Rule_Ir Evaluation Example_Env
begin

text \<open>
  What a checked rule satisfies, and the round trip through its JSON text.
\<close>

section \<open>Well-formed terms, atoms and rules\<close>

definition valid_text :: "nat \<Rightarrow> bool \<Rightarrow> string \<Rightarrow> bool" where
  "valid_text maxLength allowWhitespace s =
     (s \<noteq> [] \<and> trim s \<noteq> [] \<and> length s \<le> maxLength \<and> \<not> list_ex is_control_code_point s
      \<and> (allowWhitespace \<or> \<not> list_ex is_space s))"

fun valid_term :: "rule_term \<Rightarrow> bool" where
  "valid_term (Variable x) = (valid_text 128 False x \<and> VARIABLE_NAME x)"
| "valid_term (Constant c) = valid_text 2048 True c"

definition valid_atom :: "rule_atom \<Rightarrow> bool" where
  "valid_atom a = (valid_text MAX_PREDICATE_LENGTH False (ra_predicate a) \<and> ra_args a \<noteq> []
     \<and> length (ra_args a) \<le> MAX_ARGUMENTS \<and> list_all valid_term (ra_args a))"

definition valid_rule :: "rule \<Rightarrow> bool" where
  "valid_rule r = (valid_text MAX_RULE_ID_LENGTH True (ru_id r) \<and> valid_atom (ru_head r)
     \<and> ru_body r \<noteq> [] \<and> length (ru_body r) \<le> MAX_BODY_ATOMS \<and> list_all valid_atom (ru_body r)
     \<and> length (ru_constraints r) \<le> MAX_CONSTRAINT_ATOMS \<and> list_all valid_atom (ru_constraints r))"

lemma assertText_Inr:
  "assertText v code maxLength ws = Inr s \<longleftrightarrow> v = JStr s \<and> valid_text maxLength ws s"
  by (cases v) (auto simp: valid_text_def)

lemma assertText_valid [simp]:
  "valid_text maxLength ws s \<Longrightarrow> assertText (JStr s) code maxLength ws = Inr s"
  by (simp only: assertText_Inr simp_thms)

declare assertText.simps [simp del]

lemma map_result_valid:
  assumes "map_result f xs = Inr ys" and "\<And>x y. f x = Inr y \<Longrightarrow> P y"
  shows "list_all P ys"
  using map_result_all [OF assms(1), of P] assms(2) by (auto simp: list_all_iff)

lemma map_result_back:
  "(\<And>y. y \<in> set ys \<Longrightarrow> f (g y) = Inr y) \<Longrightarrow> map_result f (map g ys) = Inr ys"
  by (induction ys) auto

lemma normalizeTerm_valid: "normalizeTerm v = Inr t \<Longrightarrow> valid_term t"
  by (auto simp: normalizeTerm_def normalizeVariable_def normalizeConstant_def assertText_Inr
      split: if_splits)

lemma normalizeAtom_valid:
  assumes "normalizeAtom v = Inr a"
  shows "valid_atom a"
proof -
  from assms obtain p xs ts where "assertText (jget v ''predicate'') Predicate_invalid MAX_PREDICATE_LENGTH False = Inr p"
    and xs: "xs \<noteq> []" "length xs \<le> MAX_ARGUMENTS" "map_result normalizeTerm xs = Inr ts"
    and a: "a = \<lparr>ra_predicate = p, ra_args = ts\<rparr>"
    by (cases "jget v ''args''")
      (auto simp: normalizeAtom_def bind_result_eq_Inr not_less split: if_splits)
  with map_result_valid [OF xs(3) normalizeTerm_valid] map_result_length [OF xs(3)] show ?thesis
    by (auto simp: valid_atom_def assertText_Inr)
qed

lemma normalizeAtomList_valid:
  assumes "normalizeAtomList v required n code = Inr as"
  shows "list_all valid_atom as \<and> length as \<le> n \<and> (required \<longrightarrow> as \<noteq> [])"
proof -
  from assms obtain xs where xs: "\<not> (required \<and> xs = [])" "length xs \<le> n" "map_result normalizeAtom xs = Inr as"
    by (cases v) (auto simp: normalizeAtomList_def not_less split: if_splits)
  with map_result_valid [OF xs(3) normalizeAtom_valid] map_result_length [OF xs(3)] show ?thesis by auto
qed

lemma rule_fields_valid: "rule_fields env v = Inr r \<Longrightarrow> valid_rule r"
  by (auto simp: rule_fields_def bind_result_eq_Inr valid_rule_def assertText_Inr
      dest!: normalizeAtom_valid normalizeAtomList_valid)

lemma normalizeRule_valid: "normalizeRule env v required = Inr r \<Longrightarrow> valid_rule r"
  by (rule rule_fields_valid [of env v]) (simp add: normalizeRule_def split: if_splits)

section \<open>A checked object is checked again without change\<close>

lemma term_json_simps [simp]:
  "isPlainObject (term_json t)"
  "jget (term_json (Variable x)) ''kind'' = JStr ''variable''"
  "jget (term_json (Constant c)) ''kind'' = JStr ''constant''"
  "jget (term_json (Variable x)) ''name'' = JStr x"
  "jget (term_json (Constant c)) ''value'' = JStr c"
  by (cases t) simp_all

lemma normalizeTerm_json: "valid_term t \<Longrightarrow> normalizeTerm (term_json t) = Inr t"
  by (cases t) (simp_all add: normalizeTerm_def normalizeVariable_def normalizeConstant_def)

lemma normalizeAtom_json: "valid_atom a \<Longrightarrow> normalizeAtom (atom_json a) = Inr a"
  by (cases "ra_args a")
    (auto simp: normalizeAtom_def atom_json_def valid_atom_def list_all_iff normalizeTerm_json
      map_result_back)

lemma normalizeAtomList_json:
  "list_all valid_atom as \<Longrightarrow> length as \<le> n \<Longrightarrow> required \<longrightarrow> as \<noteq> [] \<Longrightarrow>
     normalizeAtomList (JArr (map atom_json as)) required n code = Inr as"
  by (auto simp: normalizeAtomList_def list_all_iff normalizeAtom_json map_result_back)

lemma normalizeRule_json:
  assumes "valid_rule r"
  shows "normalizeRule env (rule_json r) required = Inr r"
  using assms
  by (simp add: normalizeRule_def rule_fields_def rule_json_def valid_rule_def normalizeAtom_json
      normalizeAtomList_json)

section \<open>The text of a rule\<close>

lemma own_order_plain:
  "list_all (\<lambda>p. \<not> is_index_key (fst p)) fs \<Longrightarrow> own_order fs = fs"
  by (simp add: own_order_def list_all_iff filter_id_conv filter_empty_conv [THEN iffD2])

lemma not_index_key: "\<not> is_digit (hd k) \<Longrightarrow> \<not> is_index_key k"
  by (cases k) (auto simp: is_index_key_def)

lemma term_json_stable [simp]: "json_stable (term_json t)"
  by (cases t) (simp_all add: own_order_plain not_index_key is_digit_code)

lemma atom_json_stable [simp]: "json_stable (atom_json a)"
  by (simp add: atom_json_def own_order_plain not_index_key is_digit_code list_all_iff)

lemma rule_json_stable [simp]: "json_stable (rule_json r)"
  by (simp add: rule_json_def own_order_plain not_index_key is_digit_code list_all_iff)

lemma serializeRule_Inr:
  "serializeRule env v = Inr s \<longleftrightarrow>
     (\<exists>r. normalizeRule env v True = Inr r \<and> s = the (stringify env (rule_json r)))"
  by (auto simp: serializeRule_def bind_result_eq_Inr)

lemma parseRule_text:
  "valid_rule r \<Longrightarrow> parseRule env (JStr (the (stringify env (rule_json r)))) = Inr r"
  by (simp add: parseRule_def parse_stringify normalizeRule_json)

lemma parse_serialize:
  "bind_result (serializeRule env v) (\<lambda>s. parseRule env (JStr s)) = normalizeRule env v True"
  using normalizeRule_valid parseRule_text
  by (cases "normalizeRule env v True") (auto simp: serializeRule_def)

section \<open>The round trip\<close>

text \<open>
  C40: serializing a rule and parsing the text gives back the rule.  Whatever object \<open>serializeRule\<close>
  accepts, \<open>parseRule\<close> reads its text as the checked rule of that object, which is well formed and
  serializes to the same text again; so the text of a rule is canonical and determines the rule.
\<close>

theorem rule_text_round_trip:
  assumes "serializeRule env v = Inr s"
  shows "\<exists>r. normalizeRule env v True = Inr r \<and> valid_rule r \<and> parseRule env (JStr s) = Inr r
    \<and> serializeRule env (rule_json r) = Inr s
    \<and> (\<forall>w. serializeRule env w = Inr s \<longrightarrow> normalizeRule env w True = Inr r)"
proof -
  from assms obtain r where r: "normalizeRule env v True = Inr r" "s = the (stringify env (rule_json r))"
    by (auto simp: serializeRule_Inr)
  have valid: "valid_rule r" using r(1) by (rule normalizeRule_valid)
  have "r' = r" if w: "normalizeRule env w True = Inr r'" "s = the (stringify env (rule_json r'))" for w r'
  proof -
    have "Inr r' = parseRule env (JStr s)"
      unfolding w(2) by (rule parseRule_text [OF normalizeRule_valid [OF w(1)], symmetric])
    also have "\<dots> = Inr r" unfolding r(2) by (rule parseRule_text [OF valid])
    finally show ?thesis by simp
  qed
  then show ?thesis
    using r valid parseRule_text [OF valid, of env] normalizeRule_json [OF valid, of env]
    by (auto simp: serializeRule_Inr)
qed

definition example_atom :: "string \<Rightarrow> string \<Rightarrow> string \<Rightarrow> rule_atom" where
  "example_atom p x y = \<lparr>ra_predicate = p, ra_args = [Variable x, Variable y]\<rparr>"

definition path_rule :: rule where
  "path_rule = \<lparr>ru_id = ''r 1'', ru_head = example_atom ''path'' ''x'' ''z'',
     ru_body = [example_atom ''edge'' ''x'' ''y'', example_atom ''path'' ''y'' ''z''], ru_constraints = []\<rparr>"

text \<open>The rule as a client may write it, with its keys in another order and no constraints.\<close>

definition example_rule :: jsval where
  "example_rule = JObj [(''id'', JStr ''r 1''), (''schemaVersion'', JStr ''huqan.rule-ir.v1''),
     (''head'', JObj [(''args'', JArr [term_json (Variable ''x''), JObj [(''name'', JStr ''z''), (''kind'', JStr ''variable'')]]),
        (''predicate'', JStr ''path'')]),
     (''body'', JArr [atom_json (example_atom ''edge'' ''x'' ''y''), atom_json (example_atom ''path'' ''y'' ''z'')])]"

lemma example_rule_checked: "normalizeRule example_env example_rule True = Inr path_rule"
  by code_simp

theorem rule_text_round_trip_witness:
  "\<exists>s. serializeRule example_env example_rule = Inr s \<and> parseRule example_env (JStr s) = Inr path_rule"
proof -
  obtain s where s: "serializeRule example_env example_rule = Inr s"
    using example_rule_checked by (auto simp: serializeRule_def)
  from rule_text_round_trip [OF s] s example_rule_checked show ?thesis by auto
qed

end
