(* ===== verification/Unification_Facts.thy ===== *)
theory Unification_Facts
  imports Unification Rule_Ir_Facts
begin

text \<open>
  Matching computes the least extension of the bindings under which the pattern is the fact.  A
  valuation is a partial map from variables to constants; \<open>instance_under\<close> says that an atom becomes a
  fact under it.
\<close>

section \<open>Instances\<close>

type_synonym valuation = "string \<Rightarrow> string option"

fun term_under :: "valuation \<Rightarrow> rule_term \<Rightarrow> string option" where
  "term_under \<sigma> (Constant c) = Some c"
| "term_under \<sigma> (Variable x) = \<sigma> x"

definition instance_under :: "valuation \<Rightarrow> rule_atom \<Rightarrow> rule_atom \<Rightarrow> bool" where
  "instance_under \<sigma> p f =
     (ra_predicate p = ra_predicate f
      \<and> list_all2 (\<lambda>t u. term_under \<sigma> t = Some (term_value u)) (ra_args p) (ra_args f))"

definition ground_atom :: "rule_atom \<Rightarrow> bool" where
  "ground_atom a = list_all is_constant (ra_args a)"

fun term_vars :: "rule_term \<Rightarrow> string set" where
  "term_vars (Variable x) = {x}"
| "term_vars (Constant c) = {}"

definition atom_vars :: "rule_atom \<Rightarrow> string set" where
  "atom_vars a = (\<Union>t\<in>set (ra_args a). term_vars t)"

lemma term_under_mono: "\<sigma> \<subseteq>\<^sub>m \<tau> \<Longrightarrow> term_under \<sigma> t = Some c \<Longrightarrow> term_under \<tau> t = Some c"
  by (cases t) (auto simp: map_le_def dom_def)

lemma term_under_vars: "term_under \<sigma> t = Some c \<Longrightarrow> term_vars t \<subseteq> dom \<sigma>"
  by (cases t) auto

lemma instance_mono: "\<sigma> \<subseteq>\<^sub>m \<tau> \<Longrightarrow> instance_under \<sigma> p f \<Longrightarrow> instance_under \<tau> p f"
  by (auto simp: instance_under_def intro: list_all2_mono dest: term_under_mono)

lemma instance_vars:
  assumes "instance_under \<sigma> p f"
  shows "atom_vars p \<subseteq> dom \<sigma>"
proof -
  have "term_vars t \<subseteq> dom \<sigma>" if "t \<in> set (ra_args p)" for t
  proof -
    from that obtain i where i: "i < length (ra_args p)" "t = ra_args p ! i" by (auto simp: in_set_conv_nth)
    with assms have "term_under \<sigma> t = Some (term_value (ra_args f ! i))"
      by (auto simp: instance_under_def list_all2_conv_all_nth)
    then show ?thesis by (rule term_under_vars)
  qed
  then show ?thesis by (auto simp: atom_vars_def)
qed

lemma term_value_inject: "is_constant t \<Longrightarrow> is_constant u \<Longrightarrow> term_value t = term_value u \<Longrightarrow> t = u"
  by (cases t; cases u) auto

lemma instance_unique:
  assumes "instance_under \<sigma> p f" and "instance_under \<sigma> p g" and "ground_atom f" and "ground_atom g"
  shows "f = g"
proof -
  have len: "length (ra_args f) = length (ra_args g)"
    using assms(1,2) unfolding instance_under_def by (metis list_all2_lengthD)
  have "ra_args f = ra_args g"
  proof (rule nth_equalityI [OF len])
    fix i assume i: "i < length (ra_args f)"
    with assms len have "term_value (ra_args f ! i) = term_value (ra_args g ! i)"
      by (auto simp: instance_under_def list_all2_conv_all_nth)
    then show "ra_args f ! i = ra_args g ! i"
      using assms(3,4) i len by (auto intro: term_value_inject simp: ground_atom_def list_all_length)
  qed
  with assms(1,2) show ?thesis by (auto simp: instance_under_def intro: rule_atom.equality)
qed

section \<open>The inputs the engine passes\<close>

lemma of_rule_simps [simp]: "of_rule (Inl e) = Inl (Rule_error e)" "of_rule (Inr x) = Inr x"
  by (simp_all add: of_rule_def)

lemma of_rule_eq_Inr [simp]: "of_rule r = Inr x \<longleftrightarrow> r = Inr x"
  by (cases r) simp_all

lemma variable_term_valid [simp]:
  "valid_term (Variable x) \<Longrightarrow> variable_term (JStr x) = Inr (Variable x)"
  using normalizeTerm_json [of "Variable x"] by (simp add: normalizeTerm_def variable_term_def)

lemma constant_term_valid [simp]:
  "valid_term (Constant c) \<Longrightarrow> constant_term (JStr c) = Inr (Constant c)"
  using normalizeTerm_json [of "Constant c"] by (simp add: normalizeTerm_def constant_term_def)

lemma unify_term_json: "valid_term t \<Longrightarrow> unify_term (term_json t) = Inr t"
  by (cases t) (simp_all add: unify_term_def del: valid_term.simps)

lemma rule_atom_of_parts:
  "valid_atom a \<Longrightarrow> rule_atom_of (JStr (ra_predicate a)) (JArr (map term_json (ra_args a))) = Inr a"
  using normalizeAtom_json [of a] by (simp add: rule_atom_of_def atom_json_def)

lemma unify_atom_json: "valid_atom a \<Longrightarrow> unify_atom (atom_json a) = Inr a"
  using rule_atom_of_parts [of a]
  by (simp add: unify_atom_def atom_json_def map_result_back unify_term_json valid_atom_def list_all_iff)

lemma unify_ground_fact_json: "valid_atom a \<Longrightarrow> ground_atom a \<Longrightarrow> unify_ground_fact (atom_json a) = Inr a"
  by (simp add: unify_ground_fact_def unify_atom_json ground_atom_def list_ex_iff list_all_iff)

lemma rule_atom_of_valid: "rule_atom_of p args = Inr a \<Longrightarrow> valid_atom a"
  unfolding rule_atom_of_def by (rule normalizeAtom_valid)

lemma unify_atom_valid: "unify_atom v = Inr a \<Longrightarrow> valid_atom a"
  by (auto simp: unify_atom_def split: jsval.splits dest: rule_atom_of_valid)

lemma unify_ground_fact_valid: "unify_ground_fact v = Inr a \<Longrightarrow> valid_atom a \<and> ground_atom a"
  by (auto simp: unify_ground_fact_def ground_atom_def list_ex_iff list_all_iff
      split: if_splits dest: unify_atom_valid)

section \<open>The loop over the arguments\<close>

text \<open>The valuations that extend the bindings and make the arguments of the pattern those of the fact.\<close>

definition solves :: "bindings \<Rightarrow> rule_term list \<Rightarrow> rule_term list \<Rightarrow> valuation \<Rightarrow> bool" where
  "solves b ps fs \<sigma> =
     (map_of b \<subseteq>\<^sub>m \<sigma> \<and> list_all2 (\<lambda>t u. term_under \<sigma> t = Some (term_value u)) ps fs)"

lemma put_le_iff:
  assumes "map_of b x = None"
  shows "map_of (alist_put x c b) \<subseteq>\<^sub>m \<sigma> \<longleftrightarrow> map_of b \<subseteq>\<^sub>m \<sigma> \<and> \<sigma> x = Some c"
proof -
  have "map_of (alist_put x c b) \<subseteq>\<^sub>m \<sigma> \<longleftrightarrow> (\<forall>y d. map_of (alist_put x c b) y = Some d \<longrightarrow> \<sigma> y = Some d)"
    by (auto simp: map_le_def dom_def)
  also have "\<dots> \<longleftrightarrow> (\<forall>y d. map_of b y = Some d \<longrightarrow> \<sigma> y = Some d) \<and> \<sigma> x = Some c"
    using assms by simp (metis option.distinct(1))
  finally show ?thesis by (auto simp: map_le_def dom_def)
qed

lemma map_le_Some: "m \<subseteq>\<^sub>m \<sigma> \<Longrightarrow> m x = Some c \<Longrightarrow> \<sigma> x = Some c"
  by (auto simp: map_le_def dom_def)

lemma solves_Nil [simp]: "solves b [] [] \<sigma> \<longleftrightarrow> map_of b \<subseteq>\<^sub>m \<sigma>"
  by (simp add: solves_def)

lemma solves_Constant [simp]:
  "solves b (Constant c # ps) (f # fs) \<sigma> \<longleftrightarrow> c = term_value f \<and> solves b ps fs \<sigma>"
  by (auto simp: solves_def)

lemma solves_bound:
  "map_of b x = Some c \<Longrightarrow>
     solves b (Variable x # ps) (f # fs) \<sigma> \<longleftrightarrow> c = term_value f \<and> solves b ps fs \<sigma>"
  by (auto simp: solves_def dest: map_le_Some)

lemma solves_free:
  "map_of b x = None \<Longrightarrow>
     solves b (Variable x # ps) (f # fs) \<sigma> \<longleftrightarrow> solves (alist_put x (term_value f) b) ps fs \<sigma>"
  by (auto simp: solves_def put_le_iff simp del: map_of_alist_put)

lemma match_args_Inr:
  "match_args env maxOps ps fs b n = Inr (b', n') \<Longrightarrow> length ps = length fs \<Longrightarrow>
     n' = n + length ps \<and> (ps \<noteq> [] \<longrightarrow> n' \<le> maxOps)
     \<and> dom (map_of b') = dom (map_of b) \<union> (\<Union>t\<in>set ps. term_vars t)
     \<and> (\<forall>\<sigma>. solves b ps fs \<sigma> \<longleftrightarrow> map_of b' \<subseteq>\<^sub>m \<sigma>)"
proof (induction env maxOps ps fs b n arbitrary: b' n' rule: match_args.induct)
  case (1 env maxOps p ps f fs b n)
  from "1.prems" have room: "\<not> maxOps \<le> n" by (auto split: if_splits)
  show ?case
  proof (cases p)
    case (Constant c)
    with "1.prems" room have step: "c = term_value f"
      "match_args env maxOps ps fs b (n + 1) = Inr (b', n')" "length ps = length fs"
      by (auto split: if_splits)
    from "1.IH"(3) [OF room refl refl Constant _ step(2,3)] step(1) room Constant show ?thesis by auto
  next
    case (Variable x)
    show ?thesis
    proof (cases "map_of b x")
      case (Some c)
      with "1.prems" Variable room have step: "c = term_value f"
        "match_args env maxOps ps fs b (n + 1) = Inr (b', n')" "length ps = length fs"
        by (auto split: if_splits)
      from "1.IH"(2) [OF room refl refl Variable Some _ step(2,3)] step(1) room Variable Some
      show ?thesis by (auto simp: solves_bound)
    next
      case None
      with "1.prems" Variable room have step:
        "match_args env maxOps ps fs (alist_put x (term_value f) b) (n + 1) = Inr (b', n')"
        "length ps = length fs" by auto
      from "1.IH"(1) [OF room refl refl Variable None step] room Variable None
      show ?thesis by (auto simp: solves_free)
    qed
  qed
qed auto

lemma match_args_Inl:
  "match_args env maxOps ps fs b n = Inl u \<Longrightarrow> length ps = length fs \<Longrightarrow>
     un_operations u \<le> max n maxOps
     \<and> (un_status u = Stopped \<and> un_operations u \<ge> maxOps \<and> maxOps < n + length ps
        \<or> un_status u = No_match \<and> (\<forall>\<sigma>. \<not> solves b ps fs \<sigma>))"
proof (induction env maxOps ps fs b n rule: match_args.induct)
  case (1 env maxOps p ps f fs b n)
  show ?case
  proof (cases "maxOps \<le> n")
    case True
    with "1.prems" show ?thesis by (auto simp: unification_result_def)
  next
    case room: False
    show ?thesis
    proof (cases p)
      case (Constant c)
      with "1.prems" room "1.IH"(3) [OF room refl refl Constant] show ?thesis
        by (cases "c = term_value f") (auto simp: unification_result_def)
    next
      case (Variable x)
      show ?thesis
      proof (cases "map_of b x")
        case (Some c)
        with "1.prems" room Variable "1.IH"(2) [OF room refl refl Variable Some] show ?thesis
          by (cases "c = term_value f") (auto simp: unification_result_def solves_bound)
      next
        case None
        with "1.prems" room Variable "1.IH"(1) [OF room refl refl Variable None] show ?thesis
          by (auto simp: solves_free)
      qed
    qed
  qed
qed auto

section \<open>Whole answers\<close>

lemma mset_insert_by [simp]: "mset (insert_by cmp x ys) = add_mset x (mset ys)"
  by (induction ys) auto

lemma mset_sort_by [simp]: "mset (sort_by cmp xs) = mset xs"
  by (induction xs) (auto simp: sort_by_def)

lemma distinct_freezeBindings:
  "distinct (map fst (freezeBindings env b)) \<longleftrightarrow> distinct (map fst b)"
  by (rule mset_eq_imp_distinct_iff) (simp add: freezeBindings_def)

lemma map_of_freezeBindings:
  assumes "distinct (map fst b)"
  shows "map_of (freezeBindings env b) = map_of b"
  using assms distinct_freezeBindings [of env b]
  by (subst map_of_inject_set) (simp_all add: freezeBindings_def)

lemma match_args_distinct:
  "match_args env maxOps ps fs b n = Inr (b', n') \<Longrightarrow> distinct (map fst b) \<Longrightarrow> distinct (map fst b')"
  by (induction env maxOps ps fs b n rule: match_args.induct)
    (auto simp: Let_def distinct_alist_put split: if_splits rule_term.splits option.splits)

lemma binding_entries_distinct:
  "binding_entries b es = Inr b' \<Longrightarrow> distinct (map fst b) \<Longrightarrow> distinct (map fst b')"
  by (induction b es rule: binding_entries.induct)
    (auto simp: distinct_alist_put split: if_splits rule_term.splits sum.splits)

lemma initial_bindings_distinct:
  "normalizeInitialBindings v = Inr b \<Longrightarrow> distinct (map fst b)"
  by (auto simp: normalizeInitialBindings_def split: jsval.splits dest: binding_entries_distinct)

lemma unification_result_simps [simp]:
  "un_status (unification_result env st re b n) = st" "un_reason (unification_result env st re b n) = re"
  "un_operations (unification_result env st re b n) = n"
  "un_bindings (unification_result env st re b n) = freezeBindings env b"
  by (simp_all add: unification_result_def)

text \<open>The constraints of an answer that matches: each one is resolved and accepted by the callback.\<close>

definition constraint_holds :: "evaluator option \<Rightarrow> bindings \<Rightarrow> jsval \<Rightarrow> bool" where
  "constraint_holds evaluator b c =
     (\<exists>ev g. evaluator = Some ev \<and> resolveAtom c b = Inr (Some g) \<and> ev g = Inr (JBool True))"

lemma decide_constraints_Inr:
  "decide_constraints env ev maxOps b cs n = Inr n' \<Longrightarrow>
     n' = n + length cs \<and> n' \<le> max n maxOps \<and> list_all (constraint_holds (Some ev) b) cs"
  by (induction env ev maxOps b cs n rule: decide_constraints.induct)
    (auto simp: Let_def constraint_holds_def split: if_splits sum.splits option.splits)

lemma decide_constraints_Inl:
  "decide_constraints env ev maxOps b cs n = Inl u \<Longrightarrow>
     un_status u \<noteq> Match \<and> un_operations u \<le> max n maxOps
     \<and> (un_status u = Stopped \<longrightarrow> un_operations u \<ge> maxOps)"
  by (induction env ev maxOps b cs n rule: decide_constraints.induct)
    (auto simp: Let_def split: if_splits sum.splits option.splits)

lemma evaluateConstraints_Inr:
  "evaluateConstraints env evaluator maxOps b cs n = Inr n' \<Longrightarrow>
     n' = n + length cs \<and> n' \<le> max n maxOps \<and> list_all (constraint_holds evaluator b) cs"
  by (auto simp: evaluateConstraints_def split: if_splits option.splits dest: decide_constraints_Inr)

lemma evaluateConstraints_Inl:
  "evaluateConstraints env evaluator maxOps b cs n = Inl u \<Longrightarrow>
     un_status u \<noteq> Match \<and> un_operations u \<le> max n maxOps
     \<and> (un_status u = Stopped \<longrightarrow> un_operations u \<ge> maxOps)"
  by (auto simp: evaluateConstraints_def split: if_splits option.splits dest: decide_constraints_Inl)

text \<open>The constraints the options carry, when they are a list or absent.\<close>

definition option_constraints :: "unify_options \<Rightarrow> jsval list" where
  "option_constraints opts = (case uo_constraints opts of JArr cs \<Rightarrow> cs | _ \<Rightarrow> [])"

text \<open>\<open>least_match b p f m\<close>: under \<open>m\<close> the atom is the fact, and every valuation that extends
  \<open>b\<close> and does that extends \<open>m\<close>.\<close>

definition least_match :: "bindings \<Rightarrow> rule_atom \<Rightarrow> rule_atom \<Rightarrow> bindings \<Rightarrow> bool" where
  "least_match b p f m =
     (distinct (map fst m) \<and> instance_under (map_of m) p f \<and> map_of b \<subseteq>\<^sub>m map_of m
      \<and> dom (map_of m) = dom (map_of b) \<union> atom_vars p
      \<and> (\<forall>\<sigma>. map_of b \<subseteq>\<^sub>m \<sigma> \<and> instance_under \<sigma> p f \<longrightarrow> map_of m \<subseteq>\<^sub>m \<sigma>))"

lemma solves_instance:
  "ra_predicate p = ra_predicate f \<Longrightarrow>
     solves b (ra_args p) (ra_args f) \<sigma> \<longleftrightarrow> map_of b \<subseteq>\<^sub>m \<sigma> \<and> instance_under \<sigma> p f"
  by (auto simp: solves_def instance_under_def)

lemma match_args_least:
  assumes "match_args env maxOps (ra_args p) (ra_args f) b 0 = Inr (b', n)" and "distinct (map fst b)"
    and same: "ra_predicate p = ra_predicate f" "length (ra_args p) = length (ra_args f)"
  shows "least_match b p f (freezeBindings env b') \<and> n = length (ra_args p)
    \<and> distinct (map fst b') \<and> (ra_args p \<noteq> [] \<longrightarrow> n \<le> maxOps)"
proof -
  have distinct: "distinct (map fst b')" using assms(1,2) by (rule match_args_distinct)
  note facts = match_args_Inr [OF assms(1) same(2)]
  then have "solves b (ra_args p) (ra_args f) (map_of b')" by simp
  with facts distinct same(1) show ?thesis
    by (auto simp: least_match_def map_of_freezeBindings distinct_freezeBindings solves_instance
        atom_vars_def)
qed

lemma resolve_args_cong: "map_of b = map_of b' \<Longrightarrow> resolve_args b args ts = resolve_args b' args ts"
  by (induction b args ts rule: resolve_args.induct) (simp_all add: bind_result_def split: option.splits sum.splits)

lemma constraint_holds_frozen:
  "distinct (map fst b) \<Longrightarrow> constraint_holds ev (freezeBindings env b) = constraint_holds ev b"
  using resolve_args_cong [OF map_of_freezeBindings [of b env]]
  by (intro ext) (simp add: constraint_holds_def resolveAtom_def)

lemma match_atoms_cases:
  obtains (different) "ra_predicate p \<noteq> ra_predicate f \<or> length (ra_args p) \<noteq> length (ra_args f)"
      "un_status (match_atoms env opts maxOps p f b) = No_match"
      "un_operations (match_atoms env opts maxOps p f b) = 0"
  | (stopped) u where "ra_predicate p = ra_predicate f" "length (ra_args p) = length (ra_args f)"
      "match_args env maxOps (ra_args p) (ra_args f) b 0 = Inl u" "match_atoms env opts maxOps p f b = u"
  | (constrained) b' n u where "ra_predicate p = ra_predicate f" "length (ra_args p) = length (ra_args f)"
      "match_args env maxOps (ra_args p) (ra_args f) b 0 = Inr (b', n)"
      "match_atoms env opts maxOps p f b = u" "un_status u \<noteq> Match" "un_operations u \<le> max n maxOps"
      "un_status u = Stopped \<longrightarrow> un_operations u \<ge> maxOps" "uo_constraints opts \<noteq> JUndefined"
  | (matched) b' n m where "ra_predicate p = ra_predicate f" "length (ra_args p) = length (ra_args f)"
      "match_args env maxOps (ra_args p) (ra_args f) b 0 = Inr (b', n)"
      "list_all (constraint_holds (uo_constraintEvaluator opts) b') (option_constraints opts)"
      "m = n + length (option_constraints opts)" "m \<le> max n maxOps"
      "match_atoms env opts maxOps p f b = unification_result env Match Matched b' m"
proof (cases "ra_predicate p = ra_predicate f \<and> length (ra_args p) = length (ra_args f)")
  case False
  then show thesis by (intro different) (auto simp: match_atoms_def)
next
  case same: True
  show thesis
  proof (cases "match_args env maxOps (ra_args p) (ra_args f) b 0")
    case (Inl u)
    with same show thesis by (intro stopped) (auto simp: match_atoms_def)
  next
    case (Inr r)
    then obtain b' n where r: "match_args env maxOps (ra_args p) (ra_args f) b 0 = Inr (b', n)" by (cases r) auto
    define d where "d = (case uo_constraints opts of
         JUndefined \<Rightarrow> evaluateConstraints env (uo_constraintEvaluator opts) maxOps b' [] n
       | JArr cs \<Rightarrow> evaluateConstraints env (uo_constraintEvaluator opts) maxOps b' cs n
       | _ \<Rightarrow> Inl (unification_result env Invalid Invalid_options b' n))"
    have whole: "match_atoms env opts maxOps p f b =
        (case d of Inl answer \<Rightarrow> answer | Inr n \<Rightarrow> unification_result env Match Matched b' n)"
      using same r by (simp add: match_atoms_def d_def Let_def)
    show thesis
    proof (cases d)
      case (Inl u)
      have u: "uo_constraints opts \<noteq> JUndefined" "un_status u \<noteq> Match" "un_operations u \<le> max n maxOps"
        "un_status u = Stopped \<longrightarrow> un_operations u \<ge> maxOps"
        using Inl evaluateConstraints_Inl [of env "uo_constraintEvaluator opts" maxOps b' _ n u]
        by (auto simp: d_def evaluateConstraints_def [of _ _ _ _ "[]"] split: jsval.splits)
      show thesis using Inl whole same r u by (intro constrained [of b' n u]) simp_all
    next
      case (Inr m)
      have m: "list_all (constraint_holds (uo_constraintEvaluator opts) b') (option_constraints opts)"
        "m = n + length (option_constraints opts)" "m \<le> max n maxOps"
        using Inr evaluateConstraints_Inr [of env "uo_constraintEvaluator opts" maxOps b' _ n m]
        by (auto simp: d_def option_constraints_def evaluateConstraints_def [of _ _ _ _ "[]"] split: jsval.splits)
      show thesis using Inr whole same r m by (intro matched [of b' n m]) simp_all
    qed
  qed
qed

section \<open>The calls of the engine\<close>

definition valid_bindings :: "bindings \<Rightarrow> bool" where
  "valid_bindings b =
     (distinct (map fst b) \<and> list_all (\<lambda>(x, c). valid_term (Variable x) \<and> valid_term (Constant c)) b)"

lemma valid_bindings_Nil [simp]: "valid_bindings []"
  by (simp add: valid_bindings_def)

lemma binding_entries_json:
  assumes "valid_bindings (a @ b)"
  shows "binding_entries a (map (\<lambda>(x, c). JObj [(''variable'', JStr x), (''value'', JStr c)]) b) = Inr (a @ b)"
  using assms
proof (induction b arbitrary: a)
  case (Cons p b)
  obtain x c where p: "p = (x, c)" by (cases p)
  have valid: "valid_term (Variable x)" "valid_term (Constant c)"
    using Cons.prems p by (auto simp: valid_bindings_def)
  have "map_of a x = None" using Cons.prems p by (auto simp: valid_bindings_def map_of_eq_None_iff)
  moreover have "alist_put x c a = a @ [p]"
    using Cons.prems p by (auto simp: valid_bindings_def intro: alist_put_fresh [THEN trans])
  ultimately show ?case
    using Cons.IH [of "a @ [p]"] Cons.prems p valid by (simp del: valid_term.simps)
qed simp

lemma initial_bindings_json: "valid_bindings b \<Longrightarrow> normalizeInitialBindings (bindings_json b) = Inr b"
  using binding_entries_json [of "[]" b] by (simp add: normalizeInitialBindings_def bindings_json_def)

lemma valid_alist_put:
  "valid_bindings b \<Longrightarrow> valid_term (Variable x) \<Longrightarrow> valid_term (Constant c) \<Longrightarrow>
     map_of b x = None \<Longrightarrow> valid_bindings (alist_put x c b)"
  by (subst alist_put_fresh) (auto simp: valid_bindings_def map_of_eq_None_iff)

lemma match_args_valid:
  "match_args env maxOps ps fs b n = Inr (b', n') \<Longrightarrow> valid_bindings b \<Longrightarrow> list_all valid_term ps \<Longrightarrow>
     list_all valid_term fs \<Longrightarrow> list_all is_constant fs \<Longrightarrow> valid_bindings b'"
proof (induction env maxOps ps fs b n rule: match_args.induct)
  case (1 env maxOps p ps f fs b n)
  then have room: "\<not> maxOps \<le> n" by (auto split: if_splits)
  have f: "f = Constant (term_value f)" using "1.prems"(5) by (cases f) simp_all
  show ?case
  proof (cases p)
    case (Constant c)
    with "1.prems" room "1.IH"(3) [OF room refl refl Constant] show ?thesis by (auto split: if_splits)
  next
    case (Variable x)
    show ?thesis
    proof (cases "map_of b x")
      case (Some c)
      with "1.prems" Variable room "1.IH"(2) [OF room refl refl Variable Some] show ?thesis
        by (auto split: if_splits)
    next
      case None
      have "valid_bindings (alist_put x (term_value f) b)"
        using "1.prems" Variable None f by (intro valid_alist_put) (auto simp del: valid_term.simps)
      with "1.prems" Variable None room "1.IH"(1) [OF room refl refl Variable None] show ?thesis by auto
    qed
  qed
qed auto

lemma valid_freezeBindings [simp]: "valid_bindings (freezeBindings env b) \<longleftrightarrow> valid_bindings b"
  by (simp add: valid_bindings_def distinct_freezeBindings list_all_iff) (simp add: freezeBindings_def)

lemma unify_valid_inputs:
  assumes "valid_atom p" and "valid_atom f" and "ground_atom f"
    and "normalizeMaxOperations (uo_maxOperations opts) = Some m" and "normalizeInitialBindings (uo_bindings opts) = Inr b"
  shows "unifyAtom env (atom_json p) (atom_json f) opts = match_atoms env opts m p f b"
  using assms by (simp add: unifyAtom_def unify_atom_json unify_ground_fact_json)

lemma match_atoms_decides:
  assumes "distinct (map fst b)" and "uo_constraints opts = JUndefined" and "length (ra_args p) \<le> maxOps"
  shows "un_status (match_atoms env opts maxOps p f b) =
      (if \<exists>\<sigma>. map_of b \<subseteq>\<^sub>m \<sigma> \<and> instance_under \<sigma> p f then Match else No_match)"
proof (cases rule: match_atoms_cases [where env = env and opts = opts and maxOps = maxOps and p = p and f = f and b = b])
  case different
  then show ?thesis by (auto simp: instance_under_def dest: list_all2_lengthD)
next
  case (stopped u)
  with match_args_Inl [OF stopped(3,2)] assms(3) show ?thesis by (auto simp: solves_instance)
next
  case (constrained b' n u)
  with assms(2) show ?thesis by simp
next
  case (matched b' n m)
  from match_args_least [OF matched(3) assms(1) matched(1,2)] matched(7) show ?thesis by (auto simp: least_match_def)
qed

lemma match_atoms_matched:
  assumes "un_status (match_atoms env opts maxOps p f b) = Match" and "distinct (map fst b)"
  obtains b' n where "match_args env maxOps (ra_args p) (ra_args f) b 0 = Inr (b', n)"
    and "un_bindings (match_atoms env opts maxOps p f b) = freezeBindings env b'"
    and "least_match b p f (freezeBindings env b')"
    and "list_all (constraint_holds (uo_constraintEvaluator opts) (freezeBindings env b')) (option_constraints opts)"
    and "un_operations (match_atoms env opts maxOps p f b) = length (ra_args p) + length (option_constraints opts)"
    and "ra_args p \<noteq> [] \<longrightarrow> un_operations (match_atoms env opts maxOps p f b) \<le> maxOps"
proof (cases rule: match_atoms_cases [where env = env and opts = opts and maxOps = maxOps and p = p and f = f and b = b])
  case different
  with assms(1) show ?thesis by simp
next
  case (stopped u)
  with match_args_Inl [OF stopped(3,2)] assms(1) show ?thesis by auto
next
  case (constrained b' n u)
  with assms(1) show ?thesis by simp
next
  case (matched b' n m)
  from match_args_least [OF matched(3) assms(2) matched(1,2)] matched show ?thesis
    by (intro that [of b' n]) (auto simp: constraint_holds_frozen)
qed

lemma unify_engine:
  assumes valid: "valid_atom p" "valid_atom f" "ground_atom f" "valid_bindings b"
    and opts: "normalizeInitialBindings (uo_bindings opts) = Inr b" "uo_maxOperations opts = JUndefined"
      "uo_constraints opts = JUndefined"
    and u: "u = unifyAtom env (atom_json p) (atom_json f) opts"
  shows "un_status u = Match \<longleftrightarrow> (\<exists>\<sigma>. map_of b \<subseteq>\<^sub>m \<sigma> \<and> instance_under \<sigma> p f)"
    and "un_status u = Match \<Longrightarrow> least_match b p f (un_bindings u) \<and> valid_bindings (un_bindings u)"
proof -
  have u: "u = match_atoms env opts 128 p f b"
    unfolding u using valid opts
    by (intro unify_valid_inputs) (simp_all add: normalizeMaxOperations_def DEFAULT_MAX_OPERATIONS_def)
  have distinct: "distinct (map fst b)" using valid(4) by (simp add: valid_bindings_def)
  have room: "length (ra_args p) \<le> 128" using valid(1) by (simp add: valid_atom_def MAX_ARGUMENTS_def)
  show "un_status u = Match \<longleftrightarrow> (\<exists>\<sigma>. map_of b \<subseteq>\<^sub>m \<sigma> \<and> instance_under \<sigma> p f)"
    unfolding u using match_atoms_decides [OF distinct opts(3) room] by simp
  assume "un_status u = Match"
  then show "least_match b p f (un_bindings u) \<and> valid_bindings (un_bindings u)"
    unfolding u
    by (rule match_atoms_matched [OF _ distinct])
      (use valid in \<open>auto simp: valid_atom_def ground_atom_def dest: match_args_valid\<close>)
qed

lemma unify_first:
  assumes "valid_atom p" "valid_atom f" "ground_atom f"
    and "u = unifyAtom env (atom_json p) (atom_json f) no_options"
  shows "un_status u = Match \<longleftrightarrow> (\<exists>\<sigma>. instance_under \<sigma> p f)"
    and "un_status u = Match \<Longrightarrow> least_match [] p f (un_bindings u) \<and> valid_bindings (un_bindings u)"
  using unify_engine [OF assms(1-3) valid_bindings_Nil _ _ _ assms(4)]
  by (simp_all add: no_options_def normalizeInitialBindings_def)

lemma unify_next:
  assumes "valid_atom p" "valid_atom f" "ground_atom f" "valid_bindings b"
    and "u = unifyAtom env (atom_json p) (atom_json f) (engine_options b)"
  shows "un_status u = Match \<longleftrightarrow> (\<exists>\<sigma>. map_of b \<subseteq>\<^sub>m \<sigma> \<and> instance_under \<sigma> p f)"
    and "un_status u = Match \<Longrightarrow> least_match b p f (un_bindings u) \<and> valid_bindings (un_bindings u)"
  using unify_engine [OF assms(1-4) _ _ _ assms(5)] initial_bindings_json [OF assms(4)]
  by (simp_all add: engine_options_def no_options_def)

section \<open>What an answer means\<close>

lemma match_atoms_budget:
  "un_operations (match_atoms env opts maxOps p f b) \<le> maxOps \<or> ra_args p = []"
  "un_status (match_atoms env opts maxOps p f b) = Stopped \<Longrightarrow>
     un_operations (match_atoms env opts maxOps p f b) \<ge> maxOps"
proof -
  show "un_operations (match_atoms env opts maxOps p f b) \<le> maxOps \<or> ra_args p = []"
  proof (cases rule: match_atoms_cases [where env = env and opts = opts and maxOps = maxOps and p = p and f = f and b = b])
    case (stopped u)
    with match_args_Inl [OF stopped(3,2)] show ?thesis by auto
  next
    case (constrained b' n u)
    with match_args_Inr [OF constrained(3,2)] show ?thesis by auto
  next
    case (matched b' n m)
    with match_args_Inr [OF matched(3,2)] show ?thesis by auto
  qed auto
  assume "un_status (match_atoms env opts maxOps p f b) = Stopped"
  then show "un_operations (match_atoms env opts maxOps p f b) \<ge> maxOps"
  proof (cases rule: match_atoms_cases [where env = env and opts = opts and maxOps = maxOps and p = p and f = f and b = b])
    case (stopped u)
    with match_args_Inl [OF stopped(3,2)] \<open>un_status _ = Stopped\<close> show ?thesis by auto
  qed auto
qed

text \<open>
  The answer of \<open>unifyAtom\<close> is exact.  When the inputs pass the checks, an answer \<open>match\<close> carries the
  least extension of the initial bindings under which the pattern is the fact, every constraint has been
  accepted by the callback under it, and one operation was counted for each argument and constraint; the
  operations never exceed the budget, and the answer \<open>stopped\<close> is given only when it is used up; without
  constraints, and with an operation for each argument, the answer is \<open>match\<close> when such an extension
  exists and \<open>no_match\<close> when it does not.
\<close>

theorem unification_decides_matching:
  assumes "normalizeMaxOperations (uo_maxOperations opts) = Some m"
    and "unify_atom pattern = Inr p" and "unify_ground_fact datum = Inr f"
    and "normalizeInitialBindings (uo_bindings opts) = Inr b"
    and u: "u = unifyAtom env pattern datum opts"
  shows "(un_status u = Match \<longrightarrow>
       least_match b p f (un_bindings u)
       \<and> list_all (constraint_holds (uo_constraintEvaluator opts) (un_bindings u)) (option_constraints opts)
       \<and> un_operations u = length (ra_args p) + length (option_constraints opts))
    \<and> un_operations u \<le> m \<and> (un_status u = Stopped \<longrightarrow> un_operations u = m)
    \<and> (uo_constraints opts = JUndefined \<and> length (ra_args p) \<le> m \<longrightarrow>
         un_status u = (if \<exists>\<sigma>. map_of b \<subseteq>\<^sub>m \<sigma> \<and> instance_under \<sigma> p f then Match else No_match))"
proof -
  have u: "u = match_atoms env opts m p f b"
    unfolding u using assms(1-4) by (simp add: unifyAtom_def)
  have distinct: "distinct (map fst b)" using assms(4) by (rule initial_bindings_distinct)
  have "ra_args p \<noteq> []" using unify_atom_valid [OF assms(2)] by (simp add: valid_atom_def)
  then have budget: "un_operations u \<le> m" "un_status u = Stopped \<longrightarrow> un_operations u = m"
    using match_atoms_budget [where env = env and opts = opts and maxOps = m and p = p and f = f and b = b] u
    by auto
  have "un_status u = Match \<longrightarrow>
       least_match b p f (un_bindings u)
       \<and> list_all (constraint_holds (uo_constraintEvaluator opts) (un_bindings u)) (option_constraints opts)
       \<and> un_operations u = length (ra_args p) + length (option_constraints opts)"
    using match_atoms_matched [OF _ distinct, where env = env and opts = opts and maxOps = m and p = p and f = f] u
    by (metis (no_types, lifting))
  with budget u match_atoms_decides [OF distinct] show ?thesis by auto
qed

definition even_constraint :: evaluator where
  "even_constraint g = (if length (ra_args g) = 1 then Inr (JBool True) else Inl ())"

definition example_options :: unify_options where
  "example_options = \<lparr>uo_maxOperations = JNum 3,
     uo_bindings = JArr [JObj [(''variable'', JStr ''x''), (''value'', JStr ''a'')]],
     uo_constraints = JArr [atom_json \<lparr>ra_predicate = ''even'', ra_args = [Variable ''y'']\<rparr>],
     uo_constraintEvaluator = Some even_constraint\<rparr>"

theorem unification_decides_matching_witness:
  "\<exists>u. u = unifyAtom example_env (atom_json (example_atom ''edge'' ''x'' ''y''))
      (atom_json \<lparr>ra_predicate = ''edge'', ra_args = [Constant ''a'', Constant ''b'']\<rparr>) example_options
    \<and> un_status u = Match \<and> un_bindings u = [(''x'', ''a''), (''y'', ''b'')]
    \<and> instance_under (map_of (un_bindings u)) (example_atom ''edge'' ''x'' ''y'')
        \<lparr>ra_predicate = ''edge'', ra_args = [Constant ''a'', Constant ''b'']\<rparr>
    \<and> un_operations u = 3"
proof -
  let ?f = "\<lparr>ra_predicate = ''edge'', ra_args = [Constant ''a'', Constant ''b'']\<rparr> :: rule_atom"
  define u where u: "u = unifyAtom example_env (atom_json (example_atom ''edge'' ''x'' ''y''))
      (atom_json ?f) example_options"
  have inputs: "normalizeMaxOperations (uo_maxOperations example_options) = Some 3"
    "unify_atom (atom_json (example_atom ''edge'' ''x'' ''y'')) = Inr (example_atom ''edge'' ''x'' ''y'')"
    "unify_ground_fact (atom_json ?f) = Inr ?f"
    "normalizeInitialBindings (uo_bindings example_options) = Inr [(''x'', ''a'')]"
    by code_simp+
  have e: "un_status u = Match" "un_bindings u = [(''x'', ''a''), (''y'', ''b'')]"
    unfolding u by code_simp+
  from unification_decides_matching [OF inputs u] e u show ?thesis
    by (auto simp: least_match_def option_constraints_def example_options_def example_atom_def)
qed

end
