(* ===== verification/Semi_Naive_Joins.thy ===== *)
theory Semi_Naive_Joins
  imports Semi_Naive Unification_Facts
begin

text \<open>
  What a join computes.  The locale \<open>matcher\<close> is the interface between the joins and unification: an
  attempt extends bindings to the least ones that match, or there are none.  Inside it the join of
  the body atoms is shown to enumerate their common instances.  The loops of the code, which count
  operations and may stop, are then shown to compute that join, and to stop for a used-up budget only.
\<close>

section \<open>Joins of facts, without a budget\<close>

definition join_step ::
  "(bindings \<Rightarrow> rule_atom \<Rightarrow> rule_atom \<Rightarrow> bindings option) \<Rightarrow> rule_atom \<Rightarrow> rule_atom list
     \<Rightarrow> partial_match list \<Rightarrow> partial_match list" where
  "join_step attempt a pool ps =
     concat (map (\<lambda>p. List.map_filter (\<lambda>f.
       map_option (\<lambda>m. \<lparr>pa_bindings = m, pa_supports = pa_supports p @ [f]\<rparr>)
         (attempt (pa_bindings p) a f)) pool) ps)"

fun join_spec ::
  "(bindings \<Rightarrow> rule_atom \<Rightarrow> rule_atom \<Rightarrow> bindings option) \<Rightarrow> (rule_atom \<Rightarrow> rule_atom list)
     \<Rightarrow> rule_atom list \<Rightarrow> partial_match list \<Rightarrow> partial_match list" where
  "join_spec attempt pools [] ps = ps"
| "join_spec attempt pools (a # as) ps = join_spec attempt pools as (join_step attempt a (pools a) ps)"

lemma join_step_Nil [simp]: "join_step attempt a pool [] = []"
  by (simp add: join_step_def)

lemma join_step_Cons:
  "join_step attempt a pool (p # ps) = join_step attempt a pool [p] @ join_step attempt a pool ps"
  by (simp add: join_step_def)

lemma join_step_fact:
  "join_step attempt a (f # fs) [p] =
     (case attempt (pa_bindings p) a f of
        None \<Rightarrow> [] | Some m \<Rightarrow> [\<lparr>pa_bindings = m, pa_supports = pa_supports p @ [f]\<rparr>])
     @ join_step attempt a fs [p]"
  by (simp add: join_step_def List.map_filter_def split: option.split)

lemma join_step_no_facts [simp]: "join_step attempt a [] ps = []"
  by (simp add: join_step_def List.map_filter_def)

lemma join_spec_Nil [simp]: "join_spec attempt pools as [] = []"
  by (induction as) simp_all

lemma set_join_step:
  "q \<in> set (join_step attempt a pool ps) \<longleftrightarrow>
     (\<exists>p\<in>set ps. \<exists>f\<in>set pool. \<exists>m. attempt (pa_bindings p) a f = Some m
       \<and> q = \<lparr>pa_bindings = m, pa_supports = pa_supports p @ [f]\<rparr>)"
  by (fastforce simp: join_step_def List.map_filter_def image_iff)

lemma length_join_step: "length (join_step attempt a pool ps) \<le> length ps * length pool"
proof (induction ps)
  case (Cons p ps)
  have "length (List.map_filter g xs) \<le> length xs" for g :: "rule_atom \<Rightarrow> partial_match option" and xs
    by (simp add: List.map_filter_def)
  then have "length (join_step attempt a pool [p]) \<le> length pool" by (simp add: join_step_def)
  with Cons show ?case by (subst join_step_Cons) simp
qed simp

text \<open>The operations a join may count when no pool has more than \<open>n\<close> facts.\<close>

fun join_cost :: "nat \<Rightarrow> nat \<Rightarrow> nat \<Rightarrow> nat" where
  "join_cost n 0 m = 0"
| "join_cost n (Suc k) m = m * n + join_cost n k (m * n)"

lemma join_cost_mono: "m \<le> m' \<Longrightarrow> join_cost n k m \<le> join_cost n k m'"
  by (induction k arbitrary: m m') (simp_all add: add_mono)

lemma join_cost_le: "0 < n \<Longrightarrow> join_cost n k m \<le> m * k * n ^ k"
proof (induction k arbitrary: m)
  case (Suc k)
  have "m * n \<le> m * n ^ Suc k" using Suc.prems by simp
  moreover have "join_cost n k (m * n) \<le> m * k * n ^ Suc k"
    using Suc.IH [of "m * n"] Suc.prems by (simp add: mult.assoc mult.left_commute)
  ultimately have "join_cost n (Suc k) m \<le> m * n ^ Suc k + m * k * n ^ Suc k"
    by (simp only: join_cost.simps add_mono)
  also have "\<dots> = m * Suc k * n ^ Suc k" by (simp add: algebra_simps)
  finally show ?case .
qed simp

lemma length_join_spec:
  assumes "\<And>a. length (pools a) \<le> n"
  shows "length (join_spec attempt pools as ps) \<le> length ps * n ^ length as"
proof (induction as arbitrary: ps)
  case (Cons a as)
  have "length (join_step attempt a (pools a) ps) \<le> length ps * n"
    using length_join_step [of attempt a "pools a" ps] assms [of a] by (meson le_trans mult_le_mono2)
  then have "length (join_step attempt a (pools a) ps) * n ^ length as \<le> length ps * n * n ^ length as"
    by (rule mult_le_mono1)
  from le_trans [OF Cons [of "join_step attempt a (pools a) ps"] this] show ?case
    by (simp add: mult.assoc)
qed simp

section \<open>The interface between joins and unification\<close>

locale matcher =
  fixes attempt :: "bindings \<Rightarrow> rule_atom \<Rightarrow> rule_atom \<Rightarrow> bindings option"
    and pattern_ok :: "rule_atom \<Rightarrow> bool" and fact_ok :: "rule_atom \<Rightarrow> bool" and bindings_ok :: "bindings \<Rightarrow> bool"
  assumes attempt_Some: "pattern_ok p \<Longrightarrow> fact_ok f \<Longrightarrow> bindings_ok b \<Longrightarrow> attempt b p f = Some m \<Longrightarrow>
      bindings_ok m \<and> least_match b p f m"
    and attempt_None: "pattern_ok p \<Longrightarrow> fact_ok f \<Longrightarrow> bindings_ok b \<Longrightarrow> attempt b p f = None \<Longrightarrow>
      map_of b \<subseteq>\<^sub>m \<sigma> \<Longrightarrow> \<not> instance_under \<sigma> p f"
begin

lemma join_step_sound:
  assumes q: "q \<in> set (join_step attempt a pool ps)" and ok: "pattern_ok a" "\<And>f. f \<in> set pool \<Longrightarrow> fact_ok f"
    "\<And>p. p \<in> set ps \<Longrightarrow> bindings_ok (pa_bindings p)"
  shows "bindings_ok (pa_bindings q) \<and> (\<exists>p\<in>set ps. \<exists>f\<in>set pool.
    least_match (pa_bindings p) a f (pa_bindings q) \<and> pa_supports q = pa_supports p @ [f])"
proof -
  from q obtain p f m where pf: "p \<in> set ps" "f \<in> set pool" "attempt (pa_bindings p) a f = Some m"
    and q: "q = \<lparr>pa_bindings = m, pa_supports = pa_supports p @ [f]\<rparr>"
    by (auto simp: set_join_step)
  from attempt_Some [OF ok(1) ok(2) [OF pf(2)] ok(3) [OF pf(1)] pf(3)] q pf show ?thesis by auto
qed

lemma join_step_complete:
  assumes "p \<in> set ps" and "map_of (pa_bindings p) \<subseteq>\<^sub>m \<sigma>" and "f \<in> set pool" and "instance_under \<sigma> a f"
    and ok: "pattern_ok a" "fact_ok f" "bindings_ok (pa_bindings p)"
  shows "\<exists>q\<in>set (join_step attempt a pool ps). map_of (pa_bindings q) \<subseteq>\<^sub>m \<sigma>"
proof -
  from attempt_None [OF ok _ assms(2)] assms(4) obtain m where m: "attempt (pa_bindings p) a f = Some m" by auto
  from attempt_Some [OF ok m] assms(2,4) have "map_of m \<subseteq>\<^sub>m \<sigma>" by (auto simp: least_match_def)
  with m assms(1,3) show ?thesis by (force simp: set_join_step)
qed

lemma join_sound:
  assumes "q \<in> set (join_spec attempt pools as ps)" and "\<And>a. a \<in> set as \<Longrightarrow> pattern_ok a"
    and facts: "\<And>a f. f \<in> set (pools a) \<Longrightarrow> fact_ok f" and "\<And>p. p \<in> set ps \<Longrightarrow> bindings_ok (pa_bindings p)"
  shows "\<exists>p\<in>set ps. map_of (pa_bindings p) \<subseteq>\<^sub>m map_of (pa_bindings q)
    \<and> dom (map_of (pa_bindings q)) = dom (map_of (pa_bindings p)) \<union> (\<Union>a\<in>set as. atom_vars a)
    \<and> bindings_ok (pa_bindings q) \<and> set (pa_supports p) \<subseteq> set (pa_supports q)
    \<and> (\<forall>f\<in>set (pa_supports q). f \<in> set (pa_supports p) \<or> (\<exists>a\<in>set as. f \<in> set (pools a)))
    \<and> (\<forall>a\<in>set as. \<exists>f\<in>set (pa_supports q). instance_under (map_of (pa_bindings q)) a f)"
  using assms(1,2,4)
proof (induction as arbitrary: ps)
  case Nil
  then show ?case by (intro bexI [of _ q]) simp_all
next
  case (Cons a as)
  let ?ps = "join_step attempt a (pools a) ps"
  have a: "pattern_ok a" using Cons.prems(2) by simp
  have step: "bindings_ok (pa_bindings p) \<and> (\<exists>o'\<in>set ps. \<exists>f\<in>set (pools a).
      least_match (pa_bindings o') a f (pa_bindings p) \<and> pa_supports p = pa_supports o' @ [f])"
    if "p \<in> set ?ps" for p
    using join_step_sound [OF that a] facts Cons.prems(3) by blast
  then have ok: "bindings_ok (pa_bindings p)" if "p \<in> set ?ps" for p using that by blast
  from Cons.IH [of ?ps] Cons.prems(1,2) ok obtain p where p: "p \<in> set ?ps"
    "map_of (pa_bindings p) \<subseteq>\<^sub>m map_of (pa_bindings q)"
    "dom (map_of (pa_bindings q)) = dom (map_of (pa_bindings p)) \<union> (\<Union>a\<in>set as. atom_vars a)"
    "bindings_ok (pa_bindings q)" "set (pa_supports p) \<subseteq> set (pa_supports q)"
    "\<forall>f\<in>set (pa_supports q). f \<in> set (pa_supports p) \<or> (\<exists>a\<in>set as. f \<in> set (pools a))"
    "\<forall>a\<in>set as. \<exists>f\<in>set (pa_supports q). instance_under (map_of (pa_bindings q)) a f"
    by auto
  from step [OF p(1)] obtain o' f where o': "o' \<in> set ps" "f \<in> set (pools a)"
    "least_match (pa_bindings o') a f (pa_bindings p)" "pa_supports p = pa_supports o' @ [f]" by blast
  have "instance_under (map_of (pa_bindings q)) a f"
    using o'(3) p(2) by (auto simp: least_match_def intro: instance_mono)
  with o' p show ?case
    by (intro bexI [of _ o']) (auto simp: least_match_def intro: map_le_trans)
qed

lemma join_complete:
  assumes "p \<in> set ps" and "map_of (pa_bindings p) \<subseteq>\<^sub>m \<sigma>"
    and "\<And>a. a \<in> set as \<Longrightarrow> pattern_ok a \<and> (\<exists>f\<in>set (pools a). instance_under \<sigma> a f)"
    and facts: "\<And>a f. f \<in> set (pools a) \<Longrightarrow> fact_ok f" and ok: "\<And>p. p \<in> set ps \<Longrightarrow> bindings_ok (pa_bindings p)"
  shows "\<exists>q\<in>set (join_spec attempt pools as ps). map_of (pa_bindings q) \<subseteq>\<^sub>m \<sigma>"
  using assms(1-3) ok
proof (induction as arbitrary: p ps)
  case (Cons a as)
  let ?ps = "join_step attempt a (pools a) ps"
  have a: "pattern_ok a" using Cons.prems(3) by simp
  have ok': "bindings_ok (pa_bindings p)" if "p \<in> set ?ps" for p
    using join_step_sound [OF that a] facts Cons.prems(4) by blast
  obtain f where f: "f \<in> set (pools a)" "instance_under \<sigma> a f" using Cons.prems(3) by auto
  obtain q where q: "q \<in> set ?ps" "map_of (pa_bindings q) \<subseteq>\<^sub>m \<sigma>"
    using join_step_complete [OF Cons.prems(1,2) f a facts [OF f(1)] Cons.prems(4) [OF Cons.prems(1)]] by blast
  with Cons.IH [of q ?ps] Cons.prems(3) ok' show ?case by simp
qed auto

end

definition attempt_with :: "js_env \<Rightarrow> bindings \<Rightarrow> rule_atom \<Rightarrow> rule_atom \<Rightarrow> bindings option" where
  "attempt_with env b p f =
     (let u = unifyAtom env (atom_json p) (atom_json f) (engine_options b) in
      if un_status u = Match then Some (un_bindings u) else None)"

definition fact_ok :: "rule_atom \<Rightarrow> bool" where
  "fact_ok f = (valid_atom f \<and> ground_atom f)"

interpretation unifier: matcher "attempt_with env" valid_atom fact_ok valid_bindings for env
proof
  fix p f b m
  assume ok: "valid_atom p" "fact_ok f" "valid_bindings b" and m: "attempt_with env b p f = Some m"
  from unify_next(2) [OF ok(1) _ _ ok(3) refl, of f env] ok(2) m
  show "valid_bindings m \<and> least_match b p f m"
    by (auto simp: attempt_with_def fact_ok_def Let_def split: if_splits)
next
  fix p f b and \<sigma> :: valuation
  assume ok: "valid_atom p" "fact_ok f" "valid_bindings b" and m: "attempt_with env b p f = None"
    and \<sigma>: "map_of b \<subseteq>\<^sub>m \<sigma>"
  from unify_next(1) [OF ok(1) _ _ ok(3) refl, of f env] ok(2) m \<sigma>
  show "\<not> instance_under \<sigma> p f"
    by (auto simp: attempt_with_def fact_ok_def Let_def split: if_splits)
qed

section \<open>Operations and the reasons to stop\<close>

abbreviation operations :: "eval_state \<Rightarrow> nat" where
  "operations st \<equiv> es_operations (ev_stats st)"

definition spent :: "eval_context \<Rightarrow> nat \<Rightarrow> eval_state \<Rightarrow> eval_state \<Rightarrow> bool" where
  "spent cx n st st' =
     (quiet st st' \<and> operations st \<le> operations st' \<and> operations st' \<le> operations st + n
      \<and> (operations st \<le> li_maxOperations (cx_limits cx) \<longrightarrow> operations st' \<le> li_maxOperations (cx_limits cx)))"

text \<open>A budget is used up: all operations are, or some reading of the clock is past the time limit.\<close>

definition used_up :: "eval_context \<Rightarrow> eval_state \<Rightarrow> evaluation_stop \<Rightarrow> bool" where
  "used_up cx st reason =
     (reason = Max_operations \<and> operations st \<ge> li_maxOperations (cx_limits cx)
      \<or> reason = Timeout \<and> (\<exists>k. cx_now cx k - cx_startedAt cx > li_timeoutMs (cx_limits cx)))"

definition stopped_by_budget :: "eval_context \<Rightarrow> eval_state \<Rightarrow> early_stop \<Rightarrow> bool" where
  "stopped_by_budget cx st stop = (\<exists>reason. stop = Stop reason \<and> used_up cx st reason)"

text \<open>A loop either stops for a budget or delivers the given value.\<close>

definition delivers :: "eval_context \<Rightarrow> eval_state \<Rightarrow> early_stop + 'a \<Rightarrow> 'a \<Rightarrow> bool" where
  "delivers cx st x y = (case x of Inl stop \<Rightarrow> stopped_by_budget cx st stop | Inr z \<Rightarrow> z = y)"

lemma delivers_simps [simp]:
  "delivers cx st (Inl stop) y \<longleftrightarrow> stopped_by_budget cx st stop"
  "delivers cx st (Inr z) y \<longleftrightarrow> z = y"
  by (simp_all add: delivers_def)

lemma spent_refl [simp]: "spent cx n st st"
  by (simp add: spent_def)

lemma spent_mono: "spent cx m st st' \<Longrightarrow> m \<le> n \<Longrightarrow> spent cx n st st'"
  by (auto simp: spent_def)

lemma spent_trans: "spent cx m st st' \<Longrightarrow> spent cx n st' st'' \<Longrightarrow> spent cx (m + n) st st''"
  by (auto simp: spent_def intro: quiet_trans)

lemma operations_counts [simp]:
  "operations (count_unknown st) = operations st" "operations (count_rejection st) = operations st"
  "operations (count_attempt st) = operations st" "operations (count_visit st) = operations st"
  "operations (count_duplicate st) = operations st"
  by (simp_all add: count_unknown_def count_rejection_def count_attempt_def count_visit_def
      count_duplicate_def on_stats_def)

lemma spent_counts [simp]:
  "spent cx n st (count_unknown st') = spent cx n st st'" "spent cx n st (count_rejection st') = spent cx n st st'"
  "spent cx n (count_attempt st) st' = spent cx n st st'" "spent cx n (count_visit st) st' = spent cx n st st'"
  by (simp_all add: spent_def)

lemma checkBudget_outcome:
  assumes "checkBudget cx st = (x, st')"
  shows "spent cx 0 st st'" and "\<And>reason. x = Some reason \<Longrightarrow> used_up cx st' reason"
    and "x = None \<Longrightarrow> operations st' < li_maxOperations (cx_limits cx)"
  using assms by (auto simp: checkBudget_def spent_def used_up_def quiet_def split: if_splits)

lemma noteOperation_outcome:
  assumes "noteOperation cx st = (x, st')"
  shows "spent cx 1 st st'" and "\<And>reason. x = Some reason \<Longrightarrow> used_up cx st' reason"
  using assms
  by (auto simp: noteOperation_def checkBudget_def spent_def used_up_def quiet_def on_stats_def
      split: if_splits)

lemma noted:
  assumes "noteOperation cx st = (None, st')" and "spent cx n st' st''"
  shows "spent cx (Suc n) st st''"
  using spent_trans [OF noteOperation_outcome(1) [OF assms(1)] assms(2)] by simp

lemma stopped_at_once:
  assumes "noteOperation cx st = (Some reason, st')"
  shows "spent cx (Suc n) st st' \<and> stopped_by_budget cx st' (Stop reason)"
  using noteOperation_outcome [OF assms] by (auto simp: stopped_by_budget_def intro: spent_mono)

section \<open>The loops compute the join\<close>

lemma match_pool_outcome:
  "match_pool cx a p fs nexts st = (x, st') \<Longrightarrow>
     spent cx (length fs) st st'
     \<and> delivers cx st' x (nexts @ join_step (attempt_with (cx_env cx)) a fs [p])"
proof (induction cx a p fs nexts st rule: match_pool.induct)
  case (2 cx a p f fs nexts st)
  show ?case
  proof (cases "noteOperation cx st")
    case (Pair y u)
    show ?thesis
    proof (cases y)
      case (Some reason)
      with 2 Pair stopped_at_once [of cx st reason u] show ?thesis by auto
    next
      case None
      define m where "m = unifyAtom (cx_env cx) (atom_json a) (atom_json f) (engine_options (pa_bindings p))"
      define more where "more = (case attempt_with (cx_env cx) (pa_bindings p) a f of
          None \<Rightarrow> [] | Some m \<Rightarrow> [\<lparr>pa_bindings = m, pa_supports = pa_supports p @ [f]\<rparr>])"
      have step: "(if un_status m = Match
          then nexts @ [\<lparr>pa_bindings = un_bindings m, pa_supports = pa_supports p @ [f]\<rparr>] else nexts)
          = nexts @ more"
        by (simp add: more_def attempt_with_def m_def Let_def)
      from "2.prems" Pair None have "match_pool cx a p fs (nexts @ more) (count_attempt u) = (x, st')"
        by (simp add: Let_def m_def [symmetric] step)
      with "2.IH" [OF Pair [symmetric] None m_def] step
      have "spent cx (length fs) u st'" "delivers cx st' x ((nexts @ more) @ join_step (attempt_with (cx_env cx)) a fs [p])" by simp_all
      then show ?thesis
        using noted [of cx st u "length fs" st'] Pair None
        by (simp add: join_step_fact more_def)
    qed
  qed
qed auto

lemma match_partials_outcome:
  "match_partials cx a pool ps nexts st = (x, st') \<Longrightarrow>
     spent cx (length ps * length pool) st st'
     \<and> delivers cx st' x (nexts @ join_step (attempt_with (cx_env cx)) a pool ps)"
proof (induction cx a pool ps nexts st rule: match_partials.induct)
  case (2 cx a pool p ps nexts st)
  show ?case
  proof (cases "match_pool cx a p pool nexts st")
    case (Pair y u)
    note first = match_pool_outcome [OF Pair]
    show ?thesis
    proof (cases y)
      case (Inl stop)
      with 2 Pair first show ?thesis by (auto intro: spent_mono)
    next
      case (Inr qs)
      from "2.IH" [OF Pair [symmetric] Inr] "2.prems" Pair Inr first
      show ?thesis by (auto simp: join_step_Cons [of _ _ _ p ps] dest: spent_trans split: sum.splits)
    qed
  qed
qed auto

text \<open>The body atoms other than the driver, from position \<open>i\<close> on.\<close>

fun others :: "nat \<Rightarrow> nat \<Rightarrow> rule_atom list \<Rightarrow> rule_atom list" where
  "others d i [] = []"
| "others d i (a # as) = (if i = d then others d (i + 1) as else a # others d (i + 1) as)"

lemma in_others: "x \<in> set (others d i as) \<longleftrightarrow> (\<exists>j<length as. i + j \<noteq> d \<and> x = as ! j)"
proof (induction as arbitrary: i)
  case (Cons a as)
  from Cons [of "Suc i"] show ?case by (auto simp: Ex_less_Suc2)
qed simp

lemma length_others: "length (others d i as) \<le> length as"
  by (induction d i as rule: others.induct) auto

lemma length_others_driver: "i \<le> d \<Longrightarrow> d < i + length as \<Longrightarrow> Suc (length (others d i as)) \<le> length as"
proof (induction d i as rule: others.induct)
  case (2 d i a as)
  then show ?case using length_others [of d "i + 1" as] by auto
qed simp

abbreviation pools_of :: "fact_index \<Rightarrow> rule_atom \<Rightarrow> rule_atom list" where
  "pools_of ix a \<equiv> index_get ix (ra_predicate a)"

lemma join_body_outcome:
  "join_body cx ix d i as ps st = (x, st') \<Longrightarrow> (\<And>a. length (pools_of ix a) \<le> n) \<Longrightarrow>
     spent cx (join_cost n (length (others d i as)) (length ps)) st st'
     \<and> delivers cx st' x (join_spec (attempt_with (cx_env cx)) (pools_of ix) (others d i as) ps)"
proof (induction cx ix d i as ps st rule: join_body.induct)
  case (2 cx ix d i a as ps st)
  show ?case
  proof (cases "i = d")
    case True
    with "2.prems"(1) have "join_body cx ix d (i + 1) as ps st = (x, st')" by simp
    from "2.IH"(1) [OF True this "2.prems"(2)] True show ?thesis by simp
  next
    case False
    let ?pool = "pools_of ix a" and ?rest = "join_cost n (length (others d (i + 1) as))"
    obtain y u where Pair: "match_partials cx a ?pool ps [] st = (y, u)" by fastforce
    have spent: "spent cx (length ps * length ?pool) st u" using match_partials_outcome [OF Pair] by blast
    have n: "length ps * length ?pool \<le> length ps * n" using "2.prems"(2) [of a] by (rule mult_le_mono2)
    have first: "spent cx (length ps * n) st u" using spent_mono [OF spent n] .
    then have only: "spent cx (length ps * n + ?rest (length ps * n)) st u"
      by (rule spent_mono) simp
    have cost: "join_cost n (length (others d i (a # as))) (length ps) = length ps * n + ?rest (length ps * n)"
      using False by simp
    show ?thesis
    proof (cases y)
      case (Inl stop)
      with "2.prems"(1) Pair False have "x = Inl stop" "st' = u" by simp_all
      with match_partials_outcome [OF Pair] Inl only cost show ?thesis by simp
    next
      case (Inr qs)
      with match_partials_outcome [OF Pair] have qs: "qs = join_step (attempt_with (cx_env cx)) a ?pool ps"
        by simp
      show ?thesis
      proof (cases "qs = []")
        case True
        with "2.prems"(1) Pair False Inr have "x = Inr []" "st' = u" by simp_all
        with only cost qs True False show ?thesis by simp
      next
        case more: False
        have len: "length qs \<le> length ps * n"
          unfolding qs using length_join_step n by (rule le_trans)
        have "join_body cx ix d (i + 1) as qs u = (x, st')"
          using "2.prems"(1) Pair False Inr more by simp
        from "2.IH"(2) [OF False Pair [symmetric] Inr more this "2.prems"(2)]
        have rest: "spent cx (?rest (length qs)) u st'"
          "delivers cx st' x (join_spec (attempt_with (cx_env cx)) (pools_of ix) (others d (i + 1) as) qs)"
          by blast+
        have "spent cx (length ps * n + ?rest (length ps * n)) st st'"
          using spent_trans [OF first spent_mono [OF rest(1) join_cost_mono [OF len]]] .
        with rest(2) cost qs False show ?thesis by simp
      qed
    qed
  qed
qed auto

section \<open>Instances of heads and constraints\<close>

definition the_ground :: "valuation \<Rightarrow> rule_atom \<Rightarrow> rule_atom" where
  "the_ground \<sigma> a =
     \<lparr>ra_predicate = ra_predicate a, ra_args = map (\<lambda>t. Constant (the (term_under \<sigma> t))) (ra_args a)\<rparr>"

lemma the_ground_instance:
  assumes "atom_vars a \<subseteq> dom \<sigma>"
  shows "instance_under \<sigma> a (the_ground \<sigma> a)"
proof -
  have "term_under \<sigma> t = Some (the (term_under \<sigma> t))" if "t \<in> set (ra_args a)" for t
  proof -
    have "term_vars t \<subseteq> dom \<sigma>" using assms that by (auto simp: atom_vars_def)
    then show ?thesis by (cases t) auto
  qed
  then show ?thesis
    by (auto simp: instance_under_def the_ground_def list_all2_conv_all_nth)
qed

lemma ground_the_ground [simp]: "ground_atom (the_ground \<sigma> a)"
  by (simp add: ground_atom_def the_ground_def list_all_iff)

lemma the_ground_unique:
  "instance_under \<sigma> a f \<Longrightarrow> ground_atom f \<Longrightarrow> f = the_ground \<sigma> a"
  using the_ground_instance [OF instance_vars] by (auto intro: instance_unique)

lemma term_vars_atom: "t \<in> set (ra_args a) \<Longrightarrow> term_vars t \<subseteq> atom_vars a"
  by (auto simp: atom_vars_def)

lemma map_of_valid:
  "valid_bindings b \<Longrightarrow> map_of b x = Some c \<Longrightarrow> valid_term (Constant c)"
  by (auto simp: valid_bindings_def list_all_iff dest!: map_of_SomeD)

lemma fact_ok_the_ground:
  assumes "valid_atom a" and "valid_bindings b" and "atom_vars a \<subseteq> dom (map_of b)"
  shows "fact_ok (the_ground (map_of b) a)"
proof -
  have "valid_term (Constant (the (term_under (map_of b) t)))" if t: "t \<in> set (ra_args a)" for t
  proof (cases t)
    case (Constant c)
    have "valid_term t" using assms(1) t by (simp add: valid_atom_def list_all_iff)
    with Constant show ?thesis by simp
  next
    case (Variable x)
    have "x \<in> dom (map_of b)" using term_vars_atom [OF t] assms(3) Variable by auto
    with Variable map_of_valid [OF assms(2)] show ?thesis by (auto simp del: valid_term.simps)
  qed
  with assms(1) have "valid_atom (the_ground (map_of b) a)"
    by (simp add: valid_atom_def the_ground_def list_all_iff del: valid_term.simps)
  then show ?thesis by (simp add: fact_ok_def)
qed

lemma bindingsMap_distinct: "distinct (map fst b) \<Longrightarrow> bindingsMap b = map_of b"
  by (auto simp: bindingsMap_def rev_map [symmetric] intro: map_of_inject_set [THEN iffD2])

lemma instantiate_term_valid:
  assumes "valid_bindings b"
  shows "instantiate_term b t =
    Inr (if term_vars t \<subseteq> dom (map_of b) then Some (Constant (the (term_under (map_of b) t))) else None)"
proof (cases t)
  case (Variable x)
  have b: "bindingsMap b = map_of b" using assms by (simp add: bindingsMap_distinct valid_bindings_def)
  show ?thesis
  proof (cases "map_of b x")
    case (Some c)
    with Variable b map_of_valid [OF assms Some] show ?thesis by (auto simp del: valid_term.simps)
  qed (use Variable b in auto)
qed simp

lemma map_result_pure: "map_result (\<lambda>x. Inr (g x)) xs = Inr (map g xs)"
  by (induction xs) simp_all

lemma instantiateAtom_valid:
  assumes "valid_atom a" and "valid_bindings b"
  shows "instantiateAtom a b =
    Inr (if atom_vars a \<subseteq> dom (map_of b) then Some (the_ground (map_of b) a) else None)"
proof -
  let ?g = "\<lambda>t. if term_vars t \<subseteq> dom (map_of b) then Some (Constant (the (term_under (map_of b) t))) else None"
  have terms: "map_result (instantiate_term b) (ra_args a) = Inr (map ?g (ra_args a))"
  proof -
    have "instantiate_term b = (\<lambda>t. Inr (?g t))"
      by (rule ext) (rule instantiate_term_valid [OF assms(2)])
    then show ?thesis by (simp only: map_result_pure)
  qed
  have none: "None \<in> set (map ?g (ra_args a)) \<longleftrightarrow> \<not> atom_vars a \<subseteq> dom (map_of b)"
    by (auto simp: atom_vars_def split: if_splits)
  show ?thesis
  proof (cases "atom_vars a \<subseteq> dom (map_of b)")
    case True
    have args: "map (\<lambda>t. term_json (the t)) (map ?g (ra_args a)) = map term_json (ra_args (the_ground (map_of b) a))"
      using True by (auto simp: the_ground_def atom_vars_def)
    have "rule_atom_of (JStr (ra_predicate a)) (JArr (map term_json (ra_args (the_ground (map_of b) a))))
        = Inr (the_ground (map_of b) a)"
      using rule_atom_of_parts [of "the_ground (map_of b) a"] fact_ok_the_ground [OF assms True]
      by (simp add: the_ground_def fact_ok_def)
    with True terms none show ?thesis unfolding instantiateAtom_def by (simp only: bind_result_simps args if_False if_True simp_thms)
  next
    case False
    with terms none show ?thesis by (simp add: instantiateAtom_def)
  qed
qed

text \<open>The constraints of a rule hold under a valuation.\<close>

definition allowed :: "evaluator option \<Rightarrow> rule \<Rightarrow> valuation \<Rightarrow> bool" where
  "allowed evaluator r \<sigma> =
     (ru_constraints r = [] \<or>
      (\<exists>ev. evaluator = Some ev \<and> (\<forall>c\<in>set (ru_constraints r).
         atom_vars c \<subseteq> dom \<sigma> \<and> ev (the_ground \<sigma> c) = Inr (JBool True))))"

lemma allow_constraints_outcome:
  "allow_constraints cx ev b cs st = (x, st') \<Longrightarrow> list_all valid_atom cs \<Longrightarrow> valid_bindings b \<Longrightarrow>
     spent cx (length cs) st st'
     \<and> delivers cx st' x (\<forall>c\<in>set cs. atom_vars c \<subseteq> dom (map_of b)
          \<and> ev (the_ground (map_of b) c) = Inr (JBool True))"
proof (induction cx ev b cs st rule: allow_constraints.induct)
  case (2 cx ev b c cs st)
  have c: "valid_atom c" using "2.prems" by simp
  show ?case
  proof (cases "noteOperation cx st")
    case (Pair y u)
    show ?thesis
    proof (cases y)
      case (Some reason)
      with "2.prems" Pair stopped_at_once [of cx st reason u] show ?thesis by auto
    next
      case None
      note now = noted [of cx st u, OF Pair [unfolded None]]
      have once: "spent cx (Suc (length cs)) st u" by (rule now) simp
      show ?thesis
      proof (cases "atom_vars c \<subseteq> dom (map_of b)")
        case False
        with "2.prems" Pair None once show ?thesis by (auto simp: instantiateAtom_valid [OF c])
      next
        case True
        let ?g = "the_ground (map_of b) c"
        define verdict where "verdict = (case ev ?g of Inl _ \<Rightarrow> JStr ''unknown'' | Inr v \<Rightarrow> v)"
        have holds: "verdict = JBool True \<longleftrightarrow> ev ?g = Inr (JBool True)"
          by (auto simp: verdict_def split: sum.splits)
        have inst: "instantiateAtom c b = Inr (Some ?g)" using True by (simp add: instantiateAtom_valid [OF c "2.prems"(3)])
        show ?thesis
        proof (cases "verdict = JBool True")
          case False
          with "2.prems"(1) Pair None inst holds once show ?thesis
            by (auto simp: Let_def verdict_def [symmetric] split: if_splits)
        next
          case t: True
          with "2.prems"(1) Pair None inst have "allow_constraints cx ev b cs u = (x, st')"
            by (simp add: Let_def verdict_def [symmetric])
          from "2.IH" [OF Pair [symmetric] None inst refl verdict_def _ _ this] "2.prems" t holds True now
          show ?thesis by auto
        qed
      qed
    qed
  qed
qed auto

lemma rule_constraints_outcome:
  assumes "rule_constraints cx r b st = (x, st')" and "valid_rule r" and "valid_bindings b"
  shows "spent cx (length (ru_constraints r)) st st'
    \<and> delivers cx st' x (allowed (cx_evaluator cx) r (map_of b))"
proof (cases "ru_constraints r = []")
  case True
  with assms(1) show ?thesis by (auto simp: rule_constraints_def allowed_def)
next
  case False
  show ?thesis
  proof (cases "cx_evaluator cx")
    case None
    with assms(1) False show ?thesis by (auto simp: rule_constraints_def allowed_def)
  next
    case (Some ev)
    with assms(1) False have "allow_constraints cx ev b (ru_constraints r) st = (x, st')"
      by (simp add: rule_constraints_def)
    from allow_constraints_outcome [OF this _ assms(3)] assms(2) Some False show ?thesis
      by (simp add: valid_rule_def allowed_def)
  qed
qed

section \<open>The candidates of a rule and a driver position\<close>

definition candidate_of :: "rule \<Rightarrow> partial_match \<Rightarrow> raw_candidate" where
  "candidate_of r q =
     \<lparr>rc_fact = the_ground (map_of (pa_bindings q)) (ru_head r), rc_ruleId = ru_id r,
      rc_bindings = pa_bindings q, rc_supports = pa_supports q\<rparr>"

definition completions :: "evaluator option \<Rightarrow> rule \<Rightarrow> partial_match list \<Rightarrow> raw_candidate list" where
  "completions evaluator r ps =
     map (candidate_of r) (filter (\<lambda>q. allowed evaluator r (map_of (pa_bindings q))) ps)"

text \<open>A loop that collects: complete when it is not stopped, and never more than that.\<close>

definition collects ::
  "eval_context \<Rightarrow> eval_state \<Rightarrow> 'a list \<Rightarrow> early_stop option \<Rightarrow> 'a list \<Rightarrow> bool" where
  "collects cx st found stop everything =
     (set found \<subseteq> set everything
      \<and> (case stop of None \<Rightarrow> found = everything | Some s \<Rightarrow> stopped_by_budget cx st s))"

lemma collects_simps [simp]:
  "collects cx st found None everything \<longleftrightarrow> found = everything"
  "collects cx st found (Some s) everything \<longleftrightarrow>
     set found \<subseteq> set everything \<and> stopped_by_budget cx st s"
  by (auto simp: collects_def)

definition head_bound :: "rule \<Rightarrow> partial_match \<Rightarrow> bool" where
  "head_bound r q = (valid_bindings (pa_bindings q) \<and> atom_vars (ru_head r) \<subseteq> dom (map_of (pa_bindings q)))"

lemma complete_partials_outcome:
  "complete_partials cx r ps found st = (done', stop, st') \<Longrightarrow> valid_rule r \<Longrightarrow> list_all (head_bound r) ps \<Longrightarrow>
     spent cx (length ps * length (ru_constraints r)) st st'
     \<and> collects cx st' done' stop (found @ completions (cx_evaluator cx) r ps)"
proof (induction cx r ps found st rule: complete_partials.induct)
  case (1 cx r found st)
  then show ?case by (auto simp: completions_def)
next
  case (2 cx r p ps found st)
  let ?b = "pa_bindings p" and ?n = "length (ru_constraints r)"
  have p: "valid_bindings ?b" "atom_vars (ru_head r) \<subseteq> dom (map_of ?b)"
    using "2.prems"(3) by (simp_all add: head_bound_def)
  obtain x u where Pair: "rule_constraints cx r ?b st = (x, u)" by fastforce
  note first = rule_constraints_outcome [OF Pair "2.prems"(2) p(1)]
  show ?case
  proof (cases x)
    case (Inl s)
    with "2.prems"(1) Pair first show ?thesis by (auto intro: spent_mono)
  next
    case (Inr ok)
    with first have ok: "ok = allowed (cx_evaluator cx) r (map_of ?b)" by simp
    have head: "instantiateAtom (ru_head r) ?b = Inr (Some (the_ground (map_of ?b) (ru_head r)))"
      using "2.prems"(2) p by (simp add: instantiateAtom_valid valid_rule_def)
    show ?thesis
    proof (cases ok)
      case False
      with "2.prems"(1) Pair Inr have "complete_partials cx r ps found u = (done', stop, st')" by simp
      from "2.IH"(2) [OF Pair [symmetric] Inr _ this "2.prems"(2)] "2.prems"(3) False ok first
      show ?thesis by (auto simp: completions_def dest: spent_trans)
    next
      case True
      have "complete_partials cx r ps (found @ [candidate_of r p]) u = (done', stop, st')"
        using "2.prems"(1) Pair Inr True head by (simp add: candidate_of_def)
      from "2.IH"(1) [OF Pair [symmetric] Inr _ head refl] this "2.prems"(2,3) True ok first
      show ?thesis by (auto simp: completions_def candidate_of_def dest: spent_trans)
    qed
  qed
qed

definition body_vars :: "rule \<Rightarrow> string set" where
  "body_vars r = (\<Union>a\<in>set (ru_body r). atom_vars a)"

definition safe_rule :: "rule \<Rightarrow> bool" where
  "safe_rule r = (valid_rule r \<and> atom_vars (ru_head r) \<subseteq> body_vars r)"

text \<open>The partial matches of a driver fact, joined with the other body atoms.\<close>

definition driven ::
  "js_env \<Rightarrow> fact_index \<Rightarrow> rule \<Rightarrow> nat \<Rightarrow> rule_atom \<Rightarrow> partial_match list" where
  "driven env ix r i f =
     (case attempt_with env [] (ru_body r ! i) f of
        None \<Rightarrow> []
      | Some m \<Rightarrow> join_spec (attempt_with env) (pools_of ix) (others i 0 (ru_body r))
          [\<lparr>pa_bindings = m, pa_supports = [f]\<rparr>])"

definition rule_candidates ::
  "js_env \<Rightarrow> evaluator option \<Rightarrow> fact_index \<Rightarrow> rule \<Rightarrow> nat \<Rightarrow> rule_atom list \<Rightarrow> raw_candidate list" where
  "rule_candidates env evaluator ix r i fs =
     concat (map (\<lambda>f. completions evaluator r (driven env ix r i f)) fs)"

lemma first_attempt:
  "unifyAtom env (atom_json p) (atom_json f) no_options = unifyAtom env (atom_json p) (atom_json f) (engine_options [])"
proof -
  have opts: "uo_maxOperations (engine_options []) = uo_maxOperations no_options"
    "normalizeInitialBindings (uo_bindings (engine_options [])) = normalizeInitialBindings (uo_bindings no_options)"
    by (simp_all add: engine_options_def no_options_def bindings_json_def normalizeInitialBindings_def)
  have more: "uo_constraints (engine_options []) = uo_constraints no_options"
    "uo_constraintEvaluator (engine_options []) = uo_constraintEvaluator no_options"
    by (simp_all add: engine_options_def)
  have "match_atoms env (engine_options []) = match_atoms env no_options"
    by (intro ext) (simp only: match_atoms_def more)
  then show ?thesis unfolding unifyAtom_def opts by (rule ssubst) (rule refl)
qed

text \<open>An index whose pools hold facts only, at most \<open>n\<close> of them for a predicate.\<close>

definition index_ok :: "nat \<Rightarrow> fact_index \<Rightarrow> bool" where
  "index_ok n ix = (\<forall>a. length (pools_of ix a) \<le> n \<and> (\<forall>f\<in>set (pools_of ix a). fact_ok f))"

lemma set_others_driver:
  assumes "i < length as"
  shows "set as = insert (as ! i) (set (others i 0 as))"
proof (rule set_eqI)
  fix x
  have "x \<in> set as \<longleftrightarrow> (\<exists>j<length as. x = as ! j)" by (auto simp: in_set_conv_nth)
  also have "\<dots> \<longleftrightarrow> x = as ! i \<or> (\<exists>j<length as. j \<noteq> i \<and> x = as ! j)" using assms by blast
  finally show "x \<in> set as \<longleftrightarrow> x \<in> insert (as ! i) (set (others i 0 as))" by (simp add: in_others)
qed

lemma driven_sound:
  assumes "q \<in> set (driven env ix r i f)" and "index_ok n ix" and "fact_ok f"
    and "valid_rule r" and "i < length (ru_body r)"
  shows "valid_bindings (pa_bindings q)" and "dom (map_of (pa_bindings q)) = body_vars r"
    and "\<forall>a\<in>set (ru_body r). \<exists>g\<in>set (pa_supports q). instance_under (map_of (pa_bindings q)) a g"
    and "\<forall>g\<in>set (pa_supports q). g = f \<or> (\<exists>a. g \<in> set (pools_of ix a))"
proof -
  let ?d = "ru_body r ! i" and ?as = "others i 0 (ru_body r)"
  from assms(1) obtain m where m: "attempt_with env [] ?d f = Some m"
    and q: "q \<in> set (join_spec (attempt_with env) (pools_of ix) ?as [\<lparr>pa_bindings = m, pa_supports = [f]\<rparr>])"
    by (cases "attempt_with env [] ?d f") (auto simp: driven_def)
  have valid: "valid_atom a" if "a \<in> set (ru_body r)" for a
    using assms(4) that by (simp add: valid_rule_def list_all_iff)
  have body: "set (ru_body r) = insert ?d (set ?as)"
    using set_others_driver [OF assms(5)] .
  note first = unifier.attempt_Some [OF valid [OF nth_mem [OF assms(5)]] assms(3) valid_bindings_Nil m]
  have "\<exists>p\<in>set [\<lparr>pa_bindings = m, pa_supports = [f]\<rparr>]. map_of (pa_bindings p) \<subseteq>\<^sub>m map_of (pa_bindings q)
    \<and> dom (map_of (pa_bindings q)) = dom (map_of (pa_bindings p)) \<union> (\<Union>a\<in>set ?as. atom_vars a)
    \<and> valid_bindings (pa_bindings q) \<and> set (pa_supports p) \<subseteq> set (pa_supports q)
    \<and> (\<forall>f\<in>set (pa_supports q). f \<in> set (pa_supports p) \<or> (\<exists>a\<in>set ?as. f \<in> set (pools_of ix a)))
    \<and> (\<forall>a\<in>set ?as. \<exists>f\<in>set (pa_supports q). instance_under (map_of (pa_bindings q)) a f)"
    using q assms(2) valid body first by (intro unifier.join_sound) (auto simp: index_ok_def)
  then have facts: "map_of m \<subseteq>\<^sub>m map_of (pa_bindings q)"
    "dom (map_of (pa_bindings q)) = dom (map_of m) \<union> (\<Union>a\<in>set ?as. atom_vars a)"
    "valid_bindings (pa_bindings q)" "f \<in> set (pa_supports q)"
    "\<forall>g\<in>set (pa_supports q). g = f \<or> (\<exists>a\<in>set ?as. g \<in> set (pools_of ix a))"
    "\<forall>a\<in>set ?as. \<exists>f\<in>set (pa_supports q). instance_under (map_of (pa_bindings q)) a f" by auto
  have "instance_under (map_of (pa_bindings q)) ?d f"
    using first facts(1) by (auto simp: least_match_def intro: instance_mono)
  with facts first body
  show "valid_bindings (pa_bindings q)" and "dom (map_of (pa_bindings q)) = body_vars r"
    and "\<forall>a\<in>set (ru_body r). \<exists>g\<in>set (pa_supports q). instance_under (map_of (pa_bindings q)) a g"
    and "\<forall>g\<in>set (pa_supports q). g = f \<or> (\<exists>a. g \<in> set (pools_of ix a))"
    by (auto simp: body_vars_def least_match_def)
qed

lemma driven_complete:
  assumes "index_ok n ix" and "fact_ok f" and "valid_rule r" and "i < length (ru_body r)"
    and "dom \<sigma> = body_vars r" and "instance_under \<sigma> (ru_body r ! i) f"
    and "\<And>a. a \<in> set (ru_body r) \<Longrightarrow> \<exists>g\<in>set (pools_of ix a). instance_under \<sigma> a g"
  shows "\<exists>q\<in>set (driven env ix r i f). map_of (pa_bindings q) = \<sigma>"
proof -
  let ?d = "ru_body r ! i" and ?as = "others i 0 (ru_body r)"
  have valid: "valid_atom a" if "a \<in> set (ru_body r)" for a
    using assms(3) that by (simp add: valid_rule_def list_all_iff)
  have body: "set ?as \<subseteq> set (ru_body r)" using set_others_driver [OF assms(4)] by blast
  note d = valid [OF nth_mem [OF assms(4)]]
  from unifier.attempt_None [OF d assms(2) valid_bindings_Nil, of env \<sigma>] assms(6)
  obtain m where m: "attempt_with env [] ?d f = Some m" by fastforce
  note first = unifier.attempt_Some [OF d assms(2) valid_bindings_Nil m]
  have "\<exists>q\<in>set (join_spec (attempt_with env) (pools_of ix) ?as [\<lparr>pa_bindings = m, pa_supports = [f]\<rparr>]).
      map_of (pa_bindings q) \<subseteq>\<^sub>m \<sigma>"
  proof (rule unifier.join_complete)
    show "\<lparr>pa_bindings = m, pa_supports = [f]\<rparr> \<in> set [\<lparr>pa_bindings = m, pa_supports = [f]\<rparr>]" by simp
    show "map_of (pa_bindings \<lparr>pa_bindings = m, pa_supports = [f]\<rparr>) \<subseteq>\<^sub>m \<sigma>"
      using first assms(6) by (simp add: least_match_def)
  qed (use assms(1,7) valid body first in \<open>auto simp: index_ok_def\<close>)
  then obtain q where q: "q \<in> set (driven env ix r i f)" "map_of (pa_bindings q) \<subseteq>\<^sub>m \<sigma>"
    using m by (auto simp: driven_def)
  from driven_sound(2) [OF q(1) assms(1-4)] assms(5) q(2) have "map_of (pa_bindings q) = \<sigma>"
    by (intro map_le_antisym) (auto simp: map_le_def)
  with q(1) show ?thesis by blast
qed

lemma length_driven:
  assumes "index_ok n ix" and "0 < n" and "i < length (ru_body r)"
  shows "length (driven env ix r i f) \<le> n ^ (length (ru_body r) - 1)"
proof -
  let ?as = "others i 0 (ru_body r)"
  have "length (driven env ix r i f) \<le> n ^ length ?as"
    using length_join_spec [of "pools_of ix" n "attempt_with env" ?as] assms(1)
    by (auto simp: driven_def index_ok_def split: option.splits)
      (metis One_nat_def length_Cons list.size(3) mult.left_neutral)
  also have "\<dots> \<le> n ^ (length (ru_body r) - 1)"
    using length_others_driver [of 0 i "ru_body r"] assms(2,3) by (intro power_increasing) auto
  finally show ?thesis .
qed

lemma drive_outcome:
  "drive cx ix r i fs found st = (found', stop, st') \<Longrightarrow> index_ok n ix \<Longrightarrow> 0 < n \<Longrightarrow> safe_rule r \<Longrightarrow>
     i < length (ru_body r) \<Longrightarrow> list_all fact_ok fs \<Longrightarrow>
     spent cx (length fs * ((length (ru_body r) + length (ru_constraints r)) * n ^ (length (ru_body r) - 1))) st st'
     \<and> collects cx st' found' stop (found @ rule_candidates (cx_env cx) (cx_evaluator cx) ix r i fs)"
proof (induction cx ix r i fs found st rule: drive.induct)
  case (1 cx ix r i found st)
  then show ?case by (auto simp: rule_candidates_def)
next
  case (2 cx ix r i f fs found st)
  let ?env = "cx_env cx" and ?b = "length (ru_body r)" and ?c = "length (ru_constraints r)"
  let ?k = "length (others i 0 (ru_body r))"
  define K where "K = (?b + ?c) * n ^ (?b - 1)"
  let ?total = "found @ rule_candidates ?env (cx_evaluator cx) ix r i (f # fs)"
  note prems = "2.prems"(2-5) and f = "2.prems"(6)[simplified]
  have valid: "valid_rule r" using prems by (simp add: safe_rule_def)
  have k: "Suc ?k \<le> ?b" using length_others_driver [of 0 i "ru_body r"] prems(4) by simp
  have pow: "n ^ ?k \<le> n ^ (?b - 1)" using k prems(2) by (intro power_increasing) auto
  have one: "Suc 0 \<le> n ^ (?b - 1)" using prems(2) by simp
  have cost: "Suc (join_cost n ?k 1 + n ^ (?b - 1) * ?c) \<le> K"
  proof -
    have "join_cost n ?k 1 \<le> ?k * n ^ ?k" using join_cost_le [OF prems(2), of ?k 1] by simp
    also have "\<dots> \<le> ?k * n ^ (?b - 1)" using pow by simp
    finally have "Suc (join_cost n ?k 1 + n ^ (?b - 1) * ?c) \<le> n ^ (?b - 1) + ?k * n ^ (?b - 1) + n ^ (?b - 1) * ?c"
      using one by simp
    also have "\<dots> = (Suc ?k + ?c) * n ^ (?b - 1)" by (simp add: algebra_simps)
    also have "\<dots> \<le> K" unfolding K_def using k by (intro mult_le_mono1) simp
    finally show ?thesis .
  qed
  have within: "spent cx m st st' \<Longrightarrow> m \<le> K \<Longrightarrow> spent cx (length (f # fs) * K) st st'" for m st st'
    by (erule spent_mono) simp
  have Suc0: "1 \<le> K" by (rule order_trans [OF _ cost]) simp
  obtain y u where note_op: "noteOperation cx (count_visit st) = (y, u)" by fastforce
  have first: "spent cx 1 st u" using noteOperation_outcome(1) [OF note_op] by simp
  have "spent cx (length (f # fs) * K) st st' \<and> collects cx st' found' stop ?total"
  proof (cases y)
    case (Some reason)
    with "2.prems"(1) note_op have "found' = found" "stop = Some (Stop reason)" "st' = u" by simp_all
    with within [OF first Suc0] stopped_at_once [OF note_op [unfolded Some]] show ?thesis by simp
  next
    case None
    define m where "m = unifyAtom ?env (atom_json (ru_body r ! i)) (atom_json f) no_options"
    show ?thesis
    proof (cases "un_status m = Match")
      case False
      then have "attempt_with ?env [] (ru_body r ! i) f = None"
        by (simp add: attempt_with_def first_attempt [symmetric] m_def Let_def)
      then have total: "?total = found @ rule_candidates ?env (cx_evaluator cx) ix r i fs"
        by (simp add: rule_candidates_def driven_def completions_def)
      from False "2.prems"(1) note_op None have rec: "drive cx ix r i fs found (count_attempt u) = (found', stop, st')"
        by (simp add: Let_def m_def)
      from "2.IH"(1) [OF note_op [symmetric] None refl m_def False rec prems, folded K_def] f
      have IH: "spent cx (length fs * K) u st'"
        "collects cx st' found' stop (found @ rule_candidates ?env (cx_evaluator cx) ix r i fs)" by simp_all
      have "spent cx (K + length fs * K) st st'"
        using spent_trans [OF spent_mono [OF first Suc0] IH(1)] .
      with IH(2) total show ?thesis by simp
    next
      case True
      define q0 where "q0 = \<lparr>pa_bindings = un_bindings m, pa_supports = [f]\<rparr>"
      have "attempt_with ?env [] (ru_body r ! i) f = Some (un_bindings m)"
        using True by (simp add: attempt_with_def first_attempt [symmetric] m_def Let_def)
      then have driven: "driven ?env ix r i f = join_spec (attempt_with ?env) (pools_of ix) (others i 0 (ru_body r)) [q0]"
        by (simp add: driven_def q0_def)
      have total: "?total = (found @ completions (cx_evaluator cx) r (driven ?env ix r i f))
          @ rule_candidates ?env (cx_evaluator cx) ix r i fs"
        by (simp add: rule_candidates_def)
      obtain j v where join: "join_body cx ix i 0 (ru_body r) [q0] (count_attempt u) = (j, v)" by fastforce
      have joined: "spent cx (join_cost n ?k 1) u v" "delivers cx v j (driven ?env ix r i f)"
        using join_body_outcome [OF join, of n] prems(1) driven by (simp_all add: index_ok_def)
      then have upto: "spent cx (Suc (join_cost n ?k 1)) st v" using spent_trans [OF first joined(1)] by simp
      show ?thesis
      proof (cases j)
        case (Inl s)
        with "2.prems"(1) note_op None True join have "found' = found" "stop = Some s" "st' = v"
          by (simp_all add: Let_def m_def q0_def)
        with joined Inl within [OF upto] cost show ?thesis by simp
      next
        case (Inr qs)
        with joined have qs: "qs = driven ?env ix r i f" by simp
        have bound: "list_all (head_bound r) qs"
          using driven_sound(1,2) [of _ ?env ix r i f n] prems valid f
          by (auto simp: qs list_all_iff head_bound_def safe_rule_def)
        obtain found1 s w where comp: "complete_partials cx r qs found v = (found1, s, w)"
          by (metis prod_cases3)
        have completed: "spent cx (length qs * ?c) v w"
          "collects cx w found1 s (found @ completions (cx_evaluator cx) r qs)"
          using complete_partials_outcome [OF comp valid bound] by simp_all
        have "Suc (join_cost n ?k 1) + length qs * ?c \<le> Suc (join_cost n ?k 1) + n ^ (?b - 1) * ?c"
          unfolding qs using length_driven [OF prems(1,2,4)] by (intro add_left_mono mult_le_mono1)
        also have "\<dots> \<le> K" using cost by simp
        finally have upto2: "spent cx K st w" by (rule spent_mono [OF spent_trans [OF upto completed(1)]])
        show ?thesis
        proof (cases s)
          case (Some s')
          with "2.prems"(1) note_op None True join Inr comp have "found' = found1" "stop = Some s'" "st' = w"
            by (simp_all add: Let_def m_def q0_def)
          with completed Some within [OF upto2] total qs show ?thesis by auto
        next
          case s: None
          with "2.prems"(1) note_op None True join Inr comp have rec: "drive cx ix r i fs found1 w = (found', stop, st')"
            by (simp add: Let_def m_def q0_def)
          have join': "join_body cx ix i 0 (ru_body r) [\<lparr>pa_bindings = un_bindings m, pa_supports = [f]\<rparr>] (count_attempt u) = (j, v)"
            using join by (simp add: q0_def)
          from "2.IH"(2) [OF note_op [symmetric] None refl m_def _ join' [symmetric] Inr comp [symmetric] refl s rec prems, folded K_def] True f
          have IH: "spent cx (length fs * K) w st'"
            "collects cx st' found' stop (found1 @ rule_candidates ?env (cx_evaluator cx) ix r i fs)" by simp_all
          from spent_trans [OF upto2 IH(1)] IH(2) total completed(2) s qs show ?thesis by simp
        qed
      qed
    qed
  qed
  then show ?case by (simp only: K_def)
qed

end
