(* ===== verification/Semi_Naive_Facts.thy ===== *)
theory Semi_Naive_Facts
  imports Semi_Naive_Joins
begin

text \<open>
  The evaluation computes the least model.  \<open>consequence\<close> is the abstract specification: the facts that
  are given, and the heads of rules whose body atoms are consequences under a valuation that the
  constraints allow.  The invariant \<open>round_ok\<close> of the loop says that the known facts are consequences, that they
  are closed under the rules except for what the newest facts may still give, and that every candidate
  has a derivation from facts of earlier rounds.
\<close>

section \<open>Keys determine facts\<close>

lemma json_data_strings: "json_data (JArr (JStr p # map (\<lambda>t. JStr (h t)) ts))"
  by (simp add: list_all_iff)

lemma factKey_inject:
  assumes "ground_atom f" and "ground_atom g" and "factKey env f = factKey env g"
  shows "f = g"
proof -
  define v :: "rule_atom \<Rightarrow> jsval" where "v f = JArr (JStr (ra_predicate f) # map (\<lambda>t. JStr (term_value t)) (ra_args f))" for f
  have data: "json_data (v h)" for h unfolding v_def by (rule json_data_strings)
  have "stringify env (v f) = stringify env (v g)"
    using assms(3) stringify_data [OF data, of env f] stringify_data [OF data, of env g]
    by (simp only: factKey_def v_def [symmetric] option.sel)
  then have "v f = v g" using data by (metis stringify_inject)
  then have pred: "ra_predicate f = ra_predicate g"
    and vals: "map JStr (map term_value (ra_args f)) = map JStr (map term_value (ra_args g))"
    by (simp_all add: v_def comp_def)
  have "map term_value (ra_args f) = map term_value (ra_args g)"
    using vals by (rule map_injective) (simp add: inj_def)
  moreover have "inj_on term_value (set (ra_args f) \<union> set (ra_args g))"
    using assms(1,2) by (auto simp: inj_on_def ground_atom_def list_all_iff intro: term_value_inject)
  ultimately have "ra_args f = ra_args g" by (rule map_inj_on)
  with pred show ?thesis by simp
qed

text \<open>A map of the code from keys to facts that holds exactly the facts of \<open>K\<close>.\<close>

definition keyed :: "js_env \<Rightarrow> (string \<times> rule_atom) list \<Rightarrow> rule_atom set \<Rightarrow> bool" where
  "keyed env m K = (distinct (map fst m) \<and> set m = (\<lambda>f. (factKey env f, f)) ` K)"

definition facts_ok :: "rule_atom set \<Rightarrow> bool" where
  "facts_ok K = (\<forall>f\<in>K. fact_ok f)"

lemma facts_ok_key:
  "facts_ok K \<Longrightarrow> f \<in> K \<Longrightarrow> g \<in> K \<Longrightarrow> factKey env f = factKey env g \<longleftrightarrow> f = g"
  by (auto simp: facts_ok_def fact_ok_def dest: factKey_inject)

lemma keyed_lookup:
  assumes "keyed env m K" and "facts_ok (insert f K)"
  shows "map_of m (factKey env f) = (if f \<in> K then Some f else None)"
proof (cases "f \<in> K")
  case True
  with assms(1) have "(factKey env f, f) \<in> set m" by (simp add: keyed_def)
  with assms(1) True show ?thesis by (simp add: keyed_def)
next
  case False
  then have "factKey env f \<notin> fst ` set m"
    using assms facts_ok_key [OF assms(2)] by (auto simp: keyed_def image_iff)
  with False show ?thesis by (simp add: map_of_eq_None_iff)
qed

lemma keyed_put:
  assumes "keyed env m K" and "facts_ok (insert f K)"
  shows "keyed env (alist_put (factKey env f) f m) (insert f K)"
proof -
  have d: "distinct (map fst (alist_put (factKey env f) f m))"
    using assms(1) by (intro distinct_alist_put) (simp add: keyed_def)
  have m: "(k, g) \<in> set m \<longleftrightarrow> map_of m k = Some g" for k g
    using assms(1) by (simp add: keyed_def)
  have "(k, g) \<in> set (alist_put (factKey env f) f m) \<longleftrightarrow> (k, g) \<in> (\<lambda>f. (factKey env f, f)) ` insert f K" for k g
  proof -
    have "(k, g) \<in> set (alist_put (factKey env f) f m) \<longleftrightarrow> map_of (alist_put (factKey env f) f m) k = Some g"
      by (simp only: map_of_eq_Some_iff [OF d])
    also have "\<dots> \<longleftrightarrow> (if k = factKey env f then f = g else (k, g) \<in> set m)" using m by simp
    also have "\<dots> \<longleftrightarrow> (k, g) \<in> (\<lambda>f. (factKey env f, f)) ` insert f K"
      using assms facts_ok_key [OF assms(2)] by (auto simp: keyed_def)
    finally show ?thesis .
  qed
  with d show ?thesis by (auto simp: keyed_def)
qed

lemma keyed_fold:
  "keyed env m K \<Longrightarrow> facts_ok (K \<union> set fs) \<Longrightarrow>
     keyed env (foldl (\<lambda>m f. alist_put (factKey env f) f m) m fs) (K \<union> set fs)"
proof (induction fs arbitrary: m K)
  case (Cons f fs)
  have "keyed env (alist_put (factKey env f) f m) (insert f K)"
    using Cons.prems by (intro keyed_put) (auto simp: facts_ok_def)
  from Cons.IH [OF this] Cons.prems(2) show ?case by simp
qed simp

lemma keyed_by_key: "facts_ok (set fs) \<Longrightarrow> keyed env (by_key env fs) (set fs)"
  using keyed_fold [of env "[]" "{}" fs] by (simp add: by_key_def keyed_def)

lemma keyed_facts:
  assumes "keyed env m K"
  shows "set (map snd m) = K" and "distinct (map snd m)" and "length m = card K"
proof -
  show "set (map snd m) = K" using assms by (auto simp: keyed_def image_image)
  have "inj_on snd (set m)" using assms by (auto simp: keyed_def inj_on_def)
  moreover have "distinct m" using assms by (simp add: keyed_def distinct_map)
  ultimately show d: "distinct (map snd m)" by (simp add: distinct_map)
  show "length m = card K" using distinct_card [OF d] \<open>set (map snd m) = K\<close> by simp
qed

lemma keyed_sorted:
  assumes "keyed env m K"
  shows "set (map snd (sort_by cmp m)) = K" and "distinct (map snd (sort_by cmp m))"
    and "length (map snd (sort_by cmp m)) = card K"
proof -
  have p: "mset (map snd (sort_by cmp m)) = mset (map snd m)" by simp
  show "set (map snd (sort_by cmp m)) = K" "distinct (map snd (sort_by cmp m))"
    "length (map snd (sort_by cmp m)) = card K"
    using keyed_facts [OF assms] mset_eq_setD [OF p] mset_eq_imp_distinct_iff [OF p] by simp_all
qed

section \<open>Indexes\<close>

definition index_for :: "fact_index \<Rightarrow> rule_atom set \<Rightarrow> bool" where
  "index_for ix K =
     (\<forall>p. distinct (index_get ix p) \<and> set (index_get ix p) = {f \<in> K. ra_predicate f = p})"

lemma index_get_put:
  "index_get (alist_put p fs ix) q = (if q = p then fs else index_get ix q)"
  by (simp add: index_get_def)

lemma mset_sort_facts: "mset (sort_facts env fs) = mset fs"
  by (simp add: sort_facts_def)

lemma sort_facts_simps [simp]:
  "set (sort_facts env fs) = set fs" "distinct (sort_facts env fs) = distinct fs" "sort_facts env [] = []"
  using mset_eq_setD [OF mset_sort_facts] mset_eq_imp_distinct_iff [OF mset_sort_facts]
    arg_cong [OF mset_sort_facts, of size env "[]"] by simp_all

lemma index_for_put:
  assumes "index_for ix K" and "f \<notin> K" and "\<And>fs. set (g fs) = set fs \<and> distinct (g fs) = distinct fs"
  shows "index_for (alist_put (ra_predicate f) (g (index_get ix (ra_predicate f) @ [f])) ix) (insert f K)"
  using assms by (auto simp: index_for_def index_get_put)

lemma index_for_fold:
  assumes "\<And>fs. set (g fs) = set fs \<and> distinct (g fs) = distinct fs"
  shows "index_for ix K \<Longrightarrow> distinct fs \<Longrightarrow> set fs \<inter> K = {} \<Longrightarrow>
     index_for (foldl (\<lambda>ix f. alist_put (ra_predicate f) (g (index_get ix (ra_predicate f) @ [f])) ix) ix fs) (K \<union> set fs)"
proof (induction fs arbitrary: ix K)
  case (Cons f fs)
  let ?ix = "alist_put (ra_predicate f) (g (index_get ix (ra_predicate f) @ [f])) ix"
  have "index_for ?ix (insert f K)" using Cons.prems by (intro index_for_put assms) auto
  from Cons.IH [OF this] Cons.prems show ?case by auto
qed simp

lemma index_for_add:
  "index_for ix K \<Longrightarrow> distinct fs \<Longrightarrow> set fs \<inter> K = {} \<Longrightarrow>
     index_for (foldl (addFactToPredicateIndex env) ix fs) (K \<union> set fs)"
  using index_for_fold [of "sort_facts env" ix K fs] unfolding addFactToPredicateIndex_def by simp

lemma index_for_build:
  assumes "distinct fs"
  shows "index_for (buildPredicateIndex env fs) (set fs)"
proof -
  define ix where "ix = foldl (\<lambda>ix f. alist_put (ra_predicate f) (index_get ix (ra_predicate f) @ [f]) ix) [] fs"
  have "index_for ix (set fs)"
    using index_for_fold [of "\<lambda>fs. fs" "[]" "{}" fs] assms
    by (simp add: ix_def index_for_def index_get_def)
  moreover have "index_get (map (apsnd (sort_facts env)) ix) p = sort_facts env (index_get ix p)" for p
    by (simp add: index_get_def map_of_apsnd split: option.split)
  ultimately show ?thesis by (simp add: index_for_def buildPredicateIndex_def ix_def [symmetric])
qed

lemma index_for_ok:
  assumes "index_for ix K" and "facts_ok K" and "finite K" and "card K \<le> n"
  shows "index_ok n ix"
proof -
  have "length (index_get ix p) \<le> n" for p
  proof -
    have "length (index_get ix p) = card {f \<in> K. ra_predicate f = p}"
      using assms(1) distinct_card [of "index_get ix p"] by (simp add: index_for_def)
    also have "\<dots> \<le> card K" using assms(3) by (intro card_mono) auto
    finally show ?thesis using assms(4) by simp
  qed
  moreover have "fact_ok f" if "f \<in> set (index_get ix p)" for f p
    using assms(1,2) that by (auto simp: index_for_def facts_ok_def)
  ultimately show ?thesis by (simp add: index_ok_def)
qed

section \<open>The least model\<close>

inductive_set consequences :: "evaluator option \<Rightarrow> rule set \<Rightarrow> rule_atom set \<Rightarrow> rule_atom set"
  for evaluator rs F where
    given: "f \<in> F \<Longrightarrow> f \<in> consequences evaluator rs F"
  | derived: "r \<in> rs \<Longrightarrow> dom \<sigma> = body_vars r \<Longrightarrow>
      (\<And>a. a \<in> set (ru_body r) \<Longrightarrow> the_ground \<sigma> a \<in> consequences evaluator rs F) \<Longrightarrow>
      allowed evaluator r \<sigma> \<Longrightarrow> the_ground \<sigma> (ru_head r) \<in> consequences evaluator rs F"

text \<open>The model is finite: its facts are built from the predicates and constants of the input.\<close>

definition herbrand :: "rule_atom set \<Rightarrow> rule_atom set" where
  "herbrand A =
     {a. ra_predicate a \<in> ra_predicate ` A \<and> length (ra_args a) \<in> (length \<circ> ra_args) ` A
       \<and> set (ra_args a) \<subseteq> (\<Union>f\<in>A. set (ra_args f)) \<and> ground_atom a}"

lemma finite_herbrand:
  assumes "finite A"
  shows "finite (herbrand A)"
proof -
  let ?C = "\<Union>f\<in>A. set (ra_args f)" and ?n = "Max ((length \<circ> ra_args) ` A)"
  have "herbrand A \<subseteq> (\<lambda>(p, ts). \<lparr>ra_predicate = p, ra_args = ts\<rparr>)
      ` (ra_predicate ` A \<times> {ts. set ts \<subseteq> ?C \<and> length ts \<le> ?n})"
  proof
    fix a assume a: "a \<in> herbrand A"
    then have "length (ra_args a) \<le> ?n" using assms by (intro Max_ge) (auto simp: herbrand_def)
    with a show "a \<in> (\<lambda>(p, ts). \<lparr>ra_predicate = p, ra_args = ts\<rparr>)
        ` (ra_predicate ` A \<times> {ts. set ts \<subseteq> ?C \<and> length ts \<le> ?n})"
      by (intro image_eqI [of _ _ "(ra_predicate a, ra_args a)"]) (auto simp: herbrand_def)
  qed
  moreover have "finite {ts. set ts \<subseteq> ?C \<and> length ts \<le> ?n}"
    using assms by (intro finite_lists_length_le) auto
  ultimately show ?thesis using assms by (meson finite_SigmaI finite_imageI finite_subset)
qed

lemma the_ground_args:
  assumes "atom_vars h \<subseteq> (\<Union>a\<in>B. atom_vars a)"
    and "\<And>a. a \<in> B \<Longrightarrow> set (ra_args (the_ground \<sigma> a)) \<subseteq> C" and "\<And>t. t \<in> set (ra_args h) \<Longrightarrow> is_constant t \<Longrightarrow> t \<in> C"
  shows "set (ra_args (the_ground \<sigma> h)) \<subseteq> C"
proof
  fix u assume "u \<in> set (ra_args (the_ground \<sigma> h))"
  then obtain t where t: "t \<in> set (ra_args h)" "u = Constant (the (term_under \<sigma> t))"
    by (auto simp: the_ground_def)
  show "u \<in> C"
  proof (cases t)
    case (Variable x)
    then have "x \<in> atom_vars h" using t by (force simp: atom_vars_def)
    then obtain a s where a: "a \<in> B" "s \<in> set (ra_args a)" "x \<in> term_vars s"
      using assms(1) by (auto simp: atom_vars_def)
    then have "u \<in> set (ra_args (the_ground \<sigma> a))" using Variable t(2) by (cases s) (force simp: the_ground_def)+
    with assms(2) a(1) show ?thesis by blast
  qed (use assms(3) [OF t(1)] t(2) in simp)
qed

lemma consequences_herbrand:
  assumes "\<And>r. r \<in> rs \<Longrightarrow> safe_rule r" and "\<And>f. f \<in> F \<Longrightarrow> ground_atom f"
  shows "consequences evaluator rs F \<subseteq> herbrand (F \<union> ru_head ` rs)"
proof
  fix f assume "f \<in> consequences evaluator rs F"
  then show "f \<in> herbrand (F \<union> ru_head ` rs)"
  proof (induction rule: consequences.induct)
    case (given f)
    with assms(2) show ?case by (auto simp: herbrand_def)
  next
    case (derived r \<sigma>)
    let ?A = "F \<union> ru_head ` rs"
    have "set (ra_args (the_ground \<sigma> (ru_head r))) \<subseteq> (\<Union>f\<in>?A. set (ra_args f))"
    proof (rule the_ground_args [of _ "set (ru_body r)"])
      show "atom_vars (ru_head r) \<subseteq> (\<Union>a\<in>set (ru_body r). atom_vars a)"
        using assms(1) [OF derived(1)] by (simp add: safe_rule_def body_vars_def)
    qed (use derived in \<open>auto simp: herbrand_def\<close>)
    moreover have "ra_predicate (the_ground \<sigma> (ru_head r)) \<in> ra_predicate ` ?A"
      "length (ra_args (the_ground \<sigma> (ru_head r))) \<in> (length \<circ> ra_args) ` ?A"
      using derived(1) by (auto simp: the_ground_def)
    ultimately show ?case by (simp add: herbrand_def)
  qed
qed

lemma finite_consequences:
  assumes "\<And>r. r \<in> rs \<Longrightarrow> safe_rule r" and "\<And>f. f \<in> F \<Longrightarrow> ground_atom f" and "finite rs" and "finite F"
  shows "finite (consequences evaluator rs F)"
proof (rule finite_subset)
  show "consequences evaluator rs F \<subseteq> herbrand (F \<union> ru_head ` rs)"
    using assms(1,2) by (rule consequences_herbrand)
  show "finite (herbrand (F \<union> ru_head ` rs))" using assms(3,4) by (intro finite_herbrand) simp
qed

text \<open>A set that holds the given facts and is closed under the rules holds the model.\<close>

definition closed_under :: "evaluator option \<Rightarrow> rule set \<Rightarrow> rule_atom set \<Rightarrow> rule_atom set \<Rightarrow> bool" where
  "closed_under evaluator rs old K =
     (\<forall>r\<in>rs. \<forall>\<sigma>. dom \<sigma> = body_vars r \<and> the_ground \<sigma> ` set (ru_body r) \<subseteq> old \<and> allowed evaluator r \<sigma>
        \<longrightarrow> the_ground \<sigma> (ru_head r) \<in> K)"

lemma closed_underD:
  "closed_under evaluator rs old K \<Longrightarrow> r \<in> rs \<Longrightarrow> dom \<sigma> = body_vars r \<Longrightarrow>
     (\<And>a. a \<in> set (ru_body r) \<Longrightarrow> the_ground \<sigma> a \<in> old) \<Longrightarrow> allowed evaluator r \<sigma> \<Longrightarrow>
     the_ground \<sigma> (ru_head r) \<in> K"
  unfolding closed_under_def by blast

lemma consequences_least:
  assumes "closed_under evaluator rs K K" and "F \<subseteq> K"
  shows "consequences evaluator rs F \<subseteq> K"
proof
  fix f assume "f \<in> consequences evaluator rs F"
  then show "f \<in> K"
    by (induction rule: consequences.induct) (use assms in \<open>auto intro: closed_underD\<close>)
qed

section \<open>The candidates of a round\<close>

definition justified :: "evaluator option \<Rightarrow> rule set \<Rightarrow> rule_atom set \<Rightarrow> raw_candidate \<Rightarrow> bool" where
  "justified evaluator rs K c =
     (\<exists>r\<in>rs. let \<sigma> = map_of (rc_bindings c) in
        rc_ruleId c = ru_id r \<and> dom \<sigma> = body_vars r \<and> valid_bindings (rc_bindings c)
        \<and> rc_fact c = the_ground \<sigma> (ru_head r) \<and> the_ground \<sigma> ` set (ru_body r) \<subseteq> set (rc_supports c)
        \<and> set (rc_supports c) \<subseteq> K \<and> allowed evaluator r \<sigma>)"

definition round_candidates ::
  "js_env \<Rightarrow> evaluator option \<Rightarrow> fact_index \<Rightarrow> fact_index \<Rightarrow> (rule \<times> nat) list \<Rightarrow> raw_candidate list" where
  "round_candidates env evaluator ix deltaIndex jobs =
     concat (map (\<lambda>(r, i). rule_candidates env evaluator ix r i (pools_of deltaIndex (ru_body r ! i))) jobs)"

lemma round_candidates_Cons [simp]:
  "round_candidates env evaluator ix dx ((r, i) # jobs) =
     rule_candidates env evaluator ix r i (pools_of dx (ru_body r ! i)) @ round_candidates env evaluator ix dx jobs"
  "round_candidates env evaluator ix dx [] = []"
  by (simp_all add: round_candidates_def)

lemma in_jobs_of: "(r, i) \<in> set (jobs_of rs) \<longleftrightarrow> r \<in> set rs \<and> i < length (ru_body r)"
  by (force simp: jobs_of_def)

lemma predicate_the_ground [simp]: "ra_predicate (the_ground \<sigma> a) = ra_predicate a"
  by (simp add: the_ground_def)

lemma index_for_pool: "index_for ix K \<Longrightarrow> g \<in> set (pools_of ix a) \<longleftrightarrow> g \<in> K \<and> ra_predicate g = ra_predicate a"
  by (simp add: index_for_def)

lemma rule_candidate_justified:
  assumes c: "c \<in> set (rule_candidates env evaluator ix r i fs)" and r: "r \<in> rs" "safe_rule r" "i < length (ru_body r)"
    and ix: "index_for ix K" "index_ok n ix" and fs: "set fs \<subseteq> K" "list_all fact_ok fs"
  shows "justified evaluator rs K c"
proof -
  from c obtain f q where f: "f \<in> set fs" and q: "q \<in> set (driven env ix r i f)"
    and allowed: "allowed evaluator r (map_of (pa_bindings q))" and c: "c = candidate_of r q"
    by (auto simp: rule_candidates_def completions_def)
  have "fact_ok f" using fs f by (simp add: list_all_iff)
  note sound = driven_sound [OF q ix(2) this _ r(3)]
  have valid: "valid_rule r" using r(2) by (simp add: safe_rule_def)
  have supports: "set (pa_supports q) \<subseteq> K"
    using sound(4) [OF valid] f fs(1) by (auto simp: index_for_pool [OF ix(1)])
  have ok: "fact_ok g" if "g \<in> set (pa_supports q)" for g
    using sound(4) [OF valid] that \<open>fact_ok f\<close> ix(2) by (auto simp: index_ok_def)
  have "the_ground (map_of (pa_bindings q)) a \<in> set (pa_supports q)" if a: "a \<in> set (ru_body r)" for a
  proof -
    from sound(3) [OF valid] a obtain g where g: "g \<in> set (pa_supports q)"
      "instance_under (map_of (pa_bindings q)) a g" by blast
    then have "g = the_ground (map_of (pa_bindings q)) a"
      using ok [OF g(1)] by (intro the_ground_unique) (simp_all add: fact_ok_def)
    with g show ?thesis by simp
  qed
  with sound(1,2) [OF valid] allowed supports r(1) c show ?thesis
    unfolding justified_def by (intro bexI [of _ r]) (auto simp: candidate_of_def Let_def)
qed

lemma rule_candidate_complete:
  assumes r: "safe_rule r" "i < length (ru_body r)" and ix: "index_for ix K" "index_ok n ix" "facts_ok K"
    and \<sigma>: "dom \<sigma> = body_vars r" "the_ground \<sigma> ` set (ru_body r) \<subseteq> K" "allowed evaluator r \<sigma>"
    and f: "the_ground \<sigma> (ru_body r ! i) \<in> set fs" "list_all fact_ok fs"
  shows "\<exists>c\<in>set (rule_candidates env evaluator ix r i fs). rc_fact c = the_ground \<sigma> (ru_head r)"
proof -
  have vars: "atom_vars a \<subseteq> dom \<sigma>" if "a \<in> set (ru_body r)" for a
    using that \<sigma>(1) by (auto simp: body_vars_def)
  let ?f = "the_ground \<sigma> (ru_body r ! i)"
  have "\<exists>q\<in>set (driven env ix r i ?f). map_of (pa_bindings q) = \<sigma>"
  proof (rule driven_complete [OF ix(2) _ _ r(2) \<sigma>(1)])
    show "instance_under \<sigma> (ru_body r ! i) ?f" using vars r(2) by (simp add: the_ground_instance)
    show "\<exists>g\<in>set (pools_of ix a). instance_under \<sigma> a g" if "a \<in> set (ru_body r)" for a
      using that vars [OF that] \<sigma>(2)
      by (intro bexI [of _ "the_ground \<sigma> a"]) (auto simp: the_ground_instance index_for_pool [OF ix(1)])
  qed (use r f in \<open>simp_all add: safe_rule_def list_all_iff\<close>)
  then obtain q where "q \<in> set (driven env ix r i ?f)" "map_of (pa_bindings q) = \<sigma>" by blast
  with f(1) \<sigma>(3) show ?thesis
    by (intro bexI [of _ "candidate_of r q"]) (auto simp: candidate_of_def rule_candidates_def completions_def)
qed

text \<open>A round finds what follows from the known facts with a new one among them.\<close>

lemma round_candidates_complete:
  assumes safe: "\<forall>r\<in>set rs. safe_rule r" and ix: "index_for ix K" "index_ok n ix" "facts_ok K"
    and dx: "index_for dx D" "D \<subseteq> K" and old: "closed_under evaluator (set rs) (K - D) K"
  shows "closed_under evaluator (set rs) K (K \<union> rc_fact ` set (round_candidates env evaluator ix dx (jobs_of rs)))"
  unfolding closed_under_def
proof (intro ballI allI impI, elim conjE)
  fix r \<sigma> assume r: "r \<in> set rs" and \<sigma>: "dom \<sigma> = body_vars r" "the_ground \<sigma> ` set (ru_body r) \<subseteq> K" "allowed evaluator r \<sigma>"
  show "the_ground \<sigma> (ru_head r) \<in> K \<union> rc_fact ` set (round_candidates env evaluator ix dx (jobs_of rs))"
  proof (cases "\<exists>a\<in>set (ru_body r). the_ground \<sigma> a \<in> D")
    case True
    then obtain i where i: "i < length (ru_body r)" "the_ground \<sigma> (ru_body r ! i) \<in> D"
      by (auto simp: in_set_conv_nth)
    let ?fs = "pools_of dx (ru_body r ! i)"
    have "list_all fact_ok ?fs" using dx ix(3) by (auto simp: list_all_iff index_for_pool facts_ok_def)
    moreover have "the_ground \<sigma> (ru_body r ! i) \<in> set ?fs"
      using i dx by (simp add: index_for_pool)
    ultimately obtain c where "c \<in> set (rule_candidates env evaluator ix r i ?fs)" "rc_fact c = the_ground \<sigma> (ru_head r)"
      using rule_candidate_complete [OF _ i(1) ix \<sigma>] safe r by blast
    moreover have "(r, i) \<in> set (jobs_of rs)" using r i by (simp add: in_jobs_of)
    ultimately show ?thesis unfolding round_candidates_def by force
  next
    case False
    with \<sigma> have "the_ground \<sigma> a \<in> K - D" if "a \<in> set (ru_body r)" for a using that by auto
    from closed_underD [OF old r \<sigma>(1) this \<sigma>(3)] show ?thesis by blast
  qed
qed

section \<open>Derivations\<close>

definition derivation :: "evaluator option \<Rightarrow> rule set \<Rightarrow> rule_atom set \<Rightarrow> candidate \<Rightarrow> bool" where
  "derivation evaluator rs K c =
     (\<exists>r\<in>rs. let \<sigma> = map_of (ca_bindings c) in
        ca_ruleId c = ru_id r \<and> dom \<sigma> = body_vars r
        \<and> ca_fact c = the_ground \<sigma> (ru_head r) \<and> the_ground \<sigma> ` set (ru_body r) \<subseteq> set (ca_supports c)
        \<and> set (ca_supports c) \<subseteq> K \<and> allowed evaluator r \<sigma>)"

text \<open>The facts of the candidates \<open>C\<close> of rounds before \<open>n\<close>.\<close>

definition earlier :: "candidate set \<Rightarrow> nat \<Rightarrow> rule_atom set" where
  "earlier C n = {ca_fact c | c. c \<in> C \<and> ca_round c < n}"

definition well_founded :: "evaluator option \<Rightarrow> rule set \<Rightarrow> rule_atom set \<Rightarrow> candidate set \<Rightarrow> bool" where
  "well_founded evaluator rs F C = (\<forall>c\<in>C. derivation evaluator rs (F \<union> earlier C (ca_round c)) c)"

lemma derivation_mono: "derivation evaluator rs K c \<Longrightarrow> K \<subseteq> L \<Longrightarrow> derivation evaluator rs L c"
  unfolding derivation_def Let_def by (meson subset_trans)

lemma earlier_mono: "C \<subseteq> D \<Longrightarrow> earlier C n \<subseteq> earlier D n"
  by (auto simp: earlier_def)

lemma well_founded_insert:
  assumes "well_founded evaluator rs F C" and "derivation evaluator rs (F \<union> earlier C (ca_round c)) c"
  shows "well_founded evaluator rs F (insert c C)"
proof -
  have "F \<union> earlier C n \<subseteq> F \<union> earlier (insert c C) n" for n
    using earlier_mono [of C "insert c C" n] by auto
  with assms show ?thesis by (auto simp: well_founded_def intro: derivation_mono)
qed

lemma derivation_consequence:
  assumes "derivation evaluator rs K c" and "K \<subseteq> consequences evaluator rs F"
  shows "ca_fact c \<in> consequences evaluator rs F"
proof -
  from assms(1) obtain r where r: "r \<in> rs" "dom (map_of (ca_bindings c)) = body_vars r"
    "ca_fact c = the_ground (map_of (ca_bindings c)) (ru_head r)"
    "the_ground (map_of (ca_bindings c)) ` set (ru_body r) \<subseteq> K" "allowed evaluator r (map_of (ca_bindings c))"
    by (auto simp: derivation_def Let_def)
  show ?thesis unfolding r(3)
    by (rule consequences.derived [OF r(1,2) _ r(5)]) (use r(4) assms(2) in blast)
qed

lemma well_founded_consequences:
  assumes "well_founded evaluator rs F C" and "c \<in> C"
  shows "ca_fact c \<in> consequences evaluator rs F"
  using assms(2)
proof (induction "ca_round c" arbitrary: c rule: less_induct)
  case less
  have "F \<union> earlier C (ca_round c) \<subseteq> consequences evaluator rs F"
    using less(1) by (auto simp: earlier_def intro: consequences.given)
  moreover have "derivation evaluator rs (F \<union> earlier C (ca_round c)) c"
    using assms(1) less(2) by (simp add: well_founded_def)
  ultimately show ?case by (intro derivation_consequence)
qed

lemma justified_fact_ok:
  assumes "justified evaluator rs K c" and "\<forall>r\<in>rs. safe_rule r"
  shows "fact_ok (rc_fact c)"
proof -
  from assms(1) obtain r where r: "r \<in> rs" "dom (map_of (rc_bindings c)) = body_vars r" "valid_bindings (rc_bindings c)"
    "rc_fact c = the_ground (map_of (rc_bindings c)) (ru_head r)" by (auto simp: justified_def Let_def)
  with assms(2) show ?thesis
    by (auto intro!: fact_ok_the_ground simp: safe_rule_def valid_rule_def)
qed

lemma freeze_derivation:
  assumes "justified evaluator rs K c" and "facts_ok K"
  shows "derivation evaluator rs K (freezeCandidate env c n)"
proof -
  have "facts_ok (set (rc_supports c))"
    using assms by (auto simp: justified_def Let_def facts_ok_def)
  from keyed_sorted(1) [OF keyed_by_key [OF this]] assms(1) show ?thesis
    by (auto simp: justified_def derivation_def Let_def freezeCandidate_def)
qed

section \<open>A round\<close>

definition candidate_set :: "eval_state \<Rightarrow> candidate set" where
  "candidate_set st = snd ` set (ev_candidates st)"

text \<open>During a round: the facts \<open>K\<close> were known at its start, the facts \<open>A\<close> are new in it.\<close>

definition during ::
  "eval_context \<Rightarrow> rule set \<Rightarrow> rule_atom set \<Rightarrow> rule_atom set \<Rightarrow> rule_atom set \<Rightarrow> eval_state \<Rightarrow> bool" where
  "during cx rs F K A st =
     (F \<subseteq> K \<and> A \<inter> K = {} \<and> facts_ok (K \<union> A)
      \<and> keyed (cx_env cx) (map (apsnd ca_fact) (ev_candidates st)) ((K \<union> A) - F)
      \<and> well_founded (cx_evaluator cx) rs F (candidate_set st)
      \<and> K \<subseteq> F \<union> earlier (candidate_set st) (ev_round st)
      \<and> (\<forall>c\<in>candidate_set st. ca_round c \<le> ev_round st)
      \<and> length (ev_candidates st) \<le> li_maxDerivedFacts (cx_limits cx))"

lemma during_quiet: "during cx rs F K A st \<Longrightarrow> quiet st st' \<Longrightarrow> during cx rs F K A st'"
  by (simp add: during_def quiet_def candidate_set_def)

lemma during_duplicate [simp]: "during cx rs F K A (count_duplicate st) = during cx rs F K A st"
  by (simp add: during_def candidate_set_def count_duplicate_def on_stats_def)

lemma round_duplicate [simp]: "ev_round (count_duplicate st) = ev_round st"
  by (simp add: count_duplicate_def on_stats_def)

lemma map_apsnd_put: "map (apsnd f) (alist_put k v m) = alist_put k (f v) (map (apsnd f) m)"
  by (induction m) (auto simp: apsnd_def)

lemma during_put:
  assumes inv: "during cx rs F K A st" and c: "justified (cx_evaluator cx) rs K c" "fact_ok (rc_fact c)"
    and new: "rc_fact c \<notin> K \<union> A" and room: "length (ev_candidates st) < li_maxDerivedFacts (cx_limits cx)"
  shows "during cx rs F K (insert (rc_fact c) A)
    (st\<lparr>ev_candidates := alist_put (factKey (cx_env cx) (rc_fact c)) (freezeCandidate (cx_env cx) c (ev_round st))
       (ev_candidates st)\<rparr>)" (is "during cx rs F K _ ?st")
proof -
  let ?f = "rc_fact c" and ?d = "freezeCandidate (cx_env cx) c (ev_round st)"
  let ?m = "map (apsnd ca_fact) (ev_candidates st)"
  have k: "keyed (cx_env cx) ?m ((K \<union> A) - F)" and ok: "facts_ok (K \<union> insert ?f A)" and FK: "F \<subseteq> K"
    using inv c(2) by (auto simp: during_def facts_ok_def)
  have sub: "facts_ok (insert ?f ((K \<union> A) - F))" using ok by (auto simp: facts_ok_def)
  have d: "ca_fact ?d = ?f" "ca_round ?d = ev_round st" by (simp_all add: freezeCandidate_def)
  have "map_of ?m (factKey (cx_env cx) ?f) = None" using keyed_lookup [OF k sub] new by simp
  then have "factKey (cx_env cx) ?f \<notin> fst ` set (ev_candidates st)"
    by (auto simp: map_of_eq_None_iff image_image)
  then have put: "alist_put (factKey (cx_env cx) ?f) ?d (ev_candidates st)
      = ev_candidates st @ [(factKey (cx_env cx) ?f, ?d)]" by (rule alist_put_fresh)
  then have set: "candidate_set ?st = insert ?d (candidate_set st)" by (auto simp: candidate_set_def)
  have "keyed (cx_env cx) (map (apsnd ca_fact) (ev_candidates ?st)) ((K \<union> insert ?f A) - F)"
  proof -
    have "(K \<union> insert ?f A) - F = insert ?f ((K \<union> A) - F)" using new FK by auto
    with keyed_put [OF k sub] d show ?thesis by (simp add: map_apsnd_put)
  qed
  moreover have "well_founded (cx_evaluator cx) rs F (candidate_set ?st)"
    unfolding set
  proof (rule well_founded_insert)
    have "facts_ok K" using ok by (auto simp: facts_ok_def)
    from freeze_derivation [OF c(1) this]
    show "derivation (cx_evaluator cx) rs (F \<union> earlier (candidate_set st) (ca_round ?d)) ?d"
      using inv d by (auto simp: during_def intro: derivation_mono)
  qed (use inv in \<open>simp add: during_def\<close>)
  moreover have "K \<subseteq> F \<union> earlier (candidate_set ?st) (ev_round ?st)"
  proof -
    have "earlier (candidate_set st) (ev_round st) \<subseteq> earlier (candidate_set ?st) (ev_round st)"
      unfolding set by (rule earlier_mono) blast
    moreover have "K \<subseteq> F \<union> earlier (candidate_set st) (ev_round st)" using inv by (simp add: during_def)
    ultimately show ?thesis by auto
  qed
  ultimately show ?thesis using inv new ok room d set put by (auto simp: during_def)
qed

lemma admit_outcome:
  "admit cx allFacts cs fresh st = (fresh', full, st') \<Longrightarrow> keyed (cx_env cx) allFacts K \<Longrightarrow>
     keyed (cx_env cx) fresh A \<Longrightarrow> during cx rs F K A st \<Longrightarrow>
     \<forall>c\<in>set cs. justified (cx_evaluator cx) rs K c \<and> fact_ok (rc_fact c) \<Longrightarrow>
     \<exists>A'. keyed (cx_env cx) fresh' A' \<and> during cx rs F K A' st' \<and> A' \<subseteq> A \<union> (rc_fact ` set cs - K)
       \<and> operations st' = operations st \<and> ev_round st' = ev_round st
       \<and> (if full
          then length (ev_candidates st') \<ge> li_maxDerivedFacts (cx_limits cx) \<and> (\<exists>c\<in>set cs. rc_fact c \<notin> K \<union> A')
          else A' = A \<union> (rc_fact ` set cs - K))"
proof (induction cx allFacts cs fresh st arbitrary: A rule: admit.induct)
  case (1 cx allFacts fresh st)
  then show ?case by (intro exI [of _ A]) auto
next
  case (2 cx allFacts c cs fresh st)
  let ?key = "factKey (cx_env cx) (rc_fact c)"
  have ok: "facts_ok (insert (rc_fact c) K)" "facts_ok (insert (rc_fact c) A)"
    using "2.prems"(4,5) by (auto simp: during_def facts_ok_def)
  have known: "map_of allFacts ?key \<noteq> None \<or> map_of fresh ?key \<noteq> None \<longleftrightarrow> rc_fact c \<in> K \<union> A"
    using keyed_lookup [OF "2.prems"(2) ok(1)] keyed_lookup [OF "2.prems"(3) ok(2)] by simp
  note cs = ballI [OF bspec [OF "2.prems"(5)], of "set cs", simplified]
  show ?case
  proof (cases "rc_fact c \<in> K \<union> A")
    case True
    with "2.prems"(1) known have "admit cx allFacts cs fresh (count_duplicate st) = (fresh', full, st')"
      by (simp add: Let_def split: if_splits)
    from "2.IH"(1) [OF refl _ this "2.prems"(2,3)] "2.prems"(4,5) known True
    obtain A' where "keyed (cx_env cx) fresh' A'" "during cx rs F K A' st'" "A' \<subseteq> A \<union> (rc_fact ` set cs - K)"
      "operations st' = operations st" "ev_round st' = ev_round st"
      "if full then length (ev_candidates st') \<ge> li_maxDerivedFacts (cx_limits cx) \<and> (\<exists>c\<in>set cs. rc_fact c \<notin> K \<union> A')
        else A' = A \<union> (rc_fact ` set cs - K)"
      by auto
    with True show ?thesis by (intro exI [of _ A']) (auto split: if_splits)
  next
    case new: False
    show ?thesis
    proof (cases "length (ev_candidates st) \<ge> li_maxDerivedFacts (cx_limits cx)")
      case True
      with "2.prems"(1) known new have "fresh' = fresh" "full" "st' = st" by (simp_all add: Let_def)
      with True new "2.prems"(3,4) show ?thesis by (intro exI [of _ A]) auto
    next
      case room: False
      let ?st = "st\<lparr>ev_candidates := alist_put ?key (freezeCandidate (cx_env cx) c (ev_round st)) (ev_candidates st)\<rparr>"
      have rec: "admit cx allFacts cs (alist_put ?key (rc_fact c) fresh) ?st = (fresh', full, st')"
        using "2.prems"(1) known new room by (simp add: Let_def)
      have inv: "during cx rs F K (insert (rc_fact c) A) ?st"
        using "2.prems"(4,5) new room by (intro during_put) auto
      from "2.IH"(2) [OF refl _ room rec "2.prems"(2) keyed_put [OF "2.prems"(3) ok(2)] inv] "2.prems"(5) known new
      obtain A' where "keyed (cx_env cx) fresh' A'" "during cx rs F K A' st'"
        "A' \<subseteq> insert (rc_fact c) A \<union> (rc_fact ` set cs - K)"
        "operations st' = operations st" "ev_round st' = ev_round st"
        "if full then length (ev_candidates st') \<ge> li_maxDerivedFacts (cx_limits cx) \<and> (\<exists>c\<in>set cs. rc_fact c \<notin> K \<union> A')
          else A' = insert (rc_fact c) A \<union> (rc_fact ` set cs - K)"
        by auto
      with new show ?thesis by (intro exI [of _ A']) (auto split: if_splits)
    qed
  qed
qed

text \<open>The operations counted between two states of a round.\<close>

definition counted :: "eval_context \<Rightarrow> nat \<Rightarrow> eval_state \<Rightarrow> eval_state \<Rightarrow> bool" where
  "counted cx n st st' =
     (ev_round st' = ev_round st \<and> operations st' \<le> operations st + n
      \<and> (operations st \<le> li_maxOperations (cx_limits cx) \<longrightarrow> operations st' \<le> li_maxOperations (cx_limits cx)))"

lemma spent_counted: "spent cx n st st' \<Longrightarrow> counted cx n st st'"
  by (simp add: spent_def counted_def quiet_def)

lemma counted_mono: "counted cx m st st' \<Longrightarrow> m \<le> n \<Longrightarrow> counted cx n st st'"
  by (auto simp: counted_def)

lemma counted_trans: "counted cx m st st' \<Longrightarrow> counted cx n st' st'' \<Longrightarrow> counted cx (m + n) st st''"
  by (auto simp: counted_def)

lemma counted_same: "operations st' = operations st \<Longrightarrow> ev_round st' = ev_round st \<Longrightarrow> counted cx 0 st st'"
  by (simp add: counted_def)

definition job_cost :: "nat \<Rightarrow> rule \<times> nat \<Rightarrow> nat" where
  "job_cost n = (\<lambda>(r, i). n * ((length (ru_body r) + length (ru_constraints r)) * n ^ (length (ru_body r) - 1)))"

definition round_cost :: "nat \<Rightarrow> (rule \<times> nat) list \<Rightarrow> nat" where
  "round_cost n jobs = sum_list (map (job_cost n) jobs)"

text \<open>Some limit is used up; the limit of facts only when the facts \<open>P\<close> are not the whole model.\<close>

definition exhausted ::
  "eval_context \<Rightarrow> rule set \<Rightarrow> rule_atom set \<Rightarrow> rule_atom set \<Rightarrow> eval_state \<Rightarrow> evaluation_stop \<Rightarrow> bool" where
  "exhausted cx rs F P st reason =
     (used_up cx st reason
      \<or> reason = Max_derived_facts \<and> length (ev_candidates st) \<ge> li_maxDerivedFacts (cx_limits cx)
        \<and> \<not> consequences (cx_evaluator cx) rs F \<subseteq> P)"

lemma during_known:
  assumes "during cx rs F K A st"
  shows "ca_fact ` candidate_set st = (K \<union> A) - F"
    and "length (ev_candidates st) = card ((K \<union> A) - F)"
    and "distinct (map ca_fact (map snd (ev_candidates st)))"
proof -
  let ?m = "map (apsnd ca_fact) (ev_candidates st)"
  have k: "keyed (cx_env cx) ?m ((K \<union> A) - F)" using assms by (simp add: during_def)
  show "ca_fact ` candidate_set st = (K \<union> A) - F"
    using keyed_facts(1) [OF k] by (auto simp: candidate_set_def image_image)
  show "length (ev_candidates st) = card ((K \<union> A) - F)" using keyed_facts(3) [OF k] by simp
  show "distinct (map ca_fact (map snd (ev_candidates st)))"
    using keyed_facts(2) [OF k] by (simp add: comp_def)
qed

lemma during_consequences:
  assumes "during cx rs F K A st"
  shows "K \<union> A \<subseteq> consequences (cx_evaluator cx) rs F"
proof
  fix f assume "f \<in> K \<union> A"
  then have "f \<in> F \<or> f \<in> ca_fact ` candidate_set st" using during_known(1) [OF assms] by blast
  moreover have "well_founded (cx_evaluator cx) rs F (candidate_set st)" using assms by (simp add: during_def)
  ultimately show "f \<in> consequences (cx_evaluator cx) rs F"
    by (auto intro: consequences.given well_founded_consequences)
qed

lemma justified_consequence:
  assumes "justified evaluator rs K c" and "facts_ok K" and "K \<subseteq> consequences evaluator rs F"
  shows "rc_fact c \<in> consequences evaluator rs F"
  using derivation_consequence [OF freeze_derivation [OF assms(1,2), of undefined 0] assms(3)]
  by (simp add: freezeCandidate_def)

lemma join_outcome:
  assumes "joinRuleFromDeltaPosition cx r i dx ix st = (found, stop, st')" and "index_for ix K" and "index_for dx D"
    and "D \<subseteq> K" and "facts_ok K" and "finite K" and "card K \<le> n" and "0 < n" and "safe_rule r"
    and "i < length (ru_body r)"
  shows "spent cx (job_cost n (r, i)) st st'"
    and "collects cx st' found stop (rule_candidates (cx_env cx) (cx_evaluator cx) ix r i (pools_of dx (ru_body r ! i)))"
proof -
  let ?fs = "pools_of dx (ru_body r ! i)"
  have ix: "index_ok n ix" using assms by (intro index_for_ok)
  have "facts_ok D" "finite D" using assms(4-6) by (auto simp: facts_ok_def intro: finite_subset)
  moreover have "card D \<le> n" using card_mono [OF assms(6,4)] assms(7) by simp
  ultimately have dx: "index_ok n dx" by (rule index_for_ok [OF assms(3)])
  then have fs: "list_all fact_ok ?fs" "length ?fs \<le> n" by (auto simp: index_ok_def list_all_iff)
  note out = drive_outcome [OF assms(1) [unfolded joinRuleFromDeltaPosition_def] ix assms(8-10) fs(1)]
  show "spent cx (job_cost n (r, i)) st st'"
    using conjunct1 [OF out] fs(2) by (auto simp: job_cost_def elim!: spent_mono intro: mult_le_mono1)
  show "collects cx st' found stop (rule_candidates (cx_env cx) (cx_evaluator cx) ix r i ?fs)"
    using conjunct2 [OF out] by simp
qed

lemma run_jobs_outcome:
  "run_jobs cx allFacts dx ix jobs fresh st = (x, st') \<Longrightarrow> keyed (cx_env cx) allFacts K \<Longrightarrow>
     keyed (cx_env cx) fresh A \<Longrightarrow> during cx rs F K A st \<Longrightarrow> \<forall>r\<in>rs. safe_rule r \<Longrightarrow>
     index_for ix K \<Longrightarrow> index_for dx D \<Longrightarrow> D \<subseteq> K \<Longrightarrow> finite K \<Longrightarrow> card K \<le> n \<Longrightarrow> 0 < n \<Longrightarrow>
     \<forall>(r, i)\<in>set jobs. r \<in> rs \<and> i < length (ru_body r) \<Longrightarrow>
     \<exists>A'. during cx rs F K A' st' \<and> counted cx (round_cost n jobs) st st'
       \<and> (case x of
            Inl stop \<Rightarrow> \<exists>reason. stop = Stop reason \<and> exhausted cx rs F (K \<union> A') st' reason
          | Inr fresh' \<Rightarrow> keyed (cx_env cx) fresh' A'
              \<and> A' = A \<union> (rc_fact ` set (round_candidates (cx_env cx) (cx_evaluator cx) ix dx jobs) - K))"
proof (induction cx allFacts dx ix jobs fresh st arbitrary: A rule: run_jobs.induct)
  case (1 cx allFacts dx ix fresh st)
  then show ?case by (intro exI [of _ A]) (auto intro: counted_mono [OF counted_same])
next
  case (2 cx allFacts dx ix r i jobs fresh st)
  note keyed = "2.prems"(2,3) and inv = "2.prems"(4) and safe = "2.prems"(5) and env = "2.prems"(5-11)
  let ?new = "rule_candidates (cx_env cx) (cx_evaluator cx) ix r i (pools_of dx (ru_body r ! i))"
  have r: "r \<in> rs" "i < length (ru_body r)" "safe_rule r" using "2.prems"(5,12) by auto
  have ok: "facts_ok K" using inv by (auto simp: during_def facts_ok_def)
  obtain found stop u where join: "joinRuleFromDeltaPosition cx r i dx ix st = (found, stop, u)"
    by (metis prod_cases3)
  note joined = join_outcome [OF join env(2-4) ok env(5-7) r(3,2)]
  have spent: "counted cx (job_cost n (r, i)) st u" by (rule spent_counted [OF joined(1)])
  have inv1: "during cx rs F K A u" using inv joined(1) by (auto simp: spent_def intro: during_quiet)
  have index: "index_ok n ix" using env ok by (intro index_for_ok)
  have pool: "set (pools_of dx (ru_body r ! i)) \<subseteq> K" "list_all fact_ok (pools_of dx (ru_body r ! i))"
    using env(3,4) ok by (auto simp: index_for_pool list_all_iff facts_ok_def)
  have justified: "\<forall>c\<in>set ?new. justified (cx_evaluator cx) rs K c"
    using rule_candidate_justified [OF _ r(1,3,2) env(2) index pool] by blast
  have found: "\<forall>c\<in>set found. justified (cx_evaluator cx) rs K c \<and> fact_ok (rc_fact c)"
    using joined(2) justified justified_fact_ok safe by (fastforce simp: collects_def)
  obtain fresh1 full v where admit: "admit cx allFacts found fresh u = (fresh1, full, v)"
    by (metis prod_cases3)
  from admit_outcome [OF admit keyed inv1 found] obtain A1 where A1: "keyed (cx_env cx) fresh1 A1"
    "during cx rs F K A1 v" "operations v = operations u" "ev_round v = ev_round u"
    "if full then length (ev_candidates v) \<ge> li_maxDerivedFacts (cx_limits cx) \<and> (\<exists>c\<in>set found. rc_fact c \<notin> K \<union> A1)
      else A1 = A \<union> (rc_fact ` set found - K)" by blast
  have spent1: "counted cx (job_cost n (r, i)) st v"
    using counted_trans [OF spent counted_same [OF A1(3,4)]] by simp
  have only: "counted cx (round_cost n ((r, i) # jobs)) st v"
    using spent1 by (rule counted_mono) (simp add: round_cost_def)
  show ?case
  proof (cases "full \<or> stop \<noteq> None")
    case True
    then have "\<exists>reason. x = Inl (Stop reason) \<and> exhausted cx rs F (K \<union> A1) v reason \<and> st' = v"
    proof (cases full)
      case True
      with A1(5) obtain c where c: "c \<in> set found" "rc_fact c \<notin> K \<union> A1" by auto
      then have "rc_fact c \<in> consequences (cx_evaluator cx) rs F"
        using found ok during_consequences [OF inv] by (auto intro: justified_consequence)
      with c(2) have "\<not> consequences (cx_evaluator cx) rs F \<subseteq> K \<union> A1" by blast
      with "2.prems"(1) join admit A1(5) True show ?thesis by (auto simp: exhausted_def)
    next
      case False
      with True obtain s where s: "stop = Some s" by auto
      with joined(2) obtain reason where "s = Stop reason" "used_up cx u reason"
        by (auto simp: stopped_by_budget_def)
      with "2.prems"(1) join admit False s A1(3) show ?thesis by (auto simp: exhausted_def used_up_def)
    qed
    with A1(2) only show ?thesis by (intro exI [of _ A1]) auto
  next
    case False
    with joined(2) have all: "found = ?new" by simp
    have rec: "run_jobs cx allFacts dx ix jobs fresh1 v = (x, st')"
      using "2.prems"(1) join admit False by simp
    from "2.IH" [OF join [symmetric] refl admit [symmetric] refl _ _ rec keyed(1) A1(1,2) env] False "2.prems"(12)
    obtain A' where A': "during cx rs F K A' st'" "counted cx (round_cost n jobs) v st'"
      "case x of Inl stop \<Rightarrow> \<exists>reason. stop = Stop reason \<and> exhausted cx rs F (K \<union> A') st' reason
       | Inr fresh' \<Rightarrow> keyed (cx_env cx) fresh' A'
           \<and> A' = A1 \<union> (rc_fact ` set (round_candidates (cx_env cx) (cx_evaluator cx) ix dx jobs) - K)"
      by auto
    moreover have "counted cx (round_cost n ((r, i) # jobs)) st st'"
      using counted_trans [OF spent1 A'(2)] by (simp add: round_cost_def)
    ultimately show ?thesis
      using A1(5) False all by (intro exI [of _ A']) (auto split: sum.splits)
  qed
qed

section \<open>All rounds\<close>

text \<open>What an evaluation of the rules \<open>rs\<close> over the facts \<open>F\<close> promises.\<close>

definition model_size :: "evaluator option \<Rightarrow> rule list \<Rightarrow> rule_atom set \<Rightarrow> nat" where
  "model_size evaluator rs F = card (consequences evaluator (set rs) F)"

definition honest_stop ::
  "evaluator option \<Rightarrow> rule list \<Rightarrow> rule_atom set \<Rightarrow> eval_limits \<Rightarrow> (nat \<Rightarrow> rat) \<Rightarrow> evaluation \<Rightarrow> bool" where
  "honest_stop evaluator rs F limits elapsed e =
     (let derived = ca_fact ` set (er_derivedCandidates e) in
      case er_stoppedReason e of
        Fixpoint \<Rightarrow> er_status e = Evaluation_complete \<and> F \<union> derived = consequences evaluator (set rs) F
      | Max_operations \<Rightarrow> er_status e = Evaluation_stopped \<and> es_operations (er_stats e) = li_maxOperations limits
      | Max_rounds \<Rightarrow> er_status e = Evaluation_stopped \<and> er_rounds e = li_maxRounds limits
          \<and> er_rounds e + card F \<le> model_size evaluator rs F
      | Max_derived_facts \<Rightarrow> er_status e = Evaluation_stopped
          \<and> length (er_derivedCandidates e) = li_maxDerivedFacts limits
          \<and> F \<union> derived \<subset> consequences evaluator (set rs) F
      | Timeout \<Rightarrow> er_status e = Evaluation_stopped \<and> (\<exists>k. elapsed k > li_timeoutMs limits)
      | _ \<Rightarrow> False)"

definition within_limits ::
  "evaluator option \<Rightarrow> rule list \<Rightarrow> rule_atom set \<Rightarrow> eval_limits \<Rightarrow> evaluation \<Rightarrow> bool" where
  "within_limits evaluator rs F limits e =
     (length (er_derivedCandidates e) \<le> li_maxDerivedFacts limits \<and> er_rounds e \<le> li_maxRounds limits
      \<and> es_operations (er_stats e) \<le> li_maxOperations limits
      \<and> er_rounds e + card F \<le> model_size evaluator rs F + 1
      \<and> es_operations (er_stats e) \<le> er_rounds e * round_cost (model_size evaluator rs F) (jobs_of rs))"

definition traced :: "evaluator option \<Rightarrow> rule list \<Rightarrow> rule_atom set \<Rightarrow> evaluation \<Rightarrow> bool" where
  "traced evaluator rs F e =
     (let C = set (er_derivedCandidates e) in
      distinct (map ca_fact (er_derivedCandidates e)) \<and> ca_fact ` C \<inter> F = {}
      \<and> well_founded evaluator (set rs) F C \<and> (\<forall>c\<in>C. ca_round c \<le> er_rounds e))"

definition evaluated ::
  "eval_context \<Rightarrow> rule list \<Rightarrow> rule_atom set \<Rightarrow> rule_error + evaluation \<Rightarrow> bool" where
  "evaluated cx rs F res =
     (\<exists>e. res = Inr e \<and> traced (cx_evaluator cx) rs F e \<and> within_limits (cx_evaluator cx) rs F (cx_limits cx) e
        \<and> honest_stop (cx_evaluator cx) rs F (cx_limits cx) (\<lambda>k. cx_now cx k - cx_startedAt cx) e)"

text \<open>A state at the end of a round, or inside the round that stops the evaluation.\<close>

definition bounded :: "eval_context \<Rightarrow> rule list \<Rightarrow> rule_atom set \<Rightarrow> eval_state \<Rightarrow> bool" where
  "bounded cx rs F st =
     (ev_round st \<le> li_maxRounds (cx_limits cx) \<and> operations st \<le> li_maxOperations (cx_limits cx)
      \<and> ev_round st + card F \<le> model_size (cx_evaluator cx) rs F + 1
      \<and> operations st \<le> ev_round st * round_cost (model_size (cx_evaluator cx) rs F) (jobs_of rs)
      \<and> (\<forall>c\<in>candidate_set st. ca_round c \<le> ev_round st))"

lemma buildResult_simps [simp]:
  "er_status (buildResult env st status reason u) = status"
  "er_stoppedReason (buildResult env st status reason u) = reason"
  "er_rounds (buildResult env st status reason u) = ev_round st"
  "er_stats (buildResult env st status reason u) = ev_stats st"
  "set (er_derivedCandidates (buildResult env st status reason u)) = candidate_set st"
  "length (er_derivedCandidates (buildResult env st status reason u)) = length (ev_candidates st)"
  "distinct (map ca_fact (er_derivedCandidates (buildResult env st status reason u)))
     = distinct (map ca_fact (map snd (ev_candidates st)))"
proof -
  let ?cmp = "\<lambda>c d. locale_compare env (factKey env (ca_fact c)) (factKey env (ca_fact d))"
  have m: "mset (sort_by ?cmp (map snd (ev_candidates st))) = mset (map snd (ev_candidates st))" by simp
  show "set (er_derivedCandidates (buildResult env st status reason u)) = candidate_set st"
    using mset_eq_setD [OF m] by (simp add: buildResult_def candidate_set_def)
  show "length (er_derivedCandidates (buildResult env st status reason u)) = length (ev_candidates st)"
    using mset_eq_length [OF m] by (simp add: buildResult_def)
  have "mset (map ca_fact (sort_by ?cmp (map snd (ev_candidates st)))) = mset (map ca_fact (map snd (ev_candidates st)))"
    by (simp only: mset_map m)
  from mset_eq_imp_distinct_iff [OF this]
  show "distinct (map ca_fact (er_derivedCandidates (buildResult env st status reason u)))
     = distinct (map ca_fact (map snd (ev_candidates st)))" by (simp add: buildResult_def)
qed (simp_all add: buildResult_def)

lemma evaluated_buildResult:
  assumes "during cx (set rs) F K A st'" and same: "ev_candidates st' = ev_candidates st" and "bounded cx rs F st"
    and "honest_stop (cx_evaluator cx) rs F (cx_limits cx) (\<lambda>k. cx_now cx k - cx_startedAt cx)
      (buildResult (cx_env cx) st status reason None)"
  shows "evaluated cx rs F (Inr (buildResult (cx_env cx) st status reason None))"
proof -
  have C: "candidate_set st' = candidate_set st" using same by (simp add: candidate_set_def)
  have "traced (cx_evaluator cx) rs F (buildResult (cx_env cx) st status reason None)"
    using assms(1,3) during_known(1,3) [OF assms(1)] same C
    by (auto simp: traced_def Let_def bounded_def during_def)
  moreover have "within_limits (cx_evaluator cx) rs F (cx_limits cx) (buildResult (cx_env cx) st status reason None)"
    using assms(1,3) same by (simp add: within_limits_def bounded_def during_def)
  ultimately show ?thesis using assms(4) by (auto simp: evaluated_def)
qed

lemma evaluated_fixpoint:
  assumes inv: "during cx (set rs) F K {} st'" and same: "ev_candidates st' = ev_candidates st"
    and "bounded cx rs F st" and "closed_under (cx_evaluator cx) (set rs) K K"
  shows "evaluated cx rs F (Inr (buildResult (cx_env cx) st Evaluation_complete Fixpoint None))"
proof (rule evaluated_buildResult [OF inv same assms(3)])
  have C: "ca_fact ` candidate_set st = K - F" and "F \<subseteq> K"
    using during_known(1) [OF inv] inv same by (simp_all add: candidate_set_def during_def)
  then have "F \<union> ca_fact ` candidate_set st = K" by blast
  moreover have "K = consequences (cx_evaluator cx) (set rs) F"
    using consequences_least [OF assms(4) \<open>F \<subseteq> K\<close>] during_consequences [OF inv] by simp
  ultimately show "honest_stop (cx_evaluator cx) rs F (cx_limits cx) (\<lambda>k. cx_now cx k - cx_startedAt cx)
      (buildResult (cx_env cx) st Evaluation_complete Fixpoint None)" by (simp add: honest_stop_def)
qed

lemma evaluated_stop:
  assumes inv: "during cx (set rs) F K A st'" and same: "ev_candidates st' = ev_candidates st"
    and "bounded cx rs F st" and stop: "exhausted cx (set rs) F (K \<union> A) st reason"
  shows "evaluated cx rs F (Inr (buildResult (cx_env cx) st Evaluation_stopped reason None))"
proof (rule evaluated_buildResult [OF inv same assms(3)])
  have C: "ca_fact ` candidate_set st = (K \<union> A) - F" and F: "F \<subseteq> K"
    using during_known(1) [OF inv] inv same by (simp_all add: candidate_set_def during_def)
  then have "F \<union> ca_fact ` candidate_set st = K \<union> A" by blast
  moreover have "length (ev_candidates st) \<le> li_maxDerivedFacts (cx_limits cx)"
    using inv same by (simp add: during_def)
  ultimately show "honest_stop (cx_evaluator cx) rs F (cx_limits cx) (\<lambda>k. cx_now cx k - cx_startedAt cx)
      (buildResult (cx_env cx) st Evaluation_stopped reason None)"
    using stop assms(3) during_consequences [OF inv]
    by (auto simp: honest_stop_def exhausted_def used_up_def bounded_def Let_def)
qed

definition between ::
  "eval_context \<Rightarrow> rule list \<Rightarrow> rule_atom set \<Rightarrow> rule_atom set \<Rightarrow> (string \<times> rule_atom) list \<Rightarrow> fact_index
     \<Rightarrow> rule_atom list \<Rightarrow> eval_state \<Rightarrow> bool" where
  "between cx rs F K allFacts ix delta st =
     (keyed (cx_env cx) allFacts K \<and> index_for ix K \<and> distinct delta \<and> set delta \<subseteq> K
      \<and> during cx (set rs) F K {} (st\<lparr>ev_round := Suc (ev_round st)\<rparr>)
      \<and> closed_under (cx_evaluator cx) (set rs) (K - set delta) K
      \<and> bounded cx rs F st \<and> ev_round st + card F \<le> card K)"

lemma start_round_simps [simp]:
  "ev_round (start_round i j st) = Suc (ev_round st)" "ev_candidates (start_round i j st) = ev_candidates st"
  "operations (start_round i j st) = operations st"
  by (simp_all add: start_round_def on_stats_def)

lemma during_state:
  "during cx rs F K A st \<Longrightarrow> ev_round st' = ev_round st \<Longrightarrow> ev_candidates st' = ev_candidates st \<Longrightarrow>
     during cx rs F K A st'"
  by (simp add: during_def candidate_set_def)

lemma during_next:
  assumes "during cx rs F K A st"
  shows "during cx rs F (K \<union> A) {} (st\<lparr>ev_round := Suc (ev_round st)\<rparr>)"
proof -
  have "\<forall>c\<in>candidate_set st. ca_round c < Suc (ev_round st)"
    using assms by (simp add: during_def less_Suc_eq_le)
  then have "ca_fact ` candidate_set st \<subseteq> earlier (candidate_set st) (Suc (ev_round st))"
    by (auto simp: earlier_def)
  then have "K \<union> A \<subseteq> F \<union> earlier (candidate_set st) (Suc (ev_round st))"
    using during_known(1) [OF assms] by blast
  with assms show ?thesis by (auto simp: during_def candidate_set_def intro: le_SucI)
qed

lemma between_next:
  assumes inv: "during cx (set rs) F K A st" and keyed: "keyed (cx_env cx) allFacts K" "keyed (cx_env cx) fresh A"
    and ix: "index_for ix K" and closed: "closed_under (cx_evaluator cx) (set rs) K (K \<union> A)"
    and b: "bounded cx rs F st" and card: "ev_round st + card F \<le> Suc (card K)" and fin: "finite (K \<union> A)" and "A \<noteq> {}"
  shows "between cx rs F (K \<union> A)
    (foldl (\<lambda>m f. alist_put (factKey (cx_env cx) f) f m) allFacts (map snd (sort_by cmp fresh)))
    (foldl (addFactToPredicateIndex (cx_env cx)) ix (map snd (sort_by cmp fresh))) (map snd (sort_by cmp fresh)) st"
proof -
  note sorted = keyed_sorted(1,2) [OF keyed(2), of cmp]
  have disj: "A \<inter> K = {}" and ok: "facts_ok (K \<union> A)" using inv by (simp_all add: during_def)
  have "K \<union> A - A = K" using disj by blast
  moreover have "Suc (card K) \<le> card (K \<union> A)"
    using fin \<open>A \<noteq> {}\<close> disj by (subst card_Un_disjoint) (auto simp: Suc_le_eq card_gt_0_iff)
  ultimately show ?thesis
    using keyed_fold [OF keyed(1), of "map snd (sort_by cmp fresh)"] index_for_add [OF ix, of "map snd (sort_by cmp fresh)"]
      during_next [OF inv] sorted ok disj closed b card
    by (simp add: between_def)
qed

lemma eval_rounds_evaluated:
  "between cx rs F K allFacts ix delta st \<Longrightarrow> \<forall>r\<in>set rs. safe_rule r \<Longrightarrow>
     finite (consequences (cx_evaluator cx) (set rs) F) \<Longrightarrow>
     evaluated cx rs F (eval_rounds cx rs allFacts ix delta st)"
proof (induction cx rs allFacts ix delta st arbitrary: K rule: eval_rounds.induct)
  case (1 cx rs allFacts ix delta st)
  let ?env = "cx_env cx" and ?N = "model_size (cx_evaluator cx) rs F" and ?cost = "round_cost (model_size (cx_evaluator cx) rs F) (jobs_of rs)"
  note safe = "1.prems"(2) and model = "1.prems"(3)
  have keyed: "keyed ?env allFacts K" and ix: "index_for ix K" and delta: "distinct delta" "set delta \<subseteq> K"
    and inv: "during cx (set rs) F K {} (st\<lparr>ev_round := Suc (ev_round st)\<rparr>)"
    and old: "closed_under (cx_evaluator cx) (set rs) (K - set delta) K"
    and b: "bounded cx rs F st" and card: "ev_round st + card F \<le> card K"
    using "1.prems"(1) by (simp_all add: between_def)
  have K: "K \<subseteq> consequences (cx_evaluator cx) (set rs) F" using during_consequences [OF inv] by simp
  have fin: "finite K" and size: "card K \<le> ?N"
    using K model by (auto simp: model_size_def intro: finite_subset card_mono)
  show ?case
  proof (cases "delta = []")
    case True
    with evaluated_fixpoint [OF inv _ b] old show ?thesis by (simp add: eval_rounds.simps)
  next
    case False
    show ?thesis
    proof (cases "ev_round st \<ge> li_maxRounds (cx_limits cx)")
      case True
      then have "honest_stop (cx_evaluator cx) rs F (cx_limits cx) (\<lambda>k. cx_now cx k - cx_startedAt cx)
          (buildResult ?env st Evaluation_stopped Max_rounds None)"
        using b card size by (simp add: honest_stop_def bounded_def)
      from evaluated_buildResult [OF inv _ b this] False True show ?thesis by (simp add: eval_rounds.simps)
    next
      case rounds: False
      obtain y u where check: "checkBudget cx st = (y, u)" by fastforce
      note checked = checkBudget_outcome [OF check]
      have u: "ev_round u = ev_round st" "ev_candidates u = ev_candidates st" "operations u = operations st"
        using checked(1) by (simp_all add: spent_def quiet_def)
      have bu: "bounded cx rs F u" using b u by (simp add: bounded_def candidate_set_def)
      show ?thesis
      proof (cases y)
        case (Some reason)
        with checked(2) have "exhausted cx (set rs) F (K \<union> {}) u reason" by (simp add: exhausted_def)
        from evaluated_stop [OF inv _ bu this] u check Some False rounds
        show ?thesis by (simp add: eval_rounds.simps)
      next
        case None
        let ?dx = "buildPredicateIndex ?env delta" and ?u = "start_round (length delta) (length allFacts) u"
        obtain x v where jobs: "run_jobs cx allFacts ?dx ix (jobs_of rs) [] ?u = (x, v)" by fastforce
        have inv_u: "during cx (set rs) F K {} ?u" by (rule during_state [OF inv]) (simp_all add: u)
        have "K \<noteq> {}" using False delta by (cases delta) auto
        with fin size have n: "0 < ?N" by (metis card_gt_0_iff le_zero_eq neq0_conv)
        have jobs_ok: "\<forall>(r, i)\<in>set (jobs_of rs). r \<in> set rs \<and> i < length (ru_body r)"
          by (auto simp: in_jobs_of)
        have none: "keyed ?env [] {}" by (simp add: keyed_def)
        from run_jobs_outcome [OF jobs keyed none inv_u safe ix index_for_build [OF delta(1)] delta(2) fin size n jobs_ok,
          unfolded Un_empty_left]
        obtain A where A: "during cx (set rs) F K A v" "counted cx ?cost ?u v"
          "case x of Inl stop \<Rightarrow> \<exists>reason. stop = Stop reason \<and> exhausted cx (set rs) F (K \<union> A) v reason
           | Inr fresh \<Rightarrow> keyed ?env fresh A
               \<and> A = rc_fact ` set (round_candidates ?env (cx_evaluator cx) ix ?dx (jobs_of rs)) - K"
          by blast
        have bv: "bounded cx rs F v"
          using b A(1,2) u rounds card size
          by (auto simp: bounded_def counted_def during_def)
        show ?thesis
        proof (cases x)
          case (Inl stop)
          with A(3) obtain reason where stop: "stop = Stop reason" "exhausted cx (set rs) F (K \<union> A) v reason" by auto
          then have "reason \<noteq> Unsafe_rule" by (auto simp: exhausted_def used_up_def)
          with evaluated_stop [OF A(1) refl bv stop(2)] check None False rounds jobs Inl stop(1)
          show ?thesis by (simp add: eval_rounds.simps)
        next
          case (Inr fresh)
          from A(3) [unfolded Inr sum.case] have fresh: "keyed ?env fresh A"
            and facts: "A = rc_fact ` set (round_candidates ?env (cx_evaluator cx) ix ?dx (jobs_of rs)) - K" by blast+
          have ok: "facts_ok K" using inv by (simp add: during_def)
          have "closed_under (cx_evaluator cx) (set rs) K
              (K \<union> rc_fact ` set (round_candidates ?env (cx_evaluator cx) ix ?dx (jobs_of rs)))"
            using round_candidates_complete [OF safe ix index_for_ok [OF ix ok fin size] ok index_for_build [OF delta(1)] delta(2) old] .
          then have closed: "closed_under (cx_evaluator cx) (set rs) K (K \<union> A)" by (simp add: facts)
          show ?thesis
          proof (cases "fresh = []")
            case True
            then have "A = {}" using fresh by (simp add: keyed_def)
            with evaluated_fixpoint [OF _ refl bv] A(1) closed check None False rounds jobs Inr True
            show ?thesis by (simp add: eval_rounds.simps)
          next
            case more: False
            then have "A \<noteq> {}" using fresh by (auto simp: keyed_def)
            have finA: "finite (K \<union> A)"
              using during_consequences [OF A(1)] model by (rule finite_subset)
            have "ev_round v + card F \<le> Suc (card K)" using A(2) u card by (simp add: counted_def)
            from between_next [OF A(1) keyed fresh ix closed bv this finA \<open>A \<noteq> {}\<close>, of "key_compare ?env"]
            have "between cx rs F (K \<union> A)
              (foldl (\<lambda>m f. alist_put (factKey ?env f) f m) allFacts (map snd (sort_by (key_compare ?env) fresh)))
              (foldl (addFactToPredicateIndex ?env) ix (map snd (sort_by (key_compare ?env) fresh)))
              (map snd (sort_by (key_compare ?env) fresh)) v" .
            from "1.IH" [OF False rounds check [symmetric] None jobs [symmetric] Inr more refl this safe model]
              check None False rounds jobs Inr more
            show ?thesis by (simp add: eval_rounds.simps [of cx rs allFacts ix delta st] Let_def)
          qed
        qed
      qed
    qed
  qed
qed

end
