(* ===== verification/Semi_Naive_Properties.thy ===== *)
theory Semi_Naive_Properties
  imports Semi_Naive_Facts
begin

text \<open>
  What \<open>evaluateSemiNaive\<close> promises for any input: it answers, it derives nothing that does not follow, a
  complete answer is the least model, and the limits bound the work and are the only reason to stop early.
\<close>

section \<open>What the checks of the input leave\<close>

lemma normalizeRules_valid:
  assumes "normalizeRules env v = Inr rs"
  shows "\<forall>r\<in>set rs. valid_rule r"
proof -
  from assms obtain xs qs where xs: "v = JArr xs" "rs = sort_by (rule_compare env) qs"
    "map_result (\<lambda>x. of_rule (bind_result (serializeRule env x) (\<lambda>s. parseRule env (JStr s)))) xs = Inr qs"
    by (auto simp: normalizeRules_def bind_result_eq_Inr split: jsval.splits)
  have "list_all valid_rule qs"
    by (rule map_result_valid [OF xs(3)]) (auto simp: parse_serialize intro: normalizeRule_valid)
  moreover have "set rs = set qs" unfolding xs(2) by (rule mset_eq_setD) simp
  ultimately show ?thesis by (simp add: list_all_iff)
qed

lemma constant_term_Inr:
  "constant_term v = Inr t \<Longrightarrow> valid_term t \<and> is_constant t"
  by (auto simp: constant_term_def normalizeConstant_def bind_result_eq_Inr assertText_Inr
      split: if_splits)

lemma normalizeAtom_args:
  "normalizeAtom v = Inr a \<Longrightarrow> \<exists>xs. jget v ''args'' = JArr xs \<and> map_result normalizeTerm xs = Inr (ra_args a)"
  by (cases "jget v ''args''") (auto simp: normalizeAtom_def bind_result_eq_Inr split: if_splits)

lemma eval_term_Inr: "eval_term x = Inr t \<Longrightarrow> valid_term t \<and> is_constant t"
  by (auto simp: eval_term_def split: if_splits dest: constant_term_Inr)

lemma eval_ground_fact_ok:
  assumes "eval_ground_fact v = Inr f"
  shows "fact_ok f"
proof -
  from assms obtain xs ts where ts: "map_result eval_term xs = Inr ts"
    and f: "rule_atom_of (jget v ''predicate'') (JArr (map term_json ts)) = Inr f"
    by (auto simp: eval_ground_fact_def bind_result_eq_Inr split: jsval.splits)
  have all: "list_all (\<lambda>t. valid_term t \<and> is_constant t) ts"
    by (rule map_result_valid [OF ts]) (rule eval_term_Inr)
  have "map_result normalizeTerm (map term_json ts) = Inr (ra_args f)"
    using normalizeAtom_args [OF f [unfolded rule_atom_of_def]] by auto
  moreover have "map_result normalizeTerm (map term_json ts) = Inr ts"
    using all by (intro map_result_back) (simp add: list_all_iff normalizeTerm_json)
  ultimately have "ra_args f = ts" by simp
  with all rule_atom_of_valid [OF f] show ?thesis by (auto simp: fact_ok_def ground_atom_def list_all_iff)
qed

lemma normalizeFacts_ok:
  assumes "normalizeFacts env v = Inr fs"
  shows "facts_ok (set fs)" and "distinct fs"
proof -
  from assms obtain xs gs where gs: "map_result eval_ground_fact xs = Inr gs"
    and fs: "fs = map snd (sort_by (key_compare env) (by_key env gs))"
    by (auto simp: normalizeFacts_def bind_result_eq_Inr split: jsval.splits)
  have "list_all fact_ok gs"
    by (rule map_result_valid [OF gs]) (rule eval_ground_fact_ok)
  then have ok: "facts_ok (set gs)" by (auto simp: facts_ok_def list_all_iff)
  note sorted = keyed_sorted [OF keyed_by_key [OF ok], of "key_compare env"]
  show "facts_ok (set fs)" "distinct fs" unfolding fs using sorted(1,2) ok by auto
qed

lemma term_names_vars: "set (term_names t) = term_vars t"
  by (cases t) simp_all

lemma unsafeHeadVariable_None: "unsafeHeadVariable r = None \<longleftrightarrow> atom_vars (ru_head r) \<subseteq> body_vars r"
  by (auto simp: unsafeHeadVariable_def find_None_iff atom_vars_def body_vars_def term_names_vars)

text \<open>An input that the checks of the code accept, with the limits, rules and facts they leave.\<close>

definition accepted ::
  "js_env \<Rightarrow> jsval \<Rightarrow> jsval \<Rightarrow> eval_options \<Rightarrow> eval_limits \<Rightarrow> rule list \<Rightarrow> rule_atom list \<Rightarrow> bool" where
  "accepted env rulesInput factsInput opts limits rs fs =
     (normalizeLimits opts = Some limits \<and> normalizeRules env rulesInput = Inr rs
      \<and> normalizeFacts env factsInput = Inr fs \<and> list_all (\<lambda>r. unsafeHeadVariable r = None) rs)"

lemma accepted_ok:
  assumes "accepted env rulesInput factsInput opts limits rs fs"
  shows "\<forall>r\<in>set rs. safe_rule r" and "facts_ok (set fs)" and "distinct fs"
    and "finite (consequences ev (set rs) (set fs))"
proof -
  have ok: "normalizeRules env rulesInput = Inr rs" "normalizeFacts env factsInput = Inr fs"
    "\<forall>r\<in>set rs. unsafeHeadVariable r = None"
    using assms by (simp_all add: accepted_def list_all_iff)
  show safe: "\<forall>r\<in>set rs. safe_rule r"
    using normalizeRules_valid [OF ok(1)] ok(3) by (simp add: safe_rule_def unsafeHeadVariable_None)
  show facts: "facts_ok (set fs)" and "distinct fs" using normalizeFacts_ok [OF ok(2)] by simp_all
  show "finite (consequences ev (set rs) (set fs))"
    using safe facts by (intro finite_consequences) (auto simp: facts_ok_def fact_ok_def)
qed

definition context_of ::
  "js_env \<Rightarrow> eval_limits \<Rightarrow> (nat \<Rightarrow> rat) \<Rightarrow> eval_options \<Rightarrow> eval_context" where
  "context_of env limits now opts = createContext env limits now (eo_constraintEvaluator opts)"

lemma evaluate_evaluated:
  assumes "accepted env rulesInput factsInput opts limits rs fs"
  shows "evaluated (context_of env limits now opts) rs (set fs) (evaluateSemiNaive env rulesInput factsInput opts now)"
proof -
  let ?cx = "context_of env limits now opts"
  note ok = accepted_ok [OF assms]
  have cx: "cx_env ?cx = env" "cx_limits ?cx = limits" by (simp_all add: context_of_def createContext_def)
  have safe: "find (\<lambda>r. unsafeHeadVariable r \<noteq> None) rs = None"
    using assms by (auto simp: accepted_def find_None_iff list_all_iff)
  have run: "evaluateSemiNaive env rulesInput factsInput opts now =
      eval_rounds ?cx rs (by_key env fs) (buildPredicateIndex env fs) fs createState"
    using assms safe by (simp add: accepted_def evaluateSemiNaive_def context_of_def)
  have body: "\<forall>r\<in>set rs. ru_body r \<noteq> []" using ok(1) by (auto simp: safe_rule_def valid_rule_def)
  have empty: "ev_candidates createState = []" "ev_round createState = 0" "operations createState = 0"
    by (simp_all add: createState_def emptyState_def emptyStats_def)
  have "during ?cx (set rs) (set fs) (set fs) {} (createState\<lparr>ev_round := Suc (ev_round createState)\<rparr>)"
    using ok(2) empty by (simp add: during_def candidate_set_def well_founded_def keyed_def)
  moreover have "set fs \<subseteq> consequences (cx_evaluator ?cx) (set rs) (set fs)"
    by (auto intro: consequences.given)
  then have "card (set fs) \<le> model_size (cx_evaluator ?cx) rs (set fs)"
    unfolding model_size_def by (rule card_mono [OF ok(4)])
  ultimately have "between ?cx rs (set fs) (set fs) (by_key env fs) (buildPredicateIndex env fs) fs createState"
    using ok(2,3) empty cx body
    by (auto simp: between_def bounded_def candidate_set_def keyed_by_key index_for_build closed_under_def)
  from eval_rounds_evaluated [OF this ok(1) ok(4)] show ?thesis by (simp add: run)
qed

lemma accepted_evaluates:
  assumes "accepted env rulesInput factsInput opts limits rs fs"
    and "evaluateSemiNaive env rulesInput factsInput opts now = Inr e"
  shows "traced (eo_constraintEvaluator opts) rs (set fs) e"
    and "within_limits (eo_constraintEvaluator opts) rs (set fs) limits e"
    and "honest_stop (eo_constraintEvaluator opts) rs (set fs) limits (\<lambda>k. now k - now 0) e"
  using evaluate_evaluated [OF assms(1), of now] assms(2)
  by (simp_all add: evaluated_def context_of_def createContext_def)

lemma derived_less:
  assumes "accepted env rulesInput factsInput opts limits rs fs" and "traced ev rs (set fs) e"
    and "set fs \<union> ca_fact ` set (er_derivedCandidates e) \<subset> consequences ev (set rs) (set fs)"
  shows "length fs + length (er_derivedCandidates e) < card (consequences ev (set rs) (set fs))"
proof -
  have "card (set fs) = length fs" using accepted_ok(3) [OF assms(1)] by (rule distinct_card)
  then have "card (set fs \<union> ca_fact ` set (er_derivedCandidates e)) = length fs + length (er_derivedCandidates e)"
    using assms(2) distinct_card [of "map ca_fact (er_derivedCandidates e)"]
    by (subst card_Un_disjoint) (auto simp: traced_def Let_def)
  with psubset_card_mono [OF accepted_ok(4) [OF assms(1)] assms(3)] show ?thesis by simp
qed

section \<open>The properties\<close>

text \<open>
  C21: whatever it is given, \<open>evaluateSemiNaive\<close> answers: no exception of a join, of a constraint callback or of
  the reconstruction of an atom leaves it.  It answers \<open>invalid\<close> exactly when a check of the input fails,
  then without candidates and without having counted an operation or a round.
\<close>

theorem evaluation_never_throws:
  "\<exists>e. evaluateSemiNaive env rulesInput factsInput opts now = Inr e
    \<and> (er_status e = Evaluation_invalid \<longleftrightarrow> \<not> (\<exists>limits rs fs. accepted env rulesInput factsInput opts limits rs fs))
    \<and> (er_status e = Evaluation_invalid \<longrightarrow>
         er_derivedCandidates e = [] \<and> er_rounds e = 0 \<and> es_operations (er_stats e) = 0
         \<and> (er_stoppedReason e = Invalid_input \<or> er_stoppedReason e = Unsafe_rule))"
proof (cases "\<exists>limits rs fs. accepted env rulesInput factsInput opts limits rs fs")
  case True
  then obtain limits rs fs where ok: "accepted env rulesInput factsInput opts limits rs fs" by blast
  from evaluate_evaluated [OF ok, of now] obtain e where e: "evaluateSemiNaive env rulesInput factsInput opts now = Inr e"
    by (auto simp: evaluated_def)
  from accepted_evaluates(3) [OF ok e] have "er_status e \<noteq> Evaluation_invalid"
    by (auto simp: honest_stop_def Let_def split: evaluation_stop.splits)
  with e True show ?thesis by blast
next
  case False
  have refused: "er_status (buildResult env emptyState Evaluation_invalid reason u) = Evaluation_invalid
    \<and> er_derivedCandidates (buildResult env emptyState Evaluation_invalid reason u) = []
    \<and> er_rounds (buildResult env emptyState Evaluation_invalid reason u) = 0
    \<and> es_operations (er_stats (buildResult env emptyState Evaluation_invalid reason u)) = 0
    \<and> er_stoppedReason (buildResult env emptyState Evaluation_invalid reason u) = reason" for reason u
    by (simp add: buildResult_def emptyState_def emptyStats_def sort_by_def)
  from False have "\<exists>reason u. evaluateSemiNaive env rulesInput factsInput opts now
      = Inr (buildResult env emptyState Evaluation_invalid reason u) \<and> (reason = Invalid_input \<or> reason = Unsafe_rule)"
    by (cases "normalizeLimits opts"; cases "normalizeRules env rulesInput"; cases "normalizeFacts env factsInput")
      (auto simp: evaluateSemiNaive_def accepted_def list_all_iff find_None_iff split: option.splits)
  with refused False show ?thesis by (metis (no_types, lifting))
qed

text \<open>
  C17: when the evaluation is complete, the given and the derived facts together are the least set of facts that
  holds the given ones and is closed under the rules, and no fact is derived twice or derived although it was given.
  The matching of one body atom with new facts only, the indexes by predicate, the order of the joins and the
  keys of facts lose nothing.
\<close>

theorem complete_evaluation_is_least_model:
  assumes "accepted env rulesInput factsInput opts limits rs fs"
    and "evaluateSemiNaive env rulesInput factsInput opts now = Inr e"
    and "er_status e = Evaluation_complete"
  shows "set fs \<union> ca_fact ` set (er_derivedCandidates e) = consequences (eo_constraintEvaluator opts) (set rs) (set fs)
    \<and> distinct (fs @ map ca_fact (er_derivedCandidates e))"
  using accepted_evaluates [OF assms(1,2)] assms(3) accepted_ok(3) [OF assms(1)]
  by (auto simp: honest_stop_def traced_def Let_def split: evaluation_stop.splits)

text \<open>
  C18: every candidate, also of an evaluation that a limit stopped, has a derivation: its rule's head under its
  bindings, which bind the variables of the body and satisfy the constraints; the body atoms under the bindings
  are among its supports, and each support is a given fact or a candidate of an earlier round.  So every
  derived fact follows from the given ones.
\<close>

theorem candidates_have_derivations:
  assumes "accepted env rulesInput factsInput opts limits rs fs"
    and "evaluateSemiNaive env rulesInput factsInput opts now = Inr e" and "c \<in> set (er_derivedCandidates e)"
  shows "\<exists>r\<in>set rs. \<exists>\<sigma>. \<sigma> = map_of (ca_bindings c) \<and> ca_ruleId c = ru_id r \<and> dom \<sigma> = body_vars r
      \<and> ca_fact c = the_ground \<sigma> (ru_head r) \<and> allowed (eo_constraintEvaluator opts) r \<sigma>
      \<and> the_ground \<sigma> ` set (ru_body r) \<subseteq> set (ca_supports c)
      \<and> set (ca_supports c) \<subseteq> set fs \<union> {ca_fact d | d. d \<in> set (er_derivedCandidates e) \<and> ca_round d < ca_round c}
      \<and> ca_fact c \<in> consequences (eo_constraintEvaluator opts) (set rs) (set fs)"
proof -
  have wf: "well_founded (eo_constraintEvaluator opts) (set rs) (set fs) (set (er_derivedCandidates e))"
    using accepted_evaluates(1) [OF assms(1,2)] by (simp add: traced_def Let_def)
  with assms(3) have d: "derivation (eo_constraintEvaluator opts) (set rs)
      (set fs \<union> earlier (set (er_derivedCandidates e)) (ca_round c)) c" by (simp add: well_founded_def)
  moreover note well_founded_consequences [OF wf assms(3)]
  ultimately show ?thesis unfolding derivation_def Let_def earlier_def by blast
qed

text \<open>
  C20: an evaluation ends.  It takes no more rounds than the model has facts beyond the given ones, plus one that
  finds nothing new, and in every round no more operations than the rules allow for that many facts; it
  never passes a limit; and when it stops early, the limit it names is used up, the limit of facts with
  something still to derive.
\<close>

theorem evaluation_ends_within_limits:
  assumes "accepted env rulesInput factsInput opts limits rs fs"
    and "evaluateSemiNaive env rulesInput factsInput opts now = Inr e"
    and "N = card (consequences (eo_constraintEvaluator opts) (set rs) (set fs))"
  shows "er_rounds e + length fs \<le> N + 1
    \<and> es_operations (er_stats e) \<le> er_rounds e * (\<Sum>(r, i)\<leftarrow>jobs_of rs.
        N * ((length (ru_body r) + length (ru_constraints r)) * N ^ (length (ru_body r) - 1)))
    \<and> er_rounds e \<le> li_maxRounds limits \<and> es_operations (er_stats e) \<le> li_maxOperations limits
    \<and> length (er_derivedCandidates e) \<le> li_maxDerivedFacts limits
    \<and> (case er_stoppedReason e of
         Fixpoint \<Rightarrow> er_status e = Evaluation_complete
       | Max_operations \<Rightarrow> es_operations (er_stats e) = li_maxOperations limits
       | Max_rounds \<Rightarrow> er_rounds e = li_maxRounds limits
       | Max_derived_facts \<Rightarrow> length (er_derivedCandidates e) = li_maxDerivedFacts limits
           \<and> length fs + length (er_derivedCandidates e) < N
       | Timeout \<Rightarrow> \<exists>k. now k - now 0 > li_timeoutMs limits
       | _ \<Rightarrow> False)"
proof -
  note ok = accepted_evaluates [OF assms(1,2)]
  have fs: "card (set fs) = length fs" using accepted_ok(3) [OF assms(1)] by (rule distinct_card)
  show ?thesis
    using ok(2,3) fs assms(3) derived_less [OF assms(1) ok(1)]
    by (auto simp: within_limits_def honest_stop_def model_size_def round_cost_def job_cost_def Let_def
        split: evaluation_stop.splits)
qed

text \<open>
  C19: with enough of everything the evaluation completes: limits that leave room for the facts of the model, for one
  round more than it has new facts, and for the operations of that many rounds, and a clock that does not pass the
  time limit.
\<close>

theorem enough_budget_completes:
  assumes "accepted env rulesInput factsInput opts limits rs fs"
    and "N = card (consequences (eo_constraintEvaluator opts) (set rs) (set fs))"
    and "li_maxDerivedFacts limits + length fs \<ge> N" and "li_maxRounds limits + length fs > N"
    and "li_maxOperations limits > (N + 1) * (\<Sum>(r, i)\<leftarrow>jobs_of rs.
        N * ((length (ru_body r) + length (ru_constraints r)) * N ^ (length (ru_body r) - 1)))"
    and "\<And>k. now k - now 0 \<le> li_timeoutMs limits"
  shows "\<exists>e. evaluateSemiNaive env rulesInput factsInput opts now = Inr e \<and> er_status e = Evaluation_complete
    \<and> set fs \<union> ca_fact ` set (er_derivedCandidates e) = consequences (eo_constraintEvaluator opts) (set rs) (set fs)"
proof -
  from evaluate_evaluated [OF assms(1), of now] obtain e
    where e: "evaluateSemiNaive env rulesInput factsInput opts now = Inr e" by (auto simp: evaluated_def)
  note ok = accepted_evaluates [OF assms(1) e]
  let ?cost = "round_cost N (jobs_of rs)"
  have fs: "card (set fs) = length fs" using accepted_ok(3) [OF assms(1)] by (rule distinct_card)
  have size: "model_size (eo_constraintEvaluator opts) rs (set fs) = N" by (simp add: model_size_def assms(2))
  have "er_rounds e * ?cost \<le> (N + 1) * ?cost"
    using ok(2) size by (intro mult_le_mono1) (simp add: within_limits_def)
  with ok(2) assms(5) have ops: "es_operations (er_stats e) < li_maxOperations limits"
    by (simp add: within_limits_def size round_cost_def job_cost_def)
  with ok(3) assms(2,3,4,6) fs size derived_less [OF assms(1) ok(1)]
  have "er_status e = Evaluation_complete
    \<and> set fs \<union> ca_fact ` set (er_derivedCandidates e) = consequences (eo_constraintEvaluator opts) (set rs) (set fs)"
    by (auto simp: honest_stop_def Let_def not_le [symmetric] split: evaluation_stop.splits)
  with e show ?thesis by blast
qed

section \<open>Witnesses\<close>

text \<open>Paths in a graph with two edges; a constraint keeps the ends of a longer path apart.\<close>

definition distinct_ends :: evaluator where
  "distinct_ends g = Inr (JBool (distinct (ra_args g)))"

definition edge_rule :: rule where
  "edge_rule = \<lparr>ru_id = ''r0'', ru_head = example_atom ''p'' ''x'' ''y'',
     ru_body = [example_atom ''e'' ''x'' ''y''], ru_constraints = []\<rparr>"

definition step_rule :: rule where
  "step_rule = \<lparr>ru_id = ''r1'', ru_head = example_atom ''p'' ''x'' ''z'',
     ru_body = [example_atom ''e'' ''x'' ''y'', example_atom ''p'' ''y'' ''z''],
     ru_constraints = [example_atom ''d'' ''x'' ''z'']\<rparr>"

definition ground_pair :: "string \<Rightarrow> string \<Rightarrow> string \<Rightarrow> rule_atom" where
  "ground_pair p a b = \<lparr>ra_predicate = p, ra_args = [Constant a, Constant b]\<rparr>"

definition path_rules :: jsval where
  "path_rules = JArr (map rule_json [step_rule, edge_rule])"

definition path_facts :: jsval where
  "path_facts = JArr (map atom_json [ground_pair ''e'' ''b'' ''c'', ground_pair ''e'' ''a'' ''b''])"

definition path_options :: eval_options where
  "path_options = \<lparr>eo_maxOperations = JNum 1000, eo_maxRounds = JNum 4,
     eo_maxDerivedFacts = JNum 3, eo_timeoutMs = JUndefined, eo_constraintEvaluator = Some distinct_ends\<rparr>"

definition path_limits :: eval_limits where
  "path_limits = \<lparr>li_maxOperations = 1000, li_maxRounds = 4, li_maxDerivedFacts = 3, li_timeoutMs = 100\<rparr>"

definition derived_path :: "nat \<Rightarrow> bindings \<Rightarrow> rule_atom list \<Rightarrow> string \<Rightarrow> string \<Rightarrow> string \<Rightarrow> candidate" where
  "derived_path n b supports rid x y =
     \<lparr>ca_fact = ground_pair ''p'' x y, ca_ruleId = rid, ca_round = n, ca_bindings = b, ca_supports = supports\<rparr>"

definition path_derived :: "candidate list" where
  "path_derived =
     [derived_path 1 [(''x'', ''a''), (''y'', ''b'')] [ground_pair ''e'' ''a'' ''b''] ''r0'' ''a'' ''b'',
      derived_path 2 [(''x'', ''a''), (''y'', ''b''), (''z'', ''c'')]
        [ground_pair ''e'' ''a'' ''b'', ground_pair ''p'' ''b'' ''c''] ''r1'' ''a'' ''c'',
      derived_path 1 [(''x'', ''b''), (''y'', ''c'')] [ground_pair ''e'' ''b'' ''c''] ''r0'' ''b'' ''c'']"

lemma normalizeRules_json:
  "list_all valid_rule rs \<Longrightarrow> normalizeRules env (JArr (map rule_json rs)) = Inr (sort_by (rule_compare env) rs)"
  by (simp add: normalizeRules_def parse_serialize normalizeRule_json map_result_back list_all_iff)

lemma path_rules_normal: "normalizeRules example_env path_rules = Inr [edge_rule, step_rule]"
proof -
  have "list_all valid_rule [step_rule, edge_rule]" by code_simp
  moreover have "sort_by (rule_compare example_env) [step_rule, edge_rule] = [edge_rule, step_rule]" by code_simp
  ultimately show ?thesis unfolding path_rules_def by (simp only: normalizeRules_json)
qed

lemma path_facts_normal:
  "normalizeFacts example_env path_facts = Inr [ground_pair ''e'' ''a'' ''b'', ground_pair ''e'' ''b'' ''c'']"
  by code_simp

lemma path_accepted:
  "accepted example_env path_rules path_facts path_options path_limits [edge_rule, step_rule]
     [ground_pair ''e'' ''a'' ''b'', ground_pair ''e'' ''b'' ''c'']"
proof -
  have "list_all (\<lambda>r. unsafeHeadVariable r = None) [edge_rule, step_rule]" by code_simp
  moreover have "normalizeLimits path_options = Some path_limits" by code_simp
  ultimately show ?thesis by (simp add: accepted_def path_rules_normal path_facts_normal)
qed

lemma path_rounds:
  "map_sum id (\<lambda>e. (er_status e, er_stoppedReason e, er_rounds e, er_derivedCandidates e, es_operations (er_stats e)))
     (eval_rounds (createContext example_env path_limits (\<lambda>k. 0) (eo_constraintEvaluator path_options)) [edge_rule, step_rule]
       (by_key example_env [ground_pair ''e'' ''a'' ''b'', ground_pair ''e'' ''b'' ''c''])
       (buildPredicateIndex example_env [ground_pair ''e'' ''a'' ''b'', ground_pair ''e'' ''b'' ''c''])
       [ground_pair ''e'' ''a'' ''b'', ground_pair ''e'' ''b'' ''c''] createState)
   = Inr (Evaluation_complete, Fixpoint, 3, path_derived, 14)"
  by code_simp

lemma path_evaluated:
  "\<exists>e. evaluateSemiNaive example_env path_rules path_facts path_options (\<lambda>k. 0) = Inr e
     \<and> er_status e = Evaluation_complete \<and> er_rounds e = 3 \<and> er_derivedCandidates e = path_derived
     \<and> es_operations (er_stats e) = 14"
proof -
  have ok: "normalizeLimits path_options = Some path_limits" "list_all (\<lambda>r. unsafeHeadVariable r = None) [edge_rule, step_rule]"
    using path_accepted by (simp_all only: accepted_def)
  then have safe: "find (\<lambda>r. unsafeHeadVariable r \<noteq> None) [edge_rule, step_rule] = None" by simp
  have run: "evaluateSemiNaive example_env path_rules path_facts path_options (\<lambda>k. 0) =
    eval_rounds (createContext example_env path_limits (\<lambda>k. 0) (eo_constraintEvaluator path_options)) [edge_rule, step_rule]
       (by_key example_env [ground_pair ''e'' ''a'' ''b'', ground_pair ''e'' ''b'' ''c''])
       (buildPredicateIndex example_env [ground_pair ''e'' ''a'' ''b'', ground_pair ''e'' ''b'' ''c''])
       [ground_pair ''e'' ''a'' ''b'', ground_pair ''e'' ''b'' ''c''] createState"
    unfolding evaluateSemiNaive_def ok(1) path_rules_normal path_facts_normal
    by (simp only: option.case sum.case prod.case bind_result_simps safe)
  from path_rounds [folded run] show ?thesis
    by (cases "evaluateSemiNaive example_env path_rules path_facts path_options (\<lambda>k. 0)") simp_all
qed

lemma path_evaluator: "eo_constraintEvaluator path_options = Some distinct_ends"
  by (simp add: path_options_def)

lemma path_model:
  "consequences (Some distinct_ends) {edge_rule, step_rule} {ground_pair ''e'' ''a'' ''b'', ground_pair ''e'' ''b'' ''c''}
     = {ground_pair ''e'' ''a'' ''b'', ground_pair ''e'' ''b'' ''c'', ground_pair ''p'' ''a'' ''b'',
        ground_pair ''p'' ''a'' ''c'', ground_pair ''p'' ''b'' ''c''}"
proof -
  from path_evaluated obtain e where e: "evaluateSemiNaive example_env path_rules path_facts path_options (\<lambda>k. 0) = Inr e"
    "er_status e = Evaluation_complete" "er_derivedCandidates e = path_derived" by blast
  from accepted_evaluates(3) [OF path_accepted e(1)] e(2,3) show ?thesis
    by (auto simp: honest_stop_def path_derived_def derived_path_def path_options_def Let_def
        split: evaluation_stop.splits)
qed

lemma path_model_size:
  "card (consequences (eo_constraintEvaluator path_options) (set [edge_rule, step_rule])
     (set [ground_pair ''e'' ''a'' ''b'', ground_pair ''e'' ''b'' ''c''])) = 5"
  by (simp add: path_options_def path_model) (simp add: ground_pair_def)

theorem evaluation_never_throws_witness:
  "\<exists>e. evaluateSemiNaive example_env path_rules (JObj []) path_options (\<lambda>k. 0) = Inr e
    \<and> er_status e = Evaluation_invalid \<and> er_derivedCandidates e = []"
proof -
  have "\<not> accepted example_env path_rules (JObj []) path_options limits rs fs" for limits rs fs
    by (simp add: accepted_def normalizeFacts_def)
  with evaluation_never_throws [of example_env path_rules "JObj []" path_options "\<lambda>k. 0"] show ?thesis by blast
qed

theorem complete_evaluation_is_least_model_witness:
  "\<exists>e. evaluateSemiNaive example_env path_rules path_facts path_options (\<lambda>k. 0) = Inr e
    \<and> {ground_pair ''e'' ''a'' ''b'', ground_pair ''e'' ''b'' ''c''} \<union> ca_fact ` set (er_derivedCandidates e)
      = consequences (Some distinct_ends) {edge_rule, step_rule} {ground_pair ''e'' ''a'' ''b'', ground_pair ''e'' ''b'' ''c''}
    \<and> length (er_derivedCandidates e) = 3"
proof -
  from path_evaluated obtain e where e: "evaluateSemiNaive example_env path_rules path_facts path_options (\<lambda>k. 0) = Inr e"
    "er_status e = Evaluation_complete" "er_derivedCandidates e = path_derived" by blast
  from complete_evaluation_is_least_model [OF path_accepted e(1,2)] have
    "{ground_pair ''e'' ''a'' ''b'', ground_pair ''e'' ''b'' ''c''} \<union> ca_fact ` set (er_derivedCandidates e)
      = consequences (Some distinct_ends) {edge_rule, step_rule} {ground_pair ''e'' ''a'' ''b'', ground_pair ''e'' ''b'' ''c''}"
    by (simp only: path_evaluator list.set)
  moreover have "length (er_derivedCandidates e) = 3" by (simp add: e(3) path_derived_def)
  ultimately show ?thesis using e(1) by blast
qed

theorem candidates_have_derivations_witness:
  "\<exists>e c. evaluateSemiNaive example_env path_rules path_facts path_options (\<lambda>k. 0) = Inr e
    \<and> c \<in> set (er_derivedCandidates e) \<and> ca_round c = 2
    \<and> ca_fact c \<in> consequences (Some distinct_ends) {edge_rule, step_rule}
        {ground_pair ''e'' ''a'' ''b'', ground_pair ''e'' ''b'' ''c''}"
proof -
  define c where "c = derived_path 2 [(''x'', ''a''), (''y'', ''b''), (''z'', ''c'')]
    [ground_pair ''e'' ''a'' ''b'', ground_pair ''p'' ''b'' ''c''] ''r1'' ''a'' ''c''"
  from path_evaluated obtain e where e: "evaluateSemiNaive example_env path_rules path_facts path_options (\<lambda>k. 0) = Inr e"
    "er_derivedCandidates e = path_derived" by blast
  have c: "c \<in> set (er_derivedCandidates e)" by (simp add: e(2) path_derived_def c_def)
  from candidates_have_derivations [OF path_accepted e(1) c]
  have "ca_fact c \<in> consequences (Some distinct_ends) {edge_rule, step_rule}
      {ground_pair ''e'' ''a'' ''b'', ground_pair ''e'' ''b'' ''c''}" by (auto simp: path_options_def)
  with e(1) c show ?thesis by (intro exI [of _ e] exI [of _ c]) (simp add: c_def derived_path_def)
qed

theorem evaluation_ends_within_limits_witness:
  "\<exists>e. evaluateSemiNaive example_env path_rules path_facts path_options (\<lambda>k. 0) = Inr e
    \<and> er_rounds e + 2 \<le> 6 \<and> es_operations (er_stats e) \<le> li_maxOperations path_limits"
proof -
  from path_evaluated obtain e where e: "evaluateSemiNaive example_env path_rules path_facts path_options (\<lambda>k. 0) = Inr e"
    by blast
  from evaluation_ends_within_limits [OF path_accepted e path_model_size [symmetric]] e show ?thesis by auto
qed

theorem enough_budget_completes_witness:
  "\<exists>e. evaluateSemiNaive example_env path_rules path_facts path_options (\<lambda>k. 0) = Inr e
    \<and> er_status e = Evaluation_complete"
proof -
  have cost: "(\<Sum>(r, i)\<leftarrow>jobs_of [edge_rule, step_rule].
      5 * ((length (ru_body r) + length (ru_constraints r)) * 5 ^ (length (ru_body r) - 1))) = (155 :: nat)"
    by code_simp
  from enough_budget_completes [OF path_accepted path_model_size [symmetric], of "\<lambda>k. 0", unfolded cost] show ?thesis
    by (auto simp: path_limits_def)
qed

end
