(* ===== verification/Backward_Facts.thy ===== *)
theory Backward_Facts
  imports Backward Semi_Naive_Properties
begin

text \<open>
  A proof that the search returns is a derivation: its leaves are given facts, and every inner node is a
  rule under bindings of its variables that satisfy its constraints, over proofs of its body.
  For rules that the forward evaluation accepts, what is proved is a fact of the least model.  A failure of the
  search names a cause that is the case.
\<close>

section \<open>Checking a proof\<close>

definition rule_vars :: "rule \<Rightarrow> string set" where
  "rule_vars r = atom_vars (ru_head r) \<union> body_vars r"

fun valid_proof :: "evaluator option \<Rightarrow> rule set \<Rightarrow> rule_atom set \<Rightarrow> proof_trace \<Rightarrow> rule_atom \<Rightarrow> bool"
  and valid_proofs :: "evaluator option \<Rightarrow> rule set \<Rightarrow> rule_atom set \<Rightarrow> proof_trace list \<Rightarrow> rule_atom list \<Rightarrow> bool" where
  "valid_proof evaluator rs F (Fact_proof f) g \<longleftrightarrow> f = g \<and> f \<in> F"
| "valid_proof evaluator rs F (Rule_proof i goal b ps) g \<longleftrightarrow>
     goal = g \<and> (\<exists>r\<in>rs. ru_id r = i \<and> dom (map_of b) = rule_vars r \<and> g = the_ground (map_of b) (ru_head r)
       \<and> allowed evaluator r (map_of b)
       \<and> valid_proofs evaluator rs F ps (map (the_ground (map_of b)) (ru_body r)))"
| "valid_proofs evaluator rs F [] gs \<longleftrightarrow> gs = []"
| "valid_proofs evaluator rs F (p # ps) gs \<longleftrightarrow>
     (case gs of [] \<Rightarrow> False | g # gs \<Rightarrow> valid_proof evaluator rs F p g \<and> valid_proofs evaluator rs F ps gs)"

lemma valid_proofs_snoc:
  "valid_proofs evaluator rs F (ps @ [p]) (gs @ [g]) \<longleftrightarrow>
     valid_proofs evaluator rs F ps gs \<and> valid_proof evaluator rs F p g"
proof (induction ps arbitrary: gs)
  case Nil
  then show ?case by (cases gs) (auto split: list.splits)
next
  case (Cons q ps)
  show ?case
  proof (cases gs)
    case Nil
    then show ?thesis by (cases ps) auto
  qed (use Cons in simp)
qed

text \<open>For rules whose head uses variables of the body only, a proof derives a consequence.\<close>

lemma valid_proof_consequence:
  "valid_proof evaluator rs F t g \<Longrightarrow> \<forall>r\<in>rs. atom_vars (ru_head r) \<subseteq> body_vars r \<Longrightarrow>
     g \<in> consequences evaluator rs F"
  "valid_proofs evaluator rs F ts gs \<Longrightarrow> \<forall>r\<in>rs. atom_vars (ru_head r) \<subseteq> body_vars r \<Longrightarrow>
     set gs \<subseteq> consequences evaluator rs F"
proof (induction evaluator rs F t g and evaluator rs F ts gs rule: valid_proof_valid_proofs.induct)
  case (1 evaluator rs F f g)
  then show ?case by (auto intro: consequences.given)
next
  case (2 evaluator rs F i goal b ps g)
  from "2.prems"(1) obtain r where r: "r \<in> rs" "dom (map_of b) = rule_vars r" "g = the_ground (map_of b) (ru_head r)"
    "allowed evaluator r (map_of b)" "valid_proofs evaluator rs F ps (map (the_ground (map_of b)) (ru_body r))" by auto
  have "dom (map_of b) = body_vars r" using r(1,2) "2.prems"(2) by (auto simp: rule_vars_def)
  moreover have "set (map (the_ground (map_of b)) (ru_body r)) \<subseteq> consequences evaluator rs F"
    using "2.IH" [OF r(1) r(5)] "2.prems"(2) by blast
  ultimately show ?case unfolding r(3) using r(1,4) by (intro consequences.derived) auto
next
  case (4 evaluator rs F p ps gs)
  then show ?case by (cases gs) auto
qed simp

section \<open>Bindings applied to an atom\<close>

fun subst_term :: "valuation \<Rightarrow> rule_term \<Rightarrow> rule_term" where
  "subst_term \<sigma> (Constant c) = Constant c"
| "subst_term \<sigma> (Variable x) = (case \<sigma> x of None \<Rightarrow> Variable x | Some c \<Rightarrow> Constant c)"

definition subst_atom :: "valuation \<Rightarrow> rule_atom \<Rightarrow> rule_atom" where
  "subst_atom \<sigma> a = \<lparr>ra_predicate = ra_predicate a, ra_args = map (subst_term \<sigma>) (ra_args a)\<rparr>"

lemma subst_predicate [simp]: "ra_predicate (subst_atom \<sigma> a) = ra_predicate a"
  by (simp add: subst_atom_def)

lemma term_vars_subst: "term_vars (subst_term \<sigma> t) = term_vars t - dom \<sigma>"
  by (cases t) (auto split: option.splits)

lemma atom_vars_subst: "atom_vars (subst_atom \<sigma> a) = atom_vars a - dom \<sigma>"
  by (auto simp: atom_vars_def subst_atom_def term_vars_subst)

lemma term_under_subst: "\<sigma> \<subseteq>\<^sub>m \<tau> \<Longrightarrow> term_under \<tau> (subst_term \<sigma> t) = term_under \<tau> t"
  by (cases t) (auto split: option.splits dest: map_le_Some)

lemma instance_under_subst: "\<sigma> \<subseteq>\<^sub>m \<tau> \<Longrightarrow> instance_under \<tau> (subst_atom \<sigma> a) f = instance_under \<tau> a f"
  by (auto simp: instance_under_def subst_atom_def list_all2_conv_all_nth term_under_subst)

lemma ground_vars: "ground_atom a \<longleftrightarrow> atom_vars a = {}"
proof -
  have "is_constant t \<longleftrightarrow> term_vars t = {}" for t by (cases t) auto
  then show ?thesis by (auto simp: ground_atom_def atom_vars_def list_all_iff)
qed

lemma subst_ground:
  assumes "atom_vars a \<subseteq> dom \<sigma>"
  shows "subst_atom \<sigma> a = the_ground \<sigma> a"
proof -
  have "subst_term \<sigma> t = Constant (the (term_under \<sigma> t))" if "t \<in> set (ra_args a)" for t
    using assms term_vars_atom [OF that] by (cases t) auto
  then show ?thesis by (simp add: subst_atom_def the_ground_def)
qed

lemma map_result_map: "(\<And>x. x \<in> set xs \<Longrightarrow> f x = Inr (g x)) \<Longrightarrow> map_result f xs = Inr (map g xs)"
  by (induction xs) simp_all

lemma applyBindings_valid:
  assumes "valid_atom a" and "valid_bindings b"
  shows "applyBindings a b = Inr (subst_atom (map_of b) a)" and "valid_atom (subst_atom (map_of b) a)"
proof -
  have b: "bindingsMap b = map_of b" using assms(2) by (simp add: bindingsMap_distinct valid_bindings_def)
  have t: "apply_term b t = Inr (subst_term (map_of b) t) \<and> valid_term (subst_term (map_of b) t)"
    if "t \<in> set (ra_args a)" for t
  proof -
    have "valid_term t" using assms(1) that by (simp add: valid_atom_def list_all_iff)
    then show ?thesis
      using map_of_valid [OF assms(2)]
      by (cases t) (auto simp: apply_term_def b split: option.splits simp del: valid_term.simps)
  qed
  then have args: "map_result (apply_term b) (ra_args a) = Inr (map (subst_term (map_of b)) (ra_args a))"
    by (intro map_result_map) simp
  show valid: "valid_atom (subst_atom (map_of b) a)"
    using assms(1) t by (auto simp: valid_atom_def subst_atom_def list_all_iff)
  from rule_atom_of_parts [OF this] show "applyBindings a b = Inr (subst_atom (map_of b) a)"
    by (simp add: applyBindings_def args subst_atom_def)
qed

section \<open>Fresh variables\<close>

fun rename_term :: "(string \<Rightarrow> string) \<Rightarrow> rule_term \<Rightarrow> rule_term" where
  "rename_term \<rho> (Constant c) = Constant c"
| "rename_term \<rho> (Variable x) = Variable (\<rho> x)"

definition rename_atom :: "(string \<Rightarrow> string) \<Rightarrow> rule_atom \<Rightarrow> rule_atom" where
  "rename_atom \<rho> a = \<lparr>ra_predicate = ra_predicate a, ra_args = map (rename_term \<rho>) (ra_args a)\<rparr>"

definition rename_rule :: "(string \<Rightarrow> string) \<Rightarrow> rule \<Rightarrow> rule" where
  "rename_rule \<rho> r = \<lparr>ru_id = ru_id r, ru_head = rename_atom \<rho> (ru_head r),
     ru_body = map (rename_atom \<rho>) (ru_body r), ru_constraints = map (rename_atom \<rho>) (ru_constraints r)\<rparr>"

definition ren :: "renaming \<Rightarrow> string \<Rightarrow> string" where
  "ren names x = the (map_of names x)"

definition extends :: "renaming \<Rightarrow> renaming \<Rightarrow> bool" where
  "extends names names' = (\<exists>ext. names' = names @ ext)"

definition renaming_ok :: "nat \<Rightarrow> renaming \<Rightarrow> bool" where
  "renaming_ok scopeId names =
     (distinct (map fst names) \<and> map snd names = map (fresh_name scopeId) [0..<length names])"

lemma extends_refl [simp]: "extends names names"
  by (simp add: extends_def)

lemma extends_trans [trans]: "extends a b \<Longrightarrow> extends b c \<Longrightarrow> extends a c"
  by (auto simp: extends_def)

lemma extends_keys: "extends names names' \<Longrightarrow> fst ` set names \<subseteq> fst ` set names'"
  by (auto simp: extends_def)

lemma extends_ren:
  assumes "extends names names'" and "x \<in> fst ` set names"
  shows "ren names' x = ren names x"
proof -
  have "map_of names x \<noteq> None" using assms(2) by (simp add: map_of_eq_None_iff)
  with assms(1) show ?thesis by (auto simp: extends_def ren_def)
qed

lemma fresh_name_inject: "fresh_name s i = fresh_name s j \<Longrightarrow> i = j"
  by (simp add: fresh_name_def) (metis read_show_nat)

lemma ren_inj:
  assumes "renaming_ok s names"
  shows "inj_on (ren names) (fst ` set names)" and "distinct (map snd names)"
proof -
  show d: "distinct (map snd names)"
    using assms fresh_name_inject by (simp add: renaming_ok_def distinct_map inj_on_def)
  show "inj_on (ren names) (fst ` set names)"
  proof (rule inj_onI)
    fix x y assume "x \<in> fst ` set names" "y \<in> fst ` set names" and eq: "ren names x = ren names y"
    then obtain u v where uv: "(x, u) \<in> set names" "(y, v) \<in> set names" by auto
    then have "map_of names x = Some u" "map_of names y = Some v"
      using assms by (simp_all add: renaming_ok_def)
    then have "snd (x, u) = snd (y, v)" using eq by (simp add: ren_def)
    moreover have "inj_on snd (set names)" using d by (simp add: distinct_map)
    ultimately have "(x, u) = (y, v)" using uv by (meson inj_onD)
    then show "x = y" by simp
  qed
qed

lemma fresh_list_ok:
  assumes step: "\<And>names x y names'. x \<in> set xs \<Longrightarrow> f names x = Inr (y, names') \<Longrightarrow> ok names \<Longrightarrow>
      ok names' \<and> extends names names' \<and> P names' x y"
    and mono: "\<And>names names' x y. P names x y \<Longrightarrow> extends names names' \<Longrightarrow> P names' x y"
  shows "fresh_list f names xs = Inr (ys, names') \<Longrightarrow> ok names \<Longrightarrow>
    ok names' \<and> extends names names' \<and> list_all2 (P names') xs ys"
  using step
proof (induction xs arbitrary: names ys)
  case (Cons x xs)
  from Cons.prems(1) obtain y n1 zs where first: "f names x = Inr (y, n1)"
    and rest: "fresh_list f n1 xs = Inr (zs, names')" and ys: "ys = y # zs"
    by (auto simp: bind_result_eq_Inr)
  from Cons.prems(3) [OF _ first Cons.prems(2)] have 1: "ok n1" "extends names n1" "P n1 x y" by simp_all
  from Cons.IH [OF rest 1(1)] Cons.prems(3) have 2: "ok names'" "extends n1 names'" "list_all2 (P names') xs zs"
    by auto
  from 1 2 ys show ?case by (auto intro: extends_trans mono)
qed simp

definition renamed_term :: "renaming \<Rightarrow> rule_term \<Rightarrow> rule_term \<Rightarrow> bool" where
  "renamed_term names t u = (term_vars t \<subseteq> fst ` set names \<and> u = rename_term (ren names) t)"

definition renamed_atom :: "renaming \<Rightarrow> rule_atom \<Rightarrow> rule_atom \<Rightarrow> bool" where
  "renamed_atom names a b = (atom_vars a \<subseteq> fst ` set names \<and> b = rename_atom (ren names) a \<and> valid_atom b)"

lemma renamed_term_mono: "renamed_term names t u \<Longrightarrow> extends names names' \<Longrightarrow> renamed_term names' t u"
  using extends_keys [of names names'] extends_ren [of names names']
  by (cases t) (auto simp: renamed_term_def)

lemma renamed_terms:
  "list_all2 (renamed_term names) ts us \<longleftrightarrow>
     (\<Union>t\<in>set ts. term_vars t) \<subseteq> fst ` set names \<and> us = map (rename_term (ren names)) ts"
  by (induction ts us rule: list_induct2') (auto simp: renamed_term_def)

lemma renamed_atom_iff:
  "renamed_atom names a b \<longleftrightarrow>
     ra_predicate b = ra_predicate a \<and> list_all2 (renamed_term names) (ra_args a) (ra_args b) \<and> valid_atom b"
  by (cases b) (auto simp: renamed_atom_def renamed_terms atom_vars_def rename_atom_def)

lemma renamed_atom_mono: "renamed_atom names a b \<Longrightarrow> extends names names' \<Longrightarrow> renamed_atom names' a b"
  by (auto simp: renamed_atom_iff intro: renamed_term_mono list_all2_mono)

lemma renamed_atoms:
  "list_all2 (renamed_atom names) as bs \<longleftrightarrow>
     (\<Union>a\<in>set as. atom_vars a) \<subseteq> fst ` set names \<and> bs = map (rename_atom (ren names)) as \<and> list_all valid_atom bs"
  by (induction as bs rule: list_induct2') (auto simp: renamed_atom_def)

lemma variable_term_Inr: "variable_term (JStr x) = Inr t \<Longrightarrow> t = Variable x"
  by (auto simp: variable_term_def normalizeVariable_def bind_result_eq_Inr assertText_Inr split: if_splits)

lemma fresh_term_ok:
  assumes "fresh_term s names t = Inr (u, names')" and "renaming_ok s names"
  shows "renaming_ok s names' \<and> extends names names' \<and> renamed_term names' t u"
proof (cases t)
  case (Constant c)
  with assms show ?thesis by (auto simp: renamed_term_def)
next
  case (Variable x)
  show ?thesis
  proof (cases "map_of names x")
    case None
    then have new: "x \<notin> fst ` set names" by (simp add: map_of_eq_None_iff)
    have u: "u = Variable (fresh_name s (length names))" and n: "names' = names @ [(x, fresh_name s (length names))]"
      using assms(1) Variable None by (auto simp: Let_def bind_result_eq_Inr map_add_def dest: variable_term_Inr)
    have "map_of names' x = Some (fresh_name s (length names))" using None by (simp add: n map_add_def)
    then show ?thesis
      using assms(2) new Variable u by (auto simp: renaming_ok_def n extends_def renamed_term_def ren_def)
  next
    case (Some y)
    with assms Variable show ?thesis
      by (auto simp: Let_def bind_result_eq_Inr renamed_term_def ren_def map_of_SomeD image_iff
          dest!: variable_term_Inr map_of_SomeD intro!: bexI [of _ "(x, y)"])
  qed
qed

lemma fresh_terms_ok:
  "fresh_list (fresh_term s) names ts = Inr (us, names') \<Longrightarrow> renaming_ok s names \<Longrightarrow>
     renaming_ok s names' \<and> extends names names' \<and> list_all2 (renamed_term names') ts us"
  by (rule fresh_list_ok [where f = "fresh_term s" and ok = "renaming_ok s" and P = renamed_term])
    (erule (1) fresh_term_ok, erule (1) renamed_term_mono)

lemma normalizeTerm_id: "normalizeTerm (term_json t) = Inr u \<Longrightarrow> u = t"
  by (cases t) (auto simp: normalizeTerm_def normalizeVariable_def normalizeConstant_def bind_result_eq_Inr
      assertText_Inr split: if_splits)

lemma rule_atom_of_Inr:
  assumes "rule_atom_of (JStr p) (JArr (map term_json ts)) = Inr a"
  shows "a = \<lparr>ra_predicate = p, ra_args = ts\<rparr> \<and> valid_atom a"
proof -
  have "map_result normalizeTerm (map term_json ts) = Inr us \<Longrightarrow> us = ts" for us
    by (induction ts arbitrary: us) (auto simp: bind_result_eq_Inr dest: normalizeTerm_id)
  with assms rule_atom_of_valid [OF assms] show ?thesis
    by (auto simp: rule_atom_of_def normalizeAtom_def bind_result_eq_Inr assertText_Inr split: if_splits)
qed

lemma fresh_atom_ok:
  assumes "fresh_atom s names a = Inr (b, names')" and "renaming_ok s names"
  shows "renaming_ok s names' \<and> extends names names' \<and> renamed_atom names' a b"
proof -
  from assms(1) obtain ts where ts: "fresh_list (fresh_term s) names (ra_args a) = Inr (ts, names')"
    and b: "rule_atom_of (JStr (ra_predicate a)) (JArr (map term_json ts)) = Inr b"
    by (auto simp: fresh_atom_def bind_result_eq_Inr)
  have b': "b = \<lparr>ra_predicate = ra_predicate a, ra_args = ts\<rparr>" "valid_atom b"
    using rule_atom_of_Inr [OF b] by blast+
  with fresh_terms_ok [OF ts assms(2)] show ?thesis by (simp add: renamed_atom_iff)
qed

lemma fresh_atoms_ok:
  "fresh_list (fresh_atom s) names as = Inr (bs, names') \<Longrightarrow> renaming_ok s names \<Longrightarrow>
     renaming_ok s names' \<and> extends names names' \<and> list_all2 (renamed_atom names') as bs"
  by (rule fresh_list_ok [where f = "fresh_atom s" and ok = "renaming_ok s" and P = renamed_atom])
    (erule (1) fresh_atom_ok, erule (1) renamed_atom_mono)

lemma createRule_parts:
  assumes "createRule env (JObj [(''id'', JStr i), (''head'', atom_json h), (''body'', JArr (map atom_json body)),
      (''constraints'', JArr (map atom_json cs))]) = Inr q"
    and "valid_atom h" and "list_all valid_atom body" and "list_all valid_atom cs"
  shows "q = \<lparr>ru_id = i, ru_head = h, ru_body = body, ru_constraints = cs\<rparr>"
proof -
  have "normalizeAtomList (JArr (map atom_json as)) required n code = Inr bs \<Longrightarrow> list_all valid_atom as \<Longrightarrow> bs = as"
    for as required n code bs
    using normalizeAtomList_json [of as n required code] by (auto simp: normalizeAtomList_def split: if_splits)
  with assms show ?thesis
    by (auto simp: createRule_def normalizeRule_def rule_fields_def bind_result_eq_Inr normalizeAtom_json assertText_Inr
        split: if_splits)
qed

text \<open>The fresh copy is the rule with its variables renamed apart.\<close>

lemma freshenRule_ok:
  assumes "freshenRule env r s = Inr (q, reverse)"
  obtains names where "renaming_ok s names" and "reverse = map (\<lambda>(x, y). (y, x)) names"
    and "q = rename_rule (ren names) r" and "valid_rule q"
    and "rule_vars r \<union> (\<Union>c\<in>set (ru_constraints r). atom_vars c) \<subseteq> fst ` set names"
proof -
  from assms obtain h n1 body n2 cs names where
    h: "fresh_atom s [] (ru_head r) = Inr (h, n1)" and
    b: "fresh_list (fresh_atom s) n1 (ru_body r) = Inr (body, n2)" and
    c: "fresh_list (fresh_atom s) n2 (ru_constraints r) = Inr (cs, names)" and
    q: "createRule env (JObj [(''id'', JStr (ru_id r)), (''head'', atom_json h),
         (''body'', JArr (map atom_json body)), (''constraints'', JArr (map atom_json cs))]) = Inr q" and
    reverse: "reverse = map (\<lambda>(x, y). (y, x)) names"
    by (auto simp: freshenRule_def bind_result_eq_Inr)
  have "renaming_ok s []" by (simp add: renaming_ok_def)
  from fresh_atom_ok [OF h this] have 1: "renaming_ok s n1" "renamed_atom n1 (ru_head r) h" by simp_all
  from fresh_atoms_ok [OF b 1(1)] have 2: "renaming_ok s n2" "extends n1 n2" "list_all2 (renamed_atom n2) (ru_body r) body" by simp_all
  from fresh_atoms_ok [OF c 2(1)] have 3: "renaming_ok s names" "extends n2 names" "list_all2 (renamed_atom names) (ru_constraints r) cs" by simp_all
  have head: "renamed_atom names (ru_head r) h"
    using 1(2) 2(2) 3(2) by (blast intro: renamed_atom_mono extends_trans)
  have body: "list_all2 (renamed_atom names) (ru_body r) body"
    using 2(3) 3(2) by (auto intro: renamed_atom_mono list_all2_mono)
  have "q = \<lparr>ru_id = ru_id r, ru_head = h, ru_body = body, ru_constraints = cs\<rparr>"
    by (rule createRule_parts [OF q]) (use head body 3(3) in \<open>auto simp: renamed_atoms renamed_atom_def\<close>)
  then have "q = rename_rule (ren names) r"
    using head body 3(3) by (simp add: rename_rule_def renamed_atom_def renamed_atoms)
  moreover have "valid_rule q"
    using q by (auto simp: createRule_def intro: normalizeRule_valid)
  moreover have "rule_vars r \<union> (\<Union>c\<in>set (ru_constraints r). atom_vars c) \<subseteq> fst ` set names"
    using head body 3(3) by (simp add: renamed_atom_def renamed_atoms rule_vars_def body_vars_def)
  ultimately show ?thesis using that 3(1) reverse by blast
qed

section \<open>Bindings of the original variables\<close>

lemma set_map_filter: "y \<in> set (List.map_filter f xs) \<longleftrightarrow> (\<exists>x\<in>set xs. f x = Some y)"
  by (induction xs) (auto simp: List.map_filter_simps split: option.splits)

lemma distinct_map_filter:
  "distinct (map fst b) \<Longrightarrow> (\<And>y z x. rv y = Some x \<Longrightarrow> rv z = Some x \<Longrightarrow> y = z) \<Longrightarrow>
     distinct (map fst (List.map_filter (\<lambda>(y, c). map_option (\<lambda>x. (x, c)) (rv y)) b))"
proof (induction b)
  case (Cons p b)
  obtain y c where p: "p = (y, c)" by (cases p)
  have "x \<notin> fst ` set (List.map_filter (\<lambda>(y, c). map_option (\<lambda>x. (x, c)) (rv y)) b)" if "rv y = Some x" for x
    using Cons.prems(1) Cons.prems(2) [OF that] p by (force simp: set_map_filter)
  with Cons p show ?case by (auto simp: List.map_filter_simps split: option.splits)
qed (simp add: List.map_filter_simps)

lemma original_bindings:
  assumes names: "renaming_ok s names" and b: "distinct (map fst b)"
  shows "map_of (originalRuleBindings env b (map (\<lambda>(x, y). (y, x)) names)) x
    = (if x \<in> fst ` set names then map_of b (ren names x) else None)"
proof -
  let ?rev = "map (\<lambda>(x, y). (y, x)) names" and ?ob = "originalRuleBindings env b (map (\<lambda>(x, y). (y, x)) names)"
  have keys: "distinct (map fst ?rev)" using ren_inj(2) [OF names] by (simp add: comp_def case_prod_beta)
  have rev: "map_of ?rev y = Some x \<longleftrightarrow> (x, y) \<in> set names" for x y
    by (auto simp: map_of_eq_Some_iff [OF keys])
  have in_ob: "(x, c) \<in> set ?ob \<longleftrightarrow> (\<exists>y. (x, y) \<in> set names \<and> (y, c) \<in> set b)" for x c
  proof -
    have "(x, c) \<in> set ?ob \<longleftrightarrow> (\<exists>p\<in>set b. map_of ?rev (fst p) = Some x \<and> snd p = c)"
      by (auto simp: originalRuleBindings_def set_map_filter case_prod_beta)
    then show ?thesis unfolding rev by force
  qed
  have "distinct (map fst names)" using names by (simp add: renaming_ok_def)
  then have names_iff: "(x, y) \<in> set names \<longleftrightarrow> x \<in> fst ` set names \<and> ren names x = y" for x y
    by (force simp: ren_def)
  have "mset (map fst ?ob) = mset (map fst (List.map_filter (\<lambda>(y, c). map_option (\<lambda>x. (x, c)) (map_of ?rev y)) b))"
    by (simp add: originalRuleBindings_def)
  moreover have "distinct (map fst (List.map_filter (\<lambda>(y, c). map_option (\<lambda>x. (x, c)) (map_of ?rev y)) b))"
    by (rule distinct_map_filter [OF b]) (simp only: rev names_iff)
  ultimately have "distinct (map fst ?ob)" by (metis mset_eq_imp_distinct_iff)
  then have ob: "map_of ?ob x = Some c \<longleftrightarrow> (x, c) \<in> set ?ob" for c by (rule map_of_eq_Some_iff)
  have some: "map_of ?ob x = Some c \<longleftrightarrow> x \<in> fst ` set names \<and> map_of b (ren names x) = Some c" for c
    unfolding ob in_ob names_iff map_of_eq_Some_iff [OF b] by blast
  show ?thesis
  proof (cases "map_of ?ob x")
    case None
    then have "\<not> (x \<in> fst ` set names \<and> map_of b (ren names x) = Some c)" for c unfolding some [symmetric] by simp
    with None show ?thesis by (cases "map_of b (ren names x)") auto
  next
    case (Some c)
    with some [of c] show ?thesis by simp
  qed
qed

lemma atom_vars_rename: "atom_vars (rename_atom \<rho> a) = \<rho> ` atom_vars a"
proof -
  have "term_vars (rename_term \<rho> t) = \<rho> ` term_vars t" for t by (cases t) simp_all
  then show ?thesis by (auto simp: atom_vars_def rename_atom_def)
qed

lemma rename_vars: "rule_vars (rename_rule \<rho> r) = \<rho> ` rule_vars r"
  by (auto simp: rule_vars_def body_vars_def rename_rule_def atom_vars_rename)

lemma the_ground_rename:
  assumes "\<And>x. x \<in> atom_vars a \<Longrightarrow> \<tau> (\<rho> x) = \<sigma> x"
  shows "the_ground \<tau> (rename_atom \<rho> a) = the_ground \<sigma> a"
proof -
  have "term_under \<tau> (rename_term \<rho> t) = term_under \<sigma> t" if "t \<in> set (ra_args a)" for t
    using assms term_vars_atom [OF that] by (cases t) auto
  then show ?thesis by (simp add: the_ground_def rename_atom_def)
qed

text \<open>What holds of a rule's fresh copy under its bindings holds of the rule under the original bindings.\<close>

lemma original_rule:
  assumes names: "renaming_ok s names" and b: "distinct (map fst b)"
    and vars: "rule_vars r \<union> (\<Union>c\<in>set (ru_constraints r). atom_vars c) \<subseteq> fst ` set names"
    and dom: "dom (map_of b) = rule_vars (rename_rule (ren names) r)"
    and ob: "ob = originalRuleBindings env b (map (\<lambda>(x, y). (y, x)) names)"
  shows "dom (map_of ob) = rule_vars r"
    and "atom_vars a \<subseteq> fst ` set names \<Longrightarrow> the_ground (map_of b) (rename_atom (ren names) a) = the_ground (map_of ob) a"
    and "allowed ev (rename_rule (ren names) r) (map_of b) \<Longrightarrow> allowed ev r (map_of ob)"
proof -
  note map = original_bindings [OF names b, of env, folded ob]
  have inj: "inj_on (ren names) (fst ` set names)" by (rule ren_inj(1) [OF names])
  have mem: "ren names x \<in> dom (map_of b) \<longleftrightarrow> x \<in> rule_vars r" if "x \<in> fst ` set names" for x
  proof -
    have "rule_vars r \<subseteq> fst ` set names" using vars by blast
    then show ?thesis unfolding dom rename_vars using inj that by (rule inj_on_image_mem_iff [rotated 2])
  qed
  show d: "dom (map_of ob) = rule_vars r"
  proof (rule set_eqI)
    fix x
    show "x \<in> dom (map_of ob) \<longleftrightarrow> x \<in> rule_vars r"
      using vars mem [of x] by (cases "x \<in> fst ` set names") (auto simp: domIff map)
  qed
  show g: "atom_vars a \<subseteq> fst ` set names \<Longrightarrow> the_ground (map_of b) (rename_atom (ren names) a) = the_ground (map_of ob) a" for a
    by (rule the_ground_rename) (auto simp: map)
  assume allowed: "allowed ev (rename_rule (ren names) r) (map_of b)"
  show "allowed ev r (map_of ob)"
  proof (cases "ru_constraints r = []")
    case False
    with allowed obtain f where f: "ev = Some f" "\<forall>c\<in>set (ru_constraints r). ren names ` atom_vars c \<subseteq> dom (map_of b)
        \<and> f (the_ground (map_of b) (rename_atom (ren names) c)) = Inr (JBool True)"
      by (auto simp: allowed_def rename_rule_def atom_vars_rename)
    have "atom_vars c \<subseteq> dom (map_of ob) \<and> f (the_ground (map_of ob) c) = Inr (JBool True)" if c: "c \<in> set (ru_constraints r)" for c
    proof -
      have sub: "atom_vars c \<subseteq> fst ` set names" using vars c by auto
      have "ren names ` atom_vars c \<subseteq> dom (map_of b)" using f(2) c by blast
      then have "atom_vars c \<subseteq> rule_vars r" using mem sub by blast
      moreover have "f (the_ground (map_of b) (rename_atom (ren names) c)) = Inr (JBool True)" using f(2) c by blast
      ultimately show ?thesis using d by (simp add: g [OF sub])
    qed
    with f(1) show ?thesis by (simp add: allowed_def)
  qed (simp add: allowed_def)
qed

section \<open>Failures and budgets\<close>

definition later :: "backward_context \<Rightarrow> backward_state \<Rightarrow> backward_state \<Rightarrow> bool" where
  "later cx st st' =
     (bs_operations st \<le> bs_operations st'
      \<and> (bs_operations st \<le> bl_maxOperations (bc_limits cx) \<longrightarrow> bs_operations st' \<le> bl_maxOperations (bc_limits cx)))"

definition failure_ok :: "backward_context \<Rightarrow> backward_state \<Rightarrow> proof_failure \<Rightarrow> bool" where
  "failure_ok cx st f =
     (fst f \<in> {Not_proven, Unknown_proof, Stopped_proof}
      \<and> (fst f = Stopped_proof \<longrightarrow>
          snd f = Max_depth
          \<or> snd f = Proof_max_operations \<and> bs_operations st \<ge> bl_maxOperations (bc_limits cx)
          \<or> snd f = Proof_timeout \<and> (\<exists>k. bc_now cx k - bc_startedAt cx > bl_timeoutMs (bc_limits cx)))
      \<and> (fst f = Unknown_proof \<longrightarrow> snd f \<in> {Cycle, Non_ground_rule_goal, Constraint_unknown}))"

lemma later_refl [simp]: "later cx st st"
  by (simp add: later_def)

lemma later_trans [trans]: "later cx st st' \<Longrightarrow> later cx st' st'' \<Longrightarrow> later cx st st''"
  by (auto simp: later_def)

lemma failure_later: "failure_ok cx st f \<Longrightarrow> later cx st st' \<Longrightarrow> failure_ok cx st' f"
  by (auto simp: failure_ok_def later_def)

lemma strongestFailure_in: "strongestFailure fs \<in> insert (Not_proven, No_proof) (set fs)"
proof -
  have "foldl (\<lambda>best item. if failureRank (fst item) > failureRank (fst best) then item else best) b fs \<in> insert b (set fs)" for b
  proof (induction fs arbitrary: b)
    case (Cons f fs)
    show ?case using Cons [of b] Cons [of f] by auto
  qed simp
  then show ?thesis by (simp add: strongestFailure_def)
qed

lemma strongestFailure_ok: "\<forall>f\<in>set fs. failure_ok cx st f \<Longrightarrow> failure_ok cx st (strongestFailure fs)"
  using strongestFailure_in [of fs] by (auto simp: failure_ok_def)

text \<open>A failure that is not stronger than the default one never replaces it.\<close>

lemma strongestFailure_reason: "fst (strongestFailure fs) = Not_proven \<Longrightarrow> snd (strongestFailure fs) = No_proof"
proof -
  let ?step = "\<lambda>best item. if failureRank (fst item) > failureRank (fst best) then item else best"
  have "b = (Not_proven, No_proof) \<or> failureRank (fst b) > 1 \<Longrightarrow>
      foldl ?step b fs = (Not_proven, No_proof) \<or> failureRank (fst (foldl ?step b fs)) > 1" for b
  proof (induction fs arbitrary: b)
    case (Cons f fs)
    show ?case unfolding foldl.simps by (rule Cons.IH) (use Cons.prems in auto)
  qed simp
  from this [of "(Not_proven, No_proof)"]
  show "fst (strongestFailure fs) = Not_proven \<Longrightarrow> snd (strongestFailure fs) = No_proof"
    by (auto simp: strongestFailure_def)
qed

lemma backwardBudget_ok:
  assumes "backwardBudget cx st = (x, st')"
  shows "later cx st st'" and "x = Some reason \<Longrightarrow> failure_ok cx st' (Stopped_proof, reason)"
  using assms by (auto simp: backwardBudget_def later_def failure_ok_def split: if_splits)

lemma backwardOperation_ok:
  assumes "backwardOperation cx st = (x, st')"
  shows "later cx st st'" and "x = Some reason \<Longrightarrow> failure_ok cx st' (Stopped_proof, reason)"
  using assms by (auto simp: backwardOperation_def backwardBudget_def later_def failure_ok_def split: if_splits)

lemma isGround_iff: "isGround a \<longleftrightarrow> atom_vars a = {}"
  unfolding isGround_def ground_atom_def [symmetric] by (rule ground_vars)

lemma check_constraints_ok:
  "check_constraints cx ev b cs st = Inr (x, st') \<Longrightarrow> list_all valid_atom cs \<Longrightarrow> valid_bindings b \<Longrightarrow>
     later cx st st' \<and> (\<forall>f. x = Some f \<longrightarrow> failure_ok cx st' f)
     \<and> (x = None \<longrightarrow> (\<forall>c\<in>set cs. atom_vars c \<subseteq> dom (map_of b) \<and> ev (the_ground (map_of b) c) = Inr (JBool True)))"
proof (induction cx ev b cs st rule: check_constraints.induct)
  case (2 cx ev b c cs st)
  obtain y u where op: "backwardOperation cx st = (y, u)" by fastforce
  note u = backwardOperation_ok [OF op]
  have c: "applyBindings c b = Inr (subst_atom (map_of b) c)" using "2.prems" by (simp add: applyBindings_valid)
  show ?case
  proof (cases y)
    case (Some reason)
    with "2.prems"(1) op u show ?thesis by auto
  next
    case None
    let ?g = "subst_atom (map_of b) c"
    show ?thesis
    proof (cases "isGround ?g")
      case False
      with "2.prems"(1) op None c u(1) show ?thesis by (auto simp: failure_ok_def)
    next
      case True
      then have vars: "atom_vars c \<subseteq> dom (map_of b)" by (auto simp: isGround_iff atom_vars_subst)
      then have g: "?g = the_ground (map_of b) c" by (rule subst_ground)
      define verdict where "verdict = (case ev ?g of Inl _ \<Rightarrow> JStr ''unknown'' | Inr v \<Rightarrow> v)"
      show ?thesis
      proof (cases "verdict = JBool True")
        case False
        with "2.prems"(1) op None c u(1) True show ?thesis
          by (auto simp: failure_ok_def verdict_def Let_def split: if_splits)
      next
        case ok: True
        then have "ev ?g = Inr (JBool True)" by (auto simp: verdict_def split: sum.splits)
        moreover from "2.prems"(1) op None c True ok have rec: "check_constraints cx ev b cs u = Inr (x, st')"
          by (simp add: verdict_def Let_def)
        have "\<not> \<not> isGround ?g" "verdict \<noteq> JBool False" "\<not> verdict \<noteq> JBool True" using True ok by simp_all
        from "2.IH" [OF op [symmetric] None this(1) verdict_def this(2,3) rec] "2.prems"(2,3)
        have IH: "later cx u st'" "\<forall>f. x = Some f \<longrightarrow> failure_ok cx st' f"
          "x = None \<longrightarrow> (\<forall>c\<in>set cs. atom_vars c \<subseteq> dom (map_of b) \<and> ev (the_ground (map_of b) c) = Inr (JBool True))"
          by auto
        ultimately show ?thesis using later_trans [OF u(1) IH(1)] vars g by auto
      qed
    qed
  qed
qed simp

section \<open>The contract of an enumeration\<close>

text \<open>A context whose rules are well formed and whose index holds facts of \<open>F\<close> only.\<close>

definition context_ok :: "backward_context \<Rightarrow> rule_atom set \<Rightarrow> bool" where
  "context_ok cx F =
     ((\<forall>r\<in>set (bc_rules cx). valid_rule r)
      \<and> (\<forall>p. \<forall>f\<in>set (index_get (bc_factIndex cx) p). f \<in> F \<and> fact_ok f))"

definition branch_ok :: "backward_context \<Rightarrow> rule_atom set \<Rightarrow> rule_atom \<Rightarrow> bindings \<Rightarrow> proof_branch \<Rightarrow> bool" where
  "branch_ok cx F goal b branch =
     (valid_bindings (fst branch) \<and> map_of b \<subseteq>\<^sub>m map_of (fst branch)
      \<and> dom (map_of (fst branch)) = dom (map_of b) \<union> atom_vars goal
      \<and> valid_proof (bc_evaluator cx) (set (bc_rules cx)) F (snd branch) (the_ground (map_of (fst branch)) goal))"

lemma the_ground_mono:
  assumes "\<sigma> \<subseteq>\<^sub>m \<tau>" and "atom_vars a \<subseteq> dom \<sigma>"
  shows "the_ground \<tau> a = the_ground \<sigma> a"
  using the_ground_unique [OF instance_mono [OF assms(1) the_ground_instance [OF assms(2)]]] by simp

lemma the_ground_id:
  assumes "ground_atom a"
  shows "the_ground \<sigma> a = a"
proof -
  have "Constant (the (term_under \<sigma> t)) = t" if "t \<in> set (ra_args a)" for t
    using assms that by (cases t) (auto simp: ground_atom_def list_all_iff)
  then have "map (\<lambda>t. Constant (the (term_under \<sigma> t))) (ra_args a) = ra_args a" by (simp add: map_idI)
  then show ?thesis by (simp add: the_ground_def)
qed

locale prover =
  fixes cx :: backward_context and F :: "rule_atom set" and enum :: enumeration
  assumes enum: "context_ok cx F \<Longrightarrow> valid_atom goal \<Longrightarrow> valid_bindings b \<Longrightarrow>
      enum goal b st = Inr ((branches, failures), st') \<Longrightarrow>
      (\<forall>br\<in>set branches. branch_ok cx F goal b br) \<and> (\<forall>f\<in>set failures. failure_ok cx st' f) \<and> later cx st st'"
begin

text \<open>A solution of a sequence extends the bindings and proves every goal of it.\<close>

definition solution_ok :: "rule_atom list \<Rightarrow> bindings \<Rightarrow> proof_trace list \<Rightarrow> proof_solution \<Rightarrow> bool" where
  "solution_ok goals b traces s =
     (\<exists>ts. snd s = traces @ ts \<and> valid_bindings (fst s) \<and> map_of b \<subseteq>\<^sub>m map_of (fst s)
        \<and> dom (map_of (fst s)) = dom (map_of b) \<union> (\<Union>a\<in>set goals. atom_vars a)
        \<and> valid_proofs (bc_evaluator cx) (set (bc_rules cx)) F ts (map (the_ground (map_of (fst s))) goals))"

lemma try_branches_ok:
  assumes step: "\<And>br st x st'. br \<in> set branches \<Longrightarrow> solve br st = Inr (x, st') \<Longrightarrow>
      later cx st st' \<and> (case x of Inl f \<Rightarrow> failure_ok cx st' f | Inr s \<Rightarrow> P s)"
    and "try_branches solve branches failures st = Inr (x, st')" and "\<forall>f\<in>set failures. failure_ok cx st f"
  shows "later cx st st' \<and> (case x of Inl f \<Rightarrow> failure_ok cx st' f | Inr s \<Rightarrow> P s)"
  using assms
proof (induction solve branches failures st rule: try_branches.induct)
  case (1 solve failures st)
  then show ?case by (auto intro: strongestFailure_ok)
next
  case (2 solve branch branches failures st)
  from "2.prems"(2) obtain y u where first: "solve branch st = Inr (y, u)" by (auto simp: bind_result_eq_Inr)
  have u: "later cx st u" "case y of Inl f \<Rightarrow> failure_ok cx u f | Inr s \<Rightarrow> P s"
    using "2.prems"(1) [OF _ first] by simp_all
  show ?case
  proof (cases y)
    case (Inr s)
    with "2.prems"(2) first u show ?thesis by auto
  next
    case (Inl f)
    have fs: "\<forall>g\<in>set (failures @ [f]). failure_ok cx u g"
      using "2.prems"(3) u Inl by (auto intro: failure_later)
    show ?thesis
    proof (cases "fst f = Stopped_proof")
      case True
      with "2.prems"(2) first Inl have "x = Inl (strongestFailure (failures @ [f]))" "st' = u" by auto
      with u(1) strongestFailure_ok [OF fs] show ?thesis by simp
    next
      case False
      with "2.prems"(2) first Inl have rec: "try_branches solve branches (failures @ [f]) u = Inr (x, st')" by simp
      have step: "later cx st st' \<and> (case x of Inl f \<Rightarrow> failure_ok cx st' f | Inr s \<Rightarrow> P s)"
        if "br \<in> set branches" "solve br st = Inr (x, st')" for br st x st'
        using that by (intro "2.prems"(1)) auto
      from "2.IH" [OF Inl False step rec fs]
      have "later cx u st' \<and> (case x of Inl f \<Rightarrow> failure_ok cx st' f | Inr s \<Rightarrow> P s)" .
      with later_trans [OF u(1)] show ?thesis by blast
    qed
  qed
qed

lemma solveSequence_ok:
  "context_ok cx F \<Longrightarrow> list_all valid_atom goals \<Longrightarrow> valid_bindings b \<Longrightarrow>
     solveSequence enum goals b traces st = Inr (x, st') \<Longrightarrow>
     later cx st st' \<and> (case x of Inl f \<Rightarrow> failure_ok cx st' f | Inr s \<Rightarrow> solution_ok goals b traces s)"
proof (induction goals arbitrary: b traces st x st')
  case Nil
  then show ?case by (auto simp: solution_ok_def)
next
  case (Cons goal goals)
  from Cons.prems(4) obtain branches failures u where first: "enum goal b st = Inr ((branches, failures), u)"
    and rest: "try_branches (\<lambda>(b, trace). solveSequence enum goals b (traces @ [trace])) branches failures u = Inr (x, st')"
    by (auto simp: bind_result_eq_Inr)
  have goal: "valid_atom goal" and goals: "list_all valid_atom goals" using Cons.prems(2) by simp_all
  note found = enum [OF Cons.prems(1) goal Cons.prems(3) first]
  have "later cx u st' \<and> (case x of Inl f \<Rightarrow> failure_ok cx st' f | Inr s \<Rightarrow> solution_ok (goal # goals) b traces s)"
  proof (rule try_branches_ok [OF _ rest])
    fix br v y w
    assume br: "br \<in> set branches" and run: "(case br of (b, trace) \<Rightarrow> solveSequence enum goals b (traces @ [trace])) v = Inr (y, w)"
    obtain b1 t where [simp]: "br = (b1, t)" by (cases br)
    have ok: "branch_ok cx F goal b (b1, t)" using found br by auto
    then have "valid_bindings b1" by (simp add: branch_ok_def)
    from Cons.IH [OF Cons.prems(1) goals this, of "traces @ [t]" v y w] run
    have IH: "later cx v w" "case y of Inl f \<Rightarrow> failure_ok cx w f | Inr s \<Rightarrow> solution_ok goals b1 (traces @ [t]) s"
      by simp_all
    have "solution_ok (goal # goals) b traces s" if s: "solution_ok goals b1 (traces @ [t]) s" for s
    proof -
      from s obtain ts where ts: "snd s = traces @ t # ts" "valid_bindings (fst s)" "map_of b1 \<subseteq>\<^sub>m map_of (fst s)"
        "dom (map_of (fst s)) = dom (map_of b1) \<union> (\<Union>a\<in>set goals. atom_vars a)"
        "valid_proofs (bc_evaluator cx) (set (bc_rules cx)) F ts (map (the_ground (map_of (fst s))) goals)"
        by (auto simp: solution_ok_def)
      have "the_ground (map_of (fst s)) goal = the_ground (map_of b1) goal"
        using ts(3) ok by (intro the_ground_mono) (auto simp: branch_ok_def)
      with ts ok show ?thesis
        unfolding solution_ok_def by (intro exI [of _ "t # ts"]) (auto simp: branch_ok_def intro: map_le_trans)
    qed
    with IH show "later cx v w \<and> (case y of Inl f \<Rightarrow> failure_ok cx w f | Inr s \<Rightarrow> solution_ok (goal # goals) b traces s)"
      by (auto split: sum.splits)
  qed (use found in blast)
  with found show ?case by (blast intro: later_trans)
qed

lemma ruleBranch_ok:
  assumes cx: "context_ok cx F" and r: "r \<in> set (bc_rules cx)" and goal: "valid_atom goal" "ground_atom goal"
    and run: "ruleBranch cx enum r goal outer st = Inr (x, st')"
  shows "later cx st st' \<and> (case x of Inl f \<Rightarrow> failure_ok cx st' f
    | Inr br \<Rightarrow> fst br = outer \<and> valid_proof (bc_evaluator cx) (set (bc_rules cx)) F (snd br) goal)"
proof -
  let ?env = "bc_env cx" and ?st = "st\<lparr>bs_scopeCounter := bs_scopeCounter st + 1\<rparr>"
  obtain fresh reverse y u where fresh: "freshenRule ?env r (bs_scopeCounter st) = Inr (fresh, reverse)"
    and op: "backwardOperation cx ?st = (y, u)" using run by (fastforce simp: ruleBranch_def Let_def bind_result_eq_Inr)
  from freshenRule_ok [OF fresh] obtain names where names: "renaming_ok (bs_scopeCounter st) names"
    "reverse = map (\<lambda>(x, y). (y, x)) names" "fresh = rename_rule (ren names) r" "valid_rule fresh"
    "rule_vars r \<union> (\<Union>c\<in>set (ru_constraints r). atom_vars c) \<subseteq> fst ` set names" by blast
  have u: "later cx st u" "\<And>reason. y = Some reason \<Longrightarrow> failure_ok cx u (Stopped_proof, reason)"
    using backwardOperation_ok [OF op] by (simp_all add: later_def)
  show ?thesis
  proof (cases y)
    case (Some reason)
    with run fresh op u show ?thesis by (auto simp: ruleBranch_def Let_def)
  next
    case None
    define m where "m = unifyAtom ?env (atom_json (ru_head fresh)) (atom_json goal) no_options"
    have head: "valid_atom (ru_head fresh)" using names(4) by (simp add: valid_rule_def)
    note match = unify_first [OF head goal m_def]
    show ?thesis
    proof (cases "un_status m = Match")
      case False
      with run fresh op None u(1) show ?thesis
        by (auto simp: ruleBranch_def Let_def m_def [symmetric] failure_ok_def)
    next
      case True
      with match(2) have least: "least_match [] (ru_head fresh) goal (un_bindings m)" "valid_bindings (un_bindings m)" by simp_all
      obtain body v where solve: "solveSequence enum (ru_body fresh) (un_bindings m) [] u = Inr (body, v)"
        and rest: "(case body of Inl f \<Rightarrow> Inr (Inl f, v)
          | Inr (b, trs) \<Rightarrow> bind_result (evaluateConstraintSet cx fresh b v) (\<lambda>(failed, st).
              case failed of Some f \<Rightarrow> Inr (Inl f, st)
              | None \<Rightarrow> Inr (Inr (outer, Rule_proof (ru_id r) goal (originalRuleBindings ?env b reverse) trs), st)))
          = Inr (x, st')"
        using run fresh op None True by (auto simp: ruleBranch_def Let_def m_def [symmetric] bind_result_eq_Inr)
      have "list_all valid_atom (ru_body fresh)" using names(4) by (simp add: valid_rule_def)
      note solved = solveSequence_ok [OF cx this least(2) solve]
      show ?thesis
      proof (cases body)
        case (Inl f)
        with rest solved u(1) show ?thesis by (auto intro: later_trans)
      next
        case (Inr s)
        obtain b trs where s: "s = (b, trs)" by (cases s)
        from solved Inr s have sol: "valid_bindings b" "map_of (un_bindings m) \<subseteq>\<^sub>m map_of b"
          "dom (map_of b) = dom (map_of (un_bindings m)) \<union> body_vars fresh"
          "valid_proofs (bc_evaluator cx) (set (bc_rules cx)) F trs (map (the_ground (map_of b)) (ru_body fresh))"
          and v: "later cx u v"
          by (auto simp: solution_ok_def body_vars_def)
        from rest Inr s obtain failed w where constr: "evaluateConstraintSet cx fresh b v = Inr (failed, w)"
          and out: "(case failed of Some f \<Rightarrow> Inr (Inl f, w)
            | None \<Rightarrow> Inr (Inr (outer, Rule_proof (ru_id r) goal (originalRuleBindings ?env b reverse) trs), w))
            = (Inr (x, st') :: rule_error + (proof_failure + proof_branch) \<times> backward_state)"
          by (auto simp: bind_result_eq_Inr)
        have "list_all valid_atom (ru_constraints fresh)" using names(4) by (simp add: valid_rule_def)
        then have w: "later cx v w" "\<And>f. failed = Some f \<Longrightarrow> failure_ok cx w f"
          "failed = None \<Longrightarrow> allowed (bc_evaluator cx) fresh (map_of b)"
          using constr check_constraints_ok [of cx _ b "ru_constraints fresh" v failed w] sol(1)
          by (auto simp: evaluateConstraintSet_def allowed_def failure_ok_def split: if_splits option.splits)
        have upto: "later cx st w" using u(1) v w(1) by (blast intro: later_trans)
        show ?thesis
        proof (cases failed)
          case (Some f)
          with out upto w(2) show ?thesis by auto
        next
          case ok: None
          define ob where "ob = originalRuleBindings ?env b (map (\<lambda>(x, y). (y, x)) names)"
          have dom: "dom (map_of b) = rule_vars (rename_rule (ren names) r)"
            using sol(3) least(1) by (auto simp: least_match_def rule_vars_def names(3) [symmetric])
          have distinct: "distinct (map fst b)" using sol(1) by (simp add: valid_bindings_def)
          note orig = original_rule [OF names(1) distinct names(5) dom ob_def]
          have "goal = the_ground (map_of b) (ru_head fresh)"
            using instance_mono [OF sol(2)] least(1) goal(2) by (auto simp: least_match_def intro: the_ground_unique)
          also have "\<dots> = the_ground (map_of ob) (ru_head r)"
            using orig(2) [of "ru_head r"] names(5) by (simp add: names(3) rename_rule_def rule_vars_def)
          finally have g: "goal = the_ground (map_of ob) (ru_head r)" .
          have "the_ground (map_of b) (rename_atom (ren names) a) = the_ground (map_of ob) a" if "a \<in> set (ru_body r)" for a
            using that names(5) by (intro orig(2)) (auto simp: rule_vars_def body_vars_def)
          then have body: "map (the_ground (map_of b)) (ru_body fresh) = map (the_ground (map_of ob)) (ru_body r)"
            by (simp add: names(3) rename_rule_def)
          have "valid_proof (bc_evaluator cx) (set (bc_rules cx)) F (Rule_proof (ru_id r) goal ob trs) goal"
            using r orig(1) orig(3) w(3) [OF ok] sol(4) g body by (auto simp: names(3))
          with out ok upto show ?thesis by (auto simp: ob_def names(2))
        qed
      qed
    qed
  qed
qed

lemma try_rules_ok:
  assumes cx: "context_ok cx F" and goal: "valid_atom goal" "ground_atom goal"
  shows "try_rules (\<lambda>r st. ruleBranch cx enum r goal outer st) p rs branches failures st = Inr ((branches', failures'), st') \<Longrightarrow>
    set rs \<subseteq> set (bc_rules cx) \<Longrightarrow> \<forall>f\<in>set failures. failure_ok cx st f \<Longrightarrow>
    \<forall>br\<in>set branches. fst br = outer \<and> valid_proof (bc_evaluator cx) (set (bc_rules cx)) F (snd br) goal \<Longrightarrow>
    later cx st st' \<and> (\<forall>f\<in>set failures'. failure_ok cx st' f)
    \<and> (\<forall>br\<in>set branches'. fst br = outer \<and> valid_proof (bc_evaluator cx) (set (bc_rules cx)) F (snd br) goal)"
proof (induction rs arbitrary: branches failures st)
  case (Cons r rs)
  show ?case
  proof (cases "ra_predicate (ru_head r) = p")
    case False
    with Cons.IH [of branches failures st] Cons.prems show ?thesis by simp
  next
    case True
    from Cons.prems(1) True obtain y u where first: "ruleBranch cx enum r goal outer st = Inr (y, u)"
      by (auto simp: bind_result_eq_Inr)
    have "r \<in> set (bc_rules cx)" using Cons.prems(2) by simp
    note u = ruleBranch_ok [OF cx this goal first]
    have fs: "\<forall>f\<in>set failures. failure_ok cx u f" using Cons.prems(3) u by (blast intro: failure_later)
    have rs: "set rs \<subseteq> set (bc_rules cx)" using Cons.prems(2) by simp
    show ?thesis
    proof (cases y)
      case (Inr br)
      with Cons.prems(1) True first have rec:
        "try_rules (\<lambda>r st. ruleBranch cx enum r goal outer st) p rs (branches @ [br]) failures u = Inr ((branches', failures'), st')"
        by simp
      have "fst br = outer \<and> valid_proof (bc_evaluator cx) (set (bc_rules cx)) F (snd br) goal"
        using u unfolding Inr by simp
      then have "\<forall>br\<in>set (branches @ [br]). fst br = outer \<and> valid_proof (bc_evaluator cx) (set (bc_rules cx)) F (snd br) goal"
        using Cons.prems(4) by auto
      note IH = Cons.IH [OF rec rs fs this]
      with later_trans [OF conjunct1 [OF u] conjunct1 [OF IH]] show ?thesis by blast
    next
      case (Inl f)
      have fs': "\<forall>g\<in>set (failures @ [f]). failure_ok cx u g" using fs u Inl by simp
      show ?thesis
      proof (cases "fst f = Stopped_proof")
        case stopped: True
        with Cons.prems(1) True first Inl have "branches' = branches" "failures' = failures @ [f]" "st' = u" by auto
        with Cons.prems(4) fs' u show ?thesis by blast
      next
        case False
        with Cons.prems(1) True first Inl have rec:
          "try_rules (\<lambda>r st. ruleBranch cx enum r goal outer st) p rs branches (failures @ [f]) u = Inr ((branches', failures'), st')"
          by simp
        note IH = Cons.IH [OF rec rs fs' Cons.prems(4)]
        with later_trans [OF conjunct1 [OF u] conjunct1 [OF IH]] show ?thesis by blast
      qed
    qed
  qed
qed simp

end

lemma match_facts_ok:
  "match_facts cx goal b fs branches st = (branches', stop, st') \<Longrightarrow> valid_atom goal \<Longrightarrow> valid_bindings b \<Longrightarrow>
     \<forall>f\<in>set fs. fact_ok f \<Longrightarrow>
     later cx st st' \<and> (\<forall>reason. stop = Some reason \<longrightarrow> failure_ok cx st' (Stopped_proof, reason))
     \<and> (\<forall>br\<in>set branches'. br \<in> set branches
          \<or> (\<exists>f\<in>set fs. snd br = Fact_proof f \<and> valid_bindings (fst br) \<and> least_match b goal f (fst br)))"
proof (induction fs arbitrary: branches st)
  case (Cons f fs)
  obtain y u where op: "backwardOperation cx st = (y, u)" by fastforce
  note u = backwardOperation_ok [OF op]
  show ?case
  proof (cases y)
    case (Some reason)
    with Cons.prems(1) op u show ?thesis by auto
  next
    case None
    define m where "m = unifyAtom (bc_env cx) (atom_json goal) (atom_json f) (engine_options b)"
    have f: "valid_atom f" "ground_atom f" using Cons.prems(4) by (simp_all add: fact_ok_def)
    note match = unify_next [OF Cons.prems(2) f Cons.prems(3) m_def]
    let ?more = "if un_status m = Match then branches @ [(un_bindings m, Fact_proof f)] else branches"
    have rec: "match_facts cx goal b fs ?more u = (branches', stop, st')"
      using Cons.prems(1) op None by (simp add: Let_def m_def [symmetric])
    have "\<forall>f\<in>set fs. fact_ok f" using Cons.prems(4) by simp
    note IH = Cons.IH [OF rec Cons.prems(2,3) this]
    have "later cx st st'" using u(1) IH by (blast intro: later_trans)
    moreover have "br \<in> set branches
        \<or> (\<exists>g\<in>set (f # fs). snd br = Fact_proof g \<and> valid_bindings (fst br) \<and> least_match b goal g (fst br))"
      if "br \<in> set branches'" for br
    proof -
      from IH that have "br \<in> set ?more
        \<or> (\<exists>g\<in>set fs. snd br = Fact_proof g \<and> valid_bindings (fst br) \<and> least_match b goal g (fst br))" by blast
      with match(2) show ?thesis by (auto split: if_splits)
    qed
    ultimately show ?thesis using IH by blast
  qed
qed simp

section \<open>The search meets the contract\<close>

lemma enumerateGoal_ok:
  "context_ok cx F \<Longrightarrow> valid_atom goal0 \<Longrightarrow> valid_bindings b \<Longrightarrow>
     enumerateGoal cx n stack goal0 b st = Inr ((branches, failures), st') \<Longrightarrow>
     (\<forall>br\<in>set branches. branch_ok cx F goal0 b br) \<and> (\<forall>f\<in>set failures. failure_ok cx st' f) \<and> later cx st st'"
proof (induction n arbitrary: stack goal0 b st branches failures st')
  case 0
  then show ?case by (auto simp: failure_ok_def)
next
  case (Suc n)
  note cx = Suc.prems(1) and goal0 = Suc.prems(2) and b = Suc.prems(3) and run = Suc.prems(4)
  have next_level: "prover cx F (enumerateGoal cx n (key # stack))" for key
    by unfold_locales (rule Suc.IH)
  let ?goal = "subst_atom (map_of b) goal0"
  note goal = applyBindings_valid [OF goal0 b]
  obtain y u where budget: "backwardBudget cx st = (y, u)" by fastforce
  note u = backwardBudget_ok [OF budget]
  show ?case
  proof (cases y)
    case (Some reason)
    with run budget u show ?thesis by auto
  next
    case None
    obtain bs stop v where facts: "match_facts cx ?goal b (index_get (bc_factIndex cx) (ra_predicate ?goal)) [] u = (bs, stop, v)"
      by (metis prod_cases3)
    have pool: "\<forall>f\<in>set (index_get (bc_factIndex cx) (ra_predicate ?goal)). f \<in> F \<and> fact_ok f"
      using cx by (simp add: context_ok_def)
    have "\<forall>f\<in>set (index_get (bc_factIndex cx) (ra_predicate ?goal)). fact_ok f" using pool by blast
    note matched = match_facts_ok [OF facts goal(2) b this]
    have from_facts: "\<forall>br\<in>set bs. branch_ok cx F goal0 b br"
    proof
      fix br assume "br \<in> set bs"
      with matched have "br \<in> set [] \<or> (\<exists>f\<in>set (index_get (bc_factIndex cx) (ra_predicate ?goal)).
        snd br = Fact_proof f \<and> valid_bindings (fst br) \<and> least_match b ?goal f (fst br))" by blast
      then obtain f where pf: "f \<in> set (index_get (bc_factIndex cx) (ra_predicate ?goal))"
        and fact: "snd br = Fact_proof f" "valid_bindings (fst br)" "least_match b ?goal f (fst br)" by auto
      have f: "f \<in> F" "fact_ok f" "snd br = Fact_proof f" "valid_bindings (fst br)" "least_match b ?goal f (fst br)"
        using bspec [OF pool pf] fact by simp_all
      from f(5) have ext: "map_of b \<subseteq>\<^sub>m map_of (fst br)" and "instance_under (map_of (fst br)) goal0 f"
        and dom: "dom (map_of (fst br)) = dom (map_of b) \<union> atom_vars goal0"
        by (auto simp: least_match_def instance_under_subst atom_vars_subst)
      then have "f = the_ground (map_of (fst br)) goal0" using f(2) by (intro the_ground_unique) (simp_all add: fact_ok_def)
      with f ext dom show "branch_ok cx F goal0 b br" by (simp add: branch_ok_def)
    qed
    have v: "later cx st v" using u(1) matched by (blast intro: later_trans)
    note start = run [unfolded enumerateGoal.simps] budget None goal(1) facts
    show ?thesis
    proof (cases stop)
      case (Some reason)
      with start matched from_facts v show ?thesis by auto
    next
      case no_stop: None
      show ?thesis
      proof (cases "bs = []")
        case False
        with start no_stop from_facts v show ?thesis by auto
      next
        case empty: True
        show ?thesis
        proof (cases "isGround ?goal")
          case False
          have "failure_ok cx v (if c then (Unknown_proof, Non_ground_rule_goal) else (Not_proven, No_proof))" for c
            by (simp add: failure_ok_def)
          with False start no_stop empty v show ?thesis by auto
        next
          case ground: True
          then have vars: "atom_vars goal0 \<subseteq> dom (map_of b)" by (auto simp: isGround_iff atom_vars_subst)
          have g: "?goal = the_ground (map_of b) goal0" using vars by (rule subst_ground)
          have goal_ground: "ground_atom ?goal" by (simp add: g)
          let ?key = "atomKey (bc_env cx) ?goal"
          show ?thesis
          proof (cases "?key \<in> set stack")
            case True
            with start no_stop empty ground v show ?thesis by (auto simp: failure_ok_def Let_def)
          next
            case False
            with start no_stop empty ground obtain brs fs where
              rules: "try_rules (\<lambda>r st. ruleBranch cx (enumerateGoal cx n (?key # stack)) r ?goal b st)
                (ra_predicate ?goal) (bc_rules cx) [] [] v = Inr ((brs, fs), st')"
              and out: "branches = brs" "failures = (if brs = [] \<and> fs = [] then [(Not_proven, No_proof)] else fs)"
              by (auto simp: Let_def bind_result_eq_Inr)
            have ok: "later cx v st'" "\<forall>f\<in>set fs. failure_ok cx st' f"
              "\<forall>br\<in>set brs. fst br = b \<and> valid_proof (bc_evaluator cx) (set (bc_rules cx)) F (snd br) ?goal"
              using prover.try_rules_ok [OF next_level cx goal(2) goal_ground rules] by auto
            have "branch_ok cx F goal0 b br" if "br \<in> set branches" for br
              using ok(3) that vars b unfolding out by (auto simp: branch_ok_def g)
            with ok(2) later_trans [OF v ok(1)] show ?thesis by (auto simp: out failure_ok_def)
          qed
        qed
      qed
    qed
  qed
qed

interpretation search: prover cx F "enumerateGoal cx n stack" for cx F n stack
  by unfold_locales (rule enumerateGoal_ok)

section \<open>The causes of a failure\<close>

text \<open>
  A goal leads to the atoms of a rule body under bindings that make the head of the
  rule the goal; a failure of the search names something that is found among the goals that the
  query leads to: a chain of goals longer than the limit, a goal that leads back to itself, a goal with
  variables that only rules could solve, or a rule whose body was proved and whose constraints have no verdict.
\<close>

section \<open>Goals that a goal leads to\<close>

definition leads :: "rule list \<Rightarrow> rule_atom \<Rightarrow> rule_atom \<Rightarrow> bool" where
  "leads rs g g' = (\<exists>r\<in>set rs. \<exists>\<sigma> \<rho>. \<exists>a\<in>set (ru_body r). atom_vars (ru_head r) \<subseteq> dom \<sigma>
     \<and> g = the_ground \<sigma> (ru_head r) \<and> g' = rename_atom \<rho> (subst_atom \<sigma> a))"

text \<open>A rule for the goal whose body is proved while one of its constraints is neither satisfied nor refuted.\<close>

definition undecided :: "evaluator option \<Rightarrow> rule list \<Rightarrow> rule_atom set \<Rightarrow> rule_atom \<Rightarrow> bool" where
  "undecided evaluator rs F g = (\<exists>r\<in>set rs. \<exists>\<sigma> ts. rule_vars r \<subseteq> dom \<sigma> \<and> g = the_ground \<sigma> (ru_head r)
     \<and> valid_proofs evaluator (set rs) F ts (map (the_ground \<sigma>) (ru_body r))
     \<and> (\<exists>c\<in>set (ru_constraints r). case evaluator of
          None \<Rightarrow> True
        | Some f \<Rightarrow> \<not> atom_vars c \<subseteq> rule_vars r \<or> f (the_ground \<sigma> c) \<notin> {Inr (JBool True), Inr (JBool False)}))"

definition cause ::
  "backward_context \<Rightarrow> rule_atom set \<Rightarrow> nat \<Rightarrow> string list \<Rightarrow> rule_atom \<Rightarrow> proof_failure \<Rightarrow> bool" where
  "cause cx F levels stack goal f = (let rs = bc_rules cx in case snd f of
       Max_depth \<Rightarrow> \<exists>g. (leads rs ^^ levels) goal g
     | Cycle \<Rightarrow> \<exists>g. (leads rs)\<^sup>*\<^sup>* goal g \<and> ((leads rs)\<^sup>+\<^sup>+ g g \<or> atomKey (bc_env cx) g \<in> set stack)
     | Non_ground_rule_goal \<Rightarrow> \<exists>g. (leads rs)\<^sup>*\<^sup>* goal g \<and> \<not> ground_atom g
         \<and> (\<exists>r\<in>set rs. ra_predicate (ru_head r) = ra_predicate g)
     | Constraint_unknown \<Rightarrow> \<exists>g. (leads rs)\<^sup>*\<^sup>* goal g \<and> undecided (bc_evaluator cx) rs F g
     | _ \<Rightarrow> True)"

lemma atomKey_inject:
  assumes "atomKey env f = atomKey env g"
  shows "f = g"
proof -
  define v :: "rule_atom \<Rightarrow> jsval" where "v f = JArr (JStr (ra_predicate f) # map key_term (ra_args f))" for f
  have "json_data (key_term t)" for t by (cases t) (simp_all add: key_term_def)
  then have data: "json_data (v h)" for h by (simp add: v_def list_all_iff)
  have "stringify env (v f) = stringify env (v g)"
    using assms stringify_data [OF data, of env f] stringify_data [OF data, of env g]
    by (simp only: atomKey_def v_def [symmetric] option.sel)
  then have "v f = v g" using data by (metis stringify_inject)
  moreover have "inj key_term" by (rule injI) (auto simp: key_term_def split: rule_term.splits)
  ultimately show ?thesis by (cases f; cases g) (auto simp: v_def dest: map_injective)
qed

text \<open>A cause below a goal is a cause for it.\<close>

lemma cause_below:
  assumes "leads (bc_rules cx) goal g" and "cause cx F levels (atomKey (bc_env cx) goal # stack) g f"
  shows "cause cx F (Suc levels) stack goal f"
proof (cases "snd f = Cycle")
  case True
  with assms(2) obtain h where h: "(leads (bc_rules cx))\<^sup>*\<^sup>* g h"
    "(leads (bc_rules cx))\<^sup>+\<^sup>+ h h \<or> atomKey (bc_env cx) h \<in> set (atomKey (bc_env cx) goal # stack)"
    by (auto simp: cause_def Let_def)
  have "h = goal" if "atomKey (bc_env cx) h = atomKey (bc_env cx) goal" using that by (rule atomKey_inject)
  with h assms(1) have "(leads (bc_rules cx))\<^sup>*\<^sup>* goal h
      \<and> ((leads (bc_rules cx))\<^sup>+\<^sup>+ h h \<or> atomKey (bc_env cx) h \<in> set stack)"
    by (auto intro: converse_rtranclp_into_rtranclp rtranclp_into_tranclp2)
  with True show ?thesis by (auto simp: cause_def Let_def)
next
  case False
  with assms show ?thesis
    unfolding cause_def Let_def
    by (auto split: backward_reason.splits intro: converse_rtranclp_into_rtranclp relpowp_Suc_I2 simp del: relpowp.simps)
qed

definition plain_reason :: "backward_reason \<Rightarrow> bool" where
  "plain_reason reason \<longleftrightarrow> reason \<in> {No_proof, Constraint_rejected, Proof_max_operations, Proof_timeout}"

lemma plain_cause: "plain_reason (snd f) \<Longrightarrow> cause cx F levels stack goal f"
  by (auto simp: plain_reason_def cause_def)

section \<open>Where a failure comes from\<close>

lemma budget_reason:
  "backwardBudget cx st = (Some reason, st') \<Longrightarrow> plain_reason reason"
  "backwardOperation cx st = (Some reason, st') \<Longrightarrow> plain_reason reason"
  by (auto simp: plain_reason_def backwardOperation_def backwardBudget_def split: if_splits)

lemma try_branches_fail:
  "try_branches solve branches failures st = Inr (Inl f, st') \<Longrightarrow>
     f = (Not_proven, No_proof) \<or> f \<in> set failures \<or> (\<exists>br\<in>set branches. \<exists>u v. solve br u = Inr (Inl f, v))"
proof (induction solve branches failures st rule: try_branches.induct)
  case (1 solve failures st)
  then show ?case using strongestFailure_in [of failures] by auto
next
  case (2 solve branch branches failures st)
  from "2.prems" obtain y u where first: "solve branch st = Inr (y, u)" by (auto simp: bind_result_eq_Inr)
  from "2.prems" first obtain g where y: "y = Inl g" by (cases y) auto
  show ?case
  proof (cases "fst g = Stopped_proof")
    case True
    with "2.prems" first y have "f = strongestFailure (failures @ [g])" by auto
    with strongestFailure_in [of "failures @ [g]"] first y show ?thesis by auto
  next
    case False
    with "2.prems" first y have "try_branches solve branches (failures @ [g]) u = Inr (Inl f, st')" by simp
    from "2.IH" [OF y False this] first y show ?thesis by auto
  qed
qed

lemma try_rules_fail:
  "try_rules use_rule p rs branches failures st = Inr ((branches', failures'), st') \<Longrightarrow> f \<in> set failures' \<Longrightarrow>
     f \<in> set failures \<or> (\<exists>r\<in>set rs. ra_predicate (ru_head r) = p \<and> (\<exists>u v. use_rule r u = Inr (Inl f, v)))"
proof (induction rs arbitrary: branches failures st)
  case (Cons r rs)
  show ?case
  proof (cases "ra_predicate (ru_head r) = p")
    case False
    with Cons show ?thesis by fastforce
  next
    case True
    from Cons.prems(1) True obtain y u where first: "use_rule r st = Inr (y, u)" by (auto simp: bind_result_eq_Inr)
    show ?thesis
    proof (cases y)
      case (Inr br)
      with Cons.prems(1) True first have
        "try_rules use_rule p rs (branches @ [br]) failures u = Inr ((branches', failures'), st')" by simp
      from Cons.IH [OF this Cons.prems(2)] show ?thesis by auto
    next
      case (Inl g)
      show ?thesis
      proof (cases "fst g = Stopped_proof")
        case stopped: True
        with Cons.prems True first Inl have "f \<in> set (failures @ [g])" by auto
        with first Inl True show ?thesis by auto
      next
        case False
        with Cons.prems(1) True first Inl have
          "try_rules use_rule p rs branches (failures @ [g]) u = Inr ((branches', failures'), st')" by simp
        from Cons.IH [OF this Cons.prems(2)] first Inl True show ?thesis by auto
      qed
    qed
  qed
qed simp

lemma match_facts_reason:
  "match_facts cx goal b fs branches st = (branches', Some reason, st') \<Longrightarrow> plain_reason reason"
proof (induction fs arbitrary: branches st)
  case (Cons f fs)
  obtain y u where op: "backwardOperation cx st = (y, u)" by fastforce
  show ?case
  proof (cases y)
    case None
    with Cons op show ?thesis by (auto simp: Let_def split: if_splits)
  next
    case (Some z)
    with Cons.prems op budget_reason(2) [of cx st z u] show ?thesis by auto
  qed
qed simp

lemma check_constraints_fail:
  "check_constraints cx ev b cs st = Inr (Some f, st') \<Longrightarrow> list_all valid_atom cs \<Longrightarrow> valid_bindings b \<Longrightarrow>
     plain_reason (snd f) \<or> snd f = Constraint_unknown \<and> (\<exists>c\<in>set cs. \<not> atom_vars c \<subseteq> dom (map_of b)
       \<or> ev (the_ground (map_of b) c) \<notin> {Inr (JBool True), Inr (JBool False)})"
proof (induction cx ev b cs st rule: check_constraints.induct)
  case (2 cx ev b c cs st)
  obtain y u where op: "backwardOperation cx st = (y, u)" by fastforce
  have c: "applyBindings c b = Inr (subst_atom (map_of b) c)" using "2.prems" by (simp add: applyBindings_valid)
  show ?case
  proof (cases y)
    case (Some reason)
    with "2.prems"(1) op budget_reason(2) [of cx st reason u] show ?thesis by auto
  next
    case None
    let ?g = "subst_atom (map_of b) c"
    show ?thesis
    proof (cases "isGround ?g")
      case False
      then have "\<not> atom_vars c \<subseteq> dom (map_of b)" by (auto simp: isGround_iff atom_vars_subst)
      moreover have "snd f = Constraint_unknown" using "2.prems"(1) op None c False by auto
      ultimately show ?thesis by auto
    next
      case True
      then have "atom_vars c \<subseteq> dom (map_of b)" by (auto simp: isGround_iff atom_vars_subst)
      then have g: "?g = the_ground (map_of b) c" by (rule subst_ground)
      define verdict where "verdict = (case ev ?g of Inl _ \<Rightarrow> JStr ''unknown'' | Inr v \<Rightarrow> v)"
      show ?thesis
      proof (cases "verdict = JBool True \<or> verdict = JBool False")
        case False
        then have "ev (the_ground (map_of b) c) \<notin> {Inr (JBool True), Inr (JBool False)}"
          by (auto simp: verdict_def g split: sum.splits)
        moreover have "snd f = Constraint_unknown"
          using "2.prems"(1) op None c True False by (auto simp: verdict_def Let_def)
        ultimately show ?thesis by auto
      next
        case bool: True
        show ?thesis
        proof (cases "verdict = JBool False")
          case refuted: True
          with "2.prems"(1) op None c True show ?thesis by (auto simp: verdict_def Let_def plain_reason_def)
        next
          case False
          with bool have ok: "\<not> verdict \<noteq> JBool True" by simp
          with "2.prems"(1) op None c True False have "check_constraints cx ev b cs u = Inr (Some f, st')"
            by (simp add: verdict_def Let_def)
          moreover have "\<not> \<not> isGround ?g" using True by simp
          ultimately show ?thesis using "2.IH" [OF op [symmetric] None _ verdict_def False ok] "2.prems"(2,3) by auto
        qed
      qed
    qed
  qed
qed simp

section \<open>The contract of an enumeration that explains its failures\<close>

text \<open>What a fresh copy of an atom leads to is what the atom leads to, up to the names of variables.\<close>

lemma subst_rename: "subst_atom \<tau> (rename_atom \<rho> a) = rename_atom \<rho> (subst_atom (\<tau> \<circ> \<rho>) a)"
proof -
  have "subst_term \<tau> (rename_term \<rho> t) = rename_term \<rho> (subst_term (\<tau> \<circ> \<rho>) t)" for t
    by (cases t) (auto split: option.splits)
  then show ?thesis by (simp add: subst_atom_def rename_atom_def)
qed

lemma the_ground_renamed: "the_ground \<tau> (rename_atom \<rho> a) = the_ground (\<tau> \<circ> \<rho>) a"
  by (rule the_ground_rename) simp

lemma dom_renamed: "\<rho> ` V \<subseteq> dom \<tau> \<longleftrightarrow> V \<subseteq> dom (\<tau> \<circ> \<rho>)"
  by (auto simp: dom_def)

locale explainer = prover +
  fixes C :: "rule_atom \<Rightarrow> proof_failure \<Rightarrow> bool"
  assumes enum_cause: "context_ok cx F \<Longrightarrow> valid_atom goal \<Longrightarrow> valid_bindings b \<Longrightarrow>
      enum goal b st = Inr ((branches, failures), st') \<Longrightarrow> f \<in> set failures \<Longrightarrow> C (subst_atom (map_of b) goal) f"
begin

lemma solveSequence_cause:
  "context_ok cx F \<Longrightarrow> list_all valid_atom goals \<Longrightarrow> valid_bindings b \<Longrightarrow>
     solveSequence enum goals b traces st = Inr (Inl f, st') \<Longrightarrow>
     f = (Not_proven, No_proof) \<or> (\<exists>a\<in>set goals. \<exists>b'. map_of b \<subseteq>\<^sub>m map_of b' \<and> C (subst_atom (map_of b') a) f)"
proof (induction goals arbitrary: b traces st st')
  case (Cons goal goals)
  from Cons.prems(4) obtain branches failures u where first: "enum goal b st = Inr ((branches, failures), u)"
    and rest: "try_branches (\<lambda>(b, trace). solveSequence enum goals b (traces @ [trace])) branches failures u = Inr (Inl f, st')"
    by (auto simp: bind_result_eq_Inr)
  have goal: "valid_atom goal" and goals: "list_all valid_atom goals" using Cons.prems(2) by simp_all
  note found = enum [OF Cons.prems(1) goal Cons.prems(3) first]
  consider "f = (Not_proven, No_proof)" | "f \<in> set failures"
    | br v w where "br \<in> set branches" "(case br of (b, trace) \<Rightarrow> solveSequence enum goals b (traces @ [trace])) v = Inr (Inl f, w)"
    using try_branches_fail [OF rest] by blast
  then show ?case
  proof cases
    case 2
    from enum_cause [OF Cons.prems(1) goal Cons.prems(3) first this] show ?thesis by auto
  next
    case 3
    obtain b1 t where [simp]: "br = (b1, t)" by (cases br)
    have "branch_ok cx F goal b (b1, t)" using found 3(1) by auto
    then have b1: "valid_bindings b1" "map_of b \<subseteq>\<^sub>m map_of b1" by (simp_all add: branch_ok_def)
    from Cons.IH [OF Cons.prems(1) goals b1(1)] 3(2) have
      "f = (Not_proven, No_proof) \<or> (\<exists>a\<in>set goals. \<exists>b'. map_of b1 \<subseteq>\<^sub>m map_of b' \<and> C (subst_atom (map_of b') a) f)" by simp
    with b1(2) show ?thesis by (auto intro: map_le_trans)
  qed simp
qed simp

lemma ruleBranch_cause:
  assumes cx: "context_ok cx F" and r: "r \<in> set (bc_rules cx)" and goal: "valid_atom goal" "ground_atom goal"
    and run: "ruleBranch cx enum r goal outer st = Inr (Inl f, st')"
  shows "plain_reason (snd f) \<or> (\<exists>g. leads (bc_rules cx) goal g \<and> C g f)
    \<or> snd f = Constraint_unknown \<and> undecided (bc_evaluator cx) (bc_rules cx) F goal"
proof -
  let ?env = "bc_env cx" and ?st = "st\<lparr>bs_scopeCounter := bs_scopeCounter st + 1\<rparr>"
  obtain fresh reverse y u where fresh: "freshenRule ?env r (bs_scopeCounter st) = Inr (fresh, reverse)"
    and op: "backwardOperation cx ?st = (y, u)" using run by (fastforce simp: ruleBranch_def Let_def bind_result_eq_Inr)
  from freshenRule_ok [OF fresh] obtain names where names: "renaming_ok (bs_scopeCounter st) names"
    "fresh = rename_rule (ren names) r" "valid_rule fresh"
    "rule_vars r \<union> (\<Union>c\<in>set (ru_constraints r). atom_vars c) \<subseteq> fst ` set names" by blast
  let ?\<rho> = "ren names"
  define m where "m = unifyAtom ?env (atom_json (ru_head fresh)) (atom_json goal) no_options"
  have head: "valid_atom (ru_head fresh)" using names(3) by (simp add: valid_rule_def)
  note match = unify_first [OF head goal m_def]
  show ?thesis
  proof (cases "y = None \<and> un_status m = Match")
    case False
    show ?thesis
    proof (cases y)
      case (Some reason)
      with run fresh op budget_reason(2) [of cx ?st reason u] show ?thesis by (auto simp: ruleBranch_def Let_def)
    next
      case None
      with False run fresh op show ?thesis
        by (auto simp: ruleBranch_def Let_def m_def [symmetric] plain_reason_def)
    qed
  next
    case True
    with match(2) have least: "least_match [] (ru_head fresh) goal (un_bindings m)" "valid_bindings (un_bindings m)" by simp_all
    obtain body v where solve: "solveSequence enum (ru_body fresh) (un_bindings m) [] u = Inr (body, v)"
      and rest: "(case body of Inl f \<Rightarrow> Inr (Inl f, v)
        | Inr (b, trs) \<Rightarrow> bind_result (evaluateConstraintSet cx fresh b v) (\<lambda>(failed, st).
            case failed of Some f \<Rightarrow> Inr (Inl f, st)
            | None \<Rightarrow> Inr (Inr (outer, Rule_proof (ru_id r) goal (originalRuleBindings ?env b reverse) trs), st)))
        = Inr (Inl f, st')"
      using run fresh op True by (auto simp: ruleBranch_def Let_def m_def [symmetric] bind_result_eq_Inr)
    have valid_body: "list_all valid_atom (ru_body fresh)" using names(3) by (simp add: valid_rule_def)
    have head_vars: "atom_vars (ru_head fresh) \<subseteq> dom (map_of (un_bindings m))"
      and head_goal: "goal = the_ground (map_of (un_bindings m)) (ru_head fresh)"
      using least(1) goal(2) by (auto simp: least_match_def intro: the_ground_unique)
    have at_goal: "atom_vars (ru_head r) \<subseteq> dom (map_of b' \<circ> ?\<rho>) \<and> goal = the_ground (map_of b' \<circ> ?\<rho>) (ru_head r)"
      if "map_of (un_bindings m) \<subseteq>\<^sub>m map_of b'" for b'
    proof -
      have "atom_vars (ru_head fresh) \<subseteq> dom (map_of b')" using head_vars map_le_implies_dom_le [OF that] by blast
      moreover have "goal = the_ground (map_of b') (ru_head fresh)"
        using the_ground_mono [OF that head_vars] head_goal by simp
      ultimately show ?thesis
        by (simp add: names(2) rename_rule_def atom_vars_rename dom_renamed the_ground_renamed)
    qed
    show ?thesis
    proof (cases body)
      case (Inl g)
      with rest have "g = f" by simp
      with solveSequence_cause [OF cx valid_body least(2)] solve Inl consider "f = (Not_proven, No_proof)"
        | a b' where "a \<in> set (ru_body fresh)" "map_of (un_bindings m) \<subseteq>\<^sub>m map_of b'" "C (subst_atom (map_of b') a) f" by blast
      then show ?thesis
      proof cases
        case 2
        then obtain a0 where a0: "a0 \<in> set (ru_body r)" "a = rename_atom ?\<rho> a0" by (auto simp: names(2) rename_rule_def)
        have "leads (bc_rules cx) goal (subst_atom (map_of b') a)"
          unfolding leads_def a0(2) subst_rename using r a0(1) at_goal [OF 2(2)] by blast
        with 2(3) show ?thesis by blast
      qed (simp add: plain_reason_def)
    next
      case (Inr s)
      obtain b trs where s: "s = (b, trs)" by (cases s)
      from solveSequence_ok [OF cx valid_body least(2) solve] Inr s have sol: "valid_bindings b"
        "map_of (un_bindings m) \<subseteq>\<^sub>m map_of b"
        "dom (map_of b) = dom (map_of (un_bindings m)) \<union> body_vars fresh"
        "valid_proofs (bc_evaluator cx) (set (bc_rules cx)) F trs (map (the_ground (map_of b)) (ru_body fresh))"
        by (auto simp: solution_ok_def body_vars_def)
      have vars: "dom (map_of b) = ?\<rho> ` rule_vars r"
        unfolding rename_vars [symmetric] names(2) [symmetric] using sol(3) least(1)
        by (simp add: least_match_def rule_vars_def)
      from rest Inr s obtain w where constr: "evaluateConstraintSet cx fresh b v = Inr (Some f, w)"
        by (auto simp: bind_result_eq_Inr split: option.splits)
      have "plain_reason (snd f) \<or> snd f = Constraint_unknown \<and> (\<exists>c\<in>set (ru_constraints r). case bc_evaluator cx of
          None \<Rightarrow> True
        | Some ev \<Rightarrow> \<not> atom_vars c \<subseteq> rule_vars r
            \<or> ev (the_ground (map_of b \<circ> ?\<rho>) c) \<notin> {Inr (JBool True), Inr (JBool False)})"
      proof (cases "bc_evaluator cx")
        case None
        with constr show ?thesis
          by (cases "ru_constraints r") (auto simp: evaluateConstraintSet_def names(2) rename_rule_def)
      next
        case (Some ev)
        with constr have "check_constraints cx ev b (ru_constraints fresh) v = Inr (Some f, w)"
          by (auto simp: evaluateConstraintSet_def split: if_splits)
        moreover have "list_all valid_atom (ru_constraints fresh)" using names(3) by (simp add: valid_rule_def)
        ultimately have "plain_reason (snd f) \<or> snd f = Constraint_unknown \<and> (\<exists>c\<in>set (ru_constraints fresh).
            \<not> atom_vars c \<subseteq> dom (map_of b) \<or> ev (the_ground (map_of b) c) \<notin> {Inr (JBool True), Inr (JBool False)})"
          using sol(1) by (rule check_constraints_fail)
        moreover have sub: "atom_vars (rename_atom ?\<rho> c) \<subseteq> dom (map_of b)" if "atom_vars c \<subseteq> rule_vars r" for c
          using that by (auto simp: vars atom_vars_rename)
        moreover have "ru_constraints fresh = map (rename_atom ?\<rho>) (ru_constraints r)" by (simp add: names(2) rename_rule_def)
        ultimately show ?thesis
          unfolding Some option.case by (simp only: set_map bex_simps(7) the_ground_renamed) metis
      qed
      moreover have "rule_vars r \<subseteq> dom (map_of b \<circ> ?\<rho>)" using vars dom_renamed [of ?\<rho> "rule_vars r" "map_of b"] by simp
      moreover have "map (the_ground (map_of b)) (ru_body fresh) = map (the_ground (map_of b \<circ> ?\<rho>)) (ru_body r)"
        by (simp add: names(2) rename_rule_def the_ground_renamed)
      ultimately show ?thesis
        using r at_goal [OF sol(2)] sol(4) unfolding undecided_def by metis
    qed
  qed
qed

end

section \<open>The search explains its failures\<close>

lemma enumerateGoal_cause:
  "context_ok cx F \<Longrightarrow> valid_atom goal0 \<Longrightarrow> valid_bindings b \<Longrightarrow>
     enumerateGoal cx n stack goal0 b st = Inr ((branches, failures), st') \<Longrightarrow> f \<in> set failures \<Longrightarrow>
     cause cx F n stack (subst_atom (map_of b) goal0) f"
proof (induction n arbitrary: stack goal0 b st branches failures st' f)
  case 0
  then show ?case by (auto simp: cause_def)
next
  case (Suc n)
  note cx = Suc.prems(1) and goal0 = Suc.prems(2) and b = Suc.prems(3) and run = Suc.prems(4) and f = Suc.prems(5)
  let ?goal = "subst_atom (map_of b) goal0"
  have next_level: "explainer cx F (enumerateGoal cx n (key # stack)) (cause cx F n (key # stack))" for key
    by unfold_locales (rule Suc.IH)
  note goal = applyBindings_valid [OF goal0 b]
  obtain y u where budget: "backwardBudget cx st = (y, u)" by fastforce
  show ?case
  proof (cases y)
    case (Some reason)
    with run budget f budget_reason(1) [of cx st reason u] show ?thesis by (auto intro: plain_cause)
  next
    case None
    obtain bs stop v where facts: "match_facts cx ?goal b (index_get (bc_factIndex cx) (ra_predicate ?goal)) [] u = (bs, stop, v)"
      by (metis prod_cases3)
    note start = run [unfolded enumerateGoal.simps] budget None goal(1) facts
    have stop: "plain_reason reason" if "stop = Some reason" for reason
      using match_facts_reason facts that by blast
    consider (stopped) reason where "stop = Some reason" | (found) "stop = None" "bs \<noteq> []"
      | (open_goal) "stop = None" "bs = []" "\<not> isGround ?goal"
      | (cycle) "stop = None" "bs = []" "isGround ?goal" "atomKey (bc_env cx) ?goal \<in> set stack"
      | (rules) "stop = None" "bs = []" "isGround ?goal" "atomKey (bc_env cx) ?goal \<notin> set stack"
      by (cases stop) auto
    then show ?thesis
    proof cases
      case stopped
      with start f stop show ?thesis by (auto intro: plain_cause)
    next
      case found
      with start f show ?thesis by auto
    next
      case open_goal
      then have "\<not> ground_atom ?goal" by (simp add: isGround_def ground_atom_def)
      moreover have "plain_reason (snd f) \<or> snd f = Non_ground_rule_goal
          \<and> (\<exists>r\<in>set (bc_rules cx). ra_predicate (ru_head r) = ra_predicate ?goal)"
        using open_goal start f by (auto simp: plain_reason_def list_ex_iff split: if_splits)
      ultimately show ?thesis
        by (elim disjE) (simp add: plain_cause, auto simp: cause_def Let_def intro!: exI [of _ ?goal])
    next
      case cycle
      with start f show ?thesis by (auto simp: cause_def Let_def)
    next
      case rules
      let ?key = "atomKey (bc_env cx) ?goal"
      from rules start obtain brs fs where
        tried: "try_rules (\<lambda>r st. ruleBranch cx (enumerateGoal cx n (?key # stack)) r ?goal b st)
          (ra_predicate ?goal) (bc_rules cx) [] [] v = Inr ((brs, fs), st')"
        and out: "failures = (if brs = [] \<and> fs = [] then [(Not_proven, No_proof)] else fs)"
        by (auto simp: Let_def bind_result_eq_Inr)
      show ?thesis
      proof (cases "f \<in> set fs")
        case False
        with f out have "f = (Not_proven, No_proof)" by (auto split: if_splits)
        then show ?thesis by (auto intro: plain_cause simp: plain_reason_def)
      next
        case True
        from try_rules_fail [OF tried this] obtain r w x where r: "r \<in> set (bc_rules cx)"
          and branch: "ruleBranch cx (enumerateGoal cx n (?key # stack)) r ?goal b w = Inr (Inl f, x)" by auto
        have "ground_atom ?goal" using rules(3) by (simp add: isGround_def ground_atom_def)
        from explainer.ruleBranch_cause [OF next_level cx r goal(2) this branch]
        consider "plain_reason (snd f)" | g where "leads (bc_rules cx) ?goal g" "cause cx F n (?key # stack) g f"
          | "snd f = Constraint_unknown" "undecided (bc_evaluator cx) (bc_rules cx) F ?goal" by blast
        then show ?thesis
        proof cases
          case 1
          then show ?thesis by (rule plain_cause)
        next
          case 2
          then show ?thesis by (rule cause_below)
        next
          case 3
          then show ?thesis by (auto simp: cause_def Let_def)
        qed
      qed
    qed
  qed
qed

interpretation explained: explainer cx F "enumerateGoal cx n stack" "cause cx F n stack" for cx F n stack
  by unfold_locales (rule enumerateGoal_cause)

end
