(* ===== verification/Backward_Properties.thy ===== *)
theory Backward_Properties
  imports Backward_Facts
begin

text \<open>
  What \<open>proveBackward\<close> promises for accepted inputs, examples, and a query that follows from the rules although
  the answer is \<open>not_proven\<close>.
\<close>

section \<open>The inputs\<close>

lemma groundFact_ok: "groundFact v = Inr f \<Longrightarrow> fact_ok f"
proof -
  have "ground_term = eval_term" by (intro ext) (simp add: ground_term_def eval_term_def)
  then have "groundFact v = eval_ground_fact v" by (simp only: groundFact_def eval_ground_fact_def)
  then show "groundFact v = Inr f \<Longrightarrow> fact_ok f" using eval_ground_fact_ok by simp
qed

lemma backwardRules_eq: "backwardRules env v = normalizeRules env v"
  by (simp add: backwardRules_def normalizeRules_def)

lemma backwardFacts_ok:
  assumes "backwardFacts env v = Inr fs"
  shows "\<forall>f\<in>set fs. fact_ok f"
proof -
  from assms obtain xs gs where gs: "map_result groundFact xs = Inr gs"
    and fs: "fs = map snd (sort_by (key_compare env) (foldl (\<lambda>m f. alist_put (atomKey env f) f m) [] gs))"
    by (auto simp: backwardFacts_def bind_result_eq_Inr split: jsval.splits)
  have ok: "\<forall>f\<in>set gs. fact_ok f"
    using map_result_valid [OF gs groundFact_ok] by (simp add: list_all_iff)
  have "q \<in> set (alist_put k f m) \<Longrightarrow> q = (k, f) \<or> q \<in> set m" for q k and f :: rule_atom and m
    by (induction m) (auto split: if_splits)
  then have put: "snd ` set (alist_put k f m) \<subseteq> insert f (snd ` set m)" for k and f :: rule_atom and m
    by fastforce
  have "snd ` set (foldl (\<lambda>m f. alist_put (atomKey env f) f m) m gs) \<subseteq> snd ` set m \<union> set gs" for m
  proof (induction gs arbitrary: m)
    case (Cons g gs)
    from Cons [of "alist_put (atomKey env g) g m"] put [of "atomKey env g" g m] show ?case by auto
  qed simp
  from this [of "[]"] ok show ?thesis by (auto simp: fs)
qed

lemma buildFactIndex_pools: "f \<in> set (index_get (buildFactIndex env fs) p) \<Longrightarrow> f \<in> set fs"
proof -
  let ?add = "\<lambda>ix f. alist_put (ra_predicate f) (index_get ix (ra_predicate f) @ [f]) ix"
  have fold: "set (index_get (foldl ?add ix fs) p) \<subseteq> set (index_get ix p) \<union> set fs" for ix
  proof (induction fs arbitrary: ix)
    case (Cons f fs)
    from Cons [of "?add ix f"] show ?case by (auto simp: index_get_put split: if_splits)
  qed simp
  have "set (index_get (buildFactIndex env fs) p) = set (index_get (foldl ?add [] fs) p)"
    by (simp add: buildFactIndex_def index_get_def map_of_apsnd split: option.split)
  moreover have "index_get [] p = []" by (simp add: index_get_def)
  ultimately show "f \<in> set (index_get (buildFactIndex env fs) p) \<Longrightarrow> f \<in> set fs"
    using fold [of "[]"] by auto
qed

text \<open>An input that the checks accept, with the limits, query, rules and facts they leave.\<close>

definition accepted_query ::
  "js_env \<Rightarrow> jsval \<Rightarrow> jsval \<Rightarrow> jsval \<Rightarrow> backward_options \<Rightarrow> backward_limits \<Rightarrow> rule_atom \<Rightarrow> rule list
     \<Rightarrow> rule_atom list \<Rightarrow> bool" where
  "accepted_query env queryInput rulesInput factsInput opts limits query rules facts =
     (backwardLimits opts = Some limits \<and> normalizeGroundQuery queryInput = Inr query
      \<and> backwardRules env rulesInput = Inr rules \<and> backwardFacts env factsInput = Inr facts)"

definition query_context ::
  "js_env \<Rightarrow> backward_options \<Rightarrow> (nat \<Rightarrow> rat) \<Rightarrow> backward_limits \<Rightarrow> rule list \<Rightarrow> rule_atom list \<Rightarrow> backward_context" where
  "query_context env opts now limits rules facts =
     \<lparr>bc_env = env, bc_limits = limits, bc_now = now, bc_startedAt = now 0,
      bc_evaluator = bo_constraintEvaluator opts, bc_rules = rules, bc_factIndex = buildFactIndex env facts\<rparr>"

lemma accepted_query_ok:
  assumes "accepted_query env queryInput rulesInput factsInput opts limits query rules facts"
  shows "context_ok (query_context env opts now limits rules facts) (set facts)" and "fact_ok query"
    and "\<forall>r\<in>set rules. valid_rule r"
proof -
  have ok: "normalizeGroundQuery queryInput = Inr query" "normalizeRules env rulesInput = Inr rules"
    "backwardFacts env factsInput = Inr facts"
    using assms by (simp_all add: accepted_query_def backwardRules_eq)
  show rules: "\<forall>r\<in>set rules. valid_rule r" by (rule normalizeRules_valid [OF ok(2)])
  show "fact_ok query" using ok(1) by (simp add: normalizeGroundQuery_def groundFact_ok)
  show "context_ok (query_context env opts now limits rules facts) (set facts)"
    using rules backwardFacts_ok [OF ok(3)] buildFactIndex_pools
    by (fastforce simp: context_ok_def query_context_def)
qed

lemma proveBackward_accepted:
  assumes "accepted_query env queryInput rulesInput factsInput opts limits query rules facts"
  shows "proveBackward env queryInput rulesInput factsInput opts now =
    bind_result (enumerateGoal (query_context env opts now limits rules facts) (bl_maxDepth limits + 1) [] query []
        \<lparr>bs_operations = 0, bs_scopeCounter = 0, bs_readings = 1\<rparr>)
      (\<lambda>((branches, failures), st). Inr
         (case branches of
            (b, trace) # _ \<Rightarrow>
              \<lparr>br_status = Proven, br_reason = trace_reason trace,
               br_operations = bs_operations st, br_proof = Some trace\<rparr>
          | [] \<Rightarrow> backward_failure (bs_operations st) (strongestFailure failures)))"
  using assms by (simp add: proveBackward_def accepted_query_def query_context_def del: enumerateGoal.simps)

text \<open>An answer to an accepted query is the first branch of the enumeration, or the strongest failure.\<close>

lemma proveBackward_run:
  assumes ok: "accepted_query env queryInput rulesInput factsInput opts limits query rules facts"
    and run: "proveBackward env queryInput rulesInput factsInput opts now = Inr res"
  obtains branches failures st where
    "enumerateGoal (query_context env opts now limits rules facts) (bl_maxDepth limits + 1) [] query []
       \<lparr>bs_operations = 0, bs_scopeCounter = 0, bs_readings = 1\<rparr> = Inr ((branches, failures), st)"
    and "br_operations res = bs_operations st"
    and "if branches = [] then br_proof res = None \<and> (br_status res, br_reason res) = strongestFailure failures
      else br_status res = Proven \<and> br_proof res = Some (snd (hd branches)) \<and> br_reason res = trace_reason (snd (hd branches))"
proof -
  let ?cx = "query_context env opts now limits rules facts"
  let ?run = "enumerateGoal ?cx (bl_maxDepth limits + 1) [] query [] \<lparr>bs_operations = 0, bs_scopeCounter = 0, bs_readings = 1\<rparr>"
  from run proveBackward_accepted [OF ok] obtain branches failures st where r: "?run = Inr ((branches, failures), st)"
    and res: "res = (case branches of
            (b, trace) # _ \<Rightarrow>
              \<lparr>br_status = Proven, br_reason = trace_reason trace,
               br_operations = bs_operations st, br_proof = Some trace\<rparr>
          | [] \<Rightarrow> backward_failure (bs_operations st) (strongestFailure failures))"
    by (auto simp: bind_result_eq_Inr)
  show ?thesis
    by (rule that [OF r]) (auto simp: res backward_failure_def split: list.splits)
qed


section \<open>The properties\<close>

text \<open>
  C22: what \<open>proveBackward\<close> reports as proven comes with a proof that checks: its leaves are given facts, and each
  inner node is a rule under bindings of the rule's own variables that satisfy its constraints, over proofs of its
  body atoms.  When the rules are such that the forward evaluation accepts them, the query is a fact of
  the least model, so every complete forward evaluation of the same rules and facts has it, too.
\<close>

theorem proven_query_has_proof:
  assumes "accepted_query env queryInput rulesInput factsInput opts limits query rules facts"
    and "proveBackward env queryInput rulesInput factsInput opts now = Inr res" and "br_status res = Proven"
  shows "(\<exists>t. br_proof res = Some t \<and> valid_proof (bo_constraintEvaluator opts) (set rules) (set facts) t query)
    \<and> ((\<forall>r\<in>set rules. unsafeHeadVariable r = None) \<longrightarrow>
         query \<in> consequences (bo_constraintEvaluator opts) (set rules) (set facts))"
proof -
  note ok = accepted_query_ok [OF assms(1)]
  from proveBackward_run [OF assms(1,2)] obtain branches failures st where
    run: "enumerateGoal (query_context env opts now limits rules facts) (bl_maxDepth limits + 1) [] query []
       \<lparr>bs_operations = 0, bs_scopeCounter = 0, bs_readings = 1\<rparr> = Inr ((branches, failures), st)"
    and res: "if branches = [] then br_proof res = None \<and> (br_status res, br_reason res) = strongestFailure failures
      else br_status res = Proven \<and> br_proof res = Some (snd (hd branches)) \<and> br_reason res = trace_reason (snd (hd branches))"
    by metis
  have query: "valid_atom query" "atom_vars query = {}" using ok(2) by (simp_all add: fact_ok_def ground_vars)
  note found = search.enum [OF ok(1) query(1) valid_bindings_Nil run]
  have "branches \<noteq> []"
  proof
    assume "branches = []"
    with res assms(3) have "strongestFailure failures = (Proven, br_reason res)" by simp
    moreover have "failure_ok (query_context env opts now limits rules facts) st (strongestFailure failures)"
      using found by (intro strongestFailure_ok) simp
    ultimately show False by (simp add: failure_ok_def)
  qed
  then have "branch_ok (query_context env opts now limits rules facts) (set facts) query [] (hd branches)" using found by simp
  moreover have "the_ground \<tau> query = query" for \<tau> using ok(2) by (simp add: fact_ok_def the_ground_id)
  ultimately have "valid_proof (bo_constraintEvaluator opts) (set rules) (set facts) (snd (hd branches)) query"
    by (simp add: branch_ok_def query_context_def)
  moreover from this have "query \<in> consequences (bo_constraintEvaluator opts) (set rules) (set facts)"
    if "\<forall>r\<in>set rules. unsafeHeadVariable r = None"
    using that by (intro valid_proof_consequence(1)) (auto simp: unsafeHeadVariable_None)
  ultimately show ?thesis using res \<open>branches \<noteq> []\<close> by auto
qed


section \<open>Examples\<close>

definition query_options :: backward_options where
  "query_options = \<lparr>bo_maxOperations = JNum 60, bo_maxDepth = JNum 3, bo_timeoutMs = JUndefined,
     bo_constraintEvaluator = Some distinct_ends\<rparr>"

definition query_limits :: backward_limits where
  "query_limits = \<lparr>bl_maxOperations = 60, bl_maxDepth = 3, bl_timeoutMs = 100\<rparr>"

definition two_steps_rule :: rule where
  "two_steps_rule = \<lparr>ru_id = ''r2'', ru_head = example_atom ''p'' ''x'' ''z'',
     ru_body = [example_atom ''e'' ''x'' ''y'', example_atom ''e'' ''y'' ''z''],
     ru_constraints = [example_atom ''d'' ''x'' ''z'']\<rparr>"

lemma two_steps_accepted:
  "accepted_query example_env (atom_json (ground_pair ''p'' ''a'' ''c'')) (JArr (map rule_json [two_steps_rule])) path_facts
     query_options query_limits (ground_pair ''p'' ''a'' ''c'') [two_steps_rule]
     [ground_pair ''e'' ''a'' ''b'', ground_pair ''e'' ''b'' ''c'']"
proof -
  have "backwardLimits query_options = Some query_limits"
    "normalizeGroundQuery (atom_json (ground_pair ''p'' ''a'' ''c'')) = Inr (ground_pair ''p'' ''a'' ''c'')"
    "backwardFacts example_env path_facts = Inr [ground_pair ''e'' ''a'' ''b'', ground_pair ''e'' ''b'' ''c'']"
    "list_all valid_rule [two_steps_rule]" "sort_by (rule_compare example_env) [two_steps_rule] = [two_steps_rule]"
    by code_simp+
  then show ?thesis by (simp add: accepted_query_def backwardRules_eq normalizeRules_json del: list.map)
qed

definition two_steps_proof :: proof_trace where
  "two_steps_proof = Rule_proof ''r2'' (ground_pair ''p'' ''a'' ''c'') [(''x'', ''a''), (''y'', ''b''), (''z'', ''c'')]
     [Fact_proof (ground_pair ''e'' ''a'' ''b''), Fact_proof (ground_pair ''e'' ''b'' ''c'')]"

lemma two_steps_run:
  "proveBackward example_env (atom_json (ground_pair ''p'' ''a'' ''c'')) (JArr (map rule_json [two_steps_rule])) path_facts
       query_options (\<lambda>k. 0)
     = Inr \<lparr>br_status = Proven, br_reason = By_rule, br_operations = 6, br_proof = Some two_steps_proof\<rparr>"
  unfolding proveBackward_accepted [OF two_steps_accepted] by code_simp

theorem proven_query_has_proof_witness:
  "\<exists>res. proveBackward example_env (atom_json (ground_pair ''p'' ''a'' ''c'')) (JArr (map rule_json [two_steps_rule])) path_facts
      query_options (\<lambda>k. 0) = Inr res
    \<and> br_proof res = Some two_steps_proof
    \<and> valid_proof (Some distinct_ends) {two_steps_rule} {ground_pair ''e'' ''a'' ''b'', ground_pair ''e'' ''b'' ''c''}
        two_steps_proof (ground_pair ''p'' ''a'' ''c'')"
proof -
  have "bo_constraintEvaluator query_options = Some distinct_ends" by (simp add: query_options_def)
  with proven_query_has_proof [OF two_steps_accepted two_steps_run] two_steps_run show ?thesis by simp
qed





text \<open>
  The answer \<open>not_proven\<close> does not mean that the query does not follow.  Once a fact matches a goal with variables,
  no rule is tried for it: with the fact \<open>q(a, b)\<close> the rule that gives \<open>q(a, c)\<close> is never used.
\<close>

definition one_step_rule :: rule where
  "one_step_rule = \<lparr>ru_id = ''r0'', ru_head = example_atom ''q'' ''x'' ''y'',
     ru_body = [example_atom ''s'' ''x'' ''y''], ru_constraints = []\<rparr>"

definition join_rule :: rule where
  "join_rule = \<lparr>ru_id = ''r1'', ru_head = example_atom ''p'' ''x'' ''x'',
     ru_body = [example_atom ''q'' ''x'' ''y'', example_atom ''r'' ''y'' ''y''], ru_constraints = []\<rparr>"

definition shadowing_facts :: "rule_atom list" where
  "shadowing_facts = [ground_pair ''q'' ''a'' ''b'', ground_pair ''r'' ''c'' ''c'', ground_pair ''s'' ''a'' ''c'']"

lemma shadowing_accepted:
  "accepted_query example_env (atom_json (ground_pair ''p'' ''a'' ''a'')) (JArr (map rule_json [one_step_rule, join_rule]))
     (JArr (map atom_json shadowing_facts)) query_options query_limits (ground_pair ''p'' ''a'' ''a'')
     [one_step_rule, join_rule] shadowing_facts"
proof -
  have "backwardLimits query_options = Some query_limits"
    "normalizeGroundQuery (atom_json (ground_pair ''p'' ''a'' ''a'')) = Inr (ground_pair ''p'' ''a'' ''a'')"
    "backwardFacts example_env (JArr (map atom_json shadowing_facts)) = Inr shadowing_facts"
    "list_all valid_rule [one_step_rule, join_rule]"
    "sort_by (rule_compare example_env) [one_step_rule, join_rule] = [one_step_rule, join_rule]"
    by code_simp+
  then show ?thesis by (simp add: accepted_query_def backwardRules_eq normalizeRules_json del: list.map)
qed

lemma not_proven_although_derivable:
  "proveBackward example_env (atom_json (ground_pair ''p'' ''a'' ''a'')) (JArr (map rule_json [one_step_rule, join_rule]))
       (JArr (map atom_json shadowing_facts)) query_options (\<lambda>k. 0)
     = Inr \<lparr>br_status = Not_proven, br_reason = No_proof, br_operations = 3, br_proof = None\<rparr>"
  "ground_pair ''p'' ''a'' ''a'' \<in> consequences (Some distinct_ends) {one_step_rule, join_rule} (set shadowing_facts)"
proof -
  show "proveBackward example_env (atom_json (ground_pair ''p'' ''a'' ''a'')) (JArr (map rule_json [one_step_rule, join_rule]))
       (JArr (map atom_json shadowing_facts)) query_options (\<lambda>k. 0)
     = Inr \<lparr>br_status = Not_proven, br_reason = No_proof, br_operations = 3, br_proof = None\<rparr>"
    unfolding proveBackward_accepted [OF shadowing_accepted] by code_simp
  let ?C = "consequences (Some distinct_ends) {one_step_rule, join_rule} (set shadowing_facts)"
  let ?\<sigma> = "[''x'' \<mapsto> ''a'', ''y'' \<mapsto> ''c'']"
  have given: "ground_pair ''r'' ''c'' ''c'' \<in> ?C" "ground_pair ''s'' ''a'' ''c'' \<in> ?C"
    by (auto simp: shadowing_facts_def intro: consequences.given)
  have ground: "the_ground ?\<sigma> (example_atom p x y) = ground_pair p (the (?\<sigma> x)) (the (?\<sigma> y))" for p x y
    by (simp add: the_ground_def example_atom_def ground_pair_def)
  have vars: "atom_vars (example_atom p x y) = {x, y}" for p x y
    by (auto simp: atom_vars_def example_atom_def)
  have "the_ground ?\<sigma> (ru_head one_step_rule) \<in> ?C"
    by (rule consequences.derived)
      (use given in \<open>auto simp: one_step_rule_def ground body_vars_def vars allowed_def\<close>)
  then have "ground_pair ''q'' ''a'' ''c'' \<in> ?C" by (simp add: one_step_rule_def ground)
  with given have "the_ground ?\<sigma> (ru_head join_rule) \<in> ?C"
    by (intro consequences.derived) (auto simp: join_rule_def ground body_vars_def vars allowed_def)
  then show "ground_pair ''p'' ''a'' ''a'' \<in> ?C" by (simp add: join_rule_def ground)
qed

end
