(* ===== verification/Derived_Record.thy ===== *)
theory Derived_Record
  imports Semi_Naive Trust_Ledger
begin

text \<open>
  The record of a derived fact (\<open>src/lib/inference-derived-record.js\<close>): which rule fired, on which
  supports, over which snapshots, with the state the conclusion is in and the history of that state.
  A record starts \<open>provisional\<close>; \<open>transitionDerivedRecord\<close> is its state machine.  A thrown
  \<open>TypeError\<close> is its message.  The options of a call are records of the values the caller passed.
\<close>

section \<open>States\<close>

definition DERIVED_RECORD_SCHEMA_VERSION :: string where
  "DERIVED_RECORD_SCHEMA_VERSION = ''huqan.derived-fact.v1''"

datatype derived_state = Provisional | Admitted | Contradicted | Superseded | Withdrawn

fun state_name :: "derived_state \<Rightarrow> string" where
  "state_name Provisional = ''provisional''"
| "state_name Admitted = ''admitted''"
| "state_name Contradicted = ''contradicted''"
| "state_name Superseded = ''superseded''"
| "state_name Withdrawn = ''withdrawn''"

definition DERIVED_STATES :: "derived_state list" where
  "DERIVED_STATES = [Provisional, Admitted, Contradicted, Superseded, Withdrawn]"

definition BELIEF_SEMANTICS :: string where
  "BELIEF_SEMANTICS = ''uncalibrated_inference_does_not_assign_belief''"

section \<open>Checks of the inputs\<close>

definition nonEmpty :: "jsval \<Rightarrow> string \<Rightarrow> type_error + string" where
  "nonEmpty v label = (case v of
       JStr s \<Rightarrow> if trim s = [] then Inl (label @ '' must be a non-empty string'') else Inr (trim s)
     | _ \<Rightarrow> Inl (label @ '' must be a non-empty string''))"

definition isoText :: "js_env \<Rightarrow> jsval \<Rightarrow> string \<Rightarrow> type_error + string" where
  "isoText env v label =
     bind_result (nonEmpty v label) (\<lambda>s.
       if date_parse env s = None then Inl (label @ '' must be an ISO timestamp'') else Inr s)"

definition sortedUniqueStrings :: "jsval \<Rightarrow> string \<Rightarrow> type_error + string list" where
  "sortedUniqueStrings v label = (case v of
       JUndefined \<Rightarrow> Inr []
     | JArr xs \<Rightarrow> bind_result (map_result (\<lambda>x. nonEmpty x label) xs) (\<lambda>ss. Inr (sort (remdups ss)))
     | _ \<Rightarrow> Inl (label @ '' must be an array''))"

definition trimmed_or :: "jsval \<Rightarrow> string \<Rightarrow> string" where
  "trimmed_or v s = (case v of JStr t \<Rightarrow> trim t | _ \<Rightarrow> s)"

section \<open>Supports\<close>

text \<open>
  A support detail as it is passed in; \<open>si_fact = None\<close> stands for a detail that is no object or has no
  fact.
\<close>

record support_input =
  si_fact :: "rule_atom option"
  si_provenanceRefs :: jsval
  si_sourceRefs :: jsval
  si_transitiveProvenanceRefs :: jsval
  si_transitiveSourceRefs :: jsval
  si_derivedRecordId :: jsval
  si_state :: jsval

record support =
  su_fact :: rule_atom
  su_factKey :: string
  su_provenanceRefs :: "string list"
  su_sourceRefs :: "string list"
  su_transitiveProvenanceRefs :: "string list"
  su_transitiveSourceRefs :: "string list"
  su_derivedRecordId :: string
  su_state :: string

definition support_state :: "jsval \<Rightarrow> string" where
  "support_state v = (let s = trimmed_or v [] in if s = [] then ''active'' else s)"

definition normalizeSupportDetail :: "js_env \<Rightarrow> bool \<Rightarrow> support_input \<Rightarrow> type_error + support" where
  "normalizeSupportDetail env allowProvisional i = (case si_fact i of
       None \<Rightarrow> Inl ''support detail must contain fact''
     | Some f \<Rightarrow>
         let key = factKey env f;
             did = trimmed_or (si_derivedRecordId i) [];
             st = support_state (si_state i) in
         bind_result (sortedUniqueStrings (si_provenanceRefs i) ''support.provenanceRefs'') (\<lambda>ps.
         bind_result (sortedUniqueStrings (si_sourceRefs i) ''support.sourceRefs'') (\<lambda>ss.
         bind_result (sortedUniqueStrings (si_transitiveProvenanceRefs i) ''support.transitiveProvenanceRefs'') (\<lambda>tps.
         bind_result (sortedUniqueStrings (si_transitiveSourceRefs i) ''support.transitiveSourceRefs'') (\<lambda>tss.
         if \<not> (st \<in> {''active'', ''admitted''} \<or> allowProvisional \<and> st = ''provisional'')
           then Inl (''support '' @ key @ '' is not active/admitted'')
         else if did \<noteq> [] \<and> st \<noteq> ''admitted'' \<and> \<not> (allowProvisional \<and> st = ''provisional'')
           then Inl (''derived support '' @ key @ '' must be admitted'')
         else if ps = [] \<and> ss = [] \<and> tps = [] \<and> tss = [] \<and> did = []
           then Inl (''support '' @ key @ '' must carry provenance/source identity'')
         else Inr \<lparr>su_fact = f, su_factKey = key, su_provenanceRefs = ps, su_sourceRefs = ss,
           su_transitiveProvenanceRefs = tps, su_transitiveSourceRefs = tss,
           su_derivedRecordId = did, su_state = st\<rparr>)))))"

fun support_map ::
  "js_env \<Rightarrow> bool \<Rightarrow> support_input list \<Rightarrow> (string \<times> support) list \<Rightarrow> type_error + (string \<times> support) list" where
  "support_map env prov [] m = Inr m"
| "support_map env prov (raw # raws) m =
     bind_result (normalizeSupportDetail env prov raw) (\<lambda>d.
       if map_of m (su_factKey d) \<noteq> None then Inl (''duplicate support detail for '' @ su_factKey d)
       else support_map env prov raws (alist_put (su_factKey d) d m))"

text \<open>\<open>supportDetails\<close> is \<open>None\<close> when it is not an array.\<close>

definition normalizeSupports ::
  "js_env \<Rightarrow> candidate \<Rightarrow> support_input list option \<Rightarrow> bool \<Rightarrow> type_error + support list" where
  "normalizeSupports env c details prov =
     (if ca_supports c = [] then Inl ''derived candidate must contain a complete directSupports array''
      else case details of
        None \<Rightarrow> Inl ''supportDetails must be an array''
      | Some raws \<Rightarrow>
          let expected = sort (remdups (map (factKey env) (ca_supports c))) in
          bind_result (support_map env prov raws []) (\<lambda>m.
            if sort (map fst m) \<noteq> expected
              then Inl ''supportDetails must exactly cover candidate.directSupports''
            else Inr (map (\<lambda>k. the (map_of m k)) expected)))"

definition collectTransitiveProvenanceRefs :: "support list \<Rightarrow> string list" where
  "collectTransitiveProvenanceRefs sups = sort (remdups (concat (map (\<lambda>s.
     su_provenanceRefs s @ su_transitiveProvenanceRefs s
       @ (if su_derivedRecordId s \<noteq> [] then [su_derivedRecordId s] else [])) sups)))"

definition collectTransitiveSourceRefs :: "support list \<Rightarrow> string list" where
  "collectTransitiveSourceRefs sups = sort (remdups (concat (map (\<lambda>s.
     su_sourceRefs s @ su_transitiveSourceRefs s) sups)))"

definition normalizedBindings :: "js_env \<Rightarrow> candidate \<Rightarrow> type_error + bindings" where
  "normalizedBindings env c =
     bind_result (map_result (\<lambda>(x, v).
         bind_result (nonEmpty (JStr x) ''binding.variable'') (\<lambda>x.
         bind_result (nonEmpty (JStr v) ''binding.value'') (\<lambda>v. Inr (x, v)))) (ca_bindings c))
       (\<lambda>bs. Inr (sort_by (\<lambda>p q. locale_compare env (fst p) (fst q)) bs))"

section \<open>Identity\<close>

record derivation_fields =
  df_workspaceId :: string
  df_fact :: rule_atom
  df_ruleId :: string
  df_bindings :: bindings
  df_supports :: "support list"
  df_graphSnapshotId :: string
  df_ruleSnapshotId :: string

definition derivationHashInput :: "js_env \<Rightarrow> derivation_fields \<Rightarrow> string" where
  "derivationHashInput env d = the (stringify env (JObj [
     (''schemaVersion'', JStr DERIVED_RECORD_SCHEMA_VERSION),
     (''workspaceId'', JStr (df_workspaceId d)),
     (''factKey'', JStr (factKey env (df_fact d))),
     (''ruleId'', JStr (df_ruleId d)),
     (''bindings'', JArr (map (\<lambda>(x, v). JObj [(''variable'', JStr x), (''value'', JStr v)]) (df_bindings d))),
     (''directSupportKeys'', JArr (map (\<lambda>s. JStr (su_factKey s)) (df_supports d))),
     (''graphSnapshotId'', JStr (df_graphSnapshotId d)),
     (''ruleSnapshotId'', JStr (df_ruleSnapshotId d))]))"

definition makeDerivationId :: "js_env \<Rightarrow> derivation_fields \<Rightarrow> string" where
  "makeDerivationId env d = ''prov_'' @ take 32 (sha256_hex env (derivationHashInput env d))"

section \<open>The record\<close>

record history_event =
  he_at :: string
  he_state :: derived_state
  he_reason :: string
  he_previousState :: "derived_state option"
  he_receiptId :: string
  he_candidateId :: string
  he_operationId :: string
  he_supportRef :: string

record derived_record =
  dr_schemaVersion :: string
  dr_derivationId :: string
  dr_workspaceId :: string
  dr_fact :: rule_atom
  dr_factKey :: string
  dr_ruleId :: string
  dr_bindings :: bindings
  dr_supports :: "support list"
  dr_transitiveProvenanceRefs :: "string list"
  dr_transitiveSourceRefs :: "string list"
  dr_graphSnapshotId :: string
  dr_ruleSnapshotId :: string
  dr_derivedAt :: string
  dr_state :: derived_state
  dr_beliefValue :: "rat option"
  dr_beliefSemantics :: string
  dr_trustReceiptId :: string
  dr_candidateId :: string
  dr_mutationOperationId :: string
  dr_history :: "history_event list"

definition dr_directSupports :: "derived_record \<Rightarrow> rule_atom list" where
  "dr_directSupports r = map su_fact (dr_supports r)"

definition dr_directSupportKeys :: "derived_record \<Rightarrow> string list" where
  "dr_directSupportKeys r = map su_factKey (dr_supports r)"

record build_options =
  bo_workspaceId :: jsval
  bo_derivedAt :: jsval
  bo_graphSnapshotId :: jsval
  bo_ruleSnapshotId :: jsval
  bo_supportDetails :: "support_input list option"
  bo_allowProvisionalSupports :: jsval

definition buildDerivedRecord :: "js_env \<Rightarrow> candidate \<Rightarrow> build_options \<Rightarrow> type_error + derived_record" where
  "buildDerivedRecord env c opts =
     bind_result (nonEmpty (or_else (bo_workspaceId opts) (JStr ''default'')) ''workspaceId'') (\<lambda>workspaceId.
     bind_result (nonEmpty (JStr (ca_ruleId c)) ''candidate.ruleId'') (\<lambda>ruleId.
     bind_result (isoText env (bo_derivedAt opts) ''derivedAt'') (\<lambda>derivedAt.
     bind_result (nonEmpty (bo_graphSnapshotId opts) ''graphSnapshotId'') (\<lambda>graphSnapshotId.
     bind_result (nonEmpty (bo_ruleSnapshotId opts) ''ruleSnapshotId'') (\<lambda>ruleSnapshotId.
     bind_result (normalizeSupports env c (bo_supportDetails opts)
       (bo_allowProvisionalSupports opts = JBool True)) (\<lambda>supports.
     bind_result (normalizedBindings env c) (\<lambda>bs.
       Inr \<lparr>dr_schemaVersion = DERIVED_RECORD_SCHEMA_VERSION,
         dr_derivationId = makeDerivationId env
           \<lparr>df_workspaceId = workspaceId, df_fact = ca_fact c, df_ruleId = ruleId, df_bindings = bs,
            df_supports = supports, df_graphSnapshotId = graphSnapshotId, df_ruleSnapshotId = ruleSnapshotId\<rparr>,
         dr_workspaceId = workspaceId, dr_fact = ca_fact c, dr_factKey = factKey env (ca_fact c),
         dr_ruleId = ruleId, dr_bindings = bs, dr_supports = supports,
         dr_transitiveProvenanceRefs = collectTransitiveProvenanceRefs supports,
         dr_transitiveSourceRefs = collectTransitiveSourceRefs supports,
         dr_graphSnapshotId = graphSnapshotId, dr_ruleSnapshotId = ruleSnapshotId,
         dr_derivedAt = derivedAt, dr_state = Provisional, dr_beliefValue = None,
         dr_beliefSemantics = BELIEF_SEMANTICS, dr_trustReceiptId = [], dr_candidateId = [],
         dr_mutationOperationId = [],
         dr_history = [\<lparr>he_at = derivedAt, he_state = Provisional, he_reason = ''rule_fired'',
           he_previousState = None, he_receiptId = [], he_candidateId = [], he_operationId = [],
           he_supportRef = []\<rparr>]\<rparr>)))))))"

section \<open>Transitions\<close>

record transition_options =
  to_at :: jsval
  to_reason :: jsval
  to_receiptId :: jsval
  to_candidateId :: jsval
  to_operationId :: jsval
  to_supportRef :: jsval

definition transition_at :: "string \<Rightarrow> string \<Rightarrow> transition_options" where
  "transition_at t reason = \<lparr>to_at = JStr t, to_reason = JStr reason, to_receiptId = JUndefined,
     to_candidateId = JUndefined, to_operationId = JUndefined, to_supportRef = JUndefined\<rparr>"

fun allowed_transitions :: "derived_state \<Rightarrow> derived_state list" where
  "allowed_transitions Provisional = [Admitted, Contradicted, Superseded, Withdrawn]"
| "allowed_transitions Admitted = [Contradicted, Superseded, Withdrawn]"
| "allowed_transitions Contradicted = []"
| "allowed_transitions Superseded = []"
| "allowed_transitions Withdrawn = []"

text \<open>\<open>Date.parse(a) < Date.parse(b)\<close>, false when one of them is not a date.\<close>

definition earlier_date :: "js_env \<Rightarrow> string \<Rightarrow> string \<Rightarrow> bool" where
  "earlier_date env a b = (case (date_parse env a, date_parse env b) of
       (Some x, Some y) \<Rightarrow> x < y
     | _ \<Rightarrow> False)"

definition state_of_value :: "jsval \<Rightarrow> derived_state option" where
  "state_of_value v = find (\<lambda>s. v = JStr (state_name s)) DERIVED_STATES"

definition transitionDerivedRecord ::
  "js_env \<Rightarrow> derived_record \<Rightarrow> jsval \<Rightarrow> transition_options \<Rightarrow> type_error + derived_record" where
  "transitionDerivedRecord env r nextState opts =
     (if dr_schemaVersion r \<noteq> DERIVED_RECORD_SCHEMA_VERSION then Inl ''valid derived record is required''
      else case state_of_value nextState of
        None \<Rightarrow> Inl (''unsupported derived state: '' @ js_string env nextState)
      | Some next_state \<Rightarrow>
          if next_state \<notin> set (allowed_transitions (dr_state r))
            then Inl (''derived state transition '' @ state_name (dr_state r) @ '' -> '' @ state_name next_state
              @ '' is not allowed'')
          else
            bind_result (isoText env (to_at opts) ''transition.at'') (\<lambda>now.
            bind_result (nonEmpty (to_reason opts) ''transition.reason'') (\<lambda>reason.
            if dr_history r \<noteq> [] \<and> earlier_date env now (he_at (last (dr_history r)))
              then Inl ''transition.at cannot precede the existing history''
            else
              let receiptId = trimmed_or (to_receiptId opts) (dr_trustReceiptId r);
                  candidateId = trimmed_or (to_candidateId opts) (dr_candidateId r);
                  operationId = trimmed_or (to_operationId opts) (dr_mutationOperationId r) in
              Inr (r\<lparr>dr_state := next_state, dr_trustReceiptId := receiptId, dr_candidateId := candidateId,
                dr_mutationOperationId := operationId,
                dr_history := dr_history r @ [\<lparr>he_at = now, he_state = next_state, he_reason = reason,
                  he_previousState = Some (dr_state r), he_receiptId = receiptId, he_candidateId = candidateId,
                  he_operationId = operationId, he_supportRef = trimmed_or (to_supportRef opts) []\<rparr>]\<rparr>))))"

section \<open>Reading a record\<close>

definition date_value :: "js_env \<Rightarrow> string \<Rightarrow> int" where
  "date_value env s = (case date_parse env s of Some t \<Rightarrow> t | None \<Rightarrow> 0)"

definition not_after :: "js_env \<Rightarrow> string \<Rightarrow> int \<Rightarrow> bool" where
  "not_after env s boundary = (case date_parse env s of Some t \<Rightarrow> t \<le> boundary | None \<Rightarrow> False)"

definition events_until :: "js_env \<Rightarrow> history_event list \<Rightarrow> int \<Rightarrow> history_event list" where
  "events_until env h boundary =
     sort_by (\<lambda>l r. date_value env (he_at l) - date_value env (he_at r))
       (filter (\<lambda>e. not_after env (he_at e) boundary) h)"

record state_reading =
  sr_derivationId :: string
  sr_state :: derived_state
  sr_reason :: string
  sr_at :: string
  sr_receiptId :: string
  sr_candidateId :: string
  sr_operationId :: string

definition derivedStateAt :: "js_env \<Rightarrow> derived_record \<Rightarrow> jsval \<Rightarrow> type_error + state_reading option" where
  "derivedStateAt env r asOf =
     (if dr_schemaVersion r \<noteq> DERIVED_RECORD_SCHEMA_VERSION then Inl ''valid derived record is required''
      else bind_result (isoText env asOf ''asOf'') (\<lambda>t.
        let events = events_until env (dr_history r) (date_value env t) in
        if events = [] then Inr None
        else let e = last events in
          Inr (Some \<lparr>sr_derivationId = dr_derivationId r, sr_state = he_state e, sr_reason = he_reason e,
            sr_at = he_at e, sr_receiptId = he_receiptId e, sr_candidateId = he_candidateId e,
            sr_operationId = he_operationId e\<rparr>)))"

definition canBackTrustReceipt :: "derived_record \<Rightarrow> jsval \<Rightarrow> bool" where
  "canBackTrustReceipt r receiptId =
     (dr_schemaVersion r = DERIVED_RECORD_SCHEMA_VERSION \<and> dr_state r = Admitted
       \<and> is_string receiptId \<and> receiptId \<noteq> JStr [] \<and> JStr (dr_trustReceiptId r) = receiptId)"

end
