(* ===== verification/Derived_Dependency.thy ===== *)
theory Derived_Dependency
  imports Derived_Record
begin

text \<open>
  What hangs on a derived fact (\<open>src/lib/inference-derived-dependency.js\<close>): the tokens a record is known
  by and the tokens of its supports, the records that rest on a reference, and the withdrawal of all of
  them, which cascades through a work list of token sets.  A set of tokens is a list; the work list ends,
  but not structurally, so the loop is a \<open>partial_function\<close> and \<open>Derived_Facts\<close> shows that it returns.
\<close>

section \<open>Tokens\<close>

definition tagged :: "string \<Rightarrow> string \<Rightarrow> string list" where
  "tagged tag x = [x, tag @ '':'' @ x]"

definition recordTokens :: "derived_record \<Rightarrow> string list" where
  "recordTokens r = tagged ''derivation'' (dr_derivationId r) @ tagged ''fact'' (dr_factKey r)
     @ concat (map (tagged ''provenance'') (dr_transitiveProvenanceRefs r))
     @ concat (map (tagged ''source'') (dr_transitiveSourceRefs r))"

definition tokens_of_support :: "support \<Rightarrow> string list" where
  "tokens_of_support s = tagged ''fact'' (su_factKey s)
     @ (if su_derivedRecordId s \<noteq> [] then tagged ''derivation'' (su_derivedRecordId s) else [])
     @ concat (map (tagged ''provenance'') (su_provenanceRefs s @ su_transitiveProvenanceRefs s))
     @ concat (map (tagged ''source'') (su_sourceRefs s @ su_transitiveSourceRefs s))"

definition supportTokens :: "derived_record \<Rightarrow> string list" where
  "supportTokens r = concat (map tokens_of_support (dr_supports r))"

text \<open>
  A reference is a text or an object; \<open>Ref_other\<close> is any other value.  The fields of an object are the
  fact, if it has one, and the values of \<open>derivationId\<close>, \<open>provenanceId\<close> and \<open>sourceRef\<close>.
\<close>

datatype support_reference =
    Ref_text string
  | Ref_object "rule_atom option" jsval jsval jsval
  | Ref_other

definition tagged_field :: "string \<Rightarrow> jsval \<Rightarrow> string list" where
  "tagged_field tag v = (case v of JStr s \<Rightarrow> if trim s = [] then [] else tagged tag (trim s) | _ \<Rightarrow> [])"

fun normalizeSupportReference :: "js_env \<Rightarrow> support_reference \<Rightarrow> type_error + string list" where
  "normalizeSupportReference env (Ref_text s) =
     (if trim s = [] then Inl ''support reference must be a string or object'' else Inr [trim s])"
| "normalizeSupportReference env (Ref_object fact_field d p s) =
     (let tokens = (case fact_field of None \<Rightarrow> [] | Some f \<Rightarrow> tagged ''fact'' (factKey env f))
        @ tagged_field ''derivation'' d @ tagged_field ''provenance'' p @ tagged_field ''source'' s in
      if tokens = [] then Inl ''support reference contains no identity'' else Inr tokens)"
| "normalizeSupportReference env Ref_other = Inl ''support reference must be a string or object''"

type_synonym record_map = "(string \<times> derived_record) list"

definition normalizeRecords :: "derived_record list \<Rightarrow> type_error + record_map" where
  "normalizeRecords rs =
     (if list_ex (\<lambda>r. dr_schemaVersion r \<noteq> DERIVED_RECORD_SCHEMA_VERSION) rs
      then Inl ''records must contain only derived records''
      else Inr (foldl (\<lambda>m r. alist_put (dr_derivationId r) r m) [] rs))"

definition hasIntersection :: "string list \<Rightarrow> string list \<Rightarrow> bool" where
  "hasIntersection left right = list_ex (\<lambda>x. List.member right x) left"

definition by_derivation_id :: "js_env \<Rightarrow> derived_record list \<Rightarrow> derived_record list" where
  "by_derivation_id env = sort_by (\<lambda>l r. locale_compare env (dr_derivationId l) (dr_derivationId r))"

definition findDependents ::
  "js_env \<Rightarrow> derived_record list \<Rightarrow> support_reference \<Rightarrow> type_error + derived_record list" where
  "findDependents env rs ref =
     bind_result (normalizeRecords rs) (\<lambda>m.
     bind_result (normalizeSupportReference env ref) (\<lambda>target.
       Inr (by_derivation_id env (filter (\<lambda>r. hasIntersection (supportTokens r) target) (map snd m)))))"

section \<open>Withdrawal\<close>

definition is_active :: "derived_record \<Rightarrow> bool" where
  "is_active r = (dr_state r \<in> {Provisional, Admitted})"

definition matched_token :: "derived_record \<Rightarrow> string list \<Rightarrow> string" where
  "matched_token r target = (case find (\<lambda>t. List.member target t) (sort (remdups (supportTokens r))) of
       Some t \<Rightarrow> t | None \<Rightarrow> [])"

definition withdraw_record ::
  "js_env \<Rightarrow> jsval \<Rightarrow> string \<Rightarrow> string list \<Rightarrow> derived_record \<Rightarrow> type_error + derived_record" where
  "withdraw_record env moment reason target r =
     transitionDerivedRecord env r (JStr ''withdrawn'')
       \<lparr>to_at = moment, to_reason = JStr reason, to_receiptId = JUndefined, to_candidateId = JUndefined,
        to_operationId = JUndefined, to_supportRef = JStr (matched_token r target)\<rparr>"

fun withdraw_pass ::
  "js_env \<Rightarrow> jsval \<Rightarrow> string \<Rightarrow> string list \<Rightarrow> record_map \<Rightarrow> record_map \<times> string list \<times> string list list \<Rightarrow>
     type_error + record_map \<times> string list \<times> string list list" where
  "withdraw_pass env moment reason target [] st = Inr st"
| "withdraw_pass env moment reason target ((i, r) # es) (m, affected, queue) =
     (if \<not> is_active r \<or> \<not> hasIntersection (supportTokens r) target
        then withdraw_pass env moment reason target es (m, affected, queue)
      else bind_result (withdraw_record env moment reason target r) (\<lambda>r'.
        withdraw_pass env moment reason target es
          (alist_put i r' m, affected @ [i], queue @ [recordTokens r'])))"

definition token_key :: "string list \<Rightarrow> string" where
  "token_key tokens = join ''|'' (sort (remdups tokens))"

partial_function (option) withdraw_loop ::
  "js_env \<Rightarrow> jsval \<Rightarrow> string \<Rightarrow> string list list \<Rightarrow> string list \<Rightarrow> record_map \<Rightarrow> string list \<Rightarrow>
     (type_error + record_map \<times> string list) option" where
  "withdraw_loop env moment reason queue seen m affected = (case queue of
       [] \<Rightarrow> Some (Inr (m, affected))
     | target # rest \<Rightarrow>
         if List.member seen (token_key target) then withdraw_loop env moment reason rest seen m affected
         else (case withdraw_pass env moment reason target
               (sort_by (\<lambda>p q. locale_compare env (fst p) (fst q)) m) (m, affected, rest) of
             Inl e \<Rightarrow> Some (Inl e)
           | Inr (m', affected', queue') \<Rightarrow>
               withdraw_loop env moment reason queue' (token_key target # seen) m' affected'))"

record withdrawal_outcome =
  wd_records :: "derived_record list"
  wd_affected :: "string list"
  wd_reevaluate :: "string list"

definition withdrawal_reason :: "jsval \<Rightarrow> string" where
  "withdrawal_reason v = (let s = trimmed_or v [] in if s = [] then ''support_withdrawn'' else s)"

definition withdrawDependents ::
  "js_env \<Rightarrow> derived_record list \<Rightarrow> support_reference \<Rightarrow> jsval \<Rightarrow> jsval \<Rightarrow> (type_error + withdrawal_outcome) option" where
  "withdrawDependents env rs ref moment reason = (case normalizeRecords rs of
       Inl e \<Rightarrow> Some (Inl e)
     | Inr m \<Rightarrow> (case normalizeSupportReference env ref of
           Inl e \<Rightarrow> Some (Inl e)
         | Inr target \<Rightarrow>
             map_option (\<lambda>out. bind_result out (\<lambda>(m', affected).
                 Inr \<lparr>wd_records = by_derivation_id env (map snd m'),
                   wd_affected = sort (remdups affected), wd_reevaluate = sort (remdups affected)\<rparr>))
               (withdraw_loop env moment (withdrawal_reason reason) [target] [] m [])))"

section \<open>Receipts\<close>

record receipt_status =
  rs_valid :: bool
  rs_reason :: string
  rs_state :: "state_reading option"

definition trustReceiptStatusAt ::
  "js_env \<Rightarrow> derived_record \<Rightarrow> jsval \<Rightarrow> jsval \<Rightarrow> type_error + receipt_status" where
  "trustReceiptStatusAt env r receiptId asOf =
     bind_result (derivedStateAt env r asOf) (\<lambda>reading. Inr (case reading of
         None \<Rightarrow> \<lparr>rs_valid = False, rs_reason = ''derivation_not_yet_present'', rs_state = None\<rparr>
       | Some s \<Rightarrow> let valid = sr_state s = Admitted \<and> JStr (sr_receiptId s) = receiptId in
           \<lparr>rs_valid = valid,
            rs_reason = (if valid then ''admitted_at_time'' else ''derived_state_'' @ state_name (sr_state s)),
            rs_state = Some s\<rparr>))"

record current_receipt_status =
  cr_valid :: bool
  cr_reason :: string
  cr_state :: derived_state
  cr_receiptId :: string

definition currentTrustReceiptStatus :: "derived_record \<Rightarrow> jsval \<Rightarrow> current_receipt_status" where
  "currentTrustReceiptStatus r receiptId = (let valid = canBackTrustReceipt r receiptId in
     \<lparr>cr_valid = valid,
      cr_reason = (if valid then ''currently_admitted'' else ''derived_state_'' @ state_name (dr_state r)),
      cr_state = dr_state r, cr_receiptId = dr_trustReceiptId r\<rparr>)"

end
