(* ===== verification/Derived_Record_Facts.thy ===== *)
theory Derived_Record_Facts
  imports Derived_Dependency Unification_Facts
begin

text \<open>
  Facts about derived records: what a successful transition changes, the life of a record as an inductive
  relation with its invariant (a chronological history that ends in the state of the record), and how a
  reading of the past relates to the history.
\<close>

section \<open>Checks\<close>

lemma nonEmpty_Inr: "nonEmpty v label = Inr s \<longleftrightarrow> (\<exists>t. v = JStr t \<and> s = trim t \<and> s \<noteq> [])"
  by (auto simp: nonEmpty_def split: jsval.splits)

lemma isoText_Inr:
  "isoText env v label = Inr s \<longleftrightarrow> (\<exists>t. v = JStr t \<and> s = trim t \<and> s \<noteq> [] \<and> date_parse env s \<noteq> None)"
  by (auto simp: isoText_def nonEmpty_Inr bind_result_eq_Inr)

lemma state_name_inject [simp]: "state_name s = state_name t \<longleftrightarrow> s = t"
  by (cases s; cases t) simp_all

lemma state_of_name [simp]: "state_of_value (JStr (state_name s)) = Some s"
  by (cases s) (simp_all add: state_of_value_def DERIVED_STATES_def)

lemma state_of_names [simp]:
  "state_of_value (JStr ''withdrawn'') = Some Withdrawn"
  "state_of_value (JStr ''admitted'') = Some Admitted"
  "state_of_value (JStr ''contradicted'') = Some Contradicted"
  "state_of_value (JStr ''superseded'') = Some Superseded"
  by (simp_all add: state_of_value_def DERIVED_STATES_def)

section \<open>Transitions\<close>

definition transition_event ::
  "derived_record \<Rightarrow> derived_state \<Rightarrow> string \<Rightarrow> string \<Rightarrow> transition_options \<Rightarrow> history_event" where
  "transition_event r s now reason opts =
     \<lparr>he_at = now, he_state = s, he_reason = reason, he_previousState = Some (dr_state r),
      he_receiptId = trimmed_or (to_receiptId opts) (dr_trustReceiptId r),
      he_candidateId = trimmed_or (to_candidateId opts) (dr_candidateId r),
      he_operationId = trimmed_or (to_operationId opts) (dr_mutationOperationId r),
      he_supportRef = trimmed_or (to_supportRef opts) []\<rparr>"

definition after_event :: "derived_record \<Rightarrow> history_event \<Rightarrow> derived_record" where
  "after_event r e = r\<lparr>dr_state := he_state e, dr_trustReceiptId := he_receiptId e,
     dr_candidateId := he_candidateId e, dr_mutationOperationId := he_operationId e,
     dr_history := dr_history r @ [e]\<rparr>"

lemma after_transition_event:
  "after_event r (transition_event r s now reason opts) =
     r\<lparr>dr_state := s, dr_trustReceiptId := trimmed_or (to_receiptId opts) (dr_trustReceiptId r),
       dr_candidateId := trimmed_or (to_candidateId opts) (dr_candidateId r),
       dr_mutationOperationId := trimmed_or (to_operationId opts) (dr_mutationOperationId r),
       dr_history := dr_history r @ [transition_event r s now reason opts]\<rparr>"
  by (simp add: after_event_def transition_event_def)

lemma transition_eq:
  "transitionDerivedRecord env r v opts =
     (if dr_schemaVersion r \<noteq> DERIVED_RECORD_SCHEMA_VERSION then Inl ''valid derived record is required''
      else case state_of_value v of
        None \<Rightarrow> Inl (''unsupported derived state: '' @ js_string env v)
      | Some s \<Rightarrow>
          if s \<notin> set (allowed_transitions (dr_state r))
            then Inl (''derived state transition '' @ state_name (dr_state r) @ '' -> '' @ state_name s
              @ '' is not allowed'')
          else
            bind_result (isoText env (to_at opts) ''transition.at'') (\<lambda>now.
            bind_result (nonEmpty (to_reason opts) ''transition.reason'') (\<lambda>reason.
            if dr_history r \<noteq> [] \<and> earlier_date env now (he_at (last (dr_history r)))
              then Inl ''transition.at cannot precede the existing history''
            else Inr (after_event r (transition_event r s now reason opts)))))"
  by (simp only: transitionDerivedRecord_def Let_def after_transition_event,
    simp only: transition_event_def)

lemma transitionE:
  assumes "transitionDerivedRecord env r v opts = Inr r'"
  obtains s now reason where "dr_schemaVersion r = DERIVED_RECORD_SCHEMA_VERSION" "state_of_value v = Some s"
    "s \<in> set (allowed_transitions (dr_state r))" "isoText env (to_at opts) ''transition.at'' = Inr now"
    "nonEmpty (to_reason opts) ''transition.reason'' = Inr reason"
    "dr_history r = [] \<or> \<not> earlier_date env now (he_at (last (dr_history r)))"
    "r' = after_event r (transition_event r s now reason opts)"
proof (cases "state_of_value v")
  case None
  then show ?thesis using assms by (simp add: transition_eq split: if_splits)
next
  case (Some s)
  then show ?thesis using assms that
    by (simp only: transition_eq option.case split: if_splits) (auto simp only: bind_result_eq_Inr split: if_splits)
qed

lemma after_event_same [simp]:
  "dr_schemaVersion (after_event r e) = dr_schemaVersion r"
  "dr_derivationId (after_event r e) = dr_derivationId r"
  "dr_workspaceId (after_event r e) = dr_workspaceId r"
  "dr_fact (after_event r e) = dr_fact r"
  "dr_factKey (after_event r e) = dr_factKey r"
  "dr_ruleId (after_event r e) = dr_ruleId r"
  "dr_supports (after_event r e) = dr_supports r"
  "dr_transitiveProvenanceRefs (after_event r e) = dr_transitiveProvenanceRefs r"
  "dr_transitiveSourceRefs (after_event r e) = dr_transitiveSourceRefs r"
  "dr_derivedAt (after_event r e) = dr_derivedAt r"
  "dr_beliefValue (after_event r e) = dr_beliefValue r"
  "dr_state (after_event r e) = he_state e"
  "dr_trustReceiptId (after_event r e) = he_receiptId e"
  "dr_history (after_event r e) = dr_history r @ [e]"
  "recordTokens (after_event r e) = recordTokens r"
  "supportTokens (after_event r e) = supportTokens r"
  by (simp_all add: after_event_def recordTokens_def supportTokens_def)

lemma transition_event_same [simp]:
  "he_at (transition_event r s now reason opts) = now"
  "he_state (transition_event r s now reason opts) = s"
  "he_reason (transition_event r s now reason opts) = reason"
  "he_previousState (transition_event r s now reason opts) = Some (dr_state r)"
  by (simp_all add: transition_event_def)

lemma transition_same:
  assumes "transitionDerivedRecord env r v opts = Inr r'"
  shows "dr_schemaVersion r' = dr_schemaVersion r" "dr_derivationId r' = dr_derivationId r"
    "dr_fact r' = dr_fact r" "dr_ruleId r' = dr_ruleId r" "dr_supports r' = dr_supports r"
    "recordTokens r' = recordTokens r" "supportTokens r' = supportTokens r"
  using assms by (auto elim: transitionE)

section \<open>The life of a record\<close>

inductive lifecycle :: "js_env \<Rightarrow> derived_record \<Rightarrow> bool" for env where
  built: "buildDerivedRecord env c opts = Inr r \<Longrightarrow> lifecycle env r"
| moved: "lifecycle env r \<Longrightarrow> transitionDerivedRecord env r v opts = Inr r' \<Longrightarrow> lifecycle env r'"

inductive_cases built_lifeE: "lifecycle env r"

definition dated :: "js_env \<Rightarrow> history_event list \<Rightarrow> bool" where
  "dated env h = list_all (\<lambda>e. date_parse env (he_at e) \<noteq> None) h"

definition chronological :: "js_env \<Rightarrow> history_event list \<Rightarrow> bool" where
  "chronological env h = sorted (map (\<lambda>e. date_value env (he_at e)) h)"

fun allowed_path :: "history_event list \<Rightarrow> bool" where
  "allowed_path (e # f # es) = (he_state f \<in> set (allowed_transitions (he_state e))
     \<and> he_previousState f = Some (he_state e) \<and> allowed_path (f # es))"
| "allowed_path _ = True"

definition record_ok :: "js_env \<Rightarrow> derived_record \<Rightarrow> bool" where
  "record_ok env r = (dr_schemaVersion r = DERIVED_RECORD_SCHEMA_VERSION \<and> dr_history r \<noteq> []
     \<and> he_state (hd (dr_history r)) = Provisional \<and> he_state (last (dr_history r)) = dr_state r
     \<and> he_receiptId (last (dr_history r)) = dr_trustReceiptId r
     \<and> dated env (dr_history r) \<and> chronological env (dr_history r) \<and> allowed_path (dr_history r))"

lemma allowed_path_snoc:
  "h \<noteq> [] \<Longrightarrow> allowed_path (h @ [e]) \<longleftrightarrow> allowed_path h \<and> he_state e \<in> set (allowed_transitions (he_state (last h)))
     \<and> he_previousState e = Some (he_state (last h))"
  by (induction h rule: allowed_path.induct) auto

lemma earlier_date_value:
  "date_parse env a \<noteq> None \<Longrightarrow> date_parse env b \<noteq> None \<Longrightarrow>
     earlier_date env a b \<longleftrightarrow> date_value env a < date_value env b"
  by (auto simp: earlier_date_def date_value_def)

lemma chronological_snoc:
  assumes "chronological env h" and "h \<noteq> []"
    and "date_value env (he_at (last h)) \<le> date_value env (he_at e)"
  shows "chronological env (h @ [e])"
proof -
  obtain g l where h: "h = g @ [l]" using assms(2) by (cases h rule: rev_cases) auto
  show ?thesis using assms unfolding h chronological_def
    by (auto simp: sorted_append)
qed

lemma built_fields:
  assumes "buildDerivedRecord env c opts = Inr r"
  shows "dr_schemaVersion r = DERIVED_RECORD_SCHEMA_VERSION \<and> dr_state r = Provisional
    \<and> dr_trustReceiptId r = [] \<and> dr_fact r = ca_fact c \<and> dr_factKey r = factKey env (ca_fact c)
    \<and> isoText env (bo_derivedAt opts) ''derivedAt'' = Inr (dr_derivedAt r)
    \<and> normalizeSupports env c (bo_supportDetails opts) (bo_allowProvisionalSupports opts = JBool True)
        = Inr (dr_supports r)
    \<and> dr_history r = [\<lparr>he_at = dr_derivedAt r, he_state = Provisional, he_reason = ''rule_fired'',
           he_previousState = None, he_receiptId = [], he_candidateId = [], he_operationId = [],
           he_supportRef = []\<rparr>]
    \<and> dr_transitiveProvenanceRefs r = collectTransitiveProvenanceRefs (dr_supports r)
    \<and> dr_transitiveSourceRefs r = collectTransitiveSourceRefs (dr_supports r)"
  by (insert assms, unfold buildDerivedRecord_def, elim bind_result_InrE, drule Inr_inject, hypsubst) simp

lemma built_ok: "buildDerivedRecord env c opts = Inr r \<Longrightarrow> record_ok env r"
  by (drule built_fields) (auto simp: isoText_Inr record_ok_def dated_def chronological_def)

lemma moved_ok:
  assumes ok: "record_ok env r" and t: "transitionDerivedRecord env r v opts = Inr r'"
  shows "record_ok env r'"
  using t
proof (rule transitionE)
  fix s now reason
  assume s: "s \<in> set (allowed_transitions (dr_state r))"
    and now: "isoText env (to_at opts) ''transition.at'' = Inr now"
    and e: "dr_history r = [] \<or> \<not> earlier_date env now (he_at (last (dr_history r)))"
    and r': "r' = after_event r (transition_event r s now reason opts)"
  have ne: "dr_history r \<noteq> []" and dates: "dated env (dr_history r)" using ok by (auto simp: record_ok_def)
  have n: "date_parse env now \<noteq> None" using now by (auto simp: isoText_Inr)
  have l: "date_parse env (he_at (last (dr_history r))) \<noteq> None"
    using dates ne by (auto simp: dated_def list_all_iff)
  have "date_value env (he_at (last (dr_history r))) \<le> date_value env now"
    using e ne earlier_date_value [OF n l] by auto
  with ok ne have "chronological env (dr_history r')"
    unfolding r' by (simp add: chronological_snoc record_ok_def)
  moreover have "allowed_path (dr_history r')"
    using ok s ne by (simp add: r' allowed_path_snoc record_ok_def)
  moreover have "dated env (dr_history r')" using dates n by (simp add: r' dated_def)
  ultimately show ?thesis using ok ne by (simp add: r' record_ok_def)
qed

lemma lifecycle_ok: "lifecycle env r \<Longrightarrow> record_ok env r"
  by (induction rule: lifecycle.induct) (auto intro: built_ok moved_ok)

section \<open>Reading the past\<close>

lemma sort_by_sorted:
  "sorted_wrt (\<lambda>a b. cmp a b \<le> 0) xs \<Longrightarrow> sort_by cmp xs = xs"
proof (induction xs)
  case Nil
  then show ?case by (simp add: sort_by_def)
next
  case (Cons x xs)
  then have "sort_by cmp (x # xs) = insert_by cmp x xs" by (simp add: sort_by_def)
  also have "\<dots> = x # xs" using Cons.prems by (cases xs) simp_all
  finally show ?case .
qed

lemma not_after_value: "date_parse env s \<noteq> None \<Longrightarrow> not_after env s b \<longleftrightarrow> date_value env s \<le> b"
  by (auto simp: not_after_def date_value_def)

lemma events_until_chronological:
  assumes "dated env h" and "chronological env h"
  shows "events_until env h b = filter (\<lambda>e. date_value env (he_at e) \<le> b) h"
proof -
  have f: "filter (\<lambda>e. not_after env (he_at e) b) h = filter (\<lambda>e. date_value env (he_at e) \<le> b) h"
    using assms(1) by (intro filter_cong) (auto simp: not_after_value dated_def list_all_iff)
  have "sorted_wrt (\<lambda>x y. date_value env (he_at x) \<le> date_value env (he_at y)) h"
    using assms(2) unfolding chronological_def sorted_map .
  then have "sorted_wrt (\<lambda>x y. date_value env (he_at x) - date_value env (he_at y) \<le> 0)
      (filter (\<lambda>e. date_value env (he_at e) \<le> b) h)"
    by (intro sorted_wrt_filter) (simp add: sorted_wrt_mono_rel)
  then show ?thesis by (simp add: events_until_def f sort_by_sorted)
qed

lemma derivedStateAt_last:
  assumes ok: "record_ok env r" and t: "isoText env asOf ''asOf'' = Inr t"
  shows "derivedStateAt env r asOf = Inr (
    let es = filter (\<lambda>e. date_value env (he_at e) \<le> date_value env t) (dr_history r) in
    if es = [] then None else Some \<lparr>sr_derivationId = dr_derivationId r, sr_state = he_state (last es),
      sr_reason = he_reason (last es), sr_at = he_at (last es), sr_receiptId = he_receiptId (last es),
      sr_candidateId = he_candidateId (last es), sr_operationId = he_operationId (last es)\<rparr>)"
  using ok t by (simp add: derivedStateAt_def record_ok_def events_until_chronological Let_def)

end
