(* ===== verification/Derived_Dependency_Facts.thy ===== *)
theory Derived_Dependency_Facts
  imports Derived_Record_Facts Json_Injective
begin

text \<open>
  The withdrawal cascade is complete: one pass of the code as a fold over the records it hits, the set of
  records that depend on a reference as a least fixed point, and the invariant of the work list, from
  which the loop returns with exactly that set withdrawn.
\<close>

section \<open>What depends on a reference\<close>

inductive_set dependents :: "derived_record set \<Rightarrow> string set \<Rightarrow> derived_record set" for R T where
  direct: "r \<in> R \<Longrightarrow> is_active r \<Longrightarrow> set (supportTokens r) \<inter> T \<noteq> {} \<Longrightarrow> r \<in> dependents R T"
| further: "p \<in> dependents R T \<Longrightarrow> r \<in> R \<Longrightarrow> is_active r \<Longrightarrow>
     set (supportTokens r) \<inter> set (recordTokens p) \<noteq> {} \<Longrightarrow> r \<in> dependents R T"

lemma dependents_subset: "r \<in> dependents R T \<Longrightarrow> r \<in> R \<and> is_active r"
  by (induction rule: dependents.induct) auto

lemma dependents_least:
  assumes "\<And>r. r \<in> R \<Longrightarrow> is_active r \<Longrightarrow> set (supportTokens r) \<inter> T \<noteq> {} \<Longrightarrow> r \<in> W"
    and "\<And>p r. p \<in> W \<Longrightarrow> r \<in> R \<Longrightarrow> is_active r \<Longrightarrow>
      set (supportTokens r) \<inter> set (recordTokens p) \<noteq> {} \<Longrightarrow> r \<in> W"
  shows "dependents R T \<subseteq> W"
proof
  fix r assume "r \<in> dependents R T"
  then show "r \<in> W" by (induction rule: dependents.induct) (auto intro: assms)
qed

lemma hasIntersection_iff [simp]: "hasIntersection xs ys \<longleftrightarrow> set xs \<inter> set ys \<noteq> {}"
  by (auto simp: hasIntersection_def list_ex_iff)

section \<open>Keys of token sets\<close>

definition bar_free :: "string set \<Rightarrow> bool" where
  "bar_free S = (\<forall>t\<in>S. CHR ''|'' \<notin> set t)"

lemma join_bar_inject:
  assumes "join ''|'' xs = join ''|'' ys" and "xs \<noteq> []" and "ys \<noteq> []"
    and "\<forall>t\<in>set xs. CHR ''|'' \<notin> set t" and "\<forall>t\<in>set ys. CHR ''|'' \<notin> set t"
  shows "xs = ys"
  using assms
proof (induction xs arbitrary: ys)
  case Nil
  then show ?case by simp
next
  case (Cons x xs)
  obtain y ys' where ys: "ys = y # ys'" using Cons.prems(3) by (cases ys) auto
  have cut: "takeWhile (\<lambda>c. c \<noteq> CHR ''|'') (join ''|'' (z # zs)) = z"
    and rest: "dropWhile (\<lambda>c. c \<noteq> CHR ''|'') (join ''|'' (z # zs))
      = (if zs = [] then [] else CHR ''|'' # join ''|'' zs)" if "CHR ''|'' \<notin> set z" for z zs
    using that by (cases zs; auto simp: takeWhile_append dropWhile_append takeWhile_eq_all_conv dropWhile_eq_Nil_conv)+
  have x: "CHR ''|'' \<notin> set x" "CHR ''|'' \<notin> set y" using Cons.prems ys by auto
  have "x = y" using cut [OF x(1), of xs] cut [OF x(2), of ys'] Cons.prems(1) ys by simp
  moreover have "(if xs = [] then [] else CHR ''|'' # join ''|'' xs) = (if ys' = [] then [] else CHR ''|'' # join ''|'' ys')"
    using rest [OF x(1), of xs] rest [OF x(2), of ys'] Cons.prems(1) ys by simp
  then have "xs = ys'" using Cons.IH [of ys'] Cons.prems ys by (auto split: if_splits)
  ultimately show ?case by (simp add: ys)
qed

lemma token_key_inject:
  assumes "token_key xs = token_key ys" and "xs \<noteq> []" and "ys \<noteq> []" and "bar_free (set xs)" and "bar_free (set ys)"
  shows "set xs = set ys"
proof -
  have "sort (remdups xs) = sort (remdups ys)"
  proof (rule join_bar_inject)
    show "join ''|'' (sort (remdups xs)) = join ''|'' (sort (remdups ys))"
      using assms(1) by (simp add: token_key_def)
    show "sort (remdups xs) \<noteq> []" "sort (remdups ys) \<noteq> []"
      using assms(2,3) by (metis length_0_conv length_sort remdups_eq_nil_iff)+
  qed (use assms(4,5) in \<open>auto simp: bar_free_def\<close>)
  then show ?thesis by (metis set_remdups set_sort)
qed

section \<open>One pass\<close>

definition can_withdraw :: "js_env \<Rightarrow> string \<Rightarrow> derived_record \<Rightarrow> bool" where
  "can_withdraw env now r = (dr_schemaVersion r = DERIVED_RECORD_SCHEMA_VERSION
     \<and> (dr_history r = [] \<or> \<not> earlier_date env now (he_at (last (dr_history r)))))"

definition withdrawn_record ::
  "js_env \<Rightarrow> string \<Rightarrow> string \<Rightarrow> string list \<Rightarrow> derived_record \<Rightarrow> derived_record" where
  "withdrawn_record env now reason target r = after_event r (transition_event r Withdrawn now reason
     \<lparr>to_at = JStr now, to_reason = JStr reason, to_receiptId = JUndefined, to_candidateId = JUndefined,
      to_operationId = JUndefined, to_supportRef = JStr (matched_token r target)\<rparr>)"

lemma withdrawn_record_same [simp]:
  "dr_derivationId (withdrawn_record env now reason target r) = dr_derivationId r"
  "dr_state (withdrawn_record env now reason target r) = Withdrawn"
  "recordTokens (withdrawn_record env now reason target r) = recordTokens r"
  "supportTokens (withdrawn_record env now reason target r) = supportTokens r"
  by (simp_all add: withdrawn_record_def)

lemma withdraw_record_ok:
  assumes moment: "isoText env moment ''transition.at'' = Inr now" and reason: "trim reason = reason" "reason \<noteq> []"
    and "is_active r" and "can_withdraw env now r"
  shows "withdraw_record env moment reason target r = Inr (withdrawn_record env now reason target r)"
proof -
  have "Withdrawn \<in> set (allowed_transitions (dr_state r))"
    using assms(4) by (auto simp: is_active_def)
  moreover have "nonEmpty (JStr reason) ''transition.reason'' = Inr reason"
    using reason by (simp add: nonEmpty_Inr)
  ultimately show ?thesis
    using moment assms(5)
    by (auto simp: withdraw_record_def transition_eq can_withdraw_def withdrawn_record_def transition_event_def)
qed

definition hits :: "string list \<Rightarrow> record_map \<Rightarrow> record_map" where
  "hits target es = filter (\<lambda>p. is_active (snd p) \<and> set (supportTokens (snd p)) \<inter> set target \<noteq> {}) es"

definition put_all :: "(derived_record \<Rightarrow> derived_record) \<Rightarrow> record_map \<Rightarrow> record_map \<Rightarrow> record_map" where
  "put_all f es m = foldl (\<lambda>m p. alist_put (fst p) (f (snd p)) m) m es"

lemma withdraw_pass_eq:
  assumes moment: "isoText env moment ''transition.at'' = Inr now" and reason: "trim reason = reason" "reason \<noteq> []"
    and "\<forall>p\<in>set es. is_active (snd p) \<longrightarrow> can_withdraw env now (snd p)"
  shows "withdraw_pass env moment reason target es (m, affected, queue) =
     Inr (put_all (withdrawn_record env now reason target) (hits target es) m,
       affected @ map fst (hits target es), queue @ map (\<lambda>p. recordTokens (snd p)) (hits target es))"
  using assms(4)
proof (induction es arbitrary: m affected queue)
  case Nil
  then show ?case by (simp add: hits_def put_all_def)
next
  case (Cons p es)
  obtain i r where p: "p = (i, r)" by (cases p)
  show ?case
  proof (cases "is_active r \<and> set (supportTokens r) \<inter> set target \<noteq> {}")
    case True
    then have "withdraw_record env moment reason target r = Inr (withdrawn_record env now reason target r)"
      using Cons.prems p by (intro withdraw_record_ok [OF moment reason]) auto
    then show ?thesis using True Cons.IH Cons.prems by (simp add: p hits_def put_all_def)
  next
    case False
    then have "\<not> is_active r \<or> \<not> hasIntersection (supportTokens r) target" by auto
    then have "withdraw_pass env moment reason target (p # es) (m, affected, queue)
        = withdraw_pass env moment reason target es (m, affected, queue)"
      by (simp only: p withdraw_pass.simps if_True)
    moreover have "hits target (p # es) = hits target es"
      using False by (simp add: p hits_def)
    ultimately show ?thesis using Cons by simp
  qed
qed

lemma map_of_put_all:
  "distinct (map fst es) \<Longrightarrow>
     map_of (put_all f es m) i = (case map_of es i of Some r \<Rightarrow> Some (f r) | None \<Rightarrow> map_of m i)"
proof (induction es arbitrary: m)
  case Nil
  then show ?case by (simp add: put_all_def)
next
  case (Cons p es)
  then have "map_of (put_all f (p # es) m) i
      = (case map_of es i of Some r \<Rightarrow> Some (f r) | None \<Rightarrow> map_of (alist_put (fst p) (f (snd p)) m) i)"
    by (simp add: put_all_def)
  moreover have "map_of es (fst p) = None" using Cons.prems by (auto simp: map_of_eq_None_iff)
  ultimately show ?case by (cases p) (auto split: option.splits)
qed

lemma distinct_put_all: "distinct (map fst m) \<Longrightarrow> distinct (map fst (put_all f es m))"
  unfolding put_all_def by (induction es arbitrary: m) (simp_all add: distinct_alist_put)

lemma distinct_hits: "distinct (map fst es) \<Longrightarrow> distinct (map fst (hits target es))"
  unfolding hits_def by (induction es) (auto simp: image_iff)

lemma sorted_entries:
  assumes "distinct (map fst m)"
  shows "distinct (map fst (sort_by cmp m))" "set (sort_by cmp m) = set m"
proof -
  have "mset (map fst (sort_by cmp m)) = mset (map fst m)" by simp
  then show "distinct (map fst (sort_by cmp m))" using assms by (metis mset_eq_imp_distinct_iff)
qed simp

section \<open>The loop\<close>

text \<open>The map after the records \<open>affected\<close> of the map \<open>m0\<close> were withdrawn.\<close>

definition after_withdrawal ::
  "record_map \<Rightarrow> string set \<Rightarrow> record_map \<Rightarrow> bool" where
  "after_withdrawal m0 affected m = (distinct (map fst m) \<and> (\<forall>i. case map_of m0 i of
       None \<Rightarrow> map_of m i = None \<and> i \<notin> affected
     | Some r \<Rightarrow> if i \<in> affected
         then is_active r \<and> (\<exists>r'. map_of m i = Some r' \<and> dr_state r' = Withdrawn
           \<and> dr_derivationId r' = dr_derivationId r \<and> recordTokens r' = recordTokens r
           \<and> supportTokens r' = supportTokens r)
         else map_of m i = Some r))"

definition active_keys :: "record_map \<Rightarrow> string set" where
  "active_keys m = {i. \<exists>r. map_of m i = Some r \<and> is_active r}"

definition found :: "record_map \<Rightarrow> string set \<Rightarrow> derived_record set" where
  "found m affected = {r. \<exists>i\<in>affected. map_of m i = Some r}"

definition cascade ::
  "record_map \<Rightarrow> string list \<Rightarrow> string list list \<Rightarrow> string list list \<Rightarrow> record_map \<Rightarrow> string list \<Rightarrow> bool" where
  "cascade m0 T processed queue m affected = (after_withdrawal m0 (set affected) m
     \<and> found m0 (set affected) \<subseteq> dependents (snd ` set m0) (set T)
     \<and> set ` set (processed @ queue) = insert (set T) ((\<lambda>r. set (recordTokens r)) ` found m0 (set affected))
     \<and> (\<forall>t\<in>set processed. \<forall>i r. map_of m i = Some r \<longrightarrow> is_active r \<longrightarrow> set (supportTokens r) \<inter> set t = {}))"

lemma finite_active_keys [simp]: "finite (active_keys m)"
  by (rule finite_subset [OF _ finite_dom_map_of [of m]]) (auto simp: active_keys_def)

lemma after_withdrawal_lookup:
  assumes "after_withdrawal m0 A m" and "map_of m0 i = Some r"
  shows "if i \<in> A
         then is_active r \<and> (\<exists>r'. map_of m i = Some r' \<and> dr_state r' = Withdrawn
           \<and> dr_derivationId r' = dr_derivationId r \<and> recordTokens r' = recordTokens r
           \<and> supportTokens r' = supportTokens r)
         else map_of m i = Some r"
  using assms unfolding after_withdrawal_def by (auto dest!: spec [of _ i])

lemma after_withdrawal_active:
  assumes "after_withdrawal m0 affected m" and "map_of m i = Some r" and "is_active r"
  shows "map_of m0 i = Some r \<and> i \<notin> affected"
proof (cases "map_of m0 i")
  case None
  then show ?thesis using assms by (auto simp: after_withdrawal_def dest: spec [of _ i])
next
  case (Some r0)
  from after_withdrawal_lookup [OF assms(1) this]
  show ?thesis using assms(2,3) Some by (auto simp: is_active_def split: if_splits)
qed

lemma hits_of_map:
  assumes "distinct (map fst m)" and "set es = set m"
  shows "(i, r) \<in> set (hits target es) \<longleftrightarrow>
    map_of m i = Some r \<and> is_active r \<and> set (supportTokens r) \<inter> set target \<noteq> {}"
  using assms by (auto simp: hits_def)

lemma after_pass:
  assumes inv: "after_withdrawal m0 A m" and hs: "distinct (map fst hs)"
    and hit: "\<And>i r. (i, r) \<in> set hs \<Longrightarrow> map_of m i = Some r \<and> is_active r"
  shows "after_withdrawal m0 (A \<union> fst ` set hs) (put_all (withdrawn_record env now reason target) hs m)"
proof -
  let ?m = "put_all (withdrawn_record env now reason target) hs m"
  have d: "distinct (map fst ?m)"
    using inv by (simp add: after_withdrawal_def distinct_put_all)
  have "case map_of m0 i of
       None \<Rightarrow> map_of ?m i = None \<and> i \<notin> A \<union> fst ` set hs
     | Some r \<Rightarrow> if i \<in> A \<union> fst ` set hs
         then is_active r \<and> (\<exists>r'. map_of ?m i = Some r' \<and> dr_state r' = Withdrawn
           \<and> dr_derivationId r' = dr_derivationId r \<and> recordTokens r' = recordTokens r
           \<and> supportTokens r' = supportTokens r)
         else map_of ?m i = Some r" for i
  proof (cases "map_of hs i")
    case None
    then have n: "i \<notin> fst ` set hs" by (simp add: map_of_eq_None_iff)
    have "map_of ?m i = map_of m i" using None by (simp add: map_of_put_all [OF hs])
    then show ?thesis using inv n unfolding after_withdrawal_def by (auto dest!: spec [of _ i] split: option.splits)
  next
    case (Some r)
    then have mem: "(i, r) \<in> set hs" by (rule map_of_SomeD)
    have m0: "map_of m0 i = Some r" and act: "is_active r"
      using after_withdrawal_active [OF inv] hit [OF mem] by blast+
    have "map_of ?m i = Some (withdrawn_record env now reason target r)"
      using Some by (simp add: map_of_put_all [OF hs])
    moreover have "i \<in> fst ` set hs" using mem by force
    ultimately show ?thesis using m0 act by simp
  qed
  with d show ?thesis by (simp add: after_withdrawal_def)
qed

lemma found_hits:
  assumes "after_withdrawal m0 A m" and "\<And>i r. (i, r) \<in> set hs \<Longrightarrow> map_of m i = Some r \<and> is_active r"
  shows "found m0 (A \<union> fst ` set hs) = found m0 A \<union> snd ` set hs"
proof (intro equalityI subsetI)
  fix r assume "r \<in> found m0 (A \<union> fst ` set hs)"
  then obtain i where i: "i \<in> A \<union> fst ` set hs" "map_of m0 i = Some r" by (auto simp: found_def)
  show "r \<in> found m0 A \<union> snd ` set hs"
  proof (cases "i \<in> A")
    case True
    then show ?thesis using i by (auto simp: found_def)
  next
    case False
    then obtain q where "(i, q) \<in> set hs" using i by auto
    moreover from this have "q = r" using after_withdrawal_active [OF assms(1)] assms(2) i(2) by fastforce
    ultimately show ?thesis by force
  qed
next
  fix r assume "r \<in> found m0 A \<union> snd ` set hs"
  then show "r \<in> found m0 (A \<union> fst ` set hs)"
  proof
    assume "r \<in> snd ` set hs"
    then obtain i where i: "(i, r) \<in> set hs" by auto
    then have "map_of m0 i = Some r" using after_withdrawal_active [OF assms(1)] assms(2) by blast
    moreover have "i \<in> fst ` set hs" using i by force
    ultimately show ?thesis by (auto simp: found_def)
  qed (auto simp: found_def)
qed

lemma cascade_skip:
  assumes inv: "cascade m0 T processed (target # queue) m affected"
    and seen: "token_key target \<in> token_key ` set processed"
    and ne: "\<forall>t\<in>set (processed @ target # queue). t \<noteq> [] \<and> bar_free (set t)"
  shows "cascade m0 T processed queue m affected"
proof -
  obtain t where t: "t \<in> set processed" "token_key target = token_key t" using seen by auto
  then have "set target = set t" using ne by (intro token_key_inject) auto
  then have "set ` set (processed @ queue) = set ` set (processed @ target # queue)" using t(1) by auto
  then show ?thesis using inv by (simp add: cascade_def)
qed

lemma cascade_process:
  assumes inv: "cascade m0 T processed (target # queue) m affected" and hs: "hs = hits target es"
    and es: "distinct (map fst es)" "set es = set m"
  shows "cascade m0 T (target # processed) (queue @ map (\<lambda>p. recordTokens (snd p)) hs)
    (put_all (withdrawn_record env now reason target) hs m) (affected @ map fst hs)"
proof -
  let ?m = "put_all (withdrawn_record env now reason target) hs m"
  have aw: "after_withdrawal m0 (set affected) m" using inv by (simp add: cascade_def)
  then have dm: "distinct (map fst m)" by (simp add: after_withdrawal_def)
  have mem: "(i, r) \<in> set hs \<longleftrightarrow> map_of m i = Some r \<and> is_active r \<and> set (supportTokens r) \<inter> set target \<noteq> {}" for i r
    unfolding hs by (rule hits_of_map [OF dm es(2)])
  have dh: "distinct (map fst hs)" unfolding hs by (rule distinct_hits [OF es(1)])
  have keys: "set (affected @ map fst hs) = set affected \<union> fst ` set hs" by simp
  have 1: "after_withdrawal m0 (set (affected @ map fst hs)) ?m"
    unfolding keys by (rule after_pass [OF aw dh]) (simp add: mem)
  have f: "found m0 (set (affected @ map fst hs)) = found m0 (set affected) \<union> snd ` set hs"
    unfolding keys by (rule found_hits [OF aw]) (simp add: mem)
  have target: "set target \<in> insert (set T) ((\<lambda>r. set (recordTokens r)) ` found m0 (set affected))"
    using inv unfolding cascade_def by auto
  have sub: "found m0 (set affected) \<subseteq> dependents (snd ` set m0) (set T)" using inv by (simp add: cascade_def)
  have new: "r \<in> dependents (snd ` set m0) (set T)" if h: "(i, r) \<in> set hs" for i r
  proof -
    have "map_of m0 i = Some r" using after_withdrawal_active [OF aw] h mem by blast
    then have R: "r \<in> snd ` set m0" by (force dest: map_of_SomeD)
    have a: "is_active r" "set (supportTokens r) \<inter> set target \<noteq> {}" using h mem by blast+
    show ?thesis
    proof (cases "set target = set T")
      case True
      then show ?thesis using R a by (intro dependents.direct) simp_all
    next
      case False
      then obtain q where q: "q \<in> found m0 (set affected)" "set target = set (recordTokens q)" using target by auto
      have "q \<in> dependents (snd ` set m0) (set T)" using sub q(1) by blast
      moreover have "set (supportTokens r) \<inter> set (recordTokens q) \<noteq> {}" using a(2) q(2) by simp
      ultimately show ?thesis using R a(1) dependents.further by blast
    qed
  qed
  have 2: "found m0 (set (affected @ map fst hs)) \<subseteq> dependents (snd ` set m0) (set T)"
    unfolding f using sub new by auto
  have 3: "set ` set ((target # processed) @ queue @ map (\<lambda>p. recordTokens (snd p)) hs)
      = insert (set T) ((\<lambda>r. set (recordTokens r)) ` found m0 (set (affected @ map fst hs)))"
  proof -
    have "set ` set (processed @ target # queue) = insert (set T) ((\<lambda>r. set (recordTokens r)) ` found m0 (set affected))"
      using inv by (simp add: cascade_def)
    moreover have "set ` set ((target # processed) @ queue @ map (\<lambda>p. recordTokens (snd p)) hs)
        = set ` set (processed @ target # queue) \<union> (\<lambda>r. set (recordTokens r)) ` snd ` set hs"
      by (auto simp: image_image)
    ultimately show ?thesis unfolding f by (simp add: image_Un)
  qed
  have 4: "set (supportTokens r) \<inter> set t = {}"
    if t: "t \<in> set (target # processed)" and m: "map_of ?m i = Some r" and a: "is_active r" for t i r
  proof -
    have n: "map_of hs i = None"
    proof (rule ccontr)
      assume "map_of hs i \<noteq> None"
      then have "dr_state r = Withdrawn" using m by (auto simp: map_of_put_all [OF dh])
      then show False using a by (simp add: is_active_def)
    qed
    then have mi: "map_of m i = Some r" using m by (simp add: map_of_put_all [OF dh])
    have no_hit: "(i, r) \<notin> set hs" using n by (force simp: map_of_eq_None_iff)
    show ?thesis
    proof (cases "t = target")
      case True
      with no_hit mi a mem show ?thesis by blast
    next
      case False
      then have "t \<in> set processed" using t by simp
      moreover have "\<forall>t\<in>set processed. \<forall>i r. map_of m i = Some r \<longrightarrow> is_active r
          \<longrightarrow> set (supportTokens r) \<inter> set t = {}"
        using inv by (simp add: cascade_def)
      ultimately show ?thesis using mi a by blast
    qed
  qed
  show ?thesis unfolding cascade_def by (intro conjI 1 2 3 ballI allI impI) (rule 4)
qed

lemma active_decreases:
  assumes aw: "after_withdrawal m0 A m" and dh: "distinct (map fst hs)"
    and mem: "\<And>i r. (i, r) \<in> set hs \<Longrightarrow> map_of m i = Some r \<and> is_active r"
  shows "card (active_keys m0 - (A \<union> fst ` set hs)) + length hs = card (active_keys m0 - A)"
proof -
  have sub: "fst ` set hs \<subseteq> active_keys m0 - A"
    using after_withdrawal_active [OF aw] mem unfolding active_keys_def by force
  have "card (fst ` set hs) = length hs" using dh by (metis distinct_card length_map set_map)
  moreover have "card ((active_keys m0 - A) - fst ` set hs) = card (active_keys m0 - A) - card (fst ` set hs)"
    using sub by (intro card_Diff_subset) auto
  moreover have "card (fst ` set hs) \<le> card (active_keys m0 - A)"
    using sub by (intro card_mono) auto
  moreover have "active_keys m0 - (A \<union> fst ` set hs) = (active_keys m0 - A) - fst ` set hs" by auto
  ultimately show ?thesis by simp
qed

lemma cascade_finished:
  assumes inv: "cascade m0 T processed [] m affected" and d: "distinct (map fst m0)"
  shows "found m0 (set affected) = dependents (snd ` set m0) (set T)"
proof -
  have aw: "after_withdrawal m0 (set affected) m" using inv by (simp add: cascade_def)
  have targets: "set ` set processed = insert (set T) ((\<lambda>r. set (recordTokens r)) ` found m0 (set affected))"
    and quiet: "\<And>t i r. t \<in> set processed \<Longrightarrow> map_of m i = Some r \<Longrightarrow> is_active r \<Longrightarrow>
      set (supportTokens r) \<inter> set t = {}"
    using inv by (auto simp: cascade_def)
  have covered: "r \<in> found m0 (set affected)"
    if r: "r \<in> snd ` set m0" "is_active r" and S: "S \<in> set ` set processed" "set (supportTokens r) \<inter> S \<noteq> {}" for r S
  proof (rule ccontr)
    assume n: "r \<notin> found m0 (set affected)"
    obtain i where "(i, r) \<in> set m0" using r(1) by auto
    then have i: "map_of m0 i = Some r" using d by simp
    then have "i \<notin> set affected" using n by (auto simp: found_def)
    then have "map_of m i = Some r" using aw i unfolding after_withdrawal_def by (auto dest!: spec [of _ i])
    then show False using quiet [of _ i r] r(2) S by auto
  qed
  have "dependents (snd ` set m0) (set T) \<subseteq> found m0 (set affected)"
  proof (rule dependents_least)
    show "r \<in> found m0 (set affected)"
      if "r \<in> snd ` set m0" "is_active r" "set (supportTokens r) \<inter> set T \<noteq> {}" for r
      using covered [OF that(1,2), of "set T"] that(3) targets by simp
    show "r \<in> found m0 (set affected)"
      if "q \<in> found m0 (set affected)" "r \<in> snd ` set m0" "is_active r"
        "set (supportTokens r) \<inter> set (recordTokens q) \<noteq> {}" for q r
      using covered [OF that(2,3), of "set (recordTokens q)"] that(1,4) targets by simp
  qed
  then show ?thesis using inv by (intro equalityI) (simp_all add: cascade_def)
qed

lemma recordTokens_nonempty [simp]: "recordTokens r \<noteq> []"
  by (simp add: recordTokens_def tagged_def)

lemma withdraw_loop_returns:
  assumes moment: "isoText env moment ''transition.at'' = Inr now" and reason: "trim reason = reason" "reason \<noteq> []"
    and d: "distinct (map fst m0)"
    and can: "\<forall>r\<in>snd ` set m0. is_active r \<longrightarrow> can_withdraw env now r"
    and bars: "T \<noteq> []" "bar_free (set T)" "\<forall>r\<in>snd ` set m0. bar_free (set (recordTokens r))"
    and inv: "cascade m0 T processed queue m affected"
    and seen: "set seen = token_key ` set processed"
  shows "\<exists>m' affected'. withdraw_loop env moment reason queue seen m affected = Some (Inr (m', affected'))
    \<and> after_withdrawal m0 (set affected') m'
    \<and> found m0 (set affected') = dependents (snd ` set m0) (set T)"
  using inv seen
proof (induction "length queue + card (active_keys m0 - set affected)"
    arbitrary: processed queue m affected seen rule: less_induct)
  case less
  have aw: "after_withdrawal m0 (set affected) m" using less.prems(1) by (simp add: cascade_def)
  show ?case
  proof (cases queue)
    case Nil
    then have "withdraw_loop env moment reason queue seen m affected = Some (Inr (m, affected))"
      by (simp add: withdraw_loop.simps)
    then show ?thesis using cascade_finished less.prems(1) Nil d aw by blast
  next
    case (Cons target rest)
    have ok: "t \<noteq> [] \<and> bar_free (set t)" if "t \<in> set (processed @ queue)" for t
    proof -
      have "set t \<in> insert (set T) ((\<lambda>r. set (recordTokens r)) ` found m0 (set affected))"
        using that less.prems(1) unfolding cascade_def by blast
      moreover have "found m0 (set affected) \<subseteq> snd ` set m0"
        by (force simp: found_def dest: map_of_SomeD)
      ultimately consider "set t = set T" | r where "r \<in> snd ` set m0" "set t = set (recordTokens r)" by blast
      then show ?thesis
      proof cases
        case 1
        then show ?thesis using bars by (metis set_empty)
      next
        case (2 r)
        then show ?thesis using bars(3) recordTokens_nonempty [of r] by (metis set_empty)
      qed
    qed
    show ?thesis
    proof (cases "token_key target \<in> set seen")
      case True
      then have step: "withdraw_loop env moment reason queue seen m affected = withdraw_loop env moment reason rest seen m affected"
        by (subst withdraw_loop.simps) (simp add: Cons)
      have "cascade m0 T processed rest m affected"
      proof (rule cascade_skip)
        show "cascade m0 T processed (target # rest) m affected" using less.prems(1) Cons by simp
        show "token_key target \<in> token_key ` set processed" using True less.prems(2) by simp
        show "\<forall>t\<in>set (processed @ target # rest). t \<noteq> [] \<and> bar_free (set t)" using ok Cons by blast
      qed
      moreover have "length rest + card (active_keys m0 - set affected) < length queue + card (active_keys m0 - set affected)"
        using Cons by simp
      ultimately show ?thesis unfolding step using less.hyps less.prems(2) by blast
    next
      case False
      define es where "es = sort_by (\<lambda>p q. locale_compare env (fst p) (fst q)) m"
      define hs where "hs = hits target es"
      have dm: "distinct (map fst m)" using aw by (simp add: after_withdrawal_def)
      have es: "distinct (map fst es)" "set es = set m" unfolding es_def using sorted_entries [OF dm] by blast+
      have dh: "distinct (map fst hs)" unfolding hs_def by (rule distinct_hits [OF es(1)])
      have mem: "map_of m i = Some r \<and> is_active r" if "(i, r) \<in> set hs" for i r
        using that unfolding hs_def hits_of_map [OF dm es(2)] by blast
      have "can_withdraw env now (snd p)" if "p \<in> set es" "is_active (snd p)" for p
      proof -
        have "(fst p, snd p) \<in> set m" using that(1) es(2) by simp
        then have "map_of m (fst p) = Some (snd p)" using dm by (rule map_of_is_SomeI [rotated])
        then have "map_of m0 (fst p) = Some (snd p)" using after_withdrawal_active [OF aw _ that(2)] by blast
        then have "snd p \<in> snd ` set m0" by (force dest: map_of_SomeD)
        then show ?thesis using can that(2) by blast
      qed
      then have pass: "withdraw_pass env moment reason target es (m, affected, rest) =
         Inr (put_all (withdrawn_record env now reason target) hs m,
           affected @ map fst hs, rest @ map (\<lambda>p. recordTokens (snd p)) hs)"
        unfolding hs_def by (intro withdraw_pass_eq [OF moment reason]) blast
      let ?m = "put_all (withdrawn_record env now reason target) hs m"
      let ?q = "rest @ map (\<lambda>p. recordTokens (snd p)) hs"
      have step: "withdraw_loop env moment reason queue seen m affected
          = withdraw_loop env moment reason ?q (token_key target # seen) ?m (affected @ map fst hs)"
        using False by (subst withdraw_loop.simps) (simp add: Cons pass flip: es_def)
      have "cascade m0 T (target # processed) ?q ?m (affected @ map fst hs)"
        using less.prems(1) Cons by (intro cascade_process [OF _ hs_def es]) simp
      moreover have "set (token_key target # seen) = token_key ` set (target # processed)"
        using less.prems(2) by simp
      moreover have "length ?q + card (active_keys m0 - set (affected @ map fst hs))
          < length queue + card (active_keys m0 - set affected)"
        using active_decreases [OF aw dh mem] Cons by simp
      ultimately show ?thesis unfolding step using less.hyps by blast
    qed
  qed
qed

end
