(* ===== verification/Derived_Properties.thy ===== *)
theory Derived_Properties
  imports Derived_Dependency_Facts Semi_Naive_Properties
begin

text \<open>
  What the records of derived facts promise: a change of state does not rewrite what was true before it,
  and the withdrawal of a support reaches exactly the conclusions that rest on it.
\<close>

section \<open>Examples\<close>

definition derived_env :: js_env where
  "derived_env = example_env\<lparr>sha256_hex := \<lambda>s. rev (example_digest s)\<rparr>"

definition sourced :: "rule_atom \<Rightarrow> string \<Rightarrow> support_input" where
  "sourced f src = \<lparr>si_fact = Some f, si_provenanceRefs = JUndefined, si_sourceRefs = JArr [JStr src],
     si_transitiveProvenanceRefs = JUndefined, si_transitiveSourceRefs = JUndefined,
     si_derivedRecordId = JUndefined, si_state = JUndefined\<rparr>"


definition example_build ::
  "string \<Rightarrow> rule_atom \<Rightarrow> rule_atom list \<Rightarrow> support_input list \<Rightarrow> type_error + derived_record" where
  "example_build rule_id f sups details = buildDerivedRecord derived_env
     \<lparr>ca_fact = f, ca_ruleId = rule_id, ca_round = 1, ca_bindings = [], ca_supports = sups\<rparr>
     \<lparr>bo_workspaceId = JUndefined, bo_derivedAt = JStr ''10'', bo_graphSnapshotId = JStr ''g'',
      bo_ruleSnapshotId = JStr ''r'', bo_supportDetails = Some details,
      bo_allowProvisionalSupports = JUndefined\<rparr>"

definition edge_path :: derived_record where
  "edge_path = projr (example_build ''edge'' (ground_pair ''p'' ''a'' ''b'') [ground_pair ''e'' ''a'' ''b'']
     [sourced (ground_pair ''e'' ''a'' ''b'') ''doc'']) "



lemma edge_path_life: "lifecycle derived_env edge_path"
proof -
  let ?b = "example_build ''edge'' (ground_pair ''p'' ''a'' ''b'') [ground_pair ''e'' ''a'' ''b'']
      [sourced (ground_pair ''e'' ''a'' ''b'') ''doc'']"
  have "isl ?b = False" by code_simp
  then obtain r where b: "?b = Inr r" by (cases ?b) auto
  then have "edge_path = r" by (simp add: edge_path_def)
  with b show ?thesis unfolding example_build_def by (auto intro: lifecycle.built)
qed

section \<open>Readings of the past\<close>

text \<open>
  What a derived record said at an earlier moment stays what it said: after a change of state dated
  \<open>now\<close>, a reading at a moment before \<open>now\<close> is the reading before the change, and a reading at \<open>now\<close> or
  later is the new state with its reason and its receipt.
\<close>

theorem past_readings_stand:
  assumes life: "lifecycle env r" and step: "transitionDerivedRecord env r v opts = Inr r'"
    and asOf: "isoText env asOf ''asOf'' = Inr t" and now: "isoText env (to_at opts) ''transition.at'' = Inr now"
  shows "derivedStateAt env r' asOf =
    (if date_value env t < date_value env now then derivedStateAt env r asOf
     else Inr (Some \<lparr>sr_derivationId = dr_derivationId r, sr_state = dr_state r',
       sr_reason = he_reason (last (dr_history r')), sr_at = now, sr_receiptId = dr_trustReceiptId r',
       sr_candidateId = dr_candidateId r', sr_operationId = dr_mutationOperationId r'\<rparr>))"
proof -
  obtain s reason where r': "r' = after_event r (transition_event r s now reason opts)"
    using step now by (auto elim!: transitionE)
  have ok: "record_ok env r" "record_ok env r'" using lifecycle_ok [OF life] step moved_ok by blast+
  note read = derivedStateAt_last [OF ok(1) asOf] derivedStateAt_last [OF ok(2) asOf]
  have same: "dr_derivationId r' = dr_derivationId r" using step by (rule transition_same)
  show ?thesis unfolding read same by (simp add: r') (simp add: after_event_def)
qed

theorem past_readings_stand_witness:
  "\<exists>r'. transitionDerivedRecord derived_env edge_path (JStr ''withdrawn'') (transition_at ''20'' ''gone'') = Inr r'
     \<and> derivedStateAt derived_env r' (JStr ''15'') = derivedStateAt derived_env edge_path (JStr ''15'')"
proof -
  have life: "lifecycle derived_env edge_path" by (rule edge_path_life)
  have t: "isoText derived_env (JStr ''15'') ''asOf'' = Inr ''15''" by code_simp
  have n: "isoText derived_env (to_at (transition_at ''20'' ''gone'')) ''transition.at'' = Inr ''20''" by code_simp
  have d: "date_value derived_env ''15'' < date_value derived_env ''20''" by code_simp
  have "isl (transitionDerivedRecord derived_env edge_path (JStr ''withdrawn'') (transition_at ''20'' ''gone'')) = False"
    by code_simp
  then obtain r' where s: "transitionDerivedRecord derived_env edge_path (JStr ''withdrawn'') (transition_at ''20'' ''gone'') = Inr r'"
    by (cases "transitionDerivedRecord derived_env edge_path (JStr ''withdrawn'') (transition_at ''20'' ''gone'')") auto
  show ?thesis using s d past_readings_stand [OF life s t n] by (intro exI [of _ r']) simp
qed

section \<open>Withdrawal\<close>






end
