(* ===== verification/Belief_Values.thy ===== *)
theory Belief_Values
  imports Derived_Record
begin

text \<open>
  The observations that calibrate a rule (\<open>src/lib/inference-belief-revision-values.js\<close>): reading effect
  evidence, counter evidence and prediction pairs, classifying a pair, and collecting the observations that
  share a source event into groups, with the code's union-find over an array of parents.  The two loops
  of \<open>find\<close> end because of the order of the parents, so they are partial functions; \<open>Belief_Groups\<close> shows
  that they return.  A thrown \<open>TypeError\<close> is its message.
\<close>

section \<open>Names and limits\<close>

definition RULE_BELIEF_SCHEMA_VERSION :: string where
  "RULE_BELIEF_SCHEMA_VERSION = ''huqan.rule-belief.v1''"

definition DERIVED_BELIEF_SCHEMA_VERSION :: string where
  "DERIVED_BELIEF_SCHEMA_VERSION = ''huqan.derived-belief.v1''"

datatype calibration_status = Insufficient | Calibrated | Degraded | Defeated | Invalid_belief

fun calibration_name :: "calibration_status \<Rightarrow> string" where
  "calibration_name Insufficient = ''insufficient''"
| "calibration_name Calibrated = ''calibrated''"
| "calibration_name Degraded = ''degraded''"
| "calibration_name Defeated = ''defeated''"
| "calibration_name Invalid_belief = ''invalid''"

datatype effect_kind = Observed | Reported | Unknown_effect

fun effect_name :: "effect_kind \<Rightarrow> string" where
  "effect_name Observed = ''observed''"
| "effect_name Reported = ''reported''"
| "effect_name Unknown_effect = ''unknown''"

definition effect_of_name :: "string \<Rightarrow> effect_kind option" where
  "effect_of_name s = find (\<lambda>k. effect_name k = s) [Observed, Reported, Unknown_effect]"

definition SUPPORT_INVALIDATION :: string where
  "SUPPORT_INVALIDATION = ''support_invalidation''"

definition ADVERSE_OUTCOMES :: "string list" where
  "ADVERSE_OUTCOMES = [''reviewer-rejection'', ''rollback'', ''compensation'', ''contradiction'', ''incident'']"

definition POSITIVE_OUTCOMES :: "string list" where
  "POSITIVE_OUTCOMES = [''confirmed'']"

definition DEFAULT_MIN_SAMPLES :: nat where "DEFAULT_MIN_SAMPLES = 5"
definition DEFAULT_DEFEAT_BELOW :: rat where "DEFAULT_DEFEAT_BELOW = 1 / 4"
definition DEFAULT_MATERIAL_DELTA :: rat where "DEFAULT_MATERIAL_DELTA = 1 / 10"

section \<open>Checks\<close>

definition boundedConfidence :: "jsval \<Rightarrow> string \<Rightarrow> type_error + rat" where
  "boundedConfidence v label = (case v of
       JNum r \<Rightarrow> if r < 0 \<or> r > 1 then Inl (label @ '' must be a number between 0 and 1'') else Inr r
     | _ \<Rightarrow> Inl (label @ '' must be a number between 0 and 1''))"

definition boundedPositiveInteger :: "jsval \<Rightarrow> nat \<Rightarrow> string \<Rightarrow> type_error + nat" where
  "boundedPositiveInteger v fallback label =
     (if v = JUndefined then Inr fallback
      else if \<not> is_integer v \<or> num_of v < 1 then Inl (label @ '' must be an integer >= 1'')
      else Inr (nat \<lfloor>num_of v\<rfloor>))"

definition beliefTimestamp :: "js_env \<Rightarrow> jsval \<Rightarrow> string \<Rightarrow> type_error + string" where
  "beliefTimestamp env v label =
     bind_result (nonEmpty v label) (\<lambda>s. case date_parse env s of
         None \<Rightarrow> Inl (label @ '' must be an ISO timestamp'')
       | Some t \<Rightarrow> Inr (iso_at env t))"

definition uniqueStringsOrNone :: "jsval \<Rightarrow> string \<Rightarrow> type_error + string list" where
  "uniqueStringsOrNone v label = sortedUniqueStrings (if v = JNull then JUndefined else v) label"

section \<open>Observations\<close>

datatype evidence_origin = Origin_pair | Origin_counter

record observation =
  ob_origin :: evidence_origin
  ob_evidenceId :: string
  ob_decisionId :: string
  ob_counted :: bool
  ob_success :: bool
  ob_adverse :: bool
  ob_effectKind :: effect_kind
  ob_sourceEventRefs :: "string list"
  ob_reason :: string

record effect =
  ef_kind :: effect_kind
  ef_sourceEventRefs :: "string list"

type_synonym effect_map = "(string \<times> effect) list"

definition kind_text :: "js_env \<Rightarrow> jsval \<Rightarrow> string" where
  "kind_text env v = trim (js_string env (or_else v (JStr [])))"

fun effect_entries :: "js_env \<Rightarrow> jsval list \<Rightarrow> effect_map \<Rightarrow> type_error + effect_map" where
  "effect_entries env [] m = Inr m"
| "effect_entries env (e # es) m =
     (if \<not> is_object e then Inl ''effect evidence entries must be objects''
      else bind_result (nonEmpty (jget e ''decisionId'') ''effectEvidence.decisionId'') (\<lambda>d.
        case effect_of_name (kind_text env (jget e ''kind'')) of
          None \<Rightarrow> Inl ''effectEvidence.kind must be observed, reported or unknown''
        | Some k \<Rightarrow>
            if map_of m d \<noteq> None then Inl (''duplicate effect evidence for '' @ d)
            else bind_result (uniqueStringsOrNone (jget e ''sourceEventRefs'') ''effectEvidence.sourceEventRefs'') (\<lambda>refs.
              effect_entries env es (alist_put d \<lparr>ef_kind = k, ef_sourceEventRefs = refs\<rparr> m))))"

definition normalizeEffectEvidence :: "js_env \<Rightarrow> jsval \<Rightarrow> type_error + effect_map" where
  "normalizeEffectEvidence env v = (case v of
       JArr es \<Rightarrow> effect_entries env es []
     | _ \<Rightarrow> if is_nullish v then Inr [] else Inl ''effectEvidence must be an array'')"

definition counter_entry :: "js_env \<Rightarrow> string \<Rightarrow> jsval \<Rightarrow> type_error + observation list" where
  "counter_entry env ruleId e =
     (if \<not> is_object e then Inl ''counter evidence entries must be objects''
      else bind_result (nonEmpty (jget e ''evidenceId'') ''counterEvidence.evidenceId'') (\<lambda>evidenceId.
        bind_result (nonEmpty (jget e ''ruleId'') ''counterEvidence.ruleId'') (\<lambda>entryRuleId.
        bind_result (nonEmpty (jget e ''decisionId'') ''counterEvidence.decisionId'') (\<lambda>decisionId.
        let kind = kind_text env (jget e ''kind'') in
        if kind \<noteq> SUPPORT_INVALIDATION then Inl ''counterEvidence.kind is unsupported''
        else bind_result (uniqueStringsOrNone (jget e ''sourceEventRefs'') ''counterEvidence.sourceEventRefs'') (\<lambda>refs.
          if refs = [] then Inl ''counterEvidence.sourceEventRefs must identify the source event''
          else if entryRuleId \<noteq> ruleId then Inr []
          else Inr [\<lparr>ob_origin = Origin_counter, ob_evidenceId = ''counter:'' @ evidenceId,
            ob_decisionId = decisionId, ob_counted = True, ob_success = False, ob_adverse = True,
            ob_effectKind = Observed, ob_sourceEventRefs = refs, ob_reason = ''observed_'' @ kind\<rparr>])))))"

definition by_evidence_id :: "js_env \<Rightarrow> observation list \<Rightarrow> observation list" where
  "by_evidence_id env = sort_by (\<lambda>l r. locale_compare env (ob_evidenceId l) (ob_evidenceId r))"

definition normalizeCounterEvidence :: "js_env \<Rightarrow> jsval \<Rightarrow> string \<Rightarrow> type_error + observation list" where
  "normalizeCounterEvidence env v ruleId = (case v of
       JArr es \<Rightarrow> bind_result (map_result (counter_entry env ruleId) es) (\<lambda>obs. Inr (by_evidence_id env (concat obs)))
     | _ \<Rightarrow> if is_nullish v then Inr [] else Inl ''counterEvidence must be an array'')"

definition decision_id :: "jsval \<Rightarrow> string" where
  "decision_id pair = (case jget pair ''decisionId'' of JStr s \<Rightarrow> s | _ \<Rightarrow> [])"

definition normalizePairs :: "js_env \<Rightarrow> jsval \<Rightarrow> type_error + jsval list" where
  "normalizePairs env v = (case v of
       JObj fs \<Rightarrow> Inr (sort_by (\<lambda>l r. locale_compare env (decision_id l) (decision_id r))
         (filter (\<lambda>p. is_object p \<and> is_string (jget p ''decisionId'')) (map snd (own_order fs))))
     | _ \<Rightarrow> Inl ''pairs must be an object keyed by decisionId'')"

definition selectRulePairs :: "jsval list \<Rightarrow> string \<Rightarrow> jsval \<Rightarrow> jsval list" where
  "selectRulePairs pairs ruleId actionClass =
     (let expected = or_else actionClass (JStr (''inference-rule:'' @ ruleId)) in
      filter (\<lambda>p. truthy (jget p ''prediction'') \<and> strict_eq (jget (jget p ''prediction'') ''actionClass'') expected) pairs)"

definition outcome_state :: "jsval \<Rightarrow> string" where
  "outcome_state pair = (case jget (jget pair ''outcome'') ''state'' of JStr s \<Rightarrow> s | _ \<Rightarrow> [])"

definition classifyPair :: "effect_map \<Rightarrow> jsval \<Rightarrow> observation" where
  "classifyPair effects pair =
     (let outcome = outcome_state pair; d = decision_id pair;
          effect = (case map_of effects d of Some e \<Rightarrow> e
            | None \<Rightarrow> \<lparr>ef_kind = Unknown_effect, ef_sourceEventRefs = []\<rparr>);
          observation = (\<lambda>counted success adverse reason. \<lparr>ob_origin = Origin_pair,
            ob_evidenceId = ''decision:'' @ d, ob_decisionId = d, ob_counted = counted, ob_success = success,
            ob_adverse = adverse, ob_effectKind = ef_kind effect, ob_sourceEventRefs = ef_sourceEventRefs effect,
            ob_reason = reason\<rparr>) in
      if outcome = [] then observation False False False ''outcome_missing''
      else if outcome = ''censored'' then observation False False False ''outcome_censored''
      else if ef_kind effect \<noteq> Observed then observation False False False
        (if ef_kind effect = Reported then ''reported_effect_not_observed'' else ''effect_not_observed'')
      else if outcome \<in> set POSITIVE_OUTCOMES then observation True True False ''observed_confirmation''
      else if outcome \<in> set ADVERSE_OUTCOMES then observation True False True (''observed_'' @ outcome)
      else observation False False False ''outcome_not_calibration_authority'')"

section \<open>Independent groups\<close>

partial_function (option) find_root :: "nat list \<Rightarrow> nat \<Rightarrow> nat option" where
  "find_root parent current =
     (if parent ! current = current then Some current else find_root parent (parent ! current))"

partial_function (option) compress :: "nat list \<Rightarrow> nat \<Rightarrow> nat \<Rightarrow> nat list option" where
  "compress parent index current =
     (if parent ! index = index then Some parent
      else compress (parent[index := current]) (parent ! index) current)"

declare find_root.simps [code] compress.simps [code]

definition find_set :: "nat list \<Rightarrow> nat \<Rightarrow> (nat \<times> nat list) option" where
  "find_set parent index = Option.bind (find_root parent index) (\<lambda>current.
     Option.bind (compress parent index current) (\<lambda>parent'. Some (current, parent')))"

definition union_sets :: "nat list \<Rightarrow> nat \<Rightarrow> nat \<Rightarrow> nat list option" where
  "union_sets parent left right =
     Option.bind (find_set parent left) (\<lambda>(l, parent1).
     Option.bind (find_set parent1 right) (\<lambda>(r, parent2).
       Some (if l \<noteq> r then parent2[max l r := min l r] else parent2)))"

definition event_refs :: "observation \<Rightarrow> string list" where
  "event_refs item = (if ob_sourceEventRefs item \<noteq> [] then ob_sourceEventRefs item
     else [''evidence:'' @ ob_evidenceId item])"

type_synonym owner_map = "(string \<times> nat) list"

fun claim_refs :: "nat \<Rightarrow> string list \<Rightarrow> nat list \<Rightarrow> owner_map \<Rightarrow> (nat list \<times> owner_map) option" where
  "claim_refs index [] parent owner = Some (parent, owner)"
| "claim_refs index (ref # refs) parent owner = (case map_of owner ref of
       Some other \<Rightarrow> Option.bind (union_sets parent index other) (\<lambda>parent'. claim_refs index refs parent' owner)
     | None \<Rightarrow> claim_refs index refs parent (alist_put ref index owner))"

fun link_items :: "(nat \<times> observation) list \<Rightarrow> nat list \<Rightarrow> owner_map \<Rightarrow> (nat list \<times> owner_map) option" where
  "link_items [] parent owner = Some (parent, owner)"
| "link_items ((index, item) # items) parent owner =
     Option.bind (claim_refs index (event_refs item) parent owner) (\<lambda>(parent', owner').
       link_items items parent' owner')"

fun group_items ::
  "(nat \<times> observation) list \<Rightarrow> nat list \<Rightarrow> (nat \<times> observation list) list \<Rightarrow> (nat \<times> observation list) list option" where
  "group_items [] parent grouped = Some grouped"
| "group_items ((index, item) # items) parent grouped =
     Option.bind (find_set parent index) (\<lambda>(root, parent').
       group_items items parent' (alist_put root
         ((case map_of grouped root of Some members \<Rightarrow> members | None \<Rightarrow> []) @ [item]) grouped))"

definition observation_partition :: "js_env \<Rightarrow> observation list \<Rightarrow> observation list list option" where
  "observation_partition env observations =
     (let items = by_evidence_id env (filter ob_counted observations) in
      Option.bind (link_items (enumerate 0 items) [0..<length items] []) (\<lambda>(parent, owner).
        map_option (map snd) (group_items (enumerate 0 items) parent [])))"

record observation_group =
  og_representativeDecisionId :: string
  og_memberEvidenceIds :: "string list"
  og_pairDecisionIds :: "string list"
  og_correlatedDecisionIds :: "string list"
  og_sourceEventRefs :: "string list"
  og_success :: bool
  og_adverse :: bool

definition summarize_group :: "js_env \<Rightarrow> observation list \<Rightarrow> observation_group" where
  "summarize_group env members =
     (let sorted_members = by_evidence_id env members;
          pairIds = sort (remdups (map ob_decisionId (filter (\<lambda>i. ob_origin i = Origin_pair) sorted_members)));
          adverse = list_ex ob_adverse sorted_members in
      \<lparr>og_representativeDecisionId =
         (if pairIds \<noteq> [] \<and> hd pairIds \<noteq> [] then hd pairIds else ob_decisionId (hd sorted_members)),
       og_memberEvidenceIds = map ob_evidenceId sorted_members,
       og_pairDecisionIds = pairIds,
       og_correlatedDecisionIds = tl pairIds,
       og_sourceEventRefs = sort (remdups (concat (map ob_sourceEventRefs sorted_members))),
       og_success = (\<not> adverse \<and> list_ex ob_success sorted_members),
       og_adverse = adverse\<rparr>)"

definition independentObservationGroups :: "js_env \<Rightarrow> observation list \<Rightarrow> observation_group list option" where
  "independentObservationGroups env observations =
     map_option (\<lambda>ms. sort_by (\<lambda>l r. locale_compare env (hd (og_memberEvidenceIds l)) (hd (og_memberEvidenceIds r)))
       (map (summarize_group env) ms)) (observation_partition env observations)"

definition posteriorMean :: "nat \<Rightarrow> nat \<Rightarrow> rat" where
  "posteriorMean successes failures = (of_nat successes + 1) / (of_nat successes + of_nat failures + 2)"

definition previousSystemConfidence :: "jsval \<Rightarrow> type_error + rat option" where
  "previousSystemConfidence previous =
     (if \<not> truthy previous then Inr None
      else if jget previous ''schemaVersion'' \<noteq> JStr RULE_BELIEF_SCHEMA_VERSION
          \<or> (case jget previous ''systemConfidence'' of JNum r \<Rightarrow> False | _ \<Rightarrow> True)
        then Inl ''previous rule belief state is invalid''
      else bind_result (boundedConfidence (jget previous ''systemConfidence'') ''previous.systemConfidence'')
        (\<lambda>c. Inr (Some c)))"

definition belief_blocks :: "jsval \<Rightarrow> bool" where
  "belief_blocks b = (jget b ''status'' \<in> {JStr ''defeated'', JStr ''degraded'', JStr ''invalid''}
     \<or> (case (jget b ''systemConfidence'', jget b ''declaredConfidence'') of
          (JNum s, JNum d) \<Rightarrow> s < d
        | _ \<Rightarrow> False))"

definition ruleAdmissionBlocked :: "jsval \<Rightarrow> string \<Rightarrow> bool" where
  "ruleAdmissionBlocked beliefs ruleId = (case beliefs of
       JArr bs \<Rightarrow> list_ex belief_blocks (filter (\<lambda>b. truthy b \<and> jget b ''ruleId'' = JStr ruleId) bs)
     | _ \<Rightarrow> False)"

end
