(* ===== verification/Belief_Revision.thy ===== *)
theory Belief_Revision
  imports Belief_Values
begin

text \<open>
  Calibration of rules and revision of the beliefs in derived facts
  (\<open>src/lib/inference-belief-revision.js\<close>).  The state of a rule is the record \<open>rule_belief\<close>;
  \<open>rule_belief_json\<close> is the object the code builds, which comes back later as \<open>previous\<close>.  History entries
  are values, since the entries of a previous state are taken over unread.  Numbers are exact:
  \<open>fixed6\<close> is \<open>Number(x.toFixed(6))\<close> of an exact number.
\<close>

section \<open>Numbers\<close>

definition fixed6 :: "rat \<Rightarrow> rat" where
  "fixed6 x = (if x < 0 then - (of_int \<lfloor>- x * 1000000 + 1 / 2\<rfloor> / 1000000)
     else of_int \<lfloor>x * 1000000 + 1 / 2\<rfloor> / 1000000)"

fun rat_json :: "rat option \<Rightarrow> jsval" where
  "rat_json None = JNull"
| "rat_json (Some r) = JNum r"

section \<open>Calibration\<close>

record rule_belief =
  rb_ruleId :: string
  rb_status :: calibration_status
  rb_reason :: string
  rb_declaredConfidence :: "rat option"
  rb_calibratedConfidence :: "rat option"
  rb_systemConfidence :: "rat option"
  rb_observedSamples :: nat
  rb_observedSuccesses :: nat
  rb_observedFailures :: nat
  rb_countedDecisionIds :: "string list"
  rb_correlatedDecisionIds :: "string list"
  rb_ignoredDecisionIds :: "string list"
  rb_history :: "jsval list"

definition strings_json :: "string list \<Rightarrow> jsval" where
  "strings_json ss = JArr (map JStr ss)"

definition rule_belief_json :: "rule_belief \<Rightarrow> jsval" where
  "rule_belief_json b = JObj [(''schemaVersion'', JStr RULE_BELIEF_SCHEMA_VERSION),
     (''ruleId'', JStr (rb_ruleId b)), (''status'', JStr (calibration_name (rb_status b))),
     (''reason'', JStr (rb_reason b)), (''declaredConfidence'', rat_json (rb_declaredConfidence b)),
     (''calibratedConfidence'', rat_json (rb_calibratedConfidence b)),
     (''systemConfidence'', rat_json (rb_systemConfidence b)),
     (''observedSamples'', JNum (of_nat (rb_observedSamples b))),
     (''observedSuccesses'', JNum (of_nat (rb_observedSuccesses b))),
     (''observedFailures'', JNum (of_nat (rb_observedFailures b))),
     (''countedDecisionIds'', strings_json (rb_countedDecisionIds b)),
     (''correlatedDecisionIds'', strings_json (rb_correlatedDecisionIds b)),
     (''ignoredDecisionIds'', strings_json (rb_ignoredDecisionIds b)),
     (''history'', JArr (rb_history b))]"

definition invalidRuleBelief :: "jsval \<Rightarrow> type_error \<Rightarrow> rule_belief" where
  "invalidRuleBelief input message =
     \<lparr>rb_ruleId = (case jget input ''ruleId'' of JStr s \<Rightarrow> s | _ \<Rightarrow> []), rb_status = Invalid_belief,
      rb_reason = (if message = [] then ''invalid_input'' else message), rb_declaredConfidence = None,
      rb_calibratedConfidence = None, rb_systemConfidence = None, rb_observedSamples = 0,
      rb_observedSuccesses = 0, rb_observedFailures = 0, rb_countedDecisionIds = [],
      rb_correlatedDecisionIds = [], rb_ignoredDecisionIds = [], rb_history = []\<rparr>"

record calibration_input =
  ci_ruleId :: string
  ci_declaredConfidence :: rat
  ci_pairs :: "jsval list"
  ci_effectEvidence :: effect_map
  ci_counterEvidence :: "observation list"
  ci_at :: string
  ci_minSamples :: nat
  ci_defeatBelow :: rat
  ci_materialDelta :: rat
  ci_previousConfidence :: "rat option"

definition confidence_option :: "jsval \<Rightarrow> rat \<Rightarrow> string \<Rightarrow> type_error + rat" where
  "confidence_option v d label = boundedConfidence (if v = JUndefined then JNum d else v) label"

definition readCalibration :: "js_env \<Rightarrow> jsval \<Rightarrow> jsval \<Rightarrow> type_error + calibration_input" where
  "readCalibration env input opts =
     bind_result (nonEmpty (jget input ''ruleId'') ''ruleId'') (\<lambda>ruleId.
     bind_result (boundedConfidence (jget input ''declaredConfidence'') ''declaredConfidence'') (\<lambda>declared.
     bind_result (normalizePairs env (or_else (jget input ''pairs'') (JObj []))) (\<lambda>pairs.
     bind_result (normalizeEffectEvidence env (or_else (jget input ''effectEvidence'') (JArr []))) (\<lambda>effects.
     bind_result (normalizeCounterEvidence env (or_else (jget input ''counterEvidence'') (JArr [])) ruleId) (\<lambda>counters.
     bind_result (beliefTimestamp env (jget input ''at'') ''at'') (\<lambda>moment.
     bind_result (boundedPositiveInteger (jget opts ''minSamples'') DEFAULT_MIN_SAMPLES ''minSamples'') (\<lambda>minSamples.
     bind_result (confidence_option (jget opts ''defeatBelow'') DEFAULT_DEFEAT_BELOW ''defeatBelow'') (\<lambda>defeatBelow.
     bind_result (confidence_option (jget opts ''materialDelta'') DEFAULT_MATERIAL_DELTA ''materialDelta'') (\<lambda>materialDelta.
     bind_result (previousSystemConfidence (or_else (jget input ''previous'') JNull)) (\<lambda>previous.
       Inr \<lparr>ci_ruleId = ruleId, ci_declaredConfidence = declared, ci_pairs = pairs, ci_effectEvidence = effects,
         ci_counterEvidence = counters, ci_at = moment, ci_minSamples = minSamples, ci_defeatBelow = defeatBelow,
         ci_materialDelta = materialDelta, ci_previousConfidence = previous\<rparr>))))))))))"

record verdict =
  ve_status :: calibration_status
  ve_reason :: string
  ve_calibratedConfidence :: "rat option"
  ve_systemConfidence :: rat

definition base_confidence :: "calibration_input \<Rightarrow> rat" where
  "base_confidence c = (case ci_previousConfidence c of None \<Rightarrow> ci_declaredConfidence c | Some p \<Rightarrow> p)"

definition calibrated_verdict :: "calibration_input \<Rightarrow> bool \<Rightarrow> nat \<Rightarrow> nat \<Rightarrow> nat \<Rightarrow> verdict" where
  "calibrated_verdict c allowLoosening samples successes failures =
     (let base = base_confidence c in
      if samples < ci_minSamples c
      then \<lparr>ve_status = Insufficient, ve_reason = ''minimum_observed_samples_not_met'',
        ve_calibratedConfidence = None, ve_systemConfidence = base\<rparr>
      else
        let calibrated = posteriorMean successes failures;
            candidate_confidence = (if allowLoosening then calibrated
              else min base (min calibrated (ci_declaredConfidence c)));
            system = fixed6 candidate_confidence;
            drop = fixed6 (base - system);
            (status, reason) =
              (if system < ci_defeatBelow c then (Defeated, ''rule_belief_below_defeat_threshold'')
               else if drop \<ge> ci_materialDelta c then (Degraded, ''material_rule_belief_downgrade'')
               else (Calibrated, ''observed_outcomes_calibrated'')) in
        \<lparr>ve_status = status, ve_reason = reason, ve_calibratedConfidence = Some calibrated,
         ve_systemConfidence = system\<rparr>)"

definition rule_history_event ::
  "calibration_input \<Rightarrow> verdict \<Rightarrow> nat \<Rightarrow> nat \<Rightarrow> nat \<Rightarrow> nat \<Rightarrow> jsval" where
  "rule_history_event c v samples successes failures correlated =
     JObj [(''at'', JStr (ci_at c)), (''status'', JStr (calibration_name (ve_status v))),
       (''declaredConfidence'', JNum (ci_declaredConfidence c)),
       (''calibratedConfidence'', rat_json (ve_calibratedConfidence v)),
       (''systemConfidence'', JNum (ve_systemConfidence v)),
       (''observedSamples'', JNum (of_nat samples)), (''observedSuccesses'', JNum (of_nat successes)),
       (''observedFailures'', JNum (of_nat failures)), (''correlatedSamples'', JNum (of_nat correlated)),
       (''reason'', JStr (ve_reason v))]"

definition prior_history :: "jsval \<Rightarrow> jsval list" where
  "prior_history previous = (case jget previous ''history'' of JArr es \<Rightarrow> es | _ \<Rightarrow> [])"

definition calibrate_checked :: "js_env \<Rightarrow> calibration_input \<Rightarrow> jsval \<Rightarrow> jsval \<Rightarrow> rule_belief option" where
  "calibrate_checked env c input opts =
     (let selected = selectRulePairs (ci_pairs c) (ci_ruleId c) (jget opts ''actionClass'');
          classified = map (classifyPair (ci_effectEvidence c)) selected in
      map_option (\<lambda>groups.
        let successes = length (filter og_success groups);
            failures = length (filter og_adverse groups);
            samples = length groups;
            counted = sort (remdups (map og_representativeDecisionId groups));
            correlated = sort (remdups (concat (map og_correlatedDecisionIds groups)));
            ignored = sort (remdups (map ob_decisionId (filter (\<lambda>i. \<not> ob_counted i) classified) @ correlated));
            v = calibrated_verdict c (jget opts ''allowLoosening'' = JBool True) samples successes failures in
        \<lparr>rb_ruleId = ci_ruleId c, rb_status = ve_status v, rb_reason = ve_reason v,
         rb_declaredConfidence = Some (ci_declaredConfidence c),
         rb_calibratedConfidence = ve_calibratedConfidence v, rb_systemConfidence = Some (ve_systemConfidence v),
         rb_observedSamples = samples, rb_observedSuccesses = successes, rb_observedFailures = failures,
         rb_countedDecisionIds = counted, rb_correlatedDecisionIds = correlated, rb_ignoredDecisionIds = ignored,
         rb_history = prior_history (jget input ''previous'')
           @ [rule_history_event c v samples successes failures (length correlated)]\<rparr>)
      (independentObservationGroups env (filter ob_counted classified @ ci_counterEvidence c)))"

definition calibrateRuleBelief :: "js_env \<Rightarrow> jsval \<Rightarrow> jsval \<Rightarrow> rule_belief option" where
  "calibrateRuleBelief env input opts = (case readCalibration env input opts of
       Inl message \<Rightarrow> Some (invalidRuleBelief input message)
     | Inr c \<Rightarrow> calibrate_checked env c input opts)"

text \<open>The pairs are those the store holds; \<open>pairs\<close> is what \<open>readPredictionPairs\<close> returned.\<close>

definition calibrateRuleBeliefFromStore :: "js_env \<Rightarrow> jsval \<Rightarrow> jsval \<Rightarrow> jsval \<Rightarrow> rule_belief option" where
  "calibrateRuleBeliefFromStore env pairs input opts =
     calibrateRuleBelief env (JObj (put_field ''pairs'' pairs (own_fields input))) opts"

section \<open>Readings of a belief\<close>

definition event_date :: "js_env \<Rightarrow> jsval \<Rightarrow> int option" where
  "event_date env e = date_parse env (js_string env (jget e ''at''))"

definition latest_event :: "js_env \<Rightarrow> jsval list \<Rightarrow> int \<Rightarrow> jsval option" where
  "latest_event env history boundary =
     (let events = sort_by (\<lambda>l r. the (event_date env l) - the (event_date env r))
        (filter (\<lambda>e. case event_date env e of Some t \<Rightarrow> t \<le> boundary | None \<Rightarrow> False) history) in
      if events = [] then None else Some (last events))"

definition belief_at :: "js_env \<Rightarrow> string \<Rightarrow> type_error \<Rightarrow> jsval \<Rightarrow> jsval \<Rightarrow> type_error + jsval option" where
  "belief_at env schema message state asOf =
     (if \<not> truthy state \<or> jget state ''schemaVersion'' \<noteq> JStr schema then Inl message
      else bind_result (beliefTimestamp env asOf ''asOf'') (\<lambda>t.
        Inr (latest_event env (prior_history state) (date_value env t))))"

definition ruleBeliefAt :: "js_env \<Rightarrow> jsval \<Rightarrow> jsval \<Rightarrow> type_error + jsval option" where
  "ruleBeliefAt env = belief_at env RULE_BELIEF_SCHEMA_VERSION ''valid rule belief state is required''"

definition derivedBeliefAt :: "js_env \<Rightarrow> jsval \<Rightarrow> jsval \<Rightarrow> type_error + jsval option" where
  "derivedBeliefAt env = belief_at env DERIVED_BELIEF_SCHEMA_VERSION ''valid derived belief state is required''"

section \<open>Beliefs in derived facts\<close>

definition derivedBeliefStatus ::
  "rule_belief \<Rightarrow> derived_state \<Rightarrow> jsval \<Rightarrow> jsval \<Rightarrow> type_error + string" where
  "derivedBeliefStatus b recordState previousConfidence materialDelta =
     (if recordState = Withdrawn then Inr ''withdrawn''
      else if recordState = Contradicted then Inr ''defeated''
      else if rb_status b = Defeated then Inr ''defeated''
      else bind_result (case previousConfidence of
            JNum p \<Rightarrow> bind_result (boundedConfidence (JNum p) ''previousConfidence'') (\<lambda>p. Inr (Some p))
          | _ \<Rightarrow> Inr None) (\<lambda>prior.
        bind_result (confidence_option materialDelta DEFAULT_MATERIAL_DELTA ''materialDelta'') (\<lambda>delta.
          let system = (case rb_systemConfidence b of Some s \<Rightarrow> s | None \<Rightarrow> 0) in
          if (case prior of Some p \<Rightarrow> p - system \<ge> delta | None \<Rightarrow> False) then Inr ''degraded''
          else if rb_status b = Insufficient then Inr ''insufficient''
          else Inr ''active'')))"

definition derived_event ::
  "string \<Rightarrow> string \<Rightarrow> jsval \<Rightarrow> jsval \<Rightarrow> string \<Rightarrow> jsval" where
  "derived_event moment status ruleStatus systemConfidence reason =
     JObj [(''at'', JStr moment), (''status'', JStr status), (''ruleStatus'', ruleStatus),
       (''systemConfidence'', systemConfidence), (''reason'', JStr reason)]"

definition last_reason :: "derived_record \<Rightarrow> string" where
  "last_reason r = (if dr_history r = [] then [] else he_reason (last (dr_history r)))"

definition revise_record ::
  "rule_belief \<Rightarrow> jsval \<Rightarrow> string \<Rightarrow> jsval \<Rightarrow> derived_record \<Rightarrow> type_error + jsval" where
  "revise_record b previousBy moment materialDelta r =
     (let previous = jget previousBy (dr_derivationId r) in
      if truthy previous \<and> jget previous ''schemaVersion'' \<noteq> JStr DERIVED_BELIEF_SCHEMA_VERSION
        then Inl (''invalid previous derived belief for '' @ dr_derivationId r)
      else bind_result (derivedBeliefStatus b (dr_state r)
          (if truthy previous then jget previous ''systemConfidence'' else JNull) materialDelta) (\<lambda>status.
        let reason = (if dr_state r \<in> {Withdrawn, Contradicted} \<and> last_reason r \<noteq> [] then last_reason r
          else rb_reason b) in
        Inr (JObj [(''schemaVersion'', JStr DERIVED_BELIEF_SCHEMA_VERSION),
          (''derivationId'', JStr (dr_derivationId r)), (''ruleId'', JStr (dr_ruleId r)),
          (''status'', JStr status), (''systemConfidence'', rat_json (rb_systemConfidence b)),
          (''history'', JArr (prior_history previous
            @ [derived_event moment status (JStr (calibration_name (rb_status b)))
                (rat_json (rb_systemConfidence b)) reason]))])))"

definition reviseDerivedConclusionBeliefs ::
  "js_env \<Rightarrow> derived_record list \<Rightarrow> rule_belief \<Rightarrow> jsval \<Rightarrow> type_error + jsval list" where
  "reviseDerivedConclusionBeliefs env records b opts =
     bind_result (beliefTimestamp env (jget opts ''at'') ''at'') (\<lambda>moment.
       let previousBy = or_else (jget opts ''previousByDerivationId'') (JObj []) in
       if \<not> isPlainObject previousBy then Inl ''previousByDerivationId must be an object''
       else map_result (revise_record b previousBy moment (jget opts ''materialDelta''))
         (sort_by (\<lambda>l r. locale_compare env (dr_derivationId l) (dr_derivationId r))
           (filter (\<lambda>r. dr_schemaVersion r = DERIVED_RECORD_SCHEMA_VERSION \<and> dr_ruleId r = rb_ruleId b) records)))"

definition reconcile_belief ::
  "(string \<times> derived_record) list \<Rightarrow> string \<Rightarrow> jsval \<Rightarrow> type_error + jsval" where
  "reconcile_belief byId moment previous =
     (if \<not> truthy previous \<or> jget previous ''schemaVersion'' \<noteq> JStr DERIVED_BELIEF_SCHEMA_VERSION
        then Inl ''previousDerived must contain valid derived belief states''
      else case (case jget previous ''derivationId'' of JStr i \<Rightarrow> map_of byId i | _ \<Rightarrow> None) of
        None \<Rightarrow> Inr previous
      | Some r \<Rightarrow>
          if dr_state r \<notin> {Withdrawn, Contradicted} then Inr previous
          else
            let status = (if dr_state r = Withdrawn then ''withdrawn'' else ''defeated'') in
            if jget previous ''status'' = JStr status then Inr previous
            else
              let history = prior_history previous;
                  prior = (if history = [] then JUndefined else last history);
                  ruleStatus = or_else (jget prior ''ruleStatus'') (JStr []);
                  reason = (if last_reason r \<noteq> [] then last_reason r
                    else ''derived_'' @ state_name (dr_state r)) in
              Inr (JObj (put_field ''history'' (JArr (history
                  @ [derived_event moment status ruleStatus (jget previous ''systemConfidence'') reason]))
                (put_field ''status'' (JStr status) (own_fields previous)))))"

definition reconcileDerivedConclusionBeliefs ::
  "js_env \<Rightarrow> derived_record list \<Rightarrow> jsval list \<Rightarrow> jsval \<Rightarrow> type_error + jsval list" where
  "reconcileDerivedConclusionBeliefs env records previousDerived moment =
     bind_result (beliefTimestamp env moment ''at'') (\<lambda>t.
       let byId = foldl (\<lambda>m r. alist_put (dr_derivationId r) r m) []
         (filter (\<lambda>r. dr_schemaVersion r = DERIVED_RECORD_SCHEMA_VERSION) records) in
       map_result (reconcile_belief byId t) previousDerived)"

end
