(* ===== verification/Belief_Groups.thy ===== *)
theory Belief_Groups
  imports Belief_Values Unification_Facts
begin

text \<open>
  The groups of observations are the connected components of sharing a source event.  The array of parents
  is ordered (\<open>parent ! i \<le> i\<close>), so the loops of \<open>find\<close> end at the representative \<open>rep\<close>; a union
  merges two classes and path compression keeps them.  The invariant \<open>linked_up\<close> of the loop over the
  observations relates the classes to the events seen so far.
\<close>

section \<open>Representatives\<close>

definition forest :: "nat list \<Rightarrow> bool" where
  "forest p = (\<forall>i<length p. p ! i \<le> i)"

function rep :: "nat list \<Rightarrow> nat \<Rightarrow> nat" where
  "rep p i = (if p ! i < i then rep p (p ! i) else i)"
  by pat_completeness auto
termination by (relation "measure snd") auto

declare rep.simps [simp del]

lemma rep_le: "rep p i \<le> i"
  by (induction p i rule: rep.induct) (subst rep.simps, auto intro: order_trans)

lemma rep_of_root [simp]: "p ! i = i \<Longrightarrow> rep p i = i"
  by (subst rep.simps) simp

lemma rep_root: "i < length p \<Longrightarrow> forest p \<Longrightarrow> p ! (rep p i) = rep p i"
proof (induction p i rule: rep.induct)
  case (1 p i)
  show ?case
  proof (cases "p ! i < i")
    case True
    then show ?thesis using 1 by (subst (1 2) rep.simps) simp
  next
    case False
    moreover have "p ! i \<le> i" using 1(2,3) by (simp add: forest_def)
    ultimately have "p ! i = i" by simp
    then show ?thesis by simp
  qed
qed

lemma rep_parent: "p ! i < i \<Longrightarrow> rep p (p ! i) = rep p i"
  by (subst (2) rep.simps) simp

lemma rep_rep [simp]: "i < length p \<Longrightarrow> forest p \<Longrightarrow> rep p (rep p i) = rep p i"
  using rep_root [of i p] by simp

lemma rep_below: "i < x \<Longrightarrow> rep (p[x := y]) i = rep p i"
proof (induction i rule: less_induct)
  case (less i)
  then have "p[x := y] ! i = p ! i" by simp
  then show ?case using less by (subst (1 2) rep.simps) simp
qed

text \<open>Redirecting a root to a smaller element, and redirecting an element within its class.\<close>

lemma rep_redirect_root:
  assumes "forest p" and "x < length p" and "y < x" and "p ! x = x" and "i < length p"
  shows "rep (p[x := y]) i = (if rep p i = x then rep p y else rep p i)"
  using assms(5)
proof (induction i rule: less_induct)
  case (less i)
  show ?case
  proof (cases "i = x")
    case True
    have "rep (p[x := y]) x = rep (p[x := y]) y"
      using assms by (subst rep.simps) simp
    then show ?thesis using True assms by (simp add: rep_below)
  next
    case False
    then have pi: "p[x := y] ! i = p ! i" using less.prems by simp
    show ?thesis
    proof (cases "p ! i < i")
      case True
      have "rep (p[x := y]) i = rep (p[x := y]) (p ! i)" using True pi by (subst rep.simps) simp
      moreover have "rep p i = rep p (p ! i)" using True by (simp add: rep_parent)
      ultimately show ?thesis using less True by simp
    next
      case False
      then have "rep (p[x := y]) i = i" "rep p i = i" using pi by (subst rep.simps, simp)+
      then show ?thesis using \<open>i \<noteq> x\<close> by simp
    qed
  qed
qed

lemma rep_redirect_same:
  assumes "forest p" and "x < length p" and "y < x" and "rep p y = rep p x" and "i < length p"
  shows "rep (p[x := y]) i = rep p i"
  using assms(5)
proof (induction i rule: less_induct)
  case (less i)
  show ?case
  proof (cases "i = x")
    case True
    have "rep (p[x := y]) x = rep (p[x := y]) y" using assms by (subst rep.simps) simp
    then show ?thesis using True assms by (simp add: rep_below)
  next
    case False
    then have pi: "p[x := y] ! i = p ! i" using less.prems by simp
    then show ?thesis using less by (cases "p ! i < i") (subst (1 2) rep.simps, simp)+
  qed
qed

lemma forest_update: "forest p \<Longrightarrow> y \<le> x \<Longrightarrow> forest (p[x := y])"
  unfolding forest_def by (metis length_list_update nth_list_update_eq nth_list_update_neq)

section \<open>The loops of \<open>find\<close>\<close>

lemma find_root_returns: "forest p \<Longrightarrow> i < length p \<Longrightarrow> find_root p i = Some (rep p i)"
proof (induction i rule: less_induct)
  case (less i)
  show ?case
  proof (cases "p ! i = i")
    case True
    then show ?thesis by (subst find_root.simps) simp
  next
    case False
    then have "p ! i < i" using less.prems by (simp add: forest_def le_neq_implies_less)
    then have "find_root p i = Some (rep p (p ! i))"
      using less False by (subst find_root.simps) simp
    then show ?thesis using \<open>p ! i < i\<close> by (simp add: rep_parent)
  qed
qed

definition same_classes :: "nat list \<Rightarrow> nat list \<Rightarrow> bool" where
  "same_classes p q = (forest q \<and> length q = length p \<and> (\<forall>i<length p. rep q i = rep p i))"

lemma same_classes_refl [simp]: "forest p \<Longrightarrow> same_classes p p"
  by (simp add: same_classes_def)

lemma same_classes_trans: "same_classes p q \<Longrightarrow> same_classes q r \<Longrightarrow> same_classes p r"
  by (simp add: same_classes_def)

lemma compress_returns:
  "forest p \<Longrightarrow> i < length p \<Longrightarrow> \<exists>q. compress p i (rep p i) = Some q \<and> same_classes p q"
proof (induction i arbitrary: p rule: less_induct)
  case (less i)
  show ?case
  proof (cases "p ! i = i")
    case True
    then show ?thesis using less.prems by (subst compress.simps) simp
  next
    case False
    then have lt: "p ! i < i" using less.prems by (simp add: forest_def le_neq_implies_less)
    then have r: "rep p i < i" using rep_le [of p "p ! i"] by (simp add: rep_parent)
    let ?p = "p[i := rep p i]"
    have f: "forest ?p" using less.prems r by (simp add: forest_update)
    have same: "same_classes p ?p"
      using less.prems r f by (simp add: same_classes_def rep_redirect_same)
    have "rep ?p (p ! i) = rep p i" using lt by (simp add: rep_below rep_parent)
    then obtain q where "compress ?p (p ! i) (rep p i) = Some q" "same_classes ?p q"
      using less.IH [of "p ! i" ?p] lt f less.prems by auto
    then show ?thesis using False same by (subst compress.simps) (auto intro: same_classes_trans)
  qed
qed

lemma find_set_returns:
  assumes "forest p" and "i < length p"
  shows "\<exists>q. find_set p i = Some (rep p i, q) \<and> same_classes p q"
  using compress_returns [OF assms] find_root_returns [OF assms] by (auto simp: find_set_def)

text \<open>A union redirects the larger of the two representatives to the smaller one.\<close>

lemma union_sets_returns:
  assumes p: "forest p" "i < length p" "j < length p"
  shows "\<exists>q. union_sets p i j = Some q \<and> forest q \<and> length q = length p
    \<and> (\<forall>k<length p. rep q k =
        (if rep p k = max (rep p i) (rep p j) then min (rep p i) (rep p j) else rep p k))"
proof -
  obtain p1 where p1: "find_set p i = Some (rep p i, p1)" "same_classes p p1"
    using find_set_returns [OF p(1,2)] by blast
  then have f1: "forest p1" "length p1 = length p" by (simp_all add: same_classes_def)
  obtain p2 where p2: "find_set p1 j = Some (rep p1 j, p2)" "same_classes p1 p2"
    using find_set_returns [of p1 j] f1 p(3) by auto
  have same: "same_classes p p2" using p1(2) p2(2) by (rule same_classes_trans)
  then have f2: "forest p2" "length p2 = length p" "\<And>k. k < length p \<Longrightarrow> rep p2 k = rep p k"
    by (simp_all add: same_classes_def)
  have rj: "rep p1 j = rep p j" using p1(2) p(3) by (simp add: same_classes_def)
  define l where "l = rep p i"
  define r where "r = rep p j"
  have u: "union_sets p i j = Some (if l \<noteq> r then p2[max l r := min l r] else p2)"
    by (simp add: union_sets_def p1(1) p2(1) rj l_def r_def)
  show ?thesis
  proof (cases "l = r")
    case True
    have "rep p2 k = (if rep p k = max l r then min l r else rep p k)" if "k < length p" for k
      using f2(3) [OF that] True by simp
    moreover have "union_sets p i j = Some p2" using u True by simp
    ultimately show ?thesis using f2(1,2) unfolding l_def [symmetric] r_def [symmetric] by blast
  next
    case False
    have lt: "min l r < max l r" using False by (simp add: min_def max_def)
    have root: "p2 ! max l r = max l r" "rep p2 (min l r) = min l r" "max l r < length p2" "min l r < length p2"
    proof -
      have "x < length p \<and> rep p x = x \<and> p2 ! x = x" if either: "x = l \<or> x = r" for x
      proof -
        obtain y where y: "y < length p" "x = rep p y" using either p(2,3) l_def r_def by blast
        have x: "x < length p" using y rep_le [of p y] by simp
        moreover have "rep p x = x" using y p(1) by simp
        moreover have "p2 ! x = x"
          using rep_root [of x p2] x f2 \<open>rep p x = x\<close> by simp
        ultimately show ?thesis by simp
      qed
      from this [of "max l r"] this [of "min l r"] show "p2 ! max l r = max l r" "rep p2 (min l r) = min l r"
        "max l r < length p2" "min l r < length p2" using f2 by (auto simp: max_def min_def split: if_splits)
    qed
    have "rep (p2[max l r := min l r]) k = (if rep p k = max l r then min l r else rep p k)" if "k < length p" for k
      using rep_redirect_root [OF f2(1) root(3) lt root(1), of k] that f2 root(2) by simp
    moreover have "forest (p2[max l r := min l r])" using f2(1) lt by (intro forest_update) simp_all
    moreover have "union_sets p i j = Some (p2[max l r := min l r])" using u False by simp
    ultimately show ?thesis using f2(2) unfolding l_def [symmetric] r_def [symmetric] by simp
  qed
qed

section \<open>Linking the observations\<close>

text \<open>
  \<open>S\<close> holds the pairs of an index and an event that were seen; two indices are linked by a chain of indices
  of which neighbours have an event in common.
\<close>

definition share :: "(nat \<times> string) set \<Rightarrow> (nat \<times> nat) set" where
  "share S = {(i, j). \<exists>r. (i, r) \<in> S \<and> (j, r) \<in> S}"

lemma share_mono: "S \<subseteq> S' \<Longrightarrow> share S \<subseteq> share S'"
  by (auto simp: share_def)

lemma sym_share: "sym (share S)"
  by (auto simp: share_def sym_def)

definition linked_up :: "nat \<Rightarrow> (nat \<times> string) set \<Rightarrow> nat list \<Rightarrow> owner_map \<Rightarrow> bool" where
  "linked_up n S p owner = (forest p \<and> length p = n
     \<and> (\<forall>r j. map_of owner r = Some j \<longrightarrow> (j, r) \<in> S)
     \<and> (\<forall>i r. (i, r) \<in> S \<longrightarrow> i < n \<and> (\<exists>j. map_of owner r = Some j \<and> rep p i = rep p j))
     \<and> (\<forall>i<n. (i, rep p i) \<in> (share S)\<^sup>*))"

lemma linked_up_classes:
  assumes inv: "linked_up n S p owner" and "i < n" and "j < n"
  shows "rep p i = rep p j \<longleftrightarrow> (i, j) \<in> (share S)\<^sup>*"
proof
  assume eq: "rep p i = rep p j"
  have "(i, rep p i) \<in> (share S)\<^sup>*" "(j, rep p j) \<in> (share S)\<^sup>*"
    using inv assms(2,3) by (auto simp: linked_up_def)
  moreover have "(rep p j, j) \<in> (share S)\<^sup>*"
    using calculation(2) sym_rtrancl [OF sym_share] by (auto dest: symD)
  ultimately show "(i, j) \<in> (share S)\<^sup>*" using eq by (metis rtrancl_trans)
next
  assume "(i, j) \<in> (share S)\<^sup>*"
  then show "rep p i = rep p j"
  proof (induction rule: rtrancl_induct)
    case (step j k)
    then obtain r where "(j, r) \<in> S" "(k, r) \<in> S" by (auto simp: share_def)
    then show ?case using inv step.IH unfolding linked_up_def by (metis option.inject)
  qed simp
qed

lemma linked_up_first:
  assumes inv: "linked_up n S p owner" and i: "i < n" and new: "map_of owner r = None"
  shows "linked_up n (insert (i, r) S) p (alist_put r i owner)"
proof -
  have "(share S)\<^sup>* \<subseteq> (share (insert (i, r) S))\<^sup>*" by (intro rtrancl_mono share_mono) auto
  moreover have "(k, r) \<notin> S" for k using inv new unfolding linked_up_def by force
  ultimately show ?thesis using inv i unfolding linked_up_def by (auto split: if_splits)
qed

lemma linked_up_shared:
  assumes inv: "linked_up n S p owner" and i: "i < n" and old: "map_of owner r = Some j"
  shows "\<exists>q. union_sets p i j = Some q \<and> linked_up n (insert (i, r) S) q owner"
proof -
  let ?S = "insert (i, r) S"
  have p: "forest p" "length p = n" and jr: "(j, r) \<in> S" using inv old by (auto simp: linked_up_def)
  then have j: "j < n" using inv by (auto simp: linked_up_def)
  obtain q where q: "union_sets p i j = Some q" "forest q" "length q = n"
    and reps: "\<And>k. k < n \<Longrightarrow> rep q k = (if rep p k = max (rep p i) (rep p j) then min (rep p i) (rep p j) else rep p k)"
    using union_sets_returns [of p i j] p i j by auto
  have merge: "rep q k = rep q l" if "rep p k = rep p l" "k < n" "l < n" for k l
    using that by (simp add: reps)
  have ij: "rep q i = rep q j" using i j by (simp add: reps max_def min_def)
  have mono: "(share S)\<^sup>* \<subseteq> (share ?S)\<^sup>*" by (intro rtrancl_mono share_mono) auto
  have sym: "(b, a) \<in> (share ?S)\<^sup>*" if "(a, b) \<in> (share ?S)\<^sup>*" for a b
    using that sym_rtrancl [OF sym_share] by (auto dest: symD)
  have reach: "(k, rep p k) \<in> (share ?S)\<^sup>*" if "k < n" for k
    using inv that mono unfolding linked_up_def by blast
  have step: "(i, j) \<in> (share ?S)\<^sup>*" using jr by (auto simp: share_def)
  have "(rep p i, rep p j) \<in> (share ?S)\<^sup>*"
    using sym [OF reach [OF i]] step reach [OF j] by (meson rtrancl_trans)
  then have both: "(max (rep p i) (rep p j), min (rep p i) (rep p j)) \<in> (share ?S)\<^sup>*"
    using sym by (auto simp: max_def min_def)
  have "(k, rep q k) \<in> (share ?S)\<^sup>*" if "k < n" for k
    using reach [OF that] both by (auto simp: reps [OF that] intro: rtrancl_trans)
  moreover have "k < n \<and> (\<exists>l. map_of owner t = Some l \<and> rep q k = rep q l)" if "(k, t) \<in> ?S" for k t
  proof (cases "(k, t) \<in> S")
    case True
    then obtain l where l: "k < n" "map_of owner t = Some l" "rep p k = rep p l"
      using inv unfolding linked_up_def by blast
    then have "l < n" using inv unfolding linked_up_def by blast
    then show ?thesis using l merge by blast
  next
    case False
    then show ?thesis using that i old ij by auto
  qed
  ultimately have "linked_up n ?S q owner"
    using inv q(2,3) unfolding linked_up_def by blast
  then show ?thesis using q(1) by blast
qed

lemma claim_refs_returns:
  "linked_up n S p owner \<Longrightarrow> i < n \<Longrightarrow>
     \<exists>q owner'. claim_refs i refs p owner = Some (q, owner') \<and> linked_up n (S \<union> {i} \<times> set refs) q owner'"
proof (induction refs arbitrary: S p owner)
  case (Cons r refs)
  have set_eq: "insert (i, r) S \<union> {i} \<times> set refs = S \<union> {i} \<times> set (r # refs)" by auto
  show ?case
  proof (cases "map_of owner r")
    case None
    then show ?thesis
      using Cons.IH [OF linked_up_first [OF Cons.prems None] Cons.prems(2)] by (simp add: set_eq)
  next
    case (Some j)
    then obtain q where q: "union_sets p i j = Some q" "linked_up n (insert (i, r) S) q owner"
      using linked_up_shared [OF Cons.prems Some] by blast
    show ?thesis using Some q(1) Cons.IH [OF q(2) Cons.prems(2)] by (simp add: set_eq)
  qed
qed simp

definition seen_events :: "(nat \<times> observation) list \<Rightarrow> (nat \<times> string) set" where
  "seen_events items = {(i, r). \<exists>x. (i, x) \<in> set items \<and> r \<in> set (event_refs x)}"

lemma link_items_returns:
  "linked_up n S p owner \<Longrightarrow> \<forall>(i, x)\<in>set items. i < n \<Longrightarrow>
     \<exists>q owner'. link_items items p owner = Some (q, owner') \<and> linked_up n (S \<union> seen_events items) q owner'"
proof (induction items arbitrary: S p owner)
  case Nil
  then show ?case by (simp add: seen_events_def)
next
  case (Cons item items)
  obtain i x where item: "item = (i, x)" by (cases item)
  have i: "i < n" using Cons.prems(2) item by simp
  obtain q owner' where q: "claim_refs i (event_refs x) p owner = Some (q, owner')"
      "linked_up n (S \<union> {i} \<times> set (event_refs x)) q owner'"
    using claim_refs_returns [OF Cons.prems(1) i] by blast
  have "S \<union> {i} \<times> set (event_refs x) \<union> seen_events items = S \<union> seen_events (item # items)"
    by (auto simp: seen_events_def item)
  then show ?case using Cons.IH [OF q(2)] Cons.prems(2) q(1) by (simp add: item)
qed

lemma linked_up_start: "linked_up n {} [0..<n] []"
proof -
  have "forest [0..<n]" by (simp add: forest_def)
  moreover have "rep [0..<n] i = i" if "i < n" for i using that by simp
  ultimately show ?thesis by (simp add: linked_up_def)
qed

section \<open>Collecting the groups\<close>

lemma group_items_returns:
  assumes "forest p" and "\<forall>(i, x)\<in>set items. i < length p"
  shows "\<exists>g'. group_items items p g = Some g'
    \<and> (\<forall>root. map_of g' root = (let xs = map snd (filter (\<lambda>q. rep p (fst q) = root) items) in
        case map_of g root of Some ys \<Rightarrow> Some (ys @ xs) | None \<Rightarrow> if xs = [] then None else Some xs))
    \<and> (distinct (map fst g) \<longrightarrow> distinct (map fst g'))
    \<and> mset (concat (map snd g')) = mset (concat (map snd g)) + mset (map snd items)"
  using assms
proof (induction items arbitrary: p g)
  case Nil
  then show ?case by (auto simp: Let_def split: option.splits)
next
  case (Cons item items)
  obtain i x where item: "item = (i, x)" by (cases item)
  obtain q where q: "find_set p i = Some (rep p i, q)" "same_classes p q"
    using find_set_returns [OF Cons.prems(1)] Cons.prems(2) item by auto
  define g1 where "g1 = alist_put (rep p i) ((case map_of g (rep p i) of Some ms \<Rightarrow> ms | None \<Rightarrow> []) @ [x]) g"
  have "\<forall>(i, x)\<in>set items. i < length q" "forest q" using Cons.prems q(2) by (auto simp: same_classes_def)
  from Cons.IH [OF this(2,1), of g1] obtain g' where g': "group_items items q g1 = Some g'"
    and look: "\<And>root. map_of g' root = (let xs = map snd (filter (\<lambda>y. rep q (fst y) = root) items) in
        case map_of g1 root of Some ys \<Rightarrow> Some (ys @ xs) | None \<Rightarrow> if xs = [] then None else Some xs)"
    and dist: "distinct (map fst g1) \<longrightarrow> distinct (map fst g')"
    and content: "mset (concat (map snd g')) = mset (concat (map snd g1)) + mset (map snd items)"
    by blast
  have filt: "filter (\<lambda>y. rep q (fst y) = root) items = filter (\<lambda>y. rep p (fst y) = root) items" for root
    using q(2) Cons.prems(2) by (intro filter_cong) (auto simp: same_classes_def)
  have put: "mset (concat (map snd (alist_put k (vs @ [v]) m))) = add_mset v (mset (concat (map snd m)))"
    if "vs = (case map_of m k of Some ms \<Rightarrow> ms | None \<Rightarrow> [])" for k v vs and m :: "(nat \<times> observation list) list"
    using that by (induction m) auto
  have "mset (concat (map snd g1)) = add_mset x (mset (concat (map snd g)))"
    unfolding g1_def by (rule put) simp
  then have "mset (concat (map snd g')) = mset (concat (map snd g)) + mset (map snd (item # items))"
    using content by (simp add: item)
  moreover have "group_items (item # items) p g = Some g'" using q(1) g' by (simp add: item g1_def)
  moreover have "map_of g' root = (let xs = map snd (filter (\<lambda>y. rep p (fst y) = root) (item # items)) in
        case map_of g root of Some ys \<Rightarrow> Some (ys @ xs) | None \<Rightarrow> if xs = [] then None else Some xs)" for root
    by (simp add: look filt item g1_def Let_def split: option.splits)
  moreover have "distinct (map fst g) \<longrightarrow> distinct (map fst g')" using dist by (simp add: g1_def distinct_alist_put)
  ultimately show ?case by blast
qed

section \<open>Components\<close>

text \<open>Two counted observations are linked when they name a common event (or share an identity).\<close>

definition linked_events :: "observation list \<Rightarrow> (observation \<times> observation) set" where
  "linked_events obs = {(a, b). a \<in> set obs \<and> b \<in> set obs \<and> ob_counted a \<and> ob_counted b
     \<and> set (event_refs a) \<inter> set (event_refs b) \<noteq> {}}"

definition components :: "observation list \<Rightarrow> observation list list \<Rightarrow> bool" where
  "components obs ms = (mset (concat ms) = mset (filter ob_counted obs) \<and> distinct (map set ms)
     \<and> (\<forall>m\<in>set ms. m \<noteq> [] \<and> (\<forall>a\<in>set m. \<forall>b. b \<in> set m \<longleftrightarrow> (a, b) \<in> (linked_events obs)\<^sup>*)))"

lemma event_refs_nonempty [simp]: "event_refs x \<noteq> []"
  by (simp add: event_refs_def)

lemma enumerate_items: "(i, x) \<in> set (enumerate 0 items) \<longleftrightarrow> i < length items \<and> x = items ! i"
  by (auto simp: in_set_enumerate_eq)

text \<open>Chains over the indices of the sorted observations and chains over the observations agree.\<close>

lemma index_chain:
  assumes items: "set items = {x \<in> set obs. ob_counted x}"
    and chain: "(i, j) \<in> (share (seen_events (enumerate 0 items)))\<^sup>*" and "i < length items"
  shows "j < length items \<and> (items ! i, items ! j) \<in> (linked_events obs)\<^sup>*"
  using chain
proof (induction rule: rtrancl_induct)
  case (step j k)
  from step.hyps(2) obtain r where "k < length items" "r \<in> set (event_refs (items ! j))" "r \<in> set (event_refs (items ! k))"
    by (auto simp: share_def seen_events_def enumerate_items)
  moreover have "items ! x \<in> set obs \<and> ob_counted (items ! x)" if "x < length items" for x
    using that items nth_mem by fastforce
  ultimately have "(items ! j, items ! k) \<in> linked_events obs" using step.IH by (auto simp: linked_events_def)
  then show ?case using step.IH \<open>k < length items\<close> by (auto intro: rtrancl_into_rtrancl)
qed (use assms(3) in simp)

lemma observation_chain:
  assumes items: "set items = {x \<in> set obs. ob_counted x}"
    and chain: "(items ! i, b) \<in> (linked_events obs)\<^sup>*" and i: "i < length items"
  shows "\<exists>j<length items. b = items ! j \<and> (i, j) \<in> (share (seen_events (enumerate 0 items)))\<^sup>*"
  using chain
proof (induction rule: rtrancl_induct)
  case base
  then show ?case using i by blast
next
  case (step b c)
  then obtain j where j: "j < length items" "b = items ! j" "(i, j) \<in> (share (seen_events (enumerate 0 items)))\<^sup>*" by blast
  from step.hyps(2) have "c \<in> set items" using items by (simp add: linked_events_def)
  then obtain k where k: "k < length items" "c = items ! k" by (metis in_set_conv_nth)
  have "(j, k) \<in> share (seen_events (enumerate 0 items))"
    using step.hyps(2) j k by (auto simp: linked_events_def share_def seen_events_def enumerate_items)
  then show ?case using j k by (auto intro: rtrancl_into_rtrancl)
qed

lemma partition_components: "\<exists>ms. observation_partition env obs = Some ms \<and> components obs ms"
proof -
  define items where "items = by_evidence_id env (filter ob_counted obs)"
  have set_items: "set items = {x \<in> set obs. ob_counted x}"
    and mset_items: "mset items = mset (filter ob_counted obs)" by (auto simp: items_def by_evidence_id_def)
  let ?n = "length items" and ?es = "enumerate 0 items"
  have below: "\<forall>(i, x)\<in>set ?es. i < ?n" by (auto simp: enumerate_items)
  obtain p owner where link: "link_items ?es [0..<?n] [] = Some (p, owner)"
    and inv: "linked_up ?n (seen_events ?es) p owner"
    using link_items_returns [OF linked_up_start [of ?n] below] by auto
  have p: "forest p" "length p = ?n" using inv by (simp_all add: linked_up_def)
  obtain g where g: "group_items ?es p [] = Some g"
    and look: "\<And>root. map_of g root = (let xs = map snd (filter (\<lambda>q. rep p (fst q) = root) ?es) in
        if xs = [] then None else Some xs)"
    and dist: "distinct (map fst g)" and content: "mset (concat (map snd g)) = mset items"
    using group_items_returns [OF p(1), of ?es "[]"] below p(2) by auto
  have members: "b \<in> set m \<longleftrightarrow> (\<exists>i<?n. b = items ! i \<and> rep p i = root)" and nonempty: "m \<noteq> []"
    if "(root, m) \<in> set g" for root m b
  proof -
    have "map_of g root = Some m" using that dist by simp
    then have m: "m = map snd (filter (\<lambda>q. rep p (fst q) = root) ?es)" "m \<noteq> []"
      using look [of root] by (auto simp: Let_def split: if_splits)
    show "m \<noteq> []" by (rule m(2))
    show "b \<in> set m \<longleftrightarrow> (\<exists>i<?n. b = items ! i \<and> rep p i = root)"
    proof
      assume "b \<in> set m"
      then obtain i where "(i, b) \<in> set ?es" "rep p i = root" using m(1) by auto
      then show "\<exists>i<?n. b = items ! i \<and> rep p i = root" unfolding enumerate_items by blast
    next
      assume "\<exists>i<?n. b = items ! i \<and> rep p i = root"
      then obtain i where "(i, b) \<in> set ?es" "rep p i = root" unfolding enumerate_items by blast
      then show "b \<in> set m" unfolding m(1) by force
    qed
  qed
  have member_iff: "b \<in> set m \<longleftrightarrow> (a, b) \<in> (linked_events obs)\<^sup>*" if m: "(root, m) \<in> set g" and a: "a \<in> set m" for root m a b
  proof -
    obtain i where i: "i < ?n" "a = items ! i" "rep p i = root" using members [OF m] a by blast
    show ?thesis
    proof
      assume "b \<in> set m"
      then obtain j where j: "j < ?n" "b = items ! j" "rep p j = root" using members [OF m] by blast
      then have "(i, j) \<in> (share (seen_events ?es))\<^sup>*" using linked_up_classes [OF inv i(1) j(1)] i(3) by simp
      then show "(a, b) \<in> (linked_events obs)\<^sup>*" using index_chain [OF set_items _ i(1)] i(2) j(2) by blast
    next
      assume "(a, b) \<in> (linked_events obs)\<^sup>*"
      then obtain j where j: "j < ?n" "b = items ! j" "(i, j) \<in> (share (seen_events ?es))\<^sup>*"
        using observation_chain [OF set_items _ i(1)] i(2) by blast
      then have "rep p j = root" using linked_up_classes [OF inv i(1) j(1)] i(3) by simp
      then show "b \<in> set m" using members [OF m] j by blast
    qed
  qed
  have "inj_on set (set (map snd g)) \<and> distinct (map snd g)"
  proof -
    have same_root: "root = root'" if r: "(root, m) \<in> set g" "(root', m') \<in> set g" "set m = set m'" for root root' m m'
    proof -
      obtain a where a: "a \<in> set m" using nonempty [OF r(1)] by (cases m) auto
      obtain i where i: "i < ?n" "a = items ! i" "rep p i = root" using members [OF r(1)] a by blast
      obtain j where j: "j < ?n" "a = items ! j" "rep p j = root'" using members [OF r(2)] a r(3) by blast
      have "(i, j) \<in> share (seen_events ?es)"
        using i j event_refs_nonempty [of a] unfolding share_def seen_events_def enumerate_items
        by (auto simp del: event_refs_nonempty) (metis hd_in_set)
      then have "rep p i = rep p j" using linked_up_classes [OF inv i(1) j(1)] by blast
      then show ?thesis using i(3) j(3) by simp
    qed
    have "inj_on set (set (map snd g))"
    proof (rule inj_onI)
      fix m m' assume "m \<in> set (map snd g)" "m' \<in> set (map snd g)" "set m = set m'"
      then obtain root root' where r: "(root, m) \<in> set g" "(root', m') \<in> set g" by auto
      then have "root = root'" using same_root \<open>set m = set m'\<close> by blast
      then show "m = m'" using r dist by (metis map_of_is_SomeI option.inject)
    qed
    moreover have "distinct (map snd g)"
    proof -
      have "inj_on snd (set g)" using same_root by (auto intro!: inj_onI)
      then show ?thesis using dist by (simp add: distinct_map)
    qed
    ultimately show ?thesis ..
  qed
  then have "distinct (map set (map snd g))" unfolding distinct_map [of set] by blast
  moreover have "m \<noteq> [] \<and> (\<forall>a\<in>set m. \<forall>b. b \<in> set m \<longleftrightarrow> (a, b) \<in> (linked_events obs)\<^sup>*)"
    if m: "m \<in> set (map snd g)" for m
  proof -
    obtain root where r: "(root, m) \<in> set g" using m by auto
    show ?thesis using nonempty [OF r] member_iff [OF r] by blast
  qed
  ultimately have "components obs (map snd g)"
    unfolding components_def using content mset_items by simp
  moreover have "observation_partition env obs = Some (map snd g)"
    by (simp add: observation_partition_def link g flip: items_def)
  ultimately show ?thesis by blast
qed

end
