(* ===== verification/Belief_Properties.thy ===== *)
theory Belief_Properties
  imports Belief_Revision Belief_Groups Evaluation
begin

text \<open>
  What calibration promises: observations are counted by independent groups, the confidence of the
  system never rises from one calibration to the next, and exactly when a rule that was only confirmed is
  kept from admitting conclusions.
\<close>

section \<open>Groups\<close>

text \<open>
  C25: the grouping of observations always returns, and its groups are the connected components of the
  counted observations under sharing a source event: every counted observation is in exactly one group, and
  two observations are in one group exactly when a chain of observations links them in which neighbours name
  a common event.  So no source event is counted in two samples.
\<close>

theorem observation_groups_are_components:
  "\<exists>ms gs. observation_partition env obs = Some ms \<and> components obs ms
     \<and> independentObservationGroups env obs = Some gs \<and> mset gs = mset (map (summarize_group env) ms)"
  using partition_components [of env obs] by (auto simp: independentObservationGroups_def)

lemma calibration_returns: "\<exists>b. calibrateRuleBelief env input opts = Some b"
proof -
  have "\<exists>gs. independentObservationGroups env obs = Some gs" for obs
    using partition_components [of env obs] by (auto simp: independentObservationGroups_def)
  then show ?thesis
    by (cases "readCalibration env input opts")
      (fastforce simp: calibrateRuleBelief_def calibrate_checked_def Let_def)+
qed

section \<open>Rounding\<close>

lemma fixed6_nonneg: "0 \<le> x \<Longrightarrow> 0 \<le> fixed6 x"
  by (simp add: fixed6_def)

lemma fixed6_mono: "0 \<le> x \<Longrightarrow> x \<le> y \<Longrightarrow> fixed6 x \<le> fixed6 y"
  by (auto simp: fixed6_def intro!: divide_right_mono floor_mono)

lemma fixed6_idem: "0 \<le> x \<Longrightarrow> fixed6 (fixed6 x) = fixed6 x"
proof -
  assume x: "0 \<le> x"
  have "\<lfloor>(of_int n :: rat) + 1 / 2\<rfloor> = n" for n by linarith
  then show ?thesis using x fixed6_nonneg [OF x] by (simp add: fixed6_def not_less)
qed

section \<open>What a calibration returns\<close>

definition declared_in :: "jsval \<Rightarrow> rat \<Rightarrow> bool" where
  "declared_in input d = (jget input ''declaredConfidence'' = JNum d)"

lemma readCalibration_fields:
  assumes "readCalibration env input opts = Inr c"
  shows "declared_in input (ci_declaredConfidence c) \<and> 0 \<le> ci_declaredConfidence c \<and> ci_declaredConfidence c \<le> 1
      \<and> previousSystemConfidence (or_else (jget input ''previous'') JNull) = Inr (ci_previousConfidence c)"
  by (insert assms, unfold readCalibration_def, elim bind_result_InrE, drule Inr_inject, hypsubst)
    (auto simp: declared_in_def boundedConfidence_def split: jsval.splits if_splits)

lemma calibration_cases:
  assumes "calibrateRuleBelief env input opts = Some b" and "rb_status b \<noteq> Invalid_belief"
  obtains c samples where "readCalibration env input opts = Inr c"
    and "declared_in input (ci_declaredConfidence c)" and "0 \<le> ci_declaredConfidence c" "ci_declaredConfidence c \<le> 1"
    and "rb_declaredConfidence b = Some (ci_declaredConfidence c)" and "rb_ruleId b = ci_ruleId c"
    and "rb_systemConfidence b = Some (ve_systemConfidence (calibrated_verdict c (jget opts ''allowLoosening'' = JBool True)
      samples (rb_observedSuccesses b) (rb_observedFailures b)))"
    and "rb_status b = ve_status (calibrated_verdict c (jget opts ''allowLoosening'' = JBool True)
      samples (rb_observedSuccesses b) (rb_observedFailures b))"
    and "previousSystemConfidence (or_else (jget input ''previous'') JNull) = Inr (ci_previousConfidence c)"
proof (cases "readCalibration env input opts")
  case (Inl e)
  then show ?thesis using assms by (auto simp: calibrateRuleBelief_def invalidRuleBelief_def)
next
  case (Inr c)
  then have run: "calibrate_checked env c input opts = Some b" using assms(1) by (simp add: calibrateRuleBelief_def)
  have d: "declared_in input (ci_declaredConfidence c) \<and> 0 \<le> ci_declaredConfidence c \<and> ci_declaredConfidence c \<le> 1
      \<and> previousSystemConfidence (or_else (jget input ''previous'') JNull) = Inr (ci_previousConfidence c)"
    by (rule readCalibration_fields [OF Inr])
  from run obtain gs where gs: "independentObservationGroups env (filter ob_counted (map (classifyPair (ci_effectEvidence c))
      (selectRulePairs (ci_pairs c) (ci_ruleId c) (jget opts ''actionClass''))) @ ci_counterEvidence c) = Some gs"
    by (auto simp: calibrate_checked_def Let_def)
  show ?thesis
    by (rule that [of c "length gs"]) (use Inr d run gs in \<open>auto simp: calibrate_checked_def Let_def\<close>)
qed

lemma verdict_tightens:
  assumes "0 \<le> base_confidence c" and "0 \<le> ci_declaredConfidence c"
    and v: "v = calibrated_verdict c False samples successes failures"
  shows "0 \<le> ve_systemConfidence v
    \<and> (ve_systemConfidence v = base_confidence c
       \<or> (\<exists>x. 0 \<le> x \<and> x \<le> base_confidence c \<and> x \<le> ci_declaredConfidence c \<and> ve_systemConfidence v = fixed6 x))
    \<and> (ve_status v \<noteq> Insufficient \<longrightarrow> ve_systemConfidence v \<le> fixed6 (posteriorMean successes failures))"
proof (cases "samples < ci_minSamples c")
  case True
  then show ?thesis using assms by (simp add: calibrated_verdict_def)
next
  case False
  have p: "0 \<le> posteriorMean successes failures" by (simp add: posteriorMean_def)
  let ?x = "min (base_confidence c) (min (posteriorMean successes failures) (ci_declaredConfidence c))"
  have "ve_systemConfidence v = fixed6 ?x"
    using False by (simp add: v calibrated_verdict_def Let_def)
  moreover have "0 \<le> ?x" using assms p by simp
  moreover have "fixed6 ?x \<le> fixed6 (posteriorMean successes failures)" using \<open>0 \<le> ?x\<close> by (rule fixed6_mono) simp
  ultimately show ?thesis using fixed6_nonneg [of ?x] by (intro conjI disjI2 exI [of _ ?x]) auto
qed

section \<open>Histories of calibrations\<close>

text \<open>
  \<open>calibrations env d bs\<close>: \<open>bs\<close> are the outcomes, in order, of a series of valid calibrations without
  loosening of a rule that declares \<open>d\<close>, each given the outcome before it as \<open>previous\<close>.
\<close>

inductive calibrations :: "js_env \<Rightarrow> rat \<Rightarrow> rule_belief list \<Rightarrow> bool" for env d where
  first: "\<not> truthy (jget input ''previous'') \<Longrightarrow> calibrateRuleBelief env input opts = Some b \<Longrightarrow>
     declared_in input d \<Longrightarrow> jget opts ''allowLoosening'' \<noteq> JBool True \<Longrightarrow> rb_status b \<noteq> Invalid_belief \<Longrightarrow>
     calibrations env d [b]"
| again: "calibrations env d (bs @ [b]) \<Longrightarrow> jget input ''previous'' = rule_belief_json b \<Longrightarrow>
     calibrateRuleBelief env input opts = Some b' \<Longrightarrow>
     declared_in input d \<Longrightarrow> jget opts ''allowLoosening'' \<noteq> JBool True \<Longrightarrow> rb_status b' \<noteq> Invalid_belief \<Longrightarrow>
     calibrations env d (bs @ [b, b'])"

text \<open>The later of two confidences: the same, or a number of six digits not above the earlier one so rounded.\<close>

definition tightened :: "rat \<Rightarrow> rat \<Rightarrow> bool" where
  "tightened s s' = (s' = s \<or> s' = fixed6 s' \<and> s' \<le> fixed6 s)"

lemma tightened_trans: "tightened a b \<Longrightarrow> tightened b c \<Longrightarrow> tightened a c"
  by (auto simp: tightened_def)

text \<open>One calibration, on the confidence \<open>q\<close> it starts from.\<close>

definition calibrated_from :: "rat \<Rightarrow> rule_belief \<Rightarrow> rat \<Rightarrow> bool" where
  "calibrated_from q b s = (rb_systemConfidence b = Some s \<and> 0 \<le> s \<and> tightened q s
     \<and> (rb_status b \<noteq> Insufficient \<longrightarrow> s \<le> fixed6 (posteriorMean (rb_observedSuccesses b) (rb_observedFailures b))))"

lemma calibration_tightens:
  assumes run: "calibrateRuleBelief env input opts = Some b" and valid: "rb_status b \<noteq> Invalid_belief"
    and tight: "jget opts ''allowLoosening'' \<noteq> JBool True"
    and base: "\<And>c. readCalibration env input opts = Inr c \<Longrightarrow> base_confidence c = q" and q: "0 \<le> q"
  shows "\<exists>s. calibrated_from q b s"
  using run valid
proof (rule calibration_cases)
  fix c samples
  assume c: "readCalibration env input opts = Inr c" "0 \<le> ci_declaredConfidence c"
    and s: "rb_systemConfidence b = Some (ve_systemConfidence (calibrated_verdict c (jget opts ''allowLoosening'' = JBool True)
      samples (rb_observedSuccesses b) (rb_observedFailures b)))"
    and st: "rb_status b = ve_status (calibrated_verdict c (jget opts ''allowLoosening'' = JBool True)
      samples (rb_observedSuccesses b) (rb_observedFailures b))"
  define v where "v = calibrated_verdict c False samples (rb_observedSuccesses b) (rb_observedFailures b)"
  note sys = s [simplified tight, simplified, folded v_def] and status = st [simplified tight, simplified, folded v_def]
  from verdict_tightens [OF _ c(2) v_def] base [OF c(1)] q
  have v: "0 \<le> ve_systemConfidence v" "ve_systemConfidence v = q \<or> (\<exists>x. 0 \<le> x \<and> x \<le> q \<and> ve_systemConfidence v = fixed6 x)"
    "ve_status v \<noteq> Insufficient \<longrightarrow> ve_systemConfidence v \<le> fixed6 (posteriorMean (rb_observedSuccesses b) (rb_observedFailures b))"
    by auto
  have "tightened q (ve_systemConfidence v)"
    using v(2) fixed6_idem fixed6_mono by (auto simp: tightened_def)
  with v(1,3) sys status show ?thesis by (auto simp: calibrated_from_def)
qed

lemma calibrations_tighten:
  assumes "calibrations env d bs"
  shows "sorted_wrt (\<lambda>b b'. \<exists>s s'. rb_systemConfidence b = Some s \<and> rb_systemConfidence b' = Some s' \<and> tightened s s') bs
    \<and> (\<forall>b\<in>set bs. \<exists>s. calibrated_from d b s)"
  using assms
proof (induction rule: calibrations.induct)
  case (first input opts b)
  have base: "base_confidence c = d" if "readCalibration env input opts = Inr c" for c
  proof -
    from readCalibration_fields [OF that] first(1,3) show ?thesis
      by (auto simp: base_confidence_def declared_in_def or_else_def previousSystemConfidence_def)
  qed
  have "0 \<le> d" using first(2,5) by (rule calibration_cases) (use first(3) in \<open>auto simp: declared_in_def\<close>)
  from calibration_tightens [OF first(2,5,4) base this] show ?case by auto
next
  case (again bs b input opts b')
  from again.IH obtain q where q: "calibrated_from d b q" by auto
  then have sys: "rb_systemConfidence b = Some q" "0 \<le> q" "tightened d q" by (simp_all add: calibrated_from_def)
  have base: "base_confidence c = q" if "readCalibration env input opts = Inr c" for c
  proof -
    from readCalibration_fields [OF that] sys(1) have "ci_previousConfidence c = Some q" unfolding again.hyps(2)
      by (auto simp: previousSystemConfidence_def or_else_def rule_belief_json_def boundedConfidence_def split: if_splits)
    then show ?thesis by (simp add: base_confidence_def)
  qed
  from calibration_tightens [OF again.hyps(3,6,5) base sys(2)] obtain s where s: "calibrated_from q b' s" by blast
  then have "calibrated_from d b' s" using sys(3) tightened_trans by (auto simp: calibrated_from_def)
  moreover have "\<exists>t t'. rb_systemConfidence a = Some t \<and> rb_systemConfidence b' = Some t' \<and> tightened t t'"
    if a: "a \<in> set (bs @ [b])" for a
  proof (cases "a = b")
    case True
    with s sys(1) show ?thesis by (auto simp: calibrated_from_def)
  next
    case False
    with a again.IH sys(1) obtain t where "rb_systemConfidence a = Some t" "tightened t q"
      by (auto simp: sorted_wrt_append)
    with s show ?thesis using tightened_trans by (auto simp: calibrated_from_def)
  qed
  moreover have "bs @ [b, b'] = (bs @ [b]) @ [b']" by simp
  ultimately show ?case using again.IH by (auto simp: sorted_wrt_append)
qed

text \<open>
  C26: in every series of calibrations of a rule without loosening, each given the outcome of the one before,
  the confidence the system uses never rises: each is the same as any earlier one, or a number of six
  digits that is at most the earlier one rounded to six digits, and the first is so related to the
  confidence the rule declares; and unless a calibration found too few samples its confidence is at most
  the mean of its own observations, so rounded.  No evidence and no order of calibrations raises it again.
\<close>

theorem belief_never_loosens:
  assumes "calibrations env d bs"
  shows "sorted_wrt (\<lambda>b b'. \<exists>s s'. rb_systemConfidence b = Some s \<and> rb_systemConfidence b' = Some s'
        \<and> (s' = s \<or> s' = fixed6 s' \<and> s' \<le> fixed6 s)) bs
    \<and> (\<forall>b\<in>set bs. \<exists>s. rb_systemConfidence b = Some s \<and> 0 \<le> s \<and> (s = d \<or> s = fixed6 s \<and> s \<le> fixed6 d)
        \<and> (rb_status b \<noteq> Insufficient \<longrightarrow> s \<le> fixed6 (posteriorMean (rb_observedSuccesses b) (rb_observedFailures b))))"
  using calibrations_tighten [OF assms] unfolding tightened_def calibrated_from_def by blast

section \<open>Examples\<close>

definition confirmed_pair :: "string \<Rightarrow> string \<times> jsval" where
  "confirmed_pair d = (d, JObj [(''decisionId'', JStr d),
     (''prediction'', JObj [(''actionClass'', JStr ''inference-rule:r'')]),
     (''outcome'', JObj [(''state'', JStr ''confirmed'')])])"

definition observed_effect :: "string \<Rightarrow> jsval" where
  "observed_effect d = JObj [(''decisionId'', JStr d), (''kind'', JStr ''observed''),
     (''sourceEventRefs'', JArr [JStr (''event '' @ d)])]"

definition confirmations :: "string list \<Rightarrow> jsval" where
  "confirmations ds = JObj [(''ruleId'', JStr ''r''), (''declaredConfidence'', JNum (9 / 10)),
     (''pairs'', JObj (map confirmed_pair ds)), (''effectEvidence'', JArr (map observed_effect ds)),
     (''at'', JStr ''10'')]"

definition five_confirmations :: rule_belief where
  "five_confirmations = the (calibrateRuleBelief example_env (confirmations [''a'', ''b'', ''c'', ''d'', ''e'']) (JObj []))"

lemma five_confirmations_run:
  "calibrateRuleBelief example_env (confirmations [''a'', ''b'', ''c'', ''d'', ''e'']) (JObj []) = Some five_confirmations"
  unfolding five_confirmations_def using calibration_returns by fastforce

lemma five_confirmations_fields:
  "rb_status five_confirmations = Calibrated \<and> rb_observedSamples five_confirmations = 5
     \<and> rb_observedSuccesses five_confirmations = 5 \<and> rb_observedFailures five_confirmations = 0
     \<and> rb_systemConfidence five_confirmations = Some (857143 / 1000000) \<and> rb_ruleId five_confirmations = ''r''"
  by code_simp

lemma confirmations_declared: "declared_in (confirmations ds) (9 / 10)"
  by (simp add: declared_in_def confirmations_def)

text \<open>Ten confirmations on top of the outcome of five: their mean is higher, the confidence stays.\<close>

definition more_confirmations :: jsval where
  "more_confirmations = JObj (own_fields (confirmations (map (\<lambda>c. [c]) ''abcdefghij''))
     @ [(''previous'', rule_belief_json five_confirmations)])"

definition ten_confirmations :: rule_belief where
  "ten_confirmations = the (calibrateRuleBelief example_env more_confirmations (JObj []))"

lemma ten_confirmations_fields:
  "rb_status ten_confirmations = Calibrated \<and> rb_observedSuccesses ten_confirmations = 10
     \<and> rb_systemConfidence ten_confirmations = Some (857143 / 1000000)"
  by code_simp

lemma confirmations_series: "calibrations example_env (9 / 10) ([] @ [five_confirmations, ten_confirmations])"
proof (rule calibrations.again)
  have "calibrations example_env (9 / 10) [five_confirmations]"
  proof (rule calibrations.first)
    show "calibrateRuleBelief example_env (confirmations [''a'', ''b'', ''c'', ''d'', ''e'']) (JObj []) = Some five_confirmations"
      by (rule five_confirmations_run)
    show "\<not> truthy (jget (confirmations [''a'', ''b'', ''c'', ''d'', ''e'']) ''previous'')"
      by (simp add: confirmations_def)
    show "declared_in (confirmations [''a'', ''b'', ''c'', ''d'', ''e'']) (9 / 10)" by (rule confirmations_declared)
    show "rb_status five_confirmations \<noteq> Invalid_belief" using five_confirmations_fields by simp
  qed simp
  then show "calibrations example_env (9 / 10) ([] @ [five_confirmations])" by simp
  show "calibrateRuleBelief example_env more_confirmations (JObj []) = Some ten_confirmations"
    unfolding ten_confirmations_def using calibration_returns by fastforce
  show "jget more_confirmations ''previous'' = rule_belief_json five_confirmations"
    by (simp add: more_confirmations_def confirmations_def)
  show "declared_in more_confirmations (9 / 10)"
    by (simp add: more_confirmations_def confirmations_def declared_in_def)
  show "rb_status ten_confirmations \<noteq> Invalid_belief" using ten_confirmations_fields by simp
qed simp

theorem belief_never_loosens_witness:
  "\<exists>s s'. rb_systemConfidence five_confirmations = Some s \<and> rb_systemConfidence ten_confirmations = Some s'
     \<and> (s' = s \<or> s' = fixed6 s' \<and> s' \<le> fixed6 s)"
  using belief_never_loosens [OF confirmations_series] by simp

section \<open>Confirmations and admission\<close>

text \<open>
  C27: what the first calibration of a rule without loosening means for the admission of its conclusions, when
  it finds no failure.  The rule is kept from admitting exactly when the calibration calls it defeated or
  degraded, or calls it calibrated and the declared confidence, cut down to the mean of the confirmations
  and rounded to six digits, is below the declared one; too few samples never block it.  A rule that
  declares nine tenths is therefore blocked by five confirmations without a failure, although it is called
  calibrated, and not by four.
\<close>

theorem confirmations_can_block:
  assumes run: "calibrateRuleBelief env input opts = Some b" and valid: "rb_status b \<noteq> Invalid_belief"
    and fresh: "\<not> truthy (jget input ''previous'')" and tight: "jget opts ''allowLoosening'' \<noteq> JBool True"
    and failures: "rb_observedFailures b = 0" and d: "declared_in input d"
  shows "ruleAdmissionBlocked (JArr [rule_belief_json b]) (rb_ruleId b)
    \<longleftrightarrow> rb_status b \<in> {Defeated, Degraded}
      \<or> rb_status b = Calibrated \<and> fixed6 (min d (posteriorMean (rb_observedSuccesses b) 0)) < d"
  using run valid
proof (rule calibration_cases)
  fix c samples
  assume c: "declared_in input (ci_declaredConfidence c)" and dec: "rb_declaredConfidence b = Some (ci_declaredConfidence c)"
    and s: "rb_systemConfidence b = Some (ve_systemConfidence (calibrated_verdict c (jget opts ''allowLoosening'' = JBool True)
      samples (rb_observedSuccesses b) (rb_observedFailures b)))"
    and st: "rb_status b = ve_status (calibrated_verdict c (jget opts ''allowLoosening'' = JBool True)
      samples (rb_observedSuccesses b) (rb_observedFailures b))"
    and p: "previousSystemConfidence (or_else (jget input ''previous'') JNull) = Inr (ci_previousConfidence c)"
  have "ci_previousConfidence c = None" using p fresh by (simp add: or_else_def previousSystemConfidence_def)
  then have base: "base_confidence c = d" and dc: "ci_declaredConfidence c = d"
    using c d by (simp_all add: base_confidence_def declared_in_def)
  have blocks: "ruleAdmissionBlocked (JArr [rule_belief_json b]) (rb_ruleId b)
      \<longleftrightarrow> rb_status b \<in> {Defeated, Degraded} \<or> the (rb_systemConfidence b) < d"
    using s dec dc valid
    by (cases "rb_status b") (simp_all add: ruleAdmissionBlocked_def belief_blocks_def rule_belief_json_def)
  show ?thesis
  proof (cases "samples < ci_minSamples c")
    case True
    then have "rb_status b = Insufficient" "the (rb_systemConfidence b) = d"
      using s st by (simp_all add: calibrated_verdict_def Let_def base)
    then show ?thesis using blocks by simp
  next
    case False
    then have "rb_status b \<in> {Defeated, Degraded, Calibrated}" using st by (simp add: calibrated_verdict_def Let_def)
    moreover have "the (rb_systemConfidence b) = fixed6 (min d (posteriorMean (rb_observedSuccesses b) 0))"
      using False s tight failures by (simp add: calibrated_verdict_def Let_def base dc min.left_commute min.commute)
    ultimately show ?thesis using blocks by auto
  qed
qed

theorem confirmations_can_block_witness:
  "rb_observedSuccesses five_confirmations = 5 \<and> rb_observedFailures five_confirmations = 0
     \<and> rb_status five_confirmations = Calibrated \<and> ruleAdmissionBlocked (JArr [rule_belief_json five_confirmations]) ''r''"
proof -
  have "fixed6 (min (9 / 10) (posteriorMean 5 0)) < 9 / 10" by code_simp
  then show ?thesis
    using confirmations_can_block [OF five_confirmations_run, of "9 / 10"] five_confirmations_fields
    by (simp add: confirmations_declared) (simp add: confirmations_def)
qed

lemma four_confirmations_do_not_block:
  "\<not> ruleAdmissionBlocked (JArr [rule_belief_json
     (the (calibrateRuleBelief example_env (confirmations [''a'', ''b'', ''c'', ''d'']) (JObj [])))]) ''r''"
  by code_simp

end
