(* ===== verification/Derived_Admission.thy ===== *)
theory Derived_Admission
  imports Derived_Record Belief_Values
begin

text \<open>
  The seam between derived facts and the candidate ingress (\<open>src/lib/inference-derived-admission.js\<close>): a
  provisional record becomes a candidate claim, and only an accepted candidate with an admission that
  allows it and a receipt of its own makes the record admitted.  The two functions the caller injects are
  arguments; they may throw and may change the world, whose type is a parameter.  A thrown \<open>TypeError\<close> of
  the module itself is its message.
\<close>

section \<open>Injected functions\<close>

record candidate_edge =
  ce_from :: string
  ce_relation :: string
  ce_to :: string
  ce_source :: string
  ce_sourceRef :: string
  ce_evidence :: "string list"
  ce_derivation :: derived_record

record claim_provenance =
  cp_provenanceId :: string
  cp_sourceType :: string
  cp_sourceSubType :: string
  cp_sourceRef :: string
  cp_sourceTitle :: string
  cp_actor :: string
  cp_timestamp :: string
  cp_workspaceId :: string

record candidate_claim =
  cc_candidateId :: string
  cc_claim :: string
  cc_proposedEdge :: candidate_edge
  cc_provenance :: claim_provenance
  cc_workspaceId :: string
  cc_createdAt :: string

record ingest_options =
  io_workspaceId :: string
  io_actor :: string
  io_sourceType :: string
  io_sourceSubType :: string
  io_sourceRef :: string
  io_provenanceId :: string

text \<open>An \<open>ingest\<close> that throws returns the error; a \<open>verify\<close> that throws returns \<open>None\<close>.\<close>

type_synonym 'w ingest = "candidate_claim \<Rightarrow> ingest_options \<Rightarrow> 'w \<Rightarrow> (jsval + jsval) \<times> 'w"
type_synonym 'w verify = "rule_atom \<Rightarrow> derived_record \<Rightarrow> 'w \<Rightarrow> jsval option \<times> 'w"

record 'w admission_deps =
  ad_ingestCandidateClaim :: "'w ingest option"
  ad_verifyDerived :: "'w verify option"
  ad_ruleBeliefs :: jsval

record admission_options =
  ao_at :: jsval
  ao_requireCommittedReceipt :: jsval

section \<open>The candidate\<close>

datatype admission_status = Adm_admitted | Adm_held | Adm_contradicted | Adm_invalid | Adm_error

record admission_result =
  ar_status :: admission_status
  ar_reason :: string
  ar_record :: derived_record
  ar_routeResult :: jsval
  ar_verification :: jsval
  ar_errorCode :: string

definition admission_result_of ::
  "admission_status \<Rightarrow> string \<Rightarrow> derived_record \<Rightarrow> jsval \<Rightarrow> jsval \<Rightarrow> admission_result" where
  "admission_result_of status reason r route verification =
     \<lparr>ar_status = status, ar_reason = reason, ar_record = r, ar_routeResult = route,
      ar_verification = verification, ar_errorCode = []\<rparr>"

definition validDerivedRecord :: "derived_record \<Rightarrow> bool" where
  "validDerivedRecord r = (dr_schemaVersion r = DERIVED_RECORD_SCHEMA_VERSION \<and> dr_state r = Provisional)"

definition binaryGroundFact :: "derived_record \<Rightarrow> bool" where
  "binaryGroundFact r = (length (ra_args (dr_fact r)) = 2 \<and> list_all is_constant (ra_args (dr_fact r)))"

definition candidateIdFor :: "derived_record \<Rightarrow> string" where
  "candidateIdFor r = ''cand_inference_''
     @ (if starts_with (dr_derivationId r) ''prov_'' then drop 5 (dr_derivationId r) else dr_derivationId r)"

definition verificationStatus :: "js_env \<Rightarrow> jsval \<Rightarrow> string" where
  "verificationStatus env v =
     (if \<not> is_object v then ''unknown''
      else let status = to_lower (js_string env (or_else (jget v ''status'') (or_else (jget v ''verdict'') (JStr [])))) in
        if status \<in> {''contradicted'', ''contradiction'', ''celiski'', ''refuted''} then ''contradicted''
        else if status \<in> {''verified'', ''dogrulandi'', ''supported''} then ''verified''
        else ''unknown'')"

definition from_value :: "derived_record \<Rightarrow> string" where
  "from_value r = term_value (ra_args (dr_fact r) ! 0)"

definition to_value :: "derived_record \<Rightarrow> string" where
  "to_value r = term_value (ra_args (dr_fact r) ! 1)"

definition buildCandidateInput :: "derived_record \<Rightarrow> type_error + candidate_claim" where
  "buildCandidateInput r =
     (if \<not> validDerivedRecord r then Inl ''provisional derived record is required''
      else if \<not> binaryGroundFact r then Inl ''derived admission currently requires a binary ground fact''
      else Inr \<lparr>cc_candidateId = candidateIdFor r,
        cc_claim = from_value r @ '' '' @ ra_predicate (dr_fact r) @ '' '' @ to_value r,
        cc_proposedEdge = \<lparr>ce_from = from_value r, ce_relation = ra_predicate (dr_fact r), ce_to = to_value r,
          ce_source = ''background_inference'', ce_sourceRef = dr_derivationId r,
          ce_evidence = [''derivation:'' @ dr_derivationId r, ''rule:'' @ dr_ruleId r]
            @ map (\<lambda>k. ''support:'' @ k) (dr_directSupportKeys r),
          ce_derivation = r\<rparr>,
        cc_provenance = \<lparr>cp_provenanceId = dr_derivationId r, cp_sourceType = ''background_inference'',
          cp_sourceSubType = ''derived_fact'', cp_sourceRef = dr_derivationId r,
          cp_sourceTitle = ''derived by '' @ dr_ruleId r, cp_actor = ''inference'',
          cp_timestamp = dr_derivedAt r, cp_workspaceId = dr_workspaceId r\<rparr>,
        cc_workspaceId = dr_workspaceId r, cc_createdAt = dr_derivedAt r\<rparr>)"

definition ingest_options_for :: "derived_record \<Rightarrow> ingest_options" where
  "ingest_options_for r = \<lparr>io_workspaceId = dr_workspaceId r, io_actor = ''inference'',
     io_sourceType = ''background_inference'', io_sourceSubType = ''derived_fact'',
     io_sourceRef = dr_derivationId r, io_provenanceId = dr_derivationId r\<rparr>"

section \<open>Admission\<close>

definition held_admission :: "derived_record \<Rightarrow> string \<Rightarrow> jsval \<Rightarrow> jsval \<Rightarrow> admission_result" where
  "held_admission r reason route verification = admission_result_of Adm_held reason r route verification"

definition contradicted_admission ::
  "js_env \<Rightarrow> derived_record \<Rightarrow> string \<Rightarrow> string \<Rightarrow> jsval \<Rightarrow> jsval \<Rightarrow> type_error + admission_result" where
  "contradicted_admission env r moment reason verification route =
     bind_result (transitionDerivedRecord env r (JStr ''contradicted'')
       \<lparr>to_at = JStr moment, to_reason = JStr reason,
        to_receiptId = or_else (jget (jget route ''mutation'') ''receiptId'') (JStr []),
        to_candidateId = or_else (jget (jget route ''candidate'') ''candidateId'') (JStr []),
        to_operationId = or_else (jget (jget route ''mutation'') ''operationId'') (JStr []),
        to_supportRef = JUndefined\<rparr>) (\<lambda>r'.
       Inr (admission_result_of Adm_contradicted reason r' route verification))"

definition receipt_of :: "jsval \<Rightarrow> jsval" where
  "receipt_of route = or_else (jget (jget route ''mutation'') ''receiptId'')
     (or_else (jget (jget route ''admission'') ''receiptId'') (JStr []))"

definition provenance_of :: "jsval \<Rightarrow> jsval" where
  "provenance_of route = or_else (jget (jget route ''admission'') ''provenanceId'')
     (or_else (jget (jget (jget route ''admission'') ''receipt'') ''provenanceId'') (JStr []))"

definition filled_string :: "jsval \<Rightarrow> bool" where
  "filled_string v = (is_string v \<and> v \<noteq> JStr [])"

definition canonical_route :: "derived_record \<Rightarrow> admission_options \<Rightarrow> jsval \<Rightarrow> bool" where
  "canonical_route r opts route =
     ((ao_requireCommittedReceipt opts = JBool True \<longrightarrow> filled_string (jget (jget route ''mutation'') ''receiptId''))
      \<and> jget (jget route ''candidate'') ''status'' = JStr ''accepted''
      \<and> jget (jget route ''admission'') ''outcome'' = JStr ''allow''
      \<and> filled_string (receipt_of route)
      \<and> provenance_of route = JStr (dr_derivationId r))"

definition held_reason :: "js_env \<Rightarrow> jsval \<Rightarrow> string" where
  "held_reason env route =
     (let outcome = jget (jget route ''admission'') ''outcome'' in
      if truthy outcome \<and> outcome \<noteq> JStr ''allow'' then ''admission_'' @ js_string env outcome
      else if jget (jget route ''candidate'') ''status'' = JStr ''pending'' then ''candidate_pending''
      else ''canonical_receipt_not_committed'')"

definition settle_route ::
  "js_env \<Rightarrow> derived_record \<Rightarrow> admission_options \<Rightarrow> string \<Rightarrow> jsval \<Rightarrow> jsval \<Rightarrow> type_error + admission_result" where
  "settle_route env r opts moment verification route =
     (let conflict = (jget (jget route ''conflict'') ''conflict'' = JBool True) in
      if conflict \<or> jget (jget route ''candidate'') ''status'' = JStr ''rejected''
        then contradicted_admission env r moment (if conflict then ''conflict_detected'' else ''candidate_rejected'')
          verification route
      else if \<not> canonical_route r opts route then Inr (held_admission r (held_reason env route) route verification)
      else bind_result (transitionDerivedRecord env r (JStr ''admitted'')
          \<lparr>to_at = JStr moment, to_reason = JStr ''candidate_admitted'', to_receiptId = receipt_of route,
           to_candidateId = jget (jget route ''candidate'') ''candidateId'',
           to_operationId = or_else (jget (jget route ''mutation'') ''operationId'') (JStr []),
           to_supportRef = JUndefined\<rparr>) (\<lambda>r'.
        Inr (admission_result_of Adm_admitted ''candidate_admitted'' r' route verification)))"

definition admission_moment :: "derived_record \<Rightarrow> admission_options \<Rightarrow> string" where
  "admission_moment r opts = (let s = trimmed_or (ao_at opts) [] in if s = [] then dr_derivedAt r else s)"

definition submit_candidate ::
  "js_env \<Rightarrow> derived_record \<Rightarrow> 'w ingest \<Rightarrow> admission_options \<Rightarrow> jsval \<Rightarrow> 'w \<Rightarrow> (type_error + admission_result) \<times> 'w" where
  "submit_candidate env r ingest opts verification w =
     (if list_ex (\<lambda>s. su_derivedRecordId s \<noteq> [] \<and> su_state s \<noteq> ''admitted'') (dr_supports r)
        then (Inr (held_admission r ''support_not_admitted'' JNull JNull), w)
      else case buildCandidateInput r of
        Inl e \<Rightarrow> (Inl e, w)
      | Inr claim \<Rightarrow> (case ingest claim (ingest_options_for r) w of
            (Inl err, w') \<Rightarrow> (Inr ((admission_result_of Adm_error ''candidate_ingress_failed'' r JNull verification)
                \<lparr>ar_errorCode := (case jget err ''code'' of JStr s \<Rightarrow> s | _ \<Rightarrow> [])\<rparr>), w')
          | (Inr route, w') \<Rightarrow> (settle_route env r opts (admission_moment r opts) verification route, w')))"

definition admitDerivedRecord ::
  "js_env \<Rightarrow> derived_record \<Rightarrow> 'w admission_deps \<Rightarrow> admission_options \<Rightarrow> 'w \<Rightarrow> (type_error + admission_result) \<times> 'w" where
  "admitDerivedRecord env r deps opts w =
     (if \<not> validDerivedRecord r
        then (Inr (admission_result_of Adm_invalid ''provisional_derived_record_required'' r JNull JNull), w)
      else if \<not> binaryGroundFact r
        then (Inr (admission_result_of Adm_invalid ''binary_ground_fact_required'' r JNull JNull), w)
      else case ad_ingestCandidateClaim deps of
        None \<Rightarrow> (Inr (admission_result_of Adm_invalid ''ingest_candidate_claim_required'' r JNull JNull), w)
      | Some ingest \<Rightarrow>
          if ruleAdmissionBlocked (ad_ruleBeliefs deps) (dr_ruleId r)
            then (Inr (held_admission r ''rule_belief_not_admissible'' JNull JNull), w)
          else case ad_verifyDerived deps of
            None \<Rightarrow> submit_candidate env r ingest opts JNull w
          | Some verify \<Rightarrow> (case verify (dr_fact r) r w of
                (None, w') \<Rightarrow> (Inr (held_admission r ''verification_unavailable'' JNull JNull), w')
              | (Some verification, w') \<Rightarrow>
                  if verificationStatus env verification = ''contradicted''
                    then (contradicted_admission env r (admission_moment r opts) ''verification_contradicted'' verification JNull, w')
                  else submit_candidate env r ingest opts verification w'))"

end
