(* ===== verification/Inference_Runtime.thy ===== *)
theory Inference_Runtime
  imports Derived_Admission Backward
begin

text \<open>
  The production entry of the inference layer (\<open>src/lib/inference-runtime.js\<close>): one request derives the
  facts that follow from rules and facts, makes a provisional record of each and, when the caller injects an
  admission, offers each record to it; another request proves one fact.  An exception that is caught becomes an
  invalid result; of its message the model keeps the cause (\<open>failure\<close>).  The clock is a function of the
  number of readings, \<open>now_text\<close> the time as a text, and the world of the admission is passed through.
\<close>

section \<open>Results\<close>

datatype failure =
    Input_not_object
  | Limits_invalid
  | Rules_invalid evaluation_stop
  | Rule_failure rule_error
  | Type_failure type_error

datatype runtime_status = Runtime_complete | Runtime_stopped | Runtime_invalid

record derived_entry =
  en_record :: derived_record
  en_admissionStatus :: string
  en_canonicalWrite :: bool

record derived_fact =
  dv_derivationId :: string
  dv_ruleId :: string
  dv_fact :: jsval
  dv_state :: derived_state
  dv_admissionStatus :: string
  dv_canonicalWrite :: bool
  dv_trustReceiptId :: string

record runtime_result =
  rt_status :: runtime_status
  rt_stoppedReason :: evaluation_stop
  rt_error :: "failure option"
  rt_budget :: "jsfields option"
  rt_rounds :: nat
  rt_stats :: "eval_stats option"
  rt_snapshot :: "(string \<times> string) option"
  rt_derivedFacts :: "derived_fact list"
  rt_records :: "derived_record list"
  rt_admissionApplied :: bool
  rt_admittedCount :: nat
  rt_heldCount :: nat

definition invalidResult :: "failure \<Rightarrow> runtime_result" where
  "invalidResult f = \<lparr>rt_status = Runtime_invalid, rt_stoppedReason = Invalid_input, rt_error = Some f,
     rt_budget = None, rt_rounds = 0, rt_stats = None, rt_snapshot = None, rt_derivedFacts = [], rt_records = [],
     rt_admissionApplied = False, rt_admittedCount = 0, rt_heldCount = 0\<rparr>"

section \<open>Inputs\<close>

definition DEFAULT_LIMITS :: jsfields where
  "DEFAULT_LIMITS = [(''maxOperations'', JNum 100000), (''maxRounds'', JNum 64),
     (''maxDerivedFacts'', JNum 10000), (''timeoutMs'', JNum 1000)]"

definition rule_of_input :: "js_env \<Rightarrow> jsval \<Rightarrow> failure + jsval" where
  "rule_of_input env v =
     (if isPlainObject v \<and> is_string (jget v ''schemaVersion'') then Inr v
      else case createRule env v of Inl e \<Rightarrow> Inl (Rule_failure e) | Inr r \<Rightarrow> Inr (rule_json r))"

definition normalizeRuleList :: "js_env \<Rightarrow> jsval \<Rightarrow> failure + jsval list" where
  "normalizeRuleList env v = (case v of
       JArr (x # xs) \<Rightarrow> map_result (rule_of_input env) (x # xs)
     | _ \<Rightarrow> Inl (Type_failure ''rules must be a non-empty array''))"

definition constant_json :: "string \<Rightarrow> failure + jsval" where
  "constant_json s = (case constant_term (JStr s) of Inl e \<Rightarrow> Inl (Rule_failure e) | Inr t \<Rightarrow> Inr (term_json t))"

text \<open>A fact, and a query: with terms, or in the compact form of two texts.\<close>

definition ground_input :: "type_error \<Rightarrow> string \<Rightarrow> jsval \<Rightarrow> failure + jsval" where
  "ground_input message kind v =
     (case jget v ''predicate'' of
        JStr p \<Rightarrow>
          if p = [] then Inl (Type_failure message)
          else (case (jget v ''args'', jget v ''from'', jget v ''to'') of
              (JArr ts, _, _) \<Rightarrow> Inr v
            | (_, JStr a, JStr b) \<Rightarrow>
                bind_result (constant_json a) (\<lambda>x. bind_result (constant_json b) (\<lambda>y.
                  Inr (JObj [(''predicate'', JStr p), (''args'', JArr [x, y])])))
            | _ \<Rightarrow> Inl (Type_failure (kind @ '' '' @ p @ '' needs args or from/to'')))
      | _ \<Rightarrow> Inl (Type_failure message))"

definition normalizeFactList :: "jsval \<Rightarrow> failure + jsval list" where
  "normalizeFactList v = (case v of
       JArr (x # xs) \<Rightarrow> map_result (ground_input ''each fact needs a non-empty predicate'' ''fact'') (x # xs)
     | _ \<Rightarrow> Inl (Type_failure ''facts must be a non-empty array''))"

definition normalizeQuery :: "jsval \<Rightarrow> failure + jsval" where
  "normalizeQuery v = ground_input ''query needs a non-empty predicate'' ''query'' v"

definition runtimeLimits :: "jsval \<Rightarrow> jsfields option" where
  "runtimeLimits v =
     (let limits = foldl (\<lambda>m p. put_field (fst p) (snd p) m) DEFAULT_LIMITS
        (case v of JObj fs \<Rightarrow> own_order fs | _ \<Rightarrow> []) in
      if list_all (\<lambda>p. is_integer (snd p) \<and> num_of (snd p) > 0) limits then Some limits else None)"

definition evaluation_options :: "jsfields \<Rightarrow> eval_options" where
  "evaluation_options limits =
     \<lparr>eo_maxOperations = field limits ''maxOperations'', eo_maxRounds = field limits ''maxRounds'',
      eo_maxDerivedFacts = field limits ''maxDerivedFacts'', eo_timeoutMs = field limits ''timeoutMs'',
      eo_constraintEvaluator = None\<rparr>"

definition proof_options :: "jsfields \<Rightarrow> backward_options" where
  "proof_options limits =
     \<lparr>bo_maxOperations = field limits ''maxOperations'', bo_maxDepth = field limits ''maxDepth'',
      bo_timeoutMs = field limits ''timeoutMs'', bo_constraintEvaluator = None\<rparr>"

section \<open>Snapshots and supports\<close>

definition snapshot_hash :: "js_env \<Rightarrow> string list \<Rightarrow> string" where
  "snapshot_hash env parts = take 32 (sha256_hex env (join [CHR 0x0A] parts))"

definition elements_of :: "jsval \<Rightarrow> jsval list" where
  "elements_of v = (case v of JArr xs \<Rightarrow> xs | _ \<Rightarrow> [])"

definition raw_fact_key :: "js_env \<Rightarrow> jsval \<Rightarrow> string" where
  "raw_fact_key env f = the (stringify env
     (JArr (jget f ''predicate'' # map (\<lambda>t. jget t ''value'') (elements_of (jget f ''args'')))))"

definition filled_or :: "jsval \<Rightarrow> string \<Rightarrow> string" where
  "filled_or v s = (case v of JStr t \<Rightarrow> if t = [] then s else t | _ \<Rightarrow> s)"

definition snapshotIds :: "js_env \<Rightarrow> jsval \<Rightarrow> jsval list \<Rightarrow> jsval list \<Rightarrow> failure + string \<times> string" where
  "snapshotIds env input rules facts =
     (let factId = filled_or (jget input ''graphSnapshotId'')
        (''facts:'' @ snapshot_hash env (sort (map (raw_fact_key env) facts))) in
      if filled_or (jget input ''ruleSnapshotId'') [] \<noteq> []
        then Inr (factId, filled_or (jget input ''ruleSnapshotId'') [])
      else case map_result (serializeRule env) rules of
        Inl e \<Rightarrow> Inl (Rule_failure e)
      | Inr texts \<Rightarrow> Inr (factId, ''rules:'' @ snapshot_hash env (sort texts)))"

definition supportDetailsFor :: "js_env \<Rightarrow> candidate \<Rightarrow> support_input list" where
  "supportDetailsFor env c = map (\<lambda>f. \<lparr>si_fact = Some f, si_provenanceRefs = JUndefined,
     si_sourceRefs = JArr [JStr (''fact:'' @ factKey env f)], si_transitiveProvenanceRefs = JUndefined,
     si_transitiveSourceRefs = JUndefined, si_derivedRecordId = JUndefined, si_state = JUndefined\<rparr>) (ca_supports c)"

section \<open>Deriving\<close>

fun admission_name :: "admission_status \<Rightarrow> string" where
  "admission_name Adm_admitted = ''admitted''"
| "admission_name Adm_held = ''held''"
| "admission_name Adm_contradicted = ''contradicted''"
| "admission_name Adm_invalid = ''invalid''"
| "admission_name Adm_error = ''error''"

definition admitCandidate ::
  "js_env \<Rightarrow> derived_record \<Rightarrow> 'w admission_deps \<Rightarrow> string \<Rightarrow> 'w \<Rightarrow> (type_error + derived_entry) \<times> 'w" where
  "admitCandidate env r deps moment w =
     (case admitDerivedRecord env r deps
         \<lparr>ao_at = JStr moment, ao_requireCommittedReceipt = JUndefined\<rparr> w of
       (res, w') \<Rightarrow> (bind_result res (\<lambda>a. Inr \<lparr>en_record = ar_record a,
          en_admissionStatus = admission_name (ar_status a),
          en_canonicalWrite = (ar_status a = Adm_admitted)\<rparr>), w'))"

definition candidate_record ::
  "js_env \<Rightarrow> string \<Rightarrow> string \<times> string \<Rightarrow> string \<Rightarrow> candidate \<Rightarrow> type_error + derived_record" where
  "candidate_record env workspaceId snapshot derivedAt c =
     buildDerivedRecord env c \<lparr>bo_workspaceId = JStr workspaceId, bo_derivedAt = JStr derivedAt,
       bo_graphSnapshotId = JStr (fst snapshot), bo_ruleSnapshotId = JStr (snd snapshot),
       bo_supportDetails = Some (supportDetailsFor env c), bo_allowProvisionalSupports = JUndefined\<rparr>"

fun derive_entries ::
  "js_env \<Rightarrow> (candidate \<Rightarrow> type_error + derived_record) \<Rightarrow> 'w admission_deps option \<Rightarrow> string \<Rightarrow>
     candidate list \<Rightarrow> 'w \<Rightarrow> (type_error + derived_entry list) \<times> 'w" where
  "derive_entries env build admission moment [] w = (Inr [], w)"
| "derive_entries env build admission moment (c # cs) w =
     (case build c of
        Inl e \<Rightarrow> (Inl e, w)
      | Inr r \<Rightarrow>
          (case (case admission of
              None \<Rightarrow> (Inr \<lparr>en_record = r, en_admissionStatus = ''provisional'', en_canonicalWrite = False\<rparr>, w)
            | Some deps \<Rightarrow> admitCandidate env r deps moment w) of
             (Inl e, w') \<Rightarrow> (Inl e, w')
           | (Inr entry, w') \<Rightarrow>
               (case derive_entries env build admission moment cs w' of
                  (Inl e, w'') \<Rightarrow> (Inl e, w'')
                | (Inr entries, w'') \<Rightarrow> (Inr (entry # entries), w''))))"

definition projectFact :: "rule_atom \<Rightarrow> jsval" where
  "projectFact f = (let values = map (\<lambda>t. JStr (term_value t)) (ra_args f) in
     if length (ra_args f) = 2
       then JObj [(''predicate'', JStr (ra_predicate f)), (''from'', values ! 0), (''to'', values ! 1)]
     else JObj [(''predicate'', JStr (ra_predicate f)), (''args'', JArr values)])"

definition toDerivedFact :: "derived_entry \<Rightarrow> derived_fact" where
  "toDerivedFact en = \<lparr>dv_derivationId = dr_derivationId (en_record en), dv_ruleId = dr_ruleId (en_record en),
     dv_fact = projectFact (dr_fact (en_record en)), dv_state = dr_state (en_record en),
     dv_admissionStatus = en_admissionStatus en, dv_canonicalWrite = en_canonicalWrite en,
     dv_trustReceiptId = dr_trustReceiptId (en_record en)\<rparr>"

record 'w derive_options =
  do_now :: jsval
  do_limits :: jsval
  do_admission :: "'w admission_deps option"

definition usable_admission :: "'w admission_deps option \<Rightarrow> 'w admission_deps option" where
  "usable_admission a = (case a of
       Some d \<Rightarrow> if Option.is_none (ad_ingestCandidateClaim d) then None else Some d
     | None \<Rightarrow> None)"

definition forward_result ::
  "evaluation \<Rightarrow> jsfields \<Rightarrow> string \<times> string \<Rightarrow> bool \<Rightarrow> derived_entry list \<Rightarrow> runtime_result" where
  "forward_result e limits snapshot applied entries =
     (let admitted = length (filter en_canonicalWrite entries) in
      \<lparr>rt_status = (if er_status e = Evaluation_complete then Runtime_complete else Runtime_stopped),
       rt_stoppedReason = er_stoppedReason e, rt_error = None, rt_budget = Some limits,
       rt_rounds = er_rounds e, rt_stats = Some (er_stats e), rt_snapshot = Some snapshot,
       rt_derivedFacts = map toDerivedFact entries, rt_records = map en_record entries,
       rt_admissionApplied = applied, rt_admittedCount = admitted,
       rt_heldCount = length entries - admitted\<rparr>)"

definition evaluateForward ::
  "js_env \<Rightarrow> jsval \<Rightarrow> 'w derive_options \<Rightarrow> jsfields \<Rightarrow> (nat \<Rightarrow> rat) \<Rightarrow> string \<Rightarrow> 'w \<Rightarrow>
     (failure + runtime_result) \<times> 'w" where
  "evaluateForward env input opts limits now now_text w =
     (case bind_result (normalizeRuleList env (jget input ''rules'')) (\<lambda>rules.
           bind_result (normalizeFactList (jget input ''facts'')) (\<lambda>facts. Inr (rules, facts))) of
        Inl e \<Rightarrow> (Inl e, w)
      | Inr (rules, facts) \<Rightarrow>
          (case evaluateSemiNaive env (JArr rules) (JArr facts) (evaluation_options limits) now of
             Inl e \<Rightarrow> (Inl (Rule_failure e), w)
           | Inr e \<Rightarrow>
               if er_status e = Evaluation_invalid
                 then (Inr (invalidResult (Rules_invalid (er_stoppedReason e))), w)
               else (case snapshotIds env input rules facts of
                  Inl f \<Rightarrow> (Inl f, w)
                | Inr snapshot \<Rightarrow>
                    let derivedAt = filled_or (do_now opts) now_text;
                        admission = usable_admission (do_admission opts) in
                    (case derive_entries env
                         (candidate_record env (filled_or (jget input ''workspaceId'') ''default'') snapshot derivedAt)
                         admission derivedAt (er_derivedCandidates e) w of
                       (Inl f, w') \<Rightarrow> (Inl (Type_failure f), w')
                     | (Inr entries, w') \<Rightarrow>
                         (Inr (forward_result e limits snapshot (\<not> Option.is_none admission) entries), w')))))"

definition deriveFromRules ::
  "js_env \<Rightarrow> jsval \<Rightarrow> 'w derive_options \<Rightarrow> (nat \<Rightarrow> rat) \<Rightarrow> string \<Rightarrow> 'w \<Rightarrow> runtime_result \<times> 'w" where
  "deriveFromRules env input opts now now_text w =
     (if \<not> isPlainObject input then (invalidResult Input_not_object, w)
      else case runtimeLimits (do_limits opts) of
        None \<Rightarrow> (invalidResult Limits_invalid, w)
      | Some limits \<Rightarrow>
          (case evaluateForward env input opts limits now now_text w of
             (Inl f, w') \<Rightarrow> (invalidResult f, w')
           | (Inr r, w') \<Rightarrow> (r, w')))"

section \<open>Proving\<close>

text \<open>The answer of the prover, or the reason why it was not asked.\<close>

definition proveFromRules ::
  "js_env \<Rightarrow> jsval \<Rightarrow> jsval \<Rightarrow> (nat \<Rightarrow> rat) \<Rightarrow> failure + backward_result" where
  "proveFromRules env input limitsInput now =
     (if \<not> isPlainObject input then Inl Input_not_object
      else case runtimeLimits limitsInput of
        None \<Rightarrow> Inl Limits_invalid
      | Some limits \<Rightarrow>
          bind_result (normalizeRuleList env (jget input ''rules'')) (\<lambda>rules.
          bind_result (normalizeFactList (jget input ''facts'')) (\<lambda>facts.
          bind_result (normalizeQuery (jget input ''query'')) (\<lambda>query.
            case proveBackward env query (JArr rules) (JArr facts) (proof_options limits) now of
              Inl e \<Rightarrow> Inl (Rule_failure e)
            | Inr r \<Rightarrow> Inr r))))"

end
