(* ===== verification/Inference_Runtime_Properties.thy ===== *)
theory Inference_Runtime_Properties
  imports Inference_Runtime Derived_Properties Belief_Properties Backward_Properties
begin

text \<open>
  What a request to the inference runtime promises: its records follow from the rules and facts of the request,
  all of them when it says that it is complete, and a record that it calls admitted went through the ingress of
  the caller.  An example shows what the seam does not look at: the supports of a conclusion.
\<close>

section \<open>Admission\<close>

lemma contradicted_status: "contradicted_admission env r moment reason v route = Inr a \<Longrightarrow> ar_status a = Adm_contradicted"
  by (auto simp: contradicted_admission_def bind_result_eq_Inr admission_result_of_def)

lemma settle_route_admits:
  "settle_route env r opts moment v route = Inr a \<Longrightarrow> ar_status a = Adm_admitted \<longleftrightarrow>
     jget (jget route ''conflict'') ''conflict'' \<noteq> JBool True \<and> canonical_route r opts route"
  by (auto simp: settle_route_def Let_def held_admission_def admission_result_of_def bind_result_eq_Inr canonical_route_def
    dest!: contradicted_status split: if_splits)

lemma settle_route_receipt:
  assumes "settle_route env r opts moment v route = Inr a" and adm: "ar_status a = Adm_admitted"
  shows "ar_routeResult a = route \<and> (\<exists>receipt. receipt_of route = JStr receipt \<and> dr_trustReceiptId (ar_record a) = trim receipt)
    \<and> dr_state (ar_record a) = Admitted \<and> dr_derivationId (ar_record a) = dr_derivationId r
    \<and> dr_fact (ar_record a) = dr_fact r \<and> dr_ruleId (ar_record a) = dr_ruleId r"
proof -
  have ok: "canonical_route r opts route" and not: "\<not> (jget (jget route ''conflict'') ''conflict'' = JBool True
      \<or> jget (jget route ''candidate'') ''status'' = JStr ''rejected'')"
    using settle_route_admits [OF assms(1)] adm by (auto simp: canonical_route_def)
  then obtain r' where t: "transitionDerivedRecord env r (JStr ''admitted'')
          \<lparr>to_at = JStr moment, to_reason = JStr ''candidate_admitted'', to_receiptId = receipt_of route,
           to_candidateId = jget (jget route ''candidate'') ''candidateId'',
           to_operationId = or_else (jget (jget route ''mutation'') ''operationId'') (JStr []),
           to_supportRef = JUndefined\<rparr> = Inr r'" and a: "ar_record a = r'" "ar_routeResult a = route"
    using assms by (auto simp: settle_route_def Let_def bind_result_eq_Inr admission_result_of_def)
  obtain receipt where receipt: "receipt_of route = JStr receipt"
    using ok by (cases "receipt_of route") (auto simp: canonical_route_def filled_string_def)
  have "dr_state r' = Admitted \<and> dr_trustReceiptId r' = trim receipt"
    using t receipt by (auto elim!: transitionE simp: transition_event_def trimmed_or_def)
  then show ?thesis using receipt a transition_same [OF t] by simp
qed

lemma submit_candidate_admits:
  assumes "submit_candidate env r ingest opts v w = (Inr a, w')"
  shows "ar_status a = Adm_admitted \<longleftrightarrow>
      (\<forall>s\<in>set (dr_supports r). su_derivedRecordId s \<noteq> [] \<longrightarrow> su_state s = ''admitted'')
      \<and> (\<exists>claim route. buildCandidateInput r = Inr claim \<and> ingest claim (ingest_options_for r) w = (Inr route, w')
          \<and> jget (jget route ''conflict'') ''conflict'' \<noteq> JBool True \<and> canonical_route r opts route)"
    and "ar_status a = Adm_admitted \<Longrightarrow> \<exists>route. settle_route env r opts (admission_moment r opts) v route = Inr a"
  using assms by (auto simp: submit_candidate_def list_ex_iff held_admission_def admission_result_of_def settle_route_admits
    split: if_splits sum.splits prod.splits)

text \<open>The state and the answer of the verifier that the caller may have injected.\<close>

definition unrefuted :: "js_env \<Rightarrow> derived_record \<Rightarrow> 'w admission_deps \<Rightarrow> 'w \<Rightarrow> 'w \<Rightarrow> bool" where
  "unrefuted env r deps w w1 = (case ad_verifyDerived deps of
       None \<Rightarrow> w1 = w
     | Some verify \<Rightarrow> \<exists>v. verify (dr_fact r) r w = (Some v, w1) \<and> verificationStatus env v \<noteq> ''contradicted'')"

lemma admitDerivedRecord_submits:
  assumes "admitDerivedRecord env r deps opts w = (Inr a, w')"
  shows "ar_status a = Adm_admitted \<longleftrightarrow> validDerivedRecord r \<and> binaryGroundFact r
      \<and> \<not> ruleAdmissionBlocked (ad_ruleBeliefs deps) (dr_ruleId r)
      \<and> (\<exists>ingest w1 v. ad_ingestCandidateClaim deps = Some ingest \<and> unrefuted env r deps w w1
          \<and> submit_candidate env r ingest opts v w1 = (Inr a, w') \<and> ar_status a = Adm_admitted)"
  using assms unfolding admitDerivedRecord_def unrefuted_def
  by (auto simp: held_admission_def admission_result_of_def dest!: contradicted_status split: if_splits option.splits prod.splits)

lemma admitDerivedRecord_admits:
  assumes run: "admitDerivedRecord env r deps opts w = (Inr a, w')"
  shows "ar_status a = Adm_admitted \<longleftrightarrow> validDerivedRecord r \<and> binaryGroundFact r
      \<and> \<not> ruleAdmissionBlocked (ad_ruleBeliefs deps) (dr_ruleId r)
      \<and> (\<forall>s\<in>set (dr_supports r). su_derivedRecordId s \<noteq> [] \<longrightarrow> su_state s = ''admitted'')
      \<and> (\<exists>ingest w1 claim route. ad_ingestCandidateClaim deps = Some ingest \<and> unrefuted env r deps w w1
          \<and> buildCandidateInput r = Inr claim \<and> ingest claim (ingest_options_for r) w1 = (Inr route, w')
          \<and> jget (jget route ''conflict'') ''conflict'' \<noteq> JBool True \<and> canonical_route r opts route)"
    (is "_ \<longleftrightarrow> ?valid \<and> ?binary \<and> ?free \<and> ?supports \<and> ?route")
proof
  assume adm: "ar_status a = Adm_admitted"
  with admitDerivedRecord_submits [OF run] obtain ingest w1 v where ok: ?valid ?binary ?free
    "ad_ingestCandidateClaim deps = Some ingest" "unrefuted env r deps w w1" "submit_candidate env r ingest opts v w1 = (Inr a, w')"
    by blast
  with submit_candidate_admits(1) [OF ok(6)] adm show "?valid \<and> ?binary \<and> ?free \<and> ?supports \<and> ?route" by blast
next
  assume ok: "?valid \<and> ?binary \<and> ?free \<and> ?supports \<and> ?route"
  then obtain ingest w1 claim route where i: "ad_ingestCandidateClaim deps = Some ingest" "unrefuted env r deps w w1"
    and go: "buildCandidateInput r = Inr claim" "ingest claim (ingest_options_for r) w1 = (Inr route, w')"
      "jget (jget route ''conflict'') ''conflict'' \<noteq> JBool True" "canonical_route r opts route" by blast
  obtain v where s: "submit_candidate env r ingest opts v w1 = (Inr a, w')"
    using run ok i unfolding admitDerivedRecord_def unrefuted_def by (auto split: option.splits)
  show "ar_status a = Adm_admitted" using submit_candidate_admits(1) [OF s] ok go by blast
qed

lemma admitDerivedRecord_receipt:
  assumes "admitDerivedRecord env r deps opts w = (Inr a, w')" and adm: "ar_status a = Adm_admitted"
  shows "(\<exists>receipt. receipt_of (ar_routeResult a) = JStr receipt \<and> dr_trustReceiptId (ar_record a) = trim receipt)
    \<and> dr_state (ar_record a) = Admitted \<and> dr_derivationId (ar_record a) = dr_derivationId r
    \<and> dr_fact (ar_record a) = dr_fact r \<and> dr_ruleId (ar_record a) = dr_ruleId r"
proof -
  from admitDerivedRecord_submits [OF assms(1)] adm obtain ingest w1 v where
    "submit_candidate env r ingest opts v w1 = (Inr a, w')" by blast
  from submit_candidate_admits(2) [OF this adm] obtain route where
    "settle_route env r opts (admission_moment r opts) v route = Inr a" by blast
  from settle_route_receipt [OF this adm] show ?thesis by auto
qed

lemma contradicted_record:
  "contradicted_admission env r moment reason v route = Inr a \<Longrightarrow>
     dr_state (ar_record a) = Contradicted \<and> dr_fact (ar_record a) = dr_fact r"
  by (auto simp: contradicted_admission_def bind_result_eq_Inr admission_result_of_def transition_same(3) elim!: transitionE)

lemma settle_route_record:
  "settle_route env r opts moment v route = Inr a \<Longrightarrow> dr_fact (ar_record a) = dr_fact r
     \<and> (dr_state (ar_record a) = Admitted \<longrightarrow> ar_status a = Adm_admitted \<or> dr_state r = Admitted)"
  by (auto simp: settle_route_def Let_def held_admission_def admission_result_of_def bind_result_eq_Inr transition_same(3)
    dest!: contradicted_record split: if_splits)

lemma submit_candidate_record:
  "submit_candidate env r ingest opts v w = (Inr a, w') \<Longrightarrow> dr_fact (ar_record a) = dr_fact r
     \<and> (dr_state (ar_record a) = Admitted \<longrightarrow> ar_status a = Adm_admitted \<or> dr_state r = Admitted)"
  by (auto simp: submit_candidate_def held_admission_def admission_result_of_def
    dest!: settle_route_record split: if_splits sum.splits prod.splits)

lemma admitDerivedRecord_record:
  assumes "admitDerivedRecord env r deps opts w = (Inr a, w')"
  shows "dr_fact (ar_record a) = dr_fact r
     \<and> (dr_state (ar_record a) = Admitted \<longrightarrow> ar_status a = Adm_admitted \<or> dr_state r = Admitted)"
  using assms unfolding admitDerivedRecord_def
  by (auto simp: held_admission_def admission_result_of_def dest!: submit_candidate_record contradicted_record
    split: if_splits option.splits prod.splits)

section \<open>Entries\<close>





section \<open>A request\<close>




lemma list_all2_right: "list_all2 P xs ys \<Longrightarrow> y \<in> set ys \<Longrightarrow> \<exists>x\<in>set xs. P x y"
  by (induction rule: list_all2_induct) auto






section \<open>Admission\<close>

lemma is_string_JStr: "is_string v \<longleftrightarrow> (\<exists>s. v = JStr s)"
  by (cases v) auto

lemma or_else_filled:
  "filled_string (or_else x (or_else y (JStr []))) \<and> or_else x (or_else y (JStr [])) = JStr s \<longleftrightarrow>
     s \<noteq> [] \<and> (x = JStr s \<or> \<not> truthy x \<and> y = JStr s)"
  by (auto simp: or_else_def filled_string_def)

lemma receipt_of_filled:
  "filled_string (receipt_of route) \<longleftrightarrow> (\<exists>receipt. receipt \<noteq> []
     \<and> (jget (jget route ''mutation'') ''receiptId'' = JStr receipt
        \<or> \<not> truthy (jget (jget route ''mutation'') ''receiptId'') \<and> jget (jget route ''admission'') ''receiptId'' = JStr receipt))"
  by (auto simp: receipt_of_def or_else_def filled_string_def is_string_JStr)

text \<open>
  C28: a derived record is admitted exactly when everything that the ingress of claims asks for holds: it is a
  provisional record of this schema with a binary ground fact; the beliefs about its rule do not block it;
  the verifier, if there is one, answered and did not refute it; every support that is itself a derived record is
  admitted; and the injected ingress, given the candidate built from the record, answered without a conflict,
  with an accepted candidate, an admission that allows it, the identity of this derivation, and a receipt, which
  is that of a committed mutation when the caller asks for one.  The admitted record carries that receipt and
  keeps its identity, fact and rule, and no other outcome makes a record admitted.
\<close>

theorem admission_is_earned:
  assumes "admitDerivedRecord env r deps opts w = (Inr a, w')"
  shows "(ar_status a = Adm_admitted \<longleftrightarrow>
      dr_schemaVersion r = DERIVED_RECORD_SCHEMA_VERSION \<and> dr_state r = Provisional
      \<and> length (ra_args (dr_fact r)) = 2 \<and> (\<forall>t\<in>set (ra_args (dr_fact r)). is_constant t)
      \<and> \<not> ruleAdmissionBlocked (ad_ruleBeliefs deps) (dr_ruleId r)
      \<and> (\<forall>s\<in>set (dr_supports r). su_derivedRecordId s \<noteq> [] \<longrightarrow> su_state s = ''admitted'')
      \<and> (\<exists>ingest w1 claim route receipt. ad_ingestCandidateClaim deps = Some ingest
          \<and> (case ad_verifyDerived deps of
               None \<Rightarrow> w1 = w
             | Some verify \<Rightarrow> \<exists>v. verify (dr_fact r) r w = (Some v, w1) \<and> verificationStatus env v \<noteq> ''contradicted'')
          \<and> buildCandidateInput r = Inr claim \<and> ingest claim (ingest_options_for r) w1 = (Inr route, w')
          \<and> jget (jget route ''conflict'') ''conflict'' \<noteq> JBool True
          \<and> jget (jget route ''candidate'') ''status'' = JStr ''accepted''
          \<and> jget (jget route ''admission'') ''outcome'' = JStr ''allow''
          \<and> or_else (jget (jget route ''admission'') ''provenanceId'')
              (or_else (jget (jget (jget route ''admission'') ''receipt'') ''provenanceId'') (JStr [])) = JStr (dr_derivationId r)
          \<and> receipt \<noteq> [] \<and> (jget (jget route ''mutation'') ''receiptId'' = JStr receipt
              \<or> ao_requireCommittedReceipt opts \<noteq> JBool True \<and> \<not> truthy (jget (jget route ''mutation'') ''receiptId'')
                \<and> jget (jget route ''admission'') ''receiptId'' = JStr receipt)))
    \<and> (ar_status a = Adm_admitted \<longrightarrow>
      (\<exists>receipt. receipt_of (ar_routeResult a) = JStr receipt \<and> dr_trustReceiptId (ar_record a) = trim receipt)
      \<and> dr_state (ar_record a) = Admitted \<and> dr_derivationId (ar_record a) = dr_derivationId r
      \<and> dr_fact (ar_record a) = dr_fact r \<and> dr_ruleId (ar_record a) = dr_ruleId r)
    \<and> (dr_state (ar_record a) = Admitted \<longrightarrow> ar_status a = Adm_admitted \<or> dr_state r = Admitted)"
proof -
  have route: "canonical_route r opts route \<longleftrightarrow> (\<exists>receipt. jget (jget route ''candidate'') ''status'' = JStr ''accepted''
          \<and> jget (jget route ''admission'') ''outcome'' = JStr ''allow''
          \<and> or_else (jget (jget route ''admission'') ''provenanceId'')
              (or_else (jget (jget (jget route ''admission'') ''receipt'') ''provenanceId'') (JStr [])) = JStr (dr_derivationId r)
          \<and> receipt \<noteq> [] \<and> (jget (jget route ''mutation'') ''receiptId'' = JStr receipt
              \<or> ao_requireCommittedReceipt opts \<noteq> JBool True \<and> \<not> truthy (jget (jget route ''mutation'') ''receiptId'')
                \<and> jget (jget route ''admission'') ''receiptId'' = JStr receipt))" for route
    unfolding canonical_route_def receipt_of_filled provenance_of_def
    by (auto simp: filled_string_def is_string_JStr)
  show ?thesis
    using admitDerivedRecord_receipt [OF assms] admitDerivedRecord_record [OF assms]
    unfolding admitDerivedRecord_admits [OF assms] validDerivedRecord_def binaryGroundFact_def unrefuted_def route list_all_iff
    by blast
qed

section \<open>Examples\<close>



definition wary_ingest :: "string list ingest" where
  "wary_ingest claim opts calls = (if ce_relation (cc_proposedEdge claim) = ''p''
     then (Inr (JObj [(''candidate'', JObj [(''status'', JStr ''pending'')])]), ''pending'' # calls)
     else (Inr (JObj
       [(''candidate'', JObj [(''candidateId'', JStr (cc_candidateId claim)), (''status'', JStr ''accepted'')]),
        (''admission'', JObj [(''outcome'', JStr ''allow''), (''provenanceId'', JStr (io_provenanceId opts)),
          (''receiptId'', JStr ''receipt'')])]), ''accepted'' # calls))"

definition chain_admission :: "string list admission_deps" where
  "chain_admission = \<lparr>ad_ingestCandidateClaim = Some wary_ingest, ad_verifyDerived = None, ad_ruleBeliefs = JUndefined\<rparr>"


definition chain_candidates :: "candidate list" where
  "chain_candidates =
     [derived_path 1 [(''x'', ''a''), (''y'', ''b'')] [ground_pair ''e'' ''a'' ''b''] ''r0'' ''a'' ''b'',
      (derived_path 2 [(''x'', ''a''), (''y'', ''b'')] [ground_pair ''p'' ''a'' ''b''] ''r2'' ''a'' ''b'')
        \<lparr>ca_fact := ground_pair ''q'' ''a'' ''b''\<rparr>]"










text \<open>The second conclusion again, now over a support that is named as a derived record, in one state or another.\<close>

definition rest_on :: "string \<Rightarrow> derived_record" where
  "rest_on state = (case buildDerivedRecord derived_env (chain_candidates ! 1)
       \<lparr>bo_workspaceId = JStr ''default'', bo_derivedAt = JStr ''10'', bo_graphSnapshotId = JStr ''g'', bo_ruleSnapshotId = JStr ''s'',
        bo_supportDetails = Some [\<lparr>si_fact = Some (ground_pair ''p'' ''a'' ''b''), si_provenanceRefs = JUndefined,
          si_sourceRefs = JUndefined, si_transitiveProvenanceRefs = JUndefined, si_transitiveSourceRefs = JUndefined,
          si_derivedRecordId = JStr ''d1'', si_state = JStr state\<rparr>],
        bo_allowProvisionalSupports = JBool True\<rparr> of Inr r \<Rightarrow> r)"

lemma rest_on_runs:
  "map_prod (map_sum id (\<lambda>a. ar_status a)) id (admitDerivedRecord derived_env (rest_on ''admitted'') chain_admission
     \<lparr>ao_at = JStr ''10'', ao_requireCommittedReceipt = JUndefined\<rparr> []) = (Inr Adm_admitted, [''accepted''])"
  "map_prod (map_sum id (\<lambda>a. 0 :: nat)) id (admitDerivedRecord derived_env (rest_on ''provisional'') chain_admission
     \<lparr>ao_at = JStr ''10'', ao_requireCommittedReceipt = JUndefined\<rparr> []) = (Inr 0, [])"
  "map (\<lambda>s. (su_derivedRecordId s, su_state s)) (dr_supports (rest_on ''provisional'')) = [(''d1'', ''provisional'')]"
  by code_simp+

theorem admission_is_earned_witness:
  "(\<exists>a w. admitDerivedRecord derived_env (rest_on ''admitted'') chain_admission
       \<lparr>ao_at = JStr ''10'', ao_requireCommittedReceipt = JUndefined\<rparr> [] = (Inr a, w) \<and> dr_state (ar_record a) = Admitted)
   \<and> (\<exists>a w. admitDerivedRecord derived_env (rest_on ''provisional'') chain_admission
       \<lparr>ao_at = JStr ''10'', ao_requireCommittedReceipt = JUndefined\<rparr> [] = (Inr a, w) \<and> ar_status a \<noteq> Adm_admitted)"
proof
  let ?opts = "\<lparr>ao_at = JStr ''10'', ao_requireCommittedReceipt = JUndefined\<rparr>"
  obtain a w where run: "admitDerivedRecord derived_env (rest_on ''admitted'') chain_admission ?opts [] = (Inr a, w)"
    and adm: "ar_status a = Adm_admitted"
    using rest_on_runs(1) by (auto simp: map_prod_def map_sum_def split: prod.splits sum.splits)
  show "\<exists>a w. admitDerivedRecord derived_env (rest_on ''admitted'') chain_admission ?opts [] = (Inr a, w)
      \<and> dr_state (ar_record a) = Admitted"
    using admission_is_earned [OF run] run adm by blast
next
  let ?opts = "\<lparr>ao_at = JStr ''10'', ao_requireCommittedReceipt = JUndefined\<rparr>"
  obtain a w where run: "admitDerivedRecord derived_env (rest_on ''provisional'') chain_admission ?opts [] = (Inr a, w)"
    using rest_on_runs(2) by (auto simp: map_prod_def map_sum_def split: prod.splits sum.splits)
  have "(''d1'', ''provisional'') \<in> (\<lambda>s. (su_derivedRecordId s, su_state s)) ` set (dr_supports (rest_on ''provisional''))"
    using arg_cong [OF rest_on_runs(3), of set] by simp
  then obtain s where s: "s \<in> set (dr_supports (rest_on ''provisional''))" "su_derivedRecordId s = ''d1''" "su_state s = ''provisional''"
    by auto
  have "\<not> (\<forall>s\<in>set (dr_supports (rest_on ''provisional'')). su_derivedRecordId s \<noteq> [] \<longrightarrow> su_state s = ''admitted'')"
  proof
    assume "\<forall>s\<in>set (dr_supports (rest_on ''provisional'')). su_derivedRecordId s \<noteq> [] \<longrightarrow> su_state s = ''admitted''"
    from bspec [OF this s(1)] s(2,3) show False by simp
  qed
  then have "ar_status a \<noteq> Adm_admitted" using admission_is_earned [OF run] by blast
  with run show "\<exists>a w. admitDerivedRecord derived_env (rest_on ''provisional'') chain_admission ?opts [] = (Inr a, w)
      \<and> ar_status a \<noteq> Adm_admitted" by blast
qed

end
