(* ===== verification/Break_Glass.thy ===== *)
theory Break_Glass
  imports Emergency_Stop_Chain Oversight_Types
begin

text \<open>
  Break glass: the ledger of override windows (\<open>src/lib/break-glass-ledger.js\<close>), the windows over it
  (\<open>src/lib/break-glass.js\<close>) and their use on one decision of the guard (\<open>src/lib/break-glass-gate.js\<close>).
  The ledger file is that of the emergency stop (its non-blank lines) and so is the hash of an entry.
  An operation under the lock is one function from the ledger to its answer and the ledger after it;
  \<open>locked\<close> says whether the lock was obtained.  A thrown exception is \<open>Inl\<close> of a \<open>glass_error\<close>, a refusal
  is a \<open>glass_refusal\<close>.  \<open>clk i\<close> is the reading number \<open>i\<close> of the clock, \<open>uuid\<close> a fresh identity.
  Writing to the file succeeds.
\<close>

section \<open>The ledger\<close>

datatype glass_reason = Broken ledger_reason | Duplicate_issue

fun glass_entry_of :: "ledger_line \<Rightarrow> jsval" where
  "glass_entry_of Corrupt_line = JObj [(''__corrupt'', JBool True)]"
| "glass_entry_of (Json_line v) = (if isPlainObject v then v else JObj [(''__corrupt'', JBool True)])"

definition readEntries :: "ledger_file \<Rightarrow> jsval list" where
  "readEntries d = (case d of
       Ledger_absent \<Rightarrow> []
     | Ledger_unreadable \<Rightarrow> [JObj [(''__unreadable'', JBool True)]]
     | Ledger lines \<Rightarrow> map glass_entry_of lines)"

definition BREAK_GLASS_ACTIONS :: "jsval set" where
  "BREAK_GLASS_ACTIONS = {JStr ''issue'', JStr ''consume'', JStr ''lift''}"

text \<open>A set of values finds an object only by its identity, and those of a parsed ledger differ.\<close>

definition set_has :: "jsval list \<Rightarrow> jsval \<Rightarrow> bool" where
  "set_has vs v = (\<not> is_object v \<and> v \<in> set vs)"

fun verify_glass_from ::
  "js_env \<Rightarrow> nat \<Rightarrow> jsval \<Rightarrow> jsval list \<Rightarrow> jsval list \<Rightarrow> glass_reason option" where
  "verify_glass_from env i prevHash issued [] = None"
| "verify_glass_from env i prevHash issued (e # es) =
     (if jget e ''seq'' \<noteq> JNum (of_nat i) then Some (Broken Seq_gap)
      else if nullish_to_null (jget e ''prevHash'') \<noteq> prevHash then Some (Broken Prevhash_mismatch)
      else if jget e ''hash'' \<noteq> JStr (computeEntryHash env (entry_payload e) prevHash)
        then Some (Broken Hash_mismatch)
      else if jget e ''action'' \<notin> BREAK_GLASS_ACTIONS then Some (Broken Invalid_action)
      else if jget e ''action'' = JStr ''issue'' \<and> set_has issued (jget e ''windowId'') then Some Duplicate_issue
      else verify_glass_from env (Suc i) (jget e ''hash'')
        (if jget e ''action'' = JStr ''issue'' then jget e ''windowId'' # issued else issued) es)"

definition verifyEntries :: "js_env \<Rightarrow> jsval list \<Rightarrow> glass_reason option" where
  "verifyEntries env entries = (if list_ex is_damaged entries then Some (Broken Unreadable_or_corrupt)
     else verify_glass_from env 0 JNull [] entries)"

definition glassIntegrity :: "js_env \<Rightarrow> ledger_file \<Rightarrow> glass_reason option" where
  "glassIntegrity env d = verifyEntries env (readEntries d)"

datatype glass_error =
    Workspace_error stop_error
  | Reason_required
  | Actor_required
  | Ttl_out_of_range
  | Uses_out_of_range
  | Invalid_time
  | Append_unverifiable glass_reason
  | Append_locked

definition glass_tip :: "jsval list \<Rightarrow> jsval \<times> nat" where
  "glass_tip entries = (if entries = [] then (JNull, 0) else (jget (last entries) ''hash'', length entries))"

definition glass_entry :: "js_env \<Rightarrow> jsfields \<Rightarrow> jsval list \<Rightarrow> jsval" where
  "glass_entry env payload entries = (case glass_tip entries of (prevHash, seq) \<Rightarrow>
     JObj ([(''seq'', JNum (of_nat seq)), (''prevHash'', prevHash),
       (''hash'', JStr (computeEntryHash env payload prevHash))] @ payload))"

definition append_json :: "jsval \<Rightarrow> ledger_file \<Rightarrow> ledger_file" where
  "append_json v d = (case d of
       Ledger lines \<Rightarrow> Ledger (lines @ [Json_line v])
     | Ledger_absent \<Rightarrow> Ledger [Json_line v]
     | Ledger_unreadable \<Rightarrow> Ledger_unreadable)"

definition appendEntryUnlocked ::
  "js_env \<Rightarrow> jsfields \<Rightarrow> ledger_file \<Rightarrow> (glass_error + jsval) \<times> ledger_file" where
  "appendEntryUnlocked env payload d = (let entries = readEntries d in
     case verifyEntries env entries of
       Some r \<Rightarrow> (Inl (Append_unverifiable r), d)
     | None \<Rightarrow> let e = glass_entry env payload entries in (Inr e, append_json e d))"

definition appendEntry ::
  "js_env \<Rightarrow> jsfields \<Rightarrow> bool \<Rightarrow> ledger_file \<Rightarrow> (glass_error + jsval) \<times> ledger_file" where
  "appendEntry env payload locked d =
     (if locked then appendEntryUnlocked env payload d else (Inl Append_locked, d))"

section \<open>Windows\<close>

definition MAX_WINDOW_MS :: int where "MAX_WINDOW_MS = 60 * 60 * 1000"
definition DEFAULT_WINDOW_MS :: int where "DEFAULT_WINDOW_MS = 30 * 60 * 1000"
definition MAX_USES :: int where "MAX_USES = 50"
definition DEFAULT_USES :: int where "DEFAULT_USES = 10"
definition MAX_GLASS_TEXT :: nat where "MAX_GLASS_TEXT = 256"

definition glass_text :: "jsval \<Rightarrow> string" where
  "glass_text v = (case v of JStr s \<Rightarrow> take MAX_GLASS_TEXT (trim s) | _ \<Rightarrow> [])"

text \<open>\<open>text(v) || null\<close>\<close>

definition text_or_null :: "jsval \<Rightarrow> jsval" where
  "text_or_null v = (if glass_text v = [] then JNull else JStr (glass_text v))"

record glass_window =
  gw_windowId :: jsval
  gw_workspaceId :: jsval
  gw_agentId :: jsval
  gw_reason :: jsval
  gw_actor :: jsval
  gw_operatorIdentity :: jsval
  gw_issuedAt :: jsval
  gw_expiresAt :: jsval
  gw_maxUses :: jsval
  gw_categories :: "jsval list"

definition windowFromEntry :: "jsval \<Rightarrow> glass_window" where
  "windowFromEntry e = \<lparr>gw_windowId = jget e ''windowId'', gw_workspaceId = jget e ''workspaceId'',
     gw_agentId = nullish_to_null (jget e ''agentId''), gw_reason = jget e ''reason'', gw_actor = jget e ''actor'',
     gw_operatorIdentity = nullish_to_null (jget e ''operatorIdentity''), gw_issuedAt = jget e ''issuedAt'',
     gw_expiresAt = jget e ''expiresAt'', gw_maxUses = jget e ''maxUses'',
     gw_categories = (case jget e ''categories'' of JArr xs \<Rightarrow> xs | _ \<Rightarrow> [])\<rparr>"

text \<open>The replay of one window: the window, its uses and whether it was lifted.\<close>

type_synonym replay = "glass_window option \<times> nat \<times> bool"

definition replay_step :: "string \<Rightarrow> jsval \<Rightarrow> replay \<Rightarrow> replay" where
  "replay_step i e st = (case st of (window, uses, lifted) \<Rightarrow>
     if jget e ''windowId'' \<noteq> JStr i then st
     else if jget e ''action'' = JStr ''issue'' then (Some (windowFromEntry e), 0, False)
     else if jget e ''action'' = JStr ''consume'' then (window, Suc uses, lifted)
     else if jget e ''action'' = JStr ''lift'' then (window, uses, True)
     else st)"

definition replay :: "string \<Rightarrow> jsval list \<Rightarrow> replay" where
  "replay i es = fold (replay_step i) es (None, 0, False)"

record window_state =
  ws_window :: glass_window
  ws_uses :: nat
  ws_lifted :: bool

text \<open>\<open>Math.max(0, window.maxUses - uses)\<close>; \<open>None\<close> is not a number, and is not below or equal to 0.\<close>

definition remainingUses :: "js_env \<Rightarrow> window_state \<Rightarrow> rat option" where
  "remainingUses env st = map_option (\<lambda>m. max 0 (m - of_nat (ws_uses st))) (to_number env (gw_maxUses (ws_window st)))"

definition no_uses_left :: "js_env \<Rightarrow> window_state \<Rightarrow> bool" where
  "no_uses_left env st = (case remainingUses env st of None \<Rightarrow> False | Some r \<Rightarrow> r \<le> 0)"

definition windowState :: "js_env \<Rightarrow> ledger_file \<Rightarrow> jsval \<Rightarrow> window_state option" where
  "windowState env d windowId = (let i = glass_text windowId; entries = readEntries d in
     if i = [] \<or> verifyEntries env entries \<noteq> None then None
     else case replay i entries of
       (None, uses, lifted) \<Rightarrow> None
     | (Some window, uses, lifted) \<Rightarrow> Some \<lparr>ws_window = window, ws_uses = uses, ws_lifted = lifted\<rparr>)"

definition add_id :: "jsval \<Rightarrow> jsval list \<Rightarrow> jsval list" where
  "add_id e ids = (if jget e ''action'' = JStr ''issue'' \<and> \<not> set_has ids (jget e ''windowId'')
     then ids @ [jget e ''windowId''] else ids)"

definition allWindows :: "js_env \<Rightarrow> ledger_file \<Rightarrow> window_state list" where
  "allWindows env d = (let entries = readEntries d in
     if verifyEntries env entries \<noteq> None then []
     else List.map_filter (windowState env d) (fold add_id entries []))"

section \<open>Issuing\<close>

datatype glass_refusal =
    Integrity_violation glass_reason
  | Window_exists glass_window
  | Window_not_found
  | Window_lifted
  | Window_expired
  | Window_exhausted
  | Workspace_mismatch
  | Agent_mismatch
  | Category_not_permitted
  | Ledger_locked

record issue_request =
  gi_workspaceId :: jsval
  gi_agentId :: jsval
  gi_reason :: jsval
  gi_actor :: jsval
  gi_operatorIdentity :: jsval
  gi_ttlMs :: jsval
  gi_maxUses :: jsval
  gi_categories :: jsval
  gi_windowId :: jsval

definition glass_workspace :: "jsval \<Rightarrow> glass_error + string" where
  "glass_workspace v = (case normalizeWorkspaceId v of Inl e \<Rightarrow> Inl (Workspace_error e) | Inr s \<Rightarrow> Inr s)"

text \<open>An optional integer between 1 and a limit.\<close>

definition bounded_integer :: "jsval \<Rightarrow> int \<Rightarrow> int \<Rightarrow> glass_error \<Rightarrow> glass_error + int" where
  "bounded_integer v fallback limit e =
     (let x = (if v = JUndefined then JNum (of_int fallback) else v) in
      if \<not> is_integer x \<or> num_of x \<le> 0 \<or> num_of x > of_int limit then Inl e else Inr \<lfloor>num_of x\<rfloor>)"

definition scoped_categories :: "jsval \<Rightarrow> string list" where
  "scoped_categories v = (case v of
       JArr xs \<Rightarrow> rev (remdups (rev (filter (\<lambda>s. s \<noteq> []) (map glass_text xs))))
     | _ \<Rightarrow> [])"

text \<open>\<open>new Date(Date.parse(issuedAt) + ttl).toISOString()\<close>, which throws outside the range of dates.\<close>

definition expiry :: "js_env \<Rightarrow> string \<Rightarrow> int \<Rightarrow> glass_error + string" where
  "expiry env issuedAt ttl = (case date_parse env issuedAt of
       None \<Rightarrow> Inl Invalid_time
     | Some t \<Rightarrow> if \<bar>t + ttl\<bar> > 8640000000000000 then Inl Invalid_time else Inr (iso_at env (t + ttl)))"

definition window_id_of :: "issue_request \<Rightarrow> string \<Rightarrow> string" where
  "window_id_of q uuid = (if glass_text (gi_windowId q) = [] then uuid else glass_text (gi_windowId q))"

definition issue_payload ::
  "issue_request \<Rightarrow> string \<Rightarrow> string \<Rightarrow> string \<Rightarrow> string \<Rightarrow> int \<Rightarrow> jsfields" where
  "issue_payload q i workspace issuedAt expiresAt uses =
     [(''action'', JStr ''issue''), (''windowId'', JStr i), (''workspaceId'', JStr workspace),
      (''agentId'', text_or_null (gi_agentId q)), (''actor'', JStr (glass_text (gi_actor q))),
      (''operatorIdentity'', text_or_null (gi_operatorIdentity q)), (''reason'', JStr (glass_text (gi_reason q))),
      (''issuedAt'', JStr issuedAt), (''expiresAt'', JStr expiresAt), (''maxUses'', JNum (of_int uses)),
      (''categories'', JArr (map JStr (scoped_categories (gi_categories q))))]"

text \<open>The part under the lock.\<close>

definition issue_locked ::
  "js_env \<Rightarrow> jsfields \<Rightarrow> string \<Rightarrow> ledger_file \<Rightarrow> (glass_error + (glass_refusal + jsval)) \<times> ledger_file" where
  "issue_locked env payload i d = (case glassIntegrity env d of
       Some r \<Rightarrow> (Inr (Inl (Integrity_violation r)), d)
     | None \<Rightarrow> (case windowState env d (JStr i) of
           Some st \<Rightarrow> (Inr (Inl (Window_exists (ws_window st))), d)
         | None \<Rightarrow> (case appendEntryUnlocked env payload d of
               (Inl e, d') \<Rightarrow> (Inl e, d')
             | (Inr entry, d') \<Rightarrow> (Inr (Inr entry), d'))))"

definition issue ::
  "js_env \<Rightarrow> issue_request \<Rightarrow> string \<Rightarrow> string \<Rightarrow> bool \<Rightarrow> ledger_file \<Rightarrow>
     (glass_error + (glass_refusal + jsval)) \<times> ledger_file" where
  "issue env q uuid issuedAt locked d =
     (case bind_result (glass_workspace (gi_workspaceId q)) (\<lambda>workspace.
           bind_result (guard_result (glass_text (gi_reason q) \<noteq> []) Reason_required) (\<lambda>_.
           bind_result (guard_result (glass_text (gi_actor q) \<noteq> []) Actor_required) (\<lambda>_.
           bind_result (bounded_integer (gi_ttlMs q) DEFAULT_WINDOW_MS MAX_WINDOW_MS Ttl_out_of_range) (\<lambda>ttl.
           bind_result (bounded_integer (gi_maxUses q) DEFAULT_USES MAX_USES Uses_out_of_range) (\<lambda>uses.
           bind_result (expiry env issuedAt ttl) (\<lambda>expiresAt.
             Inr (issue_payload q (window_id_of q uuid) workspace issuedAt expiresAt uses))))))) of
        Inl e \<Rightarrow> (Inl e, d)
      | Inr payload \<Rightarrow> if locked then issue_locked env payload (window_id_of q uuid) d
          else (Inr (Inl Ledger_locked), d))"

section \<open>Using\<close>

record use_request =
  gu_windowId :: jsval
  gu_workspaceId :: jsval
  gu_agentId :: jsval
  gu_category :: jsval

definition date_of :: "js_env \<Rightarrow> jsval \<Rightarrow> int option" where
  "date_of env v = date_parse env (js_string env v)"

definition still_running :: "js_env \<Rightarrow> glass_window \<Rightarrow> string \<Rightarrow> bool" where
  "still_running env window now = (case (date_of env (gw_expiresAt window), date_parse env now) of
       (Some e, Some n) \<Rightarrow> e > n
     | _ \<Rightarrow> False)"

definition glass_check ::
  "js_env \<Rightarrow> use_request \<Rightarrow> string \<Rightarrow> ledger_file \<Rightarrow> glass_error + (glass_refusal + window_state)" where
  "glass_check env q now d = (case glassIntegrity env d of
       Some r \<Rightarrow> Inr (Inl (Integrity_violation r))
     | None \<Rightarrow> (case windowState env d (gu_windowId q) of
           None \<Rightarrow> Inr (Inl Window_not_found)
         | Some st \<Rightarrow> let window = ws_window st in
             if ws_lifted st then Inr (Inl Window_lifted)
             else if \<not> still_running env window now then Inr (Inl Window_expired)
             else if no_uses_left env st then Inr (Inl Window_exhausted)
             else bind_result (glass_workspace (gu_workspaceId q)) (\<lambda>workspace.
               if gw_workspaceId window \<noteq> JStr workspace then Inr (Inl Workspace_mismatch)
               else if truthy (gw_agentId window) \<and> gw_agentId window \<noteq> JStr (glass_text (gu_agentId q))
                 then Inr (Inl Agent_mismatch)
               else if gw_categories window \<noteq> [] \<and> (glass_text (gu_category q) = []
                   \<or> JStr (glass_text (gu_category q)) \<notin> set (gw_categories window))
                 then Inr (Inl Category_not_permitted)
               else Inr (Inr st))))"

definition consume_payload ::
  "use_request \<Rightarrow> jsval \<Rightarrow> jsval \<Rightarrow> string \<Rightarrow> glass_window \<Rightarrow> jsfields" where
  "consume_payload q actor reason consumedAt window =
     [(''action'', JStr ''consume''), (''windowId'', gw_windowId window), (''workspaceId'', gw_workspaceId window),
      (''agentId'', gw_agentId window), (''actor'', text_or_null actor), (''reason'', text_or_null reason),
      (''category'', text_or_null (gu_category q)), (''consumedAt'', JStr consumedAt)]"

text \<open>A use: its answer is the state of the window before it.\<close>

definition consume ::
  "js_env \<Rightarrow> use_request \<Rightarrow> jsval \<Rightarrow> jsval \<Rightarrow> (nat \<Rightarrow> string) \<Rightarrow> bool \<Rightarrow> ledger_file \<Rightarrow>
     (glass_error + (glass_refusal + window_state)) \<times> ledger_file" where
  "consume env q actor reason clk locked d =
     (if \<not> locked then (Inr (Inl Ledger_locked), d)
      else case glassIntegrity env d of
        Some r \<Rightarrow> (Inr (Inl (Integrity_violation r)), d)
      | None \<Rightarrow> (case glass_check env q (clk 0) d of
            Inl e \<Rightarrow> (Inl e, d)
          | Inr (Inl refusal) \<Rightarrow> (Inr (Inl refusal), d)
          | Inr (Inr st) \<Rightarrow>
              (case appendEntryUnlocked env (consume_payload q actor reason (clk 1) (ws_window st)) d of
                 (Inl e, d') \<Rightarrow> (Inl e, d')
               | (Inr entry, d') \<Rightarrow> (Inr (Inr st), d'))))"

text \<open>
  Lifting a window checks first, without the lock, and then appends: \<open>Inr (Inr (window, payload))\<close> is what is left
  to append.  \<open>between\<close> is what other processes do to the ledger in between.
\<close>

datatype lift_answer = Lift_refused glass_refusal | Lifted_before glass_window | Lifted_now glass_window

definition lift_check ::
  "js_env \<Rightarrow> jsval \<Rightarrow> jsval \<Rightarrow> jsval \<Rightarrow> string \<Rightarrow> ledger_file \<Rightarrow>
     glass_error + (lift_answer + glass_window \<times> jsfields)" where
  "lift_check env windowId actor reason now d =
     (if glass_text actor = [] then Inl Actor_required
      else case glassIntegrity env d of
        Some r \<Rightarrow> Inr (Inl (Lift_refused (Integrity_violation r)))
      | None \<Rightarrow> (case windowState env d windowId of
            None \<Rightarrow> Inr (Inl (Lift_refused Window_not_found))
          | Some st \<Rightarrow> if ws_lifted st then Inr (Inl (Lifted_before (ws_window st)))
              else Inr (Inr (ws_window st, [(''action'', JStr ''lift''), (''windowId'', gw_windowId (ws_window st)),
                (''actor'', JStr (glass_text actor)), (''reason'', text_or_null reason),
                (''liftedAt'', JStr now)]))))"

definition lift_window ::
  "js_env \<Rightarrow> jsval \<Rightarrow> jsval \<Rightarrow> jsval \<Rightarrow> string \<Rightarrow> bool \<Rightarrow> (ledger_file \<Rightarrow> ledger_file) \<Rightarrow> ledger_file \<Rightarrow>
     (glass_error + lift_answer) \<times> ledger_file" where
  "lift_window env windowId actor reason now locked between d =
     (case lift_check env windowId actor reason now d of
        Inl e \<Rightarrow> (Inl e, d)
      | Inr (Inl answer) \<Rightarrow> (Inr answer, d)
      | Inr (Inr (window, payload)) \<Rightarrow> (case appendEntry env payload locked (between d) of
            (Inl e, d') \<Rightarrow> (Inl e, d')
          | (Inr entry, d') \<Rightarrow> (Inr (Lifted_now window), d')))"

section \<open>The status\<close>

record window_report =
  wr_state :: window_state
  wr_refusal :: "glass_refusal option"

definition report_window :: "js_env \<Rightarrow> ledger_file \<Rightarrow> string \<Rightarrow> window_state \<Rightarrow> glass_error + window_report" where
  "report_window env d now st = (let window = ws_window st in
     bind_result (glass_check env \<lparr>gu_windowId = gw_windowId window, gu_workspaceId = gw_workspaceId window,
         gu_agentId = gw_agentId window,
         gu_category = (case gw_categories window of c # _ \<Rightarrow> c | [] \<Rightarrow> JUndefined)\<rparr> now d) (\<lambda>answer.
       Inr \<lparr>wr_state = st, wr_refusal = (case answer of Inl refusal \<Rightarrow> Some refusal | Inr _ \<Rightarrow> None)\<rparr>))"

definition glass_status ::
  "js_env \<Rightarrow> ledger_file \<Rightarrow> string \<Rightarrow> glass_error + (glass_reason + window_report list)" where
  "glass_status env d now = (case glassIntegrity env d of
       Some r \<Rightarrow> Inr (Inl r)
     | None \<Rightarrow> bind_result (map_result (report_window env d now) (allWindows env d)) (\<lambda>reports. Inr (Inr reports)))"

section \<open>The gate\<close>

record gate_finding =
  gf_windowId :: jsval
  gf_reason :: jsval
  gf_actor :: jsval
  gf_expiresAt :: jsval
  gf_remainingUses :: "rat option"

datatype gate_answer =
    Unchanged
  | Not_configured
  | Refused_by glass_refusal
  | Relaxed gate_finding

text \<open>The decision that leaves the gate.\<close>

fun gate_decision :: "string \<Rightarrow> gate_answer \<Rightarrow> string" where
  "gate_decision decision (Relaxed f) = ''allow''"
| "gate_decision decision _ = decision"

record glass_config =
  gc_windowId :: jsval
  gc_actor :: jsval

definition gate_use :: "jsval \<Rightarrow> jsval \<Rightarrow> use_request" where
  "gate_use envelope windowId = \<lparr>gu_windowId = windowId, gu_workspaceId = jget envelope ''workspaceId'',
     gu_agentId = jget (jget envelope ''identity'') ''identityRef'', gu_category = jget envelope ''riskCategory''\<rparr>"

text \<open>
  \<open>between\<close> is what other processes do to the ledger after the check of the gate and before its use of the window;
  \<open>now\<close> is the clock of the check, \<open>clk\<close> that of the use.
\<close>

definition applyBreakGlass ::
  "js_env \<Rightarrow> string \<Rightarrow> jsval \<Rightarrow> glass_config option \<Rightarrow> string \<Rightarrow> (nat \<Rightarrow> string) \<Rightarrow> bool \<Rightarrow>
     (ledger_file \<Rightarrow> ledger_file) \<Rightarrow> ledger_file \<Rightarrow> (glass_error + gate_answer) \<times> ledger_file" where
  "applyBreakGlass env decision envelope config now clk locked between d =
     (if decision \<noteq> ''review'' then (Inr Unchanged, d)
      else case config of
        None \<Rightarrow> (Inr Not_configured, d)
      | Some c \<Rightarrow>
          if \<not> truthy (gc_windowId c) then (Inr Not_configured, d)
          else let q = gate_use envelope (gc_windowId c) in
            (case glass_check env q now d of
               Inl e \<Rightarrow> (Inl e, d)
             | Inr (Inl refusal) \<Rightarrow> (Inr (Refused_by refusal), d)
             | Inr (Inr checked) \<Rightarrow>
                 let window = ws_window checked in
                 (case consume env q (gc_actor c) (gw_reason window) clk locked (between d) of
                    (Inl e, d') \<Rightarrow> (Inl e, d')
                  | (Inr (Inl refusal), d') \<Rightarrow> (Inr (Refused_by refusal), d')
                  | (Inr (Inr st), d') \<Rightarrow> (Inr (Relaxed
                      \<lparr>gf_windowId = gw_windowId window, gf_reason = gw_reason window, gf_actor = gw_actor window,
                       gf_expiresAt = gw_expiresAt window,
                       gf_remainingUses = map_option (\<lambda>r. r - 1) (remainingUses env st)\<rparr>), d'))))"

end
