(* ===== verification/Break_Glass_Facts.thy ===== *)
theory Break_Glass_Facts
  imports Break_Glass
begin

text \<open>
  The ledger of override windows as a growing log: what the verification accepts, what an appended
  entry must be for it to stay accepted, and the lawful ledgers (\<open>lawful\<close>), whose every entry is one that
  the operations could add to the entries before it.  A replay of a lawful ledger reads off its windows.
\<close>

section \<open>Verification\<close>

definition about :: "string \<Rightarrow> string \<Rightarrow> jsval \<Rightarrow> bool" where
  "about a i e = (jget e ''action'' = JStr a \<and> jget e ''windowId'' = JStr i)"

definition issue_ids :: "jsval list \<Rightarrow> jsval list" where
  "issue_ids es = map (\<lambda>e. jget e ''windowId'') (filter (\<lambda>e. jget e ''action'' = JStr ''issue'') es)"

lemma verify_glass_snoc:
  "verify_glass_from env i p ids (es @ [e]) = None \<longleftrightarrow> verify_glass_from env i p ids es = None
     \<and> jget e ''seq'' = JNum (of_nat (i + length es)) \<and> entry_prev e = head_hash entry_hash p es
     \<and> jget e ''hash'' = JStr (computeEntryHash env (entry_payload e) (head_hash entry_hash p es))
     \<and> jget e ''action'' \<in> BREAK_GLASS_ACTIONS
     \<and> (jget e ''action'' = JStr ''issue'' \<longrightarrow> \<not> set_has (issue_ids es @ ids) (jget e ''windowId''))"
proof (induction es arbitrary: i p ids)
  case Nil
  show ?case by (auto simp: entry_prev_def issue_ids_def)
next
  case (Cons x es)
  show ?case by (auto simp: Cons.IH issue_ids_def set_has_def)
qed

lemma glass_head_hash:
  "verify_glass_from env 0 JNull [] es = None \<Longrightarrow>
     nullish_to_null (head_hash entry_hash JNull es) = head_hash entry_hash JNull es"
  by (cases es rule: rev_cases) (auto simp: verify_glass_snoc nullish_to_null_def)

lemma glass_tip_head: "glass_tip es = (head_hash entry_hash JNull es, length es)"
  by (simp add: glass_tip_def head_hash_def)

text \<open>What the operations append: no property of its own with a name that the ledger uses.\<close>

definition plain_payload :: "jsfields \<Rightarrow> bool" where
  "plain_payload p = (fst ` set p \<inter> {''seq'', ''prevHash'', ''hash'', ''__unreadable'', ''__corrupt''} = {})"

lemma glass_entry_fields:
  assumes "plain_payload p"
  shows "jget (glass_entry env p es) ''seq'' = JNum (of_nat (length es))"
    and "jget (glass_entry env p es) ''prevHash'' = head_hash entry_hash JNull es"
    and "jget (glass_entry env p es) ''hash'' = JStr (computeEntryHash env p (head_hash entry_hash JNull es))"
    and "entry_payload (glass_entry env p es) = p"
    and "k \<notin> {''seq'', ''prevHash'', ''hash''} \<Longrightarrow> jget (glass_entry env p es) k = field p k"
    and "\<not> is_damaged (glass_entry env p es)"
proof -
  have no: "field p ''__unreadable'' = JUndefined" "field p ''__corrupt'' = JUndefined"
    using assms by (auto simp: plain_payload_def field_def map_of_eq_None_iff [THEN iffD2])
  have "drop_field k p = p" if "k \<notin> fst ` set p" for k
    using that by (auto simp: drop_field_def filter_id_conv)
  then have "drop_field ''hash'' p = p" "drop_field ''seq'' p = p" "drop_field ''prevHash'' p = p"
    using assms by (simp_all add: plain_payload_def)
  then show "entry_payload (glass_entry env p es) = p"
    by (simp add: glass_entry_def glass_tip_head entry_payload_def) (simp add: drop_field_def)
  show "\<not> is_damaged (glass_entry env p es)"
    using no by (simp add: glass_entry_def glass_tip_head is_damaged_def)
qed (simp_all add: glass_entry_def glass_tip_head)

lemma glassIntegrity_None:
  "glassIntegrity env d = None \<longleftrightarrow>
     (\<forall>e\<in>set (readEntries d). \<not> is_damaged e) \<and> verify_glass_from env 0 JNull [] (readEntries d) = None"
  by (auto simp: glassIntegrity_def verifyEntries_def list_ex_iff)

lemma damaged_unreadable: "is_damaged (JObj [(''__unreadable'', JBool True)])"
  by (simp add: is_damaged_def)

lemma read_append: "d \<noteq> Ledger_unreadable \<Longrightarrow> isPlainObject e \<Longrightarrow> readEntries (append_json e d) = readEntries d @ [e]"
  by (cases d) (simp_all add: append_json_def readEntries_def)

lemma appended:
  assumes run: "appendEntryUnlocked env p d = (r, d')" and ok: "glassIntegrity env d = None"
    and p: "plain_payload p"
  shows "r = Inr (glass_entry env p (readEntries d))"
    and "readEntries d' = readEntries d @ [glass_entry env p (readEntries d)]"
proof -
  have d: "d \<noteq> Ledger_unreadable"
    using ok damaged_unreadable by (auto simp: glassIntegrity_None readEntries_def)
  have "appendEntryUnlocked env p d = (Inr (glass_entry env p (readEntries d)), append_json (glass_entry env p (readEntries d)) d)"
    using ok by (simp add: appendEntryUnlocked_def glassIntegrity_def Let_def)
  then show "r = Inr (glass_entry env p (readEntries d))"
    and "readEntries d' = readEntries d @ [glass_entry env p (readEntries d)]"
    using run read_append [OF d] by (auto simp: glass_entry_def split: prod.splits)
qed

lemma appended_intact:
  assumes "appendEntryUnlocked env p d = (r, d')" and "glassIntegrity env d = None" and "plain_payload p"
    and "field p ''action'' \<in> BREAK_GLASS_ACTIONS"
    and "field p ''action'' = JStr ''issue'' \<Longrightarrow> field p ''windowId'' \<notin> set (issue_ids (readEntries d))"
  shows "glassIntegrity env d' = None"
  using assms(2,4,5) glass_entry_fields [OF assms(3), where env = env and es = "readEntries d"] glass_head_hash [of env "readEntries d"]
  unfolding glassIntegrity_None appended(2) [OF assms(1-3)] verify_glass_snoc
  by (auto simp: entry_prev_def set_has_def)

section \<open>Lawful ledgers\<close>

definition uses_of :: "string \<Rightarrow> jsval list \<Rightarrow> nat" where
  "uses_of i es = length (filter (about ''consume'' i) es)"

text \<open>A window of at most 50 uses and one hour.\<close>

definition issued_in_bounds :: "js_env \<Rightarrow> jsval \<Rightarrow> bool" where
  "issued_in_bounds env e = (\<exists>uses issuedAt t ttl. jget e ''maxUses'' = JNum (of_int uses) \<and> 1 \<le> uses \<and> uses \<le> 50
     \<and> jget e ''issuedAt'' = JStr issuedAt \<and> date_parse env issuedAt = Some t
     \<and> 0 < ttl \<and> ttl \<le> 3600000 \<and> jget e ''expiresAt'' = JStr (iso_at env (t + ttl)))"

definition entry_lawful :: "js_env \<Rightarrow> jsval list \<Rightarrow> jsval \<Rightarrow> bool" where
  "entry_lawful env es e = (\<exists>i. (about ''issue'' i e \<and> issued_in_bounds env e \<and> (\<forall>g\<in>set es. \<not> about ''issue'' i g))
     \<or> (about ''consume'' i e \<and> (\<forall>l\<in>set es. \<not> about ''lift'' i l)
        \<and> (\<exists>g\<in>set es. about ''issue'' i g \<and> of_nat (uses_of i es) < num_of (jget g ''maxUses'')))
     \<or> (about ''lift'' i e \<and> (\<exists>g\<in>set es. about ''issue'' i g)))"

inductive lawful :: "js_env \<Rightarrow> jsval list \<Rightarrow> bool" for env where
  lawful_Nil: "lawful env []"
| lawful_snoc: "lawful env es \<Longrightarrow> entry_lawful env es e \<Longrightarrow> lawful env (es @ [e])"

lemma lawful_split: "lawful env es \<Longrightarrow> es = xs @ e # ys \<Longrightarrow> entry_lawful env xs e"
proof (induction arbitrary: ys rule: lawful.induct)
  case (lawful_snoc es' e')
  then show ?case by (cases ys rule: rev_cases) auto
qed simp

lemma about_id: "about a i e \<Longrightarrow> about b j e \<Longrightarrow> a = b \<and> i = j"
  by (simp add: about_def)

lemma lawful_about:
  assumes "lawful env es" and "e \<in> set es" and "jget e ''windowId'' = JStr i"
  shows "\<exists>g\<in>set es. about ''issue'' i g"
proof -
  from assms(2) obtain xs ys where es: "es = xs @ e # ys" by (auto dest: split_list)
  from lawful_split [OF assms(1) es] assms(3) show ?thesis unfolding entry_lawful_def es about_def by auto
qed

lemma lawful_bounds:
  assumes "lawful env es" and "g \<in> set es" and "about ''issue'' i g"
  shows "issued_in_bounds env g"
proof -
  from assms(2) obtain xs ys where es: "es = xs @ g # ys" by (auto dest: split_list)
  from lawful_split [OF assms(1) es] assms(3) show ?thesis unfolding entry_lawful_def about_def by auto
qed

lemma window_replay_snoc: "replay i (es @ [e]) = replay_step i e (replay i es)"
  by (simp add: replay_def)

text \<open>A replay finds the one issue of the window, counts its uses and sees whether it was lifted.\<close>

lemma lawful_replay:
  assumes "lawful env es"
  shows "(\<forall>e\<in>set es. jget e ''windowId'' \<noteq> JStr i) \<and> replay i es = (None, 0, False)
    \<or> (\<exists>g\<in>set es. about ''issue'' i g
        \<and> replay i es = (Some (windowFromEntry g), uses_of i es, \<exists>l\<in>set es. about ''lift'' i l))"
  using assms
proof (induction rule: lawful.induct)
  case lawful_Nil
  then show ?case by (simp add: replay_def)
next
  case (lawful_snoc es e)
  show ?case
  proof (cases "jget e ''windowId'' = JStr i")
    case False
    then have no: "\<not> about a i e" for a by (simp add: about_def)
    have "replay i (es @ [e]) = replay i es" using False by (simp add: window_replay_snoc replay_step_def split: prod.splits)
    moreover have "uses_of i (es @ [e]) = uses_of i es" using no by (simp add: uses_of_def)
    ultimately show ?thesis using lawful_snoc.IH False no by auto
  next
    case True
    then have same: "about a j e \<Longrightarrow> j = i" for a j by (simp add: about_def)
    consider (issued) "about ''issue'' i e" "\<forall>g\<in>set es. \<not> about ''issue'' i g"
      | (used) "about ''consume'' i e" "\<exists>g\<in>set es. about ''issue'' i g"
      | (lifted) "about ''lift'' i e" "\<exists>g\<in>set es. about ''issue'' i g"
      using lawful_snoc.hyps(2) same unfolding entry_lawful_def by blast
    then show ?thesis
    proof cases
      case issued
      then have none: "\<forall>g\<in>set es. jget g ''windowId'' \<noteq> JStr i" using lawful_about [OF lawful_snoc.hyps(1)] by blast
      then have "uses_of i (es @ [e]) = 0" using issued(1) by (auto simp: uses_of_def about_def filter_empty_conv)
      moreover have "\<not> (\<exists>l\<in>set (es @ [e]). about ''lift'' i l)" using none issued(1) by (auto simp: about_def)
      moreover have "replay i (es @ [e]) = (Some (windowFromEntry e), 0, False)"
        using issued(1) by (simp add: window_replay_snoc replay_step_def about_def split: prod.splits)
      ultimately show ?thesis using issued(1) by auto
    next
      case used
      then obtain g where g: "g \<in> set es" "about ''issue'' i g"
          "replay i es = (Some (windowFromEntry g), uses_of i es, \<exists>l\<in>set es. about ''lift'' i l)"
        using lawful_snoc.IH unfolding about_def by blast
      moreover have "replay i (es @ [e]) = (Some (windowFromEntry g), uses_of i (es @ [e]), \<exists>l\<in>set (es @ [e]). about ''lift'' i l)"
        using used(1) g(3) by (auto simp: window_replay_snoc replay_step_def about_def uses_of_def)
      ultimately show ?thesis by auto
    next
      case lifted
      then obtain g where g: "g \<in> set es" "about ''issue'' i g"
          "replay i es = (Some (windowFromEntry g), uses_of i es, \<exists>l\<in>set es. about ''lift'' i l)"
        using lawful_snoc.IH unfolding about_def by blast
      moreover have "replay i (es @ [e]) = (Some (windowFromEntry g), uses_of i (es @ [e]), \<exists>l\<in>set (es @ [e]). about ''lift'' i l)"
        using lifted(1) g(3) by (auto simp: window_replay_snoc replay_step_def about_def uses_of_def)
      ultimately show ?thesis by auto
    qed
  qed
qed

end
