(* ===== verification/Break_Glass_Properties.thy ===== *)
theory Break_Glass_Properties
  imports Break_Glass_Facts Evaluation
begin

text \<open>
  What break glass promises: a window is used at most as often as it was issued for, in its scope, before
  its end and not after it was lifted, whatever processes use the ledger at once; only a review becomes
  an allow, and each allow is an entry of the ledger; a ledger that does not verify grants nothing.
\<close>

section \<open>Reading windows\<close>

lemma windowState_Some:
  assumes "windowState env d v = Some st" and "lawful env (readEntries d)"
  shows "\<exists>g\<in>set (readEntries d). about ''issue'' (glass_text v) g \<and> ws_window st = windowFromEntry g
    \<and> ws_uses st = uses_of (glass_text v) (readEntries d)
    \<and> (ws_lifted st \<longleftrightarrow> (\<exists>l\<in>set (readEntries d). about ''lift'' (glass_text v) l))"
  using assms(1) lawful_replay [OF assms(2), of "glass_text v"]
  by (auto simp: windowState_def Let_def split: if_splits option.splits; blast)

lemma windowState_None:
  assumes "windowState env d v = None" and "lawful env (readEntries d)" and "glassIntegrity env d = None"
    and "glass_text v \<noteq> []"
  shows "\<forall>e\<in>set (readEntries d). jget e ''windowId'' \<noteq> JStr (glass_text v)"
  using assms(1,3,4) lawful_replay [OF assms(2), of "glass_text v"]
  by (auto simp: windowState_def Let_def glassIntegrity_def split: if_splits option.splits)

lemma no_uses_left_num:
  "gw_maxUses (ws_window st) = JNum m \<Longrightarrow> \<not> no_uses_left env st \<longleftrightarrow> of_nat (ws_uses st) < m"
  by (auto simp: no_uses_left_def remainingUses_def)

text \<open>What an active answer says of the window: \<open>g\<close> is its issue.\<close>

definition open_for :: "js_env \<Rightarrow> use_request \<Rightarrow> string \<Rightarrow> jsval list \<Rightarrow> jsval \<Rightarrow> bool" where
  "open_for env q now es g = (about ''issue'' (glass_text (gu_windowId q)) g
     \<and> (\<forall>l\<in>set es. \<not> about ''lift'' (glass_text (gu_windowId q)) l)
     \<and> of_nat (uses_of (glass_text (gu_windowId q)) es) < num_of (jget g ''maxUses'')
     \<and> still_running env (windowFromEntry g) now
     \<and> (\<exists>workspace. normalizeWorkspaceId (gu_workspaceId q) = Inr workspace \<and> jget g ''workspaceId'' = JStr workspace)
     \<and> (is_nullish (jget g ''agentId'') \<or> \<not> truthy (jget g ''agentId'') \<or> jget g ''agentId'' = JStr (glass_text (gu_agentId q)))
     \<and> (gw_categories (windowFromEntry g) \<noteq> [] \<longrightarrow> JStr (glass_text (gu_category q)) \<in> set (gw_categories (windowFromEntry g))))"

lemma check_active:
  assumes check: "glass_check env q now d = Inr (Inr st)" and lawful: "lawful env (readEntries d)"
  shows "glassIntegrity env d = None"
    and "\<exists>g\<in>set (readEntries d). open_for env q now (readEntries d) g \<and> ws_window st = windowFromEntry g"
proof -
  show "glassIntegrity env d = None" using check by (auto simp: glass_check_def split: option.splits)
  then have w: "windowState env d (gu_windowId q) = Some st"
    and c: "\<not> ws_lifted st" "still_running env (ws_window st) now" "\<not> no_uses_left env st"
      "\<exists>workspace. glass_workspace (gu_workspaceId q) = Inr workspace \<and> gw_workspaceId (ws_window st) = JStr workspace"
      "\<not> (truthy (gw_agentId (ws_window st)) \<and> gw_agentId (ws_window st) \<noteq> JStr (glass_text (gu_agentId q)))"
      "gw_categories (ws_window st) \<noteq> [] \<longrightarrow> JStr (glass_text (gu_category q)) \<in> set (gw_categories (ws_window st))"
    using check by (auto simp: glass_check_def Let_def bind_result_eq_Inr split: option.splits if_splits)
  from windowState_Some [OF w lawful] obtain g where g: "g \<in> set (readEntries d)"
      "about ''issue'' (glass_text (gu_windowId q)) g" "ws_window st = windowFromEntry g"
      "ws_uses st = uses_of (glass_text (gu_windowId q)) (readEntries d)"
      "ws_lifted st \<longleftrightarrow> (\<exists>l\<in>set (readEntries d). about ''lift'' (glass_text (gu_windowId q)) l)"
    by blast
  from lawful_bounds [OF lawful g(1,2)] obtain uses where m: "jget g ''maxUses'' = JNum uses"
    by (auto simp: issued_in_bounds_def)
  have "of_nat (uses_of (glass_text (gu_windowId q)) (readEntries d)) < num_of (jget g ''maxUses'')"
    using no_uses_left_num [of st uses] c(3) g(3,4) m by (simp add: windowFromEntry_def)
  moreover have "\<exists>workspace. normalizeWorkspaceId (gu_workspaceId q) = Inr workspace \<and> jget g ''workspaceId'' = JStr workspace"
    using c(4) by (auto simp: glass_workspace_def g(3) windowFromEntry_def split: sum.splits)
  moreover have "is_nullish (jget g ''agentId'') \<or> \<not> truthy (jget g ''agentId'')
      \<or> jget g ''agentId'' = JStr (glass_text (gu_agentId q))"
    using c(5) by (auto simp: g(3) windowFromEntry_def nullish_to_null_def split: if_splits)
  ultimately have "open_for env q now (readEntries d) g"
    using c(1,2,6) g(2,5) unfolding open_for_def g(3) by blast
  with g(1,3) show "\<exists>g\<in>set (readEntries d). open_for env q now (readEntries d) g \<and> ws_window st = windowFromEntry g"
    by blast
qed

section \<open>The operations keep a ledger lawful\<close>

definition sound :: "js_env \<Rightarrow> ledger_file \<Rightarrow> bool" where
  "sound env d = (glassIntegrity env d = None \<and> lawful env (readEntries d))"

text \<open>An id that \<open>text\<close> leaves alone; a long id may lose a blank at its end when it is read again.\<close>

definition stable_id :: "string \<Rightarrow> bool" where
  "stable_id i = (i \<noteq> [] \<and> glass_text (JStr i) = i)"

lemma append_sound:
  assumes run: "appendEntryUnlocked env p d = (r, d')" and ok: "sound env d" and p: "plain_payload p"
    and action: "field p ''action'' \<in> BREAK_GLASS_ACTIONS"
    and e: "entry_lawful env (readEntries d) (glass_entry env p (readEntries d))"
  shows "sound env d'"
proof -
  note fields = glass_entry_fields [OF p, where env = env and es = "readEntries d"]
  have "field p ''windowId'' \<notin> set (issue_ids (readEntries d))" if a: "field p ''action'' = JStr ''issue''"
    using e a by (auto simp: entry_lawful_def about_def fields(5) issue_ids_def)
  then show ?thesis
    using appended_intact [OF run _ p action] appended(2) [OF run _ p] ok e unfolding sound_def
    by (auto intro: lawful.intros)
qed

lemma bounded_integer_Inr:
  assumes "bounded_integer v fallback limit e = Inr x" and "0 < fallback" and "fallback \<le> limit"
  shows "0 < x \<and> x \<le> limit"
  using assms by (cases v) (auto simp: bounded_integer_def Let_def split: if_splits)

lemma issue_run:
  assumes "issue env q uuid now locked d = (r, d')"
  shows "d' = d \<or> (\<exists>workspace expiresAt ttl uses t. locked
     \<and> issue_locked env (issue_payload q (window_id_of q uuid) workspace now expiresAt uses) (window_id_of q uuid) d = (r, d')
     \<and> 0 < ttl \<and> ttl \<le> 3600000 \<and> 0 < uses \<and> uses \<le> 50 \<and> date_parse env now = Some t \<and> expiresAt = iso_at env (t + ttl))"
proof -
  note limits = MAX_WINDOW_MS_def DEFAULT_WINDOW_MS_def MAX_USES_def DEFAULT_USES_def
  have "d' = d \<or> (\<exists>workspace expiresAt ttl uses. locked
     \<and> issue_locked env (issue_payload q (window_id_of q uuid) workspace now expiresAt uses) (window_id_of q uuid) d = (r, d')
     \<and> bounded_integer (gi_ttlMs q) DEFAULT_WINDOW_MS MAX_WINDOW_MS Ttl_out_of_range = Inr ttl
     \<and> bounded_integer (gi_maxUses q) DEFAULT_USES MAX_USES Uses_out_of_range = Inr uses
     \<and> expiry env now ttl = Inr expiresAt)"
    using assms by (auto simp: issue_def bind_result_eq_Inr split: sum.splits if_splits)
  then show ?thesis
    by (auto simp: limits expiry_def dest!: bounded_integer_Inr split: option.splits if_splits)
qed

lemma issue_payload_simps:
  "plain_payload (issue_payload q i ws t x n)"
  "field (issue_payload q i ws t x n) ''action'' = JStr ''issue''"
  "field (issue_payload q i ws t x n) ''windowId'' = JStr i"
  "field (issue_payload q i ws t x n) ''maxUses'' = JNum (of_int n)"
  "field (issue_payload q i ws t x n) ''issuedAt'' = JStr t"
  "field (issue_payload q i ws t x n) ''expiresAt'' = JStr x"
  by (simp_all add: issue_payload_def plain_payload_def)

text \<open>
  An issue of an id that is not stable may follow an issue of the same id; the ledger then ends with it
  and fails its verification.
\<close>

definition broken_by_issue :: "js_env \<Rightarrow> ledger_file \<Rightarrow> bool" where
  "broken_by_issue env d = (glassIntegrity env d \<noteq> None \<and> (\<exists>zs e i. readEntries d = zs @ [e] \<and> lawful env zs
     \<and> about ''issue'' i e \<and> issued_in_bounds env e \<and> (\<exists>g\<in>set zs. about ''issue'' i g) \<and> glass_text (JStr i) \<noteq> i))"

lemma issue_sound:
  assumes run: "issue env q uuid now locked d = (r, d')" and ok: "sound env d" and uuid: "stable_id uuid"
  shows "sound env d' \<or> broken_by_issue env d'"
proof (cases "d' = d")
  case False
  let ?i = "window_id_of q uuid" and ?es = "readEntries d"
  obtain ws x ttl uses t where go: "issue_locked env (issue_payload q ?i ws now x uses) ?i d = (r, d')"
    and b: "0 < ttl" "ttl \<le> 3600000" "0 < uses" "uses \<le> 50" "date_parse env now = Some t" "x = iso_at env (t + ttl)"
    using issue_run [OF run] False by blast
  let ?p = "issue_payload q ?i ws now x uses"
  let ?e = "glass_entry env ?p ?es"
  have none: "windowState env d (JStr ?i) = None" and app: "\<exists>r'. appendEntryUnlocked env ?p d = (r', d')"
    using go False ok by (auto simp: issue_locked_def sound_def split: option.splits prod.splits sum.splits)
  note fields = glass_entry_fields [OF issue_payload_simps(1), where env = env and es = ?es]
  have issue: "about ''issue'' ?i ?e" by (simp add: about_def fields(5) issue_payload_simps)
  have bounds: "issued_in_bounds env ?e"
    unfolding issued_in_bounds_def using b by (simp add: fields(5) issue_payload_simps) force
  have lawful: "lawful env ?es" and intact: "glassIntegrity env d = None" using ok by (simp_all add: sound_def)
  show ?thesis
  proof (cases "\<exists>g\<in>set ?es. about ''issue'' ?i g")
    case False
    with issue bounds have "entry_lawful env ?es ?e" unfolding entry_lawful_def by blast
    then show ?thesis
      using app append_sound [OF _ ok issue_payload_simps(1)] by (auto simp: issue_payload_simps BREAK_GLASS_ACTIONS_def)
  next
    case True
    then obtain g where g: "g \<in> set ?es" "about ''issue'' ?i g" by blast
    have "glass_text (JStr ?i) \<noteq> ?i"
    proof
      assume "glass_text (JStr ?i) = ?i"
      moreover have "?i \<noteq> []" using uuid by (auto simp: window_id_of_def stable_id_def)
      ultimately show False using windowState_None [OF none lawful intact] g by (auto simp: about_def)
    qed
    moreover have d': "readEntries d' = ?es @ [?e]" using app appended(2) [OF _ intact issue_payload_simps(1)] by blast
    moreover have "JStr ?i \<in> set (issue_ids ?es)" using g by (force simp: issue_ids_def about_def)
    then have "glassIntegrity env d' \<noteq> None"
      using issue by (auto simp: glassIntegrity_None d' verify_glass_snoc set_has_def about_def)
    ultimately show ?thesis using issue bounds lawful g unfolding broken_by_issue_def by blast
  qed
qed (use ok in simp)

text \<open>A use that succeeds: the window was open, and the use is recorded.\<close>

lemma consume_success:
  assumes run: "consume env q actor reason clk locked d = (Inr (Inr st), d')" and ok: "lawful env (readEntries d)"
  shows "\<exists>g\<in>set (readEntries d). \<exists>e. open_for env q (clk 0) (readEntries d) g
    \<and> readEntries d' = readEntries d @ [e] \<and> about ''consume'' (glass_text (gu_windowId q)) e
    \<and> (sound env d \<longrightarrow> sound env d')"
proof -
  have check: "glass_check env q (clk 0) d = Inr (Inr st)"
    and app: "\<exists>r. appendEntryUnlocked env (consume_payload q actor reason (clk 1) (ws_window st)) d = (r, d')"
    using run by (auto simp: consume_def split: if_splits option.splits sum.splits prod.splits)
  define p where "p = consume_payload q actor reason (clk 1) (ws_window st)"
  let ?i = "glass_text (gu_windowId q)" and ?e = "glass_entry env p (readEntries d)"
  obtain g where g: "g \<in> set (readEntries d)" "open_for env q (clk 0) (readEntries d) g" "ws_window st = windowFromEntry g"
    using check_active [OF check ok] by blast
  have p: "plain_payload p" by (simp add: p_def consume_payload_def plain_payload_def)
  note fields = glass_entry_fields [OF p, where env = env and es = "readEntries d"]
  have f: "field p ''action'' = JStr ''consume''" "field p ''windowId'' = JStr ?i"
    using g(2) by (simp_all add: p_def consume_payload_def g(3) windowFromEntry_def open_for_def about_def)
  then have c: "about ''consume'' ?i ?e" by (simp add: fields(5) about_def)
  have "entry_lawful env (readEntries d) ?e"
    using c g(1,2) unfolding entry_lawful_def open_for_def by blast
  moreover have "field p ''action'' \<in> BREAK_GLASS_ACTIONS" by (simp add: f BREAK_GLASS_ACTIONS_def)
  ultimately have "sound env d \<longrightarrow> sound env d'" using app [folded p_def] append_sound [OF _ _ p] by blast
  moreover have "readEntries d' = readEntries d @ [?e]"
    using app [folded p_def] appended(2) [OF _ check_active(1) [OF check ok] p] by blast
  ultimately show ?thesis using g(1,2) c by blast
qed

lemma append_refused: "appendEntryUnlocked env p d = (Inl e, d') \<Longrightarrow> d' = d"
  by (auto simp: appendEntryUnlocked_def Let_def split: option.splits)

lemma consume_refused:
  assumes "consume env q actor reason clk locked d = (r, d')" and "\<nexists>st. r = Inr (Inr st)"
  shows "d' = d"
proof (cases "\<exists>st. glass_check env q (clk 0) d = Inr (Inr st)")
  case True
  then obtain st where c: "glass_check env q (clk 0) d = Inr (Inr st)" by blast
  obtain x d'' where a: "appendEntryUnlocked env (consume_payload q actor reason (clk 1) (ws_window st)) d = (x, d'')"
    by fastforce
  have "isl x" if "locked" and "glassIntegrity env d = None"
  proof (rule ccontr)
    assume "\<not> isl x"
    then have "consume env q actor reason clk locked d = (Inr (Inr st), d'')"
      using that a by (cases x) (simp_all add: consume_def c)
    then show False using assms by simp
  qed
  then show ?thesis using assms(1) a
    by (cases x) (simp_all add: consume_def c split: if_splits option.splits, auto dest: append_refused)
next
  case False
  then show ?thesis using assms(1)
    by (cases "glass_check env q (clk 0) d"; cases "projr (glass_check env q (clk 0) d)")
      (auto simp: consume_def split: if_splits option.splits)
qed

lemma consume_sound:
  assumes "consume env q actor reason clk locked d = (r, d')" and "sound env d"
  shows "sound env d'"
proof (cases "\<exists>st. r = Inr (Inr st)")
  case True
  then show ?thesis using assms consume_success unfolding sound_def by blast
next
  case False
  from consume_refused [OF assms(1) this] assms(2) show ?thesis by simp
qed

text \<open>A lift that passed its check may be appended at any later moment.\<close>

definition lift_of :: "jsval list \<Rightarrow> jsfields \<Rightarrow> bool" where
  "lift_of es p = (plain_payload p \<and> field p ''action'' = JStr ''lift''
     \<and> (\<exists>i. field p ''windowId'' = JStr i \<and> (\<exists>g\<in>set es. about ''issue'' i g)))"

lemma lift_check_lift_of:
  assumes "lift_check env v actor reason now d = Inr (Inr (window, p))" and "lawful env (readEntries d)"
  shows "lift_of (readEntries d) p"
proof -
  obtain st where st: "windowState env d v = Some st"
    and p: "p = [(''action'', JStr ''lift''), (''windowId'', gw_windowId (ws_window st)),
                (''actor'', JStr (glass_text actor)), (''reason'', text_or_null reason), (''liftedAt'', JStr now)]"
    using assms(1) by (auto simp: lift_check_def split: if_splits option.splits)
  obtain g where g: "g \<in> set (readEntries d)" "about ''issue'' (glass_text v) g" "ws_window st = windowFromEntry g"
    using windowState_Some [OF st assms(2)] by blast
  then have "gw_windowId (ws_window st) = JStr (glass_text v)" by (simp add: windowFromEntry_def about_def)
  then show ?thesis using g by (auto simp: lift_of_def p plain_payload_def)
qed

lemma lift_appended_sound:
  assumes run: "appendEntry env p locked d = (r, d')" and ok: "sound env d" and p: "lift_of (readEntries d) p"
  shows "sound env d'"
proof -
  have pl: "plain_payload p" using p by (simp add: lift_of_def)
  note fields = glass_entry_fields [OF pl, where env = env and es = "readEntries d"]
  have "entry_lawful env (readEntries d) (glass_entry env p (readEntries d))"
    unfolding entry_lawful_def using p by (auto simp: lift_of_def about_def fields(5))
  moreover have "field p ''action'' \<in> BREAK_GLASS_ACTIONS" using p by (simp add: lift_of_def BREAK_GLASS_ACTIONS_def)
  ultimately show ?thesis
    using run ok append_sound [OF _ ok pl] by (auto simp: appendEntry_def split: if_splits)
qed

lemma append_grows:
  assumes "appendEntryUnlocked env p d = (r, d')"
  shows "set (readEntries d) \<subseteq> set (readEntries d')"
  using assms damaged_unreadable
  by (cases d) (auto simp: appendEntryUnlocked_def Let_def append_json_def readEntries_def verifyEntries_def split: option.splits)

section \<open>Runs\<close>

text \<open>
  The ledger and the lifts that passed their check and wait for the lock.  A process issues, uses or lifts a
  window at any moment, with or without getting the lock.  A random UUID, the id of a window for which the
  caller gave none, is 36 characters without blanks, which \<open>text\<close> leaves alone.
\<close>

record glass_world =
  gl_ledger :: ledger_file
  gl_lifts :: "jsfields list"

inductive glass_step :: "js_env \<Rightarrow> glass_world \<Rightarrow> glass_world \<Rightarrow> bool" for env where
  issued: "issue env q uuid now locked (gl_ledger w) = (r, d') \<Longrightarrow> stable_id uuid \<Longrightarrow>
     glass_step env w (w\<lparr>gl_ledger := d'\<rparr>)"
| used: "consume env q actor reason clk locked (gl_ledger w) = (r, d') \<Longrightarrow> glass_step env w (w\<lparr>gl_ledger := d'\<rparr>)"
| lift_checked: "lift_check env windowId actor reason now (gl_ledger w) = Inr (Inr (window, p)) \<Longrightarrow>
     glass_step env w (w\<lparr>gl_lifts := p # gl_lifts w\<rparr>)"
| lift_appended: "p \<in> set (gl_lifts w) \<Longrightarrow> appendEntry env p locked (gl_ledger w) = (r, d') \<Longrightarrow>
     glass_step env w \<lparr>gl_ledger = d', gl_lifts = remove1 p (gl_lifts w)\<rparr>"

definition glass_start :: glass_world where
  "glass_start = \<lparr>gl_ledger = Ledger_absent, gl_lifts = []\<rparr>"

abbreviation glass_reachable :: "js_env \<Rightarrow> glass_world \<Rightarrow> bool" where
  "glass_reachable env w \<equiv> (glass_step env)\<^sup>*\<^sup>* glass_start w"

definition glass_inv :: "js_env \<Rightarrow> glass_world \<Rightarrow> bool" where
  "glass_inv env w = (sound env (gl_ledger w) \<and> (\<forall>p\<in>set (gl_lifts w). lift_of (readEntries (gl_ledger w)) p)
     \<or> broken_by_issue env (gl_ledger w))"

text \<open>Nothing is added to a ledger that fails its verification.\<close>

lemma broken_stays:
  assumes "glassIntegrity env d = Some x"
  shows "issue env iq uuid now locked d = (r1, d1) \<Longrightarrow> d1 = d"
    and "consume env q actor reason clk locked d = (r2, d2) \<Longrightarrow> d2 = d"
    and "appendEntry env p locked d = (r3, d3) \<Longrightarrow> d3 = d"
    and "lift_check env v actor reason now d \<noteq> Inr (Inr y)"
  using assms
  by (auto simp: issue_def issue_locked_def consume_def appendEntry_def appendEntryUnlocked_def glassIntegrity_def
      lift_check_def Let_def split: sum.splits if_splits option.splits)

lemma lift_of_mono: "lift_of es p \<Longrightarrow> set es \<subseteq> set fs \<Longrightarrow> lift_of fs p"
  unfolding lift_of_def by blast

lemma consume_grows:
  assumes "consume env q actor reason clk locked d = (r, d')" and "lawful env (readEntries d)"
  shows "set (readEntries d) \<subseteq> set (readEntries d')"
proof (cases "\<exists>st. r = Inr (Inr st)")
  case True
  then show ?thesis using assms consume_success by fastforce
next
  case False
  from consume_refused [OF assms(1) this] show ?thesis by simp
qed

lemma issue_grows:
  assumes "issue env q uuid now locked d = (r, d')"
  shows "set (readEntries d) \<subseteq> set (readEntries d')"
  using issue_run [OF assms]
  by (auto simp: issue_locked_def split: option.splits prod.splits sum.splits dest: append_grows [THEN subsetD])

lemma glass_inv_sound:
  assumes "glass_step env w w'" and "sound env (gl_ledger w)" and "\<forall>p\<in>set (gl_lifts w). lift_of (readEntries (gl_ledger w)) p"
  shows "glass_inv env w'"
  using assms
proof (induction rule: glass_step.induct)
  case (issued q uuid now locked w r d')
  then show ?case using issue_sound [OF issued(1)] issue_grows [OF issued(1)]
    by (auto simp: glass_inv_def intro: lift_of_mono)
next
  case (used q actor reason clk locked w r d')
  then have "set (readEntries (gl_ledger w)) \<subseteq> set (readEntries d')"
    using consume_grows by (auto simp: sound_def)
  with used show ?case using consume_sound by (auto simp: glass_inv_def intro: lift_of_mono)
next
  case (lift_checked windowId actor reason now w window p)
  then show ?case using lift_check_lift_of by (auto simp: glass_inv_def sound_def)
next
  case (lift_appended p w locked r d')
  have "set (readEntries (gl_ledger w)) \<subseteq> set (readEntries d')"
    using lift_appended(2) append_grows by (auto simp: appendEntry_def split: if_splits)
  with lift_appended show ?case
    using lift_appended_sound by (auto simp: glass_inv_def dest: notin_set_remove1 intro: lift_of_mono)
qed

lemma glass_inv_broken:
  assumes "glass_step env w w'" and "broken_by_issue env (gl_ledger w)"
  shows "gl_ledger w' = gl_ledger w"
proof -
  obtain x where x: "glassIntegrity env (gl_ledger w) = Some x" using assms(2) by (auto simp: broken_by_issue_def)
  show ?thesis using assms(1) broken_stays [OF x] by (induction rule: glass_step.induct) auto
qed

lemma glass_inv_step: "glass_step env w w' \<Longrightarrow> glass_inv env w \<Longrightarrow> glass_inv env w'"
  using glass_inv_sound glass_inv_broken unfolding glass_inv_def by metis

lemma glass_start_inv: "glass_inv env glass_start"
  by (simp add: glass_inv_def glass_start_def sound_def glassIntegrity_None readEntries_def lawful_Nil)

lemma reachable_inv: "glass_reachable env w \<Longrightarrow> glass_inv env w"
  by (induction rule: rtranclp_induct) (auto intro: glass_start_inv glass_inv_step)

lemma reachable_sound: "glass_reachable env w \<Longrightarrow> glassIntegrity env (gl_ledger w) = None \<Longrightarrow> sound env (gl_ledger w)"
  using reachable_inv [of env w] by (simp add: glass_inv_def broken_by_issue_def)

lemma issue_unique:
  "lawful env es \<Longrightarrow> g \<in> set es \<Longrightarrow> h \<in> set es \<Longrightarrow> about ''issue'' i g \<Longrightarrow> about ''issue'' i h \<Longrightarrow> g = h"
  by (induction rule: lawful.induct) (auto simp: entry_lawful_def dest: about_id)

lemma uses_within:
  "lawful env es \<Longrightarrow> g \<in> set es \<Longrightarrow> about ''issue'' i g \<Longrightarrow> of_nat (uses_of i es) \<le> num_of (jget g ''maxUses'')"
proof (induction rule: lawful.induct)
  case (lawful_snoc es e)
  show ?case
  proof (cases "about ''consume'' i e")
    case True
    then have g: "g \<in> set es" using lawful_snoc.prems by (auto dest: about_id)
    from True obtain h m where h: "h \<in> set es" "about ''issue'' i h" "of_nat (uses_of i es) < num_of (jget h ''maxUses'')"
      using lawful_snoc.hyps(2) by (auto simp: entry_lawful_def dest: about_id)
    have "h = g" using issue_unique [OF lawful_snoc.hyps(1) h(1) g h(2) lawful_snoc.prems(2)] .
    moreover obtain n where "jget g ''maxUses'' = JNum (of_int n)"
      using lawful_bounds [OF lawful_snoc.hyps(1) g lawful_snoc.prems(2)] by (auto simp: issued_in_bounds_def)
    moreover have "of_nat k < (of_int n :: rat) \<longleftrightarrow> int k < n" "of_nat k \<le> (of_int n :: rat) \<longleftrightarrow> int k \<le> n" for k
      by (metis of_int_less_iff of_int_of_nat_eq, metis of_int_le_iff of_int_of_nat_eq)
    ultimately show ?thesis using h(3) True by (simp add: uses_of_def del: of_nat_Suc)
  next
    case False
    then have same: "uses_of i (es @ [e]) = uses_of i es" by (simp add: uses_of_def)
    show ?thesis
    proof (cases "g \<in> set es")
      case True
      then show ?thesis using same lawful_snoc by simp
    next
      case g: False
      then have e: "about ''issue'' i e" using lawful_snoc.prems by simp
      then have "\<forall>h\<in>set es. \<not> about ''issue'' i h"
        using lawful_snoc.hyps(2) by (auto simp: entry_lawful_def dest: about_id)
      then have "\<forall>x\<in>set es. jget x ''windowId'' \<noteq> JStr i"
        using lawful_about [OF lawful_snoc.hyps(1)] by blast
      then have "uses_of i es = 0" by (auto simp: uses_of_def about_def filter_empty_conv)
      moreover have "0 \<le> num_of (jget g ''maxUses'')"
        using lawful_bounds [OF lawful.lawful_snoc [OF lawful_snoc.hyps] lawful_snoc.prems] by (auto simp: issued_in_bounds_def)
      ultimately show ?thesis using same by simp
    qed
  qed
qed simp

section \<open>The properties\<close>

lemma used_when_open:
  assumes "lawful env es" and "es = xs @ e # ys" and "about ''consume'' i e"
  shows "(\<forall>l\<in>set xs. \<not> about ''lift'' i l)
    \<and> (\<exists>g\<in>set xs. about ''issue'' i g \<and> of_nat (uses_of i xs) < num_of (jget g ''maxUses''))"
  using lawful_split [OF assms(1,2)] assms(3) by (auto simp: entry_lawful_def dest: about_id)

text \<open>
  C9: whatever processes issue, use and lift windows at once, with any clocks and with or without the lock,
  every window is issued for at most 50 uses and one hour, and every use was recorded when fewer uses
  than issued were recorded of its window and no lift was.  As long as the ledger verifies, a window has
  one issue and no more recorded uses than it was issued for; and the ledger stops verifying only
  by a second issue of an id that \<open>text\<close> changes when it is read again.
\<close>

theorem windows_stay_within_bounds:
  assumes "glass_reachable env w" and "es = readEntries (gl_ledger w)"
  shows "(\<forall>g\<in>set es. \<forall>i. about ''issue'' i g \<longrightarrow> issued_in_bounds env g)
    \<and> (\<forall>xs e ys i. es = xs @ e # ys \<and> about ''consume'' i e \<longrightarrow> (\<forall>l\<in>set xs. \<not> about ''lift'' i l)
        \<and> (\<exists>g\<in>set xs. about ''issue'' i g \<and> of_nat (uses_of i xs) < num_of (jget g ''maxUses'')))
    \<and> (glassIntegrity env (gl_ledger w) = None \<longrightarrow> (\<forall>g\<in>set es. \<forall>i. about ''issue'' i g \<longrightarrow>
          of_nat (uses_of i es) \<le> num_of (jget g ''maxUses'') \<and> (\<forall>h\<in>set es. about ''issue'' i h \<longrightarrow> h = g)))
    \<and> (glassIntegrity env (gl_ledger w) \<noteq> None \<longrightarrow> (\<exists>zs e i. es = zs @ [e] \<and> about ''issue'' i e
          \<and> (\<exists>g\<in>set zs. about ''issue'' i g) \<and> glass_text (JStr i) \<noteq> i))"
proof (cases "glassIntegrity env (gl_ledger w) = None")
  case True
  then have ok: "lawful env es" using reachable_sound [OF assms(1)] by (simp add: sound_def assms(2))
  have "\<forall>xs e ys i. es = xs @ e # ys \<and> about ''consume'' i e \<longrightarrow> (\<forall>l\<in>set xs. \<not> about ''lift'' i l)
        \<and> (\<exists>g\<in>set xs. about ''issue'' i g \<and> of_nat (uses_of i xs) < num_of (jget g ''maxUses''))"
    using used_when_open [OF ok] by blast
  moreover have "\<forall>g\<in>set es. \<forall>i. about ''issue'' i g \<longrightarrow> issued_in_bounds env g"
    using lawful_bounds [OF ok] by blast
  moreover have "\<forall>g\<in>set es. \<forall>i. about ''issue'' i g \<longrightarrow>
      of_nat (uses_of i es) \<le> num_of (jget g ''maxUses'') \<and> (\<forall>h\<in>set es. about ''issue'' i h \<longrightarrow> h = g)"
    using uses_within [OF ok] issue_unique [OF ok] by blast
  ultimately show ?thesis using True by blast
next
  case False
  then obtain zs e i where b: "es = zs @ [e]" "lawful env zs" "about ''issue'' i e" "issued_in_bounds env e"
      "\<exists>g\<in>set zs. about ''issue'' i g" "glass_text (JStr i) \<noteq> i"
    using reachable_inv [OF assms(1)] by (auto simp: glass_inv_def sound_def broken_by_issue_def assms(2))
  have "(\<forall>l\<in>set xs. \<not> about ''lift'' j l) \<and> (\<exists>g\<in>set xs. about ''issue'' j g \<and> of_nat (uses_of j xs) < num_of (jget g ''maxUses''))"
    if x: "es = xs @ x # ys" "about ''consume'' j x" for xs x ys j
  proof (cases ys rule: rev_cases)
    case Nil
    with x b(1,3) show ?thesis by (auto dest: about_id)
  next
    case (snoc vs v)
    with x b(1) have "zs = xs @ x # vs" by simp
    from used_when_open [OF b(2) this x(2)] show ?thesis .
  qed
  moreover have "\<forall>g\<in>set es. \<forall>j. about ''issue'' j g \<longrightarrow> issued_in_bounds env g"
    using lawful_bounds [OF b(2)] b(1,4) by auto
  ultimately show ?thesis using False b by blast
qed

text \<open>
  C10: the gate moves a decision only from review to allow, and only by a recorded use of an open window.
  Whatever other processes did between its check and its use, when the decision changes it was a review, it
  becomes an allow, the ledger at the moment of the use had a window of the configured id that was not
  lifted, not past its end, not used up, of the workspace, the agent and the category of the call, and the ledger
  afterwards has exactly one entry more, the use.
\<close>

theorem allow_is_a_recorded_use:
  assumes run: "applyBreakGlass env decision envelope config now clk locked between d = (Inr a, d')"
    and changed: "gate_decision decision a \<noteq> decision"
    and reach: "glass_reachable env w" "gl_ledger w = between d"
  shows "decision = ''review'' \<and> gate_decision decision a = ''allow''
    \<and> (\<exists>c. config = Some c \<and> (let q = gate_use envelope (gc_windowId c); es = readEntries (between d) in
        \<exists>g\<in>set es. \<exists>e. open_for env q (clk 0) es g \<and> issued_in_bounds env g
          \<and> readEntries d' = es @ [e] \<and> about ''consume'' (glass_text (gc_windowId c)) e))"
proof -
  obtain f where a: "a = Relaxed f" using changed by (cases a) auto
  obtain c st reason where dec: "decision = ''review''" and c: "config = Some c"
    and use: "consume env (gate_use envelope (gc_windowId c)) (gc_actor c) reason clk locked (between d) = (Inr (Inr st), d')"
    using run a by (auto simp: applyBreakGlass_def Let_def split: if_splits option.splits sum.splits prod.splits)
  have "glassIntegrity env (between d) = None"
    using use by (cases "glassIntegrity env (between d)") (auto simp: consume_def split: if_splits)
  then have lawful: "lawful env (readEntries (between d))"
    using reachable_sound [OF reach(1)] reach(2) by (simp add: sound_def)
  obtain g e where g: "g \<in> set (readEntries (between d))"
      "open_for env (gate_use envelope (gc_windowId c)) (clk 0) (readEntries (between d)) g"
      "readEntries d' = readEntries (between d) @ [e]"
      "about ''consume'' (glass_text (gu_windowId (gate_use envelope (gc_windowId c)))) e"
    using consume_success [OF use lawful] by blast
  moreover have "issued_in_bounds env g" using lawful_bounds [OF lawful g(1)] g(2) by (auto simp: open_for_def)
  ultimately show ?thesis using dec c a by (auto simp: Let_def gate_use_def)
qed

text \<open>
  C11: a ledger that does not verify grants nothing and takes nothing: no window is active, no use, issue
  or lift is recorded, and the gate leaves every decision as it is.
\<close>

theorem broken_ledger_grants_nothing:
  assumes "glassIntegrity env d = Some r"
  shows "glass_check env q now d = Inr (Inl (Integrity_violation r))
    \<and> consume env q actor reason clk True d = (Inr (Inl (Integrity_violation r)), d)
    \<and> snd (issue env iq uuid now locked d) = d
    \<and> appendEntry env p True d = (Inl (Append_unverifiable r), d)
    \<and> (\<exists>a. applyBreakGlass env decision envelope config now clk locked between d = (Inr a, d)
        \<and> gate_decision decision a = decision)"
proof -
  have check: "glass_check env q' now d = Inr (Inl (Integrity_violation r))" for q'
    using assms by (simp add: glass_check_def)
  moreover have "consume env q actor reason clk True d = (Inr (Inl (Integrity_violation r)), d)"
    using assms by (simp add: consume_def)
  moreover have "snd (issue env iq uuid now locked d) = d"
    using assms by (auto simp: issue_def issue_locked_def split: sum.splits)
  moreover have "appendEntry env p True d = (Inl (Append_unverifiable r), d)"
    using assms by (simp add: appendEntry_def appendEntryUnlocked_def glassIntegrity_def Let_def)
  moreover have "\<exists>a. applyBreakGlass env decision envelope config now clk locked between d = (Inr a, d)
        \<and> gate_decision decision a = decision"
    by (auto simp: applyBreakGlass_def Let_def check split: option.splits)
  ultimately show ?thesis by blast
qed

section \<open>A long id\<close>

lemma issue_answer:
  assumes run: "issue env q uuid now True d = (r, d')" and ok: "glassIntegrity env d = None"
    and none: "windowState env d (JStr (window_id_of q uuid)) = None"
  shows "(\<exists>e. r = Inl e) \<and> d' = d \<or> (\<exists>p. plain_payload p \<and> field p ''action'' = JStr ''issue''
    \<and> field p ''windowId'' = JStr (window_id_of q uuid) \<and> r = Inr (Inr (glass_entry env p (readEntries d)))
    \<and> readEntries d' = readEntries d @ [glass_entry env p (readEntries d)]
    \<and> (field p ''windowId'' \<notin> set (issue_ids (readEntries d)) \<longrightarrow> glassIntegrity env d' = None))"
proof (cases "\<exists>e. r = Inl e \<and> d' = d")
  case False
  let ?i = "window_id_of q uuid"
  obtain ws x uses where go: "issue_locked env (issue_payload q ?i ws now x uses) ?i d = (r, d')"
    using run False by (auto simp: issue_def split: sum.splits dest!: bind_result_eq_Inr [THEN iffD1])
  define p where "p = issue_payload q ?i ws now x uses"
  have p: "plain_payload p" by (simp add: p_def issue_payload_simps)
  obtain x d'' where app: "appendEntryUnlocked env p d = (x, d'')" by fastforce
  note a = appended [OF app ok p]
  have "r = Inr (Inr (glass_entry env p (readEntries d)))" "d'' = d'"
    using go app ok none a(1) by (auto simp: issue_locked_def p_def)
  moreover have "field p ''windowId'' \<notin> set (issue_ids (readEntries d)) \<Longrightarrow> glassIntegrity env d'' = None"
    using appended_intact [OF app ok p] by (simp add: p_def issue_payload_simps BREAK_GLASS_ACTIONS_def)
  moreover have "field p ''action'' = JStr ''issue''" "field p ''windowId'' = JStr ?i"
    by (simp_all add: p_def issue_payload_simps)
  ultimately show ?thesis using p a(2) by blast
qed blast

lemma issue_repeated:
  assumes "issue env q u now True d = (Inr (Inr e), d1)"
    and "date_parse env now' = Some t" and "\<bar>t\<bar> \<le> 8640000000000000 - 3600000"
  shows "\<exists>p. plain_payload p \<and> field p ''action'' = JStr ''issue'' \<and> field p ''windowId'' = JStr (window_id_of q u')
    \<and> issue env q u' now' True d' = issue_locked env p (window_id_of q u') d'"
proof -
  obtain ws x ttl uses where ok: "glass_workspace (gi_workspaceId q) = Inr ws" "glass_text (gi_reason q) \<noteq> []"
      "glass_text (gi_actor q) \<noteq> []" "bounded_integer (gi_maxUses q) DEFAULT_USES MAX_USES Uses_out_of_range = Inr uses"
      "bounded_integer (gi_ttlMs q) DEFAULT_WINDOW_MS MAX_WINDOW_MS Ttl_out_of_range = Inr ttl"
    using assms(1) by (auto simp: issue_def split: sum.splits dest!: bind_result_eq_Inr [THEN iffD1])
  have "0 < ttl \<and> ttl \<le> 3600000"
    using bounded_integer_Inr [OF ok(5)] by (simp add: DEFAULT_WINDOW_MS_def MAX_WINDOW_MS_def)
  then have "\<bar>t + ttl\<bar> \<le> 8640000000000000" using assms(3) by (simp add: abs_le_iff)
  then have "expiry env now' ttl = Inr (iso_at env (t + ttl))" using assms(2) by (simp add: expiry_def)
  then have "issue env q u' now' True d' = issue_locked env (issue_payload q (window_id_of q u') ws now' (iso_at env (t + ttl)) uses)
      (window_id_of q u') d'"
    using ok by (simp add: issue_def)
  then show ?thesis by (blast intro: issue_payload_simps)
qed

text \<open>
  C12: a window id that changes when it is read again can be issued twice, and that destroys the ledger: an id
  of more than 256 characters whose character 256 is a blank is cut to 256 characters when it is stored, but
  loses the blank as well when the existing window is looked up.  On an intact ledger without entries of either
  form, where a request for such an id is granted, the same request is granted again at any later
  reading of the clock, with an entry of the same id; the ledger then fails its verification, for every window.
\<close>

theorem long_id_breaks_ledger:
  assumes ok: "glassIntegrity env d = None"
    and unstable: "glass_text (gi_windowId q) = i" "i \<noteq> []" "glass_text (JStr i) \<noteq> i"
    and fresh: "\<forall>e\<in>set (readEntries d). jget e ''windowId'' \<notin> {JStr i, JStr (glass_text (JStr i))}"
    and first: "issue env q u now True d = (Inr (Inr e), d1)"
    and later: "date_parse env now' = Some t" "\<bar>t\<bar> \<le> 8640000000000000 - 3600000"
  shows "glassIntegrity env d1 = None \<and> (\<exists>e' d2. issue env q u' now' True d1 = (Inr (Inr e'), d2)
    \<and> about ''issue'' i e' \<and> readEntries d2 = readEntries d1 @ [e'] \<and> glassIntegrity env d2 \<noteq> None)"
proof -
  have id: "window_id_of q u = i" "window_id_of q u' = i"
    using unstable(1,2) by (simp_all add: window_id_of_def)
  have none: "windowState env d' (JStr i) = None"
    if "\<forall>e\<in>set (readEntries d'). jget e ''windowId'' \<noteq> JStr (glass_text (JStr i))" for d'
  proof -
    have "fold (replay_step j) es st = st" if "\<forall>e\<in>set es. jget e ''windowId'' \<noteq> JStr j" for j es st
      using that by (induction es) (auto simp: replay_step_def split: prod.splits)
    with that show ?thesis by (simp add: windowState_def Let_def replay_def)
  qed
  have "windowState env d (JStr (window_id_of q u)) = None" using none [of d] fresh by (simp add: id)
  from issue_answer [OF first ok this] obtain p where p: "plain_payload p"
      "field p ''action'' = JStr ''issue''" "field p ''windowId'' = JStr i"
    and d1: "readEntries d1 = readEntries d @ [glass_entry env p (readEntries d)]"
    and i1: "field p ''windowId'' \<notin> set (issue_ids (readEntries d)) \<longrightarrow> glassIntegrity env d1 = None"
    unfolding id by blast
  note f = glass_entry_fields [OF p(1), where env = env and es = "readEntries d"]
  have ok1: "glassIntegrity env d1 = None" using i1 fresh p(3) by (auto simp: issue_ids_def)
  have none1: "windowState env d1 (JStr i) = None"
    using none [of d1] fresh unstable(3) by (simp add: id d1 f(5) p(3))
  obtain p' where p': "plain_payload p'" "field p' ''action'' = JStr ''issue''" "field p' ''windowId'' = JStr i"
    and go: "issue env q u' now' True d1 = issue_locked env p' i d1"
    using issue_repeated [OF first later, of u' d1] unfolding id by blast
  obtain r d2 where app: "appendEntryUnlocked env p' d1 = (r, d2)" by fastforce
  let ?e = "glass_entry env p' (readEntries d1)"
  note a = appended [OF app ok1 p'(1)]
  have run: "issue env q u' now' True d1 = (Inr (Inr ?e), d2)"
    using a(1) app by (simp add: go issue_locked_def ok1 none1)
  have about: "about ''issue'' i ?e" using glass_entry_fields(5) [OF p'(1)] p'(2,3) by (simp add: about_def)
  have "JStr i \<in> set (issue_ids (readEntries d1))" by (simp add: d1 issue_ids_def f(5) p)
  then have "glassIntegrity env d2 \<noteq> None"
    using about by (auto simp: glassIntegrity_None a(2) verify_glass_snoc set_has_def about_def)
  with run about a(2) ok1 show ?thesis by blast
qed

section \<open>Witnesses\<close>

definition example_issue :: "jsval \<Rightarrow> issue_request" where
  "example_issue windowId = \<lparr>gi_workspaceId = JUndefined, gi_agentId = JUndefined, gi_reason = JStr ''incident'',
     gi_actor = JStr ''operator'', gi_operatorIdentity = JUndefined, gi_ttlMs = JNum 1000, gi_maxUses = JNum 2,
     gi_categories = JUndefined, gi_windowId = windowId\<rparr>"

definition opened :: ledger_file where
  "opened = snd (issue example_env (example_issue (JStr ''w1'')) ''u'' ''0'' True Ledger_absent)"

definition call_envelope :: jsval where
  "call_envelope = JObj [(''riskCategory'', JStr ''write''), (''identity'', JObj [(''identityRef'', JStr ''agent'')])]"

definition example_config :: glass_config where
  "example_config = \<lparr>gc_windowId = JStr ''w1'', gc_actor = JUndefined\<rparr>"

definition relaxed :: "(glass_error + gate_answer) \<times> ledger_file" where
  "relaxed = applyBreakGlass example_env ''review'' call_envelope (Some example_config) ''10'' (\<lambda>k. ''20'') True id opened"

lemma opened_reachable: "glass_reachable example_env (glass_start\<lparr>gl_ledger := opened\<rparr>)"
proof -
  obtain r where run: "issue example_env (example_issue (JStr ''w1'')) ''u'' ''0'' True (gl_ledger glass_start) = (r, opened)"
    by (cases "issue example_env (example_issue (JStr ''w1'')) ''u'' ''0'' True Ledger_absent") (simp add: opened_def glass_start_def)
  have "stable_id ''u''" by code_simp
  from issued [OF run this] show ?thesis by (rule r_into_rtranclp)
qed

lemma relaxed_answer: "\<exists>f d'. relaxed = (Inr (Relaxed f), d')"
proof -
  have "(case fst relaxed of Inr (Relaxed f) \<Rightarrow> True | _ \<Rightarrow> False)" by code_simp
  then obtain f where "fst relaxed = Inr (Relaxed f)" by (auto split: sum.splits gate_answer.splits)
  then have "relaxed = (Inr (Relaxed f), snd relaxed)" by (simp add: prod_eq_iff)
  then show ?thesis by blast
qed

theorem windows_stay_within_bounds_witness:
  "\<exists>g\<in>set (readEntries opened). about ''issue'' ''w1'' g \<and> issued_in_bounds example_env g
    \<and> of_nat (uses_of ''w1'' (readEntries opened)) \<le> num_of (jget g ''maxUses'')"
proof -
  have "list_ex (about ''issue'' ''w1'') (readEntries opened)" by code_simp
  then obtain g where g: "g \<in> set (readEntries opened)" "about ''issue'' ''w1'' g" by (auto simp: list_ex_iff)
  have "glassIntegrity example_env opened = None" by code_simp
  with windows_stay_within_bounds [OF opened_reachable refl] g(2)
  have "\<forall>h\<in>set (readEntries opened). about ''issue'' ''w1'' h \<longrightarrow> issued_in_bounds example_env h
      \<and> of_nat (uses_of ''w1'' (readEntries opened)) \<le> num_of (jget h ''maxUses'')" by simp blast
  with g show ?thesis by blast
qed

theorem allow_is_a_recorded_use_witness:
  "\<exists>a d' e. relaxed = (Inr a, d') \<and> readEntries d' = readEntries opened @ [e] \<and> about ''consume'' ''w1'' e"
proof -
  obtain f d' where run: "relaxed = (Inr (Relaxed f), d')" using relaxed_answer by blast
  have w: "glass_text (gc_windowId example_config) = ''w1''" by code_simp
  have changed: "gate_decision ''review'' (Relaxed f) \<noteq> ''review''" by simp
  have led: "gl_ledger (glass_start\<lparr>gl_ledger := opened\<rparr>) = id opened" by simp
  from allow_is_a_recorded_use [OF run [unfolded relaxed_def] changed opened_reachable led] run w show ?thesis
    by (auto simp: Let_def)
qed

theorem broken_ledger_grants_nothing_witness:
  "\<exists>d r. glassIntegrity example_env d = Some r \<and> d \<noteq> Ledger_unreadable
     \<and> glass_check example_env (gate_use call_envelope (JStr ''w1'')) ''10'' d = Inr (Inl (Integrity_violation r))"
proof -
  have "glassIntegrity example_env (Ledger [Corrupt_line]) = Some (Broken Unreadable_or_corrupt)" by code_simp
  from broken_ledger_grants_nothing [OF this] this show ?thesis by blast
qed

definition long_id :: string where
  "long_id = replicate 255 CHR ''a'' @ '' b''"

lemma long_id_text:
  "glass_text (JStr long_id) = replicate 255 CHR ''a'' @ '' ''" "glass_text (JStr (replicate 255 CHR ''a'' @ '' '')) = replicate 255 CHR ''a''"
proof -
  have s: "\<not> is_space CHR ''a''" "\<not> is_space CHR ''b''" "is_space CHR '' ''" by code_simp+
  have r: "replicate 255 CHR ''a'' = CHR ''a'' # replicate 254 CHR ''a''"
    by (subst replicate_Suc [symmetric]) simp
  have d: "dropWhile is_space (replicate 255 CHR ''a'' @ xs) = replicate 255 CHR ''a'' @ xs" for xs
    unfolding r using s by simp
  have "trim long_id = long_id" "trim (replicate 255 CHR ''a'' @ '' '') = replicate 255 CHR ''a''"
    using s d [of "[]"] by (simp_all add: trim_def long_id_def d)
  then show "glass_text (JStr long_id) = replicate 255 CHR ''a'' @ '' ''" "glass_text (JStr (replicate 255 CHR ''a'' @ '' '')) = replicate 255 CHR ''a''"
    by (simp_all add: glass_text_def MAX_GLASS_TEXT_def) (simp add: long_id_def)
qed

theorem long_id_breaks_ledger_witness:
  "\<exists>e d1 e' d2. issue example_env (example_issue (JStr long_id)) [] ''0'' True Ledger_absent = (Inr (Inr e), d1)
     \<and> issue example_env (example_issue (JStr long_id)) [] ''1'' True d1 = (Inr (Inr e'), d2)
     \<and> glassIntegrity example_env d1 = None \<and> glassIntegrity example_env d2 \<noteq> None"
proof -
  let ?i = "replicate 255 CHR ''a'' @ '' ''" and ?q = "example_issue (JStr long_id)"
  have i: "glass_text (JStr long_id) = ?i" "?i \<noteq> []" "glass_text (JStr ?i) \<noteq> ?i"
    using long_id_text by simp_all
  have q: "glass_text (gi_windowId ?q) = ?i" unfolding i(1) [symmetric] by (simp add: example_issue_def)
  have ok: "glassIntegrity example_env Ledger_absent = None" by (simp add: glassIntegrity_None readEntries_def)
  have fresh: "\<forall>e\<in>set (readEntries Ledger_absent). jget e ''windowId'' \<notin> {JStr ?i, JStr (glass_text (JStr ?i))}"
    by (simp add: readEntries_def)
  obtain r1 d1 where run: "issue example_env ?q [] ''0'' True Ledger_absent = (r1, d1)" by fastforce
  have none: "windowState example_env Ledger_absent (JStr (window_id_of ?q [])) = None"
    by (simp add: windowState_def Let_def readEntries_def replay_def)
  have "glass_workspace (gi_workspaceId ?q) = Inr ''default''" "glass_text (gi_reason ?q) \<noteq> []" "glass_text (gi_actor ?q) \<noteq> []"
    "bounded_integer (gi_ttlMs ?q) DEFAULT_WINDOW_MS MAX_WINDOW_MS Ttl_out_of_range = Inr 1000"
    "bounded_integer (gi_maxUses ?q) DEFAULT_USES MAX_USES Uses_out_of_range = Inr 2"
    "expiry example_env ''0'' 1000 = Inr ''1000''"
    by code_simp+
  then have lock: "issue_locked example_env (issue_payload ?q (window_id_of ?q []) ''default'' ''0'' ''1000'' 2)
      (window_id_of ?q []) Ledger_absent = (r1, d1)"
    using run by (simp add: issue_def)
  obtain x d' where app: "appendEntryUnlocked example_env
      (issue_payload ?q (window_id_of ?q []) ''default'' ''0'' ''1000'' 2) Ledger_absent = (x, d')" by fastforce
  obtain e where "r1 = Inr (Inr e)"
    using lock app appended(1) [OF app ok issue_payload_simps(1)] by (auto simp: issue_locked_def ok none)
  with run have first: "issue example_env ?q [] ''0'' True Ledger_absent = (Inr (Inr e), d1)" by simp
  have later: "date_parse example_env ''1'' = Some 1" "\<bar>1\<bar> \<le> (8640000000000000 - 3600000 :: int)" by code_simp+
  from long_id_breaks_ledger [OF ok q i(2,3) fresh first later, of "[]"] first show ?thesis by blast
qed

end
