(* ===== verification/A2a_Values.thy ===== *)
theory A2a_Values
  imports Authority_Envelope Json_Parse
begin

text \<open>
  The values of the agent-to-agent exchange: canonical JSON of a bounded size
  (\<open>src/lib/receipt/cryptographic-profile-contract.js\<close>), the guards of untrusted data
  (\<open>src/lib/a2a/bounded-exchange-values.js\<close>) and the depth of a delegation
  (\<open>src/lib/a2a/delegation-depth.js\<close>).  An input is data: proxies, accessors, cycles and shared
  prototypes do not occur in a value of the model.
\<close>

section \<open>Canonical JSON\<close>

definition MAX_MESSAGE_BYTES :: nat where "MAX_MESSAGE_BYTES = 1048576"
definition MAX_DEPTH :: nat where "MAX_DEPTH = 64"
definition MAX_NODES :: nat where "MAX_NODES = 100000"

text \<open>The text, \<open>None\<close> when a value of it is \<open>undefined\<close>; its nesting depth and its nodes.\<close>

fun stable_text :: "js_env \<Rightarrow> jsval \<Rightarrow> string option"
and stable_elems :: "js_env \<Rightarrow> jsval list \<Rightarrow> string list option"
and stable_members :: "js_env \<Rightarrow> (string \<times> jsval) list \<Rightarrow> (string \<times> string) list option" where
  "stable_text env JUndefined = None"
| "stable_text env JNull = Some ''null''"
| "stable_text env (JBool b) = Some (if b then ''true'' else ''false'')"
| "stable_text env (JNum r) = Some (show_num env r)"
| "stable_text env (JStr s) = Some (quote s)"
| "stable_text env (JArr xs) = map_option (\<lambda>ts. ''['' @ join '','' ts @ '']'') (stable_elems env xs)"
| "stable_text env (JObj fs) = map_option (\<lambda>ps. ''{'' @ join '',''
     (map (\<lambda>p. quote (fst p) @ '':'' @ snd p) (sort_key fst ps)) @ ''}'') (stable_members env fs)"
| "stable_elems env [] = Some []"
| "stable_elems env (x # xs) = (case (stable_text env x, stable_elems env xs) of
     (Some t, Some ts) \<Rightarrow> Some (t # ts) | _ \<Rightarrow> None)"
| "stable_members env [] = Some []"
| "stable_members env ((k, v) # fs) = (case (stable_text env v, stable_members env fs) of
     (Some t, Some ps) \<Rightarrow> Some ((k, t) # ps) | _ \<Rightarrow> None)"

fun json_depth :: "jsval \<Rightarrow> nat"
and elems_depth :: "jsval list \<Rightarrow> nat"
and members_depth :: "(string \<times> jsval) list \<Rightarrow> nat" where
  "json_depth (JArr xs) = elems_depth xs"
| "json_depth (JObj fs) = members_depth fs"
| "json_depth v = 0"
| "elems_depth [] = 0"
| "elems_depth (x # xs) = max (Suc (json_depth x)) (elems_depth xs)"
| "members_depth [] = 0"
| "members_depth ((k, v) # fs) = max (Suc (json_depth v)) (members_depth fs)"

fun json_nodes :: "jsval \<Rightarrow> nat"
and elems_nodes :: "jsval list \<Rightarrow> nat"
and members_nodes :: "(string \<times> jsval) list \<Rightarrow> nat" where
  "json_nodes (JArr xs) = Suc (elems_nodes xs)"
| "json_nodes (JObj fs) = Suc (members_nodes fs)"
| "json_nodes v = 1"
| "elems_nodes [] = 0"
| "elems_nodes (x # xs) = json_nodes x + elems_nodes xs"
| "members_nodes [] = 0"
| "members_nodes ((k, v) # fs) = json_nodes v + members_nodes fs"

text \<open>\<open>None\<close> when it throws.\<close>

definition encodeJsonStableV1 :: "js_env \<Rightarrow> jsval \<Rightarrow> string option" where
  "encodeJsonStableV1 env v = (case stable_text env v of
       None \<Rightarrow> None
     | Some t \<Rightarrow> if json_nodes v > MAX_NODES \<or> json_depth v > MAX_DEPTH \<or> utf8_length t > MAX_MESSAGE_BYTES
         then None else Some t)"

section \<open>Guards\<close>

definition MAX_EXCHANGE_BYTES :: nat where "MAX_EXCHANGE_BYTES = 1024 * 1024"
definition MAX_STRING_BYTES :: nat where "MAX_STRING_BYTES = 1024"
definition MAX_LIST_ITEMS :: nat where "MAX_LIST_ITEMS = 16"

definition exactObject :: "jsval \<Rightarrow> string list \<Rightarrow> bool" where
  "exactObject v keys = (isPlainObject v \<and> sort (map fst (own_fields v)) = sort keys)"

definition exchange_text :: "string \<Rightarrow> bool" where
  "exchange_text s = (0 < utf8_length s \<and> utf8_length s \<le> MAX_STRING_BYTES \<and> trim s = s)"

definition non_empty :: "jsval \<Rightarrow> bool" where
  "non_empty v = string_matches exchange_text v"

definition EXCHANGE_INSTANT :: "string \<Rightarrow> bool" where
  "EXCHANGE_INSTANT s = digits_at ''dddd-dd-ddTdd:dd:dd.dddZ'' s"

definition canonicalInstant :: "js_env \<Rightarrow> jsval \<Rightarrow> bool" where
  "canonicalInstant env v = string_matches (\<lambda>s. EXCHANGE_INSTANT s \<and> date_parse env s \<noteq> None) v"

text \<open>\<open>Date.parse\<close> of a value that was checked to be an instant.\<close>

definition instant_of :: "js_env \<Rightarrow> jsval \<Rightarrow> int" where
  "instant_of env v = (case date_parse env (js_string env v) of Some t \<Rightarrow> t | None \<Rightarrow> 0)"

definition list_of :: "jsval \<Rightarrow> jsval list" where
  "list_of v = (case v of JArr xs \<Rightarrow> xs | _ \<Rightarrow> [])"

fun is_array :: "jsval \<Rightarrow> bool" where
  "is_array (JArr xs) = True"
| "is_array _ = False"

definition uniqueStrings :: "jsval \<Rightarrow> bool \<Rightarrow> bool" where
  "uniqueStrings v allowEmpty = (is_array v \<and> length (list_of v) \<le> MAX_LIST_ITEMS
     \<and> (allowEmpty \<or> list_of v \<noteq> []) \<and> list_all non_empty (list_of v) \<and> distinct (list_of v))"

text \<open>Data that is written and read back; \<open>None\<close> is \<open>null\<close>.\<close>

definition snapshotUntrustedData :: "js_env \<Rightarrow> jsval \<Rightarrow> jsval option" where
  "snapshotUntrustedData env v = (case encodeJsonStableV1 env v of
       None \<Rightarrow> None
     | Some t \<Rightarrow> if utf8_length t < 1 \<or> utf8_length t > MAX_EXCHANGE_BYTES then None else JSON_parse t)"

definition canonical_hash :: "js_env \<Rightarrow> jsval \<Rightarrow> string option" where
  "canonical_hash env v = map_option (sha256_hex env) (encodeJsonStableV1 env v)"

definition is_base64 :: "char \<Rightarrow> bool" where
  "is_base64 c = (is_base64url c \<and> c \<notin> {CHR ''-'', CHR ''_''} \<or> c \<in> {CHR ''+'', CHR ''/''})"

definition base64_shape :: "string \<Rightarrow> bool" where
  "base64_shape s = (let body = dropWhile (\<lambda>c. c = CHR ''='') (rev s) in
     body \<noteq> [] \<and> list_all is_base64 body \<and> length s - length body \<le> 2)"

definition strictBase64 :: "jsval \<Rightarrow> nat \<Rightarrow> string option" where
  "strictBase64 v expectedBytes = (case v of
       JStr s \<Rightarrow> let bytes = from_base64 s in
         if base64_shape s \<and> length bytes = expectedBytes \<and> to_base64 bytes = s then Some bytes else None
     | _ \<Rightarrow> None)"

definition to_base64url :: "string \<Rightarrow> string" where
  "to_base64url bytes = map (\<lambda>c. if c = CHR ''+'' then CHR ''-'' else if c = CHR ''/'' then CHR ''_'' else c)
     (filter (\<lambda>c. c \<noteq> CHR ''='') (to_base64 bytes))"

definition strictBase64url :: "jsval \<Rightarrow> nat \<Rightarrow> string option" where
  "strictBase64url v expectedBytes = (case v of
       JStr s \<Rightarrow> let bytes = from_base64 s in
         if s \<noteq> [] \<and> list_all is_base64url s \<and> length bytes = expectedBytes \<and> to_base64url bytes = s
           then Some bytes else None
     | _ \<Rightarrow> None)"

definition SIGNATURE_KEYS :: "string list" where
  "SIGNATURE_KEYS = [''algorithm'', ''keyReference'', ''value'']"

definition signatureShape :: "jsval \<Rightarrow> bool" where
  "signatureShape v = (exactObject v SIGNATURE_KEYS \<and> jget v ''algorithm'' = JStr ''ed25519-v1''
     \<and> non_empty (jget v ''keyReference'') \<and> strictBase64url (jget v ''value'') 64 \<noteq> None)"

section \<open>The depth of a delegation\<close>

definition MAX_DELEGATION_DEPTH :: nat where "MAX_DELEGATION_DEPTH = 16"

definition valid_agent_id :: "jsval \<Rightarrow> bool" where
  "valid_agent_id v = string_matches (\<lambda>s. s \<noteq> [] \<and> utf8_length s \<le> MAX_STRING_BYTES) v"

record delegation_depth =
  dg_depth :: nat
  dg_visitedAgentIds :: "jsval list"
  dg_withinBounds :: bool

definition evaluateDelegationDepth :: "jsval \<Rightarrow> delegation_depth option" where
  "evaluateDelegationDepth delegation = (case (isPlainObject delegation, jget delegation ''chain'') of
       (True, JArr chain) \<Rightarrow> if \<not> list_all valid_agent_id chain then None
         else Some \<lparr>dg_depth = length chain, dg_visitedAgentIds = chain,
           dg_withinBounds = (chain \<noteq> [] \<and> length chain \<le> MAX_DELEGATION_DEPTH \<and> distinct chain)\<rparr>
     | _ \<Rightarrow> None)"

definition withinDelegationDepth :: "jsval \<Rightarrow> bool" where
  "withinDelegationDepth delegation = (case evaluateDelegationDepth delegation of
       None \<Rightarrow> False
     | Some d \<Rightarrow> dg_withinBounds d)"

end
