(* ===== verification/A2a_Authority.thy ===== *)
theory A2a_Authority
  imports A2a_Values
begin

text \<open>
  Whom an agent-to-agent exchange trusts: the authority record and the identities it resolves the participants
  to (\<open>src/lib/a2a/bounded-exchange-authority.js\<close>, \<open>bounded-exchange-contract.js\<close>), the trusted keys
  (\<open>src/lib/receipt/trusted-key-resolver*.js\<close>) and the check of a signature
  (\<open>bounded-exchange-signing.js\<close>, \<open>src/lib/receipt/cryptographic-verification-adapter.js\<close>).  The
  verification of Ed25519 itself is the argument \<open>ed25519\<close>.  The record and the request are snapshots; a part of a
  snapshot is within the limits of the whole, so hashing it does not throw.
\<close>

section \<open>The contract\<close>

definition RISK_ORDER :: "(string \<times> nat) list" where
  "RISK_ORDER = [(''low'', 0), (''medium'', 1), (''high'', 2), (''critical'', 3)]"

text \<open>The name of a property is the text of the value.\<close>

definition has_risk :: "js_env \<Rightarrow> jsval \<Rightarrow> bool" where
  "has_risk env v = (map_of RISK_ORDER (js_string env v) \<noteq> None)"

definition risk_rank :: "js_env \<Rightarrow> jsval \<Rightarrow> nat" where
  "risk_rank env v = (case map_of RISK_ORDER (js_string env v) of Some n \<Rightarrow> n | None \<Rightarrow> 0)"

definition PARTY_KEYS :: "string list" where
  "PARTY_KEYS = [''agentId'', ''identityRef'', ''identityHash'']"

definition AUTHORITY_KEYS :: "string list" where
  "AUTHORITY_KEYS = [''identities'', ''keys'', ''expectedTarget'', ''receiptBindings'',
     ''receiptTrustedKeyRecords'', ''evaluationTime'', ''authorityId'']"

definition AUTHORITY_IDENTITY_KEYS :: "string list" where
  "AUTHORITY_IDENTITY_KEYS = [''ref'', ''keyReference'', ''record'', ''allowedPackageIds'']"

definition AUTHORITY_KEY_KEYS :: "string list" where
  "AUTHORITY_KEY_KEYS = [''keyReference'', ''status'', ''expiresAt'', ''publicKeySpkiDerBase64'']"

definition EXPECTED_TARGET_KEYS :: "string list" where
  "EXPECTED_TARGET_KEYS = [''agentId'', ''identityRef'', ''identityHash'', ''workspaceId'']"

definition RECEIPT_BINDING_KEYS :: "string list" where
  "RECEIPT_BINDING_KEYS = [''publicReceiptId'', ''expectedInternalReceiptHash'', ''expectedBundleHash'',
     ''keyId'', ''purpose'']"

definition RECEIPT_TRUSTED_KEY_KEYS :: "string list" where
  "RECEIPT_TRUSTED_KEY_KEYS = [''keyReference'', ''status'', ''expiresAt'', ''publicKeySpkiDerBase64'', ''purpose'']"

definition IDENTITY_REQUIRED_KEYS :: "string list" where
  "IDENTITY_REQUIRED_KEYS = [''agent_id'', ''agent_type'', ''display_name'', ''owner_actor_id'', ''workspace_id'',
     ''delegation_scope'', ''allowed_tools'', ''allowed_memory_scopes'', ''allowed_connectors'', ''risk_tier'',
     ''trust_tier'', ''policy_version'', ''issued_at'', ''expires_at'', ''revoked_at'', ''revocation_reason'',
     ''parent_agent_id'', ''delegation_chain'', ''receipt_refs'', ''provenance_refs'', ''audit_requirements'',
     ''verification_status'', ''expected_status'', ''expected_reason_code'']"

section \<open>The authority\<close>

definition hash_is :: "js_env \<Rightarrow> jsval \<Rightarrow> jsval \<Rightarrow> bool" where
  "hash_is env v expected = (case canonical_hash env v of None \<Rightarrow> False | Some h \<Rightarrow> expected = JStr h)"

text \<open>A set of values finds an object only by its identity, and those of a snapshot differ.\<close>

definition seen_value :: "jsval list \<Rightarrow> jsval \<Rightarrow> bool" where
  "seen_value vs v = (\<not> is_object v \<and> v \<in> set vs)"

fun valid_identities :: "jsval list \<Rightarrow> jsval list \<Rightarrow> jsval list \<Rightarrow> bool" where
  "valid_identities refs ids [] = True"
| "valid_identities refs ids (entry # entries) =
     (exactObject entry AUTHORITY_IDENTITY_KEYS \<and> non_empty (jget entry ''ref'')
      \<and> non_empty (jget entry ''keyReference'') \<and> isPlainObject (jget entry ''record'')
      \<and> \<not> seen_value refs (jget entry ''ref'') \<and> \<not> seen_value ids (jget (jget entry ''record'') ''agent_id'')
      \<and> uniqueStrings (jget entry ''allowedPackageIds'') False
      \<and> valid_identities (jget entry ''ref'' # refs) (jget (jget entry ''record'') ''agent_id'' # ids) entries)"

definition KEY_STATUSES :: "jsval set" where
  "KEY_STATUSES = JStr ` {''active'', ''unknown'', ''revoked'', ''expired'', ''unavailable'', ''malformed''}"

definition public_key_ok :: "jsval \<Rightarrow> bool" where
  "public_key_ok v = (v = JNull \<or> strictBase64 v 44 \<noteq> None)"

fun valid_keys :: "js_env \<Rightarrow> jsval list \<Rightarrow> jsval list \<Rightarrow> bool" where
  "valid_keys env refs [] = True"
| "valid_keys env refs (entry # entries) =
     (exactObject entry AUTHORITY_KEY_KEYS \<and> non_empty (jget entry ''keyReference'')
      \<and> jget entry ''status'' \<in> KEY_STATUSES \<and> canonicalInstant env (jget entry ''expiresAt'')
      \<and> \<not> seen_value refs (jget entry ''keyReference'') \<and> public_key_ok (jget entry ''publicKeySpkiDerBase64'')
      \<and> valid_keys env (jget entry ''keyReference'' # refs) entries)"

definition RECEIPT_PURPOSE :: jsval where
  "RECEIPT_PURPOSE = JStr ''a2a-public-trust-receipt''"

fun valid_receipt_bindings :: "js_env \<Rightarrow> jsval list \<Rightarrow> jsval list \<Rightarrow> bool" where
  "valid_receipt_bindings env ids [] = True"
| "valid_receipt_bindings env ids (entry # entries) =
     (exactObject entry RECEIPT_BINDING_KEYS \<and> hex64_test env (jget entry ''publicReceiptId'')
      \<and> hex64_test env (jget entry ''expectedInternalReceiptHash'') \<and> hex64_test env (jget entry ''expectedBundleHash'')
      \<and> non_empty (jget entry ''keyId'') \<and> jget entry ''purpose'' = RECEIPT_PURPOSE
      \<and> \<not> seen_value ids (jget entry ''publicReceiptId'')
      \<and> valid_receipt_bindings env (jget entry ''publicReceiptId'' # ids) entries)"

fun valid_receipt_keys :: "js_env \<Rightarrow> jsval list \<Rightarrow> jsval list \<Rightarrow> bool" where
  "valid_receipt_keys env refs [] = True"
| "valid_receipt_keys env refs (entry # entries) =
     (exactObject entry RECEIPT_TRUSTED_KEY_KEYS \<and> non_empty (jget entry ''keyReference'')
      \<and> jget entry ''status'' \<in> KEY_STATUSES \<and> canonicalInstant env (jget entry ''expiresAt'')
      \<and> jget entry ''purpose'' = RECEIPT_PURPOSE \<and> \<not> seen_value refs (jget entry ''keyReference'')
      \<and> public_key_ok (jget entry ''publicKeySpkiDerBase64'')
      \<and> valid_receipt_keys env (jget entry ''keyReference'' # refs) entries)"

definition list_between :: "jsval \<Rightarrow> nat \<Rightarrow> bool" where
  "list_between v lo = (is_array v \<and> lo \<le> length (list_of v) \<and> length (list_of v) \<le> MAX_LIST_ITEMS)"

definition key_references :: "jsval \<Rightarrow> jsval list" where
  "key_references v = map (\<lambda>entry. jget entry ''keyReference'') (list_of v)"

definition validateAuthority :: "js_env \<Rightarrow> jsval \<Rightarrow> bool" where
  "validateAuthority env a =
     (let target = jget a ''expectedTarget''; receiptKeys = key_references (jget a ''receiptTrustedKeyRecords'') in
      exactObject a AUTHORITY_KEYS \<and> list_between (jget a ''identities'') 2 \<and> list_between (jget a ''keys'') 2
      \<and> list_between (jget a ''receiptBindings'') 1 \<and> list_between (jget a ''receiptTrustedKeyRecords'') 1
      \<and> canonicalInstant env (jget a ''evaluationTime'') \<and> non_empty (jget a ''authorityId'')
      \<and> exactObject target EXPECTED_TARGET_KEYS \<and> non_empty (jget target ''agentId'')
      \<and> non_empty (jget target ''identityRef'') \<and> hex64_test env (jget target ''identityHash'')
      \<and> non_empty (jget target ''workspaceId'')
      \<and> valid_identities [] [] (list_of (jget a ''identities''))
      \<and> valid_keys env [] (list_of (jget a ''keys''))
      \<and> valid_receipt_bindings env [] (list_of (jget a ''receiptBindings''))
      \<and> valid_receipt_keys env [] (list_of (jget a ''receiptTrustedKeyRecords''))
      \<and> list_all (\<lambda>b. jget b ''keyId'' \<in> set receiptKeys) (list_of (jget a ''receiptBindings''))
      \<and> list_all (\<lambda>k. k \<notin> set (key_references (jget a ''keys''))) receiptKeys)"

section \<open>Identities\<close>

definition not_after_time :: "js_env \<Rightarrow> jsval \<Rightarrow> jsval \<Rightarrow> bool" where
  "not_after_time env v w = (instant_of env v \<le> instant_of env w)"

definition validateIdentityRecord :: "js_env \<Rightarrow> jsval \<Rightarrow> jsval \<Rightarrow> bool" where
  "validateIdentityRecord env r evaluationTime =
     (exactObject r IDENTITY_REQUIRED_KEYS
      \<and> list_all (\<lambda>k. non_empty (jget r k)) [''agent_id'', ''agent_type'', ''display_name'', ''owner_actor_id'',
          ''workspace_id'', ''risk_tier'', ''trust_tier'', ''policy_version'', ''verification_status'', ''expected_status'']
      \<and> list_all (\<lambda>k. uniqueStrings (jget r k) (k \<noteq> ''delegation_scope'')) [''delegation_scope'', ''allowed_tools'',
          ''allowed_memory_scopes'', ''allowed_connectors'', ''receipt_refs'', ''provenance_refs'', ''audit_requirements'']
      \<and> uniqueStrings (jget r ''delegation_chain'') False
      \<and> has_risk env (jget r ''risk_tier'')
      \<and> canonicalInstant env (jget r ''issued_at'') \<and> canonicalInstant env (jget r ''expires_at'')
      \<and> not_after_time env (jget r ''issued_at'') evaluationTime
      \<and> \<not> not_after_time env (jget r ''expires_at'') evaluationTime
      \<and> jget r ''revoked_at'' = JNull \<and> jget r ''revocation_reason'' = JNull
      \<and> jget r ''parent_agent_id'' \<in> set (JNull # list_of (jget r ''delegation_chain''))
      \<and> jget r ''verification_status'' \<in> {JStr ''valid'', JStr ''registered''}
      \<and> jget r ''expected_status'' = JStr ''valid'' \<and> jget r ''expected_reason_code'' = JNull)"

text \<open>The participants by their ids: the party of the request and the entry of the authority.\<close>

type_synonym participants = "(jsval \<times> jsval \<times> jsval) list"

fun resolve_parties :: "js_env \<Rightarrow> jsval \<Rightarrow> jsval \<Rightarrow> jsval \<Rightarrow> participants \<Rightarrow> jsval list \<Rightarrow> participants option" where
  "resolve_parties env workspaceId identities evaluationTime byId [] = Some byId"
| "resolve_parties env workspaceId identities evaluationTime byId (party # parties) =
     (if \<not> (exactObject party PARTY_KEYS \<and> non_empty (jget party ''agentId'') \<and> non_empty (jget party ''identityRef'')
            \<and> hex64_test env (jget party ''identityHash'') \<and> map_of byId (jget party ''agentId'') = None) then None
      else case filter (\<lambda>entry. jget entry ''ref'' = jget party ''identityRef'') (list_of identities) of
        [entry] \<Rightarrow>
          (if validateIdentityRecord env (jget entry ''record'') evaluationTime
              \<and> jget (jget entry ''record'') ''agent_id'' = jget party ''agentId''
              \<and> hash_is env (jget entry ''record'') (jget party ''identityHash'')
              \<and> jget (jget entry ''record'') ''workspace_id'' = workspaceId
           then resolve_parties env workspaceId identities evaluationTime
             (byId @ [(jget party ''agentId'', party, entry)]) parties
           else None)
      | _ \<Rightarrow> None)"

definition resolveParticipants :: "js_env \<Rightarrow> jsval \<Rightarrow> jsval \<Rightarrow> jsval \<Rightarrow> participants option" where
  "resolveParticipants env request authority evaluationTime =
     (if \<not> list_between (jget request ''participants'') 2 then None
      else case resolve_parties env (jget request ''workspaceId'') (jget authority ''identities'') evaluationTime []
          (list_of (jget request ''participants'')) of
        None \<Rightarrow> None
      | Some byId \<Rightarrow>
          if map_of byId (jget (jget request ''source'') ''agentId'') = None
             \<or> map_of byId (jget (jget request ''target'') ''agentId'') = None then None
          else Some byId)"

definition subset_of :: "jsval \<Rightarrow> jsval \<Rightarrow> bool" where
  "subset_of child parent = (set (list_of child) \<subseteq> set (list_of parent))"

section \<open>Trusted keys\<close>

fun suffix_ex :: "(string \<Rightarrow> bool) \<Rightarrow> string \<Rightarrow> bool" where
  "suffix_ex p [] = p []"
| "suffix_ex p (c # s) = (p (c # s) \<or> suffix_ex p s)"

definition pem_header :: "string \<Rightarrow> bool" where
  "pem_header s = (starts_with s ''-----begin '' \<and>
     (let rest = drop 11 s; run = takeWhile (\<lambda>c. c \<noteq> CHR ''-'') rest in
      length run > 12 \<and> drop (length run - 12) run = '' private key''
      \<and> starts_with (drop (length run) rest) ''-----''))"

definition key_header :: "string \<Rightarrow> bool" where
  "key_header s = list_ex (\<lambda>kind. starts_with s (''begin '' @ kind @ ''private key''))
     [[], ''rsa '', ''ec '', ''openssh '']"

definition assigned :: "string \<Rightarrow> string \<Rightarrow> string \<Rightarrow> bool" where
  "assigned a b s = (starts_with s a \<and>
     (let rest = dropWhile (\<lambda>c. is_space c \<or> c = CHR ''_'' \<or> c = CHR ''-'') (drop (length a) s) in
      starts_with rest b \<and>
      (case dropWhile is_space (drop (length b) rest) of c # _ \<Rightarrow> c = CHR '':'' \<or> c = CHR ''='' | [] \<Rightarrow> False)))"

definition FORBIDDEN_VALUE :: "string \<Rightarrow> bool" where
  "FORBIDDEN_VALUE s = suffix_ex (\<lambda>t. pem_header t \<or> key_header t \<or> assigned ''private'' ''key'' t
     \<or> assigned ''key'' ''material'' t) (to_lower s)"

definition scheme_of :: "string \<Rightarrow> string option" where
  "scheme_of s = (let letters = ''ABCDEFGHIJKLMNOPQRSTUVWXYZabcdefghijklmnopqrstuvwxyz'';
       scheme = takeWhile (\<lambda>c. c \<in> set letters \<or> is_digit c \<or> c \<in> set ''+.-'') s in
     if s \<noteq> [] \<and> hd s \<in> set letters \<and> starts_with (drop (length scheme) s) '':'' then Some scheme else None)"

definition isBoundedIdentifier :: "jsval \<Rightarrow> bool" where
  "isBoundedIdentifier v = string_matches (\<lambda>s. s \<noteq> [] \<and> length s \<le> 256 \<and> trim s = s
     \<and> \<not> list_ex is_space s \<and> \<not> list_ex (\<lambda>c. of_char c < (32 :: nat) \<or> of_char c = (127 :: nat)) s
     \<and> \<not> list_ex (\<lambda>c. c = CHR 0x5C \<or> c \<in> set ''/?#@'') s \<and> \<not> FORBIDDEN_VALUE s
     \<and> \<not> suffix_ex (\<lambda>t. starts_with t ''://'') s
     \<and> (case scheme_of s of None \<Rightarrow> True | Some scheme \<Rightarrow> to_lower scheme = ''test-key'')) v"

definition parseTimestamp :: "js_env \<Rightarrow> jsval \<Rightarrow> int option" where
  "parseTimestamp env v = (case v of
       JStr s \<Rightarrow> if \<not> EXCHANGE_INSTANT s then None
         else (case date_parse env s of None \<Rightarrow> None | Some t \<Rightarrow> if iso_at env t = s then Some t else None)
     | _ \<Rightarrow> None)"

record key_record =
  kr_keyReference :: jsval
  kr_status :: jsval
  kr_expiresAt :: jsval
  kr_publicKeySpkiDer :: "string option"

datatype key_state = Active_key string | Expired_key | Revoked_key | Unknown_key | Unavailable_key | Malformed_key

definition hasForbiddenContent :: "key_record \<Rightarrow> bool" where
  "hasForbiddenContent r = (\<exists>v\<in>{kr_keyReference r, kr_status r, kr_expiresAt r}. is_object v \<or> string_matches FORBIDDEN_VALUE v)"

definition validateRecord :: "js_env \<Rightarrow> key_record \<Rightarrow> bool" where
  "validateRecord env r = (isBoundedIdentifier (kr_keyReference r) \<and> kr_status r \<in> KEY_STATUSES
     \<and> (kr_expiresAt r = JUndefined \<or> parseTimestamp env (kr_expiresAt r) \<noteq> None)
     \<and> (case kr_publicKeySpkiDer r of None \<Rightarrow> True | Some bytes \<Rightarrow> length bytes = 44))"

definition key_expired :: "js_env \<Rightarrow> key_record \<Rightarrow> int \<Rightarrow> bool" where
  "key_expired env r now = (case parseTimestamp env (kr_expiresAt r) of None \<Rightarrow> False | Some t \<Rightarrow> t \<le> now)"

definition state_of_record :: "js_env \<Rightarrow> key_record \<Rightarrow> int \<Rightarrow> key_state" where
  "state_of_record env r now =
     (if kr_status r = JStr ''unavailable'' then Unavailable_key
      else if kr_status r = JStr ''revoked'' then Revoked_key
      else if kr_status r = JStr ''unknown'' then Unknown_key
      else if kr_status r = JStr ''malformed'' then Malformed_key
      else if kr_status r = JStr ''expired'' \<or> key_expired env r now then Expired_key
      else case kr_publicKeySpkiDer r of None \<Rightarrow> Malformed_key | Some bytes \<Rightarrow> Active_key bytes)"

definition resolveTrustedKeyState :: "js_env \<Rightarrow> jsval \<Rightarrow> key_record list \<Rightarrow> jsval \<Rightarrow> key_state" where
  "resolveTrustedKeyState env keyReference records evaluationTime =
     (if \<not> isBoundedIdentifier keyReference then Malformed_key
      else case parseTimestamp env evaluationTime of
        None \<Rightarrow> Malformed_key
      | Some now \<Rightarrow>
          if list_ex hasForbiddenContent records \<or> \<not> list_all (validateRecord env) records then Malformed_key
          else (case filter (\<lambda>r. kr_keyReference r = keyReference) records of
             [] \<Rightarrow> Unknown_key
           | [r] \<Rightarrow> state_of_record env r now
           | _ \<Rightarrow> Malformed_key))"

section \<open>Signatures\<close>

definition SIGNATURE_DOMAIN :: jsval where
  "SIGNATURE_DOMAIN = JStr ''HUQAN/V5/D6/A2A-EXCHANGE/v1''"

definition DELEGATION_DOMAIN :: jsval where
  "DELEGATION_DOMAIN = JStr ''HUQAN/V5/D6/A2A-DELEGATION/v1''"

definition unsigned :: "jsval \<Rightarrow> jsval" where
  "unsigned v = JObj (drop_field ''signature'' (own_fields v))"

definition signingView :: "jsval \<Rightarrow> jsval" where
  "signingView request = JObj [(''domainLabel'', SIGNATURE_DOMAIN), (''request'', unsigned request)]"

definition delegationSigningView :: "jsval \<Rightarrow> jsval" where
  "delegationSigningView hop = JObj [(''domainLabel'', DELEGATION_DOMAIN), (''delegation'', unsigned hop)]"

definition envelopeCoreView :: "jsval \<Rightarrow> jsval" where
  "envelopeCoreView request = JObj (map (\<lambda>k. (k, jget request k))
     [''schemaVersion'', ''exchangeId'', ''nonce'', ''issuedAt'', ''expiresAt'', ''workspaceId'', ''source'', ''target'',
      ''participants'', ''delegation'', ''requestedAction'', ''constraints'', ''observation'', ''routeReceipt''])"

definition key_record_of :: "jsval \<Rightarrow> key_record option" where
  "key_record_of entry = (let record = \<lparr>kr_keyReference = jget entry ''keyReference'', kr_status = jget entry ''status'',
       kr_expiresAt = jget entry ''expiresAt'', kr_publicKeySpkiDer = None\<rparr> in
     if jget entry ''publicKeySpkiDerBase64'' = JNull then Some record
     else case strictBase64 (jget entry ''publicKeySpkiDerBase64'') 44 of
       None \<Rightarrow> None
     | Some bytes \<Rightarrow> Some (record\<lparr>kr_publicKeySpkiDer := Some bytes\<rparr>))"

definition authorityTrustedKeyRecords :: "jsval \<Rightarrow> key_record list option" where
  "authorityTrustedKeyRecords authority = those (map key_record_of (list_of (jget authority ''keys'')))"

definition resolveAuthorityKey :: "js_env \<Rightarrow> jsval \<Rightarrow> jsval \<Rightarrow> jsval \<Rightarrow> string option" where
  "resolveAuthorityKey env authority keyReference evaluationTime = (case authorityTrustedKeyRecords authority of
       None \<Rightarrow> None
     | Some records \<Rightarrow> (case resolveTrustedKeyState env keyReference records evaluationTime of
           Active_key bytes \<Rightarrow> Some bytes
         | _ \<Rightarrow> None))"

text \<open>\<open>ed25519 key message signature\<close>: the key is an Ed25519 key in SPKI form and the signature is valid.\<close>

type_synonym ed25519 = "string \<Rightarrow> string \<Rightarrow> string \<Rightarrow> bool"

definition verifyCryptographicEvidence :: "ed25519 \<Rightarrow> string \<Rightarrow> string \<Rightarrow> string option \<Rightarrow> bool" where
  "verifyCryptographicEvidence ed25519 message key signature = (case signature of
       None \<Rightarrow> False
     | Some sig \<Rightarrow> 1 \<le> utf8_length message \<and> utf8_length message \<le> MAX_MESSAGE_BYTES \<and> length key = 44
         \<and> length sig = 64 \<and> ed25519 key message sig)"

definition verifySignature :: "js_env \<Rightarrow> ed25519 \<Rightarrow> jsval \<Rightarrow> jsval \<Rightarrow> jsval \<Rightarrow> jsval \<Rightarrow> bool" where
  "verifySignature env ed25519 authority signature message evaluationTime =
     (signatureShape signature \<and>
      (case resolveAuthorityKey env authority (jget signature ''keyReference'') evaluationTime of
         None \<Rightarrow> False
       | Some key \<Rightarrow> (case encodeJsonStableV1 env message of
             None \<Rightarrow> False
           | Some bytes \<Rightarrow> verifyCryptographicEvidence ed25519 bytes key (strictBase64url (jget signature ''value'') 64))))"

end
