(* ===== verification/A2a_Exchange.thy ===== *)
theory A2a_Exchange
  imports A2a_Authority
begin

text \<open>
  One bounded exchange between agents: the delegation chain and the evidence
  (\<open>src/lib/a2a/bounded-exchange-validation.js\<close>), the route receipt
  (\<open>inter-agent-receipt-chain.js\<close>), the evaluation (\<open>bounded-exchange.js\<close>), and the durable records of
  replays and tasks (\<open>replay-store.js\<close>, \<open>task-store.js\<close>).  A check returns the reason to block, or \<open>None\<close>.
  The package gate and the import of a public trust receipt are arguments.  The functions the caller injects may
  change the world \<open>'w\<close> and may throw (\<open>None\<close>).
\<close>

section \<open>The contract\<close>

definition EXCHANGE_SCHEMA :: jsval where
  "EXCHANGE_SCHEMA = JStr ''v5-d6-a2a-exchange-v1''"

definition REQUEST_KEYS :: "string list" where
  "REQUEST_KEYS = [''schemaVersion'', ''exchangeId'', ''nonce'', ''issuedAt'', ''expiresAt'', ''workspaceId'', ''source'',
     ''target'', ''participants'', ''delegation'', ''requestedAction'', ''constraints'', ''observation'', ''routeReceipt'',
     ''evidence'', ''signature'']"

definition ACTION_KEYS :: "string list" where
  "ACTION_KEYS = [''capability'', ''target'', ''riskTier'', ''tool'', ''connector'', ''parametersHash'']"

definition CONSTRAINT_KEYS :: "string list" where
  "CONSTRAINT_KEYS = [''maxRiskTier'', ''allowedTools'', ''allowedConnectors'']"

definition OBSERVATION_KEYS :: "string list" where
  "OBSERVATION_KEYS = [''observedActionHash'', ''observedRiskTier'', ''usedTools'', ''usedConnectors'', ''observedAt'',
     ''effectHash'']"

definition DELEGATION_KEYS :: "string list" where
  "DELEGATION_KEYS = [''chain'', ''hops'']"

definition HOP_KEYS :: "string list" where
  "HOP_KEYS = [''delegatorId'', ''delegateId'', ''workspaceId'', ''scope'', ''target'', ''maxRiskTier'', ''allowedTools'',
     ''allowedConnectors'', ''expiresAt'', ''parentDelegationHash'', ''keyReference'', ''signature'']"

definition EVIDENCE_KEYS :: "string list" where
  "EVIDENCE_KEYS = [''actionHash'', ''receipt'', ''receiptHash'', ''package'', ''packageHash'', ''packageSignature'',
     ''evidenceRefs'']"

definition EVIDENCE_REF_KEYS :: "string list" where
  "EVIDENCE_REF_KEYS = [''kind'', ''digest'', ''bytes'']"

definition PACKAGE_SIGNATURE_KEYS :: "string list" where
  "PACKAGE_SIGNATURE_KEYS = [''algorithm'', ''keyId'', ''value'']"

definition PACKAGE_BINDING_KEYS :: "string list" where
  "PACKAGE_BINDING_KEYS = [''exchangeId'', ''workspaceId'', ''sourceIdentityHash'', ''targetIdentityHash'',
     ''envelopeHash'', ''receiptHash'', ''internalReceiptHash'', ''bundleHash'']"

definition ROUTE_RECEIPT_KEYS :: "string list" where
  "ROUTE_RECEIPT_KEYS = [''schemaVersion'', ''route_receipt_id'', ''parent_receipt_id'', ''from_agent_id'', ''to_agent_id'',
     ''from_workspace_id'', ''to_workspace_id'', ''action_ref'', ''handoff_reason'', ''delegation_scope'', ''condition'',
     ''timestamp'', ''policy_version'', ''verification_status'']"

definition CONDITION_KEYS :: "string list" where
  "CONDITION_KEYS = [''max_risk_tier'', ''allowed_tools'', ''allowed_connectors'', ''expires_at'']"

section \<open>The delegation chain\<close>

definition same_json :: "js_env \<Rightarrow> jsval \<Rightarrow> jsval \<Rightarrow> bool" where
  "same_json env v w = (stringify env v = stringify env w)"

definition rank_le :: "js_env \<Rightarrow> jsval \<Rightarrow> jsval \<Rightarrow> bool" where
  "rank_le env v w = (risk_rank env v \<le> risk_rank env w)"

definition hash_json :: "js_env \<Rightarrow> jsval \<Rightarrow> jsval" where
  "hash_json env v = (case canonical_hash env v of None \<Rightarrow> JNull | Some h \<Rightarrow> JStr h)"

definition hop_shape :: "js_env \<Rightarrow> jsval \<Rightarrow> bool" where
  "hop_shape env hop = (exactObject hop HOP_KEYS \<and> non_empty (jget hop ''delegatorId'')
     \<and> non_empty (jget hop ''delegateId'') \<and> non_empty (jget hop ''workspaceId'') \<and> uniqueStrings (jget hop ''scope'') False
     \<and> non_empty (jget hop ''target'') \<and> has_risk env (jget hop ''maxRiskTier'')
     \<and> uniqueStrings (jget hop ''allowedTools'') False \<and> uniqueStrings (jget hop ''allowedConnectors'') False
     \<and> canonicalInstant env (jget hop ''expiresAt'') \<and> signatureShape (jget hop ''signature''))"

text \<open>The grant of a hop is within an identity, and within another hop.\<close>

definition within_identity :: "js_env \<Rightarrow> jsval \<Rightarrow> jsval \<Rightarrow> bool" where
  "within_identity env hop record = (subset_of (jget hop ''scope'') (jget record ''delegation_scope'')
     \<and> subset_of (jget hop ''allowedTools'') (jget record ''allowed_tools'')
     \<and> subset_of (jget hop ''allowedConnectors'') (jget record ''allowed_connectors'')
     \<and> rank_le env (jget hop ''maxRiskTier'') (jget record ''risk_tier''))"

definition within_hop :: "js_env \<Rightarrow> jsval \<Rightarrow> jsval \<Rightarrow> bool" where
  "within_hop env hop previous = (subset_of (jget hop ''scope'') (jget previous ''scope'')
     \<and> subset_of (jget hop ''allowedTools'') (jget previous ''allowedTools'')
     \<and> subset_of (jget hop ''allowedConnectors'') (jget previous ''allowedConnectors'')
     \<and> jget hop ''target'' = jget previous ''target''
     \<and> rank_le env (jget hop ''maxRiskTier'') (jget previous ''maxRiskTier'')
     \<and> not_after_time env (jget hop ''expiresAt'') (jget previous ''expiresAt''))"

definition entry_of_party :: "participants \<Rightarrow> jsval \<Rightarrow> jsval option" where
  "entry_of_party participants agentId = map_option snd (map_of participants agentId)"

definition check_hop ::
  "js_env \<Rightarrow> ed25519 \<Rightarrow> jsval \<Rightarrow> participants \<Rightarrow> jsval \<Rightarrow> jsval \<Rightarrow> jsval list \<Rightarrow> nat \<Rightarrow> jsval \<Rightarrow> jsval option \<Rightarrow> jsval \<Rightarrow>
     string option" where
  "check_hop env ed request participants authority evaluationTime chain index previousHash previousHop hop =
     (if \<not> hop_shape env hop then Some ''delegation_invalid''
      else if jget hop ''delegatorId'' \<noteq> chain ! index \<or> jget hop ''delegateId'' \<noteq> chain ! Suc index
         \<or> jget hop ''workspaceId'' \<noteq> jget request ''workspaceId'' \<or> jget hop ''parentDelegationHash'' \<noteq> previousHash
        then Some ''delegation_chain_invalid''
      else case (entry_of_party participants (jget hop ''delegatorId''), entry_of_party participants (jget hop ''delegateId'')) of
        (Some delegator, Some delegate) \<Rightarrow>
          (if jget hop ''keyReference'' \<noteq> jget delegator ''keyReference''
              \<or> jget (jget hop ''signature'') ''keyReference'' \<noteq> jget delegator ''keyReference''
              \<or> \<not> verifySignature env ed authority (jget hop ''signature'') (delegationSigningView hop) evaluationTime
             then Some ''delegation_signature_invalid''
           else if jget (jget delegate ''record'') ''parent_agent_id'' \<noteq> jget hop ''delegatorId''
              \<or> \<not> same_json env (jget (jget delegate ''record'') ''delegation_chain'') (JArr (take (index + 2) chain))
              \<or> \<not> within_identity env hop (jget delegator ''record'') \<or> \<not> within_identity env hop (jget delegate ''record'')
             then Some ''delegation_scope_escalation''
           else if (case previousHop of None \<Rightarrow> False | Some previous \<Rightarrow> \<not> within_hop env hop previous)
             then Some ''delegation_scope_escalation''
           else if not_after_time env (jget hop ''expiresAt'') evaluationTime
              \<or> \<not> not_after_time env (jget hop ''expiresAt'') (jget (jget delegator ''record'') ''expires_at'')
              \<or> \<not> not_after_time env (jget hop ''expiresAt'') (jget (jget delegate ''record'') ''expires_at'')
             then Some ''delegation_expired''
           else None)
      | _ \<Rightarrow> Some ''delegation_signature_invalid'')"

fun check_hops ::
  "js_env \<Rightarrow> ed25519 \<Rightarrow> jsval \<Rightarrow> participants \<Rightarrow> jsval \<Rightarrow> jsval \<Rightarrow> jsval list \<Rightarrow> nat \<Rightarrow> jsval \<Rightarrow> jsval option \<Rightarrow> jsval list \<Rightarrow>
     string option" where
  "check_hops env ed request participants authority evaluationTime chain index previousHash previousHop [] = None"
| "check_hops env ed request participants authority evaluationTime chain index previousHash previousHop (hop # hops) =
     (case check_hop env ed request participants authority evaluationTime chain index previousHash previousHop hop of
        Some reason \<Rightarrow> Some reason
      | None \<Rightarrow> check_hops env ed request participants authority evaluationTime chain (Suc index) (hash_json env hop) (Some hop) hops)"

definition validateDelegation ::
  "js_env \<Rightarrow> ed25519 \<Rightarrow> jsval \<Rightarrow> participants \<Rightarrow> jsval \<Rightarrow> jsval \<Rightarrow> string option" where
  "validateDelegation env ed request participants authority evaluationTime =
     (let delegation = jget request ''delegation''; chain = list_of (jget delegation ''chain'');
          hops = jget delegation ''hops''; source = jget (jget request ''source'') ''agentId'' in
      if \<not> (exactObject delegation DELEGATION_KEYS \<and> uniqueStrings (jget delegation ''chain'') False
            \<and> withinDelegationDepth delegation \<and> length (list_of (jget request ''participants'')) = length chain
            \<and> is_array hops \<and> length (list_of hops) = length chain - 1 \<and> hd chain = source
            \<and> last chain = jget (jget request ''target'') ''agentId'') then Some ''delegation_chain_invalid''
      else case entry_of_party participants source of
        None \<Rightarrow> Some ''delegation_chain_invalid''
      | Some origin \<Rightarrow>
          if jget (jget origin ''record'') ''parent_agent_id'' \<noteq> JNull
             \<or> \<not> same_json env (jget (jget origin ''record'') ''delegation_chain'') (JArr [source])
            then Some ''delegation_chain_invalid''
          else check_hops env ed request participants authority evaluationTime chain 0 JNull None (list_of hops))"

section \<open>The route receipt\<close>

definition bounded_receipt_text :: "jsval \<Rightarrow> bool" where
  "bounded_receipt_text v = string_matches (\<lambda>s. s \<noteq> [] \<and> utf8_length s \<le> 1024) v"

definition receipt_string_list :: "jsval \<Rightarrow> bool" where
  "receipt_string_list v = (is_array v \<and> list_of v \<noteq> [] \<and> length (list_of v) \<le> 16
     \<and> list_all bounded_receipt_text (list_of v) \<and> distinct (list_of v))"

definition last_hop :: "jsval \<Rightarrow> jsval" where
  "last_hop request = (case rev (list_of (jget (jget request ''delegation'') ''hops'')) of [] \<Rightarrow> JUndefined | h # _ \<Rightarrow> h)"

definition routeReceiptProjection :: "jsval \<Rightarrow> jsval" where
  "routeReceiptProjection receipt = JObj (drop_field ''route_receipt_id'' (own_fields receipt))"

definition validateInterAgentRouteReceipt :: "js_env \<Rightarrow> jsval \<Rightarrow> jsval \<Rightarrow> string option" where
  "validateInterAgentRouteReceipt env request sourceRecord =
     (let receipt = jget request ''routeReceipt''; condition = jget receipt ''condition'';
          constraints = jget request ''constraints''; evidence = jget request ''evidence'' in
      if exactObject receipt ROUTE_RECEIPT_KEYS
         \<and> jget receipt ''schemaVersion'' = JStr ''v5-a2a-route-receipt-v1''
         \<and> hex64_test env (jget receipt ''route_receipt_id'')
         \<and> hash_is env (routeReceiptProjection receipt) (jget receipt ''route_receipt_id'')
         \<and> hex64_test env (jget receipt ''parent_receipt_id'')
         \<and> jget receipt ''parent_receipt_id'' = jget (jget evidence ''receipt'') ''publicReceiptId''
         \<and> bounded_receipt_text (jget receipt ''from_agent_id'')
         \<and> jget receipt ''from_agent_id'' = jget (jget request ''source'') ''agentId''
         \<and> bounded_receipt_text (jget receipt ''to_agent_id'')
         \<and> jget receipt ''to_agent_id'' = jget (jget request ''target'') ''agentId''
         \<and> jget receipt ''from_workspace_id'' = jget request ''workspaceId''
         \<and> jget receipt ''to_workspace_id'' = jget request ''workspaceId''
         \<and> jget receipt ''action_ref'' = jget evidence ''actionHash''
         \<and> jget receipt ''handoff_reason'' = JStr ''delegated_task''
         \<and> receipt_string_list (jget receipt ''delegation_scope'')
         \<and> same_json env (jget receipt ''delegation_scope'') (jget (last_hop request) ''scope'')
         \<and> exactObject condition CONDITION_KEYS
         \<and> jget condition ''max_risk_tier'' = jget constraints ''maxRiskTier''
         \<and> same_json env (jget condition ''allowed_tools'') (jget constraints ''allowedTools'')
         \<and> same_json env (jget condition ''allowed_connectors'') (jget constraints ''allowedConnectors'')
         \<and> jget condition ''expires_at'' = jget request ''expiresAt''
         \<and> string_matches EXCHANGE_INSTANT (JStr (js_string env (jget receipt ''timestamp'')))
         \<and> jget receipt ''timestamp'' = jget request ''issuedAt''
         \<and> bounded_receipt_text (jget receipt ''policy_version'')
         \<and> jget receipt ''policy_version'' = jget sourceRecord ''policy_version''
         \<and> jget receipt ''verification_status'' = JStr ''pending_receiver_verification''
      then None else Some ''route_receipt_invalid'')"

section \<open>The evidence\<close>

record package_request =
  pq_subject :: jsval
  pq_workspaceId :: jsval
  pq_package :: jsval
  pq_signature :: jsval
  pq_expectedPackageId :: jsval
  pq_publicKey :: string
  pq_packageIds :: jsval

text \<open>
  The services of the receiver: Ed25519, the package gate (its verdict and package hash, or an exception), and the
  import of a public trust receipt (verified or not).
\<close>

record exchange_services =
  sv_ed25519 :: ed25519
  sv_packageGate :: "package_request \<Rightarrow> (bool \<times> jsval) option"
  sv_importReceipt :: "string \<Rightarrow> jsval \<Rightarrow> jsval \<Rightarrow> key_record list \<Rightarrow> jsval \<Rightarrow> bool"

definition encoded_length :: "js_env \<Rightarrow> jsval \<Rightarrow> jsval" where
  "encoded_length env v = (case encodeJsonStableV1 env v of None \<Rightarrow> JNull | Some t \<Rightarrow> JNum (of_nat (utf8_length t)))"

definition reference_ok :: "js_env \<Rightarrow> jsval \<Rightarrow> bool" where
  "reference_ok env r = (exactObject r EVIDENCE_REF_KEYS \<and> non_empty (jget r ''kind'') \<and> hex64_test env (jget r ''digest'')
     \<and> is_integer (jget r ''bytes'') \<and> 1 \<le> num_of (jget r ''bytes'') \<and> num_of (jget r ''bytes'') \<le> of_nat MAX_EXCHANGE_BYTES)"

definition reference_for :: "js_env \<Rightarrow> jsval list \<Rightarrow> string \<Rightarrow> jsval \<Rightarrow> jsval \<Rightarrow> bool" where
  "reference_for env refs kind digest v = (\<exists>r\<in>set refs. jget r ''kind'' = JStr kind
     \<and> jget r ''digest'' = digest \<and> jget r ''bytes'' = encoded_length env v)"

definition references_ok :: "js_env \<Rightarrow> jsval \<Rightarrow> jsval \<Rightarrow> bool" where
  "references_ok env request evidence =
     (let refs = list_of (jget evidence ''evidenceRefs'') in
      is_array (jget evidence ''evidenceRefs'') \<and> length refs = 3 \<and> list_all (reference_ok env) refs
      \<and> sum_list (map (\<lambda>r. num_of (jget r ''bytes'')) refs) \<le> of_nat MAX_EXCHANGE_BYTES
      \<and> distinct (map (\<lambda>r. jget r ''kind'') refs)
      \<and> reference_for env refs ''requested-action'' (jget evidence ''actionHash'') (jget request ''requestedAction'')
      \<and> reference_for env refs ''public-trust-receipt'' (jget evidence ''receiptHash'') (jget evidence ''receipt'')
      \<and> reference_for env refs ''huqan-package'' (jget evidence ''packageHash'') (jget evidence ''package''))"

definition package_verdict :: "js_env \<Rightarrow> exchange_services \<Rightarrow> jsval \<Rightarrow> jsval \<Rightarrow> jsval \<Rightarrow> string option" where
  "package_verdict env sv request authority evaluationTime =
     (let evidence = jget request ''evidence''; package = jget evidence ''package''; manifest = jget package ''manifest'';
          signature = jget evidence ''packageSignature''; source = jget request ''source'' in
      if \<not> (exactObject signature PACKAGE_SIGNATURE_KEYS \<and> jget signature ''algorithm'' = JStr ''ed25519''
            \<and> jget signature ''keyId'' = jget source ''agentId'' \<and> strictBase64 (jget signature ''value'') 64 \<noteq> None)
        then Some ''evidence_package_invalid''
      else case find (\<lambda>entry. jget entry ''ref'' = jget source ''identityRef'') (list_of (jget authority ''identities'')) of
        None \<Rightarrow> Some ''evidence_package_invalid''
      | Some identity \<Rightarrow>
          (case resolveAuthorityKey env authority (jget identity ''keyReference'') evaluationTime of
             None \<Rightarrow> Some ''evidence_package_invalid''
           | Some key \<Rightarrow>
               if jget manifest ''packageId'' \<notin> set (list_of (jget identity ''allowedPackageIds''))
                 then Some ''evidence_package_authority_invalid''
               else (case sv_packageGate sv \<lparr>pq_subject = jget source ''agentId'', pq_workspaceId = jget request ''workspaceId'',
                      pq_package = package, pq_signature = signature, pq_expectedPackageId = jget manifest ''packageId'',
                      pq_publicKey = key, pq_packageIds = jget identity ''allowedPackageIds''\<rparr> of
                   None \<Rightarrow> Some ''evidence_package_invalid''
                 | Some (ok, packageHash) \<Rightarrow>
                     if ok \<and> packageHash = jget evidence ''packageHash'' \<and> jget manifest ''format'' = JStr ''huqan-package''
                        \<and> jget manifest ''formatVersion'' = JStr ''0.2'' \<and> jget manifest ''protocolVersion'' = JStr ''0.1''
                        \<and> jget manifest ''workspaceId'' = jget request ''workspaceId''
                     then None else Some ''evidence_package_invalid'')))"

definition package_binding_ok :: "js_env \<Rightarrow> jsval \<Rightarrow> bool" where
  "package_binding_ok env request =
     (let evidence = jget request ''evidence''; source = jget (jget (jget evidence ''package'') ''manifest'') ''source'' in
      exactObject source (''type'' # PACKAGE_BINDING_KEYS) \<and> jget source ''type'' = JStr ''a2a-conformance''
      \<and> jget source ''exchangeId'' = jget request ''exchangeId'' \<and> jget source ''workspaceId'' = jget request ''workspaceId''
      \<and> jget source ''sourceIdentityHash'' = jget (jget request ''source'') ''identityHash''
      \<and> jget source ''targetIdentityHash'' = jget (jget request ''target'') ''identityHash''
      \<and> hash_is env (envelopeCoreView request) (jget source ''envelopeHash'')
      \<and> jget source ''receiptHash'' = jget evidence ''receiptHash''
      \<and> hex64_test env (jget source ''internalReceiptHash'') \<and> hex64_test env (jget source ''bundleHash''))"

definition receipt_verdict :: "js_env \<Rightarrow> exchange_services \<Rightarrow> jsval \<Rightarrow> jsval \<Rightarrow> jsval \<Rightarrow> string option" where
  "receipt_verdict env sv request authority evaluationTime =
     (let evidence = jget request ''evidence''; receipt = jget evidence ''receipt'';
          source = jget (jget (jget evidence ''package'') ''manifest'') ''source'' in
      case filter (\<lambda>b. jget b ''publicReceiptId'' = jget receipt ''publicReceiptId'') (list_of (jget authority ''receiptBindings'')) of
        [binding] \<Rightarrow>
          if jget binding ''expectedInternalReceiptHash'' \<noteq> jget source ''internalReceiptHash''
             \<or> jget binding ''expectedBundleHash'' \<noteq> jget source ''bundleHash'' \<or> jget binding ''purpose'' \<noteq> RECEIPT_PURPOSE
             \<or> jget (jget (jget receipt ''integrity'') ''signature'') ''keyId'' \<noteq> jget binding ''keyId''
            then Some ''evidence_receipt_authority_invalid''
          else (case (those (map key_record_of (list_of (jget authority ''receiptTrustedKeyRecords''))), encodeJsonStableV1 env receipt) of
              (Some records, Some bytes) \<Rightarrow>
                if sv_importReceipt sv bytes (jget source ''internalReceiptHash'') (jget source ''bundleHash'') records evaluationTime
                  then None else Some ''evidence_receipt_invalid''
            | _ \<Rightarrow> Some ''evidence_receipt_invalid'')
      | _ \<Rightarrow> Some ''evidence_receipt_authority_invalid'')"

definition validateEvidence :: "js_env \<Rightarrow> exchange_services \<Rightarrow> jsval \<Rightarrow> jsval \<Rightarrow> jsval \<Rightarrow> string option" where
  "validateEvidence env sv request authority evaluationTime =
     (let evidence = jget request ''evidence'' in
      if \<not> (exactObject evidence EVIDENCE_KEYS \<and> hex64_test env (jget evidence ''actionHash'')
            \<and> hex64_test env (jget evidence ''receiptHash'') \<and> hex64_test env (jget evidence ''packageHash'')
            \<and> hash_is env (jget request ''requestedAction'') (jget evidence ''actionHash''))
        then Some ''evidence_action_invalid''
      else if \<not> (isPlainObject (jget evidence ''receipt'') \<and> hash_is env (jget evidence ''receipt'') (jget evidence ''receiptHash''))
        then Some ''evidence_receipt_invalid''
      else if \<not> (isPlainObject (jget evidence ''package'') \<and> hash_is env (jget evidence ''package'') (jget evidence ''packageHash''))
        then Some ''evidence_package_invalid''
      else if \<not> references_ok env request evidence then Some ''evidence_refs_invalid''
      else case package_verdict env sv request authority evaluationTime of
        Some reason \<Rightarrow> Some reason
      | None \<Rightarrow>
          if \<not> package_binding_ok env request then Some ''evidence_package_binding_invalid''
          else (case receipt_verdict env sv request authority evaluationTime of
              Some reason \<Rightarrow> Some reason
            | None \<Rightarrow> (case find (\<lambda>entry. jget entry ''ref'' = jget (jget request ''source'') ''identityRef'')
                  (list_of (jget authority ''identities'')) of
                  None \<Rightarrow> Some ''evidence_package_invalid''
                | Some identity \<Rightarrow> validateInterAgentRouteReceipt env request (jget identity ''record''))))"

end
