(* ===== verification/A2a_Run.thy ===== *)
theory A2a_Run
  imports A2a_Exchange
begin

text \<open>
  The evaluation of an exchange (\<open>src/lib/a2a/bounded-exchange.js\<close>) and the durable records of reservations and
  tasks (\<open>replay-store.js\<close>, \<open>task-store.js\<close>).  The functions the caller injects are hooks that may
  change the world \<open>'w\<close> and may throw (\<open>None\<close>).  A file operation may be refused, or write a part of the
  bytes and throw; a crash at that point leaves the same files.
\<close>

section \<open>The evaluation\<close>

definition exchange_shape :: "js_env \<Rightarrow> jsval \<Rightarrow> bool" where
  "exchange_shape env request = (exactObject request REQUEST_KEYS \<and> jget request ''schemaVersion'' = EXCHANGE_SCHEMA
     \<and> non_empty (jget request ''exchangeId'') \<and> non_empty (jget request ''nonce'')
     \<and> canonicalInstant env (jget request ''issuedAt'') \<and> canonicalInstant env (jget request ''expiresAt'')
     \<and> non_empty (jget request ''workspaceId'')
     \<and> exactObject (jget request ''source'') PARTY_KEYS \<and> exactObject (jget request ''target'') PARTY_KEYS
     \<and> exactObject (jget request ''requestedAction'') ACTION_KEYS
     \<and> exactObject (jget request ''constraints'') CONSTRAINT_KEYS
     \<and> exactObject (jget request ''observation'') OBSERVATION_KEYS
     \<and> exactObject (jget request ''evidence'') EVIDENCE_KEYS \<and> signatureShape (jget request ''signature''))"

definition identities_bound :: "js_env \<Rightarrow> jsval \<Rightarrow> jsval \<Rightarrow> bool" where
  "identities_bound env request authority =
     (let source = jget request ''source''; target = jget request ''target''; expected = jget authority ''expectedTarget'';
          parties = list_of (jget request ''participants'') in
      jget source ''agentId'' \<noteq> jget target ''agentId'' \<and> same_json env source (hd parties)
      \<and> same_json env target (last parties)
      \<and> list_all (\<lambda>k. jget target k = jget expected k) PARTY_KEYS
      \<and> jget request ''workspaceId'' = jget expected ''workspaceId'')"

definition constraints_hold :: "js_env \<Rightarrow> jsval \<Rightarrow> jsval \<Rightarrow> bool" where
  "constraints_hold env request evaluationTime =
     (let finalHop = last_hop request; action = jget request ''requestedAction''; constraints = jget request ''constraints'';
          observation = jget request ''observation'' in
      has_risk env (jget action ''riskTier'')
      \<and> list_all (\<lambda>k. non_empty (jget action k)) [''capability'', ''target'', ''tool'', ''connector'']
      \<and> hex64_test env (jget action ''parametersHash'')
      \<and> has_risk env (jget constraints ''maxRiskTier'')
      \<and> uniqueStrings (jget constraints ''allowedTools'') False
      \<and> uniqueStrings (jget constraints ''allowedConnectors'') False
      \<and> hex64_test env (jget observation ''observedActionHash'')
      \<and> has_risk env (jget observation ''observedRiskTier'')
      \<and> uniqueStrings (jget observation ''usedTools'') False
      \<and> uniqueStrings (jget observation ''usedConnectors'') False
      \<and> canonicalInstant env (jget observation ''observedAt'') \<and> hex64_test env (jget observation ''effectHash'')
      \<and> jget observation ''observedActionHash'' = jget (jget request ''evidence'') ''actionHash''
      \<and> not_after_time env (jget observation ''observedAt'') evaluationTime
      \<and> \<not> not_after_time env (jget request ''expiresAt'') (jget observation ''observedAt'')
      \<and> jget action ''capability'' \<in> set (list_of (jget finalHop ''scope''))
      \<and> jget action ''target'' = jget finalHop ''target''
      \<and> rank_le env (jget constraints ''maxRiskTier'') (jget finalHop ''maxRiskTier'')
      \<and> rank_le env (jget action ''riskTier'') (jget constraints ''maxRiskTier'')
      \<and> subset_of (jget constraints ''allowedTools'') (jget finalHop ''allowedTools'')
      \<and> subset_of (jget constraints ''allowedConnectors'') (jget finalHop ''allowedConnectors'')
      \<and> jget action ''tool'' \<in> set (list_of (jget constraints ''allowedTools''))
      \<and> jget action ''connector'' \<in> set (list_of (jget constraints ''allowedConnectors''))
      \<and> rank_le env (jget observation ''observedRiskTier'') (jget constraints ''maxRiskTier'')
      \<and> subset_of (jget observation ''usedTools'') (jget constraints ''allowedTools'')
      \<and> subset_of (jget observation ''usedConnectors'') (jget constraints ''allowedConnectors'')
      \<and> list_of (jget observation ''usedTools'') = [jget action ''tool'']
      \<and> list_of (jget observation ''usedConnectors'') = [jget action ''connector'']
      \<and> not_after_time env (jget request ''expiresAt'') (jget finalHop ''expiresAt''))"

text \<open>What blocks a snapshot before admission; the evidence is read only when everything before it holds.\<close>

definition exchange_failure :: "js_env \<Rightarrow> exchange_services \<Rightarrow> jsval \<Rightarrow> jsval \<Rightarrow> jsval \<Rightarrow> string option" where
  "exchange_failure env sv request authority evaluationTime =
     (if \<not> (canonicalInstant env evaluationTime \<and> validateAuthority env authority) then Some ''authority_invalid''
      else if \<not> exchange_shape env request then Some ''exchange_shape_invalid''
      else if \<not> not_after_time env (jget request ''issuedAt'') evaluationTime
         \<or> not_after_time env (jget request ''expiresAt'') evaluationTime then Some ''exchange_expired''
      else case resolveParticipants env request authority evaluationTime of
        None \<Rightarrow> Some ''identity_invalid''
      | Some participants \<Rightarrow>
          if \<not> identities_bound env request authority then Some ''identity_binding_invalid''
          else (case validateDelegation env (sv_ed25519 sv) request participants authority evaluationTime of
            Some reason \<Rightarrow> Some reason
          | None \<Rightarrow>
              if \<not> constraints_hold env request evaluationTime then Some ''constraints_exceeded''
              else (case validateEvidence env sv request authority evaluationTime of
                Some reason \<Rightarrow> Some reason
              | None \<Rightarrow> (case entry_of_party participants (jget (jget request ''source'') ''agentId'') of
                  None \<Rightarrow> Some ''verification_failed''
                | Some sourceAuthority \<Rightarrow>
                    if jget (jget request ''signature'') ''keyReference'' \<noteq> jget sourceAuthority ''keyReference''
                       \<or> \<not> verifySignature env (sv_ed25519 sv) authority (jget request ''signature'') (signingView request) evaluationTime
                    then Some ''exchange_signature_invalid'' else None))))"

definition replayKeyMaterial :: "jsval \<Rightarrow> jsval \<Rightarrow> jsval" where
  "replayKeyMaterial request authority = JObj [(''domainLabel'', JStr ''HUQAN/V5/D6/A2A-REPLAY/v1''),
     (''receiverAuthorityId'', jget authority ''authorityId''), (''request'', request)]"

record 'w exchange_hooks =
  eh_admission :: "(jsval \<Rightarrow> 'w \<Rightarrow> jsval option \<times> 'w) option"
  eh_replayReserve :: "string \<Rightarrow> 'w \<Rightarrow> jsval option \<times> 'w"
  eh_effect :: "'w \<Rightarrow> jsval option \<times> 'w"

datatype exchange_reply = Exchange_blocked string | Exchange_not_admitted jsval | Exchange_allowed jsval

definition ADMISSION_DECISIONS :: "jsval set" where
  "ADMISSION_DECISIONS = JStr ` {''allow'', ''review'', ''block'', ''dry_run_only''}"

definition admission_reply :: "jsval \<Rightarrow> exchange_reply option" where
  "admission_reply d =
     (if \<not> (isPlainObject d \<and> jget d ''decision'' \<in> ADMISSION_DECISIONS \<and> non_empty (jget d ''reason''))
        then Some (Exchange_blocked ''admission_invalid'')
      else if jget d ''decision'' \<noteq> JStr ''allow'' then Some (Exchange_not_admitted d)
      else None)"

definition reserve_and_run ::
  "js_env \<Rightarrow> jsval \<Rightarrow> jsval \<Rightarrow> 'w exchange_hooks \<Rightarrow> 'w \<Rightarrow> exchange_reply \<times> 'w" where
  "reserve_and_run env request authority hooks w =
     (case canonical_hash env (replayKeyMaterial request authority) of
        None \<Rightarrow> (Exchange_blocked ''verification_failed'', w)
      | Some replayDigest \<Rightarrow> (case eh_replayReserve hooks replayDigest w of
          (None, w1) \<Rightarrow> (Exchange_blocked ''verification_failed'', w1)
        | (Some reservation, w1) \<Rightarrow>
            if \<not> (exactObject reservation [''reserved''] \<and> jget reservation ''reserved'' = JBool True)
              then (Exchange_blocked ''replay_detected'', w1)
            else (case eh_effect hooks w1 of
                (None, w2) \<Rightarrow> (Exchange_blocked ''verification_failed'', w2)
              | (Some effectResult, w2) \<Rightarrow> (Exchange_allowed effectResult, w2))))"

text \<open>
  What comes before the reservation: a reply, or the verified request and the authority.  The inputs are read
  once, as snapshots.
\<close>

definition gate_exchange ::
  "js_env \<Rightarrow> exchange_services \<Rightarrow> (jsval \<Rightarrow> 'w \<Rightarrow> jsval option \<times> 'w) option \<Rightarrow> jsval \<Rightarrow> jsval \<Rightarrow> jsval \<Rightarrow> 'w \<Rightarrow>
     (exchange_reply + jsval \<times> jsval) \<times> 'w" where
  "gate_exchange env sv admission untrusted trusted evaluationTime w =
     (case (snapshotUntrustedData env untrusted, snapshotUntrustedData env trusted) of
        (Some request, Some authority) \<Rightarrow>
          if \<not> truthy request \<or> \<not> truthy authority then (Inl (Exchange_blocked ''exchange_shape_invalid''), w)
          else (case exchange_failure env sv request authority evaluationTime of
            Some reason \<Rightarrow> (Inl (Exchange_blocked reason), w)
          | None \<Rightarrow> (case admission of
              None \<Rightarrow> (Inr (request, authority), w)
            | Some admit \<Rightarrow> (case admit request w of
                (None, w1) \<Rightarrow> (Inl (Exchange_blocked ''verification_failed''), w1)
              | (Some d, w1) \<Rightarrow> (case admission_reply d of
                  Some reply \<Rightarrow> (Inl reply, w1)
                | None \<Rightarrow> (Inr (request, authority), w1)))))
      | _ \<Rightarrow> (Inl (Exchange_blocked ''exchange_shape_invalid''), w))"

definition evaluateBoundedExchange ::
  "js_env \<Rightarrow> exchange_services \<Rightarrow> 'w exchange_hooks \<Rightarrow> jsval \<Rightarrow> jsval \<Rightarrow> jsval \<Rightarrow> 'w \<Rightarrow> exchange_reply \<times> 'w" where
  "evaluateBoundedExchange env sv hooks untrusted trusted evaluationTime w =
     (case gate_exchange env sv (eh_admission hooks) untrusted trusted evaluationTime w of
        (Inl reply, w1) \<Rightarrow> (reply, w1)
      | (Inr (request, authority), w1) \<Rightarrow> reserve_and_run env request authority hooks w1)"

section \<open>Reservations\<close>

datatype file_fault = Works | Refused | Torn nat

record a2a_dir =
  ad_tasks :: "string list"
  ad_reserved :: "string list"
  ad_completed :: "(string \<times> string) list"
  ad_audit :: "(string \<times> string) list"

definition taskIdForReplayKey :: "js_env \<Rightarrow> string \<Rightarrow> string option" where
  "taskIdForReplayKey env replayKey = (if \<not> SHA256_HEX replayKey then None
     else Some (sha256_hex env (''HUQAN/V5/D6/A2A-TASK-ID/v1:'' @ replayKey)))"

text \<open>The markers of a directory are created exclusively; a fault is of the first or of the second of them.\<close>

definition reserve :: "js_env \<Rightarrow> file_fault \<Rightarrow> file_fault \<Rightarrow> string \<Rightarrow> a2a_dir \<Rightarrow> bool option \<times> a2a_dir" where
  "reserve env taskFault keyFault replayKey d = (case taskIdForReplayKey env replayKey of
       None \<Rightarrow> (None, d)
     | Some taskId \<Rightarrow>
         if taskFault = Refused then (None, d)
         else if taskId \<in> set (ad_tasks d) then (Some False, d)
         else (let d1 = d\<lparr>ad_tasks := ad_tasks d @ [taskId]\<rparr> in
           if taskFault \<noteq> Works \<or> keyFault = Refused then (None, d1)
           else if replayKey \<in> set (ad_reserved d) then (Some False, d1)
           else (let d2 = d1\<lparr>ad_reserved := ad_reserved d @ [replayKey]\<rparr> in
             if keyFault \<noteq> Works then (None, d2) else (Some True, d2))))"

section \<open>Tasks\<close>

definition MAX_TASK_RECORD_BYTES :: nat where "MAX_TASK_RECORD_BYTES = 64 * 1024"

definition completion_record :: "string \<Rightarrow> jsval \<Rightarrow> jsval" where
  "completion_record taskId effect =
     JObj [(''taskId'', JStr taskId), (''state'', JStr ''completed''), (''effect'', effect)]"

fun written_part :: "file_fault \<Rightarrow> string \<Rightarrow> string" where
  "written_part (Torn n) bytes = take n bytes"
| "written_part fault bytes = bytes"

definition recordCompletion :: "js_env \<Rightarrow> file_fault \<Rightarrow> string \<Rightarrow> jsval \<Rightarrow> a2a_dir \<Rightarrow> string option \<times> a2a_dir" where
  "recordCompletion env fault replayKey effect d = (case taskIdForReplayKey env replayKey of
       None \<Rightarrow> (None, d)
     | Some taskId \<Rightarrow> (case stringify env (completion_record taskId effect) of
         None \<Rightarrow> (None, d)
       | Some payload \<Rightarrow>
           if utf8_length payload > MAX_TASK_RECORD_BYTES then (None, d)
           else if fault = Refused then (None, d)
           else if taskId \<in> fst ` set (ad_completed d) then (Some taskId, d)
           else (if fault = Works then Some taskId else None,
                 d\<lparr>ad_completed := ad_completed d @ [(taskId, written_part fault payload)]\<rparr>)))"

datatype task_state = Task_completed jsval | Task_unknown | Task_not_found

definition readTask :: "string \<Rightarrow> a2a_dir \<Rightarrow> task_state" where
  "readTask taskId d =
     (if \<not> SHA256_HEX taskId then Task_not_found
      else case map_of (ad_completed d) taskId of
        None \<Rightarrow> if taskId \<in> set (ad_tasks d) then Task_unknown else Task_not_found
      | Some bytes \<Rightarrow> (case JSON_parse bytes of
          None \<Rightarrow> Task_unknown
        | Some parsed \<Rightarrow>
            if jget parsed ''state'' \<noteq> JStr ''completed'' \<or> jget parsed ''taskId'' \<noteq> JStr taskId then Task_unknown
            else Task_completed (jget parsed ''effect'')))"

end
