(* ===== verification/A2a_Route.thy ===== *)
theory A2a_Route
  imports A2a_Run Emergency_Stop Authority_Totp Oversight_Types
begin

text \<open>
  The exchange route of a receiver: the delegated policy and the firewall call
  (\<open>src/lib/a2a/exchange-route-firewall.js\<close>), the admission from both receipts
  (\<open>inter-agent-receipt-chain.js\<close>) with the emergency stop, the refusals and their retry class
  (\<open>exchange-route-refusals.js\<close>, \<open>retry-classification.js\<close>), the audit of delegations
  (\<open>delegation-audit-log.js\<close>), one request from its body to its reply (\<open>exchange-route-handler.js\<close>) and the
  reading of a task (\<open>task-route.js\<close>).  The agent-action firewall is an argument; it may throw.
\<close>

section \<open>The delegated policy\<close>

definition text_or :: "js_env \<Rightarrow> jsval \<Rightarrow> string \<Rightarrow> string" where
  "text_or env v fallback = (if truthy v then js_string env v else fallback)"

definition resolveDelegatedPolicy :: "js_env \<Rightarrow> jsval \<Rightarrow> jsval \<Rightarrow> jsval option" where
  "resolveDelegatedPolicy env request authority =
     (let sourceRef = text_or env (jget (jget request ''source'') ''identityRef'') [];
          source = find (\<lambda>entry. truthy entry \<and> jget entry ''ref'' = JStr sourceRef) (list_of (jget authority ''identities''));
          policyVersion = (case source of None \<Rightarrow> []
            | Some entry \<Rightarrow> trim (text_or env (jget (jget entry ''record'') ''policy_version'') []));
          constraints = jget request ''constraints'' in
      if policyVersion = [] \<or> \<not> truthy constraints \<or> \<not> is_array (jget constraints ''allowedTools'')
         \<or> \<not> is_array (jget constraints ''allowedConnectors'') then None
      else Some (JObj [(''policyVersion'', JStr policyVersion),
        (''workspaceId'', JStr (text_or env (jget request ''workspaceId'') [])),
        (''maxRiskTier'', JStr (text_or env (jget constraints ''maxRiskTier'') [])),
        (''allowedTools'', jget constraints ''allowedTools''),
        (''allowedConnectors'', jget constraints ''allowedConnectors'')]))"

definition missingPolicyDecision :: "js_env \<Rightarrow> jsval \<Rightarrow> jsval" where
  "missingPolicyDecision env request = JObj [(''ok'', JBool False), (''allowed'', JBool False), (''canExecute'', JBool False),
     (''canDryRun'', JBool False), (''decision'', JStr ''block''), (''reason'', JStr ''A2A_DELEGATED_POLICY_MISSING''),
     (''risk'', JObj [(''level'', JStr ''critical''), (''score'', JNum 1), (''categories'', JArr [JStr ''a2a-policy''])]),
     (''requiredReview'', JBool True), (''dryRunOnly'', JBool False), (''findings'', JArr []), (''warnings'', JArr []),
     (''metadata'', JObj [(''workspaceId'', JStr (text_or env (jget request ''workspaceId'') ''default'')),
       (''surface'', JStr ''a2a'')])]"

definition firewall_input :: "js_env \<Rightarrow> jsval \<Rightarrow> jsval \<Rightarrow> jsval" where
  "firewall_input env request policy = (let task = jget request ''requestedAction'' in
     JObj [(''surface'', JStr ''a2a''), (''tool'', jget task ''tool''), (''action'', jget task ''capability''),
       (''input'', JObj [(''operationType'', jget task ''capability''), (''action'', jget task ''capability''),
          (''target'', jget task ''target''), (''connector'', jget task ''connector''),
          (''parametersHash'', jget task ''parametersHash''), (''task'', task), (''policy'', policy)]),
       (''context'', JObj [(''workspaceId'', jget request ''workspaceId''),
          (''actor'', JStr (''agent:'' @ js_string env (jget (jget request ''source'') ''agentId''))),
          (''target'', jget task ''target'')]),
       (''policyOverride'', policy)])"

type_synonym firewall = "jsval \<Rightarrow> jsval option"

definition evaluateA2aAgentActionFirewall :: "js_env \<Rightarrow> firewall \<Rightarrow> jsval \<Rightarrow> jsval \<Rightarrow> jsval option" where
  "evaluateA2aAgentActionFirewall env firewall request authority = (case resolveDelegatedPolicy env request authority of
       None \<Rightarrow> Some (missingPolicyDecision env request)
     | Some policy \<Rightarrow> firewall (firewall_input env request policy))"

definition option_value :: "jsval option \<Rightarrow> jsval" where
  "option_value v = (case v of None \<Rightarrow> JNull | Some w \<Rightarrow> w)"

definition or_null :: "jsval \<Rightarrow> jsval" where
  "or_null v = (if truthy v then v else JNull)"

text \<open>A decision whose metadata is \<open>null\<close> makes it throw.\<close>

definition buildFirewallReceiptMetadata :: "js_env \<Rightarrow> jsval \<Rightarrow> jsval \<Rightarrow> jsval \<Rightarrow> jsval \<Rightarrow> jsval option" where
  "buildFirewallReceiptMetadata env request decision authority aggregation =
     (let policy = resolveDelegatedPolicy env request authority; metadata = jget decision ''metadata'' in
      if metadata = JNull then None
      else Some (JObj [(''decision'', JStr (text_or env (jget decision ''decision'') ''block'')),
        (''reason'', JStr (text_or env (jget decision ''reason'') ''AGENT_ACTION_FIREWALL_EVALUATION_FAILED'')),
        (''firewallVersion'', JStr (text_or env (jget metadata ''firewallVersion'') [])),
        (''policyVersion'', JStr (text_or env (jget metadata ''policyVersion'')
           (case policy of None \<Rightarrow> [] | Some p \<Rightarrow> js_string env (jget p ''policyVersion'')))),
        (''actionId'', JStr (text_or env (jget metadata ''actionId'') [])),
        (''workspaceId'', JStr (text_or env (jget request ''workspaceId'') ''default'')),
        (''sourceAgentId'', JStr (text_or env (jget (jget request ''source'') ''agentId'') [])),
        (''targetAgentId'', JStr (text_or env (jget (jget request ''target'') ''agentId'') [])),
        (''task'', or_null (jget request ''requestedAction'')), (''policy'', option_value policy),
        (''routeReceipt'', or_null (jget request ''routeReceipt'')), (''crossAgentAggregation'', aggregation)]))"

section \<open>Admission from both receipts\<close>

text \<open>A score of the scale from 0 to 1 as a whole number from 0 to 100; \<open>None\<close> is \<open>null\<close>.\<close>

definition unit_to_percent :: "js_env \<Rightarrow> jsval \<Rightarrow> rat option" where
  "unit_to_percent env score = (if is_nullish score \<or> score = JStr [] then None
     else map_option (\<lambda>x. of_int \<lfloor>max 0 (min 100 (x * 100)) + 1 / 2\<rfloor>) (to_number env score))"

definition RECEIVER_RISK :: "(string \<times> rat) list" where
  "RECEIVER_RISK = [(''allow'', 0), (''review'', 50), (''dry_run_only'', 75), (''block'', 100)]"

definition receiverRisk :: "js_env \<Rightarrow> jsval \<Rightarrow> rat \<times> string" where
  "receiverRisk env receiverDecision = (case unit_to_percent env (jget (jget receiverDecision ''risk'') ''score'') of
       None \<Rightarrow> (case map_of RECEIVER_RISK (js_string env (jget receiverDecision ''decision'')) of
           None \<Rightarrow> 100 | Some r \<Rightarrow> r, ''receiver_decision_fallback'')
     | Some score \<Rightarrow> (score, ''receiver_firewall_score''))"

definition TIER_CEILINGS :: "(string \<times> rat) list" where
  "TIER_CEILINGS = [(''low'', 24), (''medium'', 49), (''high'', 74), (''critical'', 100)]"

definition delegatedCeiling :: "jsval \<Rightarrow> rat \<Rightarrow> jsval" where
  "delegatedCeiling request receiverScore =
     (let tier = jget (jget request ''constraints'') ''maxRiskTier'';
          ceiling = (case tier of JStr t \<Rightarrow> map_of TIER_CEILINGS t | _ \<Rightarrow> None) in
      case ceiling of
        None \<Rightarrow> JObj [(''max_risk_tier'', if tier = JUndefined then JNull else tier), (''ceiling_score'', JNull),
          (''within_ceiling'', JNull), (''status'', JStr ''unknown''), (''enforced'', JBool False)]
      | Some c \<Rightarrow> JObj [(''max_risk_tier'', tier), (''ceiling_score'', JNum c),
          (''within_ceiling'', JBool (receiverScore \<le> c)), (''status'', JStr ''computed''), (''enforced'', JBool False)])"

definition parent_allows :: "jsval \<Rightarrow> bool" where
  "parent_allows disclosure = (jget disclosure ''decision'' = JStr ''allow'' \<and> jget disclosure ''verdict'' = JStr ''allow'')"

definition parent_risk :: "jsval \<Rightarrow> rat" where
  "parent_risk disclosure = (case jget disclosure ''riskScore'' of JNum r \<Rightarrow> min 100 (max 0 r) | _ \<Rightarrow> 100)"

definition aggregateInterAgentReceiptDecision :: "js_env \<Rightarrow> jsval \<Rightarrow> jsval \<Rightarrow> jsval" where
  "aggregateInterAgentReceiptDecision env request receiverDecision =
     (let disclosure = jget (jget (jget request ''evidence'') ''receipt'') ''disclosure''; route = jget request ''routeReceipt'';
          contradiction = (parent_allows disclosure \<noteq> (jget receiverDecision ''decision'' = JStr ''allow''));
          receiver = receiverRisk env receiverDecision in
      JObj [(''status'', JStr (if contradiction then ''contradiction'' else ''consistent'')),
        (''signal'', if contradiction then JStr ''cross_agent_decision_contradiction'' else JNull),
        (''route_receipt_id'', jget route ''route_receipt_id''), (''parent_receipt_id'', jget route ''parent_receipt_id''),
        (''parent'', JObj [(''agent_id'', jget route ''from_agent_id''), (''decision'', jget disclosure ''decision''),
           (''verdict'', jget disclosure ''verdict''), (''risk_score'', JNum (parent_risk disclosure))]),
        (''receiver'', JObj [(''agent_id'', jget route ''to_agent_id''), (''decision'', jget receiverDecision ''decision''),
           (''reason'', jget receiverDecision ''reason''), (''risk_score'', JNum (fst receiver)),
           (''risk_source'', JStr (snd receiver))]),
        (''aggregate_risk_score'', JNum (max (parent_risk disclosure) (fst receiver))),
        (''delegated_ceiling'', delegatedCeiling request (fst receiver))])"

definition stopped_decision :: "jsval \<Rightarrow> check_reply \<Rightarrow> jsval \<Rightarrow> jsval" where
  "stopped_decision receiverDecision reply agentId = JObj [(''decision'', JStr ''block''),
     (''reason'', JStr ''AGENT_EMERGENCY_STOPPED''), (''metadata'', jget receiverDecision ''metadata''),
     (''emergencyStop'', JObj [(''scope'', case ck_scope reply of None \<Rightarrow> JNull | Some sc \<Rightarrow> JStr (scope_name sc)),
        (''reason'', JStr (ck_reason reply)), (''agentId'', agentId)])]"

text \<open>The first agent that is stopped; a check may throw, and may record a violation of the ledger.\<close>

fun check_agents :: "js_env \<Rightarrow> (nat \<Rightarrow> clock) \<Rightarrow> jsval \<Rightarrow> jsval list \<Rightarrow> stop_dir \<Rightarrow>
    (check_reply \<times> jsval) option option \<times> stop_dir" where
  "check_agents env clocks workspaceId [] halts = (Some None, halts)"
| "check_agents env clocks workspaceId (agentId # agentIds) halts =
     (case check env (clocks (length agentIds)) workspaceId agentId halts of
        (Inl e, halts1) \<Rightarrow> (None, halts1)
      | (Inr reply, halts1) \<Rightarrow> if ck_stopped reply then (Some (Some (reply, agentId)), halts1)
          else check_agents env clocks workspaceId agentIds halts1)"

definition evaluateInterAgentReceiptAdmission :: "js_env \<Rightarrow> (nat \<Rightarrow> clock) \<Rightarrow> jsval \<Rightarrow> jsval \<Rightarrow> stop_dir \<Rightarrow>
    (jsval \<times> jsval) option \<times> stop_dir" where
  "evaluateInterAgentReceiptAdmission env clocks request receiverDecision halts =
     (let disclosure = jget (jget (jget request ''evidence'') ''receipt'') ''disclosure'';
          aggregation = aggregateInterAgentReceiptDecision env request receiverDecision in
      if is_nullish disclosure \<or> is_nullish receiverDecision then (None, halts)
      else (case check_agents env clocks (jget request ''workspaceId'')
          [jget (jget request ''source'') ''agentId'', jget (jget request ''target'') ''agentId''] halts of
          (None, halts1) \<Rightarrow> (None, halts1)
        | (Some (Some (reply, agentId)), halts1) \<Rightarrow>
            (Some (stopped_decision receiverDecision reply agentId, aggregation), halts1)
        | (Some None, halts1) \<Rightarrow>
            if jget receiverDecision ''decision'' = JStr ''allow'' \<and> \<not> parent_allows disclosure
              then (Some (JObj [(''decision'', JStr ''block''), (''reason'', JStr ''PARENT_RECEIPT_NOT_AUTHORIZING''),
                (''metadata'', jget receiverDecision ''metadata'')], aggregation), halts1)
            else (Some (receiverDecision, aggregation), halts1)))"

end
