(* ===== verification/A2a_Handler.thy ===== *)
theory A2a_Handler
  imports A2a_Route
begin

text \<open>
  One request of the exchange route: the refusals and their retry class
  (\<open>src/lib/a2a/exchange-route-refusals.js\<close>, \<open>retry-classification.js\<close>), the audit of delegations
  (\<open>delegation-audit-log.js\<close>), the handler (\<open>exchange-route-handler.js\<close>) and the reading of a task
  (\<open>task-route.js\<close>).  A reply \<open>None\<close> is a handler that throws.
\<close>

section \<open>Refusals\<close>

record http_reply =
  hr_statusCode :: rat
  hr_body :: jsval

definition RETRYABLE_EVALUATOR_REASONS :: "string list" where
  "RETRYABLE_EVALUATOR_REASONS = [''consumer_invalid'', ''exchange_shape_invalid'', ''authority_invalid'',
     ''exchange_expired'', ''identity_invalid'', ''identity_binding_invalid'', ''delegation_chain_invalid'',
     ''delegation_invalid'', ''delegation_signature_invalid'', ''delegation_scope_escalation'', ''delegation_expired'',
     ''constraints_exceeded'', ''evidence_action_invalid'', ''evidence_receipt_invalid'', ''evidence_package_invalid'',
     ''evidence_package_authority_invalid'', ''evidence_refs_invalid'', ''evidence_package_binding_invalid'',
     ''evidence_receipt_authority_invalid'', ''route_receipt_invalid'', ''exchange_signature_invalid'']"

definition classifyEvaluatorReason :: "string \<Rightarrow> bool" where
  "classifyEvaluatorReason reason = (reason \<noteq> [] \<and> reason \<in> set RETRYABLE_EVALUATOR_REASONS)"

definition classifyTransportRefusal :: bool where "classifyTransportRefusal = True"

definition transport_refusal :: "rat \<Rightarrow> string \<Rightarrow> http_reply" where
  "transport_refusal statusCode reason = \<lparr>hr_statusCode = statusCode, hr_body = JObj [(''decision'', JStr ''block''),
     (''reason'', JStr reason), (''safeToRetry'', JBool classifyTransportRefusal)]\<rparr>"

definition firewallRefusal :: "js_env \<Rightarrow> jsval \<Rightarrow> jsval \<Rightarrow> jsval \<Rightarrow> jsval \<Rightarrow> http_reply option" where
  "firewallRefusal env request decision authority aggregation =
     map_option (\<lambda>metadata. \<lparr>hr_statusCode = 403, hr_body = JObj [
        (''decision'', JStr (text_or env (jget decision ''decision'') ''block'')),
        (''reason'', JStr (text_or env (jget decision ''reason'') ''AGENT_ACTION_FIREWALL_EVALUATION_FAILED'')),
        (''safeToRetry'', JBool True), (''receiptMetadata'', metadata)]\<rparr>)
       (buildFirewallReceiptMetadata env request decision authority aggregation)"

definition evaluatorRefusal :: "js_env \<Rightarrow> string \<Rightarrow> string \<Rightarrow> http_reply" where
  "evaluatorRefusal env reason replayKey =
     (let safeToRetry = classifyEvaluatorReason reason;
          pointer = (if safeToRetry \<or> replayKey = [] then None else taskIdForReplayKey env replayKey) in
      \<lparr>hr_statusCode = 403, hr_body = JObj ([(''decision'', JStr ''block''), (''reason'', JStr reason),
         (''safeToRetry'', JBool safeToRetry)]
         @ (case pointer of None \<Rightarrow> [] | Some taskId \<Rightarrow> [(''taskId'', JStr taskId)]))\<rparr>)"

section \<open>The audit of delegations\<close>

definition DELEGATION_AUDIT_VERSION :: jsval where
  "DELEGATION_AUDIT_VERSION = JStr ''huqan.a2a-delegation-audit.v1''"

definition MAX_AUDIT_FIELD_CHARS :: nat where "MAX_AUDIT_FIELD_CHARS = 256"
definition MAX_AUDIT_CHAIN_ITEMS :: nat where "MAX_AUDIT_CHAIN_ITEMS = 16"
definition MAX_AUDIT_RECORD_BYTES :: nat where "MAX_AUDIT_RECORD_BYTES = 16 * 1024"
definition DEFAULT_READ_LIMIT :: nat where "DEFAULT_READ_LIMIT = 200"

fun audit_text :: "jsval \<Rightarrow> string" where
  "audit_text (JStr s) = take MAX_AUDIT_FIELD_CHARS (trim s)"
| "audit_text _ = []"

definition chainOf :: "jsval \<Rightarrow> string list" where
  "chainOf v = take MAX_AUDIT_CHAIN_ITEMS (filter (\<lambda>s. s \<noteq> []) (map audit_text (list_of v)))"

definition delegationAuditEntry :: "jsval \<Rightarrow> bool \<Rightarrow> jsval \<Rightarrow> jsval \<Rightarrow> jsval \<Rightarrow> string \<Rightarrow> jsval" where
  "delegationAuditEntry request admitted decision reason taskId recordedAt =
     (let source = jget request ''source''; target = jget request ''target''; delegation = jget request ''delegation'';
          action = jget request ''requestedAction''; field = (\<lambda>v k. JStr (audit_text (jget v k))) in
      JObj [(''auditVersion'', DELEGATION_AUDIT_VERSION), (''recordedAt'', JStr recordedAt),
        (''outcome'', JStr (if admitted then ''admitted'' else ''refused'')),
        (''exchangeId'', field request ''exchangeId''), (''workspaceId'', field request ''workspaceId''),
        (''delegatorId'', field source ''agentId''), (''delegateId'', field target ''agentId''),
        (''delegationChain'', JArr (map JStr (chainOf (jget delegation ''chain'')))),
        (''hopCount'', JNum (of_nat (length (list_of (jget delegation ''hops''))))),
        (''capability'', field action ''capability''), (''riskTier'', field action ''riskTier''),
        (''decision'', JStr (audit_text decision)), (''reason'', JStr (audit_text reason)),
        (''taskId'', if audit_text taskId = [] then JNull else JStr (audit_text taskId))])"

text \<open>The row is a file of its own; nothing is written when its name exists or the operation is refused.\<close>

definition append_audit :: "js_env \<Rightarrow> file_fault \<Rightarrow> string \<Rightarrow> jsval \<Rightarrow> a2a_dir \<Rightarrow> a2a_dir" where
  "append_audit env fault name entry d = (case stringify env entry of
       None \<Rightarrow> d
     | Some payload \<Rightarrow>
         if utf8_length payload > MAX_AUDIT_RECORD_BYTES \<or> fault = Refused \<or> name \<in> fst ` set (ad_audit d) then d
         else d\<lparr>ad_audit := ad_audit d @ [(name, written_part fault payload)]\<rparr>)"

definition audit_row :: "string \<Rightarrow> jsval option" where
  "audit_row bytes = (case JSON_parse bytes of
       None \<Rightarrow> None
     | Some parsed \<Rightarrow> if isPlainObject parsed \<and> jget parsed ''auditVersion'' = DELEGATION_AUDIT_VERSION
         then Some parsed else None)"

definition read_audit :: "jsval \<Rightarrow> a2a_dir \<Rightarrow> jsval list \<times> nat" where
  "read_audit limit d =
     (let bound = (if is_integer limit \<and> 0 < num_of limit then nat \<lfloor>num_of limit\<rfloor> else DEFAULT_READ_LIMIT);
          names = sort (map fst (ad_audit d));
          rows = map (\<lambda>n. case map_of (ad_audit d) n of None \<Rightarrow> None | Some bytes \<Rightarrow> audit_row bytes)
            (drop (length names - bound) names) in
      (List.map_filter (\<lambda>r. r) rows, length (filter (\<lambda>r. r = None) rows)))"

section \<open>The handler\<close>

record exchange_io =
  xi_taskMarker :: file_fault
  xi_keyMarker :: file_fault
  xi_completion :: file_fault
  xi_audit :: file_fault
  xi_auditName :: string
  xi_recordedAt :: string
  xi_clocks :: "nat \<Rightarrow> clock"

text \<open>The directory, the emergency stops and the variables the closures of one request share.\<close>

record exchange_run =
  xr_dir :: a2a_dir
  xr_stops :: stop_dir
  xr_replayKey :: string
  xr_firewall :: jsval
  xr_aggregation :: jsval

record exchange_deps =
  xd_services :: exchange_services
  xd_firewall :: firewall
  xd_authority :: jsval

definition admit_exchange :: "js_env \<Rightarrow> exchange_deps \<Rightarrow> exchange_io \<Rightarrow> jsval \<Rightarrow> exchange_run \<Rightarrow> jsval option \<times> exchange_run" where
  "admit_exchange env deps xio verifiedRequest r =
     (case evaluateA2aAgentActionFirewall env (xd_firewall deps) verifiedRequest (xd_authority deps) of
        None \<Rightarrow> (None, r)
      | Some decision \<Rightarrow> (case evaluateInterAgentReceiptAdmission env (xi_clocks xio) verifiedRequest decision (xr_stops r) of
          (None, halts) \<Rightarrow> (None, r\<lparr>xr_stops := halts, xr_firewall := decision\<rparr>)
        | (Some (admission, aggregation), halts) \<Rightarrow> (Some admission,
            r\<lparr>xr_stops := halts, xr_firewall := admission, xr_aggregation := aggregation\<rparr>)))"

definition reserve_exchange :: "js_env \<Rightarrow> exchange_io \<Rightarrow> string \<Rightarrow> exchange_run \<Rightarrow> jsval option \<times> exchange_run" where
  "reserve_exchange env xio replayKey r =
     (case reserve env (xi_taskMarker xio) (xi_keyMarker xio) replayKey (xr_dir r) of
        (reserved, d) \<Rightarrow> (map_option (\<lambda>b. JObj [(''reserved'', JBool b)]) reserved,
          r\<lparr>xr_dir := d, xr_replayKey := replayKey\<rparr>))"

definition exchange_effect :: "js_env \<Rightarrow> exchange_deps \<Rightarrow> exchange_io \<Rightarrow> jsval \<Rightarrow> exchange_run \<Rightarrow> jsval option \<times> exchange_run" where
  "exchange_effect env deps xio body r =
     (case (taskIdForReplayKey env (xr_replayKey r),
            buildFirewallReceiptMetadata env body (xr_firewall r) (xd_authority deps) (xr_aggregation r)) of
        (Some taskId, Some metadata) \<Rightarrow>
          (let admitted = JObj [(''admitted'', JBool True), (''exchangeId'', JStr (text_or env (jget body ''exchangeId'') [])),
             (''evaluatedAt'', jget (xd_authority deps) ''evaluationTime''), (''taskId'', JStr taskId),
             (''receiptMetadata'', metadata)] in
           case recordCompletion env (xi_completion xio) (xr_replayKey r) admitted (xr_dir r) of
             (None, d) \<Rightarrow> (None, r\<lparr>xr_dir := d\<rparr>)
           | (Some _, d) \<Rightarrow> (Some admitted, r\<lparr>xr_dir := d\<rparr>))
      | _ \<Rightarrow> (None, r))"

definition hooks_of :: "js_env \<Rightarrow> exchange_deps \<Rightarrow> exchange_io \<Rightarrow> jsval \<Rightarrow> exchange_run exchange_hooks" where
  "hooks_of env deps xio body = \<lparr>eh_admission = Some (admit_exchange env deps xio),
     eh_replayReserve = reserve_exchange env xio, eh_effect = exchange_effect env deps xio body\<rparr>"

definition recordDelegation :: "js_env \<Rightarrow> exchange_io \<Rightarrow> jsval \<Rightarrow> jsval \<Rightarrow> jsval \<Rightarrow> jsval \<Rightarrow> exchange_run \<Rightarrow> exchange_run" where
  "recordDelegation env xio request decision reason taskId r = r\<lparr>xr_dir := append_audit env (xi_audit xio) (xi_auditName xio)
     (delegationAuditEntry request (decision = JStr ''allow'') decision reason taskId (xi_recordedAt xio)) (xr_dir r)\<rparr>"

definition reply_of :: "js_env \<Rightarrow> exchange_deps \<Rightarrow> exchange_io \<Rightarrow> jsval \<Rightarrow> exchange_reply \<times> exchange_run \<Rightarrow> http_reply option \<times> exchange_run" where
  "reply_of env deps xio body result = (case result of
       (Exchange_blocked reason, r) \<Rightarrow> (Some (evaluatorRefusal env reason (xr_replayKey r)),
          recordDelegation env xio body (JStr ''block'') (JStr reason) JUndefined r)
     | (Exchange_not_admitted decision, r) \<Rightarrow> (firewallRefusal env body decision (xd_authority deps) (xr_aggregation r),
          recordDelegation env xio body (jget decision ''decision'') (jget decision ''reason'') JUndefined r)
     | (Exchange_allowed effect, r) \<Rightarrow> (Some \<lparr>hr_statusCode = 200, hr_body = JObj [(''decision'', JStr ''allow''),
            (''reason'', JStr ''ok''), (''effect'', effect)]\<rparr>,
          recordDelegation env xio body (JStr ''allow'') (JStr ''ok'') (jget effect ''taskId'') r))"

datatype body_read = Body_threw | Body_read jsval

record exchange_call =
  xc_io :: exchange_io
  xc_method :: jsval
  xc_body :: body_read

text \<open>The body of a request, or its refusal.\<close>

definition call_body :: "js_env \<Rightarrow> exchange_call \<Rightarrow> http_reply + jsval" where
  "call_body env call =
     (if to_upper (text_or env (xc_method call) []) \<noteq> ''POST'' then Inl (transport_refusal 405 ''a2a_method_not_allowed'')
      else case xc_body call of
        Body_threw \<Rightarrow> Inl (transport_refusal 400 ''a2a_request_body_invalid'')
      | Body_read reading \<Rightarrow> (let body = jget reading ''data'' in
          if jget reading ''ok'' \<noteq> JBool True then
            Inl (transport_refusal (case to_number env (jget reading ''status'') of None \<Rightarrow> 400
              | Some n \<Rightarrow> if n = 0 then 400 else n) ''a2a_request_body_invalid'')
          else if \<not> isPlainObject body then Inl (transport_refusal 400 ''a2a_request_body_invalid'')
          else if jget body ''workspaceId'' \<noteq> JUndefined \<and> jget body ''workspaceId'' \<noteq> JStr ''default'' then
            Inl (transport_refusal 400 ''a2a_workspace_not_canonical'')
          else Inr body))"

definition start_run :: "a2a_dir \<times> stop_dir \<Rightarrow> exchange_run" where
  "start_run world = \<lparr>xr_dir = fst world, xr_stops = snd world, xr_replayKey = [], xr_firewall = JNull,
     xr_aggregation = JNull\<rparr>"

definition handle_exchange :: "js_env \<Rightarrow> exchange_deps \<Rightarrow> exchange_call \<Rightarrow> a2a_dir \<times> stop_dir \<Rightarrow>
    http_reply option \<times> (a2a_dir \<times> stop_dir)" where
  "handle_exchange env deps call world = (case call_body env call of
       Inl refused \<Rightarrow> (Some refused, world)
     | Inr body \<Rightarrow> (case reply_of env deps (xc_io call) body
           (evaluateBoundedExchange env (xd_services deps) (hooks_of env deps (xc_io call) body) body (xd_authority deps)
             (jget (xd_authority deps) ''evaluationTime'') (start_run world)) of
         (reply, r) \<Rightarrow> (reply, (xr_dir r, xr_stops r))))"

section \<open>Reading a task\<close>

definition task_refusal :: "rat \<Rightarrow> string \<Rightarrow> http_reply" where
  "task_refusal statusCode reason = \<lparr>hr_statusCode = statusCode,
     hr_body = JObj [(''decision'', JStr ''block''), (''reason'', JStr reason)]\<rparr>"

text \<open>\<open>None\<close> is a directory that cannot be read.\<close>

definition handle_task :: "js_env \<Rightarrow> jsval \<Rightarrow> string \<Rightarrow> a2a_dir option \<Rightarrow> http_reply" where
  "handle_task env httpMethod taskId dir =
     (if to_upper (text_or env httpMethod []) \<noteq> ''GET'' then task_refusal 405 ''a2a_task_method_not_allowed''
      else case dir of
        None \<Rightarrow> task_refusal 503 ''a2a_task_not_found''
      | Some d \<Rightarrow> (case readTask taskId d of
          Task_not_found \<Rightarrow> task_refusal 404 ''a2a_task_not_found''
        | Task_unknown \<Rightarrow> \<lparr>hr_statusCode = 200, hr_body = JObj [(''taskId'', JStr taskId), (''state'', JStr ''unknown'')]\<rparr>
        | Task_completed effect \<Rightarrow> \<lparr>hr_statusCode = 200,
            hr_body = JObj [(''taskId'', JStr taskId), (''state'', JStr ''completed''), (''effect'', effect)]\<rparr>))"

end
