(* ===== verification/A2a_Facts.thy ===== *)
theory A2a_Facts
  imports A2a_Handler Once_Store
begin

text \<open>
  Facts of the exchange: a delegation chain that is accepted attenuates from hop to hop, and the directory of the
  receiver changes only behind a reservation.  The directory is a \<open>once_store\<close> whose keys are task ids.
\<close>

section \<open>Attenuation along the chain\<close>

lemma rank_le_trans: "rank_le env u v \<Longrightarrow> rank_le env v w \<Longrightarrow> rank_le env u w"
  by (simp add: rank_le_def)

lemma not_after_trans: "not_after_time env u v \<Longrightarrow> not_after_time env v w \<Longrightarrow> not_after_time env u w"
  by (simp add: not_after_time_def)

lemma subset_of_trans: "subset_of u v \<Longrightarrow> subset_of v w \<Longrightarrow> subset_of u w"
  by (auto simp: subset_of_def)

lemma within_hop_trans: "within_hop env h g \<Longrightarrow> within_hop env g f \<Longrightarrow> within_hop env h f"
  unfolding within_hop_def by (auto intro: rank_le_trans not_after_trans subset_of_trans)

lemma check_hop_within:
  "check_hop env ed request parties authority now chain i parent (Some previous) hop = None \<Longrightarrow> within_hop env hop previous"
  by (auto simp: check_hop_def split: if_splits option.splits)

text \<open>What an accepted hop is, apart from its predecessor.\<close>

definition hop_grants :: "js_env \<Rightarrow> ed25519 \<Rightarrow> participants \<Rightarrow> jsval \<Rightarrow> jsval \<Rightarrow> jsval list \<Rightarrow> nat \<Rightarrow> jsval \<Rightarrow> bool" where
  "hop_grants env ed parties authority now chain i hop =
     (case (entry_of_party parties (chain ! i), entry_of_party parties (chain ! Suc i)) of
        (Some delegator, Some delegate) \<Rightarrow>
          jget hop ''delegatorId'' = chain ! i \<and> jget hop ''delegateId'' = chain ! Suc i
          \<and> jget (jget hop ''signature'') ''keyReference'' = jget delegator ''keyReference''
          \<and> verifySignature env ed authority (jget hop ''signature'') (delegationSigningView hop) now
          \<and> within_identity env hop (jget delegator ''record'') \<and> within_identity env hop (jget delegate ''record'')
          \<and> \<not> not_after_time env (jget hop ''expiresAt'') now
      | _ \<Rightarrow> False)"

lemma check_hop_grants:
  assumes "check_hop env ed request parties authority now chain i parent previous hop = None"
  shows "hop_grants env ed parties authority now chain i hop"
  using assms by (auto simp: check_hop_def hop_grants_def split: if_splits option.splits)

lemma check_hops_Cons:
  "check_hops env ed request parties authority now chain i parent previous (hop # hops) = None \<longleftrightarrow>
     check_hop env ed request parties authority now chain i parent previous hop = None
     \<and> check_hops env ed request parties authority now chain (Suc i) (hash_json env hop) (Some hop) hops = None"
  by (auto split: option.splits)

lemma check_hops_grants:
  "check_hops env ed request parties authority now chain i parent previous hops = None \<Longrightarrow> j < length hops \<Longrightarrow>
     hop_grants env ed parties authority now chain (i + j) (hops ! j)"
proof (induction hops arbitrary: i j parent previous)
  case Nil
  then show ?case by simp
next
  case (Cons hop hops)
  note ok = Cons.prems(1) [unfolded check_hops_Cons]
  show ?case
  proof (cases j)
    case 0
    with check_hop_grants [OF ok [THEN conjunct1]] show ?thesis by simp
  next
    case (Suc k)
    with Cons.IH [OF ok [THEN conjunct2], of k] Cons.prems(2) show ?thesis by simp
  qed
qed

lemma check_hops_sorted:
  "check_hops env ed request parties authority now chain i parent (Some previous) hops = None \<Longrightarrow>
     sorted_wrt (\<lambda>g h. within_hop env h g) (previous # hops)"
proof (induction hops arbitrary: i parent previous)
  case Nil
  then show ?case by simp
next
  case (Cons hop hops)
  note ok = Cons.prems [unfolded check_hops_Cons]
  have first: "within_hop env hop previous" using ok check_hop_within by blast
  have rest: "sorted_wrt (\<lambda>g h. within_hop env h g) (hop # hops)" using ok Cons.IH by blast
  then show ?case using first by (auto intro: within_hop_trans)
qed

lemma check_hops_attenuate:
  assumes "check_hops env ed request parties authority now chain i parent None hops = None"
  shows "sorted_wrt (\<lambda>g h. within_hop env h g) hops"
proof (cases hops)
  case (Cons hop rest)
  then show ?thesis using assms check_hops_sorted unfolding Cons check_hops_Cons by blast
qed simp

lemma delegation_hops:
  assumes "validateDelegation env ed request parties authority now = None"
  shows "\<exists>chain hops. jget (jget request ''delegation'') ''chain'' = JArr chain
    \<and> jget (jget request ''delegation'') ''hops'' = JArr hops \<and> length hops = length chain - 1 \<and> distinct chain
    \<and> hd chain = jget (jget request ''source'') ''agentId'' \<and> last chain = jget (jget request ''target'') ''agentId''
    \<and> check_hops env ed request parties authority now chain 0 JNull None hops = None"
  using assms
  by (auto simp: validateDelegation_def Let_def uniqueStrings_def list_of_def split: if_splits option.splits jsval.splits)

lemma sorted_wrt_last: "sorted_wrt P xs \<Longrightarrow> x \<in> set xs \<Longrightarrow> x = last xs \<or> P x (last xs)"
  by (induction xs) auto

lemma last_hop_last: "jget (jget request ''delegation'') ''hops'' = JArr hops \<Longrightarrow> hops \<noteq> [] \<Longrightarrow> last_hop request = last hops"
  by (cases hops rule: rev_cases) (simp_all add: last_hop_def list_of_def)

text \<open>What an action asks is within a grant.\<close>

definition action_within :: "js_env \<Rightarrow> jsval \<Rightarrow> jsval \<Rightarrow> bool" where
  "action_within env request hop =
     (let action = jget request ''requestedAction'' in
      jget action ''capability'' \<in> set (list_of (jget hop ''scope''))
      \<and> jget action ''tool'' \<in> set (list_of (jget hop ''allowedTools''))
      \<and> jget action ''connector'' \<in> set (list_of (jget hop ''allowedConnectors''))
      \<and> jget action ''target'' = jget hop ''target''
      \<and> rank_le env (jget action ''riskTier'') (jget hop ''maxRiskTier'')
      \<and> not_after_time env (jget request ''expiresAt'') (jget hop ''expiresAt''))"

lemma constraints_within_last: "constraints_hold env request now \<Longrightarrow> action_within env request (last_hop request)"
  unfolding constraints_hold_def action_within_def Let_def
  by (auto simp: subset_of_def intro: rank_le_trans)

lemma within_wider: "action_within env request hop \<Longrightarrow> within_hop env hop wider \<Longrightarrow> action_within env request wider"
  unfolding within_hop_def action_within_def Let_def
  by (auto simp: subset_of_def intro: rank_le_trans not_after_trans)

section \<open>The reservation\<close>

lemma reserve_cases:
  assumes "reserve env taskFault keyFault key d = (result, d')"
  shows "(d' = d \<and> result \<noteq> Some True)
    \<or> (\<exists>taskId. taskIdForReplayKey env key = Some taskId \<and> taskId \<notin> set (ad_tasks d)
        \<and> ad_tasks d' = ad_tasks d @ [taskId] \<and> ad_completed d' = ad_completed d \<and> ad_audit d' = ad_audit d)"
  using assms by (auto simp: reserve_def Let_def split: if_splits option.splits)

lemma reserve_taken:
  "reserve env taskFault keyFault key d = (Some False, d') \<Longrightarrow>
     \<exists>taskId. taskIdForReplayKey env key = Some taskId \<and> taskId \<in> set (ad_tasks d')"
  by (auto simp: reserve_def Let_def split: if_splits option.splits)

lemma recordCompletion_tasks: "ad_tasks (snd (recordCompletion env fault key effect d)) = ad_tasks d"
  by (simp add: recordCompletion_def split: option.splits)

lemma append_audit_fields:
  "ad_tasks (append_audit env fault name entry d) = ad_tasks d"
  "ad_reserved (append_audit env fault name entry d) = ad_reserved d"
  "ad_completed (append_audit env fault name entry d) = ad_completed d"
  by (simp_all add: append_audit_def split: option.splits)

section \<open>One request\<close>

lemma admit_keeps:
  "xr_dir (snd (admit_exchange env deps xio request r)) = xr_dir r"
  "xr_replayKey (snd (admit_exchange env deps xio request r)) = xr_replayKey r"
  by (simp_all add: admit_exchange_def split: option.splits prod.splits)

lemma gate_keeps:
  assumes "\<And>request r. f (snd (admit request r)) = f r"
  shows "f (snd (gate_exchange env sv (Some admit) untrusted trusted now r)) = f r"
  using assms
  by (auto simp: gate_exchange_def split: option.splits prod.splits if_splits) (metis snd_conv)+

lemma gate_inputs:
  "gate_exchange env sv admission untrusted trusted now r = (Inr (request, authority), r1) \<Longrightarrow>
     snapshotUntrustedData env untrusted = Some request \<and> snapshotUntrustedData env trusted = Some authority
     \<and> exchange_failure env sv request authority now = None"
  by (auto simp: gate_exchange_def split: option.splits prod.splits if_splits)

lemma gate_not_allowed: "gate_exchange env sv admission untrusted trusted now r \<noteq> (Inl (Exchange_allowed effect), r1)"
  by (auto simp: gate_exchange_def admission_reply_def split: option.splits prod.splits if_splits)

lemma reserve_and_run_reply:
  "fst (reserve_and_run env request authority hooks r) \<noteq> Exchange_not_admitted d"
  "fst (reserve_and_run env request authority hooks r) = Exchange_blocked reason \<Longrightarrow>
     reason = ''verification_failed'' \<or> reason = ''replay_detected''"
  by (auto simp: reserve_and_run_def split: option.splits prod.splits if_splits)

lemma effect_tasks: "ad_tasks (xr_dir (snd (exchange_effect env deps xio body r))) = ad_tasks (xr_dir r)"
  using recordCompletion_tasks
  by (auto simp: exchange_effect_def Let_def split: option.splits prod.splits) (metis snd_conv)+

section \<open>The directory after a request\<close>

text \<open>
  The effect of a request starts when the evaluation, with the effect replaced by a probe, reaches the probe.  The
  key of a request is the task id of the digest of its snapshot.
\<close>

definition effect_started :: "js_env \<Rightarrow> exchange_deps \<Rightarrow> exchange_call \<Rightarrow> a2a_dir \<times> stop_dir \<Rightarrow> bool" where
  "effect_started env deps call world = (case call_body env call of
       Inl _ \<Rightarrow> False
     | Inr body \<Rightarrow> fst (evaluateBoundedExchange env (xd_services deps)
         ((hooks_of env deps (xc_io call) body)\<lparr>eh_effect := \<lambda>r. (Some JNull, r)\<rparr>) body (xd_authority deps)
         (jget (xd_authority deps) ''evaluationTime'') (start_run world)) = Exchange_allowed JNull)"

definition exchange_task :: "js_env \<Rightarrow> exchange_deps \<Rightarrow> exchange_call \<Rightarrow> string option" where
  "exchange_task env deps call = (case call_body env call of
       Inl _ \<Rightarrow> None
     | Inr body \<Rightarrow> (case (snapshotUntrustedData env body, snapshotUntrustedData env (xd_authority deps)) of
         (Some request, Some authority) \<Rightarrow> (case canonical_hash env (replayKeyMaterial request authority) of
             None \<Rightarrow> None
           | Some key \<Rightarrow> taskIdForReplayKey env key)
       | _ \<Rightarrow> None))"

definition task_marked :: "a2a_dir \<times> stop_dir \<Rightarrow> string option \<Rightarrow> unit option" where
  "task_marked world k = (case k of None \<Rightarrow> None
     | Some taskId \<Rightarrow> if taskId \<in> set (ad_tasks (fst world)) then Some () else None)"

definition handle_world :: "js_env \<Rightarrow> exchange_deps \<Rightarrow> exchange_call \<Rightarrow> a2a_dir \<times> stop_dir \<Rightarrow> a2a_dir \<times> stop_dir" where
  "handle_world env deps call world = snd (handle_exchange env deps call world)"

definition reserved_dir :: "js_env \<Rightarrow> exchange_io \<Rightarrow> jsval \<Rightarrow> jsval \<Rightarrow> exchange_run \<Rightarrow> a2a_dir" where
  "reserved_dir env xio request authority r = (case canonical_hash env (replayKeyMaterial request authority) of
       None \<Rightarrow> xr_dir r
     | Some key \<Rightarrow> snd (reserve env (xi_taskMarker xio) (xi_keyMarker xio) key (xr_dir r)))"

lemma hooks_effect: "hooks_of env deps xio body = (hooks_of env deps xio body)\<lparr>eh_effect := exchange_effect env deps xio body\<rparr>"
  by (simp add: hooks_of_def)

lemma hooks_admission: "eh_admission (hooks_of env deps xio body) = Some (admit_exchange env deps xio)"
  by (simp add: hooks_of_def)

lemma run_eval:
  assumes "canonical_hash env (replayKeyMaterial request authority) = Some key"
    and "reserve env (xi_taskMarker xio) (xi_keyMarker xio) key (xr_dir r) = (reserved, d)"
  shows "reserve_and_run env request authority ((hooks_of env deps xio body)\<lparr>eh_effect := f\<rparr>) r =
    (let r1 = r\<lparr>xr_dir := d, xr_replayKey := key\<rparr> in case reserved of
       None \<Rightarrow> (Exchange_blocked ''verification_failed'', r1)
     | Some b \<Rightarrow> if \<not> b then (Exchange_blocked ''replay_detected'', r1)
         else (case f r1 of (None, r2) \<Rightarrow> (Exchange_blocked ''verification_failed'', r2)
           | (Some effect, r2) \<Rightarrow> (Exchange_allowed effect, r2)))"
  using assms
  by (simp add: reserve_and_run_def hooks_of_def reserve_exchange_def exactObject_def Let_def split: option.splits)

lemma run_no_key:
  "canonical_hash env (replayKeyMaterial request authority) = None \<Longrightarrow>
     reserve_and_run env request authority hooks r = (Exchange_blocked ''verification_failed'', r)"
  by (simp add: reserve_and_run_def)

lemma run_tasks:
  "ad_tasks (xr_dir (snd (reserve_and_run env request authority (hooks_of env deps xio body) r)))
     = ad_tasks (reserved_dir env xio request authority r)"
proof (cases "canonical_hash env (replayKeyMaterial request authority)")
  case None
  then show ?thesis by (simp add: run_no_key reserved_dir_def)
next
  case (Some key)
  obtain reserved d where res: "reserve env (xi_taskMarker xio) (xi_keyMarker xio) key (xr_dir r) = (reserved, d)" by fastforce
  show ?thesis
    using effect_tasks [of env deps xio body "r\<lparr>xr_dir := d, xr_replayKey := key\<rparr>"]
    by (subst hooks_effect, subst run_eval [OF Some res])
      (auto simp: reserved_dir_def Some res Let_def split: option.splits prod.splits)
qed

lemma reserved_dir_grows: "set (ad_tasks (xr_dir r)) \<subseteq> set (ad_tasks (reserved_dir env xio request authority r))"
proof (cases "canonical_hash env (replayKeyMaterial request authority)")
  case (Some key)
  obtain reserved d where res: "reserve env (xi_taskMarker xio) (xi_keyMarker xio) key (xr_dir r) = (reserved, d)" by fastforce
  with reserve_cases [OF res] show ?thesis by (auto simp: reserved_dir_def Some)
qed (simp add: reserved_dir_def)

lemma reply_of_fields:
  "ad_tasks (xr_dir (snd (reply_of env deps xio body result))) = ad_tasks (xr_dir (snd result))"
  "ad_reserved (xr_dir (snd (reply_of env deps xio body result))) = ad_reserved (xr_dir (snd result))"
  "ad_completed (xr_dir (snd (reply_of env deps xio body result))) = ad_completed (xr_dir (snd result))"
  by (auto simp: reply_of_def recordDelegation_def append_audit_fields split: prod.splits exchange_reply.splits)

text \<open>How one request moves the directory: not at all, or through one reservation.\<close>

lemma handle_cases:
  obtains (refused) reply where "call_body env call = Inl reply" and "handle_exchange env deps call world = (Some reply, world)"
  | (gated) body reply r where "call_body env call = Inr body"
      "gate_exchange env (xd_services deps) (Some (admit_exchange env deps (xc_io call))) body (xd_authority deps)
        (jget (xd_authority deps) ''evaluationTime'') (start_run world) = (Inl reply, r)"
      "xr_dir r = fst world"
      "handle_exchange env deps call world = (case reply_of env deps (xc_io call) body (reply, r) of
         (http, r') \<Rightarrow> (http, (xr_dir r', xr_stops r')))"
  | (run) body request authority r where "call_body env call = Inr body"
      "gate_exchange env (xd_services deps) (Some (admit_exchange env deps (xc_io call))) body (xd_authority deps)
        (jget (xd_authority deps) ''evaluationTime'') (start_run world) = (Inr (request, authority), r)"
      "xr_dir r = fst world"
      "handle_exchange env deps call world = (case reply_of env deps (xc_io call) body
           (reserve_and_run env request authority (hooks_of env deps (xc_io call) body) r) of
         (http, r') \<Rightarrow> (http, (xr_dir r', xr_stops r')))"
proof (cases "call_body env call")
  case (Inl reply)
  then show ?thesis using refused by (simp add: handle_exchange_def)
next
  case (Inr body)
  obtain gate r where gate: "gate_exchange env (xd_services deps) (Some (admit_exchange env deps (xc_io call))) body
      (xd_authority deps) (jget (xd_authority deps) ''evaluationTime'') (start_run world) = (gate, r)" by fastforce
  have dir: "xr_dir r = fst world"
    using gate_keeps [of xr_dir "admit_exchange env deps (xc_io call)" env "xd_services deps" body "xd_authority deps"
        "jget (xd_authority deps) ''evaluationTime''" "start_run world"] admit_keeps(1) gate
    by (simp add: start_run_def)
  show ?thesis
  proof (cases gate)
    case (Inl reply)
    show ?thesis using Inr gate dir unfolding Inl
      by (rule gated) (simp add: handle_exchange_def Inr evaluateBoundedExchange_def hooks_admission gate Inl)
  next
    case run': (Inr rq)
    obtain request authority where rq: "rq = (request, authority)" by fastforce
    show ?thesis using Inr gate dir unfolding run' rq
      by (rule run) (simp add: handle_exchange_def Inr evaluateBoundedExchange_def gate run' rq hooks_admission)
  qed
qed

end
