(* ===== verification/A2a_Example.thy ===== *)
theory A2a_Example
  imports A2a_Handler Evaluation
begin

text \<open>
  An exchange that is allowed, for the examples: agent \<open>a\<close> delegates to \<open>b\<close> and \<open>b\<close> to \<open>c\<close>, who is the receiver.
  The digest of the environment is constant, an instant is read as its year, and every signature verifies.
\<close>

definition a2a_instant :: "nat \<Rightarrow> string" where
  "a2a_instant year = show_nat year @ ''-01-01T00:00:00.000Z''"

definition a2a_env :: js_env where
  "a2a_env = \<lparr>date_parse = (\<lambda>s. Some (int (read_nat (take 4 s)))), iso_at = (\<lambda>t. a2a_instant (nat t)),
     locale_compare = (\<lambda>_ _. 0), number_of_string = (\<lambda>_. None), string_of_fraction = (\<lambda>_. []),
     sha256_hex = (\<lambda>_. replicate 64 CHR ''a'')\<rparr>"

definition a_digest :: jsval where "a_digest = JStr (replicate 64 CHR ''a'')"

definition strs :: "string list \<Rightarrow> jsval" where "strs ss = JArr (map JStr ss)"

definition a2a_signature :: "string \<Rightarrow> jsval" where
  "a2a_signature key = JObj [(''algorithm'', JStr ''ed25519-v1''), (''keyReference'', JStr key),
     (''value'', JStr (replicate 86 CHR ''A''))]"

definition a2a_record :: "string \<Rightarrow> jsval \<Rightarrow> string list \<Rightarrow> jsval" where
  "a2a_record agent parent chain = JObj [(''agent_id'', JStr agent), (''agent_type'', JStr ''t''),
     (''allowed_connectors'', strs [''k1'', ''k2'']), (''allowed_memory_scopes'', strs []),
     (''allowed_tools'', strs [''t1'', ''t2'']), (''audit_requirements'', strs []), (''delegation_chain'', strs chain),
     (''delegation_scope'', strs [''read'', ''write'']), (''display_name'', JStr agent), (''expected_reason_code'', JNull),
     (''expected_status'', JStr ''valid''), (''expires_at'', JStr (a2a_instant 2040)), (''issued_at'', JStr (a2a_instant 2020)),
     (''owner_actor_id'', JStr ''o''), (''parent_agent_id'', parent), (''policy_version'', JStr ''p1''),
     (''provenance_refs'', strs []), (''receipt_refs'', strs []), (''revocation_reason'', JNull), (''revoked_at'', JNull),
     (''risk_tier'', JStr ''high''), (''trust_tier'', JStr ''t''), (''verification_status'', JStr ''valid''),
     (''workspace_id'', JStr ''default'')]"

definition a2a_party :: "string \<Rightarrow> jsval" where
  "a2a_party agent = JObj [(''agentId'', JStr agent), (''identityHash'', a_digest), (''identityRef'', JStr (''i'' @ agent))]"

definition a2a_identity :: "string \<Rightarrow> jsval \<Rightarrow> string list \<Rightarrow> jsval" where
  "a2a_identity agent parent chain = JObj [(''allowedPackageIds'', strs [''pk'']), (''keyReference'', JStr (''k'' @ agent)),
     (''record'', a2a_record agent parent chain), (''ref'', JStr (''i'' @ agent))]"

definition a2a_key :: "string \<Rightarrow> (string \<times> jsval) list \<Rightarrow> jsval" where
  "a2a_key key extra = JObj ([(''expiresAt'', JStr (a2a_instant 2040)), (''keyReference'', JStr key),
     (''publicKeySpkiDerBase64'', JStr (replicate 59 CHR ''A'' @ ''=''))] @ extra @ [(''status'', JStr ''active'')])"

definition a2a_authority :: jsval where
  "a2a_authority = JObj [(''authorityId'', JStr ''r''), (''evaluationTime'', JStr (a2a_instant 2026)),
     (''expectedTarget'', JObj [(''agentId'', JStr ''c''), (''identityHash'', a_digest), (''identityRef'', JStr ''ic''),
        (''workspaceId'', JStr ''default'')]),
     (''identities'', JArr [a2a_identity ''a'' JNull [''a''], a2a_identity ''b'' (JStr ''a'') [''a'', ''b''],
        a2a_identity ''c'' (JStr ''b'') [''a'', ''b'', ''c'']]),
     (''keys'', JArr [a2a_key ''ka'' [], a2a_key ''kb'' []]),
     (''receiptBindings'', JArr [JObj [(''expectedBundleHash'', a_digest), (''expectedInternalReceiptHash'', a_digest),
        (''keyId'', JStr ''rk''), (''publicReceiptId'', a_digest), (''purpose'', RECEIPT_PURPOSE)]]),
     (''receiptTrustedKeyRecords'', JArr [a2a_key ''rk'' [(''purpose'', RECEIPT_PURPOSE)]])]"

text \<open>The second hop narrows the first: one tool, one connector, a lower risk, an earlier end.\<close>

definition a2a_hop :: "string \<Rightarrow> string \<Rightarrow> jsval \<Rightarrow> string list \<Rightarrow> string list \<Rightarrow> string \<Rightarrow> nat \<Rightarrow> jsval" where
  "a2a_hop from to parent tools connectors risk year = JObj [(''allowedConnectors'', strs connectors),
     (''allowedTools'', strs tools), (''delegateId'', JStr to), (''delegatorId'', JStr from),
     (''expiresAt'', JStr (a2a_instant year)), (''keyReference'', JStr (''k'' @ from)), (''maxRiskTier'', JStr risk),
     (''parentDelegationHash'', parent), (''scope'', strs [''read'']), (''signature'', a2a_signature (''k'' @ from)),
     (''target'', JStr ''d''), (''workspaceId'', JStr ''default'')]"

definition a2a_hops :: "jsval list" where
  "a2a_hops = [a2a_hop ''a'' ''b'' JNull [''t1'', ''t2''] [''k1'', ''k2''] ''high'' 2035,
     a2a_hop ''b'' ''c'' a_digest [''t1''] [''k1''] ''low'' 2030]"

definition a2a_action :: jsval where
  "a2a_action = JObj [(''capability'', JStr ''read''), (''connector'', JStr ''k1''), (''parametersHash'', a_digest),
     (''riskTier'', JStr ''low''), (''target'', JStr ''d''), (''tool'', JStr ''t1'')]"

text \<open>The parts the chain and the constraints read; the evidence is its action digest.\<close>

definition a2a_request :: jsval where
  "a2a_request = JObj [(''constraints'', JObj [(''allowedConnectors'', strs [''k1'']), (''allowedTools'', strs [''t1'']),
        (''maxRiskTier'', JStr ''low'')]),
     (''delegation'', JObj [(''chain'', strs [''a'', ''b'', ''c'']), (''hops'', JArr a2a_hops)]),
     (''evidence'', JObj [(''actionHash'', a_digest)]), (''exchangeId'', JStr ''x1''), (''expiresAt'', JStr (a2a_instant 2028)),
     (''issuedAt'', JStr (a2a_instant 2025)), (''nonce'', JStr ''n1''),
     (''observation'', JObj [(''effectHash'', a_digest), (''observedActionHash'', a_digest),
        (''observedAt'', JStr (a2a_instant 2025)), (''observedRiskTier'', JStr ''low''), (''usedConnectors'', strs [''k1'']),
        (''usedTools'', strs [''t1''])]),
     (''participants'', JArr [a2a_party ''a'', a2a_party ''b'', a2a_party ''c'']), (''requestedAction'', a2a_action),
     (''source'', a2a_party ''a''), (''target'', a2a_party ''c''), (''workspaceId'', JStr ''default'')]"

definition a2a_participants :: participants where
  "a2a_participants = [(JStr ''a'', a2a_party ''a'', a2a_identity ''a'' JNull [''a'']),
     (JStr ''b'', a2a_party ''b'', a2a_identity ''b'' (JStr ''a'') [''a'', ''b'']),
     (JStr ''c'', a2a_party ''c'', a2a_identity ''c'' (JStr ''b'') [''a'', ''b'', ''c''])]"

end
