(* ===== verification/A2a_Properties.thy ===== *)
theory A2a_Properties
  imports A2a_Facts A2a_Example
begin

text \<open>
  The properties of the exchange of agents: what a delegation chain allows, that an effect runs at most once under
  any faults, that a refusal that invites a retry left nothing behind, and that the files of a receiver account for
  each other.
\<close>

section \<open>The directory as a store\<close>

lemma tasks_grow: "set (ad_tasks (fst world)) \<subseteq> set (ad_tasks (fst (handle_world env deps call world)))"
proof (cases rule: handle_cases [of env call deps world])
  case (refused reply)
  then show ?thesis by (simp add: handle_world_def)
next
  case (gated body reply r)
  then show ?thesis
    using reply_of_fields(1) [of env deps "xc_io call" body "(reply, r)"] by (simp add: handle_world_def split: prod.splits)
next
  case (run body request authority r)
  then show ?thesis
    using reply_of_fields(1) [of env deps "xc_io call" body "reserve_and_run env request authority (hooks_of env deps (xc_io call) body) r"]
      run_tasks [of env request authority deps "xc_io call" body r] reserved_dir_grows [of r env "xc_io call" request authority]
    by (simp add: handle_world_def split: prod.splits)
qed

lemma effect_behind_reservation:
  assumes "effect_started env deps call world"
  shows "\<exists>taskId. exchange_task env deps call = Some taskId \<and> taskId \<notin> set (ad_tasks (fst world))
    \<and> taskId \<in> set (ad_tasks (fst (handle_world env deps call world)))"
proof (cases rule: handle_cases [of env call deps world])
  case (refused reply)
  with assms show ?thesis by (simp add: effect_started_def)
next
  case (gated body reply r)
  have "reply \<noteq> Exchange_allowed JNull"
    using gate_not_allowed [of env "xd_services deps" "Some (admit_exchange env deps (xc_io call))" body "xd_authority deps"
        "jget (xd_authority deps) ''evaluationTime''" "start_run world" JNull r] gated(2) by blast
  with assms gated(1,2) show ?thesis by (simp add: effect_started_def evaluateBoundedExchange_def hooks_admission)
next
  case (run body request authority r)
  let ?xio = "xc_io call"
  have started: "fst (reserve_and_run env request authority ((hooks_of env deps ?xio body)\<lparr>eh_effect := \<lambda>r. (Some JNull, r)\<rparr>) r)
      = Exchange_allowed JNull"
    using assms run(1,2) by (simp add: effect_started_def evaluateBoundedExchange_def hooks_admission)
  obtain key where key: "canonical_hash env (replayKeyMaterial request authority) = Some key"
    using started by (cases "canonical_hash env (replayKeyMaterial request authority)") (simp_all add: run_no_key)
  obtain reserved d where res: "reserve env (xi_taskMarker ?xio) (xi_keyMarker ?xio) key (xr_dir r) = (reserved, d)" by fastforce
  have "reserved = Some True"
    using started unfolding run_eval [OF key res] by (simp add: Let_def split: option.splits if_splits)
  with reserve_cases [OF res] obtain taskId where task: "taskIdForReplayKey env key = Some taskId"
      "taskId \<notin> set (ad_tasks (xr_dir r))" "ad_tasks d = ad_tasks (xr_dir r) @ [taskId]" by blast
  have "exchange_task env deps call = Some taskId"
    using run(1) gate_inputs [OF run(2)] key task(1) by (simp add: exchange_task_def)
  moreover have "ad_tasks (fst (handle_world env deps call world)) = ad_tasks d"
    using run(4) reply_of_fields(1) [of env deps ?xio body "reserve_and_run env request authority (hooks_of env deps ?xio body) r"]
      run_tasks [of env request authority deps ?xio body r]
    by (simp add: handle_world_def reserved_dir_def key res split: prod.splits)
  ultimately show ?thesis using task run(3) by auto
qed

interpretation exchanges: once_store task_marked "handle_world env deps" "effect_started env deps" "exchange_task env deps"
  for env :: js_env and deps :: exchange_deps
proof unfold_locales
  fix s k v x
  assume "task_marked s k = Some v"
  then show "task_marked (handle_world env deps x s) k = Some v"
    using tasks_grow [of s env deps x] by (auto simp: task_marked_def split: option.splits if_splits)
next
  fix x s
  assume "effect_started env deps x s"
  from effect_behind_reservation [OF this] show "task_marked s (exchange_task env deps x) = None"
    by (auto simp: task_marked_def)
next
  fix x s
  assume "effect_started env deps x s"
  from effect_behind_reservation [OF this]
  show "\<exists>v. task_marked (handle_world env deps x s) (exchange_task env deps x) = Some v"
    by (auto simp: task_marked_def)
qed

section \<open>The files account for each other\<close>

definition dir_ok :: "js_env \<Rightarrow> a2a_dir \<Rightarrow> bool" where
  "dir_ok env d = (distinct (ad_tasks d) \<and> distinct (ad_reserved d) \<and> distinct (map fst (ad_completed d))
     \<and> fst ` set (ad_completed d) \<subseteq> set (ad_tasks d)
     \<and> (\<forall>key\<in>set (ad_reserved d). \<exists>taskId\<in>set (ad_tasks d). taskIdForReplayKey env key = Some taskId))"

lemma reserve_ok: "dir_ok env d \<Longrightarrow> dir_ok env (snd (reserve env taskFault keyFault key d))"
  by (auto simp: reserve_def Let_def dir_ok_def split: option.splits)

lemma reserve_marks:
  "reserve env taskFault keyFault key d = (Some b, d') \<Longrightarrow>
     \<exists>taskId\<in>set (ad_tasks d'). taskIdForReplayKey env key = Some taskId"
  by (auto simp: reserve_def Let_def split: option.splits if_splits)

lemma completion_ok:
  assumes "dir_ok env d" and "\<exists>taskId\<in>set (ad_tasks d). taskIdForReplayKey env key = Some taskId"
  shows "dir_ok env (snd (recordCompletion env fault key effect d))"
  using assms by (auto simp: recordCompletion_def dir_ok_def split: option.splits)

lemma effect_ok:
  assumes "dir_ok env (xr_dir r)" and "\<exists>taskId\<in>set (ad_tasks (xr_dir r)). taskIdForReplayKey env (xr_replayKey r) = Some taskId"
  shows "dir_ok env (xr_dir (snd (exchange_effect env deps xio body r)))"
  using assms(1) completion_ok [OF assms]
  by (auto simp: exchange_effect_def Let_def split: option.splits prod.splits) (metis snd_conv)+

lemma run_ok:
  assumes ok: "dir_ok env (xr_dir r)"
  shows "dir_ok env (xr_dir (snd (reserve_and_run env request authority (hooks_of env deps xio body) r)))"
proof (cases "canonical_hash env (replayKeyMaterial request authority)")
  case None
  with ok show ?thesis by (simp add: run_no_key)
next
  case (Some key)
  obtain reserved d where res: "reserve env (xi_taskMarker xio) (xi_keyMarker xio) key (xr_dir r) = (reserved, d)" by fastforce
  let ?r = "r\<lparr>xr_dir := d, xr_replayKey := key\<rparr>"
  have d: "dir_ok env d" using reserve_ok [OF ok, of "xi_taskMarker xio" "xi_keyMarker xio" key] res by simp
  show ?thesis
  proof (cases "reserved = Some True")
    case True
    then have "dir_ok env (xr_dir (snd (exchange_effect env deps xio body ?r)))"
      using d reserve_marks [of env _ _ key] res by (intro effect_ok) auto
    then show ?thesis
      by (subst hooks_effect, subst run_eval [OF Some res]) (auto simp: True Let_def split: option.splits prod.splits)
  next
    case False
    then show ?thesis using d
      by (subst hooks_effect, subst run_eval [OF Some res]) (auto simp: Let_def split: option.splits)
  qed
qed

lemma dir_ok_fields:
  "ad_tasks d = ad_tasks d' \<Longrightarrow> ad_reserved d = ad_reserved d' \<Longrightarrow> ad_completed d = ad_completed d' \<Longrightarrow> dir_ok env d = dir_ok env d'"
  by (simp add: dir_ok_def)

lemma handle_ok: "dir_ok env (fst world) \<Longrightarrow> dir_ok env (fst (handle_world env deps call world))"
proof (cases rule: handle_cases [of env call deps world])
  case (gated body reply r)
  assume "dir_ok env (fst world)"
  then show ?thesis
    using gated dir_ok_fields [OF reply_of_fields [of env deps "xc_io call" body "(reply, r)"], of env]
    by (simp add: handle_world_def split: prod.splits)
next
  case (run body request authority r)
  assume "dir_ok env (fst world)"
  with run(3) have "dir_ok env (xr_dir r)" by simp
  from run_ok [OF this, of request authority deps "xc_io call" body] run(4)
    dir_ok_fields [OF reply_of_fields [of env deps "xc_io call" body
      "reserve_and_run env request authority (hooks_of env deps (xc_io call) body) r"], of env]
  show ?thesis by (simp add: handle_world_def split: prod.splits)
qed (simp add: handle_world_def)

lemma handles_ok: "dir_ok env (fst world) \<Longrightarrow> dir_ok env (fst (fold (handle_world env deps) calls world))"
  by (induction calls arbitrary: world) (simp_all add: handle_ok)

definition empty_a2a_dir :: a2a_dir where
  "empty_a2a_dir = \<lparr>ad_tasks = [], ad_reserved = [], ad_completed = [], ad_audit = []\<rparr>"

section \<open>Properties\<close>

text \<open>
  C13: delegated authority only shrinks.  When the delegation chain of an exchange is accepted, every hop is signed
  with the key of its delegator, is within the identities of both its agents and within every earlier hop (scope,
  tools, connectors, target, risk, expiry).  When the constraints hold as well, what the action asks, its capability,
  tool, connector, target, risk and expiry, is within every hop of the chain, so no chain gives the last agent more
  than any agent before it had.
\<close>

theorem delegated_authority_shrinks:
  assumes chain: "validateDelegation env ed request participants authority now = None"
    and constraints: "constraints_hold env request now"
  shows "\<exists>agents hops. jget (jget request ''delegation'') ''chain'' = JArr agents
    \<and> jget (jget request ''delegation'') ''hops'' = JArr hops \<and> length hops = length agents - 1
    \<and> sorted_wrt (\<lambda>earlier later. within_hop env later earlier) hops
    \<and> (\<forall>i < length hops. hop_grants env ed participants authority now agents i (hops ! i)
        \<and> action_within env request (hops ! i))"
proof -
  from delegation_hops [OF chain] obtain agents hops where ch:
    "jget (jget request ''delegation'') ''chain'' = JArr agents" "jget (jget request ''delegation'') ''hops'' = JArr hops"
    "length hops = length agents - 1" "check_hops env ed request participants authority now agents 0 JNull None hops = None"
    by blast
  have sorted: "sorted_wrt (\<lambda>earlier later. within_hop env later earlier) hops" using check_hops_attenuate [OF ch(4)] .
  have "action_within env request (hops ! i)" if "i < length hops" for i
  proof -
    have "hops \<noteq> []" using that by auto
    with ch(2) constraints_within_last [OF constraints] have last: "action_within env request (last hops)"
      by (simp add: last_hop_last)
    from sorted_wrt_last [OF sorted, of "hops ! i"] that within_wider [OF last] last show ?thesis by auto
  qed
  with ch sorted check_hops_grants [OF ch(4)] show ?thesis by auto
qed

lemma a2a_delegation_ok:
  "validateDelegation a2a_env (\<lambda>_ _ _. True) a2a_request a2a_participants a2a_authority (JStr (a2a_instant 2026)) = None"
  by code_simp

lemma a2a_constraints_ok: "constraints_hold a2a_env a2a_request (JStr (a2a_instant 2026))"
  by code_simp

theorem delegated_authority_shrinks_witness:
  "\<exists>agents hops. jget (jget a2a_request ''delegation'') ''chain'' = JArr agents
    \<and> jget (jget a2a_request ''delegation'') ''hops'' = JArr hops \<and> length hops = length agents - 1
    \<and> sorted_wrt (\<lambda>earlier later. within_hop a2a_env later earlier) hops
    \<and> (\<forall>i < length hops. hop_grants a2a_env (\<lambda>_ _ _. True) a2a_participants a2a_authority (JStr (a2a_instant 2026))
        agents i (hops ! i) \<and> action_within a2a_env a2a_request (hops ! i))"
  by (rule delegated_authority_shrinks [OF a2a_delegation_ok a2a_constraints_ok])

text \<open>
  C14: the effect of an exchange runs at most once.  Whatever requests arrive in whatever order, with whatever faults
  of the files (an operation refused, or a write that stops anywhere, in the reservation or in the record of the
  completion) and from whatever directory, at most one of the requests with the same task runs its effect.
\<close>

theorem effect_runs_at_most_once:
  "fresh_commits (handle_world env deps) (effect_started env deps) (exchange_task env deps) task world calls \<le> 1"
  by (rule exchanges.at_most_once)

text \<open>
  C15: a refusal that calls itself safe to retry left nothing behind.  When the route answers a request with
  \<open>safeToRetry\<close>, the request reserved nothing, recorded nothing and ran no effect: only the audit of delegations
  may have a new row.
\<close>

theorem safe_to_retry_left_nothing:
  assumes handled: "handle_exchange env deps call world = (Some reply, world')"
    and safe: "jget (hr_body reply) ''safeToRetry'' = JBool True"
  shows "ad_tasks (fst world') = ad_tasks (fst world) \<and> ad_reserved (fst world') = ad_reserved (fst world)
    \<and> ad_completed (fst world') = ad_completed (fst world) \<and> \<not> effect_started env deps call world"
proof (cases rule: handle_cases [of env call deps world])
  case (refused r)
  with handled show ?thesis by (simp add: effect_started_def)
next
  case (gated body r run)
  have "r \<noteq> Exchange_allowed JNull"
    using gate_not_allowed [of env "xd_services deps" "Some (admit_exchange env deps (xc_io call))" body "xd_authority deps"
        "jget (xd_authority deps) ''evaluationTime''" "start_run world" JNull run] gated(2) by blast
  with gated(1,2) have "\<not> effect_started env deps call world"
    by (simp add: effect_started_def evaluateBoundedExchange_def hooks_admission)
  with gated handled reply_of_fields [of env deps "xc_io call" body "(r, run)"] show ?thesis
    by (auto split: prod.splits)
next
  case (run body request authority r)
  obtain answer r1 where res: "reserve_and_run env request authority (hooks_of env deps (xc_io call) body) r = (answer, r1)"
    by fastforce
  note kinds = reserve_and_run_reply [of env request authority "hooks_of env deps (xc_io call) body" r, unfolded res fst_conv]
  have reply: "fst (reply_of env deps (xc_io call) body (answer, r1)) = Some reply"
    using run(4) handled res by (auto split: prod.splits)
  show ?thesis
  proof (cases answer)
    case (Exchange_blocked reason)
    with kinds(2) have "\<not> classifyEvaluatorReason reason" by (auto simp: classifyEvaluatorReason_def RETRYABLE_EVALUATOR_REASONS_def)
    with reply safe Exchange_blocked show ?thesis by (auto simp: reply_of_def evaluatorRefusal_def Let_def)
  next
    case (Exchange_not_admitted d)
    with kinds(1) [of d] show ?thesis by simp
  next
    case (Exchange_allowed effect)
    with reply safe show ?thesis by (auto simp: reply_of_def)
  qed
qed

definition a2a_deps :: exchange_deps where
  "a2a_deps = \<lparr>xd_services = \<lparr>sv_ed25519 = (\<lambda>_ _ _. True), sv_packageGate = (\<lambda>_. None), sv_importReceipt = (\<lambda>_ _ _ _ _. False)\<rparr>,
     xd_firewall = (\<lambda>_. None), xd_authority = JObj [(''evaluationTime'', JStr ''x'')]\<rparr>"

definition a2a_call :: exchange_call where
  "a2a_call = \<lparr>xc_io = \<lparr>xi_taskMarker = Works, xi_keyMarker = Works, xi_completion = Works, xi_audit = Works,
       xi_auditName = ''n'', xi_recordedAt = ''t'', xi_clocks = (\<lambda>_ _. ''t'')\<rparr>,
     xc_method = JStr ''post'', xc_body = Body_read (JObj [(''ok'', JBool True), (''data'', JObj [(''nonce'', JStr ''n'')])])\<rparr>"

definition a2a_world :: "a2a_dir \<times> stop_dir" where
  "a2a_world = (empty_a2a_dir, \<lparr>sd_ledger = Ledger_absent, sd_files = [], sd_listing = Dir_absent, sd_receipts = []\<rparr>)"

lemma a2a_refusal:
  "map_option hr_body (fst (handle_exchange a2a_env a2a_deps a2a_call a2a_world)) = Some (JObj [(''decision'', JStr ''block''),
     (''reason'', JStr ''authority_invalid''), (''safeToRetry'', JBool True)])"
  by code_simp

theorem safe_to_retry_left_nothing_witness:
  "\<exists>reply world'. handle_exchange a2a_env a2a_deps a2a_call a2a_world = (Some reply, world')
     \<and> ad_tasks (fst world') = ad_tasks (fst a2a_world) \<and> ad_reserved (fst world') = ad_reserved (fst a2a_world)
     \<and> ad_completed (fst world') = ad_completed (fst a2a_world) \<and> \<not> effect_started a2a_env a2a_deps a2a_call a2a_world"
proof -
  obtain answer world' where handled: "handle_exchange a2a_env a2a_deps a2a_call a2a_world = (answer, world')"
    by (rule prod.exhaust)
  with a2a_refusal obtain reply where "answer = Some reply" "jget (hr_body reply) ''safeToRetry'' = JBool True" by auto
  with handled safe_to_retry_left_nothing [of a2a_env a2a_deps a2a_call a2a_world reply world'] show ?thesis by auto
qed

lemma recorded_completion:
  assumes "recordCompletion env fault key effect d = (Some taskId, d')" and "taskId \<notin> fst ` set (ad_completed d)"
  shows "\<exists>payload. stringify env (completion_record taskId effect) = Some payload \<and> map_of (ad_completed d') taskId = Some payload"
proof -
  from assms(2) have "map_of (ad_completed d) taskId = None" by (simp add: map_of_eq_None_iff)
  with assms show ?thesis by (cases fault) (auto simp: recordCompletion_def map_add_def split: option.splits if_splits)
qed

lemma effect_recorded:
  assumes "exchange_effect env deps xio body r = (Some effect, r')" and "taskIdForReplayKey env (xr_replayKey r) = Some taskId"
    and "taskId \<notin> fst ` set (ad_completed (xr_dir r))"
  shows "jget effect ''taskId'' = JStr taskId \<and> (\<exists>payload. stringify env (completion_record taskId effect) = Some payload
    \<and> map_of (ad_completed (xr_dir r')) taskId = Some payload)"
proof -
  from assms(1,2) obtain metadata where "effect = JObj [(''admitted'', JBool True),
      (''exchangeId'', JStr (text_or env (jget body ''exchangeId'') [])),
      (''evaluatedAt'', jget (xd_authority deps) ''evaluationTime''), (''taskId'', JStr taskId), (''receiptMetadata'', metadata)]"
    by (auto simp: exchange_effect_def Let_def split: option.splits prod.splits)
  moreover obtain u where rec: "recordCompletion env (xi_completion xio) (xr_replayKey r) effect (xr_dir r) = (Some u, xr_dir r')"
    using assms(1,2) by (auto simp: exchange_effect_def Let_def split: option.splits prod.splits)
  moreover from rec assms(2) have "u = taskId" by (auto simp: recordCompletion_def split: option.splits if_splits)
  ultimately show ?thesis using recorded_completion [of env _ _ effect _ taskId] assms(3) by auto
qed

text \<open>
  C16: what an allowed exchange did can be looked up.  When the reservation and the effect succeed, the task the
  reply names was not reserved before, is reserved now, and its record is the whole text of the completion with the
  effect of the reply, in a directory whose files account for each other.
\<close>

theorem allowed_effect_is_recorded:
  assumes ok: "dir_ok env (xr_dir r)"
    and allowed: "reserve_and_run env request authority (hooks_of env deps xio body) r = (Exchange_allowed effect, r')"
  shows "\<exists>taskId payload. jget effect ''taskId'' = JStr taskId \<and> taskId \<notin> set (ad_tasks (xr_dir r))
    \<and> taskId \<in> set (ad_tasks (xr_dir r')) \<and> stringify env (completion_record taskId effect) = Some payload
    \<and> map_of (ad_completed (xr_dir r')) taskId = Some payload"
proof -
  obtain key where key: "canonical_hash env (replayKeyMaterial request authority) = Some key"
    using allowed by (cases "canonical_hash env (replayKeyMaterial request authority)") (simp_all add: run_no_key)
  obtain reserved d where res: "reserve env (xi_taskMarker xio) (xi_keyMarker xio) key (xr_dir r) = (reserved, d)" by fastforce
  have allowed': "reserve_and_run env request authority ((hooks_of env deps xio body)\<lparr>eh_effect := exchange_effect env deps xio body\<rparr>) r
      = (Exchange_allowed effect, r')"
    by (subst hooks_effect [symmetric]) (rule allowed)
  have run: "reserved = Some True" "exchange_effect env deps xio body (r\<lparr>xr_dir := d, xr_replayKey := key\<rparr>) = (Some effect, r')"
    using allowed' unfolding run_eval [OF key res] by (auto simp: Let_def split: option.splits if_splits prod.splits)
  from reserve_cases [OF res] run(1) obtain taskId where task: "taskIdForReplayKey env key = Some taskId"
      "taskId \<notin> set (ad_tasks (xr_dir r))" "ad_tasks d = ad_tasks (xr_dir r) @ [taskId]" "ad_completed d = ad_completed (xr_dir r)"
    by blast
  have "taskId \<notin> fst ` set (ad_completed d)" using ok task by (auto simp: dir_ok_def)
  from effect_recorded [OF run(2), of taskId] this task
    effect_tasks [of env deps xio body "r\<lparr>xr_dir := d, xr_replayKey := key\<rparr>"] run(2)
  show ?thesis by auto
qed

definition a2a_verified :: exchange_run where
  "a2a_verified = (start_run a2a_world)\<lparr>xr_firewall := JObj []\<rparr>"

lemma a2a_allowed:
  "(case fst (reserve_and_run a2a_env (JObj [(''nonce'', JStr ''n'')]) (JObj [(''authorityId'', JStr ''r'')])
      (hooks_of a2a_env a2a_deps (xc_io a2a_call) (JObj [(''exchangeId'', JStr ''x'')])) a2a_verified) of
    Exchange_allowed _ \<Rightarrow> True | _ \<Rightarrow> False)"
  by code_simp

theorem allowed_effect_is_recorded_witness:
  "\<exists>effect r' taskId payload. reserve_and_run a2a_env (JObj [(''nonce'', JStr ''n'')]) (JObj [(''authorityId'', JStr ''r'')])
      (hooks_of a2a_env a2a_deps (xc_io a2a_call) (JObj [(''exchangeId'', JStr ''x'')])) a2a_verified
        = (Exchange_allowed effect, r')
     \<and> jget effect ''taskId'' = JStr taskId \<and> map_of (ad_completed (xr_dir r')) taskId = Some payload"
proof -
  obtain answer r' where ran: "reserve_and_run a2a_env (JObj [(''nonce'', JStr ''n'')]) (JObj [(''authorityId'', JStr ''r'')])
      (hooks_of a2a_env a2a_deps (xc_io a2a_call) (JObj [(''exchangeId'', JStr ''x'')])) a2a_verified = (answer, r')"
    by (rule prod.exhaust)
  with a2a_allowed obtain effect where "answer = Exchange_allowed effect" by (auto split: exchange_reply.splits)
  moreover have "dir_ok a2a_env (xr_dir a2a_verified)" by (simp add: a2a_verified_def start_run_def a2a_world_def dir_ok_def empty_a2a_dir_def)
  ultimately show ?thesis using allowed_effect_is_recorded ran by blast
qed

text \<open>
  The files of a receiver account for each other, after any requests with any faults from an empty directory:
  no task, key or completion is marked twice, a completion is of a task that was reserved, and a reserved key has
  the marker of its task.
\<close>

theorem receiver_files_agree:
  "dir_ok env (fst (fold (handle_world env deps) calls (empty_a2a_dir, halts)))"
  by (rule handles_ok) (simp add: dir_ok_def empty_a2a_dir_def)

end
