(* ===== verification/Spec2Isabelle.thy ===== *)
theory Spec2Isabelle
  imports Oversight_Properties Emergency_Stop_Properties Json_Transaction_Facts Hash_Chain_Facts
    Mutation_Journal_Facts Trust_Ledger_Facts Authority_Properties Authority_Totp_Facts
    Backward_Properties Derived_Properties Belief_Properties Inference_Runtime_Properties
    Break_Glass_Properties A2a_Properties
begin

text \<open>
  A verification development for HUQAN (\<open>src/\<close>), a local gate that holds the risky actions of AI
  agents for a human decision, records every decision as a hash-linked receipt, and can stop an agent
  or a workspace.  The development models the part of \<open>src/lib\<close> that decides, records and stops; the
  transport around it (HTTP, MCP, command line) only calls these functions.

  How the parts interact.  The oversight runtime (\<open>human-oversight-approval-runtime*.js\<close>) opens review
  cases, takes decisions on them and lets an executor run; each of its steps is one mutation of a graph
  store (\<open>graph-mutation-runtime.js\<close>), which runs at most once per operation id, and carries a trust
  evidence event (\<open>trust-evidence-ledger.js\<close>) whose receipt is chained (\<open>hash-chain.js\<close>,
  \<open>receipt/receipt-chain.js\<close>).  The store commits its files through a redo log
  (\<open>graph-json-transaction.js\<close>).  The approval authority (\<open>authority/*.js\<close>, \<open>approval-rbac.js\<close>) is a service
  of its own that holds the keys: a runtime registers a pending approval, operators decide it with
  one-time codes or API keys, alone or as a quorum, the runtime consumes the decision before it executes
  and records the outcome; every step is an entry of a hash-linked ledger, and the service keeps nothing
  else but the progress of the one-time codes.  The emergency stop (\<open>emergency-stop.js\<close>) is a ledger of its own
  beside the store.

  The theories.
    \<^item> \<open>Js_Prelude\<close>, \<open>Canonical_Json\<close>, \<open>Json_Injective\<close>: JavaScript values, results that may throw, and
      canonical JSON; the canonical text determines the data.
    \<^item> \<open>Linked_Log\<close> (locale \<open>hash_linked\<close>), \<open>Hash_Chain\<close>, \<open>Hash_Chain_Facts\<close>: the receipt chain and the
      checkpoint lineage; interpretation \<open>receipts\<close>.
    \<^item> \<open>Once_Store\<close> (locale \<open>once_store\<close>), \<open>Mutation_Journal\<close>, \<open>Mutation_Journal_Facts\<close>: the journal of
      committed operations and run-once; interpretation \<open>journal\<close>.
    \<^item> \<open>Base64\<close>, \<open>Json_Transaction\<close>, \<open>Json_Transaction_Facts\<close>: the redo log.  Every write and unlink of a commit
      and of a recovery may be done, fail, or be the last before the process stops; a commit is all or nothing.
    \<^item> \<open>Trust_Ledger\<close>, \<open>Trust_Ledger_Facts\<close>: the events, their bounds and their verification.
    \<^item> \<open>Oversight_Types\<close>, \<open>Oversight_State\<close>, \<open>Oversight_Cases\<close>, \<open>Oversight_Decide\<close>,
      \<open>Oversight_Execution\<close> (model), \<open>Oversight_Facts\<close> (interpretation \<open>executions\<close> of \<open>once_store\<close>),
      \<open>Oversight_Example\<close>, \<open>Oversight_Properties\<close>: human oversight.
    \<^item> \<open>Emergency_Stop\<close> (model), \<open>Emergency_Stop_Facts\<close>, \<open>Emergency_Stop_Chain\<close> (interpretation
      \<open>stop_ledger\<close> of \<open>hash_linked\<close>), \<open>Emergency_Stop_Properties\<close>: the emergency stop.
    \<^item> \<open>Break_Glass\<close>: the ledger of override windows, the windows and the gate that relaxes a review
      (\<open>break-glass*.js\<close>); \<open>Break_Glass_Facts\<close>: lawful ledgers and what a replay of one reads off;
      \<open>Break_Glass_Properties\<close>: the processes as a step relation, the bounds of a window in every interleaving
      (the random part of a new id is stable when it is read again, as \<open>randomUUID\<close> documents), the gate, and
      an id that destroys the ledger.
    \<^item> \<open>Approval_Rbac\<close>, \<open>Approval_Rbac_Facts\<close>: the policy of roles, API keys and quorums.
    \<^item> \<open>Authority_Totp\<close>, \<open>Authority_Totp_Facts\<close>: one-time codes, their base32 secret and the failure limit.
    \<^item> \<open>Authority_Envelope\<close>: the statements the authority signs and the guard of the runtime;
      \<open>Authority_Ledger\<close>: events, ledger file, approvals folded from it, quorum progress, registrations; an
      append may fail with nothing, with part of a line or with a line without its newline on the disk;
      \<open>Authority_Service\<close> and \<open>Authority_Decide\<close>: the service and all its requests, as steps that may leave
      early with an answer or throw, with failing appends and saves and restarts.
    \<^item> \<open>Authority_Protocol\<close>: the abstract protocol, which event may follow which history;
      \<open>Authority_Steps\<close>, \<open>Authority_Invariants\<close> (locale \<open>request_invariant\<close>), \<open>Authority_Requests\<close>: triples
      for the steps, and that every request keeps the protocol and any invariant that meets the contract;
      \<open>Authority_Durable\<close> (interpretations \<open>kept\<close> and \<open>grown\<close>): what is on disk through requests and
      restarts, and which restarts are clean; \<open>Authority_Example\<close>, \<open>Authority_Properties\<close>: the properties of
      runs, and an entry that is lost after a restart that is not clean.
    \<^item> \<open>Json_Parse\<close>: \<open>JSON.parse\<close> as a function on texts, and its round trip with \<open>JSON.stringify\<close>;
      \<open>Rule_Ir\<close>, \<open>Rule_Ir_Facts\<close>: the rule language of the inference engine (\<open>inference-rule-ir.js\<close>);
      \<open>Unification\<close>, \<open>Unification_Facts\<close>: matching of its atoms with facts (\<open>inference-unification.js\<close>);
      \<open>Semi_Naive\<close>: the evaluation of rules over facts, round by round (\<open>inference-semi-naive*.js\<close>);
      \<open>Semi_Naive_Joins\<close> (locale \<open>matcher\<close>, interpretation \<open>unifier\<close>): a join enumerates the common
      instances of the body atoms, within a bound of operations; \<open>Semi_Naive_Facts\<close>: the least model as an
      inductive set, and the invariant of the rounds; \<open>Semi_Naive_Properties\<close>: soundness, completeness,
      termination and limits of the evaluation.
    \<^item> \<open>Backward\<close>: the proof search for one query (\<open>inference-backward*.js\<close>); \<open>Backward_Facts\<close> (locale
      \<open>prover\<close>, the contract between the levels of the search, interpretation \<open>search\<close>; locale \<open>explainer\<close>,
      which extends it, interpretation \<open>explained\<close>): a proof that is returned checks, and what a failure
      names is found among the goals that the query leads to; \<open>Backward_Properties\<close>: soundness
      against the least model, limits, the causes of an answer, and a query that follows although the
      answer is \<open>not_proven\<close>.
    \<^item> \<open>Derived_Record\<close>, \<open>Derived_Dependency\<close>: the record of a derived fact, its states and history, and
      the withdrawal of everything that rests on a support (\<open>inference-derived-*.js\<close>);
      \<open>Derived_Record_Facts\<close>: the life of a record as an inductive relation and its invariant;
      \<open>Derived_Dependency_Facts\<close>: the dependents as an inductive set and the invariant of the work list;
      \<open>Derived_Properties\<close>: the past is not rewritten, and a withdrawal is complete and exact.
    \<^item> \<open>Belief_Values\<close>, \<open>Belief_Revision\<close>: the calibration of a rule by observed outcomes and the beliefs in
      derived facts (\<open>inference-belief-revision*.js\<close>); \<open>Belief_Groups\<close>: the union-find of the code, whose
      groups are the connected components; \<open>Belief_Properties\<close>: series of calibrations, in which the confidence
      never rises, and when confirmations keep a rule from admitting.
    \<^item> \<open>Derived_Admission\<close>, \<open>Inference_Runtime\<close>: the seam between derived facts and the ingress of candidate
      claims, and the requests that compose rules, evaluation, records and admission
      (\<open>inference-derived-admission.js\<close>, \<open>inference-runtime.js\<close>); \<open>Inference_Runtime_Properties\<close>: the records
      of a request are those of its evaluation, when a record is admitted, and an example of a support nobody looks at.
    \<^item> \<open>A2a_Values\<close>, \<open>A2a_Authority\<close>, \<open>A2a_Exchange\<close>, \<open>A2a_Run\<close>: the exchange between agents, from untrusted data
      to the effect: guards, authority, keys, delegation chain, evidence, reservation and task records
      (\<open>a2a/bounded-exchange*.js\<close>, \<open>replay-store.js\<close>, \<open>task-store.js\<close>, \<open>receipt/trusted-key-resolver.js\<close>);
      \<open>A2a_Route\<close>, \<open>A2a_Handler\<close>: the route of the receiver with its admission, refusals and audit
      (\<open>a2a/exchange-route-*.js\<close>, \<open>inter-agent-receipt-chain.js\<close>, \<open>delegation-audit-log.js\<close>, \<open>task-route.js\<close>);
      \<open>A2a_Facts\<close>, \<open>A2a_Example\<close>, \<open>A2a_Properties\<close> (interpretation \<open>exchanges\<close> of \<open>once_store\<close>): authority
      shrinks along a chain, an effect runs at most once, what a refusal leaves behind, and that the files agree.
    \<^item> \<open>Example_Env\<close>, \<open>Evaluation\<close>: a concrete environment and code equations for the examples.

  How the code is read.  A value is \<open>jsval\<close>; an object keeps its own properties in order.  A function
  that may throw returns a sum, \<open>Inl\<close> for the error or refusal.  State is passed explicitly.  Every
  reading of the clock is an argument, so that each reading may differ.  Loops are structural
  recursions, or recursions with a measure (the rounds of an evaluation, the reader of JSON); no fuel is used.
  The loops whose end rests on the data (the work list of a withdrawal, the search for
  a representative) are partial functions into an
  option, and a property shows that they return.  SHA-256, the reading of dates, collation and the digits of fractions are
  fields of the environment \<open>js_env\<close> and arguments of the definitions; a property that needs the digest
  to have no collision assumes it on the finite set of texts involved only.  Identity resolvers, the
  action firewall, the sealing of receipts and the cryptographic primitives are function arguments.

  Assumptions of the model.  Strings are in the Latin-1 range, numbers are exact rationals (the code
  computes with integers below \<open>2 ^ 53\<close> where the model does); writing a file that can be written
  is atomic, as the code's write-then-rename makes it, and succeeds where no failure is modelled (the redo log,
  the authority's ledger and the files of the exchange have theirs); the ledger files of the emergency stop
  and of break glass end with a newline.

  Not modelled.  The SQLite backend (its guarantees are those of the library), HTTP, MCP and command
  line handling, identity federation, the cognitive lab and the statistics over floating-point numbers,
  natural language processing, the web interface, scripts.  Of the approval authority:
  key agreement, encryption, signatures, scrypt and HMAC are arguments; the installation, access
  control lists and the HTTP server are not modelled.  Capability tokens of the MCP server,
  abduction and the cursors of an agent-to-agent handoff are separate components that no modelled function
  calls; of the exchange between agents, sockets and the reading of its configuration are not modelled, and the
  package gate, the import of a public receipt and the agent-action firewall are arguments.
\<close>

end
